(* ===== verification/Prelude.thy ===== *)
theory Prelude
  imports Main "HOL-Library.Sublist" "HOL-Library.AList" "HOL-Library.Char_ord"
    "HOL-Library.List_Lexorder" "HOL-Library.Multiset"
begin

text \<open>
  What every component shares: results (\<open>Inl\<close> an error, \<open>Inr\<close> a value, in the order the
  Go code checks things), loops that stop at the first error, and Go maps as association
  lists with distinct keys. A Go map has no iteration order; the association list keeps the
  order of insertion, which is one of the orders a \<open>range\<close> loop may take, and the components
  prove where a result does not depend on it.
\<close>

named_theorems result_simps "evaluation of results and of loops over results"
named_theorems go_simps "evaluation of the Go string library on concrete shapes"

type_synonym ('e, 'a) result = "'e + 'a"

section \<open>Results\<close>

definition rbind :: "('e, 'a) result \<Rightarrow> ('a \<Rightarrow> ('e, 'b) result) \<Rightarrow> ('e, 'b) result" where
  "rbind m f = (case m of Inl e \<Rightarrow> Inl e | Inr x \<Rightarrow> f x)"

definition map_err :: "('e \<Rightarrow> 'd) \<Rightarrow> ('e, 'a) result \<Rightarrow> ('d, 'a) result" where
  "map_err g m = (case m of Inl e \<Rightarrow> Inl (g e) | Inr x \<Rightarrow> Inr x)"

definition guard_or :: "bool \<Rightarrow> 'e \<Rightarrow> ('e, unit) result" where
  "guard_or b e = (if b then Inr () else Inl e)"

definition is_ok :: "('e, 'a) result \<Rightarrow> bool" where
  "is_ok m = (case m of Inl _ \<Rightarrow> False | Inr _ \<Rightarrow> True)"

lemma rbind_simps [simp, result_simps]:
  "rbind (Inl e) f = Inl e"
  "rbind (Inr x) f = f x"
  by (simp_all add: rbind_def)

lemma map_err_simps [simp, result_simps]:
  "map_err g (Inl e) = Inl (g e)"
  "map_err g (Inr x) = Inr x"
  by (simp_all add: map_err_def)

lemma is_ok_simps [simp, result_simps]: "\<not> is_ok (Inl e)" "is_ok (Inr x)"
  by (simp_all add: is_ok_def)

lemma is_ok_iff: "is_ok m \<longleftrightarrow> (\<exists>x. m = Inr x)"
  by (cases m) auto

lemma rbind_Inr_iff: "rbind m f = Inr y \<longleftrightarrow> (\<exists>x. m = Inr x \<and> f x = Inr y)"
  by (cases m) auto

lemma rbind_Inl_iff: "rbind m f = Inl e \<longleftrightarrow> m = Inl e \<or> (\<exists>x. m = Inr x \<and> f x = Inl e)"
  by (cases m) auto

lemma map_err_Inr_iff [simp]: "map_err g m = Inr y \<longleftrightarrow> m = Inr y"
  by (cases m) auto

lemma guard_or_Inr_iff [simp]: "guard_or b e = Inr u \<longleftrightarrow> b"
  by (simp add: guard_or_def)

lemma rbind_cong [fundef_cong]:
  assumes "m = m'" "\<And>x. m' = Inr x \<Longrightarrow> f x = f' x"
  shows "rbind m f = rbind m' f'"
  using assms by (cases m') auto

section \<open>Loops that stop at the first error\<close>

text \<open>\<open>for _, x := range xs { if err := f(x); err != nil { return err } }\<close>\<close>

fun check_all :: "('a \<Rightarrow> ('e, unit) result) \<Rightarrow> 'a list \<Rightarrow> ('e, unit) result" where
  "check_all f [] = Inr ()"
| "check_all f (x # xs) = rbind (f x) (\<lambda>_. check_all f xs)"

text \<open>The same with loop state: each round returns the next state or an error.\<close>

fun fold_result :: "('a \<Rightarrow> 's \<Rightarrow> ('e, 's) result) \<Rightarrow> 'a list \<Rightarrow> 's \<Rightarrow> ('e, 's) result" where
  "fold_result f [] s = Inr s"
| "fold_result f (x # xs) s = rbind (f x s) (\<lambda>s'. fold_result f xs s')"

lemma check_all_ok_iff: "check_all f xs = Inr u \<longleftrightarrow> (\<forall>x \<in> set xs. f x = Inr ())"
  by (induction xs) (auto simp: rbind_Inr_iff)

lemma check_all_is_ok_iff: "is_ok (check_all f xs) \<longleftrightarrow> (\<forall>x \<in> set xs. is_ok (f x))"
  by (induction xs) (auto simp: is_ok_iff rbind_Inr_iff)

lemma check_all_perm_ok:
  "set xs = set ys \<Longrightarrow> check_all f xs = Inr () \<longleftrightarrow> check_all f ys = Inr ()"
  by (simp add: check_all_ok_iff)

lemma fold_result_append:
  "fold_result f (xs @ ys) s = rbind (fold_result f xs s) (fold_result f ys)"
proof (induction xs arbitrary: s)
  case Nil
  then show ?case by simp
next
  case (Cons x xs)
  then show ?case by (cases "f x s") simp_all
qed

lemma fold_result_invariant:
  assumes "fold_result f xs s = Inr t" "I s"
    and "\<And>x s s'. x \<in> set xs \<Longrightarrow> I s \<Longrightarrow> f x s = Inr s' \<Longrightarrow> I s'"
  shows "I t"
  using assms
proof (induction xs arbitrary: s)
  case Nil
  then show ?case by simp
next
  case (Cons x xs)
  from Cons.prems(1) obtain s' where s': "f x s = Inr s'" "fold_result f xs s' = Inr t"
    by (auto simp: rbind_Inr_iff)
  have "I s'" using Cons.prems(2,3) s'(1) by auto
  with s'(2) Cons.prems(3) show ?case by (intro Cons.IH) auto
qed

section \<open>Go maps as association lists\<close>

type_synonym ('k, 'v) gomap = "('k \<times> 'v) list"

definition mkeys :: "('k, 'v) gomap \<Rightarrow> 'k list" where
  "mkeys m = map fst m"

definition mhas :: "('k, 'v) gomap \<Rightarrow> 'k \<Rightarrow> bool" where
  "mhas m k = (k \<in> set (mkeys m))"

definition mput :: "'k \<Rightarrow> 'v \<Rightarrow> ('k, 'v) gomap \<Rightarrow> ('k, 'v) gomap" where
  "mput k v m = AList.update k v m"

definition mdel :: "'k \<Rightarrow> ('k, 'v) gomap \<Rightarrow> ('k, 'v) gomap" where
  "mdel k m = filter (\<lambda>e. fst e \<noteq> k) m"

definition wf_map :: "('k, 'v) gomap \<Rightarrow> bool" where
  "wf_map m = distinct (mkeys m)"

lemma mhas_iff_map_of: "mhas m k \<longleftrightarrow> map_of m k \<noteq> None"
  by (simp add: mhas_def mkeys_def map_of_eq_None_iff)

lemma mhas_simps [simp, go_simps]: "\<not> mhas [] k" "mhas (e # m) k \<longleftrightarrow> fst e = k \<or> mhas m k"
  by (auto simp: mhas_def mkeys_def)

lemma mkeys_simps [simp]: "mkeys [] = []" "mkeys (e # m) = fst e # mkeys m"
  "mkeys (m @ m') = mkeys m @ mkeys m'"
  by (simp_all add: mkeys_def)

lemma map_of_mput [simp]: "map_of (mput k v m) = (map_of m)(k \<mapsto> v)"
  by (simp add: mput_def update_conv')

lemma map_of_mdel [simp]: "map_of (mdel k m) = (map_of m)(k := None)"
  by (induction m) (auto simp: mdel_def fun_eq_iff)

lemma mput_fresh: "\<not> mhas m k \<Longrightarrow> mput k v m = m @ [(k, v)]"
  by (induction m) (auto simp: mput_def)

lemma set_mkeys_mput [simp]: "set (mkeys (mput k v m)) = insert k (set (mkeys m))"
  by (induction m) (auto simp: mput_def)

lemma mhas_mput [simp]: "mhas (mput k v m) k' \<longleftrightarrow> k = k' \<or> mhas m k'"
  by (auto simp: mhas_def)

lemma wf_map_Nil [simp, intro]: "wf_map []"
  by (simp add: wf_map_def)

lemma wf_map_mput [simp, intro]: "wf_map m \<Longrightarrow> wf_map (mput k v m)"
  unfolding wf_map_def mput_def mkeys_def by (rule distinct_update)

lemma wf_map_mdel [simp, intro]: "wf_map m \<Longrightarrow> wf_map (mdel k m)"
  by (induction m) (auto simp: wf_map_def mdel_def mkeys_def)

lemma wf_map_in_iff: "wf_map m \<Longrightarrow> map_of m k = Some v \<longleftrightarrow> (k, v) \<in> set m"
  by (simp add: wf_map_def mkeys_def)

lemma mput_mput_same [simp]: "wf_map m \<Longrightarrow> mput k v (mput k w m) = mput k v m"
  by (induction m) (auto simp: wf_map_def mput_def mkeys_def)

end
