(* ===== verification/Go_Utf8.thy ===== *)
theory Go_Utf8
  imports Prelude
begin

text \<open>
  Go strings are byte strings: a \<open>string\<close> here is a list of 8-bit characters, one per byte.
  This theory models \<open>unicode/utf8\<close> and the parts of \<open>unicode\<close> the program uses: decoding
  and encoding of runes with Go's treatment of malformed input (one \<open>RuneError\<close> per bad
  byte), \<open>range\<close> over a string, \<open>utf8.ValidString\<close>, \<open>unicode.IsSpace\<close>,
  \<open>unicode.IsControl\<close>. The large tables of package \<open>unicode\<close> above U+00FF (letter case,
  printability) are a parameter of the functions that read them.
\<close>

type_synonym rune = nat

abbreviation byte_of :: "char \<Rightarrow> nat" where "byte_of c \<equiv> of_char c"

record unicode =
  uc_lower :: "rune \<Rightarrow> rune"
  uc_print :: "rune \<Rightarrow> bool"
  uc_same_fold :: "rune \<Rightarrow> rune \<Rightarrow> bool"

definition rune_error :: rune where "rune_error = 0xFFFD"

definition is_cont :: "char \<Rightarrow> bool" where
  "is_cont c = (0x80 \<le> byte_of c \<and> byte_of c \<le> 0xBF)"

definition low6 :: "char \<Rightarrow> nat" where "low6 c = byte_of c mod 64"

section \<open>Decoding\<close>

definition decode2 :: "nat \<Rightarrow> string \<Rightarrow> rune \<times> nat" where
  "decode2 b s = (case s of
     c1 # _ \<Rightarrow> (if is_cont c1 then ((b mod 32) * 64 + low6 c1, 2) else (rune_error, 1))
   | [] \<Rightarrow> (rune_error, 1))"

definition decode3 :: "nat \<Rightarrow> string \<Rightarrow> rune \<times> nat" where
  "decode3 b s = (case s of
     c1 # c2 # _ \<Rightarrow>
       (if (if b = 0xE0 then 0xA0 else 0x80) \<le> byte_of c1
           \<and> byte_of c1 \<le> (if b = 0xED then 0x9F else 0xBF) \<and> is_cont c2
        then ((b mod 16) * 4096 + low6 c1 * 64 + low6 c2, 3) else (rune_error, 1))
   | _ \<Rightarrow> (rune_error, 1))"

definition decode4 :: "nat \<Rightarrow> string \<Rightarrow> rune \<times> nat" where
  "decode4 b s = (case s of
     c1 # c2 # c3 # _ \<Rightarrow>
       (if (if b = 0xF0 then 0x90 else 0x80) \<le> byte_of c1
           \<and> byte_of c1 \<le> (if b = 0xF4 then 0x8F else 0xBF) \<and> is_cont c2 \<and> is_cont c3
        then ((b mod 8) * 262144 + low6 c1 * 4096 + low6 c2 * 64 + low6 c3, 4)
        else (rune_error, 1))
   | _ \<Rightarrow> (rune_error, 1))"

text \<open>\<open>utf8.DecodeRuneInString\<close>: the first rune and its width in bytes.\<close>

fun decode_rune :: "string \<Rightarrow> rune \<times> nat" where
  "decode_rune [] = (rune_error, 0)"
| "decode_rune (c # s) =
     (let b = byte_of c in
      if b < 0x80 then (b, 1)
      else if 0xC2 \<le> b \<and> b \<le> 0xDF then decode2 b s
      else if 0xE0 \<le> b \<and> b \<le> 0xEF then decode3 b s
      else if 0xF0 \<le> b \<and> b \<le> 0xF4 then decode4 b s
      else (rune_error, 1))"

lemmas decode_defs = decode2_def decode3_def decode4_def

lemma decode_rune_width:
  "s \<noteq> [] \<Longrightarrow> 1 \<le> snd (decode_rune s) \<and> snd (decode_rune s) \<le> length s"
  by (cases s) (auto simp: decode_defs Let_def split: list.splits)

lemma decode_rune_ascii [simp, go_simps]: "byte_of c < 128 \<Longrightarrow> decode_rune (c # s) = (byte_of c, 1)"
  by simp

text \<open>\<open>for _, r := range s\<close>: each rune with the bytes it was read from.\<close>

function runes :: "string \<Rightarrow> (rune \<times> string) list" where
  "runes [] = []"
| "runes (c # s) = (let (r, w) = decode_rune (c # s)
                    in (r, take w (c # s)) # runes (drop (w - 1) s))"
  by pat_completeness auto
termination
  by (relation "measure length") auto

declare runes.simps(2) [simp del]

definition rune_values :: "string \<Rightarrow> rune list" where
  "rune_values s = map fst (runes s)"

definition bad_rune :: "rune \<times> string \<Rightarrow> bool" where
  "bad_rune p = (fst p = rune_error \<and> length (snd p) = 1)"

text \<open>\<open>utf8.ValidString\<close>\<close>

definition valid_utf8 :: "string \<Rightarrow> bool" where
  "valid_utf8 s = list_all (\<lambda>p. \<not> bad_rune p) (runes s)"

section \<open>Encoding\<close>

definition byte :: "nat \<Rightarrow> char" where "byte n = char_of n"

definition valid_rune :: "rune \<Rightarrow> bool" where
  "valid_rune r = (r < 0xD800 \<or> (0xDFFF < r \<and> r \<le> 0x10FFFF))"

definition encode_valid :: "rune \<Rightarrow> string" where
  "encode_valid r =
     (if r < 0x80 then [byte r]
      else if r < 0x800 then [byte (0xC0 + r div 64), byte (0x80 + r mod 64)]
      else if r < 0x10000 then
        [byte (0xE0 + r div 4096), byte (0x80 + r div 64 mod 64), byte (0x80 + r mod 64)]
      else [byte (0xF0 + r div 262144), byte (0x80 + r div 4096 mod 64),
            byte (0x80 + r div 64 mod 64), byte (0x80 + r mod 64)])"

text \<open>\<open>utf8.AppendRune\<close>: an invalid rune is written as U+FFFD.\<close>

definition encode_rune :: "rune \<Rightarrow> string" where
  "encode_rune r = encode_valid (if valid_rune r then r else rune_error)"

section \<open>Classes of runes\<close>

definition is_space_rune :: "rune \<Rightarrow> bool" where
  "is_space_rune r = (r \<in> {9, 10, 11, 12, 13, 32, 0x85, 0xA0, 0x1680, 0x2028, 0x2029, 0x202F,
     0x205F, 0x3000} \<or> (0x2000 \<le> r \<and> r \<le> 0x200A))"

definition is_control_rune :: "rune \<Rightarrow> bool" where
  "is_control_rune r = (r < 0x20 \<or> (0x7F \<le> r \<and> r \<le> 0x9F))"

definition ascii_string :: "string \<Rightarrow> bool" where
  "ascii_string s = list_all (\<lambda>c. byte_of c < 128) s"

lemma ascii_string_simps [simp]:
  "ascii_string []" "ascii_string (c # s) \<longleftrightarrow> byte_of c < 128 \<and> ascii_string s"
  "ascii_string (s @ t) \<longleftrightarrow> ascii_string s \<and> ascii_string t"
  by (simp_all add: ascii_string_def)

lemma runes_ascii_Cons [simp, go_simps]:
  "byte_of c < 128 \<Longrightarrow> runes (c # s) = (byte_of c, [c]) # runes s"
  by (simp add: runes.simps)

lemma runes_ascii: "ascii_string s \<Longrightarrow> runes s = map (\<lambda>c. (byte_of c, [c])) s"
  by (induction s) auto

lemma rune_values_ascii: "ascii_string s \<Longrightarrow> rune_values s = map byte_of s"
  by (simp add: rune_values_def runes_ascii)

lemma concat_runes: "concat (map snd (runes s)) = s"
proof (induction s rule: runes.induct)
  case 1
  then show ?case by simp
next
  case (2 c s)
  obtain r w where rw: "decode_rune (c # s) = (r, w)" by fastforce
  with decode_rune_width [of "c # s"] have w: "1 \<le> w" by simp
  from 2 rw have "concat (map snd (runes (drop (w - 1) s))) = drop (w - 1) s" by simp
  moreover have "take w (c # s) @ drop (w - 1) s = c # s"
    using w by (cases w) (simp_all del: decode_rune.simps)
  ultimately show ?case by (simp add: runes.simps rw del: decode_rune.simps)
qed

section \<open>Encoding and decoding are inverse\<close>

lemma byte_of_byte [simp]: "byte_of (byte n) = n mod 256"
  by (simp add: byte_def)

lemma byte_byte_of [simp]: "byte (byte_of c) = c"
  by (simp add: byte_def)

lemma length_encode_valid: "length (encode_valid r) \<in> {1, 2, 3, 4}"
  by (simp add: encode_valid_def)

lemma encode_valid_nonempty [simp]: "encode_valid r \<noteq> []"
  by (simp add: encode_valid_def)

lemma base64_digits:
  fixes r :: nat
  obtains a b c where "r = a * 4096 + b * 64 + c" "b < 64" "c < 64"
    "r div 4096 = a" "r div 64 mod 64 = b" "r mod 64 = c" "r div 64 = a * 64 + b"
proof -
  have e: "r = r div 64 * 64 + r mod 64" by simp
  have q: "r div 64 = r div 64 div 64 * 64 + r div 64 mod 64" by simp
  have a: "r div 64 div 64 = r div 4096" by (simp flip: div_mult2_eq)
  have q': "r div 64 = r div 4096 * 64 + r div 64 mod 64" using q unfolding a .
  have "r = r div 4096 * 4096 + r div 64 mod 64 * 64 + r mod 64"
    using e q' by linarith
  then show thesis using that [of "r div 4096" "r div 64 mod 64" "r mod 64"] q' by simp
qed

lemma mod_add_multiple: "m dvd (k::nat) \<Longrightarrow> x < m \<Longrightarrow> (k + x) mod m = x"
  by (metis mod_less mod_add_left_eq dvd_imp_mod_0 add_0)

lemma lead_mods [simp]:
  "x < 64 \<Longrightarrow> (128 + x) mod 64 = (x::nat)" "x < 32 \<Longrightarrow> (192 + x) mod 32 = (x::nat)"
  "x < 16 \<Longrightarrow> (224 + x) mod 16 = (x::nat)" "x < 8 \<Longrightarrow> (240 + x) mod 8 = (x::nat)"
  by (rule mod_add_multiple; simp)+

lemma is_cont_byte [simp]: "x < 64 \<Longrightarrow> is_cont (byte (128 + x))"
  by (simp add: is_cont_def)

lemma low6_byte [simp]: "x < 64 \<Longrightarrow> low6 (byte (128 + x)) = x"
  by (simp add: low6_def) 

lemma decode_encode2:
  assumes "0x80 \<le> r" "r < 0x800"
  shows "decode_rune (encode_valid r @ s) = (r, 2)"
proof -
  have d: "2 \<le> r div 64" "r div 64 < 32" using assms by auto
  have "r mod 64 < 64" by simp
  then show ?thesis using assms d by (simp add: encode_valid_def decode2_def Let_def)
qed

lemma decode_encode3:
  assumes "0x800 \<le> r" "r < 0x10000" "valid_rune r"
  shows "decode_rune (encode_valid r @ s) = (r, 3)"
proof -
  obtain a b c where r: "r = a * 4096 + b * 64 + c" "b < 64" "c < 64"
    and e: "r div 4096 = a" "r div 64 mod 64 = b" "r mod 64 = c"
    using base64_digits [of r] by metis
  have "a < 16" using assms(2) r(1) by linarith
  moreover have "a = 0 \<Longrightarrow> 32 \<le> b" using assms(1) r by auto
  moreover have "a = 13 \<Longrightarrow> b \<le> 31"
    using assms(3) r unfolding valid_rune_def by auto
  moreover have "encode_valid r = [byte (224 + a), byte (128 + b), byte (128 + c)]"
    using assms(1,2) by (simp add: encode_valid_def e)
  ultimately show ?thesis using r by (simp add: decode3_def Let_def)
qed

lemma decode_encode4:
  assumes "0x10000 \<le> r" "valid_rune r"
  shows "decode_rune (encode_valid r @ s) = (r, 4)"
proof -
  obtain q b c where r: "r = q * 4096 + b * 64 + c" "b < 64" "c < 64"
    and e: "r div 4096 = q" "r div 64 mod 64 = b" "r mod 64 = c"
    using base64_digits [of r] by metis
  define a d where "a = q div 64" and "d = q mod 64"
  have q: "q = a * 64 + d" "d < 64" by (simp_all add: a_def d_def)
  have e': "r div 262144 = a" using e(1) by (simp add: a_def div_mult2_eq flip: e(1))
  have "r \<le> 0x10FFFF" using assms unfolding valid_rune_def by auto
  then have "a < 5" using r(1) q by linarith
  moreover have "a = 0 \<Longrightarrow> 16 \<le> d" using assms(1) r q by auto
  moreover have "a = 4 \<Longrightarrow> d \<le> 15" using \<open>r \<le> 0x10FFFF\<close> r q by auto
  moreover have "encode_valid r = [byte (240 + a), byte (128 + d), byte (128 + b), byte (128 + c)]"
    using assms(1) by (simp add: encode_valid_def e e' d_def)
  ultimately show ?thesis using r q by (simp add: decode4_def Let_def)
qed

lemma decode_encode:
  assumes "valid_rune r"
  shows "decode_rune (encode_valid r @ s) = (r, length (encode_valid r))"
proof -
  consider "r < 0x80" | "0x80 \<le> r" "r < 0x800" | "0x800 \<le> r" "r < 0x10000" | "0x10000 \<le> r"
    by linarith
  then show ?thesis
  proof cases
    case 1 then show ?thesis by (simp add: encode_valid_def)
  next
    case 2 with decode_encode2 [OF 2] show ?thesis by (simp add: encode_valid_def)
  next
    case 3 with decode_encode3 [OF 3 assms] show ?thesis by (simp add: encode_valid_def)
  next
    case 4 with decode_encode4 [OF 4 assms] show ?thesis by (simp add: encode_valid_def)
  qed
qed

lemma of_char_eqD: "byte_of c = n \<Longrightarrow> c = byte n"
  by (metis byte_byte_of)

lemma is_cont_cases:
  assumes "is_cont c"
  obtains y where "c = byte (128 + y)" "y < 64"
proof
  show "c = byte (128 + (byte_of c - 128))" using assms by (simp add: is_cont_def byte_def)
  show "byte_of c - 128 < (64::nat)" using assms by (auto simp: is_cont_def)
qed

lemma range_byte_cases:
  assumes "k \<le> byte_of c" "byte_of c \<le> k + n"
  obtains x where "c = byte (k + x)" "x \<le> n" "byte_of c = k + x"
proof
  show "c = byte (k + (byte_of c - k))" using assms by (simp add: byte_def)
qed (use assms in auto)

lemma encode_decode2:
  assumes "decode2 b s = (r, w)" "\<not> (r = rune_error \<and> w = 1)" "0xC2 \<le> b" "b \<le> 0xDF"
  shows "valid_rune r \<and> w = 2 \<and> encode_valid r = take w (byte b # s)"
proof -
  define x where "x = b - 192"
  have b: "b = 192 + x" "2 \<le> x" "x < 32" using assms(3,4) by (auto simp: x_def)
  from assms(1,2) obtain c1 t where s: "s = c1 # t" "is_cont c1"
    by (auto simp: decode2_def split: list.splits if_splits)
  obtain y where y: "c1 = byte (128 + y)" "y < 64" using is_cont_cases [OF s(2)] .
  have r: "r = x * 64 + y" "w = 2" using assms(1) s y b by (auto simp: decode2_def)
  have "r div 64 = x" "r mod 64 = y" "\<not> r < 128" "r < 2048" using r(1) y b by auto
  then show ?thesis using r(2) s y b by (simp add: encode_valid_def valid_rune_def)
qed

lemma encode_decode3:
  assumes "decode3 b s = (r, w)" "\<not> (r = rune_error \<and> w = 1)" "0xE0 \<le> b" "b \<le> 0xEF"
  shows "valid_rune r \<and> w = 3 \<and> encode_valid r = take w (byte b # s)"
proof -
  define x where "x = b - 224"
  have b: "b = 224 + x" "x < 16" using assms(3,4) by (auto simp: x_def)
  from assms(1,2) obtain c1 c2 t where s: "s = c1 # c2 # t"
    and c1: "(if b = 0xE0 then 0xA0 else 0x80) \<le> byte_of c1"
      "byte_of c1 \<le> (if b = 0xED then 0x9F else (0xBF::nat))" and c2: "is_cont c2"
    by (auto simp: decode3_def split: list.splits if_splits)
  have "is_cont c1" using c1 by (auto simp: is_cont_def split: if_splits)
  then obtain y where y: "c1 = byte (128 + y)" "y < 64" using is_cont_cases by metis
  obtain z where z: "c2 = byte (128 + z)" "z < 64" using is_cont_cases [OF c2] .
  have r: "r = x * 4096 + y * 64 + z" "w = 3"
    using assms(1,2) s y z b by (auto simp: decode3_def split: if_splits)
  have lo: "x = 0 \<Longrightarrow> 32 \<le> y" and hi: "x = 13 \<Longrightarrow> y \<le> 31" using c1 b y by auto
  have "r = (x * 64 + y) * 64 + z" using r(1) by simp
  then have "r div 64 = x * 64 + y" "r mod 64 = z" using z by (simp_all only: div_mult_self3 mod_mult_self3) simp_all
  moreover have "r div 4096 = x" using r(1) y z by auto
  moreover have "\<not> r < 128" "\<not> r < 2048" "r < 65536" using r(1) y z b lo by (cases "x = 0"; auto)+
  moreover have "valid_rune r"
    using r(1) y z b hi unfolding valid_rune_def by (cases "x \<le> 12"; cases "x = 13") auto
  ultimately show ?thesis using r(2) s y z b by (simp add: encode_valid_def)
qed

lemma encode_decode4:
  assumes "decode4 b s = (r, w)" "\<not> (r = rune_error \<and> w = 1)" "0xF0 \<le> b" "b \<le> 0xF4"
  shows "valid_rune r \<and> w = 4 \<and> encode_valid r = take w (byte b # s)"
proof -
  define x where "x = b - 240"
  have b: "b = 240 + x" "x \<le> 4" using assms(3,4) by (auto simp: x_def)
  from assms(1,2) obtain c1 c2 c3 t where s: "s = c1 # c2 # c3 # t"
    and c1: "(if b = 0xF0 then 0x90 else 0x80) \<le> byte_of c1"
      "byte_of c1 \<le> (if b = 0xF4 then 0x8F else (0xBF::nat))" and c23: "is_cont c2" "is_cont c3"
    by (auto simp: decode4_def split: list.splits if_splits)
  have "is_cont c1" using c1 by (auto simp: is_cont_def split: if_splits)
  then obtain y where y: "c1 = byte (128 + y)" "y < 64" using is_cont_cases by metis
  obtain z where z: "c2 = byte (128 + z)" "z < 64" using is_cont_cases [OF c23(1)] .
  obtain v where v: "c3 = byte (128 + v)" "v < 64" using is_cont_cases [OF c23(2)] .
  have r: "r = x * 262144 + y * 4096 + z * 64 + v" "w = 4"
    using assms(1,2) s y z v b by (auto simp: decode4_def split: if_splits)
  have lo: "x = 0 \<Longrightarrow> 16 \<le> y" and hi: "x = 4 \<Longrightarrow> y \<le> 15" using c1 b y by auto
  have "r = ((x * 64 + y) * 64 + z) * 64 + v" using r(1) by simp
  then have "r div 64 = (x * 64 + y) * 64 + z" "r mod 64 = v" using v by (simp_all only: div_mult_self3 mod_mult_self3) simp_all
  moreover from calculation(1) have "r div 64 mod 64 = z" using z by (simp only: mod_mult_self3) simp
  moreover have "r div 262144 = x" "r div 4096 = x * 64 + y" using r(1) y z v by auto
  moreover have "65536 \<le> r" using r(1) lo by (cases "x = 0") auto
  moreover have "valid_rune r"
    using r(1) y z v b hi \<open>65536 \<le> r\<close> unfolding valid_rune_def by (cases "x = 4") auto
  ultimately show ?thesis using r(2) s y z v b by (simp add: encode_valid_def)
qed

lemma encode_decode:
  assumes "decode_rune s = (r, w)" "\<not> (r = rune_error \<and> w = 1)" "s \<noteq> []"
  shows "valid_rune r \<and> encode_valid r = take w s"
proof -
  obtain c t where s: "s = c # t" using assms(3) by (cases s) auto
  define b where "b = byte_of c"
  have c: "c = byte b" by (simp add: b_def)
  show ?thesis
  proof (cases "b < 0x80")
    case True
    then show ?thesis using assms(1) unfolding s by (auto simp: b_def encode_valid_def valid_rune_def)
  next
    case False
    then have d: "(if 0xC2 \<le> b \<and> b \<le> 0xDF then decode2 b t
        else if 0xE0 \<le> b \<and> b \<le> 0xEF then decode3 b t
        else if 0xF0 \<le> b \<and> b \<le> 0xF4 then decode4 b t else (rune_error, 1)) = (r, w)"
      using assms(1) unfolding s by (simp only: decode_rune.simps Let_def flip: b_def) simp
    have "valid_rune r \<and> encode_valid r = take w (byte b # t)"
    proof (cases "0xC2 \<le> b \<and> b \<le> 0xDF")
      case True
      with d encode_decode2 [OF _ assms(2), of b t] show ?thesis by simp
    next
      case n2: False
      show ?thesis
      proof (cases "0xE0 \<le> b \<and> b \<le> 0xEF")
        case True
        with n2 d encode_decode3 [OF _ assms(2), of b t] show ?thesis by simp
      next
        case n3: False
        show ?thesis
        proof (cases "0xF0 \<le> b \<and> b \<le> 0xF4")
          case True
          with n2 n3 d encode_decode4 [OF _ assms(2), of b t] show ?thesis by simp
        next
          case False
          with n2 n3 d assms(2) show ?thesis by auto
        qed
      qed
    qed
    then show ?thesis unfolding s c [symmetric] .
  qed
qed

lemma runes_encode:
  assumes "valid_rune r"
  shows "runes (encode_valid r @ s) = (r, encode_valid r) # runes s"
proof -
  obtain c t where e: "encode_valid r = c # t" by (cases "encode_valid r") auto
  have "decode_rune (c # t @ s) = (r, Suc (length t))" using decode_encode [OF assms, of s] e by simp
  then show ?thesis using e by (simp add: runes.simps del: decode_rune.simps)
qed

lemma runes_Cons_cases:
  assumes "s \<noteq> []"
  obtains (good) r t where "valid_rune r" "s = encode_valid r @ t" "runes s = (r, encode_valid r) # runes t"
      "\<not> bad_rune (r, encode_valid r)"
    | (bad) c t where "s = c # t" "128 \<le> byte_of c" "runes s = (rune_error, [c]) # runes t"
proof -
  obtain r w where rw: "decode_rune s = (r, w)" by fastforce
  obtain c t where s: "s = c # t" using assms by (cases s) auto
  show thesis
  proof (cases "r = rune_error \<and> w = 1")
    case True
    then have "128 \<le> byte_of c" using rw s by (auto simp: rune_error_def Let_def split: if_splits)
    moreover have "runes s = (rune_error, [c]) # runes t" using True rw s by (simp add: runes.simps)
    ultimately show thesis using bad s by blast
  next
    case False
    from encode_decode [OF rw False assms] have e: "valid_rune r" "encode_valid r = take w s" by auto
    have s': "s = encode_valid r @ drop w s" using e(2) by simp
    have "\<not> bad_rune (r, encode_valid r)"
    proof -
      have "length (encode_valid rune_error) = 3" by (simp add: encode_valid_def rune_error_def)
      then show ?thesis by (auto simp: bad_rune_def)
    qed
    then show thesis using good [OF e(1) s'] runes_encode [OF e(1), of "drop w s"] s' by metis
  qed
qed

declare decode_rune.simps(2) [simp del]

end
