(* ===== verification/Go_Strings.thy ===== *)
theory Go_Strings
  imports Go_Utf8
begin

text \<open>
  The functions of Go's \<open>strings\<close>, \<open>strconv\<close> (decimal numbers), \<open>encoding/hex\<close>,
  \<open>bufio.Scanner\<close> and \<open>path\<close> that the program calls, over byte strings. A function that takes
  a separator or a set of characters is given here for ASCII separators, the only ones the
  program uses.
\<close>

section \<open>Prefixes, substrings, splitting\<close>

definition has_prefix :: "string \<Rightarrow> string \<Rightarrow> bool" where
  "has_prefix s p = (take (length p) s = p)"

definition has_suffix :: "string \<Rightarrow> string \<Rightarrow> bool" where
  "has_suffix s p = has_prefix (rev s) (rev p)"

definition trim_prefix :: "string \<Rightarrow> string \<Rightarrow> string" where
  "trim_prefix s p = (if has_prefix s p then drop (length p) s else s)"

definition trim_suffix :: "string \<Rightarrow> string \<Rightarrow> string" where
  "trim_suffix s p = (if has_suffix s p then take (length s - length p) s else s)"

fun index :: "string \<Rightarrow> string \<Rightarrow> nat option" where
  "index [] sub = (if sub = [] then Some 0 else None)"
| "index (c # s) sub = (if has_prefix (c # s) sub then Some 0 else map_option Suc (index s sub))"

definition contains :: "string \<Rightarrow> string \<Rightarrow> bool" where
  "contains s sub = (index s sub \<noteq> None)"

definition contains_byte :: "string \<Rightarrow> char \<Rightarrow> bool" where
  "contains_byte s c = (c \<in> set s)"

definition contains_any :: "string \<Rightarrow> string \<Rightarrow> bool" where
  "contains_any s cs = list_ex (\<lambda>c. c \<in> set cs) s"

fun index_byte :: "string \<Rightarrow> char \<Rightarrow> nat option" where
  "index_byte [] c = None"
| "index_byte (d # s) c = (if d = c then Some 0 else map_option Suc (index_byte s c))"

fun last_index_byte :: "string \<Rightarrow> char \<Rightarrow> nat option" where
  "last_index_byte [] c = None"
| "last_index_byte (d # s) c = (case last_index_byte s c of
     Some i \<Rightarrow> Some (Suc i) | None \<Rightarrow> (if d = c then Some 0 else None))"

definition count_byte :: "string \<Rightarrow> char \<Rightarrow> nat" where
  "count_byte s c = length (filter (\<lambda>d. d = c) s)"

text \<open>\<open>strings.SplitN(s, sep, 2)\<close> and \<open>strings.Cut\<close>: \<open>None\<close> when there is no separator.\<close>

fun cut_byte :: "string \<Rightarrow> char \<Rightarrow> (string \<times> string) option" where
  "cut_byte [] c = None"
| "cut_byte (d # s) c = (if d = c then Some ([], s)
     else map_option (\<lambda>(a, b). (d # a, b)) (cut_byte s c))"

fun split_byte :: "string \<Rightarrow> char \<Rightarrow> string list" where
  "split_byte [] c = [[]]"
| "split_byte (d # s) c = (if d = c then [] # split_byte s c
     else (case split_byte s c of x # xs \<Rightarrow> (d # x) # xs | [] \<Rightarrow> [[d]]))"

fun split_after_byte :: "string \<Rightarrow> char \<Rightarrow> string list" where
  "split_after_byte [] c = [[]]"
| "split_after_byte (d # s) c = (if d = c then [d] # split_after_byte s c
     else (case split_after_byte s c of x # xs \<Rightarrow> (d # x) # xs | [] \<Rightarrow> [[d]]))"

fun join :: "string \<Rightarrow> string list \<Rightarrow> string" where
  "join sep [] = []"
| "join sep [x] = x"
| "join sep (x # y # xs) = x @ sep @ join sep (y # xs)"

text \<open>\<open>strings.ReplaceAll(s, old, new)\<close> for a one-byte \<open>old\<close>.\<close>

definition replace_byte :: "string \<Rightarrow> char \<Rightarrow> string \<Rightarrow> string" where
  "replace_byte s c t = concat (map (\<lambda>d. if d = c then t else [d]) s)"

section \<open>Letter case\<close>

definition lower_rune :: "unicode \<Rightarrow> rune \<Rightarrow> rune" where
  "lower_rune U r = (if r < 128 then (if 65 \<le> r \<and> r \<le> 90 then r + 32 else r) else uc_lower U r)"

text \<open>
  \<open>strings.ToLower\<close>: every rune is mapped and written back, so a malformed byte becomes the
  three bytes of U+FFFD (as \<open>strings.Map\<close> does).
\<close>

definition to_lower :: "unicode \<Rightarrow> string \<Rightarrow> string" where
  "to_lower U s = concat (map (\<lambda>p. encode_rune (lower_rune U (fst p))) (runes s))"

definition same_fold :: "unicode \<Rightarrow> rune \<Rightarrow> rune \<Rightarrow> bool" where
  "same_fold U r r' = (r = r' \<or>
     (if r < 128 \<and> r' < 128 then lower_rune U r = lower_rune U r' else uc_same_fold U r r'))"

definition equal_fold :: "unicode \<Rightarrow> string \<Rightarrow> string \<Rightarrow> bool" where
  "equal_fold U s t = list_all2 (same_fold U) (rune_values s) (rune_values t)"

section \<open>Trimming\<close>

function trim_left :: "string \<Rightarrow> string" where
  "trim_left s = (let (r, w) = decode_rune s in
     if s \<noteq> [] \<and> is_space_rune r then trim_left (drop w s) else s)"
  by pat_completeness auto
termination
proof (relation "measure length", goal_cases)
  case 1
  then show ?case by simp
next
  case (2 s p r w)
  then have "w = snd (decode_rune s)" by (metis snd_conv)
  with 2 show ?case using decode_rune_width [of s] by (cases s) auto
qed

declare trim_left.simps [simp del]

text \<open>
  The width of the space a reversed string starts with, 0 if there is none: what
  \<open>utf8.DecodeLastRuneInString\<close> finds when the last bytes encode a white-space rune.
\<close>

definition last_space_width :: "string \<Rightarrow> nat" where
  "last_space_width t = (case t of
     [] \<Rightarrow> 0
   | c # t1 \<Rightarrow>
     (if byte_of c < 128 then (if is_space_rune (byte_of c) then 1 else 0)
      else (case t1 of
        [] \<Rightarrow> 0
      | c2 # t2 \<Rightarrow>
        (if snd (decode_rune [c2, c]) = 2 then (if is_space_rune (fst (decode_rune [c2, c])) then 2 else 0)
         else (case t2 of
           [] \<Rightarrow> 0
         | c3 # _ \<Rightarrow>
           (if snd (decode_rune [c3, c2, c]) = 3 \<and> is_space_rune (fst (decode_rune [c3, c2, c]))
            then 3 else 0))))))"

function trim_right_rev :: "string \<Rightarrow> string" where
  "trim_right_rev t = (let n = last_space_width t in if n = 0 then t else trim_right_rev (drop n t))"
  by pat_completeness auto
termination
proof (relation "measure length", goal_cases)
  case 1
  then show ?case by simp
next
  case (2 t n)
  then have "t \<noteq> []" by (auto simp: last_space_width_def)
  with 2 show ?case by (cases t) auto
qed

declare trim_right_rev.simps [simp del]

definition trim_right :: "string \<Rightarrow> string" where
  "trim_right s = rev (trim_right_rev (rev s))"

definition trim_space :: "string \<Rightarrow> string" where
  "trim_space s = trim_right (trim_left s)"

section \<open>Decimal and hexadecimal numbers\<close>

definition is_digit :: "char \<Rightarrow> bool" where
  "is_digit c = (48 \<le> byte_of c \<and> byte_of c \<le> 57)"

definition digit_value :: "char \<Rightarrow> nat" where
  "digit_value c = byte_of c - 48"

definition nat_of_digits :: "string \<Rightarrow> nat" where
  "nat_of_digits s = foldl (\<lambda>n c. 10 * n + digit_value c) 0 s"

definition all_digits :: "string \<Rightarrow> bool" where
  "all_digits s = (s \<noteq> [] \<and> list_all is_digit s)"

text \<open>\<open>strconv.Atoi\<close> on a 64-bit platform and \<open>strconv.ParseUint(s, 10, 64)\<close>.\<close>

definition atoi :: "string \<Rightarrow> int option" where
  "atoi s = (let neg = has_prefix s ''-'';
                 body = (if neg \<or> has_prefix s ''+'' then tl s else s);
                 v = (if neg then - int (nat_of_digits body) else int (nat_of_digits body))
             in if all_digits body \<and> - (2 ^ 63) \<le> v \<and> v < 2 ^ 63 then Some v else None)"

definition parse_uint64 :: "string \<Rightarrow> nat option" where
  "parse_uint64 s = (if all_digits s \<and> nat_of_digits s < 2 ^ 64 then Some (nat_of_digits s) else None)"

fun digits_of_nat :: "nat \<Rightarrow> string" where
  "digits_of_nat n = (if n < 10 then [byte (48 + n)] else digits_of_nat (n div 10) @ [byte (48 + n mod 10)])"

declare digits_of_nat.simps [simp del]

definition itoa :: "int \<Rightarrow> string" where
  "itoa i = (if i < 0 then ''-'' @ digits_of_nat (nat (- i)) else digits_of_nat (nat i))"

definition hex_digit :: "nat \<Rightarrow> char" where
  "hex_digit n = byte (if n < 10 then 48 + n else 87 + n)"

definition unhex :: "char \<Rightarrow> nat option" where
  "unhex c = (let b = byte_of c in
     if 48 \<le> b \<and> b \<le> 57 then Some (b - 48)
     else if 97 \<le> b \<and> b \<le> 102 then Some (b - 87)
     else if 65 \<le> b \<and> b \<le> 70 then Some (b - 55) else None)"

text \<open>\<open>hex.DecodeString\<close> succeeds on an even number of hexadecimal digits of either case.\<close>

definition hex_decodable :: "string \<Rightarrow> bool" where
  "hex_decodable s = (even (length s) \<and> list_all (\<lambda>c. unhex c \<noteq> None) s)"

definition hex_encode :: "nat list \<Rightarrow> string" where
  "hex_encode bs = concat (map (\<lambda>b. [hex_digit (b div 16), hex_digit (b mod 16)]) bs)"

section \<open>bufio.Scanner over lines\<close>

text \<open>
  The default scanner holds at most 64 KiB: a line of 65536 bytes or more (its newline not
  counted) stops the scan with \<open>bufio.ErrTooLong\<close>, after every earlier line was delivered.
  One trailing carriage return is dropped from each line, and nothing follows a final newline.
\<close>

definition max_token :: nat where "max_token = 65536"

definition drop_cr :: "string \<Rightarrow> string" where
  "drop_cr l = (if l \<noteq> [] \<and> last l = CHR 0x0D then butlast l else l)"

fun take_short :: "string list \<Rightarrow> string list \<times> bool" where
  "take_short [] = ([], False)"
| "take_short (l # ls) = (if max_token \<le> length l then ([], True)
     else (case take_short ls of (ts, e) \<Rightarrow> (l # ts, e)))"

definition raw_lines :: "string \<Rightarrow> string list" where
  "raw_lines s = (let ls = split_byte s CHR 0x0A in if last ls = [] then butlast ls else ls)"

definition scan_lines :: "string \<Rightarrow> string list \<times> bool" where
  "scan_lines s = (case take_short (raw_lines s) of (ts, e) \<Rightarrow> (map drop_cr ts, e))"

section \<open>path.Clean and path.Join\<close>

definition clean_step :: "bool \<Rightarrow> string \<Rightarrow> string list \<Rightarrow> string list" where
  "clean_step rooted seg st =
     (if seg = [] \<or> seg = ''.'' then st
      else if seg = ''..'' then
        (if st \<noteq> [] \<and> hd st \<noteq> ''..'' then tl st else if rooted then st else seg # st)
      else seg # st)"

definition path_is_abs :: "string \<Rightarrow> bool" where
  "path_is_abs s = has_prefix s ''/''"

definition path_clean :: "string \<Rightarrow> string" where
  "path_clean s = (if s = [] then ''.'' else
     let rooted = path_is_abs s;
         st = fold (clean_step rooted) (split_byte s CHR ''/'') [];
         out = (if rooted then ''/'' else []) @ join ''/'' (rev st)
     in if out = [] then ''.'' else out)"

definition path_join :: "string list \<Rightarrow> string" where
  "path_join xs = (let ys = filter (\<lambda>x. x \<noteq> []) xs in if ys = [] then [] else path_clean (join ''/'' ys))"

section \<open>Facts about trimming\<close>

definition solid :: "char \<Rightarrow> bool" where
  "solid c = (byte_of c < 128 \<and> \<not> is_space_rune (byte_of c))"

lemma trim_left_Nil [simp, go_simps]: "trim_left [] = []"
  by (simp add: trim_left.simps)

lemma trim_right_Nil [simp, go_simps]: "trim_right [] = []"
  by (simp add: trim_right_def trim_right_rev.simps last_space_width_def)

lemma trim_left_solid [simp, go_simps]: "solid c \<Longrightarrow> trim_left (c # s) = c # s"
  by (simp add: trim_left.simps solid_def)

lemma trim_left_space [simp, go_simps]:
  "byte_of c < 128 \<Longrightarrow> is_space_rune (byte_of c) \<Longrightarrow> trim_left (c # s) = trim_left s"
  by (simp add: trim_left.simps [of "c # s"])

lemma trim_right_solid [simp, go_simps]: "solid c \<Longrightarrow> trim_right (s @ [c]) = s @ [c]"
  by (simp add: trim_right_def trim_right_rev.simps last_space_width_def solid_def)

lemma trim_right_space [simp, go_simps]:
  "byte_of c < 128 \<Longrightarrow> is_space_rune (byte_of c) \<Longrightarrow> trim_right (s @ [c]) = trim_right s"
  by (simp add: trim_right_def trim_right_rev.simps [of "c # rev s"] last_space_width_def)

lemma trim_space_Nil [simp, go_simps]: "trim_space [] = []"
  by (simp add: trim_space_def)

lemma trim_space_solid:
  assumes "s \<noteq> []" "solid (hd s)" "solid (last s)"
  shows "trim_space s = s"
proof -
  have "trim_left s = s" using assms(1,2) by (cases s) auto
  moreover have "s = butlast s @ [last s]" using assms(1) by simp
  ultimately show ?thesis using trim_right_solid [OF assms(3), of "butlast s"]
    by (simp add: trim_space_def)
qed

section \<open>Tests over runes and letter case on ASCII strings\<close>

lemma first_rune_high:
  "128 \<le> byte_of c \<Longrightarrow> \<exists>r e t. runes (c # s) = (r, e) # runes t \<and> 128 \<le> r \<and> length t \<le> length s"
proof -
  assume c: "128 \<le> byte_of c"
  have "c # s \<noteq> []" by simp
  then show ?thesis
  proof (cases "c # s" rule: runes_Cons_cases)
    case (good r t)
    have "128 \<le> r"
    proof (rule ccontr)
      assume "\<not> 128 \<le> r"
      then have "encode_valid r = [byte r]" by (simp add: encode_valid_def)
      with good(2) have "c = byte r" by simp
      with \<open>\<not> 128 \<le> r\<close> have "byte_of c = r" by simp
      then show False using c \<open>\<not> 128 \<le> r\<close> by simp
    qed
    moreover have "length t \<le> length s"
    proof -
      have "length (c # s) = length (encode_valid r) + length t" using good(2) by (metis length_append)
      moreover have "1 \<le> length (encode_valid r)" by (metis One_nat_def Suc_leI encode_valid_nonempty length_greater_0_conv)
      ultimately show ?thesis by simp
    qed
    ultimately show ?thesis using good(3) by blast
  next
    case (bad c' t)
    then show ?thesis by (auto simp: rune_error_def)
  qed
qed

text \<open>A test over runes that only ASCII runes pass is the same test over bytes.\<close>

lemma rune_values_pred:
  assumes "\<And>r. P r \<Longrightarrow> r < 128"
  shows "list_all P (rune_values s) \<longleftrightarrow> list_all (\<lambda>c. P (byte_of c)) s"
proof (induction s)
  case Nil
  then show ?case by (simp add: rune_values_def)
next
  case (Cons c s)
  show ?case
  proof (cases "byte_of c < (128::nat)")
    case True
    with Cons show ?thesis by (simp add: rune_values_def)
  next
    case False
    with assms have n: "\<not> P (byte_of c)" by blast
    obtain r e t where "runes (c # s) = (r, e) # runes t" "128 \<le> r" using first_rune_high [of c s] False by auto
    then have "\<not> list_all P (rune_values (c # s))" using assms [of r] by (auto simp: rune_values_def)
    with n show ?thesis by simp
  qed
qed

lemma to_lower_ascii:
  "ascii_string s \<Longrightarrow> to_lower U s = map (\<lambda>c. byte (lower_rune U (byte_of c))) s"
proof (induction s)
  case Nil
  then show ?case by (simp add: to_lower_def)
next
  case (Cons c s)
  then have "lower_rune U (byte_of c) < 128" by (auto simp: lower_rune_def)
  then have "encode_rune (lower_rune U (byte_of c)) = [byte (lower_rune U (byte_of c))]"
    by (simp add: encode_rune_def valid_rune_def encode_valid_def)
  with Cons show ?case by (simp add: to_lower_def)
qed

lemma to_lower_fixed:
  assumes "\<And>c. c \<in> set s \<Longrightarrow> byte_of c < (128::nat) \<and> \<not> (65 \<le> byte_of c \<and> byte_of c \<le> (90::nat))"
  shows "to_lower U s = s"
proof -
  have "ascii_string s" using assms by (auto simp: ascii_string_def list_all_iff)
  moreover have "byte (lower_rune U (byte_of c)) = c" if "c \<in> set s" for c
    using assms [OF that] by (auto simp: lower_rune_def)
  ultimately show ?thesis by (simp add: to_lower_ascii map_idI)
qed

section \<open>A prefix of solid characters survives trimming\<close>

lemma has_prefix_iff: "has_prefix s p \<longleftrightarrow> (\<exists>t. s = p @ t)"
  unfolding has_prefix_def by (metis append_eq_conv_conj append_take_drop_id)

lemma last_space_width_solid:
  assumes "solid c"
  shows "last_space_width (r @ c # u) \<le> length r"
proof -
  have c: "byte_of c < 128" "\<not> is_space_rune (byte_of c)" using assms by (simp_all add: solid_def)
  have w2: "snd (decode_rune [c, d]) \<noteq> 2" for d using c(1) by simp
  have w3: "snd (decode_rune [c, d, e]) \<noteq> 3" for d e using c(1) by simp
  have m3: "snd (decode_rune [d, c, e]) \<noteq> 3" for d e using c(1) by (auto simp: decode_rune.simps decode_defs Let_def is_cont_def split: if_splits)
  consider "r = []" | a where "r = [a]" | a b where "r = [a, b]" | "3 \<le> length r"
  proof (cases r)
    case Nil
    then show thesis using that by blast
  next
    case r1: (Cons a r1)
    show thesis
    proof (cases r1)
      case Nil
      then show thesis using that r1 by blast
    next
      case r2: (Cons b r2)
      then show thesis using that r1 by (cases r2) auto
    qed
  qed
  then show ?thesis
  proof cases
    case 1
    then show ?thesis using c by (simp add: last_space_width_def)
  next
    case 2
    then show ?thesis using w2 m3 by (simp add: last_space_width_def split: list.splits)
  next
    case 3
    then show ?thesis using w3 by (simp add: last_space_width_def)
  next
    case 4
    have "last_space_width t \<le> 3" for t by (simp add: last_space_width_def split: list.splits)
    with 4 show ?thesis using le_trans by blast
  qed
qed

lemma trim_right_rev_solid:
  assumes "solid c"
  shows "\<exists>r'. trim_right_rev (r @ c # u) = r' @ c # u"
proof (induction r rule: length_induct)
  case (1 r)
  let ?n = "last_space_width (r @ c # u)"
  show ?case
  proof (cases "?n = 0")
    case True
    then show ?thesis by (auto simp: trim_right_rev.simps [of "r @ c # u"])
  next
    case False
    have n: "?n \<le> length r" by (rule last_space_width_solid [OF assms])
    have "trim_right_rev (r @ c # u) = trim_right_rev (drop ?n r @ c # u)"
      using False n by (simp add: trim_right_rev.simps [of "r @ c # u"] Let_def)
    moreover have "length (drop ?n r) < length r" using False n by simp
    ultimately show ?thesis using 1 by metis
  qed
qed

lemma trim_space_solid_prefix:
  assumes "p \<noteq> []" "solid (hd p)" "solid (last p)"
  shows "has_prefix (trim_space (p @ s)) p"
proof -
  have l: "trim_left (p @ s) = p @ s" using assms(1,2) by (cases p) auto
  obtain q c where p: "p = q @ [c]" using assms(1) by (metis append_butlast_last_id)
  with assms(3) obtain r' where "trim_right_rev (rev s @ c # rev q) = r' @ c # rev q"
    using trim_right_rev_solid [of c "rev s" "rev q"] by auto
  then show ?thesis unfolding trim_space_def l trim_right_def by (simp add: p has_prefix_iff)
qed

lemma lower_trim_prefix:
  assumes "p \<noteq> []" "\<And>c. c \<in> set p \<Longrightarrow> solid c \<and> \<not> (65 \<le> byte_of c \<and> byte_of c \<le> (90::nat))"
  shows "has_prefix (trim_space (to_lower U (p @ s))) p"
proof -
  have "to_lower U (p @ s) = to_lower U p @ to_lower U s" if "ascii_string p" for p
    using that by (induction p) (simp_all add: to_lower_def)
  moreover have "ascii_string p" using assms(2) by (auto simp: ascii_string_def list_all_iff solid_def)
  moreover have "to_lower U p = p" using assms(2) by (intro to_lower_fixed) (auto simp: solid_def)
  ultimately show ?thesis using trim_space_solid_prefix [OF assms(1)] assms by simp
qed

lemma split_byte_nonempty [simp]: "split_byte s c \<noteq> []"
  by (induction s) (auto split: list.splits)

lemma split_byte_free: "l \<in> set (split_byte s c) \<Longrightarrow> c \<notin> set l"
  by (induction s arbitrary: l) (auto split: if_splits list.splits)

end
