(* ===== verification/Go_Quote.thy ===== *)
theory Go_Quote
  imports Go_Strings
begin

text \<open>
  \<open>strconv.Quote\<close> and \<open>strconv.Unquote\<close> for double-quoted strings, and the proof that
  unquoting inverts quoting on every byte string, malformed UTF-8 included, whatever the
  printability table above U+00FF says. \<open>Unquote\<close>'s allocation-free fast path (no backslash,
  no newline, valid UTF-8) returns what its general loop returns and is not repeated.
\<close>

section \<open>Quote\<close>

definition bs :: char where "bs = CHR 0x5C"
definition dq :: char where "dq = CHR 0x22"

definition is_print_rune :: "unicode \<Rightarrow> rune \<Rightarrow> bool" where
  "is_print_rune U r =
     (if r \<le> 0xFF then (0x20 \<le> r \<and> r < 0x7F) \<or> (0xA1 \<le> r \<and> r \<noteq> 0xAD) else uc_print U r)"

definition hex2 :: "nat \<Rightarrow> string" where
  "hex2 n = [hex_digit (n div 16 mod 16), hex_digit (n mod 16)]"

definition hex4 :: "nat \<Rightarrow> string" where
  "hex4 n = hex2 (n div 256) @ hex2 n"

definition hex8 :: "nat \<Rightarrow> string" where
  "hex8 n = hex4 (n div 65536) @ hex4 n"

definition escape_rune :: "unicode \<Rightarrow> rune \<Rightarrow> string" where
  "escape_rune U r =
     (if r = 0x22 \<or> r = 0x5C then [bs, byte r]
      else if is_print_rune U r then encode_rune r
      else if r = 7 then bs # ''a''
      else if r = 8 then bs # ''b''
      else if r = 12 then bs # ''f''
      else if r = 10 then bs # ''n''
      else if r = 13 then bs # ''r''
      else if r = 9 then bs # ''t''
      else if r = 11 then bs # ''v''
      else if r < 0x20 \<or> r = 0x7F then bs # ''x'' @ hex2 r
      else (let r' = (if valid_rune r then r else rune_error) in
        if r' < 0x10000 then bs # ''u'' @ hex4 r' else bs # ''U'' @ hex8 r'))"

definition quote_piece :: "unicode \<Rightarrow> rune \<times> string \<Rightarrow> string" where
  "quote_piece U p = (if bad_rune p then bs # ''x'' @ hex2 (byte_of (hd (snd p)))
                      else escape_rune U (fst p))"

definition quote_body :: "unicode \<Rightarrow> string \<Rightarrow> string" where
  "quote_body U s = concat (map (quote_piece U) (runes s))"

definition go_quote :: "unicode \<Rightarrow> string \<Rightarrow> string" where
  "go_quote U s = dq # quote_body U s @ [dq]"

section \<open>Unquote\<close>

fun hex_value :: "nat \<Rightarrow> string \<Rightarrow> nat option" where
  "hex_value n [] = Some n"
| "hex_value n (c # s) = (case unhex c of None \<Rightarrow> None | Some d \<Rightarrow> hex_value (16 * n + d) s)"

text \<open>\<open>\x\<close>, \<open>\u\<close> and \<open>\U\<close> escapes: n digits, then the rest of the input.\<close>

definition unquote_hex :: "nat \<Rightarrow> bool \<Rightarrow> string \<Rightarrow> ((rune \<times> bool) \<times> string) option" where
  "unquote_hex n multi s = (if length s < n then None else
     case hex_value 0 (take n s) of None \<Rightarrow> None
     | Some v \<Rightarrow> (if multi \<and> \<not> valid_rune v then None else Some ((v, multi), drop n s)))"

definition octal_digit :: "char \<Rightarrow> nat option" where
  "octal_digit c = (if 48 \<le> byte_of c \<and> byte_of c \<le> 55 then Some (byte_of c - 48) else None)"

definition unquote_octal :: "char \<Rightarrow> string \<Rightarrow> ((rune \<times> bool) \<times> string) option" where
  "unquote_octal c s = (case s of c1 # c2 # t \<Rightarrow>
       (case (octal_digit c, octal_digit c1, octal_digit c2) of
          (Some a, Some b, Some d) \<Rightarrow>
            (let v = a * 64 + b * 8 + d in if v > 255 then None else Some ((v, False), t))
        | _ \<Rightarrow> None)
     | _ \<Rightarrow> None)"

text \<open>
  \<open>strconv.UnquoteChar(s, '"')\<close>: the value, whether it is a rune to be encoded
  (\<open>multibyte\<close>) or a single byte, and the rest.
\<close>

definition unquote_escape :: "char \<Rightarrow> string \<Rightarrow> ((rune \<times> bool) \<times> string) option" where
  "unquote_escape c s =
     (if c = CHR ''a'' then Some ((7, False), s)
      else if c = CHR ''b'' then Some ((8, False), s)
      else if c = CHR ''f'' then Some ((12, False), s)
      else if c = CHR ''n'' then Some ((10, False), s)
      else if c = CHR ''r'' then Some ((13, False), s)
      else if c = CHR ''t'' then Some ((9, False), s)
      else if c = CHR ''v'' then Some ((11, False), s)
      else if c = CHR ''x'' then unquote_hex 2 False s
      else if c = CHR ''u'' then unquote_hex 4 True s
      else if c = CHR ''U'' then unquote_hex 8 True s
      else if octal_digit c \<noteq> None then unquote_octal c s
      else if c = bs then Some ((0x5C, False), s)
      else if c = dq then Some ((0x22, False), s)
      else None)"

definition unquote_char :: "string \<Rightarrow> ((rune \<times> bool) \<times> string) option" where
  "unquote_char s = (case s of
     [] \<Rightarrow> None
   | c # t \<Rightarrow>
     (if c = dq then None
      else if 128 \<le> byte_of c then
        (let (r, w) = decode_rune s in Some ((r, True), drop w s))
      else if c \<noteq> bs then Some ((byte_of c, False), t)
      else (case t of [] \<Rightarrow> None | e # u \<Rightarrow> unquote_escape e u)))"

definition unquoted :: "rune \<times> bool \<Rightarrow> string" where
  "unquoted v = (if fst v < 128 \<or> \<not> snd v then [byte (fst v)] else encode_rune (fst v))"

text \<open>
  The loop of \<open>unquote\<close>: up to the closing quote, at which nothing may follow. Fuel bounds the
  characters read; every character takes at least one byte, so the length of the input is
  enough (\<open>unquote_loop_mono\<close>).
\<close>

fun unquote_loop :: "nat \<Rightarrow> string \<Rightarrow> string option" where
  "unquote_loop n [] = None"
| "unquote_loop 0 (c # s) = None"
| "unquote_loop (Suc n) (c # s) =
     (if c = dq then (if s = [] then Some [] else None)
      else if c = CHR 0x0A then None
      else (case unquote_char (c # s) of
         None \<Rightarrow> None
       | Some (v, rest) \<Rightarrow> map_option (\<lambda>out. unquoted v @ out) (unquote_loop n rest)))"

definition go_unquote :: "string \<Rightarrow> string option" where
  "go_unquote s = (case s of
     c # t \<Rightarrow> (if c = dq then unquote_loop (length t) t else None)
   | [] \<Rightarrow> None)"

section \<open>Unquoting inverts quoting\<close>

lemma bs_dq [simp]: "byte_of bs = 0x5C" "byte_of dq = 0x22"
  by (simp_all add: bs_def dq_def)

lemma byte_eq_iff: "n < 256 \<Longrightarrow> byte n = c \<longleftrightarrow> byte_of c = n"
  by (metis byte_byte_of byte_of_byte mod_less)

lemma unhex_hex_digit [simp]: "n < 16 \<Longrightarrow> unhex (hex_digit n) = Some n"
  by (auto simp: unhex_def hex_digit_def Let_def)

lemma hex_value_hex2: "hex_value k (hex2 n @ s) = hex_value (256 * k + n mod 256) s"
proof -
  have e: "16 * (n div 16 mod 16) + n mod 16 = n mod 256"
    using mod_mult2_eq [of n 16 16] by simp
  show ?thesis by (simp add: hex2_def add.assoc e)
qed

lemma hex_value_hex4: "hex_value k (hex4 n @ s) = hex_value (65536 * k + n mod 65536) s"
proof -
  have e: "256 * (n div 256 mod 256) + n mod 256 = n mod 65536"
    using mod_mult2_eq [of n 256 256] by simp
  show ?thesis by (simp add: hex4_def hex_value_hex2 add.assoc e)
qed

lemma hex_value_hex8: "n < 2 ^ 32 \<Longrightarrow> hex_value 0 (hex8 n @ s) = hex_value n s"
proof -
  assume "n < 2 ^ 32"
  then have "n div 65536 mod 65536 = n div 65536" by simp
  then have "65536 * (n div 65536 mod 65536) + n mod 65536 = n" by simp
  then show ?thesis by (simp add: hex8_def hex_value_hex4)
qed

lemma hex_lengths [simp]: "length (hex2 n) = 2" "length (hex4 n) = 4" "length (hex8 n) = 8"
  by (simp_all add: hex2_def hex4_def hex8_def)

lemma unquote_hex2: "n < 256 \<Longrightarrow> unquote_hex 2 False (hex2 n @ t) = Some ((n, False), t)"
  using hex_value_hex2 [of 0 n "[]"] by (simp add: unquote_hex_def)

lemma unquote_hex4: "n < 65536 \<Longrightarrow> valid_rune n \<Longrightarrow> unquote_hex 4 True (hex4 n @ t) = Some ((n, True), t)"
  using hex_value_hex4 [of 0 n "[]"] by (simp add: unquote_hex_def)

lemma unquote_hex8: "valid_rune n \<Longrightarrow> unquote_hex 8 True (hex8 n @ t) = Some ((n, True), t)"
  using hex_value_hex8 [of n "[]"] by (auto simp: unquote_hex_def valid_rune_def)

lemma encode_valid_high:
  "128 \<le> r \<Longrightarrow> valid_rune r \<Longrightarrow> \<exists>c t. encode_valid r = c # t \<and> 128 \<le> byte_of c"
  by (auto simp: encode_valid_def valid_rune_def)

lemma unquote_char_encode:
  assumes "valid_rune r" "r \<noteq> 0x22" "r \<noteq> 0x5C"
  shows "unquote_char (encode_valid r @ t) = Some ((r, 128 \<le> r), t)"
proof (cases "r < 128")
  case True
  then show ?thesis using assms by (simp add: encode_valid_def unquote_char_def byte_eq_iff)
next
  case False
  then obtain c u where c: "encode_valid r = c # u" "128 \<le> byte_of c"
    using encode_valid_high [of r] assms(1) by auto
  with decode_encode [OF assms(1), of t] have "decode_rune (c # u @ t) = (r, length (c # u))" by simp
  moreover have "c \<noteq> dq" "c \<noteq> bs" using c(2) by auto
  ultimately show ?thesis using c False by (simp add: unquote_char_def)
qed

lemma unquote_char_escape: "unquote_char (bs # c # t) = unquote_escape c t"
  by (simp add: unquote_char_def) (simp add: bs_def dq_def)

lemma unquote_escape_letters:
  "unquote_escape CHR ''x'' t = unquote_hex 2 False t"
  "unquote_escape CHR ''u'' t = unquote_hex 4 True t"
  "unquote_escape CHR ''U'' t = unquote_hex 8 True t"
  by (simp_all add: unquote_escape_def)

lemma escape_rune_controls:
  "escape_rune U 7 = bs # ''a''" "escape_rune U 8 = bs # ''b''" "escape_rune U 12 = bs # ''f''"
  "escape_rune U 10 = bs # ''n''" "escape_rune U 13 = bs # ''r''" "escape_rune U 9 = bs # ''t''"
  "escape_rune U 11 = bs # ''v''"
  by (simp_all add: escape_rune_def is_print_rune_def)

lemma unquote_escape_controls:
  "unquote_escape CHR ''a'' t = Some ((7, False), t)" "unquote_escape CHR ''b'' t = Some ((8, False), t)"
  "unquote_escape CHR ''f'' t = Some ((12, False), t)" "unquote_escape CHR ''n'' t = Some ((10, False), t)"
  "unquote_escape CHR ''r'' t = Some ((13, False), t)" "unquote_escape CHR ''t'' t = Some ((9, False), t)"
  "unquote_escape CHR ''v'' t = Some ((11, False), t)"
  by (simp_all add: unquote_escape_def)

lemma byte_quotes: "byte 0x22 = dq" "byte 0x5C = bs"
  by (simp_all add: byte_eq_iff)

lemma unquote_escape_quotes:
  "unquote_escape bs t = Some ((0x5C, False), t)" "unquote_escape dq t = Some ((0x22, False), t)"
  by (simp_all add: unquote_escape_def octal_digit_def bs_def dq_def)

lemma unquote_char_escape_rune:
  assumes "valid_rune r"
  shows "\<exists>m. unquote_char (escape_rune U r @ t) = Some ((r, m), t) \<and> unquoted (r, m) = encode_valid r"
proof -
  consider (quote) "r = 0x22 \<or> r = 0x5C"
    | (print) "r \<noteq> 0x22" "r \<noteq> 0x5C" "is_print_rune U r"
    | (ctl) "\<not> is_print_rune U r" "r \<in> {7, 8, 12, 10, 13, 9, 11}"
    | (hex) "\<not> is_print_rune U r" "r \<notin> {7, 8, 12, 10, 13, 9, 11}" "r < 0x20 \<or> r = 0x7F"
    | (uni) "\<not> is_print_rune U r" "\<not> r < 0x20" "r \<noteq> 0x7F" "r \<noteq> 0x22" "r \<noteq> 0x5C"
    by blast
  then show ?thesis
  proof cases
    case quote
    then show ?thesis
      by (elim disjE) (simp_all add: escape_rune_def unquote_char_escape byte_quotes
          unquote_escape_quotes unquoted_def encode_valid_def ex_bool_eq)
  next
    case print
    then show ?thesis using assms
      by (auto simp: escape_rune_def encode_rune_def unquote_char_encode unquoted_def)
        (auto simp: encode_valid_def)
  next
    case ctl
    then show ?thesis
      by (elim insertE emptyE) (simp_all add: escape_rune_controls unquote_char_escape
          unquote_escape_controls unquoted_def encode_valid_def ex_bool_eq)
  next
    case hex
    then have "r \<noteq> 0x22" "r \<noteq> 0x5C" by auto
    with hex have "escape_rune U r = bs # ''x'' @ hex2 r" by (simp add: escape_rune_def)
    moreover have "r < 128" using hex(3) by auto
    ultimately show ?thesis
      by (simp add: unquote_char_escape unquote_escape_letters unquote_hex2 unquoted_def encode_valid_def
          ex_bool_eq)
  next
    case uni
    then have "128 \<le> r" by (auto simp: is_print_rune_def split: if_splits)
    then show ?thesis using uni assms
      by (auto simp: escape_rune_def unquote_char_escape unquote_escape_letters unquote_hex4 unquote_hex8
          unquoted_def encode_rune_def)
  qed
qed


lemma quote_piece_good [simp]: "\<not> bad_rune (r, e) \<Longrightarrow> quote_piece U (r, e) = escape_rune U r"
  by (simp add: quote_piece_def)

lemma quote_piece_bad [simp]: "quote_piece U (rune_error, [c]) = bs # ''x'' @ hex2 (byte_of c)"
  by (simp add: quote_piece_def bad_rune_def)

lemma byte_of_less: "byte_of c < (256::nat)"
  by (metis byte_byte_of byte_of_byte mod_less_divisor zero_less_numeral)

lemma quote_body_simps:
  "quote_body U [] = []"
  "runes s = (r, e) # runes t \<Longrightarrow> quote_body U s = quote_piece U (r, e) @ quote_body U t"
  by (simp_all add: quote_body_def)

lemma escape_rune_head:
  assumes "valid_rune r"
  shows "\<exists>c t. escape_rune U r = c # t \<and> c \<noteq> dq \<and> c \<noteq> CHR 0x0A"
proof (cases "is_print_rune U r \<and> r \<noteq> 0x22 \<and> r \<noteq> 0x5C")
  case True
  show ?thesis
  proof (cases "r < 128")
    case r: True
    have "r \<noteq> 10" using True by (auto simp: is_print_rune_def)
    with r True have "escape_rune U r = [byte r]" "byte r \<noteq> dq" "byte r \<noteq> CHR 0x0A"
      by (simp_all add: escape_rune_def encode_rune_def encode_valid_def valid_rune_def byte_eq_iff)
    then show ?thesis by blast
  next
    case False
    with encode_valid_high [of r] assms obtain c t where c: "encode_valid r = c # t" "128 \<le> byte_of c" by auto
    have "c \<noteq> dq" "c \<noteq> CHR 0x0A" using c(2) by auto
    with c(1) True assms show ?thesis by (simp add: escape_rune_def encode_rune_def)
  qed
next
  case False
  have "bs \<noteq> dq" "bs \<noteq> CHR 0x0A" by (simp_all add: bs_def dq_def)
  with False show ?thesis by (auto simp: escape_rune_def Let_def)
qed

lemma unquote_loop_piece:
  assumes "unquote_char (c # p) = Some (v, q)" "c \<noteq> dq" "c \<noteq> CHR 0x0A"
  shows "unquote_loop (Suc n) (c # p) = map_option (\<lambda>out. unquoted v @ out) (unquote_loop n q)"
  using assms by simp

lemma unquote_loop_body:
  "length (quote_body U s) < n \<Longrightarrow> unquote_loop n (quote_body U s @ [dq]) = Some s"
proof (induction s arbitrary: n rule: length_induct)
  case (1 s)
  then obtain m where n: "n = Suc m" by (cases n) auto
  show ?case
  proof (cases "s = []")
    case True
    then show ?thesis using n by (simp add: quote_body_simps)
  next
    case False
    then show ?thesis
    proof (cases s rule: runes_Cons_cases)
      case (good r t)
      obtain c u where c: "escape_rune U r = c # u" "c \<noteq> dq" "c \<noteq> CHR 0x0A"
        using escape_rune_head [OF good(1), of U] by auto
      obtain k where k: "unquote_char (escape_rune U r @ quote_body U t @ [dq]) = Some ((r, k), quote_body U t @ [dq])"
        "unquoted (r, k) = encode_valid r"
        using unquote_char_escape_rune [OF good(1)] by blast
      have q: "quote_body U s = c # u @ quote_body U t"
        using quote_body_simps(2) [OF good(3)] good(4) c(1) by simp
      have "length t < length s" using good(2) by simp
      moreover have "length (quote_body U t) < m" using "1.prems" q n by simp
      ultimately have "unquote_loop m (quote_body U t @ [dq]) = Some t" using "1.IH" by blast
      moreover have "unquote_char (c # u @ quote_body U t @ [dq]) = Some ((r, k), quote_body U t @ [dq])"
        using k(1) c(1) by simp
      ultimately show ?thesis
        using unquote_loop_piece [OF _ c(2,3)] k(2) q n good(2) by simp
    next
      case (bad c t)
      have q: "quote_body U s = bs # CHR ''x'' # hex2 (byte_of c) @ quote_body U t"
        using quote_body_simps(2) [OF bad(3)] by simp
      have "length (quote_body U t) < m" using "1.prems" q n by simp
      moreover have "length t < length s" using bad(1) by simp
      ultimately have "unquote_loop m (quote_body U t @ [dq]) = Some t" using "1.IH" by blast
      moreover have "unquote_char (bs # CHR ''x'' # hex2 (byte_of c) @ quote_body U t @ [dq])
          = Some ((byte_of c, False), quote_body U t @ [dq])"
        using unquote_hex2 [OF byte_of_less] by (simp add: unquote_char_escape unquote_escape_letters)
      moreover have "bs \<noteq> dq" "bs \<noteq> CHR 0x0A" by (simp_all add: bs_def dq_def)
      ultimately show ?thesis
        using unquote_loop_piece q n bad(1) by (simp add: unquoted_def)
    qed
  qed
qed

theorem unquote_quote: "go_unquote (go_quote U s) = Some s"
  using unquote_loop_body [of U s "Suc (length (quote_body U s))"]
  by (simp add: go_unquote_def go_quote_def)

section \<open>The shape of a quoted string\<close>

text \<open>The inside of a literal: a backslash takes the next byte with it, and no quote is left over.\<close>

fun closed_body :: "string \<Rightarrow> bool" where
  "closed_body [] = True"
| "closed_body [c] = (c \<noteq> bs \<and> c \<noteq> dq)"
| "closed_body (c # d # s) = (if c = bs then closed_body s else c \<noteq> dq \<and> closed_body (d # s))"

lemma closed_body_Cons [simp]: "c \<noteq> bs \<Longrightarrow> closed_body (c # s) \<longleftrightarrow> c \<noteq> dq \<and> closed_body s"
  by (cases s) auto

lemma closed_body_append: "closed_body s \<Longrightarrow> closed_body t \<Longrightarrow> closed_body (s @ t)"
  by (induction s rule: closed_body.induct) (auto split: if_splits)

lemma closed_body_plain: "bs \<notin> set s \<Longrightarrow> dq \<notin> set s \<Longrightarrow> closed_body s"
  by (induction s) auto

definition printable_bytes :: "string \<Rightarrow> bool" where
  "printable_bytes s = list_all (\<lambda>c. 0x20 \<le> byte_of c) s"

lemma printable_bytes_simps [simp]: "printable_bytes []"
  "printable_bytes (c # s) \<longleftrightarrow> 0x20 \<le> byte_of c \<and> printable_bytes s"
  "printable_bytes (s @ t) \<longleftrightarrow> printable_bytes s \<and> printable_bytes t"
  by (simp_all add: printable_bytes_def)

definition hex_char :: "char \<Rightarrow> bool" where
  "hex_char c = ((48 \<le> byte_of c \<and> byte_of c \<le> 57) \<or> (97 \<le> byte_of c \<and> byte_of c \<le> 102))"

lemma hex_char_digit [simp]: "n < 16 \<Longrightarrow> hex_char (hex_digit n)"
  by (auto simp: hex_digit_def hex_char_def)

lemma hex_chars [simp]: "list_all hex_char (hex2 n)" "list_all hex_char (hex4 n)" "list_all hex_char (hex8 n)"
  by (simp_all add: hex2_def hex4_def hex8_def)

lemma plain_bytes: 
  assumes "\<And>c. c \<in> set s \<Longrightarrow> hex_char c \<or> 128 \<le> byte_of c"
  shows "closed_body s \<and> printable_bytes s"
proof
  have "bs \<notin> set s" "dq \<notin> set s" using assms [of bs] assms [of dq] by (auto simp: hex_char_def)
  then show "closed_body s" by (rule closed_body_plain)
  show "printable_bytes s"
    using assms by (fastforce simp: printable_bytes_def list_all_iff hex_char_def)
qed

lemma plain_hex: "closed_body (hex2 n) \<and> printable_bytes (hex2 n)"
  "closed_body (hex4 n) \<and> printable_bytes (hex4 n)" "closed_body (hex8 n) \<and> printable_bytes (hex8 n)"
  using hex_chars [of n] by (auto intro!: plain_bytes simp: list_all_iff)

lemma encode_valid_bytes:
  assumes "valid_rune r" "128 \<le> r" "c \<in> set (encode_valid r)"
  shows "128 \<le> byte_of c"
proof -
  have "r div 4096 < 16" if "r < 65536" using that by auto
  moreover have "r div 262144 < 5" using assms(1) by (auto simp: valid_rune_def)
  moreover have "r div 64 < 32" if "r < 2048" using that by auto
  ultimately show ?thesis
    using assms by (auto simp: encode_valid_def split: if_splits)
qed

lemma escape_rune_shape:
  assumes "valid_rune r"
  shows "closed_body (escape_rune U r) \<and> printable_bytes (escape_rune U r)"
proof (cases "is_print_rune U r \<and> r \<noteq> 0x22 \<and> r \<noteq> 0x5C")
  case True
  show ?thesis
  proof (cases "r < 128")
    case r: True
    have "32 \<le> r" using True r by (auto simp: is_print_rune_def)
    moreover from r True have "escape_rune U r = [byte r]" "byte r \<noteq> dq" "byte r \<noteq> bs"
      by (simp_all add: escape_rune_def encode_rune_def encode_valid_def valid_rune_def byte_eq_iff)
    ultimately show ?thesis using r by simp
  next
    case False
    then have "escape_rune U r = encode_valid r"
      using True assms by (simp add: escape_rune_def encode_rune_def)
    then show ?thesis using encode_valid_bytes [OF assms] False plain_bytes [of "encode_valid r"] by auto
  qed
next
  case False
  have *: "closed_body (bs # c # s) \<and> printable_bytes (bs # c # s)"
    if "closed_body s \<and> printable_bytes s" "32 \<le> byte_of c" for c s
    using that by simp
  show ?thesis
  proof (cases "r = 0x22 \<or> r = 0x5C")
    case True
    then show ?thesis by (auto simp: escape_rune_def)
  next
    case r: False
    with False have "\<not> is_print_rune U r" by simp
    with r show ?thesis using plain_hex by (simp add: escape_rune_def Let_def)
  qed
qed

lemma quote_body_shape: "closed_body (quote_body U s) \<and> printable_bytes (quote_body U s)"
proof (induction s rule: length_induct)
  case (1 s)
  show ?case
  proof (cases "s = []")
    case True
    then show ?thesis by (simp add: quote_body_simps)
  next
    case False
    then show ?thesis
    proof (cases s rule: runes_Cons_cases)
      case (good r t)
      then have "length t < length s" by simp
      with 1 escape_rune_shape [OF good(1), of U] quote_body_simps(2) [OF good(3)] good(4)
      show ?thesis by (auto intro: closed_body_append)
    next
      case (bad c t)
      then have "length t < length s" by simp
      with 1 plain_hex(1) quote_body_simps(2) [OF bad(3)]
      show ?thesis by (auto intro: closed_body_append)
    qed
  qed
qed

lemma go_quote_printable: "printable_bytes (go_quote U s)"
  using quote_body_shape by (simp add: go_quote_def)

lemma go_quote_no_lf: "CHR 0x0A \<notin> set (go_quote U s)" "CHR 0x0D \<notin> set (go_quote U s)"
  using go_quote_printable [of U s] by (auto simp: printable_bytes_def list_all_iff)

text \<open>Plain ASCII is quoted as it is.\<close>

lemma quote_body_plain:
  "list_all (\<lambda>c. 0x20 \<le> byte_of c \<and> byte_of c < (0x7F::nat) \<and> c \<noteq> dq \<and> c \<noteq> bs) s \<Longrightarrow> quote_body U s = s"
proof (induction s)
  case Nil
  then show ?case by (simp add: quote_body_def)
next
  case (Cons c s)
  then have c: "0x20 \<le> byte_of c" "byte_of c < (0x7F::nat)" "c \<noteq> dq" "c \<noteq> bs" by simp_all
  have "decode_rune (c # s) = (byte_of c, 1)" using c(2) by simp
  then have r: "runes (c # s) = (byte_of c, [c]) # runes s" by (simp add: runes.simps(2))
  have "byte_of c \<noteq> (0x22::nat)" "byte_of c \<noteq> (0x5C::nat)"
    using c(3,4) byte_eq_iff by (metis byte_byte_of byte_quotes)+
  then have "escape_rune U (byte_of c) = [c]" using c(1,2)
    by (simp add: escape_rune_def is_print_rune_def encode_rune_def encode_valid_def valid_rune_def)
  then show ?case using Cons c(2) by (simp add: quote_body_simps(2) [OF r] quote_piece_def bad_rune_def rune_error_def)
qed

lemma quote_hex: "list_all hex_char s \<Longrightarrow> go_quote U s = dq # s @ [dq]"
  unfolding go_quote_def
  by (subst quote_body_plain) (auto simp: list_all_iff hex_char_def)

section \<open>The fuel of the unquoting loop\<close>

lemma unquote_char_shorter: "unquote_char s = Some (v, rest) \<Longrightarrow> length rest < length s"
proof -
  assume u: "unquote_char s = Some (v, rest)"
  then obtain c t where s: "s = c # t" by (cases s) (auto simp: unquote_char_def)
  have w: "1 \<le> snd (decode_rune s)" using decode_rune_width [of s] s by simp
  have e: "length rest \<le> length w" if "unquote_escape e w = Some (v, rest)" for e w
    using that by (auto simp: unquote_escape_def unquote_hex_def unquote_octal_def Let_def split: if_splits option.splits list.splits)
  show ?thesis
  proof (cases "128 \<le> byte_of c")
    case True
    then have "rest = drop (snd (decode_rune s)) s"
      using u by (auto simp: s unquote_char_def case_prod_beta Let_def split: if_splits)
    then show ?thesis using w s by (cases "snd (decode_rune s)") auto
  next
    case False
    then show ?thesis using u e by (auto simp: s unquote_char_def split: if_splits list.splits) fastforce
  qed
qed

lemma unquote_loop_mono: "length s \<le> n \<Longrightarrow> length s \<le> m \<Longrightarrow> unquote_loop n s = unquote_loop m s"
proof (induction n arbitrary: m s)
  case 0
  then show ?case by simp
next
  case (Suc n)
  show ?case
  proof (cases s)
    case Nil
    then show ?thesis by simp
  next
    case (Cons c t)
    then obtain m' where m: "m = Suc m'" using Suc.prems(2) by (cases m) auto
    have "unquote_loop n rest = unquote_loop m' rest" if "unquote_char s = Some (v, rest)" for v rest
      using unquote_char_shorter [OF that] Suc.prems by (intro Suc.IH) (simp_all add: m)
    then show ?thesis by (auto simp: Cons m split: option.splits)
  qed
qed
end
