(* ===== verification/Toml.thy ===== *)
theory Toml
  imports Go_Quote
begin

text \<open>
  \<open>internal/toml/toml.go\<close>: the TOML subset every configuration file of the program is written
  in. Comment stripping, section headers, quoted strings, booleans and arrays of quoted
  strings, with one error constructor per error the source returns, and the codec laws the
  writers rest on.
\<close>

datatype toml_error =
    Array_Table_Unsupported
  | Malformed_Header
  | Expected_Quoted
  | Invalid_Syntax            \<comment> \<open>\<open>strconv.ErrSyntax\<close>\<close>
  | Expected_Bool
  | Expected_Array
  | Element_Not_Quoted
  | Unterminated_String
  | Expected_Comma

text \<open>
  \<open>StripComment\<close> ranges over runes; the bytes it compares are ASCII and never occur inside a
  longer rune, so the loop is written over bytes. The flags are \<open>inQuote\<close> and \<open>escaped\<close>.
\<close>

fun strip_from :: "bool \<Rightarrow> bool \<Rightarrow> string \<Rightarrow> string" where
  "strip_from inq esc [] = []"
| "strip_from inq esc (r # s) =
     (if esc then r # strip_from inq False s
      else if r = bs \<and> inq then r # strip_from inq True s
      else if r = dq then r # strip_from (\<not> inq) False s
      else if r = CHR ''#'' \<and> \<not> inq then []
      else r # strip_from inq False s)"

definition StripComment :: "string \<Rightarrow> string" where
  "StripComment s = strip_from False False s"

text \<open>\<open>ParseSectionHeader\<close>: \<open>Inr None\<close> when the line is no header.\<close>

definition ParseSectionHeader :: "string \<Rightarrow> (toml_error, string option) result" where
  "ParseSectionHeader s =
     (let line = trim_space (StripComment s) in
      if line = [] \<or> \<not> has_prefix line ''['' then Inr None
      else if has_prefix line ''[['' then Inl Array_Table_Unsupported
      else if \<not> has_suffix line '']'' then Inl Malformed_Header
      else (let section = trim_space (butlast (tl line)) in
        if section = [] \<or> contains_any section ''[]'' then Inl Malformed_Header
        else Inr (Some section)))"

definition unquote_result :: "string \<Rightarrow> (toml_error, string) result" where
  "unquote_result s = (case go_unquote s of None \<Rightarrow> Inl Invalid_Syntax | Some v \<Rightarrow> Inr v)"

definition ParseQuoted :: "string \<Rightarrow> (toml_error, string) result" where
  "ParseQuoted s0 =
     (let s = trim_space s0 in
      if length s < 2 \<or> hd s \<noteq> dq \<or> last s \<noteq> dq then Inl Expected_Quoted
      else unquote_result s)"

definition ParseBool :: "string \<Rightarrow> (toml_error, bool) result" where
  "ParseBool s = (let t = trim_space s in
     if t = ''true'' then Inr True else if t = ''false'' then Inr False else Inl Expected_Bool)"

text \<open>
  The inner loop of \<open>ParseStringArray\<close>: the position of the quote that closes the element
  whose opening quote has just been passed.
\<close>

fun closing_quote :: "bool \<Rightarrow> string \<Rightarrow> nat option" where
  "closing_quote esc [] = None"
| "closing_quote esc (c # s) =
     (if esc then map_option Suc (closing_quote False s)
      else if c = bs then map_option Suc (closing_quote True s)
      else if c = dq then Some 0
      else map_option Suc (closing_quote False s))"

lemma closing_quote_less: "closing_quote e s = Some n \<Longrightarrow> n < length s"
  by (induction e s arbitrary: n rule: closing_quote.induct) (auto split: if_splits)

lemma trim_left_length: "length (trim_left s) \<le> length s"
proof (induction s rule: trim_left.induct)
  case (1 s)
  obtain r w where rw: "decode_rune s = (r, w)" by fastforce
  show ?case
  proof (cases "s \<noteq> [] \<and> is_space_rune r")
    case True
    then have "length (trim_left (drop w s)) \<le> length (drop w s)" using "1.IH" rw by metis
    with True show ?thesis by (subst trim_left.simps) (simp add: rw)
  next
    case False
    then show ?thesis by (subst trim_left.simps) (auto simp: rw)
  qed
qed

lemma trim_right_rev_length: "length (trim_right_rev t) \<le> length t"
proof (induction t rule: trim_right_rev.induct)
  case (1 t)
  show ?case
  proof (cases "last_space_width t = 0")
    case True
    then show ?thesis by (subst trim_right_rev.simps) simp
  next
    case False
    with "1.IH" have "length (trim_right_rev (drop (last_space_width t) t)) \<le> length t"
      by (smt (verit) length_drop diff_le_self le_trans)
    with False show ?thesis by (subst trim_right_rev.simps) simp
  qed
qed

lemma trim_space_length: "length (trim_space s) \<le> length s"
  using trim_left_length [of s] trim_right_rev_length [of "rev (trim_left s)"]
  by (simp add: trim_space_def trim_right_def)

text \<open>
  The outer loop of \<open>ParseStringArray\<close> over \<open>inner\<close>, the text between the brackets. The loop
  test is made before the trim, as in the source.
\<close>

function array_elements :: "string \<Rightarrow> (toml_error, string list) result" where
  "array_elements inner0 =
     (if inner0 = [] then Inr []
      else let inner = trim_space inner0 in
        if \<not> has_prefix inner [dq] then Inl Element_Not_Quoted
        else (case closing_quote False (tl inner) of
            None \<Rightarrow> Inl Unterminated_String
          | Some n \<Rightarrow> rbind (unquote_result (take (n + 2) inner)) (\<lambda>v.
              let rest = trim_space (drop (n + 2) inner) in
              if rest = [] then Inr [v]
              else if hd rest \<noteq> CHR '','' then Inl Expected_Comma
              else rbind (array_elements (tl rest)) (\<lambda>vs. Inr (v # vs)))))"
  by pat_completeness auto
termination
proof (relation "measure length", goal_cases)
  case 1
  then show ?case by simp
next
  case (2 inner0 inner n v rest)
  have "length rest \<le> length inner0"
    using 2 trim_space_length [of "drop (n + 2) inner"] trim_space_length [of inner0] by auto
  moreover have "rest \<noteq> []" using 2 by simp
  ultimately show ?case by (cases rest) auto
qed

declare array_elements.simps [simp del]

definition ParseStringArray :: "string \<Rightarrow> (toml_error, string list) result" where
  "ParseStringArray s0 =
     (let s = trim_space s0 in
      if s = ''[]'' then Inr []
      else if length s < 2 \<or> hd s \<noteq> CHR ''['' \<or> last s \<noteq> CHR '']'' then Inl Expected_Array
      else array_elements (trim_space (butlast (tl s))))"

definition Quote :: "unicode \<Rightarrow> string \<Rightarrow> string" where
  "Quote U s = go_quote U s"

definition Array :: "unicode \<Rightarrow> string list \<Rightarrow> string" where
  "Array U xs = ''['' @ join '', '' (map (go_quote U) xs) @ '']''"

lemma solid_chars [simp]: "solid dq" "solid CHR ''[''" "solid CHR '']''" "solid CHR '',''"
  by (simp_all add: solid_def is_space_rune_def)

lemma hd_quote [simp]: "hd (go_quote U s) = dq" "go_quote U s \<noteq> []" "last (go_quote U s) = dq"
  by (simp_all add: go_quote_def)

section \<open>Comments\<close>

lemma strip_prefix: "prefix (strip_from q e s) s"
  by (induction q e s rule: strip_from.induct) auto

lemma strip_idem_aux: "strip_from q e (strip_from q e s) = strip_from q e s"
  by (induction q e s rule: strip_from.induct) auto

lemma strip_plain:
  "dq \<notin> set p \<Longrightarrow> CHR ''#'' \<notin> set p \<Longrightarrow> strip_from False False (p @ t) = p @ strip_from False False t"
  by (induction p) auto

lemma strip_inside:
  "closed_body b \<Longrightarrow> strip_from True False (b @ dq # t) = b @ dq # strip_from False False t"
proof (induction b rule: closed_body.induct)
  case (3 c d s)
  have "bs \<noteq> dq" by (simp add: bs_def dq_def)
  with 3 show ?case by (auto split: if_splits)
qed (auto simp: bs_def dq_def)

lemma strip_quote: "strip_from False False (go_quote U s @ t) = go_quote U s @ strip_from False False t"
proof -
  have "dq \<noteq> bs" by (simp add: bs_def dq_def)
  with strip_inside [of "quote_body U s" t] quote_body_shape [of U s] show ?thesis
    by (simp add: go_quote_def)
qed

lemma strip_nil [simp]: "strip_from q e [] = []" by simp

lemma dq_not_plain [simp]: "dq \<noteq> CHR '',''" "dq \<noteq> CHR '' ''" "dq \<noteq> CHR ''[''" "dq \<noteq> CHR '']''" "dq \<noteq> CHR ''#''"
  by (simp_all add: dq_def)

lemma strip_join:
  "strip_from False False (join '', '' (map (go_quote U) xs) @ t)
     = join '', '' (map (go_quote U) xs) @ strip_from False False t"
proof (induction xs rule: induct_list012)
  case 1
  then show ?case by simp
next
  case (2 x)
  then show ?case by (simp add: strip_quote)
next
  case (3 x y zs)
  have "strip_from False False (go_quote U x @ '', '' @ join '', '' (map (go_quote U) (y # zs)) @ t)
      = go_quote U x @ '', '' @ strip_from False False (join '', '' (map (go_quote U) (y # zs)) @ t)"
    using strip_plain [of "'', ''"] by (simp add: strip_quote)
  with 3 show ?case by simp
qed

lemma strip_array: "strip_from False False (Array U xs @ t) = Array U xs @ strip_from False False t"
  using strip_plain [of "''[''"] strip_plain [of "'']''"] strip_join [of U xs "'']'' @ t"]
  by (simp add: Array_def)

section \<open>Strings and arrays of strings\<close>

lemma trim_space_quote [simp]: "trim_space (go_quote U s) = go_quote U s"
  by (rule trim_space_solid) simp_all

lemma unquote_result_quote [simp]: "unquote_result (go_quote U s) = Inr s"
  by (simp add: unquote_result_def unquote_quote)

lemma length_quote: "length (go_quote U s) = Suc (Suc (length (quote_body U s)))"
  by (simp add: go_quote_def)

lemma parse_quoted_quote: "ParseQuoted (Quote U s) = Inr s"
  by (simp add: ParseQuoted_def Quote_def length_quote)

lemma closing_quote_body: "closed_body b \<Longrightarrow> closing_quote False (b @ dq # t) = Some (length b)"
proof (induction b rule: closed_body.induct)
  case (3 c d s)
  have "bs \<noteq> dq" by (simp add: bs_def dq_def)
  with 3 show ?case by (auto split: if_splits)
qed (auto simp: bs_def dq_def)

lemma closing_quote_quote: "closing_quote False (tl (go_quote U s @ t)) = Some (length (quote_body U s))"
  using closing_quote_body quote_body_shape by (simp add: go_quote_def)

lemma take_quote: "take (length (quote_body U s) + 2) (go_quote U s @ t) = go_quote U s"
  "drop (length (quote_body U s) + 2) (go_quote U s @ t) = t"
  by (simp_all add: go_quote_def)

lemma array_elements_quote:
  assumes "trim_space inner0 = go_quote U x @ t"
  shows "array_elements inner0 = (let rest = trim_space t in
     if rest = [] then Inr [x] else if hd rest \<noteq> CHR '','' then Inl Expected_Comma
     else rbind (array_elements (tl rest)) (\<lambda>vs. Inr (x # vs)))"
proof -
  have "inner0 \<noteq> []" using assms by auto
  moreover have "has_prefix (go_quote U x @ t) [dq]" by (simp add: has_prefix_def go_quote_def)
  ultimately show ?thesis
    by (subst array_elements.simps)
      (simp only: assms closing_quote_quote take_quote Let_def option.case unquote_result_quote rbind_simps if_False if_True not_not simp_thms)
qed

lemma last_join_quotes [simp]: "xs \<noteq> [] \<Longrightarrow> last (join '', '' (map (go_quote U) xs)) = dq"
  "xs \<noteq> [] \<Longrightarrow> join '', '' (map (go_quote U) xs) \<noteq> []"
  "xs \<noteq> [] \<Longrightarrow> hd (join '', '' (map (go_quote U) xs)) = dq"
  by (induction xs rule: induct_list012) (simp_all add: hd_append)

lemma trim_join_quotes:
  assumes "xs \<noteq> []" "p = [] \<or> p = '' ''"
  shows "trim_space (p @ join '', '' (map (go_quote U) xs)) = join '', '' (map (go_quote U) xs)"
proof -
  have t: "trim_space (join '', '' (map (go_quote U) xs)) = join '', '' (map (go_quote U) xs)"
    using assms(1) by (intro trim_space_solid) simp_all
  have "trim_left (CHR '' '' # s) = trim_left s" for s
    by (rule trim_left_space) (simp_all add: is_space_rune_def)
  then have "trim_space ('' '' @ s) = trim_space s" for s by (simp add: trim_space_def)
  from this [of "join '', '' (map (go_quote U) xs)"] t assms(2) show ?thesis by auto
qed

lemma array_elements_join:
  "xs \<noteq> [] \<Longrightarrow> p = [] \<or> p = '' '' \<Longrightarrow> array_elements (p @ join '', '' (map (go_quote U) xs)) = Inr xs"
proof (induction xs arbitrary: p rule: induct_list012)
  case 1
  then show ?case by simp
next
  case (2 x)
  have "trim_space (p @ join '', '' (map (go_quote U) [x])) = go_quote U x @ []"
    using trim_join_quotes [OF 2] by simp
  from array_elements_quote [OF this] show ?case by simp
next
  case (3 x y zs)
  let ?ys = "join '', '' (map (go_quote U) (y # zs))"
  have "trim_space (p @ join '', '' (map (go_quote U) (x # y # zs))) = go_quote U x @ ('', '' @ ?ys)"
    using trim_join_quotes [OF 3(3) 3(4)] by simp
  from array_elements_quote [OF this]
  have "array_elements (p @ join '', '' (map (go_quote U) (x # y # zs))) = (let rest = trim_space ('', '' @ ?ys) in
     if rest = [] then Inr [x] else if hd rest \<noteq> CHR '','' then Inl Expected_Comma
     else rbind (array_elements (tl rest)) (\<lambda>vs. Inr (x # vs)))" .
  moreover have "trim_space ('', '' @ ?ys) = '', '' @ ?ys"
    using last_join_quotes [of "y # zs" U] by (intro trim_space_solid) (simp_all del: join.simps list.map)
  moreover have "array_elements ('' '' @ ?ys) = Inr (y # zs)" using 3(2) by blast
  ultimately show ?case by simp
qed

lemma parse_array_array: "ParseStringArray (Array U xs) = Inr xs"
proof (cases "xs = []")
  case True
  then show ?thesis by (simp add: ParseStringArray_def Array_def trim_space_solid)
next
  case False
  let ?j = "join '', '' (map (go_quote U) xs)"
  have t: "trim_space (Array U xs) = Array U xs"
    by (rule trim_space_solid) (simp_all add: Array_def)
  have ne: "Array U xs \<noteq> ''[]''" using last_join_quotes(2) [OF False, of U] by (simp add: Array_def)
  have "trim_space ?j = ?j" using trim_join_quotes [OF False, of "[]"] by simp
  then show ?thesis using t ne array_elements_join [OF False, of "[]" U]
    by (simp add: ParseStringArray_def) (simp add: Array_def butlast_append)
qed

end
