(* ===== verification/Config_Lines.thy ===== *)
theory Config_Lines
  imports Toml
begin

text \<open>
  How the configuration files are read and written line by line, over \<open>Toml\<close>: the logical
  line, the split at \<open>=\<close>, the contract between the writer and the reader of a value
  (\<open>value_codec\<close>, interpreted for quoted strings, string arrays and integers), and the
  scanner's view of a written file.
\<close>

section \<open>Lines of a configuration file\<close>

text \<open>
  Every parser of the program reads a line the same way: the comment is stripped and the rest
  trimmed; an empty rest is skipped, a header is recognised, and anything else is split at the
  first \<open>=\<close> with both sides trimmed (\<open>strings.SplitN(line, "=", 2)\<close>).
\<close>

definition logical :: "string \<Rightarrow> string" where
  "logical raw = trim_space (StripComment raw)"

definition split_kv :: "string \<Rightarrow> (string \<times> string) option" where
  "split_kv line = map_option (\<lambda>(k, v). (trim_space k, trim_space v)) (cut_byte line CHR ''='')"

definition key_line :: "string \<Rightarrow> string \<Rightarrow> string" where
  "key_line k v = k @ '' = '' @ v"

definition key_char :: "char \<Rightarrow> bool" where
  "key_char c = ((97 \<le> byte_of c \<and> byte_of c \<le> 122) \<or> is_digit c \<or> c = CHR ''_'' \<or> c = CHR ''.'' \<or> c = CHR ''-'')"

definition plain_key :: "string \<Rightarrow> bool" where
  "plain_key k = (k \<noteq> [] \<and> list_all key_char k)"

lemma key_char_facts:
  assumes "key_char c"
  shows "solid c" "c \<noteq> dq" "c \<noteq> CHR ''#''" "c \<noteq> CHR ''=''" "c \<noteq> CHR ''[''" "c \<noteq> CHR '']''" "32 \<le> byte_of c"
  using assms by (auto simp: key_char_def is_digit_def solid_def is_space_rune_def dq_def)

lemma plain_key_facts:
  assumes "plain_key k"
  shows "k \<noteq> []" "solid (hd k)" "solid (last k)" "dq \<notin> set k" "CHR ''#'' \<notin> set k" "CHR ''='' \<notin> set k"
    "CHR ''['' \<notin> set k" "CHR '']'' \<notin> set k" "printable_bytes k"
proof -
  have a: "\<And>c. c \<in> set k \<Longrightarrow> key_char c" and ne: "k \<noteq> []"
    using assms by (auto simp: plain_key_def list_all_iff)
  show "k \<noteq> []" by (rule ne)
  show "solid (hd k)" "solid (last k)" using a ne key_char_facts(1) by auto
  show "dq \<notin> set k" "CHR ''#'' \<notin> set k" "CHR ''='' \<notin> set k" "CHR ''['' \<notin> set k" "CHR '']'' \<notin> set k"
    using a key_char_facts(2-6) by blast+
  show "printable_bytes k" using a key_char_facts(7) by (auto simp: printable_bytes_def list_all_iff)
qed

lemma trim_plain_key [simp]: "plain_key k \<Longrightarrow> trim_space k = k"
  by (intro trim_space_solid plain_key_facts)

lemma space_facts: "byte_of CHR '' '' < (128::nat)" "is_space_rune (byte_of CHR '' '')"
  by (simp_all add: is_space_rune_def)

lemma trim_space_after:
  assumes "k \<noteq> []" "solid (hd k)" "solid (last k)"
  shows "trim_space (k @ '' '') = k"
proof -
  obtain c t where k: "k = c # t" using assms(1) by (cases k) auto
  have "trim_left (k @ '' '') = k @ '' ''" using assms(2) k by simp
  moreover have "trim_right k = k" using trim_right_solid [OF assms(3), of "butlast k"] assms(1) by simp
  ultimately show ?thesis using trim_right_space [OF space_facts, of k] by (simp add: trim_space_def)
qed

lemma trim_space_before: "trim_space ('' '' @ v) = trim_space v"
  using trim_left_space [OF space_facts] by (simp add: trim_space_def)

lemma cut_byte_plain: "c \<notin> set k \<Longrightarrow> cut_byte (k @ c # t) c = Some (k, t)"
  by (induction k) auto

lemma has_prefix_Cons1 [simp, go_simps]: "has_prefix (c # s) [d] \<longleftrightarrow> c = d" "\<not> has_prefix [] (d # p)"
  "has_prefix s []"
  by (auto simp: has_prefix_def)

lemma has_prefix_Cons [simp, go_simps]: "has_prefix (c # s) (d # p) \<longleftrightarrow> c = d \<and> has_prefix s p"
  by (auto simp: has_prefix_def)

lemma has_suffix_snoc [simp, go_simps]: "has_suffix (s @ [c]) [d] \<longleftrightarrow> c = d"
  by (simp add: has_suffix_def)

section \<open>The codec contract\<close>

text \<open>
  What a writer promises a reader of the same line: \<open>dec\<close> inverts \<open>enc\<close> on the values in
  \<open>ok\<close>, and the written text survives comment stripping, trimming and the line scanner.
\<close>

locale codec =
  fixes enc :: "'a \<Rightarrow> string" and dec :: "string \<Rightarrow> ('e, 'a) result" and ok :: "'a \<Rightarrow> bool"
  assumes dec_enc: "ok x \<Longrightarrow> dec (enc x) = Inr x"
begin

lemma enc_inj: "ok x \<Longrightarrow> ok y \<Longrightarrow> enc x = enc y \<Longrightarrow> x = y"
  using dec_enc by (metis sum.inject(2))

lemma dec_total_on_written: "ok x \<Longrightarrow> is_ok (dec (enc x))"
  by (simp add: dec_enc)

end

locale value_codec = codec +
  assumes enc_strip: "ok x \<Longrightarrow> strip_from False False (enc x) = enc x"
    and enc_ends: "ok x \<Longrightarrow> enc x \<noteq> [] \<and> solid (hd (enc x)) \<and> solid (last (enc x))"
    and enc_printable: "ok x \<Longrightarrow> printable_bytes (enc x)"
begin

lemma logical_key_line:
  assumes "plain_key k" "ok x"
  shows "logical (key_line k (enc x)) = key_line k (enc x)"
proof -
  note k = plain_key_facts [OF assms(1)] and v = enc_ends [OF assms(2)]
  have "strip_from False False (key_line k (enc x)) = key_line k (enc x)"
    using strip_plain [of "k @ '' = ''" "enc x"] k enc_strip [OF assms(2)] by (simp add: key_line_def dq_def)
  moreover have "trim_space (key_line k (enc x)) = key_line k (enc x)"
    using k v by (intro trim_space_solid) (auto simp: key_line_def)
  ultimately show ?thesis by (simp add: logical_def StripComment_def)
qed

lemma split_key_line:
  assumes "plain_key k" "ok x"
  shows "split_kv (key_line k (enc x)) = Some (k, enc x)"
proof -
  note k = plain_key_facts [OF assms(1)] and v = enc_ends [OF assms(2)]
  have "cut_byte (key_line k (enc x)) CHR ''='' = Some (k @ '' '', '' '' @ enc x)"
    using cut_byte_plain [of "CHR ''=''" "k @ '' ''" "'' '' @ enc x"] k(6) by (simp add: key_line_def)
  moreover have "trim_space (enc x) = enc x" using v by (intro trim_space_solid) auto
  ultimately show ?thesis using trim_space_after [OF k(1-3)] trim_space_before [of "enc x"]
    by (simp add: split_kv_def)
qed

lemma header_key_line:
  assumes "plain_key k" "ok x"
  shows "ParseSectionHeader (key_line k (enc x)) = Inr None"
proof -
  obtain c t where k: "k = c # t" "c \<noteq> CHR ''[''"
    using plain_key_facts [OF assms(1)] by (cases k) auto
  then have "\<not> has_prefix (key_line k (enc x)) ''[''" by (simp add: key_line_def)
  with logical_key_line [OF assms] show ?thesis
    by (simp add: ParseSectionHeader_def logical_def)
qed

lemma read_key_line:
  "plain_key k \<Longrightarrow> ok x \<Longrightarrow> map_option (\<lambda>(a, b). (a, dec b)) (split_kv (key_line k (enc x))) = Some (k, Inr x)"
  by (simp add: split_key_line dec_enc)

lemma key_line_printable: "plain_key k \<Longrightarrow> ok x \<Longrightarrow> printable_bytes (key_line k (enc x))"
  using plain_key_facts(9) enc_printable by (simp add: key_line_def)

lemma key_line_nonempty: "key_line k (enc x) \<noteq> []"
  by (simp add: key_line_def)

end

lemma array_printable: "printable_bytes (Array U xs)"
proof -
  have "printable_bytes (join '', '' (map (go_quote U) xs))"
    by (induction xs rule: induct_list012) (simp_all add: go_quote_printable)
  then show ?thesis by (simp add: Array_def)
qed

interpretation quoted: value_codec "Quote U" ParseQuoted "\<lambda>_. True" for U
proof unfold_locales
  fix x
  show "ParseQuoted (Quote U x) = Inr x" by (rule parse_quoted_quote)
  show "strip_from False False (Quote U x) = Quote U x"
    using strip_quote [of U x "[]"] by (simp add: Quote_def)
  show "Quote U x \<noteq> [] \<and> solid (hd (Quote U x)) \<and> solid (last (Quote U x))"
    by (simp add: Quote_def)
  show "printable_bytes (Quote U x)" by (simp add: Quote_def go_quote_printable)
qed

interpretation quoted_array: value_codec "Array U" ParseStringArray "\<lambda>_. True" for U
proof unfold_locales
  fix xs
  show "ParseStringArray (Array U xs) = Inr xs" by (rule parse_array_array)
  show "strip_from False False (Array U xs) = Array U xs"
    using strip_array [of U xs "[]"] by simp
  show "Array U xs \<noteq> [] \<and> solid (hd (Array U xs)) \<and> solid (last (Array U xs))"
    by (simp add: Array_def)
  show "printable_bytes (Array U xs)" by (rule array_printable)
qed

section \<open>Headers and whole files\<close>

lemma header_round_trip:
  assumes "plain_key name"
  shows "ParseSectionHeader (''['' @ name @ '']'') = Inr (Some name)"
    "logical (''['' @ name @ '']'') = ''['' @ name @ '']''"
proof -
  note k = plain_key_facts [OF assms]
  let ?h = "''['' @ name @ '']''"
  have s: "StripComment ?h = ?h"
    using strip_plain [of ?h "[]"] k by (simp add: StripComment_def)
  have t: "trim_space ?h = ?h" by (rule trim_space_solid) simp_all
  show "logical ?h = ?h" unfolding logical_def s t ..
  have "\<not> has_prefix ?h ''[[''"
    using k(1,7) by (cases name) auto
  moreover have "\<not> contains_any name ''[]''"
    using k(7,8) by (auto simp: contains_any_def list_ex_iff)
  moreover have "has_suffix ?h '']''" using has_suffix_snoc [of "''['' @ name" "CHR '']''"] by simp
  ultimately show "ParseSectionHeader ?h = Inr (Some name)"
    using k(1) assms s t unfolding ParseSectionHeader_def by (simp add: Let_def butlast_append)
qed

definition good_line :: "string \<Rightarrow> bool" where
  "good_line l = (printable_bytes l \<and> length l < max_token)"

definition unlines :: "string list \<Rightarrow> string" where
  "unlines ls = concat (map (\<lambda>l. l @ [CHR 0x0A]) ls)"

lemma split_byte_line: "c \<notin> set l \<Longrightarrow> split_byte (l @ c # t) c = l # split_byte t c"
  by (induction l) auto

lemma split_unlines: "\<forall>l \<in> set ls. CHR 0x0A \<notin> set l \<Longrightarrow> split_byte (unlines ls) CHR 0x0A = ls @ [[]]"
  by (induction ls) (auto simp: unlines_def split_byte_line)

lemma take_short_all: "\<forall>l \<in> set ls. length l < max_token \<Longrightarrow> take_short ls = (ls, False)"
  by (induction ls) auto

lemma printable_no_crlf:
  assumes "printable_bytes l"
  shows "CHR 0x0A \<notin> set l" "CHR 0x0D \<notin> set l"
  using assms bspec [of "set l" "\<lambda>c. 32 \<le> byte_of c" "CHR 0x0A"] bspec [of "set l" "\<lambda>c. 32 \<le> byte_of c" "CHR 0x0D"]
  by (auto simp: printable_bytes_def list_all_iff)

lemma scan_unlines:
  assumes "\<forall>l \<in> set ls. good_line l"
  shows "scan_lines (unlines ls) = (ls, False)"
proof -
  have n: "CHR 0x0A \<notin> set l" "CHR 0x0D \<notin> set l" if "l \<in> set ls" for l
    using assms that printable_no_crlf by (auto simp: good_line_def)
  have d: "drop_cr l = l" if "l \<in> set ls" for l
    using n(2) [OF that] by (metis drop_cr_def last_in_set)
  have "raw_lines (unlines ls) = ls" using split_unlines [of ls] n(1) by (simp add: raw_lines_def)
  moreover have "take_short ls = (ls, False)" using assms by (intro take_short_all) (auto simp: good_line_def)
  ultimately show ?thesis using d by (simp add: scan_lines_def map_idI)
qed

lemma scan_too_long:
  assumes "l \<in> set ls" "max_token \<le> length l" "\<forall>l \<in> set ls. CHR 0x0A \<notin> set l"
  shows "snd (scan_lines (unlines ls))"
proof -
  have "snd (take_short ls)" using assms(1,2) by (induction ls) (auto split: prod.splits)
  moreover have "raw_lines (unlines ls) = ls" using split_unlines [OF assms(3)] by (simp add: raw_lines_def)
  ultimately show ?thesis by (simp add: scan_lines_def case_prod_beta)
qed

section \<open>Integers\<close>

lemma is_digit_byte [simp]: "n < 10 \<Longrightarrow> is_digit (byte (48 + n))" "n < 10 \<Longrightarrow> digit_value (byte (48 + n)) = n"
  by (simp_all add: is_digit_def digit_value_def)

lemma digits_of_nat_digits: "list_all is_digit (digits_of_nat n) \<and> digits_of_nat n \<noteq> []"
proof (induction n rule: digits_of_nat.induct)
  case (1 n)
  then show ?case by (subst (1 2) digits_of_nat.simps) auto
qed

lemma nat_of_digits_snoc: "nat_of_digits (s @ [c]) = 10 * nat_of_digits s + digit_value c"
  by (simp add: nat_of_digits_def)

lemma nat_of_digits_of_nat: "nat_of_digits (digits_of_nat n) = n"
proof (induction n rule: digits_of_nat.induct)
  case (1 n)
  show ?case
  proof (cases "n < 10")
    case True
    then show ?thesis by (subst digits_of_nat.simps) (simp add: nat_of_digits_def)
  next
    case False
    with 1 show ?thesis by (subst digits_of_nat.simps) (simp add: nat_of_digits_snoc)
  qed
qed

definition parse_int :: "string \<Rightarrow> (unit, int) result" where
  "parse_int s = (case atoi s of None \<Rightarrow> Inl () | Some v \<Rightarrow> Inr v)"

lemma digit_not_sign: "is_digit c \<Longrightarrow> c \<noteq> CHR ''-'' \<and> c \<noteq> CHR ''+''"
  by (auto simp: is_digit_def)

lemma digit_key_char: "is_digit c \<Longrightarrow> key_char c"
  by (simp add: key_char_def)

lemma atoi_digits: "n < 2 ^ 63 \<Longrightarrow> atoi (digits_of_nat n) = Some (int n)"
proof -
  assume n: "n < 2 ^ 63"
  obtain c t where d: "digits_of_nat n = c # t" "is_digit c"
    using digits_of_nat_digits [of n] by (cases "digits_of_nat n") auto
  have "all_digits (digits_of_nat n)" using digits_of_nat_digits by (simp add: all_digits_def)
  moreover have "int n < 2 ^ 63" using n by (metis of_nat_less_iff of_nat_numeral of_nat_power)
  moreover have "\<not> has_prefix (digits_of_nat n) ''-''" "\<not> has_prefix (digits_of_nat n) ''+''"
    using d digit_not_sign by auto
  ultimately show ?thesis using nat_of_digits_of_nat [of n] by (simp add: atoi_def Let_def)
qed

lemma itoa_plain: "plain_key (itoa i)"
proof -
  have "plain_key (digits_of_nat n)" for n
    using digits_of_nat_digits [of n] digit_key_char by (auto simp: plain_key_def list_all_iff)
  then show ?thesis by (auto simp: itoa_def plain_key_def key_char_def)
qed

lemma atoi_itoa:
  assumes "- (2 ^ 63) \<le> i" "i < 2 ^ 63"
  shows "atoi (itoa i) = Some i"
proof (cases "i < 0")
  case False
  then have "nat i < 2 ^ 63" using assms(2) by (simp add: nat_less_iff)
  from atoi_digits [OF this] False show ?thesis by (simp add: itoa_def)
next
  case True
  let ?d = "digits_of_nat (nat (- i))"
  have "all_digits ?d" using digits_of_nat_digits by (simp add: all_digits_def)
  then show ?thesis using True assms nat_of_digits_of_nat [of "nat (- i)"]
    by (simp add: itoa_def atoi_def Let_def)
qed

interpretation decimal: value_codec itoa parse_int "\<lambda>i. - (2 ^ 63) \<le> i \<and> i < 2 ^ 63"
proof unfold_locales
  fix i :: int
  assume i: "- (2 ^ 63) \<le> i \<and> i < 2 ^ 63"
  note f = plain_key_facts [OF itoa_plain [of i]]
  show "parse_int (itoa i) = Inr i" using i atoi_itoa [of i] by (simp add: parse_int_def)
  show "strip_from False False (itoa i) = itoa i"
    using strip_plain [of "itoa i" "[]"] f(4,5) by simp
  show "itoa i \<noteq> [] \<and> solid (hd (itoa i)) \<and> solid (last (itoa i))" using f by simp
  show "printable_bytes (itoa i)" using f by simp
qed

end
