(* ===== verification/Registry_Syntax.thy ===== *)
theory Registry_Syntax
  imports Config_Lines
begin

text \<open>
  The name and path grammars of \<open>internal/registry/registry.go\<close>: tool names and reserved names,
  version labels, environment assignments, project markers, volume bindings and host mounts.
  Each error message of the source is a constructor.
\<close>

section \<open>Names\<close>

definition lower_letter :: "rune \<Rightarrow> bool" where "lower_letter r = (97 \<le> r \<and> r \<le> 122)"
definition upper_letter :: "rune \<Rightarrow> bool" where "upper_letter r = (65 \<le> r \<and> r \<le> 90)"
definition digit_rune :: "rune \<Rightarrow> bool" where "digit_rune r = (48 \<le> r \<and> r \<le> 57)"

definition tool_name_rune :: "rune \<Rightarrow> bool" where
  "tool_name_rune r = (lower_letter r \<or> digit_rune r \<or> r = byte_of CHR ''-'' \<or> r = byte_of CHR ''_'')"

definition ValidToolName :: "string \<Rightarrow> bool" where
  "ValidToolName s = (s \<noteq> [] \<and> list_all tool_name_rune (rune_values s))"

definition version_rune :: "rune \<Rightarrow> bool" where
  "version_rune r = (lower_letter r \<or> digit_rune r \<or> r = byte_of CHR ''.'' \<or> r = byte_of CHR ''-''
     \<or> r = byte_of CHR ''_'')"

definition validVersion :: "string \<Rightarrow> bool" where
  "validVersion s = (s \<noteq> [] \<and> list_all version_rune (rune_values s))"

definition IsVersionedBinaryName :: "string \<Rightarrow> bool" where
  "IsVersionedBinaryName s = (4 < length s \<and> has_prefix s ''cb-v'' \<and> is_digit (s ! 4))"

definition ReservedToolName :: "string \<Rightarrow> bool" where
  "ReservedToolName s =
     (s \<in> set [''cb'', ''container-bin'', ''cb-update-helper'', ''con'', ''prn'', ''aux'', ''nul'']
      \<or> IsVersionedBinaryName s
      \<or> (length s = 4 \<and> (has_prefix s ''com'' \<or> has_prefix s ''lpt'')
         \<and> byte_of CHR ''1'' \<le> (byte_of (s ! 3) :: nat) \<and> byte_of (s ! 3) \<le> (byte_of CHR ''9'' :: nat)))"

text \<open>\<open>validEnvAssignment\<close>: the digit test is on the byte position \<open>j\<close> of the rune.\<close>

definition env_name_rune :: "bool \<Rightarrow> rune \<Rightarrow> bool" where
  "env_name_rune fst_rune r = (upper_letter r \<or> lower_letter r \<or> r = byte_of CHR ''_''
     \<or> (\<not> fst_rune \<and> digit_rune r))"

definition validEnvAssignment :: "string \<Rightarrow> bool" where
  "validEnvAssignment s = (case index_byte s CHR ''='' of
     None \<Rightarrow> False
   | Some i \<Rightarrow> (0 < i \<and> (case rune_values (take i s) of
        [] \<Rightarrow> True
      | r # rs \<Rightarrow> env_name_rune True r \<and> list_all (env_name_rune False) rs)))"

datatype marker_error = Marker_Not_Element | Marker_Control

definition ValidateProjectMarker :: "string \<Rightarrow> (marker_error, unit) result" where
  "ValidateProjectMarker marker =
     (if marker = [] \<or> \<not> valid_utf8 marker \<or> marker = ''.'' \<or> marker = ''..''
         \<or> contains_any marker [CHR ''/'', bs]
      then Inl Marker_Not_Element
      else if list_ex is_control_rune (rune_values marker) then Inl Marker_Control
      else Inr ())"

section \<open>Container paths\<close>

definition pathContainsOrEquals :: "string \<Rightarrow> string \<Rightarrow> bool" where
  "pathContainsOrEquals parent target = (target = parent \<or> has_prefix target (parent @ ''/''))"

definition python_reserved :: "string list" where
  "python_reserved = [''/venv'', ''/root/.cache/pip'']"

datatype volume_error =
    Vol_Expected_Binding
  | Vol_Invalid_Name string
  | Vol_Not_Absolute
  | Vol_Parent_Segment string
  | Vol_Root
  | Vol_Reserved string

definition ParseVolumeBinding :: "string \<Rightarrow> (volume_error, string \<times> string) result" where
  "ParseVolumeBinding spec = (case index spec '':/'' of
     None \<Rightarrow> Inl Vol_Expected_Binding
   | Some i \<Rightarrow>
     (if i = 0 then Inl Vol_Expected_Binding else
      let name = take i spec; dst = drop (i + 1) spec in
      if \<not> ValidToolName name then Inl (Vol_Invalid_Name name)
      else if \<not> has_prefix dst ''/'' then Inl Vol_Not_Absolute
      else if list_ex (\<lambda>seg. seg = ''..'') (split_byte dst CHR ''/'') then Inl (Vol_Parent_Segment dst)
      else let cleanDst = path_clean dst in
        if cleanDst = ''/'' then Inl Vol_Root
        else if list_ex (\<lambda>reserved. pathContainsOrEquals reserved cleanDst) python_reserved
        then Inl (Vol_Reserved dst)
        else Inr (name, dst)))"

section \<open>Host mounts\<close>

definition isWindowsAbsPath :: "string \<Rightarrow> bool" where
  "isWindowsAbsPath s = (case s of
     c # d # e # _ \<Rightarrow> (upper_letter (byte_of c) \<or> lower_letter (byte_of c)) \<and> d = CHR '':''
        \<and> (e = bs \<or> e = CHR ''/'')
   | _ \<Rightarrow> False)"

datatype mount_error =
    Mnt_Expected_Binding
  | Mnt_Missing_Mode
  | Mnt_Bad_Mode string
  | Mnt_Not_Absolute
  | Mnt_Target_Comma
  | Mnt_Target_Colon
  | Mnt_Parent_Segment string
  | Mnt_Root
  | Mnt_Source_Empty
  | Mnt_Source_Comma
  | Mnt_Unsupported_Variable
  | Mnt_Second_Variable
  | Mnt_Variable_Not_Separated
  | Mnt_Source_Not_Absolute
  | Mnt_Volume volume_error
  | Mnt_Target_Reserved string
  | Mnt_Target_Twice string
  | Mnt_Target_Collides string

definition user_profile :: string where "user_profile = ''%USERPROFILE%''"

definition validHostMountSource :: "string \<Rightarrow> (mount_error, unit) result" where
  "validHostMountSource source =
     (if contains source ''%'' then
        (if \<not> has_prefix source user_profile then Inl Mnt_Unsupported_Variable
         else let rest = drop (length user_profile) source in
           if contains rest ''%'' then Inl Mnt_Second_Variable
           else if rest \<noteq> [] \<and> hd rest \<noteq> bs \<and> hd rest \<noteq> CHR ''/'' then Inl Mnt_Variable_Not_Separated
           else Inr ())
      else if isWindowsAbsPath source then Inr ()
      else Inl Mnt_Source_Not_Absolute)"

definition ParseHostMount :: "string \<Rightarrow> (mount_error, string \<times> string \<times> string) result" where
  "ParseHostMount spec = (case index spec '':/'' of
     None \<Rightarrow> Inl Mnt_Expected_Binding
   | Some i \<Rightarrow>
     (if i = 0 then Inl Mnt_Expected_Binding else
      let source = take i spec; rest = drop (i + 1) spec in
      case last_index_byte rest CHR '':'' of
        None \<Rightarrow> Inl Mnt_Missing_Mode
      | Some j \<Rightarrow>
        let target = take j rest; mode = drop (j + 1) rest in
        if mode \<noteq> ''ro'' \<and> mode \<noteq> ''rw'' then Inl (Mnt_Bad_Mode mode)
        else if \<not> has_prefix target ''/'' then Inl Mnt_Not_Absolute
        else if contains target '','' then Inl Mnt_Target_Comma
        else if contains target '':'' then Inl Mnt_Target_Colon
        else if list_ex (\<lambda>seg. seg = ''..'') (split_byte target CHR ''/'') then Inl (Mnt_Parent_Segment target)
        else let clean = path_clean target in
          if clean = ''/'' then Inl Mnt_Root
          else if source = [] then Inl Mnt_Source_Empty
          else if contains source '','' then Inl Mnt_Source_Comma
          else rbind (validHostMountSource source) (\<lambda>_. Inr (source, clean, mode))))"

section \<open>Valid names are plain ASCII keys\<close>

lemma valid_tool_name_bytes:
  "ValidToolName s \<longleftrightarrow> s \<noteq> [] \<and> list_all (\<lambda>c. tool_name_rune (byte_of c)) s"
  unfolding ValidToolName_def
  by (subst rune_values_pred) (auto simp: tool_name_rune_def lower_letter_def digit_rune_def)

lemma valid_version_bytes:
  "validVersion s \<longleftrightarrow> s \<noteq> [] \<and> list_all (\<lambda>c. version_rune (byte_of c)) s"
  unfolding validVersion_def
  by (subst rune_values_pred) (auto simp: version_rune_def lower_letter_def digit_rune_def)

lemma byte_eqI: "byte_of c = (byte_of d :: nat) \<Longrightarrow> c = d"
  by (metis byte_byte_of)

lemma tool_name_key_char: "tool_name_rune (byte_of c) \<Longrightarrow> key_char c"
  using byte_eqI [of c "CHR ''-''"] byte_eqI [of c "CHR ''_''"]
  by (auto simp: tool_name_rune_def lower_letter_def digit_rune_def key_char_def is_digit_def)

lemma valid_tool_name_plain: "ValidToolName s \<Longrightarrow> plain_key s"
  using tool_name_key_char by (auto simp: valid_tool_name_bytes plain_key_def list_all_iff)

lemma to_lower_tool_name: "ValidToolName s \<Longrightarrow> to_lower U s = s"
  by (rule to_lower_fixed)
    (auto simp: valid_tool_name_bytes list_all_iff tool_name_rune_def lower_letter_def digit_rune_def
      upper_letter_def)

end
