(* ===== verification/Registry.thy ===== *)
theory Registry
  imports Registry_Syntax
begin

text \<open>
  \<open>internal/registry/registry.go\<close>: the tool and registry types, \<open>ParseTOML\<close> with its line
  loop, the checks made on the parsed tools, \<open>validateHostMounts\<close>, \<open>validateDefaults\<close>, and
  the queries on a registry (\<open>Resolve\<close>, \<open>ToolNames\<close>, \<open>DefaultInfo\<close>,
  \<open>NeedsDefaultUpgrade\<close>). Maps are association lists (\<open>Prelude\<close>).
\<close>

record tool =
  tName :: string
  tDefaultFamily :: string
  tDefaultVersion :: string
  tDefaultAlias :: string
  tImage :: string
  tProvider :: string
  tRole :: string
  tCommand :: "string list"
  tArgsPrefix :: "string list"
  tPathNext :: "string list"
  tPathEquals :: "string list"
  tPathLast :: bool
  tPathLastIfAny :: "string list"
  tEnvPrefixes :: "string list"
  tEnvNames :: "string list"
  tEnvSet :: "string list"
  tProjectMarkers :: "string list"
  tProjectRootMode :: string
  tStateGroup :: string
  tProjectVolumes :: "string list"
  tSharedVolumes :: "string list"
  tHostMounts :: "string list"
  tCwdMode :: string
  tTrustedProjectRoot :: string

record registry =
  SchemaVersion :: int
  Tools :: "(string, tool) gomap"
  Defaults :: "(string, string) gomap"

definition zero_tool :: tool where
  "zero_tool = \<lparr>tName = [], tDefaultFamily = [], tDefaultVersion = [], tDefaultAlias = [],
     tImage = [], tProvider = [], tRole = [], tCommand = [], tArgsPrefix = [], tPathNext = [],
     tPathEquals = [], tPathLast = False, tPathLastIfAny = [], tEnvPrefixes = [], tEnvNames = [],
     tEnvSet = [], tProjectMarkers = [], tProjectRootMode = [], tStateGroup = [],
     tProjectVolumes = [], tSharedVolumes = [], tHostMounts = [], tCwdMode = [],
     tTrustedProjectRoot = []\<rparr>"

definition ProjectMarkersFor :: "tool \<Rightarrow> string list" where
  "ProjectMarkersFor t =
     (if tProjectMarkers t \<noteq> [] then tProjectMarkers t
      else if tProvider t = ''python''
      then [''pyproject.toml'', ''requirements.txt'', ''setup.py'', ''setup.cfg'', ''.git'']
      else [''.git''])"

definition MaxSchemaVersion :: int where "MaxSchemaVersion = 2"

text \<open>
  The errors of \<open>ParseTOML\<close>: those of a line (with its number), those of a tool (with its
  name) and those of the default families.
\<close>

datatype line_error =
    Header_Error toml_error
  | Value_Error string toml_error
  | Invalid_Tool_Name string
  | Reserved_Tool_Name string
  | Duplicate_Tool string
  | Invalid_Family string
  | Duplicate_Family string
  | Unsupported_Section
  | Invalid_Schema
  | Schema_Too_New int
  | Key_Outside_Section
  | Expected_Key_Value
  | Unsupported_Default_Key string string
  | Bad_Default_Version
  | Duplicate_Default_Version string
  | Bad_Env_Set string
  | Bad_Marker string marker_error
  | Unsupported_Key string

datatype tool_error =
    Image_Required
  | Python_Role
  | State_Group_Required
  | Volume_Required
  | Bad_Volume string volume_error
  | Unsupported_Provider string
  | Bad_Cwd_Mode
  | Bad_Root_Mode
  | Isolated_Volumes
  | Isolated_Python
  | Isolated_Markers
  | Isolated_Root_Mode
  | Bad_Host_Mount mount_error

datatype default_error =
    Metadata_Needs_Schema string
  | Metadata_Incomplete string
  | Metadata_Invalid string
  | Alias_Is_Tool string string
  | Alias_In_Two_Families string string string
  | Alias_Supplied_Twice string string string
  | Defaults_Need_Schema
  | Version_Required string
  | Version_Unavailable string string
  | Alias_Count_Differs string string string
  | Alias_Missing string string string
  | Family_Without_Default string

datatype reg_error =
    Reg_Line nat line_error
  | Reg_Too_Long
  | Reg_No_Tools
  | Reg_Tool string tool_error
  | Reg_Default default_error

section \<open>The line loop of ParseTOML\<close>

record parse_state =
  ps_reg :: registry
  ps_tool :: string
  ps_default :: string

definition tools_header :: string where "tools_header = ''tools.''"
definition defaults_header :: string where "defaults_header = ''defaults.''"

definition section_name :: "unicode \<Rightarrow> string \<Rightarrow> string \<Rightarrow> string" where
  "section_name U pre sec = to_lower U (trim_space (trim_prefix sec pre))"

definition parse_header :: "unicode \<Rightarrow> string \<Rightarrow> parse_state \<Rightarrow> (line_error, parse_state) result" where
  "parse_header U sec st =
     (let reg = ps_reg st in
      if has_prefix sec tools_header \<and> length tools_header < length sec then
        (let name = section_name U tools_header sec in
         if \<not> ValidToolName name then Inl (Invalid_Tool_Name name)
         else if ReservedToolName name then Inl (Reserved_Tool_Name name)
         else if mhas (Tools reg) name then Inl (Duplicate_Tool name)
         else Inr (st\<lparr>ps_reg := reg\<lparr>Tools := mput name
                (zero_tool\<lparr>tName := name, tProvider := ''stateless''\<rparr>) (Tools reg)\<rparr>,
              ps_tool := name, ps_default := []\<rparr>))
      else if has_prefix sec defaults_header \<and> length defaults_header < length sec then
        (let family = section_name U defaults_header sec in
         if \<not> ValidToolName family then Inl (Invalid_Family family)
         else if mhas (Defaults reg) family then Inl (Duplicate_Family family)
         else Inr (st\<lparr>ps_reg := reg\<lparr>Defaults := mput family [] (Defaults reg)\<rparr>,
              ps_tool := [], ps_default := family\<rparr>))
      else Inl Unsupported_Section)"

definition parse_top_key :: "string \<Rightarrow> parse_state \<Rightarrow> (line_error, parse_state) result" where
  "parse_top_key line st = (case split_kv line of
     Some (key, value) \<Rightarrow>
       (if key = ''schema_version'' then
          (case atoi value of
             None \<Rightarrow> Inl Invalid_Schema
           | Some v \<Rightarrow>
             (if v < 1 then Inl Invalid_Schema
              else if v > MaxSchemaVersion then Inl (Schema_Too_New v)
              else Inr (st\<lparr>ps_reg := (ps_reg st)\<lparr>SchemaVersion := v\<rparr>\<rparr>)))
        else Inl Key_Outside_Section)
   | None \<Rightarrow> Inl Key_Outside_Section)"

definition default_of :: "registry \<Rightarrow> string \<Rightarrow> string" where
  "default_of reg family = (case map_of (Defaults reg) family of None \<Rightarrow> [] | Some v \<Rightarrow> v)"

definition parse_default_key :: "string \<Rightarrow> string \<Rightarrow> parse_state \<Rightarrow> (line_error, parse_state) result" where
  "parse_default_key key value st =
     (let reg = ps_reg st; family = ps_default st in
      if key \<noteq> ''version'' then Inl (Unsupported_Default_Key key family)
      else (case ParseQuoted value of
          Inl _ \<Rightarrow> Inl Bad_Default_Version
        | Inr v \<Rightarrow>
          (if \<not> validVersion v then Inl Bad_Default_Version
           else if default_of reg family \<noteq> [] then Inl (Duplicate_Default_Version family)
           else Inr (st\<lparr>ps_reg := reg\<lparr>Defaults := mput family v (Defaults reg)\<rparr>\<rparr>))))"

section \<open>The keys of a tool section\<close>

definition quoted_value :: "string \<Rightarrow> string \<Rightarrow> (string \<Rightarrow> 'a) \<Rightarrow> (line_error, 'a) result" where
  "quoted_value key value f = (case ParseQuoted value of
     Inl e \<Rightarrow> Inl (Value_Error key e) | Inr v \<Rightarrow> Inr (f v))"

definition array_value :: "string \<Rightarrow> string \<Rightarrow> (string list \<Rightarrow> 'a) \<Rightarrow> (line_error, 'a) result" where
  "array_value key value f = (case ParseStringArray value of
     Inl e \<Rightarrow> Inl (Value_Error key e) | Inr v \<Rightarrow> Inr (f v))"

definition bool_value :: "string \<Rightarrow> string \<Rightarrow> (bool \<Rightarrow> 'a) \<Rightarrow> (line_error, 'a) result" where
  "bool_value key value f = (case ParseBool value of
     Inl e \<Rightarrow> Inl (Value_Error key e) | Inr v \<Rightarrow> Inr (f v))"

definition check_env_assignment :: "string \<Rightarrow> (line_error, unit) result" where
  "check_env_assignment kv = (if validEnvAssignment kv then Inr () else Inl (Bad_Env_Set kv))"

definition check_marker :: "string \<Rightarrow> (line_error, unit) result" where
  "check_marker marker = map_err (Bad_Marker marker) (ValidateProjectMarker marker)"

definition parse_tool_key :: "unicode \<Rightarrow> string \<Rightarrow> string \<Rightarrow> tool \<Rightarrow> (line_error, tool) result" where
  "parse_tool_key U key value t =
     (if key = ''default_family'' then quoted_value key value (\<lambda>v. t\<lparr>tDefaultFamily := to_lower U v\<rparr>)
      else if key = ''default_version'' then quoted_value key value (\<lambda>v. t\<lparr>tDefaultVersion := to_lower U v\<rparr>)
      else if key = ''default_alias'' then quoted_value key value (\<lambda>v. t\<lparr>tDefaultAlias := to_lower U v\<rparr>)
      else if key = ''image'' then quoted_value key value (\<lambda>v. t\<lparr>tImage := v\<rparr>)
      else if key = ''provider'' then quoted_value key value (\<lambda>v. t\<lparr>tProvider := to_lower U v\<rparr>)
      else if key = ''role'' then quoted_value key value (\<lambda>v. t\<lparr>tRole := to_lower U v\<rparr>)
      else if key = ''command'' then array_value key value (\<lambda>v. t\<lparr>tCommand := v\<rparr>)
      else if key = ''args_prefix'' then array_value key value (\<lambda>v. t\<lparr>tArgsPrefix := v\<rparr>)
      else if key = ''path_next'' then array_value key value (\<lambda>v. t\<lparr>tPathNext := v\<rparr>)
      else if key = ''path_equals'' then array_value key value (\<lambda>v. t\<lparr>tPathEquals := v\<rparr>)
      else if key = ''path_last'' then bool_value key value (\<lambda>v. t\<lparr>tPathLast := v\<rparr>)
      else if key = ''path_last_if_any'' then array_value key value (\<lambda>v. t\<lparr>tPathLastIfAny := v\<rparr>)
      else if key = ''env_prefixes'' then array_value key value (\<lambda>v. t\<lparr>tEnvPrefixes := v\<rparr>)
      else if key = ''env_names'' then array_value key value (\<lambda>v. t\<lparr>tEnvNames := v\<rparr>)
      else if key = ''env_set'' then rbind (array_value key value (\<lambda>v. v)) (\<lambda>v.
        rbind (check_all check_env_assignment v) (\<lambda>_. Inr (t\<lparr>tEnvSet := v\<rparr>)))
      else if key = ''project_markers'' then rbind (array_value key value (\<lambda>v. v)) (\<lambda>v.
        rbind (check_all check_marker v) (\<lambda>_. Inr (t\<lparr>tProjectMarkers := v\<rparr>)))
      else if key = ''project_root_mode'' then quoted_value key value (\<lambda>v. t\<lparr>tProjectRootMode := to_lower U v\<rparr>)
      else if key = ''state_group'' then quoted_value key value (\<lambda>v. t\<lparr>tStateGroup := to_lower U v\<rparr>)
      else if key = ''project_volumes'' then array_value key value (\<lambda>v. t\<lparr>tProjectVolumes := v\<rparr>)
      else if key = ''shared_volumes'' then array_value key value (\<lambda>v. t\<lparr>tSharedVolumes := v\<rparr>)
      else if key = ''host_mounts'' then array_value key value (\<lambda>v. t\<lparr>tHostMounts := v\<rparr>)
      else if key = ''cwd_mode'' then quoted_value key value (\<lambda>v. t\<lparr>tCwdMode := to_lower U v\<rparr>)
      else Inl (Unsupported_Key key))"

definition tool_of :: "registry \<Rightarrow> string \<Rightarrow> tool" where
  "tool_of reg name = (case map_of (Tools reg) name of None \<Rightarrow> zero_tool | Some t \<Rightarrow> t)"

definition parse_line :: "unicode \<Rightarrow> string \<Rightarrow> parse_state \<Rightarrow> (line_error, parse_state) result" where
  "parse_line U raw st =
     (let line = logical raw in
      if line = [] then Inr st
      else (case ParseSectionHeader raw of
          Inl e \<Rightarrow> Inl (Header_Error e)
        | Inr (Some sec) \<Rightarrow> parse_header U sec st
        | Inr None \<Rightarrow>
          (if ps_tool st = [] \<and> ps_default st = [] then parse_top_key line st
           else (case split_kv line of
               None \<Rightarrow> Inl Expected_Key_Value
             | Some (key, value) \<Rightarrow>
               (if ps_default st \<noteq> [] then parse_default_key key value st
                else rbind (parse_tool_key U key value (tool_of (ps_reg st) (ps_tool st))) (\<lambda>t.
                  Inr (st\<lparr>ps_reg := (ps_reg st)\<lparr>Tools := mput (ps_tool st) t (Tools (ps_reg st))\<rparr>\<rparr>)))))))"

section \<open>The checks on a parsed tool\<close>

definition cwd_isolated :: "tool \<Rightarrow> bool" where
  "cwd_isolated t = (tCwdMode t = ''isolated'')"

definition tool_volumes :: "tool \<Rightarrow> string list" where
  "tool_volumes t = tProjectVolumes t @ tSharedVolumes t"

definition volume_destination :: "string \<Rightarrow> (mount_error, string) result" where
  "volume_destination spec = (case ParseVolumeBinding spec of
     Inl e \<Rightarrow> Inl (Mnt_Volume e) | Inr (_, dst) \<Rightarrow> Inr (path_clean dst))"

definition collect_destination :: "string \<Rightarrow> string list \<Rightarrow> (mount_error, string list) result" where
  "collect_destination spec dsts = rbind (volume_destination spec) (\<lambda>d. Inr (d # dsts))"

definition mount_reserved :: "string list" where
  "mount_reserved = [''/workspace'', ''/cb'', ''/venv'', ''/root/.cache/pip'']"

definition check_host_mount :: "string list \<Rightarrow> string \<Rightarrow> string list \<Rightarrow> (mount_error, string list) result" where
  "check_host_mount volumeDst spec seen =
     rbind (ParseHostMount spec) (\<lambda>(_, target, _).
       if list_ex (\<lambda>reserved. pathContainsOrEquals reserved target) mount_reserved
       then Inl (Mnt_Target_Reserved target)
       else if target \<in> set seen then Inl (Mnt_Target_Twice target)
       else if target \<in> set volumeDst then Inl (Mnt_Target_Collides target)
       else Inr (target # seen))"

definition validateHostMounts :: "tool \<Rightarrow> (mount_error, unit) result" where
  "validateHostMounts t =
     rbind (fold_result collect_destination (tool_volumes t) []) (\<lambda>volumeDst.
       rbind (fold_result (check_host_mount volumeDst) (tHostMounts t) []) (\<lambda>_. Inr ()))"

definition check_volume :: "string \<Rightarrow> (tool_error, unit) result" where
  "check_volume spec = (case ParseVolumeBinding spec of
     Inl e \<Rightarrow> Inl (Bad_Volume spec e) | Inr _ \<Rightarrow> Inr ())"

definition check_provider :: "tool \<Rightarrow> (tool_error, unit) result" where
  "check_provider t =
     (if tProvider t = ''stateless'' then Inr ()
      else if tProvider t = ''python'' then
        (if tRole t \<noteq> ''python'' \<and> tRole t \<noteq> ''pip'' then Inl Python_Role else Inr ())
      else if tProvider t = ''stateful'' then
        (if tStateGroup t = [] then Inl State_Group_Required
         else if tProjectVolumes t = [] \<and> tSharedVolumes t = [] then Inl Volume_Required
         else check_all check_volume (tool_volumes t))
      else Inl (Unsupported_Provider (tProvider t)))"

definition check_modes :: "tool \<Rightarrow> (tool_error, unit) result" where
  "check_modes t =
     (if tCwdMode t \<notin> set [[], ''project'', ''isolated''] then Inl Bad_Cwd_Mode
      else if tProjectRootMode t \<notin> set [[], ''nearest'', ''outermost''] then Inl Bad_Root_Mode
      else if cwd_isolated t \<and> tProjectVolumes t \<noteq> [] then Inl Isolated_Volumes
      else if cwd_isolated t \<and> tProvider t = ''python'' then Inl Isolated_Python
      else if cwd_isolated t \<and> tProjectMarkers t \<noteq> [] then Inl Isolated_Markers
      else if cwd_isolated t \<and> tProjectRootMode t \<noteq> [] then Inl Isolated_Root_Mode
      else Inr ())"

definition validate_tool :: "tool \<Rightarrow> (tool_error, unit) result" where
  "validate_tool t =
     (if tImage t = [] then Inl Image_Required
      else rbind (check_provider t) (\<lambda>_. rbind (check_modes t) (\<lambda>_.
        map_err Bad_Host_Mount (validateHostMounts t))))"

end
