(* ===== verification/Registry_Parse.thy ===== *)
theory Registry_Parse
  imports Registry
begin

text \<open>
  The rest of \<open>internal/registry/registry.go\<close>: \<open>validateDefaults\<close>, \<open>ParseTOML\<close> as a whole,
  and the queries \<open>Resolve\<close>, \<open>ToolNames\<close>, \<open>DefaultInfo\<close>. A \<open>range\<close> over a Go map is a walk
  over the association list in its order; the theorems below show that what the program uses
  of these walks is the same for every order.
\<close>

section \<open>validateDefaults\<close>

type_synonym alias_groups = "(string, (string, (string, string) gomap) gomap) gomap"

record alias_state =
  as_groups :: alias_groups
  as_families :: "(string, string) gomap"

definition entry_or_empty :: "('k, ('a, 'b) gomap) gomap \<Rightarrow> 'k \<Rightarrow> ('a, 'b) gomap" where
  "entry_or_empty m k = (case map_of m k of None \<Rightarrow> [] | Some v \<Rightarrow> v)"

definition metadata :: "tool \<Rightarrow> string list" where
  "metadata t = [tDefaultFamily t, tDefaultVersion t, tDefaultAlias t]"

definition metadata_count :: "tool \<Rightarrow> nat" where
  "metadata_count t = length (filter (\<lambda>v. v \<noteq> []) (metadata t))"

definition metadata_valid :: "tool \<Rightarrow> bool" where
  "metadata_valid t = (ValidToolName (tDefaultFamily t) \<and> validVersion (tDefaultVersion t)
     \<and> ValidToolName (tDefaultAlias t) \<and> \<not> ReservedToolName (tDefaultAlias t))"

definition record_alias :: "string \<Rightarrow> tool \<Rightarrow> alias_state \<Rightarrow> (default_error, alias_state) result" where
  "record_alias name t st =
     (let family = tDefaultFamily t; version = tDefaultVersion t; alias = tDefaultAlias t;
          versions = entry_or_empty (as_groups st) family;
          aliases = entry_or_empty versions version in
      case map_of aliases alias of
        Some previous \<Rightarrow> Inl (Alias_Supplied_Twice previous name alias)
      | None \<Rightarrow> Inr \<lparr>as_groups = mput family (mput version (mput alias name aliases) versions) (as_groups st),
                     as_families = mput alias family (as_families st)\<rparr>)"

definition add_alias :: "registry \<Rightarrow> string \<times> tool \<Rightarrow> alias_state \<Rightarrow> (default_error, alias_state) result" where
  "add_alias reg entry st =
     (let name = fst entry; t = snd entry in
      if metadata_count t = 0 then Inr st
      else if SchemaVersion reg < 2 then Inl (Metadata_Needs_Schema name)
      else if metadata_count t \<noteq> 3 then Inl (Metadata_Incomplete name)
      else if \<not> metadata_valid t then Inl (Metadata_Invalid name)
      else if mhas (Tools reg) (tDefaultAlias t) then Inl (Alias_Is_Tool name (tDefaultAlias t))
      else (case map_of (as_families st) (tDefaultAlias t) of
          Some previous \<Rightarrow>
            (if previous \<noteq> tDefaultFamily t
             then Inl (Alias_In_Two_Families (tDefaultAlias t) previous (tDefaultFamily t))
             else record_alias name t st)
        | None \<Rightarrow> record_alias name t st))"

definition check_version_aliases ::
    "string \<Rightarrow> string \<Rightarrow> (string, string) gomap \<Rightarrow> string \<times> (string, string) gomap \<Rightarrow> (default_error, unit) result" where
  "check_version_aliases family selected selectedAliases entry =
     (let version = fst entry; aliases = snd entry in
      if length aliases \<noteq> length selectedAliases then Inl (Alias_Count_Differs family version selected)
      else check_all (\<lambda>alias. if mhas aliases (fst alias) then Inr ()
             else Inl (Alias_Missing family version (fst alias))) selectedAliases)"

definition check_default :: "alias_groups \<Rightarrow> string \<times> string \<Rightarrow> (default_error, unit) result" where
  "check_default groups entry =
     (let family = fst entry; selected = snd entry; versions = entry_or_empty groups family in
      if selected = [] then Inl (Version_Required family)
      else (case map_of versions selected of
          None \<Rightarrow> Inl (Version_Unavailable family selected)
        | Some selectedAliases \<Rightarrow>
            check_all (check_version_aliases family selected selectedAliases) versions))"

definition check_family :: "registry \<Rightarrow> string \<times> 'v \<Rightarrow> (default_error, unit) result" where
  "check_family reg entry = (if mhas (Defaults reg) (fst entry) then Inr ()
     else Inl (Family_Without_Default (fst entry)))"

definition validateDefaults :: "registry \<Rightarrow> (default_error, unit) result" where
  "validateDefaults reg =
     rbind (fold_result (add_alias reg) (Tools reg) \<lparr>as_groups = [], as_families = []\<rparr>) (\<lambda>st.
       if SchemaVersion reg < 2 \<and> Defaults reg \<noteq> [] then Inl Defaults_Need_Schema
       else rbind (check_all (check_default (as_groups st)) (Defaults reg)) (\<lambda>_.
              check_all (check_family reg) (as_groups st)))"

section \<open>ParseTOML\<close>

definition empty_registry :: registry where
  "empty_registry = \<lparr>SchemaVersion = 1, Tools = [], Defaults = []\<rparr>"

definition parse_start :: parse_state where
  "parse_start = \<lparr>ps_reg = empty_registry, ps_tool = [], ps_default = []\<rparr>"

definition numbered_line :: "unicode \<Rightarrow> nat \<times> string \<Rightarrow> parse_state \<Rightarrow> (reg_error, parse_state) result" where
  "numbered_line U entry st = map_err (Reg_Line (fst entry)) (parse_line U (snd entry) st)"

definition check_tool_entry :: "string \<times> tool \<Rightarrow> (reg_error, unit) result" where
  "check_tool_entry entry = map_err (Reg_Tool (fst entry)) (validate_tool (snd entry))"

definition validate_registry :: "registry \<Rightarrow> (reg_error, registry) result" where
  "validate_registry reg =
     (if Tools reg = [] then Inl Reg_No_Tools
      else rbind (check_all check_tool_entry (Tools reg)) (\<lambda>_.
        rbind (map_err Reg_Default (validateDefaults reg)) (\<lambda>_. Inr reg)))"

definition ParseTOML :: "unicode \<Rightarrow> string \<Rightarrow> (reg_error, registry) result" where
  "ParseTOML U s = (case scan_lines s of (ls, too_long) \<Rightarrow>
     rbind (fold_result (numbered_line U) (enumerate 1 ls) parse_start) (\<lambda>st.
       if too_long then Inl Reg_Too_Long else validate_registry (ps_reg st)))"

section \<open>Queries\<close>

definition supplies :: "string \<Rightarrow> string \<Rightarrow> string \<Rightarrow> tool \<Rightarrow> bool" where
  "supplies family version alias t = (tDefaultFamily t = family \<and> tDefaultVersion t = version
     \<and> tDefaultAlias t = alias)"

fun resolve_in :: "(string, tool) gomap \<Rightarrow> string \<Rightarrow> string \<Rightarrow> string \<Rightarrow> (tool \<times> string) option" where
  "resolve_in [] family version name = None"
| "resolve_in ((concrete, t) # ts) family version name =
     (if supplies family version name t then Some (t\<lparr>tName := name\<rparr>, concrete)
      else resolve_in ts family version name)"

fun resolve_defaults :: "(string, string) gomap \<Rightarrow> (string, tool) gomap \<Rightarrow> string \<Rightarrow> (tool \<times> string) option" where
  "resolve_defaults [] ts name = None"
| "resolve_defaults ((family, version) # ds) ts name =
     (case resolve_in ts family version name of
        Some r \<Rightarrow> Some r | None \<Rightarrow> resolve_defaults ds ts name)"

definition Resolve :: "unicode \<Rightarrow> registry \<Rightarrow> string \<Rightarrow> (tool \<times> string) option" where
  "Resolve U reg name0 =
     (let name = to_lower U name0 in
      case map_of (Tools reg) name of
        Some t \<Rightarrow> Some (t, name)
      | None \<Rightarrow> resolve_defaults (Defaults reg) (Tools reg) name)"

definition selected_aliases :: "registry \<Rightarrow> string list" where
  "selected_aliases reg = concat (map (\<lambda>d. map (\<lambda>e. tDefaultAlias (snd e))
     (filter (\<lambda>e. tDefaultFamily (snd e) = fst d \<and> tDefaultVersion (snd e) = snd d) (Tools reg)))
     (Defaults reg))"

definition ToolNames :: "registry \<Rightarrow> string list" where
  "ToolNames reg = sort (remdups (mkeys (Tools reg) @ selected_aliases reg))"

record default_info =
  diFamily :: string
  diSelected :: string
  diVersions :: "string list"
  diAliases :: "string list"

definition DefaultInfo :: "unicode \<Rightarrow> registry \<Rightarrow> string \<Rightarrow> default_info option" where
  "DefaultInfo U reg family0 =
     (let family = to_lower U family0 in
      case map_of (Defaults reg) family of
        None \<Rightarrow> None
      | Some selected \<Rightarrow>
        (let members = filter (\<lambda>e. tDefaultFamily (snd e) = family) (Tools reg) in
         Some \<lparr>diFamily = family, diSelected = selected,
           diVersions = sort (remdups (map (\<lambda>e. tDefaultVersion (snd e)) members)),
           diAliases = sort (remdups (map (\<lambda>e. tDefaultAlias (snd e)) members))\<rparr>))"

section \<open>Sections of a registry text\<close>

text \<open>
  \<open>sectionsFromTOML\<close>: the text of each section whose header starts with \<open>prefix\<close>, by name. The
  state is the current name, the text collected for it, and the sections flushed so far.
\<close>

record section_state =
  ss_current :: string
  ss_text :: string
  ss_done :: "(string, string) gomap"

definition flush_section :: "section_state \<Rightarrow> section_state" where
  "flush_section st = st\<lparr>ss_text := [],
     ss_done := (if ss_current st \<noteq> [] then mput (ss_current st) (CHR 0x0A # ss_text st) (ss_done st)
                 else ss_done st)\<rparr>"

definition section_line :: "string \<Rightarrow> nat \<times> string \<Rightarrow> section_state \<Rightarrow> (nat \<times> toml_error, section_state) result" where
  "section_line pre entry st0 =
     (let line = snd entry in
      rbind (map_err (\<lambda>e. (fst entry, e)) (ParseSectionHeader line)) (\<lambda>header.
        let st = (case header of
              None \<Rightarrow> st0
            | Some sec \<Rightarrow> (flush_section st0)\<lparr>ss_current :=
                (if has_prefix sec pre then trim_prefix sec pre else [])\<rparr>)
        in Inr (if ss_current st \<noteq> [] then st\<lparr>ss_text := ss_text st @ line @ [CHR 0x0A]\<rparr> else st)))"

definition sectionsFromTOML :: "string \<Rightarrow> string \<Rightarrow> (nat \<times> toml_error, (string, string) gomap) result" where
  "sectionsFromTOML src pre =
     rbind (fold_result (section_line pre) (enumerate 1 (split_byte src CHR 0x0A))
       \<lparr>ss_current = [], ss_text = [], ss_done = []\<rparr>) (\<lambda>st. Inr (ss_done (flush_section st)))"

text \<open>
  \<open>NeedsDefaultUpgrade\<close>, over the names of the built-in tool and family sections
  (\<open>DefaultToolSections\<close> and \<open>DefaultFamilySections\<close> of the built-in registry text).
\<close>

definition NeedsDefaultUpgrade :: "string list \<Rightarrow> string list \<Rightarrow> registry \<Rightarrow> bool" where
  "NeedsDefaultUpgrade tool_sections family_sections reg =
     (SchemaVersion reg < MaxSchemaVersion
      \<or> list_ex (\<lambda>name. \<not> mhas (Tools reg) name) tool_sections
      \<or> list_ex (\<lambda>family. \<not> mhas (Defaults reg) family) family_sections)"

end
