(* ===== verification/Registry_Facts.thy ===== *)
theory Registry_Facts
  imports Registry_Parse
begin

text \<open>
  What a parsed registry satisfies. \<open>validate_tool\<close> is equivalent to a declarative
  specification (\<open>tool_spec\<close>), the line loop keeps \<open>parse_inv\<close>, and so \<open>ParseTOML\<close> returns
  only registries with \<open>registry_wf\<close>.
\<close>

section \<open>What the checks on a tool establish\<close>

definition mount_target :: "string \<Rightarrow> string" where
  "mount_target spec = (case ParseHostMount spec of Inr (_, target, _) \<Rightarrow> target | Inl _ \<Rightarrow> [])"

definition volume_target :: "string \<Rightarrow> string" where
  "volume_target spec = (case ParseVolumeBinding spec of Inr (_, dst) \<Rightarrow> path_clean dst | Inl _ \<Rightarrow> [])"

definition mounts_spec :: "tool \<Rightarrow> bool" where
  "mounts_spec t \<longleftrightarrow>
     (\<forall>spec \<in> set (tool_volumes t). is_ok (ParseVolumeBinding spec)) \<and>
     (\<forall>spec \<in> set (tHostMounts t). is_ok (ParseHostMount spec)) \<and>
     distinct (map mount_target (tHostMounts t)) \<and>
     (\<forall>spec \<in> set (tHostMounts t).
        (\<forall>reserved \<in> set mount_reserved. \<not> pathContainsOrEquals reserved (mount_target spec)) \<and>
        mount_target spec \<notin> volume_target ` set (tool_volumes t))"

definition provider_spec :: "tool \<Rightarrow> bool" where
  "provider_spec t \<longleftrightarrow> tProvider t = ''stateless''
     \<or> (tProvider t = ''python'' \<and> tRole t \<in> {''python'', ''pip''})
     \<or> (tProvider t = ''stateful'' \<and> tStateGroup t \<noteq> [] \<and> tool_volumes t \<noteq> [])"

definition modes_spec :: "tool \<Rightarrow> bool" where
  "modes_spec t \<longleftrightarrow> tCwdMode t \<in> {[], ''project'', ''isolated''}
     \<and> tProjectRootMode t \<in> {[], ''nearest'', ''outermost''}
     \<and> (cwd_isolated t \<longrightarrow> tProjectVolumes t = [] \<and> tProvider t \<noteq> ''python''
          \<and> tProjectMarkers t = [] \<and> tProjectRootMode t = [])"

definition tool_spec :: "tool \<Rightarrow> bool" where
  "tool_spec t \<longleftrightarrow> tImage t \<noteq> [] \<and> provider_spec t \<and> modes_spec t \<and> mounts_spec t"

lemma volume_destination_ok: "is_ok (ParseVolumeBinding spec) \<Longrightarrow> volume_destination spec = Inr (volume_target spec)"
  by (auto simp: volume_destination_def volume_target_def split: sum.splits)

lemma volume_destination_bad: "\<not> is_ok (ParseVolumeBinding spec) \<Longrightarrow> \<not> is_ok (volume_destination spec)"
  by (auto simp: volume_destination_def split: sum.splits)

lemma collect_destinations:
  "fold_result collect_destination specs dsts = Inr out \<longleftrightarrow>
     (\<forall>spec \<in> set specs. is_ok (ParseVolumeBinding spec)) \<and> out = rev (map volume_target specs) @ dsts"
proof (induction specs arbitrary: dsts)
  case Nil
  then show ?case by auto
next
  case (Cons spec specs)
  show ?case
  proof (cases "is_ok (ParseVolumeBinding spec)")
    case True
    then show ?thesis using Cons by (auto simp: collect_destination_def volume_destination_ok)
  next
    case False
    then have "\<not> is_ok (volume_destination spec)" by (rule volume_destination_bad)
    then obtain e where "volume_destination spec = Inl e" by (cases "volume_destination spec") auto
    with False show ?thesis by (simp add: collect_destination_def)
  qed
qed

lemma check_host_mount_ok:
  "check_host_mount vs spec seen = Inr seen' \<longleftrightarrow> is_ok (ParseHostMount spec)
     \<and> (\<forall>reserved \<in> set mount_reserved. \<not> pathContainsOrEquals reserved (mount_target spec))
     \<and> mount_target spec \<notin> set seen \<and> mount_target spec \<notin> set vs \<and> seen' = mount_target spec # seen"
  by (auto simp: check_host_mount_def mount_target_def list_ex_iff split: sum.splits)

lemma check_host_mounts:
  "fold_result (check_host_mount vs) specs seen = Inr out \<longleftrightarrow>
     (\<forall>spec \<in> set specs. is_ok (ParseHostMount spec) \<and> mount_target spec \<notin> set vs \<and> mount_target spec \<notin> set seen
        \<and> (\<forall>reserved \<in> set mount_reserved. \<not> pathContainsOrEquals reserved (mount_target spec)))
     \<and> distinct (map mount_target specs) \<and> out = rev (map mount_target specs) @ seen"
  by (induction specs arbitrary: seen) (auto simp: rbind_Inr_iff check_host_mount_ok, metis image_eqI)

lemma validate_host_mounts_iff: "validateHostMounts t = Inr () \<longleftrightarrow> mounts_spec t"
  by (auto simp: validateHostMounts_def rbind_Inr_iff collect_destinations check_host_mounts mounts_spec_def)

lemma check_volumes_ok: "check_all check_volume specs = Inr () \<longleftrightarrow> (\<forall>spec \<in> set specs. is_ok (ParseVolumeBinding spec))"
  by (auto simp: check_all_ok_iff check_volume_def is_ok_def split: sum.splits)

lemma check_modes_iff: "check_modes t = Inr () \<longleftrightarrow> modes_spec t"
  by (auto simp: check_modes_def modes_spec_def)

theorem validate_tool_iff: "validate_tool t = Inr () \<longleftrightarrow> tool_spec t"
proof (cases "mounts_spec t")
  case True
  then have "check_all check_volume (tool_volumes t) = Inr ()"
    by (simp add: check_volumes_ok mounts_spec_def)
  then have "check_provider t = Inr () \<longleftrightarrow> provider_spec t"
    by (auto simp: check_provider_def provider_spec_def tool_volumes_def)
  then show ?thesis using True
    by (auto simp: validate_tool_def tool_spec_def rbind_Inr_iff check_modes_iff validate_host_mounts_iff)
next
  case False
  then show ?thesis
    by (auto simp: validate_tool_def tool_spec_def rbind_Inr_iff validate_host_mounts_iff)
qed

section \<open>What the line loop establishes\<close>

definition parsed_tool :: "string \<times> tool \<Rightarrow> bool" where
  "parsed_tool e \<longleftrightarrow> tName (snd e) = fst e \<and> ValidToolName (fst e) \<and> \<not> ReservedToolName (fst e)
     \<and> tTrustedProjectRoot (snd e) = []
     \<and> list_all validEnvAssignment (tEnvSet (snd e))
     \<and> list_all (\<lambda>m. ValidateProjectMarker m = Inr ()) (tProjectMarkers (snd e))"

definition registry_lines_wf :: "registry \<Rightarrow> bool" where
  "registry_lines_wf reg \<longleftrightarrow> wf_map (Tools reg) \<and> wf_map (Defaults reg)
     \<and> 1 \<le> SchemaVersion reg \<and> SchemaVersion reg \<le> MaxSchemaVersion
     \<and> list_all parsed_tool (Tools reg)
     \<and> list_all (\<lambda>d. ValidToolName (fst d) \<and> (snd d = [] \<or> validVersion (snd d))) (Defaults reg)"

definition parse_inv :: "parse_state \<Rightarrow> bool" where
  "parse_inv st \<longleftrightarrow> registry_lines_wf (ps_reg st)
     \<and> (ps_tool st = [] \<or> mhas (Tools (ps_reg st)) (ps_tool st))
     \<and> (ps_default st = [] \<or> mhas (Defaults (ps_reg st)) (ps_default st))"

lemma list_all_mput [simp]: "list_all P m \<Longrightarrow> P (k, v) \<Longrightarrow> list_all P (mput k v m)"
  unfolding mput_def by (induction m) auto

lemma parse_header_inv:
  assumes "parse_header U sec st = Inr st'" "parse_inv st"
  shows "parse_inv st'"
  using assms
  by (auto simp: parse_header_def Let_def parse_inv_def registry_lines_wf_def parsed_tool_def zero_tool_def
      split: if_splits)

lemma parse_top_key_inv:
  assumes "parse_top_key line st = Inr st'" "parse_inv st"
  shows "parse_inv st'"
  using assms
  by (auto simp: parse_top_key_def parse_inv_def registry_lines_wf_def split: if_splits option.splits prod.splits)

lemma parse_default_key_inv:
  assumes "parse_default_key key value st = Inr st'" "parse_inv st" "ps_default st \<noteq> []"
  shows "parse_inv st'"
proof -
  have "ValidToolName (ps_default st)"
    using assms(2,3) by (auto simp: parse_inv_def registry_lines_wf_def mhas_def mkeys_def list_all_iff)
  with assms(1,2) show ?thesis
    by (auto simp: parse_default_key_def Let_def parse_inv_def registry_lines_wf_def
        split: if_splits sum.splits)
qed

lemma value_Inr_iff:
  "quoted_value k v f = Inr x \<longleftrightarrow> (\<exists>s. ParseQuoted v = Inr s \<and> x = f s)"
  "array_value k v g = Inr y \<longleftrightarrow> (\<exists>s. ParseStringArray v = Inr s \<and> y = g s)"
  "bool_value k v h = Inr z \<longleftrightarrow> (\<exists>b. ParseBool v = Inr b \<and> z = h b)"
  by (auto simp: quoted_value_def array_value_def bool_value_def split: sum.splits)

lemma check_env_all: "check_all check_env_assignment v = Inr () \<longleftrightarrow> list_all validEnvAssignment v"
  by (auto simp: check_all_ok_iff check_env_assignment_def list_all_iff split: if_splits)

lemma check_marker_all: "check_all check_marker v = Inr () \<longleftrightarrow> list_all (\<lambda>m. ValidateProjectMarker m = Inr ()) v"
  by (auto simp: check_all_ok_iff check_marker_def list_all_iff)

lemma parse_tool_key_inv:
  assumes "parse_tool_key U key value t = Inr t'" "parsed_tool (n, t)"
  shows "parsed_tool (n, t')"
  using assms unfolding parse_tool_key_def
  by (auto simp: value_Inr_iff rbind_Inr_iff check_env_all check_marker_all parsed_tool_def split: if_split_asm)

definition put_tool :: "tool \<Rightarrow> parse_state \<Rightarrow> parse_state" where
  "put_tool t st = st\<lparr>ps_reg := (ps_reg st)\<lparr>Tools := mput (ps_tool st) t (Tools (ps_reg st))\<rparr>\<rparr>"

lemma put_tool_inv:
  assumes "parse_inv st" "ps_tool st \<noteq> []" "parse_tool_key U key v (tool_of (ps_reg st) (ps_tool st)) = Inr t"
  shows "parse_inv (put_tool t st)"
proof -
  have has: "mhas (Tools (ps_reg st)) (ps_tool st)" and wf: "wf_map (Tools (ps_reg st))"
    and all: "list_all parsed_tool (Tools (ps_reg st))"
    using assms(1,2) by (auto simp: parse_inv_def registry_lines_wf_def)
  from has obtain t0 where t0: "map_of (Tools (ps_reg st)) (ps_tool st) = Some t0" by (auto simp: mhas_iff_map_of)
  then have "parsed_tool (ps_tool st, t0)" using all map_of_SomeD by (fastforce simp: list_all_iff)
  moreover have "tool_of (ps_reg st) (ps_tool st) = t0" using t0 by (simp add: tool_of_def)
  ultimately have "parsed_tool (ps_tool st, t)" using parse_tool_key_inv assms(3) by simp
  then show ?thesis using assms(1) by (auto simp: put_tool_def parse_inv_def registry_lines_wf_def)
qed

lemma parse_line_inv:
  assumes "parse_line U raw st = Inr st'" "parse_inv st"
  shows "parse_inv st'"
proof (cases "logical raw = []")
  case True
  then show ?thesis using assms by (simp add: parse_line_def)
next
  case nonempty: False
  show ?thesis
  proof (cases "ParseSectionHeader raw")
    case (Inl e)
    then show ?thesis using assms nonempty by (simp add: parse_line_def)
  next
    case (Inr h)
    show ?thesis
    proof (cases h)
      case (Some sec)
      then show ?thesis using assms nonempty Inr parse_header_inv by (simp add: parse_line_def)
    next
      case None
      show ?thesis
      proof (cases "ps_tool st = [] \<and> ps_default st = []")
        case True
        then show ?thesis using assms nonempty Inr None parse_top_key_inv by (simp add: parse_line_def)
      next
        case insec: False
        then obtain key v where kv: "split_kv (logical raw) = Some (key, v)"
          using assms(1) nonempty Inr None by (cases "split_kv (logical raw)") (auto simp: parse_line_def)
        show ?thesis
        proof (cases "ps_default st = []")
          case False
          then show ?thesis using assms nonempty Inr None kv insec parse_default_key_inv [OF _ assms(2)]
            by (simp add: parse_line_def)
        next
          case True
          with insec have tool: "ps_tool st \<noteq> []" by simp
          with assms nonempty Inr None kv insec True obtain t where
            t: "parse_tool_key U key v (tool_of (ps_reg st) (ps_tool st)) = Inr t"
            and st': "st' = put_tool t st"
            by (auto simp: parse_line_def rbind_Inr_iff put_tool_def)
          show ?thesis using put_tool_inv [OF assms(2) tool t] st' by simp
        qed
      qed
    qed
  qed
qed

lemma parse_start_inv: "parse_inv parse_start"
  by (simp add: parse_inv_def parse_start_def empty_registry_def registry_lines_wf_def MaxSchemaVersion_def)

lemma parse_lines_inv:
  assumes "fold_result (numbered_line U) ls st = Inr st'" "parse_inv st"
  shows "parse_inv st'"
  using assms by (rule fold_result_invariant) (auto simp: numbered_line_def intro: parse_line_inv)

definition registry_wf :: "registry \<Rightarrow> bool" where
  "registry_wf reg \<longleftrightarrow> registry_lines_wf reg \<and> Tools reg \<noteq> []
     \<and> list_all (\<lambda>e. tool_spec (snd e)) (Tools reg) \<and> validateDefaults reg = Inr ()"

lemma validate_registry_iff:
  "validate_registry reg = Inr reg' \<longleftrightarrow> reg' = reg \<and> Tools reg \<noteq> []
     \<and> list_all (\<lambda>e. tool_spec (snd e)) (Tools reg) \<and> validateDefaults reg = Inr ()"
  by (auto simp: validate_registry_def rbind_Inr_iff check_all_ok_iff check_tool_entry_def
      validate_tool_iff list_all_iff)

theorem parse_toml_wf: "ParseTOML U s = Inr reg \<Longrightarrow> registry_wf reg"
proof -
  assume p: "ParseTOML U s = Inr reg"
  obtain ls e where ls: "scan_lines s = (ls, e)" by fastforce
  from p obtain st where st: "fold_result (numbered_line U) (enumerate 1 ls) parse_start = Inr st"
    and v: "validate_registry (ps_reg st) = Inr reg"
    by (auto simp: ParseTOML_def ls rbind_Inr_iff split: if_splits)
  from parse_lines_inv [OF st parse_start_inv] have "registry_lines_wf (ps_reg st)" by (simp add: parse_inv_def)
  with v show ?thesis by (simp add: validate_registry_iff registry_wf_def)
qed

end
