(* ===== verification/Registry_Defaults.thy ===== *)
theory Registry_Defaults
  imports Registry_Facts
begin

text \<open>
  The default families. \<open>validateDefaults\<close> accepts exactly the registries of \<open>defaults_spec\<close>, a
  statement about sets of entries in which no order of iteration occurs; under it an alias
  names one concrete tool, so that \<open>Resolve\<close> and \<open>ToolNames\<close> do not depend on the order in which
  Go walks its maps.
\<close>

section \<open>The declarative reading of validateDefaults\<close>

type_synonym entry = "string \<times> tool"

abbreviation eFamily :: "entry \<Rightarrow> string" where "eFamily e \<equiv> tDefaultFamily (snd e)"
abbreviation eVersion :: "entry \<Rightarrow> string" where "eVersion e \<equiv> tDefaultVersion (snd e)"
abbreviation eAlias :: "entry \<Rightarrow> string" where "eAlias e \<equiv> tDefaultAlias (snd e)"

definition metas :: "entry list \<Rightarrow> entry list" where
  "metas ts = filter (\<lambda>e. metadata_count (snd e) \<noteq> 0) ts"

definition alias_ok :: "registry \<Rightarrow> entry \<Rightarrow> bool" where
  "alias_ok reg e \<longleftrightarrow> 2 \<le> SchemaVersion reg \<and> metadata_count (snd e) = 3 \<and> metadata_valid (snd e)
     \<and> \<not> mhas (Tools reg) (eAlias e)"

definition compatible :: "entry \<Rightarrow> entry \<Rightarrow> bool" where
  "compatible e e' \<longleftrightarrow> (eAlias e = eAlias e' \<longrightarrow> eFamily e = eFamily e' \<and> eVersion e \<noteq> eVersion e')"

definition aliases_of :: "entry list \<Rightarrow> string \<Rightarrow> string \<Rightarrow> string set" where
  "aliases_of xs f v = eAlias ` {e \<in> set xs. eFamily e = f \<and> eVersion e = v}"

definition defaults_spec :: "registry \<Rightarrow> bool" where
  "defaults_spec reg \<longleftrightarrow>
     (\<forall>e \<in> set (metas (Tools reg)). alias_ok reg e) \<and>
     (\<forall>e \<in> set (metas (Tools reg)). \<forall>e' \<in> set (metas (Tools reg)). e \<noteq> e' \<longrightarrow> compatible e e') \<and>
     (SchemaVersion reg < 2 \<longrightarrow> Defaults reg = []) \<and>
     (\<forall>d \<in> set (Defaults reg). snd d \<noteq> [] \<and> aliases_of (metas (Tools reg)) (fst d) (snd d) \<noteq> {} \<and>
        (\<forall>e \<in> set (metas (Tools reg)). eFamily e = fst d \<longrightarrow>
           aliases_of (metas (Tools reg)) (fst d) (eVersion e) = aliases_of (metas (Tools reg)) (fst d) (snd d))) \<and>
     (\<forall>e \<in> set (metas (Tools reg)). mhas (Defaults reg) (eFamily e))"

section \<open>The state of the first loop\<close>

abbreviation group_aliases :: "alias_groups \<Rightarrow> string \<Rightarrow> string \<Rightarrow> (string, string) gomap" where
  "group_aliases g f v \<equiv> entry_or_empty (entry_or_empty g f) v"

definition alias_inv :: "entry list \<Rightarrow> alias_state \<Rightarrow> bool" where
  "alias_inv xs st \<longleftrightarrow>
     wf_map (as_groups st)
     \<and> (\<forall>f. wf_map (entry_or_empty (as_groups st) f))
     \<and> (\<forall>f v. wf_map (group_aliases (as_groups st) f v))
     \<and> (\<forall>a f. map_of (as_families st) a = Some f \<longleftrightarrow> (\<exists>e \<in> set xs. eAlias e = a \<and> eFamily e = f))
     \<and> (\<forall>f v. set (mkeys (group_aliases (as_groups st) f v)) = aliases_of xs f v)
     \<and> (\<forall>f v. mhas (entry_or_empty (as_groups st) f) v \<longleftrightarrow> (\<exists>e \<in> set xs. eFamily e = f \<and> eVersion e = v))
     \<and> (\<forall>f. mhas (as_groups st) f \<longleftrightarrow> (\<exists>e \<in> set xs. eFamily e = f))"

lemma alias_invD:
  assumes "alias_inv xs st"
  shows "wf_map (as_groups st)" "wf_map (entry_or_empty (as_groups st) f)"
    "wf_map (group_aliases (as_groups st) f v)"
    "map_of (as_families st) a = Some f \<longleftrightarrow> (\<exists>e \<in> set xs. eAlias e = a \<and> eFamily e = f)"
    "set (mkeys (group_aliases (as_groups st) f v)) = aliases_of xs f v"
    "mhas (entry_or_empty (as_groups st) f) v \<longleftrightarrow> (\<exists>e \<in> set xs. eFamily e = f \<and> eVersion e = v)"
    "mhas (as_groups st) f \<longleftrightarrow> (\<exists>e \<in> set xs. eFamily e = f)"
  using assms by (simp_all add: alias_inv_def)

lemma entry_or_empty_mput [simp]: "entry_or_empty (mput k v m) k' = (if k' = k then v else entry_or_empty m k')"
  by (simp add: entry_or_empty_def)

lemma wf_entry_or_empty_Nil [simp]: "entry_or_empty [] k = []"
  by (simp add: entry_or_empty_def)

lemma alias_inv_empty: "alias_inv [] \<lparr>as_groups = [], as_families = []\<rparr>"
  by (simp add: alias_inv_def aliases_of_def)

lemma aliases_of_snoc: "aliases_of (xs @ [e]) f v =
    (if eFamily e = f \<and> eVersion e = v then insert (eAlias e) (aliases_of xs f v) else aliases_of xs f v)"
  by (auto simp: aliases_of_def)

lemma record_alias_step:
  assumes inv: "alias_inv xs st"
    and fam: "\<forall>e' \<in> set xs. eAlias e' = eAlias e \<longrightarrow> eFamily e' = eFamily e"
  shows "is_ok (record_alias (fst e) (snd e) st) \<longleftrightarrow> eAlias e \<notin> aliases_of xs (eFamily e) (eVersion e)"
    and "record_alias (fst e) (snd e) st = Inr st' \<Longrightarrow> alias_inv (xs @ [e]) st'"
proof -
  let ?al = "group_aliases (as_groups st) (eFamily e) (eVersion e)"
  have k: "set (mkeys ?al) = aliases_of xs (eFamily e) (eVersion e)" using inv by (simp add: alias_inv_def)
  have m: "map_of ?al (eAlias e) = None \<longleftrightarrow> eAlias e \<notin> aliases_of xs (eFamily e) (eVersion e)"
    using k mhas_iff_map_of [of ?al "eAlias e"] by (auto simp: mhas_def)
  then show "is_ok (record_alias (fst e) (snd e) st) \<longleftrightarrow> eAlias e \<notin> aliases_of xs (eFamily e) (eVersion e)"
    by (auto simp: record_alias_def Let_def split: option.splits)
  assume r: "record_alias (fst e) (snd e) st = Inr st'"
  then have n: "map_of ?al (eAlias e) = None" by (auto simp: record_alias_def Let_def split: option.splits)
  with r have st': "st' = \<lparr>as_groups = mput (eFamily e) (mput (eVersion e) (mput (eAlias e) (fst e) ?al)
        (entry_or_empty (as_groups st) (eFamily e))) (as_groups st), as_families = mput (eAlias e) (eFamily e) (as_families st)\<rparr>"
    by (simp add: record_alias_def Let_def)
  have families: "map_of (as_families st') a = Some f \<longleftrightarrow> (\<exists>e' \<in> set (xs @ [e]). eAlias e' = a \<and> eFamily e' = f)" for a f
  proof -
    have "map_of (as_families st) a = Some f \<longleftrightarrow> (\<exists>e' \<in> set xs. eAlias e' = a \<and> eFamily e' = f)"
      using inv by (simp add: alias_inv_def)
    moreover have new: "map_of (as_families st') a = (if a = eAlias e then Some (eFamily e) else map_of (as_families st) a)"
      by (simp add: st')
    ultimately show ?thesis
    proof (cases "a = eAlias e")
      case True
      with new have "map_of (as_families st') a = Some f \<longleftrightarrow> eFamily e = f" by simp
      moreover have "(\<exists>e' \<in> set (xs @ [e]). eAlias e' = a \<and> eFamily e' = f) \<longleftrightarrow> eFamily e = f"
        unfolding True using fam by (metis Un_iff list.set_intros(1) set_append empty_iff set_ConsD list.set(1))
      ultimately show ?thesis by simp
    next
      case False
      with new \<open>(map_of (as_families st) a = Some f) = (\<exists>e' \<in> set xs. eAlias e' = a \<and> eFamily e' = f)\<close>
      show ?thesis by simp
    qed
  qed
  note old = alias_invD(1,2,3,5,6,7) [OF inv]
  let ?gs = "as_groups st'"
  have gs: "?gs = mput (eFamily e) (mput (eVersion e) (mput (eAlias e) (fst e) ?al)
        (entry_or_empty (as_groups st) (eFamily e))) (as_groups st)"
    by (simp add: st')
  have "wf_map ?gs" using old(1) by (simp add: gs)
  moreover have "wf_map (entry_or_empty ?gs f)" for f using old(2) by (simp add: gs)
  moreover have "wf_map (group_aliases ?gs f v)" for f v using old(3) by (simp add: gs)
  moreover have "set (mkeys (group_aliases ?gs f v)) = aliases_of (xs @ [e]) f v" for f v
    using old(4) by (simp add: gs aliases_of_snoc)
  moreover have "mhas (entry_or_empty ?gs f) v \<longleftrightarrow> (\<exists>e' \<in> set (xs @ [e]). eFamily e' = f \<and> eVersion e' = v)" for f v
    by (cases "f = eFamily e") (auto simp: gs old(5))
  moreover have "mhas ?gs f \<longleftrightarrow> (\<exists>e' \<in> set (xs @ [e]). eFamily e' = f)" for f
    by (auto simp: gs old(6))
  ultimately show "alias_inv (xs @ [e]) st'"
    unfolding alias_inv_def using families by (intro conjI allI)
qed

definition step_ok :: "registry \<Rightarrow> entry list \<Rightarrow> entry \<Rightarrow> bool" where
  "step_ok reg xs e \<longleftrightarrow> alias_ok reg e \<and> (\<forall>e' \<in> set xs. compatible e' e)"

lemma add_alias_step:
  assumes inv: "alias_inv xs st" and meta: "metadata_count (snd e) \<noteq> 0"
  shows "is_ok (add_alias reg e st) \<longleftrightarrow> step_ok reg xs e"
    and "add_alias reg e st = Inr st' \<Longrightarrow> alias_inv (xs @ [e]) st'"
proof -
  let ?fam = "\<forall>e' \<in> set xs. eAlias e' = eAlias e \<longrightarrow> eFamily e' = eFamily e"
  have families: "map_of (as_families st) (eAlias e) = Some f \<longleftrightarrow> (\<exists>e' \<in> set xs. eAlias e' = eAlias e \<and> eFamily e' = f)" for f
    by (rule alias_invD(4) [OF inv])
  have fam_iff: "(case map_of (as_families st) (eAlias e) of None \<Rightarrow> True | Some p \<Rightarrow> p = eFamily e) \<longleftrightarrow> ?fam"
  proof (cases "map_of (as_families st) (eAlias e)")
    case None
    then show ?thesis using families by auto
  next
    case (Some p)
    then have "\<exists>e' \<in> set xs. eAlias e' = eAlias e \<and> eFamily e' = p" using families by blast
    moreover have "eFamily e' = p" if "e' \<in> set xs" "eAlias e' = eAlias e" for e'
      using families [of "eFamily e'"] Some that by auto
    ultimately show ?thesis using Some by auto
  qed
  have add: "add_alias reg e st = Inr s \<longleftrightarrow> alias_ok reg e \<and> ?fam \<and> record_alias (fst e) (snd e) st = Inr s" for s
    unfolding fam_iff [symmetric] using meta
    by (cases "map_of (as_families st) (eAlias e)") (auto simp: add_alias_def Let_def alias_ok_def)
  have "is_ok (add_alias reg e st) \<longleftrightarrow> alias_ok reg e \<and> ?fam \<and> eAlias e \<notin> aliases_of xs (eFamily e) (eVersion e)"
    using add record_alias_step(1) [OF inv, of e] unfolding is_ok_iff by blast
  also have "\<dots> \<longleftrightarrow> step_ok reg xs e"
    unfolding step_ok_def compatible_def aliases_of_def by (auto simp: image_iff simp del: split_paired_All split_paired_Ex)
  finally show "is_ok (add_alias reg e st) \<longleftrightarrow> step_ok reg xs e" .
  assume "add_alias reg e st = Inr st'"
  with add record_alias_step(2) [OF inv] show "alias_inv (xs @ [e]) st'" by blast
qed

lemma add_alias_loop:
  assumes "alias_inv xs st"
  shows "is_ok (fold_result (add_alias reg) ts st) \<longleftrightarrow>
      (\<forall>e \<in> set (metas ts). alias_ok reg e) \<and> (\<forall>x \<in> set xs. \<forall>e \<in> set (metas ts). compatible x e)
      \<and> sorted_wrt compatible (metas ts)"
    and "fold_result (add_alias reg) ts st = Inr st' \<Longrightarrow> alias_inv (xs @ metas ts) st'"
  using assms
proof (induction ts arbitrary: xs st)
  case Nil
  { case 1 then show ?case by (simp add: metas_def) next case 2 then show ?case by (simp add: metas_def) }
next
  case (Cons e ts)
  { case 1
    show ?case
    proof (cases "metadata_count (snd e) = 0")
      case True
      then have "add_alias reg e st = Inr st" "metas (e # ts) = metas ts" by (simp_all add: add_alias_def Let_def metas_def)
      then show ?thesis using Cons.IH(1) [OF 1] by simp
    next
      case False
      then have m: "metas (e # ts) = e # metas ts" by (simp add: metas_def)
      note step = add_alias_step [OF 1 False]
      show ?thesis
      proof (cases "add_alias reg e st")
        case (Inl err)
        then show ?thesis using step(1) [of reg] by (auto simp: m step_ok_def)
      next
        case (Inr s)
        then have "step_ok reg xs e" using step(1) [of reg] by simp
        moreover have "alias_inv (xs @ [e]) s" using step(2) Inr by blast
        from Cons.IH(1) [OF this] Inr calculation show ?thesis by (auto simp: m step_ok_def)
      qed
    qed
  next
    case 2
    show ?case
    proof (cases "metadata_count (snd e) = 0")
      case True
      then have "add_alias reg e st = Inr st" "metas (e # ts) = metas ts" by (simp_all add: add_alias_def Let_def metas_def)
      then show ?thesis using Cons.IH(2) [OF _ 2(2)] 2(1) by simp
    next
      case False
      then have m: "metas (e # ts) = e # metas ts" by (simp add: metas_def)
      from 2(1) obtain s where s: "add_alias reg e st = Inr s" "fold_result (add_alias reg) ts s = Inr st'"
        by (auto simp: rbind_Inr_iff)
      from Cons.IH(2) [OF s(2) add_alias_step(2) [OF 2(2) False s(1)]] show ?thesis by (simp add: m)
    qed
  }
qed


section \<open>The second half\<close>

lemma mhas_entry: "mhas m k \<Longrightarrow> \<exists>v. map_of m k = Some v"
  by (auto simp: mhas_iff_map_of)

lemma length_wf_map: "wf_map m \<Longrightarrow> length m = card (set (mkeys m))"
  unfolding wf_map_def using distinct_card [of "mkeys m"] by (simp add: mkeys_def)

lemma length_keys_eq:
  assumes "wf_map m" "wf_map m'" "length m = length m'" "set (mkeys m) \<subseteq> set (mkeys m')"
  shows "set (mkeys m) = set (mkeys m')"
proof -
  have "card (set (mkeys m)) = card (set (mkeys m'))"
    using assms(1-3) length_wf_map by metis
  then show ?thesis using assms(4) by (simp add: card_subset_eq)
qed

lemma check_version_aliases_ok:
  assumes "wf_map al" "wf_map sel"
  shows "check_version_aliases f selected sel (v, al) = Inr () \<longleftrightarrow> set (mkeys al) = set (mkeys sel)"
proof -
  have "check_version_aliases f selected sel (v, al) = Inr () \<longleftrightarrow>
      length al = length sel \<and> set (mkeys sel) \<subseteq> set (mkeys al)"
    by (auto simp: check_version_aliases_def check_all_ok_iff mhas_def mkeys_def split: if_splits)
  also have "\<dots> \<longleftrightarrow> set (mkeys al) = set (mkeys sel)"
    using length_keys_eq [of sel al] length_wf_map assms by auto
  finally show ?thesis .
qed

lemma check_default_ok:
  assumes inv: "alias_inv xs st"
  shows "check_default (as_groups st) (f, selected) = Inr () \<longleftrightarrow>
     selected \<noteq> [] \<and> aliases_of xs f selected \<noteq> {} \<and>
     (\<forall>e \<in> set xs. eFamily e = f \<longrightarrow> aliases_of xs f (eVersion e) = aliases_of xs f selected)"
proof -
  let ?vs = "entry_or_empty (as_groups st) f"
  note wf = alias_invD(2) [OF inv] and wfa = alias_invD(3) [OF inv] and keys = alias_invD(5) [OF inv]
    and has = alias_invD(6) [OF inv]
  have nonempty: "aliases_of xs f selected \<noteq> {} \<longleftrightarrow> mhas ?vs selected"
    unfolding has aliases_of_def by blast
  show ?thesis
  proof (cases "map_of ?vs selected")
    case None
    then have "\<not> mhas ?vs selected" by (simp add: mhas_iff_map_of)
    with None nonempty show ?thesis by (simp add: check_default_def Let_def)
  next
    case (Some sel)
    then have sel: "sel = entry_or_empty ?vs selected" by (simp add: entry_or_empty_def)
    have each: "check_version_aliases f selected sel e = Inr () \<longleftrightarrow> aliases_of xs f (fst e) = aliases_of xs f selected"
      if "e \<in> set ?vs" for e
    proof -
      obtain v al where e: "e = (v, al)" by (cases e)
      with that wf have "map_of ?vs v = Some al" by (simp add: wf_map_in_iff)
      then have al: "al = entry_or_empty ?vs v" by (simp add: entry_or_empty_def)
      show ?thesis unfolding e using check_version_aliases_ok [of al sel f selected v] wfa keys
        by (simp add: al sel)
    qed
    have "check_all (check_version_aliases f selected sel) ?vs = Inr () \<longleftrightarrow>
        (\<forall>v. mhas ?vs v \<longrightarrow> aliases_of xs f v = aliases_of xs f selected)"
      using each by (auto simp: check_all_ok_iff mhas_def mkeys_def)
    also have "\<dots> \<longleftrightarrow> (\<forall>e \<in> set xs. eFamily e = f \<longrightarrow> aliases_of xs f (eVersion e) = aliases_of xs f selected)"
      unfolding has by blast
    finally show ?thesis using Some nonempty by (auto simp: check_default_def Let_def mhas_iff_map_of)
  qed
qed

lemma check_families_ok:
  assumes "alias_inv xs st"
  shows "check_all (check_family reg) (as_groups st) = Inr () \<longleftrightarrow> (\<forall>e \<in> set xs. mhas (Defaults reg) (eFamily e))"
proof -
  note has = alias_invD(7) [OF assms]
  have "check_all (check_family reg) (as_groups st) = Inr () \<longleftrightarrow>
      (\<forall>f. mhas (as_groups st) f \<longrightarrow> mhas (Defaults reg) f)"
    by (auto simp: check_all_ok_iff check_family_def mhas_def [of "as_groups st"] mkeys_def split: if_splits)
  then show ?thesis unfolding has by blast
qed

lemma compatible_sym: "compatible e e' \<Longrightarrow> compatible e' e"
  by (auto simp: compatible_def)

lemma sorted_wrt_compatible:
  "distinct es \<Longrightarrow> sorted_wrt compatible es \<longleftrightarrow> (\<forall>e \<in> set es. \<forall>e' \<in> set es. e \<noteq> e' \<longrightarrow> compatible e e')"
proof (induction es)
  case Nil
  then show ?case by simp
next
  case (Cons x es)
  then have x: "\<And>e. e \<in> set es \<Longrightarrow> e \<noteq> x" by auto
  have "sorted_wrt compatible (x # es) \<longleftrightarrow> (\<forall>e \<in> set es. compatible x e) \<and>
     (\<forall>e \<in> set es. \<forall>e' \<in> set es. e \<noteq> e' \<longrightarrow> compatible e e')"
    using Cons by simp
  also have "\<dots> \<longleftrightarrow> (\<forall>e \<in> set (x # es). \<forall>e' \<in> set (x # es). e \<noteq> e' \<longrightarrow> compatible e e')"
    using x compatible_sym by (simp del: split_paired_All) blast
  finally show ?case .
qed

lemma distinct_metas: "wf_map ts \<Longrightarrow> distinct (metas ts)"
  by (auto simp: wf_map_def mkeys_def metas_def distinct_map)

theorem validate_defaults_iff:
  assumes "wf_map (Tools reg)"
  shows "validateDefaults reg = Inr () \<longleftrightarrow> defaults_spec reg"
proof -
  let ?ms = "metas (Tools reg)" and ?start = "\<lparr>as_groups = [], as_families = []\<rparr>"
  note loop = add_alias_loop [OF alias_inv_empty, where reg = reg and ts = "Tools reg"]
  have pairs: "sorted_wrt compatible ?ms \<longleftrightarrow> (\<forall>e \<in> set ?ms. \<forall>e' \<in> set ?ms. e \<noteq> e' \<longrightarrow> compatible e e')"
    by (rule sorted_wrt_compatible) (rule distinct_metas [OF assms])
  show ?thesis
  proof (cases "fold_result (add_alias reg) (Tools reg) ?start")
    case (Inl err)
    then have "\<not> ((\<forall>e \<in> set ?ms. alias_ok reg e) \<and> sorted_wrt compatible ?ms)"
      using loop(1) by simp
    then show ?thesis using Inl by (auto simp: validateDefaults_def defaults_spec_def pairs)
  next
    case (Inr st)
    then have first: "(\<forall>e \<in> set ?ms. alias_ok reg e) \<and> sorted_wrt compatible ?ms" using loop(1) by simp
    have inv: "alias_inv ?ms st" using loop(2) Inr by simp
    have "validateDefaults reg = Inr () \<longleftrightarrow> \<not> (SchemaVersion reg < 2 \<and> Defaults reg \<noteq> []) \<and>
       (\<forall>d \<in> set (Defaults reg). check_default (as_groups st) d = Inr ()) \<and>
       (\<forall>e \<in> set ?ms. mhas (Defaults reg) (eFamily e))"
      using Inr unfolding check_families_ok [OF inv, of reg, symmetric]
      by (auto simp: validateDefaults_def rbind_Inr_iff check_all_ok_iff [of "check_default (as_groups st)"])
    moreover have "check_default (as_groups st) d = Inr () \<longleftrightarrow>
        snd d \<noteq> [] \<and> aliases_of ?ms (fst d) (snd d) \<noteq> {} \<and> (\<forall>e \<in> set ?ms. eFamily e = fst d \<longrightarrow>
           aliases_of ?ms (fst d) (eVersion e) = aliases_of ?ms (fst d) (snd d))" for d
      using check_default_ok [OF inv, of "fst d" "snd d"] by simp
    ultimately show ?thesis using first unfolding defaults_spec_def pairs by auto
  qed
qed


section \<open>Resolve and ToolNames\<close>

lemma defaults_spec_set:
  assumes "SchemaVersion r = SchemaVersion r'" "set (Tools r) = set (Tools r')" "set (Defaults r) = set (Defaults r')"
  shows "defaults_spec r \<longleftrightarrow> defaults_spec r'"
proof -
  have m: "set (metas (Tools r)) = set (metas (Tools r'))" using assms(2) by (simp add: metas_def)
  have a: "aliases_of (metas (Tools r)) = aliases_of (metas (Tools r'))"
    by (intro ext) (simp add: aliases_of_def m)
  have h: "mhas (Tools r) k = mhas (Tools r') k" "mhas (Defaults r) k = mhas (Defaults r') k" for k
    using assms(2,3) by (simp_all add: mhas_def mkeys_def)
  have d: "Defaults r = [] \<longleftrightarrow> Defaults r' = []" using assms(3) by (metis set_empty)
  show ?thesis unfolding defaults_spec_def alias_ok_def m a h d assms(1,3) by simp
qed

definition resolves_to :: "registry \<Rightarrow> string \<Rightarrow> string \<Rightarrow> tool \<Rightarrow> bool" where
  "resolves_to reg name concrete t \<longleftrightarrow> (concrete, t) \<in> set (Tools reg) \<and>
     (if mhas (Tools reg) name then concrete = name
      else (tDefaultFamily t, tDefaultVersion t) \<in> set (Defaults reg) \<and> tDefaultAlias t = name)"

lemma resolve_in_Some:
  "resolve_in ts f v name = Some r \<Longrightarrow>
     \<exists>c t. (c, t) \<in> set ts \<and> supplies f v name t \<and> r = (t\<lparr>tName := name\<rparr>, c)"
  by (induction ts f v name rule: resolve_in.induct) (auto split: if_splits)

lemma resolve_in_None: "resolve_in ts f v name = None \<longleftrightarrow> (\<forall>e \<in> set ts. \<not> supplies f v name (snd e))"
  by (induction ts f v name rule: resolve_in.induct) auto

lemma resolve_defaults_Some:
  "resolve_defaults ds ts name = Some r \<Longrightarrow>
     \<exists>f v. (f, v) \<in> set ds \<and> resolve_in ts f v name = Some r"
  by (induction ds ts name rule: resolve_defaults.induct) (auto split: option.splits)

lemma resolve_defaults_None:
  "resolve_defaults ds ts name = None \<longleftrightarrow> (\<forall>d \<in> set ds. resolve_in ts (fst d) (snd d) name = None)"
  by (induction ds ts name rule: resolve_defaults.induct) (auto split: option.splits)

lemma default_alias_unique:
  assumes spec: "defaults_spec reg" and wf: "wf_map (Defaults reg)"
    and names: "list_all (\<lambda>d. ValidToolName (fst d)) (Defaults reg)"
    and a: "(c, t) \<in> set (Tools reg)" "(tDefaultFamily t, tDefaultVersion t) \<in> set (Defaults reg)"
    and b: "(c', t') \<in> set (Tools reg)" "(tDefaultFamily t', tDefaultVersion t') \<in> set (Defaults reg)"
    and same: "tDefaultAlias t = tDefaultAlias t'"
  shows "(c, t) = (c', t')"
proof (rule ccontr)
  assume ne: "(c, t) \<noteq> (c', t')"
  have "tDefaultFamily u \<noteq> []" if "(tDefaultFamily u, tDefaultVersion u) \<in> set (Defaults reg)" for u
    using names that by (force simp: list_all_iff ValidToolName_def)
  then have "tDefaultFamily t \<noteq> []" "tDefaultFamily t' \<noteq> []" using a(2) b(2) by blast+
  then have m: "(c, t) \<in> set (metas (Tools reg))" "(c', t') \<in> set (metas (Tools reg))"
    using a(1) b(1) by (auto simp: metas_def metadata_count_def metadata_def)
  with spec ne have "compatible (c, t) (c', t')" unfolding defaults_spec_def by blast
  with same have "tDefaultFamily t = tDefaultFamily t'" "tDefaultVersion t \<noteq> tDefaultVersion t'"
    by (auto simp: compatible_def)
  with a(2) b(2) wf show False
    by (metis wf_map_in_iff option.inject)
qed

lemma resolve_iff:
  assumes wf: "registry_wf reg"
  shows "Resolve U reg name0 = Some (t, c) \<longleftrightarrow>
     (\<exists>t0. resolves_to reg (to_lower U name0) c t0 \<and> t = t0\<lparr>tName := to_lower U name0\<rparr>)"
proof -
  let ?n = "to_lower U name0"
  have wft: "wf_map (Tools reg)" and wfd: "wf_map (Defaults reg)"
    and names: "list_all (\<lambda>d. ValidToolName (fst d)) (Defaults reg)"
    and parsed: "list_all parsed_tool (Tools reg)"
    using wf by (auto simp: registry_wf_def registry_lines_wf_def list_all_iff)
  have spec: "defaults_spec reg" using wf validate_defaults_iff [OF wft] by (simp add: registry_wf_def)
  show ?thesis
  proof (cases "map_of (Tools reg) ?n")
    case (Some u)
    then have has: "mhas (Tools reg) ?n" by (simp add: mhas_iff_map_of)
    have u: "(?n, v) \<in> set (Tools reg) \<longleftrightarrow> v = u" for v using Some wft by (auto simp: wf_map_in_iff [symmetric])
    then have "(?n, u) \<in> set (Tools reg)" by blast
    then have "tName u = ?n" using parsed by (force simp: list_all_iff parsed_tool_def)
    then have "u\<lparr>tName := ?n\<rparr> = u" by simp
    then show ?thesis using Some has u by (auto simp: Resolve_def Let_def resolves_to_def)
  next
    case None
    then have has: "\<not> mhas (Tools reg) ?n" by (simp add: mhas_iff_map_of)
    have R: "Resolve U reg name0 = resolve_defaults (Defaults reg) (Tools reg) ?n"
      using None by (simp add: Resolve_def Let_def)
    have some: "\<exists>t0 c. resolves_to reg ?n c t0 \<and> r = (t0\<lparr>tName := ?n\<rparr>, c)"
      if "Resolve U reg name0 = Some r" for r
    proof -
      from that obtain f v where fv: "(f, v) \<in> set (Defaults reg)" "resolve_in (Tools reg) f v ?n = Some r"
        unfolding R using resolve_defaults_Some by blast
      from resolve_in_Some [OF fv(2)] fv(1) has show ?thesis by (auto simp: resolves_to_def supplies_def)
    qed
    show ?thesis
    proof
      assume "Resolve U reg name0 = Some (t, c)"
      from some [OF this] show "\<exists>t0. resolves_to reg ?n c t0 \<and> t = t0\<lparr>tName := ?n\<rparr>" by auto
    next
      assume "\<exists>t0. resolves_to reg ?n c t0 \<and> t = t0\<lparr>tName := ?n\<rparr>"
      then obtain t0 where t0: "resolves_to reg ?n c t0" "t = t0\<lparr>tName := ?n\<rparr>" by blast
      from t0(1) has have in_ts: "(c, t0) \<in> set (Tools reg)"
        and in_ds: "(tDefaultFamily t0, tDefaultVersion t0) \<in> set (Defaults reg)"
        and al: "tDefaultAlias t0 = ?n" by (auto simp: resolves_to_def)
      have "Resolve U reg name0 \<noteq> None"
        using in_ts in_ds al unfolding R resolve_defaults_None resolve_in_None supplies_def by fastforce
      then obtain r where r: "Resolve U reg name0 = Some r" by blast
      from some [OF r] obtain t1 c1 where t1: "resolves_to reg ?n c1 t1" "r = (t1\<lparr>tName := ?n\<rparr>, c1)" by blast
      with has have "(c1, t1) \<in> set (Tools reg)" "(tDefaultFamily t1, tDefaultVersion t1) \<in> set (Defaults reg)"
        "tDefaultAlias t1 = ?n" by (auto simp: resolves_to_def)
      from default_alias_unique [OF spec wfd names in_ts in_ds this(1,2)] al this(3)
      have "(c, t0) = (c1, t1)" by simp
      with r t1(2) t0(2) show "Resolve U reg name0 = Some (t, c)" by simp
    qed
  qed
qed

lemma set_selected_aliases:
  "set (selected_aliases reg) = {tDefaultAlias t | c t. (c, t) \<in> set (Tools reg)
     \<and> (tDefaultFamily t, tDefaultVersion t) \<in> set (Defaults reg)}"
proof -
  have "x \<in> set (selected_aliases reg) \<longleftrightarrow> (\<exists>d \<in> set (Defaults reg). \<exists>e \<in> set (Tools reg).
      (tDefaultFamily (snd e), tDefaultVersion (snd e)) = d \<and> x = tDefaultAlias (snd e))" for x
    unfolding selected_aliases_def by (simp add: image_iff prod_eq_iff del: split_paired_Ex split_paired_All) metis
  moreover have "(\<exists>d \<in> set (Defaults reg). \<exists>e \<in> set (Tools reg).
      (tDefaultFamily (snd e), tDefaultVersion (snd e)) = d \<and> x = tDefaultAlias (snd e)) \<longleftrightarrow>
     (\<exists>c t. x = tDefaultAlias t \<and> (c, t) \<in> set (Tools reg) \<and> (tDefaultFamily t, tDefaultVersion t) \<in> set (Defaults reg))" for x
    by (metis fst_conv snd_conv prod.collapse)
  ultimately show ?thesis by blast
qed

lemma tool_names_resolve:
  assumes wf: "registry_wf reg" and low: "to_lower U name = name"
  shows "name \<in> set (ToolNames reg) \<longleftrightarrow> Resolve U reg name \<noteq> None"
proof -
  have "Resolve U reg name \<noteq> None \<longleftrightarrow> (\<exists>c t0. resolves_to reg name c t0)"
    using resolve_iff [OF wf, of U name] low by auto
  also have "\<dots> \<longleftrightarrow> name \<in> set (ToolNames reg)"
  proof (cases "mhas (Tools reg) name")
    case True
    then show ?thesis by (auto simp: resolves_to_def ToolNames_def mhas_def mkeys_def)
  next
    case False
    then have "(\<exists>c t0. resolves_to reg name c t0) \<longleftrightarrow> name \<in> set (selected_aliases reg)"
      unfolding set_selected_aliases by (auto simp: resolves_to_def)
    with False show ?thesis by (auto simp: ToolNames_def mhas_def)
  qed
  finally show ?thesis by simp
qed

lemma registry_wf_perm:
  assumes wf: "registry_wf reg" and "SchemaVersion reg' = SchemaVersion reg"
    and "mset (Tools reg') = mset (Tools reg)" "mset (Defaults reg') = mset (Defaults reg)"
  shows "registry_wf reg'"
proof -
  have sets: "set (Tools reg') = set (Tools reg)" "set (Defaults reg') = set (Defaults reg)"
    using assms(3,4) by (metis set_mset_mset)+
  have wfs: "wf_map (Tools reg') \<longleftrightarrow> wf_map (Tools reg)" "wf_map (Defaults reg') \<longleftrightarrow> wf_map (Defaults reg)"
    unfolding wf_map_def mkeys_def using assms(3,4) by (metis mset_eq_imp_distinct_iff mset_map)+
  have ne: "Tools reg' = [] \<longleftrightarrow> Tools reg = []" using sets(1) by (metis set_empty)
  have d: "validateDefaults reg' = Inr ()"
    using wf validate_defaults_iff [of reg] validate_defaults_iff [of reg'] defaults_spec_set [OF assms(2) sets] wfs
    by (simp add: registry_wf_def registry_lines_wf_def)
  then show ?thesis using wf ne wfs sets assms(2)
    by (auto simp: registry_wf_def registry_lines_wf_def list_all_iff)
qed

lemma resolve_order:
  assumes wf: "registry_wf reg" and s: "SchemaVersion reg' = SchemaVersion reg"
    and t: "mset (Tools reg') = mset (Tools reg)" and d: "mset (Defaults reg') = mset (Defaults reg)"
  shows "Resolve U reg' name = Resolve U reg name"
proof -
  have sets: "set (Tools reg') = set (Tools reg)" "set (Defaults reg') = set (Defaults reg)"
    using t d by (metis set_mset_mset)+
  have same: "resolves_to reg' n c u \<longleftrightarrow> resolves_to reg n c u" for n c u
    using sets by (simp add: resolves_to_def mhas_def mkeys_def)
  have "Resolve U reg' name = Some r \<longleftrightarrow> Resolve U reg name = Some r" for r
    using resolve_iff [OF wf, of U name "fst r" "snd r"]
      resolve_iff [OF registry_wf_perm [OF wf s t d], of U name "fst r" "snd r"]
    by (simp add: same)
  then show ?thesis by (metis not_None_eq)
qed

lemma tool_names_order:
  assumes "mset (Tools reg') = mset (Tools reg)" "mset (Defaults reg') = mset (Defaults reg)"
  shows "ToolNames reg' = ToolNames reg"
proof -
  have sets: "set (Tools reg') = set (Tools reg)" "set (Defaults reg') = set (Defaults reg)"
    using assms by (metis set_mset_mset)+
  have "set (mkeys (Tools reg') @ selected_aliases reg') = set (mkeys (Tools reg) @ selected_aliases reg)"
    using sets by (simp add: set_selected_aliases mkeys_def)
  then show ?thesis unfolding ToolNames_def
    by (intro sorted_distinct_set_unique) simp_all
qed

end
