(* ===== verification/Image_Ref.thy ===== *)
theory Image_Ref
  imports Config_Lines
begin

text \<open>
  Image references as \<open>internal/policy/policy.go\<close> reads them: \<open>CanonicalRepository\<close>,
  \<open>canonicalRule\<close>, \<open>validateRegistryHost\<close>, \<open>splitResolvedImageDigest\<close>, and the digest
  grammar. The theorems show that the canonical form is a fixed point and that repository
  boundaries are compared by whole path components.
\<close>

datatype ref_error =
    Ref_Local_Id
  | Ref_Invalid
  | Ref_Digest
  | Ref_Path
  | Ref_Tag
  | Ref_Name_Required
  | Ref_Boundary
  | Ref_Boundary_Tag
  | Host_IPv6
  | Host_Or_Port
  | Host_Port_Number

section \<open>Definitions\<close>

definition validateRegistryHost :: "string \<Rightarrow> (ref_error, unit) result" where
  "validateRegistryHost host =
     (if contains_any host ''[]'' then Inl Host_IPv6
      else (case last_index_byte host CHR '':'' of
          None \<Rightarrow> Inr ()
        | Some i \<Rightarrow>
          (if take i host = [] \<or> drop (i + 1) host = [] then Inl Host_Or_Port
           else if list_all (\<lambda>r. 48 \<le> r \<and> r \<le> 57) (rune_values (drop (i + 1) host)) then Inr ()
           else Inl Host_Port_Number)))"

text \<open>
  \<open>strings.LastIndexByte(ref, ':') > strings.LastIndexByte(ref, '/')\<close>, where an absent byte has
  the index -1: the position of the tag separator.
\<close>

definition tag_index :: "string \<Rightarrow> nat option" where
  "tag_index ref = (case last_index_byte ref CHR '':'' of
     None \<Rightarrow> None
   | Some colon \<Rightarrow> (case last_index_byte ref CHR ''/'' of
       None \<Rightarrow> Some colon
     | Some slash \<Rightarrow> (if slash < colon then Some colon else None)))"

definition strip_tag :: "string \<Rightarrow> string" where
  "strip_tag ref = (case tag_index ref of None \<Rightarrow> ref | Some colon \<Rightarrow> take colon ref)"

definition strip_digest :: "string \<Rightarrow> string" where
  "strip_digest ref = (case index_byte ref CHR ''@'' of None \<Rightarrow> ref | Some i \<Rightarrow> take i ref)"

definition qualified_host :: "string \<Rightarrow> bool" where
  "qualified_host first = (contains first ''.'' \<or> contains first '':'' \<or> first = ''localhost'')"

definition bad_component :: "string \<Rightarrow> bool" where
  "bad_component part = (part = [] \<or> part = ''.'' \<or> part = ''..'')"

text \<open>The loop over the components, with the index of the component at its head.\<close>

fun check_components :: "ref_error \<Rightarrow> ref_error \<Rightarrow> nat \<Rightarrow> string list \<Rightarrow> (ref_error, unit) result" where
  "check_components bad tag i [] = Inr ()"
| "check_components bad tag i (part # parts) =
     (if bad_component part then Inl bad
      else if 0 < i \<and> contains part '':'' then Inl tag
      else check_components bad tag (Suc i) parts)"

definition hub_alias :: "string \<Rightarrow> bool" where
  "hub_alias first = (first = ''index.docker.io'' \<or> first = ''registry-1.docker.io'')"

definition qualify :: "string list \<Rightarrow> string list" where
  "qualify parts = (case parts of [] \<Rightarrow> [] | first # rest \<Rightarrow>
     (if \<not> qualified_host first then
        (if rest = [] then [''docker.io'', ''library'', first] else ''docker.io'' # parts)
      else
        (let parts' = (if hub_alias first then ''docker.io'' # rest else parts) in
         if hd parts' = ''docker.io'' \<and> length parts' = 2
         then [''docker.io'', ''library'', parts' ! 1] else parts')))"

definition ref_forbidden :: string where
  "ref_forbidden = [bs, CHR '' '', CHR 0x09, CHR 0x0D, CHR 0x0A]"

definition CanonicalRepository :: "unicode \<Rightarrow> string \<Rightarrow> (ref_error, string) result" where
  "CanonicalRepository U ref0 =
     (let ref = trim_space (to_lower U ref0) in
      if has_prefix ref ''sha256:'' then Inl Ref_Local_Id
      else if ref = [] \<or> contains_any ref ref_forbidden \<or> contains ref ''://'' \<or> has_prefix ref ''/''
      then Inl Ref_Invalid
      else if 1 < count_byte ref CHR ''@'' \<or> has_prefix ref ''@'' \<or> has_suffix ref ''@''
      then Inl Ref_Digest
      else
        (let parts = split_byte (strip_tag (strip_digest ref)) CHR ''/''; first = hd parts in
         rbind (check_components Ref_Path Ref_Tag 0 parts) (\<lambda>_.
         rbind (if qualified_host first then validateRegistryHost first else Inr ()) (\<lambda>_.
           let parts' = qualify parts in
           if length parts' < 2 then Inl Ref_Name_Required else Inr (join ''/'' parts')))))"

definition rule_forbidden :: string where
  "rule_forbidden = CHR ''@'' # ref_forbidden"

definition canonicalRule :: "unicode \<Rightarrow> string \<Rightarrow> (ref_error, string) result" where
  "canonicalRule U rule0 =
     (let rule = trim_space (to_lower U rule0) in
      if rule = [] \<or> contains_any rule rule_forbidden \<or> contains rule ''://'' \<or> has_prefix rule ''/''
         \<or> has_suffix rule ''/''
      then Inl Ref_Boundary
      else
        (let parts = split_byte rule CHR ''/''; first = hd parts in
         rbind (check_components Ref_Boundary Ref_Boundary_Tag 0 parts) (\<lambda>_.
         rbind (if qualified_host first then validateRegistryHost first else Inr ()) (\<lambda>_.
           let parts' = (if hub_alias first then ''docker.io'' # tl parts else parts) in
           Inr (join ''/'' (if qualified_host (hd parts') then parts' else ''docker.io'' # parts'))))))"

definition validSHA256Hex :: "unicode \<Rightarrow> string \<Rightarrow> bool" where
  "validSHA256Hex U value = (length value = 64 \<and> value = to_lower U value \<and> hex_decodable value)"

datatype digest_error =
    Digest_Not_Exact
  | Digest_Repository ref_error
  | Digest_Not_Canonical

definition splitResolvedImageDigest :: "unicode \<Rightarrow> string \<Rightarrow> (digest_error, string \<times> string) result" where
  "splitResolvedImageDigest U resolved =
     (if count_byte resolved CHR ''@'' \<noteq> 1 then Inl Digest_Not_Exact
      else (case cut_byte resolved CHR ''@'' of
          None \<Rightarrow> Inl Digest_Not_Exact
        | Some (repository, digest) \<Rightarrow>
          (if repository = [] \<or> tag_index repository \<noteq> None then Inl Digest_Not_Exact
           else rbind (map_err Digest_Repository (CanonicalRepository U repository)) (\<lambda>canonical.
             if has_prefix digest ''sha256:'' \<and> validSHA256Hex U (trim_prefix digest ''sha256:'')
             then Inr (canonical, digest) else Inl Digest_Not_Canonical))))"

text \<open>
  The boundary test shared by \<open>ImageTrustFor\<close> and \<open>authorizeRepository\<close>:
  \<open>repo == allowed || strings.HasPrefix(repo, allowed+"/")\<close>.
\<close>

definition inside :: "string \<Rightarrow> string \<Rightarrow> bool" where
  "inside repo boundary = (repo = boundary \<or> has_prefix repo (boundary @ ''/''))"

section \<open>Splitting and joining\<close>

lemma join_split: "join [c] (split_byte s c) = s"
proof (induction s)
  case Nil
  then show ?case by simp
next
  case (Cons d s)
  obtain x xs where x: "split_byte s c = x # xs" by (cases "split_byte s c") auto
  with Cons show ?case by (cases xs) auto
qed

lemma split_byte_none: "c \<notin> set s \<Longrightarrow> split_byte s c = [s]"
  by (induction s) auto

lemma split_byte_append: "c \<notin> set s \<Longrightarrow> split_byte (s @ c # t) c = s # split_byte t c"
  by (induction s) auto

lemma split_join: "xs \<noteq> [] \<Longrightarrow> \<forall>x \<in> set xs. c \<notin> set x \<Longrightarrow> split_byte (join [c] xs) c = xs"
proof (induction xs rule: induct_list012)
  case 1
  then show ?case by simp
next
  case (2 x)
  then show ?case by (simp add: split_byte_none)
next
  case (3 x y zs)
  then show ?case using split_byte_append [of c x "join [c] (y # zs)"] by simp
qed

text \<open>Being inside a boundary is being an extension of it by whole path components.\<close>

lemma split_append_boundary: "split_byte (s @ c # t) c = split_byte s c @ split_byte t c"
proof (induction s)
  case Nil
  then show ?case by simp
next
  case (Cons d s)
  obtain x xs where "split_byte s c = x # xs" by (cases "split_byte s c") auto
  with Cons show ?case by auto
qed

lemma inside_iff_components:
  "inside repo boundary \<longleftrightarrow> (\<exists>rest. split_byte repo CHR ''/'' = split_byte boundary CHR ''/'' @ rest)"
proof
  assume "inside repo boundary"
  then consider "repo = boundary" | t where "repo = boundary @ CHR ''/'' # t"
    by (auto simp: inside_def has_prefix_iff)
  then show "\<exists>rest. split_byte repo CHR ''/'' = split_byte boundary CHR ''/'' @ rest"
    by cases (auto simp: split_append_boundary)
next
  assume "\<exists>rest. split_byte repo CHR ''/'' = split_byte boundary CHR ''/'' @ rest"
  then obtain rest where rest: "split_byte repo CHR ''/'' = split_byte boundary CHR ''/'' @ rest" by blast
  have r: "repo = join ''/'' (split_byte repo CHR ''/'')" and b: "boundary = join ''/'' (split_byte boundary CHR ''/'')"
    by (simp_all add: join_split)
  have "join ''/'' (xs @ ys) = join ''/'' xs @ ''/'' @ join ''/'' ys" if "xs \<noteq> []" "ys \<noteq> []" for xs ys
    using that
  proof (induction xs rule: induct_list012)
    case (2 x)
    then show ?case by (cases ys) auto
  next
    case (3 x y zs)
    then show ?case by simp
  qed simp
  then show "inside repo boundary"
    using r b rest by (cases rest) (auto simp: inside_def has_prefix_iff)
qed

lemma inside_trans: "inside a b \<Longrightarrow> inside b c \<Longrightarrow> inside a c"
  by (auto simp: inside_iff_components)

lemma inside_antisym: "inside a b \<Longrightarrow> inside b a \<Longrightarrow> a = b"
  by (auto simp: inside_def has_prefix_iff)

lemma inside_length: "inside a b \<Longrightarrow> length b \<le> length a"
  by (auto simp: inside_def has_prefix_iff)

text \<open>Two boundaries around one repository are comparable.\<close>

lemma inside_prefix: "inside r a \<Longrightarrow> prefix a r"
  by (auto simp: inside_def has_prefix_iff)

lemma inside_linear:
  assumes "inside r a" "inside r b" "length a \<le> length b"
  shows "inside b a"
proof -
  have pa: "prefix a r" "prefix b r" using assms(1,2) inside_prefix by blast+
  with assms(3) have ab: "prefix a b" by (metis prefix_length_prefix)
  show ?thesis
  proof (cases "a = b")
    case True
    then show ?thesis by (simp add: inside_def)
  next
    case False
    with ab obtain c t where b: "b = a @ c # t" by (metis prefix_def append_Nil2 neq_Nil_conv)
    with pa(2) obtain u where r: "r = a @ c # t @ u" by (auto simp: prefix_def)
    with assms(1) have "c = CHR ''/''" by (auto simp: inside_def has_prefix_iff)
    with b show ?thesis by (simp add: inside_def has_prefix_iff)
  qed
qed

section \<open>The shape of a canonical repository\<close>

definition plain_component :: "string \<Rightarrow> bool" where
  "plain_component p = (\<not> bad_component p \<and> CHR '':'' \<notin> set p \<and> CHR ''/'' \<notin> set p)"

definition canonical_parts :: "string \<Rightarrow> string list \<Rightarrow> bool" where
  "canonical_parts host rest = (qualified_host host \<and> \<not> hub_alias host \<and> validateRegistryHost host = Inr ()
     \<and> \<not> bad_component host \<and> CHR ''/'' \<notin> set host \<and> list_all plain_component rest
     \<and> rest \<noteq> [] \<and> (host = ''docker.io'' \<longrightarrow> 2 \<le> length rest))"

definition canonical_repository :: "string \<Rightarrow> bool" where
  "canonical_repository r = (case split_byte r CHR ''/'' of host # rest \<Rightarrow> canonical_parts host rest | [] \<Rightarrow> False)"

lemma contains_cons: "contains (c # s) sub \<longleftrightarrow> has_prefix (c # s) sub \<or> contains s sub"
  by (simp add: contains_def)

lemma contains_byte_iff: "contains s [c] \<longleftrightarrow> c \<in> set s"
proof (induction s)
  case Nil
  then show ?case by (simp add: contains_def)
next
  case (Cons d s)
  then show ?case by (auto simp: contains_cons)
qed

lemma contains_split: "contains s sub \<Longrightarrow> \<exists>a b. s = a @ sub @ b"
proof (induction s)
  case Nil
  then show ?case by (auto simp: contains_def split: if_splits)
next
  case (Cons c s)
  then consider "has_prefix (c # s) sub" | "contains s sub" by (auto simp: contains_cons)
  then show ?case
  proof cases
    case 1
    then show ?thesis by (metis append_Nil has_prefix_iff)
  next
    case 2
    with Cons.IH obtain a b where "s = a @ sub @ b" by blast
    then show ?thesis by (metis append_Cons)
  qed
qed

lemma check_components_ok:
  "check_components bad tag i parts = Inr () \<longleftrightarrow>
     (\<forall>p \<in> set parts. \<not> bad_component p) \<and> (\<forall>p \<in> set (if i = 0 then tl parts else parts). CHR '':'' \<notin> set p)"
  by (induction bad tag i parts rule: check_components.induct) (auto simp: contains_byte_iff)

lemma hub_parts: "qualified_host ''docker.io''" "validateRegistryHost ''docker.io'' = Inr ()" "\<not> hub_alias ''docker.io''"
    "\<not> bad_component ''docker.io''" "CHR ''/'' \<notin> set ''docker.io''" "plain_component ''library''"
  by (auto simp: qualified_host_def contains_byte_iff validateRegistryHost_def contains_any_def hub_alias_def
      bad_component_def plain_component_def)

lemma qualify_canonical:
  assumes "parts \<noteq> []" "\<forall>p \<in> set parts. \<not> bad_component p \<and> CHR ''/'' \<notin> set p"
    and "\<forall>p \<in> set (tl parts). CHR '':'' \<notin> set p"
    and "qualified_host (hd parts) \<longrightarrow> validateRegistryHost (hd parts) = Inr ()"
    and "2 \<le> length (qualify parts)"
  shows "\<exists>host rest. qualify parts = host # rest \<and> canonical_parts host rest"
proof -
  obtain first rest where p: "parts = first # rest" using assms(1) by (cases parts) auto
  have rest: "list_all plain_component rest"
    using assms(2,3) by (auto simp: p list_all_iff plain_component_def)
  have first: "\<not> bad_component first" "CHR ''/'' \<notin> set first" using assms(2) by (auto simp: p)
  show ?thesis
  proof (cases "qualified_host first")
    case False
    then have "CHR '':'' \<notin> set first" by (auto simp: qualified_host_def contains_byte_iff)
    then have "plain_component first" using first by (simp add: plain_component_def)
    with False rest hub_parts show ?thesis
      by (cases rest) (auto simp: p qualify_def canonical_parts_def)
  next
    case True
    with assms(4) have ok: "validateRegistryHost first = Inr ()" by (simp add: p)
    show ?thesis
    proof (cases "hub_alias first")
      case True
      with \<open>qualified_host first\<close> rest hub_parts assms(5) show ?thesis
        by (cases rest rule: remdups_adj.cases) (auto simp: p qualify_def canonical_parts_def Let_def)
    next
      case False
      with True ok first rest hub_parts assms(5) show ?thesis
        by (cases rest rule: remdups_adj.cases) (auto simp: p qualify_def canonical_parts_def Let_def)
    qed
  qed
qed

lemma canonical_parts_free:
  "canonical_parts host rest \<Longrightarrow> \<forall>p \<in> set (host # rest). CHR ''/'' \<notin> set p"
  by (auto simp: canonical_parts_def list_all_iff plain_component_def)

lemma canonical_repository_join: "canonical_parts host rest \<Longrightarrow> canonical_repository (join ''/'' (host # rest))"
  using split_join [OF _ canonical_parts_free] by (simp add: canonical_repository_def)

lemma canonical_shape:
  assumes "CanonicalRepository U ref = Inr r"
  shows "canonical_repository r"
proof -
  let ?ref = "trim_space (to_lower U ref)"
  let ?parts = "split_byte (strip_tag (strip_digest ?ref)) CHR ''/''"
  from assms have c: "check_components Ref_Path Ref_Tag 0 ?parts = Inr ()"
    and h: "qualified_host (hd ?parts) \<longrightarrow> validateRegistryHost (hd ?parts) = Inr ()"
    and l: "2 \<le> length (qualify ?parts)" and r: "r = join ''/'' (qualify ?parts)"
    by (auto simp: CanonicalRepository_def Let_def rbind_Inr_iff split: if_splits)
  have "\<forall>p \<in> set ?parts. \<not> bad_component p \<and> CHR ''/'' \<notin> set p"
    using c split_byte_free by (auto simp: check_components_ok)
  moreover have "\<forall>p \<in> set (tl ?parts). CHR '':'' \<notin> set p" using c by (simp add: check_components_ok)
  ultimately obtain host rest where "qualify ?parts = host # rest" "canonical_parts host rest"
    using qualify_canonical [OF split_byte_nonempty _ _ h l] by blast
  with r canonical_repository_join show ?thesis by simp
qed

section \<open>A canonical repository is its own canonical form\<close>

lemma last_index_byte_None: "last_index_byte s c = None \<longleftrightarrow> c \<notin> set s"
  by (induction s) (auto split: option.splits)

lemma last_index_byte_bound: "last_index_byte s c = Some i \<Longrightarrow> i < length s"
  by (induction s arbitrary: i) (auto split: option.splits if_splits)

lemma last_index_byte_append:
  "last_index_byte (s @ t) c = (case last_index_byte t c of Some i \<Rightarrow> Some (length s + i) | None \<Rightarrow> last_index_byte s c)"
  by (induction s) (auto split: option.splits)

lemma index_byte_None: "index_byte s c = None \<longleftrightarrow> c \<notin> set s"
  by (induction s) auto

lemma tag_index_repository:
  assumes "CHR '':'' \<notin> set (join ''/'' rest)"
  shows "tag_index (host @ CHR ''/'' # join ''/'' rest) = None"
proof -
  let ?t = "CHR ''/'' # join ''/'' rest"
  have "CHR '':'' \<notin> set ?t" using assms by simp
  then have n: "last_index_byte ?t CHR '':'' = None" by (simp only: last_index_byte_None not_False_eq_True)
  have "CHR ''/'' \<in> set ?t" by simp
  then obtain i where i: "last_index_byte ?t CHR ''/'' = Some i"
    using last_index_byte_None [of ?t "CHR ''/''"] by blast
  show ?thesis
    using last_index_byte_bound [of host "CHR '':''"]
    by (fastforce simp: tag_index_def last_index_byte_append n i simp del: last_index_byte.simps split: option.splits)
qed

lemma set_join: "set (join [c] xs) \<subseteq> insert c (\<Union>x \<in> set xs. set x)"
  by (induction xs rule: induct_list012) auto

definition plain_ref :: "string \<Rightarrow> bool" where
  "plain_ref r = (\<forall>c \<in> set r. solid c \<and> \<not> (65 \<le> byte_of c \<and> byte_of c \<le> (90::nat)) \<and> c \<noteq> bs \<and> c \<noteq> CHR ''@'')"

lemma qualify_fixed: "canonical_parts host rest \<Longrightarrow> qualify (host # rest) = host # rest"
  by (cases rest) (auto simp: canonical_parts_def qualify_def Let_def)

lemma canonical_fixed:
  assumes can: "canonical_repository r" and plain: "plain_ref r" and noid: "\<not> has_prefix r ''sha256:''"
  shows "CanonicalRepository U r = Inr r"
proof -
  obtain host rest where sp: "split_byte r CHR ''/'' = host # rest" and cp: "canonical_parts host rest"
    using can by (cases "split_byte r CHR ''/''") (auto simp: canonical_repository_def)
  have r: "r = join ''/'' (host # rest)" using join_split [of "CHR ''/''" r] sp by simp
  have rest: "rest \<noteq> []" and nb: "\<forall>p \<in> set (host # rest). \<not> bad_component p"
    and nc: "\<forall>p \<in> set rest. CHR '':'' \<notin> set p"
    using cp by (auto simp: canonical_parts_def list_all_iff plain_component_def)
  have r2: "r = host @ CHR ''/'' # join ''/'' rest" using r rest by (cases rest) auto
  have low: "to_lower U r = r" using plain by (intro to_lower_fixed) (auto simp: plain_ref_def solid_def)
  have ne: "r \<noteq> []" using r2 by simp
  have trim: "trim_space r = r" using plain ne by (intro trim_space_solid) (auto simp: plain_ref_def)
  have sol: "solid c" "c \<noteq> bs" if "c \<in> set r" for c using plain that by (auto simp: plain_ref_def)
  have forb: "\<not> contains_any r ref_forbidden"
  proof
    assume "contains_any r ref_forbidden"
    then obtain c where "c \<in> set r" "c \<in> set ref_forbidden" by (auto simp: contains_any_def list_ex_iff)
    with sol [of c] show False by (auto simp: ref_forbidden_def solid_def is_space_rune_def)
  qed
  have ss: "\<not> contains r ''://''"
  proof
    assume "contains r ''://''"
    then obtain a b where "r = (a @ '':'') @ CHR ''/'' # CHR ''/'' # b" using contains_split by fastforce
    then have "split_byte r CHR ''/'' = split_byte (a @ '':'') CHR ''/'' @ split_byte (CHR ''/'' # b) CHR ''/''"
      by (simp only: split_append_boundary)
    then have "[] \<in> set (host # rest)" unfolding sp by simp
    with nb show False by (auto simp: bad_component_def)
  qed
  have sl: "\<not> has_prefix r ''/''"
  proof -
    have "\<not> bad_component host" "CHR ''/'' \<notin> set host" using cp by (simp_all add: canonical_parts_def)
    then obtain c t where "host = c # t" "c \<noteq> CHR ''/''" by (cases host) (auto simp: bad_component_def)
    then show ?thesis unfolding r2 by simp
  qed
  have at: "CHR ''@'' \<notin> set r" using plain by (auto simp: plain_ref_def)
  then have ats: "count_byte r CHR ''@'' = 0" "\<not> has_prefix r ''@''" "\<not> has_suffix r ''@''" "strip_digest r = r"
  proof -
    show "count_byte r CHR ''@'' = 0" using at by (auto simp: count_byte_def filter_empty_conv)
    show "\<not> has_prefix r ''@''" using at by (auto simp: has_prefix_iff)
    show "\<not> has_suffix r ''@''" using at by (auto simp: has_suffix_def has_prefix_iff rev_eq_Cons_iff)
    show "strip_digest r = r" using at by (simp add: strip_digest_def index_byte_None [THEN iffD2])
  qed
  have "CHR '':'' \<notin> set (join ''/'' rest)" using nc set_join [of "CHR ''/''" rest] by auto
  from tag_index_repository [OF this, of host] have "tag_index r = None" by (simp only: r2)
  then have tag: "strip_tag r = r" by (simp add: strip_tag_def)
  have comps: "check_components Ref_Path Ref_Tag 0 (host # rest) = Inr ()"
    unfolding check_components_ok using nb nc by simp
  have hv: "validateRegistryHost host = Inr ()" and l: "\<not> length (host # rest) < 2"
    using cp rest by (auto simp: canonical_parts_def)
  show ?thesis
    unfolding CanonicalRepository_def low trim Let_def
    using noid ne forb ss sl ats tag comps hv l qualify_fixed [OF cp]
    by (simp add: sp r [symmetric])
qed


section \<open>Boundaries\<close>

definition canonical_boundary :: "string \<Rightarrow> bool" where
  "canonical_boundary r = (case split_byte r CHR ''/'' of [] \<Rightarrow> False | host # rest \<Rightarrow>
     qualified_host host \<and> \<not> hub_alias host \<and> validateRegistryHost host = Inr ()
     \<and> \<not> bad_component host \<and> list_all plain_component rest)"

lemma canonical_rule_shape:
  assumes "canonicalRule U rule = Inr r"
  shows "canonical_boundary r"
proof -
  let ?parts = "split_byte (trim_space (to_lower U rule)) CHR ''/''"
  obtain first rest where p: "?parts = first # rest" by (cases ?parts) auto
  let ?ps = "if hub_alias first then ''docker.io'' # rest else first # rest"
  from assms have c: "check_components Ref_Boundary Ref_Boundary_Tag 0 (first # rest) = Inr ()"
    and h: "qualified_host first \<longrightarrow> validateRegistryHost first = Inr ()"
    and r: "r = join ''/'' (if qualified_host (hd ?ps) then ?ps else ''docker.io'' # ?ps)"
    by (auto simp: canonicalRule_def Let_def rbind_Inr_iff p split: if_splits)
  have free: "\<forall>x \<in> set (first # rest). CHR ''/'' \<notin> set x" using split_byte_free p by metis
  have comps: "\<not> bad_component first" "list_all plain_component rest"
    using c free unfolding check_components_ok by (auto simp: list_all_iff plain_component_def)
  have sj: "split_byte (join ''/'' (h # t)) CHR ''/'' = h # t" if "\<forall>x \<in> set (h # t). CHR ''/'' \<notin> set x" for h t
    using split_join that by blast
  show ?thesis
  proof (cases "hub_alias first")
    case True
    then have "r = join ''/'' (''docker.io'' # rest)" using r hub_parts(1) by simp
    then show ?thesis using sj [of "''docker.io''" rest] free comps hub_parts by (simp add: canonical_boundary_def)
  next
    case na: False
    show ?thesis
    proof (cases "qualified_host first")
      case True
      then have "r = join ''/'' (first # rest)" using r na by simp
      then show ?thesis using sj [of first rest] free comps na True h by (simp add: canonical_boundary_def)
    next
      case False
      then have "r = join ''/'' (''docker.io'' # first # rest)" using r na by simp
      moreover have "plain_component first"
        using False free comps by (auto simp: plain_component_def qualified_host_def contains_byte_iff)
      ultimately show ?thesis using sj [of "''docker.io''" "first # rest"] free comps hub_parts
        by (simp add: canonical_boundary_def)
    qed
  qed
qed

text \<open>A repository inside a boundary is on the registry host of the boundary.\<close>

definition registry_host :: "string \<Rightarrow> string" where
  "registry_host r = hd (split_byte r CHR ''/'')"

lemma inside_same_host: "inside repo boundary \<Longrightarrow> registry_host repo = registry_host boundary"
  by (auto simp: inside_iff_components registry_host_def)

lemma trim_prefix_append [simp]: "trim_prefix (p @ s) p = s"
  by (simp add: trim_prefix_def has_prefix_iff)

lemma cut_byte_Some: "cut_byte s c = Some (a, b) \<Longrightarrow> s = a @ c # b"
  by (induction s arbitrary: a) (auto split: if_splits)

lemma split_resolved:
  assumes "splitResolvedImageDigest U resolved = Inr (repo, digest)"
  shows "\<exists>r h. resolved = r @ ''@'' @ digest \<and> CanonicalRepository U r = Inr repo \<and> digest = ''sha256:'' @ h
     \<and> validSHA256Hex U h"
proof -
  from assms obtain r where r: "cut_byte resolved CHR ''@'' = Some (r, digest)" "CanonicalRepository U r = Inr repo"
    "has_prefix digest ''sha256:''" "validSHA256Hex U (trim_prefix digest ''sha256:'')"
    by (auto simp: splitResolvedImageDigest_def rbind_Inr_iff split: if_splits option.splits)
  from r(3) obtain h where h: "digest = ''sha256:'' @ h" by (auto simp only: has_prefix_iff)
  have "trim_prefix digest ''sha256:'' = h" unfolding h by (rule trim_prefix_append)
  with r h cut_byte_Some [OF r(1)] show ?thesis by auto
qed

end
