(* ===== verification/Go_Time.thy ===== *)
theory Go_Time
  imports Config_Lines "HOL-Library.Monad_Syntax"
begin

text \<open>
  The part of package \<open>time\<close> the program uses: \<open>time.Parse(time.RFC3339, s)\<close>,
  \<open>Format(time.RFC3339)\<close> of a UTC time, and \<open>Before\<close>. \<open>Parse\<close> first tries a strict fast path and
  then the general layout parser; the grammar here is the general one, which gives the same
  time wherever the fast path succeeds: an hour may have one digit, a fraction may follow the
  seconds after a period or a comma, and an offset may be up to 24:60.
\<close>

record gotime =
  gYear :: nat
  gMonth :: nat
  gDay :: nat
  gHour :: nat
  gMin :: nat
  gSec :: nat
  gNsec :: nat
  gZone :: "int option"

section \<open>The calendar\<close>

definition is_leap :: "nat \<Rightarrow> bool" where
  "is_leap y = (4 dvd y \<and> (\<not> 100 dvd y \<or> 400 dvd y))"

definition days_in :: "nat \<Rightarrow> nat \<Rightarrow> nat" where
  "days_in m y = (if m = 2 then (if is_leap y then 29 else 28)
     else if m \<in> {4, 6, 9, 11} then 30 else 31)"

text \<open>The number of leap years before year \<open>y\<close>, counted from the year 0.\<close>

definition leaps_before :: "nat \<Rightarrow> nat" where
  "leaps_before y = (y + 3) div 4 + (y + 399) div 400 - (y + 99) div 100"

definition day_number :: "nat \<Rightarrow> nat \<Rightarrow> nat \<Rightarrow> nat" where
  "day_number y m d = 365 * y + leaps_before y + sum_list (map (\<lambda>k. days_in k y) [1..<m]) + d"

text \<open>The instant of a time, as seconds since the start of year 0 in UTC, and nanoseconds.\<close>

type_synonym instant = "int \<times> nat"

definition instant_of :: "gotime \<Rightarrow> instant" where
  "instant_of t =
     (int (((day_number (gYear t) (gMonth t) (gDay t) * 24 + gHour t) * 60 + gMin t) * 60 + gSec t)
        - (case gZone t of None \<Rightarrow> 0 | Some offset \<Rightarrow> offset), gNsec t)"

definition before :: "instant \<Rightarrow> instant \<Rightarrow> bool" where
  "before a b = (fst a < fst b \<or> (fst a = fst b \<and> snd a < snd b))"

section \<open>Parsing\<close>

definition lit :: "char \<Rightarrow> string \<Rightarrow> string option" where
  "lit c s = (case s of d # t \<Rightarrow> (if c = d then Some t else None) | [] \<Rightarrow> None)"

definition getnum :: "bool \<Rightarrow> string \<Rightarrow> (nat \<times> string) option" where
  "getnum fixed s = (case s of
     [] \<Rightarrow> None
   | c # t \<Rightarrow>
     (if \<not> is_digit c then None
      else (case t of
          [] \<Rightarrow> (if fixed then None else Some (digit_value c, []))
        | d # u \<Rightarrow>
          (if is_digit d then Some (10 * digit_value c + digit_value d, u)
           else if fixed then None else Some (digit_value c, t)))))"

definition getnum_in :: "bool \<Rightarrow> nat \<Rightarrow> nat \<Rightarrow> string \<Rightarrow> (nat \<times> string) option" where
  "getnum_in fixed lo hi s = (case getnum fixed s of
     Some (n, t) \<Rightarrow> (if lo \<le> n \<and> n \<le> hi then Some (n, t) else None) | None \<Rightarrow> None)"

definition year4 :: "string \<Rightarrow> (nat \<times> string) option" where
  "year4 s = (if 4 \<le> length s \<and> list_all is_digit (take 4 s)
     then Some (nat_of_digits (take 4 s), drop 4 s) else None)"

definition fraction :: "string \<Rightarrow> nat \<times> string" where
  "fraction s = (case s of
     c # d # t \<Rightarrow>
       (if (c = CHR ''.'' \<or> c = CHR '','') \<and> is_digit d
        then (let ds = takeWhile is_digit (d # t); kept = take 9 ds
              in (nat_of_digits kept * 10 ^ (9 - length kept), dropWhile is_digit (d # t)))
        else (0, s))
   | _ \<Rightarrow> (0, s))"

definition zone :: "string \<Rightarrow> (int option \<times> string) option" where
  "zone s = (case s of
     [] \<Rightarrow> None
   | c # t \<Rightarrow>
     (if c = CHR ''Z'' then Some (None, t)
      else if c \<noteq> CHR ''+'' \<and> c \<noteq> CHR ''-'' then None
      else do {
        (h, t1) \<leftarrow> getnum_in True 0 24 t;
        t2 \<leftarrow> lit CHR '':'' t1;
        (m, t3) \<leftarrow> getnum_in True 0 60 t2;
        Some (Some (if c = CHR ''-'' then - int ((h * 60 + m) * 60) else int ((h * 60 + m) * 60)), t3)
      }))"

definition parse_rfc3339 :: "string \<Rightarrow> gotime option" where
  "parse_rfc3339 s = do {
     (y, s) \<leftarrow> year4 s; s \<leftarrow> lit CHR ''-'' s;
     (mo, s) \<leftarrow> getnum_in True 1 12 s; s \<leftarrow> lit CHR ''-'' s;
     (d, s) \<leftarrow> getnum True s; s \<leftarrow> lit CHR ''T'' s;
     (h, s) \<leftarrow> getnum_in False 0 23 s; s \<leftarrow> lit CHR '':'' s;
     (mi, s) \<leftarrow> getnum_in True 0 59 s; s \<leftarrow> lit CHR '':'' s;
     (sec, s) \<leftarrow> getnum_in True 0 59 s;
     (z, s') \<leftarrow> zone (snd (fraction s));
     if s' = [] \<and> 1 \<le> d \<and> d \<le> days_in mo y
     then Some \<lparr>gYear = y, gMonth = mo, gDay = d, gHour = h, gMin = mi, gSec = sec,
       gNsec = fst (fraction s), gZone = z\<rparr>
     else None }"

section \<open>Formatting a UTC time\<close>

definition pad2 :: "nat \<Rightarrow> string" where
  "pad2 n = [byte (48 + n div 10), byte (48 + n mod 10)]"

definition pad4 :: "nat \<Rightarrow> string" where
  "pad4 n = [byte (48 + n div 1000), byte (48 + n div 100 mod 10), byte (48 + n div 10 mod 10), byte (48 + n mod 10)]"

definition format_utc :: "gotime \<Rightarrow> string" where
  "format_utc t = pad4 (gYear t) @ ''-'' @ pad2 (gMonth t) @ ''-'' @ pad2 (gDay t) @ ''T'' @ pad2 (gHour t)
     @ '':'' @ pad2 (gMin t) @ '':'' @ pad2 (gSec t) @ ''Z''"

text \<open>The times that the format writes and the parser reads back.\<close>

definition utc_second :: "gotime \<Rightarrow> bool" where
  "utc_second t = (gYear t \<le> 9999 \<and> 1 \<le> gMonth t \<and> gMonth t \<le> 12 \<and> 1 \<le> gDay t
     \<and> gDay t \<le> days_in (gMonth t) (gYear t) \<and> gHour t \<le> 23 \<and> gMin t \<le> 59 \<and> gSec t \<le> 59
     \<and> gNsec t = 0 \<and> gZone t = None)"

lemma digit_byte [simp]:
  "k < 10 \<Longrightarrow> is_digit (byte (48 + k))" "k < 10 \<Longrightarrow> digit_value (byte (48 + k)) = k"
  by (rule is_digit_byte; simp)+

lemma getnum_pad2 [simp]: "n < 100 \<Longrightarrow> getnum fixed (pad2 n @ t) = Some (n, t)"
proof -
  assume n: "n < 100"
  then have "n div 10 < 10" by simp
  then show ?thesis by (simp add: getnum_def pad2_def)
qed

lemma getnum_in_pad2 [simp]: "n < 100 \<Longrightarrow> lo \<le> n \<Longrightarrow> n \<le> hi \<Longrightarrow> getnum_in fixed lo hi (pad2 n @ t) = Some (n, t)"
  by (simp add: getnum_in_def)

lemma digits4: "n = 1000 * (n div 1000) + 100 * (n div 100 mod 10) + 10 * (n div 10 mod 10) + n mod (10::nat)"
proof -
  have "n div 10 div 10 = n div 100" "n div 100 div 10 = n div 1000" by (simp_all flip: div_mult2_eq)
  then have "n div 10 = 10 * (n div 100) + n div 10 mod 10" "n div 100 = 10 * (n div 1000) + n div 100 mod 10"
    using mult_div_mod_eq [of 10 "n div 10"] mult_div_mod_eq [of 10 "n div 100"] by simp_all
  then show ?thesis using mult_div_mod_eq [of 10 n] by linarith
qed

lemma year4_pad4 [simp]: "n \<le> 9999 \<Longrightarrow> year4 (pad4 n @ t) = Some (n, t)"
proof -
  assume n: "n \<le> 9999"
  then have "n div 1000 < 10" by simp
  then show ?thesis using digits4 [of n] by (simp add: year4_def pad4_def nat_of_digits_def)
qed

lemma lit_Cons [simp]: "lit c (c # t) = Some t"
  by (simp add: lit_def)

lemma fraction_Z [simp]: "fraction ''Z'' = (0, ''Z'')"
  by (simp add: fraction_def)

lemma zone_Z [simp]: "zone ''Z'' = Some (None, [])"
  by (simp add: zone_def)

lemma parse_format: "utc_second t \<Longrightarrow> parse_rfc3339 (format_utc t) = Some t"
proof -
  assume u: "utc_second t"
  then have d: "gDay t \<le> 31" by (auto simp: utc_second_def days_in_def split: if_splits)
  show ?thesis using u d by (simp add: parse_rfc3339_def format_utc_def utc_second_def)
qed

text \<open>
  A value that \<open>Parse\<close> accepts with a final \<open>Z\<close> and that \<open>Format\<close> reproduces is the text of a
  UTC second.
\<close>

lemma parse_ranges:
  assumes "parse_rfc3339 s = Some t"
  shows "1 \<le> gMonth t" "gMonth t \<le> 12" "1 \<le> gDay t" "gDay t \<le> days_in (gMonth t) (gYear t)"
    "gHour t \<le> 23" "gMin t \<le> 59" "gSec t \<le> 59"
  using assms
  by (auto simp: parse_rfc3339_def getnum_in_def bind_eq_Some_conv split: option.splits prod.splits if_splits)

lemma format_eq_imp:
  assumes "format_utc t = format_utc u" "gYear t \<le> 9999" "gYear u \<le> 9999"
    and "\<And>f. f \<in> {gMonth, gDay, gHour, gMin, gSec} \<Longrightarrow> f t < 100 \<and> f u < 100"
  shows "gYear t = gYear u"
proof -
  have "year4 (format_utc t) = year4 (format_utc u)" using assms(1) by simp
  then show ?thesis using assms(2,3) by (simp add: format_utc_def)
qed

end
