(* ===== verification/Go_Base64.thy ===== *)
theory Go_Base64
  imports Config_Lines
begin

text \<open>
  \<open>base64.StdEncoding\<close> of Go's \<open>encoding/base64\<close>: the padded encoding, and the decoder, which
  skips carriage returns and line feeds and does not check the trailing bits. A text is
  canonical when it is the encoding of what it decodes to.
\<close>

definition b64_char :: "nat \<Rightarrow> char" where
  "b64_char n = byte (if n < 26 then 65 + n else if n < 52 then 71 + n else if n < 62 then n - 4
     else if n = 62 then 43 else 47)"

definition b64_value :: "char \<Rightarrow> nat option" where
  "b64_value c = (let b = byte_of c in
     if 65 \<le> b \<and> b \<le> 90 then Some (b - 65) else if 97 \<le> b \<and> b \<le> 122 then Some (b - 71)
     else if 48 \<le> b \<and> b \<le> 57 then Some (b + 4) else if b = 43 then Some 62
     else if b = 47 then Some 63 else None)"

abbreviation b64_pad :: char where "b64_pad \<equiv> CHR ''=''"

fun b64_encode :: "string \<Rightarrow> string" where
  "b64_encode [] = []"
| "b64_encode [a] = (let n = byte_of a in [b64_char (n div 4), b64_char (n mod 4 * 16), b64_pad, b64_pad])"
| "b64_encode [a, b] = (let n = byte_of a; m = byte_of b in
     [b64_char (n div 4), b64_char (n mod 4 * 16 + m div 16), b64_char (m mod 16 * 4), b64_pad])"
| "b64_encode (a # b # c # t) = (let n = byte_of a; m = byte_of b; k = byte_of c in
     [b64_char (n div 4), b64_char (n mod 4 * 16 + m div 16), b64_char (m mod 16 * 4 + k div 64),
      b64_char (k mod 64)] @ b64_encode t)"

definition join_sextets :: "nat \<Rightarrow> nat \<Rightarrow> char" where
  "join_sextets hi lo = byte (hi + lo)"

definition decode_two :: "char \<Rightarrow> char \<Rightarrow> string option" where
  "decode_two a b = (case (b64_value a, b64_value b) of
     (Some x, Some y) \<Rightarrow> Some [byte (x * 4 + y div 16)] | _ \<Rightarrow> None)"

definition decode_three :: "char \<Rightarrow> char \<Rightarrow> char \<Rightarrow> string option" where
  "decode_three a b c = (case (b64_value a, b64_value b, b64_value c) of
     (Some x, Some y, Some z) \<Rightarrow> Some [byte (x * 4 + y div 16), byte (y mod 16 * 16 + z div 4)] | _ \<Rightarrow> None)"

definition decode_four :: "char \<Rightarrow> char \<Rightarrow> char \<Rightarrow> char \<Rightarrow> string option" where
  "decode_four a b c d = (case (b64_value a, b64_value b, b64_value c, b64_value d) of
     (Some x, Some y, Some z, Some w) \<Rightarrow>
       Some [byte (x * 4 + y div 16), byte (y mod 16 * 16 + z div 4), byte (z mod 4 * 64 + w)]
   | _ \<Rightarrow> None)"

fun b64_quanta :: "string \<Rightarrow> string option" where
  "b64_quanta [] = Some []"
| "b64_quanta (a # b # c # d # t) =
     (if c = b64_pad then (if d = b64_pad \<and> t = [] then decode_two a b else None)
      else if d = b64_pad then (if t = [] then decode_three a b c else None)
      else (case decode_four a b c d of None \<Rightarrow> None
        | Some xs \<Rightarrow> map_option ((@) xs) (b64_quanta t)))"
| "b64_quanta _ = None"

definition b64_decode :: "string \<Rightarrow> string option" where
  "b64_decode s = b64_quanta (filter (\<lambda>c. c \<noteq> CHR 0x0A \<and> c \<noteq> CHR 0x0D) s)"

text \<open>The check of the source: \<open>err == nil && EncodeToString(decoded) == s\<close>.\<close>

definition b64_canonical :: "string \<Rightarrow> string option" where
  "b64_canonical s = (case b64_decode s of
     None \<Rightarrow> None | Some bytes \<Rightarrow> (if b64_encode bytes = s then Some bytes else None))"

lemma b64_char_value [simp]: "n < 64 \<Longrightarrow> b64_value (b64_char n) = Some n"
  by (auto simp: b64_value_def b64_char_def Let_def)

lemma b64_char_plain [simp]:
  assumes "n < 64"
  shows "b64_char n \<noteq> b64_pad" "b64_char n \<noteq> CHR 0x0A" "b64_char n \<noteq> CHR 0x0D"
  using b64_char_value [OF assms] by (auto simp: b64_value_def)

lemma byte_parts:
  fixes n m :: nat
  assumes "n < 256"
  shows "n div 4 < 64" "n mod 4 * 16 < 64" "n div 64 < 4" "n mod 64 < 64" "n div 16 < 16" "n mod 16 * 4 < 64"
  using assms by auto

lemma byte_of_less_256: "byte_of c < 256"
  by (metis byte_byte_of byte_of_byte mod_less_divisor zero_less_numeral)

lemma sextet_bounds:
  fixes n m :: nat
  shows "m < 256 \<Longrightarrow> n mod 4 * 16 + m div 16 < 64" "m < 256 \<Longrightarrow> n mod 16 * 4 + m div 64 < 64"
proof -
  have "n mod 4 \<le> 3" "n mod 16 \<le> 15" by auto
  moreover assume "m < 256"
  then have "m div 16 \<le> 15" "m div 64 \<le> 3" by auto
  ultimately show "n mod 4 * 16 + m div 16 < 64" "n mod 16 * 4 + m div 64 < 64" by linarith+
qed

lemma sextet_join:
  fixes n m k :: nat
  assumes "n < 256" "m < 256" "k < 256"
  shows "n div 4 * 4 + (n mod 4 * 16 + m div 16) div 16 = n"
    "(n mod 4 * 16 + m div 16) mod 16 * 16 + (m mod 16 * 4 + k div 64) div 4 = m"
    "(m mod 16 * 4 + k div 64) mod 4 * 64 + k mod 64 = k"
proof -
  have "m div 16 < 16" "k div 64 < 4" using assms by auto
  then have a: "(n mod 4 * 16 + m div 16) div 16 = n mod 4" "(n mod 4 * 16 + m div 16) mod 16 = m div 16"
    "(m mod 16 * 4 + k div 64) div 4 = m mod 16" "(m mod 16 * 4 + k div 64) mod 4 = k div 64"
    by simp_all
  show "n div 4 * 4 + (n mod 4 * 16 + m div 16) div 16 = n" unfolding a by simp
  show "(n mod 4 * 16 + m div 16) mod 16 * 16 + (m mod 16 * 4 + k div 64) div 4 = m" unfolding a by simp
  show "(m mod 16 * 4 + k div 64) mod 4 * 64 + k mod 64 = k" unfolding a by simp
qed

lemma sextet_join_short:
  fixes n m :: nat
  assumes "n < 256" "m < 256"
  shows "n div 4 * 4 + (n mod 4 * 16) div 16 = n"
    "(n mod 4 * 16 + m div 16) mod 16 * 16 + (m mod 16 * 4) div 4 = m"
  using sextet_join [of n 0 0] sextet_join [of n m 0] assms by simp_all

lemma filter_encode: "filter (\<lambda>c. c \<noteq> CHR 0x0A \<and> c \<noteq> CHR 0x0D) (b64_encode s) = b64_encode s"
  by (induction s rule: b64_encode.induct)
    (simp_all add: Let_def byte_parts sextet_bounds byte_of_less_256)

lemma quanta_encode: "b64_quanta (b64_encode s) = Some s"
proof (induction s rule: b64_encode.induct)
  case 1
  then show ?case by simp
next
  case (2 a)
  then show ?case using byte_of_less_256 [of a]
    by (simp add: Let_def decode_two_def byte_parts sextet_join_short(1))
next
  case (3 a b)
  then show ?case using byte_of_less_256 [of a] byte_of_less_256 [of b]
    by (simp add: Let_def decode_three_def byte_parts sextet_bounds sextet_join(1) [where k = 0] sextet_join_short)
next
  case (4 a b c t)
  then show ?case using byte_of_less_256 [of a] byte_of_less_256 [of b] byte_of_less_256 [of c]
    by (simp add: Let_def decode_four_def byte_parts sextet_bounds sextet_join)
qed

lemma decode_encode_b64: "b64_decode (b64_encode s) = Some s"
  by (simp add: b64_decode_def filter_encode quanta_encode)

lemma canonical_iff: "b64_canonical s = Some bytes \<longleftrightarrow> s = b64_encode bytes"
  using decode_encode_b64 by (auto simp: b64_canonical_def split: option.splits if_splits)

end
