(* ===== verification/Go_Sha256.thy ===== *)
theory Go_Sha256
  imports Config_Lines "HOL-Library.Word"
begin

text \<open>
  \<open>crypto/sha256\<close> over byte strings, after FIPS 180-4: padding, the message schedule and the
  compression function on 32-bit words, and the digest as 32 bytes.
\<close>

unbundle bit_operations_syntax

type_synonym w32 = "32 word"

text \<open>
  The constants are the first 32 bits of the fractional parts of the cube roots of the first 64
  primes, and of the square roots of the first eight. \<open>int_root e n k 0\<close> is the integer \<open>e\<close>-th
  root of \<open>n\<close>, found bit by bit from bit \<open>k - 1\<close> down; the roots here stay below \<open>2 ^ 37\<close>.
\<close>

definition primes_below :: "nat \<Rightarrow> nat list" where
  "primes_below n = filter (\<lambda>p. list_all (\<lambda>d. p mod d \<noteq> 0) [2..<p]) [2..<n]"

fun int_root :: "nat \<Rightarrow> nat \<Rightarrow> nat \<Rightarrow> nat \<Rightarrow> nat" where
  "int_root e n 0 r = r"
| "int_root e n (Suc k) r = int_root e n k (if (r + 2 ^ k) ^ e \<le> n then r + 2 ^ k else r)"

definition root_fraction :: "nat \<Rightarrow> nat \<Rightarrow> w32" where
  "root_fraction e p = of_nat (int_root e (p * 2 ^ (32 * e)) 37 0)"

definition sha_k :: "w32 list" where
  "sha_k = map (root_fraction 3) (primes_below 312)"

definition sha_init :: "w32 list" where
  "sha_init = map (root_fraction 2) (primes_below 20)"

lemma int_root_bound: "r ^ e \<le> n \<Longrightarrow> int_root e n k r ^ e \<le> n"
  by (induction e n k r rule: int_root.induct) simp_all

lemma length_sha_init: "length sha_init = 8"
  by (simp add: sha_init_def primes_below_def upt_rec)

definition big_sigma0 :: "w32 \<Rightarrow> w32" where
  "big_sigma0 x = word_rotr 2 x XOR word_rotr 13 x XOR word_rotr 22 x"
definition big_sigma1 :: "w32 \<Rightarrow> w32" where
  "big_sigma1 x = word_rotr 6 x XOR word_rotr 11 x XOR word_rotr 25 x"
definition small_sigma0 :: "w32 \<Rightarrow> w32" where
  "small_sigma0 x = word_rotr 7 x XOR word_rotr 18 x XOR drop_bit 3 x"
definition small_sigma1 :: "w32 \<Rightarrow> w32" where
  "small_sigma1 x = word_rotr 17 x XOR word_rotr 19 x XOR drop_bit 10 x"
definition ch :: "w32 \<Rightarrow> w32 \<Rightarrow> w32 \<Rightarrow> w32" where
  "ch x y z = (x AND y) XOR (NOT x AND z)"
definition maj :: "w32 \<Rightarrow> w32 \<Rightarrow> w32 \<Rightarrow> w32" where
  "maj x y z = (x AND y) XOR (x AND z) XOR (y AND z)"

text \<open>The message, a one bit, zeros, and the length in bits as 64 bits.\<close>

definition be_bytes :: "nat \<Rightarrow> nat \<Rightarrow> nat list" where
  "be_bytes k n = map (\<lambda>i. n div 256 ^ (k - 1 - i) mod 256) [0..<k]"

definition sha_pad :: "nat list \<Rightarrow> nat list" where
  "sha_pad m = m @ [128] @ replicate ((119 - length m mod 64) mod 64) 0 @ be_bytes 8 (8 * length m mod 2 ^ 64)"

fun words_of :: "nat list \<Rightarrow> w32 list" where
  "words_of (a # b # c # d # t) = of_nat (((a * 256 + b) * 256 + c) * 256 + d) # words_of t"
| "words_of _ = []"

text \<open>The schedule is kept in reverse order while it grows.\<close>

definition schedule_step :: "nat \<Rightarrow> w32 list \<Rightarrow> w32 list" where
  "schedule_step _ w = (small_sigma1 (w ! 1) + w ! 6 + small_sigma0 (w ! 14) + w ! 15) # w"

definition schedule :: "w32 list \<Rightarrow> w32 list" where
  "schedule block = rev (fold schedule_step [16..<64] (rev block))"

definition sha_round :: "w32 \<times> w32 \<Rightarrow> w32 list \<Rightarrow> w32 list" where
  "sha_round kw st = (case st of
     [a, b, c, d, e, f, g, h] \<Rightarrow>
       (let t1 = h + big_sigma1 e + ch e f g + fst kw + snd kw;
            t2 = big_sigma0 a + maj a b c
        in [t1 + t2, a, b, c, d + t1, e, f, g])
   | _ \<Rightarrow> st)"

definition compress :: "w32 list \<Rightarrow> w32 list \<Rightarrow> w32 list" where
  "compress block st = map2 (+) st (fold sha_round (zip sha_k (schedule block)) st)"

fun sha_blocks :: "nat \<Rightarrow> w32 list \<Rightarrow> w32 list \<Rightarrow> w32 list" where
  "sha_blocks 0 ws st = st"
| "sha_blocks (Suc n) ws st = sha_blocks n (drop 16 ws) (compress (take 16 ws) st)"

text \<open>\<open>sha256.Sum256\<close>: one block for each 64 bytes of the padded message.\<close>

definition Sum256 :: "string \<Rightarrow> nat list" where
  "Sum256 s = (let m = sha_pad (map byte_of s)
     in concat (map (\<lambda>w. be_bytes 4 (unat w)) (sha_blocks (length m div 64) (words_of m) sha_init)))"

lemma length_be_bytes [simp]: "length (be_bytes k n) = k"
  by (simp add: be_bytes_def)

lemma be_bytes_bound: "b \<in> set (be_bytes k n) \<Longrightarrow> b < 256"
  by (auto simp: be_bytes_def)

lemma length_sha_round: "length st = 8 \<Longrightarrow> length (sha_round kw st) = 8"
  by (auto simp: sha_round_def Let_def split: list.splits)

lemma length_compress: "length st = 8 \<Longrightarrow> length (compress block st) = 8"
proof -
  have "length (fold sha_round kws st) = 8" if "length st = 8" for kws st
    using that by (induction kws arbitrary: st) (simp_all add: length_sha_round)
  then show "length st = 8 \<Longrightarrow> length (compress block st) = 8" by (simp add: compress_def)
qed

lemma length_sha_blocks: "length st = 8 \<Longrightarrow> length (sha_blocks n ws st) = 8"
  by (induction n arbitrary: ws st) (simp_all add: length_compress)

lemma length_Sum256 [simp]: "length (Sum256 s) = 32"
proof -
  have "length (concat (map (\<lambda>w. be_bytes 4 (unat (w::w32))) ws)) = 4 * length ws" for ws
    by (induction ws) auto
  then show ?thesis using length_sha_blocks [OF length_sha_init] by (simp add: Sum256_def Let_def)
qed

lemma Sum256_bound: "b \<in> set (Sum256 s) \<Longrightarrow> b < 256"
  using be_bytes_bound by (auto simp: Sum256_def Let_def)

text \<open>The padded message is a whole number of blocks.\<close>

lemma sha_pad_blocks: "length (sha_pad m) mod 64 = 0"
proof -
  have "(l + 9 + (119 - l mod 64) mod 64) mod 64 = 0" for l :: nat
  proof -
    define q r where "q = l div 64" and "r = l mod 64"
    have r: "r < 64" and l: "l = 64 * q + r" by (simp_all add: q_def r_def)
    have "(119 - r) mod 64 = (if r \<le> 55 then 55 - r else 119 - r)"
      using r by (auto simp: mod_if)
    then have "l + 9 + (119 - r) mod 64 = 64 * (q + (if r \<le> 55 then 1 else 2))" using r l by auto
    then show ?thesis by (metis mod_mult_self1_is_0 r_def)
  qed
  moreover have "length (sha_pad m) = length m + 9 + (119 - length m mod 64) mod 64" by (simp add: sha_pad_def)
  ultimately show ?thesis by simp
qed

section \<open>Hexadecimal text of a digest\<close>

lemma hex_digit_char: "n < 16 \<Longrightarrow> hex_char (hex_digit n)"
  by simp

lemma hex_encode_chars: "\<forall>b \<in> set xs. b < 256 \<Longrightarrow> list_all hex_char (hex_encode xs)"
  by (induction xs) (auto simp: hex_encode_def)

lemma length_hex_encode [simp]: "length (hex_encode xs) = 2 * length xs"
  by (induction xs) (auto simp: hex_encode_def)

lemma hex_char_decodable: "hex_char c \<Longrightarrow> unhex c \<noteq> None"
  by (auto simp: hex_char_def unhex_def Let_def)

lemma hex_char_lower: "list_all hex_char s \<Longrightarrow> to_lower U s = s"
  by (intro to_lower_fixed) (auto simp: hex_char_def list_all_iff)

end
