(* ===== verification/Platform.thy ===== *)
theory Platform
  imports Config_Lines
begin

text \<open>
  What the program takes from the operating system and from the two library packages that are
  not modelled here, gathered in one record that the definitions take as an argument:
  \<open>path/filepath\<close>, whose rules depend on the platform, \<open>net/url\<close> and \<open>crypto/ed25519\<close>.
  A file is what \<open>Lstat\<close> and \<open>Stat\<close> report of it.
\<close>

record url =
  uScheme :: string
  uHost :: string
  uHasUser :: bool
  uRawQuery :: string
  uFragment :: string

record platform =
  pf_unicode :: unicode
  pf_is_abs :: "string \<Rightarrow> bool"
  pf_clean :: "string \<Rightarrow> string"
  pf_url :: "string \<Rightarrow> url option"
  pf_ed25519 :: "string \<Rightarrow> string \<Rightarrow> string \<Rightarrow> bool"

text \<open>The Unix rules of \<open>path/filepath\<close> are those of package \<open>path\<close>.\<close>

definition unix_platform :: "unicode \<Rightarrow> (string \<Rightarrow> url option) \<Rightarrow> (string \<Rightarrow> string \<Rightarrow> string \<Rightarrow> bool) \<Rightarrow> platform" where
  "unix_platform U parse verify = \<lparr>pf_unicode = U, pf_is_abs = path_is_abs, pf_clean = path_clean,
     pf_url = parse, pf_ed25519 = verify\<rparr>"

record file_info =
  fiRegular :: bool
  fiSymlink :: bool
  fiSize :: nat
  fiId :: nat

text \<open>\<open>os.SameFile\<close> compares the identity of two files.\<close>

definition same_file :: "file_info \<Rightarrow> file_info \<Rightarrow> bool" where
  "same_file a b = (fiId a = fiId b)"

datatype 'a io = Absent | Failed | Got 'a

text \<open>A rune loop of two packages of the source: a control character is below 0x20 or 0x7f.\<close>

definition containsControl :: "string \<Rightarrow> bool" where
  "containsControl value = list_ex (\<lambda>r. r < 0x20 \<or> r = 0x7f) (rune_values value)"

definition bounded_text :: "string \<Rightarrow> bool" where
  "bounded_text s = (s \<noteq> [] \<and> valid_utf8 s \<and> length s \<le> 1024 \<and> \<not> containsControl s)"

datatype issuer_reason = Issuer_Text | Issuer_Url | Issuer_Host

definition https_issuer :: "platform \<Rightarrow> string \<Rightarrow> (issuer_reason, unit) result" where
  "https_issuer P issuer =
     (if \<not> bounded_text issuer then Inl Issuer_Text
      else (case pf_url P issuer of
          None \<Rightarrow> Inl Issuer_Url
        | Some u \<Rightarrow>
          (if uScheme u \<noteq> ''https'' \<or> uHost u = [] \<or> uHasUser u \<or> uRawQuery u \<noteq> [] \<or> uFragment u \<noteq> []
           then Inl Issuer_Url
           else if uHost u \<noteq> to_lower (pf_unicode P) (uHost u) then Inl Issuer_Host
           else Inr ())))"

end
