(* ===== verification/Policy.thy ===== *)
theory Policy
  imports Image_Ref Go_Time Go_Base64 Go_Sha256 Platform
begin

text \<open>
  The machine policy of \<open>internal/policy/policy.go\<close>: its data, the parser of policy.toml, and
  what the parser checks of trust rules, file pins and registry signing keys. The constructors
  of the errors follow the codes of \<open>policyError\<close>; the instant \<open>now\<close> is an argument.
\<close>

section \<open>Data\<close>

definition PolicyMaxSchemaVersion :: int where "PolicyMaxSchemaVersion = 4"
definition ImageTrustVerifierCosign :: string where "ImageTrustVerifierCosign = ''cosign''"
definition ImageTrustKeyless :: string where "ImageTrustKeyless = ''keyless''"
definition ImageTrustKey :: string where "ImageTrustKey = ''key''"
definition ImageTrustOnline :: string where "ImageTrustOnline = ''online''"
definition ImageTrustOfflineBundle :: string where "ImageTrustOfflineBundle = ''offline-bundle''"

record file_pin =
  fpPath :: string
  fpSHA256 :: string

record image_trust_rule =
  trRepository :: string
  trMechanism :: string
  trIssuer :: string
  trSubject :: string
  trPublicKey :: file_pin
  trNetworkMode :: string

record runtime_evidence =
  reMechanism :: string
  reRepository :: string
  reDigest :: string
  reSigner :: string
  reIssuer :: string
  reVerifier :: string
  reVerifierSHA256 :: string
  rePolicyFingerprint :: string

record signing_key =
  skPublicKey :: string
  skNotBefore :: gotime
  skExpiresAt :: gotime

record policy =
  pPath :: string
  pSchemaVersion :: int
  pRequireLock :: bool
  pAllowLocalImages :: bool
  pAllowedRepositories :: "string list"
  pRequireRegistrySignature :: bool
  pExpiresAt :: "gotime option"
  pFingerprint :: string
  pSigningKeys :: "(string, signing_key) gomap"
  pRevoked :: "string list"
  pCosignVerifier :: file_pin
  pCosignTrustedRoot :: file_pin
  pImageTrustRules :: "image_trust_rule list"

definition no_pin :: file_pin where "no_pin = \<lparr>fpPath = [], fpSHA256 = []\<rparr>"

definition zero_policy :: policy where
  "zero_policy = \<lparr>pPath = [], pSchemaVersion = 0, pRequireLock = False, pAllowLocalImages = False,
     pAllowedRepositories = [], pRequireRegistrySignature = False, pExpiresAt = None, pFingerprint = [],
     pSigningKeys = [], pRevoked = [], pCosignVerifier = no_pin, pCosignTrustedRoot = no_pin,
     pImageTrustRules = []\<rparr>"

definition Managed :: "policy \<Rightarrow> bool" where
  "Managed p = (pSchemaVersion p \<noteq> 0)"

section \<open>Errors\<close>

datatype pin_reason = Pin_Path string string | Pin_Digest string

datatype rule_reason =
    Rule_Fields
  | Rule_Repository ref_error
  | Rule_Duplicate string
  | Rule_Issuer string issuer_reason
  | Rule_Subject string
  | Rule_Pin pin_reason
  | Rule_Mechanism string string
  | Rule_Network string string

datatype key_reason =
    Key_Fields
  | Key_Id string
  | Key_Duplicate string
  | Key_Encoding string
  | Key_Shared string string
  | Key_Not_Before string
  | Key_Expiry string
  | Key_Window string
  | Revoked_Id string
  | Revoked_Duplicate string

datatype policy_line_reason =
    PLine_Header toml_error
  | PLine_Section string
  | PLine_Key_Value
  | PLine_Duplicate string
  | PLine_Value string toml_error
  | PLine_Unterminated string
  | PLine_Time
  | PLine_Unsupported string

datatype syntax_reason =
    Syn_Line nat policy_line_reason
  | Syn_No_Controls
  | Syn_Repository ref_error
  | Syn_Keys key_reason
  | Syn_No_Active_Key
  | Syn_Rules rule_reason
  | Syn_Cosign_Without_Rules
  | Syn_Root_Without_Offline
  | Syn_Pin pin_reason

datatype version_reason =
    Ver_Not_Integer nat
  | Ver_Unsupported int
  | Ver_Signature
  | Ver_Offline
  | Ver_Trust

datatype policy_error =
    Err_Syntax syntax_reason
  | Err_Version version_reason
  | Err_Expired
  | Err_Unreadable
  | Err_Ownership

section \<open>Rules, pins and keys\<close>

definition parseFilePin :: "platform \<Rightarrow> string \<Rightarrow> string \<Rightarrow> string \<Rightarrow> (pin_reason, file_pin) result" where
  "parseFilePin P name path digest =
     (if path = [] \<or> \<not> valid_utf8 path \<or> \<not> pf_is_abs P path \<or> pf_clean P path \<noteq> path \<or> containsControl path
      then Inl (Pin_Path name path)
      else if length digest \<noteq> 64 \<or> digest \<noteq> to_lower (pf_unicode P) digest then Inl (Pin_Digest name)
      else if \<not> hex_decodable digest then Inl (Pin_Digest name)
      else Inr \<lparr>fpPath = path, fpSHA256 = digest\<rparr>)"

definition validateImageTrustSubject :: "string \<Rightarrow> bool" where
  "validateImageTrustSubject subject = bounded_text subject"

definition validateImageTrustIssuer :: "platform \<Rightarrow> string \<Rightarrow> (issuer_reason, unit) result" where
  "validateImageTrustIssuer P issuer = https_issuer P issuer"

definition rule_material ::
    "platform \<Rightarrow> string \<Rightarrow> string list \<Rightarrow> (rule_reason, image_trust_rule) result" where
  "rule_material P repository parts =
     (let mechanism = parts ! 1;
          rule = \<lparr>trRepository = repository, trMechanism = mechanism, trIssuer = [], trSubject = [],
            trPublicKey = no_pin, trNetworkMode = []\<rparr> in
      if mechanism = ImageTrustKeyless then
        rbind (map_err (Rule_Issuer repository) (validateImageTrustIssuer P (parts ! 2))) (\<lambda>_.
          if \<not> validateImageTrustSubject (parts ! 3) then Inl (Rule_Subject repository)
          else Inr (rule\<lparr>trIssuer := parts ! 2, trSubject := parts ! 3\<rparr>))
      else if mechanism = ImageTrustKey then
        rbind (map_err Rule_Pin (parseFilePin P ''image trust public key'' (parts ! 2) (parts ! 3))) (\<lambda>pin.
          Inr (rule\<lparr>trPublicKey := pin\<rparr>))
      else Inl (Rule_Mechanism repository mechanism))"

definition parse_trust_rule ::
    "platform \<Rightarrow> string \<Rightarrow> image_trust_rule list \<Rightarrow> (rule_reason, image_trust_rule list) result" where
  "parse_trust_rule P spec rules =
     (let parts = split_byte spec CHR ''|'' in
      if length parts \<noteq> 5 then Inl Rule_Fields
      else rbind (map_err Rule_Repository (canonicalRule (pf_unicode P) (parts ! 0))) (\<lambda>repository.
        if repository \<in> set (map trRepository rules) then Inl (Rule_Duplicate repository)
        else rbind (rule_material P repository parts) (\<lambda>rule.
          let mode = parts ! 4 in
          if mode \<noteq> ImageTrustOnline \<and> mode \<noteq> ImageTrustOfflineBundle then Inl (Rule_Network repository mode)
          else Inr (rules @ [rule\<lparr>trNetworkMode := mode\<rparr>]))))"

definition parseImageTrustRules :: "platform \<Rightarrow> string list \<Rightarrow> (rule_reason, image_trust_rule list) result" where
  "parseImageTrustRules P specs =
     rbind (fold_result (parse_trust_rule P) specs []) (\<lambda>rules. Inr (sort_key trRepository rules))"

definition validRegistryKeyID :: "string \<Rightarrow> bool" where
  "validRegistryKeyID kid = (case kid of
     [] \<Rightarrow> False
   | c # rest \<Rightarrow> length kid \<le> 64 \<and> 97 \<le> byte_of c \<and> byte_of c \<le> (122::nat)
       \<and> list_all (\<lambda>r. (97 \<le> r \<and> r \<le> 122) \<or> (48 \<le> r \<and> r \<le> 57) \<or> r = byte_of CHR ''.''
            \<or> r = byte_of CHR ''_'' \<or> r = byte_of CHR ''-'') (rune_values rest))"

definition parsePolicyTimestamp :: "string \<Rightarrow> gotime option" where
  "parsePolicyTimestamp raw =
     (if \<not> has_suffix raw ''Z'' then None
      else (case parse_rfc3339 raw of
          None \<Rightarrow> None
        | Some t \<Rightarrow> (if format_utc t \<noteq> raw then None else Some t)))"

definition ed25519_key_size :: nat where "ed25519_key_size = 32"
definition ed25519_signature_size :: nat where "ed25519_signature_size = 64"

type_synonym key_state = "(string, signing_key) gomap \<times> (string, string) gomap"

definition parse_signing_key :: "string \<Rightarrow> key_state \<Rightarrow> (key_reason, key_state) result" where
  "parse_signing_key spec st =
     (let parts = split_byte spec CHR ''|''; keys = fst st; publicKeys = snd st; kid = parts ! 0 in
      if length parts \<noteq> 4 then Inl Key_Fields
      else if \<not> validRegistryKeyID kid then Inl (Key_Id kid)
      else if mhas keys kid then Inl (Key_Duplicate kid)
      else (case b64_canonical (parts ! 1) of
          None \<Rightarrow> Inl (Key_Encoding kid)
        | Some decoded \<Rightarrow>
          (if length decoded \<noteq> ed25519_key_size then Inl (Key_Encoding kid)
           else (case map_of publicKeys (b64_encode decoded) of
               Some other \<Rightarrow> Inl (Key_Shared other kid)
             | None \<Rightarrow> (case parsePolicyTimestamp (parts ! 2) of
                   None \<Rightarrow> Inl (Key_Not_Before kid)
                 | Some notBefore \<Rightarrow> (case parsePolicyTimestamp (parts ! 3) of
                       None \<Rightarrow> Inl (Key_Expiry kid)
                     | Some expiresAt \<Rightarrow>
                       (if \<not> before (instant_of notBefore) (instant_of expiresAt) then Inl (Key_Window kid)
                        else Inr (mput kid \<lparr>skPublicKey = decoded, skNotBefore = notBefore, skExpiresAt = expiresAt\<rparr> keys,
                          mput (b64_encode decoded) kid publicKeys))))))))"

definition parse_revoked :: "string \<Rightarrow> string list \<Rightarrow> (key_reason, string list) result" where
  "parse_revoked kid revoked =
     (if \<not> validRegistryKeyID kid then Inl (Revoked_Id kid)
      else if kid \<in> set revoked then Inl (Revoked_Duplicate kid)
      else Inr (revoked @ [kid]))"

definition parseRegistrySigningKeys ::
    "string list \<Rightarrow> string list \<Rightarrow> (key_reason, (string, signing_key) gomap \<times> string list) result" where
  "parseRegistrySigningKeys specs revokedIDs =
     rbind (fold_result parse_signing_key specs ([], [])) (\<lambda>(keys, _).
       rbind (fold_result parse_revoked revokedIDs []) (\<lambda>revoked. Inr (keys, revoked)))"

section \<open>The lines of policy.toml\<close>

text \<open>\<open>arrayValueComplete\<close>: a closing bracket outside quotes has been seen.\<close>

fun array_complete_from :: "bool \<Rightarrow> bool \<Rightarrow> rune list \<Rightarrow> bool" where
  "array_complete_from inQuote escaped [] = False"
| "array_complete_from inQuote escaped (r # rs) =
     (if escaped then array_complete_from inQuote False rs
      else if r = byte_of bs \<and> inQuote then array_complete_from inQuote True rs
      else if r = byte_of dq then array_complete_from (\<not> inQuote) False rs
      else if r = byte_of CHR '']'' \<and> \<not> inQuote then True
      else array_complete_from inQuote False rs)"

definition arrayValueComplete :: "string \<Rightarrow> bool" where
  "arrayValueComplete raw = array_complete_from False False (rune_values raw)"

text \<open>The lines of an array value: \<open>None\<close> when the file ends inside it.\<close>

fun gather_array :: "string \<Rightarrow> string list \<Rightarrow> nat \<Rightarrow> (string \<times> string list \<times> nat) option" where
  "gather_array raw [] n =
     (if has_prefix (trim_space raw) ''['' \<and> \<not> arrayValueComplete raw then None else Some (raw, [], n))"
| "gather_array raw (l # ls) n =
     (if has_prefix (trim_space raw) ''['' \<and> \<not> arrayValueComplete raw
      then gather_array (raw @ [CHR 0x0A] @ logical l) ls (Suc n)
      else Some (raw, l # ls, n))"

lemma gather_array_length: "gather_array raw ls n = Some (raw', ls', n') \<Longrightarrow> length ls' \<le> length ls"
  by (induction raw ls n rule: gather_array.induct) (auto split: if_splits)

record policy_acc =
  pa_policy :: policy
  pa_keys :: "string list"
  pa_revoked :: "string list"
  pa_rules :: "string list"
  pa_cosign :: file_pin
  pa_root :: file_pin
  pa_used_signature :: bool
  pa_used_trust :: bool
  pa_used_offline :: bool
  pa_seen :: "string list"

definition policy_array_keys :: "string list" where
  "policy_array_keys = [''allowed_repositories'', ''registry_signing_keys'', ''revoked_registry_key_ids'', ''image_trust_rules'']"

definition put_array :: "string \<Rightarrow> string list \<Rightarrow> policy_acc \<Rightarrow> policy_acc" where
  "put_array key values acc =
     (if key = ''allowed_repositories'' then acc\<lparr>pa_policy := (pa_policy acc)\<lparr>pAllowedRepositories := values\<rparr>\<rparr>
      else if key = ''registry_signing_keys'' then acc\<lparr>pa_keys := values, pa_used_signature := True\<rparr>
      else if key = ''revoked_registry_key_ids'' then acc\<lparr>pa_revoked := values, pa_used_signature := True\<rparr>
      else acc\<lparr>pa_rules := values, pa_used_trust := True\<rparr>)"

definition policy_line_error :: "nat \<Rightarrow> policy_line_reason \<Rightarrow> policy_error" where
  "policy_line_error n r = Err_Syntax (Syn_Line n r)"

definition policy_bool :: "nat \<Rightarrow> string \<Rightarrow> string \<Rightarrow> (bool \<Rightarrow> 'a) \<Rightarrow> (policy_error, 'a) result" where
  "policy_bool n key raw f = (case ParseBool raw of
     Inl e \<Rightarrow> Inl (policy_line_error n (PLine_Value key e)) | Inr v \<Rightarrow> Inr (f v))"

definition policy_quoted :: "nat \<Rightarrow> string \<Rightarrow> string \<Rightarrow> (string \<Rightarrow> 'a) \<Rightarrow> (policy_error, 'a) result" where
  "policy_quoted n key raw f = (case ParseQuoted raw of
     Inl e \<Rightarrow> Inl (policy_line_error n (PLine_Value key e)) | Inr v \<Rightarrow> Inr (f v))"

definition put_scalar :: "nat \<Rightarrow> string \<Rightarrow> string \<Rightarrow> policy_acc \<Rightarrow> (policy_error, policy_acc) result" where
  "put_scalar n key raw acc =
     (let p = pa_policy acc in
      if key = ''policy_version'' then
        (case atoi raw of None \<Rightarrow> Inl (Err_Version (Ver_Not_Integer n))
         | Some v \<Rightarrow> Inr (acc\<lparr>pa_policy := p\<lparr>pSchemaVersion := v\<rparr>\<rparr>))
      else if key = ''require_lock'' then
        policy_bool n key raw (\<lambda>v. acc\<lparr>pa_policy := p\<lparr>pRequireLock := v\<rparr>\<rparr>)
      else if key = ''allow_local_images'' then
        policy_bool n key raw (\<lambda>v. acc\<lparr>pa_policy := p\<lparr>pAllowLocalImages := v\<rparr>\<rparr>)
      else if key = ''require_registry_signature'' then
        policy_bool n key raw (\<lambda>v. acc\<lparr>pa_policy := p\<lparr>pRequireRegistrySignature := v\<rparr>, pa_used_signature := True\<rparr>)
      else if key = ''cosign_path'' then
        policy_quoted n key raw (\<lambda>v. acc\<lparr>pa_cosign := (pa_cosign acc)\<lparr>fpPath := v\<rparr>, pa_used_trust := True\<rparr>)
      else if key = ''cosign_sha256'' then
        policy_quoted n key raw (\<lambda>v. acc\<lparr>pa_cosign := (pa_cosign acc)\<lparr>fpSHA256 := v\<rparr>, pa_used_trust := True\<rparr>)
      else if key = ''cosign_trusted_root_path'' then
        policy_quoted n key raw (\<lambda>v. acc\<lparr>pa_root := (pa_root acc)\<lparr>fpPath := v\<rparr>, pa_used_trust := True, pa_used_offline := True\<rparr>)
      else if key = ''cosign_trusted_root_sha256'' then
        policy_quoted n key raw (\<lambda>v. acc\<lparr>pa_root := (pa_root acc)\<lparr>fpSHA256 := v\<rparr>, pa_used_trust := True, pa_used_offline := True\<rparr>)
      else if key = ''expires_at'' then
        rbind (policy_quoted n key raw (\<lambda>v. v)) (\<lambda>v. (case parse_rfc3339 v of
            None \<Rightarrow> Inl (policy_line_error n PLine_Time)
          | Some t \<Rightarrow> Inr (acc\<lparr>pa_policy := p\<lparr>pExpiresAt := Some t\<rparr>\<rparr>)))
      else Inl (policy_line_error n (PLine_Unsupported key)))"

text \<open>
  One line is an empty line, a key with a scalar value, or a key with an array value that may
  take further lines. \<open>too_long\<close> tells that the scanner stops with an error after these lines.
\<close>

function policy_lines ::
    "bool \<Rightarrow> nat \<Rightarrow> string list \<Rightarrow> policy_acc \<Rightarrow> (policy_error, policy_acc) result" where
  "policy_lines too_long n [] acc = (if too_long then Inl Err_Unreadable else Inr acc)"
| "policy_lines too_long n (raw # ls) acc =
     (let line = logical raw in
      if line = [] then policy_lines too_long (Suc n) ls acc
      else (case ParseSectionHeader line of
          Inl e \<Rightarrow> Inl (policy_line_error n (PLine_Header e))
        | Inr (Some sec) \<Rightarrow> Inl (policy_line_error n (PLine_Section sec))
        | Inr None \<Rightarrow>
          (case split_kv line of
             None \<Rightarrow> Inl (policy_line_error n PLine_Key_Value)
           | Some (key, value) \<Rightarrow>
             (if key \<in> set (pa_seen acc) then Inl (policy_line_error n (PLine_Duplicate key))
              else
                (let acc1 = acc\<lparr>pa_seen := key # pa_seen acc\<rparr> in
                 if key \<in> set policy_array_keys then
                   (case gather_array value ls n of
                      None \<Rightarrow> Inl (if too_long then Err_Unreadable else policy_line_error n (PLine_Unterminated key))
                    | Some (value', ls', n') \<Rightarrow>
                      (case ParseStringArray value' of
                         Inl e \<Rightarrow> Inl (policy_line_error n (PLine_Value key e))
                       | Inr values \<Rightarrow> policy_lines too_long (Suc n') ls' (put_array key values acc1)))
                 else (case put_scalar n key value acc1 of
                      Inl e \<Rightarrow> Inl e
                    | Inr acc2 \<Rightarrow> policy_lines too_long (Suc n) ls acc2))))))"
  by pat_completeness auto
termination
  by (relation "measure (\<lambda>(_, _, ls, _). length ls)") (auto dest: gather_array_length)

section \<open>The checks after the lines\<close>

definition start_acc :: "string \<Rightarrow> policy_acc" where
  "start_acc path = \<lparr>pa_policy = zero_policy\<lparr>pPath := path\<rparr>, pa_keys = [], pa_revoked = [], pa_rules = [],
     pa_cosign = no_pin, pa_root = no_pin, pa_used_signature = False, pa_used_trust = False,
     pa_used_offline = False, pa_seen = []\<rparr>"

definition check_versions :: "policy_acc \<Rightarrow> (policy_error, unit) result" where
  "check_versions acc =
     (let v = pSchemaVersion (pa_policy acc) in
      if v < 1 \<or> PolicyMaxSchemaVersion < v then Inl (Err_Version (Ver_Unsupported v))
      else if pa_used_signature acc \<and> v < 2 then Inl (Err_Version Ver_Signature)
      else if pa_used_offline acc \<and> v < 4 then Inl (Err_Version Ver_Offline)
      else if pa_used_trust acc \<and> v < 3 then Inl (Err_Version Ver_Trust)
      else Inr ())"

definition check_controls :: "instant \<Rightarrow> policy_acc \<Rightarrow> (policy_error, unit) result" where
  "check_controls now acc =
     (let p = pa_policy acc in
      if \<not> pRequireLock p \<and> pAllowedRepositories p = [] \<and> \<not> pRequireRegistrySignature p \<and> pa_rules acc = []
      then Inl (Err_Syntax Syn_No_Controls)
      else (case pExpiresAt p of
          None \<Rightarrow> Inr ()
        | Some t \<Rightarrow> (if \<not> before now (instant_of t) then Inl Err_Expired else Inr ())))"

definition add_boundary :: "unicode \<Rightarrow> string \<Rightarrow> string list \<Rightarrow> (policy_error, string list) result" where
  "add_boundary U rule canonical =
     rbind (map_err (\<lambda>e. Err_Syntax (Syn_Repository e)) (canonicalRule U rule)) (\<lambda>r.
       Inr (if r \<in> set canonical then canonical else canonical @ [r]))"

definition key_active :: "instant \<Rightarrow> signing_key \<Rightarrow> bool" where
  "key_active now key = (\<not> before now (instant_of (skNotBefore key)) \<and> before now (instant_of (skExpiresAt key)))"

definition active_keys :: "instant \<Rightarrow> (string, signing_key) gomap \<Rightarrow> string list \<Rightarrow> nat" where
  "active_keys now keys revoked = length (filter (\<lambda>e. fst e \<notin> set revoked \<and> key_active now (snd e)) keys)"

definition cosign_pin :: "platform \<Rightarrow> image_trust_rule list \<Rightarrow> file_pin \<Rightarrow> (policy_error, file_pin) result" where
  "cosign_pin P rules given =
     (if rules = [] then
        (if fpPath given \<noteq> [] \<or> fpSHA256 given \<noteq> [] then Inl (Err_Syntax Syn_Cosign_Without_Rules) else Inr no_pin)
      else map_err (\<lambda>e. Err_Syntax (Syn_Pin e)) (parseFilePin P ''cosign verifier'' (fpPath given) (fpSHA256 given)))"

definition offline_rules :: "image_trust_rule list \<Rightarrow> nat" where
  "offline_rules rules = length (filter (\<lambda>r. trNetworkMode r = ImageTrustOfflineBundle) rules)"

definition root_pin :: "platform \<Rightarrow> int \<Rightarrow> image_trust_rule list \<Rightarrow> file_pin \<Rightarrow> (policy_error, file_pin) result" where
  "root_pin P version rules given =
     (if offline_rules rules = 0 then
        (if fpPath given \<noteq> [] \<or> fpSHA256 given \<noteq> [] then Inl (Err_Syntax Syn_Root_Without_Offline) else Inr no_pin)
      else if 4 \<le> version
      then map_err (\<lambda>e. Err_Syntax (Syn_Pin e)) (parseFilePin P ''cosign trusted root'' (fpPath given) (fpSHA256 given))
      else Inr no_pin)"

definition finish_policy :: "platform \<Rightarrow> string \<Rightarrow> instant \<Rightarrow> policy_acc \<Rightarrow> (policy_error, policy) result" where
  "finish_policy P bytes now acc =
     rbind (check_versions acc) (\<lambda>_.
     rbind (check_controls now acc) (\<lambda>_.
     rbind (fold_result (add_boundary (pf_unicode P)) (pAllowedRepositories (pa_policy acc)) []) (\<lambda>boundaries.
     rbind (map_err (\<lambda>e. Err_Syntax (Syn_Keys e)) (parseRegistrySigningKeys (pa_keys acc) (pa_revoked acc))) (\<lambda>(keys, revoked).
     rbind (if pRequireRegistrySignature (pa_policy acc) \<and> active_keys now keys revoked = 0
            then Inl (Err_Syntax Syn_No_Active_Key) else Inr ()) (\<lambda>_.
     rbind (map_err (\<lambda>e. Err_Syntax (Syn_Rules e)) (parseImageTrustRules P (pa_rules acc))) (\<lambda>rules.
     rbind (cosign_pin P rules (pa_cosign acc)) (\<lambda>verifier.
     rbind (root_pin P (pSchemaVersion (pa_policy acc)) rules (pa_root acc)) (\<lambda>root.
       Inr ((pa_policy acc)\<lparr>pAllowedRepositories := sort boundaries, pSigningKeys := keys, pRevoked := revoked,
         pCosignVerifier := verifier, pCosignTrustedRoot := root, pImageTrustRules := rules,
         pFingerprint := hex_encode (Sum256 bytes)\<rparr>)))))))))"

definition parse_policy :: "platform \<Rightarrow> string \<Rightarrow> string \<Rightarrow> instant \<Rightarrow> (policy_error, policy) result" where
  "parse_policy P path bytes now = (case scan_lines bytes of (ls, too_long) \<Rightarrow>
     rbind (policy_lines too_long 1 ls (start_acc path)) (finish_policy P bytes now))"

text \<open>
  \<open>loadAt\<close>, over what the system reports: the result of \<open>Lstat\<close> (regular or not), of the
  ownership check and of reading the file. A missing file is the unmanaged policy.
\<close>

definition loadAt ::
    "platform \<Rightarrow> (string \<Rightarrow> bool io) \<Rightarrow> (string \<Rightarrow> bool) \<Rightarrow> (string \<Rightarrow> string option) \<Rightarrow> string \<Rightarrow> instant
      \<Rightarrow> (policy_error, policy) result" where
  "loadAt P lstat owned readFile path now = (case lstat path of
     Absent \<Rightarrow> Inr zero_policy
   | Failed \<Rightarrow> Inl Err_Unreadable
   | Got regular \<Rightarrow>
     (if \<not> regular then Inl Err_Ownership
      else if \<not> owned path then Inl Err_Ownership
      else (case readFile path of
          None \<Rightarrow> Inl Err_Unreadable
        | Some bytes \<Rightarrow> parse_policy P path bytes now)))"

end
