(* ===== verification/Evaluation.thy ===== *)
theory Evaluation
  imports Policy "HOL-Library.Code_Target_Nat"
begin

text \<open>
  Code equations for the functions whose recursion is not structural, so that the properties can
  be applied to concrete texts by \<open>code_simp\<close>: each equation evaluates the test of one round
  before it unfolds the next. \<open>ascii_unicode\<close> is a concrete instance of the Unicode tables.
\<close>

definition ascii_unicode :: unicode where
  "ascii_unicode = \<lparr>uc_lower = (\<lambda>r. r), uc_print = (\<lambda>r. False), uc_same_fold = (\<lambda>r s. r = s)\<rparr>"

definition trim_left_step :: "rune \<times> nat \<Rightarrow> string \<Rightarrow> string" where
  "trim_left_step p s = (if is_space_rune (fst p) then trim_left (drop (snd p) s) else s)"

lemma trim_left_code [code]:
  "trim_left [] = []"
  "trim_left (c # s) = trim_left_step (decode_rune (c # s)) (c # s)"
proof -
  show "trim_left (c # s) = trim_left_step (decode_rune (c # s)) (c # s)"
    by (simp only: trim_left.simps [of "c # s"] trim_left_step_def Let_def case_prod_beta list.distinct simp_thms)
qed simp

definition trim_right_step :: "nat \<Rightarrow> string \<Rightarrow> string" where
  "trim_right_step n t = (if n = 0 then t else trim_right_rev (drop n t))"

lemma trim_right_code [code]:
  "trim_right_rev [] = []"
  "trim_right_rev (c # s) = trim_right_step (last_space_width (c # s)) (c # s)"
proof -
  show "trim_right_rev [] = []" by (simp add: trim_right_rev.simps last_space_width_def)
  show "trim_right_rev (c # s) = trim_right_step (last_space_width (c # s)) (c # s)"
    by (simp only: trim_right_rev.simps [of "c # s"] trim_right_step_def Let_def)
qed

definition runes_step :: "rune \<times> nat \<Rightarrow> string \<Rightarrow> (rune \<times> string) list" where
  "runes_step p s = (fst p, take (snd p) s) # runes (drop (snd p) s)"

lemma runes_code [code]:
  "runes [] = []"
  "runes (c # s) = runes_step (decode_rune (c # s)) (c # s)"
proof -
  obtain r w where rw: "decode_rune (c # s) = (r, w)" by fastforce
  have "1 \<le> w" using decode_rune_width [of "c # s"] rw by simp
  then show "runes (c # s) = runes_step (decode_rune (c # s)) (c # s)"
    by (cases w) (simp_all add: runes.simps(2) rw runes_step_def del: decode_rune.simps)
qed simp

definition array_rest :: "(toml_error, string) result \<Rightarrow> string \<Rightarrow> (toml_error, string list) result" where
  "array_rest r rest = rbind r (\<lambda>v. if rest = [] then Inr [v]
     else if hd rest \<noteq> CHR '','' then Inl Expected_Comma
     else rbind (array_elements (tl rest)) (\<lambda>vs. Inr (v # vs)))"

lemma array_rest_code [code]:
  "array_rest (Inl e) rest = Inl e"
  "array_rest (Inr v) [] = Inr [v]"
  "array_rest (Inr v) (c # cs) =
     (if c = CHR '','' then rbind (array_elements cs) (\<lambda>vs. Inr (v # vs)) else Inl Expected_Comma)"
  by (simp_all add: array_rest_def)

definition array_element :: "nat option \<Rightarrow> string \<Rightarrow> (toml_error, string list) result" where
  "array_element n inner = (case n of None \<Rightarrow> Inl Unterminated_String
     | Some n \<Rightarrow> array_rest (unquote_result (take (n + 2) inner)) (trim_space (drop (n + 2) inner)))"

lemma array_element_code [code]:
  "array_element None inner = Inl Unterminated_String"
  "array_element (Some n) inner =
     array_rest (unquote_result (take (n + 2) inner)) (trim_space (drop (n + 2) inner))"
  by (simp_all add: array_element_def)

definition array_start :: "string \<Rightarrow> (toml_error, string list) result" where
  "array_start inner = (if \<not> has_prefix inner [dq] then Inl Element_Not_Quoted
     else array_element (closing_quote False (tl inner)) inner)"

lemma array_elements_code [code]:
  "array_elements [] = Inr []"
  "array_elements (c # s) = array_start (trim_space (c # s))"
proof -
  show "array_elements [] = Inr []" by (simp add: array_elements.simps)
  show "array_elements (c # s) = array_start (trim_space (c # s))"
    by (simp add: array_elements.simps [of "c # s"] array_start_def array_element_def array_rest_def Let_def
        split: option.splits)
qed

definition digits_step :: "bool \<Rightarrow> nat \<Rightarrow> string" where
  "digits_step small n = (if small then [byte (48 + n)] else digits_of_nat (n div 10) @ [byte (48 + n mod 10)])"

lemma digits_step_code [code]:
  "digits_step True n = [byte (48 + n)]"
  "digits_step False n = digits_of_nat (n div 10) @ [byte (48 + n mod 10)]"
  by (simp_all add: digits_step_def)

lemma digits_of_nat_code [code]: "digits_of_nat n = digits_step (n < 10) n"
  by (subst digits_of_nat.simps) (simp add: digits_step_def)

end
