(* ===== verification/Registry_Properties.thy ===== *)
theory Registry_Properties
  imports Registry_Defaults Evaluation
begin

text \<open>
  The properties of the configuration syntax and of the tool registry, each applied to a concrete
  registry text by its witness.
\<close>

definition sample_registry_text :: string where
  "sample_registry_text = unlines
     [''schema_version = 2'', ''[defaults.node]'', key_line ''version'' (Quote ascii_unicode ''24''),
      ''[tools.node24]'', key_line ''image'' (Quote ascii_unicode ''node:24''),
      key_line ''default_family'' (Quote ascii_unicode ''node''),
      key_line ''default_version'' (Quote ascii_unicode ''24''),
      key_line ''default_alias'' (Quote ascii_unicode ''node''),
      ''[tools.jq]'', key_line ''image'' (Quote ascii_unicode ''jq:1'')]"

definition sample_node :: tool where
  "sample_node = zero_tool\<lparr>tName := ''node24'', tProvider := ''stateless'', tImage := ''node:24'',
     tDefaultFamily := ''node'', tDefaultVersion := ''24'', tDefaultAlias := ''node''\<rparr>"

definition sample_jq :: tool where
  "sample_jq = zero_tool\<lparr>tName := ''jq'', tProvider := ''stateless'', tImage := ''jq:1''\<rparr>"

definition sample_registry :: registry where
  "sample_registry = \<lparr>SchemaVersion = 2, Tools = [(''node24'', sample_node), (''jq'', sample_jq)],
     Defaults = [(''node'', ''24'')]\<rparr>"

lemma sample_parses: "ParseTOML ascii_unicode sample_registry_text = Inr sample_registry"
  by code_simp

lemma sample_wf: "registry_wf sample_registry"
  by (rule parse_toml_wf [OF sample_parses])

text \<open>C1: a registry text that \<open>ParseTOML\<close> accepts yields a well-formed registry: distinct valid tool
  names, versions and schema version in range, every tool within the rules for its provider, its
  volumes, mounts and modes, and default families that agree.\<close>

theorem parse_toml_well_formed: "ParseTOML U s = Inr reg \<Longrightarrow> registry_wf reg"
  by (rule parse_toml_wf)

theorem parse_toml_well_formed_witness: "registry_wf sample_registry"
  by (rule parse_toml_well_formed [OF sample_parses])

text \<open>C32: \<open>validateDefaults\<close>, with its nested maps filled in iteration order, accepts exactly the
  registries of a specification that mentions no order: metadata complete, aliases distinct from
  tools and families, every version of a family with the same aliases, every family selected.\<close>

theorem validate_defaults_spec: "wf_map (Tools reg) \<Longrightarrow> validateDefaults reg = Inr () \<longleftrightarrow> defaults_spec reg"
  by (rule validate_defaults_iff)

theorem validate_defaults_spec_witness: "defaults_spec sample_registry"
proof -
  have "wf_map (Tools sample_registry)" by code_simp
  from validate_defaults_spec [OF this] show ?thesis using sample_wf by (simp add: registry_wf_def)
qed

text \<open>C29: what a name resolves to: the tool of that name if there is one, and otherwise the one
  tool that supplies it as an alias for the selected version of its family.\<close>

theorem resolve_spec:
  "registry_wf reg \<Longrightarrow> Resolve U reg name = Some (t, c) \<longleftrightarrow>
     (\<exists>t0. resolves_to reg (to_lower U name) c t0 \<and> t = t0\<lparr>tName := to_lower U name\<rparr>)"
  by (rule resolve_iff)

theorem resolve_spec_witness:
  "resolves_to sample_registry (to_lower ascii_unicode ''Node'') ''node24'' sample_node"
proof -
  have "Resolve ascii_unicode sample_registry ''Node'' = Some (sample_node\<lparr>tName := ''node''\<rparr>, ''node24'')"
    by code_simp
  then obtain t0 where "resolves_to sample_registry (to_lower ascii_unicode ''Node'') ''node24'' t0"
    unfolding resolve_spec [OF sample_wf] by blast
  then show ?thesis by (auto simp: resolves_to_def sample_registry_def sample_jq_def split: if_splits)
qed

text \<open>The answers do not depend on the order in which Go walks the maps of a registry: every
  permutation of the tools and of the defaults is well formed, resolves every name the same way
  and lists the same names.\<close>

theorem registry_order_irrelevant:
  assumes "registry_wf reg" "SchemaVersion reg' = SchemaVersion reg"
    and "mset (Tools reg') = mset (Tools reg)" "mset (Defaults reg') = mset (Defaults reg)"
  shows "registry_wf reg' \<and> Resolve U reg' name = Resolve U reg name \<and> ToolNames reg' = ToolNames reg"
  using registry_wf_perm [OF assms] resolve_order [OF assms] tool_names_order [OF assms(3,4)] by blast

theorem registry_order_irrelevant_witness:
  "Resolve ascii_unicode (sample_registry\<lparr>Tools := rev (Tools sample_registry)\<rparr>) ''node'' =
     Resolve ascii_unicode sample_registry ''node''"
  using registry_order_irrelevant [OF sample_wf, of "sample_registry\<lparr>Tools := rev (Tools sample_registry)\<rparr>" ascii_unicode "''node''"]
  by simp

text \<open>\<open>ToolNames\<close> lists exactly the lowercase names that resolve, and lists them sorted and once.\<close>

theorem tool_names_complete:
  assumes "registry_wf reg" "to_lower U name = name"
  shows "(name \<in> set (ToolNames reg) \<longleftrightarrow> Resolve U reg name \<noteq> None) \<and> sorted (ToolNames reg) \<and> distinct (ToolNames reg)"
  using tool_names_resolve [OF assms] by (simp add: ToolNames_def)

theorem tool_names_complete_witness: "''node'' \<in> set (ToolNames sample_registry)"
proof -
  have "to_lower ascii_unicode ''node'' = ''node''" "Resolve ascii_unicode sample_registry ''node'' \<noteq> None" by code_simp+
  with tool_names_complete [OF sample_wf, of ascii_unicode "''node''"] show ?thesis by blast
qed

text \<open>The checks on one tool accept exactly the tools of a declarative specification; in
  particular every host mount parses, has its own target, and none of the targets lies under a
  reserved directory or equals a volume's target.\<close>

theorem validate_tool_spec: "validate_tool t = Inr () \<longleftrightarrow> tool_spec t"
  by (rule validate_tool_iff)

text \<open>A value written on a line is read back: a quoted string, an array of strings and a
  decimal number survive the comment stripping, the trimming, the split at the equals sign and
  the parser of the value, whatever bytes the strings hold.\<close>

theorem value_lines_round_trip:
  assumes "plain_key k" "- (2 ^ 63) \<le> i" "i < 2 ^ 63"
  shows "split_kv (logical (key_line k (Quote U s))) = Some (k, Quote U s) \<and> ParseQuoted (Quote U s) = Inr s
    \<and> split_kv (logical (key_line k (Array U xs))) = Some (k, Array U xs) \<and> ParseStringArray (Array U xs) = Inr xs
    \<and> split_kv (logical (key_line k (itoa i))) = Some (k, itoa i) \<and> atoi (itoa i) = Some i"
proof -
  have i: "- (2 ^ 63) \<le> i \<and> i < 2 ^ 63" using assms(2,3) by simp
  show ?thesis
    using quoted.logical_key_line [OF assms(1)] quoted.split_key_line [OF assms(1)]
      quoted_array.logical_key_line [OF assms(1)] quoted_array.split_key_line [OF assms(1)]
      decimal.logical_key_line [OF assms(1) i] decimal.split_key_line [OF assms(1) i] atoi_itoa [OF assms(2,3)]
    by (simp add: quoted.dec_enc quoted_array.dec_enc)
qed

theorem value_lines_round_trip_witness:
  "split_kv (logical (key_line ''image'' (Quote ascii_unicode [CHR 0x22, CHR ''#'', CHR 0x0A, CHR 0xFF])))
     = Some (''image'', Quote ascii_unicode [CHR 0x22, CHR ''#'', CHR 0x0A, CHR 0xFF])"
  using value_lines_round_trip [of "''image''" 0] by (simp add: plain_key_def key_char_def)

end
