(* ===== verification/Policy_Auth.thy ===== *)
theory Policy_Auth
  imports Policy
begin

text \<open>
  The decisions of \<open>internal/policy/policy.go\<close>: which image may run (\<open>AuthorizeImage\<close>,
  \<open>AuthorizeResolvedImage\<close> with its evidence check), which lock may be produced
  (\<open>AuthorizeLockTarget\<close>, \<open>AuthorizeResolvedLockTarget\<close>), whether a registry is signed
  (\<open>authenticateRegistryEnvelope\<close>) and whether a pinned file is the pinned one
  (\<open>authenticatePinnedFile\<close>).
\<close>

section \<open>Trust rules and repository boundaries\<close>

fun select_rule :: "string \<Rightarrow> image_trust_rule list \<Rightarrow> image_trust_rule option \<Rightarrow> image_trust_rule option" where
  "select_rule repository [] selected = selected"
| "select_rule repository (rule # rules) selected =
     (if repository \<noteq> trRepository rule \<and> \<not> has_prefix repository (trRepository rule @ ''/'')
      then select_rule repository rules selected
      else select_rule repository rules
        (case selected of
           None \<Rightarrow> Some rule
         | Some best \<Rightarrow> (if length (trRepository best) < length (trRepository rule) then Some rule else selected)))"

definition ImageTrustFor :: "unicode \<Rightarrow> policy \<Rightarrow> string \<Rightarrow> (ref_error, image_trust_rule option) result" where
  "ImageTrustFor U p ref =
     rbind (CanonicalRepository U ref) (\<lambda>repository. Inr (select_rule repository (pImageTrustRules p) None))"

datatype repository_denial = Denied_Reference ref_error | Denied_Outside string

definition authorizeRepository :: "unicode \<Rightarrow> policy \<Rightarrow> string \<Rightarrow> (repository_denial, string) result" where
  "authorizeRepository U p ref =
     rbind (map_err Denied_Reference (CanonicalRepository U ref)) (\<lambda>repo.
       if list_ex (\<lambda>allowed. repo = allowed \<or> has_prefix repo (allowed @ ''/'')) (pAllowedRepositories p)
       then Inr repo else Inl (Denied_Outside repo))"

datatype trust_reason =
    Trust_Evidence_Missing
  | Trust_Configured_Invalid ref_error
  | Trust_Resolved_Invalid digest_error
  | Trust_Repository_Differs
  | Trust_Digest_Differs
  | Trust_No_Fingerprint
  | Trust_Policy_Changed
  | Trust_Mechanism_Changed
  | Trust_Network_Mode
  | Trust_No_Root
  | Trust_Verifier_Changed
  | Trust_Keyless_Changed
  | Trust_Key_Changed
  | Trust_Mechanism_Unsupported
  | Trust_Local string
  | Trust_Absent string

datatype denial =
    Lock_Required
  | Local_Image_Denied
  | Repository_Denied repository_denial
  | Resolved_Denied repository_denial
  | Trust_Reference_Denied ref_error
  | Image_Trust_Unverified trust_reason

text \<open>
  The variables \<open>rule\<close>, \<open>trustRequired\<close>, \<open>trustErr\<close> of the source: \<open>ImageTrustFor\<close> is asked only
  when the policy has trust rules.
\<close>

definition trust_lookup :: "unicode \<Rightarrow> policy \<Rightarrow> string \<Rightarrow> (ref_error, image_trust_rule option) result" where
  "trust_lookup U p configured =
     (if pImageTrustRules p \<noteq> [] then ImageTrustFor U p configured else Inr None)"

definition authorize_local :: "policy \<Rightarrow> (ref_error, image_trust_rule option) result \<Rightarrow> (denial, unit) result" where
  "authorize_local p trust = (case trust of
     Inr (Some rule) \<Rightarrow> Inl (Image_Trust_Unverified (Trust_Local (trRepository rule)))
   | _ \<Rightarrow> (if \<not> pAllowLocalImages p then Inl Local_Image_Denied else Inr ()))"

definition check_configured :: "unicode \<Rightarrow> policy \<Rightarrow> string \<Rightarrow> (denial, unit) result" where
  "check_configured U p configured =
     (if pAllowedRepositories p \<noteq> []
      then rbind (map_err Repository_Denied (authorizeRepository U p configured)) (\<lambda>_. Inr ())
      else Inr ())"

definition AuthorizeImage :: "unicode \<Rightarrow> policy \<Rightarrow> string \<Rightarrow> bool \<Rightarrow> bool \<Rightarrow> (denial, unit) result" where
  "AuthorizeImage U p configured locked local =
     (if \<not> Managed p then Inr ()
      else if pRequireLock p \<and> \<not> locked then Inl Lock_Required
      else if local then authorize_local p (trust_lookup U p configured)
      else rbind (check_configured U p configured) (\<lambda>_.
        (case trust_lookup U p configured of
           Inl e \<Rightarrow> Inl (Trust_Reference_Denied e)
         | Inr (Some rule) \<Rightarrow> Inl (Image_Trust_Unverified (Trust_Absent (trRepository rule)))
         | Inr None \<Rightarrow> Inr ())))"

section \<open>Evidence at run time\<close>

definition check_signer :: "image_trust_rule \<Rightarrow> runtime_evidence \<Rightarrow> (trust_reason, unit) result" where
  "check_signer rule ev =
     (if trMechanism rule = ImageTrustKeyless then
        (if reSigner ev \<noteq> trSubject rule \<or> reIssuer ev \<noteq> trIssuer rule then Inl Trust_Keyless_Changed else Inr ())
      else if trMechanism rule = ImageTrustKey then
        (if reSigner ev \<noteq> fpSHA256 (trPublicKey rule) \<or> reIssuer ev \<noteq> [] then Inl Trust_Key_Changed else Inr ())
      else Inl Trust_Mechanism_Unsupported)"

definition authorizeRuntimeImageTrust ::
    "unicode \<Rightarrow> policy \<Rightarrow> string \<Rightarrow> string \<Rightarrow> image_trust_rule \<Rightarrow> runtime_evidence option \<Rightarrow> (trust_reason, unit) result" where
  "authorizeRuntimeImageTrust U p configured resolved rule evidence = (case evidence of
     None \<Rightarrow> Inl Trust_Evidence_Missing
   | Some ev \<Rightarrow>
     rbind (map_err Trust_Configured_Invalid (CanonicalRepository U configured)) (\<lambda>configuredRepository.
     rbind (map_err Trust_Resolved_Invalid (splitResolvedImageDigest U resolved)) (\<lambda>(resolvedRepository, resolvedDigest).
       if configuredRepository \<noteq> resolvedRepository \<or> reRepository ev \<noteq> configuredRepository
       then Inl Trust_Repository_Differs
       else if reDigest ev \<noteq> resolvedDigest then Inl Trust_Digest_Differs
       else if \<not> validSHA256Hex U (pFingerprint p) then Inl Trust_No_Fingerprint
       else if rePolicyFingerprint ev \<noteq> pFingerprint p then Inl Trust_Policy_Changed
       else if reMechanism ev \<noteq> trMechanism rule then Inl Trust_Mechanism_Changed
       else if trNetworkMode rule \<noteq> ImageTrustOnline \<and> trNetworkMode rule \<noteq> ImageTrustOfflineBundle
       then Inl Trust_Network_Mode
       else if trNetworkMode rule = ImageTrustOfflineBundle \<and> \<not> validSHA256Hex U (fpSHA256 (pCosignTrustedRoot p))
       then Inl Trust_No_Root
       else if reVerifier ev \<noteq> ImageTrustVerifierCosign \<or> reVerifierSHA256 ev \<noteq> fpSHA256 (pCosignVerifier p)
       then Inl Trust_Verifier_Changed
       else check_signer rule ev)))"

definition check_resolved :: "unicode \<Rightarrow> policy \<Rightarrow> string \<Rightarrow> (denial, unit) result" where
  "check_resolved U p resolved =
     (if pAllowedRepositories p \<noteq> []
      then rbind (map_err Resolved_Denied (authorizeRepository U p resolved)) (\<lambda>_. Inr ())
      else Inr ())"

definition AuthorizeResolvedImage ::
    "unicode \<Rightarrow> policy \<Rightarrow> string \<Rightarrow> string \<Rightarrow> bool \<Rightarrow> runtime_evidence option \<Rightarrow> (denial, unit) result" where
  "AuthorizeResolvedImage U p configured resolved local evidence =
     (if \<not> Managed p then Inr ()
      else if local then authorize_local p (trust_lookup U p configured)
      else
        rbind (check_configured U p configured) (\<lambda>_.
        rbind (check_resolved U p resolved) (\<lambda>_.
        (case trust_lookup U p configured of
           Inl e \<Rightarrow> Inl (Trust_Reference_Denied e)
         | Inr (Some rule) \<Rightarrow>
             map_err Image_Trust_Unverified (authorizeRuntimeImageTrust U p configured resolved rule evidence)
         | Inr None \<Rightarrow> Inr ()))))"

section \<open>Lock targets\<close>

definition AuthorizeLockTarget :: "unicode \<Rightarrow> policy \<Rightarrow> string \<Rightarrow> bool \<Rightarrow> (denial, unit) result" where
  "AuthorizeLockTarget U p configured local =
     (if \<not> Managed p then Inr ()
      else if local then AuthorizeImage U (p\<lparr>pRequireLock := False\<rparr>) configured True True
      else rbind (check_configured U p configured) (\<lambda>_.
        (case trust_lookup U p configured of Inl e \<Rightarrow> Inl (Trust_Reference_Denied e) | Inr _ \<Rightarrow> Inr ())))"

datatype lock_denial = Configured_Target denial | Resolved_Target denial

definition AuthorizeResolvedLockTarget ::
    "unicode \<Rightarrow> policy \<Rightarrow> string \<Rightarrow> string \<Rightarrow> bool \<Rightarrow> (lock_denial, unit) result" where
  "AuthorizeResolvedLockTarget U p configured resolved local =
     rbind (map_err Configured_Target (AuthorizeLockTarget U p configured local)) (\<lambda>_.
       if local \<or> \<not> Managed p then Inr ()
       else map_err Resolved_Target (AuthorizeLockTarget U p resolved False))"

section \<open>Registry signatures\<close>

record signature_envelope =
  seKeyID :: string
  seSignature :: string

datatype envelope_error =
    Env_Line nat policy_line_reason
  | Env_Line_Integer nat
  | Env_Line_Signature nat
  | Env_Too_Long
  | Env_Version int
  | Env_Algorithm string
  | Env_Key_Id string
  | Env_No_Signature

record envelope_acc =
  ea_envelope :: signature_envelope
  ea_version :: int
  ea_algorithm :: string
  ea_seen :: "string list"

definition envelope_key :: "nat \<Rightarrow> string \<Rightarrow> string \<Rightarrow> envelope_acc \<Rightarrow> (envelope_error, envelope_acc) result" where
  "envelope_key n key value acc =
     (let quoted = map_err (\<lambda>e. Env_Line n (PLine_Value key e)) (ParseQuoted value) in
      if key = ''signature_version'' then
        (case atoi value of None \<Rightarrow> Inl (Env_Line_Integer n) | Some v \<Rightarrow> Inr (acc\<lparr>ea_version := v\<rparr>))
      else if key = ''algorithm'' then rbind quoted (\<lambda>v. Inr (acc\<lparr>ea_algorithm := v\<rparr>))
      else if key = ''key_id'' then rbind quoted (\<lambda>v. Inr (acc\<lparr>ea_envelope := (ea_envelope acc)\<lparr>seKeyID := v\<rparr>\<rparr>))
      else if key = ''signature'' then rbind quoted (\<lambda>v.
        (case b64_canonical v of
           Some decoded \<Rightarrow>
             (if length decoded = ed25519_signature_size
              then Inr (acc\<lparr>ea_envelope := (ea_envelope acc)\<lparr>seSignature := decoded\<rparr>\<rparr>)
              else Inl (Env_Line_Signature n))
         | None \<Rightarrow> Inl (Env_Line_Signature n)))
      else Inl (Env_Line n (PLine_Unsupported key)))"

definition envelope_line :: "nat \<times> string \<Rightarrow> envelope_acc \<Rightarrow> (envelope_error, envelope_acc) result" where
  "envelope_line entry acc =
     (let n = fst entry; line = logical (snd entry) in
      if line = [] then Inr acc
      else (case ParseSectionHeader line of
          Inl e \<Rightarrow> Inl (Env_Line n (PLine_Header e))
        | Inr (Some sec) \<Rightarrow> Inl (Env_Line n (PLine_Section sec))
        | Inr None \<Rightarrow> (case split_kv line of
            None \<Rightarrow> Inl (Env_Line n PLine_Key_Value)
          | Some (key, value) \<Rightarrow>
            (if key \<in> set (ea_seen acc) then Inl (Env_Line n (PLine_Duplicate key))
             else envelope_key n key value (acc\<lparr>ea_seen := key # ea_seen acc\<rparr>)))))"

definition empty_envelope :: envelope_acc where
  "empty_envelope = \<lparr>ea_envelope = \<lparr>seKeyID = [], seSignature = []\<rparr>, ea_version = 0, ea_algorithm = [], ea_seen = []\<rparr>"

definition parseRegistrySignatureEnvelope :: "string \<Rightarrow> (envelope_error, signature_envelope) result" where
  "parseRegistrySignatureEnvelope raw = (case scan_lines raw of (ls, too_long) \<Rightarrow>
     rbind (fold_result envelope_line (enumerate 1 ls) empty_envelope) (\<lambda>acc.
       if too_long then Inl Env_Too_Long
       else if ea_version acc \<noteq> 1 then Inl (Env_Version (ea_version acc))
       else if ea_algorithm acc \<noteq> ''ed25519'' then Inl (Env_Algorithm (ea_algorithm acc))
       else if \<not> validRegistryKeyID (seKeyID (ea_envelope acc)) then Inl (Env_Key_Id (seKeyID (ea_envelope acc)))
       else if length (seSignature (ea_envelope acc)) \<noteq> ed25519_signature_size then Inl Env_No_Signature
       else Inr (ea_envelope acc)))"

datatype signature_denial =
    Signature_Missing
  | Signature_Envelope envelope_error
  | Signer_Unauthorized string
  | Signer_Inactive string
  | Signature_Invalid string
  | Signature_File

definition authenticateRegistryEnvelope ::
    "platform \<Rightarrow> policy \<Rightarrow> string \<Rightarrow> string \<Rightarrow> instant \<Rightarrow> (signature_denial, unit) result" where
  "authenticateRegistryEnvelope P p exactBytes envelope now =
     rbind (map_err Signature_Envelope (parseRegistrySignatureEnvelope envelope)) (\<lambda>parsed.
       let kid = seKeyID parsed in
       (case map_of (pSigningKeys p) kid of
          None \<Rightarrow> Inl (Signer_Unauthorized kid)
        | Some key \<Rightarrow>
          (if kid \<in> set (pRevoked p) then Inl (Signer_Unauthorized kid)
           else if before now (instant_of (skNotBefore key)) \<or> \<not> before now (instant_of (skExpiresAt key))
           then Inl (Signer_Inactive kid)
           else if \<not> pf_ed25519 P (skPublicKey key) exactBytes (seSignature parsed)
           then Inl (Signature_Invalid kid) else Inr ())))"

text \<open>\<open>None\<close> for the bytes or the envelope is Go's nil slice: the file is absent.\<close>

definition AuthenticateRegistrySnapshot ::
    "platform \<Rightarrow> policy \<Rightarrow> string option \<Rightarrow> string option \<Rightarrow> instant \<Rightarrow> (signature_denial, unit) result" where
  "AuthenticateRegistrySnapshot P p exactBytes envelope now =
     (if \<not> pRequireRegistrySignature p then Inr ()
      else (case exactBytes of
          None \<Rightarrow> Inl Signature_Missing
        | Some bytes \<Rightarrow> (case envelope of
            None \<Rightarrow> Inl Signature_Missing
          | Some sig \<Rightarrow> authenticateRegistryEnvelope P p bytes sig now)))"

definition max_signature_file :: nat where "max_signature_file = 16384"

text \<open>
  \<open>LoadRegistrySignature\<close> over what the system reports of the detached file: its \<open>Lstat\<close> and the
  bytes read from it, at most one more than the limit.
\<close>

definition LoadRegistrySignature ::
    "platform \<Rightarrow> policy \<Rightarrow> file_info io \<Rightarrow> string option \<Rightarrow> string option \<Rightarrow> instant
      \<Rightarrow> (signature_denial, string option) result" where
  "LoadRegistrySignature P p info readRaw exactBytes now = (case exactBytes of
     None \<Rightarrow> (if pRequireRegistrySignature p then Inl Signature_Missing else Inr None)
   | Some bytes \<Rightarrow> (case info of
       Absent \<Rightarrow> (if pRequireRegistrySignature p then Inl Signature_Missing else Inr None)
     | Failed \<Rightarrow> Inl Signature_File
     | Got i \<Rightarrow>
       (if \<not> fiRegular i then Inl Signature_File
        else if fiSize i = 0 \<or> max_signature_file < fiSize i then Inl Signature_File
        else (case readRaw of
            None \<Rightarrow> Inl Signature_File
          | Some raw0 \<Rightarrow>
            (let raw = take (max_signature_file + 1) raw0 in
             if length raw \<noteq> fiSize i \<or> max_signature_file < length raw then Inl Signature_File
             else rbind (AuthenticateRegistrySnapshot P p (Some bytes) (Some raw) now) (\<lambda>_. Inr (Some raw)))))))"

definition AuthenticateRegistry ::
    "platform \<Rightarrow> policy \<Rightarrow> file_info io \<Rightarrow> string option \<Rightarrow> string option \<Rightarrow> instant \<Rightarrow> (signature_denial, unit) result" where
  "AuthenticateRegistry P p info readRaw exactBytes now =
     (if \<not> pRequireRegistrySignature p then Inr ()
      else rbind (LoadRegistrySignature P p info readRaw exactBytes now) (\<lambda>_. Inr ()))"

definition AuthorizeRegistryMutation :: "policy \<Rightarrow> bool" where
  "AuthorizeRegistryMutation p = (\<not> pRequireRegistrySignature p)"

section \<open>Pinned files\<close>

datatype pin_denial =
    Pin_Inspect
  | Pin_Irregular
  | Pin_Size
  | Pin_Open
  | Pin_Changed_Before
  | Pin_Read
  | Pin_Changed_Size
  | Pin_Reinspect
  | Pin_Changed_While
  | Pin_Mismatch string

text \<open>
  What \<open>authenticatePinnedFile\<close> observes, in order: \<open>Lstat\<close>, the opened file's \<open>Stat\<close>, the bytes
  read (\<open>None\<close> for an error of reading or closing), and the second \<open>Lstat\<close>.
\<close>

record pin_observation =
  poInfo :: "file_info option"
  poOpened :: "file_info option"
  poContents :: "string option"
  poPost :: "file_info option"

definition authenticatePinnedFile :: "file_pin \<Rightarrow> nat \<Rightarrow> pin_observation \<Rightarrow> (pin_denial, string \<times> string) result" where
  "authenticatePinnedFile pin maxSize ob = (case poInfo ob of
     None \<Rightarrow> Inl Pin_Inspect
   | Some info \<Rightarrow>
     (if fiSymlink info \<or> \<not> fiRegular info then Inl Pin_Irregular
      else if fiSize info = 0 \<or> maxSize < fiSize info then Inl Pin_Size
      else (case poOpened ob of
          None \<Rightarrow> Inl Pin_Open
        | Some opened \<Rightarrow>
          (if \<not> fiRegular opened \<or> \<not> same_file info opened then Inl Pin_Changed_Before
           else (case poContents ob of
               None \<Rightarrow> Inl Pin_Read
             | Some bytes \<Rightarrow>
               (let contents = take (maxSize + 1) bytes; n = length contents in
                if n \<noteq> fiSize info \<or> n \<noteq> fiSize opened \<or> maxSize < n then Inl Pin_Changed_Size
                else (case poPost ob of
                    None \<Rightarrow> Inl Pin_Reinspect
                  | Some post \<Rightarrow>
                    (if fiSymlink post \<or> \<not> fiRegular post \<or> \<not> same_file info post \<or> fiSize post \<noteq> n
                     then Inl Pin_Changed_While
                     else (let digest = hex_encode (Sum256 contents) in
                       if digest \<noteq> fpSHA256 pin then Inl (Pin_Mismatch digest)
                       else Inr (contents, digest))))))))))"

datatype material_denial =
    Material_Unconfigured
  | Material_Reference ref_error
  | Material_No_Rule
  | Material_Keyless
  | Material_Pin pin_denial

definition AuthenticateCosignVerifier :: "policy \<Rightarrow> (string \<Rightarrow> pin_observation) \<Rightarrow> (material_denial, string \<times> string) result" where
  "AuthenticateCosignVerifier p ob =
     (if fpPath (pCosignVerifier p) = [] then Inl Material_Unconfigured
      else map_err Material_Pin
        (authenticatePinnedFile (pCosignVerifier p) (256 * 2 ^ 20) (ob (fpPath (pCosignVerifier p)))))"

definition AuthenticateImageTrustTrustedRoot ::
    "policy \<Rightarrow> (string \<Rightarrow> pin_observation) \<Rightarrow> (material_denial, string \<times> string) result" where
  "AuthenticateImageTrustTrustedRoot p ob =
     (if fpPath (pCosignTrustedRoot p) = [] then Inl Material_Unconfigured
      else map_err Material_Pin
        (authenticatePinnedFile (pCosignTrustedRoot p) (4 * 2 ^ 20) (ob (fpPath (pCosignTrustedRoot p)))))"

definition AuthenticateImageTrustPublicKey ::
    "unicode \<Rightarrow> policy \<Rightarrow> (string \<Rightarrow> pin_observation) \<Rightarrow> string \<Rightarrow> (material_denial, string \<times> string) result" where
  "AuthenticateImageTrustPublicKey U p ob ref =
     rbind (map_err Material_Reference (ImageTrustFor U p ref)) (\<lambda>found. (case found of
        None \<Rightarrow> Inl Material_No_Rule
      | Some rule \<Rightarrow>
        (if trMechanism rule \<noteq> ImageTrustKey then Inl Material_Keyless
         else map_err Material_Pin
           (authenticatePinnedFile (trPublicKey rule) (2 ^ 20) (ob (fpPath (trPublicKey rule)))))))"

end
