(* ===== verification/Policy_Facts.thy ===== *)
theory Policy_Facts
  imports Policy
begin

text \<open>
  What a parsed policy satisfies (\<open>policy_wf\<close>): canonical boundaries without duplicates, one rule
  per repository with complete material, signing keys with distinct ids and distinct public
  keys, controls that are not empty, and a policy that has not expired. \<open>timestamp_iff\<close>
  characterises the timestamps of the key windows.
\<close>

section \<open>Timestamps\<close>

lemma year_bound:
  assumes "parse_rfc3339 s = Some t"
  shows "gYear t \<le> 9999"
proof -
  have b: "nat_of_digits ds < 10 ^ length ds" if "list_all is_digit ds" for ds
    using that
  proof (induction ds rule: rev_induct)
    case Nil
    then show ?case by (simp add: nat_of_digits_def)
  next
    case (snoc c ds)
    then have "digit_value c \<le> 9" by (auto simp: digit_value_def is_digit_def)
    with snoc show ?case by (simp add: nat_of_digits_snoc)
  qed
  from assms obtain y r where "year4 s = Some (y, r)" "gYear t = y"
    by (auto simp: parse_rfc3339_def bind_eq_Some_conv split: if_splits)
  then show ?thesis using b [of "take 4 s"] by (auto simp: year4_def split: if_splits)
qed

lemma timestamp_iff: "parsePolicyTimestamp raw = Some t \<longleftrightarrow> raw = format_utc t \<and> utc_second t"
proof
  assume "parsePolicyTimestamp raw = Some t"
  then have p: "parse_rfc3339 raw = Some t" and f: "format_utc t = raw"
    by (auto simp: parsePolicyTimestamp_def split: if_splits option.splits)
  let ?t = "t\<lparr>gNsec := 0, gZone := None\<rparr>"
  have "utc_second ?t" using parse_ranges [OF p] year_bound [OF p] by (simp add: utc_second_def)
  moreover have "format_utc ?t = raw" using f by (simp add: format_utc_def)
  ultimately have "parse_rfc3339 raw = Some ?t" using parse_format [of ?t] by simp
  with p have "t = ?t" by simp
  with \<open>utc_second ?t\<close> have "utc_second t" by simp
  with f show "raw = format_utc t \<and> utc_second t" by simp
next
  assume t: "raw = format_utc t \<and> utc_second t"
  have "has_suffix (format_utc t) ''Z''" by (simp add: format_utc_def has_suffix_def)
  with t parse_format show "parsePolicyTimestamp raw = Some t" by (simp add: parsePolicyTimestamp_def)
qed

section \<open>The parsed policy\<close>

definition pin_ok :: "platform \<Rightarrow> file_pin \<Rightarrow> bool" where
  "pin_ok P pin \<longleftrightarrow> fpPath pin \<noteq> [] \<and> valid_utf8 (fpPath pin) \<and> pf_is_abs P (fpPath pin)
     \<and> pf_clean P (fpPath pin) = fpPath pin \<and> \<not> containsControl (fpPath pin)
     \<and> validSHA256Hex (pf_unicode P) (fpSHA256 pin)"

lemma parse_pin_ok: "parseFilePin P name path digest = Inr pin \<longleftrightarrow>
     pin = \<lparr>fpPath = path, fpSHA256 = digest\<rparr> \<and> pin_ok P pin"
  by (auto simp: parseFilePin_def pin_ok_def validSHA256Hex_def)

definition rule_ok :: "platform \<Rightarrow> image_trust_rule \<Rightarrow> bool" where
  "rule_ok P r \<longleftrightarrow> canonical_boundary (trRepository r) \<and> trNetworkMode r \<in> {ImageTrustOnline, ImageTrustOfflineBundle}
     \<and> ((trMechanism r = ImageTrustKeyless \<and> https_issuer P (trIssuer r) = Inr () \<and> bounded_text (trSubject r)
          \<and> trPublicKey r = no_pin)
        \<or> (trMechanism r = ImageTrustKey \<and> trIssuer r = [] \<and> trSubject r = [] \<and> pin_ok P (trPublicKey r)))"

lemma mechanisms_differ [simp]: "ImageTrustKeyless \<noteq> ImageTrustKey" "ImageTrustKey \<noteq> ImageTrustKeyless"
  "ImageTrustOnline \<noteq> ImageTrustOfflineBundle"
  by (simp_all add: ImageTrustKeyless_def ImageTrustKey_def ImageTrustOnline_def ImageTrustOfflineBundle_def)

lemma rule_material_ok:
  assumes "rule_material P repo parts = Inr r" "mode \<in> {ImageTrustOnline, ImageTrustOfflineBundle}" "canonical_boundary repo"
  shows "rule_ok P (r\<lparr>trNetworkMode := mode\<rparr>) \<and> trRepository r = repo"
  using assms
  by (auto simp: rule_material_def Let_def rule_ok_def rbind_Inr_iff parse_pin_ok validateImageTrustIssuer_def
      validateImageTrustSubject_def split: if_splits)

definition rules_ok :: "platform \<Rightarrow> image_trust_rule list \<Rightarrow> bool" where
  "rules_ok P rules \<longleftrightarrow> list_all (rule_ok P) rules \<and> distinct (map trRepository rules)"

lemma parse_trust_rule_ok:
  assumes "parse_trust_rule P spec rules = Inr rules'" "rules_ok P rules"
  shows "rules_ok P rules'"
proof -
  let ?parts = "split_byte spec CHR ''|''"
  from assms(1) obtain repo rule where
    r: "canonicalRule (pf_unicode P) (?parts ! 0) = Inr repo" "repo \<notin> set (map trRepository rules)"
    "rule_material P repo ?parts = Inr rule" "?parts ! 4 \<in> {ImageTrustOnline, ImageTrustOfflineBundle}"
    "rules' = rules @ [rule\<lparr>trNetworkMode := ?parts ! 4\<rparr>]"
    by (auto simp: parse_trust_rule_def Let_def rbind_Inr_iff split: if_splits)
  from rule_material_ok [OF r(3,4) canonical_rule_shape [OF r(1)]] r(2,5) assms(2)
  show ?thesis by (auto simp: rules_ok_def list_all_iff)
qed

lemma parse_rules_ok:
  assumes "parseImageTrustRules P specs = Inr rules"
  shows "rules_ok P rules" "sorted (map trRepository rules)" "length rules = length specs"
proof -
  from assms obtain rs where rs: "fold_result (parse_trust_rule P) specs [] = Inr rs" "rules = sort_key trRepository rs"
    by (auto simp: parseImageTrustRules_def rbind_Inr_iff)
  have "rules_ok P []" by (simp add: rules_ok_def)
  then have "rules_ok P rs" by (rule fold_result_invariant [OF rs(1)]) (rule parse_trust_rule_ok)
  then show "rules_ok P rules"
    using rs(2) by (auto simp: rules_ok_def list_all_iff distinct_map)
  show "sorted (map trRepository rules)" using rs(2) by simp
  have "length rs = length xs + length (acc :: image_trust_rule list)"
    if "fold_result (parse_trust_rule P) xs acc = Inr rs" for xs acc
    using that
  proof (induction xs arbitrary: acc)
    case Nil
    then show ?case by simp
  next
    case (Cons x xs)
    from Cons.prems obtain a where a: "parse_trust_rule P x acc = Inr a" "fold_result (parse_trust_rule P) xs a = Inr rs"
      by (auto simp: rbind_Inr_iff)
    from a(1) have "length a = Suc (length acc)"
      by (auto simp: parse_trust_rule_def Let_def rbind_Inr_iff split: if_splits)
    with Cons.IH [OF a(2)] show ?case by simp
  qed
  from this [OF rs(1)] rs(2) show "length rules = length specs" by simp
qed

definition key_ok :: "signing_key \<Rightarrow> bool" where
  "key_ok k \<longleftrightarrow> length (skPublicKey k) = ed25519_key_size \<and> utc_second (skNotBefore k) \<and> utc_second (skExpiresAt k)
     \<and> before (instant_of (skNotBefore k)) (instant_of (skExpiresAt k))"

definition keys_ok :: "(string, signing_key) gomap \<Rightarrow> bool" where
  "keys_ok keys \<longleftrightarrow> wf_map keys \<and> (\<forall>e \<in> set keys. validRegistryKeyID (fst e) \<and> key_ok (snd e))
     \<and> distinct (map (\<lambda>e. skPublicKey (snd e)) keys)"

definition key_state_ok :: "key_state \<Rightarrow> bool" where
  "key_state_ok st \<longleftrightarrow> keys_ok (fst st)
     \<and> (\<forall>e \<in> set (fst st). mhas (snd st) (b64_encode (skPublicKey (snd e))))"

lemma parse_signing_key_ok:
  assumes "parse_signing_key spec st = Inr st'" "key_state_ok st"
  shows "key_state_ok st'"
proof -
  from assms(1) obtain kid decoded nb ex where
    k: "validRegistryKeyID kid" "\<not> mhas (fst st) kid" "length decoded = ed25519_key_size"
    "map_of (snd st) (b64_encode decoded) = None"
    "utc_second nb" "utc_second ex" "before (instant_of nb) (instant_of ex)"
    and st': "st' = (mput kid \<lparr>skPublicKey = decoded, skNotBefore = nb, skExpiresAt = ex\<rparr> (fst st),
       mput (b64_encode decoded) kid (snd st))"
    by (auto simp: parse_signing_key_def Let_def timestamp_iff split: if_splits option.splits)
  have new: "decoded \<notin> (\<lambda>e. skPublicKey (snd e)) ` set (fst st)"
    using assms(2) k(4) by (auto simp: key_state_ok_def mhas_iff_map_of)
  show ?thesis using assms(2) k new
    by (auto simp: st' key_state_ok_def keys_ok_def mput_fresh key_ok_def wf_map_def mhas_def)
qed

lemma parse_keys_ok:
  assumes "parseRegistrySigningKeys specs ids = Inr (keys, revoked)"
  shows "keys_ok keys \<and> distinct revoked \<and> list_all validRegistryKeyID revoked"
proof -
  from assms obtain st where st: "fold_result parse_signing_key specs ([], []) = Inr st" "keys = fst st"
    and rv: "fold_result parse_revoked ids [] = Inr revoked"
    by (auto simp: parseRegistrySigningKeys_def rbind_Inr_iff)
  have "key_state_ok ([], [])" by (simp add: key_state_ok_def keys_ok_def)
  then have "key_state_ok st" by (rule fold_result_invariant [OF st(1)]) (rule parse_signing_key_ok)
  moreover have "distinct revoked \<and> list_all validRegistryKeyID revoked" using rv
    by (rule fold_result_invariant) (auto simp: parse_revoked_def split: if_splits)
  ultimately show ?thesis using st(2) by (simp add: key_state_ok_def)
qed

definition policy_wf :: "platform \<Rightarrow> instant \<Rightarrow> policy \<Rightarrow> bool" where
  "policy_wf P now p \<longleftrightarrow> 1 \<le> pSchemaVersion p \<and> pSchemaVersion p \<le> PolicyMaxSchemaVersion
     \<and> sorted (pAllowedRepositories p) \<and> distinct (pAllowedRepositories p)
     \<and> list_all canonical_boundary (pAllowedRepositories p)
     \<and> rules_ok P (pImageTrustRules p) \<and> sorted (map trRepository (pImageTrustRules p))
     \<and> keys_ok (pSigningKeys p) \<and> distinct (pRevoked p) \<and> list_all validRegistryKeyID (pRevoked p)
     \<and> (pRequireLock p \<or> pAllowedRepositories p \<noteq> [] \<or> pRequireRegistrySignature p \<or> pImageTrustRules p \<noteq> [])
     \<and> (\<forall>t. pExpiresAt p = Some t \<longrightarrow> before now (instant_of t))
     \<and> (pRequireRegistrySignature p \<longrightarrow>
          (\<exists>e \<in> set (pSigningKeys p). fst e \<notin> set (pRevoked p) \<and> key_active now (snd e)))
     \<and> (pImageTrustRules p \<noteq> [] \<longrightarrow> pin_ok P (pCosignVerifier p))
     \<and> ((\<exists>r \<in> set (pImageTrustRules p). trNetworkMode r = ImageTrustOfflineBundle) \<and> 4 \<le> pSchemaVersion p
          \<longrightarrow> pin_ok P (pCosignTrustedRoot p))
     \<and> validSHA256Hex (pf_unicode P) (pFingerprint p)"

lemma add_boundaries:
  assumes "fold_result (add_boundary U) rules [] = Inr bs'"
  shows "distinct bs' \<and> list_all canonical_boundary bs' \<and> (bs' = [] \<longleftrightarrow> rules = [])"
proof -
  have "distinct bs' \<and> list_all canonical_boundary bs'" using assms
    by (rule fold_result_invariant)
      (auto simp: add_boundary_def rbind_Inr_iff list_all_iff dest: canonical_rule_shape split: if_splits)
  moreover have "bs' \<noteq> []" if "fold_result (add_boundary U) xs acc = Inr bs'" "acc \<noteq> [] \<or> xs \<noteq> []" for xs acc
    using that
  proof (induction xs arbitrary: acc)
    case Nil
    then show ?case by simp
  next
    case (Cons x xs)
    from Cons.prems obtain a where a: "add_boundary U x acc = Inr a" "fold_result (add_boundary U) xs a = Inr bs'"
      by (auto simp: rbind_Inr_iff)
    from a(1) have "a \<noteq> []" by (auto simp: add_boundary_def rbind_Inr_iff split: if_splits)
    with Cons.IH [OF a(2)] show ?case by simp
  qed
  from this [OF assms] have "bs' = [] \<Longrightarrow> rules = []" by blast
  moreover have "rules = [] \<Longrightarrow> bs' = []" using assms by simp
  ultimately show ?thesis by blast
qed

lemma fingerprint_ok: "validSHA256Hex U (hex_encode (Sum256 s))"
proof -
  have h: "list_all hex_char (hex_encode (Sum256 s))" using hex_encode_chars Sum256_bound by blast
  then have "list_all (\<lambda>c. unhex c \<noteq> None) (hex_encode (Sum256 s))"
    using hex_char_decodable by (auto simp: list_all_iff)
  then show ?thesis using h by (simp add: validSHA256Hex_def hex_char_lower hex_decodable_def)
qed

lemma finish_policy_wf:
  assumes "finish_policy P bytes now acc = Inr p"
  shows "policy_wf P now p"
proof -
  let ?U = "pf_unicode P"
  from assms obtain bnds keys revoked rules verifier root where
    v: "check_versions acc = Inr ()" and c: "check_controls now acc = Inr ()"
    and bn: "fold_result (add_boundary ?U) (pAllowedRepositories (pa_policy acc)) [] = Inr bnds"
    and ks: "parseRegistrySigningKeys (pa_keys acc) (pa_revoked acc) = Inr (keys, revoked)"
    and act: "\<not> (pRequireRegistrySignature (pa_policy acc) \<and> active_keys now keys revoked = 0)"
    and rl: "parseImageTrustRules P (pa_rules acc) = Inr rules"
    and cp: "cosign_pin P rules (pa_cosign acc) = Inr verifier"
    and rp: "root_pin P (pSchemaVersion (pa_policy acc)) rules (pa_root acc) = Inr root"
    and p: "p = (pa_policy acc)\<lparr>pAllowedRepositories := sort bnds, pSigningKeys := keys, pRevoked := revoked,
         pCosignVerifier := verifier, pCosignTrustedRoot := root, pImageTrustRules := rules,
         pFingerprint := hex_encode (Sum256 bytes)\<rparr>"
    unfolding finish_policy_def by (auto simp: rbind_Inr_iff split: if_splits)
  have ver: "1 \<le> pSchemaVersion p" "pSchemaVersion p \<le> PolicyMaxSchemaVersion"
    using v by (auto simp: p check_versions_def Let_def split: if_splits)
  have exp: "\<forall>t. pExpiresAt p = Some t \<longrightarrow> before now (instant_of t)"
    and ctl: "pRequireLock p \<or> pAllowedRepositories (pa_policy acc) \<noteq> [] \<or> pRequireRegistrySignature p \<or> pa_rules acc \<noteq> []"
    using c by (auto simp: p check_controls_def Let_def split: if_splits option.splits)
  have b: "sorted (pAllowedRepositories p)" "distinct (pAllowedRepositories p)"
    "list_all canonical_boundary (pAllowedRepositories p)"
    "pAllowedRepositories p = [] \<longleftrightarrow> pAllowedRepositories (pa_policy acc) = []"
    using add_boundaries [OF bn] by (auto simp: p list_all_iff) (metis set_sort set_empty)+
  have k: "keys_ok (pSigningKeys p)" "distinct (pRevoked p)" "list_all validRegistryKeyID (pRevoked p)"
    using parse_keys_ok [OF ks] by (simp_all add: p)
  have a: "pRequireRegistrySignature p \<longrightarrow>
      (\<exists>e \<in> set (pSigningKeys p). fst e \<notin> set (pRevoked p) \<and> key_active now (snd e))"
    using act by (auto simp: p active_keys_def filter_empty_conv)
  have r: "rules_ok P (pImageTrustRules p)" "sorted (map trRepository (pImageTrustRules p))"
    "pImageTrustRules p = [] \<longleftrightarrow> pa_rules acc = []"
    using parse_rules_ok [OF rl] by (auto simp: p)
  have pin: "pImageTrustRules p \<noteq> [] \<longrightarrow> pin_ok P (pCosignVerifier p)"
    using cp by (auto simp: p cosign_pin_def parse_pin_ok split: if_splits)
  have root: "(\<exists>r \<in> set (pImageTrustRules p). trNetworkMode r = ImageTrustOfflineBundle) \<and> 4 \<le> pSchemaVersion p
          \<longrightarrow> pin_ok P (pCosignTrustedRoot p)"
    using rp by (auto simp: p root_pin_def offline_rules_def parse_pin_ok filter_empty_conv split: if_splits)
  have f: "validSHA256Hex (pf_unicode P) (pFingerprint p)" using fingerprint_ok by (simp add: p)
  show ?thesis unfolding policy_wf_def
    using ver b(1,2,3) r(1,2) k ctl b(4) r(3) exp a pin root f by blast
qed

lemma parse_policy_wf: "parse_policy P path bytes now = Inr p \<Longrightarrow> policy_wf P now p"
  by (auto simp: parse_policy_def rbind_Inr_iff split: prod.splits intro: finish_policy_wf)

end
