(* ===== verification/Policy_Auth_Facts.thy ===== *)
theory Policy_Auth_Facts
  imports Policy_Auth Policy_Facts
begin

text \<open>
  What the decisions of \<open>Policy_Auth\<close> mean: the selected trust rule is the innermost boundary
  around the repository, an authorized image satisfies a declarative condition on its
  repository and its evidence, whatever may run may be locked, an authentic registry signature
  comes from an active key, and an accepted pinned file has the pinned digest.
\<close>

section \<open>The most specific trust rule\<close>

definition covers :: "string \<Rightarrow> image_trust_rule \<Rightarrow> bool" where
  "covers repository rule \<longleftrightarrow> inside repository (trRepository rule)"

definition longest :: "string \<Rightarrow> image_trust_rule set \<Rightarrow> image_trust_rule \<Rightarrow> bool" where
  "longest repository rules rule \<longleftrightarrow> rule \<in> rules \<and> covers repository rule
     \<and> (\<forall>r \<in> rules. covers repository r \<longrightarrow> length (trRepository r) \<le> length (trRepository rule))"

lemma select_rule_covers:
  "select_rule repo (rule # rules) sel = select_rule repo rules (if covers repo rule then
     (case sel of None \<Rightarrow> Some rule | Some best \<Rightarrow>
        (if length (trRepository best) < length (trRepository rule) then Some rule else sel)) else sel)"
  by (auto simp: covers_def inside_def)

fun best_of :: "string \<Rightarrow> image_trust_rule set \<Rightarrow> image_trust_rule option \<Rightarrow> bool" where
  "best_of repo S None = (\<forall>r \<in> S. \<not> covers repo r)"
| "best_of repo S (Some best) = longest repo S best"

lemma select_rule_longest: "best_of repo S sel \<Longrightarrow> best_of repo (S \<union> set rules) (select_rule repo rules sel)"
proof (induction rules arbitrary: sel S)
  case Nil
  then show ?case by simp
next
  case (Cons rule rules)
  let ?sel = "if covers repo rule then (case sel of None \<Rightarrow> Some rule | Some best \<Rightarrow>
        (if length (trRepository best) < length (trRepository rule) then Some rule else sel)) else sel"
  have "best_of repo (insert rule S) ?sel"
  proof (cases "covers repo rule")
    case False
    with Cons.prems show ?thesis by (cases sel) (auto simp: longest_def)
  next
    case True
    show ?thesis
    proof (cases sel)
      case None
      with Cons.prems True show ?thesis by (auto simp: longest_def)
    next
      case (Some best)
      with Cons.prems True show ?thesis
        by (cases "length (trRepository best) < length (trRepository rule)") (fastforce simp: longest_def)+
    qed
  qed
  from Cons.IH [OF this] show ?case unfolding select_rule_covers by (simp del: select_rule.simps)
qed

lemma select_rule_cases: "best_of repo (set rules) (select_rule repo rules None)"
  using select_rule_longest [where sel = None and S = "{}" and repo = repo and rules = rules] by simp

lemma select_rule_None: "select_rule repo rules None = None \<longleftrightarrow> (\<forall>r \<in> set rules. \<not> covers repo r)"
  using select_rule_cases [where repo = repo and rules = rules] by (cases "select_rule repo rules None") (auto simp: longest_def)

lemma select_rule_Some:
  assumes "distinct (map trRepository rules)"
  shows "select_rule repo rules None = Some rule \<longleftrightarrow> longest repo (set rules) rule"
proof
  assume "select_rule repo rules None = Some rule"
  then show "longest repo (set rules) rule" using select_rule_cases [where repo = repo and rules = rules] by simp
next
  assume l: "longest repo (set rules) rule"
  then obtain best where b: "select_rule repo rules None = Some best"
    using select_rule_None [where repo = repo and rules = rules] by (auto simp: longest_def)
  then have lb: "longest repo (set rules) best" using select_rule_cases [where repo = repo and rules = rules] by simp
  from l lb have len: "length (trRepository rule) = length (trRepository best)"
    by (meson le_antisym longest_def)
  have "prefix (trRepository rule) repo" "prefix (trRepository best) repo"
    using l lb inside_prefix by (auto simp: longest_def covers_def)
  with len have "trRepository rule = trRepository best" by (metis prefix_length_prefix prefix_order.antisym order_refl)
  with l lb assms have "rule = best" by (auto simp: longest_def distinct_map inj_on_def)
  with b show "select_rule repo rules None = Some rule" by simp
qed

text \<open>The longest covering boundary lies inside every other covering boundary.\<close>

lemma longest_innermost:
  "longest repo rules rule \<longleftrightarrow> rule \<in> rules \<and> covers repo rule
     \<and> (\<forall>r \<in> rules. covers repo r \<longrightarrow> inside (trRepository rule) (trRepository r))"
  unfolding longest_def covers_def using inside_linear inside_length by blast

lemma trust_for_iff:
  assumes "distinct (map trRepository (pImageTrustRules p))"
  shows "ImageTrustFor U p ref = Inr (Some rule) \<longleftrightarrow>
     (\<exists>repo. CanonicalRepository U ref = Inr repo \<and> longest repo (set (pImageTrustRules p)) rule)"
  by (auto simp: ImageTrustFor_def rbind_Inr_iff select_rule_Some [OF assms])

section \<open>What an authorized image satisfies\<close>

definition within :: "unicode \<Rightarrow> policy \<Rightarrow> string \<Rightarrow> bool" where
  "within U p ref \<longleftrightarrow> (\<exists>repo. CanonicalRepository U ref = Inr repo
     \<and> (\<exists>boundary \<in> set (pAllowedRepositories p). inside repo boundary))"

lemma authorize_repository_ok: "is_ok (authorizeRepository U p ref) \<longleftrightarrow> within U p ref"
  by (cases "CanonicalRepository U ref")
    (auto simp: authorizeRepository_def within_def inside_def list_ex_iff is_ok_def)

lemma check_configured_ok:
  "check_configured U p ref = Inr () \<longleftrightarrow> pAllowedRepositories p = [] \<or> within U p ref"
  using authorize_repository_ok [of U p ref] by (auto simp: check_configured_def is_ok_iff rbind_Inr_iff)

lemma check_resolved_ok:
  "check_resolved U p ref = Inr () \<longleftrightarrow> pAllowedRepositories p = [] \<or> within U p ref"
  using authorize_repository_ok [of U p ref] by (auto simp: check_resolved_def is_ok_iff rbind_Inr_iff)

text \<open>What the evidence of a lock entry has to say about a policy, a rule and a digest.\<close>

definition evidence_binds ::
    "unicode \<Rightarrow> policy \<Rightarrow> image_trust_rule \<Rightarrow> string \<Rightarrow> string \<Rightarrow> runtime_evidence \<Rightarrow> bool" where
  "evidence_binds U p rule configured resolved ev \<longleftrightarrow>
     (\<exists>repo. CanonicalRepository U configured = Inr repo \<and> reRepository ev = repo
        \<and> splitResolvedImageDigest U resolved = Inr (repo, reDigest ev))
     \<and> validSHA256Hex U (pFingerprint p) \<and> rePolicyFingerprint ev = pFingerprint p
     \<and> reVerifier ev = ImageTrustVerifierCosign \<and> reVerifierSHA256 ev = fpSHA256 (pCosignVerifier p)
     \<and> reMechanism ev = trMechanism rule
     \<and> trNetworkMode rule \<in> {ImageTrustOnline, ImageTrustOfflineBundle}
     \<and> (trNetworkMode rule = ImageTrustOfflineBundle \<longrightarrow> validSHA256Hex U (fpSHA256 (pCosignTrustedRoot p)))
     \<and> ((trMechanism rule = ImageTrustKeyless \<and> reSigner ev = trSubject rule \<and> reIssuer ev = trIssuer rule)
        \<or> (trMechanism rule = ImageTrustKey \<and> reSigner ev = fpSHA256 (trPublicKey rule) \<and> reIssuer ev = []))"

lemma check_signer_ok:
  "check_signer rule ev = Inr () \<longleftrightarrow>
     (trMechanism rule = ImageTrustKeyless \<and> reSigner ev = trSubject rule \<and> reIssuer ev = trIssuer rule)
     \<or> (trMechanism rule = ImageTrustKey \<and> reSigner ev = fpSHA256 (trPublicKey rule) \<and> reIssuer ev = [])"
  by (auto simp: check_signer_def)

lemma runtime_trust_iff:
  "authorizeRuntimeImageTrust U p configured resolved rule evidence = Inr () \<longleftrightarrow>
     (\<exists>ev. evidence = Some ev \<and> evidence_binds U p rule configured resolved ev)"
proof (cases evidence)
  case None
  then show ?thesis by (simp add: authorizeRuntimeImageTrust_def)
next
  case (Some ev)
  show ?thesis
  proof (cases "CanonicalRepository U configured")
    case (Inl e)
    then show ?thesis by (simp add: authorizeRuntimeImageTrust_def Some evidence_binds_def)
  next
    case repo: (Inr repo)
    show ?thesis
    proof (cases "splitResolvedImageDigest U resolved")
      case (Inl e)
      then show ?thesis by (simp add: authorizeRuntimeImageTrust_def Some evidence_binds_def repo)
    next
      case (Inr rd)
      obtain r d where rd: "rd = (r, d)" by fastforce
      show ?thesis
        unfolding evidence_binds_def
        by (simp add: authorizeRuntimeImageTrust_def Some repo Inr rd check_signer_ok del: not_ex) (auto simp: check_signer_ok)
    qed
  qed
qed

lemma trust_lookup_cases:
  "trust_lookup U p ref = Inr None \<longleftrightarrow> pImageTrustRules p = [] \<or>
     (\<exists>repo. CanonicalRepository U ref = Inr repo \<and> (\<forall>r \<in> set (pImageTrustRules p). \<not> covers repo r))"
  by (auto simp: trust_lookup_def ImageTrustFor_def rbind_Inr_iff select_rule_None)

lemma authorize_resolved_iff:
  "AuthorizeResolvedImage U p configured resolved False evidence = Inr () \<longleftrightarrow> \<not> Managed p \<or>
     ((pAllowedRepositories p = [] \<or> (within U p configured \<and> within U p resolved)) \<and>
      (case trust_lookup U p configured of
         Inl _ \<Rightarrow> False | Inr None \<Rightarrow> True
       | Inr (Some rule) \<Rightarrow> (\<exists>ev. evidence = Some ev \<and> evidence_binds U p rule configured resolved ev)))"
  by (auto simp: AuthorizeResolvedImage_def rbind_Inr_iff check_configured_ok check_resolved_ok runtime_trust_iff
      split: sum.splits option.splits)

lemma authorize_local_iff:
  "AuthorizeResolvedImage U p configured resolved True evidence = Inr () \<longleftrightarrow> \<not> Managed p \<or>
     (pAllowLocalImages p \<and> (\<forall>rule. trust_lookup U p configured \<noteq> Inr (Some rule)))"
  by (auto simp: AuthorizeResolvedImage_def authorize_local_def split: sum.splits option.splits)

text \<open>Whatever may run may also be locked.\<close>

lemma runtime_implies_lock_target:
  "AuthorizeResolvedImage U p configured resolved local evidence = Inr () \<Longrightarrow>
     AuthorizeLockTarget U p configured local = Inr ()"
  by (auto simp: AuthorizeResolvedImage_def AuthorizeLockTarget_def AuthorizeImage_def Managed_def rbind_Inr_iff
      trust_lookup_def ImageTrustFor_def authorize_local_def split: sum.splits option.splits if_splits)

section \<open>Registry signatures and pinned files\<close>

lemma envelope_authentic_iff:
  "authenticateRegistryEnvelope P p bytes envelope now = Inr () \<longleftrightarrow>
     (\<exists>parsed key. parseRegistrySignatureEnvelope envelope = Inr parsed
        \<and> map_of (pSigningKeys p) (seKeyID parsed) = Some key \<and> seKeyID parsed \<notin> set (pRevoked p)
        \<and> key_active now key \<and> pf_ed25519 P (skPublicKey key) bytes (seSignature parsed))"
  by (auto simp: authenticateRegistryEnvelope_def rbind_Inr_iff Let_def key_active_def split: option.splits)

lemma pinned_file_iff:
  "authenticatePinnedFile pin maxSize ob = Inr (contents, digest) \<longleftrightarrow>
     (\<exists>info opened post bytes. poInfo ob = Some info \<and> poOpened ob = Some opened \<and> poPost ob = Some post
        \<and> poContents ob = Some bytes \<and> contents = bytes
        \<and> fiRegular info \<and> \<not> fiSymlink info \<and> fiRegular opened \<and> fiRegular post \<and> \<not> fiSymlink post
        \<and> fiId opened = fiId info \<and> fiId post = fiId info
        \<and> 0 < length bytes \<and> length bytes \<le> maxSize
        \<and> fiSize info = length bytes \<and> fiSize opened = length bytes \<and> fiSize post = length bytes
        \<and> digest = hex_encode (Sum256 bytes) \<and> fpSHA256 pin = digest)"
  by (auto simp: authenticatePinnedFile_def same_file_def Let_def split: option.splits if_splits)

section \<open>Signed registries\<close>

lemma authenticated_registry:
  assumes "pRequireRegistrySignature p" "AuthenticateRegistry P p info readRaw exactBytes now = Inr ()"
  shows "\<exists>bytes raw parsed key. exactBytes = Some bytes \<and> readRaw = Some raw
     \<and> 0 < length raw \<and> length raw \<le> max_signature_file
     \<and> parseRegistrySignatureEnvelope raw = Inr parsed
     \<and> map_of (pSigningKeys p) (seKeyID parsed) = Some key \<and> seKeyID parsed \<notin> set (pRevoked p)
     \<and> key_active now key \<and> pf_ed25519 P (skPublicKey key) bytes (seSignature parsed)"
proof -
  from assms obtain bytes i raw0 where b: "exactBytes = Some bytes" "info = Got i" "readRaw = Some raw0"
    and l: "0 < fiSize i" "fiSize i \<le> max_signature_file" "length (take (max_signature_file + 1) raw0) = fiSize i"
    and a: "authenticateRegistryEnvelope P p bytes (take (max_signature_file + 1) raw0) now = Inr ()"
    by (auto simp: AuthenticateRegistry_def LoadRegistrySignature_def AuthenticateRegistrySnapshot_def Let_def rbind_Inr_iff
        split: option.splits io.splits if_splits)
  have "length raw0 \<le> max_signature_file" using l by simp
  with b l a show ?thesis unfolding envelope_authentic_iff by auto
qed

end
