(* ===== verification/Policy_Properties.thy ===== *)
theory Policy_Properties
  imports Policy_Auth_Facts Evaluation
begin

text \<open>
  The properties of the machine policy and of its decisions. The sample policies are records; the
  witnesses evaluate the decisions on them.
\<close>

definition no_url :: "string \<Rightarrow> url option" where "no_url s = None"

definition test_platform :: platform where
  "test_platform = unix_platform ascii_unicode no_url (\<lambda>key msg sig. key = sig)"

definition sample_digest :: string where
  "sample_digest = ''0123456789abcdef0123456789abcdef0123456789abcdef0123456789abcdef''"

definition sample_policy :: policy where
  "sample_policy = zero_policy\<lparr>pSchemaVersion := 3, pRequireLock := True,
     pAllowedRepositories := [''ghcr.io/acme''], pFingerprint := sample_digest,
     pCosignVerifier := \<lparr>fpPath = ''/opt/cosign'', fpSHA256 = sample_digest\<rparr>\<rparr>"

definition sample_rule :: "string \<Rightarrow> image_trust_rule" where
  "sample_rule repo = \<lparr>trRepository = repo, trMechanism = ImageTrustKey, trIssuer = [], trSubject = [],
     trPublicKey = \<lparr>fpPath = ''/k'', fpSHA256 = sample_digest\<rparr>, trNetworkMode = ImageTrustOnline\<rparr>"

definition trusting_policy :: policy where
  "trusting_policy = sample_policy\<lparr>pImageTrustRules := [sample_rule ''ghcr.io'', sample_rule ''ghcr.io/acme'']\<rparr>"

definition sample_evidence :: runtime_evidence where
  "sample_evidence = \<lparr>reMechanism = ImageTrustKey, reRepository = ''ghcr.io/acme/tool'',
     reDigest = ''sha256:'' @ sample_digest, reSigner = sample_digest, reIssuer = [],
     reVerifier = ImageTrustVerifierCosign, reVerifierSHA256 = sample_digest, rePolicyFingerprint = sample_digest\<rparr>"

definition sample_ref :: string where "sample_ref = ''ghcr.io/acme/tool:1''"

definition sample_resolved :: string where
  "sample_resolved = ''ghcr.io/acme/tool@sha256:'' @ sample_digest"

lemma sample_canonical: "CanonicalRepository ascii_unicode sample_ref = Inr ''ghcr.io/acme/tool''"
  by code_simp

lemma sample_distinct: "distinct (map trRepository (pImageTrustRules trusting_policy))"
  by code_simp

lemma sample_longest:
  "longest ''ghcr.io/acme/tool'' (set (pImageTrustRules trusting_policy)) (sample_rule ''ghcr.io/acme'')"
proof -
  have "select_rule ''ghcr.io/acme/tool'' (pImageTrustRules trusting_policy) None = Some (sample_rule ''ghcr.io/acme'')"
    by code_simp
  then show ?thesis unfolding select_rule_Some [OF sample_distinct] .
qed

text \<open>Every policy that \<open>parse\<close> returns is well formed: canonical boundaries and trust rules,
  sorted and without duplicates, complete material for every rule, signing keys with distinct ids
  and distinct public keys, at least one control, a required signature has an active key, and the
  policy has not expired.\<close>

theorem parse_policy_well_formed: "parse_policy P path bytes now = Inr p \<Longrightarrow> policy_wf P now p"
  by (rule parse_policy_wf)

definition sample_policy_text :: string where
  "sample_policy_text = unlines [''policy_version = 1'', ''require_lock = true'']"

theorem parse_policy_well_formed_witness:
  "policy_wf test_platform (0, 0) (zero_policy\<lparr>pPath := ''/p'', pSchemaVersion := 1, pRequireLock := True,
     pFingerprint := hex_encode (Sum256 sample_policy_text)\<rparr>)"
proof -
  let ?acc = "(start_acc ''/p'')\<lparr>pa_policy := zero_policy\<lparr>pPath := ''/p'', pSchemaVersion := 1, pRequireLock := True\<rparr>,
     pa_seen := [''require_lock'', ''policy_version'']\<rparr>"
  have s: "scan_lines sample_policy_text = ([''policy_version = 1'', ''require_lock = true''], False)" by code_simp
  have l: "policy_lines False 1 [''policy_version = 1'', ''require_lock = true''] (start_acc ''/p'') = Inr ?acc"
    by code_simp
  have "parse_policy test_platform ''/p'' sample_policy_text (0, 0) =
      Inr (zero_policy\<lparr>pPath := ''/p'', pSchemaVersion := 1, pRequireLock := True,
     pFingerprint := hex_encode (Sum256 sample_policy_text)\<rparr>)"
    unfolding parse_policy_def s prod.case l rbind_simps
    by (simp add: finish_policy_def check_versions_def check_controls_def start_acc_def zero_policy_def PolicyMaxSchemaVersion_def
        parseRegistrySigningKeys_def parseImageTrustRules_def cosign_pin_def root_pin_def offline_rules_def no_pin_def)
  from parse_policy_well_formed [OF this] show ?thesis .
qed

text \<open>C2: what \<open>AuthorizeResolvedImage\<close> lets run from a repository: under a managed policy with
  boundaries both the configured and the resolved reference lie within one, and if a trust rule
  covers the image then evidence is present that binds the repository, the exact digest, the
  verifier, the signer and the fingerprint of the current policy.\<close>

theorem authorize_resolved_spec:
  "Managed p \<Longrightarrow> AuthorizeResolvedImage U p configured resolved False evidence = Inr () \<longleftrightarrow>
     (pAllowedRepositories p = [] \<or> (within U p configured \<and> within U p resolved)) \<and>
     (case trust_lookup U p configured of
        Inl _ \<Rightarrow> False | Inr None \<Rightarrow> True
      | Inr (Some rule) \<Rightarrow> (\<exists>ev. evidence = Some ev \<and> evidence_binds U p rule configured resolved ev))"
  by (simp only: authorize_resolved_iff not_True_eq_False simp_thms)

theorem authorize_resolved_spec_witness: "within ascii_unicode sample_policy sample_resolved"
proof -
  have "AuthorizeResolvedImage ascii_unicode sample_policy sample_ref sample_resolved False None = Inr ()"
    and m: "Managed sample_policy" and a: "pAllowedRepositories sample_policy \<noteq> []" by code_simp+
  then show ?thesis unfolding authorize_resolved_spec [OF m] by blast
qed

text \<open>An image that a signature rule covers never runs without matching evidence: the rule that
  counts is the longest one around the repository, a local image is refused, and so is a resolved
  image whose evidence is missing or differs.\<close>

theorem signature_required:
  assumes "Managed p" "distinct (map trRepository (pImageTrustRules p))"
    and "CanonicalRepository U configured = Inr repo" "longest repo (set (pImageTrustRules p)) rule"
    and "AuthorizeResolvedImage U p configured resolved local evidence = Inr ()"
  shows "\<not> local \<and> (\<exists>ev. evidence = Some ev \<and> evidence_binds U p rule configured resolved ev)"
proof -
  have "pImageTrustRules p \<noteq> []" using assms(4) by (auto simp: longest_def)
  moreover have "ImageTrustFor U p configured = Inr (Some rule)" using assms(3,4) trust_for_iff [OF assms(2)] by blast
  ultimately have "trust_lookup U p configured = Inr (Some rule)" by (simp add: trust_lookup_def)
  with assms(1,5) show ?thesis
    by (cases local) (simp_all add: authorize_resolved_iff authorize_local_iff)
qed

theorem signature_required_witness:
  "evidence_binds ascii_unicode trusting_policy (sample_rule ''ghcr.io/acme'') sample_ref sample_resolved sample_evidence"
proof -
  have "AuthorizeResolvedImage ascii_unicode trusting_policy sample_ref sample_resolved False (Some sample_evidence) = Inr ()"
    and m: "Managed trusting_policy" by code_simp+
  from signature_required [OF m sample_distinct sample_canonical sample_longest this(1)] show ?thesis by simp
qed

text \<open>The rule \<open>ImageTrustFor\<close> selects is the innermost one: it covers the repository and its
  boundary lies inside every other boundary that covers it.\<close>

theorem trust_rule_innermost:
  "distinct (map trRepository (pImageTrustRules p)) \<Longrightarrow> ImageTrustFor U p ref = Inr (Some rule) \<longleftrightarrow>
     (\<exists>repo. CanonicalRepository U ref = Inr repo \<and> rule \<in> set (pImageTrustRules p) \<and> covers repo rule
        \<and> (\<forall>r \<in> set (pImageTrustRules p). covers repo r \<longrightarrow> inside (trRepository rule) (trRepository r)))"
  using trust_for_iff longest_innermost by simp

theorem trust_rule_innermost_witness: "inside ''ghcr.io/acme'' ''ghcr.io''"
proof -
  have "ImageTrustFor ascii_unicode trusting_policy sample_ref = Inr (Some (sample_rule ''ghcr.io/acme''))" by code_simp
  then have "\<forall>r \<in> set (pImageTrustRules trusting_policy). covers ''ghcr.io/acme/tool'' r \<longrightarrow>
      inside (trRepository (sample_rule ''ghcr.io/acme'')) (trRepository r)"
    unfolding trust_rule_innermost [OF sample_distinct] sample_canonical by auto
  moreover have "covers ''ghcr.io/acme/tool'' (sample_rule ''ghcr.io'')" unfolding covers_def by code_simp
  moreover have "sample_rule ''ghcr.io'' \<in> set (pImageTrustRules trusting_policy)" by (simp add: trusting_policy_def)
  ultimately show ?thesis by (auto simp: sample_rule_def)
qed

text \<open>A policy with boundaries confines images to the registries of its boundaries: the host of
  the configured and of the resolved repository is the host of an allowed boundary, so a boundary
  is never matched by a mere prefix of a host name.\<close>

theorem authorized_hosts:
  assumes "Managed p" "pAllowedRepositories p \<noteq> []"
    and "AuthorizeResolvedImage U p configured resolved False evidence = Inr ()" "ref \<in> {configured, resolved}"
  shows "\<exists>repo. CanonicalRepository U ref = Inr repo
     \<and> (\<exists>boundary \<in> set (pAllowedRepositories p). inside repo boundary \<and> registry_host repo = registry_host boundary)"
proof -
  from assms have "within U p ref" unfolding authorize_resolved_iff by auto
  then show ?thesis unfolding within_def using inside_same_host by blast
qed

theorem authorized_hosts_witness: "registry_host ''ghcr.io/acme/tool'' = registry_host ''ghcr.io/acme''"
proof -
  have "AuthorizeResolvedImage ascii_unicode sample_policy sample_ref sample_resolved False None = Inr ()"
    and "Managed sample_policy" "pAllowedRepositories sample_policy \<noteq> []" by code_simp+
  from authorized_hosts [OF this(2,3,1), of sample_ref] sample_canonical
  show ?thesis by (auto simp: sample_policy_def)
qed

text \<open>What may run may be locked: whenever \<open>AuthorizeResolvedImage\<close> accepts an image,
  \<open>AuthorizeLockTarget\<close> accepts producing its lock entry.\<close>

theorem runnable_is_lockable:
  "AuthorizeResolvedImage U p configured resolved local evidence = Inr () \<Longrightarrow>
     AuthorizeLockTarget U p configured local = Inr ()"
  by (rule runtime_implies_lock_target)

theorem runnable_is_lockable_witness: "AuthorizeLockTarget ascii_unicode sample_policy sample_ref False = Inr ()"
proof -
  have "AuthorizeResolvedImage ascii_unicode sample_policy sample_ref sample_resolved False None = Inr ()" by code_simp
  then show ?thesis by (rule runnable_is_lockable)
qed

text \<open>C27: in signed mode a registry is authentic only with a detached envelope of bounded size whose
  key the policy lists, has not revoked and holds active now, and whose signature verifies over
  exactly the bytes of the registry; a missing registry is never authentic.\<close>

theorem signed_registry_authentic:
  assumes "pRequireRegistrySignature p" "AuthenticateRegistry P p info readRaw exactBytes now = Inr ()"
  shows "\<exists>bytes raw parsed key. exactBytes = Some bytes \<and> readRaw = Some raw
     \<and> 0 < length raw \<and> length raw \<le> max_signature_file
     \<and> parseRegistrySignatureEnvelope raw = Inr parsed
     \<and> map_of (pSigningKeys p) (seKeyID parsed) = Some key \<and> seKeyID parsed \<notin> set (pRevoked p)
     \<and> key_active now key \<and> pf_ed25519 P (skPublicKey key) bytes (seSignature parsed)"
  by (rule authenticated_registry [OF assms])

definition sample_signature :: string where "sample_signature = replicate 64 CHR ''s''"

definition sample_envelope :: string where
  "sample_envelope = unlines [''signature_version = 1'', key_line ''algorithm'' (Quote ascii_unicode ''ed25519''),
     key_line ''key_id'' (Quote ascii_unicode ''k1''), key_line ''signature'' (Quote ascii_unicode (b64_encode sample_signature))]"

definition sample_time :: "nat \<Rightarrow> gotime" where
  "sample_time y = \<lparr>gYear = y, gMonth = 1, gDay = 1, gHour = 0, gMin = 0, gSec = 0, gNsec = 0, gZone = None\<rparr>"

definition signing_policy :: policy where
  "signing_policy = zero_policy\<lparr>pSchemaVersion := 2, pRequireRegistrySignature := True,
     pSigningKeys := [(''k1'', \<lparr>skPublicKey = sample_signature, skNotBefore = sample_time 2020, skExpiresAt = sample_time 2030\<rparr>)]\<rparr>"

theorem signed_registry_authentic_witness:
  "\<exists>parsed. parseRegistrySignatureEnvelope sample_envelope = Inr parsed \<and> seKeyID parsed \<notin> set (pRevoked signing_policy)"
proof -
  let ?now = "instant_of (sample_time 2025)"
  let ?i = "\<lparr>fiRegular = True, fiSymlink = False, fiSize = length sample_envelope, fiId = 1\<rparr>"
  have r: "pRequireRegistrySignature signing_policy" by code_simp
  have "AuthenticateRegistry test_platform signing_policy (Got ?i) (Some sample_envelope) (Some ''x'') ?now = Inr ()"
    by code_simp
  from signed_registry_authentic [OF r this] show ?thesis by auto
qed

text \<open>A pinned file is accepted exactly when it is one regular file throughout (not a symbolic
  link, the same identity before, while and after it is read), its size is within the bound and
  agrees with every observation, and the SHA-256 of its bytes is the pinned digest.\<close>

theorem pinned_file_spec:
  "authenticatePinnedFile pin maxSize ob = Inr (contents, digest) \<longleftrightarrow>
     (\<exists>info opened post bytes. poInfo ob = Some info \<and> poOpened ob = Some opened \<and> poPost ob = Some post
        \<and> poContents ob = Some bytes \<and> contents = bytes
        \<and> fiRegular info \<and> \<not> fiSymlink info \<and> fiRegular opened \<and> fiRegular post \<and> \<not> fiSymlink post
        \<and> fiId opened = fiId info \<and> fiId post = fiId info
        \<and> 0 < length bytes \<and> length bytes \<le> maxSize
        \<and> fiSize info = length bytes \<and> fiSize opened = length bytes \<and> fiSize post = length bytes
        \<and> digest = hex_encode (Sum256 bytes) \<and> fpSHA256 pin = digest)"
  by (rule pinned_file_iff)

text \<open>\<open>parsePolicyTimestamp\<close> accepts exactly the canonical texts of the UTC seconds of the years
  0000 to 9999: what it accepts is printed back byte for byte, and every such second is accepted.\<close>

theorem timestamp_round_trip: "parsePolicyTimestamp raw = Some t \<longleftrightarrow> raw = format_utc t \<and> utc_second t"
  by (rule timestamp_iff)

text \<open>The canonical form of an image reference has a registry host and at least one component,
  none of them empty, a dot or two dots, and it is a fixed point of \<open>CanonicalRepository\<close>.\<close>

theorem canonical_repository_fixed_point:
  assumes "CanonicalRepository U ref = Inr r"
  shows "canonical_repository r \<and> (plain_ref r \<and> \<not> has_prefix r ''sha256:'' \<longrightarrow> CanonicalRepository U r = Inr r)"
  using canonical_shape [OF assms] canonical_fixed by blast

theorem canonical_repository_fixed_point_witness:
  "CanonicalRepository ascii_unicode ''ghcr.io/acme/tool'' = Inr ''ghcr.io/acme/tool''"
proof -
  have "plain_ref ''ghcr.io/acme/tool''" by (simp add: plain_ref_def solid_def is_space_rune_def bs_def)
  with canonical_repository_fixed_point [OF sample_canonical] show ?thesis by simp
qed

end
