(* ===== verification/Lockfile.thy ===== *)
theory Lockfile
  imports Policy_Auth Registry
begin

text \<open>
  The image lockfile of \<open>internal/lockfile/lockfile.go\<close>: its entries and trust evidence, the
  parser with its checks at the end of each entry, the writer, the matching of RepoDigests, and
  the choice of the image to run.
\<close>

section \<open>Data\<close>

definition maxLockVersion :: int where "maxLockVersion = 2"
definition ImageTrustEvidenceVersion :: int where "ImageTrustEvidenceVersion = 1"

record trust_evidence =
  teVersion :: int
  teMechanism :: string
  teRepository :: string
  teDigest :: string
  teSigner :: string
  teIssuer :: string
  teBundleSHA256 :: string
  teVerifiedAt :: string
  teVerifier :: string
  teVerifierSHA256 :: string
  tePolicyFingerprint :: string

record lock_entry =
  leConfigured :: string
  leResolved :: string
  leDigest :: string
  leTrust :: "trust_evidence option"

record lock_file =
  lfVersion :: int
  lfImages :: "(string, lock_entry) gomap"

definition empty_evidence :: trust_evidence where
  "empty_evidence = \<lparr>teVersion = 0, teMechanism = [], teRepository = [], teDigest = [], teSigner = [],
     teIssuer = [], teBundleSHA256 = [], teVerifiedAt = [], teVerifier = [], teVerifierSHA256 = [],
     tePolicyFingerprint = []\<rparr>"

definition empty_entry :: lock_entry where
  "empty_entry = \<lparr>leConfigured = [], leResolved = [], leDigest = [], leTrust = None\<rparr>"

definition RuntimeTrustEvidence :: "lock_entry \<Rightarrow> runtime_evidence option" where
  "RuntimeTrustEvidence e = map_option (\<lambda>t. \<lparr>reMechanism = teMechanism t, reRepository = teRepository t,
     reDigest = teDigest t, reSigner = teSigner t, reIssuer = teIssuer t, reVerifier = teVerifier t,
     reVerifierSHA256 = teVerifierSHA256 t, rePolicyFingerprint = tePolicyFingerprint t\<rparr>) (leTrust e)"

section \<open>Identities\<close>

definition validImageID :: "string \<Rightarrow> bool" where
  "validImageID i = (length i = 71 \<and> has_prefix i ''sha256:'' \<and> hex_decodable (trim_prefix i ''sha256:''))"

definition IsLocalResolved :: "string \<Rightarrow> bool" where
  "IsLocalResolved resolved = validImageID resolved"

definition entryID :: "string \<Rightarrow> string" where
  "entryID configured = hex_encode (take 6 (Sum256 configured))"

definition imageRepository :: "string \<Rightarrow> string" where
  "imageRepository ref = strip_tag (strip_digest ref)"

fun trim_first_prefix :: "string list \<Rightarrow> string \<Rightarrow> string" where
  "trim_first_prefix [] repo = repo"
| "trim_first_prefix (p # ps) repo = (if has_prefix repo p then trim_prefix repo p else trim_first_prefix ps repo)"

definition hubRepository :: "string \<Rightarrow> string" where
  "hubRepository repo0 =
     (let repo = trim_first_prefix [''docker.io/'', ''index.docker.io/'', ''registry-1.docker.io/''] repo0 in
      if has_prefix repo ''library/'' \<and> count_byte repo CHR ''/'' = 1 then trim_prefix repo ''library/'' else repo)"

definition splitImmutableRepositoryDigest :: "unicode \<Rightarrow> string \<Rightarrow> (string \<times> string) option" where
  "splitImmutableRepositoryDigest U ref =
     (if count_byte ref CHR ''@'' \<noteq> 1 then None
      else (case cut_byte ref CHR ''@'' of
          None \<Rightarrow> None
        | Some (repo, digest) \<Rightarrow>
          (if repo = [] \<or> \<not> validImageID digest then None
           else if tag_index repo \<noteq> None then None
           else if \<not> is_ok (CanonicalRepository U repo) then None
           else Some (repo, digest))))"

fun find_digest :: "unicode \<Rightarrow> string \<Rightarrow> string list \<Rightarrow> string option" where
  "find_digest U want [] = None"
| "find_digest U want (rd # rds) = (case splitImmutableRepositoryDigest U rd of
     None \<Rightarrow> find_digest U want rds
   | Some (repo, _) \<Rightarrow> (if hubRepository repo = want then Some rd else find_digest U want rds))"

definition matchRepoDigest :: "unicode \<Rightarrow> string \<Rightarrow> string list \<Rightarrow> string option" where
  "matchRepoDigest U configured repoDigests = find_digest U (hubRepository (imageRepository configured)) repoDigests"

section \<open>Evidence\<close>

datatype evidence_error =
    Ev_Version int
  | Ev_Configured ref_error
  | Ev_Resolved ref_error
  | Ev_Repository string
  | Ev_Digest string
  | Ev_Signer
  | Ev_Issuer issuer_reason
  | Ev_Issuer_Empty
  | Ev_Key_Signer
  | Ev_Mechanism string
  | Ev_Bundle
  | Ev_Verified_At
  | Ev_Verifier string
  | Ev_Verifier_Digest
  | Ev_Fingerprint

definition check_mechanism :: "platform \<Rightarrow> trust_evidence \<Rightarrow> (evidence_error, unit) result" where
  "check_mechanism P ev =
     (if teMechanism ev = ImageTrustKeyless then map_err Ev_Issuer (https_issuer P (teIssuer ev))
      else if teMechanism ev = ImageTrustKey then
        (if teIssuer ev \<noteq> [] then Inl Ev_Issuer_Empty
         else if \<not> validSHA256Hex (pf_unicode P) (teSigner ev) then Inl Ev_Key_Signer else Inr ())
      else Inl (Ev_Mechanism (teMechanism ev)))"

text \<open>
  The time check: \<open>time.Parse\<close> succeeds, the location is UTC (the text ends in \<open>Z\<close>), and
  \<open>Format\<close> gives the text back.
\<close>

definition canonical_utc :: "string \<Rightarrow> bool" where
  "canonical_utc s = (case parse_rfc3339 s of None \<Rightarrow> False | Some t \<Rightarrow> gZone t = None \<and> format_utc t = s)"

definition validateImageTrustEvidence ::
    "platform \<Rightarrow> string \<Rightarrow> string \<Rightarrow> string \<Rightarrow> trust_evidence \<Rightarrow> (evidence_error, unit) result" where
  "validateImageTrustEvidence P configured resolvedRepository digest ev =
     (let U = pf_unicode P in
      if teVersion ev \<noteq> ImageTrustEvidenceVersion then Inl (Ev_Version (teVersion ev))
      else
      rbind (map_err Ev_Configured (CanonicalRepository U configured)) (\<lambda>configuredRepository.
      rbind (map_err Ev_Resolved (CanonicalRepository U resolvedRepository)) (\<lambda>canonicalResolved.
      if teRepository ev \<noteq> configuredRepository \<or> teRepository ev \<noteq> canonicalResolved
      then Inl (Ev_Repository (teRepository ev))
      else if teDigest ev \<noteq> digest \<or> \<not> validImageID (teDigest ev) then Inl (Ev_Digest (teDigest ev))
      else if \<not> bounded_text (teSigner ev) then Inl Ev_Signer
      else
      rbind (check_mechanism P ev) (\<lambda>_.
      if \<not> validSHA256Hex U (teBundleSHA256 ev) then Inl Ev_Bundle
      else if \<not> canonical_utc (teVerifiedAt ev) then Inl Ev_Verified_At
      else if teVerifier ev \<noteq> ImageTrustVerifierCosign then Inl (Ev_Verifier (teVerifier ev))
      else if \<not> validSHA256Hex U (teVerifierSHA256 ev) then Inl Ev_Verifier_Digest
      else if \<not> validSHA256Hex U (tePolicyFingerprint ev) then Inl Ev_Fingerprint
      else Inr ()))))"

section \<open>The parser\<close>

datatype entry_error =
    Entry_Incomplete
  | Entry_Id_Differs
  | Entry_Duplicate
  | Entry_Image_Id
  | Entry_Local_Digest
  | Entry_Local_Trust
  | Entry_Not_Immutable
  | Entry_Digest
  | Entry_Repository
  | Entry_Trust_Version
  | Entry_Evidence evidence_error

datatype lock_line_error =
    LLine_No_Version
  | LLine_Section string
  | LLine_Empty_Id
  | LLine_Duplicate_Section string
  | LLine_Key_Value
  | LLine_Top_Key string
  | LLine_Duplicate_Version
  | LLine_Version string
  | LLine_Duplicate_Key string
  | LLine_Integer
  | LLine_Value string toml_error
  | LLine_Unsupported string

datatype lock_error =
    Lock_Entry string entry_error
  | Lock_Line nat lock_line_error
  | Lock_Too_Long
  | Lock_No_Version

record lock_state =
  ls_file :: lock_file
  ls_cur :: "lock_entry option"
  ls_key :: string
  ls_keys_seen :: "string list"
  ls_version_seen :: bool
  ls_sections :: "string list"

definition check_entry :: "platform \<Rightarrow> lock_file \<Rightarrow> string \<Rightarrow> lock_entry \<Rightarrow> (entry_error, unit) result" where
  "check_entry P lf key cur =
     (let U = pf_unicode P in
      if leConfigured cur = [] \<or> leResolved cur = [] \<or> leDigest cur = [] then Inl Entry_Incomplete
      else if key \<noteq> entryID (leConfigured cur) then Inl Entry_Id_Differs
      else if mhas (lfImages lf) (leConfigured cur) then Inl Entry_Duplicate
      else if has_prefix (leResolved cur) ''sha256:'' then
        (if \<not> validImageID (leResolved cur) then Inl Entry_Image_Id
         else if leDigest cur \<noteq> leResolved cur then Inl Entry_Local_Digest
         else if leTrust cur \<noteq> None then Inl Entry_Local_Trust
         else Inr ())
      else (case splitImmutableRepositoryDigest U (leResolved cur) of
          None \<Rightarrow> Inl Entry_Not_Immutable
        | Some (resolvedRepository, resolvedDigest) \<Rightarrow>
          (if leDigest cur \<noteq> resolvedDigest then Inl Entry_Digest
           else if matchRepoDigest U (leConfigured cur) [leResolved cur] \<noteq> Some (leResolved cur)
           then Inl Entry_Repository
           else (case leTrust cur of
               None \<Rightarrow> Inr ()
             | Some ev \<Rightarrow>
               (if lfVersion lf < 2 then Inl Entry_Trust_Version
                else map_err Entry_Evidence
                  (validateImageTrustEvidence P (leConfigured cur) resolvedRepository (leDigest cur) ev))))))"

definition add_image :: "lock_entry \<Rightarrow> lock_file \<Rightarrow> lock_file" where
  "add_image e lf = lf\<lparr>lfImages := mput (leConfigured e) e (lfImages lf)\<rparr>"

definition lock_flush :: "platform \<Rightarrow> lock_state \<Rightarrow> (lock_error, lock_state) result" where
  "lock_flush P st = (case ls_cur st of
     None \<Rightarrow> Inr st
   | Some cur \<Rightarrow>
       rbind (map_err (Lock_Entry (ls_key st)) (check_entry P (ls_file st) (ls_key st) cur)) (\<lambda>_.
         Inr (st\<lparr>ls_file := add_image cur (ls_file st)\<rparr>)))"

definition with_trust :: "(trust_evidence \<Rightarrow> trust_evidence) \<Rightarrow> lock_entry \<Rightarrow> lock_entry" where
  "with_trust f e = e\<lparr>leTrust := Some (f (case leTrust e of None \<Rightarrow> empty_evidence | Some t \<Rightarrow> t))\<rparr>"

definition put_lock_key :: "string \<Rightarrow> string \<Rightarrow> lock_entry \<Rightarrow> lock_entry option" where
  "put_lock_key key q e =
     (if key = ''configured'' then Some (e\<lparr>leConfigured := q\<rparr>)
      else if key = ''resolved'' then Some (e\<lparr>leResolved := q\<rparr>)
      else if key = ''digest'' then Some (e\<lparr>leDigest := q\<rparr>)
      else if key = ''evidence_mechanism'' then Some (with_trust (\<lambda>t. t\<lparr>teMechanism := q\<rparr>) e)
      else if key = ''evidence_repository'' then Some (with_trust (\<lambda>t. t\<lparr>teRepository := q\<rparr>) e)
      else if key = ''evidence_digest'' then Some (with_trust (\<lambda>t. t\<lparr>teDigest := q\<rparr>) e)
      else if key = ''evidence_signer'' then Some (with_trust (\<lambda>t. t\<lparr>teSigner := q\<rparr>) e)
      else if key = ''evidence_issuer'' then Some (with_trust (\<lambda>t. t\<lparr>teIssuer := q\<rparr>) e)
      else if key = ''evidence_bundle_sha256'' then Some (with_trust (\<lambda>t. t\<lparr>teBundleSHA256 := q\<rparr>) e)
      else if key = ''evidence_verified_at'' then Some (with_trust (\<lambda>t. t\<lparr>teVerifiedAt := q\<rparr>) e)
      else if key = ''evidence_verifier'' then Some (with_trust (\<lambda>t. t\<lparr>teVerifier := q\<rparr>) e)
      else if key = ''evidence_verifier_sha256'' then Some (with_trust (\<lambda>t. t\<lparr>teVerifierSHA256 := q\<rparr>) e)
      else if key = ''evidence_policy_fingerprint'' then Some (with_trust (\<lambda>t. t\<lparr>tePolicyFingerprint := q\<rparr>) e)
      else None)"

definition images_header :: string where "images_header = ''images.''"

definition lock_header :: "string \<Rightarrow> lock_state \<Rightarrow> (lock_line_error, lock_state) result" where
  "lock_header line st =
     (let sec = trim_space (butlast (tl line)); key = trim_prefix sec images_header in
      if \<not> ls_version_seen st then Inl LLine_No_Version
      else if \<not> has_prefix sec images_header then Inl (LLine_Section sec)
      else if key = [] then Inl LLine_Empty_Id
      else if key \<in> set (ls_sections st) then Inl (LLine_Duplicate_Section key)
      else Inr (st\<lparr>ls_cur := Some empty_entry, ls_key := key, ls_keys_seen := [], ls_sections := key # ls_sections st\<rparr>))"

definition lock_top_key :: "int \<Rightarrow> string \<Rightarrow> string \<Rightarrow> lock_state \<Rightarrow> (lock_line_error, lock_state) result" where
  "lock_top_key maxVersion key val st =
     (if key \<noteq> ''lock_version'' then Inl (LLine_Top_Key key)
      else if ls_version_seen st then Inl LLine_Duplicate_Version
      else (case atoi val of
          None \<Rightarrow> Inl (LLine_Version val)
        | Some v \<Rightarrow>
          (if v < 1 \<or> maxVersion < v then Inl (LLine_Version val)
           else Inr (st\<lparr>ls_file := (ls_file st)\<lparr>lfVersion := v\<rparr>, ls_version_seen := True\<rparr>))))"

definition lock_entry_key :: "string \<Rightarrow> string \<Rightarrow> lock_entry \<Rightarrow> lock_state \<Rightarrow> (lock_line_error, lock_state) result" where
  "lock_entry_key key val cur st =
     (if key \<in> set (ls_keys_seen st) then Inl (LLine_Duplicate_Key key)
      else
        (let st1 = st\<lparr>ls_keys_seen := key # ls_keys_seen st\<rparr> in
         if key = ''evidence_version'' then
           (case atoi val of
              None \<Rightarrow> Inl LLine_Integer
            | Some v \<Rightarrow> Inr (st1\<lparr>ls_cur := Some (with_trust (\<lambda>t. t\<lparr>teVersion := v\<rparr>) cur)\<rparr>))
         else (case ParseQuoted val of
             Inl e \<Rightarrow> Inl (LLine_Value key e)
           | Inr q \<Rightarrow> (case put_lock_key key q cur of
               None \<Rightarrow> Inl (LLine_Unsupported key)
             | Some cur' \<Rightarrow> Inr (st1\<lparr>ls_cur := Some cur'\<rparr>)))))"

definition lock_line :: "platform \<Rightarrow> int \<Rightarrow> nat \<times> string \<Rightarrow> lock_state \<Rightarrow> (lock_error, lock_state) result" where
  "lock_line P maxVersion entry st =
     (let n = fst entry; line = logical (snd entry) in
      if line = [] then Inr st
      else if has_prefix line ''['' \<and> has_suffix line '']'' then
        rbind (lock_flush P st) (\<lambda>st1. map_err (Lock_Line n) (lock_header line st1))
      else (case split_kv line of
          None \<Rightarrow> Inl (Lock_Line n LLine_Key_Value)
        | Some (key, val) \<Rightarrow> map_err (Lock_Line n) (case ls_cur st of
              None \<Rightarrow> lock_top_key maxVersion key val st
            | Some cur \<Rightarrow> lock_entry_key key val cur st)))"

definition lock_start :: lock_state where
  "lock_start = \<lparr>ls_file = \<lparr>lfVersion = 0, lfImages = []\<rparr>, ls_cur = None, ls_key = [], ls_keys_seen = [],
     ls_version_seen = False, ls_sections = []\<rparr>"

definition parseLockFile :: "platform \<Rightarrow> string \<Rightarrow> int \<Rightarrow> (lock_error, lock_file) result" where
  "parseLockFile P b maxVersion = (case scan_lines b of (ls, too_long) \<Rightarrow>
     rbind (fold_result (lock_line P maxVersion) (enumerate 1 ls) lock_start) (\<lambda>st.
       if too_long then Inl Lock_Too_Long
       else rbind (lock_flush P st) (\<lambda>st1.
         if \<not> ls_version_seen st1 then Inl Lock_No_Version else Inr (ls_file st1))))"

section \<open>The writer\<close>

definition evidence_lines :: "unicode \<Rightarrow> trust_evidence \<Rightarrow> string list" where
  "evidence_lines U t =
     [key_line ''evidence_version'' (itoa (teVersion t)),
      key_line ''evidence_mechanism'' (Quote U (teMechanism t)),
      key_line ''evidence_repository'' (Quote U (teRepository t)),
      key_line ''evidence_digest'' (Quote U (teDigest t)),
      key_line ''evidence_signer'' (Quote U (teSigner t))]
     @ (if teIssuer t \<noteq> [] then [key_line ''evidence_issuer'' (Quote U (teIssuer t))] else [])
     @ [key_line ''evidence_bundle_sha256'' (Quote U (teBundleSHA256 t)),
      key_line ''evidence_verified_at'' (Quote U (teVerifiedAt t)),
      key_line ''evidence_verifier'' (Quote U (teVerifier t)),
      key_line ''evidence_verifier_sha256'' (Quote U (teVerifierSHA256 t)),
      key_line ''evidence_policy_fingerprint'' (Quote U (tePolicyFingerprint t))]"

definition entry_lines :: "unicode \<Rightarrow> string \<times> lock_entry \<Rightarrow> string list" where
  "entry_lines U ke =
     (let e = snd ke in
      [[], ''['' @ (images_header @ entryID (fst ke)) @ '']'',
       key_line ''configured'' (Quote U (leConfigured e)),
       key_line ''resolved'' (Quote U (leResolved e)),
       key_line ''digest'' (Quote U (leDigest e))]
      @ (case leTrust e of None \<Rightarrow> [] | Some t \<Rightarrow> evidence_lines U t))"

definition lock_preamble :: "lock_file \<Rightarrow> string list" where
  "lock_preamble lf = [''# container-bin immutable image lockfile'',
     ''# Generated by cb lock / cb update. Do not edit by hand.'',
     key_line ''lock_version'' (itoa (lfVersion lf))]"

definition render_lock :: "unicode \<Rightarrow> lock_file \<Rightarrow> string" where
  "render_lock U lf = unlines (lock_preamble lf @ concat (map (entry_lines U) (sort_key fst (lfImages lf))))"

datatype write_error = Write_Mode | Write_Version int | Write_Invalid lock_error

text \<open>\<open>WriteMode\<close> up to the atomic write of the bytes it returns.\<close>

definition WriteMode :: "platform \<Rightarrow> lock_file \<Rightarrow> nat \<Rightarrow> (write_error, lock_file \<times> string) result" where
  "WriteMode P lf0 perm =
     (if 511 < perm \<or> perm = 0 then Inl Write_Mode
      else
        (let lf = (if lfVersion lf0 = 0 then lf0\<lparr>lfVersion := 1\<rparr> else lf0) in
         if lfVersion lf < 1 \<or> maxLockVersion < lfVersion lf then Inl (Write_Version (lfVersion lf))
         else
           (let data = render_lock (pf_unicode P) lf in
            rbind (map_err Write_Invalid (parseLockFile P data maxLockVersion)) (\<lambda>_. Inr (lf, data)))))"

section \<open>Producing entries and choosing the image to run\<close>

definition ConfiguredImages :: "registry \<Rightarrow> string list" where
  "ConfiguredImages reg = sort (remdups (map (\<lambda>e. tImage (snd e)) (Tools reg)))"

record image_inspection =
  iiId :: string
  iiRepoDigests :: "string list"

datatype resolve_error =
    Res_Denied denial
  | Res_Inspect
  | Res_Image_Id string
  | Res_No_Digests
  | Res_No_Match string
  | Res_Malformed string

text \<open>The output of \<open>docker image inspect\<close>, already split into fields.\<close>

definition inspection_of :: "string list \<Rightarrow> (resolve_error, image_inspection) result" where
  "inspection_of out = (case out of
     [] \<Rightarrow> Inl Res_Inspect
   | i # digests \<Rightarrow> (if \<not> validImageID i then Inl Res_Inspect else Inr \<lparr>iiId = i, iiRepoDigests = digests\<rparr>))"

definition repositoryLockEntry :: "unicode \<Rightarrow> string \<Rightarrow> image_inspection \<Rightarrow> (resolve_error, lock_entry) result" where
  "repositoryLockEntry U configured inspected =
     (if iiRepoDigests inspected = [] then Inl Res_No_Digests
      else (case matchRepoDigest U configured (iiRepoDigests inspected) of
          None \<Rightarrow> Inl (Res_No_Match (imageRepository configured))
        | Some resolved \<Rightarrow> (case splitImmutableRepositoryDigest U resolved of
            None \<Rightarrow> Inl (Res_Malformed resolved)
          | Some (_, digest) \<Rightarrow>
              Inr \<lparr>leConfigured = configured, leResolved = resolved, leDigest = digest, leTrust = None\<rparr>)))"

definition localLockEntry :: "string \<Rightarrow> image_inspection \<Rightarrow> (resolve_error, lock_entry) result" where
  "localLockEntry configured inspected =
     (if \<not> validImageID (iiId inspected) then Inl (Res_Image_Id (iiId inspected))
      else Inr \<lparr>leConfigured = configured, leResolved = iiId inspected, leDigest = iiId inspected, leTrust = None\<rparr>)"

definition ResolveRepositoryImageFromInspection ::
    "unicode \<Rightarrow> string \<Rightarrow> string \<Rightarrow> string list \<Rightarrow> policy \<Rightarrow> (resolve_error, lock_entry) result" where
  "ResolveRepositoryImageFromInspection U configured imageID repoDigests p =
     rbind (map_err Res_Denied (AuthorizeLockTarget U p configured False)) (\<lambda>_.
       if \<not> validImageID imageID then Inl (Res_Image_Id imageID)
       else repositoryLockEntry U configured \<lparr>iiId = imageID, iiRepoDigests = repoDigests\<rparr>)"

definition ResolveLocalImageFromInspection ::
    "unicode \<Rightarrow> string \<Rightarrow> string \<Rightarrow> string list \<Rightarrow> policy \<Rightarrow> (resolve_error, lock_entry) result" where
  "ResolveLocalImageFromInspection U configured imageID repoDigests p =
     rbind (map_err Res_Denied (AuthorizeLockTarget U p configured True)) (\<lambda>_.
       localLockEntry configured \<lparr>iiId = imageID, iiRepoDigests = repoDigests\<rparr>)"

datatype runtime_error = Run_Denied denial | Run_Not_Locked string

definition runtimeImageForTool ::
    "unicode \<Rightarrow> tool \<Rightarrow> policy \<Rightarrow> lock_file option \<Rightarrow> (runtime_error, string) result" where
  "runtimeImageForTool U t p lf = (case lf of
     None \<Rightarrow> rbind (map_err Run_Denied (AuthorizeImage U p (tImage t) False False)) (\<lambda>_. Inr (tImage t))
   | Some l \<Rightarrow> (case map_of (lfImages l) (tImage t) of
       None \<Rightarrow> rbind (map_err Run_Denied (AuthorizeImage U p (tImage t) False False)) (\<lambda>_. Inl (Run_Not_Locked (tImage t)))
     | Some e \<Rightarrow>
       (if leConfigured e \<noteq> tImage t
        then rbind (map_err Run_Denied (AuthorizeImage U p (tImage t) False False)) (\<lambda>_. Inl (Run_Not_Locked (tImage t)))
        else rbind (map_err Run_Denied (AuthorizeResolvedImage U p (tImage t) (leResolved e)
               (IsLocalResolved (leResolved e)) (RuntimeTrustEvidence e))) (\<lambda>_. Inr (leResolved e)))))"

end
