(* ===== verification/Lockfile_Facts.thy ===== *)
theory Lockfile_Facts
  imports Lockfile Policy_Auth_Facts
begin

text \<open>
  The lockfile is read back as it was written: first one entry (\<open>entry_block\<close>), then a whole file
  (\<open>parse_rendered\<close>), from which \<open>write_reads_back\<close> follows for every file that \<open>WriteMode\<close>
  accepts. \<open>parse_lock_wf\<close> says what every parsed lockfile satisfies, and
  \<open>runtime_image_locked\<close> what may run under it.
\<close>


section \<open>Reading back one written entry\<close>

lemma trim_header [simp]: "plain_key k \<Longrightarrow> trim_space (butlast (tl (''['' @ k @ '']''))) = k"
  by (simp add: butlast_append)

lemma lock_header_line:
  assumes "plain_key (images_header @ i)" "i \<noteq> []"
  shows "lock_line P m (n, ''['' @ (images_header @ i) @ '']'') st =
    rbind (lock_flush P st) (\<lambda>st1. map_err (Lock_Line n)
      (if \<not> ls_version_seen st1 then Inl LLine_No_Version
       else if i \<in> set (ls_sections st1) then Inl (LLine_Duplicate_Section i)
       else Inr (st1\<lparr>ls_cur := Some empty_entry, ls_key := i, ls_keys_seen := [], ls_sections := i # ls_sections st1\<rparr>)))"
proof -
  let ?h = "''['' @ (images_header @ i) @ '']''"
  have l: "logical ?h = ?h" by (rule header_round_trip(2) [OF assms(1)])
  have p: "has_prefix ?h ''[''" "has_suffix ?h '']''"
    using has_suffix_snoc [of "''['' @ images_header @ i" "CHR '']''"] by simp_all
  have t: "trim_space (butlast (tl ?h)) = images_header @ i" by (rule trim_header [OF assms(1)])
  have h: "has_prefix (images_header @ i) images_header" by (simp add: has_prefix_iff)
  show ?thesis unfolding lock_line_def fst_conv snd_conv l Let_def lock_header_def t trim_prefix_append
    using p h assms(2) by (simp cong: if_cong)
qed

lemma key_line_no_bracket: "plain_key k \<Longrightarrow> \<not> has_prefix (key_line k v) ''[''"
  by (auto simp: plain_key_def key_line_def key_char_def is_digit_def neq_Nil_conv)

lemma lock_quoted_line:
  assumes "plain_key k" "k \<noteq> ''evidence_version''" "ls_cur st = Some cur" "k \<notin> set (ls_keys_seen st)"
    and "put_lock_key k q cur = Some cur'"
  shows "lock_line P m (n, key_line k (Quote U q)) st =
     Inr (st\<lparr>ls_keys_seen := k # ls_keys_seen st, ls_cur := Some cur'\<rparr>)"
  using assms quoted.logical_key_line [OF assms(1), of U q] quoted.split_key_line [OF assms(1), of U q]
    key_line_no_bracket [OF assms(1)] quoted.key_line_nonempty [of k U q] parse_quoted_quote [of U q]
  by (simp add: lock_line_def Let_def lock_entry_key_def)

lemma lock_version_line:
  assumes "ls_cur st = Some cur" "''evidence_version'' \<notin> set (ls_keys_seen st)" "- (2 ^ 63) \<le> v" "v < 2 ^ 63"
  shows "lock_line P m (n, key_line ''evidence_version'' (itoa v)) st =
     Inr (st\<lparr>ls_keys_seen := ''evidence_version'' # ls_keys_seen st,
        ls_cur := Some (with_trust (\<lambda>t. t\<lparr>teVersion := v\<rparr>) cur)\<rparr>)"
proof -
  have k: "plain_key ''evidence_version''" by (simp add: plain_key_def key_char_def)
  have ok: "- (2 ^ 63) \<le> v \<and> v < 2 ^ 63" using assms(3,4) by simp
  note d = decimal.logical_key_line [OF k ok] decimal.split_key_line [OF k ok] decimal.key_line_nonempty [of "''evidence_version''" v]
  show ?thesis using assms d key_line_no_bracket [OF k] atoi_itoa [OF assms(3,4)]
    by (simp add: lock_line_def Let_def lock_entry_key_def)
qed

fun put_all :: "(string \<times> string) list \<Rightarrow> lock_entry \<Rightarrow> lock_entry option" where
  "put_all [] e = Some e"
| "put_all (kq # kqs) e = (case put_lock_key (fst kq) (snd kq) e of None \<Rightarrow> None | Some e' \<Rightarrow> put_all kqs e')"

definition quoted_lines :: "unicode \<Rightarrow> (string \<times> string) list \<Rightarrow> string list" where
  "quoted_lines U kqs = map (\<lambda>kq. key_line (fst kq) (Quote U (snd kq))) kqs"

lemma lock_quoted_lines:
  assumes "\<forall>k \<in> set (map fst kqs). plain_key k \<and> k \<noteq> ''evidence_version''" "distinct (map fst kqs)"
    and "ls_cur st = Some cur" "set (map fst kqs) \<inter> set (ls_keys_seen st) = {}" "put_all kqs cur = Some cur'"
  shows "fold_result (lock_line P m) (enumerate n (quoted_lines U kqs)) st =
     Inr (st\<lparr>ls_keys_seen := rev (map fst kqs) @ ls_keys_seen st, ls_cur := Some cur'\<rparr>)"
  using assms
proof (induction kqs arbitrary: n st cur)
  case Nil
  then show ?case by (simp add: quoted_lines_def)
next
  case (Cons kq kqs)
  obtain k q where kq: "kq = (k, q)" by (cases kq)
  from Cons.prems(5) obtain c where c: "put_lock_key k q cur = Some c" "put_all kqs c = Some cur'"
    by (auto simp: kq split: option.splits)
  let ?st = "st\<lparr>ls_keys_seen := k # ls_keys_seen st, ls_cur := Some c\<rparr>"
  have "lock_line P m (n, key_line k (Quote U q)) st = Inr ?st"
    using Cons.prems c(1) by (intro lock_quoted_line) (auto simp: kq)
  moreover have "fold_result (lock_line P m) (enumerate (Suc n) (quoted_lines U kqs)) ?st =
     Inr (?st\<lparr>ls_keys_seen := rev (map fst kqs) @ ls_keys_seen ?st, ls_cur := Some cur'\<rparr>)"
    using Cons.prems c(2) by (intro Cons.IH) (auto simp: kq)
  ultimately show ?case by (simp add: kq quoted_lines_def)
qed

definition head_keys :: "lock_entry \<Rightarrow> (string \<times> string) list" where
  "head_keys e = [(''configured'', leConfigured e), (''resolved'', leResolved e), (''digest'', leDigest e)]"

definition evidence_keys :: "trust_evidence \<Rightarrow> (string \<times> string) list" where
  "evidence_keys t =
     [(''evidence_mechanism'', teMechanism t), (''evidence_repository'', teRepository t),
      (''evidence_digest'', teDigest t), (''evidence_signer'', teSigner t)]
     @ (if teIssuer t \<noteq> [] then [(''evidence_issuer'', teIssuer t)] else [])
     @ [(''evidence_bundle_sha256'', teBundleSHA256 t), (''evidence_verified_at'', teVerifiedAt t),
      (''evidence_verifier'', teVerifier t), (''evidence_verifier_sha256'', teVerifierSHA256 t),
      (''evidence_policy_fingerprint'', tePolicyFingerprint t)]"

lemma evidence_lines_eq:
  "evidence_lines U t = key_line ''evidence_version'' (itoa (teVersion t)) # quoted_lines U (evidence_keys t)"
  by (simp add: evidence_lines_def quoted_lines_def evidence_keys_def)

lemma entry_lines_eq:
  "entry_lines U (k, e) = [[], ''['' @ (images_header @ entryID k) @ '']''] @ quoted_lines U (head_keys e)
     @ (case leTrust e of None \<Rightarrow> [] | Some t \<Rightarrow> evidence_lines U t)"
  by (simp add: entry_lines_def Let_def quoted_lines_def head_keys_def)

lemma put_head_keys: "put_all (head_keys e) empty_entry = Some (e\<lparr>leTrust := None\<rparr>)"
  by (simp add: head_keys_def put_lock_key_def empty_entry_def)

lemma put_evidence_keys:
  "put_all (evidence_keys t) (e\<lparr>leTrust := Some (empty_evidence\<lparr>teVersion := teVersion t\<rparr>)\<rparr>) = Some (e\<lparr>leTrust := Some t\<rparr>)"
  by (cases "teIssuer t = []") (simp_all add: evidence_keys_def put_lock_key_def with_trust_def empty_evidence_def)

lemma lock_keys_plain:
  "\<forall>k \<in> set (map fst (head_keys e)). plain_key k \<and> k \<noteq> ''evidence_version''"
  "\<forall>k \<in> set (map fst (evidence_keys t)). plain_key k \<and> k \<noteq> ''evidence_version''"
  "distinct (map fst (head_keys e))" "distinct (map fst (evidence_keys t))"
  "set (map fst (evidence_keys t)) \<inter> insert ''evidence_version'' (set (map fst (head_keys e))) = {}"
  "''evidence_version'' \<notin> set (map fst (head_keys e))"
  by (auto simp: head_keys_def evidence_keys_def plain_key_def key_char_def is_digit_def)

lemma entryID_plain: "plain_key (images_header @ entryID k)" "entryID k \<noteq> []" "length (entryID k) = 12"
proof -
  have "list_all hex_char (entryID k)"
    using hex_encode_chars [of "take 6 (Sum256 k)"] Sum256_bound by (auto simp: entryID_def dest: in_set_takeD)
  then have "list_all key_char (entryID k)"
    by (auto simp: list_all_iff hex_char_def key_char_def is_digit_def)
  then show "plain_key (images_header @ entryID k)"
    by (auto simp: plain_key_def images_header_def key_char_def list_all_iff)
  show l: "length (entryID k) = 12" by (simp add: entryID_def)
  then show "entryID k \<noteq> []" by auto
qed

definition int64 :: "int \<Rightarrow> bool" where
  "int64 v = (- (2 ^ 63) \<le> v \<and> v < 2 ^ 63)"

definition entry_int64 :: "lock_entry \<Rightarrow> bool" where
  "entry_int64 e = (case leTrust e of None \<Rightarrow> True | Some t \<Rightarrow> int64 (teVersion t))"

lemma entry_block:
  assumes "ls_version_seen st" "entry_int64 e"
  shows "fold_result (lock_line P m) (enumerate n (entry_lines U (k, e))) st = Inr st' \<longleftrightarrow>
     (\<exists>st1 seen. lock_flush P st = Inr st1 \<and> entryID k \<notin> set (ls_sections st)
        \<and> seen = (case leTrust e of None \<Rightarrow> rev (map fst (head_keys e))
             | Some t \<Rightarrow> rev (map fst (evidence_keys t)) @ ''evidence_version'' # rev (map fst (head_keys e)))
        \<and> st' = st1\<lparr>ls_cur := Some e, ls_key := entryID k, ls_keys_seen := seen, ls_sections := entryID k # ls_sections st\<rparr>)"
proof -
  let ?i = "entryID k"
  let ?hdr = "''['' @ (images_header @ ?i) @ '']''"
  let ?rest = "quoted_lines U (head_keys e) @ (case leTrust e of None \<Rightarrow> [] | Some t \<Rightarrow> evidence_lines U t)"
  have empty: "lock_line P m (n, []) st = Inr st" by (simp add: lock_line_def logical_def StripComment_def)
  have flush: "ls_version_seen st1 \<and> ls_sections st1 = ls_sections st" if "lock_flush P st = Inr st1" for st1
    using that assms(1) by (auto simp: lock_flush_def rbind_Inr_iff split: option.splits)
  have body: "fold_result (lock_line P m) (enumerate n' ?rest)
       (st1\<lparr>ls_cur := Some empty_entry, ls_key := ?i, ls_keys_seen := [], ls_sections := secs\<rparr>) =
     Inr (st1\<lparr>ls_cur := Some e, ls_key := ?i, ls_keys_seen := (case leTrust e of None \<Rightarrow> rev (map fst (head_keys e))
             | Some t \<Rightarrow> rev (map fst (evidence_keys t)) @ ''evidence_version'' # rev (map fst (head_keys e))),
        ls_sections := secs\<rparr>)" for n' st1 secs
  proof -
    let ?s0 = "st1\<lparr>ls_cur := Some empty_entry, ls_key := ?i, ls_keys_seen := [], ls_sections := secs\<rparr>"
    let ?s1 = "?s0\<lparr>ls_keys_seen := rev (map fst (head_keys e)), ls_cur := Some (e\<lparr>leTrust := None\<rparr>)\<rparr>"
    have h: "fold_result (lock_line P m) (enumerate n' (quoted_lines U (head_keys e))) ?s0 = Inr ?s1"
      using lock_quoted_lines [OF lock_keys_plain(1,3) _ _ put_head_keys, of ?s0] by simp
    show ?thesis
    proof (cases "leTrust e")
      case None
      then have "e\<lparr>leTrust := None\<rparr> = e" by simp
      with h None show ?thesis by simp
    next
      case (Some t)
      let ?s2 = "?s1\<lparr>ls_keys_seen := ''evidence_version'' # rev (map fst (head_keys e)),
        ls_cur := Some (e\<lparr>leTrust := Some (empty_evidence\<lparr>teVersion := teVersion t\<rparr>)\<rparr>)\<rparr>"
      have r: "- (2 ^ 63) \<le> teVersion t" "teVersion t < 2 ^ 63"
        using assms(2) Some by (auto simp: entry_int64_def int64_def)
      have "''evidence_version'' \<notin> set (ls_keys_seen ?s1)" using lock_keys_plain(6) [of e] by simp
      from lock_version_line [OF _ this r]
      have v: "lock_line P m (j, key_line ''evidence_version'' (itoa (teVersion t))) ?s1 = Inr ?s2" for j
        by (simp add: with_trust_def)
      have e: "fold_result (lock_line P m) (enumerate j (quoted_lines U (evidence_keys t))) ?s2 =
          Inr (?s2\<lparr>ls_keys_seen := rev (map fst (evidence_keys t)) @ ls_keys_seen ?s2, ls_cur := Some (e\<lparr>leTrust := Some t\<rparr>)\<rparr>)" for j
        using lock_quoted_lines [OF lock_keys_plain(2,4) _ _ put_evidence_keys, of ?s2 t e] lock_keys_plain(5) [of t e]
        by (simp add: Int_commute)
      have "e\<lparr>leTrust := Some t\<rparr> = e" using Some by (metis lock_entry.surjective lock_entry.update_convs(4) lock_entry.select_convs(4))
      with h v e Some show ?thesis
        by (simp add: enumerate_append_eq fold_result_append evidence_lines_eq)
    qed
  qed
  have hdr: "lock_line P m (j, CHR ''['' # images_header @ ?i @ '']'') st = Inr s \<longleftrightarrow>
      (\<exists>st1. lock_flush P st = Inr st1 \<and> ?i \<notin> set (ls_sections st)
        \<and> s = st1\<lparr>ls_cur := Some empty_entry, ls_key := ?i, ls_keys_seen := [], ls_sections := ?i # ls_sections st\<rparr>)" for j s
    using lock_header_line [OF entryID_plain(1,2), of P m j k st] flush by (cases "lock_flush P st") auto
  have "fold_result (lock_line P m) (enumerate n (entry_lines U (k, e))) st = Inr st' \<longleftrightarrow>
      (\<exists>s. lock_line P m (Suc n, CHR ''['' # images_header @ ?i @ '']'') st = Inr s
        \<and> fold_result (lock_line P m) (enumerate (Suc (Suc n)) ?rest) s = Inr st')"
    unfolding entry_lines_eq by (simp add: empty rbind_Inr_iff)
  also have "\<dots> \<longleftrightarrow> (\<exists>st1. lock_flush P st = Inr st1 \<and> ?i \<notin> set (ls_sections st)
        \<and> fold_result (lock_line P m) (enumerate (Suc (Suc n)) ?rest)
           (st1\<lparr>ls_cur := Some empty_entry, ls_key := ?i, ls_keys_seen := [], ls_sections := ?i # ls_sections st\<rparr>) = Inr st')"
    unfolding hdr by blast
  finally show ?thesis unfolding body by auto
qed

section \<open>Reading back a whole file\<close>

fun load_entries :: "platform \<Rightarrow> string list \<Rightarrow> lock_file \<Rightarrow> (string \<times> lock_entry) list \<Rightarrow> lock_file option" where
  "load_entries P secs lf [] = Some lf"
| "load_entries P secs lf (ke # kes) =
     (if entryID (fst ke) \<in> set secs then None
      else if check_entry P lf (entryID (fst ke)) (snd ke) \<noteq> Inr () then None
      else load_entries P (entryID (fst ke) # secs) (add_image (snd ke) lf) kes)"

definition lock_finish :: "platform \<Rightarrow> lock_state \<Rightarrow> (lock_error, lock_file) result" where
  "lock_finish P st = rbind (lock_flush P st) (\<lambda>st1.
     if \<not> ls_version_seen st1 then Inl Lock_No_Version else Inr (ls_file st1))"

lemma flush_cur:
  "ls_cur st = Some e \<Longrightarrow> lock_flush P st = Inr st1 \<longleftrightarrow>
     check_entry P (ls_file st) (ls_key st) e = Inr () \<and> st1 = st\<lparr>ls_file := add_image e (ls_file st)\<rparr>"
  by (auto simp: lock_flush_def rbind_Inr_iff)

lemma flush_keeps: "lock_flush P st = Inr st1 \<Longrightarrow> ls_version_seen st1 = ls_version_seen st \<and> ls_sections st1 = ls_sections st"
  by (auto simp: lock_flush_def rbind_Inr_iff split: option.splits)

lemma entries_fold:
  assumes "ls_version_seen st" "\<forall>ke \<in> set kes. entry_int64 (snd ke)"
  shows "(\<exists>st'. fold_result (lock_line P m) (enumerate n (concat (map (entry_lines U) kes))) st = Inr st'
        \<and> lock_finish P st' = Inr f) \<longleftrightarrow>
     (\<exists>st0. lock_flush P st = Inr st0 \<and> load_entries P (ls_sections st) (ls_file st0) kes = Some f)"
  using assms
proof (induction kes arbitrary: st n)
  case Nil
  then show ?case using flush_keeps by (auto simp: lock_finish_def rbind_Inr_iff split: if_splits)
next
  case (Cons ke kes)
  obtain k e where ke: "ke = (k, e)" by (cases ke)
  have int: "entry_int64 e" and rest: "\<forall>ke \<in> set kes. entry_int64 (snd ke)" using Cons.prems(2) by (auto simp: ke)
  let ?seen = "case leTrust e of None \<Rightarrow> rev (map fst (head_keys e))
             | Some t \<Rightarrow> rev (map fst (evidence_keys t)) @ ''evidence_version'' # rev (map fst (head_keys e))"
  let ?next = "\<lambda>st1. st1\<lparr>ls_cur := Some e, ls_key := entryID k, ls_keys_seen := ?seen, ls_sections := entryID k # ls_sections st\<rparr>"
  let ?n = "n + length (entry_lines U ke)"
  have "(\<exists>st'. fold_result (lock_line P m) (enumerate n (concat (map (entry_lines U) (ke # kes)))) st = Inr st'
        \<and> lock_finish P st' = Inr f) \<longleftrightarrow>
     (\<exists>st1 st'. lock_flush P st = Inr st1 \<and> entryID k \<notin> set (ls_sections st)
        \<and> fold_result (lock_line P m) (enumerate ?n (concat (map (entry_lines U) kes))) (?next st1) = Inr st'
        \<and> lock_finish P st' = Inr f)"
    using entry_block [OF Cons.prems(1) int, of P m n U k]
    by (auto simp: enumerate_append_eq fold_result_append rbind_Inr_iff ke)
  also have "\<dots> \<longleftrightarrow> (\<exists>st1. lock_flush P st = Inr st1 \<and> entryID k \<notin> set (ls_sections st)
        \<and> (\<exists>st0. lock_flush P (?next st1) = Inr st0
             \<and> load_entries P (entryID k # ls_sections st) (ls_file st0) kes = Some f))"
  proof -
    have "(\<exists>st'. fold_result (lock_line P m) (enumerate ?n (concat (map (entry_lines U) kes))) (?next st1) = Inr st'
        \<and> lock_finish P st' = Inr f) \<longleftrightarrow> (\<exists>st0. lock_flush P (?next st1) = Inr st0
             \<and> load_entries P (entryID k # ls_sections st) (ls_file st0) kes = Some f)"
      if "lock_flush P st = Inr st1" for st1
      using Cons.IH [of "?next st1" ?n] rest flush_keeps [OF that] Cons.prems(1) by simp
    then show ?thesis by blast
  qed
  also have "\<dots> \<longleftrightarrow> (\<exists>st1. lock_flush P st = Inr st1 \<and> load_entries P (ls_sections st) (ls_file st1) (ke # kes) = Some f)"
    by (auto simp: flush_cur ke)
  finally show ?case .
qed

definition written_file :: "lock_file \<Rightarrow> lock_file" where
  "written_file lf = \<lparr>lfVersion = lfVersion lf, lfImages = sort_key fst (lfImages lf)\<rparr>"

definition lock_lines :: "unicode \<Rightarrow> lock_file \<Rightarrow> string list" where
  "lock_lines U lf = lock_preamble lf @ concat (map (entry_lines U) (sort_key fst (lfImages lf)))"

lemma comment_line: "lock_line P m (n, CHR ''#'' # s) st = Inr st"
  by (simp add: lock_line_def logical_def StripComment_def dq_def)

lemma lock_preamble_fold:
  assumes "1 \<le> lfVersion lf" "lfVersion lf \<le> m" "m < 2 ^ 63"
  shows "fold_result (lock_line P m) (enumerate n (lock_preamble lf)) lock_start =
     Inr (lock_start\<lparr>ls_file := \<lparr>lfVersion = lfVersion lf, lfImages = []\<rparr>, ls_version_seen := True\<rparr>)"
proof -
  have k: "plain_key ''lock_version''" by (simp add: plain_key_def key_char_def)
  have ok: "- (2 ^ 63) \<le> lfVersion lf \<and> lfVersion lf < 2 ^ 63" using assms by simp
  note d = decimal.logical_key_line [OF k ok] decimal.split_key_line [OF k ok] decimal.key_line_nonempty [of "''lock_version''" "lfVersion lf"]
  have "lock_line P m (j, key_line ''lock_version'' (itoa (lfVersion lf))) lock_start =
     Inr (lock_start\<lparr>ls_file := \<lparr>lfVersion = lfVersion lf, lfImages = []\<rparr>, ls_version_seen := True\<rparr>)" for j
    using assms d key_line_no_bracket [OF k] atoi_itoa [of "lfVersion lf"] ok
    by (simp add: lock_line_def Let_def lock_top_key_def lock_start_def)
  then show ?thesis by (simp add: lock_preamble_def comment_line)
qed

lemma printable_append_Cons: "printable_bytes (key_line k v) \<longleftrightarrow> printable_bytes k \<and> printable_bytes v"
  by (simp add: key_line_def)

lemma lock_lines_printable: "\<forall>l \<in> set (lock_lines U lf). printable_bytes l"
proof -
  have q: "printable_bytes (Quote U s)" for s by (simp add: Quote_def go_quote_printable)
  have i: "printable_bytes (itoa v)" for v using plain_key_facts(9) [OF itoa_plain] .
  have "printable_bytes (images_header @ entryID k)" for k using plain_key_facts(9) [OF entryID_plain(1)] .
  then have h: "printable_bytes (''['' @ (images_header @ entryID k) @ '']'')" for k by simp
  have "\<forall>l \<in> set (entry_lines U ke). printable_bytes l" for ke
    using h [of "fst ke"] by (auto simp: entry_lines_def Let_def evidence_lines_def printable_append_Cons q i split: option.splits if_splits)
  then show ?thesis by (auto simp: lock_lines_def lock_preamble_def printable_append_Cons i)
qed

lemma parse_rendered:
  assumes "1 \<le> lfVersion lf" "lfVersion lf \<le> m" "m < 2 ^ 63" "\<forall>ke \<in> set (lfImages lf). entry_int64 (snd ke)"
  shows "parseLockFile P (render_lock U lf) m = Inr f \<longleftrightarrow>
     (\<forall>l \<in> set (lock_lines U lf). length l < max_token)
     \<and> load_entries P [] \<lparr>lfVersion = lfVersion lf, lfImages = []\<rparr> (sort_key fst (lfImages lf)) = Some f"
proof (cases "\<forall>l \<in> set (lock_lines U lf). length l < max_token")
  case False
  then obtain l where l: "l \<in> set (lock_lines U lf)" "max_token \<le> length l" by force
  have "snd (scan_lines (unlines (lock_lines U lf)))"
    using scan_too_long [OF l] lock_lines_printable printable_no_crlf(1) by blast
  then show ?thesis using False
    by (auto simp: parseLockFile_def render_lock_def lock_lines_def [symmetric] rbind_Inr_iff split: prod.splits)
next
  case True
  then have s: "scan_lines (unlines (lock_lines U lf)) = (lock_lines U lf, False)"
    using scan_unlines lock_lines_printable by (auto simp: good_line_def)
  let ?kes = "sort_key fst (lfImages lf)"
  let ?st = "lock_start\<lparr>ls_file := \<lparr>lfVersion = lfVersion lf, lfImages = []\<rparr>, ls_version_seen := True\<rparr>"
  have "parseLockFile P (render_lock U lf) m = Inr f \<longleftrightarrow>
      (\<exists>st'. fold_result (lock_line P m) (enumerate (1 + length (lock_preamble lf)) (concat (map (entry_lines U) ?kes))) ?st = Inr st'
        \<and> lock_finish P st' = Inr f)"
    using lock_preamble_fold [OF assms(1-3), where P = P and n = 1]
    unfolding parseLockFile_def render_lock_def lock_lines_def [symmetric] s
    by (simp add: lock_lines_def enumerate_append_eq fold_result_append rbind_Inr_iff lock_finish_def)
  also have "\<dots> \<longleftrightarrow> load_entries P [] \<lparr>lfVersion = lfVersion lf, lfImages = []\<rparr> ?kes = Some f"
    using entries_fold [of ?st ?kes P m "1 + length (lock_preamble lf)" U f] assms(4)
    by (simp add: lock_flush_def lock_start_def)
  finally show ?thesis using True by blast
qed

lemma check_entry_fresh: "check_entry P lf i e = Inr () \<Longrightarrow> \<not> mhas (lfImages lf) (leConfigured e)"
  by (auto simp: check_entry_def Let_def split: if_splits)

lemma load_entries_images:
  assumes "load_entries P secs lf kes = Some f" "\<forall>ke \<in> set kes. leConfigured (snd ke) = fst ke"
  shows "f = \<lparr>lfVersion = lfVersion lf, lfImages = lfImages lf @ kes\<rparr>"
  using assms
proof (induction kes arbitrary: secs lf)
  case Nil
  then show ?case by simp
next
  case (Cons ke kes)
  then have c: "check_entry P lf (entryID (fst ke)) (snd ke) = Inr ()"
    and l: "load_entries P (entryID (fst ke) # secs) (add_image (snd ke) lf) kes = Some f"
    by (auto split: if_splits)
  have "add_image (snd ke) lf = lf\<lparr>lfImages := lfImages lf @ [ke]\<rparr>"
    using check_entry_fresh [OF c] Cons.prems(2) by (cases ke) (simp add: add_image_def mput_fresh)
  with Cons.IH [OF l] Cons.prems(2) show ?case by simp
qed

definition lock_shape :: "lock_file \<Rightarrow> bool" where
  "lock_shape lf \<longleftrightarrow> (\<forall>ke \<in> set (lfImages lf). leConfigured (snd ke) = fst ke \<and> entry_int64 (snd ke))"

lemma write_reads_back:
  assumes "WriteMode P lf0 perm = Inr (lf, data)" "lock_shape lf0"
  shows "parseLockFile P data maxLockVersion = Inr (written_file lf)
     \<and> lf = lf0\<lparr>lfVersion := (if lfVersion lf0 = 0 then 1 else lfVersion lf0)\<rparr>"
proof -
  have m: "maxLockVersion < 2 ^ 63" by (simp add: maxLockVersion_def)
  from assms(1) have lf: "lf = lf0\<lparr>lfVersion := (if lfVersion lf0 = 0 then 1 else lfVersion lf0)\<rparr>"
    and v: "1 \<le> lfVersion lf" "lfVersion lf \<le> maxLockVersion"
    and data: "data = render_lock (pf_unicode P) lf"
    and "is_ok (parseLockFile P data maxLockVersion)"
    by (auto simp: WriteMode_def Let_def rbind_Inr_iff is_ok_iff split: if_splits)
  then obtain f where f: "parseLockFile P data maxLockVersion = Inr f" by (auto simp: is_ok_iff)
  have shape: "lock_shape lf" using assms(2) by (simp add: lf lock_shape_def)
  then have i: "\<forall>ke \<in> set (lfImages lf). entry_int64 (snd ke)" by (simp add: lock_shape_def)
  from f have "load_entries P [] \<lparr>lfVersion = lfVersion lf, lfImages = []\<rparr> (sort_key fst (lfImages lf)) = Some f"
    unfolding data parse_rendered [OF v m i] by blast
  from load_entries_images [OF this] shape have "f = written_file lf" by (simp add: lock_shape_def written_file_def)
  with f lf show ?thesis by simp
qed

section \<open>What a parsed lockfile satisfies\<close>

text \<open>An entry that the parser accepts names an immutable image of its own repository.\<close>

definition entry_immutable :: "platform \<Rightarrow> int \<Rightarrow> lock_entry \<Rightarrow> bool" where
  "entry_immutable P version e \<longleftrightarrow> leConfigured e \<noteq> [] \<and>
     (if has_prefix (leResolved e) ''sha256:''
      then validImageID (leResolved e) \<and> leDigest e = leResolved e \<and> leTrust e = None
      else (\<exists>repo. splitImmutableRepositoryDigest (pf_unicode P) (leResolved e) = Some (repo, leDigest e)
         \<and> hubRepository repo = hubRepository (imageRepository (leConfigured e))
         \<and> (\<forall>ev. leTrust e = Some ev \<longrightarrow> 2 \<le> version
              \<and> validateImageTrustEvidence P (leConfigured e) repo (leDigest e) ev = Inr ())))"

lemma match_single:
  "matchRepoDigest U configured [rd] = Some rd \<longleftrightarrow>
     (\<exists>repo d. splitImmutableRepositoryDigest U rd = Some (repo, d)
        \<and> hubRepository repo = hubRepository (imageRepository configured))"
  by (auto simp: matchRepoDigest_def split: option.splits)

lemma check_entry_iff:
  "check_entry P lf i e = Inr () \<longleftrightarrow> i = entryID (leConfigured e) \<and> \<not> mhas (lfImages lf) (leConfigured e)
     \<and> leResolved e \<noteq> [] \<and> leDigest e \<noteq> [] \<and> entry_immutable P (lfVersion lf) e"
  by (auto simp: check_entry_def Let_def entry_immutable_def match_single split: option.splits)

definition lock_wf :: "platform \<Rightarrow> int \<Rightarrow> lock_file \<Rightarrow> bool" where
  "lock_wf P m lf \<longleftrightarrow> wf_map (lfImages lf)
     \<and> (\<forall>ke \<in> set (lfImages lf). fst ke = leConfigured (snd ke) \<and> entry_immutable P (lfVersion lf) (snd ke))
     \<and> distinct (map entryID (mkeys (lfImages lf)))
     \<and> (lfVersion lf = 0 \<and> lfImages lf = [] \<or> 1 \<le> lfVersion lf \<and> lfVersion lf \<le> m)"

definition lock_inv :: "platform \<Rightarrow> int \<Rightarrow> lock_state \<Rightarrow> bool" where
  "lock_inv P m st \<longleftrightarrow> lock_wf P m (ls_file st) \<and> distinct (ls_sections st)
     \<and> (\<forall>k \<in> set (mkeys (lfImages (ls_file st))). entryID k \<in> set (ls_sections st)
          \<and> (ls_cur st \<noteq> None \<longrightarrow> entryID k \<noteq> ls_key st))
     \<and> (ls_cur st \<noteq> None \<longrightarrow> ls_version_seen st \<and> ls_key st \<in> set (ls_sections st))
     \<and> (ls_version_seen st \<longleftrightarrow> 1 \<le> lfVersion (ls_file st))
     \<and> (ls_cur st = None \<longrightarrow> lfImages (ls_file st) = [])"

lemma lock_start_inv: "lock_inv P m lock_start"
  by (simp add: lock_inv_def lock_start_def lock_wf_def)

lemma flush_wf:
  assumes "lock_inv P m st" "lock_flush P st = Inr st1"
  shows "lock_wf P m (ls_file st1) \<and> distinct (ls_sections st1)
     \<and> (\<forall>k \<in> set (mkeys (lfImages (ls_file st1))). entryID k \<in> set (ls_sections st1))
     \<and> (ls_version_seen st1 \<longleftrightarrow> 1 \<le> lfVersion (ls_file st1))"
proof (cases "ls_cur st")
  case None
  then show ?thesis using assms by (auto simp: lock_flush_def lock_inv_def)
next
  case (Some e)
  then have c: "check_entry P (ls_file st) (ls_key st) e = Inr ()"
    and st1: "st1 = st\<lparr>ls_file := add_image e (ls_file st)\<rparr>" using assms(2) by (simp_all add: flush_cur)
  have fresh: "\<not> mhas (lfImages (ls_file st)) (leConfigured e)" "ls_key st = entryID (leConfigured e)"
    and im: "entry_immutable P (lfVersion (ls_file st)) e"
    using c by (simp_all add: check_entry_iff)
  have inv: "wf_map (lfImages (ls_file st))" "distinct (map entryID (mkeys (lfImages (ls_file st))))"
    "\<And>k. k \<in> set (mkeys (lfImages (ls_file st))) \<Longrightarrow> entryID k \<in> set (ls_sections st) \<and> entryID k \<noteq> ls_key st"
    "ls_key st \<in> set (ls_sections st)" "ls_version_seen st" "1 \<le> lfVersion (ls_file st)"
    "lfVersion (ls_file st) \<le> m" "distinct (ls_sections st)"
    "\<And>ke. ke \<in> set (lfImages (ls_file st)) \<Longrightarrow> fst ke = leConfigured (snd ke) \<and> entry_immutable P (lfVersion (ls_file st)) (snd ke)"
    using assms(1) Some by (auto simp: lock_inv_def lock_wf_def)
  have ne: "entryID k \<noteq> entryID (leConfigured e)" if "k \<in> set (mkeys (lfImages (ls_file st)))" for k
    using inv(3) [OF that] fresh(2) by simp
  then have "entryID (leConfigured e) \<notin> entryID ` set (mkeys (lfImages (ls_file st)))" by force
  then show ?thesis using inv fresh im
    by (auto simp: st1 add_image_def mput_fresh lock_wf_def wf_map_def mhas_def)
qed

lemma lock_header_inv:
  assumes "lock_header line st1 = Inr st2" "lock_wf P m (ls_file st1)" "distinct (ls_sections st1)"
    and "\<forall>k \<in> set (mkeys (lfImages (ls_file st1))). entryID k \<in> set (ls_sections st1)"
    and "ls_version_seen st1 \<longleftrightarrow> 1 \<le> lfVersion (ls_file st1)"
  shows "lock_inv P m st2"
proof -
  from assms(1) obtain key where key: "key \<notin> set (ls_sections st1)" "ls_version_seen st1"
    and st2: "st2 = st1\<lparr>ls_cur := Some empty_entry, ls_key := key, ls_keys_seen := [], ls_sections := key # ls_sections st1\<rparr>"
    by (auto simp: lock_header_def Let_def split: if_splits)
  have "entryID k \<noteq> key" if "k \<in> set (mkeys (lfImages (ls_file st1)))" for k using assms(4) key(1) that by metis
  with key assms(2-5) show ?thesis by (simp add: st2 lock_inv_def)
qed

lemma lock_top_key_inv:
  assumes "lock_top_key m key v st = Inr st2" "lock_inv P m st" "ls_cur st = None"
  shows "lock_inv P m st2"
  using assms by (auto simp: lock_top_key_def lock_inv_def lock_wf_def split: if_splits option.splits)

lemma lock_entry_key_inv:
  assumes "lock_entry_key key v cur st = Inr st2" "lock_inv P m st" "ls_cur st = Some cur"
  shows "lock_inv P m st2"
  using assms by (auto simp: lock_entry_key_def Let_def lock_inv_def split: if_splits option.splits sum.splits)

lemma lock_line_inv:
  assumes "lock_line P m entry st = Inr st2" "lock_inv P m st"
  shows "lock_inv P m st2"
proof (cases "logical (snd entry) = [] \<or> \<not> (has_prefix (logical (snd entry)) ''['' \<and> has_suffix (logical (snd entry)) '']'')")
  case True
  then show ?thesis
    using assms by (auto simp: lock_line_def Let_def split: if_splits option.splits
      intro: lock_top_key_inv lock_entry_key_inv)
next
  case False
  then obtain st1 where "lock_flush P st = Inr st1" "lock_header (logical (snd entry)) st1 = Inr st2"
    using assms(1) by (auto simp: lock_line_def Let_def rbind_Inr_iff)
  with flush_wf [OF assms(2)] show ?thesis by (intro lock_header_inv) auto
qed

lemma parse_lock_wf:
  assumes "parseLockFile P b m = Inr lf"
  shows "lock_wf P m lf" "1 \<le> lfVersion lf" "lfVersion lf \<le> m"
proof -
  obtain ls e where ls: "scan_lines b = (ls, e)" by fastforce
  from assms obtain st st1 where st: "fold_result (lock_line P m) (enumerate 1 ls) lock_start = Inr st"
    and st1: "lock_flush P st = Inr st1" "ls_version_seen st1" "lf = ls_file st1"
    by (auto simp: parseLockFile_def ls rbind_Inr_iff split: if_splits)
  have inv: "lock_inv P m st" by (rule fold_result_invariant [OF st, where I = "lock_inv P m"]) (rule lock_start_inv, rule lock_line_inv)
  from flush_wf [OF inv st1(1)] st1(2,3) show "lock_wf P m lf" "1 \<le> lfVersion lf" by auto
  then show "lfVersion lf \<le> m" by (auto simp: lock_wf_def)
qed

section \<open>What may run\<close>

definition immutable_reference :: "unicode \<Rightarrow> string \<Rightarrow> bool" where
  "immutable_reference U ref \<longleftrightarrow> validImageID ref \<or> splitImmutableRepositoryDigest U ref \<noteq> None"

lemma entry_immutable_reference:
  "entry_immutable P v e \<Longrightarrow> immutable_reference (pf_unicode P) (leResolved e)"
  by (auto simp: entry_immutable_def immutable_reference_def split: if_splits)

lemma runtime_image_locked:
  assumes "lock_wf P m l" "runtimeImageForTool (pf_unicode P) t p (Some l) = Inr img"
  shows "\<exists>e. map_of (lfImages l) (tImage t) = Some e \<and> img = leResolved e \<and> leConfigured e = tImage t
     \<and> immutable_reference (pf_unicode P) img
     \<and> AuthorizeResolvedImage (pf_unicode P) p (tImage t) img (IsLocalResolved img) (RuntimeTrustEvidence e) = Inr ()"
proof -
  from assms(2) obtain e where e: "map_of (lfImages l) (tImage t) = Some e" "img = leResolved e" "leConfigured e = tImage t"
    "AuthorizeResolvedImage (pf_unicode P) p (tImage t) (leResolved e) (IsLocalResolved (leResolved e)) (RuntimeTrustEvidence e) = Inr ()"
    by (auto simp: runtimeImageForTool_def rbind_Inr_iff split: option.splits if_splits)
  then have "entry_immutable P (lfVersion l) e" using assms(1) map_of_SomeD by (fastforce simp: lock_wf_def)
  with e entry_immutable_reference show ?thesis by blast
qed

lemma runtime_unlocked:
  "runtimeImageForTool U t p None = Inr img \<Longrightarrow> img = tImage t \<and> (Managed p \<longrightarrow> \<not> pRequireLock p
     \<and> (pAllowedRepositories p = [] \<or> within U p img) \<and> trust_lookup U p img = Inr None)"
  by (auto simp: runtimeImageForTool_def rbind_Inr_iff AuthorizeImage_def check_configured_ok
      split: sum.splits option.splits if_splits)

text \<open>A produced entry passes the parser's checks on entries.\<close>

lemma find_digest_Some:
  "find_digest U want rds = Some rd \<Longrightarrow> \<exists>repo d. rd \<in> set rds \<and> splitImmutableRepositoryDigest U rd = Some (repo, d)
     \<and> hubRepository repo = want"
proof (induction rds)
  case Nil
  then show ?case by simp
next
  case (Cons x xs)
  show ?case
  proof (cases "splitImmutableRepositoryDigest U x")
    case None
    with Cons show ?thesis by auto
  next
    case (Some rd')
    with Cons show ?thesis by (cases rd'; cases "hubRepository (fst rd') = want") auto
  qed
qed

lemma split_immutable_not_id:
  assumes "splitImmutableRepositoryDigest U ref = Some (repo, d)"
  shows "\<not> has_prefix ref ''sha256:'' \<and> ref = repo @ ''@'' @ d \<and> validImageID d"
proof -
  from assms have cut: "cut_byte ref CHR ''@'' = Some (repo, d)" and ne: "repo \<noteq> []" and v: "validImageID d"
    and t: "tag_index repo = None"
    and can: "is_ok (CanonicalRepository U repo)"
    by (auto simp: splitImmutableRepositoryDigest_def split: if_splits option.splits)
  have ref: "ref = repo @ ''@'' @ d" using cut_byte_Some [OF cut] by simp
  have "\<not> has_prefix ref ''sha256:''"
  proof
    assume "has_prefix ref ''sha256:''"
    then obtain r where r: "repo @ CHR ''@'' # d = ''sha256:'' @ r" unfolding ref has_prefix_iff by auto
    have "\<not> length repo < 7"
    proof
      assume "length repo < 7"
      then have "''sha256:'' ! length repo \<in> set ''sha256:''" by (intro nth_mem) simp
      then have "(''sha256:'' @ r) ! length repo \<in> set ''sha256:''"
        using \<open>length repo < 7\<close> nth_append [of "''sha256:''" r "length repo"] by simp
      moreover have "(''sha256:'' @ r) ! length repo = CHR ''@''" unfolding r [symmetric] by simp
      ultimately show False by simp
    qed
    then have "take 7 repo = ''sha256:''" using arg_cong [OF r, of "take 7"] by simp
    then obtain q where q: "repo = ''sha256:'' @ q" by (metis append_take_drop_id)
    have "has_prefix (trim_space (to_lower U repo)) ''sha256:''"
      unfolding q by (rule lower_trim_prefix) (auto simp: solid_def is_space_rune_def)
    with can show False by (simp add: CanonicalRepository_def Let_def)
  qed
  with ref v show ?thesis by simp
qed

lemma resolve_repository_entry:
  assumes "ResolveRepositoryImageFromInspection (pf_unicode P) configured i rds p = Inr e" "configured \<noteq> []"
  shows "leConfigured e = configured \<and> leTrust e = None \<and> leResolved e \<in> set rds \<and> entry_immutable P v e
     \<and> AuthorizeLockTarget (pf_unicode P) p configured False = Inr ()"
proof -
  let ?U = "pf_unicode P"
  from assms(1) obtain rd repo d where m: "matchRepoDigest ?U configured rds = Some rd"
    and sp: "splitImmutableRepositoryDigest ?U rd = Some (repo, d)"
    and e: "e = \<lparr>leConfigured = configured, leResolved = rd, leDigest = d, leTrust = None\<rparr>"
    and auth: "AuthorizeLockTarget ?U p configured False = Inr ()"
    by (auto simp: ResolveRepositoryImageFromInspection_def repositoryLockEntry_def rbind_Inr_iff
        split: if_splits option.splits)
  from find_digest_Some [OF m [unfolded matchRepoDigest_def]] sp
  have "rd \<in> set rds" "hubRepository repo = hubRepository (imageRepository configured)" by auto
  moreover have "\<not> has_prefix rd ''sha256:''" using split_immutable_not_id [OF sp] by blast
  ultimately show ?thesis using e sp auth assms(2) by (simp add: entry_immutable_def)
qed

lemma resolve_local_entry:
  assumes "ResolveLocalImageFromInspection (pf_unicode P) configured i rds p = Inr e" "configured \<noteq> []"
  shows "leConfigured e = configured \<and> leTrust e = None \<and> leResolved e = i \<and> IsLocalResolved i \<and> entry_immutable P v e
     \<and> AuthorizeLockTarget (pf_unicode P) p configured True = Inr ()"
  using assms by (auto simp: ResolveLocalImageFromInspection_def localLockEntry_def rbind_Inr_iff IsLocalResolved_def
      entry_immutable_def validImageID_def split: if_splits)

end
