(* ===== verification/Atomicio.thy ===== *)
theory Atomicio
  imports Prelude
begin

text \<open>
  \<open>internal/atomicio/atomicio.go\<close>: replacing a file through a temporary file and a backup, and
  recovering the backup that an interrupted replacement leaves. \<open>writeFile\<close> is the code as a
  function of which system calls succeed; \<open>write_step\<close> is the same procedure as a step
  relation, whose reachable states are the disks a crash may leave. \<open>write_steps\<close> says that the
  function is a run of the relation, and \<open>crash_keeps_content\<close> that at every reachable state the
  old or the new content is on the disk.
\<close>

record disk =
  dkPrimary :: "string option"
  dkBackup :: "string option"
  dkTemp :: "string option"

datatype op = Create_Temp | Write_Temp | Remove_Backup | Stat_Primary | To_Backup | To_Primary
  | Restore_Backup | Clean_Backup | Remove_Temp

section \<open>WriteFile as a function of the outcomes\<close>

text \<open>\<open>ok op\<close> tells whether the system call succeeds; \<open>Write_Temp\<close> stands for write, sync, close and
  chmod of the temporary file.\<close>

definition drop_temp :: "(op \<Rightarrow> bool) \<Rightarrow> disk \<Rightarrow> disk" where
  "drop_temp ok d = (if ok Remove_Temp then d\<lparr>dkTemp := None\<rparr> else d)"

definition restore_backup :: "(op \<Rightarrow> bool) \<Rightarrow> disk \<Rightarrow> disk" where
  "restore_backup ok d = (case dkBackup d of
     None \<Rightarrow> d | Some b \<Rightarrow> (if ok Restore_Backup then d\<lparr>dkPrimary := Some b, dkBackup := None\<rparr> else d))"

definition commit :: "(op \<Rightarrow> bool) \<Rightarrow> disk \<Rightarrow> bool \<times> disk" where
  "commit ok d =
     (if ok To_Primary
      then (True, (let d1 = d\<lparr>dkPrimary := dkTemp d, dkTemp := None\<rparr>
                   in if ok Clean_Backup then d1\<lparr>dkBackup := None\<rparr> else d1))
      else (False, drop_temp ok (restore_backup ok d)))"

definition swap_in :: "(op \<Rightarrow> bool) \<Rightarrow> disk \<Rightarrow> bool \<times> disk" where
  "swap_in ok d0 =
     (let d = (if ok Remove_Backup then d0\<lparr>dkBackup := None\<rparr> else d0) in
      case dkPrimary d of
        None \<Rightarrow> commit ok d
      | Some old \<Rightarrow>
        (if \<not> ok Stat_Primary then commit ok d
         else if ok To_Backup then commit ok (d\<lparr>dkPrimary := None, dkBackup := Some old\<rparr>)
         else (False, drop_temp ok d)))"

definition writeFile :: "(op \<Rightarrow> bool) \<Rightarrow> string \<Rightarrow> disk \<Rightarrow> bool \<times> disk" where
  "writeFile ok data d =
     (if \<not> ok Create_Temp then (False, d)
      else if \<not> ok Write_Temp then (False, drop_temp ok (d\<lparr>dkTemp := Some []\<rparr>))
      else swap_in ok (d\<lparr>dkTemp := Some data\<rparr>))"

section \<open>WriteFile as steps\<close>

datatype phase = Start | Created | Staged | Cleared | Ready | Committed | Finished | Aborting | Failed

inductive write_step :: "bool \<Rightarrow> string \<Rightarrow> phase \<times> disk \<Rightarrow> phase \<times> disk \<Rightarrow> bool"
  for stat_ok :: bool and data :: string where
  create_failed: "write_step stat_ok data (Start, d) (Failed, d)"
| create: "write_step stat_ok data (Start, d) (Created, d\<lparr>dkTemp := Some []\<rparr>)"
| stage_failed: "write_step stat_ok data (Created, d) (Aborting, d)"
| stage: "write_step stat_ok data (Created, d) (Staged, d\<lparr>dkTemp := Some data\<rparr>)"
| clear_failed: "write_step stat_ok data (Staged, d) (Cleared, d)"
| clear: "write_step stat_ok data (Staged, d) (Cleared, d\<lparr>dkBackup := None\<rparr>)"
| no_primary: "dkPrimary d = None \<or> \<not> stat_ok \<Longrightarrow> write_step stat_ok data (Cleared, d) (Ready, d)"
| move_failed: "dkPrimary d = Some old \<Longrightarrow> write_step stat_ok data (Cleared, d) (Aborting, d)"
| move: "dkPrimary d = Some old \<Longrightarrow>
    write_step stat_ok data (Cleared, d) (Ready, d\<lparr>dkPrimary := None, dkBackup := Some old\<rparr>)"
| commit: "write_step stat_ok data (Ready, d) (Committed, d\<lparr>dkPrimary := dkTemp d, dkTemp := None\<rparr>)"
| restore: "dkBackup d = Some b \<Longrightarrow>
    write_step stat_ok data (Ready, d) (Aborting, d\<lparr>dkPrimary := Some b, dkBackup := None\<rparr>)"
| restore_failed: "write_step stat_ok data (Ready, d) (Aborting, d)"
| clean: "write_step stat_ok data (Committed, d) (Finished, d\<lparr>dkBackup := None\<rparr>)"
| clean_failed: "write_step stat_ok data (Committed, d) (Finished, d)"
| drop: "write_step stat_ok data (Aborting, d) (Failed, d\<lparr>dkTemp := None\<rparr>)"
| drop_failed: "write_step stat_ok data (Aborting, d) (Failed, d)"

inductive_cases write_stepE: "write_step stat_ok data (ph, d) s'"

inductive_simps write_step_simps:
  "write_step stat_ok data (Start, d) s'" "write_step stat_ok data (Created, d) s'"
  "write_step stat_ok data (Staged, d) s'" "write_step stat_ok data (Cleared, d) s'"
  "write_step stat_ok data (Ready, d) s'" "write_step stat_ok data (Committed, d) s'"
  "write_step stat_ok data (Aborting, d) s'" "write_step stat_ok data (Failed, d) s'"
  "write_step stat_ok data (Finished, d) s'"

abbreviation write_reach :: "bool \<Rightarrow> string \<Rightarrow> phase \<times> disk \<Rightarrow> phase \<times> disk \<Rightarrow> bool" where
  "write_reach stat_ok data \<equiv> (write_step stat_ok data)\<^sup>*\<^sup>*"

lemma then_steps: "write_step stat_ok data s s' \<Longrightarrow> write_reach stat_ok data s' s'' \<Longrightarrow> write_reach stat_ok data s s''"
  by (rule converse_rtranclp_into_rtranclp)

section \<open>Recovery\<close>

datatype 'e recover_error = Unusable_Backup 'e | Recover_Rename

text \<open>\<open>RecoverFromBackup\<close>: whether it recovered, and the disk; \<open>rename_ok\<close> is the outcome of the
  rename of the backup.\<close>

definition RecoverFromBackup ::
    "(string \<Rightarrow> ('e, unit) result) \<Rightarrow> bool \<Rightarrow> disk \<Rightarrow> ('e recover_error, bool \<times> disk) result" where
  "RecoverFromBackup validate rename_ok d = (case dkPrimary d of
     Some _ \<Rightarrow> Inr (False, d)
   | None \<Rightarrow> (case dkBackup d of
       None \<Rightarrow> Inr (False, d)
     | Some b \<Rightarrow> rbind (map_err Unusable_Backup (validate b)) (\<lambda>_.
         if \<not> rename_ok then Inl Recover_Rename
         else Inr (True, d\<lparr>dkPrimary := Some b, dkBackup := None\<rparr>))))"

text \<open>What a reader that recovers the backup finds.\<close>

definition visible :: "disk \<Rightarrow> string option" where
  "visible d = (case dkPrimary d of Some c \<Rightarrow> Some c | None \<Rightarrow> dkBackup d)"

lemma visible_primary: "dkPrimary d = Some c \<Longrightarrow> visible d = Some c"
  by (simp add: visible_def)

lemma visible_backup: "dkPrimary d = None \<Longrightarrow> visible d = dkBackup d"
  by (simp add: visible_def)

lemma visible_temp [simp]: "visible (d\<lparr>dkTemp := t\<rparr>) = visible d"
  by (simp add: visible_def split: option.splits)

section \<open>The function is a run of the steps\<close>

lemma drop_temp_step: "write_reach stat_ok data (Aborting, d) (Failed, drop_temp ok d)"
  by (auto simp: drop_temp_def intro: drop drop_failed)

lemma restore_step: "write_reach stat_ok data (Ready, d) (Aborting, restore_backup ok d)"
  by (auto simp: restore_backup_def intro: restore restore_failed split: option.splits)

definition end_phase :: "bool \<Rightarrow> phase" where
  "end_phase success = (if success then Finished else Failed)"

lemma commit_steps: "commit ok d = (success, d') \<Longrightarrow> write_reach stat_ok data (Ready, d) (end_phase success, d')"
proof -
  assume c: "commit ok d = (success, d')"
  show ?thesis
  proof (cases "ok To_Primary")
    case True
    let ?d = "d\<lparr>dkPrimary := dkTemp d, dkTemp := None\<rparr>"
    have "write_step stat_ok data (Committed, ?d) (Finished, d')"
      using c True by (auto simp: commit_def Let_def write_step_simps split: if_splits)
    with write_step.commit [of stat_ok data d] c True show ?thesis
      by (auto simp: commit_def end_phase_def intro: converse_rtranclp_into_rtranclp)
  next
    case False
    with c have "success = False" "d' = drop_temp ok (restore_backup ok d)" by (auto simp: commit_def)
    with restore_step [of stat_ok data d ok] drop_temp_step [of stat_ok data "restore_backup ok d" ok]
    show ?thesis by (auto simp: end_phase_def)
  qed
qed

lemma swap_in_steps:
  assumes "swap_in ok d0 = (success, d')" "ok Stat_Primary \<or> \<not> stat_ok"
  shows "write_reach stat_ok data (Staged, d0) (end_phase success, d')"
proof -
  let ?d = "if ok Remove_Backup then d0\<lparr>dkBackup := None\<rparr> else d0"
  have first: "write_step stat_ok data (Staged, d0) (Cleared, ?d)" by (auto intro: clear clear_failed)
  have "write_reach stat_ok data (Cleared, ?d) (end_phase success, d')"
  proof (cases "dkPrimary ?d")
    case None
    then have "commit ok ?d = (success, d')" using assms(1) by (simp add: swap_in_def)
    from then_steps [OF no_primary commit_steps [OF this]] None show ?thesis by blast
  next
    case (Some old)
    show ?thesis
    proof (cases "ok Stat_Primary")
      case False
      then have "commit ok ?d = (success, d')" using assms(1) Some by (simp add: swap_in_def)
      from then_steps [OF no_primary commit_steps [OF this]] False assms(2) show ?thesis by blast
    next
      case stat: True
      show ?thesis
      proof (cases "ok To_Backup")
        case True
        then have "commit ok (?d\<lparr>dkPrimary := None, dkBackup := Some old\<rparr>) = (success, d')"
          using assms(1) Some stat by (simp add: swap_in_def Let_def)
        from then_steps [OF write_step.move [OF Some] commit_steps [OF this]] show ?thesis .
      next
        case False
        then have "success = False" "d' = drop_temp ok ?d" using assms(1) Some stat by (simp_all add: swap_in_def Let_def)
        with drop_temp_step [of stat_ok data ?d ok] show ?thesis
          using then_steps [OF move_failed [OF Some]] by (simp add: end_phase_def)
      qed
    qed
  qed
  with first show ?thesis by (rule converse_rtranclp_into_rtranclp)
qed

lemma write_steps:
  assumes "writeFile ok data d = (success, d')" "ok Stat_Primary \<or> \<not> stat_ok"
  shows "write_reach stat_ok data (Start, d) (end_phase success, d')"
proof -
  have c: "write_step stat_ok data (Start, d) (Created, d\<lparr>dkTemp := Some []\<rparr>)" by (rule create)
  consider "\<not> ok Create_Temp" | "ok Create_Temp" "\<not> ok Write_Temp" | "ok Create_Temp" "ok Write_Temp" by blast
  then show ?thesis
  proof cases
    case 1
    with assms(1) show ?thesis by (auto simp: writeFile_def end_phase_def intro: create_failed)
  next
    case 2
    with assms(1) have "success = False" "d' = drop_temp ok (d\<lparr>dkTemp := Some []\<rparr>)" by (auto simp: writeFile_def)
    with then_steps [OF c then_steps [OF stage_failed drop_temp_step [of stat_ok data "d\<lparr>dkTemp := Some []\<rparr>" ok]]]
    show ?thesis by (simp add: end_phase_def)
  next
    case 3
    with assms(1) have "swap_in ok (d\<lparr>dkTemp := Some data\<rparr>) = (success, d')" by (simp add: writeFile_def)
    from swap_in_steps [OF this assms(2)] have "write_reach stat_ok data (Staged, d\<lparr>dkTemp := Some data\<rparr>) (end_phase success, d')" .
    moreover have "write_step stat_ok data (Created, d\<lparr>dkTemp := Some []\<rparr>) (Staged, d\<lparr>dkTemp := Some data\<rparr>)"
      using write_step.stage [of stat_ok data "d\<lparr>dkTemp := Some []\<rparr>"] by simp
    ultimately show ?thesis using c by (blast intro: then_steps)
  qed
qed

section \<open>What a crash leaves\<close>

text \<open>
  While the replacement runs over an existing file: until the commit the old content is the
  primary or the only backup, and the temporary file that is renamed holds the new content.
\<close>

fun write_inv :: "string \<Rightarrow> string \<Rightarrow> phase \<times> disk \<Rightarrow> bool" where
  "write_inv old new (ph, d) = (case ph of
     Start \<Rightarrow> dkPrimary d = Some old
   | Created \<Rightarrow> dkPrimary d = Some old
   | Staged \<Rightarrow> dkPrimary d = Some old \<and> dkTemp d = Some new
   | Cleared \<Rightarrow> dkPrimary d = Some old \<and> dkTemp d = Some new
   | Ready \<Rightarrow> dkPrimary d = None \<and> dkBackup d = Some old \<and> dkTemp d = Some new
   | Committed \<Rightarrow> dkPrimary d = Some new
   | Finished \<Rightarrow> dkPrimary d = Some new
   | Aborting \<Rightarrow> visible d = Some old
   | Failed \<Rightarrow> visible d = Some old)"

lemma write_inv_step: "write_step True new s s' \<Longrightarrow> write_inv old new s \<Longrightarrow> write_inv old new s'"
  by (induction rule: write_step.induct) (auto simp: visible_primary visible_backup)

lemma write_inv_reach:
  "write_reach True new (Start, d) s \<Longrightarrow> dkPrimary d = Some old \<Longrightarrow> write_inv old new s"
proof (induction rule: rtranclp_induct)
  case base
  then show ?case by simp
next
  case (step s s')
  then show ?case using write_inv_step by blast
qed

lemma write_inv_visible: "write_inv old new (ph, d) \<Longrightarrow> visible d \<in> {Some old, Some new}"
  by (cases ph) (auto simp: visible_def)

lemma crash_visible:
  assumes "write_reach True new (Start, d) (ph, d')" "dkPrimary d = Some old"
  shows "visible d' \<in> {Some old, Some new}"
  using write_inv_visible [OF write_inv_reach [OF assms]] .

text \<open>A result that is reported as success is the new content, one reported as an error the old.\<close>

lemma write_outcome:
  assumes "writeFile ok new d = (success, d')" "dkPrimary d = Some old" "ok Stat_Primary"
  shows "if success then dkPrimary d' = Some new else visible d' = Some old"
proof -
  have "write_inv old new (end_phase success, d')"
    using write_inv_reach write_steps [OF assms(1), of True] assms(2,3) by blast
  then show ?thesis by (simp add: end_phase_def split: if_splits)
qed

lemma write_primary: "writeFile ok data d = (True, d') \<Longrightarrow> dkPrimary d' = Some data"
  by (auto simp: writeFile_def swap_in_def commit_def Let_def split: option.splits if_splits)

lemma write_success:
  assumes "\<forall>x. ok x"
  shows "writeFile ok new d = (True, \<lparr>dkPrimary = Some new, dkBackup = None, dkTemp = None\<rparr>)"
  using assms by (simp add: writeFile_def swap_in_def commit_def Let_def split: option.splits)

text \<open>After a crash, a recovery whose validation accepts both contents makes one of them primary.\<close>

lemma crash_then_recover:
  assumes "write_reach True new (Start, d) (ph, d')" "dkPrimary d = Some old"
    and "validate old = Inr ()" "validate new = Inr ()"
  shows "\<exists>recovered d''. RecoverFromBackup validate True d' = Inr (recovered, d'')
     \<and> dkPrimary d'' \<in> {Some old, Some new} \<and> dkPrimary d'' = visible d'"
proof -
  have v: "visible d' \<in> {Some old, Some new}" by (rule crash_visible [OF assms(1,2)])
  show ?thesis
  proof (cases "dkPrimary d'")
    case (Some c)
    then show ?thesis using v by (auto simp: RecoverFromBackup_def visible_def)
  next
    case None
    then obtain b where "dkBackup d' = Some b" "b \<in> {old, new}" using v by (auto simp: visible_def)
    then show ?thesis using None assms(3,4) by (auto simp: RecoverFromBackup_def visible_def)
  qed
qed

end
