(* ===== verification/Lock_Store.thy ===== *)
theory Lock_Store
  imports Lockfile_Facts Atomicio
begin

text \<open>
  The lockfile on disk (\<open>internal/lockfile/lockfile.go\<close>): \<open>Load\<close> with the recovery of an
  interrupted write, \<open>LoadReadOnly\<close>, the atomic write of \<open>WriteMode\<close>, and the image of a tool as
  \<open>RuntimeImageForToolAt\<close> computes it from the disk. A write that is cut off at any step leaves the
  old or the new lockfile to the next \<open>Load\<close> (\<open>crash_then_load\<close>).
\<close>

datatype load_lock_error = Lock_Parse lock_error | Lock_Recover "lock_error recover_error"

definition check_lock :: "platform \<Rightarrow> string \<Rightarrow> (lock_error, unit) result" where
  "check_lock P b = rbind (parseLockFile P b maxLockVersion) (\<lambda>_. Inr ())"

text \<open>The lockfile, if there is one, and the disk after a recovery; \<open>rename_ok\<close> is the outcome of its rename.\<close>

definition LoadLock :: "platform \<Rightarrow> bool \<Rightarrow> disk \<Rightarrow> (load_lock_error, lock_file option \<times> disk) result" where
  "LoadLock P rename_ok d = (case dkPrimary d of
     Some b \<Rightarrow> rbind (map_err Lock_Parse (parseLockFile P b maxLockVersion)) (\<lambda>lf. Inr (Some lf, d))
   | None \<Rightarrow> rbind (map_err Lock_Recover (RecoverFromBackup (check_lock P) rename_ok d)) (\<lambda>(recovered, d').
       if \<not> recovered then Inr (None, d')
       else (case dkPrimary d' of
           None \<Rightarrow> Inr (None, d')
         | Some b \<Rightarrow> rbind (map_err Lock_Parse (parseLockFile P b maxLockVersion)) (\<lambda>lf. Inr (Some lf, d')))))"

definition LoadReadOnly :: "platform \<Rightarrow> disk \<Rightarrow> (lock_error, lock_file option) result" where
  "LoadReadOnly P d = (case dkPrimary d of
     None \<Rightarrow> Inr None | Some b \<Rightarrow> rbind (parseLockFile P b maxLockVersion) (\<lambda>lf. Inr (Some lf)))"

datatype save_error = Save_Rejected write_error | Save_Disk disk

definition SaveLock :: "platform \<Rightarrow> (op \<Rightarrow> bool) \<Rightarrow> lock_file \<Rightarrow> nat \<Rightarrow> disk \<Rightarrow> (save_error, lock_file \<times> disk) result" where
  "SaveLock P ok lf0 perm d = rbind (map_err Save_Rejected (WriteMode P lf0 perm)) (\<lambda>(lf, data).
     case writeFile ok data d of (success, d') \<Rightarrow> if success then Inr (lf, d') else Inl (Save_Disk d'))"

datatype tool_image_error = Tool_Path | Tool_Lock load_lock_error | Tool_Run runtime_error

definition RuntimeImageForToolAt ::
    "platform \<Rightarrow> bool \<Rightarrow> tool \<Rightarrow> policy \<Rightarrow> string \<Rightarrow> disk \<Rightarrow> (tool_image_error, string \<times> disk) result" where
  "RuntimeImageForToolAt P rename_ok t p path d =
     (if path = [] \<or> \<not> pf_is_abs P path then Inl Tool_Path
      else rbind (map_err Tool_Lock (LoadLock P rename_ok d)) (\<lambda>(lf, d').
        rbind (map_err Tool_Run (runtimeImageForTool (pf_unicode P) t p lf)) (\<lambda>image. Inr (image, d'))))"

section \<open>What is loaded after a write\<close>

lemma load_primary:
  "dkPrimary d = Some b \<Longrightarrow> parseLockFile P b maxLockVersion = Inr lf \<Longrightarrow> LoadLock P rename_ok d = Inr (Some lf, d)"
  by (simp add: LoadLock_def)

lemma save_then_load_lock:
  assumes "SaveLock P ok lf0 perm d = Inr (lf, d')" "lock_shape lf0"
  shows "LoadLock P rename_ok d' = Inr (Some (written_file lf), d')"
proof -
  from assms(1) obtain data where w: "WriteMode P lf0 perm = Inr (lf, data)" and f: "writeFile ok data d = (True, d')"
    by (cases "WriteMode P lf0 perm") (auto simp: SaveLock_def split: prod.splits if_splits)
  show ?thesis using load_primary [OF write_primary [OF f]] write_reads_back [OF w assms(2)] by blast
qed

lemma failed_save_keeps:
  assumes "SaveLock P ok lf0 perm d = Inl (Save_Disk d')" "dkPrimary d = Some old" "ok Stat_Primary"
  shows "visible d' = Some old"
proof -
  from assms(1) obtain lf data where f: "writeFile ok data d = (False, d')"
    by (cases "WriteMode P lf0 perm") (auto simp: SaveLock_def split: prod.splits if_splits)
  from write_outcome [OF f assms(2,3)] show ?thesis by simp
qed

lemma crash_then_load:
  assumes "WriteMode P lf0 perm = Inr (lf, data)" "lock_shape lf0"
    and "dkPrimary d = Some old" "parseLockFile P old maxLockVersion = Inr lf_old"
    and "write_reach True data (Start, d) (ph, d')"
  shows "\<exists>lf' d''. LoadLock P True d' = Inr (Some lf', d'') \<and> lf' \<in> {lf_old, written_file lf}"
proof -
  have new: "parseLockFile P data maxLockVersion = Inr (written_file lf)" using write_reads_back [OF assms(1,2)] by simp
  have v: "visible d' \<in> {Some old, Some data}" by (rule crash_visible [OF assms(5,3)])
  then obtain c where c: "visible d' = Some c" "c \<in> {old, data}" by auto
  then obtain lf' where lf': "parseLockFile P c maxLockVersion = Inr lf'" "lf' \<in> {lf_old, written_file lf}"
    using assms(4) new by auto
  show ?thesis
  proof (cases "dkPrimary d'")
    case (Some b)
    then have "b = c" using c(1) by (simp add: visible_def)
    with Some lf' show ?thesis by (auto simp: LoadLock_def)
  next
    case None
    then have "dkBackup d' = Some c" using c(1) by (simp add: visible_def)
    with None lf' show ?thesis by (auto simp: LoadLock_def RecoverFromBackup_def check_lock_def)
  qed
qed

section \<open>From a lock to the image that runs\<close>

lemma map_of_sorted: "wf_map m \<Longrightarrow> map_of (sort_key fst m) = map_of m"
proof
  fix k
  assume wf: "wf_map m"
  have "mset (mkeys (sort_key fst m)) = mset (mkeys m)" by (simp add: mkeys_def)
  then have "wf_map (sort_key fst m)" using wf by (metis wf_map_def mset_eq_imp_distinct_iff)
  then have "map_of (sort_key fst m) k = Some v \<longleftrightarrow> map_of m k = Some v" for v
    using wf by (simp add: wf_map_in_iff)
  then show "map_of (sort_key fst m) k = map_of m k" by (metis not_None_eq)
qed

text \<open>
  After \<open>cb lock\<close> has written an entry for the tool's image, the tool runs exactly the resolved
  image of that entry, provided the policy accepts it.
\<close>

lemma lock_then_run:
  assumes "SaveLock P ok lf0 perm d = Inr (lf, d')" "lock_shape lf0" "wf_map (lfImages lf0)"
    and "map_of (lfImages lf0) (tImage t) = Some e" "path \<noteq> []" "pf_is_abs P path"
    and "AuthorizeResolvedImage (pf_unicode P) p (tImage t) (leResolved e) (IsLocalResolved (leResolved e)) (RuntimeTrustEvidence e) = Inr ()"
  shows "RuntimeImageForToolAt P rename_ok t p path d' = Inr (leResolved e, d')"
proof -
  from assms(1) obtain data where "WriteMode P lf0 perm = Inr (lf, data)"
    by (cases "WriteMode P lf0 perm") (auto simp: SaveLock_def split: prod.splits if_splits)
  from write_reads_back [OF this assms(2)] have "lfImages lf = lfImages lf0" by simp
  then have m: "map_of (lfImages (written_file lf)) (tImage t) = Some e"
    using assms(3,4) by (simp add: written_file_def map_of_sorted)
  have "leConfigured e = tImage t" using assms(2) map_of_SomeD [OF assms(4)] by (force simp: lock_shape_def)
  with m assms(5-7) save_then_load_lock [OF assms(1,2)] show ?thesis
    by (simp add: RuntimeImageForToolAt_def runtimeImageForTool_def)
qed

end
