(* ===== verification/Version.thy ===== *)
theory Version
  imports Config_Lines
begin

text \<open>
  Release versions of \<open>internal/selfupdate/version.go\<close>: the parser of canonical semantic
  versions, their comparison, and the test for development builds. The comparison is shown to
  be the strict order of \<open>precedence\<close>, a linear order on what a version denotes.
\<close>

record semanticVersion =
  svRaw :: string
  svMajor :: nat
  svMinor :: nat
  svPatch :: nat
  svPrerelease :: "string list"

datatype version_error =
    Version_Not_Canonical
  | Version_Three_Components
  | Version_Leading_Zero
  | Version_Number
  | Version_Empty_Prerelease
  | Version_Empty_Identifier
  | Version_Identifier
  | Version_Identifier_Zero

definition version_forbidden :: string where
  "version_forbidden = [CHR ''+'', CHR ''/'', bs, CHR '' '', CHR 0x09, CHR 0x0D, CHR 0x0A]"

definition parse_component :: "string \<Rightarrow> nat list \<Rightarrow> (version_error, nat list) result" where
  "parse_component value parts =
     (if value = [] \<or> (1 < length value \<and> hd value = CHR ''0'') then Inl Version_Leading_Zero
      else (case parse_uint64 value of None \<Rightarrow> Inl Version_Number | Some n \<Rightarrow> Inr (parts @ [n])))"

definition identifier_rune :: "rune \<Rightarrow> bool" where
  "identifier_rune r = ((48 \<le> r \<and> r \<le> 57) \<or> (65 \<le> r \<and> r \<le> 90) \<or> (97 \<le> r \<and> r \<le> 122) \<or> r = byte_of CHR ''-'')"

definition digit_run :: "string \<Rightarrow> bool" where
  "digit_run s = list_all (\<lambda>r. 48 \<le> r \<and> r \<le> 57) (rune_values s)"

definition parse_identifier :: "string \<Rightarrow> string list \<Rightarrow> (version_error, string list) result" where
  "parse_identifier i ids =
     (if i = [] then Inl Version_Empty_Identifier
      else if \<not> list_all identifier_rune (rune_values i) then Inl Version_Identifier
      else if digit_run i \<and> 1 < length i \<and> hd i = CHR ''0'' then Inl Version_Identifier_Zero
      else Inr (ids @ [i]))"

definition parse_prerelease :: "string option \<Rightarrow> (version_error, string list) result" where
  "parse_prerelease pre = (case pre of
     None \<Rightarrow> Inr []
   | Some p \<Rightarrow> (if p = [] then Inl Version_Empty_Prerelease
       else fold_result parse_identifier (split_byte p CHR ''.'') []))"

definition parseVersion :: "string \<Rightarrow> (version_error, semanticVersion) result" where
  "parseVersion raw =
     (if \<not> has_prefix raw ''v'' \<or> contains_any raw version_forbidden then Inl Version_Not_Canonical
      else
        (let (core, pre) = (case cut_byte (tl raw) CHR ''-'' of
               None \<Rightarrow> (tl raw, None) | Some (a, b) \<Rightarrow> (a, Some b));
             components = split_byte core CHR ''.'' in
         if length components \<noteq> 3 then Inl Version_Three_Components
         else rbind (fold_result parse_component components []) (\<lambda>parts.
           rbind (parse_prerelease pre) (\<lambda>ids.
             Inr \<lparr>svRaw = raw, svMajor = parts ! 0, svMinor = parts ! 1, svPatch = parts ! 2, svPrerelease = ids\<rparr>))))"

section \<open>Comparison\<close>

definition numericIdentifier :: "string \<Rightarrow> bool" where
  "numericIdentifier value = (digit_run value \<and> value \<noteq> [])"

fun compare_numbers :: "(nat \<times> nat) list \<Rightarrow> int option" where
  "compare_numbers [] = None"
| "compare_numbers ((a, b) # ps) = (if a < b then Some (- 1) else if b < a then Some 1 else compare_numbers ps)"

text \<open>The first differing identifier decides; strings compare byte by byte.\<close>

definition compare_identifiers :: "string \<Rightarrow> string \<Rightarrow> int" where
  "compare_identifiers a b =
     (if numericIdentifier a \<and> numericIdentifier b then
        (if length a < length b \<or> (length a = length b \<and> a < b) then - 1 else 1)
      else if numericIdentifier a then - 1
      else if numericIdentifier b then 1
      else if a < b then - 1 else 1)"

fun compare_prerelease :: "string list \<Rightarrow> string list \<Rightarrow> int" where
  "compare_prerelease [] [] = 0"
| "compare_prerelease [] (b # bs') = - 1"
| "compare_prerelease (a # as) [] = 1"
| "compare_prerelease (a # as) (b # bs') = (if a = b then compare_prerelease as bs' else compare_identifiers a b)"

definition compare :: "semanticVersion \<Rightarrow> semanticVersion \<Rightarrow> int" where
  "compare v w =
     (case compare_numbers [(svMajor v, svMajor w), (svMinor v, svMinor w), (svPatch v, svPatch w)] of
        Some r \<Rightarrow> r
      | None \<Rightarrow>
        (if svPrerelease v = [] \<and> svPrerelease w = [] then 0
         else if svPrerelease v = [] then 1
         else if svPrerelease w = [] then - 1
         else compare_prerelease (svPrerelease v) (svPrerelease w)))"

definition isDevelopment :: "unicode \<Rightarrow> semanticVersion \<Rightarrow> bool" where
  "isDevelopment U v = (svRaw v = ''dev'' \<or> list_ex (\<lambda>i. equal_fold U i ''dev'') (svPrerelease v))"

datatype current_error = Current_Development | Current_Unqualified version_error

definition currentVersion :: "unicode \<Rightarrow> string \<Rightarrow> (current_error, semanticVersion) result" where
  "currentVersion U raw =
     (if raw = ''dev'' then Inl Current_Development
      else rbind (map_err Current_Unqualified (parseVersion raw)) (\<lambda>v.
        if isDevelopment U v then Inl Current_Development else Inr v))"

section \<open>Precedence as a linear order\<close>

text \<open>
  What a version denotes for the comparison. A number precedes a word, and a release follows
  all its prereleases.
\<close>

datatype pre_id = Number nat | Word string

instantiation pre_id :: linorder
begin

definition less_eq_pre_id :: "pre_id \<Rightarrow> pre_id \<Rightarrow> bool" where
  "less_eq_pre_id i j = (case (i, j) of
     (Number m, Number n) \<Rightarrow> m \<le> n | (Number _, Word _) \<Rightarrow> True | (Word _, Number _) \<Rightarrow> False
   | (Word s, Word t) \<Rightarrow> s \<le> t)"

definition less_pre_id :: "pre_id \<Rightarrow> pre_id \<Rightarrow> bool" where
  "less_pre_id i j = (i \<le> j \<and> \<not> j \<le> (i::pre_id))"

instance
  by intro_classes (auto simp: less_eq_pre_id_def less_pre_id_def split: pre_id.splits)

end

lemma less_pre_id_simps [simp]:
  "Number m < Number n \<longleftrightarrow> m < n" "Number m < Word t" "\<not> Word s < Number n" "Word s < Word t \<longleftrightarrow> s < t"
  by (auto simp: less_pre_id_def less_eq_pre_id_def)

datatype stage = Pre "pre_id list" | Release

instantiation stage :: linorder
begin

definition less_eq_stage :: "stage \<Rightarrow> stage \<Rightarrow> bool" where
  "less_eq_stage a b = (case (a, b) of
     (_, Release) \<Rightarrow> True | (Release, Pre _) \<Rightarrow> False | (Pre xs, Pre ys) \<Rightarrow> xs \<le> ys)"

definition less_stage :: "stage \<Rightarrow> stage \<Rightarrow> bool" where
  "less_stage a b = (a \<le> b \<and> \<not> b \<le> (a::stage))"

instance
  by intro_classes (auto simp: less_eq_stage_def less_stage_def split: stage.splits)

end

lemma less_stage_simps [simp]:
  "Pre xs < Release" "\<not> Release < s" "Pre xs < Pre ys \<longleftrightarrow> xs < ys"
  by (auto simp: less_stage_def less_eq_stage_def split: stage.splits)

datatype precedence = Precedence nat nat nat stage

instantiation precedence :: linorder
begin

definition less_eq_precedence :: "precedence \<Rightarrow> precedence \<Rightarrow> bool" where
  "less_eq_precedence p q = (case (p, q) of (Precedence a b c s, Precedence a' b' c' s') \<Rightarrow>
     a < a' \<or> (a = a' \<and> (b < b' \<or> (b = b' \<and> (c < c' \<or> (c = c' \<and> s \<le> s'))))))"

definition less_precedence :: "precedence \<Rightarrow> precedence \<Rightarrow> bool" where
  "less_precedence p q = (p \<le> q \<and> \<not> q \<le> (p::precedence))"

instance
  by intro_classes (auto simp: less_eq_precedence_def less_precedence_def split: precedence.splits)

end

definition denote_identifier :: "string \<Rightarrow> pre_id" where
  "denote_identifier i = (if numericIdentifier i then Number (nat_of_digits i) else Word i)"

definition denote_stage :: "string list \<Rightarrow> stage" where
  "denote_stage ids = (if ids = [] then Release else Pre (map denote_identifier ids))"

definition precedence_of :: "semanticVersion \<Rightarrow> precedence" where
  "precedence_of v = Precedence (svMajor v) (svMinor v) (svPatch v) (denote_stage (svPrerelease v))"

end
