(* ===== verification/Version_Facts.thy ===== *)
theory Version_Facts
  imports Version Image_Ref
begin

text \<open>
  A parsed version is written back as the text it came from (\<open>parse_version_wf\<close>), its comparison
  is the linear order \<open>precedence\<close> (\<open>compare_precedence\<close>), and two versions that compare as equal
  are the same text (\<open>precedence_inj\<close>).
\<close>

section \<open>Digit strings\<close>

lemma nat_of_digits_Cons: "nat_of_digits (c # s) = digit_value c * 10 ^ length s + nat_of_digits s"
proof -
  have "foldl (\<lambda>n c. 10 * n + digit_value c) k s = k * 10 ^ length s + nat_of_digits s" for k s
  proof (induction s arbitrary: k)
    case Nil
    then show ?case by (simp add: nat_of_digits_def)
  next
    case (Cons d s)
    have "nat_of_digits (d # s) = foldl (\<lambda>n c. 10 * n + digit_value c) (digit_value d) s" by (simp add: nat_of_digits_def)
    then show ?case using Cons [of "10 * k + digit_value d"] Cons [of "digit_value d"] by (simp add: algebra_simps)
  qed
  from this [of "digit_value c" s] show ?thesis by (simp add: nat_of_digits_def)
qed

lemma nat_of_digits_bound: "list_all is_digit s \<Longrightarrow> nat_of_digits s < 10 ^ length s"
proof (induction s)
  case Nil
  then show ?case by (simp add: nat_of_digits_def)
next
  case (Cons c s)
  then have "digit_value c \<le> 9" by (auto simp: digit_value_def is_digit_def)
  then have "digit_value c * 10 ^ length s \<le> 9 * 10 ^ length s" by simp
  moreover have "nat_of_digits s < 10 ^ length s" using Cons by simp
  ultimately show ?case unfolding nat_of_digits_Cons length_Cons power_Suc by linarith
qed

lemma digit_order: "is_digit c \<Longrightarrow> is_digit d \<Longrightarrow> c < d \<longleftrightarrow> digit_value c < digit_value d"
  by (auto simp: less_char_def is_digit_def digit_value_def)

lemma digit_eq: "is_digit c \<Longrightarrow> is_digit d \<Longrightarrow> digit_value c = digit_value d \<Longrightarrow> c = d"
  by (metis digit_order less_irrefl linorder_less_linear)

lemma same_length_order:
  assumes "length s = length t" "list_all is_digit s" "list_all is_digit t"
  shows "s < t \<longleftrightarrow> nat_of_digits s < nat_of_digits t"
  using assms
proof (induction s t rule: list_induct2)
  case Nil
  then show ?case by (simp add: nat_of_digits_def)
next
  case (Cons c s d t)
  have b: "nat_of_digits s < 10 ^ length t" "nat_of_digits t < 10 ^ length t"
    using nat_of_digits_bound [of s] nat_of_digits_bound [of t] Cons by simp_all
  have cd: "c < d \<longleftrightarrow> digit_value c < digit_value d" using Cons.prems digit_order by simp
  consider "digit_value c < digit_value d" | "digit_value d < digit_value c" | "digit_value c = digit_value d" by linarith
  then show ?case
  proof cases
    case 1
    then have "(digit_value c + 1) * 10 ^ length t \<le> digit_value d * 10 ^ length t" by (intro mult_le_mono1) simp
    with b have "nat_of_digits (c # s) < nat_of_digits (d # t)" using Cons.hyps by (simp add: nat_of_digits_Cons)
    with 1 cd show ?thesis by (simp add: Cons_less_Cons)
  next
    case 2
    then have "(digit_value d + 1) * 10 ^ length t \<le> digit_value c * 10 ^ length t" by (intro mult_le_mono1) simp
    with b have "nat_of_digits (d # t) < nat_of_digits (c # s)" using Cons.hyps by (simp add: nat_of_digits_Cons)
    moreover have "c \<noteq> d" using 2 by auto
    ultimately show ?thesis using 2 cd by (simp add: Cons_less_Cons)
  next
    case 3
    then have "c = d" using digit_eq Cons.prems by simp
    with Cons show ?thesis by (simp add: Cons_less_Cons nat_of_digits_Cons)
  qed
qed

text \<open>Digits without a leading zero are the decimal text of their value.\<close>

definition canonical_number :: "string \<Rightarrow> bool" where
  "canonical_number s \<longleftrightarrow> all_digits s \<and> (1 < length s \<longrightarrow> hd s \<noteq> CHR ''0'')"

lemma canonical_lower_bound:
  assumes "canonical_number s" "1 < length s"
  shows "10 ^ (length s - 1) \<le> nat_of_digits s"
proof -
  obtain c t where s: "s = c # t" using assms(2) by (cases s) auto
  have "is_digit c" "c \<noteq> CHR ''0''" using assms by (auto simp: s canonical_number_def all_digits_def)
  then have "1 \<le> digit_value c" using digit_eq [of c "CHR ''0''"]
    by (fastforce simp: digit_value_def is_digit_def)
  then have "1 * 10 ^ length t \<le> digit_value c * 10 ^ length t" by (intro mult_le_mono1)
  then show ?thesis unfolding s nat_of_digits_Cons length_Cons diff_Suc_1 mult_1 by linarith
qed

lemma canonical_length_order:
  assumes "canonical_number s" "canonical_number t" "length s < length t"
  shows "nat_of_digits s < nat_of_digits t"
proof -
  have "nat_of_digits s < 10 ^ length s" using assms(1) by (intro nat_of_digits_bound) (simp add: canonical_number_def all_digits_def)
  also have "(10::nat) ^ length s \<le> 10 ^ (length t - 1)" using assms(3) by (intro power_increasing) auto
  also have "\<dots> \<le> nat_of_digits t"
  proof (rule canonical_lower_bound [OF assms(2)])
    have "s \<noteq> []" using assms(1) by (simp add: canonical_number_def all_digits_def)
    with assms(3) show "1 < length t" by (cases s) auto
  qed
  finally show ?thesis .
qed

lemma canonical_number_order:
  assumes "canonical_number s" "canonical_number t"
  shows "length s < length t \<or> (length s = length t \<and> s < t) \<longleftrightarrow> nat_of_digits s < nat_of_digits t"
proof -
  have d: "list_all is_digit s" "list_all is_digit t" using assms by (simp_all add: canonical_number_def all_digits_def)
  consider "length s < length t" | "length t < length s" | "length s = length t" by linarith
  then show ?thesis
  proof cases
    case 1
    then show ?thesis using canonical_length_order [OF assms] by simp
  next
    case 2
    then show ?thesis using canonical_length_order [OF assms(2,1)] by simp
  next
    case 3
    then show ?thesis using same_length_order [OF 3 d] by simp
  qed
qed

lemma canonical_number_inj:
  assumes "canonical_number s" "canonical_number t" "nat_of_digits s = nat_of_digits t"
  shows "s = t"
proof -
  have l: "length s = length t"
    using canonical_length_order [OF assms(1,2)] canonical_length_order [OF assms(2,1)] assms(3)
    by (metis less_irrefl linorder_neqE_nat)
  show ?thesis
    using same_length_order [OF l] same_length_order [OF l [symmetric]] assms
    by (metis all_digits_def canonical_number_def less_irrefl linorder_less_linear)
qed

section \<open>What the parser establishes\<close>

definition identifier_ok :: "string \<Rightarrow> bool" where
  "identifier_ok i \<longleftrightarrow> i \<noteq> [] \<and> list_all identifier_rune (rune_values i)
     \<and> (numericIdentifier i \<longrightarrow> canonical_number i)"

lemma digit_run_bytes: "digit_run s \<longleftrightarrow> list_all is_digit s"
  unfolding digit_run_def is_digit_def by (subst rune_values_pred) auto

definition version_text :: "semanticVersion \<Rightarrow> string" where
  "version_text v = ''v'' @ join ''.'' [digits_of_nat (svMajor v), digits_of_nat (svMinor v), digits_of_nat (svPatch v)]
     @ (if svPrerelease v = [] then [] else ''-'' @ join ''.'' (svPrerelease v))"

definition version_wf :: "semanticVersion \<Rightarrow> bool" where
  "version_wf v \<longleftrightarrow> svRaw v = version_text v \<and> list_all identifier_ok (svPrerelease v)"

lemma zero_digit: "digit_value CHR ''0'' = 0"
  by (simp add: digit_value_def)

lemma canonical_digits_of_nat: "canonical_number (digits_of_nat n)"
proof (induction n rule: digits_of_nat.induct)
  case (1 n)
  show ?case
  proof (cases "n < 10")
    case True
    then show ?thesis by (simp add: canonical_number_def all_digits_def digits_of_nat.simps [of n])
  next
    case False
    let ?m = "n div 10"
    have c: "canonical_number (digits_of_nat ?m)" by (rule 1 [OF False])
    have "hd (digits_of_nat ?m) \<noteq> CHR ''0''"
    proof (cases "1 < length (digits_of_nat ?m)")
      case True
      with c show ?thesis by (simp add: canonical_number_def)
    next
      case len: False
      then have "?m < 10" using c False
        by (subst (asm) digits_of_nat.simps) (auto simp: digits_of_nat_digits split: if_splits)
      then have "digits_of_nat ?m = [byte (48 + ?m)]" by (subst digits_of_nat.simps) simp
      moreover have "?m \<noteq> 0" using False by auto
      then have "byte (48 + ?m) \<noteq> CHR ''0''" using \<open>?m < 10\<close> is_digit_byte(2) [of ?m]
        by (metis zero_digit)
      ultimately show ?thesis by simp
    qed
    then show ?thesis using c False
      by (subst digits_of_nat.simps) (auto simp: canonical_number_def all_digits_def)
  qed
qed

lemma canonical_is_decimal: "canonical_number s \<Longrightarrow> s = digits_of_nat (nat_of_digits s)"
  by (rule canonical_number_inj) (simp_all add: canonical_digits_of_nat nat_of_digits_of_nat)

lemma parse_component_ok:
  "parse_component v parts = Inr parts' \<longleftrightarrow>
     canonical_number v \<and> nat_of_digits v < 2 ^ 64 \<and> parts' = parts @ [nat_of_digits v]"
  by (cases v) (auto simp: parse_component_def parse_uint64_def canonical_number_def all_digits_def)

lemma parse_components:
  "fold_result parse_component cs parts = Inr parts' \<Longrightarrow>
     list_all canonical_number cs \<and> parts' = parts @ map nat_of_digits cs"
proof (induction cs arbitrary: parts)
  case Nil
  then show ?case by simp
next
  case (Cons c cs)
  then show ?case by (fastforce simp: rbind_Inr_iff parse_component_ok)
qed

lemma parse_identifier_ok: "parse_identifier i ids = Inr ids' \<longleftrightarrow> identifier_ok i \<and> ids' = ids @ [i]"
  by (cases i) (auto simp: parse_identifier_def identifier_ok_def numericIdentifier_def canonical_number_def
      all_digits_def digit_run_bytes)

lemma parse_identifiers:
  "fold_result parse_identifier xs ids = Inr ids' \<longleftrightarrow> list_all identifier_ok xs \<and> ids' = ids @ xs"
  by (induction xs arbitrary: ids) (auto simp: rbind_Inr_iff parse_identifier_ok)

lemma cut_byte_None: "cut_byte s c = None \<longleftrightarrow> c \<notin> set s"
  by (induction s) auto

lemma length_three: "length xs = 3 \<Longrightarrow> \<exists>a b c. xs = [a, b, c]"
  by (auto simp: numeral_3_eq_3 length_Suc_conv)

lemma parse_version_wf:
  assumes "parseVersion raw = Inr v"
  shows "version_wf v \<and> svRaw v = raw"
proof -
  obtain core pre where cp: "(case cut_byte (tl raw) CHR ''-'' of None \<Rightarrow> (tl raw, None) | Some (a, b) \<Rightarrow> (a, Some b)) = (core, pre)"
    by (metis surj_pair)
  let ?cs = "split_byte core CHR ''.''"
  from assms have pv: "has_prefix raw ''v''" and l: "length ?cs = 3"
    by (auto simp: parseVersion_def cp Let_def split: if_splits)
  from assms obtain parts ids where parts: "fold_result parse_component ?cs [] = Inr parts"
    and ids: "parse_prerelease pre = Inr ids"
    and v: "v = \<lparr>svRaw = raw, svMajor = parts ! 0, svMinor = parts ! 1, svPatch = parts ! 2, svPrerelease = ids\<rparr>"
    using pv l by (auto simp: parseVersion_def cp Let_def rbind_Inr_iff split: if_splits)
  obtain a b c where cs: "?cs = [a, b, c]"
    using length_three [OF l] by blast
  have can: "canonical_number a" "canonical_number b" "canonical_number c"
    and p: "parts = [nat_of_digits a, nat_of_digits b, nat_of_digits c]"
    using parse_components [OF parts] by (simp_all add: cs)
  have core: "core = join ''.'' [digits_of_nat (parts ! 0), digits_of_nat (parts ! 1), digits_of_nat (parts ! 2)]"
    using join_split [of "CHR ''.''" core] can canonical_is_decimal by (simp add: cs p)
  have raw: "raw = ''v'' @ tl raw" using pv by (cases raw) auto
  have tail: "tl raw = core @ (case pre of None \<Rightarrow> [] | Some q \<Rightarrow> ''-'' @ q)"
    using cp cut_byte_Some [of "tl raw" "CHR ''-''"] by (auto split: option.splits)
  have pre: "(case pre of None \<Rightarrow> [] | Some q \<Rightarrow> ''-'' @ q) = (if ids = [] then [] else ''-'' @ join ''.'' ids)
      \<and> list_all identifier_ok ids"
  proof (cases pre)
    case None
    then show ?thesis using ids by (simp add: parse_prerelease_def)
  next
    case (Some q)
    then have "list_all identifier_ok (split_byte q CHR ''.'')" "ids = split_byte q CHR ''.''"
      using ids by (auto simp: parse_prerelease_def parse_identifiers split: if_splits)
    then show ?thesis using Some by (simp add: join_split)
  qed
  have "raw = ''v'' @ core @ (if ids = [] then [] else ''-'' @ join ''.'' ids)"
    using raw tail pre by simp
  then show ?thesis using pre by (simp add: version_wf_def version_text_def v core)
qed

section \<open>The comparison is the order of precedence\<close>

lemma identifier_order:
  assumes "identifier_ok a" "identifier_ok b" "a \<noteq> b"
  shows "compare_identifiers a b = (if denote_identifier a < denote_identifier b then - 1 else 1)"
    "denote_identifier a \<noteq> denote_identifier b"
proof -
  have num: "canonical_number a" if "numericIdentifier a" using assms(1) that by (simp add: identifier_ok_def)
  have num': "canonical_number b" if "numericIdentifier b" using assms(2) that by (simp add: identifier_ok_def)
  show "compare_identifiers a b = (if denote_identifier a < denote_identifier b then - 1 else 1)"
    using num num' canonical_number_order [of a b] by (auto simp: compare_identifiers_def denote_identifier_def)
  show "denote_identifier a \<noteq> denote_identifier b"
    using num num' canonical_number_inj [of a b] assms(3) by (auto simp: denote_identifier_def)
qed

lemma prerelease_order:
  assumes "list_all identifier_ok xs" "list_all identifier_ok ys"
  shows "compare_prerelease xs ys =
     (if map denote_identifier xs < map denote_identifier ys then - 1 else if xs = ys then 0 else 1)
     \<and> (map denote_identifier xs = map denote_identifier ys \<longrightarrow> xs = ys)"
  using assms
proof (induction xs ys rule: compare_prerelease.induct)
  case (4 a as b bs')
  show ?case
  proof (cases "a = b")
    case True
    with 4 show ?thesis by (auto simp: Cons_less_Cons)
  next
    case False
    with 4 identifier_order [of a b] show ?thesis by (auto simp: Cons_less_Cons)
  qed
qed auto

lemma less_precedence_simps:
  "Precedence a b c s < Precedence a' b' c' s' \<longleftrightarrow>
     a < a' \<or> (a = a' \<and> (b < b' \<or> (b = b' \<and> (c < c' \<or> (c = c' \<and> s < s')))))"
  by (auto simp: less_precedence_def less_eq_precedence_def)

lemma compare_precedence:
  assumes "version_wf v" "version_wf w"
  shows "compare v w = (if precedence_of v < precedence_of w then - 1
     else if precedence_of v = precedence_of w then 0 else 1)"
proof -
  have ids: "list_all identifier_ok (svPrerelease v)" "list_all identifier_ok (svPrerelease w)"
    using assms by (simp_all add: version_wf_def)
  note order = prerelease_order [OF ids]
  have st: "(if svPrerelease v = [] \<and> svPrerelease w = [] then 0 else if svPrerelease v = [] then 1
      else if svPrerelease w = [] then - 1 else compare_prerelease (svPrerelease v) (svPrerelease w)) =
     (if denote_stage (svPrerelease v) < denote_stage (svPrerelease w) then - 1
      else if denote_stage (svPrerelease v) = denote_stage (svPrerelease w) then 0 else (1::int))"
    using order by (auto simp: denote_stage_def)
  show ?thesis unfolding compare_def st precedence_of_def less_precedence_simps
    by (simp add: less_precedence_simps)
qed

text \<open>Two canonical versions compare as equal only when they are the same text.\<close>

lemma precedence_inj:
  assumes "version_wf v" "version_wf w" "precedence_of v = precedence_of w"
  shows "svRaw v = svRaw w"
proof -
  have ids: "list_all identifier_ok (svPrerelease v)" "list_all identifier_ok (svPrerelease w)"
    using assms by (simp_all add: version_wf_def)
  have "svPrerelease v = svPrerelease w"
    using assms(3) prerelease_order [OF ids] by (auto simp: precedence_of_def denote_stage_def split: if_splits)
  with assms show ?thesis by (simp add: version_wf_def version_text_def precedence_of_def)
qed

end
