(* ===== verification/Project_Trust.thy ===== *)
theory Project_Trust
  imports Registry_Parse Image_Ref Go_Sha256 Platform Atomicio
begin

text \<open>
  Project overlays of \<open>internal/projectconfig/projectconfig.go\<close>: what an overlay may contain, how
  it is merged into the global registry, the store of trusted overlays with its parser and
  writer, the status of an overlay, and the steps of \<open>cb trust\<close> and \<open>cb untrust\<close>.
\<close>

section \<open>Overlays\<close>

record location =
  locRoot :: string
  locPath :: string

record overlay =
  ovLocation :: location
  ovDigest :: string
  ovRegistry :: registry

datatype overlay_error =
    Overlay_Defaults
  | Overlay_Alias string
  | Overlay_Python string
  | Overlay_Host_Mounts string
  | Overlay_Env_Prefixes string
  | Overlay_Shared_Volumes string

definition check_overlay_tool :: "string \<times> tool \<Rightarrow> (overlay_error, unit) result" where
  "check_overlay_tool entry =
     (let name = fst entry; t = snd entry in
      if tDefaultFamily t \<noteq> [] \<or> tDefaultVersion t \<noteq> [] \<or> tDefaultAlias t \<noteq> [] then Inl (Overlay_Alias name)
      else if tProvider t = ''python'' then Inl (Overlay_Python name)
      else if tHostMounts t \<noteq> [] then Inl (Overlay_Host_Mounts name)
      else if tEnvPrefixes t \<noteq> [] then Inl (Overlay_Env_Prefixes name)
      else if tSharedVolumes t \<noteq> [] then Inl (Overlay_Shared_Volumes name)
      else Inr ())"

definition validateOverlay :: "registry \<Rightarrow> (overlay_error, unit) result" where
  "validateOverlay reg =
     (if Defaults reg \<noteq> [] then Inl Overlay_Defaults else check_all check_overlay_tool (Tools reg))"

definition maxConfigFileSize :: nat where "maxConfigFileSize = 1048576"

text \<open>\<open>readBounded\<close> of what the file system returns: at most one byte more than the limit is read.\<close>

definition readBounded :: "string \<Rightarrow> string option" where
  "readBounded contents =
     (let b = take (maxConfigFileSize + 1) contents in if maxConfigFileSize < length b then None else Some b)"

datatype load_error = Load_Unreadable | Load_Parse reg_error | Load_Overlay overlay_error

definition overlay_digest :: "string \<Rightarrow> string" where
  "overlay_digest b = hex_encode (Sum256 b)"

definition LoadOverlay :: "unicode \<Rightarrow> (string \<Rightarrow> string option) \<Rightarrow> location \<Rightarrow> (load_error, overlay) result" where
  "LoadOverlay U readFile loc = (case readFile (locPath loc) of
     None \<Rightarrow> Inl Load_Unreadable
   | Some contents \<Rightarrow> (case readBounded contents of
       None \<Rightarrow> Inl Load_Unreadable
     | Some b \<Rightarrow>
         rbind (map_err Load_Parse (ParseTOML U b)) (\<lambda>reg.
         rbind (map_err Load_Overlay (validateOverlay reg)) (\<lambda>_.
           Inr \<lparr>ovLocation = loc, ovDigest = overlay_digest b, ovRegistry = reg\<rparr>))))"

datatype merge_error = Merge_Collision string string

definition merge_tool ::
    "unicode \<Rightarrow> registry \<Rightarrow> string \<Rightarrow> string \<times> tool \<Rightarrow> (string, tool) gomap \<Rightarrow> (merge_error, (string, tool) gomap) result" where
  "merge_tool U global root entry tools =
     (case Resolve U global (fst entry) of
        Some (_, resolved) \<Rightarrow> Inl (Merge_Collision (fst entry) resolved)
      | None \<Rightarrow> Inr (mput (fst entry) ((snd entry)\<lparr>tTrustedProjectRoot := root\<rparr>) tools))"

definition Merge :: "unicode \<Rightarrow> registry \<Rightarrow> overlay \<Rightarrow> (merge_error, registry) result" where
  "Merge U global ov =
     rbind (fold_result (merge_tool U global (locRoot (ovLocation ov))) (Tools (ovRegistry ov)) (Tools global)) (\<lambda>tools.
       Inr \<lparr>SchemaVersion = SchemaVersion global, Tools = tools, Defaults = Defaults global\<rparr>)"

section \<open>The trust store\<close>

record project_entry =
  peRoot :: string
  peDigest :: string
  peTools :: "string list"

type_synonym trust_store = "(string, project_entry) gomap"

definition rootID :: "string \<Rightarrow> string" where
  "rootID root = hex_encode (Sum256 root)"

datatype store_entry_error =
    Store_Root_Id string
  | Store_Root_Path string
  | Store_Digest string
  | Store_No_Tools string
  | Store_Unsorted string
  | Store_Tool string string

definition check_store_tool :: "string \<Rightarrow> string \<Rightarrow> string list \<Rightarrow> (store_entry_error, string list) result" where
  "check_store_tool kid name seen =
     (if \<not> ValidToolName name \<or> ReservedToolName name \<or> name \<in> set seen then Inl (Store_Tool kid name)
      else Inr (name # seen))"

definition validateEntry :: "platform \<Rightarrow> string \<Rightarrow> project_entry \<Rightarrow> (store_entry_error, unit) result" where
  "validateEntry P kid e =
     (let U = pf_unicode P in
      if \<not> validSHA256Hex U kid \<or> rootID (peRoot e) \<noteq> kid then Inl (Store_Root_Id kid)
      else if \<not> pf_is_abs P (peRoot e) \<or> pf_clean P (peRoot e) \<noteq> peRoot e then Inl (Store_Root_Path kid)
      else if \<not> validSHA256Hex U (peDigest e) then Inl (Store_Digest kid)
      else if peTools e = [] then Inl (Store_No_Tools kid)
      else if \<not> sorted (peTools e) then Inl (Store_Unsorted kid)
      else rbind (fold_result (check_store_tool kid) (peTools e) []) (\<lambda>_. Inr ()))"

datatype store_line_error =
    SLine_Header toml_error
  | SLine_Section string
  | SLine_Id string
  | SLine_Duplicate_Section string
  | SLine_Key_Value
  | SLine_Only_Version
  | SLine_Version string
  | SLine_Duplicate_Key string
  | SLine_Value string toml_error
  | SLine_Unsupported string

datatype store_error =
    Store_Line nat store_line_error
  | Store_Too_Long
  | Store_No_Version
  | Store_Entry store_entry_error

record store_state =
  tsEntries :: trust_store
  tsCurrent :: string
  tsVersionSeen :: bool
  tsKeysSeen :: "string list"

definition projects_header :: string where "projects_header = ''projects.''"

definition empty_project :: project_entry where
  "empty_project = \<lparr>peRoot = [], peDigest = [], peTools = []\<rparr>"

definition store_header :: "unicode \<Rightarrow> string \<Rightarrow> store_state \<Rightarrow> (store_line_error, store_state) result" where
  "store_header U sec st =
     (if \<not> has_prefix sec projects_header then Inl (SLine_Section sec)
      else
        (let kid = trim_prefix sec projects_header in
         if \<not> validSHA256Hex U kid then Inl (SLine_Id kid)
         else if mhas (tsEntries st) kid then Inl (SLine_Duplicate_Section kid)
         else Inr (st\<lparr>tsEntries := mput kid empty_project (tsEntries st), tsCurrent := kid, tsKeysSeen := []\<rparr>)))"

definition store_version :: "string \<Rightarrow> string \<Rightarrow> store_state \<Rightarrow> (store_line_error, store_state) result" where
  "store_version key v st =
     (if key \<noteq> ''trust_version'' \<or> tsVersionSeen st then Inl SLine_Only_Version
      else if atoi v \<noteq> Some 1 then Inl (SLine_Version v)
      else Inr (st\<lparr>tsVersionSeen := True\<rparr>))"

definition project_of :: "trust_store \<Rightarrow> string \<Rightarrow> project_entry" where
  "project_of m kid = (case map_of m kid of None \<Rightarrow> empty_project | Some e \<Rightarrow> e)"

definition store_key :: "string \<Rightarrow> string \<Rightarrow> store_state \<Rightarrow> (store_line_error, store_state) result" where
  "store_key key v st =
     (if key \<in> set (tsKeysSeen st) then Inl (SLine_Duplicate_Key key)
      else
        (let st1 = st\<lparr>tsKeysSeen := key # tsKeysSeen st\<rparr>; e = project_of (tsEntries st) (tsCurrent st);
             put = (\<lambda>e'. st1\<lparr>tsEntries := mput (tsCurrent st) e' (tsEntries st)\<rparr>) in
         if key = ''root'' then
           rbind (map_err (SLine_Value key) (ParseQuoted v)) (\<lambda>q. Inr (put (e\<lparr>peRoot := q\<rparr>)))
         else if key = ''overlay_sha256'' then
           rbind (map_err (SLine_Value key) (ParseQuoted v)) (\<lambda>q. Inr (put (e\<lparr>peDigest := q\<rparr>)))
         else if key = ''tools'' then
           rbind (map_err (SLine_Value key) (ParseStringArray v)) (\<lambda>q. Inr (put (e\<lparr>peTools := q\<rparr>)))
         else Inl (SLine_Unsupported key)))"

definition store_line :: "unicode \<Rightarrow> nat \<times> string \<Rightarrow> store_state \<Rightarrow> (store_error, store_state) result" where
  "store_line U entry st =
     (let raw = snd entry; line = logical raw in
      if line = [] then Inr st
      else map_err (Store_Line (fst entry)) (case ParseSectionHeader raw of
          Inl e \<Rightarrow> Inl (SLine_Header e)
        | Inr (Some sec) \<Rightarrow> store_header U sec st
        | Inr None \<Rightarrow> (case split_kv line of
            None \<Rightarrow> Inl SLine_Key_Value
          | Some (key, v) \<Rightarrow> (if tsCurrent st = [] then store_version key v st else store_key key v st))))"

definition store_start :: store_state where
  "store_start = \<lparr>tsEntries = [], tsCurrent = [], tsVersionSeen = False, tsKeysSeen = []\<rparr>"

definition check_project :: "platform \<Rightarrow> string \<times> project_entry \<Rightarrow> (store_error, unit) result" where
  "check_project P entry = map_err Store_Entry (validateEntry P (fst entry) (snd entry))"

definition parseStore :: "platform \<Rightarrow> string \<Rightarrow> (store_error, trust_store) result" where
  "parseStore P b = (case scan_lines b of (ls, too_long) \<Rightarrow>
     rbind (fold_result (store_line (pf_unicode P)) (enumerate 1 ls) store_start) (\<lambda>st.
       if too_long then Inl Store_Too_Long
       else if \<not> tsVersionSeen st then Inl Store_No_Version
       else rbind (check_all (check_project P) (tsEntries st)) (\<lambda>_. Inr (tsEntries st))))"

definition project_lines :: "unicode \<Rightarrow> string \<times> project_entry \<Rightarrow> string list" where
  "project_lines U entry =
     [[], ''['' @ (projects_header @ fst entry) @ '']'',
      key_line ''root'' (Quote U (peRoot (snd entry))),
      key_line ''overlay_sha256'' (Quote U (peDigest (snd entry))),
      key_line ''tools'' (Array U (peTools (snd entry)))]"

definition store_lines :: "unicode \<Rightarrow> trust_store \<Rightarrow> string list" where
  "store_lines U store = key_line ''trust_version'' (itoa 1) # concat (map (project_lines U) (sort_key fst store))"

definition marshalStore :: "platform \<Rightarrow> trust_store \<Rightarrow> (store_error, string) result" where
  "marshalStore P store =
     rbind (check_all (check_project P) store) (\<lambda>_. Inr (unlines (store_lines (pf_unicode P) store)))"

text \<open>
  \<open>loadStore\<close> reads the store, or its backup when the store is missing; \<open>None\<close> of \<open>readBounded\<close> is
  a file over the limit. \<open>loadStoreForMutation\<close> recovers the backup first.
\<close>

definition parse_bounded :: "platform \<Rightarrow> string \<Rightarrow> (store_error, trust_store) result" where
  "parse_bounded P contents = (case readBounded contents of None \<Rightarrow> Inl Store_Too_Long | Some b \<Rightarrow> parseStore P b)"

definition loadStore :: "platform \<Rightarrow> disk \<Rightarrow> (store_error, trust_store) result" where
  "loadStore P d = (case dkPrimary d of
     Some c \<Rightarrow> parse_bounded P c
   | None \<Rightarrow> (case dkBackup d of None \<Rightarrow> Inr [] | Some c \<Rightarrow> parse_bounded P c))"

datatype mutation_error = Mut_Recover "store_error recover_error" | Mut_Load store_error | Mut_Write

definition loadStoreForMutation :: "platform \<Rightarrow> (op \<Rightarrow> bool) \<Rightarrow> disk \<Rightarrow> (mutation_error, trust_store \<times> disk) result" where
  "loadStoreForMutation P ok d =
     rbind (map_err Mut_Recover (RecoverFromBackup (\<lambda>c. rbind (parse_bounded P c) (\<lambda>_. Inr ())) (ok Restore_Backup) d)) (\<lambda>(_, d').
       rbind (map_err Mut_Load (loadStore P d')) (\<lambda>store. Inr (store, d')))"

definition saveStore :: "platform \<Rightarrow> (op \<Rightarrow> bool) \<Rightarrow> trust_store \<Rightarrow> disk \<Rightarrow> (mutation_error, disk) result" where
  "saveStore P ok store d =
     rbind (map_err Mut_Load (marshalStore P store)) (\<lambda>data.
       case writeFile ok data d of (success, d') \<Rightarrow> if success then Inr d' else Inl Mut_Write)"

section \<open>The status of an overlay\<close>

datatype status = StAbsent | StTrusted | StUntrusted | StChanged | StInvalid

datatype inspect_error = Ins_Load load_error | Ins_Merge merge_error | Ins_External | Ins_Store store_error

record context_result =
  cxStatus :: status
  cxLocation :: location
  cxOverlay :: "overlay option"
  cxEffective :: "registry option"
  cxErr :: "inspect_error option"

text \<open>
  \<open>inspectLocation\<close>; \<open>external\<close> tells whether the store lies outside the project
  (\<open>validateExternalStore\<close>), which depends on symbolic links of the file system.
\<close>

definition inspectLocation ::
    "platform \<Rightarrow> (string \<Rightarrow> string option) \<Rightarrow> bool \<Rightarrow> disk \<Rightarrow> registry \<Rightarrow> location \<Rightarrow> context_result" where
  "inspectLocation P readFile external d global loc =
     (let U = pf_unicode P;
          invalid = (\<lambda>ov eff e. \<lparr>cxStatus = StInvalid, cxLocation = loc, cxOverlay = ov, cxEffective = eff, cxErr = Some e\<rparr>) in
      case LoadOverlay U readFile loc of
        Inl e \<Rightarrow> invalid None None (Ins_Load e)
      | Inr ov \<Rightarrow> (case Merge U global ov of
          Inl e \<Rightarrow> invalid (Some ov) None (Ins_Merge e)
        | Inr merged \<Rightarrow>
          (if \<not> external then invalid (Some ov) (Some merged) Ins_External
           else (case loadStore P d of
               Inl e \<Rightarrow> invalid (Some ov) None (Ins_Store e)
             | Inr store \<Rightarrow>
               (let st = (case map_of store (rootID (locRoot loc)) of
                      None \<Rightarrow> StUntrusted
                    | Some entry \<Rightarrow>
                      (if peRoot entry \<noteq> locRoot loc \<or> peDigest entry \<noteq> ovDigest ov
                          \<or> peTools entry \<noteq> ToolNames (ovRegistry ov)
                       then StChanged else StTrusted))
                in \<lparr>cxStatus = st, cxLocation = loc, cxOverlay = Some ov, cxEffective = Some merged, cxErr = None\<rparr>)))))"

text \<open>\<open>Context.Registry\<close>: the registry the command runs with.\<close>

definition context_registry :: "context_result \<Rightarrow> registry \<Rightarrow> registry option" where
  "context_registry c global = (case cxStatus c of
     StAbsent \<Rightarrow> Some global | StTrusted \<Rightarrow> cxEffective c | _ \<Rightarrow> None)"

section \<open>cb trust and cb untrust\<close>

datatype args_error = Args_Check_Twice | Args_Yes_Twice | Args_Unknown string | Args_Both

definition trust_arg :: "string \<Rightarrow> bool \<times> bool \<Rightarrow> (args_error, bool \<times> bool) result" where
  "trust_arg arg cy =
     (if arg = ''--check'' then (if fst cy then Inl Args_Check_Twice else Inr (True, snd cy))
      else if arg = ''--yes'' then (if snd cy then Inl Args_Yes_Twice else Inr (fst cy, True))
      else Inl (Args_Unknown arg))"

definition parseTrustArgs :: "string list \<Rightarrow> (args_error, bool \<times> bool) result" where
  "parseTrustArgs args = rbind (fold_result trust_arg args (False, False)) (\<lambda>cy.
     if fst cy \<and> snd cy then Inl Args_Both else Inr cy)"

datatype trust_error =
    Trust_Args args_error
  | Trust_Review
  | Trust_Non_Interactive
  | Trust_Declined
  | Trust_Recheck
  | Trust_External
  | Trust_Store mutation_error
  | Trust_Shims
  | Untrust_Absent

text \<open>
  The surroundings of \<open>Trust\<close>: the interactive answer, and the overlay as it is found after the
  approval and again after the shims are installed.
\<close>

record trust_env =
  teInteractive :: bool
  teAnswer :: "string option"
  teCurrent :: "(load_error, overlay) result option"
  teAfterShims :: "(load_error, overlay) result option"
  teExternal :: bool
  teShimsOk :: bool

text \<open>\<open>reloadReviewedOverlay\<close>: \<open>None\<close> is an overlay that is not found any more.\<close>

definition reloadReviewedOverlay ::
    "location \<Rightarrow> string \<Rightarrow> (load_error, overlay) result option \<Rightarrow> (trust_error, overlay) result" where
  "reloadReviewedOverlay loc digest found = (case found of
     Some (Inr current) \<Rightarrow>
       (if ovLocation current \<noteq> loc \<or> ovDigest current \<noteq> digest then Inl Trust_Recheck else Inr current)
   | _ \<Rightarrow> Inl Trust_Recheck)"

definition confirm :: "trust_env \<Rightarrow> bool \<Rightarrow> (trust_error, unit) result" where
  "confirm env yes =
     (if yes then Inr ()
      else if \<not> teInteractive env then Inl Trust_Non_Interactive
      else if teAnswer env \<noteq> Some ''trust'' then Inl Trust_Declined else Inr ())"

text \<open>The disk after \<open>Trust\<close>, or an error; \<open>--check\<close> leaves the disk alone.\<close>

definition Trust ::
    "platform \<Rightarrow> (op \<Rightarrow> bool) \<Rightarrow> trust_env \<Rightarrow> context_result \<Rightarrow> string list \<Rightarrow> disk \<Rightarrow> (trust_error, disk) result" where
  "Trust P ok env c args d =
     rbind (map_err Trust_Args (parseTrustArgs args)) (\<lambda>(check, yes).
     case cxOverlay c of
       None \<Rightarrow> Inl Trust_Review
     | Some reviewed \<Rightarrow>
       (if cxStatus c = StAbsent \<or> cxStatus c = StInvalid then Inl Trust_Review
        else if check then Inr d
        else
          rbind (confirm env yes) (\<lambda>_.
          rbind (reloadReviewedOverlay (cxLocation c) (ovDigest reviewed) (teCurrent env)) (\<lambda>current.
          if \<not> teExternal env then Inl Trust_External
          else
            (let names = ToolNames (ovRegistry current) in
             rbind (map_err Trust_Store (loadStoreForMutation P ok d)) (\<lambda>(store, d1).
             if \<not> teShimsOk env then Inl Trust_Shims
             else
               rbind (reloadReviewedOverlay (cxLocation c) (ovDigest current) (teAfterShims env)) (\<lambda>again.
               map_err Trust_Store (saveStore P ok
                 (mput (rootID (locRoot (cxLocation c)))
                    \<lparr>peRoot = locRoot (cxLocation c), peDigest = ovDigest again, peTools = names\<rparr> store) d1)))))))
     )"

definition untrustLocation :: "platform \<Rightarrow> (op \<Rightarrow> bool) \<Rightarrow> bool \<Rightarrow> location \<Rightarrow> disk \<Rightarrow> (trust_error, disk) result" where
  "untrustLocation P ok external loc d =
     (if \<not> external then Inl Trust_External
      else rbind (map_err Trust_Store (loadStoreForMutation P ok d)) (\<lambda>(store, d1).
        if \<not> mhas store (rootID (locRoot loc)) then Inl Untrust_Absent
        else map_err Trust_Store (saveStore P ok (mdel (rootID (locRoot loc)) store) d1)))"

end
