(* ===== verification/Project_Trust_Facts.thy ===== *)
theory Project_Trust_Facts
  imports Project_Trust Lockfile_Facts Registry_Defaults
begin

text \<open>
  The trust store reads back as it was written (\<open>store_reads_back\<close>, \<open>save_then_load\<close>) when its
  lines fit the reader and not otherwise; every store that is read is well formed; a merge keeps
  the meaning of every global name (\<open>merge_resolve\<close>); and \<open>trusted_iff\<close>, \<open>trust_writes\<close>,
  \<open>trust_then_trusted\<close> and \<open>untrusted_after\<close> say what trust is and how it is given and taken.
\<close>

section \<open>Reading back a written store\<close>

lemma project_key_plain:
  assumes "validateEntry P kid e = Inr u"
  shows "plain_key (projects_header @ kid)" "kid \<noteq> []" "validSHA256Hex (pf_unicode P) kid"
proof -
  have k: "kid = rootID (peRoot e)" and v: "validSHA256Hex (pf_unicode P) kid"
    using assms by (auto simp: validateEntry_def Let_def split: if_splits)
  have "list_all hex_char kid" using hex_encode_chars Sum256_bound by (auto simp: k rootID_def)
  then have "list_all key_char kid"
    by (auto simp: list_all_iff hex_char_def key_char_def is_digit_def)
  then show "plain_key (projects_header @ kid)"
    by (auto simp: plain_key_def projects_header_def key_char_def list_all_iff)
  show "validSHA256Hex (pf_unicode P) kid" by (rule v)
  then show "kid \<noteq> []" by (auto simp: validSHA256Hex_def)
qed

lemma store_header_line:
  assumes "plain_key (projects_header @ kid)" "validSHA256Hex U kid" "\<not> mhas (tsEntries st) kid"
  shows "store_line U (n, ''['' @ (projects_header @ kid) @ '']'') st =
     Inr (st\<lparr>tsEntries := mput kid empty_project (tsEntries st), tsCurrent := kid, tsKeysSeen := []\<rparr>)"
  unfolding store_line_def fst_conv snd_conv header_round_trip [OF assms(1)] Let_def store_header_def
  using assms(2,3) by (simp add: has_prefix_iff)

definition put_project :: "(project_entry \<Rightarrow> project_entry) \<Rightarrow> string \<Rightarrow> store_state \<Rightarrow> store_state" where
  "put_project f key st = st\<lparr>tsKeysSeen := key # tsKeysSeen st,
     tsEntries := mput (tsCurrent st) (f (project_of (tsEntries st) (tsCurrent st))) (tsEntries st)\<rparr>"

lemma store_quoted_lines:
  assumes "tsCurrent st \<noteq> []"
  shows "''root'' \<notin> set (tsKeysSeen st) \<Longrightarrow> store_line U (n, key_line ''root'' (Quote V q)) st =
      Inr (put_project (\<lambda>e. e\<lparr>peRoot := q\<rparr>) ''root'' st)"
    "''overlay_sha256'' \<notin> set (tsKeysSeen st) \<Longrightarrow> store_line U (n, key_line ''overlay_sha256'' (Quote V q)) st =
      Inr (put_project (\<lambda>e. e\<lparr>peDigest := q\<rparr>) ''overlay_sha256'' st)"
    "''tools'' \<notin> set (tsKeysSeen st) \<Longrightarrow> store_line U (n, key_line ''tools'' (Array V qs)) st =
      Inr (put_project (\<lambda>e. e\<lparr>peTools := qs\<rparr>) ''tools'' st)"
proof -
  have k: "plain_key ''root''" "plain_key ''overlay_sha256''" "plain_key ''tools''"
    by (simp_all add: plain_key_def key_char_def is_digit_def)
  note q = quoted.logical_key_line quoted.split_key_line quoted.header_key_line
  note a = quoted_array.logical_key_line quoted_array.split_key_line quoted_array.header_key_line
  note d = store_line_def store_key_def put_project_def Let_def parse_quoted_quote
  show "''root'' \<notin> set (tsKeysSeen st) \<Longrightarrow> store_line U (n, key_line ''root'' (Quote V q)) st =
      Inr (put_project (\<lambda>e. e\<lparr>peRoot := q\<rparr>) ''root'' st)"
    using assms q [OF k(1), of V q] quoted.key_line_nonempty [of "''root''" V q] by (simp add: d)
  show "''overlay_sha256'' \<notin> set (tsKeysSeen st) \<Longrightarrow> store_line U (n, key_line ''overlay_sha256'' (Quote V q)) st =
      Inr (put_project (\<lambda>e. e\<lparr>peDigest := q\<rparr>) ''overlay_sha256'' st)"
    using assms q [OF k(2), of V q] quoted.key_line_nonempty [of "''overlay_sha256''" V q] by (simp add: d)
  show "''tools'' \<notin> set (tsKeysSeen st) \<Longrightarrow> store_line U (n, key_line ''tools'' (Array V qs)) st =
      Inr (put_project (\<lambda>e. e\<lparr>peTools := qs\<rparr>) ''tools'' st)"
    using assms a [OF k(3), of V qs] quoted_array.key_line_nonempty [of "''tools''" V qs] by (simp add: d parse_array_array)
qed

lemma mput_append_last: "\<not> mhas m k \<Longrightarrow> mput k v (m @ [(k, w)]) = m @ [(k, v)]"
  by (induction m) (auto simp: mput_def)

lemma project_of_last: "\<not> mhas m k \<Longrightarrow> project_of (m @ [(k, w)]) k = w"
  by (induction m) (auto simp: project_of_def)

lemma project_block:
  assumes "validateEntry P kid e = Inr u" "\<not> mhas (tsEntries st) kid"
  shows "fold_result (store_line (pf_unicode P)) (enumerate n (project_lines U (kid, e))) st =
     Inr (st\<lparr>tsEntries := tsEntries st @ [(kid, e)], tsCurrent := kid, tsKeysSeen := [''tools'', ''overlay_sha256'', ''root'']\<rparr>)"
proof -
  note k = project_key_plain [OF assms(1)]
  have empty: "store_line U' (j, []) st = Inr st" for U' j by (simp add: store_line_def logical_def StripComment_def)
  show ?thesis
    using store_header_line [OF k(1,3) assms(2)] assms(2) k(2)
    by (simp add: project_lines_def empty store_quoted_lines put_project_def mput_append_last mput_fresh
        project_of_last empty_project_def)
qed

lemma project_blocks:
  assumes "\<forall>ke \<in> set kes. validateEntry P (fst ke) (snd ke) = Inr ()" "wf_map (tsEntries st @ kes)"
  shows "\<exists>st'. fold_result (store_line (pf_unicode P)) (enumerate n (concat (map (project_lines U) kes))) st = Inr st'
     \<and> tsEntries st' = tsEntries st @ kes \<and> tsVersionSeen st' = tsVersionSeen st"
  using assms
proof (induction kes arbitrary: st n)
  case Nil
  then show ?case by simp
next
  case (Cons ke kes)
  obtain kid e where ke: "ke = (kid, e)" by (cases ke)
  have f: "\<not> mhas (tsEntries st) kid" using Cons.prems(2) by (auto simp: ke wf_map_def mhas_def)
  have v: "validateEntry P kid e = Inr ()" using Cons.prems(1) by (simp add: ke)
  let ?st = "st\<lparr>tsEntries := tsEntries st @ [ke], tsCurrent := kid, tsKeysSeen := [''tools'', ''overlay_sha256'', ''root'']\<rparr>"
  have "\<exists>st'. fold_result (store_line (pf_unicode P)) (enumerate (n + length (project_lines U ke)) (concat (map (project_lines U) kes))) ?st = Inr st'
     \<and> tsEntries st' = tsEntries ?st @ kes \<and> tsVersionSeen st' = tsVersionSeen ?st"
    using Cons.prems by (intro Cons.IH) simp_all
  then show ?case using project_block [OF v f, of n U] by (simp add: ke enumerate_append_eq fold_result_append)
qed

lemma store_version_line:
  "store_line U (n, key_line ''trust_version'' (itoa 1)) store_start = Inr (store_start\<lparr>tsVersionSeen := True\<rparr>)"
proof -
  have k: "plain_key ''trust_version''" by (simp add: plain_key_def key_char_def)
  have ok: "- (2 ^ 63) \<le> (1::int) \<and> (1::int) < 2 ^ 63" by simp
  note d = decimal.logical_key_line [OF k ok] decimal.split_key_line [OF k ok]
    decimal.key_line_nonempty [of "''trust_version''" 1] decimal.header_key_line [OF k ok]
  show ?thesis using d atoi_itoa [of 1] by (simp add: store_line_def Let_def store_version_def store_start_def)
qed

lemma store_lines_printable:
  assumes "\<forall>ke \<in> set store. validateEntry P (fst ke) (snd ke) = Inr ()"
  shows "\<forall>l \<in> set (store_lines U store). printable_bytes l"
proof -
  have q: "printable_bytes (Quote U s)" for s by (simp add: Quote_def go_quote_printable)
  have i: "printable_bytes (itoa v)" for v using plain_key_facts(9) [OF itoa_plain] .
  have h: "printable_bytes (''['' @ (projects_header @ fst ke) @ '']'')" if "ke \<in> set store" for ke
    using plain_key_facts(9) [OF project_key_plain(1) [OF bspec [OF assms that]]] by simp
  have "\<forall>l \<in> set (project_lines U ke). printable_bytes l" if "ke \<in> set store" for ke
    using h [OF that] by (auto simp: project_lines_def printable_append_Cons q array_printable)
  then show ?thesis by (auto simp: store_lines_def printable_append_Cons i)
qed

definition store_wf :: "platform \<Rightarrow> trust_store \<Rightarrow> bool" where
  "store_wf P store \<longleftrightarrow> wf_map store \<and> (\<forall>ke \<in> set store. validateEntry P (fst ke) (snd ke) = Inr ())"

lemma marshal_iff:
  "wf_map store \<Longrightarrow> marshalStore P store = Inr data \<longleftrightarrow> store_wf P store \<and> data = unlines (store_lines (pf_unicode P) store)"
  by (auto simp: marshalStore_def rbind_Inr_iff check_all_ok_iff store_wf_def check_project_def)

lemma wf_map_sort: "wf_map m \<Longrightarrow> wf_map (sort_key fst m)"
proof -
  assume "wf_map m"
  moreover have "mset (mkeys (sort_key fst m)) = mset (mkeys m)" by (simp add: mkeys_def)
  ultimately show ?thesis by (metis wf_map_def mset_eq_imp_distinct_iff)
qed

lemma store_reads_back:
  assumes "wf_map store" "marshalStore P store = Inr data"
  shows "(\<forall>l \<in> set (store_lines (pf_unicode P) store). length l < max_token) \<Longrightarrow> parseStore P data = Inr (sort_key fst store)"
    "(\<exists>l \<in> set (store_lines (pf_unicode P) store). max_token \<le> length l) \<Longrightarrow> \<not> is_ok (parseStore P data)"
proof -
  let ?U = "pf_unicode P"
  let ?ls = "store_lines ?U store"
  have wf: "store_wf P store" and data: "data = unlines ?ls" using assms by (simp_all add: marshal_iff)
  then have v: "\<forall>ke \<in> set store. validateEntry P (fst ke) (snd ke) = Inr ()" by (simp add: store_wf_def)
  have pr: "\<forall>l \<in> set ?ls. printable_bytes l" by (rule store_lines_printable [OF v])
  let ?kes = "sort_key fst store"
  show "parseStore P data = Inr ?kes" if short: "\<forall>l \<in> set ?ls. length l < max_token"
  proof -
    from short have s: "scan_lines (unlines ?ls) = (?ls, False)" using scan_unlines pr by (simp add: good_line_def)
    let ?st = "store_start\<lparr>tsVersionSeen := True\<rparr>"
    have "wf_map (tsEntries ?st @ ?kes)" using wf_map_sort [OF assms(1)] by (simp add: store_start_def)
    from project_blocks [OF _ this, of P 2 ?U] v obtain st' where
      st': "fold_result (store_line ?U) (enumerate 2 (concat (map (project_lines ?U) ?kes))) ?st = Inr st'"
        "tsEntries st' = ?kes" "tsVersionSeen st'" by (auto simp: store_start_def)
    have "check_all (check_project P) ?kes = Inr ()" using v by (simp add: check_all_ok_iff check_project_def)
    moreover have "fold_result (store_line ?U) (enumerate 1 ?ls) store_start = Inr st'"
      using st'(1) by (simp add: store_lines_def store_version_line numeral_2_eq_2)
    ultimately show ?thesis using st'(2,3) unfolding parseStore_def data s by simp
  qed
  show "\<not> is_ok (parseStore P data)" if "\<exists>l \<in> set ?ls. max_token \<le> length l"
  proof -
    have "snd (scan_lines (unlines ?ls))" using that scan_too_long pr printable_no_crlf(1) by blast
    then show ?thesis by (auto simp: parseStore_def data is_ok_iff rbind_Inr_iff split: prod.splits if_splits)
  qed
qed

section \<open>Every parsed store is well formed\<close>

lemma store_line_wf:
  assumes "store_line U ne st = Inr st'" "wf_map (tsEntries st)"
  shows "wf_map (tsEntries st')"
  using assms by (auto simp: store_line_def store_header_def store_version_def store_key_def Let_def rbind_Inr_iff
      split: if_splits sum.splits option.splits)

lemma parse_store_wf: "parseStore P b = Inr store \<Longrightarrow> store_wf P store"
proof -
  assume p: "parseStore P b = Inr store"
  obtain ls e where ls: "scan_lines b = (ls, e)" by fastforce
  from p obtain st where st: "fold_result (store_line (pf_unicode P)) (enumerate 1 ls) store_start = Inr st"
    and v: "check_all (check_project P) (tsEntries st) = Inr ()" "store = tsEntries st"
    by (auto simp: parseStore_def ls rbind_Inr_iff split: if_splits)
  have "wf_map (tsEntries st)"
    by (rule fold_result_invariant [OF st, where I = "\<lambda>s. wf_map (tsEntries s)"])
      (use store_line_wf in \<open>auto simp: store_start_def\<close>)
  with v show ?thesis by (simp add: store_wf_def check_all_ok_iff check_project_def)
qed

lemma load_store_wf: "loadStore P d = Inr store \<Longrightarrow> store_wf P store"
  using parse_store_wf by (auto simp: loadStore_def parse_bounded_def store_wf_def split: option.splits)

lemma load_for_mutation_wf: "loadStoreForMutation P ok d = Inr (store, d') \<Longrightarrow> store_wf P store"
  using load_store_wf by (auto simp: loadStoreForMutation_def rbind_Inr_iff)

section \<open>Merging an overlay only adds tools\<close>

definition bind_root :: "string \<Rightarrow> string \<times> tool \<Rightarrow> string \<times> tool" where
  "bind_root root entry = (fst entry, (snd entry)\<lparr>tTrustedProjectRoot := root\<rparr>)"

lemma validate_overlay_iff:
  "validateOverlay reg = Inr () \<longleftrightarrow> Defaults reg = [] \<and> (\<forall>e \<in> set (Tools reg).
     tDefaultFamily (snd e) = [] \<and> tDefaultVersion (snd e) = [] \<and> tDefaultAlias (snd e) = []
     \<and> tProvider (snd e) \<noteq> ''python'' \<and> tHostMounts (snd e) = [] \<and> tEnvPrefixes (snd e) = [] \<and> tSharedVolumes (snd e) = [])"
  by (auto simp: validateOverlay_def check_all_ok_iff check_overlay_tool_def Let_def)

lemma merge_fold:
  assumes "wf_map (acc @ es)"
  shows "fold_result (merge_tool U global root) es acc = Inr tools \<longleftrightarrow>
     (\<forall>e \<in> set es. Resolve U global (fst e) = None) \<and> tools = acc @ map (bind_root root) es"
  using assms
proof (induction es arbitrary: acc)
  case Nil
  then show ?case by auto
next
  case (Cons e es)
  have f: "\<not> mhas acc (fst e)" using Cons.prems by (auto simp: wf_map_def mhas_def)
  have "wf_map ((acc @ [bind_root root e]) @ es)" using Cons.prems by (simp add: wf_map_def bind_root_def)
  from Cons.IH [OF this] f show ?case
    by (cases "Resolve U global (fst e)")
      (auto simp: merge_tool_def rbind_Inr_iff mput_fresh bind_root_def)
qed

lemma resolve_none_absent:
  assumes "ValidToolName name" "Resolve U global name = None"
  shows "\<not> mhas (Tools global) name"
  using assms(2) to_lower_tool_name [OF assms(1), of U]
  by (auto simp: Resolve_def Let_def mhas_iff_map_of split: option.splits)

definition overlay_wf :: "registry \<Rightarrow> bool" where
  "overlay_wf reg \<longleftrightarrow> registry_wf reg \<and> validateOverlay reg = Inr ()"

lemma load_overlay_wf:
  "LoadOverlay U rf loc = Inr ov \<Longrightarrow> overlay_wf (ovRegistry ov) \<and> ovLocation ov = loc
     \<and> (\<exists>b. rf (locPath loc) = Some b \<and> length b \<le> maxConfigFileSize \<and> ovDigest ov = overlay_digest b
          \<and> ParseTOML U b = Inr (ovRegistry ov))"
  using parse_toml_wf
  by (auto simp: LoadOverlay_def readBounded_def Let_def rbind_Inr_iff overlay_wf_def split: option.splits if_splits)

lemma merge_iff:
  assumes "registry_wf global" "overlay_wf (ovRegistry ov)"
  shows "Merge U global ov = Inr m \<longleftrightarrow>
     (\<forall>e \<in> set (Tools (ovRegistry ov)). Resolve U global (fst e) = None)
     \<and> m = global\<lparr>Tools := Tools global @ map (bind_root (locRoot (ovLocation ov))) (Tools (ovRegistry ov))\<rparr>"
proof (cases "\<forall>e \<in> set (Tools (ovRegistry ov)). Resolve U global (fst e) = None")
  case True
  have wf: "wf_map (Tools global)" "wf_map (Tools (ovRegistry ov))"
    and names: "\<And>e. e \<in> set (Tools (ovRegistry ov)) \<Longrightarrow> ValidToolName (fst e)"
    using assms by (auto simp: registry_wf_def overlay_wf_def registry_lines_wf_def list_all_iff parsed_tool_def)
  have "set (mkeys (Tools global)) \<inter> set (mkeys (Tools (ovRegistry ov))) = {}"
  proof -
    have "fst e \<notin> set (mkeys (Tools global))" if "e \<in> set (Tools (ovRegistry ov))" for e
      using resolve_none_absent [OF names [OF that], of U global] True that by (simp add: mhas_def)
    then have "\<forall>k \<in> fst ` set (Tools (ovRegistry ov)). k \<notin> set (mkeys (Tools global))" by simp
    then show ?thesis by (simp add: mkeys_def disjoint_iff) blast
  qed
  then have "wf_map (Tools global @ Tools (ovRegistry ov))" using wf by (simp add: wf_map_def)
  from merge_fold [OF this] True show ?thesis by (auto simp: Merge_def rbind_Inr_iff)
next
  case False
  have "fold_result (merge_tool U global root) es acc \<noteq> Inr tools"
    if "\<exists>e \<in> set es. Resolve U global (fst e) \<noteq> None" for root es acc tools
    using that by (induction es arbitrary: acc) (auto simp: merge_tool_def rbind_Inr_iff split: option.splits)
  with False show ?thesis by (auto simp: Merge_def rbind_Inr_iff)
qed

lemma resolve_in_append:
  "\<forall>e \<in> set B. \<not> supplies f v name (snd e) \<Longrightarrow> resolve_in (A @ B) f v name = resolve_in A f v name"
proof (induction A f v name rule: resolve_in.induct)
  case (1 f v name)
  then show ?case by (simp add: resolve_in_None)
qed auto

lemma resolve_defaults_append:
  assumes "\<forall>d \<in> set ds. fst d \<noteq> []" "\<forall>e \<in> set B. tDefaultFamily (snd e) = []"
  shows "resolve_defaults ds (A @ B) name = resolve_defaults ds A name"
  using assms
proof (induction ds A name rule: resolve_defaults.induct)
  case (2 f v ds ts name)
  then have "\<forall>e \<in> set B. \<not> supplies f v name (snd e)" by (auto simp: supplies_def)
  with 2 show ?case by (auto simp: resolve_in_append split: option.splits)
qed simp

lemma map_of_bind_root: "map_of (map (bind_root root) es) k = map_option (\<lambda>t. t\<lparr>tTrustedProjectRoot := root\<rparr>) (map_of es k)"
  by (induction es) (auto simp: bind_root_def)

text \<open>What a name means after the merge: what it meant before, or else the overlay's tool, bound to its root.\<close>

lemma merge_resolve:
  assumes "registry_wf global" "overlay_wf (ovRegistry ov)" "Merge U global ov = Inr m"
  shows "Resolve U m name = (case Resolve U global name of
       Some r \<Rightarrow> Some r
     | None \<Rightarrow> map_option (\<lambda>t. (t\<lparr>tTrustedProjectRoot := locRoot (ovLocation ov)\<rparr>, to_lower U name))
         (map_of (Tools (ovRegistry ov)) (to_lower U name)))"
proof -
  let ?n = "to_lower U name" and ?B = "map (bind_root (locRoot (ovLocation ov))) (Tools (ovRegistry ov))"
  from assms(3) have none: "\<forall>e \<in> set (Tools (ovRegistry ov)). Resolve U global (fst e) = None"
    and m: "m = global\<lparr>Tools := Tools global @ ?B\<rparr>" unfolding merge_iff [OF assms(1,2)] by blast+
  have fam: "\<forall>d \<in> set (Defaults global). fst d \<noteq> []"
    using assms(1) by (auto simp: registry_wf_def registry_lines_wf_def list_all_iff ValidToolName_def)
  have B: "\<forall>e \<in> set ?B. tDefaultFamily (snd e) = []"
    using assms(2) by (auto simp: overlay_wf_def validate_overlay_iff bind_root_def)
  note app = resolve_defaults_append [OF fam B, of "Tools global" ?n]
  show ?thesis
  proof (cases "map_of (Tools global) ?n")
    case (Some t)
    then show ?thesis by (simp add: Resolve_def m map_add_def split: option.splits)
  next
    case None
    show ?thesis
    proof (cases "map_of (Tools (ovRegistry ov)) ?n")
      case None': None
      then show ?thesis using None app by (simp add: Resolve_def m map_add_def map_of_bind_root split: option.splits)
    next
      case (Some t)
      then have "Resolve U global ?n = None" using none map_of_SomeD by fastforce
      moreover have "ValidToolName ?n"
        using assms(2) map_of_SomeD [OF Some]
        by (force simp: overlay_wf_def registry_wf_def registry_lines_wf_def list_all_iff parsed_tool_def)
      ultimately have "Resolve U global name = None"
        using to_lower_tool_name [of ?n U] by (simp add: Resolve_def)
      then show ?thesis using None Some by (simp add: Resolve_def m map_add_def map_of_bind_root)
    qed
  qed
qed

section \<open>What a trusted overlay is\<close>

lemma trusted_iff:
  "cxStatus (inspectLocation P rf external d global loc) = StTrusted \<longleftrightarrow>
     (\<exists>ov merged store entry. LoadOverlay (pf_unicode P) rf loc = Inr ov \<and> Merge (pf_unicode P) global ov = Inr merged
        \<and> external \<and> loadStore P d = Inr store \<and> map_of store (rootID (locRoot loc)) = Some entry
        \<and> peRoot entry = locRoot loc \<and> peDigest entry = ovDigest ov \<and> peTools entry = ToolNames (ovRegistry ov))"
  by (auto simp: inspectLocation_def Let_def split: sum.splits option.splits)

lemma trusted_registry:
  assumes "cxStatus (inspectLocation P rf external d global loc) = StTrusted"
  shows "\<exists>ov merged. LoadOverlay (pf_unicode P) rf loc = Inr ov \<and> Merge (pf_unicode P) global ov = Inr merged
     \<and> context_registry (inspectLocation P rf external d global loc) global = Some merged"
  using assms by (auto simp: inspectLocation_def Let_def context_registry_def split: sum.splits option.splits if_splits)

section \<open>What cb trust records\<close>

lemma reload_iff:
  "reloadReviewedOverlay loc digest found = Inr ov \<longleftrightarrow> found = Some (Inr ov) \<and> ovLocation ov = loc \<and> ovDigest ov = digest"
  by (auto simp: reloadReviewedOverlay_def split: option.splits sum.splits)

definition approved :: "trust_env \<Rightarrow> bool \<Rightarrow> bool" where
  "approved env yes \<longleftrightarrow> yes \<or> teInteractive env \<and> teAnswer env = Some ''trust''"

lemma confirm_iff: "confirm env yes = Inr u \<longleftrightarrow> approved env yes"
  by (auto simp: confirm_def approved_def)

text \<open>The record that \<open>cb trust\<close> makes of an overlay that is found again with the reviewed digest.\<close>

definition trust_record :: "context_result \<Rightarrow> overlay \<Rightarrow> overlay \<Rightarrow> project_entry" where
  "trust_record c reviewed current =
     \<lparr>peRoot = locRoot (cxLocation c), peDigest = ovDigest reviewed, peTools = ToolNames (ovRegistry current)\<rparr>"

lemma trust_check_iff:
  "parseTrustArgs args = Inr (True, yes) \<Longrightarrow> Trust P ok env c args d = Inr d' \<longleftrightarrow>
     cxOverlay c \<noteq> None \<and> cxStatus c \<in> {StTrusted, StUntrusted, StChanged} \<and> d' = d"
  by (cases "cxStatus c") (auto simp: Trust_def split: option.splits)

lemma trust_writes:
  assumes "parseTrustArgs args = Inr (False, yes)"
  shows "Trust P ok env c args d = Inr d' \<longleftrightarrow>
     (\<exists>reviewed current again store d1. cxOverlay c = Some reviewed \<and> cxStatus c \<in> {StTrusted, StUntrusted, StChanged}
        \<and> approved env yes
        \<and> teCurrent env = Some (Inr current) \<and> ovLocation current = cxLocation c \<and> ovDigest current = ovDigest reviewed
        \<and> teAfterShims env = Some (Inr again) \<and> ovLocation again = cxLocation c \<and> ovDigest again = ovDigest reviewed
        \<and> teExternal env \<and> teShimsOk env
        \<and> loadStoreForMutation P ok d = Inr (store, d1)
        \<and> saveStore P ok (mput (rootID (locRoot (cxLocation c))) (trust_record c reviewed current) store) d1 = Inr d')"
  using assms
  by (cases "cxStatus c")
    (auto simp: Trust_def rbind_Inr_iff confirm_iff reload_iff trust_record_def Let_def split: option.splits if_splits)

text \<open>After a successful save the store reads back as written, unless a line is too long for the reader.\<close>

lemma parse_bounded_small: "length s \<le> maxConfigFileSize \<Longrightarrow> parse_bounded P s = parseStore P s"
  by (simp add: parse_bounded_def readBounded_def Let_def)

definition store_fits :: "platform \<Rightarrow> trust_store \<Rightarrow> bool" where
  "store_fits P store \<longleftrightarrow> (\<forall>l \<in> set (store_lines (pf_unicode P) store). length l < max_token)
     \<and> length (unlines (store_lines (pf_unicode P) store)) \<le> maxConfigFileSize"

lemma saved_primary:
  assumes "wf_map store" "saveStore P ok store d = Inr d'"
  shows "dkPrimary d' = Some (unlines (store_lines (pf_unicode P) store))"
proof -
  from assms(2) obtain data where data: "marshalStore P store = Inr data" and w: "writeFile ok data d = (True, d')"
    by (cases "marshalStore P store") (auto simp: saveStore_def rbind_Inr_iff split: prod.splits if_splits)
  with assms(1) show ?thesis by (simp add: marshal_iff write_primary [OF w])
qed

lemma save_then_load:
  assumes "wf_map store" "saveStore P ok store d = Inr d'"
  shows "store_wf P store" "store_fits P store \<Longrightarrow> loadStore P d' = Inr (sort_key fst store)"
    "\<not> store_fits P store \<Longrightarrow> \<not> is_ok (loadStore P d')"
proof -
  from assms(2) obtain data where data: "marshalStore P store = Inr data" and w: "writeFile ok data d = (True, d')"
    by (cases "marshalStore P store") (auto simp: saveStore_def rbind_Inr_iff split: prod.splits if_splits)
  show "store_wf P store" using data assms(1) by (simp add: marshal_iff)
  have u: "data = unlines (store_lines (pf_unicode P) store)" using data assms(1) by (simp add: marshal_iff)
  have l: "loadStore P d' = parse_bounded P data" by (simp add: loadStore_def write_primary [OF w])
  show "loadStore P d' = Inr (sort_key fst store)" if "store_fits P store"
    using store_reads_back(1) [OF assms(1) data] that by (simp add: l store_fits_def u parse_bounded_small)
  show "\<not> is_ok (loadStore P d')" if "\<not> store_fits P store"
  proof (cases "maxConfigFileSize < length data")
    case True
    then show ?thesis by (simp add: l parse_bounded_def readBounded_def Let_def)
  next
    case False
    then have "\<exists>l \<in> set (store_lines (pf_unicode P) store). max_token \<le> length l"
      using that by (auto simp: store_fits_def u not_less)
    then show ?thesis using store_reads_back(2) [OF assms(1) data] False by (simp add: l parse_bounded_small)
  qed
qed

lemma map_of_sort: "wf_map m \<Longrightarrow> map_of (sort_key fst m) = map_of m"
proof
  fix k
  assume wf: "wf_map m"
  have "map_of (sort_key fst m) k = Some v \<longleftrightarrow> map_of m k = Some v" for v
    using wf_map_in_iff [OF wf_map_sort [OF wf]] wf_map_in_iff [OF wf] by simp
  then show "map_of (sort_key fst m) k = map_of m k" by (metis not_None_eq)
qed

text \<open>Trusting and inspecting again: the overlay that was reviewed, still on disk, is trusted.\<close>

lemma trust_then_trusted:
  assumes "Trust P ok env c args d = Inr d'" "parseTrustArgs args = Inr (False, yes)" "cxLocation c = loc"
    and "LoadOverlay (pf_unicode P) rf loc = Inr ov" "Merge (pf_unicode P) global ov = Inr merged"
    and "teCurrent env = Some (Inr ov)" "cxOverlay c = Some reviewed"
    and fits: "\<And>store d1. loadStoreForMutation P ok d = Inr (store, d1) \<Longrightarrow>
        store_fits P (mput (rootID (locRoot loc)) (trust_record c reviewed ov) store)"
  shows "cxStatus (inspectLocation P rf True d' global loc) = StTrusted"
proof -
  from assms(1) obtain store d1 where dg: "ovDigest ov = ovDigest reviewed"
    and ld: "loadStoreForMutation P ok d = Inr (store, d1)"
    and sv: "saveStore P ok (mput (rootID (locRoot loc)) (trust_record c reviewed ov) store) d1 = Inr d'"
    unfolding trust_writes [OF assms(2)] using assms(3,6,7) by auto
  let ?s = "mput (rootID (locRoot loc)) (trust_record c reviewed ov) store"
  have wf: "wf_map ?s" using load_for_mutation_wf [OF ld] by (simp add: store_wf_def)
  have "loadStore P d' = Inr (sort_key fst ?s)" by (rule save_then_load(2) [OF wf sv fits [OF ld]])
  then show ?thesis unfolding trusted_iff using assms(3-5) dg map_of_sort [OF wf]
    by (auto simp: trust_record_def)
qed

lemma untrust_iff:
  "untrustLocation P ok external loc d = Inr d' \<longleftrightarrow> external
     \<and> (\<exists>store d1. loadStoreForMutation P ok d = Inr (store, d1) \<and> mhas store (rootID (locRoot loc))
          \<and> saveStore P ok (mdel (rootID (locRoot loc)) store) d1 = Inr d')"
  by (auto simp: untrustLocation_def rbind_Inr_iff)

lemma untrusted_after:
  assumes "untrustLocation P ok external loc d = Inr d'"
  shows "cxStatus (inspectLocation P rf ext d' global loc) \<noteq> StTrusted"
proof
  assume "cxStatus (inspectLocation P rf ext d' global loc) = StTrusted"
  then obtain store' entry where s': "loadStore P d' = Inr store'" "map_of store' (rootID (locRoot loc)) = Some entry"
    unfolding trusted_iff by blast
  from assms obtain store d1 where ld: "loadStoreForMutation P ok d = Inr (store, d1)"
    and sv: "saveStore P ok (mdel (rootID (locRoot loc)) store) d1 = Inr d'" unfolding untrust_iff by blast
  let ?s = "mdel (rootID (locRoot loc)) store"
  have wf: "wf_map ?s" using load_for_mutation_wf [OF ld] by (simp add: store_wf_def)
  from save_then_load [OF wf sv] s'(1) have "store' = sort_key fst ?s" by (cases "store_fits P ?s") auto
  with s'(2) map_of_sort [OF wf] show False by simp
qed

end
