(* ===== verification/Store_Properties.thy ===== *)
theory Store_Properties
  imports Lock_Store Version_Facts Project_Trust_Facts Evaluation
begin

text \<open>
  The properties of what the program keeps on disk: the lockfile, the atomic replacement of a file,
  release versions, and the trust of project overlays.
\<close>

definition store_platform :: platform where
  "store_platform = unix_platform ascii_unicode (\<lambda>s. None) (\<lambda>key msg sig. False)"

lemma store_unicode [simp]: "pf_unicode store_platform = ascii_unicode"
  by (simp add: store_platform_def unix_platform_def)

definition jq_digest :: string where
  "jq_digest = ''sha256:0123456789abcdef0123456789abcdef0123456789abcdef0123456789abcdef''"

definition jq_entry :: lock_entry where
  "jq_entry = \<lparr>leConfigured = ''jq:1'', leResolved = ''jq@'' @ jq_digest, leDigest = jq_digest, leTrust = None\<rparr>"

definition jq_lock :: lock_file where
  "jq_lock = \<lparr>lfVersion = 1, lfImages = [(''jq:1'', jq_entry)]\<rparr>"

definition jq_tool :: tool where
  "jq_tool = zero_tool\<lparr>tName := ''jq'', tProvider := ''stateless'', tImage := ''jq:1''\<rparr>"

lemma jq_shape: "lock_shape jq_lock"
  by (simp add: lock_shape_def jq_lock_def jq_entry_def entry_int64_def)

lemma jq_lines_short: "\<forall>l \<in> set (lock_lines ascii_unicode jq_lock). length l < max_token"
proof -
  have "length (key_line ''configured'' (Quote ascii_unicode (leConfigured jq_entry))) < max_token"
    "length (key_line ''resolved'' (Quote ascii_unicode (leResolved jq_entry))) < max_token"
    "length (key_line ''digest'' (Quote ascii_unicode (leDigest jq_entry))) < max_token"
    "\<forall>l \<in> set (lock_preamble jq_lock). length l < max_token" by code_simp+
  moreover have "lock_lines ascii_unicode jq_lock =
      lock_preamble jq_lock @ entry_lines ascii_unicode (''jq:1'', jq_entry)"
    by (simp add: lock_lines_def jq_lock_def)
  moreover have "leTrust jq_entry = None" by (simp add: jq_entry_def)
  moreover have "length (''['' @ (images_header @ entryID ''jq:1'') @ '']'') < max_token"
    by (simp add: entryID_plain(3) images_header_def max_token_def)
  ultimately show ?thesis by (simp add: entry_lines_def Let_def max_token_def)
qed

lemma jq_entry_immutable: "entry_immutable store_platform 1 jq_entry"
proof -
  have "splitImmutableRepositoryDigest ascii_unicode (leResolved jq_entry) = Some (''jq'', leDigest jq_entry)"
    "hubRepository ''jq'' = hubRepository (imageRepository (leConfigured jq_entry))"
    "\<not> has_prefix (leResolved jq_entry) ''sha256:''" "leConfigured jq_entry \<noteq> []" "leTrust jq_entry = None"
    by code_simp+
  then show ?thesis by (simp add: entry_immutable_def)
qed

lemma jq_write: "WriteMode store_platform jq_lock 420 = Inr (jq_lock, render_lock ascii_unicode jq_lock)"
proof -
  have "check_entry store_platform \<lparr>lfVersion = 1, lfImages = []\<rparr> (entryID ''jq:1'') jq_entry = Inr ()"
    unfolding check_entry_iff using jq_entry_immutable by (simp add: jq_entry_def jq_digest_def)
  then have l: "load_entries store_platform [] \<lparr>lfVersion = lfVersion jq_lock, lfImages = []\<rparr> (sort_key fst (lfImages jq_lock)) = Some jq_lock"
    by (simp add: jq_lock_def jq_entry_def add_image_def mput_def)
  have "parseLockFile store_platform (render_lock ascii_unicode jq_lock) maxLockVersion = Inr jq_lock"
    by (subst parse_rendered) (use jq_lines_short l in \<open>auto simp: jq_lock_def jq_entry_def entry_int64_def maxLockVersion_def\<close>)
  then show ?thesis by (simp add: WriteMode_def jq_lock_def maxLockVersion_def Let_def)
qed

lemma jq_lock_wf: "lock_wf store_platform maxLockVersion jq_lock"
  using jq_entry_immutable by (simp add: lock_wf_def jq_lock_def wf_map_def mkeys_def maxLockVersion_def jq_entry_def)

section \<open>The lockfile\<close>

text \<open>C3: a lockfile that \<open>WriteMode\<close> accepts is read back as it was given, its entries in the
  order of their names and its version completed; in particular quoting, evidence and section ids
  survive.\<close>

theorem lock_write_reads_back:
  assumes "WriteMode P lf0 perm = Inr (lf, data)" "lock_shape lf0"
  shows "parseLockFile P data maxLockVersion = Inr (written_file lf)
     \<and> lf = lf0\<lparr>lfVersion := (if lfVersion lf0 = 0 then 1 else lfVersion lf0)\<rparr>"
  by (rule write_reads_back [OF assms])

theorem lock_write_reads_back_witness:
  "parseLockFile store_platform (render_lock ascii_unicode jq_lock) maxLockVersion = Inr (written_file jq_lock)"
  using lock_write_reads_back [OF jq_write jq_shape] by blast

text \<open>Every lockfile that parses is well formed: the version is in range, section ids are those
  of the configured images and distinct, and every entry pins an immutable image (an image id, or a
  digest of its own repository) with evidence only where the version and the digest allow it.\<close>

theorem parse_lock_well_formed:
  "parseLockFile P b m = Inr lf \<Longrightarrow> lock_wf P m lf \<and> 1 \<le> lfVersion lf \<and> lfVersion lf \<le> m"
  using parse_lock_wf by blast

theorem parse_lock_well_formed_witness: "lock_wf store_platform maxLockVersion (written_file jq_lock)"
proof -
  have "parseLockFile store_platform (render_lock ascii_unicode jq_lock) maxLockVersion = Inr (written_file jq_lock)"
    using write_reads_back [OF jq_write jq_shape] by blast
  from parse_lock_well_formed [OF this] show ?thesis by blast
qed

text \<open>C8: under a lockfile a tool runs nothing but the resolved image of the entry for its configured
  image, which is immutable and which the policy accepts with the entry's own evidence.\<close>

theorem locked_tool_image:
  assumes "lock_wf P m l" "runtimeImageForTool (pf_unicode P) t p (Some l) = Inr img"
  shows "\<exists>e. map_of (lfImages l) (tImage t) = Some e \<and> img = leResolved e \<and> leConfigured e = tImage t
     \<and> immutable_reference (pf_unicode P) img
     \<and> AuthorizeResolvedImage (pf_unicode P) p (tImage t) img (IsLocalResolved img) (RuntimeTrustEvidence e) = Inr ()"
  by (rule runtime_image_locked [OF assms])

theorem locked_tool_image_witness: "immutable_reference ascii_unicode (leResolved jq_entry)"
proof -
  have "runtimeImageForTool (pf_unicode store_platform) jq_tool zero_policy (Some jq_lock) = Inr (leResolved jq_entry)"
    by code_simp
  from locked_tool_image [OF jq_lock_wf this] show ?thesis by auto
qed

text \<open>A lock entry produced from an inspection is one the parser will accept: it pins one of the
  reported repository digests, of the configured image's own repository, and carries no evidence.\<close>

theorem produced_entry_immutable:
  assumes "ResolveRepositoryImageFromInspection (pf_unicode P) configured i rds p = Inr e" "configured \<noteq> []"
  shows "leConfigured e = configured \<and> leTrust e = None \<and> leResolved e \<in> set rds \<and> entry_immutable P v e
     \<and> AuthorizeLockTarget (pf_unicode P) p configured False = Inr ()"
  by (rule resolve_repository_entry [OF assms])

theorem produced_entry_immutable_witness: "entry_immutable store_platform 1 jq_entry"
proof -
  have "ResolveRepositoryImageFromInspection (pf_unicode store_platform) ''jq:1'' jq_digest
      [''other@'' @ jq_digest, ''jq@'' @ jq_digest] zero_policy = Inr jq_entry" by code_simp
  from produced_entry_immutable [OF this, of 1] show ?thesis by simp
qed

section \<open>Replacing a file\<close>

definition crash_disk :: "string \<Rightarrow> string \<Rightarrow> disk" where
  "crash_disk old new = \<lparr>dkPrimary = None, dkBackup = Some old, dkTemp = Some new\<rparr>"

definition start_disk :: "string \<Rightarrow> disk" where
  "start_disk old = \<lparr>dkPrimary = Some old, dkBackup = None, dkTemp = None\<rparr>"

lemma crash_between_renames: "write_reach True new (Start, start_disk old) (Ready, crash_disk old new)"
proof -
  let ?d1 = "(start_disk old)\<lparr>dkTemp := Some []\<rparr>"
  let ?d2 = "?d1\<lparr>dkTemp := Some new\<rparr>"
  let ?d3 = "?d2\<lparr>dkBackup := None\<rparr>"
  have "write_reach True new (Start, start_disk old) (Ready, ?d3\<lparr>dkPrimary := None, dkBackup := Some old\<rparr>)"
    by (rule then_steps [OF write_step.create], rule then_steps [OF write_step.stage],
        rule then_steps [OF write_step.clear], rule r_into_rtranclp, rule write_step.move) (simp add: start_disk_def)
  then show ?thesis by (simp add: start_disk_def crash_disk_def)
qed



text \<open>\<open>WriteFile\<close>, for every pattern of failing system calls, reports success only when the new
  content is in place, and after an error the old content is still what a reader finds.\<close>

theorem write_file_outcome:
  assumes "writeFile ok new d = (success, d')" "dkPrimary d = Some old" "ok Stat_Primary"
  shows "if success then dkPrimary d' = Some new else visible d' = Some old"
  by (rule write_outcome [OF assms])

theorem write_file_outcome_witness:
  "visible (snd (writeFile (\<lambda>x. x \<noteq> To_Primary \<and> x \<noteq> Restore_Backup) ''b'' (start_disk ''a''))) = Some ''a''"
proof -
  let ?r = "writeFile (\<lambda>x. x \<noteq> To_Primary \<and> x \<noteq> Restore_Backup) ''b'' (start_disk ''a'')"
  have "fst ?r = False" by code_simp
  then have "?r = (False, snd ?r)" by (cases ?r) simp
  from write_file_outcome [OF this, of "''a''"] show ?thesis by (simp add: start_disk_def)
qed

text \<open>After a crash at any point a recovery whose validation accepts both contents succeeds and
  makes the visible content, old or new, the primary one.\<close>

theorem recovery_completes:
  assumes "write_reach True new (Start, d) (ph, d')" "dkPrimary d = Some old"
    and "validate old = Inr ()" "validate new = Inr ()"
  shows "\<exists>recovered d''. RecoverFromBackup validate True d' = Inr (recovered, d'')
     \<and> dkPrimary d'' \<in> {Some old, Some new} \<and> dkPrimary d'' = visible d'"
  by (rule crash_then_recover [OF assms])

theorem recovery_completes_witness:
  "\<exists>recovered d''. RecoverFromBackup (\<lambda>s. Inr () :: (unit, unit) result) True (crash_disk ''a'' ''b'') = Inr (recovered, d'')
     \<and> dkPrimary d'' = Some ''a''"
  using recovery_completes [OF crash_between_renames [of "''b''" "''a''"],
      where old = "''a''" and validate = "\<lambda>s. Inr () :: (unit, unit) result"]
  by (auto simp: start_disk_def crash_disk_def visible_def)



text \<open>From locking to running: once an entry for the tool's image has been written, the tool
  runs exactly the entry's resolved image whenever the policy accepts it, whatever was on the disk
  before.\<close>

theorem lock_then_run_image:
  assumes "SaveLock P ok lf0 perm d = Inr (lf, d')" "lock_shape lf0" "wf_map (lfImages lf0)"
    and "map_of (lfImages lf0) (tImage t) = Some e" "path \<noteq> []" "pf_is_abs P path"
    and "AuthorizeResolvedImage (pf_unicode P) p (tImage t) (leResolved e) (IsLocalResolved (leResolved e)) (RuntimeTrustEvidence e) = Inr ()"
  shows "RuntimeImageForToolAt P rename_ok t p path d' = Inr (leResolved e, d')"
  by (rule lock_then_run [OF assms])

theorem lock_then_run_image_witness:
  "RuntimeImageForToolAt store_platform True jq_tool zero_policy ''/c/container-bin.lock''
     (start_disk (render_lock ascii_unicode jq_lock)) = Inr (leResolved jq_entry, start_disk (render_lock ascii_unicode jq_lock))"
proof -
  have s: "SaveLock store_platform (\<lambda>x. True) jq_lock 420 (start_disk ''old'') =
      Inr (jq_lock, start_disk (render_lock ascii_unicode jq_lock))"
    by (simp add: SaveLock_def jq_write write_success start_disk_def)
  have "AuthorizeResolvedImage ascii_unicode zero_policy (tImage jq_tool) (leResolved jq_entry)
      (IsLocalResolved (leResolved jq_entry)) (RuntimeTrustEvidence jq_entry) = Inr ()" by code_simp
  then show ?thesis
    by (intro lock_then_run_image [OF s jq_shape])
      (simp_all add: jq_lock_def jq_tool_def wf_map_def store_platform_def unix_platform_def path_is_abs_def)
qed

section \<open>Versions\<close>

text \<open>\<open>compare\<close> on parsed versions is the strict order of semantic-version precedence (numbers
  before words, a release after its prereleases), and two versions are equal only if they are the
  same text.\<close>

theorem version_compare_order:
  assumes "parseVersion a = Inr v" "parseVersion b = Inr w"
  shows "compare v w = (if precedence_of v < precedence_of w then - 1 else if a = b then 0 else 1)"
proof -
  have wf: "version_wf v" "version_wf w" and raw: "svRaw v = a" "svRaw w = b"
    using parse_version_wf assms by blast+
  have "precedence_of v = precedence_of w \<longleftrightarrow> a = b"
  proof
    assume "precedence_of v = precedence_of w"
    with precedence_inj [OF wf] raw show "a = b" by simp
  next
    assume "a = b"
    with assms have "v = w" by simp
    then show "precedence_of v = precedence_of w" by (rule arg_cong)
  qed
  with compare_precedence [OF wf] show ?thesis by simp
qed

definition v1 :: semanticVersion where
  "v1 = \<lparr>svRaw = ''v1.2.10-rc.9'', svMajor = 1, svMinor = 2, svPatch = 10, svPrerelease = [''rc'', ''9'']\<rparr>"

definition v2 :: semanticVersion where
  "v2 = \<lparr>svRaw = ''v1.2.10-rc.10'', svMajor = 1, svMinor = 2, svPatch = 10, svPrerelease = [''rc'', ''10'']\<rparr>"

lemma sample_versions: "parseVersion ''v1.2.10-rc.9'' = Inr v1" "parseVersion ''v1.2.10-rc.10'' = Inr v2"
  by code_simp+

theorem version_compare_order_witness: "precedence_of v1 < precedence_of v2"
proof -
  have "compare v1 v2 = - 1" by code_simp
  with version_compare_order [OF sample_versions] show ?thesis by (auto split: if_splits)
qed

text \<open>The text of a parsed version is determined by its numbers and identifiers: nothing but the
  canonical spelling is accepted.\<close>

theorem version_canonical_text: "parseVersion raw = Inr v \<Longrightarrow> raw = version_text v"
  by (metis parse_version_wf version_wf_def)

theorem version_canonical_text_witness: "version_text v1 = ''v1.2.10-rc.9''"
  using version_canonical_text [OF sample_versions(1)] by simp

end
