(* ===== verification/Trust_Properties.thy ===== *)
theory Trust_Properties
  imports Project_Trust_Facts Evaluation
begin

text \<open>
  The properties of project overlays: what a merge may add, when an overlay is trusted, what
  \<open>cb trust\<close> and \<open>cb untrust\<close> record, and whether the trust store can be read back.
\<close>

definition trust_platform :: platform where
  "trust_platform = unix_platform ascii_unicode (\<lambda>s. None) (\<lambda>key msg sig. False)"

lemma trust_unicode [simp]: "pf_unicode trust_platform = ascii_unicode"
  by (simp add: trust_platform_def unix_platform_def)

section \<open>A concrete project\<close>

definition overlay_text :: string where
  "overlay_text = unlines [''schema_version = 1'', ''[tools.lint]'', key_line ''image'' (Quote ascii_unicode ''lint:1'')]"

definition lint :: tool where
  "lint = zero_tool\<lparr>tName := ''lint'', tProvider := ''stateless'', tImage := ''lint:1''\<rparr>"

definition project :: location where
  "project = \<lparr>locRoot = ''/p'', locPath = ''/p/cb.toml''\<rparr>"

definition read_project :: "string \<Rightarrow> string option" where
  "read_project path = (if path = ''/p/cb.toml'' then Some overlay_text else None)"

definition project_overlay :: overlay where
  "project_overlay = \<lparr>ovLocation = project, ovDigest = overlay_digest overlay_text,
     ovRegistry = \<lparr>SchemaVersion = 1, Tools = [(''lint'', lint)], Defaults = []\<rparr>\<rparr>"

definition global_registry :: registry where
  "global_registry = \<lparr>SchemaVersion = 1, Tools = [(''jq'', zero_tool\<lparr>tName := ''jq'', tProvider := ''stateless'', tImage := ''jq:1''\<rparr>)], Defaults = []\<rparr>"

definition merged_registry :: registry where
  "merged_registry = global_registry\<lparr>Tools := Tools global_registry @ [(''lint'', lint\<lparr>tTrustedProjectRoot := ''/p''\<rparr>)]\<rparr>"

lemma overlay_parses: "ParseTOML ascii_unicode overlay_text = Inr (ovRegistry project_overlay)"
proof -
  have "ParseTOML ascii_unicode overlay_text = Inr \<lparr>SchemaVersion = 1, Tools = [(''lint'', lint)], Defaults = []\<rparr>"
    by code_simp
  then show ?thesis by (simp add: project_overlay_def)
qed

lemma project_loads: "LoadOverlay ascii_unicode read_project project = Inr project_overlay"
proof -
  have "length overlay_text \<le> maxConfigFileSize" by code_simp
  moreover have "validateOverlay (ovRegistry project_overlay) = Inr ()"
    by (simp add: project_overlay_def validate_overlay_iff lint_def zero_tool_def)
  ultimately show ?thesis
    by (simp add: LoadOverlay_def read_project_def project_def readBounded_def overlay_parses)
      (simp add: project_overlay_def project_def)
qed

lemma project_merges: "Merge ascii_unicode global_registry project_overlay = Inr merged_registry"
proof -
  have "Resolve ascii_unicode global_registry ''lint'' = None" by code_simp
  then show ?thesis
    by (simp add: Merge_def project_overlay_def merge_tool_def project_def merged_registry_def global_registry_def mput_def)
qed

definition project_record :: "string list \<Rightarrow> project_entry" where
  "project_record tools = \<lparr>peRoot = ''/p'', peDigest = overlay_digest overlay_text, peTools = tools\<rparr>"

definition project_store :: "string list \<Rightarrow> trust_store" where
  "project_store tools = [(rootID ''/p'', project_record tools)]"

lemma project_store_wf:
  assumes "ValidToolName name" "\<not> ReservedToolName name"
  shows "store_wf trust_platform (project_store [name])" "wf_map (project_store [name])"
proof -
  have "pf_is_abs trust_platform ''/p''" "pf_clean trust_platform ''/p'' = ''/p''" by code_simp+
  then have "validateEntry trust_platform (rootID ''/p'') (project_record [name]) = Inr ()"
    using fingerprint_ok assms
    by (simp add: validateEntry_def project_record_def rootID_def overlay_digest_def check_store_tool_def)
  then show "store_wf trust_platform (project_store [name])" "wf_map (project_store [name])"
    by (simp_all add: store_wf_def project_store_def wf_map_def mkeys_def)
qed

definition empty_disk :: disk where
  "empty_disk = \<lparr>dkPrimary = None, dkBackup = None, dkTemp = None\<rparr>"

definition store_disk :: "trust_store \<Rightarrow> disk" where
  "store_disk store = \<lparr>dkPrimary = Some (unlines (store_lines ascii_unicode store)), dkBackup = None, dkTemp = None\<rparr>"

lemma project_saved:
  assumes "ValidToolName name" "\<not> ReservedToolName name"
  shows "saveStore trust_platform (\<lambda>x. True) (project_store [name]) d = Inr (store_disk (project_store [name]))"
proof -
  note wf = project_store_wf [OF assms]
  have "marshalStore trust_platform (project_store [name]) = Inr (unlines (store_lines ascii_unicode (project_store [name])))"
    by (simp add: marshal_iff [OF wf(2)] wf(1))
  then show ?thesis by (simp add: saveStore_def write_success store_disk_def)
qed

lemma project_lines_short:
  "store_lines ascii_unicode (project_store [name]) =
     [key_line ''trust_version'' (itoa 1), [], ''['' @ (projects_header @ rootID ''/p'') @ '']'',
      key_line ''root'' (Quote ascii_unicode ''/p''),
      key_line ''overlay_sha256'' (dq # overlay_digest overlay_text @ [dq]),
      key_line ''tools'' (Array ascii_unicode [name])]"
  using quote_hex [of "overlay_digest overlay_text"] hex_encode_chars Sum256_bound
  by (simp add: store_lines_def project_lines_def project_store_def project_record_def Quote_def overlay_digest_def)

lemma project_store_fits: "store_fits trust_platform (project_store [''lint''])"
proof -
  have "length (key_line ''trust_version'' (itoa 1)) < 100" "length (key_line ''root'' (Quote ascii_unicode ''/p'')) < 100"
    "length (key_line ''tools'' (Array ascii_unicode [''lint''])) < 100" by code_simp+
  then show ?thesis
    by (simp add: store_fits_def project_lines_short unlines_def max_token_def maxConfigFileSize_def
        projects_header_def rootID_def overlay_digest_def key_line_def)
qed

lemma lint_name: "ValidToolName ''lint''" "\<not> ReservedToolName ''lint''"
  by code_simp+

section \<open>The trust store\<close>

text \<open>A trust store that was saved is loaded again with every entry, in the order of the project
  ids, provided that its lines fit the line scanner and its file the size limit of the reader.\<close>

theorem trust_store_round_trip:
  assumes "wf_map store" "saveStore P ok store d = Inr d'" "store_fits P store"
  shows "loadStore P d' = Inr (sort_key fst store)"
  by (rule save_then_load(2) [OF assms])

theorem trust_store_round_trip_witness:
  "loadStore trust_platform (store_disk (project_store [''lint''])) = Inr (project_store [''lint''])"
  using trust_store_round_trip [OF project_store_wf(2) [OF lint_name] project_saved [OF lint_name] project_store_fits]
  by (simp add: project_store_def)

text \<open>C39: the writer does not check the limits of the reader: a store with a longer line, or a longer
  file, is saved without an error, and from then on it can neither be read nor changed, so that
  \<open>cb untrust\<close> fails for every project.\<close>

theorem oversized_store_is_stuck:
  assumes "wf_map store" "saveStore P ok store d = Inr d'" "\<not> store_fits P store"
  shows "\<not> is_ok (loadStore P d') \<and> \<not> is_ok (untrustLocation P ok' external loc d')"
proof -
  have l: "\<not> is_ok (loadStore P d')" by (rule save_then_load(3) [OF assms])
  have "dkPrimary d' \<noteq> None" using saved_primary [OF assms(1,2)] by simp
  then have "\<not> is_ok (loadStoreForMutation P ok' d')" using l
    by (cases "loadStore P d'") (auto simp: loadStoreForMutation_def RecoverFromBackup_def)
  then have "\<not> is_ok (untrustLocation P ok' external loc d')"
    by (cases "loadStoreForMutation P ok' d'") (auto simp: untrustLocation_def)
  with l show ?thesis by blast
qed

definition long_name :: string where
  "long_name = replicate max_token CHR ''a''"

lemma long_name_facts: "length long_name = max_token" "long_name \<noteq> []" "c \<in> set long_name \<Longrightarrow> c = CHR ''a''"
proof -
  show l: "length long_name = max_token" by (simp add: long_name_def)
  show "long_name \<noteq> []" using l by (auto simp: max_token_def)
  show "c \<in> set long_name \<Longrightarrow> c = CHR ''a''" by (simp add: long_name_def)
qed

lemma long_name_valid: "ValidToolName long_name" "\<not> ReservedToolName long_name"
proof -
  have "list_all (\<lambda>c. tool_name_rune (byte_of c)) long_name"
    unfolding long_name_def list_all_iff by (simp add: tool_name_rune_def lower_letter_def)
  with long_name_facts(2) show "ValidToolName long_name" by (simp add: valid_tool_name_bytes)
  have short: "length s < 20 \<Longrightarrow> long_name \<noteq> s" for s using long_name_facts(1) by (auto simp: max_token_def)
  have "\<not> IsVersionedBinaryName long_name"
  proof
    assume "IsVersionedBinaryName long_name"
    then obtain t where t: "long_name = ''cb-v'' @ t" unfolding IsVersionedBinaryName_def has_prefix_iff by blast
    have "CHR ''c'' \<in> set long_name" unfolding t by simp
    then show False using long_name_facts(3) by blast
  qed
  moreover have "length long_name \<noteq> 4" using long_name_facts(1) by (simp add: max_token_def)
  moreover have "long_name \<notin> set [''cb'', ''container-bin'', ''cb-update-helper'', ''con'', ''prn'', ''aux'', ''nul'']"
    using short by simp
  ultimately show "\<not> ReservedToolName long_name" unfolding ReservedToolName_def by blast
qed

lemma long_name_overflows: "\<not> store_fits trust_platform (project_store [long_name])"
proof -
  have "max_token \<le> length (key_line ''tools'' (Array ascii_unicode [long_name]))"
    using quote_body_plain [of long_name ascii_unicode]
    by (simp add: key_line_def Array_def go_quote_def long_name_def list_all_iff bs_def dq_def)
  then show ?thesis by (auto simp: store_fits_def project_lines_short)
qed

theorem oversized_store_is_stuck_witness:
  "\<not> is_ok (untrustLocation trust_platform (\<lambda>x. True) True project (store_disk (project_store [long_name])))"
  using oversized_store_is_stuck [OF project_store_wf(2) [OF long_name_valid] project_saved [OF long_name_valid]
      long_name_overflows] by blast

section \<open>Merging and trusting\<close>

text \<open>An overlay only adds names: after a merge every name means what it meant before, and a name
  without a meaning gets the overlay's own tool, bound to the project's root.\<close>

theorem merge_only_adds:
  assumes "registry_wf global" "overlay_wf (ovRegistry ov)" "Merge U global ov = Inr m"
  shows "Resolve U m name = (case Resolve U global name of
       Some r \<Rightarrow> Some r
     | None \<Rightarrow> map_option (\<lambda>t. (t\<lparr>tTrustedProjectRoot := locRoot (ovLocation ov)\<rparr>, to_lower U name))
         (map_of (Tools (ovRegistry ov)) (to_lower U name)))"
  by (rule merge_resolve [OF assms])

lemma global_wf: "registry_wf global_registry"
proof -
  have "ParseTOML ascii_unicode (unlines [''schema_version = 1'', ''[tools.jq]'', key_line ''image'' (Quote ascii_unicode ''jq:1'')])
      = Inr global_registry" by code_simp
  then show ?thesis by (rule parse_toml_wf)
qed

theorem merge_only_adds_witness:
  "Resolve ascii_unicode merged_registry ''Lint'' = Some (lint\<lparr>tTrustedProjectRoot := ''/p''\<rparr>, ''lint'')"
proof -
  have "overlay_wf (ovRegistry project_overlay)" using load_overlay_wf [OF project_loads] by blast
  moreover have "Resolve ascii_unicode global_registry ''Lint'' = None" "to_lower ascii_unicode ''Lint'' = ''lint''" by code_simp+
  ultimately show ?thesis using merge_only_adds [OF global_wf _ project_merges, of "''Lint''"]
    by (simp add: project_overlay_def project_def)
qed

text \<open>C5: a project's tools reach the command only through trust: when the project has an overlay, the
  command runs with a registry only if the overlay loads, collides with nothing, and the store,
  which lies outside the project, records for this root the SHA-256 of exactly the bytes of the
  overlay and its tool names.\<close>

theorem overlay_needs_trust:
  assumes "context_registry (inspectLocation P rf external d global loc) global = Some reg"
  shows "\<exists>ov b store entry. LoadOverlay (pf_unicode P) rf loc = Inr ov \<and> Merge (pf_unicode P) global ov = Inr reg
     \<and> rf (locPath loc) = Some b \<and> external \<and> loadStore P d = Inr store
     \<and> map_of store (rootID (locRoot loc)) = Some entry
     \<and> entry = \<lparr>peRoot = locRoot loc, peDigest = overlay_digest b, peTools = ToolNames (ovRegistry ov)\<rparr>"
proof -
  have st: "cxStatus (inspectLocation P rf external d global loc) = StTrusted"
    using assms by (auto simp: inspectLocation_def context_registry_def Let_def
        split: sum.splits option.splits if_splits)
  from trusted_registry [OF st] assms obtain ov where ov: "LoadOverlay (pf_unicode P) rf loc = Inr ov"
    "Merge (pf_unicode P) global ov = Inr reg" by auto
  from st ov(1) obtain store entry where s: "external" "loadStore P d = Inr store"
    "map_of store (rootID (locRoot loc)) = Some entry" "peRoot entry = locRoot loc" "peDigest entry = ovDigest ov"
    "peTools entry = ToolNames (ovRegistry ov)" unfolding trusted_iff by auto
  from load_overlay_wf [OF ov(1)] obtain b where b: "rf (locPath loc) = Some b" "ovDigest ov = overlay_digest b" by blast
  have "entry = \<lparr>peRoot = locRoot loc, peDigest = overlay_digest b, peTools = ToolNames (ovRegistry ov)\<rparr>"
    using s(4-6) b(2) by (cases entry) simp
  with ov b(1) s(1-3) show ?thesis by blast
qed

lemma project_tool_names: "ToolNames (ovRegistry project_overlay) = [''lint'']"
proof -
  have "ToolNames \<lparr>SchemaVersion = 1, Tools = [(''lint'', lint)], Defaults = []\<rparr> = [''lint'']" by code_simp
  then show ?thesis by (simp add: project_overlay_def)
qed

lemma project_store_loads: "loadStore trust_platform (store_disk (project_store [''lint''])) = Inr (project_store [''lint''])"
  using save_then_load(2) [OF project_store_wf(2) [OF lint_name] project_saved [OF lint_name] project_store_fits]
  by (simp add: project_store_def)

lemma project_trusted: "inspectLocation trust_platform read_project True (store_disk (project_store [''lint''])) global_registry project
    = \<lparr>cxStatus = StTrusted, cxLocation = project, cxOverlay = Some project_overlay, cxEffective = Some merged_registry, cxErr = None\<rparr>"
  by (simp add: inspectLocation_def project_loads project_merges project_store_loads Let_def project_tool_names)
    (use project_tool_names in \<open>simp add: project_def project_store_def project_record_def project_overlay_def\<close>)

theorem overlay_needs_trust_witness:
  "map_of (project_store [''lint'']) (rootID ''/p'') =
     Some \<lparr>peRoot = ''/p'', peDigest = overlay_digest overlay_text, peTools = ToolNames (ovRegistry project_overlay)\<rparr>"
proof -
  have "context_registry (inspectLocation trust_platform read_project True (store_disk (project_store [''lint''])) global_registry project)
      global_registry = Some merged_registry"
    by (simp add: project_trusted context_registry_def)
  from overlay_needs_trust [OF this] show ?thesis
    using project_loads project_store_loads by (auto simp: read_project_def) (auto simp: project_def)
qed

section \<open>cb trust and cb untrust\<close>

text \<open>C26: what \<open>cb trust\<close> records is what was reviewed: it succeeds only with an approval, only when
  the overlay is still the reviewed one after the approval and again after the shims are
  installed, and it changes nothing in the store but the record of this root, which holds the
  reviewed digest.\<close>

theorem trust_records_reviewed:
  assumes "Trust P ok env c args d = Inr d'" "parseTrustArgs args = Inr (False, yes)"
  shows "\<exists>reviewed current again store d1. cxOverlay c = Some reviewed \<and> cxStatus c \<in> {StTrusted, StUntrusted, StChanged}
     \<and> (yes \<or> teInteractive env \<and> teAnswer env = Some ''trust'')
     \<and> teCurrent env = Some (Inr current) \<and> ovDigest current = ovDigest reviewed
     \<and> teAfterShims env = Some (Inr again) \<and> ovDigest again = ovDigest reviewed
     \<and> loadStoreForMutation P ok d = Inr (store, d1)
     \<and> dkPrimary d' = Some (unlines (store_lines (pf_unicode P) (mput (rootID (locRoot (cxLocation c)))
          \<lparr>peRoot = locRoot (cxLocation c), peDigest = ovDigest reviewed, peTools = ToolNames (ovRegistry current)\<rparr> store)))"
proof -
  from assms(1) obtain reviewed current again store d1 where t: "cxOverlay c = Some reviewed"
    "cxStatus c \<in> {StTrusted, StUntrusted, StChanged}" "approved env yes" "teCurrent env = Some (Inr current)"
    "ovDigest current = ovDigest reviewed" "teAfterShims env = Some (Inr again)" "ovDigest again = ovDigest reviewed"
    "loadStoreForMutation P ok d = Inr (store, d1)"
    and sv: "saveStore P ok (mput (rootID (locRoot (cxLocation c))) (trust_record c reviewed current) store) d1 = Inr d'"
    unfolding trust_writes [OF assms(2)] by blast
  have "wf_map (mput (rootID (locRoot (cxLocation c))) (trust_record c reviewed current) store)"
    using load_for_mutation_wf [OF t(8)] by (simp add: store_wf_def)
  from saved_primary [OF this sv] t show ?thesis unfolding approved_def trust_record_def by blast
qed

definition review :: context_result where
  "review = inspectLocation trust_platform read_project True empty_disk global_registry project"

definition trust_session :: trust_env where
  "trust_session = \<lparr>teInteractive = True, teAnswer = Some ''trust'', teCurrent = Some (Inr project_overlay),
     teAfterShims = Some (Inr project_overlay), teExternal = True, teShimsOk = True\<rparr>"

lemma review_untrusted: "review = \<lparr>cxStatus = StUntrusted, cxLocation = project, cxOverlay = Some project_overlay,
    cxEffective = Some merged_registry, cxErr = None\<rparr>"
  by (simp add: review_def inspectLocation_def project_loads project_merges loadStore_def empty_disk_def Let_def)

lemma session_trusts:
  "Trust trust_platform (\<lambda>x. True) trust_session review [] empty_disk = Inr (store_disk (project_store [''lint'']))"
  "parseTrustArgs [] = Inr (False, False)"
  "loadStoreForMutation trust_platform (\<lambda>x. True) empty_disk = Inr ([], empty_disk)"
proof -
  show args: "parseTrustArgs [] = Inr (False, False)" by (simp add: parseTrustArgs_def)
  show load: "loadStoreForMutation trust_platform (\<lambda>x. True) empty_disk = Inr ([], empty_disk)"
    by (simp add: loadStoreForMutation_def RecoverFromBackup_def loadStore_def empty_disk_def)
  have "mput (rootID (locRoot project)) (trust_record review project_overlay project_overlay) [] = project_store [''lint'']"
    by (simp add: project_store_def project_record_def trust_record_def review_untrusted project_tool_names mput_def)
      (simp add: project_def project_overlay_def)
  then show "Trust trust_platform (\<lambda>x. True) trust_session review [] empty_disk = Inr (store_disk (project_store [''lint'']))"
    unfolding trust_writes [OF args]
    using project_saved [OF lint_name, of empty_disk] load
    by (auto simp: review_untrusted trust_session_def approved_def project_overlay_def)
qed

theorem trust_records_reviewed_witness:
  "dkPrimary (store_disk (project_store [''lint''])) \<noteq> None \<and> teAnswer trust_session = Some ''trust''"
  using trust_records_reviewed [OF session_trusts(1,2)] by (auto simp: trust_session_def)

text \<open>After \<open>cb trust\<close> the project is trusted: an overlay that is still on disk as reviewed is
  found trusted by the next command, unless the new store exceeds the limits of its reader.\<close>

theorem trust_makes_trusted:
  assumes "Trust P ok env c args d = Inr d'" "parseTrustArgs args = Inr (False, yes)" "cxLocation c = loc"
    and "LoadOverlay (pf_unicode P) rf loc = Inr ov" "Merge (pf_unicode P) global ov = Inr merged"
    and "teCurrent env = Some (Inr ov)" "cxOverlay c = Some reviewed"
    and "loadStoreForMutation P ok d = Inr (store, d1)"
    and "store_fits P (mput (rootID (locRoot loc)) (trust_record c reviewed ov) store)"
  shows "cxStatus (inspectLocation P rf True d' global loc) = StTrusted"
  by (rule trust_then_trusted [OF assms(1-7)]) (use assms(8,9) in simp)

theorem trust_makes_trusted_witness:
  "cxStatus (inspectLocation trust_platform read_project True (store_disk (project_store [''lint''])) global_registry project) = StTrusted"
proof (rule trust_makes_trusted [OF session_trusts(1,2) _ _ _ _ _ session_trusts(3)])
  show "cxLocation review = project" "cxOverlay review = Some project_overlay"
    "teCurrent trust_session = Some (Inr project_overlay)"
    by (simp_all add: review_untrusted trust_session_def)
  show "LoadOverlay (pf_unicode trust_platform) read_project project = Inr project_overlay"
    "Merge (pf_unicode trust_platform) global_registry project_overlay = Inr merged_registry"
    by (simp_all add: project_loads project_merges)
  have "mput (rootID (locRoot project)) (trust_record review project_overlay project_overlay) [] = project_store [''lint'']"
    by (simp add: project_store_def project_record_def trust_record_def review_untrusted project_tool_names mput_def)
      (simp add: project_def project_overlay_def)
  then show "store_fits trust_platform (mput (rootID (locRoot project)) (trust_record review project_overlay project_overlay) [])"
    using project_store_fits by simp
qed

text \<open>After \<open>cb untrust\<close> the project is not trusted, whatever overlay is on disk.\<close>

theorem untrust_revokes:
  assumes "untrustLocation P ok external loc d = Inr d'"
  shows "cxStatus (inspectLocation P rf ext d' global loc) \<noteq> StTrusted"
  by (rule untrusted_after [OF assms])

theorem untrust_revokes_witness:
  "\<exists>d'. cxStatus (inspectLocation trust_platform read_project True d' global_registry project) \<noteq> StTrusted
     \<and> untrustLocation trust_platform (\<lambda>x. True) True project (store_disk (project_store [''lint''])) = Inr d'"
proof -
  have "loadStoreForMutation trust_platform (\<lambda>x. True) (store_disk (project_store [''lint''])) =
      Inr (project_store [''lint''], store_disk (project_store [''lint'']))"
    using project_store_loads by (simp add: loadStoreForMutation_def RecoverFromBackup_def store_disk_def)
  then have "untrustLocation trust_platform (\<lambda>x. True) True project (store_disk (project_store [''lint''])) = Inr (store_disk [])"
    by (simp add: untrustLocation_def project_store_def project_def mhas_def mdel_def mkeys_def saveStore_def marshalStore_def
        write_success store_disk_def)
  with untrust_revokes [OF this, of read_project True global_registry] show ?thesis by blast
qed

end
