(* ===== verification/Registry_Builtin.thy ===== *)
theory Registry_Builtin
  imports Registry_Parse
begin

text \<open>
  The built-in registry (\<open>internal/registry/registry.go\<close>, \<open>DefaultTOML\<close>), section by section as
  the source has it, and what the program takes from it: \<open>Default\<close>, \<open>DefaultToolSections\<close> and
  \<open>DefaultFamilySections\<close>. \<open>pipx\<close> is the embedded wrapper script \<open>pipx_wrapper.py\<close>, which the source
  inserts with \<open>toml.Array\<close>.
\<close>

definition builtin_preamble :: "string list" where
  \<open>builtin_preamble =
    [''# container-bin tool registry'',
     ''schema_version = 2'',
     ''# Generated by cb. Edit this file, then run: cb install'',
     ''#'',
     ''# provider = "stateless" => disposable container, no tool-specific state'',
     ''# provider = "python"    => legacy Python provider: project /venv + shared pip cache'',
     ''# provider = "stateful"  => generic declarative persistent volumes'',
     ''#'',
     ''# Tool-semantics rules:'',
     ''# path_next   = ["-i"]       => argv immediately following this option is a host path'',
     ''# path_equals = ["-chdir"]   => -chdir=HOST_PATH is rewritten safely'',
     ''# path_last   = true          => final non-option argv is treated as a host path'',
     ''# path_last_if_any = ["-i"]  => path_last only applies if one of these argv exists'',
     ''# env_prefixes / env_names   => explicitly pass selected host environment variables'',
     ''# env_set                    => literal NAME=VALUE entries injected into the container'',
     ''# project_markers            => single path-element files/dirs used to find this tool'' @ [CHR 0x27] @ ''s project root'',
     ''# project_root_mode          => "nearest" (default) or "outermost" matching marker'',
     ''# state_group                => namespace shared by related stateful shims'',
     ''# project_volumes            => ["name:/container/path"] scoped by project root'',
     ''# shared_volumes             => ["name:/container/path"] shared across projects'',
     ''# host_mounts                => ["%USERPROFILE%'' @ [CHR 0x5C] @ [CHR 0x5C] @ ''.claude:/root/.claude:ro"] explicit host bind mounts'',
     ''# cwd_mode                   => "project" (default) or "isolated" (ignore CWD, no project bind mount)'',
     ''# default_family/version/alias => concrete profile backing an unversioned runtime alias'',
     '''']\<close>

definition builtin_family_node :: "string list" where
  \<open>builtin_family_node =
    [''[defaults.node]'',
     ''version = "24"'',
     '''']\<close>

definition builtin_tool_python :: "string list" where
  \<open>builtin_tool_python =
    [''[tools.python]'',
     ''image = "python:3.13-slim"'',
     ''provider = "python"'',
     ''role = "python"'',
     ''project_markers = ["pyproject.toml", "requirements.txt", "setup.py", "setup.cfg", ".git"]'',
     '''']\<close>

definition builtin_tool_python3 :: "string list" where
  \<open>builtin_tool_python3 =
    [''[tools.python3]'',
     ''image = "python:3.13-slim"'',
     ''provider = "python"'',
     ''role = "python"'',
     ''project_markers = ["pyproject.toml", "requirements.txt", "setup.py", "setup.cfg", ".git"]'',
     '''']\<close>

definition builtin_tool_pip :: "string list" where
  \<open>builtin_tool_pip =
    [''[tools.pip]'',
     ''image = "python:3.13-slim"'',
     ''provider = "python"'',
     ''role = "pip"'',
     ''project_markers = ["pyproject.toml", "requirements.txt", "setup.py", "setup.cfg", ".git"]'',
     '''']\<close>

definition builtin_tool_pip3 :: "string list" where
  \<open>builtin_tool_pip3 =
    [''[tools.pip3]'',
     ''image = "python:3.13-slim"'',
     ''provider = "python"'',
     ''role = "pip"'',
     ''project_markers = ["pyproject.toml", "requirements.txt", "setup.py", "setup.cfg", ".git"]'',
     '''']\<close>

definition builtin_tool_jq :: "string list" where
  \<open>builtin_tool_jq =
    [''[tools.jq]'',
     ''image = "ghcr.io/jqlang/jq:latest"'',
     ''provider = "stateless"'',
     '''']\<close>

definition builtin_tool_yq :: "string list" where
  \<open>builtin_tool_yq =
    [''[tools.yq]'',
     ''image = "mikefarah/yq:latest"'',
     ''provider = "stateless"'',
     ''env_names = ["NO_COLOR"]'',
     '''']\<close>

definition builtin_tool_terraform :: "string list" where
  \<open>builtin_tool_terraform =
    [''[tools.terraform]'',
     ''image = "hashicorp/terraform:latest"'',
     ''provider = "stateless"'',
     ''path_equals = ["-chdir"]'',
     ''env_prefixes = ["TF_", "AWS_", "ARM_", "AZURE_", "GOOGLE_", "GCLOUD_", "CLOUDFLARE_", "HCLOUD_", "DIGITALOCEAN_", "LINODE_", "OVH_", "VAULT_", "CONSUL_"]'',
     ''env_names = ["HOME", "HTTP_PROXY", "HTTPS_PROXY", "NO_PROXY", "http_proxy", "https_proxy", "no_proxy"]'',
     '''']\<close>

definition builtin_tool_ffmpeg :: "string list" where
  \<open>builtin_tool_ffmpeg =
    [''[tools.ffmpeg]'',
     ''image = "lscr.io/linuxserver/ffmpeg:latest"'',
     ''provider = "stateless"'',
     ''# Intentionally no forced path rules: FFmpeg inputs can also be URLs, pipes,'',
     ''# devices and lavfi expressions. Generic host-path detection is safer.'',
     '''']\<close>

definition builtin_tool_node24 :: "string list" where
  \<open>builtin_tool_node24 =
    [''[tools.node24]'',
     ''default_family = "node"'',
     ''default_version = "24"'',
     ''default_alias = "node"'',
     ''image = "node:24-slim"'',
     ''provider = "stateful"'',
     ''command = ["node"]'',
     ''state_group = "node24"'',
     ''project_markers = ["package.json", "package-lock.json", "npm-shrinkwrap.json", ".git"]'',
     ''project_volumes = ["node-modules:/workspace/node_modules"]'',
     ''shared_volumes = ["npm-cache:/root/.npm"]'',
     ''env_names = ["NODE_ENV", "NODE_OPTIONS", "NPM_CONFIG_REGISTRY", "HTTP_PROXY", "HTTPS_PROXY", "NO_PROXY", "http_proxy", "https_proxy", "no_proxy"]'',
     '''']\<close>

definition builtin_tool_npm24 :: "string list" where
  \<open>builtin_tool_npm24 =
    [''[tools.npm24]'',
     ''default_family = "node"'',
     ''default_version = "24"'',
     ''default_alias = "npm"'',
     ''image = "node:24-slim"'',
     ''provider = "stateful"'',
     ''command = ["npm"]'',
     ''state_group = "node24"'',
     ''project_markers = ["package.json", "package-lock.json", "npm-shrinkwrap.json", ".git"]'',
     ''project_volumes = ["node-modules:/workspace/node_modules"]'',
     ''shared_volumes = ["npm-cache:/root/.npm", "npm-global:/cb/npm-global"]'',
     ''env_set = ["NPM_CONFIG_PREFIX=/cb/npm-global"]'',
     ''env_prefixes = ["NPM_CONFIG_"]'',
     ''env_names = ["NODE_ENV", "NODE_OPTIONS", "HTTP_PROXY", "HTTPS_PROXY", "NO_PROXY", "http_proxy", "https_proxy", "no_proxy"]'',
     '''']\<close>

definition builtin_tool_npx24 :: "string list" where
  \<open>builtin_tool_npx24 =
    [''[tools.npx24]'',
     ''default_family = "node"'',
     ''default_version = "24"'',
     ''default_alias = "npx"'',
     ''image = "node:24-slim"'',
     ''provider = "stateful"'',
     ''command = ["npx"]'',
     ''state_group = "node24"'',
     ''project_markers = ["package.json", "package-lock.json", "npm-shrinkwrap.json", ".git"]'',
     ''project_volumes = ["node-modules:/workspace/node_modules"]'',
     ''shared_volumes = ["npm-cache:/root/.npm", "npm-global:/cb/npm-global"]'',
     ''env_set = ["NPM_CONFIG_PREFIX=/cb/npm-global"]'',
     ''env_prefixes = ["NPM_CONFIG_"]'',
     ''env_names = ["NODE_ENV", "NODE_OPTIONS", "HTTP_PROXY", "HTTPS_PROXY", "NO_PROXY", "http_proxy", "https_proxy", "no_proxy"]'',
     '''']\<close>

definition builtin_tool_node22 :: "string list" where
  \<open>builtin_tool_node22 =
    [''[tools.node22]'',
     ''default_family = "node"'',
     ''default_version = "22"'',
     ''default_alias = "node"'',
     ''image = "node:22-slim"'',
     ''provider = "stateful"'',
     ''command = ["node"]'',
     ''state_group = "node22"'',
     ''project_markers = ["package.json", "package-lock.json", "npm-shrinkwrap.json", ".git"]'',
     ''project_volumes = ["node-modules:/workspace/node_modules"]'',
     ''shared_volumes = ["npm-cache:/root/.npm"]'',
     ''env_names = ["NODE_ENV", "NODE_OPTIONS", "NPM_CONFIG_REGISTRY", "HTTP_PROXY", "HTTPS_PROXY", "NO_PROXY", "http_proxy", "https_proxy", "no_proxy"]'',
     '''']\<close>

definition builtin_tool_npm22 :: "string list" where
  \<open>builtin_tool_npm22 =
    [''[tools.npm22]'',
     ''default_family = "node"'',
     ''default_version = "22"'',
     ''default_alias = "npm"'',
     ''image = "node:22-slim"'',
     ''provider = "stateful"'',
     ''command = ["npm"]'',
     ''state_group = "node22"'',
     ''project_markers = ["package.json", "package-lock.json", "npm-shrinkwrap.json", ".git"]'',
     ''project_volumes = ["node-modules:/workspace/node_modules"]'',
     ''shared_volumes = ["npm-cache:/root/.npm", "npm-global:/cb/npm-global"]'',
     ''env_set = ["NPM_CONFIG_PREFIX=/cb/npm-global"]'',
     ''env_prefixes = ["NPM_CONFIG_"]'',
     ''env_names = ["NODE_ENV", "NODE_OPTIONS", "HTTP_PROXY", "HTTPS_PROXY", "NO_PROXY", "http_proxy", "https_proxy", "no_proxy"]'',
     '''']\<close>

definition builtin_tool_npx22 :: "string list" where
  \<open>builtin_tool_npx22 =
    [''[tools.npx22]'',
     ''default_family = "node"'',
     ''default_version = "22"'',
     ''default_alias = "npx"'',
     ''image = "node:22-slim"'',
     ''provider = "stateful"'',
     ''command = ["npx"]'',
     ''state_group = "node22"'',
     ''project_markers = ["package.json", "package-lock.json", "npm-shrinkwrap.json", ".git"]'',
     ''project_volumes = ["node-modules:/workspace/node_modules"]'',
     ''shared_volumes = ["npm-cache:/root/.npm", "npm-global:/cb/npm-global"]'',
     ''env_set = ["NPM_CONFIG_PREFIX=/cb/npm-global"]'',
     ''env_prefixes = ["NPM_CONFIG_"]'',
     ''env_names = ["NODE_ENV", "NODE_OPTIONS", "HTTP_PROXY", "HTTPS_PROXY", "NO_PROXY", "http_proxy", "https_proxy", "no_proxy"]'',
     '''']\<close>

definition builtin_tool_go :: "string list" where
  \<open>builtin_tool_go =
    [''[tools.go]'',
     ''image = "golang:1.24"'',
     ''provider = "stateful"'',
     ''command = ["go"]'',
     ''state_group = "go124"'',
     ''project_markers = ["go.mod", "go.work", ".git"]'',
     ''shared_volumes = ["gomodcache:/go/pkg/mod", "gobuild:/root/.cache/go-build", "gobin:/go/bin"]'',
     ''# No path_next: everything after '' @ [CHR 0x27] @ ''go run PKG'' @ [CHR 0x27] @ '' is handed to the user'' @ [CHR 0x27] @ ''s program, so'',
     ''# forcing the value after -o/-C would rewrite ordinary flags such as '' @ [CHR 0x27] @ ''go run . -o json'' @ [CHR 0x27],
     ''# into container paths. Real output paths are already mapped by the general rules'',
     ''# (absolute and .'' @ [CHR 0x5C] @ ''rel forms), and a bare name resolves against the container working'',
     ''# directory, which is the project.'',
     ''# Do not allowlist path-valued variables; Windows paths are meaningless inside the Linux container'',
     ''env_names = ["GOFLAGS", "GOPROXY", "GONOPROXY", "GOPRIVATE", "GOSUMDB", "GONOSUMDB", "GOINSECURE", "GOOS", "GOARCH", "GOARM", "CGO_ENABLED", "GOTOOLCHAIN", "HTTP_PROXY", "HTTPS_PROXY", "NO_PROXY", "http_proxy", "https_proxy", "no_proxy"]'',
     '''']\<close>

definition builtin_tool_gofmt :: "string list" where
  \<open>builtin_tool_gofmt =
    [''[tools.gofmt]'',
     ''image = "golang:1.24"'',
     ''provider = "stateful"'',
     ''command = ["gofmt"]'',
     ''state_group = "go124"'',
     ''project_markers = ["go.mod", "go.work", ".git"]'',
     ''shared_volumes = ["gomodcache:/go/pkg/mod", "gobuild:/root/.cache/go-build", "gobin:/go/bin"]'',
     ''# No path_last: a bare final argument like the value of -r is not a file, and real'',
     ''# file operands are already mapped by the general path-shape rules.'',
     ''# Do not allowlist path-valued variables; Windows paths are meaningless inside the Linux container'',
     ''env_names = ["GOFLAGS", "GOPROXY", "GONOPROXY", "GOPRIVATE", "GOSUMDB", "GONOSUMDB", "GOINSECURE", "GOOS", "GOARCH", "GOARM", "CGO_ENABLED", "GOTOOLCHAIN", "HTTP_PROXY", "HTTPS_PROXY", "NO_PROXY", "http_proxy", "https_proxy", "no_proxy"]'',
     '''']\<close>

definition builtin_tool_rustc :: "string list" where
  \<open>builtin_tool_rustc =
    [''[tools.rustc]'',
     ''image = "rust:1.98.1-slim-bookworm"'',
     ''provider = "stateless"'',
     ''command = ["rustc"]'',
     ''project_markers = ["Cargo.toml", "rust-toolchain.toml", "rust-toolchain", ".git"]'',
     '''']\<close>

definition builtin_tool_cargo :: "string list" where
  \<open>builtin_tool_cargo =
    [''[tools.cargo]'',
     ''image = "rust:1.98.1-slim-bookworm"'',
     ''provider = "stateful"'',
     ''command = ["cargo"]'',
     ''state_group = "rust198"'',
     ''project_markers = ["Cargo.toml", "rust-toolchain.toml", "rust-toolchain", ".git"]'',
     ''project_root_mode = "outermost"'',
     ''shared_volumes = ["registry:/usr/local/cargo/registry", "git:/usr/local/cargo/git", "global:/cb/cargo-global"]'',
     ''env_set = ["CARGO_INSTALL_ROOT=/cb/cargo-global", "PATH=/cb/cargo-global/bin:/usr/local/cargo/bin:/usr/local/sbin:/usr/local/bin:/usr/sbin:/usr/bin:/sbin:/bin"]'',
     ''env_prefixes = ["CARGO_REGISTRIES_"]'',
     ''env_names = ["CARGO_NET_OFFLINE", "CARGO_TERM_COLOR", "CARGO_HTTP_TIMEOUT", "CARGO_HTTP_MULTIPLEXING", "CARGO_HTTP_LOW_SPEED_LIMIT", "RUST_BACKTRACE", "RUST_LOG", "RUSTFLAGS", "RUSTDOCFLAGS", "HTTP_PROXY", "HTTPS_PROXY", "NO_PROXY", "http_proxy", "https_proxy", "no_proxy"]'',
     ''path_next = ["--target-dir", "--manifest-path"]'',
     ''path_equals = ["--target-dir", "--manifest-path"]'',
     '''']\<close>

definition builtin_tool_uv :: "string list" where
  \<open>builtin_tool_uv =
    [''[tools.uv]'',
     ''image = "ghcr.io/astral-sh/uv:0.12-python3.13-trixie-slim"'',
     ''provider = "stateful"'',
     ''command = ["uv"]'',
     ''state_group = "uv012-py313"'',
     ''project_markers = ["pyproject.toml", "uv.lock", "requirements.txt", "setup.py", "setup.cfg", ".python-version", ".git"]'',
     ''project_volumes = ["project-env:/cb/uv-project-env"]'',
     ''shared_volumes = ["cache:/root/.cache/uv", "tools:/cb/uv-tools", "tool-bin:/cb/uv-bin"]'',
     ''env_set = ["UV_PROJECT_ENVIRONMENT=/cb/uv-project-env", "VIRTUAL_ENV=/cb/uv-project-env", "UV_CACHE_DIR=/root/.cache/uv", "UV_TOOL_DIR=/cb/uv-tools", "UV_TOOL_BIN_DIR=/cb/uv-bin", "UV_LINK_MODE=copy", "UV_PYTHON_DOWNLOADS=never", "PATH=/cb/uv-project-env/bin:/cb/uv-bin:/usr/local/bin:/usr/local/sbin:/usr/sbin:/usr/bin:/sbin:/bin"]'',
     ''env_prefixes = ["UV_INDEX_"]'',
     ''env_names = ["UV_INDEX", "UV_DEFAULT_INDEX", "UV_EXTRA_INDEX_URL", "UV_NO_INDEX", "UV_NATIVE_TLS", "UV_OFFLINE", "UV_NO_CACHE", "UV_FROZEN", "UV_LOCKED", "UV_NO_PROGRESS", "UV_COLOR", "UV_HTTP_TIMEOUT", "UV_HTTP_RETRIES", "UV_CONCURRENT_DOWNLOADS", "UV_CONCURRENT_BUILDS", "UV_CONCURRENT_INSTALLS", "UV_INSECURE_HOST", "UV_KEYRING_PROVIDER", "UV_PRERELEASE", "HTTP_PROXY", "HTTPS_PROXY", "NO_PROXY", "http_proxy", "https_proxy", "no_proxy"]'',
     ''# These global options are always paths. Forced option mapping stops at --, so'',
     ''# child-command payloads with the same spelling remain untouched.'',
     ''path_equals = ["--project", "--directory", "--config-file", "--cache-dir"]'',
     '''']\<close>

definition builtin_tool_uvx :: "string list" where
  \<open>builtin_tool_uvx =
    [''[tools.uvx]'',
     ''image = "ghcr.io/astral-sh/uv:0.12-python3.13-trixie-slim"'',
     ''provider = "stateful"'',
     ''command = ["uvx"]'',
     ''state_group = "uv012-py313"'',
     ''project_markers = ["pyproject.toml", "uv.lock", "requirements.txt", "setup.py", "setup.cfg", ".python-version", ".git"]'',
     ''shared_volumes = ["cache:/root/.cache/uv", "tools:/cb/uv-tools", "tool-bin:/cb/uv-bin"]'',
     ''env_set = ["UV_CACHE_DIR=/root/.cache/uv", "UV_TOOL_DIR=/cb/uv-tools", "UV_TOOL_BIN_DIR=/cb/uv-bin", "UV_LINK_MODE=copy", "UV_PYTHON_DOWNLOADS=never", "PATH=/cb/uv-bin:/usr/local/bin:/usr/local/sbin:/usr/sbin:/usr/bin:/sbin:/bin"]'',
     ''env_prefixes = ["UV_INDEX_"]'',
     ''env_names = ["UV_INDEX", "UV_DEFAULT_INDEX", "UV_EXTRA_INDEX_URL", "UV_NO_INDEX", "UV_NATIVE_TLS", "UV_OFFLINE", "UV_NO_CACHE", "UV_NO_PROGRESS", "UV_COLOR", "UV_HTTP_TIMEOUT", "UV_HTTP_RETRIES", "UV_CONCURRENT_DOWNLOADS", "UV_CONCURRENT_BUILDS", "UV_CONCURRENT_INSTALLS", "UV_INSECURE_HOST", "UV_KEYRING_PROVIDER", "UV_PRERELEASE", "HTTP_PROXY", "HTTPS_PROXY", "NO_PROXY", "http_proxy", "https_proxy", "no_proxy"]'',
     ''path_equals = ["--project", "--directory", "--config-file", "--cache-dir"]'',
     '''']\<close>

definition builtin_tool_pipx :: "unicode \<Rightarrow> string \<Rightarrow> string list" where
  \<open>builtin_tool_pipx U pipx =
    [''[tools.pipx]'',
     ''image = "ghcr.io/astral-sh/uv:0.12-python3.13-trixie-slim"'',
     ''provider = "stateful"'',
     ''command = '' @ Array U [''/usr/local/bin/python3'', ''-c'', pipx],
     ''state_group = "pipx117-py313"'',
     ''shared_volumes = ["state:/cb/pipx"]'',
     ''env_set = ["UV_CACHE_DIR=/cb/pipx/launcher-cache", "UV_LINK_MODE=copy", "UV_PYTHON_DOWNLOADS=never", "PIPX_HOME=/cb/pipx/home", "PIPX_BIN_DIR=/cb/pipx/bin", "PIPX_MAN_DIR=/cb/pipx/home/man", "PIPX_COMPLETION_DIR=/cb/pipx/home/completions", "PIPX_DEFAULT_PYTHON=/usr/local/bin/python3.13", "PATH=/usr/local/bin:/usr/local/sbin:/usr/sbin:/usr/bin:/sbin:/bin:/cb/pipx/bin"]'',
     ''env_prefixes = ["UV_INDEX_"]'',
     ''env_names = ["UV_INDEX", "UV_DEFAULT_INDEX", "UV_EXTRA_INDEX_URL", "UV_NO_INDEX", "UV_NATIVE_TLS", "UV_OFFLINE", "UV_NO_PROGRESS", "UV_COLOR", "UV_HTTP_TIMEOUT", "UV_HTTP_RETRIES", "UV_INSECURE_HOST", "UV_KEYRING_PROVIDER", "PIP_INDEX_URL", "PIP_EXTRA_INDEX_URL", "PIP_NO_INDEX", "PIP_TRUSTED_HOST", "PIP_DISABLE_PIP_VERSION_CHECK", "PIP_TIMEOUT", "PIP_RETRIES", "HTTP_PROXY", "HTTPS_PROXY", "NO_PROXY", "http_proxy", "https_proxy", "no_proxy"]'',
     ''# pipx accepts package specs, URLs and child-command arguments. Do not force'',
     ''# positional path mapping; explicit Windows path operands use the general mapper.'',
     ''# The wrapper serializes pipx mutations and validates links after every command:'',
     ''# internal links become relative and known image interpreters become copies.'',
     ''# This keeps the single managed state volume portable through safe backup/restore.'',
     '''']\<close>

definition builtin_tool_dotnet :: "string list" where
  \<open>builtin_tool_dotnet =
    [''[tools.dotnet]'',
     ''image = "mcr.microsoft.com/dotnet/sdk:10.0"'',
     ''provider = "stateful"'',
     ''command = ["dotnet"]'',
     ''state_group = "dotnet10"'',
     ''project_markers = ["global.json", "Directory.Build.props", "Directory.Build.targets", "Directory.Packages.props", "NuGet.Config", "nuget.config", ".git"]'',
     ''shared_volumes = ["nuget-packages:/root/.nuget/packages", "nuget-config:/root/.nuget/NuGet", "dotnet-home:/root/.dotnet"]'',
     ''env_set = ["DOTNET_CLI_HOME=/root", "NUGET_PACKAGES=/root/.nuget/packages", "DOTNET_CLI_TELEMETRY_OPTOUT=1", "DOTNET_NOLOGO=1", "DOTNET_SKIP_FIRST_TIME_EXPERIENCE=1", "PATH=/root/.dotnet/tools:/usr/local/sbin:/usr/local/bin:/usr/sbin:/usr/bin:/sbin:/bin"]'',
     ''env_prefixes = ["NUGETPACKAGESOURCECREDENTIALS_"]'',
     ''env_names = ["DOTNET_ENVIRONMENT", "ASPNETCORE_ENVIRONMENT", "DOTNET_SYSTEM_GLOBALIZATION_INVARIANT", "DOTNET_SYSTEM_NET_HTTP_USESOCKETSHTTPHANDLER", "DOTNET_ROLL_FORWARD", "DOTNET_ROLL_FORWARD_TO_PRERELEASE", "DOTNET_EnableDiagnostics", "DOTNET_USE_POLLING_FILE_WATCHER", "NUGET_XMLDOC_MODE", "NUGET_CERT_REVOCATION_MODE", "HTTP_PROXY", "HTTPS_PROXY", "NO_PROXY", "http_proxy", "https_proxy", "no_proxy"]'',
     ''# No forced path rules: arguments after commands such as dotnet run -- belong'',
     ''# to the child program. Absolute and explicit relative paths use the general mapper.'',
     '''']\<close>

definition builtin_tool_ruby :: "string list" where
  \<open>builtin_tool_ruby =
    [''[tools.ruby]'',
     ''image = "ruby:4.0-trixie"'',
     ''provider = "stateful"'',
     ''command = ["ruby"]'',
     ''state_group = "ruby40"'',
     ''project_markers = ["Gemfile", "Gemfile.lock", "gems.rb", "gems.locked", ".ruby-version", ".git"]'',
     ''shared_volumes = ["gems:/cb/ruby-gems"]'',
     ''env_set = ["GEM_HOME=/cb/ruby-gems", "GEM_PATH=/cb/ruby-gems:/usr/local/lib/ruby/gems/4.0.0", "PATH=/cb/ruby-gems/bin:/usr/local/bundle/bin:/usr/local/bin:/usr/local/sbin:/usr/sbin:/usr/bin:/sbin:/bin"]'',
     ''env_names = ["RUBY_YJIT_ENABLE", "RUBY_THREAD_VM_STACK_SIZE", "RUBY_FIBER_MACHINE_STACK_SIZE", "RUBY_FIBER_VM_STACK_SIZE", "HTTP_PROXY", "HTTPS_PROXY", "NO_PROXY", "http_proxy", "https_proxy", "no_proxy"]'',
     '''']\<close>

definition builtin_tool_gem :: "string list" where
  \<open>builtin_tool_gem =
    [''[tools.gem]'',
     ''image = "ruby:4.0-trixie"'',
     ''provider = "stateful"'',
     ''command = ["gem"]'',
     ''state_group = "ruby40"'',
     ''project_markers = ["Gemfile", "Gemfile.lock", "gems.rb", "gems.locked", ".ruby-version", ".git"]'',
     ''shared_volumes = ["gems:/cb/ruby-gems", "spec-cache:/cb/ruby-spec-cache"]'',
     ''env_set = ["GEM_HOME=/cb/ruby-gems", "GEM_PATH=/cb/ruby-gems:/usr/local/lib/ruby/gems/4.0.0", "GEM_SPEC_CACHE=/cb/ruby-spec-cache", "PATH=/cb/ruby-gems/bin:/usr/local/bundle/bin:/usr/local/bin:/usr/local/sbin:/usr/sbin:/usr/bin:/sbin:/bin"]'',
     ''env_names = ["RUBYGEMS_HOST", "RUBYGEMS_API_KEY", "HTTP_PROXY", "HTTPS_PROXY", "NO_PROXY", "HTTP_PROXY_USER", "HTTP_PROXY_PASS", "http_proxy", "https_proxy", "no_proxy"]'',
     '''']\<close>

definition builtin_tool_bundle :: "string list" where
  \<open>builtin_tool_bundle =
    [''[tools.bundle]'',
     ''image = "ruby:4.0-trixie"'',
     ''provider = "stateful"'',
     ''command = ["bundle"]'',
     ''state_group = "ruby40"'',
     ''project_markers = ["Gemfile", "Gemfile.lock", "gems.rb", "gems.locked", ".ruby-version", ".git"]'',
     ''project_volumes = ["bundle:/cb/bundle"]'',
     ''shared_volumes = ["gems:/cb/ruby-gems", "spec-cache:/cb/ruby-spec-cache", "bundle-cache:/cb/bundle-cache"]'',
     ''env_set = ["GEM_HOME=/cb/ruby-gems", "GEM_PATH=/cb/ruby-gems:/usr/local/lib/ruby/gems/4.0.0", "GEM_SPEC_CACHE=/cb/ruby-spec-cache", "BUNDLE_PATH=/cb/bundle", "BUNDLE_APP_CONFIG=/cb/bundle/.config", "BUNDLE_USER_CACHE=/cb/bundle-cache", "BUNDLE_SILENCE_ROOT_WARNING=1", "PATH=/cb/ruby-gems/bin:/usr/local/bundle/bin:/usr/local/bin:/usr/local/sbin:/usr/sbin:/usr/bin:/sbin:/bin"]'',
     ''env_names = ["BUNDLE_WITH", "BUNDLE_WITHOUT", "BUNDLE_JOBS", "BUNDLE_RETRY", "BUNDLE_FROZEN", "BUNDLE_DEPLOYMENT", "BUNDLE_CLEAN", "BUNDLE_FORCE_RUBY_PLATFORM", "BUNDLE_DISABLE_LOCAL_BRANCH_CHECK", "RUBYGEMS_HOST", "RUBYGEMS_API_KEY", "HTTP_PROXY", "HTTPS_PROXY", "NO_PROXY", "HTTP_PROXY_USER", "HTTP_PROXY_PASS", "http_proxy", "https_proxy", "no_proxy"]'',
     ''# No forced path rules: Ruby code and arguments after bundle exec are opaque to'',
     ''# container-bin. Absolute and explicit relative paths use the general mapper.'']\<close>

definition DefaultTOML :: "unicode \<Rightarrow> string \<Rightarrow> string" where
  "DefaultTOML U pipx = concat (map (\<lambda>l. l @ [CHR 0x0A]) (concat
    [builtin_preamble,
     builtin_family_node,
     builtin_tool_python,
     builtin_tool_python3,
     builtin_tool_pip,
     builtin_tool_pip3,
     builtin_tool_jq,
     builtin_tool_yq,
     builtin_tool_terraform,
     builtin_tool_ffmpeg,
     builtin_tool_node24,
     builtin_tool_npm24,
     builtin_tool_npx24,
     builtin_tool_node22,
     builtin_tool_npm22,
     builtin_tool_npx22,
     builtin_tool_go,
     builtin_tool_gofmt,
     builtin_tool_rustc,
     builtin_tool_cargo,
     builtin_tool_uv,
     builtin_tool_uvx,
     builtin_tool_pipx U pipx,
     builtin_tool_dotnet,
     builtin_tool_ruby,
     builtin_tool_gem,
     builtin_tool_bundle]))"

text \<open>\<open>None\<close> is the panic of \<open>Default\<close> and \<open>defaultSections\<close> on an invalid built-in registry.\<close>

definition Default :: "unicode \<Rightarrow> string \<Rightarrow> registry option" where
  "Default U pipx = (case ParseTOML U (DefaultTOML U pipx) of Inl _ \<Rightarrow> None | Inr reg \<Rightarrow> Some reg)"

definition defaultSections :: "unicode \<Rightarrow> string \<Rightarrow> string \<Rightarrow> (string, string) gomap option" where
  "defaultSections U pipx pre = (case sectionsFromTOML (DefaultTOML U pipx) pre of Inl _ \<Rightarrow> None | Inr sections \<Rightarrow> Some sections)"

definition DefaultToolSections :: "unicode \<Rightarrow> string \<Rightarrow> (string, string) gomap option" where
  "DefaultToolSections U pipx = defaultSections U pipx tools_header"

definition DefaultFamilySections :: "unicode \<Rightarrow> string \<Rightarrow> (string, string) gomap option" where
  "DefaultFamilySections U pipx = defaultSections U pipx defaults_header"

end
