(* ===== verification/Registry_File.thy ===== *)
theory Registry_File
  imports Registry_Builtin Atomicio Platform
begin

text \<open>
  The registry file (\<open>internal/registry/file.go\<close>): loading with authentication and recovery, the
  line-by-line rewriting of \<open>RewriteWithoutTools\<close> and \<open>SetDefaultVersion\<close>, the upgrades that
  append built-in sections, and the choice and installation of shims. A rewriting works on the
  pieces of \<open>strings.SplitAfter(data, "\n")\<close>, which keep their newline.
\<close>

section \<open>Creating and loading\<close>

text \<open>\<open>EnsureFileMode\<close>: \<open>stat\<close> is the outcome of \<open>os.Stat\<close>, \<open>Absent\<close> when the file does not exist.\<close>

datatype ensure_error = Ensure_Stat | Ensure_Write

definition EnsureFileMode ::
    "unicode \<Rightarrow> string \<Rightarrow> (op \<Rightarrow> bool) \<Rightarrow> unit io \<Rightarrow> disk \<Rightarrow> (ensure_error, disk) result" where
  "EnsureFileMode U pipx ok stat d = (case stat of
     Got _ \<Rightarrow> Inr d
   | Failed \<Rightarrow> Inl Ensure_Stat
   | Absent \<Rightarrow> (case writeFile ok (DefaultTOML U pipx) d of
       (success, d') \<Rightarrow> if success then Inr d' else Inl Ensure_Write))"

datatype backup_error = Backup_Empty | Backup_Parse reg_error

definition validateBackup :: "unicode \<Rightarrow> string \<Rightarrow> (backup_error, unit) result" where
  "validateBackup U b = (if b = [] then Inl Backup_Empty
     else rbind (map_err Backup_Parse (ParseTOML U b)) (\<lambda>_. Inr ()))"

text \<open>\<open>Load_Panic\<close> is the panic of \<open>Default\<close>. The authenticator gets \<open>None\<close> for an absent file.\<close>

datatype 'a load_reg_error =
    Load_Auth 'a
  | Load_Recover "backup_error recover_error"
  | Load_Read
  | Load_Toml reg_error
  | Load_Panic

definition load_default :: "unicode \<Rightarrow> string \<Rightarrow> disk \<Rightarrow> ('a load_reg_error, registry \<times> disk) result" where
  "load_default U pipx d = (case Default U pipx of None \<Rightarrow> Inl Load_Panic | Some reg \<Rightarrow> Inr (reg, d))"

definition load_data ::
    "unicode \<Rightarrow> (string option \<Rightarrow> ('a, unit) result) \<Rightarrow> string \<Rightarrow> disk \<Rightarrow> ('a load_reg_error, registry \<times> disk) result" where
  "load_data U authenticate data d =
     rbind (map_err Load_Auth (authenticate (Some data))) (\<lambda>_.
     rbind (map_err Load_Toml (ParseTOML U data)) (\<lambda>reg. Inr (reg, d)))"

definition loadPath ::
    "unicode \<Rightarrow> string \<Rightarrow> bool \<Rightarrow> bool \<Rightarrow> (string option \<Rightarrow> ('a, unit) result) \<Rightarrow> disk
      \<Rightarrow> ('a load_reg_error, registry \<times> disk) result" where
  "loadPath U pipx recoverBackup rename_ok authenticate d = (case dkPrimary d of
     Some data \<Rightarrow> load_data U authenticate data d
   | None \<Rightarrow> rbind (map_err Load_Auth (authenticate None)) (\<lambda>_.
       if recoverBackup then
         rbind (map_err Load_Recover (RecoverFromBackup (validateBackup U) rename_ok d)) (\<lambda>(recovered, d').
           if \<not> recovered then load_default U pipx d'
           else (case dkPrimary d' of None \<Rightarrow> Inl Load_Read | Some data \<Rightarrow> load_data U authenticate data d'))
       else (case dkBackup d of None \<Rightarrow> load_default U pipx d | Some data \<Rightarrow> load_data U authenticate data d)))"

section \<open>RewriteWithoutTools\<close>

definition toolHeaderName :: "unicode \<Rightarrow> string \<Rightarrow> string option" where
  "toolHeaderName U raw = (case ParseSectionHeader raw of
     Inr (Some sec) \<Rightarrow> (if has_prefix sec tools_header then Some (section_name U tools_header sec) else None)
   | _ \<Rightarrow> None)"

definition exposed_comment :: "string \<Rightarrow> bool" where
  "exposed_comment trimmed = (has_prefix trimmed ''# Exposed from '' \<and> contains trimmed '' by cb expose'')"

text \<open>
  \<open>exposedProvenanceLines\<close>: the lines to keep and the lines to drop, as lists of line numbers. The
  recursion follows the loop over \<open>i\<close>; the inner loop passes the blank lines after line \<open>i\<close>.
\<close>

fun provenance :: "unicode \<Rightarrow> (string \<Rightarrow> bool) \<Rightarrow> nat \<Rightarrow> string list \<Rightarrow> nat list \<times> nat list" where
  "provenance U remove i [] = ([], [])"
| "provenance U remove i (raw # rest) =
     (let (keep, dropped) = provenance U remove (Suc i) rest;
          blank = takeWhile (\<lambda>l. trim_space l = []) rest;
          header = Suc i + length blank in
      if \<not> exposed_comment (trim_space raw) then (keep, dropped)
      else (case dropWhile (\<lambda>l. trim_space l = []) rest of
          [] \<Rightarrow> (keep, dropped)
        | l # _ \<Rightarrow> (case toolHeaderName U l of
            None \<Rightarrow> (keep, dropped)
          | Some name \<Rightarrow> (if remove name then (keep, [i..<header] @ dropped) else ([i..<header] @ keep, dropped)))))"

definition exposedProvenanceLines :: "unicode \<Rightarrow> string list \<Rightarrow> (string \<Rightarrow> bool) \<Rightarrow> nat list \<times> nat list" where
  "exposedProvenanceLines U lines remove = provenance U remove 0 lines"

datatype rewrite_error =
    Rewrite_Read
  | Rewrite_Refused reg_error
  | Rewrite_Line nat toml_error
  | Rewrite_Result reg_error
  | Rewrite_Write

record rewrite_state =
  rw_skip :: bool
  rw_out :: string

definition rewrite_line ::
    "unicode \<Rightarrow> (string \<Rightarrow> bool) \<Rightarrow> nat list \<Rightarrow> nat list \<Rightarrow> nat \<times> string \<Rightarrow> rewrite_state
      \<Rightarrow> (rewrite_error, rewrite_state) result" where
  "rewrite_line U remove keep dropped entry st =
     (let lineNo = fst entry; raw = snd entry in
      if lineNo \<in> set dropped then Inr st
      else rbind (map_err (Rewrite_Line (Suc lineNo)) (ParseSectionHeader raw)) (\<lambda>header.
        let skip = (case header of
              None \<Rightarrow> rw_skip st
            | Some sec \<Rightarrow> has_prefix sec tools_header \<and> remove (section_name U tools_header sec))
        in Inr \<lparr>rw_skip = skip,
             rw_out = (if \<not> skip \<or> lineNo \<in> set keep then rw_out st @ raw else rw_out st)\<rparr>))"

definition rewrite_without :: "unicode \<Rightarrow> (string \<Rightarrow> bool) \<Rightarrow> string \<Rightarrow> (rewrite_error, string) result" where
  "rewrite_without U remove data =
     rbind (map_err Rewrite_Refused (ParseTOML U data)) (\<lambda>_.
       let lines = split_after_byte data CHR 0x0A in
       case exposedProvenanceLines U lines remove of (keep, dropped) \<Rightarrow>
         rbind (fold_result (rewrite_line U remove keep dropped) (enumerate 0 lines) \<lparr>rw_skip = False, rw_out = []\<rparr>) (\<lambda>st.
         rbind (map_err Rewrite_Result (ParseTOML U (rw_out st))) (\<lambda>_. Inr (rw_out st))))"

definition RewriteWithoutTools ::
    "unicode \<Rightarrow> (op \<Rightarrow> bool) \<Rightarrow> (string \<Rightarrow> bool) \<Rightarrow> disk \<Rightarrow> (rewrite_error, disk) result" where
  "RewriteWithoutTools U ok remove d = (case dkPrimary d of
     None \<Rightarrow> Inl Rewrite_Read
   | Some data \<Rightarrow> rbind (rewrite_without U remove data) (\<lambda>out.
       case writeFile ok out d of (success, d') \<Rightarrow> if success then Inr d' else Inl Rewrite_Write))"

section \<open>SetDefaultVersion\<close>

definition newline_of :: "string \<Rightarrow> string" where
  "newline_of data = (if contains data [CHR 0x0D, CHR 0x0A] then [CHR 0x0D, CHR 0x0A] else [CHR 0x0A])"

definition line_of :: "string \<Rightarrow> string" where
  "line_of raw = trim_suffix (trim_suffix raw [CHR 0x0A]) [CHR 0x0D]"

definition blank_char :: "char \<Rightarrow> bool" where
  "blank_char c = (c = CHR '' '' \<or> c = CHR 0x09)"

definition before_equals :: "string \<Rightarrow> string" where
  "before_equals s = (case cut_byte s CHR ''='' of None \<Rightarrow> s | Some (k, _) \<Rightarrow> k)"

definition version_key :: "string \<Rightarrow> bool" where
  "version_key trim = (has_prefix trim ''version'' \<and> trim_space (before_equals trim) = ''version'')"

definition version_line :: "string \<Rightarrow> string \<Rightarrow> string" where
  "version_line version line =
     (let valueEnd = length (dropWhile blank_char (rev (StripComment line))) in
      takeWhile blank_char line @ ''version = '' @ [dq] @ version @ [dq] @ drop valueEnd line)"

datatype set_error =
    Set_Read
  | Set_Parse reg_error
  | Set_No_Family string
  | Set_No_Version string
  | Set_Line nat toml_error
  | Set_Not_Writable string
  | Set_Result reg_error
  | Set_Validator nat
  | Set_Write

record set_state =
  sv_in :: bool
  sv_replaced :: bool
  sv_out :: string

definition set_line ::
    "unicode \<Rightarrow> string \<Rightarrow> string \<Rightarrow> string \<Rightarrow> nat \<times> string \<Rightarrow> set_state \<Rightarrow> (set_error, set_state) result" where
  "set_line U family version newline entry st =
     (let raw = snd entry; line = line_of raw in
      rbind (map_err (Set_Line (Suc (fst entry))) (ParseSectionHeader line)) (\<lambda>header.
        let inFamily = (case header of
              None \<Rightarrow> sv_in st | Some sec \<Rightarrow> equal_fold U sec (defaults_header @ family))
        in if inFamily \<and> version_key (trim_space line)
           then Inr \<lparr>sv_in = inFamily, sv_replaced = True, sv_out = sv_out st @ version_line version line @ newline\<rparr>
           else Inr \<lparr>sv_in = inFamily, sv_replaced = sv_replaced st, sv_out = sv_out st @ raw\<rparr>))"

text \<open>The text after the change, or \<open>None\<close> when the version is selected already.\<close>

definition check_validator :: "registry \<Rightarrow> nat \<times> (registry \<Rightarrow> bool) \<Rightarrow> (set_error, unit) result" where
  "check_validator updated v = (if snd v updated then Inr () else Inl (Set_Validator (fst v)))"

definition set_default ::
    "unicode \<Rightarrow> string \<Rightarrow> string \<Rightarrow> (registry \<Rightarrow> bool) list \<Rightarrow> string \<Rightarrow> (set_error, string option) result" where
  "set_default U family0 version0 validators data =
     (let family = to_lower U family0; version = to_lower U version0 in
      rbind (map_err Set_Parse (ParseTOML U data)) (\<lambda>reg.
      case DefaultInfo U reg family of
        None \<Rightarrow> Inl (Set_No_Family family)
      | Some info \<Rightarrow>
        (if version \<notin> set (diVersions info) then Inl (Set_No_Version version)
         else if diSelected info = version then Inr None
         else
           rbind (fold_result (set_line U family version (newline_of data))
             (enumerate 0 (split_after_byte data CHR 0x0A)) \<lparr>sv_in = False, sv_replaced = False, sv_out = []\<rparr>) (\<lambda>st.
           if \<not> sv_replaced st then Inl (Set_Not_Writable family)
           else rbind (map_err Set_Result (ParseTOML U (sv_out st))) (\<lambda>updated.
             rbind (check_all (check_validator updated) (enumerate 0 validators)) (\<lambda>_. Inr (Some (sv_out st))))))))"

definition SetDefaultVersion ::
    "unicode \<Rightarrow> (op \<Rightarrow> bool) \<Rightarrow> string \<Rightarrow> string \<Rightarrow> (registry \<Rightarrow> bool) list \<Rightarrow> disk \<Rightarrow> (set_error, disk) result" where
  "SetDefaultVersion U ok family version validators d = (case dkPrimary d of
     None \<Rightarrow> Inl Set_Read
   | Some data \<Rightarrow> rbind (set_default U family version validators data) (\<lambda>r. case r of
       None \<Rightarrow> Inr d
     | Some out \<Rightarrow> (case writeFile ok out d of (success, d') \<Rightarrow> if success then Inr d' else Inl Set_Write)))"

section \<open>Upgrades\<close>

datatype upgrade_error =
    Up_Read
  | Up_Parse reg_error
  | Up_Panic
  | Up_Collision string string
  | Up_Customized string
  | Up_Line nat toml_error
  | Up_Result reg_error
  | Up_Write

definition added_comment :: "string \<Rightarrow> string" where
  "added_comment version = ''# Added by container-bin '' @ version"

definition section_texts :: "(string, string) gomap \<Rightarrow> string list \<Rightarrow> string list" where
  "section_texts sections names =
     map (\<lambda>name. case map_of sections name of None \<Rightarrow> [] | Some text \<Rightarrow> text) names"

definition append_missing ::
    "(string, string) gomap \<Rightarrow> (string, string) gomap \<Rightarrow> string \<Rightarrow> string \<Rightarrow> registry \<Rightarrow> string option" where
  "append_missing defaults familySections version data reg =
     (let names = filter (\<lambda>name. \<not> mhas (Tools reg) name) (mkeys defaults);
          families = filter (\<lambda>family. \<not> mhas (Defaults reg) family) (mkeys familySections) in
      if names = [] \<and> families = [] then None
      else Some (data @ (if data \<noteq> [] \<and> last data \<noteq> CHR 0x0A then [CHR 0x0A] else [])
        @ [CHR 0x0A] @ added_comment version @ [CHR 0x0A]
        @ concat (section_texts familySections (sort families)) @ concat (section_texts defaults (sort names))))"

record migration =
  mgOld :: string
  mgNew :: string
  mgFamily :: string
  mgVersion :: string
  mgAlias :: string

definition node_migration :: "string \<Rightarrow> string \<Rightarrow> string \<Rightarrow> string \<Rightarrow> migration" where
  "node_migration old new version alias =
     \<lparr>mgOld = old, mgNew = new, mgFamily = ''node'', mgVersion = version, mgAlias = alias\<rparr>"

definition v1NodeMigrations :: "migration list" where
  "v1NodeMigrations =
     [node_migration ''node'' ''node24'' ''24'' ''node'', node_migration ''npm'' ''npm24'' ''24'' ''npm'',
      node_migration ''npx'' ''npx24'' ''24'' ''npx'', node_migration ''node22'' ''node22'' ''22'' ''node'',
      node_migration ''npm22'' ''npm22'' ''22'' ''npm'', node_migration ''npx22'' ''npx22'' ''22'' ''npx'']"

text \<open>A tool without its name, and a built-in tool without name and alias metadata.\<close>

definition nameless :: "tool \<Rightarrow> tool" where
  "nameless t = t\<lparr>tName := []\<rparr>"

definition bare :: "tool \<Rightarrow> tool" where
  "bare t = t\<lparr>tName := [], tDefaultFamily := [], tDefaultVersion := [], tDefaultAlias := []\<rparr>"

record plan =
  pnMigrations :: "(string, migration) gomap"
  pnNames :: "string list"

definition plan_migration :: "registry \<Rightarrow> registry \<Rightarrow> migration \<Rightarrow> plan \<Rightarrow> (upgrade_error, plan) result" where
  "plan_migration reg desired m p = (case map_of (Tools reg) (mgOld m) of
     None \<Rightarrow> Inr p
   | Some t \<Rightarrow>
     (if mgOld m \<noteq> mgNew m \<and> mhas (Tools reg) (mgNew m) then Inl (Up_Collision (mgOld m) (mgNew m))
      else if nameless t \<noteq> bare (tool_of desired (mgNew m)) then Inl (Up_Customized (mgOld m))
      else Inr \<lparr>pnMigrations = mput (mgOld m) m (pnMigrations p),
           pnNames = mgNew m # removeAll (mgOld m) (pnNames p)\<rparr>))"

definition plan_upgrade :: "registry \<Rightarrow> registry \<Rightarrow> (upgrade_error, plan) result" where
  "plan_upgrade reg desired =
     fold_result (plan_migration reg desired) v1NodeMigrations \<lparr>pnMigrations = [], pnNames = mkeys (Tools reg)\<rparr>"

record upgrade_state =
  up_found :: bool
  up_out :: string

definition schema_line :: "string \<Rightarrow> string" where
  "schema_line newline = ''schema_version = '' @ itoa MaxSchemaVersion @ newline"

definition migrated_header :: "migration \<Rightarrow> string \<Rightarrow> string \<Rightarrow> string" where
  "migrated_header m line newline =
     (let withoutComment = StripComment line in
      ''[tools.'' @ mgNew m @ '']''
      @ (if length withoutComment < length line then '' '' @ trim_space (drop (length withoutComment) line) else [])
      @ newline
      @ ''default_family = '' @ [dq] @ mgFamily m @ [dq] @ newline
      @ ''default_version = '' @ [dq] @ mgVersion m @ [dq] @ newline
      @ ''default_alias = '' @ [dq] @ mgAlias m @ [dq] @ newline)"

definition header_migration :: "unicode \<Rightarrow> (string, migration) gomap \<Rightarrow> string option \<Rightarrow> migration option" where
  "header_migration U migrations header = (case header of
     None \<Rightarrow> None
   | Some sec \<Rightarrow> (if has_prefix sec tools_header then map_of migrations (section_name U tools_header sec) else None))"

definition upgrade_line ::
    "unicode \<Rightarrow> (string, migration) gomap \<Rightarrow> string \<Rightarrow> nat \<times> string \<Rightarrow> upgrade_state \<Rightarrow> (upgrade_error, upgrade_state) result" where
  "upgrade_line U migrations newline entry st =
     (let raw = snd entry; line = line_of raw in
      if has_prefix (trim_space line) ''schema_version''
      then Inr \<lparr>up_found = True, up_out = up_out st @ schema_line newline\<rparr>
      else rbind (map_err (Up_Line (Suc (fst entry))) (ParseSectionHeader line)) (\<lambda>header.
        case header_migration U migrations header of
          Some m \<Rightarrow> Inr (st\<lparr>up_out := up_out st @ migrated_header m line newline\<rparr>)
        | None \<Rightarrow> Inr (st\<lparr>up_out := up_out st @ raw\<rparr>)))"

definition ends_lf :: "string \<Rightarrow> bool" where
  "ends_lf s = has_suffix s [CHR 0x0A]"

definition upgrade_body :: "string \<Rightarrow> upgrade_state \<Rightarrow> string" where
  "upgrade_body newline st =
     (let body = up_out st;
          text = (if up_found st then body
            else schema_line newline @ body @ (if body \<noteq> [] \<and> \<not> ends_lf body then newline else []))
      in text @ (if text \<noteq> [] \<and> \<not> ends_lf text then newline else []))"

definition upgrade_v1 ::
    "unicode \<Rightarrow> string \<Rightarrow> string \<Rightarrow> string \<Rightarrow> registry \<Rightarrow> (upgrade_error, string) result" where
  "upgrade_v1 U pipx version data reg =
     (case (Default U pipx, DefaultFamilySections U pipx, DefaultToolSections U pipx) of
        (Some desired, Some familySections, Some sections) \<Rightarrow>
          rbind (plan_upgrade reg desired) (\<lambda>p.
            let newline = newline_of data in
            rbind (fold_result (upgrade_line U (pnMigrations p) newline)
              (enumerate 0 (split_after_byte data CHR 0x0A)) \<lparr>up_found = False, up_out = []\<rparr>) (\<lambda>st.
              let families = sort (mkeys familySections);
                  missing = sort (filter (\<lambda>name. name \<notin> set (pnNames p)) (mkeys sections));
                  out = upgrade_body newline st @ newline @ added_comment version @ newline
                    @ concat (map (\<lambda>text. replace_byte text CHR 0x0A newline)
                        (section_texts familySections families @ section_texts sections missing))
              in rbind (map_err Up_Result (ParseTOML U out)) (\<lambda>_. Inr out)))
      | _ \<Rightarrow> Inl Up_Panic)"

definition append_or_upgrade ::
    "unicode \<Rightarrow> string \<Rightarrow> string \<Rightarrow> string \<Rightarrow> (upgrade_error, string option) result" where
  "append_or_upgrade U pipx version data =
     rbind (map_err Up_Parse (ParseTOML U data)) (\<lambda>reg.
       if SchemaVersion reg = 1 then rbind (upgrade_v1 U pipx version data reg) (\<lambda>out. Inr (Some out))
       else (case (DefaultToolSections U pipx, DefaultFamilySections U pipx) of
           (Some defaults, Some familySections) \<Rightarrow>
             (case append_missing defaults familySections version data reg of
                None \<Rightarrow> Inr None
              | Some out \<Rightarrow> rbind (map_err Up_Result (ParseTOML U out)) (\<lambda>_. Inr (Some out)))
         | _ \<Rightarrow> Inl Up_Panic))"

definition AppendMissingDefaultToolsMode ::
    "unicode \<Rightarrow> string \<Rightarrow> (op \<Rightarrow> bool) \<Rightarrow> string \<Rightarrow> disk \<Rightarrow> (upgrade_error, disk) result" where
  "AppendMissingDefaultToolsMode U pipx ok version d = (case dkPrimary d of
     None \<Rightarrow> Inl Up_Read
   | Some data \<Rightarrow> rbind (append_or_upgrade U pipx version data) (\<lambda>r. case r of
       None \<Rightarrow> Inr d
     | Some out \<Rightarrow> (case writeFile ok out d of (success, d') \<Rightarrow> if success then Inr d' else Inl Up_Write)))"

section \<open>Shims\<close>

datatype shim_error =
    Shim_Name string
  | Shim_Duplicate string
  | Shim_Inspect
  | Shim_Executable
  | Shim_Digest
  | Shim_Foreign string
  | Shim_Create_Temp
  | Shim_Close_Temp
  | Shim_Prepare_Temp
  | Shim_Copy string
  | Shim_Replace

definition check_shim_name :: "string \<Rightarrow> string option \<Rightarrow> (shim_error, string option) result" where
  "check_shim_name name previous =
     (if \<not> ValidToolName name \<or> ReservedToolName name then Inl (Shim_Name name)
      else if previous = Some name then Inl (Shim_Duplicate name) else Inr (Some name))"

definition normalizedShimNames :: "unicode \<Rightarrow> string list \<Rightarrow> (shim_error, string list) result" where
  "normalizedShimNames U names =
     (let normalized = sort (map (to_lower U) names) in
      rbind (fold_result check_shim_name normalized None) (\<lambda>_. Inr normalized))"

text \<open>
  \<open>verifyExistingManagedShim\<close>: what \<open>os.Stat\<close> and the digests of the executable and of the shim
  return, \<open>None\<close> for an error.
\<close>

record shim_view =
  svShim :: "file_info io"
  svExe :: "file_info option"
  svExeDigest :: "nat list option"
  svShimDigest :: "nat list option"

definition verifyExistingManagedShim :: "string \<Rightarrow> shim_view \<Rightarrow> (shim_error, unit) result" where
  "verifyExistingManagedShim shim v = (case svShim v of
     Absent \<Rightarrow> Inr ()
   | Failed \<Rightarrow> Inl Shim_Inspect
   | Got shimInfo \<Rightarrow> (case svExe v of
       None \<Rightarrow> Inl Shim_Executable
     | Some exeInfo \<Rightarrow>
       (if same_file exeInfo shimInfo then Inr ()
        else (case svExeDigest v of
            None \<Rightarrow> Inl Shim_Digest
          | Some exeDigest \<Rightarrow> (case svShimDigest v of
              None \<Rightarrow> Inl Shim_Digest
            | Some shimDigest \<Rightarrow> if exeDigest \<noteq> shimDigest then Inl (Shim_Foreign shim) else Inr ())))))"

datatype link_failure = Permission | Errno nat string | Other_Failure

definition hardlinkFailureReason :: "link_failure \<Rightarrow> string" where
  "hardlinkFailureReason e = (case e of
     Permission \<Rightarrow> ''access denied; the trusted updater needs write access to source cb.exe as well as the destination directory''
   | Errno n msg \<Rightarrow> ''OS error '' @ itoa (int n) @ '' ('' @ msg @ '')''
   | Other_Failure \<Rightarrow> ''unclassified filesystem error'')"

datatype shim_mode = Hardlink | Copied string

record shim_env =
  seCreate :: bool
  seClose :: bool
  seRemove :: bool
  seLink :: "link_failure option"
  seCopy :: bool
  seRename :: bool

definition installShim :: "shim_env \<Rightarrow> (shim_error, shim_mode) result" where
  "installShim env =
     (if \<not> seCreate env then Inl Shim_Create_Temp
      else if \<not> seClose env then Inl Shim_Close_Temp
      else if \<not> seRemove env then Inl Shim_Prepare_Temp
      else rbind (case seLink env of
          None \<Rightarrow> Inr Hardlink
        | Some e \<Rightarrow> if seCopy env then Inr (Copied (hardlinkFailureReason e)) else Inl (Shim_Copy (hardlinkFailureReason e))) (\<lambda>mode.
        if seRename env then Inr mode else Inl Shim_Replace))"

text \<open>
  \<open>installShimNamesAt\<close>: the shims installed, in order, and the error that stopped the loop, if any.
\<close>

fun install_loop :: "(string \<Rightarrow> (shim_error, shim_mode) result) \<Rightarrow> string list \<Rightarrow> (string \<times> shim_mode) list \<times> shim_error option" where
  "install_loop install [] = ([], None)"
| "install_loop install (name # names) =
     (if \<not> ValidToolName name \<or> ReservedToolName name then ([], Some (Shim_Name name))
      else (case install name of
          Inl e \<Rightarrow> ([], Some e)
        | Inr mode \<Rightarrow> (case install_loop install names of (done, e) \<Rightarrow> ((name, mode) # done, e))))"

definition installShimNamesAt ::
    "unicode \<Rightarrow> string list \<Rightarrow> bool \<Rightarrow> (string \<Rightarrow> shim_view) \<Rightarrow> (string \<Rightarrow> (shim_error, shim_mode) result)
      \<Rightarrow> (string \<times> shim_mode) list \<times> shim_error option" where
  "installShimNamesAt U names0 refuseUnrelated view install = (case normalizedShimNames U names0 of
     Inl e \<Rightarrow> ([], Some e)
   | Inr names \<Rightarrow>
     (case (if refuseUnrelated then check_all (\<lambda>name. verifyExistingManagedShim name (view name)) names else Inr ()) of
        Inl e \<Rightarrow> ([], Some e)
      | Inr _ \<Rightarrow> install_loop install names))"

end
