(* ===== verification/Line_Facts.thy ===== *)
theory Line_Facts
  imports Registry_Facts
begin

text \<open>
  What a parser of lines sees of a text that is rewritten piece by piece. Trimming and comment
  stripping do not depend on the newline of a line; a header and the effect of a registry line
  depend only on the logical line; and a text put together from pieces that end in a newline is
  parsed piece by piece (\<open>parse_text_concat\<close>).
\<close>

section \<open>Trimming around an ASCII character\<close>

lemma decode_rune_append:
  assumes "p \<noteq> []" "byte_of c < (128::nat)"
  shows "decode_rune (p @ c # u) = decode_rune p"
proof -
  have nc: "\<not> is_cont c" "\<not> 128 \<le> byte_of c" "\<not> 144 \<le> byte_of c" "\<not> 160 \<le> byte_of c"
    using assms(2) by (simp_all add: is_cont_def)
  obtain a q where p: "p = a # q" using assms(1) by (cases p) auto
  have "decode2 b (q @ c # u) = decode2 b q" for b using nc by (cases q) (auto simp: decode2_def)
  moreover have "decode3 b (q @ c # u) = decode3 b q" for b
  proof (cases q)
    case Nil
    then show ?thesis using nc by (cases u) (auto simp: decode3_def)
  next
    case (Cons x q1)
    then show ?thesis using nc by (cases q1) (auto simp: decode3_def)
  qed
  moreover have "decode4 b (q @ c # u) = decode4 b q" for b
  proof (cases q)
    case Nil
    then show ?thesis using nc by (cases u; cases "tl u") (auto simp: decode4_def)
  next
    case (Cons x q1)
    note q = Cons
    show ?thesis
    proof (cases q1)
      case Nil
      then show ?thesis using nc q by (cases u) (auto simp: decode4_def)
    next
      case (Cons y q2)
      then show ?thesis using nc q by (cases q2) (auto simp: decode4_def)
    qed
  qed
  ultimately show ?thesis by (simp add: p decode_rune.simps(2) Let_def)
qed

lemma trim_left_append:
  assumes "byte_of c < (128::nat)"
  shows "trim_left (p @ c # u) = (if trim_left p = [] then trim_left (c # u) else trim_left p @ c # u)"
proof (induction p rule: length_induct)
  case (1 p)
  show ?case
  proof (cases "p = []")
    case False
    obtain r w where rw: "decode_rune p = (r, w)" by fastforce
    have d: "decode_rune (p @ c # u) = (r, w)" using decode_rune_append [OF False assms] rw by simp
    have w: "1 \<le> w" "w \<le> length p" using decode_rune_width [OF False] rw by auto
    show ?thesis
    proof (cases "is_space_rune r")
      case True
      have "length (drop w p) < length p" using w False by simp
      with 1 have "trim_left (drop w p @ c # u) =
          (if trim_left (drop w p) = [] then trim_left (c # u) else trim_left (drop w p) @ c # u)" by blast
      moreover have "trim_left p = trim_left (drop w p)" using True False rw by (simp add: trim_left.simps [of p])
      moreover have "trim_left (p @ c # u) = trim_left (drop w p @ c # u)"
        using True d w by (simp add: trim_left.simps [of "p @ c # u"])
      ultimately show ?thesis by simp
    next
      case not: False
      then have "trim_left p = p" using False rw by (simp add: trim_left.simps [of p])
      moreover have "trim_left (p @ c # u) = p @ c # u" using not d by (simp add: trim_left.simps [of "p @ c # u"])
      ultimately show ?thesis using False by simp
    qed
  qed simp
qed

lemma trim_left_solid_inside:
  "solid c \<Longrightarrow> trim_left (p @ c # u) = trim_left p @ c # u"
  using trim_left_append [of c p u] by (auto simp: solid_def)

lemma trim_space_inside: "solid c \<Longrightarrow> \<exists>p' u'. trim_space (p @ c # u) = p' @ c # u'"
proof -
  assume c: "solid c"
  obtain r where "trim_right_rev (rev u @ c # rev (trim_left p)) = r @ c # rev (trim_left p)"
    using trim_right_rev_solid [OF c] by blast
  then have "trim_space (p @ c # u) = trim_left p @ c # rev r"
    by (simp add: trim_space_def trim_left_solid_inside [OF c] trim_right_def)
  then show ?thesis by blast
qed

lemma trim_space_blank: "trim_space s = [] \<Longrightarrow> solid c \<Longrightarrow> c \<notin> set s"
  using trim_space_inside by (metis append_is_Nil_conv list.distinct(1) split_list)

definition lf :: char where "lf = CHR 0x0A"
definition cr :: char where "cr = CHR 0x0D"

lemma newline_space: "byte_of lf < (128::nat)" "is_space_rune (byte_of lf)" "byte_of cr < (128::nat)" "is_space_rune (byte_of cr)"
  by (simp_all add: lf_def cr_def is_space_rune_def)

lemma trim_space_snoc:
  assumes "byte_of c < (128::nat)" "is_space_rune (byte_of c)"
  shows "trim_space (s @ [c]) = trim_space s"
proof (cases "trim_left s = []")
  case True
  then show ?thesis using trim_left_append [OF assms(1), of s "[]"] assms by (simp add: trim_space_def)
next
  case False
  then show ?thesis using trim_left_append [OF assms(1), of s "[]"] trim_right_space [OF assms] by (simp add: trim_space_def)
qed

section \<open>The logical line\<close>

lemma strip_snoc:
  "c \<noteq> CHR ''#'' \<Longrightarrow> strip_from q e (s @ [c]) = strip_from q e s \<or> strip_from q e (s @ [c]) = strip_from q e s @ [c]"
  by (induction q e s rule: strip_from.induct) auto

lemma logical_snoc:
  assumes "c = lf \<or> c = cr"
  shows "logical (s @ [c]) = logical s"
proof -
  have "c \<noteq> CHR ''#''" "byte_of c < (128::nat)" "is_space_rune (byte_of c)"
    using assms newline_space by (auto simp: lf_def cr_def)
  with strip_snoc [of c False False s] trim_space_snoc [of c "StripComment s"] show ?thesis
    by (auto simp: logical_def StripComment_def)
qed

lemma logical_drop_cr [simp]: "logical (drop_cr l) = logical l"
proof (cases "l \<noteq> [] \<and> last l = cr")
  case True
  then have "l = drop_cr l @ [cr]" using append_butlast_last_id [of l] by (simp add: drop_cr_def cr_def)
  then show ?thesis using logical_snoc [of cr "drop_cr l"] by simp
next
  case False
  then show ?thesis by (auto simp: drop_cr_def cr_def)
qed

lemma logical_blank: "trim_space s = [] \<Longrightarrow> logical s = []"
proof -
  assume b: "trim_space s = []"
  have "dq \<notin> set s" "CHR ''#'' \<notin> set s" using trim_space_blank [OF b] by (simp_all add: solid_def is_space_rune_def)
  then have "StripComment s = s" using strip_plain [of s "[]"] by (simp add: StripComment_def)
  with b show ?thesis by (simp add: logical_def)
qed

lemma trim_left_subset: "set (trim_left x) \<subseteq> set x"
proof (induction x rule: length_induct)
  case (1 x)
  obtain r w where rw: "decode_rune x = (r, w)" by fastforce
  show ?case
  proof (cases "x \<noteq> [] \<and> is_space_rune r")
    case True
    then have "length (drop w x) < length x" using decode_rune_width [of x] rw by simp
    with 1 have "set (trim_left (drop w x)) \<subseteq> set (drop w x)" by blast
    with True rw set_drop_subset [of w x] show ?thesis by (simp add: trim_left.simps [of x])
  next
    case False
    then show ?thesis using rw by (auto simp: trim_left.simps [of x])
  qed
qed

lemma trim_right_rev_subset: "set (trim_right_rev x) \<subseteq> set x"
proof (induction x rule: trim_right_rev.induct)
  case (1 x)
  show ?case
  proof (cases "last_space_width x = 0")
    case True
    then show ?thesis by (simp add: trim_right_rev.simps [of x])
  next
    case False
    with 1 set_drop_subset [of "last_space_width x" x] show ?thesis
      by (simp add: trim_right_rev.simps [of x] Let_def)
  qed
qed

lemma trim_right_subset: "set (trim_right x) \<subseteq> set x"
  using trim_right_rev_subset [of "rev x"] by (simp add: trim_right_def)

text \<open>Text that starts with an ASCII character when it is trimmed: only white space stands before it.\<close>

lemma trim_space_head:
  assumes "trim_space s = c # t" "solid c"
  obtains p u where "s = p @ c # u" "trim_left p = []" "dq \<notin> set p" "CHR ''#'' \<notin> set p"
proof -
  have "set (trim_space s) \<subseteq> set s"
    using trim_left_subset trim_right_subset unfolding trim_space_def by blast
  with assms(1) have "c \<in> set s" by auto
  then obtain p u where s: "s = p @ c # u" and p: "c \<notin> set p" by (meson split_list_first)
  have l: "trim_left s = trim_left p @ c # u" unfolding s by (rule trim_left_solid_inside [OF assms(2)])
  obtain r where "trim_right_rev (rev u @ c # rev (trim_left p)) = r @ c # rev (trim_left p)"
    using trim_right_rev_solid [OF assms(2)] by blast
  then have "trim_space s = trim_left p @ c # rev r" unfolding trim_space_def l by (simp add: trim_right_def)
  moreover have "c \<notin> set (trim_left p)" using p trim_left_subset by blast
  ultimately have tp: "trim_left p = []" using assms(1) by (cases "trim_left p") auto
  then have "trim_space p = []" by (simp add: trim_space_def)
  then have "dq \<notin> set p" "CHR ''#'' \<notin> set p" using trim_space_blank by (simp_all add: solid_def is_space_rune_def)
  then show thesis by (rule that [OF s tp])
qed

lemma logical_comment: "has_prefix (trim_space s) ''#'' \<Longrightarrow> logical s = []"
proof -
  assume "has_prefix (trim_space s) ''#''"
  then obtain t where t: "trim_space s = CHR ''#'' # t" unfolding has_prefix_iff by auto
  obtain p u where p: "s = p @ CHR ''#'' # u" "trim_left p = []" "dq \<notin> set p" "CHR ''#'' \<notin> set p"
    by (rule trim_space_head [OF t]) (simp add: solid_def is_space_rune_def)
  have "StripComment s = p" using strip_plain [OF p(3,4), of "CHR ''#'' # u"] by (simp add: p(1) StripComment_def dq_def)
  then show ?thesis by (simp add: logical_def trim_space_def p(2))
qed

lemma logical_solid:
  assumes "trim_space s = c # t" "solid c" "c \<noteq> dq" "c \<noteq> CHR ''#''"
  shows "\<exists>t. logical s = c # t"
proof -
  obtain p u where p: "s = p @ c # u" "trim_left p = []" "dq \<notin> set p" "CHR ''#'' \<notin> set p"
    using trim_space_head [OF assms(1,2)] .
  have "StripComment s = p @ c # strip_from False False u"
    using strip_plain [OF p(3,4), of "c # u"] assms(3,4) by (simp add: p(1) StripComment_def)
  then have l: "trim_left (StripComment s) = c # strip_from False False u"
    using trim_left_solid_inside [OF assms(2)] p(2) by simp
  obtain r where "trim_right_rev (rev (strip_from False False u) @ c # rev []) = r @ c # rev []"
    using trim_right_rev_solid [OF assms(2)] by blast
  then have "logical s = c # rev r" unfolding logical_def trim_space_def l by (simp add: trim_right_def)
  then show ?thesis by blast
qed

section \<open>Headers and registry lines depend on the logical line\<close>

definition header_of :: "string \<Rightarrow> (toml_error, string option) result" where
  "header_of line =
     (if line = [] \<or> \<not> has_prefix line ''['' then Inr None
      else if has_prefix line ''[['' then Inl Array_Table_Unsupported
      else if \<not> has_suffix line '']'' then Inl Malformed_Header
      else (let section = trim_space (butlast (tl line)) in
        if section = [] \<or> contains_any section ''[]'' then Inl Malformed_Header
        else Inr (Some section)))"

lemma parse_section_header: "ParseSectionHeader raw = header_of (logical raw)"
  by (simp add: ParseSectionHeader_def header_of_def logical_def Let_def)

definition parse_logical :: "unicode \<Rightarrow> string \<Rightarrow> parse_state \<Rightarrow> (line_error, parse_state) result" where
  "parse_logical U line st =
     (if line = [] then Inr st
      else (case header_of line of
          Inl e \<Rightarrow> Inl (Header_Error e)
        | Inr (Some sec) \<Rightarrow> parse_header U sec st
        | Inr None \<Rightarrow>
          (if ps_tool st = [] \<and> ps_default st = [] then parse_top_key line st
           else (case split_kv line of
               None \<Rightarrow> Inl Expected_Key_Value
             | Some (key, value) \<Rightarrow>
               (if ps_default st \<noteq> [] then parse_default_key key value st
                else rbind (parse_tool_key U key value (tool_of (ps_reg st) (ps_tool st))) (\<lambda>t.
                  Inr (put_tool t st)))))))"

lemma parse_line_logical: "parse_line U raw st = parse_logical U (logical raw) st"
  unfolding parse_line_def parse_logical_def parse_section_header Let_def put_tool_def by (rule refl)

lemma parse_logical_Nil [simp]: "parse_logical U [] st = Inr st"
  by (simp add: parse_logical_def)

definition parse_lines :: "unicode \<Rightarrow> string list \<Rightarrow> parse_state \<Rightarrow> (line_error, parse_state) result" where
  "parse_lines U ls = fold_result (\<lambda>l. parse_logical U (logical l)) ls"

lemma parse_lines_simps [simp]:
  "parse_lines U [] st = Inr st"
  "parse_lines U (l # ls) st = rbind (parse_logical U (logical l) st) (parse_lines U ls)"
  "parse_lines U (ls @ ls') st = rbind (parse_lines U ls st) (parse_lines U ls')"
  by (simp_all add: parse_lines_def fold_result_append)

lemma numbered_lines:
  "fold_result (numbered_line U) (enumerate n ls) st = Inr st' \<longleftrightarrow> parse_lines U ls st = Inr st'"
  by (induction ls arbitrary: n st) (auto simp: numbered_line_def parse_line_logical rbind_Inr_iff)

lemma parse_lines_drop_cr [simp]: "parse_lines U (map drop_cr ls) st = parse_lines U ls st"
  by (induction ls arbitrary: st) (auto intro!: rbind_cong)

section \<open>A text and its pieces\<close>

text \<open>A registry text is accepted when no line is too long, the lines parse, and the result is valid.\<close>

definition parse_text :: "unicode \<Rightarrow> string \<Rightarrow> parse_state \<Rightarrow> (line_error, parse_state) result" where
  "parse_text U s = parse_lines U (raw_lines s)"

lemma take_short_iff: "take_short ls = (ts, False) \<longleftrightarrow> ts = ls \<and> (\<forall>l \<in> set ls. length l < max_token)"
proof (induction ls arbitrary: ts)
  case (Cons l ls)
  obtain ts' e where "take_short ls = (ts', e)" by fastforce
  with Cons show ?case by (cases e) auto
qed auto

lemma parse_toml_iff:
  "ParseTOML U s = Inr reg \<longleftrightarrow> (\<forall>l \<in> set (raw_lines s). length l < max_token)
     \<and> (\<exists>st. parse_text U s parse_start = Inr st \<and> ps_reg st = reg \<and> validate_registry reg = Inr reg)"
proof -
  obtain ts e where ts: "take_short (raw_lines s) = (ts, e)" by fastforce
  have v: "validate_registry r = Inr reg \<Longrightarrow> r = reg" for r
    by (auto simp: validate_registry_def rbind_Inr_iff split: if_splits)
  show ?thesis
  proof (cases e)
    case True
    with ts have "\<not> (\<forall>l \<in> set (raw_lines s). length l < max_token)" using take_short_all by fastforce
    with True ts show ?thesis by (auto simp: ParseTOML_def scan_lines_def rbind_Inr_iff)
  next
    case False
    with ts have t: "ts = raw_lines s" and l: "\<forall>l \<in> set (raw_lines s). length l < max_token"
      using take_short_iff by auto
    have "ParseTOML U s = Inr reg \<longleftrightarrow> (\<exists>st. parse_lines U (raw_lines s) parse_start = Inr st \<and> validate_registry (ps_reg st) = Inr reg)"
      by (simp add: ParseTOML_def scan_lines_def ts t False rbind_Inr_iff numbered_lines del: enumerate_Suc_eq)
    then show ?thesis using l v unfolding parse_text_def by metis
  qed
qed

definition lf_line :: "string \<Rightarrow> bool" where
  "lf_line c \<longleftrightarrow> c \<noteq> [] \<and> last c = lf \<and> lf \<notin> set (butlast c)"

fun pieces :: "string list \<Rightarrow> bool" where
  "pieces [] = True"
| "pieces [c] = (lf_line c \<or> lf \<notin> set c)"
| "pieces (c # d # cs) = (lf_line c \<and> pieces (d # cs))"

lemma split_after_nonempty [simp]: "split_after_byte s c \<noteq> []"
  by (induction s) (auto split: list.splits)

lemma raw_lines_line: "lf \<notin> set l \<Longrightarrow> raw_lines (l @ lf # t) = l # raw_lines t"
  by (simp add: raw_lines_def Let_def split_byte_line lf_def)

lemma raw_lines_last: "lf \<notin> set t \<Longrightarrow> raw_lines t = (if t = [] then [] else [t])"
proof -
  assume "lf \<notin> set t"
  then have "split_byte t lf = [t]" by (induction t) auto
  then show ?thesis by (simp add: raw_lines_def lf_def)
qed

lemma split_after_line: "c \<notin> set l \<Longrightarrow> split_after_byte (l @ c # t) c = (l @ [c]) # split_after_byte t c"
  by (induction l) auto

lemma split_after_last: "c \<notin> set t \<Longrightarrow> split_after_byte t c = [t]"
  by (induction t) auto

lemma text_cases:
  obtains (last) "lf \<notin> set s" | (line) l t where "s = l @ lf # t" "lf \<notin> set l"
  using split_list_first by metis

lemma split_after_pieces: "pieces (split_after_byte s lf)" "concat (split_after_byte s lf) = s"
proof -
  have "pieces (split_after_byte s lf) \<and> concat (split_after_byte s lf) = s"
  proof (induction s rule: length_induct)
    case (1 s)
    show ?case
    proof (cases s rule: text_cases)
      case last
      then show ?thesis by (simp add: split_after_last)
    next
      case (line l t)
      with 1 have t: "pieces (split_after_byte t lf)" "concat (split_after_byte t lf) = t" by auto
      have "lf_line (l @ [lf])" using line(2) by (simp add: lf_line_def)
      with t show ?thesis using line by (cases "split_after_byte t lf") (auto simp: split_after_line)
    qed
  qed
  then show "pieces (split_after_byte s lf)" "concat (split_after_byte s lf) = s" by blast+
qed

lemma lf_line_split: "lf_line c \<Longrightarrow> \<exists>l. c = l @ [lf] \<and> lf \<notin> set l"
  unfolding lf_line_def by (metis append_butlast_last_id)

lemma parse_text_line: "lf_line c \<Longrightarrow> parse_text U (c @ t) st = rbind (parse_logical U (logical c) st) (parse_text U t)"
  using lf_line_split [of c] logical_snoc [of lf] raw_lines_line by (auto simp: parse_text_def)

lemma parse_text_last: "lf \<notin> set t \<Longrightarrow> parse_text U t st = parse_logical U (logical t) st"
  by (cases "parse_logical U (logical t) st") (auto simp: parse_text_def raw_lines_last logical_def StripComment_def)

text \<open>Parsing a text made of pieces is parsing the pieces one after the other.\<close>

lemma parse_text_concat: "pieces cs \<Longrightarrow> parse_text U (concat cs) st = parse_lines U cs st"
proof (induction cs arbitrary: st rule: pieces.induct)
  case 1
  then show ?case by (simp add: parse_text_def raw_lines_def)
next
  case (2 c)
  show ?case
  proof (cases "lf_line c")
    case True
    then show ?thesis using parse_text_line [OF True, of U "[]" st]
      by (cases "parse_logical U (logical c) st") (auto simp: parse_text_def raw_lines_def)
  next
    case False
    with 2 show ?thesis using parse_text_last [of c U st] by (cases "parse_logical U (logical c) st") auto
  qed
next
  case (3 c d cs)
  then show ?case using parse_text_line [of c U "concat (d # cs)" st]
    by (cases "parse_logical U (logical c) st") auto
qed

lemma parse_text_split: "parse_text U s st = parse_lines U (split_after_byte s lf) st"
  using parse_text_concat [OF split_after_pieces(1)] split_after_pieces(2) by metis

lemma pieces_tl: "pieces (c # cs) \<Longrightarrow> pieces cs"
  by (cases cs) auto

end
