(* ===== verification/Registry_File_Facts.thy ===== *)
theory Registry_File_Facts
  imports Registry_File Line_Facts
begin

text \<open>
  What the rewriting of a registry text means for the registry: the text without tools parses to
  the registry without these tools (\<open>rewrite_without_spec\<close>), and the text with another default
  parses to the registry with that default (\<open>set_default_spec\<close>). Both are simulations between the
  parse of the original pieces and the parse of the pieces that were written.
\<close>

section \<open>The lines around a provenance comment\<close>

lemma exposed_logical: "exposed_comment (trim_space raw) \<Longrightarrow> logical raw = []"
  by (rule logical_comment) (auto simp: exposed_comment_def has_prefix_iff)

lemma provenance_blank:
  assumes "n \<in> set (fst (provenance U remove i lines)) \<union> set (snd (provenance U remove i lines))"
  shows "i \<le> n \<and> n < i + length lines \<and> logical (lines ! (n - i)) = []"
  using assms
proof (induction U remove i lines arbitrary: n rule: provenance.induct)
  case (2 U remove i raw rest)
  obtain keep dropped where p: "provenance U remove (Suc i) rest = (keep, dropped)" by fastforce
  let ?b = "takeWhile (\<lambda>l. trim_space l = []) rest"
  consider (tail) "n \<in> set keep \<union> set dropped"
    | (here) "exposed_comment (trim_space raw)" "i \<le> n" "n < Suc i + length ?b"
    using 2(2) by (auto simp: p Let_def split: if_splits list.splits option.splits)
  then show ?case
  proof cases
    case tail
    with 2(1) p have "Suc i \<le> n \<and> n < Suc i + length rest \<and> logical (rest ! (n - Suc i)) = []" by fastforce
    moreover from this have "n - i = Suc (n - Suc i)" by auto
    ultimately show ?thesis by simp
  next
    case here
    show ?thesis
    proof (cases "n = i")
      case True
      with exposed_logical [OF here(1)] show ?thesis by simp
    next
      case False
      define j where "j = n - Suc i"
      have j: "j < length ?b" "n = Suc i + j" using here False by (auto simp: j_def)
      have "trim_space (?b ! j) = []" using nth_mem [OF j(1)] set_takeWhileD by fast
      moreover have "?b ! j = rest ! j" using j(1) by (rule takeWhile_nth)
      ultimately show ?thesis using j length_takeWhile_le [of "\<lambda>l. trim_space l = []" rest] logical_blank by auto
    qed
  qed
qed simp

section \<open>RewriteWithoutTools\<close>

definition without :: "(string \<Rightarrow> bool) \<Rightarrow> registry \<Rightarrow> registry" where
  "without remove reg = reg\<lparr>Tools := filter (\<lambda>e. \<not> remove (fst e)) (Tools reg)\<rparr>"

lemma map_of_filter_key: "P k \<Longrightarrow> map_of (filter (\<lambda>e. P (fst e)) m) k = map_of m k"
  by (induction m) auto

lemma filter_mput:
  "filter (\<lambda>e. P (fst e)) (mput k v m) = (if P k then mput k v (filter (\<lambda>e. P (fst e)) m) else filter (\<lambda>e. P (fst e)) m)"
  by (induction m) (auto simp: mput_def)

lemma mhas_filter: "mhas (filter (\<lambda>e. P (fst e)) m) k \<longleftrightarrow> mhas m k \<and> P k"
  by (auto simp: mhas_def mkeys_def)

text \<open>How the parse of the written pieces (\<open>w\<close>) follows the parse of the original (\<open>s\<close>).\<close>

definition follows :: "(string \<Rightarrow> bool) \<Rightarrow> bool \<Rightarrow> parse_state \<Rightarrow> parse_state \<Rightarrow> bool" where
  "follows remove skip s w \<longleftrightarrow> ps_reg w = without remove (ps_reg s)
     \<and> (if skip then ps_tool s \<noteq> [] \<and> remove (ps_tool s) \<and> ps_default s = []
        else ps_tool w = ps_tool s \<and> ps_default w = ps_default s \<and> (ps_tool s \<noteq> [] \<longrightarrow> \<not> remove (ps_tool s)))"

lemma follows_header:
  assumes "parse_header U sec s = Inr s'" "follows remove skip s w"
  shows "if has_prefix sec tools_header \<and> remove (section_name U tools_header sec)
     then follows remove True s' w
     else \<exists>w'. parse_header U sec w = Inr w' \<and> follows remove False s' w'"
proof -
  have w: "ps_reg w = without remove (ps_reg s)" using assms(2) by (simp add: follows_def)
  have ne: "ValidToolName n \<Longrightarrow> n \<noteq> []" for n by (auto simp: ValidToolName_def)
  show ?thesis
  proof (cases "has_prefix sec tools_header \<and> length tools_header < length sec")
    case True
    define n where "n = section_name U tools_header sec"
    define t where "t = zero_tool\<lparr>tName := n, tProvider := ''stateless''\<rparr>"
    have n: "ValidToolName n" "\<not> ReservedToolName n" "\<not> mhas (Tools (ps_reg s)) n"
      and s': "s' = s\<lparr>ps_reg := (ps_reg s)\<lparr>Tools := mput n t (Tools (ps_reg s))\<rparr>, ps_tool := n, ps_default := []\<rparr>"
      using assms(1) True by (simp_all add: parse_header_def Let_def n_def t_def split: if_splits)
    show ?thesis
    proof (cases "remove n")
      case True
      then show ?thesis using \<open>has_prefix sec tools_header \<and> _\<close> n ne w
        by (simp add: n_def [symmetric] follows_def s' without_def filter_mput [of "\<lambda>k. \<not> remove k"])
    next
      case False
      have "parse_header U sec w = Inr (w\<lparr>ps_reg := (ps_reg w)\<lparr>Tools := mput n t (Tools (ps_reg w))\<rparr>, ps_tool := n, ps_default := []\<rparr>)"
        using True n by (simp add: parse_header_def Let_def n_def [symmetric] t_def [symmetric] w without_def
            mhas_filter [of "\<lambda>k. \<not> remove k"])
      with False n ne w show ?thesis
        by (simp add: n_def [symmetric] follows_def s' without_def filter_mput [of "\<lambda>k. \<not> remove k"])
    qed
  next
    case nt: False
    have d: "has_prefix sec defaults_header" "length defaults_header < length sec"
      using assms(1) nt by (auto simp: parse_header_def Let_def split: if_splits)
    then have "\<not> has_prefix sec tools_header" by (auto simp: has_prefix_iff tools_header_def defaults_header_def)
    moreover define f where "f = section_name U defaults_header sec"
    moreover have "s' = s\<lparr>ps_reg := (ps_reg s)\<lparr>Defaults := mput f [] (Defaults (ps_reg s))\<rparr>, ps_tool := [], ps_default := f\<rparr>"
      and "ValidToolName f" "\<not> mhas (Defaults (ps_reg s)) f"
      using assms(1) nt d by (simp_all add: parse_header_def Let_def f_def split: if_splits)
    ultimately show ?thesis using nt d w
      by (simp add: parse_header_def Let_def follows_def without_def f_def [symmetric])
  qed
qed

lemma follows_key:
  assumes "parse_logical U l s = Inr s'" "header_of l = Inr None" "l \<noteq> []" "follows remove skip s w"
  shows "if skip then follows remove True s' w else \<exists>w'. parse_logical U l w = Inr w' \<and> follows remove False s' w'"
proof (cases skip)
  case True
  then have f: "ps_tool s \<noteq> []" "remove (ps_tool s)" "ps_default s = []" using assms(4) by (simp_all add: follows_def)
  then show ?thesis using assms True
    by (auto simp: parse_logical_def follows_def put_tool_def without_def filter_mput [of "\<lambda>k. \<not> remove k"] rbind_Inr_iff
        split: option.splits)
next
  case False
  then have f: "ps_reg w = without remove (ps_reg s)" "ps_tool w = ps_tool s" "ps_default w = ps_default s"
    "ps_tool s \<noteq> [] \<longrightarrow> \<not> remove (ps_tool s)" using assms(4) by (simp_all add: follows_def)
  have t: "tool_of (ps_reg w) (ps_tool w) = tool_of (ps_reg s) (ps_tool s)" if "ps_tool s \<noteq> []"
    using that f by (simp add: tool_of_def without_def map_of_filter_key [of "\<lambda>k. \<not> remove k"])
  have d: "default_of (ps_reg w) x = default_of (ps_reg s) x" for x by (simp add: f(1) without_def default_of_def)
  show ?thesis
  proof (cases "ps_tool s = [] \<and> ps_default s = []")
    case True
    then show ?thesis using assms False f
      by (auto simp: parse_logical_def parse_top_key_def follows_def without_def split: option.splits if_splits)
  next
    case in_section: False
    then obtain key v where kv: "split_kv l = Some (key, v)"
      using assms(1-3) by (auto simp: parse_logical_def split: option.splits)
    show ?thesis
    proof (cases "ps_default s = []")
      case True
      with in_section have "ps_tool s \<noteq> []" by simp
      then show ?thesis using assms False f kv t True
        by (auto simp: parse_logical_def follows_def put_tool_def without_def filter_mput [of "\<lambda>k. \<not> remove k"] rbind_Inr_iff)
    next
      case dflt: False
      then show ?thesis using assms False f kv d
        by (auto simp: parse_logical_def parse_default_key_def Let_def follows_def without_def split: sum.splits if_splits)
    qed
  qed
qed

text \<open>One round of the loop.\<close>

lemma rewrite_step:
  assumes "rewrite_line U remove keep dropped (n, c) rw = Inr rw'"
    and "n \<in> set keep \<union> set dropped \<Longrightarrow> logical c = []"
    and "parse_logical U (logical c) s = Inr s'" "follows remove (rw_skip rw) s w"
  shows "\<exists>ks w'. rw_out rw' = rw_out rw @ concat ks \<and> ks \<in> {[], [c]} \<and> parse_lines U ks w = Inr w'
     \<and> follows remove (rw_skip rw') s' w'"
proof (cases "n \<in> set dropped")
  case True
  then have "rw' = rw" "s' = s" using assms(1-3) by (auto simp: rewrite_line_def)
  then show ?thesis using assms(4) by (intro exI [of _ "[]"] exI [of _ w]) simp
next
  case False
  let ?l = "logical c"
  from False assms(1) obtain h where h: "header_of ?l = Inr h"
    by (auto simp: rewrite_line_def parse_section_header rbind_Inr_iff)
  define skip where "skip = (case h of None \<Rightarrow> rw_skip rw
      | Some sec \<Rightarrow> has_prefix sec tools_header \<and> remove (section_name U tools_header sec))"
  have rw': "rw' = \<lparr>rw_skip = skip, rw_out = (if \<not> skip \<or> n \<in> set keep then rw_out rw @ c else rw_out rw)\<rparr>"
    using assms(1) False h by (simp add: rewrite_line_def parse_section_header skip_def Let_def)
  show ?thesis
  proof (cases "?l = []")
    case True
    then have "h = None" using h by (simp add: header_of_def)
    then have "skip = rw_skip rw" by (simp add: skip_def)
    moreover have "s' = s" using assms(3) True by simp
    ultimately show ?thesis using assms(4) True rw'
      by (intro exI [of _ "if \<not> skip \<or> n \<in> set keep then [c] else []"] exI [of _ w]) auto
  next
    case ne: False
    with assms(2) have k: "n \<notin> set keep" by blast
    have "if skip then follows remove True s' w else \<exists>w'. parse_logical U ?l w = Inr w' \<and> follows remove False s' w'"
    proof (cases h)
      case None
      then show ?thesis using follows_key [OF assms(3) _ ne assms(4)] h by (simp add: skip_def)
    next
      case (Some sec)
      with h ne have p: "parse_logical U ?l x = parse_header U sec x" for x by (simp add: parse_logical_def)
      show ?thesis using follows_header [OF _ assms(4), of U sec s'] assms(3) Some by (simp add: p skip_def)
    qed
    then show ?thesis
    proof (cases skip)
      case True
      with \<open>if skip then _ else _\<close> rw' k show ?thesis by (intro exI [of _ "[]"] exI [of _ w]) simp
    next
      case False
      with \<open>if skip then _ else _\<close> obtain w' where "parse_logical U ?l w = Inr w'" "follows remove False s' w'" by auto
      with False rw' show ?thesis by (intro exI [of _ "[c]"] exI [of _ w']) simp
    qed
  qed
qed

lemma rewrite_loop:
  assumes "fold_result (rewrite_line U remove keep dropped) (enumerate n cs) rw = Inr rw'"
    and "\<And>i. i < length cs \<Longrightarrow> n + i \<in> set keep \<union> set dropped \<Longrightarrow> logical (cs ! i) = []"
    and "parse_lines U cs s = Inr s'" "follows remove (rw_skip rw) s w"
  shows "\<exists>ks w'. rw_out rw' = rw_out rw @ concat ks \<and> subseq ks cs \<and> parse_lines U ks w = Inr w'
     \<and> follows remove (rw_skip rw') s' w'"
  using assms
proof (induction cs arbitrary: n rw s w)
  case Nil
  then show ?case by (intro exI [of _ "[]"] exI [of _ w]) simp
next
  case (Cons c cs)
  from Cons.prems(1) obtain r1 where r1: "rewrite_line U remove keep dropped (n, c) rw = Inr r1"
    and r: "fold_result (rewrite_line U remove keep dropped) (enumerate (Suc n) cs) r1 = Inr rw'"
    by (auto simp: rbind_Inr_iff)
  from Cons.prems(3) obtain s1 where s1: "parse_logical U (logical c) s = Inr s1" and s': "parse_lines U cs s1 = Inr s'"
    by (auto simp: rbind_Inr_iff)
  have "n \<in> set keep \<union> set dropped \<Longrightarrow> logical c = []" using Cons.prems(2) [of 0] by simp
  from rewrite_step [OF r1 this s1 Cons.prems(4)] obtain ks1 w1 where
    k1: "rw_out r1 = rw_out rw @ concat ks1" "ks1 \<in> {[], [c]}" "parse_lines U ks1 w = Inr w1" "follows remove (rw_skip r1) s1 w1"
    by blast
  have "Suc n + i \<in> set keep \<union> set dropped \<Longrightarrow> i < length cs \<Longrightarrow> logical (cs ! i) = []" for i
    using Cons.prems(2) [of "Suc i"] by simp
  from Cons.IH [OF r this s' k1(4)] obtain ks w' where
    k: "rw_out rw' = rw_out r1 @ concat ks" "subseq ks cs" "parse_lines U ks w1 = Inr w'" "follows remove (rw_skip rw') s' w'"
    by blast
  have "subseq (ks1 @ ks) (c # cs)" using k1(2) k(2) by auto
  with k1 k show ?case by (intro exI [of _ "ks1 @ ks"] exI [of _ w']) simp
qed

lemma pieces_append: "pieces (xs @ ys) \<Longrightarrow> pieces ys"
  by (induction xs) (auto dest: pieces_tl)

lemma pieces_subseq: "subseq ks cs \<Longrightarrow> pieces cs \<Longrightarrow> pieces ks"
proof (induction ks cs rule: list_emb.induct)
  case (list_emb_Cons2 x y xs ys)
  have "pieces xs" using list_emb_Cons2 pieces_tl by blast
  moreover have "lf_line y" if "xs \<noteq> []"
  proof -
    have "ys \<noteq> []" using that list_emb_Cons2 by auto
    with list_emb_Cons2 show ?thesis by (cases ys) auto
  qed
  ultimately show ?case using list_emb_Cons2 by (cases xs; cases ys) auto
qed (auto dest: pieces_tl)

theorem rewrite_without_spec:
  assumes "rewrite_without U remove data = Inr out"
  shows "\<exists>reg. ParseTOML U data = Inr reg \<and> ParseTOML U out = Inr (without remove reg)"
    "\<exists>ks. out = concat ks \<and> subseq ks (split_after_byte data lf)"
proof -
  let ?cs = "split_after_byte data lf"
  obtain keep dropped where p: "exposedProvenanceLines U ?cs remove = (keep, dropped)" by fastforce
  from assms obtain reg rw reg' where reg: "ParseTOML U data = Inr reg"
    and f: "fold_result (rewrite_line U remove keep dropped) (enumerate 0 ?cs) \<lparr>rw_skip = False, rw_out = []\<rparr> = Inr rw"
    and out: "rw_out rw = out" "ParseTOML U out = Inr reg'"
    using p by (auto simp: rewrite_without_def rbind_Inr_iff lf_def Let_def)
  from reg obtain s where s: "parse_lines U ?cs parse_start = Inr s" "ps_reg s = reg"
    by (auto simp: parse_toml_iff parse_text_split)
  have blank: "i < length ?cs \<Longrightarrow> 0 + i \<in> set keep \<union> set dropped \<Longrightarrow> logical (?cs ! i) = []" for i
    using provenance_blank [of i U remove 0 ?cs] p by (simp add: exposedProvenanceLines_def)
  have "follows remove False parse_start parse_start"
    by (simp add: follows_def parse_start_def empty_registry_def without_def)
  then have "follows remove (rw_skip \<lparr>rw_skip = False, rw_out = []\<rparr>) parse_start parse_start" by simp
  from rewrite_loop [OF f blank s(1) this] obtain ks w where
    k: "out = concat ks" "subseq ks ?cs" "parse_lines U ks parse_start = Inr w" "follows remove (rw_skip rw) s w"
    using out(1) by auto
  have "parse_text U out parse_start = Inr w"
    using k(1,3) parse_text_concat [OF pieces_subseq [OF k(2) split_after_pieces(1)]] by simp
  then have "reg' = ps_reg w" using out(2) by (simp add: parse_toml_iff)
  also have "\<dots> = without remove reg" using k(4) s(2) by (simp add: follows_def)
  finally show "\<exists>reg. ParseTOML U data = Inr reg \<and> ParseTOML U out = Inr (without remove reg)" using reg out(2) by blast
  show "\<exists>ks. out = concat ks \<and> subseq ks ?cs" using k(1,2) by blast
qed

end
