(* ===== verification/Set_Default_Facts.thy ===== *)
theory Set_Default_Facts
  imports Registry_File_Facts Registry_Defaults
begin

text \<open>
  \<open>SetDefaultVersion\<close> changes one default and nothing else (\<open>set_default_spec\<close>). The program finds
  the section with \<open>strings.EqualFold\<close> and the parser names it with \<open>strings.ToLower\<close>; that the two
  agree on a valid family name is a law of Unicode's tables (\<open>fold_agrees\<close>).
\<close>

section \<open>Letter case\<close>

text \<open>
  Two of Go's folding orbits join an ASCII letter and a rune above it: K with U+212A, which
  \<open>unicode.ToLower\<close> maps to k, and S with U+017F, which it maps to itself. \<open>unicode.ToLower\<close> maps
  runes to runes and is idempotent.
\<close>

definition fold_agrees :: "unicode \<Rightarrow> bool" where
  "fold_agrees U \<longleftrightarrow> (\<forall>r c. 128 \<le> r \<and> tool_name_rune c \<and> uc_same_fold U r c \<longrightarrow>
     \<not> is_space_rune r \<and> (lower_rune U r = c \<or> \<not> tool_name_rune (lower_rune U r)))"

definition lower_stable :: "unicode \<Rightarrow> bool" where
  "lower_stable U \<longleftrightarrow> (\<forall>r. valid_rune r \<longrightarrow> valid_rune (lower_rune U r) \<and> lower_rune U (lower_rune U r) = lower_rune U r)"

lemma runes_valid: "(r, e) \<in> set (runes s) \<Longrightarrow> valid_rune r"
proof (induction s arbitrary: r e rule: length_induct)
  case (1 s)
  show ?case
  proof (cases "s = []")
    case False
    then show ?thesis
    proof (cases s rule: runes_Cons_cases)
      case (good r' t)
      then have "length t < length s" by simp
      with 1(1) have "(r, e) \<in> set (runes t) \<Longrightarrow> valid_rune r" by blast
      with 1(2) good show ?thesis by auto
    next
      case (bad c t)
      then have "length t < length s" by simp
      with 1(1) have "(r, e) \<in> set (runes t) \<Longrightarrow> valid_rune r" by blast
      with 1(2) bad show ?thesis by (auto simp: valid_rune_def rune_error_def)
    qed
  qed (use 1 in simp)
qed

lemma to_lower_idem:
  assumes "lower_stable U"
  shows "to_lower U (to_lower U s) = to_lower U s"
proof -
  have idem: "concat (map (\<lambda>p. encode_rune (lower_rune U (fst p))) (runes (concat (map (\<lambda>r. encode_rune (lower_rune U r)) rs))))
      = concat (map (\<lambda>r. encode_rune (lower_rune U r)) rs)" if "list_all valid_rune rs" for rs
    using that
  proof (induction rs)
    case (Cons r rs)
    have v: "valid_rune (lower_rune U r)" "lower_rune U (lower_rune U r) = lower_rune U r"
      using assms Cons.prems by (simp_all add: lower_stable_def)
    then have e: "encode_rune (lower_rune U r) = encode_valid (lower_rune U r)" by (simp add: encode_rune_def)
    show ?case using Cons v by (simp add: e runes_encode)
  qed simp
  have v: "list_all valid_rune (map fst (runes s))"
  proof -
    have "valid_rune (fst p)" if "p \<in> set (runes s)" for p using runes_valid [of "fst p" "snd p" s] that by simp
    then show ?thesis by (simp add: list_all_iff)
  qed
  have eq: "to_lower U s = concat (map (\<lambda>r. encode_rune (lower_rune U r)) (map fst (runes s)))"
    by (simp add: to_lower_def comp_def)
  show ?thesis unfolding to_lower_def [of U "to_lower U s"] unfolding eq by (rule idem [OF v])
qed

lemma tool_name_rune_facts:
  "tool_name_rune c \<Longrightarrow> c < 128" "tool_name_rune c \<Longrightarrow> \<not> is_space_rune c" "tool_name_rune c \<Longrightarrow> lower_rune U c = c"
  by (auto simp: tool_name_rune_def lower_letter_def digit_rune_def is_space_rune_def lower_rune_def)

lemma same_fold_name:
  assumes "fold_agrees U" "tool_name_rune c" "same_fold U r c"
  shows "\<not> is_space_rune r" "tool_name_rune (lower_rune U r) \<Longrightarrow> lower_rune U r = c"
proof -
  note c = tool_name_rune_facts [OF assms(2)]
  have "\<not> is_space_rune r \<and> (tool_name_rune (lower_rune U r) \<longrightarrow> lower_rune U r = c)"
  proof (cases "r = c \<or> 128 \<le> r")
    case True
    show ?thesis
    proof (cases "r = c")
      case r: True
      show ?thesis unfolding r using c by simp
    next
      case False
      with True have "128 \<le> r" by blast
      moreover from this have "uc_same_fold U r c" using assms(3) False by (simp add: same_fold_def)
      ultimately show ?thesis using assms(1,2) unfolding fold_agrees_def by blast
    qed
  next
    case False
    then have "lower_rune U r = c" using assms(3) c by (auto simp: same_fold_def split: if_splits)
    moreover have "\<not> is_space_rune r"
      using False calculation c(1) assms(2)
      by (auto simp: lower_rune_def is_space_rune_def tool_name_rune_def lower_letter_def digit_rune_def split: if_splits)
    ultimately show ?thesis by simp
  qed
  then show "\<not> is_space_rune r" "tool_name_rune (lower_rune U r) \<Longrightarrow> lower_rune U r = c" by blast+
qed

lemma encode_name_rune:
  assumes "list_all (\<lambda>b. tool_name_rune (byte_of b)) (encode_rune r)"
  shows "r < 128" "tool_name_rune r"
proof -
  have r: "r < 128"
  proof (rule ccontr)
    assume "\<not> r < 128"
    then have h: "128 \<le> (if valid_rune r then r else rune_error)" by (simp add: rune_error_def)
    have v: "valid_rune (if valid_rune r then r else rune_error)" by (simp add: valid_rune_def rune_error_def)
    obtain c t where "encode_rune r = c # t" "128 \<le> byte_of c"
      using encode_valid_high [OF h v] by (auto simp: encode_rune_def split: if_splits)
    with assms tool_name_rune_facts(1) show False by fastforce
  qed
  then have e: "encode_rune r = [byte r]" by (simp add: encode_rune_def valid_rune_def encode_valid_def)
  have "byte_of (byte r) = r" using r by simp
  with assms show "tool_name_rune r" unfolding e by simp
  show "r < 128" by (rule r)
qed

lemma encoded_names:
  "list_all (\<lambda>b. tool_name_rune (byte_of b)) (concat (map (\<lambda>r. encode_rune (f r)) rs)) \<Longrightarrow> list_all (\<lambda>r. tool_name_rune (f r)) rs"
  by (induction rs) (simp_all add: encode_name_rune(2))

text \<open>A section that folds to a family, and whose own name is valid, has that family's name.\<close>

lemma folded_name:
  assumes "fold_agrees U" "ValidToolName family" "list_all2 (same_fold U) (rune_values x) (rune_values family)"
    and "ValidToolName (to_lower U x)"
  shows "to_lower U x = family"
proof -
  have f: "list_all (\<lambda>b. tool_name_rune (byte_of b)) family" using assms(2) by (simp add: valid_tool_name_bytes)
  then have asc: "ascii_string family"
    unfolding ascii_string_def by (rule list.pred_mono_strong) (rule tool_name_rune_facts(1))
  have "list_all (\<lambda>b. tool_name_rune (byte_of b)) (to_lower U x)" using assms(4) by (simp add: valid_tool_name_bytes)
  then have "list_all (\<lambda>b. tool_name_rune (byte_of b)) (concat (map (\<lambda>r. encode_rune (lower_rune U r)) (rune_values x)))"
    by (simp only: to_lower_def rune_values_def map_map comp_def)
  then have low: "list_all (\<lambda>r. tool_name_rune (lower_rune U r)) (rune_values x)" by (rule encoded_names)
  have "concat (map (\<lambda>r. encode_rune (lower_rune U r)) rs) = fam"
    if "list_all2 (same_fold U) rs (map byte_of fam)" "list_all (\<lambda>r. tool_name_rune (lower_rune U r)) rs"
      "list_all (\<lambda>b. tool_name_rune (byte_of b)) fam" for rs fam
    using that
  proof (induction rs arbitrary: fam)
    case (Cons r rs)
    then obtain b fam' where b: "fam = b # fam'" by (cases fam) auto
    with Cons.prems have "lower_rune U r = byte_of b" using same_fold_name(2) [OF assms(1)] by simp
    moreover have "byte_of b < (128::nat)" using Cons.prems(3) b tool_name_rune_facts(1) by simp
    then have "encode_rune (byte_of b) = [b]" by (simp add: encode_rune_def valid_rune_def encode_valid_def)
    ultimately show ?case using Cons b by simp
  qed simp
  moreover have "list_all2 (same_fold U) (rune_values x) (map byte_of family)"
    using assms(3) unfolding rune_values_ascii [OF asc] .
  ultimately have "concat (map (\<lambda>r. encode_rune (lower_rune U r)) (rune_values x)) = family" using low f by blast
  then show ?thesis by (simp add: to_lower_def rune_values_def comp_def)
qed

lemma rune_values_ascii_append: "ascii_string p \<Longrightarrow> rune_values (p @ s) = map byte_of p @ rune_values s"
  by (induction p) (simp_all add: rune_values_def)

lemma trim_right_append_fixed:
  assumes "trim_right (p @ x) = p @ x"
  shows "trim_right x = x"
proof -
  have r: "trim_right_rev (rev x @ rev p) = rev x @ rev p" using assms by (simp add: trim_right_def) (metis rev_append rev_rev_ident)
  have "last_space_width (rev x @ rev p) = 0"
  proof (rule ccontr)
    let ?n = "last_space_width (rev x @ rev p)"
    assume n: "?n \<noteq> 0"
    then have "length (trim_right_rev (rev x @ rev p)) \<le> length (rev x @ rev p) - ?n"
      using trim_right_rev_length [of "drop ?n (rev x @ rev p)"] by (simp add: trim_right_rev.simps [of "rev x @ rev p"] Let_def)
    moreover have "rev x @ rev p \<noteq> []" using n by (auto simp: last_space_width_def)
    ultimately show False using n r by (cases "rev x @ rev p") auto
  qed
  then have "last_space_width (rev x) = 0"
    by (auto simp: last_space_width_def split: list.splits if_splits)
  then show ?thesis by (simp add: trim_right_def trim_right_rev.simps [of "rev x"])
qed

lemma trim_right_idem: "trim_right (trim_right s) = trim_right s"
proof -
  have "trim_right_rev (trim_right_rev t) = trim_right_rev t" for t
  proof (induction t rule: trim_right_rev.induct)
    case (1 t)
    then show ?case by (cases "last_space_width t = 0") (simp_all add: trim_right_rev.simps [of t] Let_def)
  qed
  then show ?thesis by (simp add: trim_right_def)
qed

lemma folded_header:
  assumes "fold_agrees U" "ValidToolName family" "equal_fold U sec (defaults_header @ family)"
    and "has_prefix sec defaults_header" "trim_right sec = sec" "ValidToolName (section_name U defaults_header sec)"
  shows "section_name U defaults_header sec = family"
proof -
  obtain x where x: "sec = defaults_header @ x" using assms(4) by (auto simp: has_prefix_iff)
  have asc: "ascii_string defaults_header" by (simp add: defaults_header_def ascii_string_def)
  have m: "list_all2 (same_fold U) (rune_values x) (rune_values family)"
    using assms(3) by (simp add: equal_fold_def x rune_values_ascii_append [OF asc] list_all2_append)
  have tr: "trim_right x = x" using trim_right_append_fixed assms(5) x by blast
  obtain b fam where b: "family = b # fam" "tool_name_rune (byte_of b)"
    using assms(2) by (cases family) (auto simp: valid_tool_name_bytes)
  have "rune_values family \<noteq> []" using b by (simp add: rune_values_def runes.simps(2) split: prod.splits)
  with m have x0: "x \<noteq> []" by (auto simp: rune_values_def)
  obtain r w where rw: "decode_rune x = (r, w)" by fastforce
  have "byte_of b < (128::nat)" using tool_name_rune_facts(1) b(2) by blast
  then have "rune_values family = byte_of b # rune_values fam" unfolding b(1) by (simp add: rune_values_def)
  moreover obtain rs where "rune_values x = r # rs" using x0 rw by (cases x) (simp_all add: rune_values_def runes.simps(2))
  ultimately have "same_fold U r (byte_of b)" using m by simp
  then have "\<not> is_space_rune r" using same_fold_name(1) [OF assms(1) b(2)] by blast
  then have "trim_left x = x" using rw x0 by (simp add: trim_left.simps [of x])
  with tr have "section_name U defaults_header sec = to_lower U x"
    by (simp add: section_name_def x trim_prefix_def has_prefix_def trim_space_def)
  with folded_name [OF assms(1,2) m] assms(6) show ?thesis by simp
qed

lemma header_trimmed: "header_of l = Inr (Some sec) \<Longrightarrow> trim_right sec = sec"
  by (auto simp: header_of_def Let_def trim_space_def trim_right_idem split: if_splits)

section \<open>The line that is written\<close>

lemma strip_split: "\<exists>comment. s = strip_from q e s @ comment \<and> (comment = [] \<or> hd comment = CHR ''#'')"
  by (induction q e s rule: strip_from.induct) auto

lemma trim_blanks:
  assumes "list_all blank_char b"
  shows "trim_left (b @ s) = trim_left s" "trim_space (s @ b) = trim_space s"
proof -
  have bl: "byte_of c < (128::nat) \<and> is_space_rune (byte_of c)" if "blank_char c" for c
    using that by (auto simp: blank_char_def is_space_rune_def)
  show "trim_left (b @ s) = trim_left s" using assms by (induction b) (use bl in auto)
  show "trim_space (s @ b) = trim_space s"
    using assms
  proof (induction b rule: rev_induct)
    case (snoc c b)
    then show ?case using bl [of c] trim_space_snoc [of c "s @ b"] by simp
  qed simp
qed

lemma blank_takeWhile: "list_all blank_char (takeWhile blank_char s)"
  by (induction s) auto

lemma quote_plain_key: "plain_key k \<Longrightarrow> Quote U k = dq # k @ [dq]"
proof -
  assume "plain_key k"
  then have "list_all key_char k" by (simp add: plain_key_def)
  then have "list_all (\<lambda>c. 0x20 \<le> byte_of c \<and> byte_of c < (0x7F::nat) \<and> c \<noteq> dq \<and> c \<noteq> bs) k"
    by (rule list.pred_mono_strong) (auto simp: key_char_def is_digit_def bs_def dq_def)
  then show ?thesis by (simp add: Quote_def go_quote_def quote_body_plain)
qed

text \<open>The new line, whatever indentation and comment it keeps, assigns the new version.\<close>

lemma logical_version_line:
  assumes "plain_key version"
  shows "logical (version_line version line) = key_line ''version'' (Quote U version)"
proof -
  define code where "code = StripComment line"
  define keep where "keep = length (dropWhile blank_char (rev code))"
  let ?in = "takeWhile blank_char line"
  let ?K = "key_line ''version'' (Quote U version)"
  obtain comment where cm: "line = code @ comment" "comment = [] \<or> hd comment = CHR ''#''"
    using strip_split [of line False False] by (auto simp: code_def StripComment_def)
  have c: "code = rev (dropWhile blank_char (rev code)) @ rev (takeWhile blank_char (rev code))"
    unfolding rev_append [symmetric] by simp
  define tail where "tail = rev (takeWhile blank_char (rev code))"
  have tb: "list_all blank_char tail" by (simp add: tail_def blank_takeWhile)
  have d: "drop keep line = tail @ comment"
    using cm(1) c unfolding keep_def tail_def by (metis append.assoc append_eq_conv_conj length_rev)
  note q = quote_plain_key [OF assms, of U]
  have line: "version_line version line = ?in @ ?K @ tail @ comment"
    using d by (simp add: version_line_def Let_def key_line_def q keep_def code_def)
  have bs: "CHR ''#'' \<notin> set b \<and> dq \<notin> set b" if "list_all blank_char b" for b
    using that by (induction b) (auto simp: blank_char_def dq_def)
  have strip_tail: "strip_from False False (tail @ comment) = tail"
    using strip_plain [of tail comment] bs [OF tb] cm(2) by (cases comment) (auto simp: dq_def)
  have "strip_from False False (?in @ ''version = '' @ Quote U version @ tail @ comment)
      = ?in @ ''version = '' @ Quote U version @ tail"
    using strip_plain [of ?in] bs [OF blank_takeWhile] strip_plain [of "''version = ''"] strip_quote [of U version "tail @ comment"]
      strip_tail by (simp add: Quote_def dq_def)
  then have "StripComment (version_line version line) = ?in @ ?K @ tail"
    by (simp add: line StripComment_def key_line_def)
  then have "logical (version_line version line) = trim_space (?in @ ?K)"
    using trim_blanks(2) [OF tb, of "?in @ ?K"] by (simp add: logical_def)
  also have "\<dots> = trim_space ?K" using trim_blanks(1) [OF blank_takeWhile, of line ?K] by (simp add: trim_space_def)
  also have "\<dots> = ?K"
    by (simp add: trim_space_solid key_line_def Quote_def go_quote_def solid_def is_space_rune_def)
  finally show ?thesis .
qed

section \<open>The simulation\<close>

lemma mput_twice: "mput k v (mput k w m) = mput k v m"
  by (induction m) (auto simp: mput_def)

lemma mput_present: "mhas m k \<Longrightarrow> mput k v (m @ m') = mput k v m @ m'"
  by (induction m) (auto simp: mput_def)

lemma mput_commute: "mhas m k \<Longrightarrow> mhas m k' \<Longrightarrow> k \<noteq> k' \<Longrightarrow> mput k v (mput k' w m) = mput k' w (mput k v m)"
  by (induction m) (auto simp: mput_def)

text \<open>
  How the parse of the written pieces (\<open>w\<close>) follows the parse of the original (\<open>s\<close>): they differ in
  the version of the family, and only once a line has been replaced.
\<close>

definition updated :: "string \<Rightarrow> string \<Rightarrow> bool \<Rightarrow> registry \<Rightarrow> registry" where
  "updated family version replaced reg =
     (if replaced then reg\<lparr>Defaults := mput family version (Defaults reg)\<rparr> else reg)"

definition mirrors :: "string \<Rightarrow> string \<Rightarrow> bool \<Rightarrow> parse_state \<Rightarrow> parse_state \<Rightarrow> bool" where
  "mirrors family version replaced s w \<longleftrightarrow> w = s\<lparr>ps_reg := updated family version replaced (ps_reg s)\<rparr>
     \<and> parse_inv s \<and> (replaced \<longrightarrow> default_of (ps_reg s) family \<noteq> [])"

lemma default_of_has: "default_of reg f \<noteq> [] \<Longrightarrow> mhas (Defaults reg) f"
  by (auto simp: default_of_def mhas_iff_map_of split: option.splits)

lemma updated_simps [simp]:
  "Tools (updated f v b reg) = Tools reg" "SchemaVersion (updated f v b reg) = SchemaVersion reg"
  "tool_of (updated f v b reg) n = tool_of reg n"
  "default_of reg f \<noteq> [] \<Longrightarrow> mhas (Defaults (updated f v b reg)) k \<longleftrightarrow> mhas (Defaults reg) k"
  "k \<noteq> f \<or> \<not> b \<Longrightarrow> default_of (updated f v b reg) k = default_of reg k"
  using default_of_has [of reg f] by (auto simp: updated_def tool_of_def default_of_def)

lemma mirrors_header:
  assumes "parse_header U sec s = Inr s'" "mirrors family version b s w" "parse_inv s'"
  shows "\<exists>w'. parse_header U sec w = Inr w' \<and> mirrors family version b s' w'"
proof -
  have w: "w = s\<lparr>ps_reg := updated family version b (ps_reg s)\<rparr>" and d: "b \<Longrightarrow> default_of (ps_reg s) family \<noteq> []"
    using assms(2) by (auto simp: mirrors_def)
  have has: "mhas (Defaults (updated family version b (ps_reg s))) k \<longleftrightarrow> mhas (Defaults (ps_reg s)) k" for k
    using d by (cases b) (auto simp: updated_def dest: default_of_has)
  show ?thesis
  proof (cases "has_prefix sec tools_header \<and> length tools_header < length sec")
    case True
    then show ?thesis using assms d
      by (auto simp: parse_header_def Let_def w mirrors_def updated_def default_of_def split: if_splits)
  next
    case False
    then have df: "has_prefix sec defaults_header" "length defaults_header < length sec"
      using assms(1) by (auto simp: parse_header_def Let_def split: if_splits)
    define f where "f = section_name U defaults_header sec"
    have f: "ValidToolName f" "\<not> mhas (Defaults (ps_reg s)) f"
      and s': "s' = s\<lparr>ps_reg := (ps_reg s)\<lparr>Defaults := mput f [] (Defaults (ps_reg s))\<rparr>, ps_tool := [], ps_default := f\<rparr>"
      using assms(1) False df by (simp_all add: parse_header_def Let_def f_def split: if_splits)
    define w' where "w' = w\<lparr>ps_reg := (ps_reg w)\<lparr>Defaults := mput f [] (Defaults (ps_reg w))\<rparr>, ps_tool := [], ps_default := f\<rparr>"
    have "parse_header U sec w = Inr w'"
      unfolding parse_header_def Let_def if_not_P [OF False] using df f has by (simp add: f_def [symmetric] w w'_def)
    moreover have "mirrors family version b s' w'"
    proof (cases b)
      case True
      then have h: "mhas (Defaults (ps_reg s)) family" "family \<noteq> f" using d default_of_has f(2) by auto
      have "mput f [] (mput family version (Defaults (ps_reg s))) = mput family version (mput f [] (Defaults (ps_reg s)))"
        using f(2) h by (simp add: mput_fresh mput_present)
      then show ?thesis using True d h assms(3)
        by (simp add: mirrors_def s' w'_def w updated_def default_of_def)
    next
      case False
      then show ?thesis using assms(3) by (simp add: mirrors_def s' w'_def w updated_def)
    qed
    ultimately show ?thesis by blast
  qed
qed

lemma mirrors_key:
  assumes "parse_logical U l s = Inr s'" "header_of l = Inr None" "l \<noteq> []" "mirrors family version b s w" "parse_inv s'"
  shows "\<exists>w'. parse_logical U l w = Inr w' \<and> mirrors family version b s' w'"
proof -
  have w: "w = s\<lparr>ps_reg := updated family version b (ps_reg s)\<rparr>" and d: "b \<Longrightarrow> default_of (ps_reg s) family \<noteq> []"
    and inv: "parse_inv s" using assms(4) by (auto simp: mirrors_def)
  show ?thesis
  proof (cases "ps_tool s = [] \<and> ps_default s = []")
    case True
    then show ?thesis using assms(1-3,5) d
      by (auto simp: parse_logical_def parse_top_key_def w mirrors_def updated_def default_of_def split: option.splits if_splits)
  next
    case in_section: False
    then obtain key v where kv: "split_kv l = Some (key, v)"
      using assms(1-3) by (auto simp: parse_logical_def split: option.splits)
    show ?thesis
    proof (cases "ps_default s = []")
      case True
      with in_section assms(1-3) kv obtain t where
        t: "parse_tool_key U key v (tool_of (ps_reg s) (ps_tool s)) = Inr t" "s' = put_tool t s"
        by (auto simp: parse_logical_def rbind_Inr_iff)
      have "parse_logical U l w = Inr (put_tool t w)"
        using True in_section assms(2,3) kv t(1) by (simp add: parse_logical_def w)
      moreover have "mirrors family version b s' (put_tool t w)"
        using assms(5) d by (simp add: mirrors_def t(2) w put_tool_def updated_def default_of_def)
      ultimately show ?thesis by blast
    next
      case False
      let ?f = "ps_default s"
      from False in_section assms(1-3) kv have p: "parse_default_key key v s = Inr s'" by (simp add: parse_logical_def)
      then obtain x where x: "key = ''version''" "ParseQuoted v = Inr x" "validVersion x" "default_of (ps_reg s) ?f = []"
        and s': "s' = s\<lparr>ps_reg := (ps_reg s)\<lparr>Defaults := mput ?f x (Defaults (ps_reg s))\<rparr>\<rparr>"
        by (auto simp: parse_default_key_def Let_def split: sum.splits if_splits)
      have nf: "?f \<noteq> family" if b using d [OF that] x(4) by auto
      have hf: "mhas (Defaults (ps_reg s)) ?f" using inv False by (simp add: parse_inv_def)
      define w' where "w' = w\<lparr>ps_reg := (ps_reg w)\<lparr>Defaults := mput ?f x (Defaults (ps_reg w))\<rparr>\<rparr>"
      have "default_of (ps_reg w) ?f = []" using x(4) nf by (cases b) (simp_all add: w)
      then have "parse_logical U l w = Inr w'"
        using False in_section assms(2,3) kv x by (simp add: parse_logical_def parse_default_key_def Let_def w'_def w)
      moreover have "mirrors family version b s' w'"
      proof (cases b)
        case True
        then have hfam: "mhas (Defaults (ps_reg s)) family" using d default_of_has by blast
        have "mput ?f x (mput family version (Defaults (ps_reg s))) = mput family version (mput ?f x (Defaults (ps_reg s)))"
          by (rule mput_commute [OF hf hfam nf [OF True]])
        moreover have "default_of (ps_reg s') family \<noteq> []"
          using d [OF True] nf [OF True] by (simp add: s' default_of_def)
        ultimately show ?thesis using True assms(5) by (simp add: mirrors_def w'_def w updated_def s')
      next
        case False
        then show ?thesis using assms(5) by (simp add: mirrors_def s' w'_def w updated_def)
      qed
      ultimately show ?thesis by blast
    qed
  qed
qed

lemma mirrors_copy:
  assumes "parse_logical U (logical raw) s = Inr s'" "mirrors family version b s w"
  shows "\<exists>w'. parse_logical U (logical raw) w = Inr w' \<and> mirrors family version b s' w'"
proof -
  have inv: "parse_inv s'" using parse_line_inv assms by (auto simp: parse_line_logical mirrors_def)
  show ?thesis
  proof (cases "logical raw = []")
    case True
    then show ?thesis using assms by simp
  next
    case False
    with assms(1) obtain h where h: "header_of (logical raw) = Inr h" by (auto simp: parse_logical_def split: sum.splits)
    show ?thesis
    proof (cases h)
      case None
      then show ?thesis using mirrors_key [OF assms(1) _ False assms(2) inv] h by simp
    next
      case (Some sec)
      with h False have p: "parse_logical U (logical raw) x = parse_header U sec x" for x by (simp add: parse_logical_def)
      show ?thesis using mirrors_header [of U sec s s'] assms inv by (simp add: p)
    qed
  qed
qed

text \<open>A line whose version key the program replaces assigns the family's version for the parser.\<close>

lemma version_key_line:
  assumes "version_key (trim_space raw)"
  shows "logical raw \<noteq> []" "header_of (logical raw) = Inr None"
proof -
  obtain t where "trim_space raw = CHR ''v'' # t" using assms by (auto simp: version_key_def has_prefix_iff)
  then obtain t' where "logical raw = CHR ''v'' # t'"
    using logical_solid [of raw "CHR ''v''" t] by (auto simp: solid_def is_space_rune_def dq_def)
  then show "logical raw \<noteq> []" "header_of (logical raw) = Inr None" by (simp_all add: header_of_def)
qed

lemma mirrors_replace:
  assumes "parse_logical U l s = Inr s'" "header_of l = Inr None" "l \<noteq> []" "mirrors family version b s w" "parse_inv s'"
    and "ps_default s = family" "family \<noteq> []" "plain_key version" "validVersion version"
  shows "\<exists>w'. parse_logical U (key_line ''version'' (Quote U version)) w = Inr w' \<and> mirrors family version True s' w'"
proof -
  from assms(1-3,6,7) obtain key v where "parse_default_key key v s = Inr s'"
    by (auto simp: parse_logical_def split: option.splits)
  then obtain x where x: "validVersion x" "default_of (ps_reg s) family = []"
    and s': "s' = s\<lparr>ps_reg := (ps_reg s)\<lparr>Defaults := mput family x (Defaults (ps_reg s))\<rparr>\<rparr>"
    using assms(6) by (auto simp: parse_default_key_def Let_def split: sum.splits if_splits)
  have nb: "\<not> b" using assms(4) x(2) by (auto simp: mirrors_def)
  then have w: "w = s" using assms(4) by (simp add: mirrors_def updated_def)
  let ?K = "key_line ''version'' (Quote U version)"
  have k: "plain_key ''version''" by (simp add: plain_key_def key_char_def)
  have "logical ?K = ?K" "split_kv ?K = Some (''version'', Quote U version)" "ParseSectionHeader ?K = Inr None" "?K \<noteq> []"
    using quoted.logical_key_line [OF k] quoted.split_key_line [OF k] quoted.header_key_line [OF k] by (simp_all add: key_line_def)
  moreover from this have "header_of ?K = Inr None" by (simp add: parse_section_header)
  moreover define w' where "w' = s\<lparr>ps_reg := (ps_reg s)\<lparr>Defaults := mput family version (Defaults (ps_reg s))\<rparr>\<rparr>"
  ultimately have "parse_logical U ?K w = Inr w'"
    using assms(6,7,9) x(2) by (simp add: parse_logical_def parse_default_key_def quoted.dec_enc w w'_def Let_def)
  moreover have "default_of (ps_reg s') family \<noteq> []" using x(1) by (auto simp: s' default_of_def validVersion_def)
  then have "mirrors family version True s' w'"
    using assms(5) by (simp add: mirrors_def updated_def s' w'_def mput_twice)
  ultimately show ?thesis by blast
qed

section \<open>The loop\<close>

lemma trim_suffix_char: "trim_suffix s [c] = (if s \<noteq> [] \<and> last s = c then butlast s else s)"
proof (cases s rule: rev_cases)
  case (snoc t d)
  then show ?thesis by (simp add: trim_suffix_def)
qed (simp add: trim_suffix_def has_suffix_def)

lemma line_of_eq: "line_of raw = drop_cr (if raw \<noteq> [] \<and> last raw = lf then butlast raw else raw)"
  by (simp add: line_of_def trim_suffix_char drop_cr_def lf_def)

lemma logical_line_of: "logical (line_of raw) = logical raw"
proof (cases "raw \<noteq> [] \<and> last raw = lf")
  case True
  then have "raw = butlast raw @ [lf]" using append_butlast_last_id [of raw] by simp
  then have "logical raw = logical (butlast raw)" using logical_snoc [of lf "butlast raw"] by simp
  with True show ?thesis by (simp add: line_of_eq)
next
  case False
  then show ?thesis unfolding line_of_eq if_not_P [OF False] by simp
qed

lemma line_of_no_lf: "lf_line raw \<or> lf \<notin> set raw \<Longrightarrow> lf \<notin> set (line_of raw)"
  unfolding line_of_eq drop_cr_def lf_line_def by (auto dest: in_set_butlastD)

lemma key_keeps_section:
  assumes "parse_logical U l s = Inr s'" "header_of l = Inr None"
  shows "ps_default s' = ps_default s"
  using assms
  by (auto simp: parse_logical_def parse_top_key_def parse_default_key_def put_tool_def Let_def rbind_Inr_iff
      split: if_splits option.splits sum.splits)

lemma tools_not_folded: "has_prefix sec tools_header \<Longrightarrow> \<not> equal_fold U sec (defaults_header @ family)"
  by (auto simp: has_prefix_iff equal_fold_def tools_header_def defaults_header_def rune_values_def same_fold_def lower_rune_def)

lemma header_in_family:
  assumes "fold_agrees U" "ValidToolName family" "header_of l = Inr (Some sec)"
    and "parse_header U sec s = Inr s'" "equal_fold U sec (defaults_header @ family)"
  shows "ps_default s' = family"
proof -
  have "\<not> has_prefix sec tools_header" using tools_not_folded assms(5) by blast
  then have "has_prefix sec defaults_header" "ValidToolName (section_name U defaults_header sec)"
    "ps_default s' = section_name U defaults_header sec"
    using assms(4) by (auto simp: parse_header_def Let_def split: if_splits)
  with folded_header [OF assms(1,2,5) _ header_trimmed [OF assms(3)]] show ?thesis by simp
qed

lemma version_line_no_lf:
  assumes "plain_key version" "lf \<notin> set line"
  shows "lf \<notin> set (version_line version line)"
proof -
  have "lf \<notin> set version" using assms(1) by (auto simp: plain_key_def list_all_iff key_char_def is_digit_def lf_def)
  then show ?thesis using assms(2)
    by (auto simp: version_line_def Let_def lf_def dq_def dest: set_takeWhileD in_set_dropD)
qed

lemma written_line:
  assumes "plain_key version" "lf \<notin> set line" "nl = [lf] \<or> nl = [cr, lf]"
  shows "lf_line (version_line version line @ nl)"
    "logical (version_line version line @ nl) = key_line ''version'' (Quote U version)"
proof -
  note v = version_line_no_lf [OF assms(1,2)]
  show "lf_line (version_line version line @ nl)" using assms(3) v by (auto simp: lf_line_def butlast_append lf_def cr_def)
  show "logical (version_line version line @ nl) = key_line ''version'' (Quote U version)"
    using assms(3) logical_version_line [OF assms(1), of line U] logical_snoc [of lf "version_line version line @ [cr]"]
      logical_snoc [of cr "version_line version line"] logical_snoc [of lf "version_line version line"] by auto
qed

lemma set_step:
  assumes "fold_agrees U" "ValidToolName family" "plain_key version" "validVersion version"
    and nl: "nl = [lf] \<or> nl = [cr, lf]" and piece: "lf_line raw \<or> lf \<notin> set raw"
    and step: "set_line U family version nl (n, raw) st = Inr st'"
    and p: "parse_logical U (logical raw) s = Inr s'" and m: "mirrors family version (sv_replaced st) s w"
    and sec: "sv_in st \<longrightarrow> ps_default s = family"
  shows "\<exists>c w'. sv_out st' = sv_out st @ c \<and> (c = raw \<or> lf_line c) \<and> parse_logical U (logical c) w = Inr w'
     \<and> mirrors family version (sv_replaced st') s' w' \<and> (sv_in st' \<longrightarrow> ps_default s' = family)"
proof -
  let ?line = "line_of raw"
  from step obtain h where h: "header_of (logical raw) = Inr h"
    by (auto simp: set_line_def parse_section_header logical_line_of rbind_Inr_iff Let_def)
  define inFamily where "inFamily = (case h of None \<Rightarrow> sv_in st | Some sec \<Rightarrow> equal_fold U sec (defaults_header @ family))"
  have st': "st' = (if inFamily \<and> version_key (trim_space ?line)
      then \<lparr>sv_in = inFamily, sv_replaced = True, sv_out = sv_out st @ version_line version ?line @ nl\<rparr>
      else \<lparr>sv_in = inFamily, sv_replaced = sv_replaced st, sv_out = sv_out st @ raw\<rparr>)"
  proof -
    have "set_line U family version nl (n, raw) st = Inr (if inFamily \<and> version_key (trim_space ?line)
      then \<lparr>sv_in = inFamily, sv_replaced = True, sv_out = sv_out st @ version_line version ?line @ nl\<rparr>
      else \<lparr>sv_in = inFamily, sv_replaced = sv_replaced st, sv_out = sv_out st @ raw\<rparr>)"
      by (simp add: set_line_def parse_section_header logical_line_of h inFamily_def Let_def)
    with step show ?thesis by simp
  qed
  have sec': "inFamily \<longrightarrow> ps_default s' = family"
  proof (cases h)
    case None
    then show ?thesis using sec key_keeps_section [OF p] h by (simp add: inFamily_def)
  next
    case (Some x)
    then have "logical raw \<noteq> []" using h by (auto simp: header_of_def)
    then have "parse_header U x s = Inr s'" using p h Some by (simp add: parse_logical_def)
    then show ?thesis using header_in_family [OF assms(1,2)] h Some by (auto simp: inFamily_def)
  qed
  show ?thesis
  proof (cases "inFamily \<and> version_key (trim_space ?line)")
    case False
    then have "st' = \<lparr>sv_in = inFamily, sv_replaced = sv_replaced st, sv_out = sv_out st @ raw\<rparr>"
      unfolding st' by (rule if_not_P)
    with mirrors_copy [OF p m] sec' show ?thesis by (intro exI [of _ raw]) auto
  next
    case True
    have l: "logical raw \<noteq> []" "header_of (logical raw) = Inr None"
      using version_key_line [of ?line] True by (simp_all add: logical_line_of)
    then have "sv_in st" using True h by (simp add: inFamily_def)
    with sec have fam: "ps_default s = family" by blast
    have inv: "parse_inv s'" using parse_line_inv p m by (auto simp: parse_line_logical mirrors_def)
    have "family \<noteq> []" using assms(2) by (auto simp: ValidToolName_def)
    from mirrors_replace [OF p l(2,1) m inv fam this assms(3,4)] obtain w' where
      w': "parse_logical U (key_line ''version'' (Quote U version)) w = Inr w'" "mirrors family version True s' w'" by blast
    note c = written_line [OF assms(3) line_of_no_lf [OF piece] nl]
    have "st' = \<lparr>sv_in = inFamily, sv_replaced = True, sv_out = sv_out st @ version_line version ?line @ nl\<rparr>"
      unfolding st' using True by (rule if_P)
    with c(1) c(2) [of U] w' sec' show ?thesis by (intro exI [of _ "version_line version ?line @ nl"] exI [of _ w']) simp
  qed
qed

lemma set_loop:
  assumes "fold_agrees U" "ValidToolName family" "plain_key version" "validVersion version" "nl = [lf] \<or> nl = [cr, lf]"
    and "pieces cs" "fold_result (set_line U family version nl) (enumerate n cs) st = Inr st'"
    and "parse_lines U cs s = Inr s'" "mirrors family version (sv_replaced st) s w" "sv_in st \<longrightarrow> ps_default s = family"
  shows "\<exists>ks w'. sv_out st' = sv_out st @ concat ks \<and> list_all2 (\<lambda>k c. k = c \<or> lf_line k) ks cs
     \<and> parse_lines U ks w = Inr w' \<and> mirrors family version (sv_replaced st') s' w'"
  using assms(6-10)
proof (induction cs arbitrary: n st s w)
  case Nil
  then show ?case by (intro exI [of _ "[]"] exI [of _ w]) simp
next
  case (Cons c cs)
  from Cons.prems(2) obtain r1 where r1: "set_line U family version nl (n, c) st = Inr r1"
    and r: "fold_result (set_line U family version nl) (enumerate (Suc n) cs) r1 = Inr st'" by (auto simp: rbind_Inr_iff)
  from Cons.prems(3) obtain s1 where s1: "parse_logical U (logical c) s = Inr s1" and s': "parse_lines U cs s1 = Inr s'"
    by (auto simp: rbind_Inr_iff)
  have pc: "lf_line c \<or> lf \<notin> set c" using Cons.prems(1) by (cases cs) auto
  from set_step [OF assms(1-5) pc r1 s1 Cons.prems(4,5)] obtain k w1 where
    k: "sv_out r1 = sv_out st @ k" "k = c \<or> lf_line k" "parse_logical U (logical k) w = Inr w1"
      "mirrors family version (sv_replaced r1) s1 w1" "sv_in r1 \<longrightarrow> ps_default s1 = family" by blast
  from Cons.IH [OF pieces_tl [OF Cons.prems(1)] r s' k(4,5)] obtain ks w' where
    ks: "sv_out st' = sv_out r1 @ concat ks" "list_all2 (\<lambda>k c. k = c \<or> lf_line k) ks cs" "parse_lines U ks w1 = Inr w'"
      "mirrors family version (sv_replaced st') s' w'" by blast
  with k show ?case by (intro exI [of _ "k # ks"] exI [of _ w']) simp
qed

lemma pieces_replaced: "list_all2 (\<lambda>k c. k = c \<or> lf_line k) ks cs \<Longrightarrow> pieces cs \<Longrightarrow> pieces ks"
proof (induction ks cs rule: list_all2_induct)
  case (Cons k ks c cs)
  then have "pieces ks" using pieces_tl by blast
  then show ?case using Cons by (cases ks; cases cs) auto
qed simp

lemma version_key_char: "version_rune (byte_of c) \<Longrightarrow> key_char c"
proof -
  assume "version_rune (byte_of c)"
  then consider "lower_letter (byte_of c) \<or> digit_rune (byte_of c)" | "c \<in> {CHR ''.'', CHR ''-'', CHR ''_''}"
    unfolding version_rune_def using byte_eqI by blast
  then show ?thesis
    by cases (auto simp: key_char_def lower_letter_def digit_rune_def is_digit_def)
qed

lemma available_version:
  assumes "registry_wf reg" "DefaultInfo U reg family = Some info" "version \<in> set (diVersions info)"
  shows "validVersion version" "plain_key version" "ValidToolName (to_lower U family)"
    "mhas (Defaults reg) (to_lower U family)" "diSelected info = default_of reg (to_lower U family)"
proof -
  let ?f = "to_lower U family"
  obtain sel where sel: "map_of (Defaults reg) ?f = Some sel" using assms(2) by (auto simp: DefaultInfo_def Let_def split: option.splits)
  from sel show "mhas (Defaults reg) ?f" by (simp add: mhas_iff_map_of)
  then show v: "ValidToolName ?f"
    using assms(1) by (auto simp: registry_wf_def registry_lines_wf_def list_all_iff mhas_def mkeys_def)
  show "diSelected info = default_of reg ?f" using assms(2) sel by (auto simp: DefaultInfo_def Let_def default_of_def)
  from assms(2,3) sel obtain e where e: "e \<in> set (Tools reg)" "tDefaultFamily (snd e) = ?f" "tDefaultVersion (snd e) = version"
    by (auto simp: DefaultInfo_def Let_def)
  have "?f \<noteq> []" using v by (auto simp: ValidToolName_def)
  then have "e \<in> set (metas (Tools reg))" using e by (simp add: metas_def metadata_count_def metadata_def)
  moreover have "defaults_spec reg" using assms(1) validate_defaults_iff by (auto simp: registry_wf_def registry_lines_wf_def)
  ultimately have "alias_ok reg e" by (simp add: defaults_spec_def)
  then show vv: "validVersion version" using e(3) by (simp add: alias_ok_def metadata_valid_def)
  then show "plain_key version"
    unfolding valid_version_bytes plain_key_def by (auto intro: list.pred_mono_strong version_key_char)
qed

theorem set_default_spec:
  assumes "fold_agrees U" "lower_stable U" "set_default U family version validators data = Inr (Some out)"
  shows "\<exists>reg. ParseTOML U data = Inr reg
     \<and> ParseTOML U out = Inr (reg\<lparr>Defaults := mput (to_lower U family) (to_lower U version) (Defaults reg)\<rparr>)
     \<and> (\<forall>v \<in> set validators. v (reg\<lparr>Defaults := mput (to_lower U family) (to_lower U version) (Defaults reg)\<rparr>))"
proof -
  let ?f = "to_lower U family" and ?v = "to_lower U version" and ?cs = "split_after_byte data lf"
  from assms(3) obtain reg info st upd where reg: "ParseTOML U data = Inr reg"
    and info: "DefaultInfo U reg ?f = Some info" "?v \<in> set (diVersions info)"
    and f: "fold_result (set_line U ?f ?v (newline_of data)) (enumerate 0 ?cs) \<lparr>sv_in = False, sv_replaced = False, sv_out = []\<rparr> = Inr st"
    and out: "sv_replaced st" "ParseTOML U (sv_out st) = Inr upd" "out = sv_out st"
      "check_all (check_validator upd) (enumerate 0 validators) = Inr ()"
    by (auto simp: set_default_def Let_def rbind_Inr_iff lf_def split: option.splits if_splits)
  note a = available_version [OF parse_toml_wf [OF reg] info, unfolded to_lower_idem [OF assms(2)]]
  have nl: "newline_of data = [lf] \<or> newline_of data = [cr, lf]" by (simp add: newline_of_def lf_def cr_def)
  from reg obtain s where s: "parse_lines U ?cs parse_start = Inr s" "ps_reg s = reg"
    by (auto simp: parse_toml_iff parse_text_split)
  have "mirrors ?f ?v False parse_start parse_start" using parse_start_inv by (simp add: mirrors_def updated_def)
  then have m: "mirrors ?f ?v (sv_replaced \<lparr>sv_in = False, sv_replaced = False, sv_out = []\<rparr>) parse_start parse_start" by simp
  from set_loop [OF assms(1) a(3) a(2) a(1) nl split_after_pieces(1) f s(1) m] obtain ks w where
    k: "out = concat ks" "list_all2 (\<lambda>k c. k = c \<or> lf_line k) ks ?cs" "parse_lines U ks parse_start = Inr w"
      "mirrors ?f ?v (sv_replaced st) s w" using out(3) by auto
  have "parse_text U out parse_start = Inr w"
    using k(1,3) parse_text_concat [OF pieces_replaced [OF k(2) split_after_pieces(1)]] by simp
  then have "upd = ps_reg w" using out(2,3) by (simp add: parse_toml_iff)
  also have "\<dots> = reg\<lparr>Defaults := mput ?f ?v (Defaults reg)\<rparr>" using k(4) s(2) out(1) by (simp add: mirrors_def updated_def)
  finally have upd: "upd = reg\<lparr>Defaults := mput ?f ?v (Defaults reg)\<rparr>" .
  have "v upd" if "v \<in> set validators" for v
  proof -
    from that obtain i where "i < length validators" "v = validators ! i" by (auto simp: in_set_conv_nth)
    then have "(i, v) \<in> set (enumerate 0 validators)" by (simp add: in_set_enumerate_eq)
    with out(4) show ?thesis by (auto simp: check_all_ok_iff check_validator_def split: if_splits)
  qed
  with upd reg out(2,3) show ?thesis by blast
qed

end
