(* ===== verification/Registry_Update_Facts.thy ===== *)
theory Registry_Update_Facts
  imports Set_Default_Facts Policy_Auth_Facts
begin

text \<open>
  Facts about the other operations on the registry file: a load returns what was authenticated
  (\<open>load_path_spec\<close>), appending built-in sections only adds (\<open>append_missing_spec\<close>), an upgrade
  from schema 1 renames only stock profiles, and shims are installed for valid names only.
\<close>

section \<open>Loading\<close>

lemma load_data_iff:
  "load_data U auth data d = Inr (reg, d') \<longleftrightarrow> auth (Some data) = Inr () \<and> ParseTOML U data = Inr reg \<and> d' = d"
  by (auto simp: load_data_def rbind_Inr_iff)

lemma load_path_spec:
  assumes "loadPath U pipx recoverBackup rename_ok auth d = Inr (reg, d')"
  shows "(\<exists>data. auth (Some data) = Inr () \<and> ParseTOML U data = Inr reg
        \<and> (dkPrimary d = Some data \<or> dkPrimary d = None \<and> dkBackup d = Some data \<and> auth None = Inr ()))
     \<or> (dkPrimary d = None \<and> dkBackup d = None \<and> auth None = Inr () \<and> Default U pipx = Some reg)"
    "\<not> recoverBackup \<Longrightarrow> d' = d"
  using assms
  by (auto simp: loadPath_def load_data_iff load_default_def RecoverFromBackup_def rbind_Inr_iff
      split: option.splits if_splits)

section \<open>Texts put together\<close>

lemma parse_text_Nil [simp]: "parse_text U [] st = Inr st"
  by (simp add: parse_text_def raw_lines_def)

lemma parse_text_cons_line:
  "lf \<notin> set l \<Longrightarrow> parse_text U (l @ lf # t) st = rbind (parse_logical U (logical l) st) (parse_text U t)"
  by (simp add: parse_text_def raw_lines_line)

lemma parse_text_append:
  "x = [] \<or> last x = lf \<Longrightarrow> parse_text U (x @ y) st = rbind (parse_text U x st) (parse_text U y)"
proof (induction x arbitrary: st rule: length_induct)
  case (1 x)
  show ?case
  proof (cases x rule: text_cases)
    case last
    then show ?thesis using 1(2) by (cases x rule: rev_cases) auto
  next
    case (line l t)
    then have t: "t = [] \<or> last t = lf" "length t < length x" using 1(2) by (auto split: if_splits)
    have "parse_text U (t @ y) s = rbind (parse_text U t s) (parse_text U y)" for s
      using 1(1) t by (cases "t = []") auto
    then show ?thesis using line(2)
      by (cases "parse_logical U (logical l) st") (simp_all add: line(1) parse_text_cons_line)
  qed
qed

lemma parse_text_end: "parse_text U (x @ [lf]) st = parse_text U x st \<or> (x = [] \<or> last x = lf)"
proof (induction x arbitrary: st rule: length_induct)
  case (1 x)
  show ?case
  proof (cases x rule: text_cases)
    case last
    then show ?thesis using parse_text_cons_line [OF last, of U "[]" st] parse_text_last [OF last, of U st]
      by (cases "parse_logical U (logical x) st") simp_all
  next
    case (line l t)
    then have "length t < length x" by simp
    with 1 have t: "parse_text U (t @ [lf]) s = parse_text U t s \<or> (t = [] \<or> last t = lf)" for s by blast
    show ?thesis
    proof (cases "t = [] \<or> last t = lf")
      case True
      then show ?thesis using line by auto
    next
      case False
      with t have "parse_text U (t @ [lf]) = parse_text U t" by blast
      then show ?thesis using line(2) by (simp add: line(1) parse_text_cons_line)
    qed
  qed
qed

section \<open>Lines after a header only add\<close>

definition extends :: "registry \<Rightarrow> registry \<Rightarrow> bool" where
  "extends reg reg' \<longleftrightarrow> map_of (Tools reg) \<subseteq>\<^sub>m map_of (Tools reg') \<and> map_of (Defaults reg) \<subseteq>\<^sub>m map_of (Defaults reg')
     \<and> SchemaVersion reg' = SchemaVersion reg"

text \<open>The parser is inside a section that the old registry does not have.\<close>

definition in_new :: "registry \<Rightarrow> parse_state \<Rightarrow> bool" where
  "in_new reg st \<longleftrightarrow> extends reg (ps_reg st) \<and> (ps_tool st \<noteq> [] \<or> ps_default st \<noteq> [])
     \<and> (ps_tool st \<noteq> [] \<longrightarrow> \<not> mhas (Tools reg) (ps_tool st)) \<and> (ps_default st \<noteq> [] \<longrightarrow> \<not> mhas (Defaults reg) (ps_default st))"

lemma map_le_mput: "m \<subseteq>\<^sub>m m' \<Longrightarrow> m k = None \<Longrightarrow> m \<subseteq>\<^sub>m m'(k \<mapsto> v)"
  by (auto simp: map_le_def dom_def)

lemma map_le_absent: "map_of m \<subseteq>\<^sub>m map_of m' \<Longrightarrow> \<not> mhas m' k \<Longrightarrow> map_of m k = None"
  by (force simp: map_le_def mhas_iff_map_of dom_def)

lemma header_in_new:
  assumes "parse_header U sec st = Inr st'" "extends reg (ps_reg st)"
  shows "in_new reg st'"
proof -
  have ne: "ValidToolName n \<Longrightarrow> n \<noteq> []" for n by (auto simp: ValidToolName_def)
  show ?thesis
  proof (cases "has_prefix sec tools_header \<and> length tools_header < length sec")
    case True
    with assms(1) obtain t n where n: "ValidToolName n" "\<not> mhas (Tools (ps_reg st)) n"
      and st': "st' = st\<lparr>ps_reg := (ps_reg st)\<lparr>Tools := mput n t (Tools (ps_reg st))\<rparr>, ps_tool := n, ps_default := []\<rparr>"
      by (auto simp: parse_header_def Let_def split: if_splits)
    have "map_of (Tools reg) n = None" using map_le_absent n(2) assms(2) by (auto simp: extends_def)
    then show ?thesis using assms(2) n ne by (simp add: in_new_def extends_def st' map_le_mput mhas_iff_map_of)
  next
    case False
    with assms(1) obtain n where n: "ValidToolName n" "\<not> mhas (Defaults (ps_reg st)) n"
      and st': "st' = st\<lparr>ps_reg := (ps_reg st)\<lparr>Defaults := mput n [] (Defaults (ps_reg st))\<rparr>, ps_tool := [], ps_default := n\<rparr>"
      unfolding parse_header_def Let_def if_not_P [OF False] by (auto split: if_splits)
    have "map_of (Defaults reg) n = None" using map_le_absent n(2) assms(2) by (auto simp: extends_def)
    then show ?thesis using assms(2) n ne by (simp add: in_new_def extends_def st' map_le_mput mhas_iff_map_of)
  qed
qed

lemma logical_in_new:
  assumes "parse_logical U l st = Inr st'" "in_new reg st"
  shows "in_new reg st'"
proof (cases "l = [] \<or> header_of l \<noteq> Inr None")
  case True
  then show ?thesis using assms header_in_new
    by (auto simp: parse_logical_def in_new_def split: if_splits sum.splits option.splits)
next
  case False
  have i: "extends reg (ps_reg st)" "ps_tool st \<noteq> [] \<or> ps_default st \<noteq> []" "ps_tool st \<noteq> [] \<Longrightarrow> map_of (Tools reg) (ps_tool st) = None"
    "ps_default st \<noteq> [] \<Longrightarrow> map_of (Defaults reg) (ps_default st) = None"
    using assms(2) by (auto simp: in_new_def mhas_iff_map_of)
  then obtain key v where kv: "split_kv l = Some (key, v)"
    using assms(1) False by (auto simp: parse_logical_def split: option.splits)
  show ?thesis
  proof (cases "ps_default st = []")
    case True
    with i kv False assms(1) obtain t where "st' = put_tool t st" by (auto simp: parse_logical_def rbind_Inr_iff)
    then show ?thesis using assms(2) i True by (simp add: in_new_def extends_def put_tool_def map_le_mput)
  next
    case dflt: False
    with i kv False assms(1) obtain x where
      "st' = st\<lparr>ps_reg := (ps_reg st)\<lparr>Defaults := mput (ps_default st) x (Defaults (ps_reg st))\<rparr>\<rparr>"
      by (auto simp: parse_logical_def parse_default_key_def Let_def split: sum.splits if_splits)
    then show ?thesis using assms(2) i dflt by (simp add: in_new_def extends_def map_le_mput)
  qed
qed

lemma lines_in_new: "parse_lines U ls st = Inr st' \<Longrightarrow> in_new reg st \<Longrightarrow> in_new reg st'"
  by (induction ls arbitrary: st) (auto simp: rbind_Inr_iff dest: logical_in_new)

lemma text_in_new: "parse_text U s st = Inr st' \<Longrightarrow> in_new reg st \<Longrightarrow> in_new reg st'"
  unfolding parse_text_def by (rule lines_in_new)

lemma extends_refl: "extends reg reg"
  by (simp add: extends_def)

section \<open>Section texts\<close>

text \<open>A section text is a newline, the header line of its section, and the rest.\<close>

definition section_text :: "string \<Rightarrow> string \<Rightarrow> string \<Rightarrow> bool" where
  "section_text pre name text \<longleftrightarrow> name \<noteq> [] \<and> (\<exists>h rest. text = lf # h @ lf # rest \<and> lf \<notin> set h
     \<and> ParseSectionHeader h = Inr (Some (pre @ name)) \<and> (rest = [] \<or> last rest = lf))"

definition sections_inv :: "string \<Rightarrow> section_state \<Rightarrow> bool" where
  "sections_inv pre st \<longleftrightarrow> (\<forall>(name, text) \<in> set (ss_done st). section_text pre name text)
     \<and> (ss_current st \<noteq> [] \<longrightarrow> section_text pre (ss_current st) (lf # ss_text st))"

lemma set_mput: "set (mput k v m) \<subseteq> insert (k, v) (set m)"
  by (induction m) (auto simp: mput_def)

lemma flush_inv: "sections_inv pre st \<Longrightarrow> \<forall>(name, text) \<in> set (ss_done (flush_section st)). section_text pre name text"
  using set_mput [of "ss_current st" "CHR 0x0A # ss_text st" "ss_done st"]
  by (auto simp: sections_inv_def flush_section_def lf_def)

lemma section_line_inv:
  assumes "section_line pre (n, line) st = Inr st'" "sections_inv pre st" "lf \<notin> set line"
  shows "sections_inv pre st'"
proof -
  from assms(1) obtain h where h: "ParseSectionHeader line = Inr h" by (auto simp: section_line_def rbind_Inr_iff Let_def)
  show ?thesis
  proof (cases h)
    case None
    show ?thesis
    proof (cases "ss_current st = []")
      case True
      then show ?thesis using assms h None by (simp add: section_line_def Let_def)
    next
      case False
      then have st': "st' = st\<lparr>ss_text := ss_text st @ line @ [lf]\<rparr>"
        using assms(1) h None by (simp add: section_line_def Let_def lf_def)
      from assms(2) False obtain hd rest where t: "ss_text st = hd @ lf # rest" "lf \<notin> set hd"
        "ParseSectionHeader hd = Inr (Some (pre @ ss_current st))"
        by (auto simp: sections_inv_def section_text_def)
      have "section_text pre (ss_current st) (lf # ss_text st @ line @ [lf])"
        unfolding section_text_def using False t by (intro conjI exI [of _ hd] exI [of _ "rest @ line @ [lf]"]) auto
      then show ?thesis using assms(2) by (simp add: sections_inv_def st')
    qed
  next
    case (Some sec)
    define st1 where "st1 = (flush_section st)\<lparr>ss_current := (if has_prefix sec pre then trim_prefix sec pre else [])\<rparr>"
    have st': "st' = (if ss_current st1 \<noteq> [] then st1\<lparr>ss_text := ss_text st1 @ line @ [lf]\<rparr> else st1)"
    proof -
      have "section_line pre (n, line) st = Inr (if ss_current st1 \<noteq> [] then st1\<lparr>ss_text := ss_text st1 @ line @ [lf]\<rparr> else st1)"
        by (simp add: section_line_def h Some Let_def st1_def lf_def)
      with assms(1) show ?thesis by simp
    qed
    have dn: "ss_done st' = ss_done (flush_section st)" by (simp add: st' st1_def)
    show ?thesis
    proof (cases "ss_current st1 = []")
      case True
      then show ?thesis using flush_inv [OF assms(2)] dn by (simp add: sections_inv_def st')
    next
      case False
      then have sec: "sec = pre @ ss_current st1"
        by (auto simp: st1_def trim_prefix_def has_prefix_iff split: if_splits)
      have "section_text pre (ss_current st1) (lf # line @ [lf])"
        unfolding section_text_def using False assms(3) h Some sec by (intro conjI exI [of _ line] exI [of _ "[]"]) auto
      moreover have "ss_text st1 = []" by (simp add: st1_def flush_section_def)
      ultimately show ?thesis using flush_inv [OF assms(2)] dn False by (simp add: sections_inv_def st')
    qed
  qed
qed

lemma sections_inv_fold:
  assumes "fold_result (section_line pre) (enumerate n ls) st = Inr st'" "\<forall>l \<in> set ls. lf \<notin> set l" "sections_inv pre st"
  shows "sections_inv pre st'"
  using assms
proof (induction ls arbitrary: n st)
  case (Cons l ls)
  then obtain s1 where "section_line pre (n, l) st = Inr s1" "fold_result (section_line pre) (enumerate (Suc n) ls) s1 = Inr st'"
    by (auto simp: rbind_Inr_iff)
  with Cons section_line_inv show ?case by (metis list.set_intros(1,2))
qed simp

lemma sections_texts:
  assumes "sectionsFromTOML src pre = Inr m" "map_of m name = Some text"
  shows "section_text pre name text"
proof -
  from assms(1) obtain st where st: "fold_result (section_line pre) (enumerate 1 (split_byte src CHR 0x0A))
       \<lparr>ss_current = [], ss_text = [], ss_done = []\<rparr> = Inr st" and m: "m = ss_done (flush_section st)"
    by (auto simp: sectionsFromTOML_def rbind_Inr_iff)
  have "sections_inv pre \<lparr>ss_current = [], ss_text = [], ss_done = []\<rparr>" by (simp add: sections_inv_def)
  with sections_inv_fold [OF st] split_byte_free have "sections_inv pre st" by (auto simp: lf_def)
  from flush_inv [OF this] assms(2) m show ?thesis using map_of_SomeD by fastforce
qed

section \<open>Appending sections\<close>

text \<open>Whether a registry has the section a header names.\<close>

definition has_section :: "unicode \<Rightarrow> string \<Rightarrow> string \<Rightarrow> registry \<Rightarrow> bool" where
  "has_section U pre name reg \<longleftrightarrow>
     (if pre = tools_header then mhas (Tools reg) (section_name U pre (pre @ name))
      else mhas (Defaults reg) (section_name U pre (pre @ name)))"

lemma extends_has: "extends reg reg' \<Longrightarrow> has_section U pre name reg \<Longrightarrow> has_section U pre name reg'"
  by (auto simp: extends_def has_section_def mhas_iff_map_of map_le_def dom_def)

lemma logical_keeps_sections:
  assumes "parse_logical U l st = Inr st'" "has_section U pre name (ps_reg st)"
  shows "has_section U pre name (ps_reg st')"
  using assms
  by (auto simp: parse_logical_def parse_header_def parse_top_key_def parse_default_key_def put_tool_def has_section_def
      Let_def rbind_Inr_iff split: if_split_asm option.splits sum.splits)

lemma text_keeps_sections:
  assumes "parse_text U s st = Inr st'" "has_section U pre name (ps_reg st)"
  shows "has_section U pre name (ps_reg st')"
proof -
  have "parse_lines U ls st = Inr st' \<Longrightarrow> has_section U pre name (ps_reg st) \<Longrightarrow> has_section U pre name (ps_reg st')" for ls st
    by (induction ls arbitrary: st) (auto simp: rbind_Inr_iff dest: logical_keeps_sections)
  then show ?thesis using assms by (auto simp: parse_text_def)
qed

lemma header_adds:
  assumes "parse_header U (pre @ name) st = Inr st'" "pre = tools_header \<or> pre = defaults_header" "name \<noteq> []"
  shows "has_section U pre name (ps_reg st')"
proof -
  have "\<not> has_prefix (defaults_header @ name) tools_header" by (simp add: defaults_header_def tools_header_def)
  moreover have "has_prefix (pre @ name) pre" by (simp add: has_prefix_def)
  ultimately show ?thesis using assms
    by (auto simp: parse_header_def Let_def has_section_def defaults_header_def tools_header_def split: if_splits)
qed

lemma parse_text_section:
  assumes "section_text pre name text" "parse_text U (text @ t) st = Inr st'" "extends reg (ps_reg st)"
    and "pre = tools_header \<or> pre = defaults_header"
  shows "\<exists>st2. parse_text U t st2 = Inr st' \<and> in_new reg st2 \<and> has_section U pre name (ps_reg st2)"
proof -
  from assms(1) obtain h rest where tx: "text = [] @ lf # h @ lf # rest" "lf \<notin> set h"
    "ParseSectionHeader h = Inr (Some (pre @ name))" "rest = [] \<or> last rest = lf" "name \<noteq> []"
    by (auto simp: section_text_def)
  have hd: "header_of (logical h) = Inr (Some (pre @ name))" using tx(3) by (simp add: parse_section_header)
  then have "logical h \<noteq> []" by (auto simp: header_of_def)
  with hd have ph: "parse_logical U (logical h) s = parse_header U (pre @ name) s" for s by (simp add: parse_logical_def)
  have lb: "logical [] = []" by (simp add: logical_def StripComment_def)
  have "text = [] \<or> last text = lf" using tx(1,4) by auto
  note split = parse_text_append [OF this, of U t st]
  from assms(2) obtain st2 where st2: "parse_text U text st = Inr st2" "parse_text U t st2 = Inr st'"
    unfolding split by (auto simp: rbind_Inr_iff)
  have "parse_text U text st = rbind (parse_header U (pre @ name) st) (parse_text U rest)"
    unfolding tx(1) using parse_text_cons_line [of "[]"] parse_text_cons_line [OF tx(2)] by (simp add: lb ph)
  with st2(1) obtain st1 where st1: "parse_header U (pre @ name) st = Inr st1" "parse_text U rest st1 = Inr st2"
    by (auto simp: rbind_Inr_iff)
  have "in_new reg st2" by (rule text_in_new [OF st1(2) header_in_new [OF st1(1) assms(3)]])
  moreover have "has_section U pre name (ps_reg st2)"
    by (rule text_keeps_sections [OF st1(2) header_adds [OF st1(1) assms(4) tx(5)]])
  ultimately show ?thesis using st2(2) by blast
qed

lemma sections_appended:
  assumes "\<forall>nt \<in> set nts. section_text (fst nt) (fst (snd nt)) (snd (snd nt)) \<and> (fst nt = tools_header \<or> fst nt = defaults_header)"
    and "parse_text U (concat (map (\<lambda>nt. snd (snd nt)) nts)) st = Inr st'" "extends reg (ps_reg st)"
  shows "extends reg (ps_reg st') \<and> (\<forall>nt \<in> set nts. has_section U (fst nt) (fst (snd nt)) (ps_reg st'))"
  using assms
proof (induction nts arbitrary: st reg)
  case (Cons nt nts)
  obtain pre name tx where nt: "nt = (pre, name, tx)" by (cases nt) auto
  have s: "section_text pre name tx" and pre: "pre = tools_header \<or> pre = defaults_header" using Cons.prems(1) nt by auto
  have all: "\<forall>nt \<in> set nts. section_text (fst nt) (fst (snd nt)) (snd (snd nt)) \<and> (fst nt = tools_header \<or> fst nt = defaults_header)"
    using Cons.prems(1) by simp
  have p: "parse_text U (tx @ concat (map (\<lambda>nt. snd (snd nt)) nts)) st = Inr st'" using Cons.prems(2) nt by simp
  from parse_text_section [OF s p Cons.prems(3) pre] obtain st2 where
    st: "parse_text U (concat (map (\<lambda>nt. snd (snd nt)) nts)) st2 = Inr st'" "in_new reg st2" "has_section U pre name (ps_reg st2)"
    by blast
  have "extends reg (ps_reg st2)" using st(2) by (simp add: in_new_def)
  from Cons.IH [OF all st(1) this] have e: "extends reg (ps_reg st')"
    "\<forall>nt \<in> set nts. has_section U (fst nt) (fst (snd nt)) (ps_reg st')" by blast+
  have "has_section U pre name (ps_reg st')" by (rule text_keeps_sections [OF st(1,3)])
  with e nt show ?case by simp
qed (simp add: parse_text_def raw_lines_def)

lemma logical_added_comment: "logical (added_comment version) = []"
proof -
  have "StripComment (CHR ''#'' # s) = []" for s by (simp add: StripComment_def bs_def dq_def)
  then show ?thesis by (simp add: added_comment_def logical_def)
qed

theorem append_missing_spec:
  assumes "sectionsFromTOML src tools_header = Inr defaults" "sectionsFromTOML src defaults_header = Inr families"
    and "lf \<notin> set version" "ParseTOML U data = Inr reg"
    and "append_missing defaults families version data reg = Some out" "ParseTOML U out = Inr reg'"
  shows "extends reg reg' \<and> prefix data out
     \<and> (\<forall>name \<in> set (mkeys defaults). mhas (Tools reg) name \<or> has_section U tools_header name reg')
     \<and> (\<forall>family \<in> set (mkeys families). mhas (Defaults reg) family \<or> has_section U defaults_header family reg')"
proof -
  define names where "names = sort (filter (\<lambda>name. \<not> mhas (Tools reg) name) (mkeys defaults))"
  define fams where "fams = sort (filter (\<lambda>f. \<not> mhas (Defaults reg) f) (mkeys families))"
  define sep where "sep = (if data \<noteq> [] \<and> last data \<noteq> lf then [lf] else [])"
  define nts where "nts = map (\<lambda>f. (defaults_header, f, the (map_of families f))) fams
    @ map (\<lambda>n. (tools_header, n, the (map_of defaults n))) names"
  have in_map: "\<exists>t. map_of m k = Some t" if "k \<in> set (mkeys m)" for m :: "(string, string) gomap" and k
    using that by (metis map_of_eq_None_iff mkeys_def not_Some_eq list.set_map)
  have nk: "set names \<subseteq> set (mkeys defaults)" "set fams \<subseteq> set (mkeys families)" by (auto simp: names_def fams_def)
  have sec: "section_texts m ks = map (\<lambda>k. the (map_of m k)) ks" if "set ks \<subseteq> set (mkeys m)" for m ks
    unfolding section_texts_def using in_map that by (force intro!: map_cong)
  have out: "out = (data @ sep) @ [] @ lf # added_comment version @ lf # concat (map (\<lambda>nt. snd (snd nt)) nts)"
    using assms(5) sec [OF nk(1)] sec [OF nk(2)]
    by (auto simp: append_missing_def Let_def nts_def names_def fams_def sep_def lf_def comp_def split: if_splits)
  have wf: "\<forall>nt \<in> set nts. section_text (fst nt) (fst (snd nt)) (snd (snd nt)) \<and> (fst nt = tools_header \<or> fst nt = defaults_header)"
    using sections_texts [OF assms(1)] sections_texts [OF assms(2)] in_map nk by (fastforce simp: nts_def)
  from assms(4,6) obtain s s' where s: "parse_text U data parse_start = Inr s" "ps_reg s = reg"
    and s': "parse_text U out parse_start = Inr s'" "ps_reg s' = reg'" by (auto simp: parse_toml_iff)
  have "data @ sep = [] \<or> last (data @ sep) = lf" by (auto simp: sep_def)
  note split = parse_text_append [OF this]
  have "parse_text U (data @ sep) parse_start = Inr s"
    using parse_text_end [of U data parse_start] s(1) by (auto simp: sep_def split: if_splits)
  moreover have "lf \<notin> set (added_comment version)" using assms(3) by (simp add: added_comment_def lf_def)
  note cm = parse_text_cons_line [OF this]
  have lb: "logical [] = []" by (simp add: logical_def StripComment_def)
  ultimately have "parse_text U (concat (map (\<lambda>nt. snd (snd nt)) nts)) s = Inr s'"
    using s'(1) parse_text_cons_line [of "[]"] cm unfolding out split by (simp add: lb logical_added_comment)
  from sections_appended [OF wf this] extends_refl s(2) s'(2) have
    e: "extends reg reg'" "\<forall>nt \<in> set nts. has_section U (fst nt) (fst (snd nt)) reg'" by auto
  have "mhas (Tools reg) n \<or> has_section U tools_header n reg'" if "n \<in> set (mkeys defaults)" for n
  proof (cases "mhas (Tools reg) n")
    case False
    with that have "(tools_header, n, the (map_of defaults n)) \<in> set nts" by (simp add: nts_def names_def)
    with e(2) show ?thesis by fastforce
  qed simp
  moreover have "mhas (Defaults reg) f \<or> has_section U defaults_header f reg'" if "f \<in> set (mkeys families)" for f
  proof (cases "mhas (Defaults reg) f")
    case False
    with that have "(defaults_header, f, the (map_of families f)) \<in> set nts" by (simp add: nts_def fams_def)
    with e(2) show ?thesis by fastforce
  qed simp
  moreover have "prefix data out" by (simp add: out)
  ultimately show ?thesis using e(1) by blast
qed

section \<open>The upgrade from schema 1\<close>

lemma plan_step:
  assumes "plan_migration reg desired m p = Inr p'" "map_of (Tools reg) (mgOld m) = Some t"
  shows "nameless t = bare (tool_of desired (mgNew m))" "mgOld m \<noteq> mgNew m \<Longrightarrow> \<not> mhas (Tools reg) (mgNew m)"
  using assms by (auto simp: plan_migration_def split: if_splits)

lemma plan_spec:
  assumes "plan_upgrade reg desired = Inr p" "m \<in> set v1NodeMigrations" "map_of (Tools reg) (mgOld m) = Some t"
  shows "nameless t = bare (tool_of desired (mgNew m)) \<and> (mgOld m \<noteq> mgNew m \<longrightarrow> \<not> mhas (Tools reg) (mgNew m))"
proof -
  have "fold_result (plan_migration reg desired) ms p0 = Inr p' \<Longrightarrow> m \<in> set ms \<Longrightarrow>
      nameless t = bare (tool_of desired (mgNew m)) \<and> (mgOld m \<noteq> mgNew m \<longrightarrow> \<not> mhas (Tools reg) (mgNew m))" for ms p0 p'
    by (induction ms arbitrary: p0) (use plan_step assms(3) in \<open>auto simp: rbind_Inr_iff\<close>)
  with assms(1,2) show ?thesis unfolding plan_upgrade_def by blast
qed

lemma fold_result_ok_iff:
  assumes "\<And>x s. (\<exists>s'. f x s = Inr s') \<longleftrightarrow> Q x"
  shows "(\<exists>s'. fold_result f xs s = Inr s') \<longleftrightarrow> list_all Q xs"
proof (induction xs arbitrary: s)
  case (Cons x xs)
  show ?case
  proof (cases "f x s")
    case (Inl e)
    then show ?thesis using assms [of x s] by auto
  next
    case (Inr s1)
    then show ?thesis using assms [of x s] Cons.IH [of s1] by auto
  qed
qed simp

lemma plan_ok:
  "(\<exists>p'. plan_migration reg desired m p = Inr p') \<longleftrightarrow> (case map_of (Tools reg) (mgOld m) of
       None \<Rightarrow> True
     | Some t \<Rightarrow> nameless t = bare (tool_of desired (mgNew m)) \<and> (mgOld m = mgNew m \<or> \<not> mhas (Tools reg) (mgNew m)))"
  by (auto simp: plan_migration_def split: option.splits)

lemma plan_upgrade_iff:
  "(\<exists>p. plan_upgrade reg desired = Inr p) \<longleftrightarrow> list_all (\<lambda>m. case map_of (Tools reg) (mgOld m) of
       None \<Rightarrow> True
     | Some t \<Rightarrow> nameless t = bare (tool_of desired (mgNew m)) \<and> (mgOld m = mgNew m \<or> \<not> mhas (Tools reg) (mgNew m)))
     v1NodeMigrations"
  unfolding plan_upgrade_def by (rule fold_result_ok_iff) (rule plan_ok)

section \<open>Shims\<close>

lemma check_shim_loop:
  "sorted names \<Longrightarrow> (\<forall>n \<in> set names. case prev of None \<Rightarrow> True | Some p \<Rightarrow> p \<le> n) \<Longrightarrow>
     is_ok (fold_result check_shim_name names prev) \<longleftrightarrow>
       (\<forall>n \<in> set names. ValidToolName n \<and> \<not> ReservedToolName n \<and> prev \<noteq> Some n) \<and> distinct names"
proof (induction names arbitrary: prev)
  case (Cons n names)
  have IH: "is_ok (fold_result check_shim_name names (Some n)) \<longleftrightarrow>
      (\<forall>m \<in> set names. ValidToolName m \<and> \<not> ReservedToolName m \<and> Some n \<noteq> Some m) \<and> distinct names"
    using Cons.prems by (intro Cons.IH) auto
  have prev: "prev \<noteq> Some m" if "prev \<noteq> Some n" "m \<in> set names" for m
    using Cons.prems that by (cases prev) auto
  show ?case
  proof (cases "ValidToolName n \<and> \<not> ReservedToolName n \<and> prev \<noteq> Some n")
    case True
    then have "check_shim_name n prev = Inr (Some n)" by (auto simp: check_shim_name_def)
    with True IH prev show ?thesis by auto
  next
    case False
    then have "\<not> is_ok (check_shim_name n prev)" by (auto simp: check_shim_name_def)
    with False show ?thesis by (cases "check_shim_name n prev") auto
  qed
qed simp

lemma shim_names_iff:
  "normalizedShimNames U names = Inr ns \<longleftrightarrow> ns = sort (map (to_lower U) names) \<and> distinct ns
     \<and> (\<forall>n \<in> set ns. ValidToolName n \<and> \<not> ReservedToolName n)"
  using check_shim_loop [of "sort (map (to_lower U) names)" None]
  by (auto simp: normalizedShimNames_def Let_def rbind_Inr_iff is_ok_iff)

lemma install_loop_prefix:
  "install_loop install names = (shims, e) \<Longrightarrow> prefix (map fst shims) names \<and> (e = None \<longrightarrow> map fst shims = names)"
  by (induction names arbitrary: shims) (auto split: if_splits sum.splits prod.splits)

lemma install_shims_spec:
  assumes "installShimNamesAt U names refuse view install = (shims, e)"
  shows "shims = [] \<or> (\<exists>ns. normalizedShimNames U names = Inr ns \<and> prefix (map fst shims) ns
     \<and> (refuse \<longrightarrow> (\<forall>n \<in> set ns. verifyExistingManagedShim n (view n) = Inr ())))"
    "e = None \<Longrightarrow> normalizedShimNames U names = Inr (map fst shims)"
  using assms install_loop_prefix
  by (fastforce simp: installShimNamesAt_def check_all_ok_iff split: sum.splits if_splits)+

end
