(* ===== verification/Registry_File_Properties.thy ===== *)
theory Registry_File_Properties
  imports Registry_Update_Facts Registry_Properties Policy_Properties
begin

text \<open>
  The properties of the operations on the registry file, each applied to a concrete registry text
  by its witness.
\<close>

lemma ascii_laws: "fold_agrees ascii_unicode" "lower_stable ascii_unicode"
proof -
  have "c < 128" if "tool_name_rune c" for c by (rule tool_name_rune_facts(1) [OF that])
  then show "fold_agrees ascii_unicode" by (fastforce simp: fold_agrees_def ascii_unicode_def)
  show "lower_stable ascii_unicode" by (auto simp: lower_stable_def lower_rune_def ascii_unicode_def valid_rune_def)
qed

definition two_tools :: string where
  "two_tools = unlines
     [''# tools'', ''[tools.jq]'', key_line ''image'' (Quote ascii_unicode ''jq:1''), [],
      ''# Exposed from jq by cb expose'', [], ''[tools.yq]'', key_line ''image'' (Quote ascii_unicode ''yq:1'')]"

definition one_tool :: string where
  "one_tool = unlines [''# tools'', ''[tools.jq]'', key_line ''image'' (Quote ascii_unicode ''jq:1''), []]"

definition disk_with :: "string \<Rightarrow> disk" where
  "disk_with data = \<lparr>dkPrimary = Some data, dkBackup = None, dkTemp = None\<rparr>"

section \<open>Rewriting\<close>

text \<open>\<open>RewriteWithoutTools\<close> removes exactly the named tools: the file it writes parses to the old
  registry without them, with the same defaults and schema version, and consists of lines of the
  old file in their old order.\<close>

theorem rewrite_removes_exactly:
  assumes "RewriteWithoutTools U ok remove d = Inr d'" "dkPrimary d = Some data"
  shows "\<exists>reg out ks. ParseTOML U data = Inr reg \<and> dkPrimary d' = Some out
     \<and> ParseTOML U out = Inr (reg\<lparr>Tools := filter (\<lambda>e. \<not> remove (fst e)) (Tools reg)\<rparr>)
     \<and> out = concat ks \<and> subseq ks (split_after_byte data CHR 0x0A)"
proof -
  from assms obtain out where r: "rewrite_without U remove data = Inr out" and w: "writeFile ok out d = (True, d')"
    by (cases "rewrite_without U remove data"; cases "writeFile ok (projr (rewrite_without U remove data)) d")
      (auto simp: RewriteWithoutTools_def split: if_splits)
  from rewrite_without_spec [OF r] write_primary [OF w] show ?thesis unfolding without_def lf_def by blast
qed

theorem rewrite_removes_exactly_witness:
  "\<exists>reg. ParseTOML ascii_unicode two_tools = Inr reg
     \<and> ParseTOML ascii_unicode one_tool = Inr (reg\<lparr>Tools := filter (\<lambda>e. fst e \<noteq> ''yq'') (Tools reg)\<rparr>)"
proof -
  have "rewrite_without ascii_unicode (\<lambda>n. n = ''yq'') two_tools = Inr one_tool" by code_simp
  then have "RewriteWithoutTools ascii_unicode (\<lambda>x. True) (\<lambda>n. n = ''yq'') (disk_with two_tools) = Inr (disk_with one_tool)"
    by (simp add: RewriteWithoutTools_def disk_with_def write_success)
  from rewrite_removes_exactly [OF this, of two_tools] show ?thesis by (auto simp: disk_with_def)
qed

text \<open>C31: \<open>SetDefaultVersion\<close> changes one default: when it writes a file, the file parses to the old
  registry with the selected version of this family replaced, every tool and every other default
  as it was, and all validators accept this registry.\<close>

theorem set_default_changes_one:
  assumes "fold_agrees U" "lower_stable U" "SetDefaultVersion U ok family version validators d = Inr d'"
    and "dkPrimary d = Some data" "d' \<noteq> d"
  shows "\<exists>reg out reg'. ParseTOML U data = Inr reg \<and> dkPrimary d' = Some out \<and> ParseTOML U out = Inr reg'
     \<and> reg' = reg\<lparr>Defaults := mput (to_lower U family) (to_lower U version) (Defaults reg)\<rparr>
     \<and> (\<forall>validate \<in> set validators. validate reg')"
proof -
  from assms(3-5) obtain out where r: "set_default U family version validators data = Inr (Some out)"
    and w: "writeFile ok out d = (True, d')"
    by (cases "set_default U family version validators data";
        cases "writeFile ok (the (projr (set_default U family version validators data))) d")
      (auto simp: SetDefaultVersion_def split: if_splits option.splits)
  from set_default_spec [OF assms(1,2) r] write_primary [OF w] show ?thesis by blast
qed

definition versions_text :: "string \<Rightarrow> string" where
  "versions_text version = unlines
     [''schema_version = 2'', ''[defaults.node]'', key_line ''version'' (Quote ascii_unicode version) @ '' # chosen'',
      ''[tools.node24]'', key_line ''image'' (Quote ascii_unicode ''node:24''),
      key_line ''default_family'' (Quote ascii_unicode ''node''), key_line ''default_version'' (Quote ascii_unicode ''24''),
      key_line ''default_alias'' (Quote ascii_unicode ''node''),
      ''[tools.node22]'', key_line ''image'' (Quote ascii_unicode ''node:22''),
      key_line ''default_family'' (Quote ascii_unicode ''node''), key_line ''default_version'' (Quote ascii_unicode ''22''),
      key_line ''default_alias'' (Quote ascii_unicode ''node'')]"

theorem set_default_changes_one_witness:
  "\<exists>reg. ParseTOML ascii_unicode (versions_text ''24'') = Inr reg
     \<and> ParseTOML ascii_unicode (versions_text ''22'') = Inr (reg\<lparr>Defaults := mput ''node'' ''22'' (Defaults reg)\<rparr>)"
proof -
  have "set_default ascii_unicode ''Node'' ''22'' [\<lambda>r. True] (versions_text ''24'') = Inr (Some (versions_text ''22''))" by code_simp
  then have "SetDefaultVersion ascii_unicode (\<lambda>x. True) ''Node'' ''22'' [\<lambda>r. True] (disk_with (versions_text ''24'')) =
      Inr (disk_with (versions_text ''22''))"
    by (simp add: SetDefaultVersion_def disk_with_def write_success)
  moreover have "versions_text ''24'' \<noteq> versions_text ''22''" by code_simp
  then have "disk_with (versions_text ''22'') \<noteq> disk_with (versions_text ''24'')" by (simp add: disk_with_def)
  moreover have "to_lower ascii_unicode ''Node'' = ''node''" "to_lower ascii_unicode ''22'' = ''22''" by code_simp+
  ultimately show ?thesis using set_default_changes_one [OF ascii_laws, of "\<lambda>x. True" "''Node''" "''22''" "[\<lambda>r. True]"
      "disk_with (versions_text ''24'')" "disk_with (versions_text ''22'')" "versions_text ''24''"]
    by (auto simp: disk_with_def)
qed

text \<open>Appending the missing built-in sections only adds: the old file is a prefix of the new one,
  every tool and default of the old registry keeps its definition, the schema version stays, and
  every section of the source text is there afterwards.\<close>

theorem append_only_adds:
  assumes "sectionsFromTOML src tools_header = Inr defaults" "sectionsFromTOML src defaults_header = Inr families"
    and "CHR 0x0A \<notin> set version" "ParseTOML U data = Inr reg"
    and "append_missing defaults families version data reg = Some out" "ParseTOML U out = Inr reg'"
  shows "prefix data out \<and> SchemaVersion reg' = SchemaVersion reg
     \<and> map_of (Tools reg) \<subseteq>\<^sub>m map_of (Tools reg') \<and> map_of (Defaults reg) \<subseteq>\<^sub>m map_of (Defaults reg')
     \<and> (\<forall>name \<in> set (mkeys defaults). mhas (Tools reg) name \<or> mhas (Tools reg') (section_name U tools_header (tools_header @ name)))"
proof -
  have "lf \<notin> set version" using assms(3) by (simp add: lf_def)
  from append_missing_spec [OF assms(1,2) this assms(4-6)] show ?thesis
    by (simp add: extends_def has_section_def)
qed

definition built_in_text :: string where
  "built_in_text = unlines [''# built in'', ''[tools.jq]'', key_line ''image'' (Quote ascii_unicode ''jq:2''),
     ''[tools.yq]'', key_line ''image'' (Quote ascii_unicode ''yq:1'')]"

theorem append_only_adds_witness:
  "\<exists>out reg'. append_missing [(''jq'', unlines [[], ''[tools.jq]'', key_line ''image'' (Quote ascii_unicode ''jq:2'')]),
       (''yq'', unlines [[], ''[tools.yq]'', key_line ''image'' (Quote ascii_unicode ''yq:1''), []])] [] ''v1'' one_tool
       \<lparr>SchemaVersion = 1, Tools = [(''jq'', sample_jq)], Defaults = []\<rparr> = Some out
     \<and> ParseTOML ascii_unicode out = Inr reg' \<and> map_of (Tools reg') ''jq'' = Some sample_jq"
proof -
  let ?D = "[(''jq'', unlines [[], ''[tools.jq]'', key_line ''image'' (Quote ascii_unicode ''jq:2'')]),
       (''yq'', unlines [[], ''[tools.yq]'', key_line ''image'' (Quote ascii_unicode ''yq:1''), []])]"
  let ?reg = "\<lparr>SchemaVersion = 1, Tools = [(''jq'', sample_jq)], Defaults = []\<rparr>"
  define out where "out = the (append_missing ?D [] ''v1'' one_tool ?reg)"
  have s: "sectionsFromTOML built_in_text tools_header = Inr ?D" "sectionsFromTOML built_in_text defaults_header = Inr []"
    "ParseTOML ascii_unicode one_tool = Inr ?reg" by code_simp+
  have a: "append_missing ?D [] ''v1'' one_tool ?reg = Some out" unfolding out_def by code_simp
  have "is_ok (ParseTOML ascii_unicode (the (append_missing ?D [] ''v1'' one_tool ?reg)))" by code_simp
  then obtain reg' where p: "ParseTOML ascii_unicode out = Inr reg'" unfolding out_def is_ok_iff by blast
  have "CHR 0x0A \<notin> set ''v1''" by simp
  from append_only_adds [OF s(1,2) this s(3) a p] have "map_of (Tools ?reg) \<subseteq>\<^sub>m map_of (Tools reg')" by blast
  then have "map_of (Tools reg') ''jq'' = Some sample_jq" by (auto simp: map_le_def)
  with a p show ?thesis by blast
qed

text \<open>The upgrade from schema 1 gives a version label only to stock profiles: it can be planned
  exactly if every legacy profile that the registry has equals the built-in profile of its new name
  up to the name and the alias metadata, and no new name is taken.\<close>

theorem upgrade_only_stock:
  "(\<exists>p. plan_upgrade reg desired = Inr p) \<longleftrightarrow> list_all (\<lambda>m. case map_of (Tools reg) (mgOld m) of
       None \<Rightarrow> True
     | Some t \<Rightarrow> nameless t = bare (tool_of desired (mgNew m)) \<and> (mgOld m = mgNew m \<or> \<not> mhas (Tools reg) (mgNew m)))
     v1NodeMigrations"
  by (rule plan_upgrade_iff)

definition tools_only :: "(string, tool) gomap \<Rightarrow> registry" where
  "tools_only tools = \<lparr>SchemaVersion = 1, Tools = tools, Defaults = []\<rparr>"

definition stock_node :: tool where
  "stock_node = sample_jq\<lparr>tName := ''node24'', tDefaultFamily := ''node'', tDefaultVersion := ''24'', tDefaultAlias := ''node''\<rparr>"

definition legacy_node :: tool where
  "legacy_node = sample_jq\<lparr>tName := ''node''\<rparr>"

theorem upgrade_only_stock_witness:
  "(\<exists>p. plan_upgrade (tools_only [(''node'', legacy_node)]) (tools_only [(''node24'', stock_node)]) = Inr p)
   \<and> (\<nexists>p. plan_upgrade (tools_only [(''node'', legacy_node\<lparr>tImage := ''mine:1''\<rparr>)]) (tools_only [(''node24'', stock_node)]) = Inr p)
   \<and> (\<nexists>p. plan_upgrade (tools_only [(''node'', legacy_node), (''node24'', stock_node)]) (tools_only [(''node24'', stock_node)]) = Inr p)"
  unfolding upgrade_only_stock by code_simp

section \<open>Loading\<close>

text \<open>C7: under a policy that requires signatures, a registry is loaded only from the primary file and
  only with a valid signature of a listed, active key that is not revoked over exactly its bytes: a
  missing registry is not replaced by the built-in one nor by a backup.\<close>

theorem signed_load_authentic:
  assumes "pRequireRegistrySignature p"
    and "loadPath U pipx recoverBackup rename_ok (\<lambda>bytes. AuthenticateRegistry P p info raw bytes now) d = Inr (reg, d')"
  shows "\<exists>data envelope parsed key. dkPrimary d = Some data \<and> ParseTOML U data = Inr reg
     \<and> raw = Some envelope \<and> parseRegistrySignatureEnvelope envelope = Inr parsed
     \<and> map_of (pSigningKeys p) (seKeyID parsed) = Some key \<and> seKeyID parsed \<notin> set (pRevoked p) \<and> key_active now key
     \<and> pf_ed25519 P (skPublicKey key) data (seSignature parsed)"
proof -
  have none: "AuthenticateRegistry P p info raw None now \<noteq> Inr ()"
    using authenticated_registry [OF assms(1), of P info raw None now] by auto
  with load_path_spec(1) [OF assms(2)] obtain data where
    a: "AuthenticateRegistry P p info raw (Some data) now = Inr ()" and d: "ParseTOML U data = Inr reg" "dkPrimary d = Some data"
    by blast
  from authenticated_registry [OF assms(1) a] obtain envelope parsed key where
    "raw = Some envelope" "parseRegistrySignatureEnvelope envelope = Inr parsed"
    "map_of (pSigningKeys p) (seKeyID parsed) = Some key" "seKeyID parsed \<notin> set (pRevoked p)" "key_active now key"
    "pf_ed25519 P (skPublicKey key) data (seSignature parsed)" by auto
  with d show ?thesis by blast
qed

theorem signed_load_authentic_witness:
  "\<exists>parsed. parseRegistrySignatureEnvelope sample_envelope = Inr parsed \<and> seKeyID parsed \<notin> set (pRevoked signing_policy)
     \<and> pf_ed25519 test_platform sample_signature one_tool (seSignature parsed)"
proof -
  let ?now = "instant_of (sample_time 2025)"
  let ?i = "\<lparr>fiRegular = True, fiSymlink = False, fiSize = length sample_envelope, fiId = 1\<rparr>"
  have r: "pRequireRegistrySignature signing_policy" by code_simp
  have "AuthenticateRegistry test_platform signing_policy (Got ?i) (Some sample_envelope) (Some one_tool) ?now = Inr ()"
    "ParseTOML ascii_unicode one_tool = Inr \<lparr>SchemaVersion = 1, Tools = [(''jq'', sample_jq)], Defaults = []\<rparr>" by code_simp+
  then have "loadPath ascii_unicode [] True True
      (\<lambda>bytes. AuthenticateRegistry test_platform signing_policy (Got ?i) (Some sample_envelope) bytes ?now) (disk_with one_tool) =
      Inr (\<lparr>SchemaVersion = 1, Tools = [(''jq'', sample_jq)], Defaults = []\<rparr>, disk_with one_tool)"
    by (simp add: loadPath_def disk_with_def load_data_def)
  from signed_load_authentic [OF r this] show ?thesis
    by (auto simp: disk_with_def signing_policy_def split: if_splits)
qed

section \<open>Shims\<close>

text \<open>The names of shims: \<open>normalizedShimNames\<close> accepts exactly the lists whose lowercase names are
  valid, not reserved and distinct, and returns them sorted.\<close>

theorem shim_names_spec:
  "normalizedShimNames U names = Inr ns \<longleftrightarrow> ns = sort (map (to_lower U) names) \<and> distinct ns
     \<and> (\<forall>n \<in> set ns. ValidToolName n \<and> \<not> ReservedToolName n)"
  by (rule shim_names_iff)

end
