(* ===== verification/Go_Path.thy ===== *)
theory Go_Path
  imports Image_Ref
begin

text \<open>
  Package \<open>path\<close> of Go on absolute slash-separated paths: \<open>path.Dir\<close> next to \<open>path.Clean\<close> and
  \<open>path.Join\<close> of \<open>Go_Strings\<close>, the test of a canonical absolute path that four packages of the
  program share, and the form of such a path: a slash followed by proper components.
\<close>

definition path_dir :: "string \<Rightarrow> string" where
  "path_dir s = path_clean (case last_index_byte s CHR ''/'' of None \<Rightarrow> [] | Some i \<Rightarrow> take (Suc i) s)"

definition canonical_path :: "string \<Rightarrow> bool" where
  "canonical_path s = (\<not> (s = [] \<or> \<not> valid_utf8 s \<or> \<not> path_is_abs s \<or> path_clean s \<noteq> s \<or> s = ''/''
       \<or> contains_byte s CHR 0x5C)
     \<and> list_all (\<lambda>r. \<not> is_control_rune r) (rune_values s))"

section \<open>Components\<close>

definition proper :: "string \<Rightarrow> bool" where
  "proper c = (c \<noteq> [] \<and> c \<noteq> ''.'' \<and> c \<noteq> ''..'' \<and> CHR ''/'' \<notin> set c)"

definition abs_path :: "string list \<Rightarrow> string" where
  "abs_path cs = CHR ''/'' # join ''/'' cs"

lemma abs_path_is_abs [simp]: "path_is_abs (abs_path cs)"
  by (simp add: abs_path_def path_is_abs_def)

lemma proper_free: "list_all proper cs \<Longrightarrow> \<forall>c \<in> set cs. CHR ''/'' \<notin> set c"
  by (auto simp: list_all_iff proper_def)

lemma split_abs_path:
  assumes "list_all proper cs" "cs \<noteq> []"
  shows "split_byte (abs_path cs) CHR ''/'' = [] # cs"
  using split_join [OF assms(2) proper_free [OF assms(1)]] by (simp add: abs_path_def)

lemma clean_proper: "list_all proper cs \<Longrightarrow> fold (clean_step rooted) cs st = rev cs @ st"
  by (induction cs arbitrary: st) (auto simp: clean_step_def proper_def)

lemma clean_rooted:
  "list_all proper st \<Longrightarrow> \<forall>c \<in> set cs. CHR ''/'' \<notin> set c \<Longrightarrow> list_all proper (fold (clean_step True) cs st)"
proof (induction cs arbitrary: st)
  case (Cons c cs)
  have "proper c" if "c \<noteq> []" "c \<noteq> ''.''" "c \<noteq> ''..''" using Cons.prems(2) that by (simp add: proper_def)
  moreover have "list_all proper (tl st)" using Cons.prems(1) by (cases st) simp_all
  ultimately have "list_all proper (clean_step True c st)" using Cons.prems(1) by (simp add: clean_step_def)
  with Cons show ?case by simp
qed simp

lemma clean_abs_path:
  assumes "list_all proper cs"
  shows "path_clean (abs_path cs) = abs_path cs"
proof (cases "cs = []")
  case True
  then show ?thesis by (simp add: abs_path_def path_clean_def path_is_abs_def clean_step_def)
next
  case False
  have "fold (clean_step True) (split_byte (abs_path cs) CHR ''/'') [] = rev cs"
    using clean_proper [OF assms, of True "[]"] by (simp add: split_abs_path [OF assms False] clean_step_def)
  then show ?thesis by (simp add: path_clean_def Let_def) (simp add: abs_path_def)
qed

lemma clean_form:
  assumes "path_is_abs s"
  shows "\<exists>cs. path_clean s = abs_path cs \<and> list_all proper cs"
proof -
  let ?st = "fold (clean_step True) (split_byte s CHR ''/'') []"
  have "s \<noteq> []" using assms by (auto simp: path_is_abs_def)
  with assms have "path_clean s = abs_path (rev ?st)" by (simp add: path_clean_def abs_path_def Let_def)
  moreover have "list_all proper (rev ?st)" using clean_rooted [of "[]"] split_byte_free by (auto simp: list_all_iff)
  ultimately show ?thesis by blast
qed

lemma clean_idem: "path_is_abs s \<Longrightarrow> path_clean (path_clean s) = path_clean s"
  using clean_form clean_abs_path by metis

lemma clean_is_abs: "path_is_abs s \<Longrightarrow> path_is_abs (path_clean s)"
  using clean_form by fastforce

lemma canonical_form:
  assumes "canonical_path s"
  obtains cs where "s = abs_path cs" "list_all proper cs" "cs \<noteq> []"
proof -
  from assms have s: "path_is_abs s" "path_clean s = s" "s \<noteq> ''/''" by (auto simp: canonical_path_def)
  with clean_form obtain cs where cs: "s = abs_path cs" "list_all proper cs" by metis
  moreover from cs(1) s(3) have "cs \<noteq> []" by (auto simp: abs_path_def)
  ultimately show thesis by (rule that)
qed

section \<open>Boundaries\<close>

lemma join_nonempty: "list_all proper ds \<Longrightarrow> ds \<noteq> [] \<Longrightarrow> join ''/'' ds \<noteq> []"
  by (cases "(''/'', ds)" rule: join.cases) (auto simp: proper_def)

lemma abs_path_inj:
  assumes "list_all proper cs" "list_all proper ds" "abs_path cs = abs_path ds"
  shows "cs = ds"
proof (cases "cs = [] \<or> ds = []")
  case True
  have j: "join ''/'' cs = join ''/'' ds" using assms(3) by (simp add: abs_path_def)
  from True show ?thesis
  proof
    assume c: "cs = []"
    with j have "join ''/'' ds = []" by simp
    with join_nonempty [OF assms(2)] c show ?thesis by blast
  next
    assume d: "ds = []"
    with j have "join ''/'' cs = []" by simp
    with join_nonempty [OF assms(1)] d show ?thesis by blast
  qed
next
  case False
  then have "split_byte (abs_path cs) CHR ''/'' = [] # cs" "split_byte (abs_path ds) CHR ''/'' = [] # ds"
    using split_abs_path assms(1,2) by blast+
  then show ?thesis unfolding assms(3) by simp
qed

lemma inside_abs_path:
  assumes "list_all proper cs" "list_all proper ds" "cs \<noteq> []" "ds \<noteq> []"
  shows "inside (abs_path ds) (abs_path cs) \<longleftrightarrow> prefix cs ds"
  using assms by (auto simp: inside_iff_components split_abs_path prefix_def)

lemma join_append: "xs \<noteq> [] \<Longrightarrow> ys \<noteq> [] \<Longrightarrow> join sep (xs @ ys) = join sep xs @ sep @ join sep ys"
proof (induction xs rule: induct_list012)
  case (2 x)
  then show ?case by (cases ys) auto
qed simp_all

lemma abs_path_append: "cs \<noteq> [] \<Longrightarrow> ds \<noteq> [] \<Longrightarrow> abs_path (cs @ ds) = abs_path cs @ ''/'' @ join ''/'' ds"
  by (simp add: abs_path_def join_append)

lemma path_join_below:
  assumes "list_all proper cs" "list_all proper ds" "cs \<noteq> []" "ds \<noteq> []"
  shows "path_join [abs_path cs, join ''/'' ds] = abs_path (cs @ ds)"
proof -
  have "abs_path cs \<noteq> []" by (simp add: abs_path_def)
  moreover have "path_clean (abs_path (cs @ ds)) = abs_path (cs @ ds)"
    using assms by (intro clean_abs_path) auto
  ultimately show ?thesis using join_nonempty [OF assms(2,4)] assms(3,4)
    by (simp add: path_join_def abs_path_append)
qed

lemma last_index_free: "c \<notin> set t \<Longrightarrow> last_index_byte (s @ c # t) c = Some (length s)"
proof -
  assume "c \<notin> set t"
  then have "last_index_byte t c = None" by (induction t) auto
  then show ?thesis by (induction s) auto
qed

lemma clean_trailing:
  assumes "list_all proper cs" "cs \<noteq> []"
  shows "path_clean (abs_path cs @ ''/'') = abs_path cs"
proof -
  have "split_byte (abs_path cs @ ''/'') CHR ''/'' = ([] # cs) @ [[]]"
    using split_append_boundary [of "abs_path cs" "CHR ''/''" "[]"] by (simp add: split_abs_path [OF assms])
  then have "fold (clean_step True) (split_byte (abs_path cs @ ''/'') CHR ''/'') [] = rev cs"
    using clean_proper [OF assms(1), of True "[]"] by (simp add: clean_step_def)
  then show ?thesis by (simp add: path_clean_def path_is_abs_def abs_path_def Let_def)
qed

lemma path_dir_abs:
  assumes "list_all proper (cs @ [c])"
  shows "path_dir (abs_path (cs @ [c])) = abs_path cs"
proof -
  have c: "CHR ''/'' \<notin> set c" and cs: "list_all proper cs" using assms by (auto simp: proper_def)
  show ?thesis
  proof (cases "cs = []")
    case True
    then show ?thesis using last_index_free [OF c, of "[]"] clean_abs_path [of "[]"]
      by (simp add: path_dir_def abs_path_def)
  next
    case False
    have e: "abs_path (cs @ [c]) = abs_path cs @ CHR ''/'' # c" using abs_path_append [OF False, of "[c]"] by simp
    show ?thesis unfolding path_dir_def e last_index_free [OF c]
      using clean_trailing [OF cs False] by simp
  qed
qed

end
