(* ===== verification/Wsl_Host.thy ===== *)
theory Wsl_Host
  imports Go_Path Go_Sha256 Registry_Syntax
begin

text \<open>
  The host classification (\<open>internal/hostenv/hostenv.go\<close>) and the fixed layout of a native WSL2
  distribution (\<open>internal/hostenv/wsl_layout.go\<close>): the runtime kind from the kernel release and
  the environment, the gate of the frontend, and the paths and the state namespace of a user.
\<close>

section \<open>Runtime kinds\<close>

datatype host_kind =
    WindowsNative
  | WindowsWSLInterop
  | WSL2Native
  | WSL1Native
  | WSLUnrecognized
  | LinuxNative
  | Unsupported

record host_runtime =
  rtKind :: host_kind
  rtGOOS :: string
  rtGOARCH :: string
  rtKernelRelease :: string
  rtDistro :: string
  rtMarkers :: "string list"

definition classify_linux :: "string \<Rightarrow> host_kind" where
  "classify_linux release =
     (if contains release ''microsoft'' \<and> contains release ''wsl2'' then WSL2Native
      else if contains release ''microsoft-standard'' then WSLUnrecognized
      else if contains release ''microsoft'' then WSL1Native
      else LinuxNative)"

definition classify_host :: "unicode \<Rightarrow> string \<Rightarrow> string \<Rightarrow> string \<Rightarrow> string \<Rightarrow> host_runtime" where
  "classify_host U goos0 kernelRelease0 distro interop =
     (let goos = trim_space goos0; kernelRelease = trim_space kernelRelease0;
          markers = (if interop \<noteq> [] then [''WSL_INTEROP''] else [])
            @ (if distro \<noteq> [] then [''WSL_DISTRO_NAME''] else []);
          info = \<lparr>rtKind = Unsupported, rtGOOS = goos, rtGOARCH = [], rtKernelRelease = kernelRelease,
            rtDistro = distro, rtMarkers = []\<rparr>
      in if goos = ''windows''
         then info\<lparr>rtMarkers := markers, rtKind := if markers \<noteq> [] then WindowsWSLInterop else WindowsNative\<rparr>
         else if goos = ''linux'' then info\<lparr>rtKind := classify_linux (to_lower U kernelRelease)\<rparr>
         else info)"

datatype host_error =
    Host_Probe
  | Host_Interop "string list"
  | Host_No_Distro
  | Host_Distro_Text
  | Host_Distro_Control
  | Host_Docker_Desktop
  | Host_Architecture string
  | Host_WSL1
  | Host_Unrecognized string
  | Host_Linux
  | Host_Unsupported string
  | Host_Not_WSL2 host_kind
  | Home_Text
  | Home_Control
  | Home_Path
  | Home_Windows
  | Machine_Text
  | Machine_Zero

definition validateDistroIdentity :: "unicode \<Rightarrow> string \<Rightarrow> (host_error, unit) result" where
  "validateDistroIdentity U distro =
     (if distro = [] then Inl Host_No_Distro
      else if trim_space distro \<noteq> distro \<or> \<not> valid_utf8 distro then Inl Host_Distro_Text
      else if list_ex is_control_rune (rune_values distro) then Inl Host_Distro_Control
      else if equal_fold U distro ''docker-desktop'' \<or> equal_fold U distro ''docker-desktop-data''
      then Inl Host_Docker_Desktop else Inr ())"

definition RequireWSLArchitecture :: "host_runtime \<Rightarrow> (host_error, unit) result" where
  "RequireWSLArchitecture info = (if rtGOARCH info \<noteq> ''amd64'' then Inl (Host_Architecture (rtGOARCH info)) else Inr ())"

text \<open>\<open>requireFrontend\<close>; \<open>None\<close> stands for a runtime that could not be probed.\<close>

definition requireFrontend :: "unicode \<Rightarrow> host_runtime option \<Rightarrow> (host_error, unit) result" where
  "requireFrontend U probe = (case probe of
     None \<Rightarrow> Inl Host_Probe
   | Some info \<Rightarrow> (case rtKind info of
       WindowsNative \<Rightarrow> Inr ()
     | WindowsWSLInterop \<Rightarrow> Inl (Host_Interop (rtMarkers info))
     | WSL2Native \<Rightarrow>
       (if trim_space (rtDistro info) = [] then Inl Host_No_Distro
        else rbind (validateDistroIdentity U (rtDistro info)) (\<lambda>_. RequireWSLArchitecture info))
     | WSL1Native \<Rightarrow> Inl Host_WSL1
     | WSLUnrecognized \<Rightarrow> Inl (Host_Unrecognized (rtKernelRelease info))
     | LinuxNative \<Rightarrow> Inl Host_Linux
     | Unsupported \<Rightarrow> Inl (Host_Unsupported (rtGOOS info))))"

section \<open>The layout of a user\<close>

record wsl_layout =
  wlDistro :: string
  wlUID :: "32 word"
  wlHome :: string
  wlBinaryPath :: string
  wlManagementShim :: string
  wlShimDir :: string
  wlConfigDir :: string
  wlRegistryPath :: string
  wlLockPath :: string
  wlStateDir :: string
  wlStateNamespace :: string

definition validateWSLHome :: "string \<Rightarrow> (host_error, string) result" where
  "validateWSLHome home =
     (if home = [] \<or> \<not> valid_utf8 home \<or> contains_byte home CHR 0x00 \<or> contains_byte home CHR 0x5C then Inl Home_Text
      else if list_ex is_control_rune (rune_values home) then Inl Home_Control
      else (let clean = path_clean home in
        if \<not> path_is_abs home \<or> clean \<noteq> home \<or> clean = ''/'' then Inl Home_Path
        else if clean = ''/mnt'' \<or> has_prefix clean ''/mnt/'' then Inl Home_Windows
        else Inr clean))"

definition validateMachineID :: "unicode \<Rightarrow> string \<Rightarrow> (host_error, string) result" where
  "validateMachineID U machineID =
     (if length machineID \<noteq> 32 \<or> machineID \<noteq> to_lower U machineID then Inl Machine_Text
      else if \<not> hex_decodable machineID then Inl Machine_Text
      else if list_all (\<lambda>c. unhex c = Some 0) machineID then Inl Machine_Zero
      else Inr machineID)"

definition NativeWSLRegistryPath :: "host_runtime \<Rightarrow> string \<Rightarrow> (host_error, string) result" where
  "NativeWSLRegistryPath r home0 =
     (if rtKind r \<noteq> WSL2Native then Inl (Host_Not_WSL2 (rtKind r))
      else rbind (validateWSLHome home0) (\<lambda>home.
        Inr (path_join [home, ''.config/container-bin/container-bin.toml''])))"

definition wslNamespaceDomain :: string where
  "wslNamespaceDomain = ''container-bin/wsl2-state/v1'' @ [CHR 0x00]"

definition state_namespace :: "string \<Rightarrow> string \<Rightarrow> 32 word \<Rightarrow> string" where
  "state_namespace distro machineID uid =
     ''wsl2-'' @ hex_encode (take 16 (Sum256
       (wslNamespaceDomain @ distro @ [CHR 0x00] @ machineID @ [CHR 0x00] @ digits_of_nat (unat uid))))"

definition NativeWSLLayout ::
    "unicode \<Rightarrow> host_runtime \<Rightarrow> string \<Rightarrow> 32 word \<Rightarrow> string \<Rightarrow> (host_error, wsl_layout) result" where
  "NativeWSLLayout U r home0 uid machine0 =
     (if rtKind r \<noteq> WSL2Native then Inl (Host_Not_WSL2 (rtKind r))
      else rbind (validateDistroIdentity U (rtDistro r)) (\<lambda>_.
        rbind (validateWSLHome home0) (\<lambda>home.
        rbind (validateMachineID U machine0) (\<lambda>machineID.
          let configDir = path_join [home, ''.config/container-bin''];
              stateDir = path_join [home, ''.local/state/container-bin''];
              shimDir = path_join [home, ''.local/bin''];
              binaryPath = path_join [home, ''.local/lib/container-bin/cb'']
          in Inr \<lparr>wlDistro = rtDistro r, wlUID = uid, wlHome = home, wlBinaryPath = binaryPath,
               wlManagementShim = path_join [shimDir, ''cb''], wlShimDir = shimDir, wlConfigDir = configDir,
               wlRegistryPath = path_join [configDir, ''container-bin.toml''],
               wlLockPath = path_join [configDir, ''container-bin.lock''], wlStateDir = stateDir,
               wlStateNamespace = state_namespace (rtDistro r) machineID uid\<rparr>))))"

section \<open>Namespaces\<close>

text \<open>\<open>validNamespace\<close> of \<open>wslvolume\<close> and \<open>validWSLNamespace\<close> of \<open>wsldocker\<close>.\<close>

definition validNamespace :: "string \<Rightarrow> bool" where
  "validNamespace namespace = (length namespace = 37 \<and> has_prefix namespace ''wsl2-''
     \<and> list_all (\<lambda>r. \<not> ((r < 48 \<or> 57 < r) \<and> (r < 97 \<or> 102 < r))) (rune_values (drop 5 namespace)))"

lemma valid_namespace_bytes:
  "validNamespace namespace \<longleftrightarrow> length namespace = 37 \<and> has_prefix namespace ''wsl2-'' \<and> list_all hex_char (drop 5 namespace)"
proof -
  have "list_all (\<lambda>r. \<not> ((r < 48 \<or> 57 < r) \<and> (r < 97 \<or> 102 < r))) (rune_values t) \<longleftrightarrow>
      list_all (\<lambda>c. \<not> ((byte_of c < (48::nat) \<or> 57 < (byte_of c :: nat)) \<and> (byte_of c < (97::nat) \<or> 102 < (byte_of c :: nat)))) t" for t
    by (rule rune_values_pred) auto
  moreover have "(\<not> ((byte_of c < (48::nat) \<or> 57 < (byte_of c :: nat)) \<and> (byte_of c < (97::nat) \<or> 102 < (byte_of c :: nat)))) = hex_char c" for c
    by (auto simp: hex_char_def is_digit_def)
  ultimately show ?thesis by (simp add: validNamespace_def)
qed

lemma state_namespace_valid: "validNamespace (state_namespace distro machineID uid)"
proof -
  let ?bs = "take 16 (Sum256 (wslNamespaceDomain @ distro @ [CHR 0x00] @ machineID @ [CHR 0x00] @ digits_of_nat (unat uid)))"
  have "\<forall>b \<in> set ?bs. b < 256" using Sum256_bound in_set_takeD by metis
  then have "list_all hex_char (hex_encode ?bs)" by (rule hex_encode_chars)
  then show ?thesis by (simp add: valid_namespace_bytes state_namespace_def)
qed

text \<open>The text that is hashed into a namespace determines the distribution, the machine and the user.\<close>

lemma namespace_identity_inj:
  assumes "CHR 0x00 \<notin> set distro" "CHR 0x00 \<notin> set distro'" "length machineID = length machineID'"
    and "wslNamespaceDomain @ distro @ [CHR 0x00] @ machineID @ [CHR 0x00] @ digits_of_nat n
       = wslNamespaceDomain @ distro' @ [CHR 0x00] @ machineID' @ [CHR 0x00] @ digits_of_nat n'"
  shows "distro = distro' \<and> machineID = machineID' \<and> digits_of_nat n = digits_of_nat n'"
proof -
  let ?t = "\<lambda>d m k. d @ CHR 0x00 # m @ CHR 0x00 # digits_of_nat k"
  have e: "?t distro machineID n = ?t distro' machineID' n'" using assms(4) by simp
  have c: "cut_byte (?t d m k) CHR 0x00 = Some (d, m @ CHR 0x00 # digits_of_nat k)" if "CHR 0x00 \<notin> set d" for d m k
    using that by (rule cut_byte_plain)
  have "Some (distro, machineID @ CHR 0x00 # digits_of_nat n) = Some (distro', machineID' @ CHR 0x00 # digits_of_nat n')"
    unfolding c [OF assms(1), symmetric] c [OF assms(2), symmetric] by (simp only: e)
  then have "distro = distro'" "machineID @ CHR 0x00 # digits_of_nat n = machineID' @ CHR 0x00 # digits_of_nat n'"
    by blast+
  with assms(3) show ?thesis by (simp add: append_eq_append_conv)
qed

lemma layout_namespace:
  "NativeWSLLayout U r home uid machine = Inr l \<Longrightarrow> validNamespace (wlStateNamespace l)"
  using state_namespace_valid by (auto simp: NativeWSLLayout_def rbind_Inr_iff Let_def split: if_splits)

end
