(* ===== verification/Wsl_Project.thy ===== *)
theory Wsl_Project
  imports Wsl_Host Platform Registry
begin

text \<open>
  Project roots of the native WSL2 frontend (\<open>internal/wslproject/project.go\<close> and
  \<open>selection.go\<close>): the parser of the mount table, the mount that is visible at a path, the
  classification of a project root, the proof that a path stays below it on the same mount, the
  proof that a project is gone, and the search for the root of a tool. What the functions observe
  of the host is a record; a function that observes it again later takes a second record, so that
  the two may differ.
\<close>

section \<open>Observations\<close>

text \<open>\<open>os.FileMode\<close> is a 32-bit word: bit 31 marks a directory, bit 27 a symbolic link.\<close>

record path_info =
  piMode :: "32 word"
  piDev :: "64 word"

definition ModeType :: "32 word" where "ModeType = 0x8F280000"

definition is_symlink :: "path_info \<Rightarrow> bool" where
  "is_symlink info = (and (piMode info) 0x08000000 \<noteq> 0)"

definition is_dir :: "path_info \<Rightarrow> bool" where
  "is_dir info = (and (piMode info) 0x80000000 \<noteq> 0)"

definition is_regular :: "path_info \<Rightarrow> bool" where
  "is_regular info = (and (piMode info) ModeType = 0)"

record inspection =
  inRuntime :: "host_kind option"
  inLstat :: "string \<Rightarrow> path_info io"
  inEval :: "string \<Rightarrow> string option"
  inMounts :: "string option"

text \<open>\<open>No_Storage\<close> is the empty string of a zero \<open>Project\<close>.\<close>

datatype storage = No_Storage | Distribution | WindowsDrive

record project =
  pjRoot :: string
  pjStorage :: storage
  pjMountPoint :: string
  pjWindowsDrive :: string
  pjMountID :: int
  pjDevice :: "64 word"

record descendant =
  dsPath :: string
  dsRelative :: string
  dsExists :: bool
  dsNearest :: string

datatype project_error =
    Root_Path
  | Root_Control
  | Runtime_Unknown
  | Runtime_Kind host_kind
  | Root_Lstat
  | Root_Not_Dir
  | Root_Eval
  | Root_Symlink string
  | Mounts_Read
  | Mounts_Empty
  | Mounts_Layout nat
  | Mounts_ID nat
  | Mounts_Parent nat
  | Mounts_Device nat
  | Mounts_Point nat
  | Mounts_Source nat
  | Mount_None
  | Mount_Ambiguous string nat
  | Mount_Not_Backing string
  | Root_Whole_Drive
  | Root_DrvFs string
  | Root_Unproven_Drive
  | Distro_Lstat
  | Root_Device
  | Path_Outside string
  | Identity_Changed
  | Path_Lstat string
  | Root_Gone
  | Ancestor_Escaped
  | Path_Symlink string
  | Ancestor_Not_Dir string
  | Path_Eval
  | Path_Through_Symlink string
  | Path_Crosses string

section \<open>The mount table\<close>

record mount_info =
  miID :: int
  miParent :: int
  miDevice :: "64 word"
  miPoint :: string
  miFilesystem :: string
  miSource :: string
  miOptions :: string

text \<open>\<open>strings.Fields\<close>: the runs of runes that are not white space.\<close>

definition add_rune :: "rune \<times> string \<Rightarrow> string \<times> string list \<Rightarrow> string \<times> string list" where
  "add_rune p st = (if is_space_rune (fst p) then ([], if fst st = [] then snd st else fst st # snd st)
     else (snd p @ fst st, snd st))"

definition string_fields :: "string \<Rightarrow> string list" where
  "string_fields s = (case foldr add_rune (runes s) ([], []) of (cur, done) \<Rightarrow> if cur = [] then done else cur # done)"

text \<open>\<open>strconv.ParseUint(s, 10, 32)\<close> and the device number of a mount.\<close>

definition parse_uint32 :: "string \<Rightarrow> nat option" where
  "parse_uint32 s = (if all_digits s \<and> nat_of_digits s < 2 ^ 32 then Some (nat_of_digits s) else None)"

definition linuxDevice :: "64 word \<Rightarrow> 64 word \<Rightarrow> 64 word" where
  "linuxDevice major minor =
     or (or (or (and minor 0xff) (push_bit 8 (and major 0xfff))) (push_bit 12 (and minor (not 0xff))))
        (push_bit 32 (and major (not 0xfff)))"

definition parseMountDevice :: "string \<Rightarrow> 64 word option" where
  "parseMountDevice field = (case cut_byte field CHR '':'' of
     None \<Rightarrow> None
   | Some (majorText, minorText) \<Rightarrow>
     (if majorText = [] \<or> minorText = [] \<or> contains minorText '':'' then None
      else (case (parse_uint32 majorText, parse_uint32 minorText) of
          (Some major, Some minor) \<Rightarrow> Some (linuxDevice (of_nat major) (of_nat minor))
        | _ \<Rightarrow> None)))"

definition mount_escape :: "string \<Rightarrow> char option" where
  "mount_escape escape =
     (if escape = ''040'' then Some CHR '' ''
      else if escape = ''011'' then Some CHR 0x09
      else if escape = ''012'' then Some CHR 0x0A
      else if escape = ''134'' then Some CHR 0x5C
      else None)"

fun unescapeMountField :: "string \<Rightarrow> string option" where
  "unescapeMountField [] = Some []"
| "unescapeMountField (c # s) =
     (if c \<noteq> CHR 0x5C then map_option ((#) c) (unescapeMountField s)
      else (case s of
          d1 # d2 # d3 # rest \<Rightarrow>
            (case mount_escape [d1, d2, d3] of
               None \<Rightarrow> None
             | Some d \<Rightarrow> map_option ((#) d) (unescapeMountField rest))
        | _ \<Rightarrow> None))"

fun field_index :: "string list \<Rightarrow> string \<Rightarrow> nat option" where
  "field_index [] f = None"
| "field_index (x # xs) f = (if x = f then Some 0 else map_option Suc (field_index xs f))"

definition parse_mount_line :: "nat \<times> string \<Rightarrow> mount_info list \<Rightarrow> (project_error, mount_info list) result" where
  "parse_mount_line entry mounts =
     (let n = Suc (fst entry); fs = string_fields (snd entry) in
      case field_index fs ''-'' of
        None \<Rightarrow> Inl (Mounts_Layout n)
      | Some separator \<Rightarrow>
        (if separator < 6 \<or> length fs < separator + 4 then Inl (Mounts_Layout n)
         else (case atoi (fs ! 0) of
            None \<Rightarrow> Inl (Mounts_ID n)
          | Some mountID \<Rightarrow>
            (if mountID \<le> 0 \<or> mountID \<in> set (map miID mounts) then Inl (Mounts_ID n)
             else (case atoi (fs ! 1) of
                None \<Rightarrow> Inl (Mounts_Parent n)
              | Some parentID \<Rightarrow>
                (if parentID \<le> 0 then Inl (Mounts_Parent n)
                 else (case parseMountDevice (fs ! 2) of
                    None \<Rightarrow> Inl (Mounts_Device n)
                  | Some device \<Rightarrow>
                    (case unescapeMountField (fs ! 4) of
                       None \<Rightarrow> Inl (Mounts_Point n)
                     | Some point \<Rightarrow>
                       (if \<not> path_is_abs point \<or> path_clean point \<noteq> point then Inl (Mounts_Point n)
                        else (case unescapeMountField (fs ! (separator + 2)) of
                           None \<Rightarrow> Inl (Mounts_Source n)
                         | Some source \<Rightarrow>
                           Inr (mounts @ [\<lparr>miID = mountID, miParent = parentID, miDevice = device, miPoint = point,
                             miFilesystem = fs ! (separator + 1), miSource = source,
                             miOptions = fs ! (separator + 3)\<rparr>])))))))))))"

definition parseMountInfo :: "string \<Rightarrow> (project_error, mount_info list) result" where
  "parseMountInfo raw =
     (let lines = split_byte (trim_suffix raw [CHR 0x0A]) CHR 0x0A in
      if lines = [[]] then Inl Mounts_Empty
      else fold_result parse_mount_line (enumerate 0 lines) [])"

section \<open>The visible mount\<close>

text \<open>\<open>mountDescendsFrom\<close>: the chain of parents, cut where an identifier comes back.\<close>

definition mount_by_id :: "mount_info list \<Rightarrow> int \<Rightarrow> mount_info option" where
  "mount_by_id mounts i = map_of (rev (map (\<lambda>m. (miID m, m)) mounts)) i"

function descends_from :: "mount_info list \<Rightarrow> int \<Rightarrow> int \<Rightarrow> int list \<Rightarrow> bool" where
  "descends_from mounts ancestorID parentID visited =
     (if parentID = 0 \<or> parentID \<in> set visited then False
      else if parentID = ancestorID then True
      else (case mount_by_id mounts parentID of
          None \<Rightarrow> False
        | Some parent \<Rightarrow> descends_from mounts ancestorID (miParent parent) (parentID # visited)))"
  by pat_completeness auto
termination
proof (relation "measure (\<lambda>(mounts, _, _, visited). card (set (map miID mounts) - set visited))", goal_cases)
  case 1
  then show ?case by simp
next
  case (2 mounts ancestorID parentID visited parent)
  then have "parentID \<in> set (map miID mounts) - set visited"
    by (auto simp: mount_by_id_def dest!: map_of_SomeD)
  moreover have "set (map miID mounts) - set (parentID # visited) = set (map miID mounts) - set visited - {parentID}"
    by auto
  ultimately show ?case by (simp only: in_measure prod.case card_Diff1_less finite_Diff List.finite_set)
qed

declare descends_from.simps [simp del]

definition mountDescendsFrom :: "mount_info list \<Rightarrow> mount_info \<Rightarrow> int \<Rightarrow> bool" where
  "mountDescendsFrom mounts m ancestorID = descends_from mounts ancestorID (miParent m) []"

definition mount_contains :: "string \<Rightarrow> mount_info \<Rightarrow> bool" where
  "mount_contains root m = (miPoint m = ''/'' \<or> inside root (miPoint m))"

definition deepest_point :: "string \<Rightarrow> mount_info list \<Rightarrow> string" where
  "deepest_point root mounts = fold (\<lambda>m deepest.
     if mount_contains root m \<and> length deepest < length (miPoint m) then miPoint m else deepest) mounts []"

definition containingMount :: "string \<Rightarrow> mount_info list \<Rightarrow> (project_error, mount_info) result" where
  "containingMount root mounts =
     (let deepest = deepest_point root mounts in
      if deepest = [] then Inl Mount_None
      else
        (let candidates = filter (\<lambda>m. miPoint m = deepest) mounts;
             visible = filter (\<lambda>c. \<not> list_ex (\<lambda>other. miID other \<noteq> miID c \<and> mountDescendsFrom mounts other (miID c)) candidates)
               candidates
         in case visible of
              [m] \<Rightarrow> Inr m
            | _ \<Rightarrow> Inl (Mount_Ambiguous deepest (length visible))))"

section \<open>Windows drives\<close>

text \<open>The drive is one lowercase letter or empty, so \<open>strings.ToUpper\<close> subtracts 32 from its byte.\<close>

definition isDrvFS :: "mount_info \<Rightarrow> string \<Rightarrow> bool" where
  "isDrvFS m drive =
     (if miFilesystem m = ''9p'' then
        list_ex (\<lambda>opt. opt = ''aname=drvfs'' \<or> has_prefix opt ''aname=drvfs;'') (split_byte (miOptions m) CHR '','')
      else if miFilesystem m = ''virtiofs'' then
        drive \<noteq> [] \<and> (let tag = ''drvfs'' @ map (\<lambda>c. byte (byte_of c - 32)) drive in
          miSource m = tag @ ''0'' \<or> miSource m = tag @ ''1'')
      else False)"

definition defaultDriveMount :: "string \<Rightarrow> string option" where
  "defaultDriveMount point =
     (if length point \<noteq> 6 \<or> \<not> has_prefix point ''/mnt/'' \<or> byte_of (point ! 5) < (97::nat) \<or> (122::nat) < byte_of (point ! 5)
      then None else Some [point ! 5])"

definition defaultDriveRoot :: "string \<Rightarrow> string option" where
  "defaultDriveRoot root =
     (if length root < 6 \<or> \<not> has_prefix root ''/mnt/'' then None
      else
        (let b = (byte_of (root ! 5) :: nat); drive = (if 65 \<le> b \<and> b \<le> 90 then b + 32 else b) in
         if drive < 97 \<or> 122 < drive then None
         else if length root \<noteq> 6 \<and> root ! 6 \<noteq> CHR ''/'' then None
         else Some [byte drive]))"

section \<open>Project roots\<close>

definition validateRoot :: "string \<Rightarrow> (project_error, unit) result" where
  "validateRoot root =
     (if root = [] \<or> \<not> valid_utf8 root \<or> \<not> path_is_abs root \<or> path_clean root \<noteq> root \<or> root = ''/''
         \<or> contains_byte root CHR 0x5C
      then Inl Root_Path
      else if list_ex is_control_rune (rune_values root) then Inl Root_Control
      else Inr ())"

definition live_mounts :: "inspection \<Rightarrow> (project_error, mount_info list) result" where
  "live_mounts d = (case inMounts d of None \<Rightarrow> Inl Mounts_Read | Some raw \<Rightarrow> parseMountInfo raw)"

definition classify_mount :: "inspection \<Rightarrow> string \<Rightarrow> path_info \<Rightarrow> mount_info \<Rightarrow> (project_error, project) result" where
  "classify_mount d root info m =
     (if miDevice m \<noteq> piDev info then Inl (Mount_Not_Backing root)
      else (case (case defaultDriveMount (miPoint m) of
          None \<Rightarrow> None | Some drive \<Rightarrow> if isDrvFS m drive then Some drive else None) of
        Some drive \<Rightarrow>
          (if root = miPoint m then Inl Root_Whole_Drive
           else Inr \<lparr>pjRoot = root, pjStorage = WindowsDrive, pjMountPoint = miPoint m, pjWindowsDrive = drive,
             pjMountID = miID m, pjDevice = miDevice m\<rparr>)
      | None \<Rightarrow>
          (if isDrvFS m [] \<and> defaultDriveMount (miPoint m) = None then Inl (Root_DrvFs (miPoint m))
           else if defaultDriveRoot root \<noteq> None then Inl Root_Unproven_Drive
           else (case inLstat d ''/'' of
               Got distroRoot \<Rightarrow>
                 (if piDev info \<noteq> piDev distroRoot then Inl Root_Device
                  else Inr \<lparr>pjRoot = root, pjStorage = Distribution, pjMountPoint = miPoint m, pjWindowsDrive = [],
                    pjMountID = miID m, pjDevice = miDevice m\<rparr>)
             | _ \<Rightarrow> Inl Distro_Lstat))))"

definition classify :: "inspection \<Rightarrow> string \<Rightarrow> (project_error, project) result" where
  "classify d root =
     rbind (validateRoot root) (\<lambda>_.
     case inRuntime d of
       None \<Rightarrow> Inl Runtime_Unknown
     | Some kind \<Rightarrow>
       (if kind \<noteq> WSL2Native then Inl (Runtime_Kind kind)
        else (case inLstat d root of
            Got info \<Rightarrow>
              (if is_symlink info \<or> \<not> is_dir info then Inl Root_Not_Dir
               else (case inEval d root of
                   None \<Rightarrow> Inl Root_Eval
                 | Some resolved \<Rightarrow>
                   (if resolved \<noteq> root then Inl (Root_Symlink resolved)
                    else rbind (live_mounts d) (\<lambda>mounts.
                      rbind (containingMount root mounts) (classify_mount d root info)))))
          | _ \<Rightarrow> Inl Root_Lstat)))"

definition sameProjectIdentity :: "project \<Rightarrow> project \<Rightarrow> bool" where
  "sameProjectIdentity first second =
     (pjRoot first = pjRoot second \<and> pjStorage first = pjStorage second \<and> pjMountPoint first = pjMountPoint second
      \<and> pjWindowsDrive first = pjWindowsDrive second \<and> pjMountID first = pjMountID second
      \<and> pjDevice first = pjDevice second)"

section \<open>Paths below a project\<close>

text \<open>
  The walk up to the nearest existing ancestor. The loop has no bound of its own: \<open>None\<close> is a walk
  that never ends.
\<close>

partial_function (option) nearest_existing ::
    "(string \<Rightarrow> path_info io) \<Rightarrow> string \<Rightarrow> string \<Rightarrow> bool \<Rightarrow> (project_error, string \<times> bool \<times> path_info) result option" where
  "nearest_existing lstat root nearest exists = (case lstat nearest of
     Got info \<Rightarrow> Some (Inr (nearest, exists, info))
   | Failed \<Rightarrow> Some (Inl (Path_Lstat nearest))
   | Absent \<Rightarrow>
     (if nearest = root then Some (Inl Root_Gone)
      else if \<not> inside (path_dir nearest) root then Some (Inl Ancestor_Escaped)
      else nearest_existing lstat root (path_dir nearest) False))"

declare nearest_existing.simps [code]

definition prove_path ::
    "inspection \<Rightarrow> project \<Rightarrow> string \<Rightarrow> string \<times> bool \<times> path_info \<Rightarrow> (project_error, descendant) result" where
  "prove_path d current candidate found = (case found of (nearest, exists, info) \<Rightarrow>
     if is_symlink info then Inl (Path_Symlink nearest)
     else if \<not> exists \<and> \<not> is_dir info then Inl (Ancestor_Not_Dir nearest)
     else (case inEval d nearest of
         None \<Rightarrow> Inl Path_Eval
       | Some resolved \<Rightarrow>
         (if resolved \<noteq> nearest then Inl (Path_Through_Symlink resolved)
          else rbind (live_mounts d) (\<lambda>mounts.
            rbind (containingMount nearest mounts) (\<lambda>m.
              if miDevice m \<noteq> piDev info then Inl (Mount_Not_Backing nearest)
              else if miID m \<noteq> pjMountID current \<or> miDevice m \<noteq> pjDevice current \<or> miPoint m \<noteq> pjMountPoint current
              then Inl (Path_Crosses (miPoint m))
              else
                (let rest = trim_prefix candidate (pjRoot current);
                     relative = (if rest = [] then ''.'' else trim_prefix rest ''/'')
                 in Inr \<lparr>dsPath = candidate, dsRelative = relative, dsExists = exists, dsNearest = nearest\<rparr>))))))"

definition resolveDescendant ::
    "inspection \<Rightarrow> inspection \<Rightarrow> project \<Rightarrow> string \<Rightarrow> (project_error, descendant) result option" where
  "resolveDescendant before now pj candidate =
     (case rbind (validateRoot (pjRoot pj)) (\<lambda>_. rbind (validateRoot candidate) (\<lambda>_.
         if \<not> inside candidate (pjRoot pj) then Inl (Path_Outside candidate)
         else rbind (classify before (pjRoot pj)) (\<lambda>current.
           if \<not> sameProjectIdentity pj current then Inl Identity_Changed else Inr current))) of
        Inl e \<Rightarrow> Some (Inl e)
      | Inr current \<Rightarrow>
          map_option (\<lambda>r. rbind r (prove_path now current candidate))
            (nearest_existing (inLstat now) (pjRoot pj) candidate True))"

section \<open>Missing projects\<close>

datatype missing_error =
    Missing_Project project_error
  | Missing_Ancestor string
  | Missing_Lstat string
  | Missing_Exists
  | Missing_Distro_Not_Dir
  | Missing_Drive_Unavailable string
  | Missing_Drive_Boundary string
  | Missing_Boundary
  | Missing_Changed

record missing_boundary =
  mbNearest :: string
  mbMissing :: string
  mbInfo :: path_info

definition inspect_distro_root :: "(string \<Rightarrow> path_info io) \<Rightarrow> (missing_error, path_info) result" where
  "inspect_distro_root lstat = (case lstat ''/'' of
     Got rootInfo \<Rightarrow> if is_symlink rootInfo \<or> \<not> is_dir rootInfo then Inl Missing_Distro_Not_Dir else Inr rootInfo
   | _ \<Rightarrow> Inl (Missing_Project Distro_Lstat))"

fun inspect_elements ::
    "(string \<Rightarrow> path_info io) \<Rightarrow> string \<Rightarrow> (string \<times> path_info) option \<Rightarrow> string list \<Rightarrow> (missing_error, missing_boundary) result" where
  "inspect_elements lstat current nearest [] = Inl Missing_Exists"
| "inspect_elements lstat current nearest (element # elements) =
     (let path = current @ ''/'' @ element in
      case lstat path of
        Got info \<Rightarrow>
          (if is_symlink info \<or> \<not> is_dir info then Inl (Missing_Ancestor path)
           else inspect_elements lstat path (Some (path, info)) elements)
      | Failed \<Rightarrow> Inl (Missing_Lstat path)
      | Absent \<Rightarrow>
          (case nearest of
             Some (near, info) \<Rightarrow> Inr \<lparr>mbNearest = near, mbMissing = path, mbInfo = info\<rparr>
           | None \<Rightarrow> rbind (inspect_distro_root lstat) (\<lambda>info.
               Inr \<lparr>mbNearest = ''/'', mbMissing = path, mbInfo = info\<rparr>)))"

definition inspectMissingBoundary :: "string \<Rightarrow> (string \<Rightarrow> path_info io) \<Rightarrow> (missing_error, missing_boundary) result" where
  "inspectMissingBoundary root lstat = inspect_elements lstat [] None (split_byte (trim_prefix root ''/'') CHR ''/'')"

definition check_missing_drive :: "string \<Rightarrow> string \<Rightarrow> missing_boundary \<Rightarrow> mount_info list \<Rightarrow> (missing_error, unit) result" where
  "check_missing_drive root drive before mounts =
     (let mountPoint = ''/mnt/'' @ drive in
      if \<not> inside (mbNearest before) mountPoint then Inl (Missing_Drive_Unavailable mountPoint)
      else rbind (map_err Missing_Project (containingMount root mounts)) (\<lambda>m.
        if miPoint m \<noteq> mountPoint \<or> \<not> isDrvFS m drive \<or> miDevice m \<noteq> piDev (mbInfo before)
        then Inl (Missing_Drive_Boundary mountPoint) else Inr ()))"

definition check_missing_distro :: "inspection \<Rightarrow> missing_boundary \<Rightarrow> mount_info list \<Rightarrow> (missing_error, unit) result" where
  "check_missing_distro d before mounts = (case inLstat d ''/'' of
     Got distroRoot \<Rightarrow> rbind (map_err Missing_Project (containingMount (mbNearest before) mounts)) (\<lambda>m.
       if piDev (mbInfo before) \<noteq> piDev distroRoot \<or> miDevice m \<noteq> piDev (mbInfo before) then Inl Missing_Boundary else Inr ())
   | _ \<Rightarrow> Inl (Missing_Project Distro_Lstat))"

text \<open>The ancestry is inspected a second time, in the state \<open>now\<close>, after the mounts were read.\<close>

definition proveMissingProject :: "inspection \<Rightarrow> inspection \<Rightarrow> string \<Rightarrow> (missing_error, unit) result" where
  "proveMissingProject d now root =
     rbind (map_err Missing_Project (validateRoot root)) (\<lambda>_.
     case inRuntime d of
       None \<Rightarrow> Inl (Missing_Project Runtime_Unknown)
     | Some kind \<Rightarrow>
       (if kind \<noteq> WSL2Native then Inl (Missing_Project (Runtime_Kind kind))
        else rbind (inspectMissingBoundary root (inLstat d)) (\<lambda>before.
          rbind (map_err Missing_Project (live_mounts d)) (\<lambda>mounts.
          rbind (case defaultDriveRoot root of
              Some drive \<Rightarrow> check_missing_drive root drive before mounts
            | None \<Rightarrow> check_missing_distro d before mounts) (\<lambda>_.
          rbind (inspectMissingBoundary root (inLstat now)) (\<lambda>after.
            if before \<noteq> after then Inl Missing_Changed else Inr ()))))))"

section \<open>Selection\<close>

datatype select_error =
    Select_Start project_error
  | Select_Isolated
  | Select_Cwd_Mode string
  | Select_Root_Mode string
  | Select_Lstat
  | Select_Not_Dir
  | Select_Trusted project_error
  | Select_Outside
  | Select_Marker_Name string
  | Select_Marker_Lstat string
  | Select_Marker_Symlink string
  | Select_Marker_Kind string
  | Select_Classify project_error
  | Select_Descendant project_error

definition check_marker_path :: "(string \<Rightarrow> path_info io) \<Rightarrow> string \<Rightarrow> string \<Rightarrow> bool \<Rightarrow> (select_error, bool) result" where
  "check_marker_path lstat dir marker matched =
     (let markerPath = path_join [dir, marker] in
      case lstat markerPath of
        Absent \<Rightarrow> Inr matched
      | Failed \<Rightarrow> Inl (Select_Marker_Lstat markerPath)
      | Got info \<Rightarrow>
        (if is_symlink info then Inl (Select_Marker_Symlink markerPath)
         else if \<not> is_dir info \<and> \<not> is_regular info then Inl (Select_Marker_Kind markerPath)
         else Inr True))"

text \<open>The loop of \<open>findProjectRoot\<close> up to \<open>/\<close>; \<open>selected\<close> is empty while nothing was found.\<close>

partial_function (option) find_root ::
    "(string \<Rightarrow> path_info io) \<Rightarrow> string list \<Rightarrow> bool \<Rightarrow> string \<Rightarrow> string \<Rightarrow> (select_error, string) result option" where
  "find_root lstat markers outermost dir selected =
     (if dir = ''/'' then Some (Inr selected)
      else (case fold_result (check_marker_path lstat dir) markers False of
          Inl e \<Rightarrow> Some (Inl e)
        | Inr matched \<Rightarrow>
          (if matched \<and> \<not> outermost then Some (Inr dir)
           else find_root lstat markers outermost (path_dir dir) (if matched then dir else selected))))"

declare find_root.simps [code]

definition check_marker_name :: "string \<Rightarrow> (select_error, unit) result" where
  "check_marker_name marker = map_err (\<lambda>_. Select_Marker_Name marker) (ValidateProjectMarker marker)"

definition select_root ::
    "(string \<Rightarrow> path_info io) \<Rightarrow> string \<Rightarrow> tool \<Rightarrow> (select_error, string) result option" where
  "select_root lstat start t =
     (if tTrustedProjectRoot t \<noteq> [] then Some (
        rbind (map_err Select_Trusted (validateRoot (tTrustedProjectRoot t))) (\<lambda>_.
        if \<not> inside start (tTrustedProjectRoot t) then Inl Select_Outside else Inr (tTrustedProjectRoot t)))
      else (case check_all check_marker_name (ProjectMarkersFor t) of
          Inl e \<Rightarrow> Some (Inl e)
        | Inr _ \<Rightarrow> find_root lstat (ProjectMarkersFor t) (tProjectRootMode t = ''outermost'') start []))"

definition check_selection :: "(string \<Rightarrow> path_info io) \<Rightarrow> string \<Rightarrow> tool \<Rightarrow> (select_error, unit) result" where
  "check_selection lstat start t =
     rbind (map_err Select_Start (validateRoot start)) (\<lambda>_.
       if tCwdMode t = ''isolated'' then Inl Select_Isolated
       else if tCwdMode t \<notin> {[], ''project''} then Inl (Select_Cwd_Mode (tCwdMode t))
       else if tProjectRootMode t \<notin> {[], ''nearest'', ''outermost''} then Inl (Select_Root_Mode (tProjectRootMode t))
       else (case lstat start of
           Got info \<Rightarrow> if is_symlink info \<or> \<not> is_dir info then Inl Select_Not_Dir else Inr ()
         | _ \<Rightarrow> Inl Select_Lstat))"

definition selectForTool ::
    "(string \<Rightarrow> path_info io) \<Rightarrow> (string \<Rightarrow> (project_error, project) result)
      \<Rightarrow> (project \<Rightarrow> string \<Rightarrow> (project_error, descendant) result) \<Rightarrow> string \<Rightarrow> tool
      \<Rightarrow> (select_error, project \<times> bool) result option" where
  "selectForTool lstat classify_root classifyDescendant start t =
     (case check_selection lstat start t of
        Inl e \<Rightarrow> Some (Inl e)
      | Inr _ \<Rightarrow> map_option (\<lambda>r. rbind r (\<lambda>selected.
          let found = (selected \<noteq> []); root = (if found then selected else start) in
          rbind (map_err Select_Classify (classify_root root)) (\<lambda>pj.
          rbind (map_err Select_Descendant (classifyDescendant pj start)) (\<lambda>_. Inr (pj, found)))))
          (select_root lstat start t))"

end
