(* ===== verification/Wsl_Project_Facts.thy ===== *)
theory Wsl_Project_Facts
  imports Wsl_Project
begin

text \<open>
  The two walks of \<open>Wsl_Project\<close> end on canonical paths, by induction on the components
  (\<open>nearest_existing_spec\<close>, \<open>find_root_spec\<close>); \<open>resolve_descendant_spec\<close> is what a successful proof
  says about a path, \<open>containing_mount_spec\<close> which mount is visible at it, and \<open>descends_iff\<close> that
  the walk over the parents of a mount decides reachability.
\<close>

lemma validate_root_iff: "validateRoot root = Inr u \<longleftrightarrow> canonical_path root"
  by (auto simp: validateRoot_def canonical_path_def list_ex_iff list_all_iff)

section \<open>The parsed mount table\<close>

definition mount_wf :: "mount_info \<Rightarrow> bool" where
  "mount_wf m = (0 < miID m \<and> 0 < miParent m \<and> path_is_abs (miPoint m) \<and> path_clean (miPoint m) = miPoint m)"

definition mounts_wf :: "mount_info list \<Rightarrow> bool" where
  "mounts_wf ms = (distinct (map miID ms) \<and> list_all mount_wf ms)"

lemma parse_mount_line_wf:
  assumes "parse_mount_line entry ms = Inr ms'" "mounts_wf ms"
  shows "mounts_wf ms' \<and> length ms' = Suc (length ms)"
  using assms
  by (auto simp: parse_mount_line_def Let_def mounts_wf_def mount_wf_def split: option.splits if_splits)

lemma parse_mounts_wf:
  "fold_result parse_mount_line entries ms = Inr ms' \<Longrightarrow> mounts_wf ms \<Longrightarrow> mounts_wf ms' \<and> length ms' = length ms + length entries"
proof (induction entries arbitrary: ms)
  case (Cons e es)
  from Cons.prems(1) obtain ms1 where l: "parse_mount_line e ms = Inr ms1" and r: "fold_result parse_mount_line es ms1 = Inr ms'"
    by (auto simp: rbind_Inr_iff)
  from parse_mount_line_wf [OF l Cons.prems(2)] Cons.IH [OF r] show ?case by simp
qed simp

lemma parse_mount_info_wf:
  assumes "parseMountInfo raw = Inr ms"
  shows "mounts_wf ms" "ms \<noteq> []"
proof -
  let ?lines = "split_byte (trim_suffix raw [CHR 0x0A]) CHR 0x0A"
  from assms have f: "fold_result parse_mount_line (enumerate 0 ?lines) [] = Inr ms"
    by (auto simp: parseMountInfo_def Let_def split: if_splits)
  have "mounts_wf []" by (simp add: mounts_wf_def)
  from parse_mounts_wf [OF f this] have "mounts_wf ms" "length ms = length ?lines" by simp_all
  then show "mounts_wf ms" "ms \<noteq> []" using split_byte_nonempty [of "trim_suffix raw [CHR 0x0A]"] by auto
qed

section \<open>Parents of a mount\<close>

inductive ancestor_of :: "mount_info list \<Rightarrow> int \<Rightarrow> int \<Rightarrow> bool" for mounts where
  here: "p \<noteq> 0 \<Longrightarrow> ancestor_of mounts p p"
| up: "p \<noteq> 0 \<Longrightarrow> mount_by_id mounts p = Some parent \<Longrightarrow> ancestor_of mounts (miParent parent) a \<Longrightarrow> ancestor_of mounts p a"

inductive_cases ancestor_cases: "ancestor_of mounts p a"

fun parent_steps :: "mount_info list \<Rightarrow> nat \<Rightarrow> int \<Rightarrow> int \<Rightarrow> bool" where
  "parent_steps mounts 0 p a = (p \<noteq> 0 \<and> p = a)"
| "parent_steps mounts (Suc n) p a =
     (p \<noteq> 0 \<and> (\<exists>parent. mount_by_id mounts p = Some parent \<and> parent_steps mounts n (miParent parent) a))"

lemma ancestor_steps: "ancestor_of mounts p a \<longleftrightarrow> (\<exists>n. parent_steps mounts n p a)"
proof
  assume "ancestor_of mounts p a"
  then show "\<exists>n. parent_steps mounts n p a"
  proof (induction rule: ancestor_of.induct)
    case (here p)
    then have "parent_steps mounts 0 p p" by simp
    then show ?case by blast
  next
    case (up p parent a)
    then obtain n where "parent_steps mounts n (miParent parent) a" by blast
    with up have "parent_steps mounts (Suc n) p a" by simp
    then show ?case by blast
  qed
next
  assume "\<exists>n. parent_steps mounts n p a"
  then obtain n where "parent_steps mounts n p a" by blast
  then show "ancestor_of mounts p a"
    by (induction n arbitrary: p) (auto intro: ancestor_of.intros)
qed

lemma descends_sound: "descends_from mounts a p visited \<Longrightarrow> ancestor_of mounts p a"
proof (induction mounts a p visited rule: descends_from.induct)
  case (1 mounts a p visited)
  from 1(2) consider "p \<noteq> 0" "p = a" | parent where "p \<noteq> 0" "p \<noteq> a" "p \<notin> set visited"
      "mount_by_id mounts p = Some parent" "descends_from mounts a (miParent parent) (p # visited)"
    by (subst (asm) descends_from.simps) (auto split: if_splits option.splits)
  then show ?case
  proof cases
    case 1
    then show ?thesis using here by blast
  next
    case 2
    from 1(1) [OF _ _ this(4,5)] this(1-3) have "ancestor_of mounts (miParent parent) a" by blast
    with 2(1,4) show ?thesis by (rule up)
  qed
qed

text \<open>A shortest chain visits no identifier twice, so the walk does not cut it.\<close>

lemma descends_complete:
  assumes "parent_steps mounts n p a" "\<forall>k < n. \<not> parent_steps mounts k p a"
    and "\<forall>v \<in> set visited. \<forall>k \<le> n. \<not> parent_steps mounts k v a"
  shows "descends_from mounts a p visited"
  using assms
proof (induction n arbitrary: p visited)
  case 0
  then have "p \<notin> set visited" by auto
  with 0 show ?case by (subst descends_from.simps) simp
next
  case (Suc n)
  from Suc.prems(1) obtain parent where p: "p \<noteq> 0" "mount_by_id mounts p = Some parent"
    and s: "parent_steps mounts n (miParent parent) a" by auto
  have "p \<noteq> a" using Suc.prems(2) p(1) by force
  moreover have "p \<notin> set visited" using Suc.prems(1,3) by blast
  moreover have "descends_from mounts a (miParent parent) (p # visited)"
  proof (rule Suc.IH [OF s])
    show "\<forall>k < n. \<not> parent_steps mounts k (miParent parent) a"
    proof (intro allI impI notI)
      fix k assume "k < n" "parent_steps mounts k (miParent parent) a"
      then have "parent_steps mounts (Suc k) p a" "Suc k < Suc n" using p by auto
      with Suc.prems(2) show False by blast
    qed
    show "\<forall>v \<in> set (p # visited). \<forall>k \<le> n. \<not> parent_steps mounts k v a"
      using Suc.prems(2,3) by (auto simp: less_Suc_eq_le)
  qed
  ultimately show ?case using p by (subst descends_from.simps) simp
qed

lemma descends_iff: "mountDescendsFrom mounts m a \<longleftrightarrow> ancestor_of mounts (miParent m) a"
proof
  assume "ancestor_of mounts (miParent m) a"
  then obtain n where n: "parent_steps mounts n (miParent m) a" by (auto simp: ancestor_steps)
  define k where "k = (LEAST k. parent_steps mounts k (miParent m) a)"
  have "parent_steps mounts k (miParent m) a" unfolding k_def using n by (rule LeastI)
  moreover have "\<forall>j < k. \<not> parent_steps mounts j (miParent m) a" unfolding k_def using not_less_Least by blast
  ultimately show "mountDescendsFrom mounts m a" unfolding mountDescendsFrom_def by (intro descends_complete) auto
qed (simp add: mountDescendsFrom_def descends_sound)

section \<open>The visible mount\<close>

lemma deepest_fold:
  fixes root mounts
  defines "step \<equiv> \<lambda>m deepest. if mount_contains root m \<and> length deepest < length (miPoint m) then miPoint m else deepest"
  shows "length d \<le> length (fold step mounts d)"
    "m \<in> set mounts \<Longrightarrow> mount_contains root m \<Longrightarrow> length (miPoint m) \<le> length (fold step mounts d)"
    "fold step mounts d = d \<or> (\<exists>m \<in> set mounts. mount_contains root m \<and> miPoint m = fold step mounts d)"
proof -
  show l: "length d \<le> length (fold step ms d)" for ms d
  proof (induction ms arbitrary: d)
    case (Cons m ms)
    have "length d \<le> length (step m d)" by (simp add: step_def)
    also have "\<dots> \<le> length (fold step ms (step m d))" by (rule Cons.IH)
    finally show ?case by simp
  qed simp
  show "m \<in> set mounts \<Longrightarrow> mount_contains root m \<Longrightarrow> length (miPoint m) \<le> length (fold step mounts d)"
  proof (induction mounts arbitrary: d)
    case (Cons x ms)
    show ?case
    proof (cases "x = m")
      case True
      have "length (miPoint m) \<le> length (step m d)" using Cons.prems(2) by (simp add: step_def)
      also have "\<dots> \<le> length (fold step ms (step m d))" by (rule l)
      finally show ?thesis using True by simp
    next
      case False
      with Cons show ?thesis by simp
    qed
  qed simp
  show "fold step mounts d = d \<or> (\<exists>m \<in> set mounts. mount_contains root m \<and> miPoint m = fold step mounts d)"
  proof (induction mounts arbitrary: d)
    case (Cons x ms)
    have "step x d = d \<or> mount_contains root x \<and> miPoint x = step x d" by (simp add: step_def)
    with Cons.IH [of "step x d"] show ?case by auto
  qed simp
qed

lemma containing_mount_spec:
  assumes "containingMount root mounts = Inr m"
  shows "m \<in> set mounts" "mount_contains root m"
    "m' \<in> set mounts \<Longrightarrow> mount_contains root m' \<Longrightarrow> length (miPoint m') \<le> length (miPoint m)"
    "m' \<in> set mounts \<Longrightarrow> miPoint m' = miPoint m \<Longrightarrow> miID m' \<noteq> miID m \<Longrightarrow> \<not> ancestor_of mounts (miParent m') (miID m)"
proof -
  let ?hidden = "\<lambda>c. list_ex (\<lambda>other. miID other \<noteq> miID c \<and> mountDescendsFrom mounts other (miID c))
      (filter (\<lambda>m. miPoint m = deepest_point root mounts) mounts)"
  from assms have d: "deepest_point root mounts \<noteq> []"
    and f: "filter (\<lambda>c. \<not> ?hidden c) (filter (\<lambda>m. miPoint m = deepest_point root mounts) mounts) = [m]"
    by (auto simp: containingMount_def Let_def split: if_splits list.splits)
  from f have "m \<in> set (filter (\<lambda>c. \<not> ?hidden c) (filter (\<lambda>m. miPoint m = deepest_point root mounts) mounts))" by simp
  then have m: "m \<in> set mounts" "miPoint m = deepest_point root mounts" "\<not> ?hidden m" by auto
  from d deepest_fold(3) [of root mounts "[]"] obtain x where "x \<in> set mounts" "mount_contains root x"
    "miPoint x = deepest_point root mounts" by (auto simp: deepest_point_def)
  with m show "m \<in> set mounts" "mount_contains root m" by (auto simp: mount_contains_def)
  show "length (miPoint m') \<le> length (miPoint m)" if "m' \<in> set mounts" "mount_contains root m'"
    using deepest_fold(2) [OF that, of "[]"] m(2) by (simp add: deepest_point_def)
  show "\<not> ancestor_of mounts (miParent m') (miID m)"
    if "m' \<in> set mounts" "miPoint m' = miPoint m" "miID m' \<noteq> miID m"
    using that m(2,3) by (auto simp: list_ex_iff descends_iff)
qed

section \<open>The walk to the nearest existing ancestor\<close>

lemma nearest_existing_spec:
  assumes "list_all proper (rs @ ds)" "rs \<noteq> []"
  shows "\<exists>r. nearest_existing lstat (abs_path rs) (abs_path (rs @ ds)) e = Some r
     \<and> (\<forall>near e' info. r = Inr (near, e', info) \<longrightarrow> (\<exists>es ms. ds = es @ ms \<and> near = abs_path (rs @ es)
          \<and> lstat near = Got info \<and> e' = (e \<and> ms = [])
          \<and> (\<forall>xs. prefix es xs \<longrightarrow> prefix xs ds \<longrightarrow> xs \<noteq> es \<longrightarrow> lstat (abs_path (rs @ xs)) = Absent)))"
  using assms(1)
proof (induction ds arbitrary: e rule: rev_induct)
  case Nil
  then show ?case by (subst nearest_existing.simps) (auto split: io.splits)
next
  case (snoc d ds)
  let ?c = "abs_path (rs @ ds @ [d])"
  have p: "list_all proper (rs @ ds)" "list_all proper rs" using snoc.prems by auto
  have dir: "path_dir ?c = abs_path (rs @ ds)" using path_dir_abs [of "rs @ ds" d] snoc.prems by simp
  have ne: "?c \<noteq> abs_path rs" using abs_path_inj [of "rs @ ds @ [d]" rs] snoc.prems by auto
  have ins: "inside (abs_path (rs @ ds)) (abs_path rs)"
    using inside_abs_path [OF p(2,1)] assms(2) by simp
  show ?case
  proof (cases "lstat ?c")
    case Absent
    have step: "nearest_existing lstat (abs_path rs) ?c e = nearest_existing lstat (abs_path rs) (abs_path (rs @ ds)) False"
      by (subst nearest_existing.simps) (simp add: Absent ne ins dir)
    from snoc.IH [OF p(1), of False] obtain r where
      r: "nearest_existing lstat (abs_path rs) (abs_path (rs @ ds)) False = Some r" and
      s: "\<And>near e' info. r = Inr (near, e', info) \<Longrightarrow> \<exists>es ms. ds = es @ ms \<and> near = abs_path (rs @ es)
          \<and> lstat near = Got info \<and> \<not> e'
          \<and> (\<forall>xs. prefix es xs \<longrightarrow> prefix xs ds \<longrightarrow> xs \<noteq> es \<longrightarrow> lstat (abs_path (rs @ xs)) = Absent)" by auto
    have "\<exists>es ms. ds @ [d] = es @ ms \<and> near = abs_path (rs @ es) \<and> lstat near = Got info \<and> e' = (e \<and> ms = [])
          \<and> (\<forall>xs. prefix es xs \<longrightarrow> prefix xs (ds @ [d]) \<longrightarrow> xs \<noteq> es \<longrightarrow> lstat (abs_path (rs @ xs)) = Absent)"
      if x: "r = Inr (near, e', info)" for near e' info
    proof -
      from s [OF x] obtain es ms where em: "ds = es @ ms" "near = abs_path (rs @ es)" "lstat near = Got info" "\<not> e'"
        and a: "\<And>xs. prefix es xs \<Longrightarrow> prefix xs ds \<Longrightarrow> xs \<noteq> es \<Longrightarrow> lstat (abs_path (rs @ xs)) = Absent" by blast
      have "lstat (abs_path (rs @ xs)) = Absent" if "prefix es xs" "prefix xs (ds @ [d])" "xs \<noteq> es" for xs
        using a [OF that(1) _ that(3)] that(2) Absent by (auto simp: prefix_snoc)
      moreover have "ds @ [d] = es @ (ms @ [d])" using em(1) by simp
      ultimately show ?thesis using em(2-4) by blast
    qed
    with step r show ?thesis by auto
  next
    case Failed
    then show ?thesis by (subst nearest_existing.simps) simp
  next
    case (Got info)
    then have "nearest_existing lstat (abs_path rs) ?c e = Some (Inr (?c, e, info))"
      by (subst nearest_existing.simps) simp
    moreover have "\<exists>es ms. ds @ [d] = es @ ms \<and> ?c = abs_path (rs @ es) \<and> lstat ?c = Got info \<and> e = (e \<and> ms = [])
        \<and> (\<forall>xs. prefix es xs \<longrightarrow> prefix xs (ds @ [d]) \<longrightarrow> xs \<noteq> es \<longrightarrow> lstat (abs_path (rs @ xs)) = Absent)"
      using Got by (intro exI [of _ "ds @ [d]"] exI [of _ "[]"]) (auto dest: prefix_order.antisym)
    ultimately show ?thesis by simp
  qed
qed

lemma below_root:
  assumes "canonical_path root" "canonical_path c" "inside c root"
  obtains rs ds where "root = abs_path rs" "c = abs_path (rs @ ds)" "list_all proper (rs @ ds)" "rs \<noteq> []"
proof -
  from assms(1) obtain rs where r: "root = abs_path rs" "list_all proper rs" "rs \<noteq> []" by (rule canonical_form)
  from assms(2) obtain cs where c: "c = abs_path cs" "list_all proper cs" "cs \<noteq> []" by (rule canonical_form)
  from assms(3) have "prefix rs cs" unfolding r(1) c(1) using inside_abs_path [OF r(2) c(2) r(3) c(3)] by blast
  then obtain ds where "cs = rs @ ds" by (auto simp: prefix_def)
  with that r c show thesis by blast
qed

lemma trim_prefix_same [simp]: "trim_prefix (s @ t) s = t"
  by (simp add: trim_prefix_def has_prefix_def)

lemma relative_path:
  assumes "list_all proper (rs @ ds)" "rs \<noteq> []"
  shows "(let rest = trim_prefix (abs_path (rs @ ds)) (abs_path rs) in if rest = [] then ''.'' else trim_prefix rest ''/'')
    = (if ds = [] then ''.'' else join ''/'' ds)"
proof (cases "ds = []")
  case True
  then show ?thesis using trim_prefix_same [of "abs_path rs" "[]"] by simp
next
  case False
  show ?thesis unfolding abs_path_append [OF assms(2) False] trim_prefix_same Let_def
    using False trim_prefix_same [of "''/''" "join ''/'' ds"] by simp
qed

text \<open>What the checks before the walk establish.\<close>

definition revalidated :: "inspection \<Rightarrow> project \<Rightarrow> string \<Rightarrow> (project_error, project) result" where
  "revalidated before pj candidate = rbind (validateRoot (pjRoot pj)) (\<lambda>_. rbind (validateRoot candidate) (\<lambda>_.
     if \<not> inside candidate (pjRoot pj) then Inl (Path_Outside candidate)
     else rbind (classify before (pjRoot pj)) (\<lambda>current.
       if \<not> sameProjectIdentity pj current then Inl Identity_Changed else Inr current)))"

lemma resolve_descendant_unfold:
  "resolveDescendant before now pj c = (case revalidated before pj c of
     Inl e \<Rightarrow> Some (Inl e)
   | Inr current \<Rightarrow> map_option (\<lambda>r. rbind r (prove_path now current c)) (nearest_existing (inLstat now) (pjRoot pj) c True))"
  by (simp add: resolveDescendant_def revalidated_def)

lemma revalidated_iff:
  "revalidated before pj c = Inr current \<longleftrightarrow> canonical_path (pjRoot pj) \<and> canonical_path c \<and> inside c (pjRoot pj)
     \<and> classify before (pjRoot pj) = Inr current \<and> sameProjectIdentity pj current"
  by (auto simp: revalidated_def rbind_Inr_iff validate_root_iff)

lemma same_identity: "sameProjectIdentity pj current \<longleftrightarrow> pj = current"
  by (cases pj; cases current) (auto simp: sameProjectIdentity_def)

lemma resolve_descendant_returns: "\<exists>r. resolveDescendant before now pj c = Some r"
proof (cases "revalidated before pj c")
  case (Inl e)
  then show ?thesis by (simp add: resolve_descendant_unfold)
next
  case (Inr current)
  then have "canonical_path (pjRoot pj)" "canonical_path c" "inside c (pjRoot pj)" by (simp_all add: revalidated_iff)
  then obtain rs ds where p: "pjRoot pj = abs_path rs" "c = abs_path (rs @ ds)" "list_all proper (rs @ ds)" "rs \<noteq> []"
    by (rule below_root)
  from nearest_existing_spec [OF p(3,4), of "inLstat now" True] obtain r where
    "nearest_existing (inLstat now) (pjRoot pj) c True = Some r" unfolding p(1,2) by blast
  then show ?thesis by (simp add: resolve_descendant_unfold Inr)
qed

definition proven_below :: "inspection \<Rightarrow> project \<Rightarrow> string list \<Rightarrow> string list \<Rightarrow> descendant \<Rightarrow> bool" where
  "proven_below now pj rs ds d = (\<exists>es ms info mounts m. ds = es @ ms \<and> dsNearest d = abs_path (rs @ es)
     \<and> dsExists d = (ms = [])
     \<and> inLstat now (dsNearest d) = Got info \<and> \<not> is_symlink info \<and> inEval now (dsNearest d) = Some (dsNearest d)
     \<and> (\<forall>xs. prefix es xs \<longrightarrow> prefix xs ds \<longrightarrow> xs \<noteq> es \<longrightarrow> inLstat now (abs_path (rs @ xs)) = Absent)
     \<and> live_mounts now = Inr mounts \<and> containingMount (dsNearest d) mounts = Inr m
     \<and> miID m = pjMountID pj \<and> miPoint m = pjMountPoint pj \<and> miDevice m = pjDevice pj \<and> piDev info = pjDevice pj)"

lemma resolve_descendant_spec:
  assumes "resolveDescendant before now pj c = Some (Inr d)"
  shows "\<exists>rs ds. pjRoot pj = abs_path rs \<and> c = abs_path (rs @ ds) \<and> list_all proper (rs @ ds) \<and> rs \<noteq> []
     \<and> classify before (pjRoot pj) = Inr pj \<and> dsPath d = c \<and> dsRelative d = (if ds = [] then ''.'' else join ''/'' ds)
     \<and> proven_below now pj rs ds d"
proof -
  from assms obtain current where v: "revalidated before pj c = Inr current"
    by (auto simp: resolve_descendant_unfold split: sum.splits)
  then have k: "canonical_path (pjRoot pj)" "canonical_path c" "inside c (pjRoot pj)"
    "classify before (pjRoot pj) = Inr pj" "current = pj" by (auto simp: revalidated_iff same_identity)
  from k(1-3) obtain rs ds where p: "pjRoot pj = abs_path rs" "c = abs_path (rs @ ds)" "list_all proper (rs @ ds)" "rs \<noteq> []"
    by (rule below_root)
  from assms v k(5) obtain near e info where
    n: "nearest_existing (inLstat now) (abs_path rs) (abs_path (rs @ ds)) True = Some (Inr (near, e, info))"
    and q: "prove_path now pj c (near, e, info) = Inr d"
    by (auto simp: resolve_descendant_unfold p(1,2) rbind_Inr_iff)
  from nearest_existing_spec [OF p(3,4), of "inLstat now" True] n obtain es ms where
    w: "ds = es @ ms" "near = abs_path (rs @ es)" "inLstat now near = Got info" "e = (ms = [])"
      "\<forall>xs. prefix es xs \<longrightarrow> prefix xs ds \<longrightarrow> xs \<noteq> es \<longrightarrow> inLstat now (abs_path (rs @ xs)) = Absent" by auto
  from q obtain mounts m where "\<not> is_symlink info" "inEval now near = Some near" "live_mounts now = Inr mounts"
    "containingMount near mounts = Inr m" "miID m = pjMountID pj" "miPoint m = pjMountPoint pj" "miDevice m = pjDevice pj"
    "piDev info = pjDevice pj" and
    d: "d = \<lparr>dsPath = c, dsRelative = (let rest = trim_prefix c (pjRoot pj) in if rest = [] then ''.'' else trim_prefix rest ''/''),
        dsExists = e, dsNearest = near\<rparr>"
    by (auto simp: prove_path_def rbind_Inr_iff Let_def split: if_splits option.splits)
  then have "proven_below now pj rs ds d" unfolding proven_below_def using w by auto
  moreover have "dsRelative d = (if ds = [] then ''.'' else join ''/'' ds)" "dsPath d = c"
    using relative_path [OF p(3,4)] by (simp_all add: d p(1,2))
  ultimately show ?thesis using p k(4) by blast
qed

section \<open>The search for a project root\<close>

definition has_marker :: "(string \<Rightarrow> path_info io) \<Rightarrow> string list \<Rightarrow> string \<Rightarrow> bool" where
  "has_marker lstat markers dir = (\<exists>marker \<in> set markers. \<exists>info. lstat (path_join [dir, marker]) = Got info)"

lemma markers_loop:
  assumes "fold_result (check_marker_path lstat dir) markers b = Inr matched"
  shows "matched = (b \<or> has_marker lstat markers dir)"
  using assms
proof (induction markers arbitrary: b)
  case (Cons marker markers)
  from Cons.prems obtain b' where b: "check_marker_path lstat dir marker b = Inr b'"
    and r: "fold_result (check_marker_path lstat dir) markers b' = Inr matched" by (auto simp: rbind_Inr_iff)
  from b have "b' = (b \<or> (\<exists>info. lstat (path_join [dir, marker]) = Got info))"
    by (auto simp: check_marker_path_def Let_def split: io.splits if_splits)
  with Cons.IH [OF r] show ?case by (auto simp: has_marker_def)
qed (simp add: has_marker_def)

lemma find_root_spec:
  assumes "list_all proper ds"
  shows "\<exists>r. find_root lstat markers outermost (abs_path ds) sel = Some r
     \<and> (\<forall>s. r = Inr s \<longrightarrow>
         (s = sel \<and> (\<forall>xs. prefix xs ds \<longrightarrow> xs \<noteq> [] \<longrightarrow> \<not> has_marker lstat markers (abs_path xs)))
       \<or> (\<exists>xs. prefix xs ds \<and> xs \<noteq> [] \<and> s = abs_path xs \<and> has_marker lstat markers s
           \<and> (\<forall>ys. prefix ys ds \<longrightarrow> ys \<noteq> [] \<longrightarrow> has_marker lstat markers (abs_path ys) \<longrightarrow>
               (if outermost then prefix xs ys else prefix ys xs))))"
  using assms
proof (induction ds arbitrary: sel rule: rev_induct)
  case Nil
  then show ?case by (subst find_root.simps) (simp add: abs_path_def)
next
  case (snoc d ds)
  let ?c = "abs_path (ds @ [d])"
  have p: "list_all proper ds" using snoc.prems by simp
  have "join ''/'' (ds @ [d]) \<noteq> []" by (rule join_nonempty [OF snoc.prems]) simp
  then have ne: "?c \<noteq> ''/''" by (simp add: abs_path_def)
  have dir: "path_dir ?c = abs_path ds" by (rule path_dir_abs [OF snoc.prems])
  show ?case
  proof (cases "fold_result (check_marker_path lstat ?c) markers False")
    case (Inl e)
    then show ?thesis by (subst find_root.simps) (simp add: ne)
  next
    case (Inr matched)
    then have m: "matched = has_marker lstat markers ?c" using markers_loop by blast
    show ?thesis
    proof (cases "matched \<and> \<not> outermost")
      case True
      then have f: "find_root lstat markers outermost ?c sel = Some (Inr ?c)"
        by (subst find_root.simps) (simp add: ne Inr)
      show ?thesis unfolding f using True m by (auto intro!: exI [of _ "ds @ [d]"])
    next
      case False
      let ?sel = "if matched then ?c else sel"
      have f: "find_root lstat markers outermost ?c sel = find_root lstat markers outermost (abs_path ds) ?sel"
        by (subst find_root.simps) (simp only: ne Inr dir False if_False sum.case)
      from snoc.IH [OF p, of ?sel] obtain r where
        r: "find_root lstat markers outermost (abs_path ds) ?sel = Some r" and
        q: "\<And>s. r = Inr s \<Longrightarrow>
         (s = ?sel \<and> (\<forall>xs. prefix xs ds \<longrightarrow> xs \<noteq> [] \<longrightarrow> \<not> has_marker lstat markers (abs_path xs)))
       \<or> (\<exists>xs. prefix xs ds \<and> xs \<noteq> [] \<and> s = abs_path xs \<and> has_marker lstat markers s
           \<and> (\<forall>ys. prefix ys ds \<longrightarrow> ys \<noteq> [] \<longrightarrow> has_marker lstat markers (abs_path ys) \<longrightarrow>
               (if outermost then prefix xs ys else prefix ys xs)))" by blast
      have "(s = sel \<and> (\<forall>xs. prefix xs (ds @ [d]) \<longrightarrow> xs \<noteq> [] \<longrightarrow> \<not> has_marker lstat markers (abs_path xs)))
       \<or> (\<exists>xs. prefix xs (ds @ [d]) \<and> xs \<noteq> [] \<and> s = abs_path xs \<and> has_marker lstat markers s
           \<and> (\<forall>ys. prefix ys (ds @ [d]) \<longrightarrow> ys \<noteq> [] \<longrightarrow> has_marker lstat markers (abs_path ys) \<longrightarrow>
               (if outermost then prefix xs ys else prefix ys xs)))" if s: "r = Inr s" for s
        using q [OF s]
      proof (elim disjE exE conjE)
        assume a: "s = ?sel" "\<forall>xs. prefix xs ds \<longrightarrow> xs \<noteq> [] \<longrightarrow> \<not> has_marker lstat markers (abs_path xs)"
        show ?thesis
        proof (cases matched)
          case True
          with a m have "s = ?c" "has_marker lstat markers ?c" by simp_all
          moreover have "if outermost then prefix (ds @ [d]) ys else prefix ys (ds @ [d])"
            if "prefix ys (ds @ [d])" "ys \<noteq> []" "has_marker lstat markers (abs_path ys)" for ys
            using that a(2) by (auto simp: prefix_snoc)
          ultimately show ?thesis by blast
        next
          case False
          with a m show ?thesis by (auto simp: prefix_snoc)
        qed
      next
        fix xs assume x: "prefix xs ds" "xs \<noteq> []" "s = abs_path xs" "has_marker lstat markers s"
          and b: "\<forall>ys. prefix ys ds \<longrightarrow> ys \<noteq> [] \<longrightarrow> has_marker lstat markers (abs_path ys) \<longrightarrow>
               (if outermost then prefix xs ys else prefix ys xs)"
        have "if outermost then prefix xs ys else prefix ys xs"
          if y: "prefix ys (ds @ [d])" "ys \<noteq> []" "has_marker lstat markers (abs_path ys)" for ys
        proof (cases "ys = ds @ [d]")
          case True
          with y(3) m False x(1) show ?thesis by (auto simp: prefix_snoc)
        next
          case False
          with y b show ?thesis by (auto simp: prefix_snoc)
        qed
        moreover have "prefix xs (ds @ [d])" using x(1) by (simp add: prefix_snoc)
        ultimately show ?thesis using x(2-4) by (intro disjI2 exI [of _ xs] conjI allI impI) assumption+
      qed
      then show ?thesis unfolding f r by (intro exI [of _ r] conjI refl allI impI) assumption
    qed
  qed
qed

end
