(* ===== verification/Wsl_Volume.thy ===== *)
theory Wsl_Volume
  imports Wsl_Project_Facts
begin

text \<open>
  Docker volumes of the native WSL2 frontend (\<open>internal/wslvolume\<close>): the name and the labels of a
  volume, the bindings a stateful or a Python tool gets, the proof that a discovered volume is one
  of ours, and the lifecycle \<open>inspect\<close>, \<open>ensure\<close>, \<open>remove\<close>, \<open>discover\<close>. The answers of the Docker
  engine, decoded from JSON, are arguments: a lifecycle function takes one answer per request, in
  the order of its requests.
\<close>

section \<open>Identity\<close>

record volume =
  voName :: string
  voLabels :: "(string, string) gomap"

record volume_scope =
  scNamespace :: string
  scPrefix :: string

datatype volume_name_error =
    Bad_Namespace string
  | Bad_Group string
  | Bad_Logical string
  | Name_Too_Long
  | Bad_Project_Path
  | Bad_Project_Control

definition NamespaceLabel :: string where "NamespaceLabel = ''cb.wsl_namespace''"
definition maxVolumeNameLength :: nat where "maxVolumeNameLength = 255"
definition projectDomain :: string where "projectDomain = ''container-bin/wsl2-project/v1'' @ [CHR 0x00]"

text \<open>\<open>labels[key]\<close> is empty for a missing key.\<close>

definition label_of :: "(string, string) gomap \<Rightarrow> string \<Rightarrow> string" where
  "label_of labels key = (case map_of labels key of None \<Rightarrow> [] | Some v \<Rightarrow> v)"

definition Matches :: "volume \<Rightarrow> string \<Rightarrow> (string, string) gomap \<Rightarrow> bool" where
  "Matches v name labels =
     (name = voName v \<and> length labels = length (voLabels v)
      \<and> list_all (\<lambda>e. label_of labels (fst e) = snd e) (voLabels v))"

definition namespace_prefix :: "string \<Rightarrow> string" where
  "namespace_prefix namespace = ''cb-'' @ namespace @ ''-''"

definition NewScope :: "wsl_layout \<Rightarrow> (volume_name_error, volume_scope) result" where
  "NewScope layout =
     (if \<not> validNamespace (wlStateNamespace layout) then Inl (Bad_Namespace (wlStateNamespace layout))
      else Inr \<lparr>scNamespace = wlStateNamespace layout, scPrefix = namespace_prefix (wlStateNamespace layout)\<rparr>)"

definition valid_scope :: "volume_scope \<Rightarrow> bool" where
  "valid_scope s = (validNamespace (scNamespace s) \<and> scPrefix s = namespace_prefix (scNamespace s))"

definition FilterLabel :: "volume_scope \<Rightarrow> string" where
  "FilterLabel s = NamespaceLabel @ ''='' @ scNamespace s"

definition validateOwner :: "string \<Rightarrow> string \<Rightarrow> (volume_name_error, unit) result" where
  "validateOwner grp lname =
     (if \<not> ValidToolName grp then Inl (Bad_Group grp)
      else if \<not> ValidToolName lname then Inl (Bad_Logical lname) else Inr ())"

definition ownerName :: "string \<Rightarrow> string \<Rightarrow> string" where
  "ownerName grp lname =
     digits_of_nat (length grp) @ ''-'' @ grp @ ''-'' @ digits_of_nat (length lname) @ ''-'' @ lname"

definition volumeName :: "volume_scope \<Rightarrow> string \<Rightarrow> string \<Rightarrow> string \<Rightarrow> (volume_name_error, string) result" where
  "volumeName s grp lname suf =
     (let name = scPrefix s @ ownerName grp lname @ suf in
      if maxVolumeNameLength < length name then Inl Name_Too_Long else Inr name)"

definition validateProjectRoot :: "string \<Rightarrow> (volume_name_error, unit) result" where
  "validateProjectRoot root =
     (if root = [] \<or> \<not> valid_utf8 root \<or> \<not> path_is_abs root \<or> path_clean root \<noteq> root \<or> root = ''/''
         \<or> contains_byte root CHR 0x5C
      then Inl Bad_Project_Path
      else if list_ex is_control_rune (rune_values root) then Inl Bad_Project_Control
      else Inr ())"

definition ProjectHash :: "string \<Rightarrow> (volume_name_error, string) result" where
  "ProjectHash root = rbind (validateProjectRoot root) (\<lambda>_. Inr (hex_encode (take 6 (Sum256 (projectDomain @ root)))))"

definition SharedVolume :: "volume_scope \<Rightarrow> string \<Rightarrow> string \<Rightarrow> (volume_name_error, volume) result" where
  "SharedVolume s grp lname =
     rbind (validateOwner grp lname) (\<lambda>_.
     rbind (volumeName s grp lname []) (\<lambda>name.
       Inr \<lparr>voName = name,
         voLabels = [(''cb.managed'', ''true''), (''cb.kind'', ''shared''), (''cb.owner'', grp @ ''/'' @ lname),
           (NamespaceLabel, scNamespace s)]\<rparr>))"

definition ProjectVolume :: "volume_scope \<Rightarrow> string \<Rightarrow> string \<Rightarrow> string \<Rightarrow> (volume_name_error, volume) result" where
  "ProjectVolume s grp lname root =
     rbind (validateOwner grp lname) (\<lambda>_.
     rbind (ProjectHash root) (\<lambda>hash.
     rbind (volumeName s grp lname (''-'' @ hash)) (\<lambda>name.
       Inr \<lparr>voName = name,
         voLabels = [(''cb.managed'', ''true''), (''cb.kind'', ''project''), (''cb.owner'', grp @ ''/'' @ lname),
           (''cb.project_path'', root), (''cb.project_hash'', hash), (NamespaceLabel, scNamespace s)]\<rparr>)))"

section \<open>Bindings of a stateful tool\<close>

record volume_binding =
  bdVolume :: volume
  bdDestination :: string

datatype binding_error =
    Plan_Scope
  | Plan_Provider string
  | Plan_No_Group
  | Plan_No_Volumes
  | Plan_Isolated
  | Plan_Workspace volume_name_error
  | Plan_Root project_error
  | Plan_Not_Exact_Root
  | Plan_Binding string volume_error
  | Plan_Volume string volume_name_error
  | Plan_Collision string string

definition workspaceDestination :: "string \<Rightarrow> string \<Rightarrow> string" where
  "workspaceDestination destination0 workspaceRoot =
     (let destination = path_clean destination0 in
      if destination = ''/workspace'' then workspaceRoot
      else if has_prefix destination ''/workspace/'' then workspaceRoot @ trim_prefix destination ''/workspace''
      else destination)"

text \<open>The proof of the exact project root, shared by the stateful and the Python planner.\<close>

definition exact_root :: "project \<Rightarrow> descendant \<Rightarrow> bool" where
  "exact_root pj d = (dsExists d \<and> dsPath d = pjRoot pj \<and> dsRelative d = ''.'' \<and> dsNearest d = pjRoot pj)"

definition append_binding :: "volume \<Rightarrow> string \<Rightarrow> volume_binding list \<Rightarrow> (binding_error, volume_binding list) result" where
  "append_binding v destination bindings =
     (if destination \<in> set (map bdDestination bindings) then Inl (Plan_Collision (voName v) destination)
      else Inr (bindings @ [\<lparr>bdVolume = v, bdDestination = destination\<rparr>]))"

definition bind_project ::
    "volume_scope \<Rightarrow> tool \<Rightarrow> project \<Rightarrow> string \<Rightarrow> string \<Rightarrow> volume_binding list \<Rightarrow> (binding_error, volume_binding list) result" where
  "bind_project s t pj workspaceRoot spec bindings =
     rbind (map_err (Plan_Binding spec) (ParseVolumeBinding spec)) (\<lambda>(lname, destination).
     rbind (map_err (Plan_Volume lname) (ProjectVolume s (tStateGroup t) lname (pjRoot pj))) (\<lambda>v.
       append_binding v (workspaceDestination destination workspaceRoot) bindings))"

definition bind_shared :: "volume_scope \<Rightarrow> tool \<Rightarrow> string \<Rightarrow> volume_binding list \<Rightarrow> (binding_error, volume_binding list) result" where
  "bind_shared s t spec bindings =
     rbind (map_err (Plan_Binding spec) (ParseVolumeBinding spec)) (\<lambda>(lname, destination).
     rbind (map_err (Plan_Volume lname) (SharedVolume s (tStateGroup t) lname)) (\<lambda>v.
       append_binding v (path_clean destination) bindings))"

definition check_project_root ::
    "(project \<Rightarrow> string \<Rightarrow> (project_error, descendant) result) \<Rightarrow> tool \<Rightarrow> project \<Rightarrow> string \<Rightarrow> (binding_error, unit) result" where
  "check_project_root classifyDescendant t pj workspaceRoot =
     (if tProjectVolumes t = [] then Inr ()
      else if tCwdMode t = ''isolated'' then Inl Plan_Isolated
      else rbind (map_err Plan_Workspace (validateProjectRoot workspaceRoot)) (\<lambda>_.
        rbind (map_err Plan_Root (classifyDescendant pj (pjRoot pj))) (\<lambda>root.
          if \<not> exact_root pj root then Inl Plan_Not_Exact_Root else Inr ())))"

definition planStatefulToolVolumes ::
    "(project \<Rightarrow> string \<Rightarrow> (project_error, descendant) result) \<Rightarrow> volume_scope \<Rightarrow> tool \<Rightarrow> project \<Rightarrow> string
      \<Rightarrow> (binding_error, volume_binding list) result" where
  "planStatefulToolVolumes classifyDescendant s t pj workspaceRoot =
     (if \<not> valid_scope s then Inl Plan_Scope
      else if tProvider t \<noteq> ''stateful'' then Inl (Plan_Provider (tProvider t))
      else if tStateGroup t = [] then Inl Plan_No_Group
      else if tProjectVolumes t = [] \<and> tSharedVolumes t = [] then Inl Plan_No_Volumes
      else rbind (check_project_root classifyDescendant t pj workspaceRoot) (\<lambda>_.
        rbind (fold_result (bind_project s t pj workspaceRoot) (tProjectVolumes t) []) (\<lambda>bindings.
          fold_result (bind_shared s t) (tSharedVolumes t) bindings)))"

section \<open>Volumes of a Python tool\<close>

record python_state =
  pyVenv :: volume
  pyPipCache :: volume

datatype python_error =
    Python_Scope
  | Python_Root project_error
  | Python_Not_Exact_Root
  | Python_Volume volume_name_error

definition PythonStateGroup :: string where "PythonStateGroup = ''python313''"

definition planPythonVolumes ::
    "(project \<Rightarrow> string \<Rightarrow> (project_error, descendant) result) \<Rightarrow> volume_scope \<Rightarrow> project \<Rightarrow> bool
      \<Rightarrow> (python_error, python_state) result" where
  "planPythonVolumes classifyDescendant s pj found =
     (if \<not> valid_scope s then Inl Python_Scope
      else rbind (if found then
            rbind (map_err Python_Root (classifyDescendant pj (pjRoot pj))) (\<lambda>root.
              if \<not> exact_root pj root then Inl Python_Not_Exact_Root
              else map_err Python_Volume (ProjectVolume s PythonStateGroup ''venv'' (pjRoot pj)))
          else map_err Python_Volume (SharedVolume s PythonStateGroup ''compat-venv'')) (\<lambda>venv.
        rbind (map_err Python_Volume (SharedVolume s PythonStateGroup ''pip-cache'')) (\<lambda>pipCache.
          Inr \<lparr>pyVenv = venv, pyPipCache = pipCache\<rparr>)))"

section \<open>Observed volumes\<close>

record engine_volume =
  evName :: string
  evDriver :: string
  evScope :: string
  evLabels :: "(string, string) gomap option"

definition observed_labels :: "engine_volume \<Rightarrow> (string, string) gomap" where
  "observed_labels v = (case evLabels v of None \<Rightarrow> [] | Some ls \<Rightarrow> ls)"

datatype proof_error =
    Proof_Scope
  | Proof_Incomplete
  | Proof_Out_Of_Scope string
  | Proof_Not_Canonical string
  | Proof_Control string
  | Proof_Owner string
  | Proof_Kind string
  | Proof_Reconstruct volume_name_error
  | Proof_Driver
  | Proof_Mismatch

definition requireExactVolume :: "volume \<Rightarrow> engine_volume \<Rightarrow> (proof_error, unit) result" where
  "requireExactVolume expected observed =
     (if evDriver observed \<noteq> ''local'' \<or> evScope observed \<noteq> ''local'' then Inl Proof_Driver
      else if \<not> Matches expected (evName observed) (observed_labels observed) then Inl Proof_Mismatch
      else Inr ())"

definition check_identity_text :: "string \<Rightarrow> (proof_error, unit) result" where
  "check_identity_text v =
     (if trim_space v \<noteq> v then Inl (Proof_Not_Canonical v)
      else if list_ex is_control_rune (rune_values v) then Inl (Proof_Control v) else Inr ())"

definition validateDiscoveredVolume :: "volume_scope \<Rightarrow> engine_volume \<Rightarrow> (proof_error, unit) result" where
  "validateDiscoveredVolume s observed =
     (if evName observed = [] \<or> evDriver observed = [] \<or> evScope observed = [] \<or> evLabels observed = None
      then Inl Proof_Incomplete
      else if \<not> has_prefix (evName observed) (scPrefix s)
           \<or> label_of (observed_labels observed) NamespaceLabel \<noteq> scNamespace s
      then Inl (Proof_Out_Of_Scope (evName observed))
      else check_all check_identity_text [evName observed, evDriver observed, evScope observed])"

definition expected_volume :: "volume_scope \<Rightarrow> (string, string) gomap \<Rightarrow> (proof_error, volume) result" where
  "expected_volume s labels = (case cut_byte (label_of labels ''cb.owner'') CHR ''/'' of
     None \<Rightarrow> Inl (Proof_Owner (label_of labels ''cb.owner''))
   | Some (grp, lname) \<Rightarrow>
     (if contains_byte lname CHR ''/'' then Inl (Proof_Owner (label_of labels ''cb.owner''))
      else if label_of labels ''cb.kind'' = ''shared'' then map_err Proof_Reconstruct (SharedVolume s grp lname)
      else if label_of labels ''cb.kind'' = ''project''
      then map_err Proof_Reconstruct (ProjectVolume s grp lname (label_of labels ''cb.project_path''))
      else Inl (Proof_Kind (label_of labels ''cb.kind''))))"

text \<open>A candidate of the discovery has the fields of an observed volume.\<close>

definition ProveCandidate :: "volume_scope \<Rightarrow> engine_volume \<Rightarrow> (proof_error, volume) result" where
  "ProveCandidate s observed =
     (if \<not> valid_scope s then Inl Proof_Scope
      else rbind (validateDiscoveredVolume s observed) (\<lambda>_.
        rbind (expected_volume s (observed_labels observed)) (\<lambda>expected.
        rbind (requireExactVolume expected observed) (\<lambda>_. Inr expected))))"

section \<open>Lifecycle\<close>

datatype 'a reply = Reply 'a | Not_Found | Reply_Error

datatype lifecycle_error =
    Life_Identity
  | Life_Request
  | Life_Decode
  | Life_Exact proof_error
  | Life_Disappeared
  | Life_Absent
  | Life_Still_There
  | Life_Warnings
  | Life_Duplicate string

definition decodeVolume :: "engine_volume \<Rightarrow> (lifecycle_error, engine_volume) result" where
  "decodeVolume v =
     (if evName v = [] \<or> evDriver v = [] \<or> evScope v = [] \<or> evLabels v = None then Inl Life_Decode else Inr v)"

definition inspectVolume :: "engine_volume reply \<Rightarrow> (lifecycle_error, engine_volume option) result" where
  "inspectVolume r = (case r of
     Not_Found \<Rightarrow> Inr None
   | Reply_Error \<Rightarrow> Inl Life_Request
   | Reply v \<Rightarrow> rbind (decodeVolume v) (\<lambda>v'. Inr (Some v')))"

definition validateConstructedVolume :: "volume \<Rightarrow> (lifecycle_error, unit) result" where
  "validateConstructedVolume v =
     (let labels = voLabels v; namespace = label_of labels NamespaceLabel in
      if \<not> validNamespace namespace then Inl Life_Identity
      else (case expected_volume \<lparr>scNamespace = namespace, scPrefix = namespace_prefix namespace\<rparr> labels of
          Inl _ \<Rightarrow> Inl Life_Identity
        | Inr expected \<Rightarrow> if Matches expected (voName v) labels then Inr () else Inl Life_Identity))"

definition inspect :: "volume \<Rightarrow> engine_volume reply \<Rightarrow> (lifecycle_error, bool) result" where
  "inspect v first =
     rbind (validateConstructedVolume v) (\<lambda>_.
     rbind (inspectVolume first) (\<lambda>o1. case o1 of
       None \<Rightarrow> Inr False
     | Some observed \<Rightarrow> rbind (map_err Life_Exact (requireExactVolume v observed)) (\<lambda>_. Inr True)))"

text \<open>\<open>ensure\<close>: the answers to the first inspection, the creation and the second inspection.\<close>

definition ensure_volume ::
    "volume \<Rightarrow> engine_volume reply \<Rightarrow> engine_volume option \<Rightarrow> engine_volume reply \<Rightarrow> (lifecycle_error, unit) result" where
  "ensure_volume v first create second =
     rbind (validateConstructedVolume v) (\<lambda>_.
     rbind (inspectVolume first) (\<lambda>o1. case o1 of
       Some observed \<Rightarrow> map_err Life_Exact (requireExactVolume v observed)
     | None \<Rightarrow> (case create of
         None \<Rightarrow> Inl Life_Request
       | Some body \<Rightarrow>
         rbind (decodeVolume body) (\<lambda>created.
         rbind (map_err Life_Exact (requireExactVolume v created)) (\<lambda>_.
         rbind (inspectVolume second) (\<lambda>o2. case o2 of
           None \<Rightarrow> Inl Life_Disappeared
         | Some observed \<Rightarrow> map_err Life_Exact (requireExactVolume v observed)))))))"

text \<open>\<open>remove\<close>: whether the deletion was sent, and the result.\<close>

definition remove_volume ::
    "volume \<Rightarrow> engine_volume reply \<Rightarrow> bool \<Rightarrow> engine_volume reply \<Rightarrow> bool \<times> (lifecycle_error, unit) result" where
  "remove_volume v first deleted second =
     (case rbind (validateConstructedVolume v) (\<lambda>_.
         rbind (inspectVolume first) (\<lambda>o1. case o1 of
           None \<Rightarrow> Inl Life_Absent
         | Some observed \<Rightarrow> map_err Life_Exact (requireExactVolume v observed))) of
        Inl e \<Rightarrow> (False, Inl e)
      | Inr _ \<Rightarrow> (True,
          if \<not> deleted then Inl Life_Request
          else rbind (inspectVolume second) (\<lambda>o2. case o2 of None \<Rightarrow> Inr () | Some _ \<Rightarrow> Inl Life_Still_There)))"

definition discover_step :: "volume_scope \<Rightarrow> engine_volume \<Rightarrow> engine_volume list \<Rightarrow> (lifecycle_error, engine_volume list) result" where
  "discover_step s observed candidates =
     rbind (map_err Life_Exact (validateDiscoveredVolume s observed)) (\<lambda>_.
       if evName observed \<in> set (map evName candidates) then Inl (Life_Duplicate (evName observed))
       else Inr (candidates @ [observed]))"

definition discover ::
    "volume_scope \<Rightarrow> (engine_volume list \<times> string list) option \<Rightarrow> (lifecycle_error, engine_volume list) result" where
  "discover s listed =
     (if \<not> valid_scope s then Inl Life_Identity
      else (case listed of
          None \<Rightarrow> Inl Life_Request
        | Some (vs, warnings) \<Rightarrow>
          (if warnings \<noteq> [] then Inl Life_Warnings
           else rbind (fold_result (discover_step s) vs []) (\<lambda>candidates. Inr (sort_key evName candidates)))))"

definition ensure_binding ::
    "(volume \<Rightarrow> (lifecycle_error, unit) result) \<Rightarrow> volume_binding \<Rightarrow> string list \<Rightarrow> (lifecycle_error, string list) result" where
  "ensure_binding ensure b ensured =
     (if voName (bdVolume b) \<in> set ensured then Inr ensured
      else rbind (ensure (bdVolume b)) (\<lambda>_. Inr (voName (bdVolume b) # ensured)))"

datatype ensure_tool_error = Ensure_Plan binding_error | Ensure_Volume lifecycle_error

definition ensureStatefulToolVolumes ::
    "(project \<Rightarrow> string \<Rightarrow> (project_error, descendant) result) \<Rightarrow> (volume \<Rightarrow> (lifecycle_error, unit) result)
      \<Rightarrow> volume_scope \<Rightarrow> tool \<Rightarrow> project \<Rightarrow> string \<Rightarrow> (ensure_tool_error, volume_binding list) result" where
  "ensureStatefulToolVolumes classifyDescendant ensure s t pj workspaceRoot =
     rbind (map_err Ensure_Plan (planStatefulToolVolumes classifyDescendant s t pj workspaceRoot)) (\<lambda>bindings.
     rbind (map_err Ensure_Volume (fold_result (ensure_binding ensure) bindings [])) (\<lambda>_. Inr bindings))"

end
