(* ===== verification/Wsl_Create.thy ===== *)
theory Wsl_Create
  imports Wsl_Volume
begin

text \<open>
  Containers of the native WSL2 frontend (\<open>internal/wsldocker/create.go\<close>, \<open>remove.go\<close>,
  \<open>reconcile.go\<close>, \<open>container.go\<close>): the validation of a creation request, the proof of its mounts,
  the ownership of a created container and its rollback, the removal of a container, and the
  adoption of a retained one. The answers of the engine are arguments, as in \<open>Wsl_Volume\<close>.
\<close>

section \<open>Requests\<close>

datatype mount_type = Bind | Volume | Other_Mount string

record container_mount =
  cmType :: mount_type
  cmSource :: string
  cmTarget :: string
  cmReadOnly :: bool
  cmVolumeLabels :: "(string, string) gomap"

record create_spec =
  csTool :: string
  csNamespace :: string
  csImage :: string
  csCommand :: "string list"
  csEnvironment :: "string list"
  csWorkingDirectory :: string
  csMounts :: "container_mount list"
  csTTY :: bool
  csHeight :: "16 word"
  csWidth :: "16 word"
  csRetain :: bool

datatype create_error =
    Create_Tool string
  | Create_Namespace string
  | Create_Image
  | Create_Path_Text
  | Create_Path_Control
  | Create_Working_Directory create_error
  | Create_Terminal
  | Create_Terminal_TTY
  | Create_Argument nat
  | Create_Environment string
  | Create_Duplicate_Environment string
  | Create_Mount nat create_error
  | Create_Two_Binds
  | Create_Duplicate_Target string
  | Create_Target create_error
  | Create_Source create_error
  | Create_Docker_Socket
  | Create_Volume_Name string
  | Create_Volume_Namespace string
  | Create_Labels_Identity
  | Create_Labels_Kind
  | Create_Labels_Owner
  | Create_Labels_Text
  | Create_Mount_Type string

definition DockerSocketPath :: string where "DockerSocketPath = ''/var/run/docker.sock''"
definition RunDockerSocketPath :: string where "RunDockerSocketPath = ''/run/docker.sock''"

definition validateContainerPath :: "string \<Rightarrow> (create_error, unit) result" where
  "validateContainerPath v =
     (if v = [] \<or> \<not> valid_utf8 v \<or> \<not> path_is_abs v \<or> path_clean v \<noteq> v \<or> v = ''/'' \<or> contains_byte v CHR 0x5C
      then Inl Create_Path_Text
      else if list_ex is_control_rune (rune_values v) then Inl Create_Path_Control
      else Inr ())"

definition validateImageReference :: "string \<Rightarrow> (create_error, unit) result" where
  "validateImageReference v =
     (if v = [] \<or> 4096 < length v \<or> \<not> valid_utf8 v \<or> trim_space v \<noteq> v then Inl Create_Image
      else if list_ex (\<lambda>r. is_space_rune r \<or> is_control_rune r) (rune_values v) then Inl Create_Image
      else Inr ())"

definition letter_rune :: "rune \<Rightarrow> bool" where
  "letter_rune r = ((65 \<le> r \<and> r \<le> 90) \<or> (97 \<le> r \<and> r \<le> 122))"

definition env_rune :: "nat \<times> rune \<Rightarrow> bool" where
  "env_rune p = (letter_rune (snd p) \<or> snd p = 95 \<or> (0 < fst p \<and> digit_rune (snd p)))"

text \<open>The index of a rune matters only in that it is not the first one.\<close>

definition validEnvironmentName :: "string \<Rightarrow> bool" where
  "validEnvironmentName v = (v \<noteq> [] \<and> list_all env_rune (enumerate 0 (rune_values v)))"

definition runtime_rune :: "rune \<Rightarrow> bool" where
  "runtime_rune r = ((97 \<le> r \<and> r \<le> 122) \<or> digit_rune r \<or> r = 45 \<or> r = 95)"

definition validRuntimeName :: "string \<Rightarrow> bool" where
  "validRuntimeName v = (v \<noteq> [] \<and> list_all runtime_rune (rune_values v))"

definition lower_hex_rune :: "rune \<Rightarrow> bool" where
  "lower_hex_rune r = (\<not> ((r < 48 \<or> 57 < r) \<and> (r < 97 \<or> 102 < r)))"

definition validRunID :: "string \<Rightarrow> bool" where
  "validRunID v = (length v = 32 \<and> list_all lower_hex_rune (rune_values v))"

definition validContainerID :: "string \<Rightarrow> bool" where
  "validContainerID v = (length v = 64 \<and> list_all lower_hex_rune (rune_values v))"

definition object_rune :: "nat \<times> rune \<Rightarrow> bool" where
  "object_rune p = (letter_rune (snd p) \<or> digit_rune (snd p) \<or> (0 < fst p \<and> (snd p = 95 \<or> snd p = 46 \<or> snd p = 45)))"

definition validDockerObjectName :: "string \<Rightarrow> bool" where
  "validDockerObjectName v = (v \<noteq> [] \<and> length v \<le> 255 \<and> list_all object_rune (enumerate 0 (rune_values v)))"

definition bindSourceContainsDockerSocket :: "string \<Rightarrow> bool" where
  "bindSourceContainsDockerSocket source =
     list_ex (\<lambda>socketPath. inside socketPath source) [DockerSocketPath, RunDockerSocketPath]"

definition bad_label :: "string \<times> string \<Rightarrow> bool" where
  "bad_label e = (fst e = [] \<or> \<not> valid_utf8 (fst e) \<or> \<not> valid_utf8 (snd e)
     \<or> contains_byte (fst e) CHR 0x00 \<or> contains_byte (snd e) CHR 0x00)"

definition validateVolumeLabels :: "(string, string) gomap \<Rightarrow> string \<Rightarrow> (create_error, unit) result" where
  "validateVolumeLabels labels namespace =
     (if label_of labels ''cb.managed'' \<noteq> ''true'' \<or> label_of labels NamespaceLabel \<noteq> namespace then Inl Create_Labels_Identity
      else if label_of labels ''cb.kind'' \<noteq> ''shared'' \<and> label_of labels ''cb.kind'' \<noteq> ''project'' then Inl Create_Labels_Kind
      else (case cut_byte (label_of labels ''cb.owner'') CHR ''/'' of
          None \<Rightarrow> Inl Create_Labels_Owner
        | Some (grp, lname) \<Rightarrow>
          (if contains_byte lname CHR ''/'' \<or> \<not> validRuntimeName grp \<or> \<not> validRuntimeName lname then Inl Create_Labels_Owner
           else if list_ex bad_label labels then Inl Create_Labels_Text else Inr ())))"

definition validateContainerMount :: "container_mount \<Rightarrow> string \<Rightarrow> (create_error, unit) result" where
  "validateContainerMount m namespace =
     rbind (map_err Create_Target (validateContainerPath (cmTarget m))) (\<lambda>_. case cmType m of
       Bind \<Rightarrow> rbind (map_err Create_Source (validateContainerPath (cmSource m))) (\<lambda>_.
         if bindSourceContainsDockerSocket (cmSource m) \<or> cmTarget m = DockerSocketPath \<or> cmTarget m = RunDockerSocketPath
         then Inl Create_Docker_Socket else Inr ())
     | Volume \<Rightarrow>
         (if \<not> validDockerObjectName (cmSource m) then Inl (Create_Volume_Name (cmSource m))
          else if \<not> has_prefix (cmSource m) (namespace_prefix namespace) then Inl (Create_Volume_Namespace (cmSource m))
          else validateVolumeLabels (cmVolumeLabels m) namespace)
     | Other_Mount k \<Rightarrow> Inl (Create_Mount_Type k))"

definition check_argument :: "nat \<times> string \<Rightarrow> (create_error, unit) result" where
  "check_argument e = (if \<not> valid_utf8 (snd e) \<or> contains_byte (snd e) CHR 0x00 then Inl (Create_Argument (fst e)) else Inr ())"

definition check_environment :: "string \<Rightarrow> string list \<Rightarrow> (create_error, string list) result" where
  "check_environment assignment seen = (case cut_byte assignment CHR ''='' of
     None \<Rightarrow> Inl (Create_Environment assignment)
   | Some (name, _) \<Rightarrow>
     (if \<not> valid_utf8 assignment \<or> \<not> validEnvironmentName name \<or> contains_byte assignment CHR 0x00
      then Inl (Create_Environment assignment)
      else if name \<in> set seen then Inl (Create_Duplicate_Environment name) else Inr (name # seen)))"

text \<open>The loop over the mounts: the number of bind mounts and the targets seen.\<close>

definition check_mount :: "string \<Rightarrow> nat \<times> container_mount \<Rightarrow> nat \<times> string list \<Rightarrow> (create_error, nat \<times> string list) result" where
  "check_mount namespace e st =
     (let m = snd e; binds = (if cmType m = Bind then fst st + 1 else fst st) in
      rbind (map_err (Create_Mount (fst e)) (validateContainerMount m namespace)) (\<lambda>_.
        if cmType m = Bind \<and> 1 < binds then Inl Create_Two_Binds
        else if cmTarget m \<in> set (snd st) then Inl (Create_Duplicate_Target (cmTarget m))
        else Inr (binds, cmTarget m # snd st)))"

definition validateContainerCreateSpec :: "create_spec \<Rightarrow> (create_error, unit) result" where
  "validateContainerCreateSpec spec =
     (if \<not> validRuntimeName (csTool spec) then Inl (Create_Tool (csTool spec))
      else if \<not> validNamespace (csNamespace spec) then Inl (Create_Namespace (csNamespace spec))
      else rbind (validateImageReference (csImage spec)) (\<lambda>_.
        rbind (map_err Create_Working_Directory (validateContainerPath (csWorkingDirectory spec))) (\<lambda>_.
        if (csHeight spec = 0) \<noteq> (csWidth spec = 0) then Inl Create_Terminal
        else if \<not> csTTY spec \<and> csHeight spec \<noteq> 0 then Inl Create_Terminal_TTY
        else rbind (check_all check_argument (enumerate 0 (csCommand spec))) (\<lambda>_.
          rbind (fold_result check_environment (csEnvironment spec) []) (\<lambda>_.
          rbind (fold_result (check_mount (csNamespace spec)) (enumerate 0 (csMounts spec)) (0, [])) (\<lambda>_. Inr ()))))))"

section \<open>Creation\<close>

record container =
  coID :: string
  coRunID :: string
  coNamespace :: string
  coTool :: string
  coRetain :: bool

record container_snapshot =
  ssID :: string
  ssLabels :: "(string, string) gomap"
  ssRunning :: bool
  ssTTY :: bool
  ssAttachStdin :: bool
  ssAttachStdout :: bool
  ssAttachStderr :: bool
  ssOpenStdin :: bool
  ssStdinOnce :: bool
  ssAutoRemove :: bool
  ssConsoleSize :: "16 word \<times> 16 word"

datatype run_error =
    Run_Spec create_error
  | Run_Bind_Resolve string
  | Run_Bind_Symlink string
  | Run_Bind_Socket
  | Run_Volume string
  | Run_Volume_Mismatch string
  | Run_ID
  | Run_Request
  | Run_Container_ID
  | Run_Warnings nat
  | Run_Inspect
  | Run_Not_Owned
  | Run_Running
  | Run_Configuration

definition containerLabels :: "container \<Rightarrow> (string, string) gomap" where
  "containerLabels c = [(''cb.managed'', ''true''), (''cb.kind'', ''run''), (NamespaceLabel, coNamespace c),
     (''cb.run_id'', coRunID c), (''cb.tool'', coTool c)]"

definition owned_container :: "container \<Rightarrow> container_snapshot \<Rightarrow> bool" where
  "owned_container expected observed =
     (ssID observed = coID expected \<and> list_all (\<lambda>e. label_of (ssLabels observed) (fst e) = snd e) (containerLabels expected))"

text \<open>\<open>reflect.DeepEqual\<close> on two label maps compares them as maps.\<close>

definition same_labels :: "(string, string) gomap \<Rightarrow> (string, string) gomap \<Rightarrow> bool" where
  "same_labels a b = (list_all (\<lambda>k. map_of a k = map_of b k) (mkeys a @ mkeys b))"

definition prove_mount ::
    "(string \<Rightarrow> string option) \<Rightarrow> (string \<Rightarrow> engine_volume option) \<Rightarrow> container_mount \<Rightarrow> (run_error, unit) result" where
  "prove_mount resolveBindSource observe m = (case cmType m of
     Bind \<Rightarrow> (case resolveBindSource (cmSource m) of
         None \<Rightarrow> Inl (Run_Bind_Resolve (cmSource m))
       | Some resolved \<Rightarrow>
         (if resolved \<noteq> cmSource m then Inl (Run_Bind_Symlink resolved)
          else if bindSourceContainsDockerSocket resolved then Inl Run_Bind_Socket else Inr ()))
   | Volume \<Rightarrow> (case observe (cmSource m) of
         None \<Rightarrow> Inl (Run_Volume (cmSource m))
       | Some v \<Rightarrow>
         (if evName v \<noteq> cmSource m \<or> evDriver v \<noteq> ''local'' \<or> evScope v \<noteq> ''local''
             \<or> evLabels v = None \<or> \<not> same_labels (observed_labels v) (cmVolumeLabels m)
          then Inl (Run_Volume_Mismatch (cmSource m)) else Inr ()))
   | Other_Mount _ \<Rightarrow> Inr ())"

record create_env =
  ceResolve :: "string \<Rightarrow> string option"
  ceVolume :: "string \<Rightarrow> engine_volume option"
  ceRunID :: "string option"
  ceCreated :: "(string \<times> nat) option"
  ceSnapshot :: "container_snapshot option"

definition as_requested :: "create_spec \<Rightarrow> container_snapshot \<Rightarrow> bool" where
  "as_requested spec s = (ssTTY s = csTTY spec \<and> ssConsoleSize s = (csHeight spec, csWidth spec)
     \<and> ssAttachStdin s \<and> ssAttachStdout s \<and> ssAttachStderr s \<and> ssOpenStdin s \<and> ssStdinOnce s
     \<and> ssAutoRemove s = (\<not> csRetain spec))"

definition accept_container :: "create_spec \<Rightarrow> container \<Rightarrow> nat \<Rightarrow> container_snapshot option \<Rightarrow> (run_error, container) result" where
  "accept_container spec c warnings snapshot =
     (if warnings \<noteq> 0 then Inl (Run_Warnings warnings)
      else (case snapshot of
          None \<Rightarrow> Inl Run_Inspect
        | Some s \<Rightarrow>
          (if \<not> owned_container c s then Inl Run_Not_Owned
           else if ssRunning s then Inl Run_Running
           else if \<not> as_requested spec s then Inl Run_Configuration else Inr c)))"

text \<open>
  \<open>createContainer\<close>: the container, or the error together with the container whose removal is
  requested (\<open>rollbackCreatedContainer\<close>), if one was created.
\<close>

definition createContainer :: "create_spec \<Rightarrow> create_env \<Rightarrow> (run_error \<times> container option, container) result" where
  "createContainer spec env =
     (case rbind (map_err Run_Spec (validateContainerCreateSpec spec)) (\<lambda>_.
         rbind (check_all (prove_mount (ceResolve env) (ceVolume env)) (csMounts spec)) (\<lambda>_.
         case ceRunID env of
           None \<Rightarrow> Inl Run_ID
         | Some runID \<Rightarrow>
           (if \<not> validRunID runID then Inl Run_ID
            else (case ceCreated env of
                None \<Rightarrow> Inl Run_Request
              | Some (i, warnings) \<Rightarrow>
                (if \<not> validContainerID i then Inl Run_Container_ID
                 else Inr (\<lparr>coID = i, coRunID = runID, coNamespace = csNamespace spec, coTool = csTool spec,
                   coRetain = csRetain spec\<rparr>, warnings)))))) of
        Inl e \<Rightarrow> Inl (e, None)
      | Inr (c, warnings) \<Rightarrow> (case accept_container spec c warnings (ceSnapshot env) of
            Inl e \<Rightarrow> Inl (e, Some c)
          | Inr c' \<Rightarrow> Inr c'))"

section \<open>Removal and adoption\<close>

datatype remove_error =
    Remove_Identity
  | Remove_Inspect
  | Remove_Not_Owned
  | Remove_Retention
  | Remove_Running
  | Remove_Delete
  | Remove_Verify
  | Remove_Still_There

definition valid_handle :: "container \<Rightarrow> bool" where
  "valid_handle c = (validContainerID (coID c) \<and> validRunID (coRunID c) \<and> validNamespace (coNamespace c)
     \<and> validRuntimeName (coTool c))"

text \<open>
  \<open>removeContainer\<close>: whether the deletion was sent, and the result. \<open>deleted\<close> is the answer to
  the deletion, \<open>second\<close> the answer to the inspection after it.
\<close>

definition removeContainer ::
    "container \<Rightarrow> container_snapshot reply \<Rightarrow> unit reply \<Rightarrow> container_snapshot reply \<Rightarrow> bool \<times> (remove_error, unit) result" where
  "removeContainer c first deleted second =
     (if \<not> valid_handle c then (False, Inl Remove_Identity)
      else (case first of
          Reply_Error \<Rightarrow> (False, Inl Remove_Inspect)
        | Not_Found \<Rightarrow> (False, Inr ())
        | Reply s \<Rightarrow>
          (if \<not> owned_container c s then (False, Inl Remove_Not_Owned)
           else if ssAutoRemove s \<noteq> (\<not> coRetain c) then (False, Inl Remove_Retention)
           else if ssRunning s then (False, Inl Remove_Running)
           else (True, (case deleted of
               Reply_Error \<Rightarrow> Inl Remove_Delete
             | Not_Found \<Rightarrow> (case second of
                   Reply_Error \<Rightarrow> Inl Remove_Verify | Reply _ \<Rightarrow> Inl Remove_Delete | Not_Found \<Rightarrow> Inr ())
             | Reply _ \<Rightarrow> (case second of
                   Reply_Error \<Rightarrow> Inl Remove_Verify | Reply _ \<Rightarrow> Inl Remove_Still_There | Not_Found \<Rightarrow> Inr ()))))))"

record container_candidate =
  ccID :: string
  ccRunID :: string
  ccNamespace :: string
  ccTool :: string

datatype adopt_error =
    Adopt_ID
  | Adopt_Labels
  | Adopt_Identity
  | Adopt_Duplicate_ID string
  | Adopt_Duplicate_Run string
  | Adopt_Inspect
  | Adopt_Not_Owned
  | Adopt_Contract

definition decodeContainerCandidate :: "string \<Rightarrow> (string, string) gomap \<Rightarrow> string \<Rightarrow> (adopt_error, container_candidate) result" where
  "decodeContainerCandidate i labels namespace =
     (if \<not> validContainerID i then Inl Adopt_ID
      else if label_of labels ''cb.managed'' \<noteq> ''true'' \<or> label_of labels ''cb.kind'' \<noteq> ''run''
           \<or> label_of labels NamespaceLabel \<noteq> namespace
      then Inl Adopt_Labels
      else if \<not> validRunID (label_of labels ''cb.run_id'') \<or> \<not> validRuntimeName (label_of labels ''cb.tool'')
      then Inl Adopt_Identity
      else Inr \<lparr>ccID = i, ccRunID = label_of labels ''cb.run_id'', ccNamespace = namespace,
        ccTool = label_of labels ''cb.tool''\<rparr>)"

definition discover_container ::
    "string \<Rightarrow> string \<times> (string, string) gomap \<Rightarrow> container_candidate list \<Rightarrow> (adopt_error, container_candidate list) result" where
  "discover_container namespace listed candidates =
     rbind (decodeContainerCandidate (fst listed) (snd listed) namespace) (\<lambda>c.
       if ccID c \<in> set (map ccID candidates) then Inl (Adopt_Duplicate_ID (ccID c))
       else if ccRunID c \<in> set (map ccRunID candidates) then Inl (Adopt_Duplicate_Run (ccRunID c))
       else Inr (candidates @ [c]))"

definition discoverRetainedContainers ::
    "string \<Rightarrow> (string \<times> (string, string) gomap) list option \<Rightarrow> (adopt_error, container_candidate list) result" where
  "discoverRetainedContainers namespace listed =
     (if \<not> validNamespace namespace then Inl Adopt_Identity
      else (case listed of
          None \<Rightarrow> Inl Adopt_Inspect
        | Some cs \<Rightarrow> rbind (fold_result (discover_container namespace) cs []) (\<lambda>candidates. Inr (sort_key ccID candidates))))"

text \<open>\<open>None\<close> in the result is a candidate that is gone.\<close>

definition proveRetainedContainer ::
    "container_candidate \<Rightarrow> string \<Rightarrow> container_snapshot reply \<Rightarrow> (adopt_error, (container \<times> container_snapshot) option) result" where
  "proveRetainedContainer candidate namespace reply =
     (if \<not> validNamespace namespace \<or> ccNamespace candidate \<noteq> namespace \<or> \<not> validRunID (ccRunID candidate)
         \<or> \<not> validRuntimeName (ccTool candidate) then Inl Adopt_Identity
      else if \<not> validContainerID (ccID candidate) then Inl Adopt_ID
      else (case reply of
          Reply_Error \<Rightarrow> Inl Adopt_Inspect
        | Not_Found \<Rightarrow> Inr None
        | Reply s \<Rightarrow>
          (let c = \<lparr>coID = ccID candidate, coRunID = ccRunID candidate, coNamespace = namespace,
               coTool = ccTool candidate, coRetain = True\<rparr> in
           if \<not> owned_container c s then Inl Adopt_Not_Owned
           else if ssAutoRemove s \<or> \<not> ssAttachStdin s \<or> \<not> ssAttachStdout s \<or> \<not> ssAttachStderr s \<or> \<not> ssOpenStdin s
                \<or> \<not> ssStdinOnce s
           then Inl Adopt_Contract else Inr (Some (c, s)))))"

section \<open>What a valid request guarantees\<close>

definition mount_ok :: "string \<Rightarrow> container_mount \<Rightarrow> bool" where
  "mount_ok namespace m = (validateContainerMount m namespace = Inr ())"

lemma check_mount_step:
  assumes "check_mount namespace (k, m) (n, seen) = Inr (n', seen')" "n \<le> 1"
  shows "mount_ok namespace m \<and> n' = n + (if cmType m = Bind then 1 else 0) \<and> n' \<le> 1
     \<and> cmTarget m \<notin> set seen \<and> seen' = cmTarget m # seen"
  using assms by (auto simp: check_mount_def rbind_Inr_iff Let_def mount_ok_def split: if_splits)

lemma check_mounts_spec:
  assumes "fold_result (check_mount namespace) (enumerate k ms) (n, seen) = Inr (n', seen')" "n \<le> 1" "distinct seen"
  shows "list_all (mount_ok namespace) ms \<and> n' = n + length (filter (\<lambda>m. cmType m = Bind) ms) \<and> n' \<le> 1
     \<and> distinct seen' \<and> seen' = rev (map cmTarget ms) @ seen"
  using assms
proof (induction ms arbitrary: k n seen)
  case (Cons m ms)
  from Cons.prems(1) obtain n1 seen1 where f: "check_mount namespace (k, m) (n, seen) = Inr (n1, seen1)"
    and r: "fold_result (check_mount namespace) (enumerate (Suc k) ms) (n1, seen1) = Inr (n', seen')"
    by (auto simp: rbind_Inr_iff)
  from check_mount_step [OF f Cons.prems(2)] have s: "mount_ok namespace m" "n1 = n + (if cmType m = Bind then 1 else 0)"
    "n1 \<le> 1" "cmTarget m \<notin> set seen" "seen1 = cmTarget m # seen" by blast+
  then have "distinct seen1" using Cons.prems(3) by simp
  from Cons.IH [OF r s(3) this] have h: "list_all (mount_ok namespace) ms"
    "n' = n1 + length (filter (\<lambda>m. cmType m = Bind) ms)" "n' \<le> 1" "distinct seen'" "seen' = rev (map cmTarget ms) @ seen1"
    by blast+
  show ?case by (intro conjI h(3,4)) (simp_all add: h(1,2,5) s(1,2,5))
qed simp

lemma valid_spec_mounts:
  assumes "validateContainerCreateSpec spec = Inr ()"
  shows "list_all (mount_ok (csNamespace spec)) (csMounts spec)" "distinct (map cmTarget (csMounts spec))"
    "length (filter (\<lambda>m. cmType m = Bind) (csMounts spec)) \<le> 1"
proof -
  from assms obtain n seen where f: "fold_result (check_mount (csNamespace spec)) (enumerate 0 (csMounts spec)) (0, []) = Inr (n, seen)"
    by (auto simp: validateContainerCreateSpec_def rbind_Inr_iff split: if_splits)
  from check_mounts_spec [OF f] show "list_all (mount_ok (csNamespace spec)) (csMounts spec)" "distinct (map cmTarget (csMounts spec))"
    "length (filter (\<lambda>m. cmType m = Bind) (csMounts spec)) \<le> 1" by auto
qed

lemma remove_only_owned:
  assumes "removeContainer c first deleted second = (True, r)"
  shows "\<exists>s. first = Reply s \<and> owned_container c s \<and> \<not> ssRunning s \<and> ssAutoRemove s = (\<not> coRetain c)"
  using assms by (auto simp: removeContainer_def split: if_splits reply.splits)

lemma created_or_rolled_back:
  assumes "ceCreated env = Some (i, warnings)" "validContainerID i"
    and "createContainer spec env = Inl (e, None)"
  shows "validateContainerCreateSpec spec \<noteq> Inr () \<or> check_all (prove_mount (ceResolve env) (ceVolume env)) (csMounts spec) \<noteq> Inr ()
     \<or> (\<forall>runID. ceRunID env = Some runID \<longrightarrow> \<not> validRunID runID)"
  using assms by (auto simp: createContainer_def rbind_Inl_iff rbind_Inr_iff split: sum.splits option.splits if_splits)

end
