(* ===== verification/Wsl_Pathmap.thy ===== *)
theory Wsl_Pathmap
  imports Wsl_Project_Facts
begin

text \<open>
  The mapping of tool arguments into the container workspace (\<open>internal/wslpathmap/pathmap.go\<close>).
  The classifier that proves a path to be inside the project is an argument, as in the code.
\<close>

type_synonym classifier = "project \<Rightarrow> string \<Rightarrow> (project_error, descendant) result"

datatype map_error =
    Map_No_Tool
  | Map_Workspace_Path
  | Map_Workspace_Control
  | Map_Working_Directory project_error
  | Map_Windows_Path string
  | Map_Outside string project_error
  | Map_Option_Argument string

definition isWindowsAbsolutePath :: "string \<Rightarrow> bool" where
  "isWindowsAbsolutePath value =
     (if has_prefix value [CHR 0x5C, CHR 0x5C] then True
      else if length value < 3 then False
      else
        (let drive = (byte_of (value ! 0) :: nat);
             isLetter = ((65 \<le> drive \<and> drive \<le> 90) \<or> (97 \<le> drive \<and> drive \<le> 122))
         in isLetter \<and> value ! 1 = CHR '':'' \<and> (value ! 2 = CHR 0x5C \<or> value ! 2 = CHR ''/'')))"

definition hasPackagePatternSuffix :: "string \<Rightarrow> bool" where
  "hasPackagePatternSuffix value =
     (has_suffix value ''...'' \<and> (let prefix = take (length value - 3) value in prefix = [] \<or> has_suffix prefix ''/''))"

text \<open>The path an argument stands for, \<open>None\<close> when it is not a path.\<close>

definition resolvePathArg :: "string \<Rightarrow> string \<Rightarrow> bool \<Rightarrow> string option" where
  "resolvePathArg cwd arg force =
     (if hasPackagePatternSuffix arg \<and> \<not> path_is_abs arg then None
      else if path_is_abs arg then Some (path_clean arg)
      else if (has_prefix arg ''./'' \<or> has_prefix arg ''../'') \<or> (force \<and> arg \<noteq> [] \<and> \<not> has_prefix arg ''-'')
      then Some (path_clean (path_join [cwd, arg]))
      else None)"

definition check_workspace :: "string \<Rightarrow> (map_error, unit) result" where
  "check_workspace value =
     (if value = [] \<or> \<not> valid_utf8 value \<or> \<not> path_is_abs value \<or> path_clean value \<noteq> value \<or> value = ''/''
         \<or> contains_byte value CHR 0x5C
      then Inl Map_Workspace_Path
      else if list_ex is_control_rune (rune_values value) then Inl Map_Workspace_Control
      else Inr ())"

definition container_path :: "string \<Rightarrow> descendant \<Rightarrow> string" where
  "container_path workspaceRoot d =
     (if dsRelative d = ''.'' then workspaceRoot else path_join [workspaceRoot, dsRelative d])"

definition mapArg :: "classifier \<Rightarrow> project \<Rightarrow> string \<Rightarrow> string \<Rightarrow> string \<Rightarrow> bool \<Rightarrow> (map_error, string) result" where
  "mapArg classify_path pj cwd workspaceRoot arg force =
     (if isWindowsAbsolutePath arg then Inl (Map_Windows_Path arg)
      else (case resolvePathArg cwd arg force of
          None \<Rightarrow> Inr arg
        | Some candidate \<Rightarrow> rbind (map_err (Map_Outside arg) (classify_path pj candidate)) (\<lambda>d.
            Inr (container_path workspaceRoot d))))"

record map_state =
  msForceNext :: bool
  msForcedOptions :: bool
  msMapped :: "string list"

definition equals_option :: "tool \<Rightarrow> string \<Rightarrow> string option" where
  "equals_option t arg = find (\<lambda>opt. has_prefix arg (opt @ ''='')) (tPathEquals t)"

definition force_last :: "tool \<Rightarrow> string list \<Rightarrow> nat \<Rightarrow> string \<Rightarrow> bool" where
  "force_last t args i arg =
     ((tPathLast t \<and> (tPathLastIfAny t = [] \<or> list_ex (\<lambda>a. a \<in> set (tPathLastIfAny t)) args))
      \<and> i = length args - 1 \<and> arg \<noteq> ''-'' \<and> \<not> has_prefix arg ''-'')"

text \<open>One round of the loop; \<open>m\<close> maps a value, forced or not.\<close>

definition map_step ::
    "tool \<Rightarrow> (string \<Rightarrow> bool \<Rightarrow> (map_error, string) result) \<Rightarrow> string list \<Rightarrow> nat \<times> string \<Rightarrow> map_state \<Rightarrow> (map_error, map_state) result" where
  "map_step t m args entry st =
     (let arg = snd entry in
      if msForceNext st then
        rbind (m arg True) (\<lambda>v. Inr (st\<lparr>msForceNext := False, msMapped := msMapped st @ [v]\<rparr>))
      else if arg = ''--'' then Inr (st\<lparr>msForcedOptions := False, msMapped := msMapped st @ [arg]\<rparr>)
      else if msForcedOptions st \<and> arg \<in> set (tPathNext t) then
        Inr (st\<lparr>msForceNext := True, msMapped := msMapped st @ [arg]\<rparr>)
      else (case (if msForcedOptions st then equals_option t arg else None) of
          Some opt \<Rightarrow> rbind (m (trim_prefix arg (opt @ ''='')) True) (\<lambda>v.
            Inr (st\<lparr>msMapped := msMapped st @ [opt @ ''='' @ v]\<rparr>))
        | None \<Rightarrow> rbind (m arg (msForcedOptions st \<and> force_last t args (fst entry) arg)) (\<lambda>v.
            Inr (st\<lparr>msMapped := msMapped st @ [v]\<rparr>))))"

definition mapToolArgs ::
    "classifier \<Rightarrow> tool \<Rightarrow> project \<Rightarrow> string \<Rightarrow> string \<Rightarrow> string list \<Rightarrow> (map_error, string list \<times> string) result" where
  "mapToolArgs classify_path t pj cwd workspaceRoot args =
     (if tName t = [] then Inl Map_No_Tool
      else rbind (check_workspace workspaceRoot) (\<lambda>_.
        rbind (map_err Map_Working_Directory (classify_path pj cwd)) (\<lambda>cwdDescendant.
        rbind (fold_result (map_step t (mapArg classify_path pj cwd workspaceRoot) args) (enumerate 0 args)
            \<lparr>msForceNext = False, msForcedOptions = True, msMapped = []\<rparr>) (\<lambda>st.
          if msForceNext st then Inl (Map_Option_Argument (last args))
          else Inr (msMapped st, container_path workspaceRoot cwdDescendant)))))"

section \<open>The contract of a classifier\<close>

text \<open>
  A classifier accepts a path only below the root of the project, and its relative path is the
  rest of the path. Everything the mapping guarantees follows from this.
\<close>

locale project_boundary =
  fixes classify_path :: classifier
  assumes proven: "classify_path pj c = Inr d \<Longrightarrow> \<exists>rs ds. pjRoot pj = abs_path rs \<and> c = abs_path (rs @ ds)
     \<and> list_all proper (rs @ ds) \<and> rs \<noteq> [] \<and> dsRelative d = (if ds = [] then ''.'' else join ''/'' ds)"

text \<open>\<open>out\<close> names in the workspace what \<open>c\<close> names in the project.\<close>

definition translated :: "string \<Rightarrow> string \<Rightarrow> string \<Rightarrow> string \<Rightarrow> bool" where
  "translated root workspaceRoot c out = (\<exists>rest. c = root @ rest \<and> out = workspaceRoot @ rest \<and> (rest = [] \<or> hd rest = CHR ''/''))"

lemma translated_inside: "translated root workspaceRoot c out \<Longrightarrow> inside c root \<and> inside out workspaceRoot"
proof -
  assume "translated root workspaceRoot c out"
  then obtain rest where "c = root @ rest" "out = workspaceRoot @ rest" "rest = [] \<or> hd rest = CHR ''/''"
    by (auto simp: translated_def)
  then show ?thesis by (cases rest) (auto simp: inside_def has_prefix_iff)
qed

lemma join_single_dot: "list_all proper ds \<Longrightarrow> ds \<noteq> [] \<Longrightarrow> join ''/'' ds \<noteq> ''.''"
proof (cases "(''/'', ds)" rule: join.cases)
  case (3 sep x y xs)
  then have ds: "ds = x # y # xs" by simp
  have "CHR ''/'' \<in> set (join ''/'' ds)" unfolding ds by simp
  then show ?thesis by auto
qed (auto simp: proper_def)

lemma check_workspace_iff: "check_workspace value = Inr u \<longleftrightarrow> canonical_path value"
  by (auto simp: check_workspace_def canonical_path_def list_ex_iff list_all_iff)

text \<open>
  What becomes of one argument: it stays, or the path in it (the whole argument, or the value of an
  option) is translated; and an absolute path that is no option never stays.
\<close>

definition arg_mapped :: "tool \<Rightarrow> string \<Rightarrow> string \<Rightarrow> string \<Rightarrow> string \<Rightarrow> string \<Rightarrow> bool" where
  "arg_mapped t root workspaceRoot cwd arg out \<longleftrightarrow>
     (out = arg \<or> (\<exists>pre v c force w. arg = pre @ v \<and> (pre = [] \<or> (\<exists>opt \<in> set (tPathEquals t). pre = opt @ ''=''))
        \<and> resolvePathArg cwd v force = Some c \<and> out = pre @ w \<and> translated root workspaceRoot c w))
   \<and> (arg \<notin> set (tPathNext t) \<longrightarrow> arg \<noteq> ''--'' \<longrightarrow> equals_option t arg = None \<longrightarrow>
        \<not> isWindowsAbsolutePath arg \<and> (path_is_abs arg \<longrightarrow> translated root workspaceRoot (path_clean arg) out))"

lemma trim_prefix_rest: "has_prefix s p \<Longrightarrow> s = p @ trim_prefix s p"
  unfolding trim_prefix_def has_prefix_def by (metis append_take_drop_id)

lemma equals_option_Some:
  "equals_option t arg = Some opt \<Longrightarrow> opt \<in> set (tPathEquals t) \<and> arg = (opt @ ''='') @ trim_prefix arg (opt @ ''='')"
  by (auto simp: equals_option_def find_Some_iff simp del: append.append_Nil append_assoc intro!: trim_prefix_rest)

lemma fold_enumerate_list_all2:
  assumes "fold_result f (enumerate k xs) st = Inr st'"
    and "\<And>i x s s'. f (i, x) s = Inr s' \<Longrightarrow> \<exists>y. g s' = g s @ [y] \<and> P x y"
  shows "\<exists>ys. g st' = g st @ ys \<and> list_all2 P xs ys"
  using assms(1)
proof (induction xs arbitrary: k st)
  case (Cons x xs)
  from Cons.prems obtain s where s: "f (k, x) st = Inr s" "fold_result f (enumerate (Suc k) xs) s = Inr st'"
    by (auto simp: rbind_Inr_iff)
  from assms(2) [OF s(1)] obtain y where "g s = g st @ [y]" "P x y" by blast
  moreover from Cons.IH [OF s(2)] obtain ys where "g st' = g s @ ys" "list_all2 P xs ys" by blast
  ultimately have "g st' = g st @ (y # ys)" "list_all2 P (x # xs) (y # ys)" by simp_all
  then show ?case by blast
qed simp

context project_boundary
begin

lemma container_translated:
  assumes "classify_path pj c = Inr d" "canonical_path workspaceRoot"
  shows "translated (pjRoot pj) workspaceRoot c (container_path workspaceRoot d)"
proof -
  from proven [OF assms(1)] obtain rs ds where p: "pjRoot pj = abs_path rs" "c = abs_path (rs @ ds)"
    "list_all proper (rs @ ds)" "rs \<noteq> []" "dsRelative d = (if ds = [] then ''.'' else join ''/'' ds)" by blast
  from assms(2) obtain ws where w: "workspaceRoot = abs_path ws" "list_all proper ws" "ws \<noteq> []" by (rule canonical_form)
  show ?thesis
  proof (cases "ds = []")
    case True
    then show ?thesis using p by (simp add: container_path_def translated_def)
  next
    case False
    have ds: "list_all proper ds" using p(3) by simp
    have "container_path workspaceRoot d = abs_path ws @ ''/'' @ join ''/'' ds"
      using False p(5) join_single_dot [OF ds False] path_join_below [OF w(2) ds w(3) False] abs_path_append [OF w(3) False]
      by (simp add: container_path_def w(1))
    moreover have "c = abs_path rs @ ''/'' @ join ''/'' ds" using p(2) abs_path_append [OF p(4) False] by simp
    ultimately show ?thesis unfolding translated_def p(1) w(1) by (intro exI [of _ "''/'' @ join ''/'' ds"]) simp
  qed
qed

lemma map_arg_spec:
  assumes "mapArg classify_path pj cwd workspaceRoot arg force = Inr out" "canonical_path workspaceRoot"
  shows "\<not> isWindowsAbsolutePath arg \<and> (case resolvePathArg cwd arg force of
     None \<Rightarrow> out = arg | Some c \<Rightarrow> translated (pjRoot pj) workspaceRoot c out)"
  using assms container_translated
  by (auto simp: mapArg_def rbind_Inr_iff split: if_splits option.splits)

lemma map_value_spec:
  assumes "mapArg classify_path pj cwd workspaceRoot v force = Inr w" "canonical_path workspaceRoot"
  shows "w = v \<or> (\<exists>c. resolvePathArg cwd v force = Some c \<and> translated (pjRoot pj) workspaceRoot c w)"
  using map_arg_spec [OF assms] by (auto split: option.splits)

lemma map_whole_spec:
  assumes "mapArg classify_path pj cwd workspaceRoot arg force = Inr out" "canonical_path workspaceRoot"
  shows "arg_mapped t (pjRoot pj) workspaceRoot cwd arg out"
proof -
  have "out = arg \<or> (\<exists>pre v c force w. arg = pre @ v \<and> (pre = [] \<or> (\<exists>opt \<in> set (tPathEquals t). pre = opt @ ''=''))
        \<and> resolvePathArg cwd v force = Some c \<and> out = pre @ w \<and> translated (pjRoot pj) workspaceRoot c w)"
    using map_value_spec [OF assms] by (metis append_Nil)
  moreover have "translated (pjRoot pj) workspaceRoot (path_clean arg) out" if "path_is_abs arg"
    using map_arg_spec [OF assms] that by (simp add: resolvePathArg_def)
  moreover have "\<not> isWindowsAbsolutePath arg" using map_arg_spec [OF assms] by simp
  ultimately show ?thesis unfolding arg_mapped_def by blast
qed

lemma map_step_spec:
  assumes "map_step t (mapArg classify_path pj cwd workspaceRoot) args (i, arg) st = Inr st'" "canonical_path workspaceRoot"
  shows "\<exists>out. msMapped st' = msMapped st @ [out] \<and> arg_mapped t (pjRoot pj) workspaceRoot cwd arg out"
proof -
  from assms(1) consider (whole) force out where "mapArg classify_path pj cwd workspaceRoot arg force = Inr out"
      "msMapped st' = msMapped st @ [out]"
    | (kept) "arg = ''--'' \<or> arg \<in> set (tPathNext t)" "msMapped st' = msMapped st @ [arg]"
    | (opt) opt w where "equals_option t arg = Some opt"
      "mapArg classify_path pj cwd workspaceRoot (trim_prefix arg (opt @ ''='')) True = Inr w"
      "msMapped st' = msMapped st @ [opt @ ''='' @ w]"
    by (auto simp: map_step_def Let_def rbind_Inr_iff split: if_splits option.splits)
  then show ?thesis
  proof cases
    case whole
    then show ?thesis using map_whole_spec [OF _ assms(2)] by blast
  next
    case kept
    then show ?thesis by (auto simp: arg_mapped_def)
  next
    case opt
    let ?pre = "opt @ ''=''"
    have o: "opt \<in> set (tPathEquals t)" "arg = ?pre @ trim_prefix arg ?pre" using equals_option_Some [OF opt(1)] by blast+
    have "?pre @ w = arg \<or> (\<exists>pre v c force w'. arg = pre @ v \<and> (pre = [] \<or> (\<exists>opt \<in> set (tPathEquals t). pre = opt @ ''=''))
        \<and> resolvePathArg cwd v force = Some c \<and> ?pre @ w = pre @ w' \<and> translated (pjRoot pj) workspaceRoot c w')"
      using map_value_spec [OF opt(2) assms(2)] o by metis
    then have "arg_mapped t (pjRoot pj) workspaceRoot cwd arg (?pre @ w)"
      unfolding arg_mapped_def using opt(1) by simp
    with opt(3) show ?thesis by simp
  qed
qed

lemma map_args_spec:
  assumes "mapToolArgs classify_path t pj cwd workspaceRoot args = Inr (mapped, wd)"
  shows "list_all2 (arg_mapped t (pjRoot pj) workspaceRoot cwd) args mapped"
    "translated (pjRoot pj) workspaceRoot cwd wd" "canonical_path workspaceRoot"
proof -
  from assms obtain d st where w: "check_workspace workspaceRoot = Inr ()" and d: "classify_path pj cwd = Inr d"
    and f: "fold_result (map_step t (mapArg classify_path pj cwd workspaceRoot) args) (enumerate 0 args)
            \<lparr>msForceNext = False, msForcedOptions = True, msMapped = []\<rparr> = Inr st"
    and r: "mapped = msMapped st" "wd = container_path workspaceRoot d"
    by (auto simp: mapToolArgs_def rbind_Inr_iff split: if_splits)
  show c: "canonical_path workspaceRoot" using w by (simp add: check_workspace_iff)
  show "translated (pjRoot pj) workspaceRoot cwd wd" using container_translated [OF d c] r by simp
  from fold_enumerate_list_all2 [where g = msMapped, OF f] map_step_spec [OF _ c]
  show "list_all2 (arg_mapped t (pjRoot pj) workspaceRoot cwd) args mapped" by (fastforce simp: r)
qed

end

interpretation wsl_boundary: project_boundary "\<lambda>pj c. the (resolveDescendant before now pj c)" for before now
proof
  fix pj c d assume "the (resolveDescendant before now pj c) = Inr d"
  then have "resolveDescendant before now pj c = Some (Inr d)"
    using resolve_descendant_returns [of before now pj c] by auto
  from resolve_descendant_spec [OF this] show "\<exists>rs ds. pjRoot pj = abs_path rs \<and> c = abs_path (rs @ ds)
     \<and> list_all proper (rs @ ds) \<and> rs \<noteq> [] \<and> dsRelative d = (if ds = [] then ''.'' else join ''/'' ds)" by blast
qed

end
