(* ===== verification/Wsl_Volume_Facts.thy ===== *)
theory Wsl_Volume_Facts
  imports Wsl_Volume
begin

text \<open>
  The name of a volume determines its namespace, state group, logical name and project hash
  (\<open>volume_name_inj\<close>); the exact match of labels is equality (\<open>matches_iff\<close>); what the planner
  binds (\<open>plan_stateful_spec\<close>); and what a proven candidate and an ensured volume are.
\<close>

section \<open>Names\<close>

lemma dash_not_digit: "CHR ''-'' \<notin> set (digits_of_nat n)"
  using digits_of_nat_digits [of n] by (auto simp: all_digits_def list_all_iff is_digit_def)

lemma digits_of_nat_inj: "digits_of_nat m = digits_of_nat n \<Longrightarrow> m = n"
  by (metis nat_of_digits_of_nat)

lemma length_prefixed_inj:
  assumes "digits_of_nat (length x) @ ''-'' @ x @ u = digits_of_nat (length y) @ ''-'' @ y @ v"
  shows "x = y \<and> u = v"
proof -
  have c: "cut_byte (digits_of_nat n @ CHR ''-'' # t) CHR ''-'' = Some (digits_of_nat n, t)" for n t
    by (rule cut_byte_plain [OF dash_not_digit])
  have "Some (digits_of_nat (length x), x @ u) = Some (digits_of_nat (length y), y @ v)"
    unfolding c [symmetric] using assms by simp
  then have l: "length x = length y" and e: "x @ u = y @ v" using digits_of_nat_inj by auto
  from append_eq_append_conv [THEN iffD1, OF disjI1 [OF l] e] show ?thesis .
qed

lemma owner_name_inj:
  assumes "ownerName g l @ u = ownerName g' l' @ u'"
  shows "g = g' \<and> l = l' \<and> u = u'"
proof -
  from assms have "digits_of_nat (length g) @ ''-'' @ g @ (''-'' @ digits_of_nat (length l) @ ''-'' @ l @ u)
      = digits_of_nat (length g') @ ''-'' @ g' @ (''-'' @ digits_of_nat (length l') @ ''-'' @ l' @ u')"
    by (simp add: ownerName_def)
  from length_prefixed_inj [OF this] have g: "g = g'"
    and r: "digits_of_nat (length l) @ ''-'' @ l @ u = digits_of_nat (length l') @ ''-'' @ l' @ u'" by simp_all
  from length_prefixed_inj [OF r] g show ?thesis by blast
qed

lemma volume_name_inj:
  assumes "volumeName s g l u = Inr n" "volumeName s' g' l' u' = Inr n" "valid_scope s" "valid_scope s'"
  shows "s = s' \<and> g = g' \<and> l = l' \<and> u = u'"
proof -
  have v: "length (scNamespace s) = length (scNamespace s')" "scPrefix s = namespace_prefix (scNamespace s)"
    "scPrefix s' = namespace_prefix (scNamespace s')" using assms(3,4) by (simp_all add: valid_scope_def validNamespace_def)
  have "scNamespace s @ ''-'' @ (ownerName g l @ u) = scNamespace s' @ ''-'' @ (ownerName g' l' @ u')"
    using assms(1,2) v(2,3) by (auto simp: volumeName_def Let_def namespace_prefix_def split: if_splits)
  from append_eq_append_conv [THEN iffD1, OF disjI1 [OF v(1)] this]
  have n: "scNamespace s = scNamespace s'" and o: "ownerName g l @ u = ownerName g' l' @ u'" by simp_all
  have "s = s'" using n v(2,3) by (cases s; cases s') simp
  with owner_name_inj [OF o] show ?thesis by simp
qed

section \<open>Labels\<close>

definition full_labels :: "(string, string) gomap \<Rightarrow> bool" where
  "full_labels ls = (wf_map ls \<and> list_all (\<lambda>e. snd e \<noteq> []) ls)"

lemma hex_hash_nonempty [simp]: "hex_encode (take 6 (Sum256 s)) \<noteq> []"
proof -
  have "length (hex_encode (take 6 (Sum256 s))) = 12" by simp
  then show ?thesis by (metis list.size(3) zero_neq_numeral)
qed

lemma validate_project_root_iff: "validateProjectRoot root = Inr u \<longleftrightarrow> canonical_path root"
  by (auto simp: validateProjectRoot_def canonical_path_def list_ex_iff list_all_iff)

lemma valid_namespace_nonempty: "validNamespace ns \<Longrightarrow> ns \<noteq> []"
  by (auto simp: validNamespace_def)

lemma shared_volume_full:
  "SharedVolume s g l = Inr v \<Longrightarrow> valid_scope s \<Longrightarrow> full_labels (voLabels v)"
  using valid_namespace_nonempty
  by (auto simp: SharedVolume_def rbind_Inr_iff full_labels_def wf_map_def mkeys_def NamespaceLabel_def valid_scope_def)

lemma project_volume_full:
  "ProjectVolume s g l root = Inr v \<Longrightarrow> valid_scope s \<Longrightarrow> full_labels (voLabels v)"
  using valid_namespace_nonempty
  by (auto simp: ProjectVolume_def rbind_Inr_iff full_labels_def wf_map_def mkeys_def NamespaceLabel_def valid_scope_def
      ProjectHash_def validate_project_root_iff canonical_path_def)

lemma label_of_iff: "label_of ls k = v \<longleftrightarrow> (map_of ls k = Some v \<or> (v = [] \<and> map_of ls k = None))"
  by (auto simp: label_of_def split: option.splits)

lemma matches_iff:
  assumes "full_labels (voLabels v)" "wf_map ls"
  shows "Matches v name ls \<longleftrightarrow> name = voName v \<and> map_of ls = map_of (voLabels v)"
proof
  assume m: "Matches v name ls"
  have w: "wf_map (voLabels v)" using assms(1) by (simp add: full_labels_def)
  have s: "map_of ls k = Some x" if "map_of (voLabels v) k = Some x" for k x
  proof -
    from that have e: "(k, x) \<in> set (voLabels v)" by (rule map_of_SomeD)
    with m have "label_of ls k = x" by (auto simp: Matches_def list_all_iff)
    moreover have "x \<noteq> []" using e assms(1) by (auto simp: full_labels_def list_all_iff)
    ultimately show ?thesis by (simp add: label_of_iff)
  qed
  then have sub: "set (mkeys (voLabels v)) \<subseteq> set (mkeys ls)"
    using w by (fastforce simp: mkeys_def wf_map_def dest: map_of_SomeD)
  have card: "card (set (mkeys (voLabels v))) = card (set (mkeys ls))"
    using m w assms(2) by (simp add: Matches_def wf_map_def distinct_card) (simp add: mkeys_def)
  have keys: "set (mkeys (voLabels v)) = set (mkeys ls)"
    using card_subset_eq [OF _ sub card] by simp
  have "map_of ls k = map_of (voLabels v) k" for k
  proof (cases "map_of (voLabels v) k")
    case None
    then have "k \<notin> set (mkeys ls)" unfolding keys [symmetric] by (simp add: mkeys_def map_of_eq_None_iff)
    then have "map_of ls k = None" by (simp add: mkeys_def map_of_eq_None_iff)
    then show ?thesis unfolding None .
  next
    case (Some x)
    with s show ?thesis by simp
  qed
  with m show "name = voName v \<and> map_of ls = map_of (voLabels v)" by (auto simp: Matches_def)
next
  assume e: "name = voName v \<and> map_of ls = map_of (voLabels v)"
  have w: "wf_map (voLabels v)" using assms(1) by (simp add: full_labels_def)
  from e have "set (mkeys ls) = set (mkeys (voLabels v))" by (metis dom_map_of_conv_image_fst image_set mkeys_def)
  then have "length ls = length (voLabels v)"
    using w assms(2) distinct_card unfolding wf_map_def by (metis length_map mkeys_def)
  moreover have "label_of ls (fst x) = snd x" if "x \<in> set (voLabels v)" for x
  proof -
    have "map_of (voLabels v) (fst x) = Some (snd x)" using wf_map_in_iff [OF w] that by simp
    then show ?thesis using e by (simp add: label_of_def)
  qed
  ultimately show "Matches v name ls" using e by (simp add: Matches_def list_all_iff)
qed

section \<open>Planned bindings\<close>

definition project_binding :: "volume_scope \<Rightarrow> tool \<Rightarrow> project \<Rightarrow> volume_binding \<Rightarrow> bool" where
  "project_binding s t pj b = (\<exists>lname. ProjectVolume s (tStateGroup t) lname (pjRoot pj) = Inr (bdVolume b)
     \<or> SharedVolume s (tStateGroup t) lname = Inr (bdVolume b))"

definition bindings_ok :: "volume_scope \<Rightarrow> tool \<Rightarrow> project \<Rightarrow> volume_binding list \<Rightarrow> bool" where
  "bindings_ok s t pj bds = (distinct (map bdDestination bds) \<and> list_all (project_binding s t pj) bds)"

lemma append_binding_ok:
  "append_binding v dst bds = Inr bds' \<Longrightarrow> bindings_ok s t pj bds
    \<Longrightarrow> project_binding s t pj \<lparr>bdVolume = v, bdDestination = dst\<rparr> \<Longrightarrow> bindings_ok s t pj bds'"
  by (auto simp: append_binding_def bindings_ok_def split: if_splits)

lemma bind_project_ok:
  assumes "bind_project s t pj workspaceRoot spec bds = Inr bds'" "bindings_ok s t pj bds"
  shows "bindings_ok s t pj bds'"
proof -
  from assms(1) obtain lname dst v where "ProjectVolume s (tStateGroup t) lname (pjRoot pj) = Inr v"
    and a: "append_binding v dst bds = Inr bds'" by (auto simp: bind_project_def rbind_Inr_iff)
  then have "project_binding s t pj \<lparr>bdVolume = v, bdDestination = dst\<rparr>" by (auto simp: project_binding_def)
  from append_binding_ok [OF a assms(2) this] show ?thesis .
qed

lemma bind_shared_ok:
  assumes "bind_shared s t spec bds = Inr bds'" "bindings_ok s t pj bds"
  shows "bindings_ok s t pj bds'"
proof -
  from assms(1) obtain lname dst v where "SharedVolume s (tStateGroup t) lname = Inr v"
    and a: "append_binding v dst bds = Inr bds'" by (auto simp: bind_shared_def rbind_Inr_iff)
  then have "project_binding s t pj \<lparr>bdVolume = v, bdDestination = dst\<rparr>" by (auto simp: project_binding_def)
  from append_binding_ok [OF a assms(2) this] show ?thesis .
qed

lemma plan_stateful_spec:
  assumes "planStatefulToolVolumes classifyDescendant s t pj workspaceRoot = Inr bds"
  shows "bindings_ok s t pj bds" "valid_scope s" "tProvider t = ''stateful''"
    "tProjectVolumes t \<noteq> [] \<Longrightarrow> \<exists>d. classifyDescendant pj (pjRoot pj) = Inr d \<and> exact_root pj d \<and> tCwdMode t \<noteq> ''isolated''"
proof -
  from assms obtain bds1 where c: "check_project_root classifyDescendant t pj workspaceRoot = Inr ()"
    and p: "fold_result (bind_project s t pj workspaceRoot) (tProjectVolumes t) [] = Inr bds1"
    and q: "fold_result (bind_shared s t) (tSharedVolumes t) bds1 = Inr bds" and v: "valid_scope s" "tProvider t = ''stateful''"
    by (auto simp: planStatefulToolVolumes_def rbind_Inr_iff split: if_splits)
  show "valid_scope s" "tProvider t = ''stateful''" by (rule v)+
  show "\<exists>d. classifyDescendant pj (pjRoot pj) = Inr d \<and> exact_root pj d \<and> tCwdMode t \<noteq> ''isolated''"
    if "tProjectVolumes t \<noteq> []"
    using c that by (auto simp: check_project_root_def rbind_Inr_iff split: if_splits)
  have b0: "bindings_ok s t pj []" by (simp add: bindings_ok_def)
  have b1: "bindings_ok s t pj bds1"
    by (rule fold_result_invariant [where I = "bindings_ok s t pj", OF p b0]) (rule bind_project_ok)
  show "bindings_ok s t pj bds"
    by (rule fold_result_invariant [where I = "bindings_ok s t pj", OF q b1]) (rule bind_shared_ok)
qed

section \<open>Proven and ensured volumes\<close>

lemma expected_volume_spec:
  "expected_volume s ls = Inr v \<Longrightarrow> \<exists>g l. SharedVolume s g l = Inr v \<or> (\<exists>root. ProjectVolume s g l root = Inr v)"
  by (auto simp: expected_volume_def split: option.splits if_splits) blast+

lemma constructed_full:
  "\<exists>g l. SharedVolume s g l = Inr v \<or> (\<exists>root. ProjectVolume s g l root = Inr v) \<Longrightarrow> valid_scope s \<Longrightarrow> full_labels (voLabels v)"
  using shared_volume_full project_volume_full by blast

definition exact_volume :: "volume \<Rightarrow> engine_volume \<Rightarrow> bool" where
  "exact_volume v o' = (evName o' = voName v \<and> evDriver o' = ''local'' \<and> evScope o' = ''local''
     \<and> map_of (observed_labels o') = map_of (voLabels v))"

lemma require_exact_iff:
  assumes "full_labels (voLabels v)" "wf_map (observed_labels o')"
  shows "requireExactVolume v o' = Inr u \<longleftrightarrow> exact_volume v o'"
  using matches_iff [OF assms] by (auto simp: requireExactVolume_def exact_volume_def)

lemma prove_candidate_spec:
  assumes "ProveCandidate s o' = Inr v" "wf_map (observed_labels o')"
  shows "exact_volume v o'" "\<exists>g l. SharedVolume s g l = Inr v \<or> (\<exists>root. ProjectVolume s g l root = Inr v)"
proof -
  from assms(1) have s: "valid_scope s" and e: "expected_volume s (observed_labels o') = Inr v"
    and r: "requireExactVolume v o' = Inr ()"
    by (auto simp: ProveCandidate_def rbind_Inr_iff split: if_splits)
  show c: "\<exists>g l. SharedVolume s g l = Inr v \<or> (\<exists>root. ProjectVolume s g l root = Inr v)" by (rule expected_volume_spec [OF e])
  show "exact_volume v o'" using require_exact_iff [OF constructed_full [OF c s] assms(2)] r by simp
qed

lemma inspect_volume_Some: "inspectVolume r = Inr (Some o') \<longleftrightarrow> r = Reply o' \<and> decodeVolume o' = Inr o'"
  by (auto simp: inspectVolume_def decodeVolume_def rbind_Inr_iff split: reply.splits if_splits)

lemma decode_volume_same: "decodeVolume o' = Inr o'' \<Longrightarrow> o'' = o'"
  by (auto simp: decodeVolume_def split: if_splits)

lemma ensure_volume_exact:
  assumes "ensure_volume v first create second = Inr ()"
  shows "(\<exists>o'. first = Reply o' \<and> requireExactVolume v o' = Inr ())
     \<or> (first = Not_Found \<and> (\<exists>o'. second = Reply o' \<and> requireExactVolume v o' = Inr ()))"
  using assms
  by (auto simp: ensure_volume_def rbind_Inr_iff inspectVolume_def split: option.splits reply.splits dest: decode_volume_same)

lemma remove_only_exact:
  assumes "remove_volume v first deleted second = (True, r)"
  shows "\<exists>o'. first = Reply o' \<and> requireExactVolume v o' = Inr ()"
  using assms
  by (auto simp: remove_volume_def rbind_Inr_iff inspect_volume_Some split: sum.splits option.splits)

end
