(* ===== verification/Wsl_Plan.thy ===== *)
theory Wsl_Plan
  imports Wsl_Create Wsl_Pathmap Wsl_Volume_Facts Lock_Store
begin

text \<open>
  The plan of a native WSL2 tool run (\<open>internal/wslrun/plan.go\<close>): the environment a tool receives,
  the request for its container and the volumes it needs, composed from the lockfile, the project
  selection, the argument mapping and the volume planner. The composed functions are the fields of
  \<open>plan_deps\<close>, as in \<open>planDependencies\<close>; \<open>productionPlanDependencies\<close> fills them with the models of the
  other components. \<open>validEnvironmentName\<close> is the one of \<open>Wsl_Create\<close>, whose text is the same.
\<close>

section \<open>Environment\<close>

datatype env_error = Env_Assignment string | Env_Duplicate string | Env_Host_Duplicate string

text \<open>The name of a well-formed assignment.\<close>

definition assignment_name :: "string \<Rightarrow> string option" where
  "assignment_name assignment = (case cut_byte assignment CHR ''='' of
     None \<Rightarrow> None
   | Some (name, _) \<Rightarrow>
     (if \<not> validEnvironmentName name \<or> \<not> valid_utf8 assignment \<or> contains_byte assignment CHR 0x00
      then None else Some name))"

definition literal_step :: "string \<Rightarrow> (string, string) gomap \<Rightarrow> (env_error, (string, string) gomap) result" where
  "literal_step assignment literal = (case assignment_name assignment of
     None \<Rightarrow> Inl (Env_Assignment assignment)
   | Some name \<Rightarrow> if mhas literal name then Inl (Env_Duplicate name) else Inr (mput name assignment literal))"

definition env_matches :: "tool \<Rightarrow> string \<Rightarrow> bool" where
  "env_matches t name = (name \<in> set (tEnvNames t) \<or> list_ex (has_prefix name) (tEnvPrefixes t))"

definition select_step :: "tool \<Rightarrow> string \<Rightarrow> (string, string) gomap \<Rightarrow> (env_error, (string, string) gomap) result" where
  "select_step t assignment selected = (case assignment_name assignment of
     None \<Rightarrow> Inr selected
   | Some name \<Rightarrow>
     (if \<not> env_matches t name then Inr selected
      else if mhas selected name then Inl (Env_Host_Duplicate name)
      else Inr (mput name assignment selected)))"

text \<open>The assignments of a map, ordered by name.\<close>

definition by_name :: "(string, string) gomap \<Rightarrow> string list" where
  "by_name m = map (label_of m) (sort (mkeys m))"

definition selectedEnvironment :: "tool \<Rightarrow> string list \<Rightarrow> (env_error, string list) result" where
  "selectedEnvironment t environ =
     rbind (fold_result literal_step (tEnvSet t) []) (\<lambda>literal.
     rbind (fold_result (select_step t) environ []) (\<lambda>selected.
       Inr (by_name (fold (\<lambda>e m. mput (fst e) (snd e) m) literal selected))))"

definition merge_step :: "string \<Rightarrow> (string, string) gomap \<Rightarrow> (env_error, (string, string) gomap) result" where
  "merge_step assignment byName = (case cut_byte assignment CHR ''='' of
     None \<Rightarrow> Inl (Env_Assignment assignment)
   | Some (name, _) \<Rightarrow>
     (if \<not> validEnvironmentName name then Inl (Env_Assignment assignment) else Inr (mput name assignment byName)))"

definition mergeLiteralEnvironment :: "string list \<Rightarrow> string list \<Rightarrow> (env_error, string list) result" where
  "mergeLiteralEnvironment current additions =
     rbind (fold_result merge_step (current @ additions) []) (\<lambda>m. Inr (by_name m))"

section \<open>The plan\<close>

record tool_plan =
  tpLayout :: wsl_layout
  tpSpec :: create_spec
  tpVolumes :: "volume list"

datatype plan_error =
    Wp_Host_Mounts
  | Wp_Scope volume_name_error
  | Wp_Image tool_image_error
  | Wp_Environment env_error
  | Wp_Select select_error
  | Wp_Arguments map_error
  | Wp_Volumes binding_error
  | Wp_Target string
  | Wp_Python_Isolated
  | Wp_Python python_error
  | Wp_Provider string
  | Wp_Spec create_error

record plan_deps =
  pdImage :: "tool \<Rightarrow> policy \<Rightarrow> string \<Rightarrow> disk \<Rightarrow> (tool_image_error, string \<times> disk) result"
  pdProject :: "string \<Rightarrow> tool \<Rightarrow> (select_error, project \<times> bool) result"
  pdArgs :: "tool \<Rightarrow> project \<Rightarrow> string \<Rightarrow> string \<Rightarrow> string list \<Rightarrow> (map_error, string list \<times> string) result"
  pdVolumes :: "volume_scope \<Rightarrow> tool \<Rightarrow> project \<Rightarrow> string \<Rightarrow> (binding_error, volume_binding list) result"
  pdPython :: "volume_scope \<Rightarrow> project \<Rightarrow> bool \<Rightarrow> (python_error, python_state) result"

definition projectWorkspace :: string where "projectWorkspace = ''/workspace/project''"
definition isolatedWorkspace :: string where "isolatedWorkspace = ''/root''"

definition zero_project :: project where
  "zero_project = \<lparr>pjRoot = [], pjStorage = No_Storage, pjMountPoint = [], pjWindowsDrive = [], pjMountID = 0, pjDevice = 0\<rparr>"

text \<open>Where the arguments and the working directory come from: the project, whether one was found,
  the mapped arguments, the working directory and the mounts.\<close>

type_synonym workspace = "project \<times> bool \<times> string list \<times> string \<times> container_mount list"

definition plan_workspace :: "plan_deps \<Rightarrow> tool \<Rightarrow> string \<Rightarrow> string list \<Rightarrow> (plan_error, workspace) result" where
  "plan_workspace deps t cwd userArgs =
     (if tCwdMode t = ''isolated'' then Inr (zero_project, False, userArgs, isolatedWorkspace, [])
      else rbind (map_err Wp_Select (pdProject deps cwd t)) (\<lambda>(pj, found).
        rbind (map_err Wp_Arguments (pdArgs deps t pj cwd projectWorkspace userArgs)) (\<lambda>(mapped, wd).
          Inr (pj, found, mapped, wd,
            [\<lparr>cmType = Bind, cmSource = pjRoot pj, cmTarget = projectWorkspace, cmReadOnly = False, cmVolumeLabels = []\<rparr>]))))"

type_synonym plan_mounts = "container_mount list \<times> volume list"

definition append_volume :: "volume \<Rightarrow> string \<Rightarrow> plan_mounts \<Rightarrow> (plan_error, plan_mounts) result" where
  "append_volume v destination0 st =
     (let destination = path_clean destination0 in
      if destination \<in> set (map cmTarget (fst st)) then Inl (Wp_Target destination)
      else Inr (fst st @ [\<lparr>cmType = Volume, cmSource = voName v, cmTarget = destination, cmReadOnly = False,
          cmVolumeLabels = voLabels v\<rparr>], snd st @ [v]))"

definition pythonEnvironment :: "string list" where
  "pythonEnvironment = [''VIRTUAL_ENV=/venv'', ''PATH=/venv/bin:/usr/local/bin:/usr/local/sbin:/usr/sbin:/usr/bin:/sbin:/bin'']"

text \<open>The provider's part: mounts and volumes, the environment and the command. \<open>bootstrap\<close> is the
  embedded script \<open>pythonenv.Bootstrap\<close>.\<close>

definition plan_provider ::
    "string \<Rightarrow> plan_deps \<Rightarrow> volume_scope \<Rightarrow> tool \<Rightarrow> workspace \<Rightarrow> string list
      \<Rightarrow> (plan_error, plan_mounts \<times> string list \<times> string list) result" where
  "plan_provider bootstrap deps s t ws environment = (case ws of (pj, found, mapped, wd, mounts) \<Rightarrow>
     if tProvider t = ''stateless'' then Inr ((mounts, []), environment, tCommand t @ tArgsPrefix t @ mapped)
     else if tProvider t = ''stateful'' then
       rbind (map_err Wp_Volumes (pdVolumes deps s t pj projectWorkspace)) (\<lambda>bindings.
       rbind (fold_result (\<lambda>b. append_volume (bdVolume b) (bdDestination b)) bindings (mounts, [])) (\<lambda>pm.
         Inr (pm, environment, tCommand t @ tArgsPrefix t @ mapped)))
     else if tProvider t = ''python'' then
       (if tCwdMode t = ''isolated'' then Inl Wp_Python_Isolated
        else rbind (map_err Wp_Python (pdPython deps s pj found)) (\<lambda>py.
          rbind (append_volume (pyVenv py) ''/venv'' (mounts, [])) (\<lambda>pm1.
          rbind (append_volume (pyPipCache py) ''/root/.cache/pip'' pm1) (\<lambda>pm2.
          rbind (map_err Wp_Environment (mergeLiteralEnvironment environment pythonEnvironment)) (\<lambda>environment'.
            Inr (pm2, environment', [''sh'', ''-c'', bootstrap, ''cb'']
              @ (if tRole t = ''pip'' then [''__CB_PIP__''] else []) @ tArgsPrefix t @ mapped))))))
     else Inl (Wp_Provider (tProvider t)))"

definition buildToolPlan ::
    "string \<Rightarrow> plan_deps \<Rightarrow> tool \<Rightarrow> string list \<Rightarrow> policy \<Rightarrow> wsl_layout \<Rightarrow> string \<Rightarrow> bool \<Rightarrow> string list
      \<Rightarrow> disk \<Rightarrow> (plan_error, tool_plan \<times> disk) result" where
  "buildToolPlan bootstrap deps t userArgs machinePolicy layout cwd tty environ d =
     (if tHostMounts t \<noteq> [] then Inl Wp_Host_Mounts
      else rbind (map_err Wp_Scope (NewScope layout)) (\<lambda>scope.
        rbind (map_err Wp_Image (pdImage deps t machinePolicy (wlLockPath layout) d)) (\<lambda>(img, d').
        rbind (map_err Wp_Environment (selectedEnvironment t environ)) (\<lambda>environment.
        rbind (plan_workspace deps t cwd userArgs) (\<lambda>ws.
        rbind (plan_provider bootstrap deps scope t ws environment) (\<lambda>((mounts, volumes), environment', command).
          let spec = \<lparr>csTool = tName t, csNamespace = scNamespace scope, csImage = img, csCommand = command,
              csEnvironment = environment', csWorkingDirectory = (case ws of (_, _, _, wd, _) \<Rightarrow> wd), csMounts = mounts,
              csTTY = tty, csHeight = 0, csWidth = 0, csRetain = True\<rparr> in
          rbind (map_err Wp_Spec (validateContainerCreateSpec spec)) (\<lambda>_.
            Inr (\<lparr>tpLayout = layout, tpSpec = spec, tpVolumes = volumes\<rparr>, d'))))))))"

text \<open>\<open>obs1\<close> and \<open>obs2\<close> are the two observations of the file system of \<open>Wsl_Project\<close>.\<close>

definition productionPlanDependencies :: "platform \<Rightarrow> bool \<Rightarrow> inspection \<Rightarrow> inspection \<Rightarrow> plan_deps" where
  "productionPlanDependencies P rename_ok obs1 obs2 =
     (let resolve = (\<lambda>pj c. the (resolveDescendant obs1 obs2 pj c)) in
      \<lparr>pdImage = RuntimeImageForToolAt P rename_ok,
       pdProject = (\<lambda>start t. the (selectForTool (inLstat obs1) (classify obs1) resolve start t)),
       pdArgs = mapToolArgs resolve,
       pdVolumes = planStatefulToolVolumes resolve,
       pdPython = planPythonVolumes resolve\<rparr>)"

end
