(* ===== verification/Wsl_Plan_Facts.thy ===== *)
theory Wsl_Plan_Facts
  imports Wsl_Plan
begin

text \<open>
  What a plan of a native WSL2 run guarantees: \<open>selected_environment_spec\<close> says exactly which
  assignments reach the container, \<open>plan_spec\<close> relates the request to the project, the lockfile and
  the planned volumes, and \<open>production_plan_spec\<close> puts the proofs of the components together.
\<close>

section \<open>The environment\<close>

definition named :: "(string, string) gomap \<Rightarrow> bool" where
  "named m = (wf_map m \<and> (\<forall>e \<in> set m. assignment_name (snd e) = Some (fst e)))"

lemma named_Nil [simp]: "named []"
  by (simp add: named_def)

lemma named_mput: "named m \<Longrightarrow> assignment_name a = Some n \<Longrightarrow> named (mput n a m)"
proof -
  assume m: "named m" "assignment_name a = Some n"
  have "assignment_name v = Some k" if "(k, v) \<in> set (mput n a m)" for k v
  proof -
    have "map_of (mput n a m) k = Some v" 
      using that m(1) wf_map_in_iff [OF wf_map_mput [of m n a]] by (simp only: named_def)
    then have "k = n \<and> v = a \<or> (k, v) \<in> set m" by (auto split: if_splits dest: map_of_SomeD)
    then show ?thesis using m by (auto simp: named_def)
  qed
  then show ?thesis using m(1) by (auto simp: named_def)
qed

definition host_selected :: "tool \<Rightarrow> string \<Rightarrow> bool" where
  "host_selected t a = (case assignment_name a of None \<Rightarrow> False | Some n \<Rightarrow> env_matches t n)"

lemma literal_step_iff:
  "literal_step x m = Inr m' \<longleftrightarrow> (\<exists>n. assignment_name x = Some n \<and> \<not> mhas m n \<and> m' = mput n x m)"
  by (auto simp: literal_step_def split: option.splits)

lemma select_step_iff:
  "host_selected t x \<Longrightarrow> select_step t x m = Inr m' \<longleftrightarrow> (\<exists>n. assignment_name x = Some n \<and> \<not> mhas m n \<and> m' = mput n x m)"
  by (auto simp: select_step_def host_selected_def split: option.splits)

lemma literal_loop:
  assumes "fold_result literal_step xs m = Inr m'" "named m"
  shows "named m' \<and> snd ` set m' = snd ` set m \<union> set xs"
  using assms
proof (induction xs arbitrary: m)
  case (Cons x xs)
  from Cons.prems(1) obtain n where n: "assignment_name x = Some n" "\<not> mhas m n"
    and r: "fold_result literal_step xs (mput n x m) = Inr m'"
    by (auto simp: rbind_Inr_iff literal_step_iff)
  from Cons.IH [OF r named_mput [OF Cons.prems(2) n(1)]] show ?case by (auto simp: mput_fresh [OF n(2)])
qed simp

lemma select_loop:
  assumes "fold_result (select_step t) xs m = Inr m'" "named m"
  shows "named m' \<and> snd ` set m' = snd ` set m \<union> {a \<in> set xs. host_selected t a}"
  using assms
proof (induction xs arbitrary: m)
  case (Cons x xs)
  show ?case
  proof (cases "host_selected t x")
    case False
    then have "select_step t x m = Inr m" by (auto simp: select_step_def host_selected_def split: option.splits)
    with Cons False show ?thesis by auto
  next
    case True
    with Cons.prems(1) obtain n where n: "assignment_name x = Some n" "\<not> mhas m n"
      and r: "fold_result (select_step t) xs (mput n x m) = Inr m'"
      by (auto simp: rbind_Inr_iff select_step_iff)
    from Cons.IH [OF r named_mput [OF Cons.prems(2) n(1)]] True show ?thesis by (auto simp: mput_fresh [OF n(2)])
  qed
qed simp

lemma map_of_override:
  "wf_map l \<Longrightarrow> map_of (fold (\<lambda>e m. mput (fst e) (snd e) m) l m) = map_of m ++ map_of l"
proof (induction l arbitrary: m)
  case (Cons e l)
  then have "map_of l (fst e) = None" by (auto simp: wf_map_def mkeys_def map_of_eq_None_iff)
  moreover have "wf_map l" using Cons.prems by (simp add: wf_map_def)
  ultimately show ?case using Cons.IH [of "mput (fst e) (snd e) m"]
    by (auto simp: fun_eq_iff map_add_def split: option.splits)
qed simp

lemma named_override: "named l \<Longrightarrow> named m \<Longrightarrow> named (fold (\<lambda>e m. mput (fst e) (snd e) m) l m)"
proof (induction l arbitrary: m)
  case (Cons e l)
  then have "named l" "assignment_name (snd e) = Some (fst e)" by (auto simp: named_def wf_map_def)
  then show ?case using Cons.IH named_mput [OF Cons.prems(2)] by simp
qed simp

lemma by_name_spec:
  assumes "named m"
  shows "set (by_name m) = snd ` set m" "map assignment_name (by_name m) = map Some (sort (mkeys m))"
proof -
  have wf: "wf_map m" using assms by (simp add: named_def)
  have l: "label_of m k = v" if "(k, v) \<in> set m" for k v
    using that wf_map_in_iff [OF wf, of k v] by (simp add: label_of_def)
  then show "set (by_name m) = snd ` set m" by (force simp: by_name_def mkeys_def)
  have "assignment_name (label_of m k) = Some k" if "k \<in> set (mkeys m)" for k
    using that l assms by (force simp: mkeys_def named_def)
  then show "map assignment_name (by_name m) = map Some (sort (mkeys m))" by (simp add: by_name_def)
qed

lemma selected_environment_spec:
  assumes "selectedEnvironment t environ = Inr env"
  shows "set env = set (tEnvSet t) \<union> {a \<in> set environ. host_selected t a \<and> assignment_name a \<notin> assignment_name ` set (tEnvSet t)}"
    "\<exists>names. map assignment_name env = map Some names \<and> sorted names \<and> distinct names"
proof -
  from assms obtain lit sel where l: "fold_result literal_step (tEnvSet t) [] = Inr lit"
    and s: "fold_result (select_step t) environ [] = Inr sel"
    and e: "env = by_name (fold (\<lambda>e m. mput (fst e) (snd e) m) lit sel)"
    by (auto simp: selectedEnvironment_def rbind_Inr_iff)
  let ?m = "fold (\<lambda>e m. mput (fst e) (snd e) m) lit sel"
  have nl: "named lit" "snd ` set lit = set (tEnvSet t)" using literal_loop [OF l] by simp_all
  have ns: "named sel" "snd ` set sel = {a \<in> set environ. host_selected t a}" using select_loop [OF s] by simp_all
  have nm: "named ?m" by (rule named_override [OF nl(1) ns(1)])
  have wf: "wf_map lit" "wf_map sel" "wf_map ?m" using nl(1) ns(1) nm by (simp_all add: named_def)
  have mem: "(k, v) \<in> set ?m \<longleftrightarrow> (k, v) \<in> set lit \<or> ((k, v) \<in> set sel \<and> k \<notin> fst ` set lit)" for k v
    using map_of_override [OF wf(1), of sel] wf_map_in_iff [OF wf(3), of k v] wf_map_in_iff [OF wf(1), of k v]
      wf_map_in_iff [OF wf(2), of k v]
    by (auto simp: map_add_Some_iff map_of_eq_None_iff)
  have keys: "Some ` fst ` set lit = assignment_name ` set (tEnvSet t)"
    using nl(1) unfolding nl(2) [symmetric] by (force simp: named_def image_iff)
  have names: "assignment_name v = Some k" if "(k, v) \<in> set sel" for k v
    using that ns(1) by (auto simp: named_def)
  have "snd ` set ?m = snd ` set lit \<union> {v \<in> snd ` set sel. assignment_name v \<notin> Some ` fst ` set lit}"
    using mem names by (force simp: image_iff)
  then show "set env = set (tEnvSet t) \<union> {a \<in> set environ. host_selected t a \<and> assignment_name a \<notin> assignment_name ` set (tEnvSet t)}"
    unfolding e by_name_spec(1) [OF nm] keys nl(2) ns(2) by auto
  show "\<exists>names. map assignment_name env = map Some names \<and> sorted names \<and> distinct names"
    using by_name_spec(2) [OF nm] wf(3) unfolding e
    by (intro exI [of _ "sort (mkeys ?m)"]) (simp add: wf_map_def)
qed

section \<open>The image\<close>

text \<open>What may run: the immutable image of a lock entry the policy accepts, or, without a
  lockfile, the configured image when the policy demands neither a lock nor a signature for it.\<close>

definition runnable_image :: "platform \<Rightarrow> tool \<Rightarrow> policy \<Rightarrow> lock_file option \<Rightarrow> string \<Rightarrow> bool" where
  "runnable_image P t p lf img = (case lf of
     Some l \<Rightarrow> \<exists>e. map_of (lfImages l) (tImage t) = Some e \<and> img = leResolved e
       \<and> immutable_reference (pf_unicode P) img
       \<and> AuthorizeResolvedImage (pf_unicode P) p (tImage t) img (IsLocalResolved img) (RuntimeTrustEvidence e) = Inr ()
   | None \<Rightarrow> img = tImage t \<and> (Managed p \<longrightarrow> \<not> pRequireLock p \<and> trust_lookup (pf_unicode P) p img = Inr None))"

lemma loaded_lock_wf: "LoadLock P rename_ok d = Inr (Some l, d') \<Longrightarrow> lock_wf P maxLockVersion l"
  by (auto simp: LoadLock_def rbind_Inr_iff split: option.splits if_splits dest: parse_lock_wf(1))

lemma runtime_image_at:
  assumes "RuntimeImageForToolAt P rename_ok t p path d = Inr (img, d')"
  shows "\<exists>lf. LoadLock P rename_ok d = Inr (lf, d') \<and> runnable_image P t p lf img"
proof -
  from assms obtain lf where l: "LoadLock P rename_ok d = Inr (lf, d')"
    and r: "runtimeImageForTool (pf_unicode P) t p lf = Inr img"
    by (auto simp: RuntimeImageForToolAt_def rbind_Inr_iff split: if_splits)
  have "runnable_image P t p lf img"
  proof (cases lf)
    case None
    then show ?thesis using runtime_unlocked r by (auto simp: runnable_image_def)
  next
    case (Some k)
    from runtime_image_locked [OF loaded_lock_wf] l r show ?thesis unfolding Some runnable_image_def by fastforce
  qed
  with l show ?thesis by blast
qed

section \<open>The shape of a plan\<close>

definition volume_mount :: "volume \<Rightarrow> container_mount \<Rightarrow> bool" where
  "volume_mount v m = (cmType m = Volume \<and> cmSource m = voName v \<and> cmVolumeLabels m = voLabels v)"

definition planned :: "container_mount list \<Rightarrow> plan_mounts \<Rightarrow> bool" where
  "planned base pm = (\<exists>ms. fst pm = base @ ms \<and> list_all2 volume_mount (snd pm) ms)"

lemma append_volume_planned: "append_volume v dst st = Inr st' \<Longrightarrow> planned base st \<Longrightarrow> planned base st'"
  by (auto simp: append_volume_def Let_def planned_def volume_mount_def intro!: list_all2_appendI split: if_splits)

lemma planned_start: "planned base (base, [])"
  by (simp add: planned_def)

lemma plan_provider_planned:
  assumes "plan_provider bootstrap deps s t (pj, found, mapped, wd, base) env = Inr (pm, env', command)"
  shows "planned base pm" "\<exists>pre. command = pre @ mapped"
proof -
  show "\<exists>pre. command = pre @ mapped"
    using assms by (auto simp: plan_provider_def rbind_Inr_iff split: if_splits)
  let ?app = "\<lambda>b :: volume_binding. append_volume (bdVolume b) (bdDestination b)"
  have "\<exists>bds. fold_result ?app bds (base, []) = Inr pm"
  proof (cases "tProvider t = ''python''")
    case True
    with assms obtain py :: python_state and pm1 where "append_volume (pyVenv py) ''/venv'' (base, []) = Inr pm1"
      "append_volume (pyPipCache py) ''/root/.cache/pip'' pm1 = Inr pm"
      by (auto simp: plan_provider_def rbind_Inr_iff split: if_splits)
    then show ?thesis
      by (intro exI [of _ "[\<lparr>bdVolume = pyVenv py, bdDestination = ''/venv''\<rparr>,
        \<lparr>bdVolume = pyPipCache py, bdDestination = ''/root/.cache/pip''\<rparr>]"]) simp
  next
    case False
    with assms show ?thesis
      by (cases "tProvider t = ''stateless''") (auto simp: plan_provider_def rbind_Inr_iff intro: exI [of _ "[]"] split: if_splits)
  qed
  then obtain bds where f: "fold_result ?app bds (base, []) = Inr pm" by blast
  show "planned base pm"
    by (rule fold_result_invariant [where I = "planned base", OF f planned_start]) (rule append_volume_planned)
qed

lemma build_plan_steps:
  assumes "buildToolPlan bootstrap deps t userArgs p layout cwd tty environ d = Inr (plan, d')"
  obtains scope img env pj found mapped wd base pm env' command where
    "tHostMounts t = []" "NewScope layout = Inr scope" "pdImage deps t p (wlLockPath layout) d = Inr (img, d')"
    "selectedEnvironment t environ = Inr env"
    "plan_workspace deps t cwd userArgs = Inr (pj, found, mapped, wd, base)"
    "plan_provider bootstrap deps scope t (pj, found, mapped, wd, base) env = Inr (pm, env', command)"
    "validateContainerCreateSpec (tpSpec plan) = Inr ()" "tpLayout plan = layout" "tpVolumes plan = snd pm"
    "csImage (tpSpec plan) = img" "csCommand (tpSpec plan) = command" "csEnvironment (tpSpec plan) = env'"
    "csWorkingDirectory (tpSpec plan) = wd" "csMounts (tpSpec plan) = fst pm" "csRetain (tpSpec plan)"
    "csNamespace (tpSpec plan) = scNamespace scope" "csTool (tpSpec plan) = tName t"
  using assms
  by (clarsimp simp: buildToolPlan_def rbind_Inr_iff Let_def split: if_splits)

section \<open>Production plans\<close>

lemma select_returns: "\<exists>r. selectForTool lstat cl resolve start t = Some r"
proof (cases "check_selection lstat start t")
  case (Inl e)
  then show ?thesis by (simp add: selectForTool_def)
next
  case (Inr u)
  then have "canonical_path start" by (auto simp: check_selection_def rbind_Inr_iff validate_root_iff)
  then obtain cs where "start = abs_path cs" "list_all proper cs" by (rule canonical_form)
  with find_root_spec obtain r where
    "find_root lstat (ProjectMarkersFor t) (tProjectRootMode t = ''outermost'') start [] = Some r" by blast
  then have "\<exists>r. select_root lstat start t = Some r" by (simp add: select_root_def split: sum.split)
  then show ?thesis by (auto simp: selectForTool_def Inr)
qed

lemma plan_workspace_project:
  assumes "plan_workspace (productionPlanDependencies P rename_ok obs1 obs2) t cwd userArgs = Inr (pj, found, mapped, wd, base)"
    "tCwdMode t \<noteq> ''isolated''"
  shows "base = [\<lparr>cmType = Bind, cmSource = pjRoot pj, cmTarget = projectWorkspace, cmReadOnly = False, cmVolumeLabels = []\<rparr>]"
    "list_all2 (arg_mapped t (pjRoot pj) projectWorkspace cwd) userArgs mapped"
    "translated (pjRoot pj) projectWorkspace cwd wd"
proof -
  from assms have m: "mapToolArgs (\<lambda>pj c. the (resolveDescendant obs1 obs2 pj c)) t pj cwd projectWorkspace userArgs = Inr (mapped, wd)"
    and b: "base = [\<lparr>cmType = Bind, cmSource = pjRoot pj, cmTarget = projectWorkspace, cmReadOnly = False, cmVolumeLabels = []\<rparr>]"
    by (auto simp: plan_workspace_def productionPlanDependencies_def rbind_Inr_iff Let_def)
  show "base = [\<lparr>cmType = Bind, cmSource = pjRoot pj, cmTarget = projectWorkspace, cmReadOnly = False, cmVolumeLabels = []\<rparr>]" by (rule b)
  from wsl_boundary.map_args_spec [OF m]
  show "list_all2 (arg_mapped t (pjRoot pj) projectWorkspace cwd) userArgs mapped" "translated (pjRoot pj) projectWorkspace cwd wd"
    by simp_all
qed

text \<open>The host directory a container can see, if any.\<close>

definition bind_sources :: "create_spec \<Rightarrow> string list" where
  "bind_sources spec = map cmSource (filter (\<lambda>m. cmType m = Bind) (csMounts spec))"

lemma volume_mounts_no_bind: "list_all2 volume_mount vs ms \<Longrightarrow> filter (\<lambda>m. cmType m = Bind) ms = []"
  by (induction rule: list_all2_induct) (auto simp: volume_mount_def)

lemma planned_binds:
  "planned base pm \<Longrightarrow> csMounts spec = fst pm \<Longrightarrow> bind_sources spec = map cmSource (filter (\<lambda>m. cmType m = Bind) base)"
  by (auto simp: planned_def bind_sources_def volume_mounts_no_bind)

definition plan_project :: "tool \<Rightarrow> string \<Rightarrow> string list \<Rightarrow> tool_plan \<Rightarrow> bool" where
  "plan_project t cwd userArgs plan = (\<exists>root pre mapped. bind_sources (tpSpec plan) = [root]
     \<and> \<not> bindSourceContainsDockerSocket root \<and> csCommand (tpSpec plan) = pre @ mapped
     \<and> list_all2 (arg_mapped t root projectWorkspace cwd) userArgs mapped
     \<and> translated root projectWorkspace cwd (csWorkingDirectory (tpSpec plan)))"

lemma bind_no_socket:
  assumes "validateContainerCreateSpec spec = Inr ()" "root \<in> set (bind_sources spec)"
  shows "\<not> bindSourceContainsDockerSocket root"
proof -
  from assms(2) obtain m where m: "m \<in> set (csMounts spec)" "cmType m = Bind" "cmSource m = root"
    by (auto simp: bind_sources_def)
  with valid_spec_mounts(1) [OF assms(1)] have "mount_ok (csNamespace spec) m" by (simp add: list_all_iff)
  with m show ?thesis by (auto simp: mount_ok_def validateContainerMount_def rbind_Inr_iff split: if_splits)
qed

lemma production_plan_spec:
  assumes "buildToolPlan bootstrap (productionPlanDependencies P rename_ok obs1 obs2) t userArgs p layout cwd tty environ d
      = Inr (plan, d')"
  shows "validateContainerCreateSpec (tpSpec plan) = Inr ()"
    and "\<exists>lf. LoadLock P rename_ok d = Inr (lf, d') \<and> runnable_image P t p lf (csImage (tpSpec plan))"
    and "if tCwdMode t = ''isolated'' then bind_sources (tpSpec plan) = [] \<and> csWorkingDirectory (tpSpec plan) = ''/root''
      else plan_project t cwd userArgs plan"
    and "\<exists>base ms. csMounts (tpSpec plan) = base @ ms \<and> list_all2 volume_mount (tpVolumes plan) ms \<and> length base \<le> 1"
proof -
  from assms obtain scope img env pj found mapped wd base pm env' command where
    i: "pdImage (productionPlanDependencies P rename_ok obs1 obs2) t p (wlLockPath layout) d = Inr (img, d')" and
    w: "plan_workspace (productionPlanDependencies P rename_ok obs1 obs2) t cwd userArgs = Inr (pj, found, mapped, wd, base)" and
    q: "plan_provider bootstrap (productionPlanDependencies P rename_ok obs1 obs2) scope t (pj, found, mapped, wd, base) env = Inr (pm, env', command)" and
    v: "validateContainerCreateSpec (tpSpec plan) = Inr ()" and
    r: "tpVolumes plan = snd pm" "csImage (tpSpec plan) = img" "csCommand (tpSpec plan) = command"
    "csWorkingDirectory (tpSpec plan) = wd" "csMounts (tpSpec plan) = fst pm"
    by (rule build_plan_steps)
  show "validateContainerCreateSpec (tpSpec plan) = Inr ()" by (rule v)
  show "\<exists>lf. LoadLock P rename_ok d = Inr (lf, d') \<and> runnable_image P t p lf (csImage (tpSpec plan))"
    using runtime_image_at i r(2) by (simp add: productionPlanDependencies_def Let_def)
  from plan_provider_planned [OF q] obtain pre where pl: "planned base pm" and c: "command = pre @ mapped" by blast
  note binds = planned_binds [OF pl r(5)]
  show "if tCwdMode t = ''isolated'' then bind_sources (tpSpec plan) = [] \<and> csWorkingDirectory (tpSpec plan) = ''/root''
      else plan_project t cwd userArgs plan"
  proof (cases "tCwdMode t = ''isolated''")
    case True
    with w binds r(4) show ?thesis by (simp add: plan_workspace_def isolatedWorkspace_def)
  next
    case False
    note s = plan_workspace_project [OF w False]
    have b: "bind_sources (tpSpec plan) = [pjRoot pj]" using binds by (simp add: s(1))
    then have n: "\<not> bindSourceContainsDockerSocket (pjRoot pj)" using bind_no_socket [OF v] by simp
    with b c s(2,3) r(3,4) False show ?thesis unfolding plan_project_def by auto
  qed
  have "length base \<le> 1"
    using w plan_workspace_project(1) [OF w] by (cases "tCwdMode t = ''isolated''") (auto simp: plan_workspace_def)
  with pl r(1,5) show "\<exists>base ms. csMounts (tpSpec plan) = base @ ms \<and> list_all2 volume_mount (tpVolumes plan) ms \<and> length base \<le> 1"
    by (auto simp: planned_def)
qed

end
