(* ===== verification/Wsl_Run.thy ===== *)
theory Wsl_Run
  imports Wsl_Plan
begin

text \<open>
  The execution of a plan (\<open>internal/wslrun/runner.go\<close>, \<open>frontend.go\<close>). The answers of the engine,
  of the lease guard and of the terminal are the fields of \<open>run_answers\<close>. What the goroutines and
  the signal handler deliver to the \<open>select\<close> loop is a list of messages, in the order in which the
  loop receives them; a loop whose messages are used up is still waiting (\<open>None\<close>). Every call that
  leaves the function is recorded, so that the order of the calls can be stated.
\<close>

datatype run_call =
    Ensure_Call string
  | Begin_Call
  | Create_Call create_spec
  | Adopt_Call string
  | Events_Call
  | Attach_Call string
  | Terminal_Call
  | Start_Call string
  | Wait_Call string
  | Resize_Call string "16 word" "16 word"
  | Signal_Call string int
  | Remove_Call string
  | Close_Stream
  | Restore_Terminal
  | Stop_Events
  | Close_Guard bool

datatype run_failure =
    Fail_Ensure string
  | Fail_Lease
  | Fail_Create
  | Fail_Identity
  | Fail_Adopt
  | Fail_Events
  | Fail_Attach
  | Fail_Terminal
  | Fail_Start
  | Fail_Initial_Size
  | Fail_Wait
  | Fail_Output
  | Fail_Drain
  | Fail_Drain_Canceled
  | Fail_Input
  | Fail_Event
  | Fail_Resize
  | Fail_Signal int
  | Fail_Canceled
  | Fail_Close_Stream
  | Fail_Restore
  | Fail_Ambiguous
  | Fail_Remove
  | Fail_Kill
  | Fail_Kill_Wait
  | Fail_Close_Guard

text \<open>The outcome of an engine call: done, an API error with its status, or another error.\<close>

datatype call_result = Call_Ok | Call_Status nat | Call_Failed

definition containerCompletionRace :: "call_result \<Rightarrow> bool" where
  "containerCompletionRace r = (case r of Call_Status n \<Rightarrow> n = 404 \<or> n = 409 | _ \<Rightarrow> False)"

definition tolerated :: "call_result \<Rightarrow> bool" where
  "tolerated r = (r = Call_Ok \<or> containerCompletionRace r)"

datatype input_result = Input_Ok | Input_Closed | Input_Error

text \<open>\<open>copyToolInput\<close>: the copy through \<open>inputSinkWriter\<close> (which turns an error of a peer that has
  closed into \<open>ErrClosedPipe\<close>), then \<open>CloseWrite\<close>. \<open>peer_closed\<close> is \<open>inputPeerClosed\<close>.\<close>

datatype 'e copy_end = Copy_Done | Copy_Read_Error 'e | Copy_Write_Error 'e

definition copyToolInput :: "('e \<Rightarrow> bool) \<Rightarrow> 'e copy_end \<Rightarrow> 'e option \<Rightarrow> input_result" where
  "copyToolInput peer_closed copied close_err = (case copied of
     Copy_Read_Error _ \<Rightarrow> Input_Error
   | Copy_Write_Error e \<Rightarrow> if peer_closed e then Input_Closed else Input_Error
   | Copy_Done \<Rightarrow> (case close_err of
         None \<Rightarrow> Input_Ok | Some e \<Rightarrow> if peer_closed e then Input_Closed else Input_Error))"

datatype message =
    Wait_Done "int option"
  | Output_Done bool
  | Input_Done input_result
  | Resize_Event "16 word" "16 word" call_result
  | Signal_Event int call_result
  | Error_Event
  | Events_Closed
  | Canceled
  | Drain_Timeout

section \<open>The select loop\<close>

text \<open>The channels that are not yet \<open>nil\<close>; \<open>lpOutput\<close> tells that the output has ended well.\<close>

record loop_state =
  lpOutput :: bool
  lpInput :: bool
  lpEvents :: bool

record loop_end =
  leCode :: int
  leFailure :: "run_failure option"
  leRunning :: bool
  leCalls :: "run_call list"

abbreviation failed_end :: "run_failure \<Rightarrow> bool \<Rightarrow> run_call list \<Rightarrow> loop_end" where
  "failed_end e running calls \<equiv> \<lparr>leCode = 0, leFailure = Some e, leRunning = running, leCalls = calls\<rparr>"

text \<open>The non-blocking receive of \<open>finishToolResult\<close>: an input result that is there, or none.\<close>

definition finishToolResult :: "int \<Rightarrow> bool \<Rightarrow> message list \<Rightarrow> loop_end" where
  "finishToolResult code input_open rest =
     (if input_open \<and> rest \<noteq> [] \<and> hd rest = Input_Done Input_Error then failed_end Fail_Input False []
      else \<lparr>leCode = code, leFailure = None, leRunning = False, leCalls = []\<rparr>)"

text \<open>The inner select after the container has exited: the output, the timer or the cancellation.\<close>

fun drain_output :: "int \<Rightarrow> bool \<Rightarrow> message list \<Rightarrow> loop_end option" where
  "drain_output code input_open [] = None"
| "drain_output code input_open (m # rest) = (case m of
     Output_Done ok \<Rightarrow> Some (if ok then finishToolResult code input_open rest else failed_end Fail_Output False [])
   | Drain_Timeout \<Rightarrow> Some (failed_end Fail_Drain False [])
   | Canceled \<Rightarrow> Some (failed_end Fail_Drain_Canceled False [])
   | _ \<Rightarrow> drain_output code input_open rest)"

definition add_call :: "run_call \<Rightarrow> loop_end option \<Rightarrow> loop_end option" where
  "add_call c r = map_option (\<lambda>e. e\<lparr>leCalls := c # leCalls e\<rparr>) r"

fun run_loop :: "string \<Rightarrow> loop_state \<Rightarrow> message list \<Rightarrow> loop_end option" where
  "run_loop i st [] = None"
| "run_loop i st (m # rest) = (case m of
     Wait_Done None \<Rightarrow> Some (failed_end Fail_Wait True [])
   | Wait_Done (Some code) \<Rightarrow>
       (if lpOutput st then Some (finishToolResult code (lpInput st) rest) else drain_output code (lpInput st) rest)
   | Output_Done ok \<Rightarrow>
       (if lpOutput st then run_loop i st rest
        else if ok then run_loop i (st\<lparr>lpOutput := True\<rparr>) rest else Some (failed_end Fail_Output True []))
   | Input_Done r \<Rightarrow>
       (if \<not> lpInput st then run_loop i st rest
        else if r = Input_Error then Some (failed_end Fail_Input True []) else run_loop i (st\<lparr>lpInput := False\<rparr>) rest)
   | Events_Closed \<Rightarrow> run_loop i (st\<lparr>lpEvents := False\<rparr>) rest
   | Error_Event \<Rightarrow> if lpEvents st then Some (failed_end Fail_Event True []) else run_loop i st rest
   | Resize_Event h w r \<Rightarrow>
       (if \<not> lpEvents st then run_loop i st rest
        else add_call (Resize_Call i h w)
          (if tolerated r then run_loop i st rest else Some (failed_end Fail_Resize True [])))
   | Signal_Event n r \<Rightarrow>
       (if \<not> lpEvents st \<or> n = 0 then run_loop i st rest
        else add_call (Signal_Call i n)
          (if tolerated r then run_loop i st rest else Some (failed_end (Fail_Signal n) True [])))
   | Canceled \<Rightarrow> Some (failed_end Fail_Canceled True [])
   | Drain_Timeout \<Rightarrow> run_loop i st rest)"

section \<open>From the created container to the end of the loop\<close>

record run_answers =
  raSize :: "16 word \<times> 16 word"
  raEnsure :: "volume \<Rightarrow> bool"
  raBegin :: bool
  raCreate :: "(string \<times> string) option"
  raAdopt :: bool
  raEvents :: bool
  raAttach :: bool
  raTerminal :: "(16 word \<times> 16 word \<times> bool) option"
  raStart :: bool
  raInitialResize :: call_result
  raMessages :: "message list"
  raCloseStream :: bool
  raRestore :: bool
  raKill :: bool
  raKillWait :: bool
  raRemove :: bool
  raCloseGuard :: bool

text \<open>What the body leaves to the deferred cleanup.\<close>

record run_body =
  rbEnd :: loop_end
  rbStream :: bool
  rbRestore :: bool
  rbEvents :: bool

definition stopped :: "run_failure \<Rightarrow> bool \<Rightarrow> run_call list \<Rightarrow> bool \<Rightarrow> bool \<Rightarrow> bool \<Rightarrow> run_body option" where
  "stopped e running calls stream restore events =
     Some \<lparr>rbEnd = failed_end e running calls, rbStream = stream, rbRestore = restore, rbEvents = events\<rparr>"

definition initial_resize :: "bool \<Rightarrow> 16 word \<Rightarrow> 16 word \<Rightarrow> bool" where
  "initial_resize tty h w = (tty \<and> h \<noteq> 0 \<and> w \<noteq> 0)"

definition run_started :: "string \<Rightarrow> bool \<Rightarrow> 16 word \<times> 16 word \<times> bool \<Rightarrow> run_answers \<Rightarrow> run_call list \<Rightarrow> run_body option" where
  "run_started i tty term A calls0 = (case term of (h, w, restore) \<Rightarrow>
     let resize = initial_resize tty h w; calls = calls0 @ (if resize then [Resize_Call i h w] else []) in
     if resize \<and> \<not> tolerated (raInitialResize A) then stopped Fail_Initial_Size True calls True restore True
     else map_option (\<lambda>e. \<lparr>rbEnd = e\<lparr>leCalls := calls @ leCalls e\<rparr>, rbStream = True, rbRestore = restore, rbEvents = True\<rparr>)
       (run_loop i \<lparr>lpOutput = False, lpInput = True, lpEvents = True\<rparr> (raMessages A)))"

text \<open>The calls up to the start, in their order.\<close>

definition run_created :: "string \<Rightarrow> string \<Rightarrow> bool \<Rightarrow> run_answers \<Rightarrow> run_body option" where
  "run_created i runID tty A =
     (let c1 = [Adopt_Call runID]; c2 = c1 @ [Events_Call]; c3 = c2 @ [Attach_Call i];
          c4 = c3 @ [Terminal_Call]; c5 = c4 @ [Start_Call i] in
      if \<not> raAdopt A then stopped Fail_Adopt False c1 False False False
      else if \<not> raEvents A then stopped Fail_Events False c2 False False False
      else if \<not> raAttach A then stopped Fail_Attach False c3 False False True
      else (case raTerminal A of
          None \<Rightarrow> stopped Fail_Terminal False c4 True False True
        | Some term \<Rightarrow>
          (if \<not> raStart A then stopped Fail_Start True c5 True (snd (snd term)) True
           else run_started i tty term A (c5 @ [Wait_Call i]))))"

section \<open>The deferred cleanup\<close>

definition close_part :: "bool \<Rightarrow> run_call \<Rightarrow> bool \<Rightarrow> run_failure \<Rightarrow> run_call list \<times> run_failure list" where
  "close_part present c ok e = (if present then ([c], if ok then [] else [e]) else ([], []))"

text \<open>The forced stop of a container that may be running: the calls, the error and whether it may
  still be running.\<close>

definition forced_stop :: "string \<Rightarrow> bool \<Rightarrow> run_answers \<Rightarrow> run_call list \<times> run_failure list \<times> bool" where
  "forced_stop i running A =
     (if \<not> running then ([], [], False)
      else if \<not> raKill A then ([Signal_Call i 9], [Fail_Kill], True)
      else if \<not> raKillWait A then ([Signal_Call i 9, Wait_Call i], [Fail_Kill_Wait], True)
      else ([Signal_Call i 9, Wait_Call i], [], False))"

text \<open>The cleanup: the calls, the errors in the order they are joined, and \<open>containerGone\<close>.\<close>

definition cleanup :: "string \<Rightarrow> run_body \<Rightarrow> run_answers \<Rightarrow> run_call list \<times> run_failure list \<times> bool" where
  "cleanup i b A =
     (case close_part (rbStream b) Close_Stream (raCloseStream A) Fail_Close_Stream of (c1, e1) \<Rightarrow>
      case close_part (rbRestore b) Restore_Terminal (raRestore A) Fail_Restore of (c2, e2) \<Rightarrow>
      case forced_stop i (leRunning (rbEnd b)) A of (c3, lifecycleErr, running) \<Rightarrow>
        (c1 @ c2 @ c3 @ [Remove_Call i] @ (if rbEvents b then [Stop_Events] else []),
         e1 @ e2 @ (if raRemove A then [] else [if running then Fail_Ambiguous else Fail_Remove]) @ lifecycleErr,
         raRemove A))"

section \<open>The whole execution\<close>

record run_result =
  rrCode :: int
  rrErrors :: "run_failure list"
  rrCalls :: "run_call list"

definition close_guard :: "bool \<Rightarrow> run_answers \<Rightarrow> run_result \<Rightarrow> run_result" where
  "close_guard gone A r = r\<lparr>rrErrors := rrErrors r @ (if raCloseGuard A then [] else [Fail_Close_Guard]),
     rrCalls := rrCalls r @ [Close_Guard gone]\<rparr>"

text \<open>The loop over the volumes stops at the first failure.\<close>

fun ensure_all :: "(volume \<Rightarrow> bool) \<Rightarrow> volume list \<Rightarrow> run_call list \<times> string option" where
  "ensure_all ok [] = ([], None)"
| "ensure_all ok (v # vs) =
     (if \<not> ok v then ([Ensure_Call (voName v)], Some (voName v))
      else (case ensure_all ok vs of (cs, r) \<Rightarrow> (Ensure_Call (voName v) # cs, r)))"

definition finish_run :: "string \<Rightarrow> run_call list \<Rightarrow> run_answers \<Rightarrow> run_body \<Rightarrow> run_result" where
  "finish_run i calls A b = (case cleanup i b A of (cs, errs, gone) \<Rightarrow>
     close_guard gone A \<lparr>rrCode = leCode (rbEnd b),
       rrErrors = (case leFailure (rbEnd b) of None \<Rightarrow> [] | Some e \<Rightarrow> [e]) @ errs,
       rrCalls = calls @ leCalls (rbEnd b) @ cs\<rparr>)"

definition executeTool :: "tool_plan \<Rightarrow> run_answers \<Rightarrow> run_result option" where
  "executeTool plan A =
     (let spec = (tpSpec plan)\<lparr>csHeight := fst (raSize A), csWidth := snd (raSize A)\<rparr> in
      case ensure_all (raEnsure A) (tpVolumes plan) of
        (cs, Some name) \<Rightarrow> Some \<lparr>rrCode = 0, rrErrors = [Fail_Ensure name], rrCalls = cs\<rparr>
      | (cs, None) \<Rightarrow>
        (let calls1 = cs @ [Begin_Call]; calls2 = calls1 @ [Create_Call spec] in
         if \<not> raBegin A then Some \<lparr>rrCode = 0, rrErrors = [Fail_Lease], rrCalls = calls1\<rparr>
         else (case raCreate A of
             None \<Rightarrow> Some (close_guard False A \<lparr>rrCode = 0, rrErrors = [Fail_Create], rrCalls = calls2\<rparr>)
           | Some (i, runID) \<Rightarrow>
             (if i = [] \<or> runID = []
              then Some (close_guard False A \<lparr>rrCode = 0, rrErrors = [Fail_Identity], rrCalls = calls2\<rparr>)
              else map_option (finish_run i calls2 A) (run_created i runID (csTTY spec) A)))))"

end
