(* ===== verification/Wsl_Run_Facts.thy ===== *)
theory Wsl_Run_Facts
  imports Wsl_Run
begin

text \<open>
  The order of the calls of a run (\<open>run_protocol\<close>), when it reports no error (\<open>run_success\<close>), and
  that a canceled run returns (\<open>canceled_run_returns\<close>).
\<close>

definition loop_call :: "string \<Rightarrow> run_call \<Rightarrow> bool" where
  "loop_call i c = (case c of Resize_Call j _ _ \<Rightarrow> j = i | Signal_Call j _ \<Rightarrow> j = i | _ \<Rightarrow> False)"

text \<open>The calls of the body: a prefix of the fixed order, then what the loop sends.\<close>

definition body_calls :: "string \<Rightarrow> string \<Rightarrow> run_call list \<Rightarrow> bool" where
  "body_calls i runID cs = (\<exists>n rest. cs = take (Suc n)
       [Adopt_Call runID, Events_Call, Attach_Call i, Terminal_Call, Start_Call i, Wait_Call i] @ rest
     \<and> list_all (loop_call i) rest \<and> (rest = [] \<or> 5 \<le> n))"

text \<open>The calls of the cleanup: exactly one removal, everything else but the signal handling before it.\<close>

definition cleanup_calls :: "string \<Rightarrow> run_call list \<Rightarrow> bool" where
  "cleanup_calls i cs = (\<exists>pre post. cs = pre @ [Remove_Call i] @ post
     \<and> subseq pre [Close_Stream, Restore_Terminal, Signal_Call i 9, Wait_Call i] \<and> post \<in> {[], [Stop_Events]})"

lemma drain_calls: "drain_output code op ms = Some e \<Longrightarrow> leCalls e = []"
  by (induction code op ms rule: drain_output.induct) (auto simp: finishToolResult_def split: message.splits if_splits)

lemma add_call_Some: "add_call c r = Some e \<longleftrightarrow> (\<exists>e'. r = Some e' \<and> e = e'\<lparr>leCalls := c # leCalls e'\<rparr>)"
  by (auto simp: add_call_def)

lemma loop_calls: "run_loop i st ms = Some e \<Longrightarrow> list_all (loop_call i) (leCalls e)"
  by (induction i st ms arbitrary: e rule: run_loop.induct)
    (auto simp: add_call_Some finishToolResult_def loop_call_def split: message.splits option.splits if_splits
      dest!: drain_calls)

lemma started_calls:
  assumes "run_started i tty term A calls0 = Some b"
  shows "\<exists>rest. leCalls (rbEnd b) = calls0 @ rest \<and> list_all (loop_call i) rest"
  using assms loop_calls
  by (cases "term") (fastforce simp: run_started_def Let_def stopped_def loop_call_def split: if_splits)

lemma body_calls_take: "body_calls i runID (take (Suc n) [Adopt_Call runID, Events_Call, Attach_Call i, Terminal_Call, Start_Call i, Wait_Call i])"
  unfolding body_calls_def by (intro exI [of _ n] exI [of _ "[]"]) simp

lemma created_calls:
  assumes "run_created i runID tty A = Some b"
  shows "body_calls i runID (leCalls (rbEnd b))"
proof (cases "raAdopt A \<and> raEvents A \<and> raAttach A \<and> raTerminal A \<noteq> None \<and> raStart A")
  case True
  then obtain tm where t: "raTerminal A = Some tm" by blast
  have "run_started i tty tm A [Adopt_Call runID, Events_Call, Attach_Call i, Terminal_Call, Start_Call i, Wait_Call i] = Some b"
    using assms True by (simp add: run_created_def t)
  from started_calls [OF this] obtain rest where
    r: "leCalls (rbEnd b) = [Adopt_Call runID, Events_Call, Attach_Call i, Terminal_Call, Start_Call i, Wait_Call i] @ rest"
    "list_all (loop_call i) rest" by blast
  then show ?thesis unfolding body_calls_def by (intro exI [of _ 5] exI [of _ rest]) simp
next
  case False
  let ?cs = "[Adopt_Call runID, Events_Call, Attach_Call i, Terminal_Call, Start_Call i, Wait_Call i]"
  have "leCalls (rbEnd b) \<in> {take (Suc 0) ?cs, take (Suc 1) ?cs, take (Suc 2) ?cs, take (Suc 3) ?cs, take (Suc 4) ?cs}"
    using assms False by (auto simp: run_created_def Let_def stopped_def numeral_eq_Suc split: if_splits option.splits)
  then show ?thesis using body_calls_take [of i runID] by (elim insertE emptyE) (simp_all only:)
qed

lemma forced_stop_calls: "forced_stop i running A = (cs, errs, running') \<Longrightarrow> subseq cs [Signal_Call i 9, Wait_Call i]"
  by (auto simp: forced_stop_def split: if_splits)

lemma close_part_calls: "close_part present c ok e = (cs, errs) \<Longrightarrow> subseq cs [c] \<and> (errs = [] \<longrightarrow> present \<longrightarrow> ok)"
  by (auto simp: close_part_def split: if_splits)

lemma cleanup_spec:
  assumes "cleanup i b A = (cs, errs, gone)"
  shows "cleanup_calls i cs" "gone = raRemove A" "errs = [] \<longrightarrow> raRemove A"
    "errs = [] \<longrightarrow> (rbStream b \<longrightarrow> raCloseStream A) \<and> (rbRestore b \<longrightarrow> raRestore A)"
proof -
  obtain c1 e1 where 1: "close_part (rbStream b) Close_Stream (raCloseStream A) Fail_Close_Stream = (c1, e1)" by fastforce
  obtain c2 e2 where 2: "close_part (rbRestore b) Restore_Terminal (raRestore A) Fail_Restore = (c2, e2)" by fastforce
  obtain c3 e3 running where 3: "forced_stop i (leRunning (rbEnd b)) A = (c3, e3, running)"
    by (cases "forced_stop i (leRunning (rbEnd b)) A") auto
  note u = assms [unfolded cleanup_def 1 2 3 prod.case, symmetric, THEN Pair_inject]
  have c: "cs = c1 @ c2 @ c3 @ [Remove_Call i] @ (if rbEvents b then [Stop_Events] else [])"
    by (rule u)
  have e: "errs = e1 @ e2 @ (if raRemove A then [] else [if running then Fail_Ambiguous else Fail_Remove]) @ e3"
    by (rule u) (erule Pair_inject)
  have "subseq (c1 @ c2 @ c3) ([Close_Stream] @ [Restore_Terminal] @ [Signal_Call i 9, Wait_Call i])"
    using close_part_calls [OF 1] close_part_calls [OF 2] forced_stop_calls [OF 3] by (intro list_emb_append_mono) simp_all
  then show "cleanup_calls i cs" unfolding c cleanup_calls_def
    by (intro exI [of _ "c1 @ c2 @ c3"] exI [of _ "if rbEvents b then [Stop_Events] else []"]) simp
  show "gone = raRemove A" by (rule u) (erule Pair_inject)
  show "errs = [] \<longrightarrow> raRemove A" using e by auto
  show "errs = [] \<longrightarrow> (rbStream b \<longrightarrow> raCloseStream A) \<and> (rbRestore b \<longrightarrow> raRestore A)"
    using e close_part_calls [OF 1] close_part_calls [OF 2] by auto
qed

lemma ensure_all_calls:
  "ensure_all ok vs = (cs, r) \<Longrightarrow> (\<exists>ens. prefix ens vs \<and> cs = map (\<lambda>v. Ensure_Call (voName v)) ens \<and> (r = None \<longrightarrow> ens = vs))
     \<and> (r = None \<longleftrightarrow> list_all ok vs)"
proof (induction ok vs arbitrary: cs r rule: ensure_all.induct)
  case (2 ok v vs)
  show ?case
  proof (cases "ok v")
    case False
    with "2.prems" show ?thesis by (auto intro: exI [of _ "[v]"])
  next
    case True
    obtain cs' r' where e: "ensure_all ok vs = (cs', r')" by fastforce
    from "2.IH" [OF _ e] True obtain ens where
      "prefix ens vs" "cs' = map (\<lambda>v. Ensure_Call (voName v)) ens" "r' = None \<longrightarrow> ens = vs" "r' = None \<longleftrightarrow> list_all ok vs" by blast
    with "2.prems" True e show ?thesis by (auto intro!: exI [of _ "v # ens"])
  qed
qed simp

section \<open>The protocol\<close>

definition run_spec :: "tool_plan \<Rightarrow> run_answers \<Rightarrow> create_spec" where
  "run_spec plan A = (tpSpec plan)\<lparr>csHeight := fst (raSize A), csWidth := snd (raSize A)\<rparr>"

definition created_run :: "tool_plan \<Rightarrow> run_answers \<Rightarrow> run_call list \<Rightarrow> bool" where
  "created_run plan A cs = (\<exists>i runID body clean. raCreate A = Some (i, runID)
     \<and> cs = [Begin_Call, Create_Call (run_spec plan A)] @ body @ clean @ [Close_Guard (raRemove A)]
     \<and> body_calls i runID body \<and> cleanup_calls i clean)"

definition run_calls :: "tool_plan \<Rightarrow> run_answers \<Rightarrow> run_call list \<Rightarrow> bool" where
  "run_calls plan A cs = (\<exists>ens rest. cs = map (\<lambda>v. Ensure_Call (voName v)) ens @ rest \<and> prefix ens (tpVolumes plan)
     \<and> (rest = [] \<or> (ens = tpVolumes plan \<and>
          (rest = [Begin_Call] \<or> rest = [Begin_Call, Create_Call (run_spec plan A), Close_Guard False] \<or> created_run plan A rest))))"

lemma finish_run_calls:
  assumes "run_created i runID tty A = Some b" "raCreate A = Some (i, runID)"
  shows "\<exists>rest. rrCalls (finish_run i (cs @ [Begin_Call, Create_Call (run_spec plan A)]) A b) = cs @ rest \<and> created_run plan A rest"
proof -
  obtain ccs errs gone where c: "cleanup i b A = (ccs, errs, gone)" by (cases "cleanup i b A") auto
  note s = cleanup_spec [OF c]
  have "created_run plan A ([Begin_Call, Create_Call (run_spec plan A)] @ leCalls (rbEnd b) @ ccs @ [Close_Guard (raRemove A)])"
    unfolding created_run_def using s(1) created_calls [OF assms(1)] assms(2) by blast
  then show ?thesis
    by (intro exI [of _ "[Begin_Call, Create_Call (run_spec plan A)] @ leCalls (rbEnd b) @ ccs @ [Close_Guard (raRemove A)]"])
      (simp add: finish_run_def c close_guard_def s(2))
qed

lemma run_protocol:
  assumes "executeTool plan A = Some r"
  shows "run_calls plan A (rrCalls r)"
proof -
  obtain cs e where c: "ensure_all (raEnsure A) (tpVolumes plan) = (cs, e)" by fastforce
  from ensure_all_calls [OF c] obtain ens where n: "prefix ens (tpVolumes plan)"
    "cs = map (\<lambda>v. Ensure_Call (voName v)) ens" "e = None \<longrightarrow> ens = tpVolumes plan" by blast
  have run: "run_calls plan A (cs @ rest)" if "rest = [] \<or> (ens = tpVolumes plan \<and>
      (rest = [Begin_Call] \<or> rest = [Begin_Call, Create_Call (run_spec plan A), Close_Guard False] \<or> created_run plan A rest))" for rest
    using that n(1) unfolding run_calls_def n(2) by blast
  show ?thesis
  proof (cases e)
    case (Some name)
    then have "rrCalls r = cs" using assms c by (auto simp: executeTool_def Let_def)
    then show ?thesis using run [of "[]"] by simp
  next
    case None
    with n(3) have all: "ens = tpVolumes plan" by simp
    show ?thesis
    proof (cases "raBegin A \<and> (\<exists>i runID. raCreate A = Some (i, runID) \<and> i \<noteq> [] \<and> runID \<noteq> [])")
      case False
      then have "rrCalls r \<in> {cs @ [Begin_Call], cs @ [Begin_Call, Create_Call (run_spec plan A), Close_Guard False]}"
        using assms None c
        by (auto simp: executeTool_def Let_def close_guard_def run_spec_def split: if_splits option.splits prod.splits)
      moreover have "run_calls plan A (cs @ [Begin_Call])"
        "run_calls plan A (cs @ [Begin_Call, Create_Call (run_spec plan A), Close_Guard False])"
        by (rule run, simp add: all)+
      ultimately show ?thesis by (elim insertE emptyE) simp_all
    next
      case True
      then obtain i runID where i: "raCreate A = Some (i, runID)" "i \<noteq> []" "runID \<noteq> []" by blast
      with assms None c True obtain b where b: "run_created i runID (csTTY (tpSpec plan)) A = Some b"
        and r: "r = finish_run i (cs @ [Begin_Call, Create_Call (run_spec plan A)]) A b"
        by (auto simp: executeTool_def Let_def run_spec_def)
      from finish_run_calls [OF b i(1)] obtain rest where "rrCalls r = cs @ rest" "created_run plan A rest" unfolding r by blast
      then show ?thesis using run [of rest] all by simp
    qed
  qed
qed

section \<open>Success and return\<close>

lemma drain_success:
  "drain_output code op ms = Some e \<Longrightarrow> leFailure e = None \<Longrightarrow> leCode e = code \<and> \<not> leRunning e \<and> Output_Done True \<in> set ms"
  by (induction code op ms rule: drain_output.induct) (auto simp: finishToolResult_def split: message.splits if_splits)

lemma loop_success:
  "run_loop i st ms = Some e \<Longrightarrow> leFailure e = None \<Longrightarrow> Wait_Done (Some (leCode e)) \<in> set ms \<and> \<not> leRunning e
     \<and> (lpOutput st \<or> Output_Done True \<in> set ms)"
proof (induction i st ms arbitrary: e rule: run_loop.induct)
  case (2 i st m rest)
  then show ?case
    by (auto simp: add_call_Some finishToolResult_def split: message.splits option.splits if_splits dest: drain_success)
qed simp

definition run_completed :: "run_answers \<Rightarrow> int \<Rightarrow> bool" where
  "run_completed A code = (raAdopt A \<and> raStart A \<and> Wait_Done (Some code) \<in> set (raMessages A)
     \<and> Output_Done True \<in> set (raMessages A) \<and> raRemove A \<and> raCloseStream A \<and> raCloseGuard A)"

lemma created_success:
  assumes "run_created i runID tty A = Some b" "leFailure (rbEnd b) = None"
  shows "raAdopt A \<and> raStart A \<and> rbStream b \<and> Wait_Done (Some (leCode (rbEnd b))) \<in> set (raMessages A)
     \<and> Output_Done True \<in> set (raMessages A)"
  using assms
  by (auto simp: run_created_def run_started_def Let_def stopped_def split: if_splits option.splits prod.splits
      dest: loop_success)

lemma run_success:
  assumes "executeTool plan A = Some r" "rrErrors r = []"
  shows "run_completed A (rrCode r)"
proof -
  obtain cs e where c: "ensure_all (raEnsure A) (tpVolumes plan) = (cs, e)" by fastforce
  with assms obtain i runID b where b: "run_created i runID (csTTY (tpSpec plan)) A = Some b"
    and r: "r = finish_run i (cs @ [Begin_Call, Create_Call (run_spec plan A)]) A b"
    by (auto simp: executeTool_def Let_def run_spec_def close_guard_def split: if_splits option.splits)
  obtain ccs errs gone where k: "cleanup i b A = (ccs, errs, gone)" by (cases "cleanup i b A") auto
  from assms(2) have "leFailure (rbEnd b) = None" "errs = []" "raCloseGuard A" "rrCode r = leCode (rbEnd b)"
    by (auto simp: r finish_run_def k close_guard_def split: option.splits if_splits)
  with created_success [OF b] cleanup_spec [OF k] show ?thesis by (auto simp: run_completed_def)
qed

lemma canceled_drain: "Canceled \<in> set ms \<Longrightarrow> \<exists>e. drain_output code op ms = Some e"
  by (induction code op ms rule: drain_output.induct) (auto split: message.splits)

lemma canceled_loop: "Canceled \<in> set ms \<Longrightarrow> \<exists>e. run_loop i st ms = Some e"
proof (induction i st ms rule: run_loop.induct)
  case (2 i st m rest)
  then show ?case by (cases m) (auto simp: add_call_def canceled_drain split: option.splits)
qed simp

lemma canceled_run_returns:
  assumes "Canceled \<in> set (raMessages A)"
  shows "\<exists>r. executeTool plan A = Some r"
proof -
  have s: "\<exists>b. run_started i tty tm A calls = Some b" for i tty tm calls
    using canceled_loop [OF assms] by (auto simp: run_started_def Let_def stopped_def split: prod.split)
  have c: "\<exists>b. run_created i runID tty A = Some b" for i runID tty
    using s by (auto simp: run_created_def Let_def stopped_def split: option.split)
  show ?thesis
    by (cases "ensure_all (raEnsure A) (tpVolumes plan)"; cases "snd (ensure_all (raEnsure A) (tpVolumes plan))"; cases "raCreate A")
      (use c in \<open>auto simp: executeTool_def Let_def\<close>)
qed

end
