(* ===== verification/Wsl_Demo.thy ===== *)
theory Wsl_Demo
  imports Wsl_Plan_Facts Wsl_Run_Facts Evaluation
begin

text \<open>
  One small native WSL2 host, on which the properties of the frontend are evaluated: a project
  below \<open>/home/u/p\<close> with one directory, one mount, and a tool.
\<close>

definition demo_dir :: path_info where
  "demo_dir = \<lparr>piMode = 0x80000000, piDev = 0x801\<rparr>"

definition demo_files :: inspection where
  "demo_files = \<lparr>inRuntime = Some WSL2Native,
     inLstat = (\<lambda>p. if p \<in> {''/'', ''/home/u/p'', ''/home/u/p/src'', ''/home/u/p/.git''} then Got demo_dir else Absent),
     inEval = Some, inMounts = Some (''21 1 8:1 / / rw - ext4 /dev/sdc rw'' @ [CHR 0x0A])\<rparr>"

definition demo_mount :: mount_info where
  "demo_mount = \<lparr>miID = 21, miParent = 1, miDevice = 0x801, miPoint = ''/'', miFilesystem = ''ext4'',
     miSource = ''/dev/sdc'', miOptions = ''rw''\<rparr>"

definition demo_project :: project where
  "demo_project = \<lparr>pjRoot = ''/home/u/p'', pjStorage = Distribution, pjMountPoint = ''/'', pjWindowsDrive = [],
     pjMountID = 21, pjDevice = 0x801\<rparr>"

lemma demo_table: "parseMountInfo (''21 1 8:1 / / rw - ext4 /dev/sdc rw'' @ [CHR 0x0A]) = Inr [demo_mount]"
  by code_simp

lemma demo_live: "live_mounts demo_files = Inr [demo_mount]"
  using demo_table by (simp add: live_mounts_def demo_files_def)

lemma demo_dir_facts: "\<not> is_symlink demo_dir" "is_dir demo_dir" "piDev demo_dir = 0x801"
  by code_simp+

lemma demo_roots:
  "validateRoot ''/home/u/p'' = Inr ()" "validateRoot ''/home/u/p/src'' = Inr ()" "validateRoot ''/home/u/p/src/new.c'' = Inr ()"
  by code_simp+

lemma demo_containing:
  "containingMount ''/home/u/p'' [demo_mount] = Inr demo_mount" "containingMount ''/home/u/p/src'' [demo_mount] = Inr demo_mount"
  by code_simp+

lemma demo_no_drive: "defaultDriveMount ''/'' = None" "isDrvFS demo_mount [] = False" "defaultDriveRoot ''/home/u/p'' = None"
  by code_simp+

lemma demo_classify: "classify demo_files ''/home/u/p'' = Inr demo_project"
proof -
  have "inRuntime demo_files = Some WSL2Native" "inLstat demo_files ''/home/u/p'' = Got demo_dir"
    "inEval demo_files ''/home/u/p'' = Some ''/home/u/p''" "inLstat demo_files ''/'' = Got demo_dir"
    by (simp_all add: demo_files_def)
  then show ?thesis
    by (simp add: classify_def demo_roots demo_dir_facts demo_live demo_containing classify_mount_def demo_no_drive
        demo_project_def) (simp add: demo_mount_def demo_no_drive)
qed

definition demo_child :: "string \<Rightarrow> string \<Rightarrow> bool \<Rightarrow> string \<Rightarrow> descendant" where
  "demo_child path relative exists nearest =
     \<lparr>dsPath = path, dsRelative = relative, dsExists = exists, dsNearest = nearest\<rparr>"

lemma demo_nearest:
  "nearest_existing (inLstat demo_files) ''/home/u/p'' ''/home/u/p/src'' True = Some (Inr (''/home/u/p/src'', True, demo_dir))"
  "nearest_existing (inLstat demo_files) ''/home/u/p'' ''/home/u/p/src/new.c'' True = Some (Inr (''/home/u/p/src'', False, demo_dir))"
proof -
  have d: "path_dir ''/home/u/p/src/new.c'' = ''/home/u/p/src''" by code_simp
  have l: "inLstat demo_files ''/home/u/p/src'' = Got demo_dir" "inLstat demo_files ''/home/u/p/src/new.c'' = Absent"
    by (simp_all add: demo_files_def)
  have i: "inside ''/home/u/p/src'' ''/home/u/p''" by code_simp
  show "nearest_existing (inLstat demo_files) ''/home/u/p'' ''/home/u/p/src'' True = Some (Inr (''/home/u/p/src'', True, demo_dir))"
    by (subst nearest_existing.simps) (simp add: l)
  show "nearest_existing (inLstat demo_files) ''/home/u/p'' ''/home/u/p/src/new.c'' True = Some (Inr (''/home/u/p/src'', False, demo_dir))"
    by (subst nearest_existing.simps, simp add: l d i) (subst nearest_existing.simps, simp add: l)
qed

lemma demo_resolve:
  "resolveDescendant demo_files demo_files demo_project ''/home/u/p/src'' = Some (Inr (demo_child ''/home/u/p/src'' ''src'' True ''/home/u/p/src''))"
  "resolveDescendant demo_files demo_files demo_project ''/home/u/p/src/new.c'' =
     Some (Inr (demo_child ''/home/u/p/src/new.c'' ''src/new.c'' False ''/home/u/p/src''))"
proof -
  have p: "pjRoot demo_project = ''/home/u/p''" "pjMountID demo_project = miID demo_mount"
    "pjDevice demo_project = miDevice demo_mount" "pjMountPoint demo_project = miPoint demo_mount"
    "miDevice demo_mount = 0x801" by (simp_all add: demo_project_def demo_mount_def)
  have i: "inside ''/home/u/p/src'' ''/home/u/p''" "inside ''/home/u/p/src/new.c'' ''/home/u/p''"
    "trim_prefix ''/home/u/p/src'' ''/home/u/p'' = ''/src''" "trim_prefix ''/home/u/p/src/new.c'' ''/home/u/p'' = ''/src/new.c''"
    "trim_prefix ''/src'' ''/'' = ''src''" "trim_prefix ''/src/new.c'' ''/'' = ''src/new.c''" by code_simp+
  have s: "sameProjectIdentity demo_project demo_project" by (simp add: sameProjectIdentity_def)
  have e: "inEval demo_files q = Some q" for q by (simp add: demo_files_def)
  note facts = resolveDescendant_def p i s e demo_roots demo_classify demo_nearest prove_path_def demo_dir_facts demo_live
    demo_containing demo_child_def Let_def
  show "resolveDescendant demo_files demo_files demo_project ''/home/u/p/src'' = Some (Inr (demo_child ''/home/u/p/src'' ''src'' True ''/home/u/p/src''))"
    by (simp add: facts)
  show "resolveDescendant demo_files demo_files demo_project ''/home/u/p/src/new.c'' =
     Some (Inr (demo_child ''/home/u/p/src/new.c'' ''src/new.c'' False ''/home/u/p/src''))"
    by (simp add: facts)
qed

section \<open>A plan\<close>

definition demo_tool :: tool where
  "demo_tool = zero_tool\<lparr>tName := ''jq'', tProvider := ''stateless'', tImage := ''jq:1'', tCommand := [''jq''],
     tCwdMode := ''project'', tEnvNames := [''LANG''], tEnvSet := [''A=b'']\<rparr>"

lemma demo_tool_fields:
  "tName demo_tool = ''jq''" "tProvider demo_tool = ''stateless''" "tImage demo_tool = ''jq:1''" "tCommand demo_tool = [''jq'']"
  "tCwdMode demo_tool = ''project''" "tHostMounts demo_tool = []" "tArgsPrefix demo_tool = []" "tPathNext demo_tool = []"
  "tPathEquals demo_tool = []" "tPathLast demo_tool = False" "tTrustedProjectRoot demo_tool = []" "tProjectRootMode demo_tool = []"
  "ProjectMarkersFor demo_tool = [''.git'']"
  by (simp_all add: demo_tool_def zero_tool_def ProjectMarkersFor_def)

definition demo_platform :: platform where
  "demo_platform = unix_platform ascii_unicode (\<lambda>s. None) (\<lambda>key msg sig. False)"

definition demo_namespace :: string where "demo_namespace = ''wsl2-0123456789abcdef0123456789abcdef''"

definition demo_layout :: wsl_layout where
  "demo_layout = \<lparr>wlDistro = ''Ubuntu'', wlUID = 1000, wlHome = ''/home/u'', wlBinaryPath = ''/home/u/.local/lib/container-bin/cb'',
     wlManagementShim = ''/home/u/.local/bin/cb'', wlShimDir = ''/home/u/.local/bin'', wlConfigDir = ''/home/u/.config/container-bin'',
     wlRegistryPath = ''/home/u/.config/container-bin/container-bin.toml'', wlLockPath = ''/home/u/.config/container-bin/container-bin.lock'',
     wlStateDir = ''/home/u/.local/state/container-bin'', wlStateNamespace = demo_namespace\<rparr>"

definition demo_disk :: disk where
  "demo_disk = \<lparr>dkPrimary = None, dkBackup = None, dkTemp = None\<rparr>"

definition demo_deps :: plan_deps where
  "demo_deps = productionPlanDependencies demo_platform True demo_files demo_files"

abbreviation demo_proof :: classifier where
  "demo_proof \<equiv> \<lambda>pj c. the (resolveDescendant demo_files demo_files pj c)"

lemma demo_select: "selectForTool (inLstat demo_files) (classify demo_files) demo_proof ''/home/u/p/src'' demo_tool = Some (Inr (demo_project, True))"
proof -
  have j: "path_join [''/home/u/p/src'', ''.git''] = ''/home/u/p/src/.git''" "path_join [''/home/u/p'', ''.git''] = ''/home/u/p/.git''"
    "path_dir ''/home/u/p/src'' = ''/home/u/p''" "ValidateProjectMarker ''.git'' = Inr ()" by code_simp+
  have l: "inLstat demo_files ''/home/u/p/src'' = Got demo_dir" "inLstat demo_files ''/home/u/p/src/.git'' = Absent"
    "inLstat demo_files ''/home/u/p/.git'' = Got demo_dir" by (simp_all add: demo_files_def)
  have c: "check_selection (inLstat demo_files) ''/home/u/p/src'' demo_tool = Inr ()"
    by (simp add: check_selection_def demo_roots demo_tool_fields l demo_dir_facts)
  have f: "find_root (inLstat demo_files) [''.git''] False ''/home/u/p/src'' [] = Some (Inr ''/home/u/p'')"
    by (subst find_root.simps, simp add: check_marker_path_def j l)
      (subst find_root.simps, simp add: check_marker_path_def j l demo_dir_facts)
  have r: "select_root (inLstat demo_files) ''/home/u/p/src'' demo_tool = Some (Inr ''/home/u/p'')"
    by (simp add: select_root_def demo_tool_fields check_marker_name_def j f)
  show ?thesis by (simp add: selectForTool_def c r demo_classify demo_resolve)
qed

lemma demo_args: "mapToolArgs demo_proof demo_tool demo_project ''/home/u/p/src'' projectWorkspace [''.'', ''./new.c'']
    = Inr ([''.'', ''/workspace/project/src/new.c''], ''/workspace/project/src'')"
proof -
  have w: "check_workspace projectWorkspace = Inr ()" by code_simp
  have a: "isWindowsAbsolutePath ''.'' = False" "isWindowsAbsolutePath ''./new.c'' = False"
    "resolvePathArg ''/home/u/p/src'' ''.'' False = None"
    "resolvePathArg ''/home/u/p/src'' ''./new.c'' False = Some ''/home/u/p/src/new.c''" by code_simp+
  have c: "container_path projectWorkspace (demo_child ''/home/u/p/src'' ''src'' True ''/home/u/p/src'') = ''/workspace/project/src''"
    "container_path projectWorkspace (demo_child ''/home/u/p/src/new.c'' ''src/new.c'' False ''/home/u/p/src'') = ''/workspace/project/src/new.c''"
    by code_simp+
  show ?thesis
    by (simp add: mapToolArgs_def w demo_tool_fields demo_resolve c map_step_def equals_option_def force_last_def mapArg_def a Let_def)
qed

definition demo_spec :: create_spec where
  "demo_spec = \<lparr>csTool = ''jq'', csNamespace = demo_namespace, csImage = ''jq:1'',
     csCommand = [''jq'', ''.'', ''/workspace/project/src/new.c''], csEnvironment = [''A=b'', ''LANG=C''],
     csWorkingDirectory = ''/workspace/project/src'',
     csMounts = [\<lparr>cmType = Bind, cmSource = ''/home/u/p'', cmTarget = projectWorkspace, cmReadOnly = False, cmVolumeLabels = []\<rparr>],
     csTTY = False, csHeight = 0, csWidth = 0, csRetain = True\<rparr>"

definition demo_plan :: tool_plan where
  "demo_plan = \<lparr>tpLayout = demo_layout, tpSpec = demo_spec, tpVolumes = []\<rparr>"

lemma demo_image: "RuntimeImageForToolAt demo_platform True demo_tool zero_policy (wlLockPath demo_layout) demo_disk = Inr (''jq:1'', demo_disk)"
  by code_simp

lemma demo_environment: "selectedEnvironment demo_tool [''LANG=C'', ''X=y''] = Inr [''A=b'', ''LANG=C'']"
  by code_simp

lemma demo_scope: "NewScope demo_layout = Inr \<lparr>scNamespace = demo_namespace, scPrefix = namespace_prefix demo_namespace\<rparr>"
proof -
  have "validNamespace demo_namespace" by code_simp
  then show ?thesis by (simp add: NewScope_def demo_layout_def)
qed

lemma demo_spec_valid: "validateContainerCreateSpec demo_spec = Inr ()"
  by code_simp

lemma demo_build:
  "buildToolPlan bootstrap demo_deps demo_tool [''.'', ''./new.c''] zero_policy demo_layout ''/home/u/p/src'' False [''LANG=C'', ''X=y'']
     demo_disk = Inr (demo_plan, demo_disk)"
proof -
  have p: "pdProject demo_deps ''/home/u/p/src'' demo_tool = Inr (demo_project, True)"
    by (simp add: demo_deps_def productionPlanDependencies_def Let_def demo_select)
  have a: "pdArgs demo_deps demo_tool demo_project ''/home/u/p/src'' projectWorkspace [''.'', ''./new.c'']
      = Inr ([''.'', ''/workspace/project/src/new.c''], ''/workspace/project/src'')"
    using demo_args by (simp add: demo_deps_def productionPlanDependencies_def Let_def)
  have i: "pdImage demo_deps demo_tool zero_policy (wlLockPath demo_layout) demo_disk = Inr (''jq:1'', demo_disk)"
    using demo_image by (simp add: demo_deps_def productionPlanDependencies_def Let_def)
  have r: "pjRoot demo_project = ''/home/u/p''" by (simp add: demo_project_def)
  show ?thesis
    using demo_spec_valid
    by (simp add: buildToolPlan_def plan_workspace_def plan_provider_def demo_tool_fields p a i demo_environment demo_scope
        r demo_plan_def demo_spec_def Let_def)
qed

section \<open>A run\<close>

definition demo_answers :: run_answers where
  "demo_answers = \<lparr>raSize = (0, 0), raEnsure = (\<lambda>v. True), raBegin = True, raCreate = Some (''c1'', ''r1''), raAdopt = True,
     raEvents = True, raAttach = True, raTerminal = Some (0, 0, True), raStart = True, raInitialResize = Call_Ok,
     raMessages = [Signal_Event 2 (Call_Status 409), Input_Done Input_Closed, Output_Done True, Wait_Done (Some 3), Canceled],
     raCloseStream = True, raRestore = True, raKill = True, raKillWait = True, raRemove = True, raCloseGuard = True\<rparr>"

lemma demo_run:
  "executeTool demo_plan demo_answers = Some \<lparr>rrCode = 3, rrErrors = [],
     rrCalls = [Begin_Call, Create_Call demo_spec, Adopt_Call ''r1'', Events_Call, Attach_Call ''c1'', Terminal_Call, Start_Call ''c1'',
       Wait_Call ''c1'', Signal_Call ''c1'' 2, Close_Stream, Restore_Terminal, Remove_Call ''c1'', Stop_Events, Close_Guard True]\<rparr>"
  by code_simp

end
