(* ===== verification/Docker_Stream.thy ===== *)
theory Docker_Stream
  imports Go_Quote
begin

text \<open>
  The demultiplexer of Docker's raw stream (\<open>internal/wsldocker/multiplex.go\<close>). The source is the
  sequence of bytes it delivers before it ends; the two writers accept what they are given. A frame
  is a header of eight bytes (the stream, three zero bytes, the size in big-endian order) and its
  payload. The loop consumes at least a header each round, so it ends on every source.
\<close>

definition rawStreamHeaderSize :: nat where "rawStreamHeaderSize = 8"
definition maxSystemErrorSize :: nat where "maxSystemErrorSize = 4096"

datatype stream_error =
    Header_Truncated
  | Header_Reserved
  | Stdout_Truncated
  | Stderr_Truncated
  | System_Too_Large
  | System_Truncated
  | System_Invalid
  | System_Message string
  | Stream_Stdin
  | Stream_Unsupported nat

record copied =
  cpTotal :: nat
  cpStdout :: string
  cpStderr :: string

text \<open>\<open>binary.BigEndian.Uint32\<close>\<close>

definition uint32_be :: "string \<Rightarrow> nat" where
  "uint32_be xs = foldl (\<lambda>v c. 256 * v + byte_of c) 0 (take 4 xs)"

definition readRawStreamSystemError :: "string \<Rightarrow> nat \<Rightarrow> stream_error" where
  "readRawStreamSystemError source n =
     (if maxSystemErrorSize < n then System_Too_Large
      else if length source < n then System_Truncated
      else
        (let message = take n source in
         if message = [] \<or> \<not> valid_utf8 message \<or> trim_space message \<noteq> message then System_Invalid
         else if list_ex is_control_rune (rune_values message) then System_Invalid
         else System_Message message))"

definition write_stdout :: "string \<Rightarrow> copied \<Rightarrow> copied" where
  "write_stdout p st = st\<lparr>cpTotal := cpTotal st + length p, cpStdout := cpStdout st @ p\<rparr>"

definition write_stderr :: "string \<Rightarrow> copied \<Rightarrow> copied" where
  "write_stderr p st = st\<lparr>cpTotal := cpTotal st + length p, cpStderr := cpStderr st @ p\<rparr>"

function copy_frames :: "string \<Rightarrow> copied \<Rightarrow> copied \<times> stream_error option" where
  "copy_frames source st =
     (if source = [] then (st, None)
      else if length source < rawStreamHeaderSize then (st, Some Header_Truncated)
      else
        (let header = take rawStreamHeaderSize source; rest = drop rawStreamHeaderSize source;
             stream = (byte_of (header ! 0) :: nat); n = uint32_be (drop 4 header); payload = take n rest in
         if header ! 1 \<noteq> CHR 0x00 \<or> header ! 2 \<noteq> CHR 0x00 \<or> header ! 3 \<noteq> CHR 0x00 then (st, Some Header_Reserved)
         else if stream = 1 then
           (if length payload \<noteq> n then (write_stdout payload st, Some Stdout_Truncated)
            else copy_frames (drop n rest) (write_stdout payload st))
         else if stream = 2 then
           (if length payload \<noteq> n then (write_stderr payload st, Some Stderr_Truncated)
            else copy_frames (drop n rest) (write_stderr payload st))
         else if stream = 3 then (st, Some (readRawStreamSystemError rest n))
         else if stream = 0 then (st, Some Stream_Stdin)
         else (st, Some (Stream_Unsupported stream))))"
  by pat_completeness auto
termination
  by (relation "measure (\<lambda>(source, st). length source)") (auto simp: rawStreamHeaderSize_def)

declare copy_frames.simps [simp del]

definition CopyMultiplexedOutput :: "string \<Rightarrow> copied \<times> stream_error option" where
  "CopyMultiplexedOutput source = copy_frames source \<lparr>cpTotal = 0, cpStdout = [], cpStderr = []\<rparr>"

section \<open>Frames\<close>

text \<open>The frames a container writes: the reference the decoder is compared with.\<close>

datatype frame = Stdout_Frame string | Stderr_Frame string

fun frame_payload :: "frame \<Rightarrow> string" where
  "frame_payload (Stdout_Frame p) = p"
| "frame_payload (Stderr_Frame p) = p"

fun frame_stream :: "frame \<Rightarrow> nat" where
  "frame_stream (Stdout_Frame p) = 1"
| "frame_stream (Stderr_Frame p) = 2"

fun stdout_part :: "frame \<Rightarrow> string" where
  "stdout_part (Stdout_Frame p) = p"
| "stdout_part (Stderr_Frame p) = []"

fun stderr_part :: "frame \<Rightarrow> string" where
  "stderr_part (Stdout_Frame p) = []"
| "stderr_part (Stderr_Frame p) = p"

definition be32 :: "nat \<Rightarrow> string" where
  "be32 n = [byte (n div 16777216), byte (n div 65536 mod 256), byte (n div 256 mod 256), byte (n mod 256)]"

definition encode_frame :: "frame \<Rightarrow> string" where
  "encode_frame f = [byte (frame_stream f), CHR 0x00, CHR 0x00, CHR 0x00] @ be32 (length (frame_payload f)) @ frame_payload f"

definition frame_fits :: "frame \<Rightarrow> bool" where
  "frame_fits f = (length (frame_payload f) < 2 ^ 32)"

lemma uint32_be32:
  assumes "n < 2 ^ 32"
  shows "uint32_be (be32 n @ s) = n"
proof -
  have "n div 16777216 < 256" using assms by simp
  moreover have "n div 16777216 = n div 256 div 256 div 256" "n div 65536 = n div 256 div 256"
    by (simp_all add: div_mult2_eq [symmetric])
  ultimately show ?thesis by (simp add: uint32_be_def be32_def)
qed

lemma be32_uint32:
  assumes "length xs = 4"
  shows "be32 (uint32_be xs) = xs" "uint32_be xs < 2 ^ 32"
proof -
  from assms obtain a b c d where xs: "xs = [a, b, c, d]" by (auto simp: length_Suc_conv eval_nat_numeral)
  have l: "byte_of x < (256::nat)" for x :: char by (rule byte_of_less)
  let ?n = "256 * (256 * (256 * byte_of a + byte_of b) + byte_of c) + (byte_of d :: nat)"
  have u: "uint32_be xs = ?n" by (simp add: uint32_be_def xs)
  have k: "byte_of x \<le> (255::nat)" for x :: char using l [of x] by linarith
  have g: "v \<le> 255 \<Longrightarrow> w \<le> 255 \<Longrightarrow> x \<le> 255 \<Longrightarrow> y \<le> 255 \<Longrightarrow> 256 * (256 * (256 * v + w) + x) + y < (4294967296::nat)"
    for v w x y by simp
  have "?n < 4294967296" by (rule g [OF k k k k])
  then show "uint32_be xs < 2 ^ 32" unfolding u by simp
  have m: "(256 * x + byte_of y) mod 256 = byte_of y" "(256 * x + byte_of y) div 256 = x" for x :: nat and y
    using l [of y] by simp_all
  have d: "?n div 16777216 = ?n div 256 div 256 div 256" "?n div 65536 = ?n div 256 div 256"
    by (simp_all only: div_mult2_eq [symmetric]) simp_all
  have u': "uint32_be [a, b, c, d] = ?n" using u xs by simp
  show "be32 (uint32_be xs) = xs" unfolding be32_def xs u' d by (simp only: m byte_byte_of)
qed

definition write_frame :: "frame \<Rightarrow> copied \<Rightarrow> copied" where
  "write_frame f st = (case f of Stdout_Frame p \<Rightarrow> write_stdout p st | Stderr_Frame p \<Rightarrow> write_stderr p st)"

lemma write_frame_simps [simp]:
  "write_frame (Stdout_Frame p) st = write_stdout p st" "write_frame (Stderr_Frame p) st = write_stderr p st"
  by (simp_all add: write_frame_def)

lemma write_frames:
  "fold write_frame fs st = \<lparr>cpTotal = cpTotal st + sum_list (map (length \<circ> frame_payload) fs),
     cpStdout = cpStdout st @ concat (map stdout_part fs), cpStderr = cpStderr st @ concat (map stderr_part fs)\<rparr>"
proof (induction fs arbitrary: st)
  case (Cons f fs)
  then show ?case by (cases f) (simp_all add: write_frame_def write_stdout_def write_stderr_def)
qed simp

section \<open>The decoder inverts the encoder\<close>

lemma copy_frame:
  assumes "frame_fits f"
  shows "copy_frames (encode_frame f @ s) st = copy_frames s (write_frame f st)"
proof -
  let ?p = "frame_payload f"
  have n: "uint32_be (be32 (length ?p)) = length ?p" using uint32_be32 [of "length ?p" "[]"] assms by (simp add: frame_fits_def)
  have e: "encode_frame f @ s = [byte (frame_stream f), CHR 0x00, CHR 0x00, CHR 0x00] @ be32 (length ?p) @ ?p @ s"
    by (simp add: encode_frame_def)
  have h: "take 8 (encode_frame f @ s) = [byte (frame_stream f), CHR 0x00, CHR 0x00, CHR 0x00] @ be32 (length ?p)"
    "drop 8 (encode_frame f @ s) = ?p @ s" unfolding e by (simp_all add: be32_def)
  have l: "8 \<le> length (encode_frame f @ s)" "encode_frame f @ s \<noteq> []" unfolding e by (simp_all add: be32_def)
  have l': "\<not> length (encode_frame f @ s) < 8" using l(1) by simp
  have p: "take (length ?p) (?p @ s) = ?p" "drop (length ?p) (?p @ s) = s" by simp_all
  have b: "byte_of (byte (frame_stream f)) = frame_stream f" by (cases f) simp_all
  have q: "drop 4 ([byte (frame_stream f), CHR 0x00, CHR 0x00, CHR 0x00] @ be32 (length ?p)) = be32 (length ?p)"
    "([byte (frame_stream f), CHR 0x00, CHR 0x00, CHR 0x00] @ be32 (length ?p)) ! 0 = byte (frame_stream f)"
    "([byte (frame_stream f), CHR 0x00, CHR 0x00, CHR 0x00] @ be32 (length ?p)) ! 1 = CHR 0x00"
    "([byte (frame_stream f), CHR 0x00, CHR 0x00, CHR 0x00] @ be32 (length ?p)) ! 2 = CHR 0x00"
    "([byte (frame_stream f), CHR 0x00, CHR 0x00, CHR 0x00] @ be32 (length ?p)) ! 3 = CHR 0x00" by simp_all
  have "copy_frames (encode_frame f @ s) st = (if frame_stream f = 1 then copy_frames s (write_stdout ?p st)
      else if frame_stream f = 2 then copy_frames s (write_stderr ?p st)
      else if frame_stream f = 3 then (st, Some (readRawStreamSystemError (?p @ s) (length ?p)))
      else if frame_stream f = 0 then (st, Some Stream_Stdin) else (st, Some (Stream_Unsupported (frame_stream f))))"
    by (subst copy_frames.simps) (simp only: rawStreamHeaderSize_def l(2) l' h q n p b Let_def simp_thms if_False if_True)
  then show ?thesis by (cases f) simp_all
qed

lemma copy_frames_encoded:
  "list_all frame_fits fs \<Longrightarrow> copy_frames (concat (map encode_frame fs) @ s) st = copy_frames s (fold write_frame fs st)"
proof (induction fs arbitrary: st)
  case (Cons f fs)
  have "copy_frames (concat (map encode_frame (f # fs)) @ s) st
      = copy_frames (encode_frame f @ (concat (map encode_frame fs) @ s)) st" by simp
  also have "\<dots> = copy_frames (concat (map encode_frame fs) @ s) (write_frame f st)"
    using Cons.prems by (intro copy_frame) simp
  finally show ?case using Cons by simp
qed simp

lemma take_frame:
  assumes "8 \<le> length source" "source ! 1 = CHR 0x00" "source ! 2 = CHR 0x00" "source ! 3 = CHR 0x00"
    and "n = uint32_be (drop 4 (take 8 source))" "length (take n (drop 8 source)) = n"
    and "byte_of (source ! 0) = frame_stream f" "frame_payload f = take n (drop 8 source)"
  shows "source = encode_frame f @ drop n (drop 8 source) \<and> frame_fits f"
proof -
  from assms(1) obtain a b c d t where s: "source = a # b # c # d # t" "4 \<le> length t"
    by (auto simp: eval_nat_numeral Suc_le_length_iff)
  have z: "b = CHR 0x00" "c = CHR 0x00" "d = CHR 0x00" "a = byte (frame_stream f)"
    using assms(2-4) assms(7) [symmetric] by (simp_all add: s(1) eval_nat_numeral)
  have n: "n = uint32_be (take 4 t)" and p: "frame_payload f = take n (drop 4 t)" and l: "length (take n (drop 4 t)) = n"
    using assms(5,6,8) by (simp_all add: s(1))
  have b: "length (take 4 t) = 4" using s(2) by simp
  have "be32 (length (frame_payload f)) = take 4 t" unfolding p l unfolding n by (rule be32_uint32(1) [OF b])
  then have "encode_frame f @ drop n (drop 8 source) = a # b # c # d # take 4 t @ take n (drop 4 t) @ drop n (drop 4 t)"
    by (simp add: encode_frame_def p z s(1))
  also have "\<dots> = source" by (simp add: s(1) append_take_drop_id del: drop_drop take_drop)
  finally have "source = encode_frame f @ drop n (drop 8 source)" by simp
  moreover have "frame_fits f" unfolding frame_fits_def p l unfolding n by (rule be32_uint32(2) [OF b])
  ultimately show ?thesis by blast
qed

text \<open>Whatever the outcome, what was written are the payloads of the complete frames at the start and a part of the next.\<close>

lemma copy_frames_prefix:
  assumes "copy_frames source st = (st', e)"
  shows "\<exists>fs rest. source = concat (map encode_frame fs) @ rest \<and> list_all frame_fits fs
     \<and> (e = None \<longrightarrow> rest = [] \<and> st' = fold write_frame fs st)
     \<and> (\<exists>p. (st' = fold write_frame fs st \<or> st' = write_stdout p (fold write_frame fs st) \<or> st' = write_stderr p (fold write_frame fs st))
          \<and> length p \<le> length rest)"
  using assms
proof (induction source st arbitrary: st' e rule: copy_frames.induct)
  case (1 source st)
  let ?header = "take rawStreamHeaderSize source" and ?rest = "drop rawStreamHeaderSize source"
  let ?n = "uint32_be (drop 4 ?header)"
  let ?p = "take ?n ?rest"
  have h8: "rawStreamHeaderSize = 8" by (simp add: rawStreamHeaderSize_def)
  let ?goal = "\<exists>fs rest. source = concat (map encode_frame fs) @ rest \<and> list_all frame_fits fs
     \<and> (e = None \<longrightarrow> rest = [] \<and> st' = fold write_frame fs st)
     \<and> (\<exists>p. (st' = fold write_frame fs st \<or> st' = write_stdout p (fold write_frame fs st) \<or> st' = write_stderr p (fold write_frame fs st))
          \<and> length p \<le> length rest)"
  have stop: ?goal if "e = None \<longrightarrow> source = [] \<and> st' = st"
      "\<exists>p. (st' = st \<or> st' = write_stdout p st \<or> st' = write_stderr p st) \<and> length p \<le> length source"
    using that by (intro exI [of _ "[]"] exI [of _ source]) simp
  have go: ?goal if f: "source = encode_frame f @ drop ?n ?rest" "frame_fits f"
    and IH: "\<exists>fs rest. drop ?n ?rest = concat (map encode_frame fs) @ rest \<and> list_all frame_fits fs
     \<and> (e = None \<longrightarrow> rest = [] \<and> st' = fold write_frame fs (write_frame f st))
     \<and> (\<exists>p. (st' = fold write_frame fs (write_frame f st) \<or> st' = write_stdout p (fold write_frame fs (write_frame f st))
            \<or> st' = write_stderr p (fold write_frame fs (write_frame f st))) \<and> length p \<le> length rest)" for f
  proof -
    from IH obtain fs rest where r: "drop ?n ?rest = concat (map encode_frame fs) @ rest" "list_all frame_fits fs"
      "e = None \<longrightarrow> rest = [] \<and> st' = fold write_frame fs (write_frame f st)"
      "\<exists>p. (st' = fold write_frame fs (write_frame f st) \<or> st' = write_stdout p (fold write_frame fs (write_frame f st))
            \<or> st' = write_stderr p (fold write_frame fs (write_frame f st))) \<and> length p \<le> length rest" by blast
    have "source = concat (map encode_frame (f # fs)) @ rest" using f(1) r(1) by simp
    moreover have "list_all frame_fits (f # fs)" using f(2) r(2) by simp
    ultimately show ?goal using r(3,4) by (intro exI [of _ "f # fs"] exI [of _ rest]) simp
  qed
  have nth: "?header ! i = source ! i" if "i < 8" for i using that by (simp add: h8)
  show ?case
  proof (cases "source = [] \<or> length source < 8 \<or> source ! 1 \<noteq> CHR 0x00 \<or> source ! 2 \<noteq> CHR 0x00 \<or> source ! 3 \<noteq> CHR 0x00
      \<or> byte_of (source ! 0) \<notin> {1, 2::nat}")
    case True
    have "st' = st \<and> (e = None \<longrightarrow> source = [])" using 1(3) True
      by (subst (asm) copy_frames.simps) (auto simp: h8 Let_def split: if_splits)
    then show ?thesis by (intro stop) auto
  next
    case False
    then have c: "source \<noteq> []" "\<not> length source < rawStreamHeaderSize" "\<not> (?header ! 1 \<noteq> CHR 0x00 \<or> ?header ! 2 \<noteq> CHR 0x00 \<or> ?header ! 3 \<noteq> CHR 0x00)"
      "byte_of (?header ! 0) = (1::nat) \<or> byte_of (?header ! 0) = (2::nat)" by (auto simp: h8)
    have short: "length ?p \<le> length source" by simp
    show ?thesis
    proof (cases "length ?p = ?n")
      case False
      have "e \<noteq> None \<and> (st' = write_stdout ?p st \<or> st' = write_stderr ?p st)" using 1(3) c False
        by (subst (asm) copy_frames.simps) (auto simp: Let_def split: if_splits)
      with short show ?thesis by (intro stop) auto
    next
      case len: True
      from c(4) show ?thesis
      proof
        assume s: "byte_of (?header ! 0) = (1::nat)"
        have f: "copy_frames (drop ?n ?rest) (write_stdout ?p st) = (st', e)" using 1(3) c len s
          by (subst (asm) copy_frames.simps) (simp add: Let_def)
        have t: "source = encode_frame (Stdout_Frame ?p) @ drop ?n ?rest \<and> frame_fits (Stdout_Frame ?p)"
          unfolding h8 by (rule take_frame) (use False s len in \<open>auto simp: h8\<close>)
        from 1(1) [OF c(1,2) refl refl refl refl refl c(3) s _ f] len show ?thesis
          by (intro go [of "Stdout_Frame ?p"]) (use t in \<open>simp_all only: write_frame_simps\<close>)
      next
        assume s: "byte_of (?header ! 0) = (2::nat)"
        then have s1: "byte_of (?header ! 0) \<noteq> (1::nat)" by simp
        have f: "copy_frames (drop ?n ?rest) (write_stderr ?p st) = (st', e)" using 1(3) c len s s1
          by (subst (asm) copy_frames.simps) (simp add: Let_def)
        have t: "source = encode_frame (Stderr_Frame ?p) @ drop ?n ?rest \<and> frame_fits (Stderr_Frame ?p)"
          unfolding h8 by (rule take_frame) (use False s len in \<open>auto simp: h8\<close>)
        from 1(2) [OF c(1,2) refl refl refl refl refl c(3) s1 s _ f] len show ?thesis
          by (intro go [of "Stderr_Frame ?p"]) (use t in \<open>simp_all only: write_frame_simps\<close>)
      qed
    qed
  qed
qed

lemma copy_succeeds_iff:
  "CopyMultiplexedOutput source = (r, None) \<longleftrightarrow> (\<exists>fs. list_all frame_fits fs \<and> source = concat (map encode_frame fs)
     \<and> r = \<lparr>cpTotal = sum_list (map (length \<circ> frame_payload) fs), cpStdout = concat (map stdout_part fs),
       cpStderr = concat (map stderr_part fs)\<rparr>)"
proof
  assume "CopyMultiplexedOutput source = (r, None)"
  then have "copy_frames source \<lparr>cpTotal = 0, cpStdout = [], cpStderr = []\<rparr> = (r, None)" by (simp add: CopyMultiplexedOutput_def)
  from copy_frames_prefix [OF this] obtain fs where "source = concat (map encode_frame fs)" "list_all frame_fits fs"
    "r = fold write_frame fs \<lparr>cpTotal = 0, cpStdout = [], cpStderr = []\<rparr>" by auto
  then show "\<exists>fs. list_all frame_fits fs \<and> source = concat (map encode_frame fs)
     \<and> r = \<lparr>cpTotal = sum_list (map (length \<circ> frame_payload) fs), cpStdout = concat (map stdout_part fs),
       cpStderr = concat (map stderr_part fs)\<rparr>" by (auto simp: write_frames)
next
  assume "\<exists>fs. list_all frame_fits fs \<and> source = concat (map encode_frame fs)
     \<and> r = \<lparr>cpTotal = sum_list (map (length \<circ> frame_payload) fs), cpStdout = concat (map stdout_part fs),
       cpStderr = concat (map stderr_part fs)\<rparr>"
  then obtain fs where fs: "list_all frame_fits fs" "source = concat (map encode_frame fs)"
    "r = fold write_frame fs \<lparr>cpTotal = 0, cpStdout = [], cpStderr = []\<rparr>" by (auto simp: write_frames)
  have "copy_frames [] st = (st, None)" for st by (subst copy_frames.simps) simp
  then show "CopyMultiplexedOutput source = (r, None)"
    using copy_frames_encoded [OF fs(1), of "[]"] by (simp add: CopyMultiplexedOutput_def fs(2,3))
qed

text \<open>The count is the number of bytes written, on every outcome, and never more than was read.\<close>

lemma copy_total:
  assumes "CopyMultiplexedOutput source = (r, e)"
  shows "cpTotal r = length (cpStdout r) + length (cpStderr r)" "cpTotal r \<le> length source"
proof -
  let ?z = "\<lparr>cpTotal = 0, cpStdout = [], cpStderr = []\<rparr>"
  from assms have "copy_frames source ?z = (r, e)" by (simp add: CopyMultiplexedOutput_def)
  from copy_frames_prefix [OF this] obtain fs rest p where
    f: "source = concat (map encode_frame fs) @ rest" and
    r: "r = fold write_frame fs ?z \<or> r = write_stdout p (fold write_frame fs ?z) \<or> r = write_stderr p (fold write_frame fs ?z)"
    "length p \<le> length rest" by blast
  let ?T = "sum_list (map (length \<circ> frame_payload) fs)"
  have s: "?T = length (concat (map stdout_part fs)) + length (concat (map stderr_part fs))"
  proof (induction fs)
    case (Cons x fs)
    then show ?case by (cases x) simp_all
  qed simp
  have "?T \<le> length (concat (map encode_frame fs))"
    by (induction fs) (auto simp: encode_frame_def be32_def)
  then have t: "?T + length p \<le> length source" using f r(2) by simp
  from r(1) show "cpTotal r = length (cpStdout r) + length (cpStderr r)" "cpTotal r \<le> length source"
    using s t by (auto simp: write_frames write_stdout_def write_stderr_def)
qed

end
