(* ===== verification/Wsl_Properties.thy ===== *)
theory Wsl_Properties
  imports Wsl_Demo Docker_Stream Wsl_Create
begin

text \<open>The properties of the native WSL2 frontend, from the mount table to the run of a container.\<close>

section \<open>The plan of a run\<close>



text \<open>The environment of a container is exactly the literal assignments of the tool together with the
  well-formed host assignments whose name the tool selects and no literal assignment sets; every name occurs
  once, and the names are in order.\<close>

theorem selected_environment_exact:
  assumes "selectedEnvironment t environ = Inr env"
  shows "set env = set (tEnvSet t) \<union> {a \<in> set environ. host_selected t a \<and> assignment_name a \<notin> assignment_name ` set (tEnvSet t)}
    \<and> (\<exists>names. map assignment_name env = map Some names \<and> sorted names \<and> distinct names)"
  using selected_environment_spec [OF assms] by blast

theorem selected_environment_exact_witness:
  "\<exists>names. map assignment_name [''A=b'', ''LANG=C''] = map Some names \<and> sorted names \<and> distinct names"
  using selected_environment_exact [OF demo_environment] by blast

section \<open>The run of a plan\<close>



text \<open>A run without an error reports the code the engine gave for the exited container, after the whole output
  was copied, with the lease published, the container removed and the lease closed.\<close>

theorem error_free_run_completed:
  assumes "executeTool plan A = Some r" "rrErrors r = []"
  shows "run_completed A (rrCode r)"
  by (rule run_success [OF assms])

theorem error_free_run_completed_witness: "run_completed demo_answers 3"
  using error_free_run_completed [OF demo_run] by simp

text \<open>A run that is canceled returns, whatever else happens.\<close>

theorem canceled_run_ends:
  assumes "Canceled \<in> set (raMessages A)"
  shows "\<exists>r. executeTool plan A = Some r"
  by (rule canceled_run_returns [OF assms])

theorem canceled_run_ends_witness: "\<exists>r. executeTool demo_plan demo_answers = Some r"
  by (rule canceled_run_ends) (simp add: demo_answers_def)

section \<open>Paths and mounts\<close>



text \<open>C38: the proof that a path belongs to a project always returns, on every file system and for every path.\<close>

theorem descendant_proof_returns: "\<exists>r. resolveDescendant obs1 obs2 pj candidate = Some r"
  by (rule resolve_descendant_returns)

text \<open>C20: a proven path is a canonical path below the unchanged root of the project: its nearest existing ancestor is
  no symbolic link and resolves to itself, everything below that ancestor is absent, and the mount visible there
  is the mount of the project; the relative path is the rest of the path.\<close>

theorem descendant_proof_sound:
  assumes "resolveDescendant obs1 obs2 pj c = Some (Inr d)"
  shows "\<exists>rs ds. pjRoot pj = abs_path rs \<and> c = abs_path (rs @ ds) \<and> list_all proper (rs @ ds) \<and> rs \<noteq> []
     \<and> classify obs1 (pjRoot pj) = Inr pj \<and> dsPath d = c \<and> dsRelative d = (if ds = [] then ''.'' else join ''/'' ds)
     \<and> proven_below obs2 pj rs ds d"
  by (rule resolve_descendant_spec [OF assms])

theorem descendant_proof_sound_witness:
  "\<exists>rs ds. ''/home/u/p'' = abs_path rs \<and> ''/home/u/p/src/new.c'' = abs_path (rs @ ds)
     \<and> proven_below demo_files demo_project rs ds (demo_child ''/home/u/p/src/new.c'' ''src/new.c'' False ''/home/u/p/src'')"
  using descendant_proof_sound [OF demo_resolve(2)] by (auto simp: demo_project_def)

text \<open>The mount selected for a path contains it, no other mount that contains it is deeper, and no other mount at
  the same point has the selected mount among its parents, so it is the one that is visible.\<close>

theorem selected_mount_visible:
  assumes "containingMount root mounts = Inr m" "m' \<in> set mounts"
  shows "m \<in> set mounts \<and> mount_contains root m
    \<and> (mount_contains root m' \<longrightarrow> length (miPoint m') \<le> length (miPoint m))
    \<and> (miPoint m' = miPoint m \<longrightarrow> miID m' \<noteq> miID m \<longrightarrow> \<not> ancestor_of mounts (miParent m') (miID m))"
  using containing_mount_spec [OF assms(1)] assms(2) by blast

theorem selected_mount_visible_witness: "mount_contains ''/home/u/p'' demo_mount"
  using selected_mount_visible [OF demo_containing(1)] by simp

text \<open>C40: a mount table that parses has at least one mount; the identifiers are positive and distinct, the parents
  positive, and the mount points absolute and clean.\<close>

theorem mount_table_well_formed:
  assumes "parseMountInfo raw = Inr ms"
  shows "ms \<noteq> [] \<and> mounts_wf ms"
  using parse_mount_info_wf [OF assms] by blast

theorem mount_table_well_formed_witness: "mounts_wf [demo_mount]"
  using mount_table_well_formed [OF demo_table] by simp

section \<open>The output stream\<close>

text \<open>The demultiplexer succeeds exactly on a sequence of complete stdout and stderr frames, and then each
  writer has received the payloads of its own frames, in order, and the total is their length.\<close>

theorem demultiplex_exact:
  "CopyMultiplexedOutput source = (r, None) \<longleftrightarrow> (\<exists>fs. list_all frame_fits fs \<and> source = concat (map encode_frame fs)
     \<and> r = \<lparr>cpTotal = sum_list (map (length \<circ> frame_payload) fs), cpStdout = concat (map stdout_part fs),
       cpStderr = concat (map stderr_part fs)\<rparr>)"
  by (rule copy_succeeds_iff)

text \<open>On every source, also a truncated or malicious one, the reported total is the number of bytes written to
  the two writers, and never more than the source delivered.\<close>

theorem copied_bytes_bounded:
  "cpTotal (fst (CopyMultiplexedOutput source)) =
     length (cpStdout (fst (CopyMultiplexedOutput source))) + length (cpStderr (fst (CopyMultiplexedOutput source)))
   \<and> cpTotal (fst (CopyMultiplexedOutput source)) \<le> length source"
  using copy_total [OF prod.collapse [symmetric, of "CopyMultiplexedOutput source"]] by blast

section \<open>Volumes and containers\<close>

text \<open>Two volumes have the same name only if they agree in the namespace, the state group, the logical name
  and the suffix, so that no two owners ever share a volume.\<close>

theorem volume_names_distinct:
  assumes "volumeName s g l u = Inr n" "volumeName s' g' l' u' = Inr n'" "valid_scope s" "valid_scope s'"
  shows "n = n' \<longleftrightarrow> (s, g, l, u) = (s', g', l', u')"
proof
  assume n: "n = n'"
  from volume_name_inj [OF assms(1) assms(2) [folded n] assms(3,4)] show "(s, g, l, u) = (s', g', l', u')" by simp
next
  assume "(s, g, l, u) = (s', g', l', u')"
  with assms(1,2) show "n = n'" by simp
qed

definition demo_scope_value :: volume_scope where
  "demo_scope_value = \<lparr>scNamespace = demo_namespace, scPrefix = namespace_prefix demo_namespace\<rparr>"

theorem volume_names_distinct_witness:
  "namespace_prefix demo_namespace @ ''1-a-3-b-c'' \<noteq> namespace_prefix demo_namespace @ ''3-a-b-1-c''"
proof -
  have "volumeName demo_scope_value ''a'' ''b-c'' [] = Inr (namespace_prefix demo_namespace @ ''1-a-3-b-c'')"
    "volumeName demo_scope_value ''a-b'' ''c'' [] = Inr (namespace_prefix demo_namespace @ ''3-a-b-1-c'')"
    "valid_scope demo_scope_value" by code_simp+
  from volume_names_distinct [OF this(1,2,3,3)] show ?thesis by simp
qed

text \<open>A discovered volume that is proven is local, carries exactly the labels of a volume of this scope, no more
  and no fewer, and has the name that those labels determine.\<close>

theorem adopted_volume_exact:
  assumes "ProveCandidate s observed = Inr v" "wf_map (observed_labels observed)"
  shows "exact_volume v observed \<and> (\<exists>g l. SharedVolume s g l = Inr v \<or> (\<exists>root. ProjectVolume s g l root = Inr v))"
  using prove_candidate_spec [OF assms] by blast

definition demo_labels :: "(string, string) gomap" where
  "demo_labels = [(''cb.owner'', ''python313/pip-cache''), (NamespaceLabel, demo_namespace), (''cb.kind'', ''shared''),
     (''cb.managed'', ''true'')]"

definition demo_volume :: engine_volume where
  "demo_volume = \<lparr>evName = namespace_prefix demo_namespace @ ''9-python313-9-pip-cache'', evDriver = ''local'',
     evScope = ''local'', evLabels = Some demo_labels\<rparr>"

theorem adopted_volume_exact_witness: "\<exists>v. exact_volume v demo_volume"
proof -
  have "is_ok (ProveCandidate demo_scope_value demo_volume)" "wf_map (observed_labels demo_volume)" by code_simp+
  then obtain v where v: "ProveCandidate demo_scope_value demo_volume = Inr v" "wf_map (observed_labels demo_volume)"
    by (auto simp: is_ok_iff)
  from adopted_volume_exact [OF v] show ?thesis by blast
qed

end
