(* ===== verification/Wsl_Shim.thy ===== *)
theory Wsl_Shim
  imports Wsl_Project
begin

text \<open>
  The tool shims of the native WSL2 frontend (\<open>internal/wslshim/wslshim.go\<close>): one symbolic link per
  tool to the managed binary. \<open>shim_host\<close> is what the operating system answers; the installation of a
  link (\<open>mutate_linux.go\<close>) is an argument that maps a host to the host after it, or fails. A lemma on
  the reconciliation (\<open>reconcile_shims_ready\<close>) needs nothing of that argument.
\<close>

datatype shim_state = Planned | Ready | Missing

record shim =
  smName :: string
  smPath :: string
  smTarget :: string
  smState :: shim_state

record shim_info =
  siMode :: "32 word"
  siExact :: "32 word"
  siUID :: "32 word"

record shim_host =
  shRuntime :: "host_runtime option"
  shUID :: "32 word"
  shLstat :: "string \<Rightarrow> shim_info io"
  shReadlink :: "string \<Rightarrow> string option"

datatype shim_error =
    Shim_Distro
  | Shim_Home
  | Shim_Paths
  | Shim_Name string
  | Shim_Duplicate string
  | Shim_Runtime
  | Shim_Other_Distro
  | Shim_Other_UID
  | Shim_Inspect string
  | Shim_Absent string
  | Shim_Directory
  | Shim_Binary
  | Shim_Not_Link string
  | Shim_Readlink string
  | Shim_Target string string
  | Shim_Open
  | Shim_Install string
  | Shim_Close
  | Shim_Remained string

definition validateLayout :: "wsl_layout \<Rightarrow> (shim_error, unit) result" where
  "validateLayout layout =
     (let distro = wlDistro layout; home = wlHome layout; wantShimDir = path_join [home, ''.local/bin''] in
      if distro = [] \<or> trim_space distro \<noteq> distro \<or> \<not> valid_utf8 distro then Inl Shim_Distro
      else if list_ex is_control_rune (rune_values distro) then Inl Shim_Distro
      else if home = [] \<or> \<not> valid_utf8 home \<or> \<not> path_is_abs home \<or> path_clean home \<noteq> home \<or> home = ''/''
        \<or> home = ''/mnt'' \<or> has_prefix home ''/mnt/'' \<or> contains_byte home CHR 0x5C then Inl Shim_Home
      else if list_ex is_control_rune (rune_values home) then Inl Shim_Home
      else if wlShimDir layout \<noteq> wantShimDir \<or> wlBinaryPath layout \<noteq> path_join [home, ''.local/lib/container-bin/cb'']
        \<or> wlManagementShim layout \<noteq> path_join [wantShimDir, ''cb''] then Inl Shim_Paths
      else Inr ())"

text \<open>The loop of \<open>Plan\<close> over the sorted names, with the previous name.\<close>

definition plan_shim :: "wsl_layout \<Rightarrow> string \<Rightarrow> string \<times> shim list \<Rightarrow> (shim_error, string \<times> shim list) result" where
  "plan_shim layout name st =
     (if \<not> ValidToolName name \<or> ReservedToolName name then Inl (Shim_Name name)
      else if name = fst st then Inl (Shim_Duplicate name)
      else Inr (name, snd st @ [\<lparr>smName = name, smPath = path_join [wlShimDir layout, name], smTarget = wlBinaryPath layout,
        smState = Planned\<rparr>]))"

definition PlanShims :: "wsl_layout \<Rightarrow> string list \<Rightarrow> (shim_error, shim list) result" where
  "PlanShims layout names = rbind (validateLayout layout) (\<lambda>_.
     rbind (fold_result (plan_shim layout) (sort names) ([], [])) (\<lambda>st. Inr (snd st)))"

definition shim_lstat :: "shim_host \<Rightarrow> string \<Rightarrow> (shim_error, shim_info) result" where
  "shim_lstat h p = (case shLstat h p of Got i \<Rightarrow> Inr i | Absent \<Rightarrow> Inl (Shim_Absent p) | Failed \<Rightarrow> Inl (Shim_Inspect p))"

definition mode_symlink :: "shim_info \<Rightarrow> bool" where "mode_symlink i = (and (siMode i) 0x08000000 \<noteq> 0)"
definition mode_dir :: "shim_info \<Rightarrow> bool" where "mode_dir i = (and (siMode i) 0x80000000 \<noteq> 0)"
definition mode_regular :: "shim_info \<Rightarrow> bool" where "mode_regular i = (and (siMode i) ModeType = 0)"

definition inspectShimDir :: "wsl_layout \<Rightarrow> shim_host \<Rightarrow> (shim_error, unit) result" where
  "inspectShimDir layout h = rbind (shim_lstat h (wlShimDir layout)) (\<lambda>i.
     if \<not> mode_dir i \<or> siUID i \<noteq> wlUID layout \<or> and (siExact i) 0x1C0 \<noteq> 0x1C0 \<or> and (siExact i) 0x12 \<noteq> 0
        \<or> and (siExact i) 0xE00 \<noteq> 0
     then Inl Shim_Directory else Inr ())"

definition inspectContext :: "wsl_layout \<Rightarrow> shim_host \<Rightarrow> (shim_error, unit) result" where
  "inspectContext layout h = (case shRuntime h of
     None \<Rightarrow> Inl Shim_Runtime
   | Some rt \<Rightarrow>
     (if rtKind rt \<noteq> WSL2Native \<or> rtDistro rt \<noteq> wlDistro layout then Inl Shim_Other_Distro
      else if shUID h \<noteq> wlUID layout then Inl Shim_Other_UID
      else inspectShimDir layout h))"

definition inspectBinary :: "wsl_layout \<Rightarrow> shim_host \<Rightarrow> (shim_error, unit) result" where
  "inspectBinary layout h = rbind (shim_lstat h (wlBinaryPath layout)) (\<lambda>i.
     if \<not> mode_regular i \<or> siUID i \<noteq> wlUID layout \<or> siExact i \<noteq> 0x1ED then Inl Shim_Binary else Inr ())"

definition resolve_link :: "string \<Rightarrow> string \<Rightarrow> string" where
  "resolve_link link actual = path_clean (if path_is_abs actual then actual else path_join [path_dir link, actual])"

definition validateSymlink :: "string \<Rightarrow> string \<Rightarrow> 32 word \<Rightarrow> shim_info \<Rightarrow> shim_host \<Rightarrow> (shim_error, unit) result" where
  "validateSymlink link target uid i h =
     (if \<not> mode_symlink i \<or> siUID i \<noteq> uid then Inl (Shim_Not_Link link)
      else (case shReadlink h link of
          None \<Rightarrow> Inl (Shim_Readlink link)
        | Some actual \<Rightarrow>
          (if resolve_link link actual \<noteq> target then Inl (Shim_Target link (resolve_link link actual)) else Inr ())))"

definition inspectSymlink :: "string \<Rightarrow> string \<Rightarrow> 32 word \<Rightarrow> shim_host \<Rightarrow> (shim_error, unit) result" where
  "inspectSymlink link target uid h = rbind (shim_lstat h link) (\<lambda>i. validateSymlink link target uid i h)"

definition inspect_shim :: "32 word \<Rightarrow> shim_host \<Rightarrow> shim \<Rightarrow> shim list \<Rightarrow> (shim_error, shim list) result" where
  "inspect_shim uid h s done = (case shLstat h (smPath s) of
     Absent \<Rightarrow> Inr (done @ [s\<lparr>smState := Missing\<rparr>])
   | Failed \<Rightarrow> Inl (Shim_Inspect (smPath s))
   | Got i \<Rightarrow> rbind (validateSymlink (smPath s) (smTarget s) uid i h) (\<lambda>_. Inr (done @ [s\<lparr>smState := Ready\<rparr>])))"

definition inspectPlanned :: "shim list \<Rightarrow> 32 word \<Rightarrow> shim_host \<Rightarrow> (shim_error, shim list) result" where
  "inspectPlanned planned uid h = fold_result (inspect_shim uid h) planned []"

definition inspectShims :: "wsl_layout \<Rightarrow> string list \<Rightarrow> shim_host \<Rightarrow> (shim_error, shim list) result" where
  "inspectShims layout names h =
     rbind (PlanShims layout names) (\<lambda>planned.
     rbind (inspectContext layout h) (\<lambda>_.
     rbind (inspectBinary layout h) (\<lambda>_.
     rbind (inspectSymlink (wlManagementShim layout) (wlBinaryPath layout) (wlUID layout) h) (\<lambda>_.
       inspectPlanned planned (wlUID layout) h))))"

definition inspectNames :: "wsl_layout \<Rightarrow> string list \<Rightarrow> shim_host \<Rightarrow> (shim_error, shim list) result" where
  "inspectNames layout names h =
     rbind (PlanShims layout names) (\<lambda>planned.
     rbind (inspectContext layout h) (\<lambda>_. inspectPlanned planned (wlUID layout) h))"

text \<open>\<open>install\<close> is \<open>ensure\<close> of the opened directory; \<open>opened\<close> and \<open>closed\<close> tell whether opening and
  closing it succeeds.\<close>

type_synonym installer = "shim \<Rightarrow> shim_host \<Rightarrow> shim_host option"

definition install_step :: "installer \<Rightarrow> shim \<Rightarrow> shim_host \<Rightarrow> (shim_error, shim_host) result" where
  "install_step install s h = (case install s h of None \<Rightarrow> Inl (Shim_Install (smPath s)) | Some h' \<Rightarrow> Inr h')"

definition check_ready :: "shim \<Rightarrow> (shim_error, unit) result" where
  "check_ready s = (if smState s \<noteq> Ready then Inl (Shim_Remained (smPath s)) else Inr ())"

definition reconcileShims ::
    "installer \<Rightarrow> bool \<Rightarrow> bool \<Rightarrow> wsl_layout \<Rightarrow> string list \<Rightarrow> shim_host \<Rightarrow> (shim_error, shim list \<times> shim_host) result" where
  "reconcileShims install opened closed layout names h =
     rbind (inspectShims layout names h) (\<lambda>before.
       let missing = filter (\<lambda>s. smState s = Missing) before in
       if missing = [] then Inr (before, h)
       else if \<not> opened then Inl Shim_Open
       else rbind (fold_result (install_step install) missing h) (\<lambda>h'.
         if \<not> closed then Inl Shim_Close
         else rbind (inspectShims layout names h') (\<lambda>after.
           rbind (check_all check_ready after) (\<lambda>_. Inr (after, h')))))"

definition reconcileManagement ::
    "installer \<Rightarrow> bool \<Rightarrow> bool \<Rightarrow> wsl_layout \<Rightarrow> shim_host \<Rightarrow> (shim_error, shim \<times> shim_host) result" where
  "reconcileManagement install opened closed layout h =
     (let s = \<lparr>smName = ''cb'', smPath = wlManagementShim layout, smTarget = wlBinaryPath layout, smState = Planned\<rparr> in
      rbind (validateLayout layout) (\<lambda>_.
      rbind (inspectContext layout h) (\<lambda>_.
      rbind (inspectBinary layout h) (\<lambda>_.
      case inspectSymlink (smPath s) (smTarget s) (wlUID layout) h of
        Inr _ \<Rightarrow> Inr (s\<lparr>smState := Ready\<rparr>, h)
      | Inl e \<Rightarrow>
        (if e \<noteq> Shim_Absent (smPath s) then Inl e
         else if \<not> opened then Inl Shim_Open
         else rbind (install_step install s h) (\<lambda>h'.
           if \<not> closed then Inl Shim_Close
           else rbind (inspectSymlink (smPath s) (smTarget s) (wlUID layout) h') (\<lambda>_. Inr (s\<lparr>smState := Ready\<rparr>, h'))))))))"

section \<open>Installed shims\<close>

definition linked :: "wsl_layout \<Rightarrow> shim_host \<Rightarrow> string \<Rightarrow> bool" where
  "linked layout h p = (\<exists>i actual. shLstat h p = Got i \<and> mode_symlink i \<and> siUID i = wlUID layout
     \<and> shReadlink h p = Some actual \<and> resolve_link p actual = wlBinaryPath layout)"

lemma inspect_symlink_iff: "inspectSymlink p (wlBinaryPath layout) (wlUID layout) h = Inr u \<longleftrightarrow> linked layout h p"
  by (auto simp: inspectSymlink_def shim_lstat_def validateSymlink_def linked_def rbind_Inr_iff split: io.splits option.splits)

lemma plan_shim_ok: "plan_shim layout n st = Inr st' \<Longrightarrow> n \<noteq> fst st \<and> st' = (n, snd st @
     [\<lparr>smName = n, smPath = path_join [wlShimDir layout, n], smTarget = wlBinaryPath layout, smState = Planned\<rparr>])"
  by (auto simp: plan_shim_def split: if_splits)

lemma inspect_shim_ok:
  assumes "inspect_shim (wlUID layout) h s done = Inr out" "smTarget s = wlBinaryPath layout"
  shows "\<exists>s'. out = done @ [s'] \<and> smPath s' = smPath s \<and> smName s' = smName s
     \<and> (if shLstat h (smPath s') = Absent then smState s' = Missing else smState s' = Ready \<and> linked layout h (smPath s'))"
  using assms
  by (auto simp: inspect_shim_def rbind_Inr_iff validateSymlink_def linked_def split: io.splits option.splits if_splits)

lemma plan_loop:
  "fold_result (plan_shim layout) names (prev, done) = Inr (prev', done') \<Longrightarrow> sorted (prev # names) \<Longrightarrow>
     map smName done' = map smName done @ names \<and> distinct names \<and> prev \<notin> set names
     \<and> (list_all (\<lambda>s. smPath s = path_join [wlShimDir layout, smName s] \<and> smTarget s = wlBinaryPath layout) done \<longrightarrow>
        list_all (\<lambda>s. smPath s = path_join [wlShimDir layout, smName s] \<and> smTarget s = wlBinaryPath layout) done')"
proof (induction names arbitrary: prev "done")
  case (Cons n ns)
  let ?s = "\<lparr>smName = n, smPath = path_join [wlShimDir layout, n], smTarget = wlBinaryPath layout, smState = Planned\<rparr>"
  from Cons.prems(1) have v: "n \<noteq> prev" "fold_result (plan_shim layout) ns (n, done @ [?s]) = Inr (prev', done')"
    by (auto simp: rbind_Inr_iff dest: plan_shim_ok)
  have s: "sorted (n # ns)" using Cons.prems(2) by simp
  from Cons.IH [OF v(2) s] have h: "map smName done' = map smName (done @ [?s]) @ ns" "distinct ns" "n \<notin> set ns"
    "list_all (\<lambda>s. smPath s = path_join [wlShimDir layout, smName s] \<and> smTarget s = wlBinaryPath layout) (done @ [?s]) \<longrightarrow>
        list_all (\<lambda>s. smPath s = path_join [wlShimDir layout, smName s] \<and> smTarget s = wlBinaryPath layout) done'" by blast+
  have "prev \<notin> set ns"
  proof
    assume "prev \<in> set ns"
    then have "n \<le> prev" using s by simp
    then show False using v(1) Cons.prems(2) by auto
  qed
  with h v(1) show ?case by auto
qed simp

lemma planned_shims_spec:
  assumes "PlanShims layout names = Inr planned"
  shows "map smName planned = sort names" "distinct names"
    "list_all (\<lambda>s. smPath s = path_join [wlShimDir layout, smName s] \<and> smTarget s = wlBinaryPath layout) planned"
proof -
  from assms obtain prev where f: "fold_result (plan_shim layout) (sort names) ([], []) = Inr (prev, planned)"
    by (auto simp: PlanShims_def rbind_Inr_iff)
  have "sorted ([] # sort names)" by simp
  from plan_loop [OF f this] show "map smName planned = sort names" "distinct names"
    "list_all (\<lambda>s. smPath s = path_join [wlShimDir layout, smName s] \<and> smTarget s = wlBinaryPath layout) planned" by simp_all
qed

lemma inspect_planned_spec:
  "fold_result (inspect_shim (wlUID layout) h) planned done = Inr out \<Longrightarrow>
     list_all (\<lambda>s. smTarget s = wlBinaryPath layout) planned \<Longrightarrow>
     \<exists>new. out = done @ new \<and> map smPath new = map smPath planned \<and> map smName new = map smName planned
       \<and> list_all (\<lambda>s. if shLstat h (smPath s) = Absent then smState s = Missing else smState s = Ready \<and> linked layout h (smPath s)) new"
proof (induction planned arbitrary: "done")
  case (Cons s ss)
  let ?ok = "\<lambda>s. if shLstat h (smPath s) = Absent then smState s = Missing else smState s = Ready \<and> linked layout h (smPath s)"
  from Cons.prems(1) obtain mid where m: "inspect_shim (wlUID layout) h s done = Inr mid"
    and f: "fold_result (inspect_shim (wlUID layout) h) ss mid = Inr out" by (auto simp: rbind_Inr_iff)
  from inspect_shim_ok [OF m] Cons.prems(2) obtain s' where s': "mid = done @ [s']" "smPath s' = smPath s" "smName s' = smName s" "?ok s'"
    by auto
  have r: "fold_result (inspect_shim (wlUID layout) h) ss (done @ [s']) = Inr out" using f s'(1) by simp
  from Cons.IH [OF r] Cons.prems(2) obtain new where "out = (done @ [s']) @ new" "map smPath new = map smPath ss"
    "map smName new = map smName ss" "list_all ?ok new" by auto
  with s' show ?case by (intro exI [of _ "s' # new"]) auto
qed simp

lemma inspect_shims_spec:
  assumes "inspectShims layout names h = Inr out"
  shows "map smName out = sort names" "distinct names" "linked layout h (wlManagementShim layout)"
    "list_all (\<lambda>s. smPath s = path_join [wlShimDir layout, smName s]
       \<and> (if shLstat h (smPath s) = Absent then smState s = Missing else smState s = Ready \<and> linked layout h (smPath s))) out"
proof -
  from assms obtain planned where p: "PlanShims layout names = Inr planned"
    and m: "inspectSymlink (wlManagementShim layout) (wlBinaryPath layout) (wlUID layout) h = Inr ()"
    and f: "fold_result (inspect_shim (wlUID layout) h) planned [] = Inr out"
    by (auto simp: inspectShims_def rbind_Inr_iff inspectPlanned_def)
  note s = planned_shims_spec [OF p]
  have "list_all (\<lambda>s. smTarget s = wlBinaryPath layout) planned" using s(3) by (simp add: list_all_iff)
  from inspect_planned_spec [OF f this] have o: "map smPath out = map smPath planned" "map smName out = map smName planned"
    "list_all (\<lambda>s. if shLstat h (smPath s) = Absent then smState s = Missing else smState s = Ready \<and> linked layout h (smPath s)) out"
    by auto
  have "map smPath planned = map (\<lambda>n. path_join [wlShimDir layout, n]) (map smName planned)"
    using s(3) by (auto simp: list_all_iff)
  then have "map smPath out = map (\<lambda>n. path_join [wlShimDir layout, n]) (map smName out)" using o(1,2) by simp
  then have "list_all (\<lambda>s. smPath s = path_join [wlShimDir layout, smName s]) out" by (auto simp: list_all_iff)
  with o(3) show "list_all (\<lambda>s. smPath s = path_join [wlShimDir layout, smName s]
       \<and> (if shLstat h (smPath s) = Absent then smState s = Missing else smState s = Ready \<and> linked layout h (smPath s))) out"
    by (simp add: list_all_iff)
  show "map smName out = sort names" "distinct names" using s o(2) by simp_all
  show "linked layout h (wlManagementShim layout)" using m by (simp add: inspect_symlink_iff)
qed

lemma reconcile_shims_ready:
  assumes "reconcileShims install opened closed layout names h = Inr (out, h')"
  shows "map smName out = sort names" "distinct names"
    "list_all (\<lambda>s. smState s = Ready \<and> linked layout h' (path_join [wlShimDir layout, smName s])) out"
    "linked layout h' (wlManagementShim layout)"
    "h' = h \<or> (\<exists>s before. inspectShims layout names h = Inr before \<and> s \<in> set before \<and> shLstat h (smPath s) = Absent)"
proof -
  from assms obtain before where b: "inspectShims layout names h = Inr before" by (auto simp: reconcileShims_def rbind_Inr_iff)
  note s = inspect_shims_spec [OF b]
  have i: "inspectShims layout names h' = Inr out \<and> list_all (\<lambda>s. smState s = Ready) out
      \<and> (h' = h \<or> (\<exists>s \<in> set before. smState s = Missing))"
  proof (cases "filter (\<lambda>s. smState s = Missing) before = []")
    case True
    then have "list_all (\<lambda>s. smState s = Ready) before" using s(4) by (auto simp: list_all_iff filter_empty_conv split: if_splits)
    with assms b True show ?thesis by (auto simp: reconcileShims_def Let_def)
  next
    case False
    then have "\<exists>s \<in> set before. smState s = Missing" by (auto simp: filter_empty_conv)
    with assms b False show ?thesis
      by (auto simp: reconcileShims_def rbind_Inr_iff check_all_ok_iff check_ready_def list_all_iff Let_def split: if_splits)
  qed
  then have o: "inspectShims layout names h' = Inr out" by blast
  show "map smName out = sort names" "distinct names" "linked layout h' (wlManagementShim layout)"
    by (rule inspect_shims_spec [OF o])+
  show "list_all (\<lambda>s. smState s = Ready \<and> linked layout h' (path_join [wlShimDir layout, smName s])) out"
    using i inspect_shims_spec(4) [OF o] by (auto simp: list_all_iff split: if_splits)
  show "h' = h \<or> (\<exists>s before. inspectShims layout names h = Inr before \<and> s \<in> set before \<and> shLstat h (smPath s) = Absent)"
    using i b s(4) by (auto simp: list_all_iff split: if_splits)
qed

end
