(* ===== verification/Wsl_Frontend.thy ===== *)
theory Wsl_Frontend
  imports Wsl_Run_Facts Wsl_Plan_Facts Wsl_Shim Registry_Parse
begin

text \<open>
  The frontend that a tool shim starts (\<open>internal/wslrun/frontend.go\<close>): every check of the
  installation, the policy, the registry and the profile, then the plan and its execution. The
  answers of its dependencies are the fields of \<open>frontend_deps\<close>, \<open>None\<close> being an error.
\<close>

record frontend_deps =
  fdLayout :: "wsl_layout option"
  fdChecked :: "wsl_layout \<Rightarrow> (wsl_layout \<times> string list) option"
  fdRegistryRecovery :: "wsl_layout \<Rightarrow> bool"
  fdLockRecovery :: "wsl_layout \<Rightarrow> bool"
  fdRegistryFile :: "string \<Rightarrow> path_info io"
  fdShims :: "wsl_layout \<Rightarrow> string list \<Rightarrow> shim list option"
  fdExecutable :: "string option"
  fdAbs :: "string \<Rightarrow> string option"
  fdEval :: "string \<Rightarrow> string option"
  fdPolicy :: "policy option"
  fdRegistry :: "string \<Rightarrow> policy \<Rightarrow> (registry \<times> string) option"
  fdCwd :: "string option"
  fdInteractive :: bool
  fdEnviron :: "string list"
  fdPlan :: plan_deps
  fdRun :: run_answers

datatype frontend_error =
    Front_Name string
  | Front_Layout
  | Front_Check
  | Front_Incomplete
  | Front_Registry_Recovery
  | Front_Lock_Recovery
  | Front_No_Registry
  | Front_Registry_Inspect
  | Front_Registry_Kind
  | Front_Shims
  | Front_Shim_Missing string
  | Front_Executable
  | Front_Wrong_Binary string
  | Front_Policy
  | Front_Registry
  | Front_Registry_Path string
  | Front_No_Profile string
  | Front_Cwd
  | Front_Plan plan_error

definition check_installation :: "frontend_deps \<Rightarrow> string \<Rightarrow> wsl_layout \<Rightarrow> (frontend_error, unit) result" where
  "check_installation D invoked layout = (case fdChecked D layout of
     None \<Rightarrow> Inl Front_Check
   | Some (checked, missing) \<Rightarrow>
     (if checked \<noteq> layout \<or> missing \<noteq> [] then Inl Front_Incomplete
      else if \<not> fdRegistryRecovery D layout then Inl Front_Registry_Recovery
      else if \<not> fdLockRecovery D layout then Inl Front_Lock_Recovery
      else (case fdRegistryFile D (wlRegistryPath layout) of
          io.Absent \<Rightarrow> Inl Front_No_Registry
        | io.Failed \<Rightarrow> Inl Front_Registry_Inspect
        | Got info \<Rightarrow>
          (if \<not> is_regular info then Inl Front_Registry_Kind
           else (case fdShims D layout [invoked] of
               None \<Rightarrow> Inl Front_Shims
             | Some shims \<Rightarrow>
               (case shims of
                  [s] \<Rightarrow> if smName s \<noteq> invoked \<or> smState s \<noteq> shim_state.Ready then Inl (Front_Shim_Missing invoked) else Inr ()
                | _ \<Rightarrow> Inl (Front_Shim_Missing invoked))))))) "

definition check_binary :: "frontend_deps \<Rightarrow> wsl_layout \<Rightarrow> (frontend_error, unit) result" where
  "check_binary D layout = (case Option.bind (Option.bind (fdExecutable D) (fdAbs D)) (fdEval D) of
     None \<Rightarrow> Inl Front_Executable
   | Some executable \<Rightarrow> if executable \<noteq> wlBinaryPath layout then Inl (Front_Wrong_Binary executable) else Inr ())"

definition frontend_profile ::
    "unicode \<Rightarrow> frontend_deps \<Rightarrow> string \<Rightarrow> wsl_layout \<Rightarrow> (frontend_error, policy \<times> tool) result" where
  "frontend_profile U D invoked layout = (case fdPolicy D of
     None \<Rightarrow> Inl Front_Policy
   | Some machinePolicy \<Rightarrow> (case fdRegistry D (wlRegistryPath layout) machinePolicy of
       None \<Rightarrow> Inl Front_Registry
     | Some (reg, path) \<Rightarrow>
       (if path \<noteq> wlRegistryPath layout then Inl (Front_Registry_Path path)
        else (case Resolve U reg invoked of
            None \<Rightarrow> Inl (Front_No_Profile invoked)
          | Some (t, _) \<Rightarrow> Inr (machinePolicy, t)))))"

text \<open>The plan and the result of its execution, \<open>None\<close> while it goes on.\<close>

definition runFrontend ::
    "unicode \<Rightarrow> string \<Rightarrow> frontend_deps \<Rightarrow> disk \<Rightarrow> string \<Rightarrow> string list \<Rightarrow> (frontend_error, tool_plan \<times> run_result option) result" where
  "runFrontend U bootstrap D d invoked args =
     (if \<not> ValidToolName invoked \<or> ReservedToolName invoked then Inl (Front_Name invoked)
      else (case fdLayout D of
          None \<Rightarrow> Inl Front_Layout
        | Some layout \<Rightarrow>
          rbind (check_installation D invoked layout) (\<lambda>_.
          rbind (check_binary D layout) (\<lambda>_.
          rbind (frontend_profile U D invoked layout) (\<lambda>(machinePolicy, t).
          case fdCwd D of
            None \<Rightarrow> Inl Front_Cwd
          | Some cwd \<Rightarrow>
            rbind (map_err Front_Plan (buildToolPlan bootstrap (fdPlan D) t args machinePolicy layout cwd
                (fdInteractive D) (fdEnviron D) d)) (\<lambda>(plan, _).
              Inr (plan, executeTool plan (fdRun D))))))))"

lemma frontend_steps:
  assumes "runFrontend U bootstrap D d invoked args = Inr (plan, r)"
  obtains layout p reg t v cwd d' where "fdLayout D = Some layout" "fdChecked D layout = Some (layout, [])"
    "Option.bind (Option.bind (fdExecutable D) (fdAbs D)) (fdEval D) = Some (wlBinaryPath layout)"
    "fdPolicy D = Some p" "fdRegistry D (wlRegistryPath layout) p = Some (reg, wlRegistryPath layout)"
    "Resolve U reg invoked = Some (t, v)" "fdCwd D = Some cwd"
    "buildToolPlan bootstrap (fdPlan D) t args p layout cwd (fdInteractive D) (fdEnviron D) d = Inr (plan, d')"
    "r = executeTool plan (fdRun D)"
proof -
  from assms obtain layout p t cwd d' where l: "fdLayout D = Some layout" and i: "check_installation D invoked layout = Inr ()"
    and b: "check_binary D layout = Inr ()" and f: "frontend_profile U D invoked layout = Inr (p, t)"
    and c: "fdCwd D = Some cwd"
    and q: "buildToolPlan bootstrap (fdPlan D) t args p layout cwd (fdInteractive D) (fdEnviron D) d = Inr (plan, d')"
    "r = executeTool plan (fdRun D)"
    by (auto simp: runFrontend_def rbind_Inr_iff split: if_splits option.splits)
  have "fdChecked D layout = Some (layout, [])"
    using i by (auto simp: check_installation_def split: option.splits prod.splits if_splits)
  moreover have "Option.bind (Option.bind (fdExecutable D) (fdAbs D)) (fdEval D) = Some (wlBinaryPath layout)"
    using b by (auto simp: check_binary_def split: option.splits if_splits)
  moreover from f obtain reg v where "fdPolicy D = Some p" "fdRegistry D (wlRegistryPath layout) p = Some (reg, wlRegistryPath layout)"
    "Resolve U reg invoked = Some (t, v)"
    by (auto simp: frontend_profile_def split: option.splits prod.splits if_splits)
  ultimately show thesis using that l c q by blast
qed

lemma subseq_set: "subseq xs ys \<Longrightarrow> x \<in> set xs \<Longrightarrow> x \<in> set ys"
  by (induction rule: list_emb.induct) auto

text \<open>What the engine is asked to create is the planned request, up to the size of the terminal.\<close>

lemma only_planned_created:
  assumes "executeTool plan A = Some r" "Create_Call spec \<in> set (rrCalls r)"
  shows "spec = run_spec plan A"
proof -
  have b: "body_calls i runID body \<Longrightarrow> Create_Call spec \<notin> set body" for i runID body
    by (fastforce simp: body_calls_def list_all_iff loop_call_def dest: in_set_takeD)
  have c: "cleanup_calls i clean \<Longrightarrow> Create_Call spec \<notin> set clean" for i clean
  proof
    assume "cleanup_calls i clean" and m: "Create_Call spec \<in> set clean"
    then obtain pre post where p: "clean = pre @ [Remove_Call i] @ post" "post \<in> {[], [Stop_Events]}"
      and q: "subseq pre [Close_Stream, Restore_Terminal, Signal_Call i 9, Wait_Call i]"
      unfolding cleanup_calls_def by blast
    from m p have "Create_Call spec \<in> set pre" by auto
    from subseq_set [OF q this] show False by simp
  qed
  from run_protocol [OF assms(1)] obtain ens rest where r: "rrCalls r = map (\<lambda>v. Ensure_Call (voName v)) ens @ rest"
    "rest = [] \<or> (ens = tpVolumes plan \<and> (rest = [Begin_Call] \<or> rest = [Begin_Call, Create_Call (run_spec plan A), Close_Guard False]
      \<or> created_run plan A rest))"
    unfolding run_calls_def by (elim exE conjE) (rule that)
  from r(1) assms(2) have m: "Create_Call spec \<in> set rest" by auto
  from r(2) m show ?thesis
  proof (elim disjE conjE)
    assume "created_run plan A rest"
    then show ?thesis using m b c unfolding created_run_def by auto
  qed auto
qed

end
