(* ===== verification/Wsl_Reconcile.thy ===== *)
theory Wsl_Reconcile
  imports Wsl_Run
begin

text \<open>
  The reconciliation of retained containers (\<open>internal/wslreconcile/reconcile.go\<close>): the run guard
  with its coordinator and its lease, and the pass that classifies every retained container and every
  lease before it stops and removes the orphans. Its dependencies are the fields of
  \<open>reconcile_deps\<close>; \<open>None\<close> is an error of a dependency. The mutations are recorded in their order.
\<close>

datatype lease_status = Lease_Missing | Lease_Active | Lease_Orphaned

record retained =
  rcID :: string
  rcRunID :: string
  rcTool :: string
  rcRunning :: bool

text \<open>\<open>rdProbe\<close> answers the status and whether a lock handle came with it.\<close>

record reconcile_deps =
  rdDiscover :: "container_candidate list option"
  rdLeases :: "string list option"
  rdProve :: "container_candidate \<Rightarrow> retained option option"
  rdProbe :: "string \<Rightarrow> (lease_status \<times> bool) option"
  rdSignal :: "retained \<Rightarrow> call_result"
  rdWait :: "retained \<Rightarrow> call_result"
  rdRemove :: "retained \<Rightarrow> bool"
  rdRemoveLease :: "string \<Rightarrow> bool"
  rdCloseLease :: "string \<Rightarrow> bool"

record report_entry =
  enContainerID :: string
  enRunID :: string
  enTool :: string
  enRunning :: bool
  enActive :: bool
  enRemoved :: bool

record lease_entry =
  lnRunID :: string
  lnActive :: bool
  lnRemoved :: bool

record report =
  rpNamespace :: string
  rpApplied :: bool
  rpEntries :: "report_entry list"
  rpLeases :: "lease_entry list"

definition ActiveCount :: "report \<Rightarrow> nat" where
  "ActiveCount r = length (filter enActive (rpEntries r))"

definition OrphanCount :: "report \<Rightarrow> nat" where
  "OrphanCount r = length (rpEntries r) - ActiveCount r"

definition RemovedCount :: "report \<Rightarrow> nat" where
  "RemovedCount r = length (filter enRemoved (rpEntries r))"

definition ActiveLeaseOnlyCount :: "report \<Rightarrow> nat" where
  "ActiveLeaseOnlyCount r = length (filter lnActive (rpLeases r))"

definition OrphanedLeaseCount :: "report \<Rightarrow> nat" where
  "OrphanedLeaseCount r = length (rpLeases r) - ActiveLeaseOnlyCount r"

definition ReapedLeaseCount :: "report \<Rightarrow> nat" where
  "ReapedLeaseCount r = length (filter lnRemoved (rpLeases r))"

datatype reconcile_error =
    Rec_Discover
  | Rec_Discover_Leases
  | Rec_Run_ID string
  | Rec_Duplicate_Lease string
  | Rec_Prove string
  | Rec_Duplicate_Run string
  | Rec_Probe string
  | Rec_Handle string
  | Rec_Stop string
  | Rec_Wait string
  | Rec_Remove string
  | Rec_Remove_Lease string
  | Rec_Close_Lease string
  | Rec_Coordinator
  | Rec_Not_Active
  | Rec_Adopted
  | Rec_Create_Lease
  | Rec_Release

section \<open>Classification\<close>

definition check_lease_id :: "string \<Rightarrow> string list \<Rightarrow> (reconcile_error, string list) result" where
  "check_lease_id runID seen =
     (if \<not> validRunID runID then Inl (Rec_Run_ID runID)
      else if runID \<in> set seen then Inl (Rec_Duplicate_Lease runID) else Inr (runID # seen))"

text \<open>A container or a detached lease after its proofs.\<close>

record classified =
  clContainer :: retained
  clActive :: bool
  clLease :: bool

record classified_lease =
  cdRunID :: string
  cdActive :: bool
  cdLease :: bool

text \<open>A handle comes with an orphaned lease and with no other.\<close>

definition handle_ok :: "lease_status \<Rightarrow> bool \<Rightarrow> bool" where
  "handle_ok status held = (if status = Lease_Orphaned then held else \<not> held)"

text \<open>The items classified so far, and the error that ends the pass, if any: an item whose handle is
  wrong is already in the list, so that the deferred cleanup closes it.\<close>

fun classify_containers ::
    "reconcile_deps \<Rightarrow> container_candidate list \<Rightarrow> classified list \<Rightarrow> classified list \<times> reconcile_error option" where
  "classify_containers D [] items = (items, None)"
| "classify_containers D (c # cs) items = (case rdProve D c of
     None \<Rightarrow> (items, Some (Rec_Prove (ccID c)))
   | Some None \<Rightarrow> classify_containers D cs items
   | Some (Some r) \<Rightarrow>
     (if rcRunID r \<in> set (map (rcRunID \<circ> clContainer) items) then (items, Some (Rec_Duplicate_Run (rcRunID r)))
      else (case rdProbe D (rcRunID r) of
          None \<Rightarrow> (items, Some (Rec_Probe (rcRunID r)))
        | Some (status, held) \<Rightarrow>
          (let item = \<lparr>clContainer = r, clActive = (status = Lease_Active), clLease = held\<rparr> in
           if \<not> handle_ok status held then (items @ [item\<lparr>clActive := False\<rparr>], Some (Rec_Handle (rcRunID r)))
           else classify_containers D cs (items @ [item])))))"

fun classify_leases ::
    "reconcile_deps \<Rightarrow> string list \<Rightarrow> string list \<Rightarrow> classified_lease list \<Rightarrow> classified_lease list \<times> reconcile_error option" where
  "classify_leases D owned [] items = (items, None)"
| "classify_leases D owned (runID # runIDs) items =
     (if runID \<in> set owned then classify_leases D owned runIDs items
      else (case rdProbe D runID of
          None \<Rightarrow> (items, Some (Rec_Probe runID))
        | Some (status, held) \<Rightarrow>
          (let item = \<lparr>cdRunID = runID, cdActive = (status = Lease_Active), cdLease = held\<rparr> in
           if \<not> handle_ok status held then (items @ [item\<lparr>cdActive := False\<rparr>], Some (Rec_Handle runID))
           else if status = Lease_Missing then classify_leases D owned runIDs items
           else classify_leases D owned runIDs (items @ [item]))))"

section \<open>Cleanup of the orphans\<close>

datatype reconcile_call = Kill_Orphan string | Wait_Orphan string | Remove_Orphan string | Reap_Lease string

text \<open>\<open>reconcileOrphan\<close>: the calls and the error; without an error the container is gone.\<close>

definition reconcileOrphan :: "reconcile_deps \<Rightarrow> retained \<Rightarrow> reconcile_call list \<times> reconcile_error option" where
  "reconcileOrphan D c =
     (let remove = (\<lambda>calls. (calls @ [Remove_Orphan (rcID c)], if rdRemove D c then None else Some (Rec_Remove (rcID c)))) in
      if \<not> rcRunning c then remove []
      else if rdSignal D c = Call_Status 404 then ([Kill_Orphan (rcID c)], None)
      else if rdSignal D c \<noteq> Call_Ok \<and> rdSignal D c \<noteq> Call_Status 409 then ([Kill_Orphan (rcID c)], Some (Rec_Stop (rcID c)))
      else if rdWait D c \<noteq> Call_Ok \<and> rdWait D c \<noteq> Call_Status 404
      then ([Kill_Orphan (rcID c), Wait_Orphan (rcID c)], Some (Rec_Wait (rcID c)))
      else remove [Kill_Orphan (rcID c), Wait_Orphan (rcID c)])"

definition reap_container :: "reconcile_deps \<Rightarrow> classified \<Rightarrow> reconcile_call list \<times> reconcile_error option" where
  "reap_container D item = (case reconcileOrphan D (clContainer item) of
     (calls, Some e) \<Rightarrow> (calls, Some e)
   | (calls, None) \<Rightarrow>
     (if \<not> clLease item then (calls, None)
      else (calls @ [Reap_Lease (rcRunID (clContainer item))],
        if rdRemoveLease D (rcRunID (clContainer item)) then None
        else Some (Rec_Remove_Lease (rcRunID (clContainer item))))))"

definition container_entry :: "classified \<Rightarrow> bool \<Rightarrow> report_entry" where
  "container_entry item removed = \<lparr>enContainerID = rcID (clContainer item), enRunID = rcRunID (clContainer item),
     enTool = rcTool (clContainer item), enRunning = rcRunning (clContainer item), enActive = clActive item, enRemoved = removed\<rparr>"

fun act_containers ::
    "reconcile_deps \<Rightarrow> bool \<Rightarrow> classified list \<Rightarrow> reconcile_call list \<times> report_entry list \<times> reconcile_error option" where
  "act_containers D apply_it [] = ([], [], None)"
| "act_containers D apply_it (item # items) =
     (case (if apply_it \<and> \<not> clActive item then reap_container D item else ([], None)) of
        (calls, Some e) \<Rightarrow> (calls, [], Some e)
      | (calls, None) \<Rightarrow> (case act_containers D apply_it items of
            (calls', entries, r) \<Rightarrow> (calls @ calls', container_entry item (apply_it \<and> \<not> clActive item) # entries, r)))"

fun act_leases ::
    "reconcile_deps \<Rightarrow> bool \<Rightarrow> classified_lease list \<Rightarrow> reconcile_call list \<times> lease_entry list \<times> reconcile_error option" where
  "act_leases D apply_it [] = ([], [], None)"
| "act_leases D apply_it (item # items) =
     (let reap = (apply_it \<and> \<not> cdActive item); calls = (if reap then [Reap_Lease (cdRunID item)] else []) in
      if reap \<and> \<not> rdRemoveLease D (cdRunID item) then (calls, [], Some (Rec_Remove_Lease (cdRunID item)))
      else (case act_leases D apply_it items of
          (calls', entries, r) \<Rightarrow>
            (calls @ calls', \<lparr>lnRunID = cdRunID item, lnActive = cdActive item, lnRemoved = reap\<rparr> # entries, r)))"

section \<open>The pass\<close>

record reconcile_result =
  rsReport :: report
  rsCalls :: "reconcile_call list"
  rsErrors :: "reconcile_error list"

text \<open>The handles that the deferred cleanup closes, and the errors of closing them.\<close>

definition close_errors :: "reconcile_deps \<Rightarrow> classified list \<Rightarrow> classified_lease list \<Rightarrow> reconcile_error list" where
  "close_errors D items leases = map Rec_Close_Lease (filter (\<lambda>r. \<not> rdCloseLease D r)
     (map (rcRunID \<circ> clContainer) (filter clLease items) @ map cdRunID (filter cdLease leases)))"

definition reconcile_ended ::
    "reconcile_deps \<Rightarrow> report \<Rightarrow> reconcile_call list \<Rightarrow> reconcile_error option \<Rightarrow> classified list \<Rightarrow> classified_lease list \<Rightarrow> reconcile_result" where
  "reconcile_ended D rp calls e items leases =
     \<lparr>rsReport = rp, rsCalls = calls, rsErrors = (case e of None \<Rightarrow> [] | Some x \<Rightarrow> [x]) @ close_errors D items leases\<rparr>"

definition reconcile_act :: "reconcile_deps \<Rightarrow> bool \<Rightarrow> report \<Rightarrow> classified list \<Rightarrow> classified_lease list \<Rightarrow> reconcile_result" where
  "reconcile_act D apply_it rp items0 leases =
     (let items = sort_key (rcID \<circ> clContainer) items0 in
      case act_containers D apply_it items of
        (calls, entries, Some e) \<Rightarrow> reconcile_ended D (rp\<lparr>rpEntries := entries\<rparr>) calls (Some e) items leases
      | (calls, entries, None) \<Rightarrow> (case act_leases D apply_it leases of
            (calls', lentries, e) \<Rightarrow>
              reconcile_ended D (rp\<lparr>rpEntries := entries, rpLeases := lentries\<rparr>) (calls @ calls') e items leases))"

definition reconcileLocked :: "reconcile_deps \<Rightarrow> string \<Rightarrow> bool \<Rightarrow> reconcile_result" where
  "reconcileLocked D namespace apply_it =
     (let rp = \<lparr>rpNamespace = namespace, rpApplied = apply_it, rpEntries = [], rpLeases = []\<rparr>;
          failed = (\<lambda>e. \<lparr>rsReport = rp, rsCalls = [], rsErrors = [e]\<rparr>) in
      case rdDiscover D of
        None \<Rightarrow> failed Rec_Discover
      | Some candidates \<Rightarrow> (case rdLeases D of
          None \<Rightarrow> failed Rec_Discover_Leases
        | Some runIDs \<Rightarrow> (case fold_result check_lease_id runIDs [] of
            Inl e \<Rightarrow> failed e
          | Inr _ \<Rightarrow> (case classify_containers D candidates [] of
              (items, Some e) \<Rightarrow> reconcile_ended D rp [] (Some e) items []
            | (items, None) \<Rightarrow> (case classify_leases D (map (rcRunID \<circ> clContainer) items) (sort runIDs) [] of
                (leases, Some e) \<Rightarrow> reconcile_ended D rp [] (Some e) items leases
              | (leases, None) \<Rightarrow> reconcile_act D apply_it rp items leases)))))"

text \<open>\<open>reconcile\<close>: the pass between the acquisition and the release of the coordinator.\<close>

definition reconcile :: "reconcile_deps \<Rightarrow> bool \<Rightarrow> bool \<Rightarrow> string \<Rightarrow> bool \<Rightarrow> reconcile_result option" where
  "reconcile D acquired released namespace apply_it =
     (if \<not> acquired then None
      else (let r = reconcileLocked D namespace apply_it in
        Some (r\<lparr>rsErrors := rsErrors r @ (if released then [] else [Rec_Release])\<rparr>)))"

section \<open>The run guard\<close>

text \<open>What the guard holds: the coordinator, and the lease of a run.\<close>

record run_guard =
  gdCoordinator :: bool
  gdLease :: "string option"
  gdClosed :: bool

datatype guard_call =
    Acquire_Coordinator
  | Close_Coordinator
  | Create_Lease string
  | Remove_Lease string
  | Close_Lease string

record guard_answers =
  gaAcquire :: bool
  gaCreateLease :: bool
  gaCloseCoordinator :: bool
  gaRemoveLease :: bool
  gaCloseLease :: bool

definition Adopt :: "guard_answers \<Rightarrow> string \<Rightarrow> run_guard \<Rightarrow> run_guard \<times> guard_call list \<times> reconcile_error option" where
  "Adopt A runID g =
     (if gdClosed g then (g, [], Some Rec_Not_Active)
      else if gdLease g \<noteq> None then (g, [], Some Rec_Adopted)
      else if \<not> gaCreateLease A then (g, [Create_Lease runID], Some Rec_Create_Lease)
      else (g\<lparr>gdLease := Some runID, gdCoordinator := False\<rparr>, [Create_Lease runID, Close_Coordinator],
        if gaCloseCoordinator A then None else Some Rec_Release))"

definition err_unless :: "bool \<Rightarrow> 'e \<Rightarrow> 'e list" where
  "err_unless b e = (if b then [] else [e])"

definition CloseGuard :: "guard_answers \<Rightarrow> bool \<Rightarrow> run_guard \<Rightarrow> run_guard \<times> guard_call list \<times> reconcile_error list" where
  "CloseGuard A containerGone g =
     (if gdClosed g then (g, [], [])
      else (let (calls1, errs1) = (case gdLease g of
            None \<Rightarrow> ([], [])
          | Some r \<Rightarrow>
            (if \<not> containerGone then ([Close_Lease r], err_unless (gaCloseLease A) (Rec_Close_Lease r))
             else if \<not> gaAcquire A
             then ([Acquire_Coordinator, Close_Lease r], Rec_Coordinator # err_unless (gaCloseLease A) (Rec_Close_Lease r))
             else ([Acquire_Coordinator, Remove_Lease r, Close_Lease r, Close_Coordinator],
               err_unless (gaRemoveLease A) (Rec_Remove_Lease r) @ err_unless (gaCloseLease A) (Rec_Close_Lease r)
                 @ err_unless (gaCloseCoordinator A) Rec_Release)));
          (calls2, errs2) = (if gdCoordinator g then ([Close_Coordinator], err_unless (gaCloseCoordinator A) Rec_Release) else ([], []))
        in (\<lparr>gdCoordinator = False, gdLease = None, gdClosed = True\<rparr>, calls1 @ calls2, errs1 @ errs2)))"

text \<open>\<open>beginRun\<close>: a pass that applies, and the guard with the coordinator; after an error the guard is closed.\<close>

definition beginRun :: "reconcile_deps \<Rightarrow> guard_answers \<Rightarrow> string \<Rightarrow> run_guard option \<times> reconcile_result option" where
  "beginRun D A namespace =
     (if \<not> gaAcquire A then (None, None)
      else (let r = reconcileLocked D namespace True;
                g = \<lparr>gdCoordinator = True, gdLease = None, gdClosed = False\<rparr> in
        if rsErrors r = [] then (Some g, Some r)
        else (case CloseGuard A False g of (_, _, errs) \<Rightarrow> (None, Some (r\<lparr>rsErrors := rsErrors r @ errs\<rparr>)))))"

end
