(* ===== verification/Wsl_Reconcile_Facts.thy ===== *)
theory Wsl_Reconcile_Facts
  imports Wsl_Reconcile
begin

text \<open>
  What a pass does: it touches only proven containers without an active lease and orphaned leases
  (\<open>reconcile_only_orphans\<close>), it touches nothing before every proof has succeeded
  (\<open>reconcile_proofs_first\<close>), and a pass without errors accounts for every container
  (\<open>reconcile_accounts\<close>).
\<close>

definition proven_containers :: "reconcile_deps \<Rightarrow> container_candidate list \<Rightarrow> retained list" where
  "proven_containers D cs = concat (map (\<lambda>c. case rdProve D c of Some (Some r) \<Rightarrow> [r] | _ \<Rightarrow> []) cs)"

definition classified_ok :: "reconcile_deps \<Rightarrow> classified \<Rightarrow> bool" where
  "classified_ok D item = (\<exists>st. rdProbe D (rcRunID (clContainer item)) = Some (st, clLease item)
     \<and> handle_ok st (clLease item) \<and> clActive item = (st = Lease_Active))"

definition lease_ok :: "reconcile_deps \<Rightarrow> classified_lease \<Rightarrow> bool" where
  "lease_ok D item = (\<exists>st. rdProbe D (cdRunID item) = Some (st, cdLease item) \<and> handle_ok st (cdLease item)
     \<and> cdActive item = (st = Lease_Active) \<and> st \<noteq> Lease_Missing)"

lemma classify_containers_spec:
  "classify_containers D cs items = (items', None) \<Longrightarrow> \<exists>new. items' = items @ new
     \<and> map clContainer new = proven_containers D cs \<and> list_all (classified_ok D) new \<and> list_all (\<lambda>c. rdProve D c \<noteq> None) cs"
proof (induction D cs items arbitrary: items' rule: classify_containers.induct)
  case (2 D c cs items)
  show ?case
  proof (cases "rdProve D c")
    case None
    with "2.prems" show ?thesis by simp
  next
    case (Some o')
    show ?thesis
    proof (cases o')
      case None
      with "2.prems" Some have "classify_containers D cs items = (items', None)" by simp
      from "2.IH"(1) [OF _ _ this] Some None show ?thesis by (auto simp: proven_containers_def)
    next
      case r: (Some r)
      with "2.prems" Some obtain st held where p: "rdProbe D (rcRunID r) = Some (st, held)" "handle_ok st held"
        and d: "rcRunID r \<notin> set (map (rcRunID \<circ> clContainer) items)"
        and n: "classify_containers D cs (items @ [\<lparr>clContainer = r, clActive = (st = Lease_Active), clLease = held\<rparr>]) = (items', None)"
        by (auto simp: Let_def split: if_splits option.splits)
      from "2.IH"(2) [OF _ r d p(1) _ _ _ n] Some p(2) obtain new where
        "items' = (items @ [\<lparr>clContainer = r, clActive = (st = Lease_Active), clLease = held\<rparr>]) @ new"
        "map clContainer new = proven_containers D cs" "list_all (classified_ok D) new" "list_all (\<lambda>c. rdProve D c \<noteq> None) cs"
        by auto
      moreover have "classified_ok D \<lparr>clContainer = r, clActive = (st = Lease_Active), clLease = held\<rparr>"
        using p by (simp add: classified_ok_def)
      ultimately show ?thesis
        by (intro exI [of _ "\<lparr>clContainer = r, clActive = (st = Lease_Active), clLease = held\<rparr> # new"])
          (simp add: proven_containers_def Some r)
    qed
  qed
qed (simp add: proven_containers_def)

lemma classify_leases_spec:
  "classify_leases D owned ids items = (items', None) \<Longrightarrow> list_all (lease_ok D) items \<Longrightarrow> list_all (lease_ok D) items'"
proof (induction D owned ids items arbitrary: items' rule: classify_leases.induct)
  case (2 D owned runID ids items)
  show ?case
  proof (cases "runID \<in> set owned")
    case True
    with 2 show ?thesis by simp
  next
    case False
    with "2.prems"(1) obtain st held where p: "rdProbe D runID = Some (st, held)" "handle_ok st held"
      and n: "(if st = Lease_Missing then classify_leases D owned ids items
        else classify_leases D owned ids (items @ [\<lparr>cdRunID = runID, cdActive = (st = Lease_Active), cdLease = held\<rparr>])) = (items', None)"
      by (auto simp: Let_def split: if_splits option.splits)
    show ?thesis
    proof (cases "st = Lease_Missing")
      case True
      with n p False "2.IH"(2) "2.prems"(2) show ?thesis by simp
    next
      case neq: False
      have "lease_ok D \<lparr>cdRunID = runID, cdActive = (st = Lease_Active), cdLease = held\<rparr>"
        using p neq by (simp add: lease_ok_def)
      with n p False neq "2.IH"(3) "2.prems"(2) show ?thesis by simp
    qed
  qed
qed simp

section \<open>The calls of a pass\<close>

text \<open>A call that only an orphan justifies.\<close>

definition orphan_call :: "reconcile_deps \<Rightarrow> retained list \<Rightarrow> reconcile_call \<Rightarrow> bool" where
  "orphan_call D rs call =
     (let orphan = (\<lambda>i. \<exists>r \<in> set rs. rcID r = i \<and> rdProbe D (rcRunID r) \<in> {Some (Lease_Missing, False), Some (Lease_Orphaned, True)})
      in case call of
        Reap_Lease runID \<Rightarrow> rdProbe D runID = Some (Lease_Orphaned, True)
      | Kill_Orphan i \<Rightarrow> orphan i
      | Wait_Orphan i \<Rightarrow> orphan i
      | Remove_Orphan i \<Rightarrow> orphan i)"

lemma classified_probe:
  assumes "classified_ok D item" "\<not> clActive item"
  shows "rdProbe D (rcRunID (clContainer item)) = (if clLease item then Some (Lease_Orphaned, True) else Some (Lease_Missing, False))"
  using assms by (auto simp: classified_ok_def handle_ok_def split: if_splits lease_status.splits) (metis lease_status.exhaust)+

lemma orphan_calls:
  "set (fst (reconcileOrphan D c)) \<subseteq> {Kill_Orphan (rcID c), Wait_Orphan (rcID c), Remove_Orphan (rcID c)}"
  by (auto simp: reconcileOrphan_def Let_def split: if_splits)

lemma reap_calls:
  assumes "reap_container D item = (calls, e)" "classified_ok D item" "\<not> clActive item" "clContainer item \<in> set rs"
  shows "list_all (orphan_call D rs) calls"
proof -
  note p = classified_probe [OF assms(2,3)]
  obtain cs e' where o: "reconcileOrphan D (clContainer item) = (cs, e')" by fastforce
  have "orphan_call D rs c" if c: "c \<in> set cs" for c
  proof -
    have "c \<in> {Kill_Orphan (rcID (clContainer item)), Wait_Orphan (rcID (clContainer item)), Remove_Orphan (rcID (clContainer item))}"
      using orphan_calls [of D "clContainer item"] c by (auto simp: o)
    moreover have "\<exists>r \<in> set rs. rcID r = rcID (clContainer item)
        \<and> rdProbe D (rcRunID r) \<in> {Some (Lease_Missing, False), Some (Lease_Orphaned, True)}"
      by (rule bexI [OF _ assms(4)]) (simp add: p)
    ultimately show ?thesis by (elim insertE emptyE) (simp_all only: orphan_call_def Let_def reconcile_call.case)
  qed
  moreover have "orphan_call D rs (Reap_Lease (rcRunID (clContainer item)))" if "clLease item"
    using p that by (simp add: orphan_call_def)
  ultimately show ?thesis
    using assms(1) by (auto simp: reap_container_def o list_all_iff split: option.splits if_splits)
qed

lemma act_containers_calls:
  "act_containers D a items = (calls, entries, e) \<Longrightarrow> list_all (classified_ok D) items \<Longrightarrow> clContainer ` set items \<subseteq> set rs
    \<Longrightarrow> list_all (orphan_call D rs) calls \<and> (calls \<noteq> [] \<longrightarrow> a)
      \<and> (e = None \<longrightarrow> entries = map (\<lambda>item. container_entry item (a \<and> \<not> clActive item)) items)"
proof (induction D a items arbitrary: calls entries e rule: act_containers.induct)
  case (2 D a item items)
  let ?reap = "if a \<and> \<not> clActive item then reap_container D item else ([], None)"
  obtain calls1 e1 where r: "?reap = (calls1, e1)" by fastforce
  obtain calls2 entries2 e2 where n: "act_containers D a items = (calls2, entries2, e2)" by (cases "act_containers D a items") auto
  have c1: "list_all (orphan_call D rs) calls1" "calls1 \<noteq> [] \<longrightarrow> a"
    using r reap_calls [of D item calls1 e1 rs] "2.prems"(2,3) by (auto split: if_splits)
  show ?case
  proof (cases e1)
    case (Some x)
    with "2.prems"(1) r c1 show ?thesis by auto
  next
    case None
    from "2.IH" [OF r [symmetric] None n] "2.prems"(2,3) have
      "list_all (orphan_call D rs) calls2" "calls2 \<noteq> [] \<longrightarrow> a"
      "e2 = None \<longrightarrow> entries2 = map (\<lambda>item. container_entry item (a \<and> \<not> clActive item)) items" by auto
    with "2.prems"(1) r c1 None n show ?thesis by auto
  qed
qed simp

lemma act_leases_calls:
  "act_leases D a items = (calls, entries, e) \<Longrightarrow> list_all (lease_ok D) items
    \<Longrightarrow> list_all (orphan_call D rs) calls \<and> (calls \<noteq> [] \<longrightarrow> a)"
proof (induction D a items arbitrary: calls entries e rule: act_leases.induct)
  case (2 D a item items)
  have o: "orphan_call D rs (Reap_Lease (cdRunID item))" if "\<not> cdActive item"
    using "2.prems"(2) that by (auto simp: orphan_call_def lease_ok_def handle_ok_def split: if_splits) (metis lease_status.exhaust)
  obtain calls2 entries2 e2 where n: "act_leases D a items = (calls2, entries2, e2)" by (cases "act_leases D a items") auto
  show ?case
  proof (cases "a \<and> \<not> cdActive item \<and> \<not> rdRemoveLease D (cdRunID item)")
    case True
    with "2.prems"(1) o show ?thesis by (auto simp: Let_def)
  next
    case False
    from "2.IH" [OF refl refl _ n] False "2.prems"(2) have "list_all (orphan_call D rs) calls2 \<and> (calls2 \<noteq> [] \<longrightarrow> a)" by auto
    with "2.prems"(1) False n o show ?thesis by (auto simp: Let_def split: if_splits)
  qed
qed simp

section \<open>The pass\<close>

text \<open>The end of the classification: everything is proven.\<close>

definition all_proven :: "reconcile_deps \<Rightarrow> container_candidate list \<Rightarrow> string list \<Rightarrow> classified list \<Rightarrow> classified_lease list \<Rightarrow> bool" where
  "all_proven D cs ids items leases = (rdDiscover D = Some cs \<and> rdLeases D = Some ids \<and> list_all (\<lambda>c. rdProve D c \<noteq> None) cs
     \<and> map clContainer items = proven_containers D cs \<and> list_all (classified_ok D) items \<and> list_all (lease_ok D) leases)"

lemma reconcile_cases:
  "rsCalls (reconcileLocked D ns a) = [] \<and> rsErrors (reconcileLocked D ns a) \<noteq> []
   \<or> (\<exists>cs ids items leases. all_proven D cs ids items leases
       \<and> reconcileLocked D ns a = reconcile_act D a \<lparr>rpNamespace = ns, rpApplied = a, rpEntries = [], rpLeases = []\<rparr> items leases)"
proof (cases "rdDiscover D")
  case (Some cs)
  show ?thesis
  proof (cases "rdLeases D")
    case ids: (Some ids)
    show ?thesis
    proof (cases "fold_result check_lease_id ids []")
      case (Inr seen)
      obtain items e where i: "classify_containers D cs [] = (items, e)" by fastforce
      obtain leases e' where l: "classify_leases D (map (rcRunID \<circ> clContainer) items) (sort ids) [] = (leases, e')" by fastforce
      show ?thesis
      proof (cases "e = None \<and> e' = None")
        case True
        from classify_containers_spec [of D cs "[]" items] i True have
          "map clContainer items = proven_containers D cs" "list_all (classified_ok D) items" "list_all (\<lambda>c. rdProve D c \<noteq> None) cs" by auto
        moreover have "list_all (lease_ok D) leases" using classify_leases_spec [of D _ _ "[]" leases] l True by simp
        ultimately have "all_proven D cs ids items leases" using Some ids by (simp add: all_proven_def)
        then show ?thesis using Some ids Inr i l True by (auto simp: reconcileLocked_def Let_def)
      next
        case False
        then show ?thesis using Some ids Inr i l by (cases e; cases e') (auto simp: reconcileLocked_def reconcile_ended_def Let_def)
      qed
    qed (simp add: reconcileLocked_def Some ids Let_def)
  qed (simp add: reconcileLocked_def Some Let_def)
qed (simp add: reconcileLocked_def Let_def)

lemma reconcile_act_calls:
  assumes "all_proven D cs ids items leases"
  shows "list_all (orphan_call D (proven_containers D cs)) (rsCalls (reconcile_act D a rp items leases))"
    "rsCalls (reconcile_act D a rp items leases) \<noteq> [] \<longrightarrow> a"
    "rsErrors (reconcile_act D a rp items leases) = [] \<longrightarrow> rpEntries (rsReport (reconcile_act D a rp items leases)) =
       map (\<lambda>item. container_entry item (a \<and> \<not> clActive item)) (sort_key (rcID \<circ> clContainer) items)"
proof -
  let ?items = "sort_key (rcID \<circ> clContainer) items"
  let ?rs = "proven_containers D cs"
  have p: "list_all (classified_ok D) ?items" "clContainer ` set ?items \<subseteq> set ?rs" "list_all (lease_ok D) leases"
    using assms by (auto simp: all_proven_def list_all_iff simp flip: set_map)
  obtain calls entries e where c: "act_containers D a ?items = (calls, entries, e)" by (cases "act_containers D a ?items") auto
  obtain calls' lentries e' where l: "act_leases D a leases = (calls', lentries, e')" by (cases "act_leases D a leases") auto
  note f = act_containers_calls [OF c p(1,2)] act_leases_calls [OF l p(3), of ?rs]
  show "list_all (orphan_call D ?rs) (rsCalls (reconcile_act D a rp items leases))"
    "rsCalls (reconcile_act D a rp items leases) \<noteq> [] \<longrightarrow> a"
    "rsErrors (reconcile_act D a rp items leases) = [] \<longrightarrow> rpEntries (rsReport (reconcile_act D a rp items leases)) =
       map (\<lambda>item. container_entry item (a \<and> \<not> clActive item)) ?items"
    using f by (cases e; auto simp: reconcile_act_def Let_def c l reconcile_ended_def)+
qed

lemma reconcile_only_orphans:
  assumes "call \<in> set (rsCalls (reconcileLocked D ns a))"
  shows "a \<and> (\<exists>cs. rdDiscover D = Some cs \<and> list_all (\<lambda>c. rdProve D c \<noteq> None) cs \<and> orphan_call D (proven_containers D cs) call)"
proof -
  from assms reconcile_cases [of D ns a] obtain cs ids items leases where k: "all_proven D cs ids items leases"
    and r: "reconcileLocked D ns a = reconcile_act D a \<lparr>rpNamespace = ns, rpApplied = a, rpEntries = [], rpLeases = []\<rparr> items leases"
    by auto
  let ?calls = "rsCalls (reconcile_act D a \<lparr>rpNamespace = ns, rpApplied = a, rpEntries = [], rpLeases = []\<rparr> items leases)"
  have c: "call \<in> set ?calls" using assms by (simp only: r)
  then have "?calls \<noteq> []" by auto
  then have "a" using reconcile_act_calls(2) [OF k] by blast
  moreover have "orphan_call D (proven_containers D cs) call"
    using reconcile_act_calls(1) [OF k] c by (simp only: list_all_iff)
  ultimately show ?thesis using k unfolding all_proven_def by blast
qed

lemma reconcile_accounts:
  assumes "rsErrors (reconcileLocked D ns a) = []"
  shows "\<exists>cs. rdDiscover D = Some cs
     \<and> mset (map enContainerID (rpEntries (rsReport (reconcileLocked D ns a)))) = mset (map rcID (proven_containers D cs))
     \<and> sorted (map enContainerID (rpEntries (rsReport (reconcileLocked D ns a))))
     \<and> list_all (\<lambda>e. enRemoved e = (a \<and> \<not> enActive e)) (rpEntries (rsReport (reconcileLocked D ns a)))
     \<and> RemovedCount (rsReport (reconcileLocked D ns a)) = (if a then OrphanCount (rsReport (reconcileLocked D ns a)) else 0)"
proof -
  from assms reconcile_cases [of D ns a] obtain cs ids items leases where k: "all_proven D cs ids items leases"
    and r: "reconcileLocked D ns a = reconcile_act D a \<lparr>rpNamespace = ns, rpApplied = a, rpEntries = [], rpLeases = []\<rparr> items leases"
    by auto
  let ?items = "sort_key (rcID \<circ> clContainer) items"
  let ?es = "rpEntries (rsReport (reconcileLocked D ns a))"
  have e: "?es = map (\<lambda>item. container_entry item (a \<and> \<not> clActive item)) ?items"
    using reconcile_act_calls(3) [OF k] assms unfolding r by blast
  have ids: "map enContainerID ?es = map (rcID \<circ> clContainer) ?items" by (simp add: e container_entry_def)
  have "mset (map (rcID \<circ> clContainer) ?items) = mset (map rcID (map clContainer items))" by simp
  then have m: "mset (map enContainerID ?es) = mset (map rcID (proven_containers D cs))"
    using k unfolding ids all_proven_def by simp
  have f: "list_all (\<lambda>e. enRemoved e = (a \<and> \<not> enActive e)) ?es" by (simp add: e list_all_iff container_entry_def)
  have q: "filter enRemoved es = filter (\<lambda>e. a \<and> \<not> enActive e) es" if "list_all (\<lambda>e. enRemoved e = (a \<and> \<not> enActive e)) es" for es
    using that by (auto simp: list_all_iff intro: filter_cong)
  have "length (filter enRemoved ?es) = (if a then length ?es - length (filter enActive ?es) else 0)"
    unfolding q [OF f] using sum_length_filter_compl [of enActive ?es] by (cases a) simp_all
  then have "RemovedCount (rsReport (reconcileLocked D ns a)) = (if a then OrphanCount (rsReport (reconcileLocked D ns a)) else 0)"
    by (simp only: RemovedCount_def OrphanCount_def ActiveCount_def)
  moreover have "sorted (map enContainerID ?es)" unfolding ids by simp
  ultimately show ?thesis using m f k unfolding all_proven_def by blast
qed

end
