(* ===== verification/Wsl_Lease_Protocol.thy ===== *)
theory Wsl_Lease_Protocol
  imports Main
begin

text \<open>
  The lease protocol of concurrent runs in one namespace (\<open>internal/wslreconcile/reconcile.go\<close>,
  \<open>lease_linux.go\<close>): processes that share the lock of the state directory (the coordinator), one
  lease file per run and the retained containers. A step is what one process does between two
  points where another may act; a process may die at any point, and the kernel then drops its locks.
  The invariant \<open>safe\<close> gives that no reconciliation ever removes the container of a live run.
\<close>

text \<open>A process: idle, in a pass with the orphans it has claimed, between the creation and the
  adoption, running, with its container removed, or dead.\<close>

datatype run_phase = Idle | Locked "string list" | Created string | Running string | Gone string | Dead

text \<open>A lease: \<open>None\<close> no file, \<open>Some None\<close> an unlocked file, \<open>Some (Some p)\<close> one locked by \<open>p\<close>.\<close>

record world =
  wCoordinator :: "nat option"
  wPhase :: "nat \<Rightarrow> run_phase"
  wContainers :: "string set"
  wLeases :: "string \<Rightarrow> nat option option"
  wUsed :: "string set"

definition enter :: "nat \<Rightarrow> run_phase \<Rightarrow> world \<Rightarrow> world" where
  "enter p ph w = w\<lparr>wPhase := (wPhase w)(p := ph)\<rparr>"

definition set_lease :: "string \<Rightarrow> nat option option \<Rightarrow> world \<Rightarrow> world" where
  "set_lease r l w = w\<lparr>wLeases := (wLeases w)(r := l)\<rparr>"

definition unlock :: "nat \<Rightarrow> world \<Rightarrow> world" where
  "unlock p w = w\<lparr>wLeases := (\<lambda>r. if wLeases w r = Some (Some p) then Some None else wLeases w r)\<rparr>"

definition release :: "nat \<Rightarrow> world \<Rightarrow> world" where
  "release p w = w\<lparr>wCoordinator := if wCoordinator w = Some p then None else wCoordinator w\<rparr>"

inductive lease_step :: "world \<Rightarrow> world \<Rightarrow> bool" where
  acquire: "wPhase w p = Idle \<Longrightarrow> wCoordinator w = None \<Longrightarrow>
    lease_step w (enter p (Locked []) (w\<lparr>wCoordinator := Some p\<rparr>))"
| claim: "wPhase w p = Locked rs \<Longrightarrow> wLeases w r = None \<or> wLeases w r = Some None \<Longrightarrow>
    lease_step w (enter p (Locked (r # rs)) (set_lease r (map_option (\<lambda>_. Some p) (wLeases w r)) w))"
| reap: "wPhase w p = Locked rs \<Longrightarrow> r \<in> set rs \<Longrightarrow>
    lease_step w (enter p (Locked (removeAll r rs)) (set_lease r None (w\<lparr>wContainers := wContainers w - {r}\<rparr>)))"
| leave: "wPhase w p = Locked rs \<Longrightarrow> lease_step w (enter p Idle (release p (unlock p w)))"
| create: "wPhase w p = Locked rs \<Longrightarrow> r \<notin> wUsed w \<Longrightarrow>
    lease_step w (enter p (Created r) (unlock p (w\<lparr>wContainers := insert r (wContainers w), wUsed := insert r (wUsed w)\<rparr>)))"
| adopt: "wPhase w p = Created r \<Longrightarrow> lease_step w (enter p (Running r) (release p (set_lease r (Some (Some p)) w)))"
| adopt_failed: "wPhase w p = Created r \<Longrightarrow>
    lease_step w (enter p Idle (release p (w\<lparr>wContainers := wContainers w - {r}\<rparr>)))"
| adopt_failed_kept: "wPhase w p = Created r \<Longrightarrow> lease_step w (enter p Idle (release p w))"
| remove_own: "wPhase w p = Running r \<Longrightarrow> lease_step w (enter p (Gone r) (w\<lparr>wContainers := wContainers w - {r}\<rparr>))"
| close_gone: "wPhase w p = Gone r \<Longrightarrow> wCoordinator w = None \<Longrightarrow> lease_step w (enter p Idle (set_lease r None w))"
| close_kept: "wPhase w p = Running r \<or> wPhase w p = Gone r \<Longrightarrow> lease_step w (enter p Idle (set_lease r (Some None) w))"
| die: "lease_step w (enter p Dead (release p (unlock p w)))"

inductive_cases lease_step_cases: "lease_step w w'"

definition fresh_world :: world where
  "fresh_world = \<lparr>wCoordinator = None, wPhase = (\<lambda>_. Idle), wContainers = {}, wLeases = (\<lambda>_. None), wUsed = {}\<rparr>"

inductive lease_reach :: "world \<Rightarrow> world \<Rightarrow> bool" where
  start: "lease_reach w w"
| more: "lease_reach w w1 \<Longrightarrow> lease_step w1 w2 \<Longrightarrow> lease_reach w w2"

section \<open>The invariant\<close>

text \<open>The run a live process owns.\<close>

fun owns :: "run_phase \<Rightarrow> string \<Rightarrow> bool" where
  "owns (Created r) x = (r = x)"
| "owns (Running r) x = (r = x)"
| "owns (Gone r) x = (r = x)"
| "owns _ x = False"

fun leased :: "run_phase \<Rightarrow> string \<Rightarrow> bool" where
  "leased (Running r) x = (r = x)"
| "leased (Gone r) x = (r = x)"
| "leased _ x = False"

fun claims :: "run_phase \<Rightarrow> string list" where
  "claims (Locked rs) = rs"
| "claims _ = []"

fun in_pass :: "run_phase \<Rightarrow> bool" where
  "in_pass (Locked rs) = True"
| "in_pass (Created r) = True"
| "in_pass _ = False"

fun has_container :: "run_phase \<Rightarrow> string \<Rightarrow> bool" where
  "has_container (Created r) x = (r = x)"
| "has_container (Running r) x = (r = x)"
| "has_container _ x = False"

definition safe :: "world \<Rightarrow> bool" where
  "safe w = ((\<forall>p. in_pass (wPhase w p) \<longrightarrow> wCoordinator w = Some p)
     \<and> (\<forall>p r. leased (wPhase w p) r \<longrightarrow> wLeases w r = Some (Some p))
     \<and> (\<forall>p r. has_container (wPhase w p) r \<longrightarrow> r \<in> wContainers w)
     \<and> (\<forall>p r. owns (wPhase w p) r \<longrightarrow> r \<in> wUsed w)
     \<and> (\<forall>p q r. owns (wPhase w p) r \<longrightarrow> owns (wPhase w q) r \<longrightarrow> p = q)
     \<and> (\<forall>p q r. r \<in> set (claims (wPhase w p)) \<longrightarrow> \<not> owns (wPhase w q) r))"

lemmas world_simps = enter_def set_lease_def unlock_def release_def

lemma safeD:
  assumes "safe w"
  shows "in_pass (wPhase w p) \<Longrightarrow> wCoordinator w = Some p"
    "leased (wPhase w p) r \<Longrightarrow> wLeases w r = Some (Some p)"
    "has_container (wPhase w p) r \<Longrightarrow> r \<in> wContainers w"
    "owns (wPhase w p) r \<Longrightarrow> r \<in> wUsed w"
    "owns (wPhase w p) r \<Longrightarrow> owns (wPhase w q) r \<Longrightarrow> p = q"
    "r \<in> set (claims (wPhase w p)) \<Longrightarrow> \<not> owns (wPhase w q) r"
  using assms unfolding safe_def by blast+

lemma leased_owns: "leased ph r \<Longrightarrow> owns ph r"
  by (cases ph) auto

lemma has_container_owns: "has_container ph r \<Longrightarrow> owns ph r"
  by (cases ph) auto

lemma not_owns: "\<not> owns ph r \<Longrightarrow> \<not> leased ph r \<and> \<not> has_container ph r"
  by (cases ph) auto

lemma owns_cases: "owns ph r \<Longrightarrow> leased ph r \<or> (in_pass ph \<and> ph = Created r)"
  by (cases ph) auto

lemma claims_in_pass: "r \<in> set (claims ph) \<Longrightarrow> in_pass ph"
  by (cases ph) auto

text \<open>The general step: process \<open>p\<close> goes to a phase \<open>ph\<close>, and the rest of the world changes only
  where no other process depends on it.\<close>

lemma safe_enter:
  assumes "safe w"
    and "\<And>q. q \<noteq> p \<Longrightarrow> in_pass (wPhase w q) \<Longrightarrow> wCoordinator w' = wCoordinator w"
    and "\<And>q r. q \<noteq> p \<Longrightarrow> leased (wPhase w q) r \<Longrightarrow> wLeases w' r = wLeases w r"
    and "\<And>q r. q \<noteq> p \<Longrightarrow> has_container (wPhase w q) r \<Longrightarrow> r \<in> wContainers w'"
    and "wUsed w \<subseteq> wUsed w'" "wPhase w' = wPhase w"
    and "in_pass ph \<Longrightarrow> wCoordinator w' = Some p"
    and "\<And>r. leased ph r \<Longrightarrow> wLeases w' r = Some (Some p)"
    and "\<And>r. has_container ph r \<Longrightarrow> r \<in> wContainers w'"
    and "\<And>r. owns ph r \<Longrightarrow> r \<in> wUsed w' \<and> (\<forall>q. q \<noteq> p \<longrightarrow> \<not> owns (wPhase w q) r)"
    and "\<And>q r. owns ph r \<Longrightarrow> q \<noteq> p \<Longrightarrow> r \<notin> set (claims (wPhase w q))"
    and "\<And>q r. r \<in> set (claims ph) \<Longrightarrow> q \<noteq> p \<Longrightarrow> \<not> owns (wPhase w q) r"
    and "\<And>r. r \<in> set (claims ph) \<Longrightarrow> \<not> owns ph r"
  shows "safe (enter p ph w')"
proof -
  note d = safeD [OF assms(1)]
  have ph: "wPhase (enter p ph w') q = (if q = p then ph else wPhase w q)" for q
    by (simp add: enter_def assms(6))
  have same: "wCoordinator (enter p ph w') = wCoordinator w'" "wLeases (enter p ph w') = wLeases w'"
    "wContainers (enter p ph w') = wContainers w'" "wUsed (enter p ph w') = wUsed w'" by (simp_all add: enter_def)
  show ?thesis unfolding safe_def ph same
  proof (intro conjI allI impI)
    fix q assume "in_pass (if q = p then ph else wPhase w q)"
    then show "wCoordinator w' = Some q" using assms(2,7) d(1) by (cases "q = p") auto
  next
    fix q r assume "leased (if q = p then ph else wPhase w q) r"
    then show "wLeases w' r = Some (Some q)" using assms(3,8) d(2) by (cases "q = p") auto
  next
    fix q r assume "has_container (if q = p then ph else wPhase w q) r"
    then show "r \<in> wContainers w'" using assms(4,9) by (cases "q = p") auto
  next
    fix q r assume "owns (if q = p then ph else wPhase w q) r"
    then show "r \<in> wUsed w'" using assms(5,10) d(4) by (cases "q = p") auto
  next
    fix q1 q2 r assume "owns (if q1 = p then ph else wPhase w q1) r" "owns (if q2 = p then ph else wPhase w q2) r"
    then show "q1 = q2" using assms(10) [of r] d(5) [of q1 r q2] by (cases "q1 = p"; cases "q2 = p") simp_all
  next
    fix q1 q2 r assume c: "r \<in> set (claims (if q1 = p then ph else wPhase w q1))"
    show "\<not> owns (if q2 = p then ph else wPhase w q2) r"
    proof (cases "q1 = p")
      case True
      then show ?thesis using c assms(12) [of r q2] assms(13) [of r] by (cases "q2 = p") simp_all
    next
      case False
      then show ?thesis using c assms(11) [of r q1] d(6) [of r q1 q2] by (cases "q2 = p") auto
    qed
  qed
qed

lemma safe_step:
  assumes "lease_step w w'" "safe w"
  shows "safe w'"
  using assms
proof (cases rule: lease_step.cases)
  note d = safeD [OF assms(2)]
  note w = world_simps
  {
    case (acquire p)
    have n: "\<not> in_pass (wPhase w q)" for q using d(1) [of q] acquire(3) by auto
    show ?thesis unfolding acquire(1) by (rule safe_enter [OF assms(2)]) (use n d in auto)
  next
    case (claim p rs r)
    have c: "in_pass (wPhase w q) \<Longrightarrow> q = p" for q using d(1) [of q] d(1) [of p] claim(2) by simp
    have n: "\<not> owns (wPhase w q) r" for q
    proof
      assume "owns (wPhase w q) r"
      then consider "leased (wPhase w q) r" | "in_pass (wPhase w q)" "wPhase w q = Created r" using owns_cases by blast
      then show False using d(2) claim(2,3) c by cases force+
    qed
    then have "\<not> leased (wPhase w q) r" for q using leased_owns by blast
    note l = this
    show ?thesis unfolding claim(1)
      by (rule safe_enter [OF assms(2)]) (use n l d(6) [of _ p] d(1) [of p] d(3) claim(2) in \<open>auto simp: w\<close>)
  next
    case (reap p rs r)
    have n: "\<not> owns (wPhase w q) r" for q using d(6) [of r p q] reap(2,3) by simp
    note l = n [THEN not_owns]
    show ?thesis unfolding reap(1)
      by (rule safe_enter [OF assms(2)])
        (use n l d(6) [of _ p] d(1) [of p] d(3) reap(2) in \<open>auto simp: w\<close>)
  next
    case (leave p rs)
    have c: "in_pass (wPhase w q) \<Longrightarrow> q = p" for q using d(1) [of q] d(1) [of p] leave(2) by simp
    show ?thesis unfolding leave(1)
      by (rule safe_enter [OF assms(2)]) (use c d in \<open>auto simp: w\<close>)
  next
    case (create p rs r)
    have c: "in_pass (wPhase w q) \<Longrightarrow> q = p" for q using d(1) [of q] d(1) [of p] create(2) by simp
    have n: "\<not> owns (wPhase w q) r" for q using d(4) create(3) by blast
    have k: "q \<noteq> p \<Longrightarrow> claims (wPhase w q) = []" for q using c [of q] by (cases "wPhase w q") auto
    show ?thesis unfolding create(1)
      by (rule safe_enter [OF assms(2)]) (use c n k d d(1) [of p] create(2) in \<open>auto simp: w\<close>)
  next
    case (adopt p r)
    have c: "in_pass (wPhase w q) \<Longrightarrow> q = p" for q using d(1) [of q] d(1) [of p] adopt(2) by simp
    have o: "owns (wPhase w p) r" using adopt(2) by simp
    have u: "owns (wPhase w q) r \<Longrightarrow> q = p" for q using d(5) [OF _ o] by blast
    have k: "q \<noteq> p \<Longrightarrow> claims (wPhase w q) = []" for q using c [of q] by (cases "wPhase w q") auto
    have l: "leased (wPhase w q) r \<or> has_container (wPhase w q) r \<Longrightarrow> q = p" for q using u not_owns by blast
    show ?thesis unfolding adopt(1)
      by (rule safe_enter [OF assms(2)])
        (use c k u l d(4) [OF o] d(3) [of p r] d(3) adopt(2) in \<open>auto simp: w\<close>)
  next
    case (adopt_failed p r)
    have c: "in_pass (wPhase w q) \<Longrightarrow> q = p" for q using d(1) [of q] d(1) [of p] adopt_failed(2) by simp
    have o: "owns (wPhase w p) r" using adopt_failed(2) by simp
    have u: "owns (wPhase w q) r \<Longrightarrow> q = p" for q using d(5) [OF _ o] by blast
    have l: "leased (wPhase w q) r \<or> has_container (wPhase w q) r \<Longrightarrow> q = p" for q using u not_owns by blast
    show ?thesis unfolding adopt_failed(1)
      by (rule safe_enter [OF assms(2)]) (use c u l d(3) in \<open>auto simp: w\<close>)
  next
    case (adopt_failed_kept p r)
    have c: "in_pass (wPhase w q) \<Longrightarrow> q = p" for q using d(1) [of q] d(1) [of p] adopt_failed_kept(2) by simp
    have o: "owns (wPhase w p) r" using adopt_failed_kept(2) by simp
    have u: "owns (wPhase w q) r \<Longrightarrow> q = p" for q using d(5) [OF _ o] by blast
    have l: "leased (wPhase w q) r \<or> has_container (wPhase w q) r \<Longrightarrow> q = p" for q using u not_owns by blast
    show ?thesis unfolding adopt_failed_kept(1)
      by (rule safe_enter [OF assms(2)]) (use c u l d(3) in \<open>auto simp: w\<close>)
  next
    case (remove_own p r)
    have o: "owns (wPhase w p) r" using remove_own(2) by simp
    have u: "owns (wPhase w q) r \<Longrightarrow> q = p" for q using d(5) [OF _ o] by blast
    have l: "leased (wPhase w q) r \<or> has_container (wPhase w q) r \<Longrightarrow> q = p" for q using u not_owns by blast
    show ?thesis unfolding remove_own(1)
      by (rule safe_enter [OF assms(2)])
        (use u l d(3) d(2) [of p r] d(4) [OF o] d(6) [of r _ p] remove_own(2) in \<open>auto simp: w\<close>)
  next
    case (close_gone p r)
    have o: "owns (wPhase w p) r" using close_gone(2) by simp
    have u: "owns (wPhase w q) r \<Longrightarrow> q = p" for q using d(5) [OF _ o] by blast
    have l: "leased (wPhase w q) r \<or> has_container (wPhase w q) r \<Longrightarrow> q = p" for q using u not_owns by blast
    show ?thesis unfolding close_gone(1)
      by (rule safe_enter [OF assms(2)]) (use u l d(3) in \<open>auto simp: w\<close>)
  next
    case (close_kept p r)
    have o: "owns (wPhase w p) r" using close_kept(2) by auto
    have u: "owns (wPhase w q) r \<Longrightarrow> q = p" for q using d(5) [OF _ o] by blast
    have l: "leased (wPhase w q) r \<or> has_container (wPhase w q) r \<Longrightarrow> q = p" for q using u not_owns by blast
    show ?thesis unfolding close_kept(1)
      by (rule safe_enter [OF assms(2)]) (use u l d(3) in \<open>auto simp: w\<close>)
  next
    case (die p)
    show ?thesis unfolding die(1)
      by (rule safe_enter [OF assms(2)]) (use d(1-3) in \<open>auto simp: w\<close>)
  }
qed

lemma safe_start: "safe fresh_world"
  by (simp add: safe_def fresh_world_def)

lemma safe_reach: "lease_reach w w' \<Longrightarrow> safe w \<Longrightarrow> safe w'"
  by (induction rule: lease_reach.induct) (auto dest: safe_step)

text \<open>The container of a live run is never removed by another process.\<close>

lemma live_run_has_container:
  assumes "lease_reach fresh_world w" "wPhase w p = Running r"
  shows "r \<in> wContainers w"
  using safeD(3) [OF safe_reach [OF assms(1) safe_start], of p r] assms(2) by simp

text \<open>An orphan can always be reaped by an idle process once the coordinator is free.\<close>

lemma orphan_reaped:
  assumes "wPhase w p = Idle" "wCoordinator w = None" "wLeases w r = None \<or> wLeases w r = Some None"
  shows "\<exists>w'. lease_reach w w' \<and> r \<notin> wContainers w' \<and> wLeases w' r = None \<and> wPhase w' p = Idle \<and> wCoordinator w' = None
     \<and> wContainers w' = wContainers w - {r}"
proof -
  let ?w1 = "enter p (Locked []) (w\<lparr>wCoordinator := Some p\<rparr>)"
  let ?w2 = "enter p (Locked [r]) (set_lease r (map_option (\<lambda>_. Some p) (wLeases ?w1 r)) ?w1)"
  let ?w3 = "enter p (Locked (removeAll r [r])) (set_lease r None (?w2\<lparr>wContainers := wContainers ?w2 - {r}\<rparr>))"
  let ?w4 = "enter p Idle (release p (unlock p ?w3))"
  have "lease_step w ?w1" by (rule acquire [OF assms(1,2)])
  moreover have "lease_step ?w1 ?w2" by (rule claim) (use assms(3) in \<open>auto simp: world_simps\<close>)
  moreover have "lease_step ?w2 ?w3" by (rule reap) (auto simp: world_simps)
  moreover have "lease_step ?w3 ?w4" by (rule leave) (auto simp: world_simps)
  ultimately have "lease_reach w ?w4" by (meson lease_reach.intros)
  then show ?thesis by (intro exI [of _ ?w4]) (simp add: world_simps)
qed

end
