(* ===== verification/Wsl_Command_Properties.thy ===== *)
theory Wsl_Command_Properties
  imports Wsl_Frontend Wsl_Reconcile_Facts Wsl_Lease_Protocol Wsl_Demo
begin

text \<open>The properties of the commands of the native WSL2 frontend: the start of a tool through its
  shim, the shims, the reconciliation of retained containers and the leases of concurrent runs.\<close>

section \<open>The start of a tool\<close>





definition demo_shims :: shim_host where
  "demo_shims = \<lparr>shRuntime = Some \<lparr>rtKind = WSL2Native, rtGOOS = ''linux'', rtGOARCH = ''amd64'', rtKernelRelease = [],
       rtDistro = ''Ubuntu'', rtMarkers = []\<rparr>, shUID = 1000,
     shLstat = (\<lambda>p. if p = ''/home/u/.local/bin'' then Got \<lparr>siMode = 0x800001ED, siExact = 0x1ED, siUID = 1000\<rparr>
       else if p = ''/home/u/.local/lib/container-bin/cb'' then Got \<lparr>siMode = 0x1ED, siExact = 0x1ED, siUID = 1000\<rparr>
       else if p \<in> {''/home/u/.local/bin/cb'', ''/home/u/.local/bin/jq''} then Got \<lparr>siMode = 0x080001FF, siExact = 0x1FF, siUID = 1000\<rparr>
       else io.Absent),
     shReadlink = (\<lambda>p. Some ''../lib/container-bin/cb'')\<rparr>"








section \<open>Reconciliation of retained containers\<close>

definition demo_reconcile :: reconcile_deps where
  "demo_reconcile = \<lparr>rdDiscover = Some [\<lparr>ccID = ''c1'', ccRunID = ''r1'', ccNamespace = ''n'', ccTool = ''jq''\<rparr>],
     rdLeases = Some [], rdProve = (\<lambda>c. Some (Some \<lparr>rcID = ''c1'', rcRunID = ''r1'', rcTool = ''jq'', rcRunning = True\<rparr>)),
     rdProbe = (\<lambda>_. Some (Lease_Missing, False)), rdSignal = (\<lambda>_. Call_Ok), rdWait = (\<lambda>_. Call_Ok), rdRemove = (\<lambda>_. True),
     rdRemoveLease = (\<lambda>_. True), rdCloseLease = (\<lambda>_. True)\<rparr>"

text \<open>C19: a pass of the reconciliation changes nothing unless it was asked to apply its result, and unless every
  discovered container was proved to belong to this namespace; then it stops and removes only proven containers
  whose run has no lease or an orphaned lease that this pass has locked, and deletes only orphaned leases.\<close>

theorem only_orphans_reaped:
  assumes "call \<in> set (rsCalls (reconcileLocked D ns a))"
  shows "a \<and> (\<exists>cs. rdDiscover D = Some cs \<and> list_all (\<lambda>c. rdProve D c \<noteq> None) cs \<and> orphan_call D (proven_containers D cs) call)"
  by (rule reconcile_only_orphans [OF assms])

theorem only_orphans_reaped_witness:
  "\<exists>cs. rdDiscover demo_reconcile = Some cs \<and> orphan_call demo_reconcile (proven_containers demo_reconcile cs) (Remove_Orphan ''c1'')"
proof -
  have "Remove_Orphan ''c1'' \<in> set (rsCalls (reconcileLocked demo_reconcile ''n'' True))" by code_simp
  from only_orphans_reaped [OF this] show ?thesis by blast
qed

text \<open>A reconciliation that reports no error accounts for every proven container exactly once, in the order of
  the container identifiers; it reports as removed exactly the inactive ones when it applied its result and none
  otherwise, so that the number removed is the number of orphans.\<close>

theorem reconciliation_accounts_for_all:
  assumes "rsErrors (reconcileLocked D ns a) = []"
  shows "\<exists>cs. rdDiscover D = Some cs
     \<and> mset (map enContainerID (rpEntries (rsReport (reconcileLocked D ns a)))) = mset (map rcID (proven_containers D cs))
     \<and> sorted (map enContainerID (rpEntries (rsReport (reconcileLocked D ns a))))
     \<and> list_all (\<lambda>e. enRemoved e = (a \<and> \<not> enActive e)) (rpEntries (rsReport (reconcileLocked D ns a)))
     \<and> RemovedCount (rsReport (reconcileLocked D ns a)) = (if a then OrphanCount (rsReport (reconcileLocked D ns a)) else 0)"
  by (rule reconcile_accounts [OF assms])

theorem reconciliation_accounts_for_all_witness:
  "RemovedCount (rsReport (reconcileLocked demo_reconcile ''n'' True)) = OrphanCount (rsReport (reconcileLocked demo_reconcile ''n'' True))"
proof -
  have "rsErrors (reconcileLocked demo_reconcile ''n'' True) = []" by code_simp
  from reconciliation_accounts_for_all [OF this] show ?thesis by auto
qed

section \<open>Leases of concurrent runs\<close>

text \<open>C18: however the processes of one namespace interleave and whenever one of them dies, the container of a run
  that is still alive exists: no reconciliation of another process removes it.\<close>

theorem live_container_kept:
  assumes "lease_reach fresh_world w" "wPhase w p = Running r"
  shows "r \<in> wContainers w"
  by (rule live_run_has_container [OF assms])

definition demo_world :: "nat \<Rightarrow> world" where
  "demo_world n = foldl (\<lambda>w f. f w) fresh_world (take n
     [\<lambda>w. enter 0 (Locked []) (w\<lparr>wCoordinator := Some 0\<rparr>),
      \<lambda>w. enter 0 (Created ''r'') (unlock 0 (w\<lparr>wContainers := insert ''r'' (wContainers w), wUsed := insert ''r'' (wUsed w)\<rparr>)),
      \<lambda>w. enter 0 (Running ''r'') (release 0 (set_lease ''r'' (Some (Some 0)) w))])"

lemma demo_world_reach: "lease_reach fresh_world (demo_world 3)" "wPhase (demo_world 3) 0 = Running ''r''"
proof -
  have e: "demo_world 3 = enter 0 (Running ''r'') (release 0 (set_lease ''r'' (Some (Some 0)) (demo_world 2)))"
    "demo_world 2 = enter 0 (Created ''r'') (unlock 0 (demo_world 1\<lparr>wContainers := insert ''r'' (wContainers (demo_world 1)),
       wUsed := insert ''r'' (wUsed (demo_world 1))\<rparr>))"
    "demo_world 1 = enter 0 (Locked []) (fresh_world\<lparr>wCoordinator := Some 0\<rparr>)" by (simp_all add: demo_world_def numeral_eq_Suc)
  have "lease_step fresh_world (demo_world 1)" unfolding e(3) by (rule acquire) (simp_all add: fresh_world_def)
  moreover have "lease_step (demo_world 1) (demo_world 2)" unfolding e(2)
    by (rule create [of _ _ "[]"]) (simp_all only: e(3), simp_all add: world_simps fresh_world_def)
  moreover have "lease_step (demo_world 2) (demo_world 3)" unfolding e(1) by (rule adopt) (simp only: e(2), simp add: world_simps)
  ultimately show "lease_reach fresh_world (demo_world 3)" by (meson lease_reach.intros)
  show "wPhase (demo_world 3) 0 = Running ''r''" by (simp add: e(1) world_simps)
qed

theorem live_container_kept_witness: "''r'' \<in> wContainers (demo_world 3)"
  by (rule live_container_kept [OF demo_world_reach])

text \<open>The container of a run that has died can always be reaped: as soon as the coordinator is free, an idle
  process can remove it and its lease, leaving every other container alone.\<close>

theorem orphan_can_be_reaped:
  assumes "wPhase w p = Idle" "wCoordinator w = None" "wLeases w r = None \<or> wLeases w r = Some None"
  shows "\<exists>w'. lease_reach w w' \<and> r \<notin> wContainers w' \<and> wLeases w' r = None \<and> wPhase w' p = Idle \<and> wCoordinator w' = None
     \<and> wContainers w' = wContainers w - {r}"
  by (rule orphan_reaped [OF assms])

theorem orphan_can_be_reaped_witness:
  "\<exists>w'. lease_reach (enter 0 Dead (release 0 (unlock 0 (demo_world 3)))) w' \<and> ''r'' \<notin> wContainers w' \<and> wLeases w' ''r'' = None"
proof -
  have "wPhase (enter 0 Dead (release 0 (unlock 0 (demo_world 3)))) 1 = Idle"
    "wCoordinator (enter 0 Dead (release 0 (unlock 0 (demo_world 3)))) = None"
    "wLeases (enter 0 Dead (release 0 (unlock 0 (demo_world 3)))) ''r'' = Some None"
    by (simp_all add: demo_world_def numeral_eq_Suc world_simps fresh_world_def)
  from orphan_can_be_reaped [OF this(1,2)] this(3) show ?thesis by blast
qed

section \<open>Shims\<close>

definition demo_install :: installer where
  "demo_install s h = Some (h\<lparr>shLstat := (shLstat h)(smPath s := Got \<lparr>siMode = 0x080001FF, siExact = 0x1FF, siUID = 1000\<rparr>)\<rparr>)"

text \<open>When the reconciliation of the shims succeeds, whatever the installation did, there is exactly one shim
  for each requested name, each is now a link of the user to the managed binary, and so is the management shim;
  and the host was changed only when a shim was absent before.\<close>

theorem shims_ready_after_reconcile:
  assumes "reconcileShims install opened closed layout names h = Inr (out, h')"
  shows "map smName out = sort names \<and> distinct names
    \<and> list_all (\<lambda>s. smState s = shim_state.Ready \<and> linked layout h' (path_join [wlShimDir layout, smName s])) out
    \<and> linked layout h' (wlManagementShim layout)
    \<and> (h' = h \<or> (\<exists>s before. inspectShims layout names h = Inr before \<and> s \<in> set before \<and> shLstat h (smPath s) = io.Absent))"
  using reconcile_shims_ready [OF assms] by blast

theorem shims_ready_after_reconcile_witness:
  "\<exists>out h'. reconcileShims demo_install True True demo_layout [''yq'', ''jq''] demo_shims = Inr (out, h')
     \<and> linked demo_layout h' (wlManagementShim demo_layout) \<and> map smName out = [''jq'', ''yq'']"
proof -
  have "map_sum (\<lambda>_. ()) fst (reconcileShims demo_install True True demo_layout [''yq'', ''jq''] demo_shims) =
    Inr (map (\<lambda>n. \<lparr>smName = n, smPath = ''/home/u/.local/bin/'' @ n, smTarget = ''/home/u/.local/lib/container-bin/cb'',
      smState = shim_state.Ready\<rparr>) [''jq'', ''yq''])" by code_simp
  then obtain out h' where r: "reconcileShims demo_install True True demo_layout [''yq'', ''jq''] demo_shims = Inr (out, h')"
    by (cases "reconcileShims demo_install True True demo_layout [''yq'', ''jq''] demo_shims") auto
  have "sort [''yq'', ''jq''] = [''jq'', ''yq'']" by code_simp
  with r shims_ready_after_reconcile [OF r] show ?thesis by auto
qed

end
