(* ===== verification/Host_Paths.thy ===== *)
theory Host_Paths
  imports Go_Path
begin

text \<open>
  Package \<open>path/filepath\<close>: its rules depend on the operating system the program is built for, so
  the packages that use it take them as a record. \<open>unix_paths\<close> are the rules of the Unix builds, over
  package \<open>path\<close>; \<open>path_rel\<close> is \<open>filepath.Rel\<close> of these builds. The locale \<open>path_boundary\<close> states
  what the program relies on: \<open>filepath.Rel\<close>, joined to its base, is the target, and \<open>filepath.Dir\<close> of a
  rooted path is rooted and shorter until it stays. Both are documented; the interpretation proves
  them for the Unix rules.
\<close>

record host_paths =
  hpClean :: "string \<Rightarrow> string"
  hpDir :: "string \<Rightarrow> string"
  hpBase :: "string \<Rightarrow> string"
  hpIsAbs :: "string \<Rightarrow> bool"
  hpRel :: "string \<Rightarrow> string \<Rightarrow> string option"
  hpJoin :: "string \<Rightarrow> string \<Rightarrow> string"
  hpToSlash :: "string \<Rightarrow> string"
  hpSep :: char

definition components :: "string \<Rightarrow> string list" where
  "components p = filter (\<lambda>c. c \<noteq> [] \<and> c \<noteq> ''.'') (split_byte p CHR 0x2F)"

fun strip_common :: "string list \<Rightarrow> string list \<Rightarrow> string list \<times> string list" where
  "strip_common (x # xs) (y # ys) = (if x = y then strip_common xs ys else (x # xs, y # ys))"
| "strip_common xs ys = (xs, ys)"

definition path_rel :: "string \<Rightarrow> string \<Rightarrow> string option" where
  "path_rel base targ = (let b = path_clean base; t = path_clean targ in
     if b = t then Some ''.''
     else if path_is_abs b \<noteq> path_is_abs t then None
     else (case strip_common (components b) (components t) of
         (up, down) \<Rightarrow> if up \<noteq> [] \<and> hd up = ''..'' then None
           else Some (join ''/'' (replicate (length up) ''..'' @ down))))"

definition path_base :: "string \<Rightarrow> string" where
  "path_base p = (if p = [] then ''.'' else (case components p of [] \<Rightarrow> (if path_is_abs p then ''/'' else ''.'') | cs \<Rightarrow> last cs))"

definition unix_paths :: host_paths where
  "unix_paths = \<lparr>hpClean = path_clean, hpDir = path_dir, hpBase = path_base, hpIsAbs = path_is_abs, hpRel = path_rel,
     hpJoin = (\<lambda>a b. path_join [a, b]), hpToSlash = (\<lambda>p. p), hpSep = CHR 0x2F\<rparr>"

definition above :: "host_paths \<Rightarrow> string \<Rightarrow> bool" where
  "above H rel = (rel = ''..'' \<or> has_prefix rel (''..'' @ [hpSep H]) \<or> hpIsAbs H rel)"

section \<open>The documented laws\<close>

locale path_boundary =
  fixes H :: host_paths and rooted :: "string \<Rightarrow> bool"
  assumes rel_join: "rooted base \<Longrightarrow> rooted p \<Longrightarrow> hpRel H base p = Some rel \<Longrightarrow> hpJoin H base rel = p"
    and dir_rooted: "rooted p \<Longrightarrow> rooted (hpDir H p)"
    and dir_shorter: "rooted p \<Longrightarrow> hpDir H p \<noteq> p \<Longrightarrow> length (hpDir H p) < length p"
begin

text \<open>A walk towards the root, one directory at a time, ends; \<open>climb\<close> is any such walk.\<close>

lemma climb_returns:
  assumes "rooted p"
    and step: "\<And>q st. rooted q \<Longrightarrow> climb q st = None \<Longrightarrow> hpDir H q \<noteq> q \<and> (\<exists>st'. climb (hpDir H q) st' = None)"
  shows "climb p st \<noteq> None"
  using assms(1)
proof (induction "length p" arbitrary: p st rule: less_induct)
  case less
  show ?case
  proof
    assume "climb p st = None"
    from step [OF less.prems this] obtain st' where s: "hpDir H p \<noteq> p" "climb (hpDir H p) st' = None" by blast
    from less.hyps [OF dir_shorter [OF less.prems s(1)] dir_rooted [OF less.prems]] s(2) show False by blast
  qed
qed

end

section \<open>The Unix rules\<close>

definition unix_rooted :: "string \<Rightarrow> bool" where
  "unix_rooted p = (\<exists>cs. p = abs_path cs \<and> list_all proper cs)"

lemma components_abs_path: "list_all proper cs \<Longrightarrow> components (abs_path cs) = cs"
proof (cases "cs = []")
  case True
  then show ?thesis by (simp add: components_def abs_path_def)
next
  case False
  assume p: "list_all proper cs"
  then have "filter (\<lambda>c. c \<noteq> [] \<and> c \<noteq> ''.'') cs = cs" by (auto simp: list_all_iff proper_def filter_id_conv)
  then show ?thesis by (simp add: components_def split_abs_path [OF p False])
qed

lemma strip_common_spec: "strip_common xs ys = (us, ds) \<Longrightarrow> \<exists>cs. xs = cs @ us \<and> ys = cs @ ds"
proof (induction xs ys arbitrary: us ds rule: strip_common.induct)
  case (1 x xs y ys)
  show ?case
  proof (cases "x = y")
    case True
    then obtain cs where "xs = cs @ us" "ys = cs @ ds" using 1 by auto
    then have "x # xs = (x # cs) @ us" "y # ys = (x # cs) @ ds" using True by simp_all
    then show ?thesis by blast
  next
    case False
    then show ?thesis using 1(2) by auto
  qed
qed auto

lemma clean_up:
  "list_all proper us \<Longrightarrow> fold (clean_step True) (replicate (length us) ''..'') (us @ st) = st"
proof (induction us)
  case (Cons u us)
  then have "clean_step True ''..'' ((u # us) @ st) = us @ st" by (simp add: clean_step_def proper_def)
  then show ?case using Cons by simp
qed simp

lemma join_head: "c \<noteq> [] \<Longrightarrow> join sep (c # cs) \<noteq> []"
  by (cases cs) auto

lemma join_up_down:
  assumes "list_all proper cs" "list_all proper us" "list_all proper ds" "us \<noteq> [] \<or> ds \<noteq> []"
  shows "path_join [abs_path (cs @ us), join ''/'' (replicate (length us) ''..'' @ ds)] = abs_path (cs @ ds)"
proof -
  let ?rest = "replicate (length us) ''..'' @ ds"
  have n: "?rest \<noteq> []" using assms(4) by auto
  have free: "\<forall>c \<in> set (cs @ us @ ?rest). CHR ''/'' \<notin> set c" 
  proof
    fix c assume "c \<in> set (cs @ us @ ?rest)"
    then have "c \<in> set cs \<union> set us \<union> set ds \<or> c = ''..''" by (auto simp: set_replicate_conv_if split: if_splits)
    then show "CHR ''/'' \<notin> set c" using assms(1-3) [THEN proper_free] by auto
  qed
  have "hd ?rest \<noteq> []" using assms(3,4) by (cases us; cases ds) (auto simp: proper_def)
  then have j: "join ''/'' ?rest \<noteq> []" using join_head [of "hd ?rest" "''/''" "tl ?rest"] n by (simp only: list.collapse not_False_eq_True simp_thms)
  have a: "abs_path (cs @ us) \<noteq> []" by (simp add: abs_path_def)
  have e: "path_join [abs_path (cs @ us), join ''/'' ?rest] = path_clean (abs_path (cs @ us) @ ''/'' @ join ''/'' ?rest)"
    using a j by (simp add: path_join_def)
  have s: "split_byte (abs_path (cs @ us) @ ''/'' @ join ''/'' ?rest) CHR ''/''
      = (if cs @ us = [] then [[], []] else [] # cs @ us) @ ?rest"
  proof (cases "cs @ us = []")
    case True
    then have "split_byte (join ''/'' ?rest) CHR ''/'' = ?rest" using split_join [OF n] free by simp
    then show ?thesis unfolding True if_True by (simp add: abs_path_def)
  next
    case False
    have "abs_path (cs @ us) @ ''/'' @ join ''/'' ?rest = CHR ''/'' # join ''/'' ((cs @ us) @ ?rest)"
      unfolding join_append [OF False n] by (simp add: abs_path_def)
    moreover have "split_byte (join ''/'' ((cs @ us) @ ?rest)) CHR ''/'' = (cs @ us) @ ?rest"
      by (rule split_join) (use free n in auto)
    ultimately show ?thesis using False by simp
  qed
  have blank: "clean_step True [] st = st" for st by (simp add: clean_step_def)
  have "fold (clean_step True) ((if cs @ us = [] then [[], []] else [] # cs @ us) @ ?rest) []
      = fold (clean_step True) ?rest (fold (clean_step True) (cs @ us) [])" by (simp add: blank)
  also have "\<dots> = fold (clean_step True) ds (fold (clean_step True) (replicate (length (rev us)) ''..'') (rev us @ rev cs))"
    using clean_proper [of "cs @ us" True "[]"] assms(1,2) by simp
  also have "\<dots> = rev (cs @ ds)"
    using clean_up [of "rev us" "rev cs"] clean_proper [OF assms(3), of True "rev cs"] assms(2) by simp
  finally have f: "fold (clean_step True) (split_byte (abs_path (cs @ us) @ ''/'' @ join ''/'' ?rest) CHR ''/'') [] = rev (cs @ ds)"
    unfolding s .
  show ?thesis unfolding e
    using f by (simp add: path_clean_def Let_def path_is_abs_def) (simp add: abs_path_def)
qed

lemma unix_rel_join:
  assumes "unix_rooted base" "unix_rooted p" "path_rel base p = Some rel"
  shows "path_join [base, rel] = p"
proof -
  from assms(1,2) obtain bs ps where b: "base = abs_path bs" "list_all proper bs" and p: "p = abs_path ps" "list_all proper ps"
    by (auto simp: unix_rooted_def)
  obtain us ds where s: "strip_common bs ps = (us, ds)" by fastforce
  from strip_common_spec [OF s] obtain cs where c: "bs = cs @ us" "ps = cs @ ds" by blast
  show ?thesis
  proof (cases "base = p")
    case True
    then have "rel = ''.''" using assms(3) by (simp add: path_rel_def)
    have "path_join [abs_path ps, ''.''] = abs_path ps"
    proof -
      have "split_byte (abs_path ps @ ''/.'') CHR ''/'' = (if ps = [] then [[], []] else [] # ps) @ [''.'']"
        using split_join [of "ps @ [''.'']" "CHR ''/''"] proper_free [OF p(2)] join_append [of ps "[''.'']" "''/''"]
        by (cases "ps = []") (simp_all add: abs_path_def)
      then have "fold (clean_step True) (split_byte (abs_path ps @ ''/.'') CHR ''/'') [] = rev ps"
        using clean_proper [OF p(2), of True "[]"] by (simp add: clean_step_def)
      then show ?thesis by (simp add: path_join_def path_clean_def Let_def path_is_abs_def) (simp add: abs_path_def)
    qed
    with True p show ?thesis using \<open>rel = ''.''\<close> by simp
  next
    case False
    then have d: "us \<noteq> [] \<or> ds \<noteq> []" using b(1) p(1) c by auto
    have "rel = join ''/'' (replicate (length us) ''..'' @ ds)"
      using assms(3) False b p s by (simp add: path_rel_def clean_abs_path components_abs_path Let_def split: if_splits)
    then show ?thesis using join_up_down [of cs us ds] b p c d by simp
  qed
qed

lemma unix_dir:
  assumes "unix_rooted p"
  shows "unix_rooted (path_dir p)" "path_dir p \<noteq> p \<Longrightarrow> length (path_dir p) < length p"
proof -
  from assms obtain cs where c: "p = abs_path cs" "list_all proper cs" by (auto simp: unix_rooted_def)
  have "unix_rooted (path_dir p) \<and> (path_dir p = p \<or> length (path_dir p) < length p)"
  proof (cases cs rule: rev_cases)
    case Nil
    have "path_dir (abs_path []) = abs_path []" by code_simp
    then show ?thesis using c Nil by (auto simp: unix_rooted_def)
  next
    case (snoc ds d)
    have e: "path_dir p = abs_path ds" using path_dir_abs c snoc by simp
    have "d \<noteq> []" using c(2) snoc by (simp add: proper_def)
    then have "length (abs_path ds) < length (abs_path (ds @ [d]))"
      by (cases "ds = []") (simp_all add: abs_path_append, simp add: abs_path_def)
    then show ?thesis using e c snoc by (auto simp: unix_rooted_def)
  qed
  then show "unix_rooted (path_dir p)" "path_dir p \<noteq> p \<Longrightarrow> length (path_dir p) < length p" by blast+
qed

interpretation unix: path_boundary unix_paths unix_rooted
  by unfold_locales (auto simp: unix_paths_def intro: unix_rel_join unix_dir)

end
