(* ===== verification/Win_Pathmap.thy ===== *)
theory Win_Pathmap
  imports Host_Paths Wsl_Pathmap Platform Go_Sha256
begin

text \<open>
  The mapping of tool arguments on a Windows host (\<open>internal/pathmap/pathmap.go\<close>): which arguments are
  host paths, how they are named in the container, where the project of a directory begins, and the
  names of its volumes. \<open>win_host\<close> is the host: the path rules, what \<open>os.Stat\<close> answers (whether the
  path is a directory), \<open>filepath.Abs\<close> and \<open>filepath.EvalSymlinks\<close>. The walks towards the root of a
  path are partial functions; \<open>Win_Pathmap_Facts\<close> shows that they return.
\<close>

record win_host =
  whGOOS :: string
  whUnicode :: unicode
  whPaths :: host_paths
  whStat :: "string \<Rightarrow> bool io"
  whAbs :: "string \<Rightarrow> string option"
  whEval :: "string \<Rightarrow> string option"

datatype win_error =
    Win_Canonical string
  | Win_Stat string
  | Win_Ancestor_File string
  | Win_No_Ancestor
  | Win_Rel
  | Win_Option_Argument string

abbreviation backslash :: char where "backslash \<equiv> CHR 0x5C"

section \<open>Arguments\<close>

fun normalize_windows :: "string list \<Rightarrow> string list \<Rightarrow> string list" where
  "normalize_windows opts [] = []"
| "normalize_windows opts [arg] = [arg]"
| "normalize_windows opts (arg # next # args) =
     (if arg = ''--'' then arg # next # args
      else if list_ex (\<lambda>opt. arg = opt @ ''='') opts then (arg @ next) # normalize_windows opts args
      else arg # normalize_windows opts (next # args))"

definition normalizeToolArgsForHost :: "string \<Rightarrow> tool \<Rightarrow> string list \<Rightarrow> string list" where
  "normalizeToolArgsForHost goos t args = (if goos \<noteq> ''windows'' then args else normalize_windows (tPathEquals t) args)"

definition CanonicalPath :: "win_host \<Rightarrow> string \<Rightarrow> string option" where
  "CanonicalPath h p = map_option (\<lambda>absolute.
     let resolved = (case whEval h absolute of Some r \<Rightarrow> r | None \<Rightarrow> absolute);
         cleaned = hpClean (whPaths h) resolved
     in if whGOOS h = ''windows'' then to_lower (whUnicode h) cleaned else cleaned) (whAbs h p)"

definition isExplicitWindowsRelPath :: "string \<Rightarrow> bool" where
  "isExplicitWindowsRelPath s = (has_prefix s [CHR ''.'', backslash] \<or> has_prefix s [CHR ''.'', CHR ''.'', backslash]
     \<or> has_prefix s ''./'' \<or> has_prefix s ''../'')"

definition hasPackagePattern :: "string \<Rightarrow> bool" where
  "hasPackagePattern s = (has_suffix s ''...'' \<and> (let prefix = take (length s - 3) s in
     prefix = [] \<or> has_suffix prefix ''/'' \<or> has_suffix prefix [backslash]))"

definition isWindowsAbsPath_arg :: "string \<Rightarrow> bool" where
  "isWindowsAbsPath_arg s = (3 \<le> length s \<and> (let c = (byte_of (s ! 0) :: nat) in
     ((65 \<le> c \<and> c \<le> 90) \<or> (97 \<le> c \<and> c \<le> 122)) \<and> s ! 1 = CHR '':'' \<and> (s ! 2 = backslash \<or> s ! 2 = CHR ''/'')))"

definition canonical_or :: "win_host \<Rightarrow> string \<Rightarrow> string \<Rightarrow> (win_error, string option) result" where
  "canonical_or h arg p = (case CanonicalPath h p of None \<Rightarrow> Inl (Win_Canonical arg) | Some c \<Rightarrow> Inr (Some c))"

definition resolveWindowsPathArgMode :: "win_host \<Rightarrow> string \<Rightarrow> string \<Rightarrow> bool \<Rightarrow> (win_error, string option) result" where
  "resolveWindowsPathArgMode h cwd arg force =
     (let joined = hpJoin (whPaths h) cwd arg in
      if hasPackagePattern arg then Inr None
      else if isWindowsAbsPath_arg arg then canonical_or h arg arg
      else if isExplicitWindowsRelPath arg \<or> (force \<and> \<not> has_prefix arg ''-'' \<and> arg \<noteq> []) then canonical_or h arg joined
      else if contains_byte arg backslash \<and> \<not> contains_any arg [CHR 0x0D, CHR 0x0A, CHR 0x09]
        \<and> (case whStat h joined of Got _ \<Rightarrow> True | _ \<Rightarrow> False)
      then canonical_or h arg joined
      else Inr None)"

definition pathWithin :: "win_host \<Rightarrow> string \<Rightarrow> string \<Rightarrow> string option" where
  "pathWithin h root p = (case hpRel (whPaths h) root p of
     None \<Rightarrow> None
   | Some rel \<Rightarrow> if above (whPaths h) rel then None else Some rel)"

partial_function (option) nearest_directory :: "win_host \<Rightarrow> string \<Rightarrow> (win_error, string) result option" where
  "nearest_directory h candidate = (case whStat h candidate of
     Got directory \<Rightarrow> Some (if directory then Inr candidate else Inl (Win_Ancestor_File candidate))
   | Failed \<Rightarrow> Some (Inl (Win_Stat candidate))
   | Absent \<Rightarrow>
     (if hpDir (whPaths h) candidate = candidate then Some (Inl Win_No_Ancestor)
      else nearest_directory h (hpDir (whPaths h) candidate)))"

declare nearest_directory.simps [code]

definition externalMountRoot :: "win_host \<Rightarrow> string \<Rightarrow> (win_error, string) result option" where
  "externalMountRoot h hostPath = (case whStat h hostPath of
     Got directory \<Rightarrow> Some (Inr (if directory then hostPath else hpDir (whPaths h) hostPath))
   | Failed \<Rightarrow> Some (Inl (Win_Stat hostPath))
   | Absent \<Rightarrow> nearest_directory h (hpDir (whPaths h) hostPath))"

record path_mapper =
  pmMounts :: "(string \<times> string) list"
  pmBySource :: "(string, string) gomap"

definition mount_key :: "win_host \<Rightarrow> string \<Rightarrow> string" where
  "mount_key h root = to_lower (whUnicode h) (hpClean (whPaths h) root)"

definition external_target :: "nat \<Rightarrow> string" where
  "external_target n = ''/cb/mounts/'' @ digits_of_nat n"

text \<open>The mount of an external directory: the one its source already has, or a new one.\<close>

definition mount_for :: "win_host \<Rightarrow> string \<Rightarrow> path_mapper \<Rightarrow> string \<times> path_mapper" where
  "mount_for h mountRoot pm = (case map_of (pmBySource pm) (mount_key h mountRoot) of
     Some target \<Rightarrow> (target, pm)
   | None \<Rightarrow>
     (let target = external_target (length (pmMounts pm)) in
      (target, pm\<lparr>pmMounts := pmMounts pm @ [(mountRoot, target)], pmBySource := mput (mount_key h mountRoot) target (pmBySource pm)\<rparr>)))"

definition below :: "win_host \<Rightarrow> string \<Rightarrow> string \<Rightarrow> string" where
  "below h base rel = (if rel = ''.'' then base else base @ ''/'' @ hpToSlash (whPaths h) rel)"

text \<open>\<open>mount_root\<close> is \<open>externalMountRoot\<close>.\<close>

definition mapWindowsArg ::
    "win_host \<Rightarrow> (string \<Rightarrow> (win_error, string) result) \<Rightarrow> string \<Rightarrow> string \<Rightarrow> string \<Rightarrow> string \<Rightarrow> bool \<Rightarrow> path_mapper
      \<Rightarrow> (win_error, string \<times> path_mapper) result" where
  "mapWindowsArg h mount_root root cwd workspaceRoot arg force pm =
     rbind (resolveWindowsPathArgMode h cwd arg force) (\<lambda>resolved. case resolved of
       None \<Rightarrow> Inr (arg, pm)
     | Some hostPath \<Rightarrow> (case pathWithin h root hostPath of
         Some rel \<Rightarrow> Inr (below h workspaceRoot rel, pm)
       | None \<Rightarrow> rbind (mount_root hostPath) (\<lambda>mountRoot.
           case mount_for h mountRoot pm of (target, pm') \<Rightarrow>
             (case hpRel (whPaths h) mountRoot hostPath of
                None \<Rightarrow> Inl Win_Rel
              | Some rel \<Rightarrow> Inr (below h target rel, pm')))))"

record win_map_state =
  wmForceNext :: bool
  wmForcedOptions :: bool
  wmMapped :: "string list"
  wmMapper :: path_mapper

type_synonym arg_mapper = "string \<Rightarrow> bool \<Rightarrow> path_mapper \<Rightarrow> (win_error, string \<times> path_mapper) result"

definition put_mapped :: "arg_mapper \<Rightarrow> string \<Rightarrow> string \<Rightarrow> bool \<Rightarrow> win_map_state \<Rightarrow> (win_error, win_map_state) result" where
  "put_mapped m pre arg force st = rbind (m arg force (wmMapper st)) (\<lambda>(v, pm).
     Inr (st\<lparr>wmMapped := wmMapped st @ [pre @ v], wmMapper := pm\<rparr>))"

definition windows_step :: "tool \<Rightarrow> arg_mapper \<Rightarrow> string list \<Rightarrow> nat \<times> string \<Rightarrow> win_map_state \<Rightarrow> (win_error, win_map_state) result" where
  "windows_step t m args entry st =
     (let arg = snd entry in
      if wmForceNext st then put_mapped m [] arg True (st\<lparr>wmForceNext := False\<rparr>)
      else if arg = ''--'' then Inr (st\<lparr>wmForcedOptions := False, wmMapped := wmMapped st @ [arg]\<rparr>)
      else if wmForcedOptions st \<and> arg \<in> set (tPathNext t) then Inr (st\<lparr>wmForceNext := True, wmMapped := wmMapped st @ [arg]\<rparr>)
      else (case (if wmForcedOptions st then equals_option t arg else None) of
          Some opt \<Rightarrow> put_mapped m (opt @ ''='') (trim_prefix arg (opt @ ''='')) True st
        | None \<Rightarrow> put_mapped m [] arg (wmForcedOptions st \<and> force_last t args (fst entry) arg) st))"

definition MapToolArgs ::
    "win_host \<Rightarrow> (string \<Rightarrow> (win_error, string) result) \<Rightarrow> tool \<Rightarrow> string \<Rightarrow> string \<Rightarrow> string \<Rightarrow> string list
      \<Rightarrow> (win_error, string list \<times> (string \<times> string) list) result" where
  "MapToolArgs h mount_root t root cwd workspaceRoot userArgs =
     (let normalized = normalizeToolArgsForHost (whGOOS h) t userArgs in
      if whGOOS h \<noteq> ''windows'' then Inr (normalized, [])
      else rbind (fold_result (windows_step t (mapWindowsArg h mount_root root cwd workspaceRoot) normalized) (enumerate 0 normalized)
          \<lparr>wmForceNext = False, wmForcedOptions = True, wmMapped = [], wmMapper = \<lparr>pmMounts = [], pmBySource = []\<rparr>\<rparr>) (\<lambda>st.
        if wmForceNext st then Inl (Win_Option_Argument (last normalized))
        else Inr (wmMapped st, pmMounts (wmMapper st))))"

section \<open>Projects\<close>

definition marker_found :: "win_host \<Rightarrow> string list \<Rightarrow> string \<Rightarrow> bool" where
  "marker_found h markers dir = list_ex (\<lambda>m. case whStat h (hpJoin (whPaths h) dir m) of Got _ \<Rightarrow> True | _ \<Rightarrow> False) markers"

partial_function (option) FindProjectRoot :: "win_host \<Rightarrow> string list \<Rightarrow> string \<Rightarrow> string option option" where
  "FindProjectRoot h markers dir =
     (if marker_found h markers dir then Some (Some dir)
      else if hpDir (whPaths h) dir = dir then Some None
      else FindProjectRoot h markers (hpDir (whPaths h) dir))"

declare FindProjectRoot.simps [code]

partial_function (option) find_outermost :: "win_host \<Rightarrow> string list \<Rightarrow> string \<Rightarrow> string \<Rightarrow> string option" where
  "find_outermost h markers dir outermost =
     (let outermost' = (if marker_found h markers dir then dir else outermost) in
      if hpDir (whPaths h) dir = dir then Some outermost'
      else find_outermost h markers (hpDir (whPaths h) dir) outermost')"

declare find_outermost.simps [code]

definition FindProjectRootForTool :: "win_host \<Rightarrow> string \<Rightarrow> tool \<Rightarrow> string option option" where
  "FindProjectRootForTool h start t =
     (if tTrustedProjectRoot t \<noteq> [] then
        (let root = hpClean (whPaths h) (tTrustedProjectRoot t) in
         Some (case hpRel (whPaths h) root start of
           None \<Rightarrow> None
         | Some rel \<Rightarrow> if above (whPaths h) rel then None else Some root))
      else if tProjectRootMode t \<noteq> ''outermost'' then FindProjectRoot h (ProjectMarkersFor t) start
      else map_option (\<lambda>outermost. if outermost = [] then None else Some outermost)
        (find_outermost h (ProjectMarkersFor t) start []))"

definition WorkspaceRootFor :: "win_host \<Rightarrow> tool \<Rightarrow> string \<Rightarrow> string" where
  "WorkspaceRootFor h t root =
     (if tProvider t \<noteq> ''stateful'' then ''/workspace''
      else
        (let base = hpBase (whPaths h) (hpClean (whPaths h) root);
             named = (if base = ''.'' \<or> base = [hpSep (whPaths h)] \<or> base = [] then ''project'' else base)
         in ''/workspace/'' @ replace_byte named CHR ''/'' ''_''))"

definition StatefulWorkspaceDestination :: "string \<Rightarrow> string \<Rightarrow> string" where
  "StatefulWorkspaceDestination dst workspaceRoot =
     (if dst = ''/workspace'' then workspaceRoot
      else if has_prefix dst ''/workspace/'' then workspaceRoot @ trim_prefix dst ''/workspace''
      else dst)"

definition VolumeHash :: "win_host \<Rightarrow> string \<Rightarrow> string" where
  "VolumeHash h root = take 12 (hex_encode (Sum256 (to_lower (whUnicode h) (hpClean (whPaths h) root))))"

definition StatefulProjectVolumeID :: "win_host \<Rightarrow> string \<Rightarrow> string \<Rightarrow> string \<Rightarrow> string" where
  "StatefulProjectVolumeID h grp name root = ''cb-'' @ grp @ ''-'' @ name @ ''-'' @ VolumeHash h root"

definition StatefulSharedVolumeID :: "string \<Rightarrow> string \<Rightarrow> string" where
  "StatefulSharedVolumeID grp name = ''cb-'' @ grp @ ''-'' @ name"

definition PythonEnvID :: "win_host \<Rightarrow> string \<Rightarrow> bool \<Rightarrow> string" where
  "PythonEnvID h root in_project = (if \<not> in_project then ''cb-python-313-global'' else ''cb-python-313-'' @ VolumeHash h root)"

end
