(* ===== verification/Docker_Run.thy ===== *)
theory Docker_Run
  imports Win_Pathmap Lock_Store
begin

text \<open>
  The \<open>docker run\<close> invocation of a tool (\<open>internal/dockerrun/dockerrun.go\<close>) and the volumes it needs
  (\<open>internal/dockervol/dockervol.go\<close>). \<open>Python_Bootstrap\<close>, a constant of another package, is an
  argument; the Docker commands are recorded in the order in which they are started.
\<close>

record run_context =
  rxCwd :: string
  rxRoot :: string
  rxWorkspaceRoot :: string
  rxContainerWD :: string
  rxFound :: bool

datatype docker_error =
    Dk_Cwd
  | Dk_Outside_Overlay
  | Dk_Rel
  | Dk_Map win_error
  | Dk_Comma_Source string
  | Dk_Comma_Target string
  | Dk_Mount_Mode string
  | Dk_Host_Mount
  | Dk_Home
  | Dk_Canonical string
  | Dk_Unc string
  | Dk_Absent_Source string
  | Dk_Volume_Binding volume_error
  | Dk_Provider string
  | Dk_Image lock_error
  | Dk_Ensure string
  | Dk_Trace
  | Dk_Run

definition IsolatedRoot :: string where
  "IsolatedRoot = ''?:'' @ [backslash] @ ''no-project''"

text \<open>\<open>finder\<close> is \<open>FindProjectRootForTool\<close>.\<close>

definition resolveRunContext ::
    "win_host \<Rightarrow> (string \<Rightarrow> tool \<Rightarrow> string option) \<Rightarrow> tool \<Rightarrow> string \<Rightarrow> (docker_error, run_context) result" where
  "resolveRunContext h finder t cwd =
     (if tCwdMode t = ''isolated'' then
        Inr \<lparr>rxCwd = cwd, rxRoot = IsolatedRoot, rxWorkspaceRoot = ''/root'', rxContainerWD = ''/root'', rxFound = False\<rparr>
      else
        (let found = finder cwd t in
         if tTrustedProjectRoot t \<noteq> [] \<and> found = None then Inl Dk_Outside_Overlay
         else
           (let root = (case found of Some r \<Rightarrow> r | None \<Rightarrow> cwd) in
            case hpRel (whPaths h) root cwd of
              None \<Rightarrow> Inl Dk_Rel
            | Some rel \<Rightarrow>
              (let workspaceRoot = WorkspaceRootFor h t root in
               Inr \<lparr>rxCwd = cwd, rxRoot = root, rxWorkspaceRoot = workspaceRoot, rxContainerWD = below h workspaceRoot rel,
                 rxFound = (found \<noteq> None)\<rparr>))))"

section \<open>Mount specifications\<close>

definition mountSpecChecked :: "string \<Rightarrow> string \<Rightarrow> (docker_error, unit) result" where
  "mountSpecChecked src dst =
     (if contains_byte src CHR '','' then Inl (Dk_Comma_Source src)
      else if contains_byte dst CHR '','' then Inl (Dk_Comma_Target dst) else Inr ())"

definition mount_text :: "string \<Rightarrow> string \<Rightarrow> string \<Rightarrow> string" where
  "mount_text kind src dst = ''type='' @ kind @ '',src='' @ src @ '',dst='' @ dst"

definition MountSpec :: "string \<Rightarrow> string \<Rightarrow> string \<Rightarrow> (docker_error, string) result" where
  "MountSpec kind src dst = rbind (mountSpecChecked src dst) (\<lambda>_. Inr (mount_text kind src dst))"

definition MountSpecMode :: "string \<Rightarrow> string \<Rightarrow> string \<Rightarrow> string \<Rightarrow> (docker_error, string) result" where
  "MountSpecMode kind src dst mode = rbind (mountSpecChecked src dst) (\<lambda>_.
     if mode = ''ro'' then Inr (mount_text kind src dst @ '',readonly'')
     else if mode = ''rw'' then Inr (mount_text kind src dst)
     else Inl (Dk_Mount_Mode mode))"

text \<open>\<open>--mount\<close> with its value.\<close>

definition mount_arg :: "string \<Rightarrow> string \<Rightarrow> string \<Rightarrow> (docker_error, string list) result" where
  "mount_arg kind src dst = rbind (MountSpec kind src dst) (\<lambda>s. Inr [''--mount'', s])"

definition userProfile :: string where "userProfile = ''%USERPROFILE%''"

definition ExpandHostMountSource :: "string option \<Rightarrow> string \<Rightarrow> (docker_error, string) result" where
  "ExpandHostMountSource home source =
     (if has_prefix source userProfile then
        (case home of None \<Rightarrow> Inl Dk_Home | Some dir \<Rightarrow> Inr (dir @ trim_prefix source userProfile))
      else Inr source)"

definition host_mount_arg :: "win_host \<Rightarrow> string option \<Rightarrow> string \<Rightarrow> string list \<Rightarrow> (docker_error, string list) result" where
  "host_mount_arg h home spec args =
     rbind (map_err (\<lambda>_. Dk_Host_Mount) (ParseHostMount spec)) (\<lambda>(source, target, mode).
     rbind (ExpandHostMountSource home source) (\<lambda>expanded.
     case CanonicalPath h expanded of
       None \<Rightarrow> Inl (Dk_Canonical source)
     | Some canon \<Rightarrow>
       (if has_prefix canon [backslash, backslash] then Inl (Dk_Unc source)
        else (case whStat h canon of
            Got _ \<Rightarrow> rbind (MountSpecMode ''bind'' canon target mode) (\<lambda>m. Inr (args @ [''--mount'', m]))
          | _ \<Rightarrow> Inl (Dk_Absent_Source canon)))))"

definition buildHostMountArgs :: "win_host \<Rightarrow> string option \<Rightarrow> string list \<Rightarrow> (docker_error, string list) result" where
  "buildHostMountArgs h home hostMounts = fold_result (host_mount_arg h home) hostMounts []"

section \<open>The environment\<close>

text \<open>\<open>upper\<close> is \<open>strings.ToUpper\<close>; the walk keeps the keys it has seen.\<close>

definition env_key :: "(string \<Rightarrow> string) \<Rightarrow> string \<Rightarrow> string \<Rightarrow> string" where
  "env_key upper goos s = (if goos = ''windows'' then upper s else s)"

definition env_name :: "string \<Rightarrow> string" where
  "env_name kv = (case cut_byte kv CHR ''='' of None \<Rightarrow> kv | Some (name, _) \<Rightarrow> name)"

definition env_match :: "(string \<Rightarrow> string) \<Rightarrow> tool \<Rightarrow> string \<Rightarrow> bool" where
  "env_match key t k = (k \<in> key ` set (tEnvNames t) \<or> list_ex (\<lambda>p. has_prefix k (key p)) (tEnvPrefixes t))"

fun select_env :: "(string \<Rightarrow> string) \<Rightarrow> tool \<Rightarrow> string list \<Rightarrow> string list \<Rightarrow> string list" where
  "select_env key t [] seen = []"
| "select_env key t (kv # environ) seen =
     (let name = env_name kv; k = key name in
      if env_match key t k \<and> k \<notin> set seen then name # select_env key t environ (k # seen)
      else select_env key t environ seen)"

definition selectedHostEnvForHost :: "(string \<Rightarrow> string) \<Rightarrow> string \<Rightarrow> tool \<Rightarrow> string list \<Rightarrow> string list" where
  "selectedHostEnvForHost upper goos t environ =
     (if tEnvNames t = [] \<and> tEnvPrefixes t = [] then [] else sort (select_env (env_key upper goos) t environ []))"

section \<open>The arguments\<close>

definition concat_results :: "('a \<Rightarrow> ('e, 'b list) result) \<Rightarrow> 'a list \<Rightarrow> ('e, 'b list) result" where
  "concat_results f xs = fold_result (\<lambda>x acc. rbind (f x) (\<lambda>ys. Inr (acc @ ys))) xs []"

definition parsed_binding :: "string \<Rightarrow> (docker_error, string \<times> string) result" where
  "parsed_binding spec = map_err Dk_Volume_Binding (ParseVolumeBinding spec)"

definition project_volume_arg :: "win_host \<Rightarrow> tool \<Rightarrow> run_context \<Rightarrow> string \<Rightarrow> (docker_error, string list) result" where
  "project_volume_arg h t ctx spec = rbind (parsed_binding spec) (\<lambda>(name, dst).
     mount_arg ''volume'' (StatefulProjectVolumeID h (tStateGroup t) name (rxRoot ctx))
       (StatefulWorkspaceDestination dst (rxWorkspaceRoot ctx)))"

definition shared_volume_arg :: "tool \<Rightarrow> string \<Rightarrow> (docker_error, string list) result" where
  "shared_volume_arg t spec = rbind (parsed_binding spec) (\<lambda>(name, dst).
     mount_arg ''volume'' (StatefulSharedVolumeID (tStateGroup t) name) dst)"

definition python_options :: "win_host \<Rightarrow> run_context \<Rightarrow> (docker_error, string list) result" where
  "python_options h ctx =
     rbind (mount_arg ''volume'' (PythonEnvID h (rxRoot ctx) (rxFound ctx)) ''/venv'') (\<lambda>venv.
     rbind (mount_arg ''volume'' ''cb-pip-cache'' ''/root/.cache/pip'') (\<lambda>cache.
       Inr (venv @ cache @ [''-e'', ''VIRTUAL_ENV=/venv'', ''-e'',
         ''PATH=/venv/bin:/usr/local/bin:/usr/local/sbin:/usr/sbin:/usr/bin:/sbin:/bin''])))"

text \<open>The options of the provider, and the command line after the image.\<close>

definition provider_args ::
    "string \<Rightarrow> win_host \<Rightarrow> tool \<Rightarrow> run_context \<Rightarrow> string list \<Rightarrow> (docker_error, string list \<times> string list) result" where
  "provider_args bootstrap h t ctx mapped =
     (if tProvider t = ''python'' then
        rbind (python_options h ctx) (\<lambda>opts. Inr (opts, [''sh'', ''-c'', bootstrap, ''cb'']
          @ (if tRole t = ''pip'' then [''__CB_PIP__''] else []) @ tArgsPrefix t @ mapped))
      else if tProvider t = ''stateful'' then
        rbind (concat_results (project_volume_arg h t ctx) (tProjectVolumes t)) (\<lambda>own.
        rbind (concat_results (shared_volume_arg t) (tSharedVolumes t)) (\<lambda>shared.
          Inr (own @ shared, tCommand t @ tArgsPrefix t @ mapped)))
      else if tProvider t = ''stateless'' then Inr ([], tCommand t @ tArgsPrefix t @ mapped)
      else Inl (Dk_Provider (tProvider t)))"

definition env_args :: "string list \<Rightarrow> string list" where
  "env_args xs = concat (map (\<lambda>x. [''-e'', x]) xs)"

record run_host =
  rhHost :: win_host
  rhMountRoot :: "string \<Rightarrow> (win_error, string) result"
  rhFind :: "string \<Rightarrow> tool \<Rightarrow> string option"
  rhUpper :: "string \<Rightarrow> string"
  rhHome :: "string option"
  rhEnviron :: "string list"
  rhBootstrap :: string

definition buildDockerArgs ::
    "run_host \<Rightarrow> tool \<Rightarrow> string list \<Rightarrow> run_context \<Rightarrow> string \<Rightarrow> bool \<Rightarrow> (docker_error, string list) result" where
  "buildDockerArgs R t userArgs ctx imageRef tty =
     (let h = rhHost R in
      rbind (map_err Dk_Map (MapToolArgs h (rhMountRoot R) t (rxRoot ctx) (rxCwd ctx) (rxWorkspaceRoot ctx) userArgs)) (\<lambda>(mapped, pathMounts).
      rbind (if tCwdMode t \<noteq> ''isolated'' then mount_arg ''bind'' (rxRoot ctx) (rxWorkspaceRoot ctx) else Inr []) (\<lambda>rootMount.
      rbind (concat_results (\<lambda>m. mount_arg ''bind'' (fst m) (snd m)) pathMounts) (\<lambda>argMounts.
      rbind (buildHostMountArgs h (rhHome R) (tHostMounts t)) (\<lambda>hostMounts.
      rbind (provider_args (rhBootstrap R) h t ctx mapped) (\<lambda>(opts, command).
        Inr ([''run'', ''--rm'', ''-i''] @ (if tty then [''-t''] else []) @ [''--workdir'', rxContainerWD ctx] @ rootMount @ argMounts
          @ hostMounts @ env_args (selectedHostEnvForHost (rhUpper R) (whGOOS h) t (rhEnviron R)) @ env_args (tEnvSet t)
          @ opts @ [imageRef] @ command)))))))"

section \<open>Volumes\<close>

type_synonym labels = "(string, string) gomap"

definition ensure_args :: "string \<Rightarrow> labels \<Rightarrow> string list" where
  "ensure_args name labels = [''volume'', ''create'']
     @ concat (map (\<lambda>k. [''--label'', k @ ''='' @ the (map_of labels k)]) (sort (mkeys labels))) @ [name]"

definition project_labels :: "win_host \<Rightarrow> string \<Rightarrow> string \<Rightarrow> labels" where
  "project_labels h owner root = [(''cb.managed'', ''true''), (''cb.owner'', owner), (''cb.kind'', ''project''),
     (''cb.project_path'', root), (''cb.project_hash'', VolumeHash h root)]"

definition shared_labels :: "string \<Rightarrow> labels" where
  "shared_labels owner = [(''cb.managed'', ''true''), (''cb.kind'', ''shared''), (''cb.owner'', owner)]"

definition python_labels :: "win_host \<Rightarrow> run_context \<Rightarrow> labels" where
  "python_labels h ctx = (if rxFound ctx then project_labels h ''python313/venv'' (rxRoot ctx)
     else [(''cb.managed'', ''true''), (''cb.owner'', ''python313/venv''), (''cb.kind'', ''compat'')])"

datatype docker_command = Ensure_Volume string labels | Run_Container "string list"

text \<open>One volume after the other; an error, of the binding or of Docker, ends the loop. \<open>ok\<close> is
  Docker's answer.\<close>

fun ensure_loop :: "('a \<Rightarrow> (docker_error, string \<times> labels) result) \<Rightarrow> (string \<Rightarrow> bool) \<Rightarrow> 'a list
    \<Rightarrow> docker_command list \<times> docker_error option" where
  "ensure_loop f ok [] = ([], None)"
| "ensure_loop f ok (x # xs) = (case f x of
     Inl e \<Rightarrow> ([], Some e)
   | Inr (name, labels) \<Rightarrow>
     (if \<not> ok name then ([Ensure_Volume name labels], Some (Dk_Ensure name))
      else (case ensure_loop f ok xs of (calls, e) \<Rightarrow> (Ensure_Volume name labels # calls, e))))"

definition project_volume :: "win_host \<Rightarrow> tool \<Rightarrow> run_context \<Rightarrow> string \<Rightarrow> (docker_error, string \<times> labels) result" where
  "project_volume h t ctx spec = rbind (parsed_binding spec) (\<lambda>(name, _).
     Inr (StatefulProjectVolumeID h (tStateGroup t) name (rxRoot ctx), project_labels h (tStateGroup t @ ''/'' @ name) (rxRoot ctx)))"

definition shared_volume :: "tool \<Rightarrow> string \<Rightarrow> (docker_error, string \<times> labels) result" where
  "shared_volume t spec = rbind (parsed_binding spec) (\<lambda>(name, _).
     Inr (StatefulSharedVolumeID (tStateGroup t) name, shared_labels (tStateGroup t @ ''/'' @ name)))"

definition ensureDockerVolumes :: "win_host \<Rightarrow> (string \<Rightarrow> bool) \<Rightarrow> tool \<Rightarrow> run_context \<Rightarrow> docker_command list \<times> docker_error option" where
  "ensureDockerVolumes h ok t ctx =
     (if tProvider t = ''python'' then
        ensure_loop Inr ok [(PythonEnvID h (rxRoot ctx) (rxFound ctx), python_labels h ctx),
          (''cb-pip-cache'', shared_labels ''python313/pip-cache'')]
      else if tProvider t = ''stateful'' then
        (case ensure_loop (project_volume h t ctx) ok (tProjectVolumes t) of
           (calls, Some e) \<Rightarrow> (calls, Some e)
         | (calls, None) \<Rightarrow> (case ensure_loop (shared_volume t) ok (tSharedVolumes t) of (calls', e) \<Rightarrow> (calls @ calls', e)))
      else ([], None))"

text \<open>What \<open>docker volume ls\<close> and \<open>docker volume inspect\<close> print, read back.\<close>

definition volume_names :: "string \<Rightarrow> string list" where
  "volume_names out = sort (filter (\<lambda>n. has_prefix n ''cb-'') (map trim_space (split_byte out CHR 0x0A)))"

definition label_line :: "string \<Rightarrow> labels \<Rightarrow> labels" where
  "label_line line m = (case index_byte line CHR ''='' of
     Some (Suc i) \<Rightarrow> mput (take (Suc i) line) (drop (Suc (Suc i)) line) m
   | _ \<Rightarrow> m)"

definition volume_labels :: "string \<Rightarrow> labels" where
  "volume_labels out = fold label_line (split_byte out CHR 0x0A) []"

section \<open>A run\<close>

record run_tool_answers =
  rtCwd :: "string option"
  rtImage :: "(lock_error, string) result"
  rtInteractive :: bool
  rtEnsure :: "string \<Rightarrow> bool"
  rtTrace :: bool
  rtExit :: "int option"

definition RunTool :: "run_host \<Rightarrow> run_tool_answers \<Rightarrow> tool \<Rightarrow> string list \<Rightarrow> docker_command list \<times> (docker_error, int) result" where
  "RunTool R A t userArgs =
     (let prepared =
        rbind (case Option.bind (rtCwd A) (CanonicalPath (rhHost R)) of None \<Rightarrow> Inl Dk_Cwd | Some c \<Rightarrow> Inr c) (\<lambda>cwd.
        rbind (resolveRunContext (rhHost R) (rhFind R) t cwd) (\<lambda>ctx.
        rbind (map_err Dk_Image (rtImage A)) (\<lambda>imageRef.
        rbind (buildDockerArgs R t userArgs ctx imageRef (rtInteractive A)) (\<lambda>args. Inr (ctx, args)))))
      in case prepared of
        Inl e \<Rightarrow> ([], Inl e)
      | Inr (ctx, args) \<Rightarrow> (case ensureDockerVolumes (rhHost R) (rtEnsure A) t ctx of
          (calls, Some e) \<Rightarrow> (calls, Inl e)
        | (calls, None) \<Rightarrow>
          (if \<not> rtTrace A then (calls, Inl Dk_Trace)
           else (calls @ [Run_Container args], case rtExit A of None \<Rightarrow> Inl Dk_Run | Some code \<Rightarrow> Inr code))))"

end
