(* ===== verification/Win_Pathmap_Facts.thy ===== *)
theory Win_Pathmap_Facts
  imports Win_Pathmap
begin

text \<open>
  The walks of \<open>Win_Pathmap\<close> return on a rooted path (\<open>nearest_directory_returns\<close>,
  \<open>project_root_returns\<close>); the mounts that the arguments need are numbered and have distinct sources
  (\<open>mapper_ok\<close>); and an argument either stays or names in the container the path it stood for
  (\<open>map_windows_args\<close>).
\<close>

section \<open>The walks\<close>

lemma nearest_directory_returns:
  assumes "path_boundary (whPaths h) rooted" "rooted p"
  shows "nearest_directory h p \<noteq> None"
proof (rule path_boundary.climb_returns [OF assms, where climb = "\<lambda>q (_::unit). nearest_directory h q" and st = "()"])
  fix q :: string and st :: unit assume "nearest_directory h q = None"
  then show "hpDir (whPaths h) q \<noteq> q \<and> (\<exists>st'::unit. nearest_directory h (hpDir (whPaths h) q) = None)"
    by (subst (asm) nearest_directory.simps) (auto split: io.splits if_splits)
qed

lemma external_mount_root_returns:
  assumes "path_boundary (whPaths h) rooted" "rooted p"
  shows "externalMountRoot h p \<noteq> None"
  using nearest_directory_returns [OF assms(1) path_boundary.dir_rooted [OF assms]]
  by (auto simp: externalMountRoot_def split: io.splits)

lemma find_project_root_returns:
  assumes "path_boundary (whPaths h) rooted" "rooted p"
  shows "FindProjectRoot h markers p \<noteq> None"
proof (rule path_boundary.climb_returns [OF assms, where climb = "\<lambda>q (_::unit). FindProjectRoot h markers q" and st = "()"])
  fix q :: string and st :: unit assume "FindProjectRoot h markers q = None"
  then show "hpDir (whPaths h) q \<noteq> q \<and> (\<exists>st'::unit. FindProjectRoot h markers (hpDir (whPaths h) q) = None)"
    by (subst (asm) FindProjectRoot.simps) (auto split: if_splits)
qed

lemma find_outermost_returns:
  assumes "path_boundary (whPaths h) rooted" "rooted p"
  shows "find_outermost h markers p outermost \<noteq> None"
proof (rule path_boundary.climb_returns [OF assms, where climb = "\<lambda>q st. find_outermost h markers q st"])
  fix q st assume "find_outermost h markers q st = None"
  then show "hpDir (whPaths h) q \<noteq> q \<and> (\<exists>st'. find_outermost h markers (hpDir (whPaths h) q) st' = None)"
    by (subst (asm) find_outermost.simps) (auto simp: Let_def split: if_splits)
qed

lemma project_root_returns:
  assumes "path_boundary (whPaths h) rooted" "rooted p"
  shows "FindProjectRootForTool h p t \<noteq> None"
  using find_project_root_returns [OF assms] find_outermost_returns [OF assms]
  by (auto simp: FindProjectRootForTool_def Let_def)

text \<open>The directory of a mount exists, or is the directory of an existing file.\<close>

lemma nearest_directory_exists:
  assumes "nearest_directory h p = Some r"
  shows "r = Inr d \<longrightarrow> whStat h d = Got True"
proof (rule nearest_directory.raw_induct [where P = "\<lambda>h p r. r = Inr d \<longrightarrow> whStat h d = Got True", OF _ assms])
  fix nearest h p r
  assume hyp: "\<And>h p r. nearest h p = Some r \<Longrightarrow> r = Inr d \<longrightarrow> whStat h d = Got True"
    and step: "(case whStat h p of
         Got directory \<Rightarrow> Some (if directory then Inr p else Inl (Win_Ancestor_File p))
       | Failed \<Rightarrow> Some (Inl (Win_Stat p))
       | Absent \<Rightarrow> (if hpDir (whPaths h) p = p then Some (Inl Win_No_Ancestor) else nearest h (hpDir (whPaths h) p))) = Some r"
  then show "r = Inr d \<longrightarrow> whStat h d = Got True"
    by (auto split: io.splits if_splits dest: hyp)
qed

lemma external_mount_root_exists:
  assumes "externalMountRoot h p = Some (Inr d)"
  shows "whStat h d = Got True \<or> (whStat h p = Got False \<and> d = hpDir (whPaths h) p)"
  using assms nearest_directory_exists
  by (auto simp: externalMountRoot_def split: io.splits if_splits)

lemma nearest_directory_rooted:
  assumes "path_boundary (whPaths h) rooted" "nearest_directory h p = Some (Inr d)" "rooted p"
  shows "rooted d"
proof -
  have "path_boundary (whPaths h) rooted \<longrightarrow> rooted p \<longrightarrow> (\<forall>d. r = Inr d \<longrightarrow> rooted d)"
    if "nearest_directory h p = Some r" for h p r
  proof (rule nearest_directory.raw_induct [where P = "\<lambda>h p r. path_boundary (whPaths h) rooted \<longrightarrow> rooted p \<longrightarrow>
      (\<forall>d. r = Inr d \<longrightarrow> rooted d)", OF _ that])
    fix nearest h p r
    assume hyp: "\<And>h p r. nearest h p = Some r \<Longrightarrow> path_boundary (whPaths h) rooted \<longrightarrow> rooted p \<longrightarrow>
        (\<forall>d. r = Inr d \<longrightarrow> rooted d)"
      and step: "(case whStat h p of
         Got directory \<Rightarrow> Some (if directory then Inr p else Inl (Win_Ancestor_File p))
       | Failed \<Rightarrow> Some (Inl (Win_Stat p))
       | Absent \<Rightarrow> (if hpDir (whPaths h) p = p then Some (Inl Win_No_Ancestor) else nearest h (hpDir (whPaths h) p))) = Some r"
    show "path_boundary (whPaths h) rooted \<longrightarrow> rooted p \<longrightarrow> (\<forall>d. r = Inr d \<longrightarrow> rooted d)"
      using step by (auto split: io.splits if_splits dest: hyp path_boundary.dir_rooted)
  qed
  then show ?thesis using assms by blast
qed

lemma external_mount_root_rooted:
  assumes "path_boundary (whPaths h) rooted" "externalMountRoot h p = Some (Inr d)" "rooted p"
  shows "rooted d"
  using assms nearest_directory_rooted [OF assms(1)] path_boundary.dir_rooted [OF assms(1)]
  by (auto simp: externalMountRoot_def split: io.splits if_splits)

section \<open>Mounts\<close>

text \<open>The mounts so far: numbered targets, sources that differ by their key, and the index by key.\<close>

definition mapper_ok :: "win_host \<Rightarrow> path_mapper \<Rightarrow> bool" where
  "mapper_ok h pm = (map snd (pmMounts pm) = map external_target [0..<length (pmMounts pm)]
     \<and> map (\<lambda>m. (mount_key h (fst m), snd m)) (pmMounts pm) = pmBySource pm \<and> wf_map (pmBySource pm))"

lemma mput_new: "map_of m k = None \<Longrightarrow> mput k v m = m @ [(k, v)]"
  by (simp add: mput_fresh mhas_iff_map_of)

lemma mount_for_spec:
  assumes "mount_for h r pm = (target, pm')" "mapper_ok h pm"
  shows "mapper_ok h pm'" "prefix (pmMounts pm) (pmMounts pm')"
    "\<exists>source. (source, target) \<in> set (pmMounts pm') \<and> mount_key h source = mount_key h r"
    "\<forall>m \<in> set (pmMounts pm'). m \<in> set (pmMounts pm) \<or> fst m = r"
proof -
  let ?k = "mount_key h r"
  have m: "map (\<lambda>m. (mount_key h (fst m), snd m)) (pmMounts pm) = pmBySource pm" using assms(2) by (simp add: mapper_ok_def)
  have all: "mapper_ok h pm' \<and> prefix (pmMounts pm) (pmMounts pm')
    \<and> (\<exists>source. (source, target) \<in> set (pmMounts pm') \<and> mount_key h source = ?k)
    \<and> (\<forall>m \<in> set (pmMounts pm'). m \<in> set (pmMounts pm) \<or> fst m = r)"
  proof (cases "map_of (pmBySource pm) ?k")
    case None
    then have pm': "pmMounts pm' = pmMounts pm @ [(r, target)]" "pmBySource pm' = pmBySource pm @ [(?k, target)]"
      "target = external_target (length (pmMounts pm))"
      using assms(1) by (auto simp: mount_for_def Let_def mput_new)
    have "wf_map (pmBySource pm')"
      using assms(2) None by (auto simp: mapper_ok_def pm'(2) wf_map_def mkeys_def map_of_eq_None_iff)
    then show ?thesis using assms(2) m by (auto simp: mapper_ok_def pm')
  next
    case (Some t)
    then have pm': "pm' = pm" "target = t" using assms(1) by (auto simp: mount_for_def)
    from Some have "(?k, t) \<in> set (pmBySource pm)" by (rule map_of_SomeD)
    then obtain source where "(source, t) \<in> set (pmMounts pm)" "mount_key h source = ?k" by (auto simp flip: m)
    then show ?thesis using assms(2) pm' by auto
  qed
  then show "mapper_ok h pm'" "prefix (pmMounts pm) (pmMounts pm')"
    "\<exists>source. (source, target) \<in> set (pmMounts pm') \<and> mount_key h source = ?k"
    "\<forall>m \<in> set (pmMounts pm'). m \<in> set (pmMounts pm) \<or> fst m = r" by blast+
qed

section \<open>Arguments\<close>

text \<open>\<open>out\<close> is the name in the container of the host path \<open>p\<close>: the rest of \<open>p\<close> below the project or
  below the directory of a mount, which joined to that directory is \<open>p\<close> again.\<close>

definition names_path :: "win_host \<Rightarrow> (string \<Rightarrow> (win_error, string) result) \<Rightarrow> string \<Rightarrow> string \<Rightarrow> (string \<times> string) list \<Rightarrow> string \<Rightarrow> string \<Rightarrow> bool" where
  "names_path h mount_root root workspaceRoot mounts p out = (\<exists>base target rel. out = below h target rel \<and> hpJoin (whPaths h) base rel = p
     \<and> ((base = root \<and> target = workspaceRoot \<and> \<not> above (whPaths h) rel)
       \<or> (mount_root p = Inr base \<and> (\<exists>source. (source, target) \<in> set mounts \<and> mount_key h source = mount_key h base))))"

text \<open>An argument that stays: the separator, a flag whose value follows, or no path at all.\<close>

definition literal_arg :: "win_host \<Rightarrow> tool \<Rightarrow> string \<Rightarrow> string \<Rightarrow> bool" where
  "literal_arg h t cwd arg = (arg = ''--'' \<or> arg \<in> set (tPathNext t) \<or> (\<exists>pre v force. arg = pre @ v
     \<and> (pre = [] \<or> (\<exists>opt \<in> set (tPathEquals t). pre = opt @ ''=''))
     \<and> resolveWindowsPathArgMode h cwd v force = Inr None))"

definition arg_named :: "win_host \<Rightarrow> (string \<Rightarrow> (win_error, string) result) \<Rightarrow> tool \<Rightarrow> string \<Rightarrow> string \<Rightarrow> string
    \<Rightarrow> (string \<times> string) list \<Rightarrow> string \<Rightarrow> string \<Rightarrow> bool" where
  "arg_named h mount_root t root cwd workspaceRoot mounts arg out = ((out = arg \<and> literal_arg h t cwd arg) \<or> (\<exists>pre v w force p.
     arg = pre @ v \<and> out = pre @ w \<and> (pre = [] \<or> (\<exists>opt \<in> set (tPathEquals t). pre = opt @ ''=''))
     \<and> resolveWindowsPathArgMode h cwd v force = Inr (Some p) \<and> names_path h mount_root root workspaceRoot mounts p w))"

lemma names_path_mono:
  "names_path h mr root ws mounts p out \<Longrightarrow> set mounts \<subseteq> set mounts' \<Longrightarrow> names_path h mr root ws mounts' p out"
  unfolding names_path_def by blast

lemma arg_named_mono:
  "arg_named h mr t root cwd ws mounts arg out \<Longrightarrow> set mounts \<subseteq> set mounts' \<Longrightarrow> arg_named h mr t root cwd ws mounts' arg out"
proof (cases "out = arg \<and> literal_arg h t cwd arg")
  case False
  assume "arg_named h mr t root cwd ws mounts arg out" and s: "set mounts \<subseteq> set mounts'"
  with False obtain pre v w force p where "arg = pre @ v" "out = pre @ w" "pre = [] \<or> (\<exists>opt \<in> set (tPathEquals t). pre = opt @ ''='')"
    "resolveWindowsPathArgMode h cwd v force = Inr (Some p)" and n: "names_path h mr root ws mounts p w"
    unfolding arg_named_def by (elim disjE exE conjE) blast+
  with names_path_mono [OF n s] show ?thesis unfolding arg_named_def by blast
qed (simp add: arg_named_def)

definition rooted_args :: "win_host \<Rightarrow> (string \<Rightarrow> (win_error, string) result) \<Rightarrow> (string \<Rightarrow> bool) \<Rightarrow> bool" where
  "rooted_args h mount_root rooted = ((\<forall>p c. CanonicalPath h p = Some c \<longrightarrow> rooted c) \<and> (\<forall>p d. rooted p \<longrightarrow> mount_root p = Inr d \<longrightarrow> rooted d))"

lemma resolved_rooted:
  assumes "rooted_args h mount_root rooted" "resolveWindowsPathArgMode h cwd v force = Inr (Some p)"
  shows "rooted p"
  using assms by (auto simp: rooted_args_def resolveWindowsPathArgMode_def canonical_or_def Let_def split: if_splits option.splits)

lemma map_windows_arg:
  assumes "mapWindowsArg h mount_root root cwd ws v force pm = Inr (w, pm')"
    and "path_boundary (whPaths h) rooted" "rooted root" "rooted_args h mount_root rooted" "mapper_ok h pm"
  shows "mapper_ok h pm' \<and> prefix (pmMounts pm) (pmMounts pm') \<and> ((w = v \<and> resolveWindowsPathArgMode h cwd v force = Inr None) \<or>
    (\<exists>p. resolveWindowsPathArgMode h cwd v force = Inr (Some p) \<and> names_path h mount_root root ws (pmMounts pm') p w))
    \<and> (\<forall>m \<in> set (pmMounts pm'). m \<in> set (pmMounts pm) \<or> (\<exists>p. mount_root p = Inr (fst m)))"
proof (cases "resolveWindowsPathArgMode h cwd v force")
  case (Inl e)
  then show ?thesis using assms(1) by (simp add: mapWindowsArg_def)
next
  case (Inr resolved)
  show ?thesis
  proof (cases resolved)
    case None
    then show ?thesis using assms(1,5) Inr by (auto simp: mapWindowsArg_def)
  next
    case (Some p)
    note r = Inr [unfolded Some]
    have p: "rooted p" by (rule resolved_rooted [OF assms(4) r])
    show ?thesis
    proof (cases "pathWithin h root p")
      case (Some rel)
      then have rel: "hpRel (whPaths h) root p = Some rel" "\<not> above (whPaths h) rel"
        by (auto simp: pathWithin_def split: option.splits if_splits)
      have "w = below h ws rel" "pm' = pm" using assms(1) r Some by (auto simp: mapWindowsArg_def)
      moreover have "hpJoin (whPaths h) root rel = p" by (rule path_boundary.rel_join [OF assms(2,3) p rel(1)])
      ultimately have "names_path h mount_root root ws (pmMounts pm') p w" using rel(2) unfolding names_path_def by blast
      then show ?thesis using r assms(5) \<open>pm' = pm\<close> by blast
    next
      case None
      have e: "rbind (mount_root p) (\<lambda>mountRoot. case mount_for h mountRoot pm of (target, pm') \<Rightarrow>
          (case hpRel (whPaths h) mountRoot p of None \<Rightarrow> Inl Win_Rel | Some rel \<Rightarrow> Inr (below h target rel, pm'))) = Inr (w, pm')"
        using assms(1) r None by (simp add: mapWindowsArg_def)
      then obtain base where base: "mount_root p = Inr base" by (cases "mount_root p") auto
      obtain target pm2 where "mount_for h base pm = (target, pm2)" by fastforce
      with e base obtain rel where b: "mount_root p = Inr base" "mount_for h base pm = (target, pm')"
        "hpRel (whPaths h) base p = Some rel" "w = below h target rel" by (auto split: option.splits)
      note m = mount_for_spec [OF b(2) assms(5)]
      have "rooted base" using assms(4) p b(1) by (auto simp: rooted_args_def)
      then have "hpJoin (whPaths h) base rel = p" by (rule path_boundary.rel_join [OF assms(2) _ p b(3)])
      then have "names_path h mount_root root ws (pmMounts pm') p w" using b(1,4) m(3) unfolding names_path_def by blast
      then show ?thesis using r m(1,2,4) b(1) by blast
    qed
  qed
qed

definition map_state_ok ::
    "win_host \<Rightarrow> (string \<Rightarrow> (win_error, string) result) \<Rightarrow> tool \<Rightarrow> string \<Rightarrow> string \<Rightarrow> string \<Rightarrow> string list \<Rightarrow> win_map_state \<Rightarrow> bool" where
  "map_state_ok h mount_root t root cwd ws args st = (mapper_ok h (wmMapper st)
     \<and> list_all2 (arg_named h mount_root t root cwd ws (pmMounts (wmMapper st))) args (wmMapped st)
     \<and> (\<forall>m \<in> set (pmMounts (wmMapper st)). \<exists>p. mount_root p = Inr (fst m)))"

lemma put_mapped_spec:
  assumes "put_mapped (mapWindowsArg h mount_root root cwd ws) pre v force st = Inr st'"
    and "path_boundary (whPaths h) rooted" "rooted root" "rooted_args h mount_root rooted"
    and "map_state_ok h mount_root t root cwd ws args st" "pre = [] \<or> (\<exists>opt \<in> set (tPathEquals t). pre = opt @ ''='')"
  shows "map_state_ok h mount_root t root cwd ws (args @ [pre @ v]) st'"
proof -
  from assms(1) obtain w pm where m: "mapWindowsArg h mount_root root cwd ws v force (wmMapper st) = Inr (w, pm)"
    and st': "wmMapped st' = wmMapped st @ [pre @ w]" "wmMapper st' = pm"
    by (auto simp: put_mapped_def rbind_Inr_iff)
  have ok: "mapper_ok h (wmMapper st)" using assms(5) by (simp add: map_state_ok_def)
  note s = map_windows_arg [OF m assms(2-4) ok]
  have sub: "set (pmMounts (wmMapper st)) \<subseteq> set (pmMounts pm)" using s set_mono_prefix by blast
  have "list_all2 (arg_named h mount_root t root cwd ws (pmMounts pm)) args (wmMapped st)"
    using assms(5) arg_named_mono [OF _ sub] unfolding map_state_ok_def by (auto elim: list_all2_mono)
  moreover have "arg_named h mount_root t root cwd ws (pmMounts pm) (pre @ v) (pre @ w)"
    using s assms(6) unfolding arg_named_def literal_arg_def by blast
  ultimately show ?thesis using s assms(5) unfolding map_state_ok_def st' by (auto simp: list_all2_appendI)
qed

lemma keep_arg:
  assumes "map_state_ok h mount_root t root cwd ws args st" "wmMapped st' = wmMapped st @ [arg]" "wmMapper st' = wmMapper st"
    and "arg = ''--'' \<or> arg \<in> set (tPathNext t)"
  shows "map_state_ok h mount_root t root cwd ws (args @ [arg]) st'"
  using assms by (auto simp: map_state_ok_def arg_named_def literal_arg_def list_all2_appendI)

lemma windows_step_spec:
  assumes "windows_step t (mapWindowsArg h mount_root root cwd ws) all (i, arg) st = Inr st'"
    and "path_boundary (whPaths h) rooted" "rooted root" "rooted_args h mount_root rooted"
    and "map_state_ok h mount_root t root cwd ws args st"
  shows "map_state_ok h mount_root t root cwd ws (args @ [arg]) st'"
proof -
  note put = put_mapped_spec [OF _ assms(2-4)]
  from assms(1) consider (put) force st1 where "put_mapped (mapWindowsArg h mount_root root cwd ws) [] arg force st1 = Inr st'"
      "wmMapped st1 = wmMapped st" "wmMapper st1 = wmMapper st"
    | (kept) "wmMapped st' = wmMapped st @ [arg]" "wmMapper st' = wmMapper st" "arg = ''--'' \<or> arg \<in> set (tPathNext t)"
    | (opt) opt where "equals_option t arg = Some opt"
      "put_mapped (mapWindowsArg h mount_root root cwd ws) (opt @ ''='') (trim_prefix arg (opt @ ''='')) True st = Inr st'"
    by (fastforce simp: windows_step_def Let_def split: if_splits option.splits)
  then show ?thesis
  proof cases
    case put
    have "map_state_ok h mount_root t root cwd ws args st1" using assms(5) put(2,3) by (simp add: map_state_ok_def)
    then show ?thesis using put_mapped_spec [OF put(1) assms(2-4)] by fastforce
  next
    case kept
    then show ?thesis by (rule keep_arg [OF assms(5)])
  next
    case opt
    have o: "opt \<in> set (tPathEquals t)" "arg = (opt @ ''='') @ trim_prefix arg (opt @ ''='')" using equals_option_Some [OF opt(1)] by blast+
    show ?thesis using put [OF opt(2) assms(5)] o by metis
  qed
qed

lemma windows_loop:
  assumes "fold_result (windows_step t (mapWindowsArg h mount_root root cwd ws) all) (enumerate k xs) st = Inr st'"
    and "path_boundary (whPaths h) rooted" "rooted root" "rooted_args h mount_root rooted"
    and "map_state_ok h mount_root t root cwd ws args st"
  shows "map_state_ok h mount_root t root cwd ws (args @ xs) st'"
  using assms(1,5)
proof (induction xs arbitrary: k st args)
  case (Cons x xs)
  from Cons.prems(1) obtain s where s: "windows_step t (mapWindowsArg h mount_root root cwd ws) all (k, x) st = Inr s"
    "fold_result (windows_step t (mapWindowsArg h mount_root root cwd ws) all) (enumerate (Suc k) xs) s = Inr st'"
    by (auto simp: rbind_Inr_iff)
  from Cons.IH [OF s(2) windows_step_spec [OF s(1) assms(2-4) Cons.prems(2)]] show ?case by simp
qed simp

lemma map_windows_args:
  assumes "MapToolArgs h mount_root t root cwd ws args = Inr (mapped, mounts)" "whGOOS h = ''windows''"
    and "path_boundary (whPaths h) rooted" "rooted root" "rooted_args h mount_root rooted"
  shows "list_all2 (arg_named h mount_root t root cwd ws mounts) (normalize_windows (tPathEquals t) args) mapped"
    "map snd mounts = map external_target [0..<length mounts]" "distinct (map (mount_key h \<circ> fst) mounts)"
    "\<forall>m \<in> set mounts. \<exists>p. mount_root p = Inr (fst m)"
proof -
  let ?args = "normalize_windows (tPathEquals t) args"
  let ?st = "\<lparr>wmForceNext = False, wmForcedOptions = True, wmMapped = [], wmMapper = \<lparr>pmMounts = [], pmBySource = []\<rparr>\<rparr>"
  from assms(1,2) obtain st where f: "fold_result (windows_step t (mapWindowsArg h mount_root root cwd ws) ?args) (enumerate 0 ?args) ?st = Inr st"
    and r: "mapped = wmMapped st" "mounts = pmMounts (wmMapper st)"
    by (auto simp: MapToolArgs_def normalizeToolArgsForHost_def Let_def rbind_Inr_iff split: if_splits)
  have "map_state_ok h mount_root t root cwd ws [] ?st" by (simp add: map_state_ok_def mapper_ok_def)
  from windows_loop [OF f assms(3-5) this] have s: "map_state_ok h mount_root t root cwd ws ?args st" by simp
  then show "list_all2 (arg_named h mount_root t root cwd ws mounts) ?args mapped" "\<forall>m \<in> set mounts. \<exists>p. mount_root p = Inr (fst m)"
    by (simp_all add: map_state_ok_def r)
  from s have m: "mapper_ok h (wmMapper st)" by (simp add: map_state_ok_def)
  then show "map snd mounts = map external_target [0..<length mounts]" by (simp add: mapper_ok_def r)
  have "pmBySource (wmMapper st) = map (\<lambda>m. (mount_key h (fst m), snd m)) mounts" using m by (simp add: mapper_ok_def r)
  then have "mkeys (pmBySource (wmMapper st)) = map (mount_key h \<circ> fst) mounts" by (simp add: mkeys_def comp_def)
  then show "distinct (map (mount_key h \<circ> fst) mounts)" using m by (simp add: mapper_ok_def wf_map_def)
qed

text \<open>The mount root as a function; on a rooted path the walk returns, so the default is never taken.\<close>

definition host_mount_root :: "win_host \<Rightarrow> string \<Rightarrow> (win_error, string) result" where
  "host_mount_root h p = (case externalMountRoot h p of Some r \<Rightarrow> r | None \<Rightarrow> Inl Win_No_Ancestor)"

lemma host_mount_root_Inr: "host_mount_root h p = Inr d \<Longrightarrow> externalMountRoot h p = Some (Inr d)"
  by (auto simp: host_mount_root_def split: option.splits)

lemma rooted_host_args:
  assumes "path_boundary (whPaths h) rooted" "\<And>p c. CanonicalPath h p = Some c \<Longrightarrow> rooted c"
  shows "rooted_args h (host_mount_root h) rooted"
  using assms host_mount_root_Inr external_mount_root_rooted [OF assms(1)] unfolding rooted_args_def by blast

end
