(* ===== verification/Docker_Run_Facts.thy ===== *)
theory Docker_Run_Facts
  imports Docker_Run Win_Pathmap_Facts
begin

text \<open>
  The shape of a \<open>docker run\<close> invocation (\<open>docker_args_shape\<close>): its options are pairs, all of them
  before the image, each mount is read by Docker as the mount that was meant, and every volume that is
  mounted was created with its labels before (\<open>run_tool_spec\<close>).
\<close>

section \<open>Mounts\<close>

text \<open>How Docker reads the value of \<open>--mount\<close>: fields separated by commas.\<close>

definition mount_fields :: "string \<Rightarrow> string list" where
  "mount_fields s = split_byte s CHR '',''"

definition reads_as :: "string \<Rightarrow> string \<Rightarrow> string \<Rightarrow> string \<Rightarrow> bool" where
  "reads_as s kind src dst = (mount_fields s \<in>
     {[''type='' @ kind, ''src='' @ src, ''dst='' @ dst], [''type='' @ kind, ''src='' @ src, ''dst='' @ dst, ''readonly'']})"

lemma mount_text_fields:
  assumes "CHR '','' \<notin> set kind" "CHR '','' \<notin> set src" "CHR '','' \<notin> set dst"
  shows "mount_fields (mount_text kind src dst) = [''type='' @ kind, ''src='' @ src, ''dst='' @ dst]"
    "mount_fields (mount_text kind src dst @ '',readonly'') = [''type='' @ kind, ''src='' @ src, ''dst='' @ dst, ''readonly'']"
proof -
  have j: "mount_text kind src dst = join [CHR '',''] [''type='' @ kind, ''src='' @ src, ''dst='' @ dst]"
    "mount_text kind src dst @ '',readonly'' = join [CHR '',''] [''type='' @ kind, ''src='' @ src, ''dst='' @ dst, ''readonly'']"
    by (simp_all add: mount_text_def)
  show "mount_fields (mount_text kind src dst) = [''type='' @ kind, ''src='' @ src, ''dst='' @ dst]"
    unfolding mount_fields_def j(1) by (rule split_join) (use assms in auto)
  show "mount_fields (mount_text kind src dst @ '',readonly'') = [''type='' @ kind, ''src='' @ src, ''dst='' @ dst, ''readonly'']"
    unfolding mount_fields_def j(2) by (rule split_join) (use assms in auto)
qed

lemma checked_ok: "mountSpecChecked src dst = Inr u \<longleftrightarrow> CHR '','' \<notin> set src \<and> CHR '','' \<notin> set dst"
  by (auto simp: mountSpecChecked_def contains_byte_def)

text \<open>Options come in pairs: a flag and its value.\<close>

definition flat :: "(string \<times> string) list \<Rightarrow> string list" where
  "flat ps = concat (map (\<lambda>p. [fst p, snd p]) ps)"

lemma flat_append [simp]: "flat (ps @ qs) = flat ps @ flat qs"
  by (simp add: flat_def)

lemma flat_Nil [simp]: "flat [] = []"
  by (simp add: flat_def)

definition mounts_as :: "(string \<times> string) list \<Rightarrow> (string \<times> string \<times> string) list \<Rightarrow> bool" where
  "mounts_as ps ms = list_all2 (\<lambda>p m. fst p = ''--mount'' \<and> reads_as (snd p) (fst m) (fst (snd m)) (snd (snd m))) ps ms"

lemma mounts_as_append: "mounts_as ps ms \<Longrightarrow> mounts_as qs ns \<Longrightarrow> mounts_as (ps @ qs) (ms @ ns)"
  unfolding mounts_as_def by (rule list_all2_appendI)

lemma mounts_as_Nil [simp]: "mounts_as [] []"
  by (simp add: mounts_as_def)

lemma mount_arg_spec:
  assumes "mount_arg kind src dst = Inr args" "CHR '','' \<notin> set kind"
  shows "\<exists>ps. args = flat ps \<and> mounts_as ps [(kind, src, dst)]"
proof -
  from assms(1) have a: "args = [''--mount'', mount_text kind src dst]" "CHR '','' \<notin> set src" "CHR '','' \<notin> set dst"
    by (auto simp: mount_arg_def MountSpec_def rbind_Inr_iff checked_ok)
  have "mounts_as [(''--mount'', mount_text kind src dst)] [(kind, src, dst)]"
    using mount_text_fields [OF assms(2) a(2,3)] by (simp add: mounts_as_def reads_as_def)
  then show ?thesis using a(1) by (intro exI [of _ "[(''--mount'', mount_text kind src dst)]"]) (simp add: flat_def)
qed

lemma fold_concat:
  assumes "fold_result (\<lambda>x acc. rbind (f x) (\<lambda>ys. Inr (acc @ ys))) xs acc = Inr out"
    and "\<And>x ys. x \<in> set xs \<Longrightarrow> f x = Inr ys \<Longrightarrow> \<exists>ps. ys = flat ps \<and> mounts_as ps [g x]"
  shows "\<exists>ps. out = acc @ flat ps \<and> mounts_as ps (map g xs)"
  using assms
proof (induction xs arbitrary: acc)
  case Nil
  then show ?case by (intro exI [of _ "[]"]) simp
next
  case (Cons x xs)
  from Cons.prems(1) obtain ys where y: "f x = Inr ys"
    "fold_result (\<lambda>x acc. rbind (f x) (\<lambda>ys. Inr (acc @ ys))) xs (acc @ ys) = Inr out" by (auto simp: rbind_Inr_iff)
  from Cons.prems(2) [OF _ y(1)] obtain ps where p: "ys = flat ps" "mounts_as ps [g x]" by auto
  from Cons.IH [OF y(2)] Cons.prems(2) obtain qs where q: "out = (acc @ ys) @ flat qs" "mounts_as qs (map g xs)" by auto
  have "out = acc @ flat (ps @ qs)" "mounts_as (ps @ qs) (map g (x # xs))"
    using p q mounts_as_append [OF p(2) q(2)] by simp_all
  then show ?case by blast
qed

lemma concat_mounts:
  assumes "concat_results f xs = Inr out"
    and "\<And>x ys. x \<in> set xs \<Longrightarrow> f x = Inr ys \<Longrightarrow> \<exists>ps. ys = flat ps \<and> mounts_as ps [g x]"
  shows "\<exists>ps. out = flat ps \<and> mounts_as ps (map g xs)"
  using fold_concat [OF assms(1) [unfolded concat_results_def] assms(2)] by simp

section \<open>Host mounts\<close>

text \<open>The source of a declared host mount, as the host names it.\<close>

definition host_mount :: "win_host \<Rightarrow> string option \<Rightarrow> string \<Rightarrow> string \<times> string \<times> string" where
  "host_mount h home spec = (case ParseHostMount spec of
     Inr (source, target, mode) \<Rightarrow> (case ExpandHostMountSource home source of
       Inr expanded \<Rightarrow> (''bind'', the (CanonicalPath h expanded), target)
     | Inl _ \<Rightarrow> ([], [], []))
   | Inl _ \<Rightarrow> ([], [], []))"

lemma host_mount_arg_spec:
  assumes "host_mount_arg h home spec args = Inr args'"
  shows "\<exists>ps. args' = args @ flat ps \<and> mounts_as ps [host_mount h home spec]"
proof -
  from assms obtain source target mode expanded canon m where p: "ParseHostMount spec = Inr (source, target, mode)"
    "ExpandHostMountSource home source = Inr expanded" "CanonicalPath h expanded = Some canon"
    "MountSpecMode ''bind'' canon target mode = Inr m" "args' = args @ [''--mount'', m]"
  proof -
    from assms obtain source target mode expanded where s: "ParseHostMount spec = Inr (source, target, mode)"
      "ExpandHostMountSource home source = Inr expanded" by (auto simp: host_mount_arg_def rbind_Inr_iff)
    then obtain canon where c: "CanonicalPath h expanded = Some canon"
      using assms by (cases "CanonicalPath h expanded") (auto simp: host_mount_arg_def)
    then obtain m where "MountSpecMode ''bind'' canon target mode = Inr m" "args' = args @ [''--mount'', m]"
      using assms s by (cases "whStat h canon") (auto simp: host_mount_arg_def rbind_Inr_iff split: if_splits)
    with s c show thesis by (rule that)
  qed
  have b: "CHR '','' \<notin> set ''bind''" by simp
  have "reads_as m ''bind'' canon target"
    using p(4) mount_text_fields [OF b] by (auto simp: MountSpecMode_def rbind_Inr_iff checked_ok reads_as_def split: if_splits)
  then have "mounts_as [(''--mount'', m)] [host_mount h home spec]" using p(1-3) by (simp add: mounts_as_def host_mount_def)
  then show ?thesis using p(5) by (intro exI [of _ "[(''--mount'', m)]"]) (simp add: flat_def)
qed

lemma host_mounts_spec:
  assumes "fold_result (host_mount_arg h home) specs args = Inr args'"
  shows "\<exists>ps. args' = args @ flat ps \<and> mounts_as ps (map (host_mount h home) specs)"
  using assms
proof (induction specs arbitrary: args)
  case Nil
  then show ?case by (intro exI [of _ "[]"]) simp
next
  case (Cons spec specs)
  from Cons.prems obtain args1 where a: "host_mount_arg h home spec args = Inr args1"
    "fold_result (host_mount_arg h home) specs args1 = Inr args'" by (auto simp: rbind_Inr_iff)
  from host_mount_arg_spec [OF a(1)] obtain ps where p: "args1 = args @ flat ps" "mounts_as ps [host_mount h home spec]" by blast
  from Cons.IH [OF a(2)] obtain qs where q: "args' = args1 @ flat qs" "mounts_as qs (map (host_mount h home) specs)" by blast
  have "args' = args @ flat (ps @ qs)" "mounts_as (ps @ qs) (map (host_mount h home) (spec # specs))"
    using p q mounts_as_append [OF p(2) q(2)] by simp_all
  then show ?case by blast
qed

section \<open>The provider\<close>

definition volume_of :: "(docker_error, string \<times> 'a) result \<Rightarrow> string" where
  "volume_of r = (case r of Inr (name, _) \<Rightarrow> name | Inl _ \<Rightarrow> [])"

text \<open>The volumes a tool mounts, by the names under which they are ensured.\<close>

definition mounted_volumes :: "win_host \<Rightarrow> tool \<Rightarrow> run_context \<Rightarrow> string list" where
  "mounted_volumes h t ctx =
     (if tProvider t = ''python'' then [PythonEnvID h (rxRoot ctx) (rxFound ctx), ''cb-pip-cache'']
      else if tProvider t = ''stateful'' then map (volume_of \<circ> project_volume h t ctx) (tProjectVolumes t)
        @ map (volume_of \<circ> shared_volume t) (tSharedVolumes t)
      else [])"

definition volume_mounts_as :: "(string \<times> string) list \<Rightarrow> string list \<Rightarrow> bool" where
  "volume_mounts_as ps names = (\<exists>ms. mounts_as ps ms \<and> map (\<lambda>m. (fst m, fst (snd m))) ms = map (\<lambda>n. (''volume'', n)) names)"

lemma project_volume_arg_spec:
  assumes "project_volume_arg h t ctx spec = Inr args"
  shows "\<exists>ps. args = flat ps \<and> mounts_as ps [(''volume'', volume_of (project_volume h t ctx spec),
    StatefulWorkspaceDestination (snd (projr (parsed_binding spec))) (rxWorkspaceRoot ctx))]"
proof -
  from assms obtain name dst where v: "parsed_binding spec = Inr (name, dst)"
    "mount_arg ''volume'' (StatefulProjectVolumeID h (tStateGroup t) name (rxRoot ctx)) (StatefulWorkspaceDestination dst (rxWorkspaceRoot ctx)) = Inr args"
    by (auto simp: project_volume_arg_def rbind_Inr_iff)
  have "CHR '','' \<notin> set ''volume''" by simp
  from mount_arg_spec [OF v(2) this] show ?thesis by (simp add: project_volume_def v(1) volume_of_def)
qed

lemma shared_volume_arg_spec:
  assumes "shared_volume_arg t spec = Inr args"
  shows "\<exists>ps. args = flat ps \<and> mounts_as ps [(''volume'', volume_of (shared_volume t spec), snd (projr (parsed_binding spec)))]"
proof -
  from assms obtain name dst where v: "parsed_binding spec = Inr (name, dst)"
    "mount_arg ''volume'' (StatefulSharedVolumeID (tStateGroup t) name) dst = Inr args"
    by (auto simp: shared_volume_arg_def rbind_Inr_iff)
  have "CHR '','' \<notin> set ''volume''" by simp
  from mount_arg_spec [OF v(2) this] show ?thesis by (simp add: shared_volume_def v(1) volume_of_def)
qed

lemma provider_options:
  assumes "provider_args bootstrap h t ctx mapped = Inr (opts, command)"
  shows "\<exists>ps qs. opts = flat (ps @ qs) \<and> volume_mounts_as ps (mounted_volumes h t ctx) \<and> list_all (\<lambda>q. fst q = ''-e'') qs
    \<and> suffix (tArgsPrefix t @ mapped) command"
proof -
  have v: "CHR '','' \<notin> set ''volume''" by simp
  consider (python) "tProvider t = ''python''" | (stateful) "tProvider t = ''stateful''" | (stateless) "tProvider t = ''stateless''"
    using assms by (auto simp: provider_args_def split: if_splits)
  then show ?thesis
  proof cases
    case python
    then obtain venv cache where a: "mount_arg ''volume'' (PythonEnvID h (rxRoot ctx) (rxFound ctx)) ''/venv'' = Inr venv"
      "mount_arg ''volume'' ''cb-pip-cache'' ''/root/.cache/pip'' = Inr cache"
      and o: "opts = venv @ cache @ flat [(''-e'', ''VIRTUAL_ENV=/venv''), (''-e'',
         ''PATH=/venv/bin:/usr/local/bin:/usr/local/sbin:/usr/sbin:/usr/bin:/sbin:/bin'')]"
      and c: "command = [''sh'', ''-c'', bootstrap, ''cb''] @ (if tRole t = ''pip'' then [''__CB_PIP__''] else []) @ tArgsPrefix t @ mapped"
      using assms by (auto simp: provider_args_def python_options_def rbind_Inr_iff flat_def)
    from mount_arg_spec [OF a(1) v] obtain ps where p: "venv = flat ps"
      "mounts_as ps [(''volume'', PythonEnvID h (rxRoot ctx) (rxFound ctx), ''/venv'')]" by blast
    from mount_arg_spec [OF a(2) v] obtain qs where q: "cache = flat qs"
      "mounts_as qs [(''volume'', ''cb-pip-cache'', ''/root/.cache/pip'')]" by blast
    have "volume_mounts_as (ps @ qs) (mounted_volumes h t ctx)"
      unfolding volume_mounts_as_def using mounts_as_append [OF p(2) q(2)] python by (intro exI conjI) (auto simp: mounted_volumes_def)
    moreover have "suffix (tArgsPrefix t @ mapped) command"
      unfolding c suffix_def by (rule exI [of _ "[''sh'', ''-c'', bootstrap, ''cb''] @ (if tRole t = ''pip'' then [''__CB_PIP__''] else [])"]) simp
    moreover have "opts = flat ((ps @ qs) @ [(''-e'', ''VIRTUAL_ENV=/venv''), (''-e'',
         ''PATH=/venv/bin:/usr/local/bin:/usr/local/sbin:/usr/sbin:/usr/bin:/sbin:/bin'')])" by (simp only: o p(1) q(1) flat_append append_assoc)
    ultimately show ?thesis by (intro exI conjI) (assumption | simp)+
  next
    case stateful
    then obtain own shared where a: "concat_results (project_volume_arg h t ctx) (tProjectVolumes t) = Inr own"
      "concat_results (shared_volume_arg t) (tSharedVolumes t) = Inr shared" and o: "opts = own @ shared"
      and c: "command = tCommand t @ tArgsPrefix t @ mapped"
      using assms by (auto simp: provider_args_def rbind_Inr_iff)
    have "\<exists>ps. own = flat ps \<and> mounts_as ps (map (\<lambda>spec. (''volume'', volume_of (project_volume h t ctx spec),
        StatefulWorkspaceDestination (snd (projr (parsed_binding spec))) (rxWorkspaceRoot ctx))) (tProjectVolumes t))"
      by (rule concat_mounts [OF a(1)]) (rule project_volume_arg_spec)
    then obtain ps where p: "own = flat ps" "mounts_as ps (map (\<lambda>spec. (''volume'', volume_of (project_volume h t ctx spec),
        StatefulWorkspaceDestination (snd (projr (parsed_binding spec))) (rxWorkspaceRoot ctx))) (tProjectVolumes t))" by blast
    have "\<exists>qs. shared = flat qs \<and> mounts_as qs (map (\<lambda>spec. (''volume'', volume_of (shared_volume t spec),
        snd (projr (parsed_binding spec)))) (tSharedVolumes t))"
      by (rule concat_mounts [OF a(2)]) (rule shared_volume_arg_spec)
    then obtain qs where q: "shared = flat qs" "mounts_as qs (map (\<lambda>spec. (''volume'', volume_of (shared_volume t spec),
        snd (projr (parsed_binding spec)))) (tSharedVolumes t))" by blast
    have "volume_mounts_as (ps @ qs) (mounted_volumes h t ctx)"
      unfolding volume_mounts_as_def using mounts_as_append [OF p(2) q(2)] stateful by (intro exI conjI) (auto simp: mounted_volumes_def)
    moreover have "opts = flat ((ps @ qs) @ [])" by (simp add: o p(1) q(1))
    moreover have "suffix (tArgsPrefix t @ mapped) command" unfolding c suffix_def by blast
    ultimately show ?thesis by (intro exI conjI) (assumption | simp)+
  next
    case stateless
    then have "opts = flat ([] @ [])" "command = tCommand t @ tArgsPrefix t @ mapped" using assms by (auto simp: provider_args_def)
    moreover have "volume_mounts_as [] (mounted_volumes h t ctx)"
      unfolding volume_mounts_as_def using stateless by (intro exI [of _ "[]"]) (simp add: mounted_volumes_def)
    ultimately show ?thesis unfolding suffix_def by (intro exI conjI) (assumption | simp)+
  qed
qed

section \<open>The invocation\<close>

definition invocation :: "run_host \<Rightarrow> tool \<Rightarrow> run_context \<Rightarrow> string \<Rightarrow> bool \<Rightarrow> string list \<Rightarrow> (string \<times> string) list \<Rightarrow> string list \<Rightarrow> bool" where
  "invocation R t ctx imageRef tty mapped pathMounts args = (\<exists>bs vs es fs command.
     args = [''run'', ''--rm'', ''-i''] @ (if tty then [''-t''] else []) @ [''--workdir'', rxContainerWD ctx] @ flat (bs @ es @ vs @ fs) @ [imageRef] @ command
     \<and> mounts_as bs ((if tCwdMode t \<noteq> ''isolated'' then [(''bind'', rxRoot ctx, rxWorkspaceRoot ctx)] else [])
          @ map (\<lambda>m. (''bind'', fst m, snd m)) pathMounts @ map (host_mount (rhHost R) (rhHome R)) (tHostMounts t))
     \<and> volume_mounts_as vs (mounted_volumes (rhHost R) t ctx)
     \<and> es = map (\<lambda>v. (''-e'', v)) (selectedHostEnvForHost (rhUpper R) (whGOOS (rhHost R)) t (rhEnviron R) @ tEnvSet t)
     \<and> list_all (\<lambda>q. fst q = ''-e'') fs \<and> suffix (tArgsPrefix t @ mapped) command)"

lemma env_args_flat: "env_args xs = flat (map (\<lambda>v. (''-e'', v)) xs)"
  by (simp add: env_args_def flat_def comp_def)

lemma docker_args_shape:
  assumes "buildDockerArgs R t userArgs ctx imageRef tty = Inr args"
  shows "\<exists>mapped pathMounts. MapToolArgs (rhHost R) (rhMountRoot R) t (rxRoot ctx) (rxCwd ctx) (rxWorkspaceRoot ctx) userArgs = Inr (mapped, pathMounts)
    \<and> invocation R t ctx imageRef tty mapped pathMounts args"
proof -
  let ?h = "rhHost R"
  from assms obtain mapped pathMounts rootMount argMounts hostMounts opts command where
    m: "MapToolArgs ?h (rhMountRoot R) t (rxRoot ctx) (rxCwd ctx) (rxWorkspaceRoot ctx) userArgs = Inr (mapped, pathMounts)" and
    r: "(if tCwdMode t \<noteq> ''isolated'' then mount_arg ''bind'' (rxRoot ctx) (rxWorkspaceRoot ctx) else Inr []) = Inr rootMount" and
    a: "concat_results (\<lambda>m. mount_arg ''bind'' (fst m) (snd m)) pathMounts = Inr argMounts" and
    h: "buildHostMountArgs ?h (rhHome R) (tHostMounts t) = Inr hostMounts" and
    p: "provider_args (rhBootstrap R) ?h t ctx mapped = Inr (opts, command)" and
    args: "args = [''run'', ''--rm'', ''-i''] @ (if tty then [''-t''] else []) @ [''--workdir'', rxContainerWD ctx] @ rootMount @ argMounts
          @ hostMounts @ env_args (selectedHostEnvForHost (rhUpper R) (whGOOS ?h) t (rhEnviron R)) @ env_args (tEnvSet t)
          @ opts @ [imageRef] @ command"
    unfolding buildDockerArgs_def Let_def by (auto simp: rbind_Inr_iff simp del: append.simps)
  have b: "CHR '','' \<notin> set ''bind''" by simp
  have "\<exists>ps. rootMount = flat ps \<and> mounts_as ps (if tCwdMode t \<noteq> ''isolated'' then [(''bind'', rxRoot ctx, rxWorkspaceRoot ctx)] else [])"
    using r mount_arg_spec [OF _ b] by (auto split: if_splits intro: exI [of _ "[]"])
  then obtain p1 where p1: "rootMount = flat p1"
    "mounts_as p1 (if tCwdMode t \<noteq> ''isolated'' then [(''bind'', rxRoot ctx, rxWorkspaceRoot ctx)] else [])" by blast
  from concat_mounts [OF a mount_arg_spec [OF _ b]] obtain p2 where p2: "argMounts = flat p2"
    "mounts_as p2 (map (\<lambda>m. (''bind'', fst m, snd m)) pathMounts)" by blast
  from host_mounts_spec [OF h [unfolded buildHostMountArgs_def]] obtain p3 where p3: "hostMounts = flat p3"
    "mounts_as p3 (map (host_mount ?h (rhHome R)) (tHostMounts t))" by auto
  from provider_options [OF p] obtain ps qs where q: "opts = flat (ps @ qs)" "volume_mounts_as ps (mounted_volumes ?h t ctx)"
    "list_all (\<lambda>q. fst q = ''-e'') qs" "suffix (tArgsPrefix t @ mapped) command" by blast
  let ?es = "map (\<lambda>v. (''-e'', v)) (selectedHostEnvForHost (rhUpper R) (whGOOS ?h) t (rhEnviron R) @ tEnvSet t)"
  have e: "env_args (selectedHostEnvForHost (rhUpper R) (whGOOS ?h) t (rhEnviron R)) @ env_args (tEnvSet t) = flat ?es"
    by (simp only: env_args_flat map_append flat_append)
  have "args = [''run'', ''--rm'', ''-i''] @ (if tty then [''-t''] else []) @ [''--workdir'', rxContainerWD ctx]
      @ flat ((p1 @ p2 @ p3) @ ?es @ ps @ qs) @ [imageRef] @ command"
    by (simp only: args p1(1) p2(1) p3(1) q(1) flat_append append_assoc flip: e)
  moreover have "mounts_as (p1 @ p2 @ p3) ((if tCwdMode t \<noteq> ''isolated'' then [(''bind'', rxRoot ctx, rxWorkspaceRoot ctx)] else [])
          @ map (\<lambda>m. (''bind'', fst m, snd m)) pathMounts @ map (host_mount ?h (rhHome R)) (tHostMounts t))"
    by (intro mounts_as_append p1 p2 p3)
  ultimately have "invocation R t ctx imageRef tty mapped pathMounts args" unfolding invocation_def using q(2-4) by blast
  with m show ?thesis by blast
qed

section \<open>Volumes before the run\<close>

definition ensured_names :: "docker_command list \<Rightarrow> string list" where
  "ensured_names calls = concat (map (\<lambda>c. case c of Ensure_Volume name _ \<Rightarrow> [name] | Run_Container _ \<Rightarrow> []) calls)"

lemma ensured_names_append [simp]: "ensured_names (a @ b) = ensured_names a @ ensured_names b"
  by (simp add: ensured_names_def)

lemma ensure_loop_names:
  assumes "ensure_loop f ok xs = (calls, None)"
  shows "ensured_names calls = map (volume_of \<circ> f) xs" "list_all ok (ensured_names calls)"
    "list_all (\<lambda>c. \<exists>name labels. c = Ensure_Volume name labels) calls"
  using assms by (induction xs arbitrary: calls) (auto simp: ensured_names_def volume_of_def split: sum.splits prod.splits if_splits)

lemma ensure_volumes_names:
  assumes "ensureDockerVolumes h ok t ctx = (calls, None)"
  shows "ensured_names calls = mounted_volumes h t ctx" "list_all ok (ensured_names calls)"
    "list_all (\<lambda>c. \<exists>name labels. c = Ensure_Volume name labels) calls"
proof -
  have "ensured_names calls = mounted_volumes h t ctx \<and> list_all ok (ensured_names calls)
    \<and> list_all (\<lambda>c. \<exists>name labels. c = Ensure_Volume name labels) calls"
  proof -
    consider (python) "tProvider t = ''python''" | (stateful) "tProvider t = ''stateful''"
      | (other) "tProvider t \<noteq> ''python''" "tProvider t \<noteq> ''stateful''" by blast
    then show ?thesis
    proof cases
      case python
      then have "ensure_loop Inr ok [(PythonEnvID h (rxRoot ctx) (rxFound ctx), python_labels h ctx),
          (''cb-pip-cache'', shared_labels ''python313/pip-cache'')] = (calls, None)"
        using assms python by (simp add: ensureDockerVolumes_def del: ensure_loop.simps)
      from ensure_loop_names [OF this] show ?thesis using python by (simp add: mounted_volumes_def volume_of_def)
    next
      case stateful
      then obtain c1 c2 where c: "ensure_loop (project_volume h t ctx) ok (tProjectVolumes t) = (c1, None)"
        "ensure_loop (shared_volume t) ok (tSharedVolumes t) = (c2, None)" "calls = c1 @ c2"
        using assms by (auto simp: ensureDockerVolumes_def split: prod.splits option.splits)
      show ?thesis using ensure_loop_names [OF c(1)] ensure_loop_names [OF c(2)] stateful c(3) by (simp add: mounted_volumes_def)
    next
      case other
      then show ?thesis using assms by (simp add: ensureDockerVolumes_def mounted_volumes_def ensured_names_def)
    qed
  qed
  then show "ensured_names calls = mounted_volumes h t ctx" "list_all ok (ensured_names calls)"
    "list_all (\<lambda>c. \<exists>name labels. c = Ensure_Volume name labels) calls" by blast+
qed

lemma run_tool_spec:
  assumes "RunTool R A t userArgs = (calls, result)" "Run_Container args \<in> set calls"
  shows "\<exists>cwd ctx imageRef mapped pathMounts ensures. calls = ensures @ [Run_Container args]
    \<and> Option.bind (rtCwd A) (CanonicalPath (rhHost R)) = Some cwd \<and> resolveRunContext (rhHost R) (rhFind R) t cwd = Inr ctx
    \<and> rtImage A = Inr imageRef \<and> ensured_names ensures = mounted_volumes (rhHost R) t ctx \<and> list_all (rtEnsure A) (ensured_names ensures)
    \<and> MapToolArgs (rhHost R) (rhMountRoot R) t (rxRoot ctx) (rxCwd ctx) (rxWorkspaceRoot ctx) userArgs = Inr (mapped, pathMounts)
    \<and> invocation R t ctx imageRef (rtInteractive A) mapped pathMounts args"
proof -
  let ?prep = "rbind (case Option.bind (rtCwd A) (CanonicalPath (rhHost R)) of None \<Rightarrow> Inl Dk_Cwd | Some c \<Rightarrow> Inr c) (\<lambda>cwd.
        rbind (resolveRunContext (rhHost R) (rhFind R) t cwd) (\<lambda>ctx.
        rbind (map_err Dk_Image (rtImage A)) (\<lambda>imageRef.
        rbind (buildDockerArgs R t userArgs ctx imageRef (rtInteractive A)) (\<lambda>args. Inr (ctx, args)))))"
  have run: "RunTool R A t userArgs = (case ?prep of Inl e \<Rightarrow> ([], Inl e)
      | Inr (ctx, args) \<Rightarrow> (case ensureDockerVolumes (rhHost R) (rtEnsure A) t ctx of
          (calls, Some e) \<Rightarrow> (calls, Inl e)
        | (calls, None) \<Rightarrow>
          (if \<not> rtTrace A then (calls, Inl Dk_Trace)
           else (calls @ [Run_Container args], case rtExit A of None \<Rightarrow> Inl Dk_Run | Some code \<Rightarrow> Inr code))))"
    by (simp add: RunTool_def)
  have none: "Run_Container a \<notin> set c" if "ensureDockerVolumes (rhHost R) ok t ctx = (c, e)" for a c e ok ctx
  proof -
    have "list_all (\<lambda>c. \<exists>name labels. c = Ensure_Volume name labels) cs" if "ensure_loop f ok xs = (cs, e)"
      for f :: "'x \<Rightarrow> (docker_error, string \<times> labels) result" and xs cs e
      using that by (induction xs arbitrary: cs) (auto split: sum.splits prod.splits if_splits)
    note l = this
    show ?thesis using that
      by (auto simp: ensureDockerVolumes_def list_all_iff split: if_splits prod.splits option.splits dest!: l)
  qed
  from assms run obtain ctx args' where p: "?prep = Inr (ctx, args')" by (cases ?prep) auto
  obtain ens e where en: "ensureDockerVolumes (rhHost R) (rtEnsure A) t ctx = (ens, e)" by fastforce
  have c: "e = None" "calls = ens @ [Run_Container args']" "args' = args"
    using assms run p en none [OF en] by (auto split: option.splits if_splits)
  from p obtain cwd imageRef where q: "Option.bind (rtCwd A) (CanonicalPath (rhHost R)) = Some cwd"
    "resolveRunContext (rhHost R) (rhFind R) t cwd = Inr ctx" "rtImage A = Inr imageRef"
    "buildDockerArgs R t userArgs ctx imageRef (rtInteractive A) = Inr args'"
    by (auto simp: rbind_Inr_iff split: option.splits)
  from docker_args_shape [OF q(4)] obtain mapped pathMounts where
    "MapToolArgs (rhHost R) (rhMountRoot R) t (rxRoot ctx) (rxCwd ctx) (rxWorkspaceRoot ctx) userArgs = Inr (mapped, pathMounts)"
    "invocation R t ctx imageRef (rtInteractive A) mapped pathMounts args'" by blast
  with c q(1-3) ensure_volumes_names [OF en [unfolded c(1)]] show ?thesis by blast
qed

section \<open>The environment\<close>

lemma select_env_names: "set (select_env key t environ seen) \<subseteq> env_name ` set environ"
  by (induction environ arbitrary: seen) (auto simp: Let_def)

lemma select_env_match:
  "n \<in> set (select_env key t environ seen) \<Longrightarrow> env_match key t (key n) \<and> key n \<notin> set seen"
proof (induction environ arbitrary: seen)
  case (Cons kv environ)
  from Cons.prems consider "n = env_name kv" "env_match key t (key n)" "key n \<notin> set seen"
    | "n \<in> set (select_env key t environ (key (env_name kv) # seen))" | "n \<in> set (select_env key t environ seen)"
    by (auto simp: Let_def split: if_splits)
  then show ?case
  proof cases
    case 2
    then show ?thesis using Cons.IH [of "key (env_name kv) # seen"] by simp
  qed (use Cons.IH [of seen] in simp_all)
qed simp

lemma select_env_distinct: "distinct (map key (select_env key t environ seen))"
proof (induction environ arbitrary: seen)
  case (Cons kv environ)
  have "key (env_name kv) \<notin> key ` set (select_env key t environ (key (env_name kv) # seen))"
  proof
    assume "key (env_name kv) \<in> key ` set (select_env key t environ (key (env_name kv) # seen))"
    then obtain n where "n \<in> set (select_env key t environ (key (env_name kv) # seen))" "key n = key (env_name kv)" by auto
    then show False using select_env_match [of n key t environ "key (env_name kv) # seen"] by simp
  qed
  then show ?case using Cons by (auto simp: Let_def)
qed simp

lemma select_env_complete:
  "kv \<in> set environ \<Longrightarrow> env_match key t (key (env_name kv)) \<Longrightarrow> key (env_name kv) \<notin> set seen
     \<Longrightarrow> key (env_name kv) \<in> key ` set (select_env key t environ seen)"
proof (induction environ arbitrary: seen)
  case (Cons x environ)
  then show ?case by (cases "key (env_name x) = key (env_name kv)") (auto simp: Let_def)
qed simp

section \<open>Labels\<close>

text \<open>What \<open>docker volume inspect\<close> prints for labels, one line each.\<close>

definition print_labels :: "labels \<Rightarrow> string" where
  "print_labels m = concat (map (\<lambda>e. fst e @ ''='' @ snd e @ [CHR 0x0A]) m)"

end
