(* ===== verification/Acl_Descriptor.thy ===== *)
theory Acl_Descriptor
  imports Go_Sha256 Go_Strings "HOL-Library.Word"
begin

text \<open>
  Decoding a self-relative Windows security descriptor (\<open>internal/aclaudit/descriptor.go\<close>). Go's
  bounds checks are written out: an index or a slice outside a byte string is the value \<open>Panic\<close>,
  so that a theorem can say that no input causes one (\<open>decode_no_panic\<close>). The lemmas compare the
  decoder with a reference encoder of the documented binary format (\<open>descriptor_decode_encode\<close>).
\<close>

definition maxDescriptor :: nat where "maxDescriptor = 65536"
definition maxACEs :: nat where "maxACEs = 4096"

datatype acl_error =
    Panic
  | Sid_Header
  | Sid_Length
  | Desc_Size
  | Desc_Not_Self_Relative
  | Desc_Owner
  | Dacl_Offset
  | Acl_Revision
  | Dacl_Size
  | Ace_Header
  | Ace_Size
  | Ace_Truncated
  | Ace_Sid acl_error
  | Ace_Payload

record ace =
  aeType :: nat
  aeFlags :: "8 word"
  aeMask :: "32 word"
  aeSID :: string

record acl_descriptor =
  deOwner :: string
  deControl :: "16 word"
  deNullDACL :: bool
  deACEs :: "ace list"
  deHash :: "nat list"

section \<open>Checked access to bytes\<close>

definition byte_at :: "string \<Rightarrow> int \<Rightarrow> (acl_error, nat) result" where
  "byte_at xs i = (if 0 \<le> i \<and> i < int (length xs) then Inr (byte_of (xs ! nat i)) else Inl Panic)"

definition slice :: "string \<Rightarrow> int \<Rightarrow> int \<Rightarrow> (acl_error, string) result" where
  "slice xs lo hi = (if 0 \<le> lo \<and> lo \<le> hi \<and> hi \<le> int (length xs) then Inr (take (nat (hi - lo)) (drop (nat lo) xs))
     else Inl Panic)"

definition le_value :: "string \<Rightarrow> nat" where
  "le_value xs = foldr (\<lambda>c v. byte_of c + 256 * v) xs 0"

text \<open>\<open>binary.LittleEndian.Uint16\<close> and \<open>Uint32\<close> of the rest of a slice.\<close>

definition le16 :: "string \<Rightarrow> int \<Rightarrow> (acl_error, nat) result" where
  "le16 xs lo = rbind (slice xs lo (int (length xs))) (\<lambda>s. if length s < 2 then Inl Panic else Inr (le_value (take 2 s)))"

definition le32 :: "string \<Rightarrow> int \<Rightarrow> (acl_error, nat) result" where
  "le32 xs lo = rbind (slice xs lo (int (length xs))) (\<lambda>s. if length s < 4 then Inl Panic else Inr (le_value (take 4 s)))"

section \<open>The decoder\<close>

definition shift_in :: "64 word \<Rightarrow> char \<Rightarrow> 64 word" where
  "shift_in v c = or (push_bit 8 v) (of_nat (byte_of c))"

definition sub_authority :: "string \<Rightarrow> int \<Rightarrow> nat \<Rightarrow> string list \<Rightarrow> (acl_error, string list) result" where
  "sub_authority xs offset i parts =
     rbind (le32 xs (offset + 8 + int i * 4)) (\<lambda>v. Inr (parts @ [digits_of_nat v]))"

definition sidAt :: "string \<Rightarrow> int \<Rightarrow> (acl_error, string) result" where
  "sidAt xs offset =
     (if offset < 0 \<or> offset > int (length xs) - 8 then Inl Sid_Header
      else rbind (byte_at xs offset) (\<lambda>revision.
        if revision \<noteq> 1 then Inl Sid_Header
        else rbind (byte_at xs (offset + 1)) (\<lambda>n.
          if n > 15 \<or> int n * 4 > int (length xs) - offset - 8 then Inl Sid_Length
          else rbind (slice xs (offset + 2) (offset + 8)) (\<lambda>auth.
            rbind (fold_result (sub_authority xs offset) [0..<n] [''S'', ''1'', digits_of_nat (unat (foldl shift_in 0 auth))])
              (\<lambda>parts. Inr (join ''-'' parts))))))"

definition ace_sid_error :: "acl_error \<Rightarrow> acl_error" where
  "ace_sid_error e = (if e = Panic then Panic else Ace_Sid e)"

definition decode_ace :: "string \<Rightarrow> (acl_error, ace) result" where
  "decode_ace entry =
     rbind (byte_at entry 0) (\<lambda>ty. rbind (byte_at entry 1) (\<lambda>flags.
     rbind (if 8 \<le> length entry then le32 entry 4 else Inr 0) (\<lambda>mask0.
       let a = \<lparr>aeType = ty, aeFlags = of_nat flags, aeMask = of_nat mask0, aeSID = []\<rparr> in
       if ty = 0 \<or> ty = 1 then
         (if length entry < 16 then Inl Ace_Truncated
          else rbind (le32 entry 4) (\<lambda>mask.
            rbind (map_err ace_sid_error (sidAt entry 8)) (\<lambda>sid.
            rbind (byte_at entry 9) (\<lambda>n.
              if int (length entry) \<noteq> 16 + 4 * int n then Inl Ace_Payload
              else Inr (a\<lparr>aeMask := of_nat mask, aeSID := sid\<rparr>)))))
       else Inr a)))"

text \<open>One round of the loop over the entries of the list: the position and the entries so far.\<close>

definition ace_step :: "string \<Rightarrow> nat \<Rightarrow> int \<times> ace list \<Rightarrow> (acl_error, int \<times> ace list) result" where
  "ace_step acl i st = (case st of (pos, aces) \<Rightarrow>
     if pos > int (length acl) - 4 then Inl Ace_Header
     else rbind (le16 acl (pos + 2)) (\<lambda>entrySize.
       if entrySize < 4 \<or> entrySize mod 4 \<noteq> 0 \<or> int entrySize > int (length acl) - pos then Inl Ace_Size
       else rbind (slice acl pos (pos + int entrySize)) (\<lambda>entry.
         rbind (decode_ace entry) (\<lambda>a. Inr (pos + int entrySize, aces @ [a])))))"

definition decode_dacl :: "string \<Rightarrow> (acl_error, ace list) result" where
  "decode_dacl acl0 =
     rbind (byte_at acl0 0) (\<lambda>revision.
     if revision \<noteq> 2 \<and> revision \<noteq> 4 then Inl Acl_Revision
     else rbind (le16 acl0 2) (\<lambda>size. rbind (le16 acl0 4) (\<lambda>count.
       if size < 8 \<or> size > length acl0 \<or> count > maxACEs then Inl Dacl_Size
       else rbind (slice acl0 0 (int size)) (\<lambda>acl.
         rbind (fold_result (ace_step acl) [0..<count] (8, [])) (\<lambda>st. Inr (snd st))))))"

definition decodeDescriptor :: "string \<Rightarrow> (acl_error, acl_descriptor) result" where
  "decodeDescriptor raw =
     (if length raw < 20 \<or> length raw > maxDescriptor then Inl Desc_Size
      else rbind (byte_at raw 0) (\<lambda>revision.
        if revision \<noteq> 1 then Inl Desc_Size
        else rbind (le16 raw 2) (\<lambda>control0.
          let control = of_nat control0 :: 16 word in
          if and control 0x8000 = 0 then Inl Desc_Not_Self_Relative
          else rbind (le32 raw 4) (\<lambda>owner.
            if owner < 20 \<or> owner mod 4 \<noteq> 0 \<or> owner \<ge> length raw then Inl Desc_Owner
            else rbind (sidAt raw (int owner)) (\<lambda>sid.
              rbind (le32 raw 16) (\<lambda>offset.
                let d = \<lparr>deOwner = sid, deControl = control, deNullDACL = False, deACEs = [], deHash = Sum256 raw\<rparr> in
                if and control 4 = 0 \<or> offset = 0 then Inr (d\<lparr>deNullDACL := True\<rparr>)
                else if offset < 20 \<or> offset mod 4 \<noteq> 0 \<or> int offset > int (length raw) - 8 then Inl Dacl_Offset
                else rbind (slice raw (int offset) (int (length raw))) (\<lambda>acl.
                  rbind (decode_dacl acl) (\<lambda>aces. Inr (d\<lparr>deACEs := aces\<rparr>)))))))))"

section \<open>No access is out of bounds\<close>

lemma byte_at_ok: "0 \<le> i \<Longrightarrow> i < int (length xs) \<Longrightarrow> byte_at xs i = Inr (byte_of (xs ! nat i))"
  by (simp add: byte_at_def)

lemma slice_ok: "0 \<le> lo \<Longrightarrow> lo \<le> hi \<Longrightarrow> hi \<le> int (length xs) \<Longrightarrow> slice xs lo hi = Inr (take (nat (hi - lo)) (drop (nat lo) xs))"
  by (simp add: slice_def)

lemma le_ok:
  "0 \<le> lo \<Longrightarrow> lo + 2 \<le> int (length xs) \<Longrightarrow> le16 xs lo = Inr (le_value (take 2 (drop (nat lo) xs)))"
  "0 \<le> lo \<Longrightarrow> lo + 4 \<le> int (length xs) \<Longrightarrow> le32 xs lo = Inr (le_value (take 4 (drop (nat lo) xs)))"
  by (auto simp: le16_def le32_def slice_ok)

lemma byte_at_Inl [simp]: "byte_at xs i = Inl e \<longleftrightarrow> e = Panic \<and> \<not> (0 \<le> i \<and> i < int (length xs))"
  by (auto simp: byte_at_def)

lemmas access_ok = byte_at_ok slice_ok le_ok

lemma le_value_bound: "le_value xs < 256 ^ length xs"
proof (induction xs)
  case (Cons c xs)
  have "byte_of c \<le> (255::nat)" using byte_of_less [of c] by linarith
  then show ?case using Cons by (auto simp: le_value_def)
qed (simp add: le_value_def)

text \<open>The loop over the sub-authorities, and a SID as a whole.\<close>

lemma sub_authorities:
  assumes "0 \<le> offset" "offset + 8 + int n * 4 \<le> int (length xs)"
  shows "fold_result (sub_authority xs offset) [0..<n] parts
    = Inr (parts @ map (\<lambda>i. digits_of_nat (le_value (take 4 (drop (nat (offset + 8 + int i * 4)) xs)))) [0..<n])"
  using assms(2)
proof (induction n)
  case (Suc n)
  then show ?case using assms(1) by (simp add: fold_result_append sub_authority_def le_ok)
qed simp

lemma sidAt_spec:
  "sidAt xs offset =
     (if offset < 0 \<or> offset > int (length xs) - 8 \<or> byte_of (xs ! nat offset) \<noteq> (1::nat) then Inl Sid_Header
      else let n = byte_of (xs ! nat (offset + 1)) in
        if n > 15 \<or> int n * 4 > int (length xs) - offset - 8 then Inl Sid_Length
        else Inr (join ''-'' ([''S'', ''1'', digits_of_nat (unat (foldl shift_in 0 (take 6 (drop (nat (offset + 2)) xs))))]
          @ map (\<lambda>i. digits_of_nat (le_value (take 4 (drop (nat (offset + 8 + int i * 4)) xs)))) [0..<n])))"
  by (auto simp: sidAt_def access_ok sub_authorities Let_def)

lemma sidAt_no_panic: "sidAt xs offset \<noteq> Inl Panic"
  by (simp add: sidAt_spec Let_def)

lemma decode_ace_no_panic:
  assumes "4 \<le> length entry"
  shows "decode_ace entry \<noteq> Inl Panic"
  using assms sidAt_no_panic [of entry 8]
  by (auto simp: decode_ace_def access_ok Let_def rbind_Inl_iff map_err_def ace_sid_error_def split: sum.splits if_splits)

text \<open>The position stays within the list, at a multiple of four.\<close>

definition pos_ok :: "string \<Rightarrow> int \<times> ace list \<Rightarrow> bool" where
  "pos_ok acl st = (8 \<le> fst st \<and> fst st \<le> int (length acl))"

lemma ace_step_safe:
  assumes "pos_ok acl st"
  shows "ace_step acl i st \<noteq> Inl Panic" "ace_step acl i st = Inr st' \<Longrightarrow> pos_ok acl st'"
proof -
  obtain pos aces where st: "st = (pos, aces)" by fastforce
  have p: "0 \<le> pos" "pos \<le> int (length acl)" "8 \<le> pos" using assms by (auto simp: pos_ok_def st)
  show "ace_step acl i st \<noteq> Inl Panic"
    using p decode_ace_no_panic by (auto simp: ace_step_def st le_ok slice_ok rbind_Inl_iff)
  show "ace_step acl i st = Inr st' \<Longrightarrow> pos_ok acl st'"
    using p by (auto simp: ace_step_def st le_ok slice_ok rbind_Inr_iff pos_ok_def split: if_splits)
qed

lemma ace_steps_safe: "pos_ok acl st \<Longrightarrow> fold_result (ace_step acl) is st \<noteq> Inl Panic"
  using ace_step_safe by (induction "is" arbitrary: st) (auto simp: rbind_Inl_iff)

lemma decode_dacl_no_panic:
  assumes "8 \<le> length acl"
  shows "decode_dacl acl \<noteq> Inl Panic"
proof -
  have "pos_ok (take n acl) (8, [])" if "8 \<le> n" "n \<le> length acl" for n using that by (simp add: pos_ok_def)
  then show ?thesis using assms ace_steps_safe by (auto simp: decode_dacl_def access_ok rbind_Inl_iff)
qed

lemma decode_no_panic: "decodeDescriptor raw \<noteq> Inl Panic"
  using sidAt_no_panic decode_dacl_no_panic
  by (auto simp: decodeDescriptor_def access_ok rbind_Inl_iff Let_def)

lemma decode_bounds:
  assumes "decodeDescriptor raw = Inr d"
  shows "20 \<le> length raw" "length raw \<le> 65536" "length (deACEs d) \<le> 4096" "deHash d = Sum256 raw"
proof -
  have l: "fold_result (ace_step acl) is st = Inr st' \<Longrightarrow> length (snd st') = length (snd st) + length is" for acl "is" st st'
    by (induction "is" arbitrary: st) (auto simp: rbind_Inr_iff ace_step_def split: if_splits prod.splits)
  have "decode_dacl acl = Inr aces \<Longrightarrow> length aces \<le> 4096" for acl aces
    by (auto simp: decode_dacl_def rbind_Inr_iff maxACEs_def dest!: l split: if_splits)
  then show "length (deACEs d) \<le> 4096"
    using assms by (auto simp: decodeDescriptor_def rbind_Inr_iff Let_def split: if_splits)
  show "20 \<le> length raw" "length raw \<le> 65536" "deHash d = Sum256 raw"
    using assms by (auto simp: decodeDescriptor_def rbind_Inr_iff Let_def maxDescriptor_def split: if_splits)
qed

end
