(* ===== verification/Acl_Audit.thy ===== *)
theory Acl_Audit
  imports Acl_Descriptor Host_Paths Platform
begin

text \<open>
  The limited audit of Windows access control lists (\<open>internal/aclaudit/model.go\<close>): the report with
  its bounded lines, the classification of one object, and the walk over the ancestors of every
  managed file with its second look at each object. What the operating system answers is
  \<open>audit_answers\<close>: the n-th look at the deadline, the first reading of a path, and the later readings,
  which may differ.
\<close>

definition maxObjects :: nat where "maxObjects = 256"
definition maxDepth :: nat where "maxDepth = 64"
definition maxLines :: nat where "maxLines = 24"

record acl_asset =
  asPath :: string
  asLabel :: string

record acl_request =
  rqDirectory :: string
  rqAssets :: "acl_asset list"
  rqOptional :: "acl_asset list"

record acl_diagnostic =
  dgStatus :: string
  dgMessage :: string

record acl_snapshot =
  snIdentity :: string
  snResolved :: string
  snFilesystem :: string
  snDirectory :: bool
  snReparse :: "32 word"
  snSecurity :: acl_descriptor

record acl_scope =
  scUpdater :: string
  scProfile :: string
  scQualified :: bool
  scAnchor :: acl_snapshot

record acl_report =
  arFindings :: "string list"
  arIncomplete :: "string list"
  arObjects :: nat
  arCandidates :: nat

section \<open>The report\<close>

definition missing :: "string \<Rightarrow> acl_report \<Rightarrow> acl_report" where
  "missing reason r = (if reason \<in> set (arIncomplete r) \<or> maxLines \<le> length (arIncomplete r) then r
     else r\<lparr>arIncomplete := arIncomplete r @ [reason]\<rparr>)"

definition candidate :: "string \<Rightarrow> acl_report \<Rightarrow> acl_report" where
  "candidate reason r = (let r' = r\<lparr>arCandidates := arCandidates r + 1\<rparr> in
     if length (arFindings r') < maxLines - 1 then r'\<lparr>arFindings := arFindings r' @ [reason]\<rparr>
     else missing ''candidate output limit reached'' r')"

definition empty_report :: acl_report where
  "empty_report = \<lparr>arFindings = [], arIncomplete = [], arObjects = 0, arCandidates = 0\<rparr>"

definition ok_message :: string where
  "ok_message = ''limited Windows ACL scan: no candidate authority found within the declared updater/SYSTEM/Administrators model; ''
     @ ''effective access for all identities and future races are not certified''"

definition incomplete_line :: "string \<Rightarrow> string" where
  "incomplete_line s = ''ancestor ACL coverage incomplete: '' @ s"

definition Diagnostics :: "acl_report \<Rightarrow> acl_diagnostic list" where
  "Diagnostics r0 =
     (let r = (if arObjects r0 = 0 \<and> arIncomplete r0 = [] then missing ''no objects inspected'' r0 else r0);
          warn = (\<lambda>s. \<lparr>dgStatus = ''warn'', dgMessage = s\<rparr>);
          found = map (\<lambda>f. warn (''Windows ACL candidate: '' @ f @ ''; effective access and replacement exploitability are not established''))
            (take (maxLines - 1) (sort (arFindings r)))
      in if arIncomplete r \<noteq> [] then
           found @ map (warn \<circ> incomplete_line) (take (maxLines - 1 - length found) (sort (arIncomplete r)))
           @ [warn (incomplete_line (''limited Windows ACL scan inspected '' @ digits_of_nat (arObjects r) @ '' objects and observed ''
               @ digits_of_nat (arCandidates r) @ '' candidate findings; review the installation trust boundary; no security certification''))]
         else if arCandidates r \<noteq> 0 then
           found @ [warn (''limited Windows ACL scan: '' @ digits_of_nat (arCandidates r)
             @ '' candidate findings within the updater/SYSTEM/Administrators model; no effective-access or future-race guarantee'')]
         else found @ [\<lparr>dgStatus = ''ok'', dgMessage = ok_message\<rparr>])"

section \<open>Classification of an object\<close>

definition trusted :: "string \<Rightarrow> string \<Rightarrow> bool" where
  "trusted s updater = (s \<noteq> [] \<and> (s = updater \<or> s = ''S-1-5-18'' \<or> s = ''S-1-5-32-544''))"

definition knownIdentity :: "string \<Rightarrow> string \<Rightarrow> bool" where
  "knownIdentity s updater = (trusted s updater \<or> s \<in> {''S-1-1-0'', ''S-1-5-11'', ''S-1-5-32-545'', ''S-1-5-19'',
     ''S-1-5-20'', ''S-1-5-4'', ''S-1-5-7''})"

fun hex_of_nat :: "nat \<Rightarrow> string" where
  "hex_of_nat n = (if n < 16 then [hex_digit n] else hex_of_nat (n div 16) @ [hex_digit (n mod 16)])"

declare hex_of_nat.simps [simp del]

text \<open>The verb \<open>0x%0wx\<close> of \<open>fmt\<close>.\<close>

definition fmt_hex :: "nat \<Rightarrow> nat \<Rightarrow> string" where
  "fmt_hex w n = ''0x'' @ replicate (w - length (hex_of_nat n)) CHR ''0'' @ hex_of_nat n"

definition grants :: "ace \<Rightarrow> 32 word \<Rightarrow> bool" where
  "grants a bits = (and (aeMask a) bits \<noteq> 0)"

definition ace_rights :: "bool \<Rightarrow> ace \<Rightarrow> string list" where
  "ace_rights directory a =
     (if grants a (or 0x40000 0x10000000) then [''WRITE_DAC''] else [])
     @ (if grants a (or 0x80000 0x10000000) then [''WRITE_OWNER''] else [])
     @ (if grants a (or 0x10000 0x10000000) then [''object DELETE (not parent DELETE_CHILD)''] else [])
     @ (if directory then
          (if grants a (or 0x40 0x10000000) then [''parent DELETE_CHILD (child deletion candidate)''] else [])
          @ (if grants a (or 6 (or 0x40000000 0x10000000)) then [''child creation only; replacement not established''] else [])
        else if grants a (or 6 (or 0x40000000 0x10000000)) then [''file content write/append''] else [])
     @ (if grants a (or 0x110 (or 0x40000000 0x10000000)) then [''attributes/extended-attributes write''] else [])"

definition ace_text :: "ace \<Rightarrow> string" where
  "ace_text a = ''type='' @ fmt_hex 2 (aeType a) @ '' flags='' @ fmt_hex 2 (unat (aeFlags a)) @ '' mask='' @ fmt_hex 8 (unat (aeMask a))"

definition when_missing :: "bool \<Rightarrow> string \<Rightarrow> acl_report \<Rightarrow> acl_report" where
  "when_missing b reason r = (if b then missing reason r else r)"

definition classify_ace :: "string \<Rightarrow> bool \<Rightarrow> string \<Rightarrow> nat \<times> ace \<Rightarrow> acl_report \<Rightarrow> acl_report" where
  "classify_ace label directory updater ia r = (case ia of (k, a) \<Rightarrow>
     let entry = label @ '': ACE['' @ digits_of_nat k @ '']'';
         r1 = when_missing (and (aeMask a) (not 0xF01F01FF) \<noteq> 0) (label @ '': unsupported access-mask bits'') r in
     if aeType a \<noteq> 0 \<and> aeType a \<noteq> 1 then missing (entry @ '' unsupported '' @ ace_text a) r1
     else
       (let r2 = when_missing (and (aeFlags a) (not 0x1F) \<noteq> 0) (entry @ '' unsupported flags='' @ fmt_hex 2 (unat (aeFlags a))) r1 in
        if and (aeFlags a) 8 \<noteq> 0 then r2
        else
          (let r3 = when_missing (\<not> knownIdentity (aeSID a) updater)
                 (label @ '': ACE SID '' @ aeSID a @ '' outside qualified identity model'') r2 in
           if aeType a \<noteq> 0 \<or> trusted (aeSID a) updater then r3
           else if ace_rights directory a \<noteq> []
           then candidate (entry @ '' SID '' @ aeSID a @ '' '' @ ace_text a @ '': '' @ join '', '' (ace_rights directory a)) r3
           else r3)))"

definition classify_owner :: "string \<Rightarrow> acl_descriptor \<Rightarrow> string \<Rightarrow> acl_report \<Rightarrow> acl_report" where
  "classify_owner label d updater r = (if trusted (deOwner d) updater then r
     else when_missing (\<not> knownIdentity (deOwner d) updater) (label @ '': owner identity outside qualified model'')
       (candidate (label @ '': owner SID '' @ deOwner d @ '' may control the DACL (owner-rights restrictions are not evaluated)'') r))"

definition classify_object :: "string \<Rightarrow> acl_snapshot \<Rightarrow> string \<Rightarrow> acl_report \<Rightarrow> acl_report" where
  "classify_object label node updater r =
     (let d = snSecurity node; r1 = classify_owner label d updater r in
      if deNullDACL d then missing (label @ '': null/absent DACL'')
        (candidate (label @ '': null/absent DACL permits broad discretionary access'') r1)
      else fold (classify_ace label (snDirectory node) updater) (enumerate 0 (deACEs d)) r1)"

definition classifyRedirection :: "string \<Rightarrow> acl_snapshot \<Rightarrow> string \<Rightarrow> acl_report \<Rightarrow> acl_report" where
  "classifyRedirection label node caller r =
     (let updater = (if caller \<noteq> [] \<and> deOwner (snSecurity node) = caller then caller else []) in
      missing ''redirection object/target chain is not qualified'' (classify_object label node updater r))"

section \<open>The walk\<close>

record audit_answers =
  awExpired :: "nat \<Rightarrow> bool"
  awRead :: "string \<Rightarrow> acl_snapshot io"
  awAgain :: "string \<Rightarrow> string \<Rightarrow> acl_snapshot io"
  awRecheck :: "string \<Rightarrow> string \<Rightarrow> acl_snapshot io"

record audit_state =
  auReport :: acl_report
  auSeen :: "(string, acl_snapshot) gomap"
  auLabels :: "(string, string) gomap"
  auBlocked :: "string list"
  auAbsent :: "(string, acl_asset) gomap"
  auACEs :: nat
  auTicks :: nat
  auProgress :: "acl_report list"

definition path_within :: "host_paths \<Rightarrow> string \<Rightarrow> string \<Rightarrow> bool" where
  "path_within H p root = (case hpRel H root p of None \<Rightarrow> False | Some rel \<Rightarrow> \<not> above H rel)"

definition validLabel :: "string \<Rightarrow> bool" where
  "validLabel label = (0 < length label \<and> length label \<le> 80 \<and> list_all (\<lambda>c. 32 \<le> c \<and> c \<le> 126) (rune_values label))"

definition sameSnapshot :: "unicode \<Rightarrow> acl_snapshot \<Rightarrow> acl_snapshot \<Rightarrow> bool" where
  "sameSnapshot U a b = (snIdentity a = snIdentity b \<and> equal_fold U (snResolved a) (snResolved b) \<and> snFilesystem a = snFilesystem b
     \<and> snDirectory a = snDirectory b \<and> snReparse a = snReparse b \<and> deOwner (snSecurity a) = deOwner (snSecurity b)
     \<and> deControl (snSecurity a) = deControl (snSecurity b) \<and> deNullDACL (snSecurity a) = deNullDACL (snSecurity b)
     \<and> deHash (snSecurity a) = deHash (snSecurity b) \<and> deACEs (snSecurity a) = deACEs (snSecurity b))"

text \<open>The path and its ancestors, the path first; \<open>None\<close> when there are more than the limit.\<close>

fun ancestors_of :: "host_paths \<Rightarrow> nat \<Rightarrow> string \<Rightarrow> string list option" where
  "ancestors_of H 0 p = None"
| "ancestors_of H (Suc n) p = (if hpDir H p = p then Some [p] else map_option (\<lambda>ps. p # ps) (ancestors_of H n (hpDir H p)))"

definition add_missing :: "string \<Rightarrow> audit_state \<Rightarrow> audit_state" where
  "add_missing reason st = st\<lparr>auReport := missing reason (auReport st)\<rparr>"

text \<open>A round of the inner loop: \<open>return\<close>, \<open>break\<close>, or the next round.\<close>

datatype outcome = Return audit_state | Break audit_state | Next audit_state

text \<open>The checks of an object that was read: the report, and whether its chain is blocked.\<close>

definition node_checks ::
    "host_paths \<Rightarrow> unicode \<Rightarrow> acl_scope \<Rightarrow> string \<Rightarrow> nat \<Rightarrow> nat \<Rightarrow> string \<Rightarrow> string \<Rightarrow> acl_snapshot \<Rightarrow> acl_report \<Rightarrow> acl_report" where
  "node_checks H U s dir targetIndex i p label node r =
     (let installation = equal_fold U p (hpClean H dir);
          r1 = classify_object label node (scUpdater s) r;
          r2 = when_missing (installation \<and> deOwner (snSecurity node) \<noteq> scUpdater s)
            ''installation owner does not validate the updater SID'' r1;
          r3 = when_missing (installation \<and> snIdentity (scAnchor s) \<noteq> [] \<and> \<not> sameSnapshot U (scAnchor s) node)
            ''installation identity/security changed after updater qualification'' r2;
          r4 = when_missing (snFilesystem node \<noteq> ''NTFS'') (label @ '': filesystem is not qualified local NTFS'') r3;
          r5 = when_missing (snReparse node \<noteq> 0) (label @ '': redirection object/target chain not qualified'') r4;
          r6 = when_missing (\<not> equal_fold U (hpClean H (snResolved node)) p)
            (label @ '': resolved path identity differs; target chain not qualified'') r5;
          r7 = when_missing (0 < i \<and> \<not> snDirectory node) (label @ '': ancestor is not a directory'') r6;
          r8 = when_missing (i = 0 \<and> 0 < targetIndex \<and> snDirectory node) (label @ '': managed file is a directory'') r7
      in when_missing (snIdentity node = []) (label @ '': native object identity unavailable'') r8)"

definition node_blocked :: "host_paths \<Rightarrow> unicode \<Rightarrow> nat \<Rightarrow> nat \<Rightarrow> string \<Rightarrow> acl_snapshot \<Rightarrow> bool" where
  "node_blocked H U targetIndex i p node = (snFilesystem node \<noteq> ''NTFS'' \<or> snReparse node \<noteq> 0
     \<or> \<not> equal_fold U (hpClean H (snResolved node)) p \<or> (0 < i \<and> \<not> snDirectory node)
     \<or> (i = 0 \<and> 0 < targetIndex \<and> snDirectory node) \<or> snIdentity node = [])"

definition visit ::
    "host_paths \<Rightarrow> unicode \<Rightarrow> audit_answers \<Rightarrow> acl_scope \<Rightarrow> string \<Rightarrow> string list \<Rightarrow> nat \<Rightarrow> acl_asset \<Rightarrow> nat \<Rightarrow> string
      \<Rightarrow> audit_state \<Rightarrow> outcome" where
  "visit H U A s dir optional targetIndex target i p st0 =
     (let key = to_lower U p; st = st0\<lparr>auTicks := auTicks st0 + 1\<rparr>;
          label = (if i = 0 then asLabel target else asLabel target @ '' ancestor['' @ digits_of_nat i @ '']'') in
      if awExpired A (auTicks st0) then Return (add_missing ''audit time limit reached'' st)
      else if key \<in> set (auBlocked st) then Break st
      else if mhas (auSeen st) key then Next st
      else if maxObjects \<le> length (auSeen st) then Return (add_missing ''object count limit reached'' st)
      else (case awRead A p of
          Got node \<Rightarrow>
            (let r = (auReport st)\<lparr>arObjects := arObjects (auReport st) + 1\<rparr>; aces = auACEs st + length (deACEs (snSecurity node)) in
             if maxACEs < aces then Return (st\<lparr>auReport := missing ''ACE count limit reached'' r\<rparr>)
             else
               (let r' = node_checks H U s dir targetIndex i p label node r; blocked = node_blocked H U targetIndex i p node;
                    st' = st\<lparr>auReport := r', auSeen := mput key node (auSeen st), auLabels := mput key label (auLabels st),
                      auACEs := aces, auBlocked := (if blocked then key # auBlocked st else auBlocked st),
                      auProgress := auProgress st @ [r']\<rparr>
                in if blocked then Break st' else Next st'))
        | answer \<Rightarrow>
            (if i = 0 \<and> key \<in> set optional \<and> answer = Absent
             then Break (st\<lparr>auAbsent := mput key target (auAbsent st), auBlocked := key # auBlocked st\<rparr>)
             else Break (st\<lparr>auReport := missing (label @ '': native metadata/security inspection failed'') (auReport st),
               auBlocked := key # auBlocked st\<rparr>))))"

text \<open>The inner loop, over the chain from its root; \<open>Inl\<close> is a return of the whole function.\<close>

fun walk_chain :: "(nat \<Rightarrow> string \<Rightarrow> audit_state \<Rightarrow> outcome) \<Rightarrow> (nat \<times> string) list \<Rightarrow> audit_state \<Rightarrow> (audit_state, audit_state) result" where
  "walk_chain f [] st = Inr st"
| "walk_chain f ((i, p) # ps) st = (case f i p st of
     Return st' \<Rightarrow> Inl st'
   | Break st' \<Rightarrow> Inr st'
   | Next st' \<Rightarrow> walk_chain f ps st')"

definition audit_target ::
    "host_paths \<Rightarrow> unicode \<Rightarrow> audit_answers \<Rightarrow> acl_scope \<Rightarrow> string \<Rightarrow> string list \<Rightarrow> nat \<times> acl_asset \<Rightarrow> audit_state
      \<Rightarrow> (audit_state, audit_state) result" where
  "audit_target H U A s dir optional it st = (case it of (targetIndex, target) \<Rightarrow>
     if \<not> validLabel (asLabel target) then Inr (add_missing ''invalid asset diagnostic label'' st)
     else if \<not> hpIsAbs H (asPath target) \<or> \<not> path_within H (asPath target) dir
     then Inr (add_missing ''managed asset outside qualified installation'' st)
     else (case ancestors_of H maxDepth (hpClean H (asPath target)) of
         None \<Rightarrow> Inr (add_missing ''ancestor depth limit reached'' st)
       | Some chain \<Rightarrow> walk_chain (visit H U A s dir optional targetIndex target) (rev (enumerate 0 chain)) st))"

text \<open>The second look at every object, and at every optional file that was absent.\<close>

definition progress :: "audit_state \<Rightarrow> audit_state" where
  "progress st = st\<lparr>auProgress := auProgress st @ [auReport st]\<rparr>"

fun recheck_seen :: "unicode \<Rightarrow> audit_answers \<Rightarrow> string list \<Rightarrow> audit_state \<Rightarrow> audit_state" where
  "recheck_seen U A [] st = st"
| "recheck_seen U A (key # keys) st =
     (if awExpired A (auTicks st) then add_missing ''audit time limit reached'' st
      else
        (let first = the (map_of (auSeen st) key); st' = st\<lparr>auTicks := auTicks st + 1\<rparr>;
             same = (case awAgain A key (snResolved first) of Got node \<Rightarrow> sameSnapshot U first node | _ \<Rightarrow> False)
         in recheck_seen U A keys (progress
           (if same then st' else add_missing (the (map_of (auLabels st) key)
              @ '': object identity or security descriptor changed during inspection'') st'))))"

fun recheck_absent :: "audit_answers \<Rightarrow> acl_scope \<Rightarrow> string list \<Rightarrow> audit_state \<Rightarrow> audit_state" where
  "recheck_absent A s [] st = st"
| "recheck_absent A s (key # keys) st =
     (if awExpired A (auTicks st) then add_missing ''audit time limit reached'' st
      else if maxObjects \<le> arObjects (auReport st) then add_missing ''object count limit reached'' (st\<lparr>auTicks := auTicks st + 1\<rparr>)
      else
        (let target = the (map_of (auAbsent st) key); st' = st\<lparr>auTicks := auTicks st + 1\<rparr>;
             reason = asLabel target @ '': optional asset appeared or inspection failed during recheck'' in
         case awRecheck A key (asPath target) of
           Absent \<Rightarrow> recheck_absent A s keys (progress st')
         | Failed \<Rightarrow> recheck_absent A s keys (progress (add_missing reason st'))
         | Got node \<Rightarrow>
             (let r = (auReport st')\<lparr>arObjects := arObjects (auReport st') + 1\<rparr>; aces = auACEs st' + length (deACEs (snSecurity node));
                  st1 = st'\<lparr>auReport := r, auACEs := aces\<rparr> in
              if maxACEs < aces then add_missing ''ACE count limit reached'' st1
              else recheck_absent A s keys (progress (add_missing reason
                (st1\<lparr>auReport := classify_object (asLabel target) node (scUpdater s) r\<rparr>))))))"

definition audit_start :: audit_state where
  "audit_start = \<lparr>auReport = empty_report, auSeen = [], auLabels = [], auBlocked = [], auAbsent = [], auACEs = 0, auTicks = 0,
     auProgress = []\<rparr>"

definition request_targets :: "acl_request \<Rightarrow> acl_asset list" where
  "request_targets req = \<lparr>asPath = rqDirectory req, asLabel = ''installation''\<rparr> # rqAssets req @ rqOptional req"

definition qualified_scope :: "host_paths \<Rightarrow> acl_request \<Rightarrow> acl_scope \<Rightarrow> bool" where
  "qualified_scope H req s = (scQualified s \<and> scUpdater s \<noteq> [] \<and> hpIsAbs H (scProfile s) \<and> path_within H (rqDirectory req) (scProfile s)
     \<and> hpClean H (rqDirectory req) \<noteq> hpClean H (scProfile s))"

definition run_audit :: "host_paths \<Rightarrow> unicode \<Rightarrow> audit_answers \<Rightarrow> acl_request \<Rightarrow> acl_scope \<Rightarrow> audit_state" where
  "run_audit H U A req s =
     (if \<not> qualified_scope H req s
      then add_missing ''installation is not a qualified per-user scope; machine-wide/custom managers are not declared'' audit_start
      else if maxObjects < length (rqAssets req) + length (rqOptional req)
      then add_missing ''managed-asset count limit reached'' audit_start
      else (case fold_result (audit_target H U A s (rqDirectory req) (map (\<lambda>a. to_lower U (hpClean H (asPath a))) (rqOptional req)))
            (enumerate 0 (request_targets req)) audit_start of
          Inl st \<Rightarrow> st
        | Inr st \<Rightarrow>
            (let st1 = recheck_seen U A (sort (mkeys (auSeen st))) st;
                 st2 = recheck_absent A s (sort (mkeys (auAbsent st1))) st1
             in st2\<lparr>auReport := when_missing (arObjects (auReport st2) = 0) ''no objects inspected'' (auReport st2)\<rparr>)))"

text \<open>The bounded worker: an earlier audit may still hold its slot, and the deadline may pass after the
  audit has published some of its reports.\<close>

datatype worker = Slot_Busy | Worker_Done | Deadline nat

definition bounded :: "worker \<Rightarrow> audit_state \<Rightarrow> acl_report" where
  "bounded w st = (case w of
     Slot_Busy \<Rightarrow> missing ''a previous native audit is still pending'' empty_report
   | Worker_Done \<Rightarrow> auReport st
   | Deadline n \<Rightarrow> missing ''audit time limit reached; native I/O may finish later'' (last (empty_report # take n (auProgress st))))"

end
