(* ===== verification/Acl_Audit_Facts.thy ===== *)
theory Acl_Audit_Facts
  imports Acl_Audit
begin

text \<open>
  What a favourable audit means. A report is quiet when it has no candidate and nothing incomplete.
  Nothing the audit does makes a report quiet again, so every step of an audit that ends with a quiet
  report was quiet, and its checks hold (\<open>quiet_run\<close>).
\<close>

definition quiet :: "acl_report \<Rightarrow> bool" where
  "quiet r = (arIncomplete r = [] \<and> arCandidates r = 0)"

section \<open>Quiet reports\<close>

lemma missing_not_quiet [simp]: "\<not> quiet (missing reason r)"
  by (auto simp: quiet_def missing_def maxLines_def)

lemma candidate_not_quiet [simp]: "\<not> quiet (candidate reason r)"
  by (simp add: quiet_def candidate_def missing_def Let_def)

lemma when_missing_quiet [simp]: "quiet (when_missing b reason r) \<longleftrightarrow> \<not> b \<and> quiet r"
  by (simp add: when_missing_def)

lemma quiet_update [simp]: "quiet (r\<lparr>arObjects := n\<rparr>) \<longleftrightarrow> quiet r"
  by (simp add: quiet_def)

lemma fold_quiet:
  assumes "\<And>x r. quiet (f x r) \<longleftrightarrow> P x \<and> quiet r"
  shows "quiet (fold f xs r) \<longleftrightarrow> (\<forall>x \<in> set xs. P x) \<and> quiet r"
  using assms by (induction xs arbitrary: r) auto

text \<open>An entry that gives nobody outside the model a right, and that the model understands.\<close>

definition ace_safe :: "bool \<Rightarrow> string \<Rightarrow> ace \<Rightarrow> bool" where
  "ace_safe directory updater a = (and (aeMask a) (not 0xF01F01FF) = 0 \<and> aeType a \<in> {0, 1} \<and> and (aeFlags a) (not 0x1F) = 0
     \<and> (and (aeFlags a) 8 \<noteq> 0 \<or> (knownIdentity (aeSID a) updater
         \<and> (aeType a = 1 \<or> trusted (aeSID a) updater \<or> ace_rights directory a = []))))"

definition object_safe :: "string \<Rightarrow> acl_snapshot \<Rightarrow> bool" where
  "object_safe updater node = (trusted (deOwner (snSecurity node)) updater \<and> \<not> deNullDACL (snSecurity node)
     \<and> list_all (ace_safe (snDirectory node) updater) (deACEs (snSecurity node)))"

lemma classify_ace_quiet:
  "quiet (classify_ace label directory updater (k, a) r) \<longleftrightarrow> ace_safe directory updater a \<and> quiet r"
  by (auto simp: classify_ace_def ace_safe_def Let_def)

lemma classify_owner_quiet: "quiet (classify_owner label d updater r) \<longleftrightarrow> trusted (deOwner d) updater \<and> quiet r"
  by (simp add: classify_owner_def)

lemma enumerate_all: "(\<forall>x \<in> set (enumerate n xs). P (snd x)) \<longleftrightarrow> list_all P xs"
  by (induction xs arbitrary: n) auto

lemma classify_quiet: "quiet (classify_object label node updater r) \<longleftrightarrow> object_safe updater node \<and> quiet r"
proof -
  have "quiet (fold (classify_ace label (snDirectory node) updater) xs r')
      \<longleftrightarrow> (\<forall>x \<in> set xs. ace_safe (snDirectory node) updater (snd x)) \<and> quiet r'" for xs r'
    by (rule fold_quiet) (auto simp: classify_ace_quiet)
  then show ?thesis
    by (auto simp: classify_object_def object_safe_def Let_def classify_owner_quiet enumerate_all)
qed

text \<open>No right is left to an identity outside the model: the meaning of an empty list of rights.\<close>

lemma ace_rights_empty:
  "ace_rights directory a = [] \<longleftrightarrow>
     and (aeMask a) (if directory then 0x500D0156 else 0x500D0116) = 0"
proof -
  have n: "and m (or x y) = 0 \<longleftrightarrow> and m x = 0 \<and> and m y = 0" for m x y :: "32 word"
    by (simp only: bit.conj_disj_distrib or_eq_0_iff)
  have c: "(0x500D0156 :: 32 word) = or 0x40000 (or 0x80000 (or 0x10000 (or 0x40 (or 6 (or 0x110 (or 0x40000000 0x10000000))))))"
    "(0x500D0116 :: 32 word) = or 0x40000 (or 0x80000 (or 0x10000 (or 6 (or 0x110 (or 0x40000000 0x10000000)))))" by simp_all
  have g: "(if P then [x] else []) = [] \<longleftrightarrow> \<not> P" for P and x :: string by simp
  show ?thesis unfolding c
    by (cases directory)
      (simp_all only: ace_rights_def grants_def n g append_is_Nil_conv if_True if_False not_not de_Morgan_conj simp_thms, blast+)
qed

section \<open>The checks of an object\<close>

definition node_clean :: "host_paths \<Rightarrow> unicode \<Rightarrow> string \<Rightarrow> string \<Rightarrow> acl_snapshot \<Rightarrow> bool" where
  "node_clean H U updater p node = (object_safe updater node \<and> snFilesystem node = ''NTFS'' \<and> snReparse node = 0
     \<and> equal_fold U (hpClean H (snResolved node)) p \<and> snIdentity node \<noteq> [])"

lemma node_checks_quiet:
  assumes "quiet (node_checks H U s dir targetIndex i p label node r)"
  shows "quiet r" "node_clean H U (scUpdater s) p node" "\<not> node_blocked H U targetIndex i p node"
    "equal_fold U p (hpClean H dir) \<Longrightarrow> deOwner (snSecurity node) = scUpdater s
       \<and> (snIdentity (scAnchor s) = [] \<or> sameSnapshot U (scAnchor s) node)"
  using assms by (auto simp: node_checks_def node_clean_def node_blocked_def Let_def classify_quiet)

section \<open>The walk\<close>

text \<open>What is known of a state whose report is quiet: every object seen is clean, and only absent
  optional files are blocked.\<close>

definition seen_clean :: "host_paths \<Rightarrow> unicode \<Rightarrow> audit_answers \<Rightarrow> acl_scope \<Rightarrow> string \<Rightarrow> string \<Rightarrow> acl_snapshot \<Rightarrow> bool" where
  "seen_clean H U A s dir key node = (\<exists>q. to_lower U q = key \<and> awRead A q = Got node \<and> node_clean H U (scUpdater s) q node
     \<and> (equal_fold U q (hpClean H dir) \<longrightarrow> deOwner (snSecurity node) = scUpdater s
         \<and> (snIdentity (scAnchor s) = [] \<or> sameSnapshot U (scAnchor s) node)))"

definition audit_inv ::
    "host_paths \<Rightarrow> unicode \<Rightarrow> audit_answers \<Rightarrow> acl_scope \<Rightarrow> string \<Rightarrow> string list \<Rightarrow> audit_state \<Rightarrow> bool" where
  "audit_inv H U A s dir optional st = (
     (\<forall>key node. map_of (auSeen st) key = Some node \<longrightarrow> seen_clean H U A s dir key node)
     \<and> (\<forall>key \<in> set (auBlocked st). mhas (auAbsent st) key)
     \<and> (\<forall>key target. map_of (auAbsent st) key = Some target \<longrightarrow> key \<in> set optional
         \<and> (\<exists>q. to_lower U q = key \<and> awRead A q = Absent)))"

definition settled :: "audit_state \<Rightarrow> string \<Rightarrow> bool" where
  "settled st key = (mhas (auSeen st) key \<or> mhas (auAbsent st) key)"

definition grows :: "audit_state \<Rightarrow> audit_state \<Rightarrow> bool" where
  "grows st st' = (\<forall>key. (mhas (auSeen st) key \<longrightarrow> mhas (auSeen st') key) \<and> (mhas (auAbsent st) key \<longrightarrow> mhas (auAbsent st') key))"

lemma grows_refl: "grows st st"
  by (simp add: grows_def)

lemma grows_trans: "grows a b \<Longrightarrow> grows b c \<Longrightarrow> grows a c"
  by (simp add: grows_def)

lemma visit_return: "visit H U A s dir optional n target i p st = Return r \<Longrightarrow> \<not> quiet (auReport r)"
  by (auto simp: visit_def Let_def add_missing_def split: if_splits io.splits)

lemma visit_quiet:
  assumes "visit H U A s dir optional n target i p st = Next st' \<or> visit H U A s dir optional n target i p st = Break st'"
    and "quiet (auReport st')"
  shows "quiet (auReport st)" "grows st st'"
    "audit_inv H U A s dir optional st \<Longrightarrow> audit_inv H U A s dir optional st'"
    "visit H U A s dir optional n target i p st = Next st' \<Longrightarrow> mhas (auSeen st') (to_lower U p)"
    "audit_inv H U A s dir optional st \<Longrightarrow> visit H U A s dir optional n target i p st = Break st' \<Longrightarrow> mhas (auAbsent st') (to_lower U p)"
proof -
  let ?key = "to_lower U p" and ?st = "st\<lparr>auTicks := auTicks st + 1\<rparr>"
  note d = visit_def Let_def
  consider (blocked) "?key \<in> set (auBlocked st)" "st' = ?st" "visit H U A s dir optional n target i p st = Break st'"
    | (old) "mhas (auSeen st) ?key" "st' = ?st" "visit H U A s dir optional n target i p st = Next st'"
    | (fresh) node r label r0 where "awRead A p = Got node" "auReport st' = node_checks H U s dir n i p label node (r\<lparr>arObjects := r0\<rparr>)"
        "r = auReport st" "auSeen st' = mput ?key node (auSeen st)" "auAbsent st' = auAbsent st"
        "auBlocked st' = (if node_blocked H U n i p node then ?key # auBlocked st else auBlocked st)"
        "visit H U A s dir optional n target i p st = (if node_blocked H U n i p node then Break st' else Next st')"
    | (absent) "awRead A p = Absent" "?key \<in> set optional" "auReport st' = auReport st" "auSeen st' = auSeen st"
        "auAbsent st' = mput ?key target (auAbsent st)" "auBlocked st' = ?key # auBlocked st"
        "visit H U A s dir optional n target i p st = Break st'"
    using assms by (auto simp: d split: if_splits io.splits)
  note cases = this
  show "quiet (auReport st)"
    using assms(2) by (cases rule: cases) (auto dest: node_checks_quiet(1))
  show "grows st st'"
    by (cases rule: cases) (auto simp: grows_def mhas_mput)
  show "visit H U A s dir optional n target i p st = Next st' \<Longrightarrow> mhas (auSeen st') ?key"
    by (cases rule: cases) (auto simp: mhas_mput split: if_splits)
  {
    assume inv: "audit_inv H U A s dir optional st"
    show "audit_inv H U A s dir optional st'"
    proof (cases rule: cases)
      case (fresh node r label r0)
      note q = node_checks_quiet [OF assms(2) [unfolded fresh(2)]]
      have "seen_clean H U A s dir ?key node" unfolding seen_clean_def using fresh(1) q by blast
      then show ?thesis using inv fresh q(3) by (auto simp: audit_inv_def map_of_mput)
    next
      case absent
      then show ?thesis using inv by (auto simp: audit_inv_def map_of_mput mhas_mput)
    qed (use inv in \<open>simp_all add: audit_inv_def\<close>)
    show "visit H U A s dir optional n target i p st = Break st' \<Longrightarrow> mhas (auAbsent st') ?key"
      using inv assms(2)
      by (cases rule: cases) (auto simp: audit_inv_def mhas_mput dest!: node_checks_quiet(3) split: if_splits)
  }
qed

text \<open>After a chain: all of it was seen, or a prefix from the root that ends at an absent optional file.\<close>

definition chain_settled :: "unicode \<Rightarrow> audit_state \<Rightarrow> (nat \<times> string) list \<Rightarrow> bool" where
  "chain_settled U st ps = ((\<forall>p \<in> set ps. mhas (auSeen st) (to_lower U (snd p)))
     \<or> (\<exists>p \<in> set ps. mhas (auAbsent st) (to_lower U (snd p))))"

lemma chain_settled_mono: "grows st st' \<Longrightarrow> chain_settled U st ps \<Longrightarrow> chain_settled U st' ps"
  unfolding chain_settled_def grows_def by blast

lemma walk_return: "walk_chain (visit H U A s dir optional n target) ps st = Inl r \<Longrightarrow> \<not> quiet (auReport r)"
  by (induction ps arbitrary: st) (auto split: outcome.splits dest!: visit_return)

lemma walk_quiet:
  assumes "walk_chain (visit H U A s dir optional n target) ps st = Inr st'" "quiet (auReport st')"
  shows "quiet (auReport st) \<and> grows st st'
    \<and> (audit_inv H U A s dir optional st \<longrightarrow> audit_inv H U A s dir optional st' \<and> chain_settled U st' ps)"
  using assms
proof (induction ps arbitrary: st)
  case Nil
  then show ?case by (simp add: grows_refl chain_settled_def)
next
  case (Cons ip ps)
  obtain i p where ip: "ip = (i, p)" by fastforce
  let ?v = "visit H U A s dir optional n target i p st"
  show ?case
  proof (cases ?v)
    case (Return r)
    then show ?thesis using Cons.prems(1) by (simp add: ip)
  next
    case (Break st1)
    then have e: "st1 = st'" using Cons.prems(1) by (simp add: ip)
    note v = visit_quiet [OF disjI2 [OF Break [unfolded e]] Cons.prems(2)]
    show ?thesis using v(1-3) v(5) [OF _ Break [unfolded e]] by (auto simp: chain_settled_def ip)
  next
    case (Next st1)
    then have w: "walk_chain (visit H U A s dir optional n target) ps st1 = Inr st'" using Cons.prems(1) by (simp add: ip)
    note r = Cons.IH [OF w Cons.prems(2)]
    note v = visit_quiet [OF disjI1 [OF Next]]
    have q: "quiet (auReport st1)" using r by blast
    have "mhas (auSeen st') (to_lower U p)" using v(4) [OF q Next] r unfolding grows_def by blast
    then show ?thesis using r v(1-3) [OF q] grows_trans by (auto simp: chain_settled_def ip)
  qed
qed

definition target_settled ::
    "host_paths \<Rightarrow> unicode \<Rightarrow> string \<Rightarrow> audit_state \<Rightarrow> acl_asset \<Rightarrow> bool" where
  "target_settled H U dir st target = (validLabel (asLabel target) \<and> hpIsAbs H (asPath target) \<and> path_within H (asPath target) dir
     \<and> (\<exists>chain. ancestors_of H maxDepth (hpClean H (asPath target)) = Some chain
         \<and> ((\<forall>p \<in> set chain. mhas (auSeen st) (to_lower U p)) \<or> (\<exists>p \<in> set chain. mhas (auAbsent st) (to_lower U p)))))"

lemma target_settled_mono: "grows st st' \<Longrightarrow> target_settled H U dir st t \<Longrightarrow> target_settled H U dir st' t"
  unfolding target_settled_def grows_def by meson

lemma chain_settled_enumerate: "chain_settled U st (rev (enumerate n ps))
   \<longleftrightarrow> (\<forall>p \<in> set ps. mhas (auSeen st) (to_lower U p)) \<or> (\<exists>p \<in> set ps. mhas (auAbsent st) (to_lower U p))"
proof -
  have "set ps = snd ` set (enumerate n ps)" by (simp flip: set_map)
  then show ?thesis unfolding chain_settled_def by (auto simp: Ball_def Bex_def)
qed

lemma target_return: "audit_target H U A s dir optional it st = Inl r \<Longrightarrow> \<not> quiet (auReport r)"
  by (auto simp: audit_target_def split: prod.splits if_splits option.splits dest: walk_return)

lemma target_quiet:
  assumes "audit_target H U A s dir optional (n, target) st = Inr st'" "quiet (auReport st')"
  shows "quiet (auReport st)" "grows st st'"
    "audit_inv H U A s dir optional st \<Longrightarrow> audit_inv H U A s dir optional st' \<and> target_settled H U dir st' target"
proof -
  from assms obtain chain where c: "validLabel (asLabel target)" "hpIsAbs H (asPath target)" "path_within H (asPath target) dir"
    "ancestors_of H maxDepth (hpClean H (asPath target)) = Some chain"
    and w: "walk_chain (visit H U A s dir optional n target) (rev (enumerate 0 chain)) st = Inr st'"
    by (auto simp: audit_target_def add_missing_def split: if_splits option.splits)
  note q = walk_quiet [OF w assms(2)]
  show "quiet (auReport st)" "grows st st'" using q by blast+
  show "audit_inv H U A s dir optional st \<Longrightarrow> audit_inv H U A s dir optional st' \<and> target_settled H U dir st' target"
    using q c unfolding target_settled_def chain_settled_enumerate by blast
qed

lemma targets_return: "fold_result (audit_target H U A s dir optional) its st = Inl r \<Longrightarrow> \<not> quiet (auReport r)"
  by (induction its arbitrary: st) (auto simp: rbind_Inl_iff dest: target_return)

lemma targets_quiet:
  assumes "fold_result (audit_target H U A s dir optional) its st = Inr st'" "quiet (auReport st')"
  shows "quiet (auReport st) \<and> grows st st' \<and> (audit_inv H U A s dir optional st \<longrightarrow>
    audit_inv H U A s dir optional st' \<and> (\<forall>t \<in> set its. target_settled H U dir st' (snd t)))"
  using assms
proof (induction its arbitrary: st)
  case Nil
  then show ?case by (simp add: grows_refl)
next
  case (Cons it its)
  from Cons.prems(1) obtain st1 where s: "audit_target H U A s dir optional it st = Inr st1"
    "fold_result (audit_target H U A s dir optional) its st1 = Inr st'" by (auto simp: rbind_Inr_iff)
  note r = Cons.IH [OF s(2) Cons.prems(2)]
  obtain n target where it: "it = (n, target)" by fastforce
  note t = target_quiet [OF s(1) [unfolded it] conjunct1 [OF r]]
  show ?case using r t grows_trans target_settled_mono unfolding it by (metis set_ConsD snd_conv)
qed

section \<open>The second look\<close>

lemma recheck_seen_quiet:
  assumes "quiet (auReport (recheck_seen U A keys st))"
  shows "quiet (auReport st) \<and> (\<forall>key \<in> set keys. \<exists>node. awAgain A key (snResolved (the (map_of (auSeen st) key))) = Got node
      \<and> sameSnapshot U (the (map_of (auSeen st) key)) node)"
    "auSeen (recheck_seen U A keys st) = auSeen st" "auAbsent (recheck_seen U A keys st) = auAbsent st"
proof -
  show "quiet (auReport st) \<and> (\<forall>key \<in> set keys. \<exists>node. awAgain A key (snResolved (the (map_of (auSeen st) key))) = Got node
      \<and> sameSnapshot U (the (map_of (auSeen st) key)) node)"
    using assms
  proof (induction keys arbitrary: st)
    case (Cons key keys)
    let ?first = "the (map_of (auSeen st) key)"
    let ?same = "case awAgain A key (snResolved ?first) of Got node \<Rightarrow> sameSnapshot U ?first node | _ \<Rightarrow> False"
    have e: "\<not> awExpired A (auTicks st)" using Cons.prems by (auto simp: add_missing_def)
    let ?st = "progress (if ?same then st\<lparr>auTicks := auTicks st + 1\<rparr>
      else add_missing (the (map_of (auLabels st) key) @ '': object identity or security descriptor changed during inspection'')
        (st\<lparr>auTicks := auTicks st + 1\<rparr>))"
    have "quiet (auReport (recheck_seen U A keys ?st))" using Cons.prems by (simp only: recheck_seen.simps Let_def e if_False)
    note r = Cons.IH [OF this]
    have same: ?same using r by (auto simp: progress_def add_missing_def split: if_splits)
    have "auSeen ?st = auSeen st" by (simp add: progress_def add_missing_def)
    with r same show ?case by (auto simp: progress_def split: io.splits if_splits)
  qed simp
  show "auSeen (recheck_seen U A keys st) = auSeen st" "auAbsent (recheck_seen U A keys st) = auAbsent st"
    by (induction keys arbitrary: st) (simp_all add: Let_def progress_def add_missing_def)
qed

lemma recheck_absent_quiet:
  assumes "quiet (auReport (recheck_absent A s keys st))"
  shows "quiet (auReport st) \<and> (\<forall>key \<in> set keys. awRecheck A key (asPath (the (map_of (auAbsent st) key))) = Absent)"
  using assms
proof (induction keys arbitrary: st)
  case (Cons key keys)
  let ?st = "st\<lparr>auTicks := auTicks st + 1\<rparr>"
  have e: "\<not> awExpired A (auTicks st)" "\<not> maxObjects \<le> arObjects (auReport st)"
    using Cons.prems by (auto simp: add_missing_def split: if_splits)
  show ?case
  proof (cases "awRecheck A key (asPath (the (map_of (auAbsent st) key)))")
    case Absent
    then have "quiet (auReport (recheck_absent A s keys (progress ?st)))" using Cons.prems e by (simp add: Let_def)
    from Cons.IH [OF this] show ?thesis using Absent by (simp add: progress_def)
  next
    case Failed
    then have "\<exists>reason st'. quiet (auReport (recheck_absent A s keys (progress (add_missing reason st'))))"
      using Cons.prems e by (auto simp: Let_def)
    then show ?thesis using Cons.IH by (fastforce simp: progress_def add_missing_def)
  next
    case (Got node)
    then have "\<exists>reason st'. quiet (auReport (add_missing reason st')) \<or> quiet (auReport (recheck_absent A s keys (progress (add_missing reason st'))))"
      using Cons.prems e by (auto simp: Let_def split: if_splits)
    then show ?thesis using Cons.IH by (fastforce simp: progress_def add_missing_def)
  qed
qed simp

section \<open>The audit\<close>

text \<open>An object that was read twice, the same both times, and clean; and a file that was absent twice.\<close>

definition object_ok :: "host_paths \<Rightarrow> unicode \<Rightarrow> audit_answers \<Rightarrow> acl_scope \<Rightarrow> string \<Rightarrow> string \<Rightarrow> bool" where
  "object_ok H U A s dir p = (\<exists>node node'. seen_clean H U A s dir (to_lower U p) node
     \<and> awAgain A (to_lower U p) (snResolved node) = Got node' \<and> sameSnapshot U node node')"

definition absent_twice :: "host_paths \<Rightarrow> unicode \<Rightarrow> audit_answers \<Rightarrow> acl_request \<Rightarrow> string \<Rightarrow> bool" where
  "absent_twice H U A req p = (to_lower U p \<in> (\<lambda>a. to_lower U (hpClean H (asPath a))) ` set (rqOptional req)
     \<and> (\<exists>q. to_lower U q = to_lower U p \<and> awRead A q = Absent) \<and> (\<exists>q. awRecheck A (to_lower U p) q = Absent))"

definition target_ok :: "host_paths \<Rightarrow> unicode \<Rightarrow> audit_answers \<Rightarrow> acl_request \<Rightarrow> acl_scope \<Rightarrow> acl_asset \<Rightarrow> bool" where
  "target_ok H U A req s target = (validLabel (asLabel target) \<and> hpIsAbs H (asPath target)
     \<and> path_within H (asPath target) (rqDirectory req)
     \<and> (\<exists>chain. ancestors_of H maxDepth (hpClean H (asPath target)) = Some chain
         \<and> (list_all (object_ok H U A s (rqDirectory req)) chain \<or> list_ex (absent_twice H U A req) chain)))"

lemma quiet_run:
  assumes "quiet (auReport (run_audit H U A req s))"
  shows "qualified_scope H req s \<and> list_all (target_ok H U A req s) (request_targets req)"
proof -
  let ?dir = "rqDirectory req" and ?optional = "map (\<lambda>a. to_lower U (hpClean H (asPath a))) (rqOptional req)"
  let ?fold = "fold_result (audit_target H U A s ?dir ?optional) (enumerate 0 (request_targets req)) audit_start"
  have q: "qualified_scope H req s" using assms by (auto simp: run_audit_def add_missing_def split: if_splits)
  have "\<exists>st. ?fold = Inr st" using assms targets_return by (cases ?fold) (auto simp: run_audit_def add_missing_def split: if_splits)
  then obtain st where f: "?fold = Inr st" by blast
  let ?st1 = "recheck_seen U A (sort (mkeys (auSeen st))) st"
  let ?st2 = "recheck_absent A s (sort (mkeys (auAbsent ?st1))) ?st1"
  have q2: "quiet (auReport ?st2)" using assms f by (auto simp: run_audit_def Let_def add_missing_def split: if_splits)
  note r2 = recheck_absent_quiet [OF q2]
  note r1 = recheck_seen_quiet [OF conjunct1 [OF r2]]
  have start: "audit_inv H U A s ?dir ?optional audit_start" by (simp add: audit_inv_def audit_start_def mhas_iff_map_of)
  note t = targets_quiet [OF f conjunct1 [OF r1(1)]]
  have inv: "audit_inv H U A s ?dir ?optional st"
    and settled: "\<forall>t \<in> set (enumerate 0 (request_targets req)). target_settled H U ?dir st (snd t)" using t start by blast+
  have ok: "object_ok H U A s ?dir p" if "mhas (auSeen st) (to_lower U p)" for p
  proof -
    from that obtain node where n: "map_of (auSeen st) (to_lower U p) = Some node" by (auto simp: mhas_iff_map_of)
    have "to_lower U p \<in> set (sort (mkeys (auSeen st)))" using that by (simp add: mhas_def)
    with r1(1) n obtain node' where "awAgain A (to_lower U p) (snResolved node) = Got node'" "sameSnapshot U node node'" by force
    moreover have "seen_clean H U A s ?dir (to_lower U p) node" using inv n unfolding audit_inv_def by blast
    ultimately show ?thesis unfolding object_ok_def by blast
  qed
  have ab: "absent_twice H U A req p" if "mhas (auAbsent st) (to_lower U p)" for p
  proof -
    from that obtain target where n: "map_of (auAbsent st) (to_lower U p) = Some target" by (auto simp: mhas_iff_map_of)
    have "to_lower U p \<in> set (sort (mkeys (auAbsent ?st1)))" using that by (simp add: mhas_def r1(3))
    with r2 have "awRecheck A (to_lower U p) (asPath (the (map_of (auAbsent ?st1) (to_lower U p)))) = Absent" by blast
    moreover have "to_lower U p \<in> set ?optional \<and> (\<exists>q. to_lower U q = to_lower U p \<and> awRead A q = Absent)"
      using inv n unfolding audit_inv_def by blast
    ultimately show ?thesis unfolding absent_twice_def by auto
  qed
  have "target_ok H U A req s t" if "target_settled H U ?dir st t" for t
    using that ok ab unfolding target_settled_def target_ok_def list_all_iff list_ex_iff by blast
  moreover have "list_all (target_settled H U ?dir st) (request_targets req)" using settled unfolding enumerate_all .
  ultimately show ?thesis using q by (simp add: list_all_iff)
qed

lemma bounded_quiet: "quiet (bounded w st) \<longleftrightarrow> w = Worker_Done \<and> quiet (auReport st)"
  by (cases w) (simp_all add: bounded_def)

lemma ok_line_iff:
  "(\<exists>d \<in> set (Diagnostics r). dgStatus d = ''ok'') \<longleftrightarrow> quiet r \<and> arObjects r \<noteq> 0"
  by (auto simp: Diagnostics_def quiet_def Let_def missing_def maxLines_def)

end
