(* ===== verification/Acl_Descriptor_Facts.thy ===== *)
theory Acl_Descriptor_Facts
  imports Acl_Descriptor Image_Ref
begin

text \<open>
  The documented binary format of a self-relative security descriptor with an owner and a list of
  standard entries, as an encoder, and the proof that the decoder inverts it. Two security
  identifiers have the same text only if they are the same, so that comparing texts compares
  identities.
\<close>

record sid =
  sdAuthority :: nat
  sdSubs :: "nat list"

definition sid_ok :: "sid \<Rightarrow> bool" where
  "sid_ok s = (sdAuthority s < 2 ^ 48 \<and> length (sdSubs s) \<le> 15 \<and> list_all (\<lambda>v. v < 2 ^ 32) (sdSubs s))"

definition le_bytes :: "nat \<Rightarrow> nat \<Rightarrow> string" where
  "le_bytes k n = map (\<lambda>i. byte (n div 256 ^ i)) [0..<k]"

definition be48 :: "nat \<Rightarrow> string" where
  "be48 n = map (\<lambda>i. byte (n div 256 ^ (5 - i))) [0..<6]"

definition sid_bytes :: "sid \<Rightarrow> string" where
  "sid_bytes s = [byte 1, byte (length (sdSubs s))] @ be48 (sdAuthority s) @ concat (map (le_bytes 4) (sdSubs s))"

definition sid_text :: "sid \<Rightarrow> string" where
  "sid_text s = join ''-'' ([''S'', ''1'', digits_of_nat (sdAuthority s)] @ map digits_of_nat (sdSubs s))"

record entry =
  enDeny :: bool
  enFlags :: "8 word"
  enMask :: "32 word"
  enSID :: sid

definition entry_bytes :: "entry \<Rightarrow> string" where
  "entry_bytes e = [byte (if enDeny e then 1 else 0), byte (unat (enFlags e))] @ le_bytes 2 (8 + length (sid_bytes (enSID e)))
     @ le_bytes 4 (unat (enMask e)) @ sid_bytes (enSID e)"

definition allow_ace :: "entry \<Rightarrow> ace" where
  "allow_ace e = \<lparr>aeType = (if enDeny e then 1 else 0), aeFlags = enFlags e, aeMask = enMask e, aeSID = sid_text (enSID e)\<rparr>"

definition dacl_bytes :: "entry list \<Rightarrow> string" where
  "dacl_bytes es = [byte 2, byte 0] @ le_bytes 2 (8 + length (concat (map entry_bytes es))) @ le_bytes 2 (length es)
     @ [byte 0, byte 0] @ concat (map entry_bytes es)"

definition descriptor_bytes :: "16 word \<Rightarrow> sid \<Rightarrow> entry list \<Rightarrow> string" where
  "descriptor_bytes control owner es = [byte 1, byte 0] @ le_bytes 2 (unat control) @ le_bytes 4 (20 + length (dacl_bytes es))
     @ le_bytes 4 0 @ le_bytes 4 0 @ le_bytes 4 20 @ dacl_bytes es @ sid_bytes owner"

section \<open>Numbers\<close>

lemma word_unat_bound: "unat (w :: 'a::len word) < 2 ^ LENGTH('a)"
  by (rule unsigned_less)

lemma byte_values [simp]: "byte_of (byte n :: char) = n mod 256"
  by (rule byte_of_byte)

lemma le_value_append: "le_value (xs @ ys) = le_value xs + 256 ^ length xs * le_value ys"
  by (induction xs) (simp_all add: le_value_def algebra_simps)

lemma length_le_bytes [simp]: "length (le_bytes k n) = k"
  by (simp add: le_bytes_def)

lemma le_bytes_Suc: "le_bytes (Suc k) n = byte n # le_bytes k (n div 256)"
proof -
  have "[0..<Suc k] = 0 # map Suc [0..<k]" by (simp only: upt_conv_Cons [OF zero_less_Suc] map_Suc_upt)
  then show ?thesis unfolding le_bytes_def by (simp add: div_mult2_eq)
qed

lemma le_value_bytes: "le_value (le_bytes k n) = n mod 256 ^ k"
proof (induction k arbitrary: n)
  case (Suc k)
  have "n mod (256 * 256 ^ k) = 256 * (n div 256 mod 256 ^ k) + n mod 256" by (rule mod_mult2_eq)
  with Suc [of "n div 256"] show ?case unfolding le_bytes_Suc by (simp add: le_value_def)
qed (simp add: le_bytes_def le_value_def)

lemma shift_in_unat:
  assumes "unat v < 2 ^ 56"
  shows "unat (shift_in v c) = 256 * unat v + byte_of c"
proof -
  have b: "byte_of c < (256::nat)"
    by (metis byte_byte_of byte_of_byte mod_less_divisor zero_less_numeral)
  have "byte_of c mod 2 ^ 64 = (byte_of c :: nat)" by (rule mod_less) (rule less_le_trans [OF b], simp)
  then have c: "unat (of_nat (byte_of c) :: 64 word) = byte_of c" by (simp add: unat_of_nat)
  have p: "unat (push_bit 8 v) = 256 * unat v"
    using assms by (simp add: push_bit_eq_mult unat_word_ariths unat_of_nat)
  have d: "\<not> bit (push_bit 8 v) n \<or> \<not> bit (of_nat (byte_of c) :: 64 word) n" for n
  proof (cases "n < 8")
    case False
    then have "(2::nat) ^ 8 \<le> 2 ^ n" by (intro power_increasing) auto
    then have "256 \<le> (2::nat) ^ n" by simp
    then have "byte_of c < (2::nat) ^ n" by (rule less_le_trans [OF b])
    then have "\<not> bit (byte_of c :: nat) n" by (simp add: bit_nat_iff bit_iff_odd div_less)
    then show ?thesis by (simp add: bit_of_nat_iff)
  qed (simp add: bit_push_bit_iff)
  have "shift_in v c = push_bit 8 v + of_nat (byte_of c)"
    unfolding shift_in_def by (rule disjunctive_add [symmetric]) (rule d)
  moreover have "256 * unat v + byte_of c < 2 ^ 64"
  proof -
    have "unat v < 72057594037927936" using assms by simp
    then have "256 * unat v + byte_of c < 18446744073709551616" using b by linarith
    then show ?thesis by simp
  qed
  ultimately show ?thesis using p c by (simp add: unat_word_ariths)
qed

lemma shift_in_list:
  assumes "length xs \<le> 6" "unat v < 256 ^ (6 - length xs)"
  shows "unat (foldl shift_in v xs) = foldl (\<lambda>n c. 256 * n + byte_of c) (unat v) xs"
  using assms
proof (induction xs arbitrary: v)
  case (Cons c xs)
  have b: "byte_of c < (256::nat)"
    by (metis byte_byte_of byte_of_byte mod_less_divisor zero_less_numeral)
  have "(256::nat) ^ (6 - length (c # xs)) \<le> 256 ^ 5" using Cons.prems(1) by (intro power_increasing) auto
  then have s: "unat (shift_in v c) = 256 * unat v + byte_of c" using Cons.prems(2) by (intro shift_in_unat) simp
  have "256 * unat v + byte_of c < 256 * 256 ^ (6 - length (c # xs))" using Cons.prems(2) b by linarith
  also have "\<dots> = 256 ^ (6 - length xs)" using Cons.prems(1) by (simp add: Suc_diff_le flip: power_Suc)
  finally show ?case using Cons.IH [of "shift_in v c"] Cons.prems(1) by (simp add: s)
qed simp

lemma be48_value: "n < 2 ^ 48 \<Longrightarrow> foldl (\<lambda>m c. 256 * m + byte_of c) 0 (be48 n) = n"
proof -
  assume n: "n < 2 ^ 48"
  define d where "d i = n div 256 ^ i" for i :: nat
  have s: "256 * d (Suc i) + d i mod 256 = d i" for i
  proof -
    have "d (Suc i) = d i div 256" unfolding d_def by (metis div_mult2_eq mult.commute power_Suc)
    then show ?thesis by simp
  qed
  have top: "d 5 mod 256 = d 5" using n unfolding d_def by (simp add: less_mult_imp_div_less)
  have "be48 n = [byte (d 5), byte (d 4), byte (d 3), byte (d 2), byte (d 1), byte (d 0)]"
    unfolding be48_def d_def by (simp add: upt_rec)
  then have "foldl (\<lambda>m c. 256 * m + byte_of c) 0 (be48 n)
      = 256 * (256 * (256 * (256 * (256 * (d 5 mod 256) + d 4 mod 256) + d 3 mod 256) + d 2 mod 256) + d 1 mod 256) + d 0 mod 256"
    by simp
  also have "\<dots> = d 0"
    using s [of 4] s [of 3] s [of 2] s [of 1] s [of 0] by (simp only: top Suc_numeral One_nat_def [symmetric] Suc_1 semiring_norm)
  finally show ?thesis by (simp add: d_def)
qed

section \<open>A security identifier\<close>

lemma sidAt_shift: "sidAt (pre @ xs) (int (length pre)) = sidAt xs 0"
proof -
  have "nat (int (length pre) + k) = length pre + nat k" if "0 \<le> k" for k using that by simp
  moreover have "nat (int (length pre) + 8 + int i * 4) - length pre = nat (8 + int i * 4)" for i by linarith
  ultimately show ?thesis by (simp add: sidAt_spec nth_append Let_def)
qed

lemma length_be48 [simp]: "length (be48 n) = 6"
  by (simp add: be48_def)

lemma length_sub_bytes: "length (concat (map (le_bytes 4) vs)) = 4 * length vs"
  by (induction vs) simp_all

lemma length_sid_bytes [simp]: "length (sid_bytes s) = 8 + 4 * length (sdSubs s)"
  by (simp add: sid_bytes_def length_sub_bytes)

lemma drop_sub_bytes:
  "i < length vs \<Longrightarrow> take 4 (drop (4 * i) (concat (map (le_bytes 4) vs) @ post)) = le_bytes 4 (vs ! i)"
proof (induction vs arbitrary: i)
  case (Cons v vs)
  then show ?case by (cases i) simp_all
qed simp

lemma sidAt_start:
  assumes "sid_ok s"
  shows "sidAt (sid_bytes s @ post) 0 = Inr (sid_text s)"
proof -
  define xs n where "xs = sid_bytes s @ post" and "n = length (sdSubs s)"
  have n: "n \<le> 15" "sdAuthority s < 2 ^ 48" "list_all (\<lambda>v. v < 2 ^ 32) (sdSubs s)"
    using assms by (auto simp: sid_ok_def n_def)
  have a: "unat (foldl shift_in 0 (take 6 (drop 2 xs))) = sdAuthority s"
    using be48_value [OF n(2)] by (simp add: shift_in_list xs_def sid_bytes_def)
  have v: "le_value (take 4 (drop (8 + 4 * i) xs)) = sdSubs s ! i" if "i < n" for i
  proof -
    have "drop 8 xs = concat (map (le_bytes 4) (sdSubs s)) @ post" by (simp add: sid_bytes_def xs_def)
    moreover have "drop (8 + 4 * i) xs = drop (4 * i) (drop 8 xs)" by (simp only: drop_drop add.commute)
    ultimately have "take 4 (drop (8 + 4 * i) xs) = le_bytes 4 (sdSubs s ! i)"
      using drop_sub_bytes that by (simp only: n_def)
    moreover have "sdSubs s ! i < 2 ^ 32" using n(3) that by (simp add: list_all_length n_def)
    ultimately show ?thesis by (simp add: le_value_bytes)
  qed
  have e: "nat (8 + int i * 4) = 8 + 4 * i" for i by simp
  have m: "map (\<lambda>i. digits_of_nat (le_value (take 4 (drop (nat (8 + int i * 4)) xs)))) [0..<n] = map digits_of_nat (sdSubs s)"
    by (rule nth_equalityI) (simp_all add: n_def [symmetric] e v)
  have h: "byte_of (xs ! 0) = (1::nat)" "byte_of (xs ! 1) = n"
    using n(1) by (simp_all add: sid_bytes_def xs_def n_def)
  moreover have "8 + 4 * n \<le> length xs" by (simp add: xs_def n_def)
  ultimately have "sidAt xs 0 = Inr (join ''-'' ([''S'', ''1'', digits_of_nat (unat (foldl shift_in 0 (take 6 (drop 2 xs))))]
      @ map (\<lambda>i. digits_of_nat (le_value (take 4 (drop (nat (8 + int i * 4)) xs)))) [0..<n]))"
    using n(1) by (simp add: sidAt_spec)
  then show ?thesis unfolding a m by (simp only: sid_text_def xs_def)
qed

lemma sidAt_bytes: "sid_ok s \<Longrightarrow> sidAt (pre @ sid_bytes s @ post) (int (length pre)) = Inr (sid_text s)"
  by (simp only: sidAt_shift sidAt_start)

lemma sid_text_inj:
  assumes "sid_text s = sid_text t"
  shows "s = t"
proof -
  have d: "CHR ''-'' \<notin> set (digits_of_nat n)" for n
    using digits_of_nat_digits [of n] by (auto simp: list_all_iff is_digit_def)
  have p: "split_byte (sid_text x) CHR ''-'' = [''S'', ''1'', digits_of_nat (sdAuthority x)] @ map digits_of_nat (sdSubs x)" for x
    unfolding sid_text_def by (rule split_join) (use d in auto)
  have i: "inj digits_of_nat" by (rule injI) (metis nat_of_digits_of_nat)
  from p [of s] p [of t] assms have "digits_of_nat (sdAuthority s) = digits_of_nat (sdAuthority t)"
    "map digits_of_nat (sdSubs s) = map digits_of_nat (sdSubs t)" by simp_all
  with i show ?thesis by (simp add: inj_eq inj_map_eq_map)
qed

section \<open>Entries\<close>

definition entry_ok :: "entry \<Rightarrow> bool" where
  "entry_ok e = sid_ok (enSID e)"

lemma length_entry_bytes [simp]: "length (entry_bytes e) = 16 + 4 * length (sdSubs (enSID e))"
  by (simp add: entry_bytes_def)

lemma decode_entry:
  assumes "entry_ok e"
  shows "decode_ace (entry_bytes e) = Inr (allow_ace e)"
proof -
  let ?pre = "[byte (if enDeny e then 1 else 0), byte (unat (enFlags e))] @ le_bytes 2 (8 + length (sid_bytes (enSID e)))
     @ le_bytes 4 (unat (enMask e))"
  have s: "sidAt (entry_bytes e) 8 = Inr (sid_text (enSID e))"
    using sidAt_bytes [of "enSID e" ?pre "[]"] assms by (simp add: entry_bytes_def entry_ok_def)
  have "take 4 (drop 4 (entry_bytes e)) = le_bytes 4 (unat (enMask e))" by (simp add: entry_bytes_def)
  then have m: "le_value (take 4 (drop 4 (entry_bytes e))) = unat (enMask e)"
    using word_unat_bound [of "enMask e"] by (simp add: le_value_bytes)
  have b: "byte_of (entry_bytes e ! 0) = (if enDeny e then 1 else (0::nat))"
    "byte_of (entry_bytes e ! 1) = unat (enFlags e)"
    using word_unat_bound [of "enFlags e"] by (simp_all add: entry_bytes_def)
  have "entry_bytes e ! 9 = byte (length (sdSubs (enSID e)))"
    by (simp add: entry_bytes_def nth_append sid_bytes_def)
  then have c: "byte_of (entry_bytes e ! 9) = length (sdSubs (enSID e))"
    using assms by (simp add: entry_ok_def sid_ok_def)
  show ?thesis using s m b c
    by (simp add: decode_ace_def access_ok allow_ace_def Let_def)
qed

lemma ace_step_entry:
  assumes "entry_ok e" "acl = pre @ entry_bytes e @ post"
  shows "ace_step acl i (int (length pre), aces) = Inr (int (length (pre @ entry_bytes e)), aces @ [allow_ace e])"
proof -
  have l: "length (sdSubs (enSID e)) \<le> 15" using assms(1) by (simp add: entry_ok_def sid_ok_def)
  have "take 2 (drop (nat (int (length pre) + 2)) acl) = le_bytes 2 (8 + length (sid_bytes (enSID e)))"
    by (simp add: assms(2) nat_add_distrib entry_bytes_def)
  then have z: "le16 acl (int (length pre) + 2) = Inr (16 + 4 * length (sdSubs (enSID e)))"
    using l by (simp add: le_ok assms(2) le_value_bytes)
  have y: "slice acl (int (length pre)) (int (length pre) + int (16 + 4 * length (sdSubs (enSID e)))) = Inr (entry_bytes e)"
    by (subst slice_ok) (simp_all add: assms(2) nat_add_distrib)
  show ?thesis
    using z y decode_entry [OF assms(1)] by (simp add: ace_step_def) (simp add: assms(2))
qed

lemma ace_loop:
  assumes "list_all entry_ok es" "acl = pre @ concat (map entry_bytes es)" "length ks = length es"
  shows "fold_result (ace_step acl) ks (int (length pre), aces) = Inr (int (length acl), aces @ map allow_ace es)"
  using assms
proof (induction es arbitrary: pre aces ks)
  case (Cons e es)
  then obtain k ks' where k: "ks = k # ks'" "length ks' = length es" by (cases ks) auto
  have "ace_step acl k (int (length pre), aces) = Inr (int (length (pre @ entry_bytes e)), aces @ [allow_ace e])"
    by (rule ace_step_entry [where post = "concat (map entry_bytes es)"]) (use Cons.prems in auto)
  then show ?case
    using Cons.IH [of "pre @ entry_bytes e" ks' "aces @ [allow_ace e]"] Cons.prems k by simp
qed simp

section \<open>A descriptor\<close>

definition descriptor_fits :: "16 word \<Rightarrow> sid \<Rightarrow> entry list \<Rightarrow> bool" where
  "descriptor_fits control owner es = (and control 0x8000 \<noteq> 0 \<and> and control 4 \<noteq> 0 \<and> sid_ok owner \<and> list_all entry_ok es
     \<and> length es \<le> 4096 \<and> length (dacl_bytes es) < 65536 \<and> length (descriptor_bytes control owner es) \<le> 65536)"

lemma length_dacl_bytes: "length (dacl_bytes es) = 8 + length (concat (map entry_bytes es))"
  by (simp add: dacl_bytes_def)

lemma decode_dacl_bytes:
  assumes "list_all entry_ok es" "length es \<le> 4096" "length (dacl_bytes es) < 65536"
  shows "decode_dacl (dacl_bytes es @ post) = Inr (map allow_ace es)"
proof -
  let ?acl = "dacl_bytes es" and ?body = "concat (map entry_bytes es)"
  have l: "length ?acl = 8 + length ?body" by (rule length_dacl_bytes)
  have b: "byte_at (?acl @ post) 0 = Inr 2" by (simp add: byte_at_def dacl_bytes_def)
  have "take 2 (drop 2 (?acl @ post)) = le_bytes 2 (8 + length ?body)" "take 2 (drop 4 (?acl @ post)) = le_bytes 2 (length es)"
    by (simp_all add: dacl_bytes_def)
  then have s: "le16 (?acl @ post) 2 = Inr (length ?acl)" "le16 (?acl @ post) 4 = Inr (length es)"
    using assms(2,3) l by (simp_all add: le_ok le_value_bytes)
  have t: "slice (?acl @ post) 0 (int (length ?acl)) = Inr ?acl" by (simp add: slice_ok)
  have p: "?acl = ([byte 2, byte 0] @ le_bytes 2 (8 + length ?body) @ le_bytes 2 (length es) @ [byte 0, byte 0]) @ ?body"
    (is "_ = ?pre @ _") by (simp add: dacl_bytes_def)
  have "length ?pre = 8" by simp
  then have "fold_result (ace_step ?acl) [0..<length es] (8, []) = Inr (int (length ?acl), map allow_ace es)"
    using ace_loop [OF assms(1) p, of "[0..<length es]" "[]"] by simp
  then show ?thesis using b s t assms(2) l by (simp add: decode_dacl_def maxACEs_def)
qed

lemma descriptor_decode_encode:
  assumes "descriptor_fits control owner es"
  shows "decodeDescriptor (descriptor_bytes control owner es) = Inr \<lparr>deOwner = sid_text owner, deControl = control, deNullDACL = False,
    deACEs = map allow_ace es, deHash = Sum256 (descriptor_bytes control owner es)\<rparr>"
proof -
  let ?raw = "descriptor_bytes control owner es" and ?acl = "dacl_bytes es"
  note f = assms [unfolded descriptor_fits_def]
  have len: "length ?raw = 20 + length ?acl + length (sid_bytes owner)" by (simp add: descriptor_bytes_def)
  have mod4: "length ?acl mod 4 = 0"
  proof -
    have "length (concat (map entry_bytes es)) mod 4 = 0"
    proof (induction es)
      case (Cons e es)
      then show ?case by (simp add: mod_add_left_eq [symmetric])
    qed simp
    then show ?thesis by (simp add: length_dacl_bytes mod_add_eq [symmetric])
  qed
  have parts: "take 2 (drop 2 ?raw) = le_bytes 2 (unat control)" "take 4 (drop 4 ?raw) = le_bytes 4 (20 + length ?acl)"
    "take 4 (drop 16 ?raw) = le_bytes 4 20" "drop 20 ?raw = ?acl @ sid_bytes owner" by (simp_all add: descriptor_bytes_def)
  have c: "le_value (take 2 (drop 2 ?raw)) = unat control" "le_value (take 4 (drop 4 ?raw)) = 20 + length ?acl"
    "le_value (take 4 (drop 16 ?raw)) = 20"
    using word_unat_bound [of control] f by (simp_all only: parts le_value_bytes) simp_all
  have o: "sidAt ?raw (int (20 + length ?acl)) = Inr (sid_text owner)"
    using sidAt_bytes [of owner "take 20 ?raw @ ?acl" "[]"] f by (simp add: descriptor_bytes_def)
  have d: "decode_dacl (?acl @ sid_bytes owner) = Inr (map allow_ace es)" using f by (intro decode_dacl_bytes) auto
  have b: "byte_of (?raw ! 0) = (1::nat)" by (simp add: descriptor_bytes_def)
  have s: "slice ?raw 20 (int (length ?raw)) = Inr (?acl @ sid_bytes owner)"
    by (subst slice_ok) (use len in \<open>simp_all add: parts(4) nat_diff_distrib\<close>)
  have "(20 + length ?acl) mod 4 = 0" using mod4 by presburger
  then show ?thesis
    using f len o d s
    by (simp add: decodeDescriptor_def access_ok b c maxDescriptor_def Let_def mod_add_eq)
qed

end
