(* ===== verification/State_Archive.thy ===== *)
theory State_Archive
  imports Docker_Run Go_Path Go_Time
begin

text \<open>
  Archives of managed volumes (\<open>internal/statearchive/statearchive.go\<close>): the manifest, the checks of
  \<open>Open\<close> down to every tar header, the plan and the restore, and \<open>Backup\<close>. The formats of the
  standard library are parameters: \<open>json\<close> decodes a manifest strictly, \<open>tar\<close> lists the headers of a
  stream and says whether it ended well. Docker's answers are fields of records, one for each time at
  which the code asks.
\<close>

definition ManifestName :: string where "ManifestName = ''state/manifest.json''"

definition HelperImage :: string where
  "HelperImage = ''docker.io/library/alpine:3.23@sha256:fd791d74b68913cbb027c6546007b3f0d3bc45125f797758156952bc2d6daf40''"

definition maxManifest :: nat where "maxManifest = 1048576"

record archived_volume =
  avName :: string
  avArchive :: string
  avSize :: int
  avSHA256 :: string
  avLabels :: labels
  avProjectPath :: string
  avProjectHash :: string

record manifest =
  mfSchema :: int
  mfCreatedAt :: string
  mfVersion :: string
  mfHelper :: string
  mfVolumes :: "archived_volume list"

text \<open>An entry of the zip file; \<open>None\<close> when its contents cannot be read.\<close>

record zip_entry =
  zeName :: string
  zeSize :: nat
  zeData :: "string option"

record tar_header =
  thName :: string
  thType :: char
  thLink :: string

datatype archive_error =
    Ar_No_Names
  | Ar_Helper
  | Ar_Volume_Name string
  | Ar_Selected_Twice string
  | Ar_Labels string
  | Ar_Unmanaged string
  | Ar_No_Owner string
  | Ar_Project_Labels string
  | Ar_Owner string
  | Ar_Identity string
  | Ar_No_Path string
  | Ar_Hash string
  | Ar_Kind string
  | Ar_Active string
  | Ar_Export string
  | Ar_Write
  | Ar_Duplicate_Entry string
  | Ar_No_Manifest
  | Ar_Manifest
  | Ar_Manifest_Size
  | Ar_Schema int
  | Ar_Metadata
  | Ar_Created_At
  | Ar_No_Volumes
  | Ar_Archive_Path string
  | Ar_Archive_Twice string
  | Ar_Missing string
  | Ar_Size string
  | Ar_SHA string
  | Ar_Project_Identity string
  | Ar_Tar string
  | Ar_Tar_Name string
  | Ar_Tar_Link string
  | Ar_Tar_Escape string
  | Ar_Tar_Type string
  | Ar_Checksum string
  | Ar_Unreferenced
  | Ar_List
  | Ar_Existing_Labels string
  | Ar_Not_Empty string
  | Ar_Inspect string
  | Ar_Ensure string
  | Ar_Labels_Changed string
  | Ar_Import string

section \<open>Names and identities\<close>

definition volumeArchiveName :: "string \<Rightarrow> string" where
  "volumeArchiveName name = ''state/volumes/'' @ name @ ''.tar''"

definition volume_alnum :: "nat \<Rightarrow> bool" where
  "volume_alnum c = ((97 \<le> c \<and> c \<le> 122) \<or> (65 \<le> c \<and> c \<le> 90) \<or> (48 \<le> c \<and> c \<le> 57))"

definition validVolumeName :: "unicode \<Rightarrow> string \<Rightarrow> bool" where
  "validVolumeName U name = (name \<noteq> [] \<and> volume_alnum (byte_of (hd name))
     \<and> list_all (\<lambda>r. volume_alnum r \<or> r = 95 \<or> r = 46 \<or> r = 45) (rune_values name)
     \<and> has_prefix (to_lower U name) ''cb-'')"

text \<open>A missing key of a Go map reads as the empty string.\<close>

definition label :: "labels \<Rightarrow> string \<Rightarrow> string" where
  "label m k = (case map_of m k of Some v \<Rightarrow> v | None \<Rightarrow> [])"

definition split_owner :: "string \<Rightarrow> string \<Rightarrow> (archive_error, string \<times> string) result" where
  "split_owner name owner = (case cut_byte owner CHR ''/'' of
     None \<Rightarrow> Inl (Ar_Owner name)
   | Some (grp, lname) \<Rightarrow>
     (if grp = [] \<or> lname = [] \<or> contains_byte lname CHR ''/'' then Inl (Ar_Owner name) else Inr (grp, lname)))"

definition has_project_labels :: "labels \<Rightarrow> bool" where
  "has_project_labels m = (label m ''cb.project_path'' \<noteq> [] \<or> label m ''cb.project_hash'' \<noteq> [])"

definition validateManagedIdentity :: "win_host \<Rightarrow> string \<Rightarrow> labels \<Rightarrow> (archive_error, string \<times> string) result" where
  "validateManagedIdentity h name m =
     (let kind = label m ''cb.kind''; owner = label m ''cb.owner'' in
      if label m ''cb.managed'' \<noteq> ''true'' then Inl (Ar_Unmanaged name)
      else if owner = [] then Inl (Ar_No_Owner name)
      else if kind = ''shared'' then
        (if has_project_labels m then Inl (Ar_Project_Labels name)
         else rbind (split_owner name owner) (\<lambda>(grp, lname).
           let expected = (if owner = ''python313/pip-cache'' then ''cb-pip-cache'' else StatefulSharedVolumeID grp lname) in
           if name \<noteq> expected then Inl (Ar_Identity name) else Inr ([], [])))
      else if kind = ''compat'' then
        (if has_project_labels m then Inl (Ar_Project_Labels name)
         else if name \<noteq> ''cb-python-313-global'' \<or> (owner \<noteq> ''python313/global'' \<and> owner \<noteq> ''python313/venv'')
         then Inl (Ar_Identity name) else Inr ([], []))
      else if kind = ''project'' then
        (let projectPath = label m ''cb.project_path''; projectHash = VolumeHash h projectPath; labeled = label m ''cb.project_hash'' in
         if projectPath = [] then Inl (Ar_No_Path name)
         else if labeled \<noteq> [] \<and> labeled \<noteq> projectHash then Inl (Ar_Hash name)
         else rbind (split_owner name owner) (\<lambda>(grp, lname).
           let expected = (if owner = ''python313/venv'' then PythonEnvID h projectPath True
             else StatefulProjectVolumeID h grp lname projectPath) in
           if name \<noteq> expected then Inl (Ar_Identity name) else Inr (projectPath, projectHash)))
      else Inl (Ar_Kind name))"

section \<open>Tar headers\<close>

definition goes_up :: "string \<Rightarrow> bool" where
  "goes_up p = (p = ''..'' \<or> has_prefix p ''../'')"

definition validateTarHeader :: "tar_header \<Rightarrow> (archive_error, unit) result" where
  "validateTarHeader th =
     (let name = thName th; link = thLink th; clean = path_clean name in
      if name = [] \<or> contains_byte name CHR 0x00 then Inl (Ar_Tar_Name name)
      else if path_is_abs name \<or> goes_up clean then Inl (Ar_Tar_Escape name)
      else if thType th \<in> {CHR ''0'', CHR 0x00, CHR ''5''} then Inr ()
      else if thType th \<in> {CHR ''1'', CHR ''2''} then
        (if link = [] \<or> contains_byte link CHR 0x00 then Inl (Ar_Tar_Link name)
         else if path_is_abs link then Inl (Ar_Tar_Escape name)
         else
           (let target = (if thType th = CHR ''2'' then path_clean (path_join [path_dir clean, link]) else path_clean link) in
            if goes_up target then Inl (Ar_Tar_Escape name) else Inr ()))
      else Inl (Ar_Tar_Type name))"

definition validateVolumeTar ::
    "unicode \<Rightarrow> (string \<Rightarrow> tar_header list \<times> bool) \<Rightarrow> zip_entry \<Rightarrow> archived_volume \<Rightarrow> (archive_error, unit) result" where
  "validateVolumeTar U tar zf v = (case zeData zf of
     None \<Rightarrow> Inl (Ar_Tar (avName v))
   | Some data \<Rightarrow> (case tar data of (headers, complete) \<Rightarrow>
       rbind (check_all validateTarHeader headers) (\<lambda>_.
         if \<not> complete then Inl (Ar_Tar (avName v))
         else if int (length data) \<noteq> avSize v \<or> \<not> equal_fold U (hex_encode (Sum256 data)) (avSHA256 v)
         then Inl (Ar_Checksum (avName v)) else Inr ())))"

section \<open>Opening an archive\<close>

definition add_entry :: "zip_entry \<Rightarrow> (string, zip_entry) gomap \<Rightarrow> (archive_error, (string, zip_entry) gomap) result" where
  "add_entry f byName = (if mhas byName (zeName f) then Inl (Ar_Duplicate_Entry (zeName f)) else Inr (mput (zeName f) f byName))"

definition check_metadata :: "manifest \<Rightarrow> (archive_error, unit) result" where
  "check_metadata m =
     (if mfSchema m \<noteq> 1 then Inl (Ar_Schema (mfSchema m))
      else if mfHelper m = [] \<or> mfCreatedAt m = [] \<or> mfVersion m = [] then Inl Ar_Metadata
      else if parse_rfc3339 (mfCreatedAt m) = None then Inl Ar_Created_At
      else if mfVolumes m = [] then Inl Ar_No_Volumes else Inr ())"

text \<open>The volumes seen so far; each has its own archive.\<close>

definition check_archived ::
    "win_host \<Rightarrow> (string \<Rightarrow> tar_header list \<times> bool) \<Rightarrow> (string, zip_entry) gomap \<Rightarrow> archived_volume
      \<Rightarrow> string list \<times> string list \<Rightarrow> (archive_error, string list \<times> string list) result" where
  "check_archived h tar byName v st = (case st of (seenVolumes, referenced) \<Rightarrow>
     if \<not> validVolumeName (whUnicode h) (avName v) \<or> avName v \<in> set seenVolumes then Inl (Ar_Volume_Name (avName v))
     else if avArchive v \<noteq> volumeArchiveName (avName v) then Inl (Ar_Archive_Path (avName v))
     else if avArchive v \<in> set referenced then Inl (Ar_Archive_Twice (avArchive v))
     else (case map_of byName (avArchive v) of
         None \<Rightarrow> Inl (Ar_Missing (avArchive v))
       | Some zf \<Rightarrow>
         (if avSize v \<le> 0 \<or> avSize v \<noteq> int (zeSize zf) then Inl (Ar_Size (avName v))
          else if length (avSHA256 v) \<noteq> 64 \<or> \<not> list_all (\<lambda>c. unhex c \<noteq> None) (avSHA256 v) then Inl (Ar_SHA (avName v))
          else rbind (validateManagedIdentity h (avName v) (avLabels v)) (\<lambda>(projectPath, projectHash).
            if projectPath \<noteq> avProjectPath v \<or> projectHash \<noteq> avProjectHash v then Inl (Ar_Project_Identity (avName v))
            else rbind (validateVolumeTar (whUnicode h) tar zf v) (\<lambda>_. Inr (avName v # seenVolumes, avArchive v # referenced))))))"

record archive =
  arManifest :: manifest
  arFiles :: "(string, zip_entry) gomap"

definition Open ::
    "win_host \<Rightarrow> (string \<Rightarrow> manifest option) \<Rightarrow> (string \<Rightarrow> tar_header list \<times> bool) \<Rightarrow> zip_entry list \<Rightarrow> (archive_error, archive) result" where
  "Open h json tar files =
     rbind (fold_result add_entry files []) (\<lambda>byName.
     case map_of byName ManifestName of
       None \<Rightarrow> Inl Ar_No_Manifest
     | Some mf \<Rightarrow> (case Option.bind (zeData mf) (\<lambda>data. json (take (maxManifest + 1) data)) of
         None \<Rightarrow> Inl Ar_Manifest
       | Some m \<Rightarrow>
         (if maxManifest < zeSize mf then Inl Ar_Manifest_Size
          else rbind (check_metadata m) (\<lambda>_.
               rbind (fold_result (check_archived h tar byName) (mfVolumes m) ([], [])) (\<lambda>(_, referenced).
                 if list_ex (\<lambda>name. has_prefix name ''state/volumes/'' \<and> name \<notin> set referenced) (mkeys byName) then Inl Ar_Unreferenced
                 else Inr \<lparr>arManifest = m, arFiles = byName\<rparr>)))))"

section \<open>Planning and restoring\<close>

record plan_answers =
  paHelper :: bool
  paNames :: "string list option"
  paActive :: "string \<Rightarrow> string option"
  paLabels :: "string \<Rightarrow> labels option"
  paEmpty :: "string \<Rightarrow> bool option"

definition requireQuiescent :: "(string \<Rightarrow> string option) \<Rightarrow> string \<Rightarrow> (archive_error, unit) result" where
  "requireQuiescent active name = (case active name of
     None \<Rightarrow> Inl (Ar_Active name)
   | Some out \<Rightarrow> if trim_space out \<noteq> [] then Inl (Ar_Active name) else Inr ())"

definition equal_labels :: "labels \<Rightarrow> labels \<Rightarrow> bool" where
  "equal_labels a b = (length a = length b \<and> list_all (\<lambda>k. map_of a k = map_of b k) (mkeys a @ mkeys b))"

datatype plan_status = Plan_Create | Plan_Restore_Empty

definition plan_volume :: "plan_answers \<Rightarrow> string list \<Rightarrow> archived_volume \<Rightarrow> (archive_error, string \<times> plan_status) result" where
  "plan_volume A existing v =
     rbind (requireQuiescent (paActive A) (avName v)) (\<lambda>_.
       if avName v \<notin> set existing then Inr (avName v, Plan_Create)
       else (case paLabels A (avName v) of
           None \<Rightarrow> Inl (Ar_Labels (avName v))
         | Some m \<Rightarrow>
           (if \<not> equal_labels m (avLabels v) then Inl (Ar_Existing_Labels (avName v))
            else (case paEmpty A (avName v) of
                None \<Rightarrow> Inl (Ar_Inspect (avName v))
              | Some False \<Rightarrow> Inl (Ar_Not_Empty (avName v))
              | Some True \<Rightarrow> Inr (avName v, Plan_Restore_Empty)))))"

definition Plan :: "plan_answers \<Rightarrow> archive \<Rightarrow> (archive_error, (string \<times> plan_status) list) result" where
  "Plan A a =
     (if \<not> paHelper A then Inl Ar_Helper
      else (case paNames A of
          None \<Rightarrow> Inl Ar_List
        | Some existing \<Rightarrow> fold_result (\<lambda>v plans. rbind (plan_volume A existing v) (\<lambda>p. Inr (plans @ [p]))) (mfVolumes (arManifest a)) []))"

record restore_answers =
  raActive :: "string \<Rightarrow> string option"
  raEnsure :: "string \<Rightarrow> bool"
  raLabels :: "string \<Rightarrow> labels option"
  raEmpty :: "string \<Rightarrow> bool option"
  raImport :: "string \<Rightarrow> bool"

datatype restore_call = Rs_Ensure string labels | Rs_Import string string

text \<open>What is done for one volume: the calls that change Docker's state, and the error that ends the loop.\<close>

definition restore_volume :: "restore_answers \<Rightarrow> archive \<Rightarrow> archived_volume \<Rightarrow> restore_call list \<times> archive_error option" where
  "restore_volume R a v =
     (let name = avName v; made = [Rs_Ensure name (avLabels v)] in
      case requireQuiescent (raActive R) name of
        Inl e \<Rightarrow> ([], Some e)
      | Inr _ \<Rightarrow>
        (if \<not> raEnsure R name then (made, Some (Ar_Ensure name))
         else (case raLabels R name of
             None \<Rightarrow> (made, Some (Ar_Labels name))
           | Some m \<Rightarrow>
             (if \<not> equal_labels m (avLabels v) then (made, Some (Ar_Labels_Changed name))
              else (case raEmpty R name of
                  None \<Rightarrow> (made, Some (Ar_Inspect name))
                | Some False \<Rightarrow> (made, Some (Ar_Not_Empty name))
                | Some True \<Rightarrow>
                  (case Option.bind (map_of (arFiles a) (avArchive v)) zeData of
                     None \<Rightarrow> (made, Some (Ar_Import name))
                   | Some data \<Rightarrow> (made @ [Rs_Import name data], if raImport R name then None else Some (Ar_Import name))))))))"

text \<open>The loop with the number of volumes restored before a failure.\<close>

fun restore_loop :: "restore_answers \<Rightarrow> archive \<Rightarrow> nat \<Rightarrow> archived_volume list \<Rightarrow> restore_call list \<times> (archive_error \<times> nat) option" where
  "restore_loop R a k [] = ([], None)"
| "restore_loop R a k (v # vs) = (case restore_volume R a v of
     (calls, Some e) \<Rightarrow> (calls, Some (e, k))
   | (calls, None) \<Rightarrow> (case restore_loop R a (Suc k) vs of (calls', e) \<Rightarrow> (calls @ calls', e)))"

definition Restore :: "plan_answers \<Rightarrow> restore_answers \<Rightarrow> archive \<Rightarrow> restore_call list \<times> (archive_error \<times> nat) option" where
  "Restore A R a = (case Plan A a of
     Inl e \<Rightarrow> ([], Some (e, 0))
   | Inr _ \<Rightarrow> restore_loop R a 0 (mfVolumes (arManifest a)))"

section \<open>Backup\<close>

record backup_answers =
  baHelper :: bool
  baLabels :: "string \<Rightarrow> labels option"
  baActive :: "string \<Rightarrow> string option"
  baExport :: "string \<Rightarrow> string option"
  baWrite :: "string \<Rightarrow> bool"

definition zip_file :: "string \<Rightarrow> string \<Rightarrow> zip_entry" where
  "zip_file name data = \<lparr>zeName = name, zeSize = length data, zeData = Some data\<rparr>"

text \<open>One volume: its entry of the manifest and of the zip file; \<open>seen\<close> are the names before it.\<close>

definition backup_volume ::
    "win_host \<Rightarrow> backup_answers \<Rightarrow> string \<Rightarrow> (archived_volume \<times> zip_entry) list \<Rightarrow> (archive_error, (archived_volume \<times> zip_entry) list) result" where
  "backup_volume h B name acc =
     (if \<not> validVolumeName (whUnicode h) name then Inl (Ar_Volume_Name name)
      else if name \<in> (avName \<circ> fst) ` set acc then Inl (Ar_Selected_Twice name)
      else (case baLabels B name of
          None \<Rightarrow> Inl (Ar_Labels name)
        | Some m \<Rightarrow>
          rbind (validateManagedIdentity h name m) (\<lambda>(projectPath, projectHash).
          rbind (requireQuiescent (baActive B) name) (\<lambda>_.
            if \<not> baWrite B (volumeArchiveName name) then Inl Ar_Write
            else (case baExport B name of
                None \<Rightarrow> Inl (Ar_Export name)
              | Some data \<Rightarrow>
                Inr (acc @ [(\<lparr>avName = name, avArchive = volumeArchiveName name, avSize = int (length data),
                  avSHA256 = hex_encode (Sum256 data), avLabels = m, avProjectPath = projectPath, avProjectHash = projectHash\<rparr>,
                  zip_file (volumeArchiveName name) data)]))))))"

text \<open>\<open>encode\<close> is \<open>json.MarshalIndent\<close>; the entries of the zip file are returned in order.\<close>

definition Backup ::
    "win_host \<Rightarrow> (manifest \<Rightarrow> string option) \<Rightarrow> backup_answers \<Rightarrow> string list \<Rightarrow> string \<Rightarrow> gotime
      \<Rightarrow> (archive_error, manifest \<times> zip_entry list) result" where
  "Backup h encode B names cbVersion created =
     (if names = [] then Inl Ar_No_Names
      else if \<not> baHelper B then Inl Ar_Helper
      else rbind (fold_result (backup_volume h B) (sort names) []) (\<lambda>done_volumes.
        let m = \<lparr>mfSchema = 1, mfCreatedAt = format_utc created, mfVersion = cbVersion, mfHelper = HelperImage,
          mfVolumes = map fst done_volumes\<rparr> in
        case encode m of
          None \<Rightarrow> Inl Ar_Manifest
        | Some data \<Rightarrow>
          (if \<not> baWrite B ManifestName then Inl Ar_Write
           else Inr (m, map snd done_volumes @ [zip_file ManifestName (data @ [CHR 0x0A])]))))"

text \<open>The arguments of the helper containers.\<close>

definition helper_args :: "string \<Rightarrow> bool \<Rightarrow> bool \<Rightarrow> string list \<Rightarrow> string list" where
  "helper_args volume readOnly stdin command =
     [''run'', ''--rm''] @ (if stdin then [''-i''] else [])
     @ [''--pull'', ''never'', ''--network'', ''none'', ''--read-only'', ''--mount'',
        ''type=volume,src='' @ volume @ '',dst=/volume'' @ (if readOnly then '',readonly'' else []), HelperImage] @ command"

definition export_args :: "string \<Rightarrow> string list" where
  "export_args name = helper_args name True False [''tar'', ''-C'', ''/volume'', ''-cf'', ''-'', ''.'']"

definition import_args :: "string \<Rightarrow> string list" where
  "import_args name = helper_args name False True [''tar'', ''-C'', ''/volume'', ''-xf'', ''-'']"

definition empty_args :: "string \<Rightarrow> string list" where
  "empty_args name = helper_args name True False [''find'', ''/volume'', ''-mindepth'', ''1'', ''-print'', ''-quit'']"

definition volumeEmpty :: "(string list \<Rightarrow> string option) \<Rightarrow> string \<Rightarrow> bool option" where
  "volumeEmpty docker name = map_option (\<lambda>out. trim_space out = []) (docker (empty_args name))"

end
