(* ===== verification/State_Archive_Facts.thy ===== *)
theory State_Archive_Facts
  imports State_Archive Docker_Run_Facts
begin

text \<open>
  What an archive that opens contains (\<open>open_spec\<close>), what a restore does and how far it got
  (\<open>restore_spec\<close>), that a backup opens again (\<open>backup_reopens\<close>), and that the volumes of a run carry
  the identity that a backup asks for (\<open>run_volume_identity\<close>).
\<close>

text \<open>
  What the checks of a tar header mean: the name, and the target of a link, walked component by component
  from the root of the volume, never leave it (\<open>header_inside\<close>). \<open>walk\<close> is that reading, without links
  on the way; \<open>follow\<close> is the same with the links that exist already.
\<close>

fun walk :: "string list \<Rightarrow> string list \<Rightarrow> string list option" where
  "walk st [] = Some st"
| "walk st (c # cs) =
     (if c = [] \<or> c = ''.'' then walk st cs
      else if c = ''..'' then (case st of [] \<Rightarrow> None | _ # up \<Rightarrow> walk up cs)
      else walk (c # st) cs)"

lemma walk_append: "walk st (cs @ ds) = Option.bind (walk st cs) (\<lambda>st'. walk st' ds)"
  by (induction cs arbitrary: st) (auto split: list.splits)

lemma walk_proper:
  assumes "walk st cs = Some ds" "list_all proper st" "\<forall>c \<in> set cs. CHR ''/'' \<notin> set c"
  shows "list_all proper ds"
  using assms by (induction cs arbitrary: st) (auto simp: proper_def split: if_splits list.splits)

lemma walk_names: "list_all proper cs \<Longrightarrow> walk st cs = Some (rev cs @ st)"
  by (induction cs arbitrary: st) (auto simp: proper_def)

lemma clean_bottom: "st \<noteq> [] \<Longrightarrow> last st = ''..'' \<Longrightarrow>
  fold (clean_step False) cs st \<noteq> [] \<and> last (fold (clean_step False) cs st) = ''..''"
proof (induction cs arbitrary: st)
  case (Cons c cs)
  have "clean_step False c st \<noteq> [] \<and> last (clean_step False c st) = ''..''"
    using Cons.prems by (cases st) (auto simp: clean_step_def)
  then show ?case using Cons.IH by simp
qed simp

lemma clean_walk:
  assumes "''..'' \<notin> set st"
  shows "case walk st cs of
      Some ds \<Rightarrow> fold (clean_step False) cs st = ds
    | None \<Rightarrow> fold (clean_step False) cs st \<noteq> [] \<and> last (fold (clean_step False) cs st) = ''..''"
  using assms
proof (induction cs arbitrary: st)
  case (Cons c cs)
  consider "c = [] \<or> c = ''.''" | "c = ''..''" "st = []" | s up where "c = ''..''" "st = s # up"
    | "c \<noteq> []" "c \<noteq> ''.''" "c \<noteq> ''..''" by (cases st) auto
  then show ?case
  proof cases
    case 1
    then have e: "clean_step False c st = st" "walk st (c # cs) = walk st cs" by (auto simp: clean_step_def)
    show ?thesis using Cons.IH [OF Cons.prems] unfolding e fold_Cons comp_apply .
  next
    case 2
    then show ?thesis using clean_bottom [of "[''..'']" cs] by (simp add: clean_step_def)
  next
    case 3
    then have e: "clean_step False c st = up" "walk st (c # cs) = walk up cs" "''..'' \<notin> set up"
      using Cons.prems by (auto simp: clean_step_def)
    show ?thesis using Cons.IH [OF e(3)] unfolding e(1,2) fold_Cons comp_apply .
  next
    case 4
    then have e: "clean_step False c st = c # st" "walk st (c # cs) = walk (c # st) cs" "''..'' \<notin> set (c # st)"
      using Cons.prems by (auto simp: clean_step_def)
    show ?thesis using Cons.IH [OF e(3)] unfolding e(1,2) fold_Cons comp_apply .
  qed
qed simp

section \<open>Relative paths\<close>

definition components_of :: "string \<Rightarrow> string list" where
  "components_of p = split_byte p CHR ''/''"

text \<open>The name of a directory below the root, the innermost component first.\<close>

definition root_relative :: "string list \<Rightarrow> string" where
  "root_relative dir = (if dir = [] then ''.'' else join ''/'' (rev dir))"

lemma clean_relative:
  assumes "p \<noteq> []" "\<not> path_is_abs p" "walk [] (components_of p) = Some dir"
  shows "path_clean p = root_relative dir"
proof -
  have "fold (clean_step False) (components_of p) [] = dir" using clean_walk [of "[]" "components_of p"] assms(3) by simp
  moreover have "join ''/'' (rev dir) = [] \<Longrightarrow> dir = []"
  proof (cases dir rule: rev_cases)
    case (snoc ds d)
    assume j: "join ''/'' (rev dir) = []"
    have "list_all proper dir"
      using walk_proper [OF assms(3)] split_byte_free by (fastforce simp: components_of_def)
    then show ?thesis using join_nonempty [of "rev dir"] j by auto
  qed simp
  ultimately show ?thesis using assms(1,2) by (auto simp: path_clean_def Let_def root_relative_def components_of_def)
qed

lemma goes_up_join: "goes_up (join ''/'' (''..'' # cs))"
  by (cases cs) (auto simp: goes_up_def has_prefix_iff)

lemma clean_free:
  assumes "\<And>x. x \<in> set cs \<union> set st \<Longrightarrow> c \<notin> set x"
  shows "\<forall>x \<in> set (fold (clean_step rooted) cs st). c \<notin> set x"
proof -
  have "set (fold (clean_step rooted) cs st) \<subseteq> set cs \<union> set st"
  proof (induction cs arbitrary: st)
    case (Cons x cs)
    have "set (clean_step rooted x st) \<subseteq> insert x (set st)" by (cases st) (auto simp: clean_step_def)
    then show ?case using Cons [of "clean_step rooted x st"] by auto
  qed simp
  then show ?thesis using assms by blast
qed

lemma clean_escapes:
  assumes "p \<noteq> []" "\<not> path_is_abs p" "walk [] (components_of p) = None"
  shows "goes_up (path_clean p)" "\<exists>cs. components_of (path_clean p) = ''..'' # cs"
proof -
  let ?st = "fold (clean_step False) (components_of p) []"
  have st: "?st \<noteq> []" "last ?st = ''..''" using clean_walk [of "[]" "components_of p"] assms(3) by simp_all
  then obtain cs where r: "rev ?st = ''..'' # cs" by (metis last_rev list.collapse rev_is_Nil_conv rev_rev_ident hd_rev)
  have c: "path_clean p = join ''/'' (''..'' # cs)"
    using assms(1,2) r goes_up_join [of cs] by (auto simp: path_clean_def Let_def components_of_def goes_up_def has_prefix_iff)
  show "goes_up (path_clean p)" unfolding c by (rule goes_up_join)
  have "\<forall>x \<in> set ?st. CHR ''/'' \<notin> set x" by (rule clean_free) (use split_byte_free in \<open>auto simp: components_of_def\<close>)
  then have "\<forall>x \<in> set (''..'' # cs). CHR ''/'' \<notin> set x" by (metis r set_rev)
  then have "components_of (path_clean p) = ''..'' # cs" unfolding c components_of_def by (intro split_join) auto
  then show "\<exists>cs. components_of (path_clean p) = ''..'' # cs" by blast
qed

lemma not_up_walk:
  assumes "p \<noteq> []" "\<not> path_is_abs p" "\<not> goes_up (path_clean p)"
  obtains dir where "walk [] (components_of p) = Some dir" "list_all proper dir" "path_clean p = root_relative dir"
proof -
  from clean_escapes(1) [OF assms(1,2)] assms(3) obtain dir where d: "walk [] (components_of p) = Some dir" by fastforce
  have "list_all proper dir" using walk_proper [OF d] split_byte_free by (fastforce simp: components_of_def)
  with d show thesis using clean_relative [OF assms(1,2) d] by (intro that)
qed

text \<open>Cleaning twice keeps the verdict.\<close>

lemma up_clean_clean:
  assumes "p \<noteq> []" "\<not> path_is_abs p" "\<not> goes_up (path_clean (path_clean p))"
  shows "walk [] (components_of p) \<noteq> None"
proof
  assume n: "walk [] (components_of p) = None"
  from clean_escapes(2) [OF assms(1,2) n] obtain cs where c: "components_of (path_clean p) = ''..'' # cs" by blast
  have r: "path_clean p \<noteq> []" "\<not> path_is_abs (path_clean p)"
    using clean_escapes(1) [OF assms(1,2) n] by (auto simp: goes_up_def path_is_abs_def has_prefix_iff)
  have "walk [] (components_of (path_clean p)) = None" unfolding c by simp
  from clean_escapes(1) [OF r this] assms(3) show False by blast
qed

section \<open>The parent of an entry\<close>

lemma proper_head_relative:
  assumes "list_all proper cs"
  shows "\<not> path_is_abs (join ''/'' cs @ ''/'' @ t) \<or> cs = []"
proof (cases cs)
  case (Cons c ds)
  then obtain x xs where "c = x # xs" "x \<noteq> CHR ''/''" using assms by (cases c) (auto simp: proper_def)
  then show ?thesis using Cons by (cases ds) (auto simp: path_is_abs_def has_prefix_iff)
qed simp

lemma parent_walk:
  assumes "list_all proper dir" "link \<noteq> []"
  shows "\<exists>p. path_join [path_dir (root_relative dir), link] = path_clean p \<and> p \<noteq> [] \<and> \<not> path_is_abs p
    \<and> walk [] (components_of p) = walk (tl dir) (components_of link)"
proof (cases "tl dir = []")
  case True
  have d: "path_dir (root_relative dir) = ''.''"
  proof (cases dir)
    case Nil
    then show ?thesis by (simp add: root_relative_def path_dir_def path_clean_def)
  next
    case (Cons d ds)
    then have d: "dir = [d]" "CHR ''/'' \<notin> set d" using True assms(1) by (auto simp: proper_def)
    from d(2) have "last_index_byte d CHR ''/'' = None" by (simp add: last_index_byte_None)
    then show ?thesis using d(1) by (simp add: root_relative_def path_dir_def path_clean_def)
  qed
  have "components_of (''./'' @ link) = ''.'' # components_of link" by (simp add: components_of_def split_byte_append [of _ "''.''", simplified])
  then show ?thesis unfolding d True
    by (intro exI [of _ "''./'' @ link"]) (use assms(2) in \<open>simp add: path_join_def path_is_abs_def has_prefix_iff\<close>)
next
  case False
  then obtain d ds where dir: "dir = d # ds" "ds \<noteq> []" by (cases dir) auto
  have pr: "list_all proper (rev ds)" "CHR ''/'' \<notin> set d" using assms(1) dir by (auto simp: proper_def list_all_iff)
  let ?base = "join ''/'' (rev ds)"
  have b: "?base \<noteq> []" "\<not> path_is_abs (?base @ ''/'')" "\<not> path_is_abs (?base @ ''/'' @ link)"
    using join_nonempty [OF pr(1)] proper_head_relative [OF pr(1), of "[]"] proper_head_relative [OF pr(1), of link] dir(2) by auto
  have s: "split_byte ?base CHR ''/'' = rev ds" using split_join [of "rev ds" "CHR ''/''"] dir(2) proper_free [OF pr(1)] by simp
  have "join ''/'' (rev ds @ [d]) = ?base @ CHR ''/'' # d" using join_append [of "rev ds" "[d]" "''/''"] dir(2) by simp
  then have "path_dir (root_relative dir) = path_clean (?base @ ''/'')"
    using last_index_free [OF pr(2), of ?base] dir by (simp add: root_relative_def path_dir_def)
  also have "\<dots> = root_relative ds"
  proof (rule clean_relative)
    show "walk [] (components_of (?base @ ''/'')) = Some ds"
      using walk_names [OF pr(1), of "[]"] split_append_boundary [of ?base "CHR ''/''" "[]"] by (simp add: components_of_def s walk_append)
  qed (use b in auto)
  finally have e: "path_dir (root_relative dir) = ?base" using dir(2) by (simp add: root_relative_def)
  have "walk [] (components_of (?base @ ''/'' @ link)) = walk ds (components_of link)"
    using walk_names [OF pr(1), of "[]"] split_append_boundary [of ?base "CHR ''/''" link] by (simp add: components_of_def s walk_append)
  then show ?thesis unfolding e using b assms(2) dir(1) by (intro exI [of _ "?base @ ''/'' @ link"]) (simp add: path_join_def)
qed

section \<open>Headers\<close>

text \<open>The entry and what it links to, read component by component, stay in the volume.\<close>

definition stays_inside :: "tar_header \<Rightarrow> bool" where
  "stays_inside th = (case walk [] (components_of (thName th)) of
     None \<Rightarrow> False
   | Some dir \<Rightarrow>
     (thType th = CHR ''2'' \<longrightarrow> walk (tl dir) (components_of (thLink th)) \<noteq> None)
     \<and> (thType th = CHR ''1'' \<longrightarrow> walk [] (components_of (thLink th)) \<noteq> None))"

lemma header_inside:
  assumes "validateTarHeader th = Inr ()"
  shows "stays_inside th" "\<not> path_is_abs (thName th)" "thType th \<in> {CHR ''0'', CHR 0x00, CHR ''5'', CHR ''1'', CHR ''2''}"
    "thType th \<in> {CHR ''1'', CHR ''2''} \<Longrightarrow> \<not> path_is_abs (thLink th)"
proof -
  from assms have n: "thName th \<noteq> []" "\<not> path_is_abs (thName th)" "\<not> goes_up (path_clean (thName th))"
    by (auto simp: validateTarHeader_def Let_def split: if_splits)
  from not_up_walk [OF n] obtain dir where d: "walk [] (components_of (thName th)) = Some dir" "list_all proper dir"
    "path_clean (thName th) = root_relative dir" by blast
  have l: "thLink th \<noteq> []" "\<not> path_is_abs (thLink th)" if "thType th \<in> {CHR ''1'', CHR ''2''}"
    using assms that by (auto simp: validateTarHeader_def Let_def split: if_splits)
  have s: "walk (tl dir) (components_of (thLink th)) \<noteq> None" if "thType th = CHR ''2''"
  proof -
    have k: "thLink th \<noteq> []" using l(1) that by simp
    from parent_walk [OF d(2) k] obtain p where p: "path_join [path_dir (root_relative dir), thLink th] = path_clean p"
      "p \<noteq> []" "\<not> path_is_abs p" "walk [] (components_of p) = walk (tl dir) (components_of (thLink th))" by blast
    have "\<not> goes_up (path_clean (path_clean p))"
      using assms that by (auto simp: validateTarHeader_def Let_def d(3) p(1) split: if_splits)
    from up_clean_clean [OF p(2,3) this] show ?thesis by (simp add: p(4))
  qed
  have h: "walk [] (components_of (thLink th)) \<noteq> None" if "thType th = CHR ''1''"
  proof -
    have "\<not> goes_up (path_clean (thLink th))" using assms that by (auto simp: validateTarHeader_def Let_def split: if_splits)
    then show ?thesis using not_up_walk [of "thLink th"] l that by fastforce
  qed
  show "stays_inside th" using s h by (simp add: stays_inside_def d(1))
  show "\<not> path_is_abs (thName th)" by (rule n(2))
  show "thType th \<in> {CHR ''0'', CHR 0x00, CHR ''5'', CHR ''1'', CHR ''2''}"
    using assms by (auto simp: validateTarHeader_def Let_def split: if_splits)
  show "thType th \<in> {CHR ''1'', CHR ''2''} \<Longrightarrow> \<not> path_is_abs (thLink th)" by (rule l(2))
qed

section \<open>Links on the way\<close>

text \<open>The same walk in a volume with symbolic links; \<open>None\<close> also when the fuel ends.\<close>

fun follow :: "nat \<Rightarrow> (string list \<times> string) list \<Rightarrow> string list \<Rightarrow> string list \<Rightarrow> string list option" where
  "follow 0 links st cs = None"
| "follow (Suc n) links st [] = Some st"
| "follow (Suc n) links st (c # cs) =
     (if c = [] \<or> c = ''.'' then follow n links st cs
      else if c = ''..'' then (case st of [] \<Rightarrow> None | _ # up \<Rightarrow> follow n links up cs)
      else (case map_of links (c # st) of
          None \<Rightarrow> follow n links (c # st) cs
        | Some target \<Rightarrow> follow n links st (components_of target @ cs)))"

text \<open>The checks look at each header alone: a link to the root under another directory makes the next
  link leave the volume, although both pass.\<close>

definition first_link :: tar_header where
  "first_link = \<lparr>thName = ''d/e'', thType = CHR ''2'', thLink = ''..''\<rparr>"

definition second_link :: tar_header where
  "second_link = \<lparr>thName = ''d/e/f'', thType = CHR ''2'', thLink = ''../x''\<rparr>"

lemma links_compose:
  "validateTarHeader first_link = Inr ()" "validateTarHeader second_link = Inr ()"
  "follow 9 [([''e'', ''d''], ''..'')] [] [''d'', ''e''] = Some []"
  "walk [] (components_of (thLink second_link)) = None"
  by code_simp+

section \<open>Opening\<close>

text \<open>A volume of an archive that was opened: its tar stream is in the zip file, has the size and the
  digest of the manifest, and consists of headers that stay in the volume.\<close>

definition volume_in_archive ::
    "win_host \<Rightarrow> (string \<Rightarrow> tar_header list \<times> bool) \<Rightarrow> (string, zip_entry) gomap \<Rightarrow> archived_volume \<Rightarrow> bool" where
  "volume_in_archive h tar byName v = (validVolumeName (whUnicode h) (avName v) \<and> avArchive v = volumeArchiveName (avName v)
     \<and> validateManagedIdentity h (avName v) (avLabels v) = Inr (avProjectPath v, avProjectHash v)
     \<and> (\<exists>zf data. map_of byName (avArchive v) = Some zf \<and> zeData zf = Some data \<and> avSize v = int (zeSize zf)
       \<and> int (length data) = avSize v \<and> 0 < length data \<and> equal_fold (whUnicode h) (hex_encode (Sum256 data)) (avSHA256 v)
       \<and> snd (tar data) \<and> list_all (\<lambda>th. validateTarHeader th = Inr ()) (fst (tar data))))"

lemma volume_tar_ok:
  "validateVolumeTar U tar zf v = Inr u \<longleftrightarrow> (\<exists>data. zeData zf = Some data \<and> snd (tar data)
     \<and> list_all (\<lambda>th. validateTarHeader th = Inr ()) (fst (tar data)) \<and> int (length data) = avSize v
     \<and> equal_fold U (hex_encode (Sum256 data)) (avSHA256 v))"
  by (auto simp: validateVolumeTar_def rbind_Inr_iff check_all_ok_iff list_all_iff split: option.splits prod.splits)

lemma check_archived_ok:
  assumes "check_archived h tar byName v (names, referenced) = Inr (names', referenced')"
  shows "volume_in_archive h tar byName v" "avName v \<notin> set names" "names' = avName v # names" "referenced' = avArchive v # referenced"
proof -
  from assms obtain zf where z: "map_of byName (avArchive v) = Some zf" by (auto simp: check_archived_def split: if_splits option.splits)
  with assms have c: "validVolumeName (whUnicode h) (avName v)" "avName v \<notin> set names" "avArchive v = volumeArchiveName (avName v)"
    "0 < avSize v" "avSize v = int (zeSize zf)"
    "rbind (validateManagedIdentity h (avName v) (avLabels v)) (\<lambda>(projectPath, projectHash).
       if projectPath \<noteq> avProjectPath v \<or> projectHash \<noteq> avProjectHash v then Inl (Ar_Project_Identity (avName v))
       else rbind (validateVolumeTar (whUnicode h) tar zf v) (\<lambda>_. Inr (avName v # names, avArchive v # referenced))) = Inr (names', referenced')"
    by (auto simp: check_archived_def split: if_splits)
  from c(6) have r: "validateManagedIdentity h (avName v) (avLabels v) = Inr (avProjectPath v, avProjectHash v)"
    "validateVolumeTar (whUnicode h) tar zf v = Inr ()" "names' = avName v # names" "referenced' = avArchive v # referenced"
    by (auto simp: rbind_Inr_iff split: if_splits)
  from r(2) obtain data where d: "zeData zf = Some data" "snd (tar data)" "list_all (\<lambda>th. validateTarHeader th = Inr ()) (fst (tar data))"
    "int (length data) = avSize v" "equal_fold (whUnicode h) (hex_encode (Sum256 data)) (avSHA256 v)" by (auto simp: volume_tar_ok)
  from d(4) c(4) have "0 < length data" by linarith
  with c z r d show "volume_in_archive h tar byName v" unfolding volume_in_archive_def by blast
  show "avName v \<notin> set names" "names' = avName v # names" "referenced' = avArchive v # referenced" using c(2) r(3,4) by blast+
qed

lemma check_all_archived:
  assumes "fold_result (check_archived h tar byName) vs (names, referenced) = Inr (names', referenced')"
  shows "list_all (volume_in_archive h tar byName) vs" "distinct (map avName vs)" "set (map avName vs) \<inter> set names = {}"
    "set referenced' = set referenced \<union> avArchive ` set vs"
proof -
  have "list_all (volume_in_archive h tar byName) vs \<and> distinct (map avName vs) \<and> set (map avName vs) \<inter> set names = {}
    \<and> set referenced' = set referenced \<union> avArchive ` set vs"
    using assms
  proof (induction vs arbitrary: names referenced)
    case (Cons v vs)
    from Cons.prems obtain n1 r1 where s: "check_archived h tar byName v (names, referenced) = Inr (n1, r1)"
      "fold_result (check_archived h tar byName) vs (n1, r1) = Inr (names', referenced')" by (auto simp: rbind_Inr_iff)
    note c = check_archived_ok [OF s(1)]
    from Cons.IH [OF s(2)] c show ?case by auto
  qed simp
  then show "list_all (volume_in_archive h tar byName) vs" "distinct (map avName vs)" "set (map avName vs) \<inter> set names = {}"
    "set referenced' = set referenced \<union> avArchive ` set vs" by blast+
qed

lemma open_spec:
  assumes "Open h json tar files = Inr a"
  shows "list_all (volume_in_archive h tar (arFiles a)) (mfVolumes (arManifest a))" "distinct (map avName (mfVolumes (arManifest a)))"
    "\<forall>name \<in> set (mkeys (arFiles a)). has_prefix name ''state/volumes/'' \<longrightarrow> name \<in> avArchive ` set (mfVolumes (arManifest a))"
proof -
  from assms obtain byName where b: "fold_result add_entry files [] = Inr byName" by (cases "fold_result add_entry files []") (auto simp: Open_def)
  obtain mf where f: "map_of byName ManifestName = Some mf" using assms b by (cases "map_of byName ManifestName") (auto simp: Open_def)
  obtain m where j: "Option.bind (zeData mf) (\<lambda>data. json (take (maxManifest + 1) data)) = Some m"
    using assms b f by (cases "Option.bind (zeData mf) (\<lambda>data. json (take (maxManifest + 1) data))") (auto simp: Open_def)
  have "(if maxManifest < zeSize mf then Inl Ar_Manifest_Size
          else rbind (check_metadata m) (\<lambda>_. rbind (fold_result (check_archived h tar byName) (mfVolumes m) ([], [])) (\<lambda>(_, referenced).
                 if list_ex (\<lambda>name. has_prefix name ''state/volumes/'' \<and> name \<notin> set referenced) (mkeys byName) then Inl Ar_Unreferenced
                 else Inr \<lparr>arManifest = m, arFiles = byName\<rparr>))) = Inr a"
    using assms unfolding Open_def b rbind_simps f option.case j .
  then obtain names referenced where o: "a = \<lparr>arManifest = m, arFiles = byName\<rparr>"
    "fold_result (check_archived h tar byName) (mfVolumes m) ([], []) = Inr (names, referenced)"
    "\<not> list_ex (\<lambda>name. has_prefix name ''state/volumes/'' \<and> name \<notin> set referenced) (mkeys byName)"
    by (auto simp: rbind_Inr_iff split: if_splits)
  note c = check_all_archived [OF o(2)]
  show "list_all (volume_in_archive h tar (arFiles a)) (mfVolumes (arManifest a))" "distinct (map avName (mfVolumes (arManifest a)))"
    using c(1,2) by (simp_all add: o(1))
  show "\<forall>name \<in> set (mkeys (arFiles a)). has_prefix name ''state/volumes/'' \<longrightarrow> name \<in> avArchive ` set (mfVolumes (arManifest a))"
    using o(3) c(4) by (auto simp: o(1) list_ex_iff)
qed

section \<open>Restoring\<close>

text \<open>The volume may be filled: it is mounted by no running container, Docker created or found it with the
  labels of the archive, and it is empty.\<close>

definition safe_target :: "restore_answers \<Rightarrow> archived_volume \<Rightarrow> bool" where
  "safe_target R v = (requireQuiescent (raActive R) (avName v) = Inr () \<and> raEnsure R (avName v)
     \<and> (\<exists>m. raLabels R (avName v) = Some m \<and> equal_labels m (avLabels v)) \<and> raEmpty R (avName v) = Some True)"

definition planned_target :: "plan_answers \<Rightarrow> archived_volume \<Rightarrow> bool" where
  "planned_target A v = (requireQuiescent (paActive A) (avName v) = Inr () \<and> (\<exists>existing. paNames A = Some existing
     \<and> (avName v \<in> set existing \<longrightarrow> (\<exists>m. paLabels A (avName v) = Some m \<and> equal_labels m (avLabels v)) \<and> paEmpty A (avName v) = Some True)))"

definition imports_of :: "restore_call list \<Rightarrow> (string \<times> string) list" where
  "imports_of calls = concat (map (\<lambda>c. case c of Rs_Import name data \<Rightarrow> [(name, data)] | Rs_Ensure _ _ \<Rightarrow> []) calls)"

lemma imports_of_append [simp]: "imports_of (a @ b) = imports_of a @ imports_of b"
  by (simp add: imports_of_def)

definition archived_data :: "archive \<Rightarrow> archived_volume \<Rightarrow> string option" where
  "archived_data a v = Option.bind (map_of (arFiles a) (avArchive v)) zeData"

lemma restore_volume_ok:
  assumes "restore_volume R a v = (calls, None)"
  shows "safe_target R v \<and> (\<exists>data. archived_data a v = Some data \<and> calls = [Rs_Ensure (avName v) (avLabels v), Rs_Import (avName v) data])"
  using assms by (auto simp: restore_volume_def Let_def safe_target_def archived_data_def split: sum.splits if_splits option.splits bool.splits)

lemma restore_volume_import:
  assumes "restore_volume R a v = (calls, Some e)"
  shows "imports_of calls = [] \<or> (safe_target R v \<and> (\<exists>data. archived_data a v = Some data \<and> imports_of calls = [(avName v, data)]))"
  using assms
  by (auto simp: restore_volume_def Let_def safe_target_def archived_data_def imports_of_def split: sum.splits if_splits option.splits bool.splits)

definition filled :: "archive \<Rightarrow> archived_volume list \<Rightarrow> (string \<times> string) list" where
  "filled a vs = map (\<lambda>v. (avName v, the (archived_data a v))) vs"

lemma restore_loop_spec:
  assumes "restore_loop R a k vs = (calls, r)"
  shows "case r of
      None \<Rightarrow> imports_of calls = filled a vs \<and> list_all (safe_target R) vs
    | Some (e, n) \<Rightarrow> k \<le> n \<and> n - k < length vs \<and> list_all (safe_target R) (take (n - k) vs)
        \<and> (imports_of calls = filled a (take (n - k) vs)
          \<or> (safe_target R (vs ! (n - k)) \<and> imports_of calls = filled a (take (Suc (n - k)) vs)))"
  using assms
proof (induction vs arbitrary: k calls r)
  case Nil
  then show ?case by (auto simp: imports_of_def filled_def)
next
  case (Cons v vs)
  obtain cs o' where v: "restore_volume R a v = (cs, o')" by fastforce
  show ?case
  proof (cases o')
    case None
    obtain cs' r' where l: "restore_loop R a (Suc k) vs = (cs', r')" by fastforce
    from restore_volume_ok [OF v [unfolded None]] obtain data where d: "safe_target R v" "archived_data a v = Some data"
      "cs = [Rs_Ensure (avName v) (avLabels v), Rs_Import (avName v) data]" by blast
    have c: "calls = cs @ cs'" "r = r'" using Cons.prems v None l by simp_all
    have i: "imports_of calls = (avName v, data) # imports_of cs'" by (simp add: c d(3) imports_of_def)
    have f: "(avName v, data) # filled a ws = filled a (v # ws)" for ws by (simp add: filled_def d(2))
    show ?thesis
    proof (cases r')
      case None
      then show ?thesis using Cons.IH [OF l] d(1) i f c(2) by simp
    next
      case (Some p)
      then obtain e n where p: "r' = Some (e, n)" by (cases p) auto
      have n: "Suc k \<le> n" "n - Suc k < length vs" "list_all (safe_target R) (take (n - Suc k) vs)"
        "imports_of cs' = filled a (take (n - Suc k) vs)
          \<or> (safe_target R (vs ! (n - Suc k)) \<and> imports_of cs' = filled a (take (Suc (n - Suc k)) vs))"
        using Cons.IH [OF l] p by simp_all
      then obtain m where m: "n - k = Suc m" "n - Suc k = m" by (cases "n - k") auto
      have "imports_of calls = filled a (take (n - k) (v # vs))
          \<or> (safe_target R ((v # vs) ! (n - k)) \<and> imports_of calls = filled a (take (Suc (n - k)) (v # vs)))"
        using n(4) unfolding m i take_Suc_Cons nth_Cons_Suc f [symmetric] by blast
      moreover have "k \<le> n" "n - k < length (v # vs)" "list_all (safe_target R) (take (n - k) (v # vs))"
        using n(1-3) d(1) m by auto
      ultimately show ?thesis unfolding c(2) p by simp
    qed
  next
    case (Some e)
    then have "calls = cs" "r = Some (e, k)" using Cons.prems v by simp_all
    then show ?thesis using restore_volume_import [OF v [unfolded Some]] by (auto simp: filled_def)
  qed
qed

lemma plan_volumes:
  assumes "fold_result (\<lambda>v plans. rbind (plan_volume A existing v) (\<lambda>p. Inr (plans @ [p]))) vs acc = Inr plans" "paNames A = Some existing"
  shows "list_all (planned_target A) vs"
  using assms
proof (induction vs arbitrary: acc)
  case (Cons v vs)
  from Cons.prems obtain p where p: "plan_volume A existing v = Inr p"
    "fold_result (\<lambda>v plans. rbind (plan_volume A existing v) (\<lambda>p. Inr (plans @ [p]))) vs (acc @ [p]) = Inr plans" by (auto simp: rbind_Inr_iff)
  have "planned_target A v" using p(1) Cons.prems(2)
    by (auto simp: plan_volume_def planned_target_def rbind_Inr_iff split: if_splits option.splits bool.splits)
  then show ?case using Cons.IH [OF p(2)] Cons.prems(2) by simp
qed simp

lemma archive_plan_spec: "Plan A a = Inr plans \<Longrightarrow> paHelper A \<and> list_all (planned_target A) (mfVolumes (arManifest a))"
  using plan_volumes by (fastforce simp: Plan_def split: if_splits option.splits)

lemma restore_spec:
  assumes "Restore A R a = (calls, r)" "calls \<noteq> []"
  shows "list_all (planned_target A) (mfVolumes (arManifest a))" "restore_loop R a 0 (mfVolumes (arManifest a)) = (calls, r)"
  using assms archive_plan_spec by (auto simp: Restore_def split: sum.splits)

section \<open>A backup opens again\<close>

text \<open>What is written for a volume.\<close>

definition backed_up :: "win_host \<Rightarrow> backup_answers \<Rightarrow> string \<Rightarrow> archived_volume \<times> zip_entry \<Rightarrow> bool" where
  "backed_up h B name e = (validVolumeName (whUnicode h) name \<and> (\<exists>m data. baLabels B name = Some m \<and> baExport B name = Some data
     \<and> avName (fst e) = name \<and> avArchive (fst e) = volumeArchiveName name \<and> avSize (fst e) = int (length data)
     \<and> avSHA256 (fst e) = hex_encode (Sum256 data) \<and> avLabels (fst e) = m
     \<and> validateManagedIdentity h name m = Inr (avProjectPath (fst e), avProjectHash (fst e))
     \<and> snd e = zip_file (volumeArchiveName name) data))"

lemma backup_volume_ok:
  assumes "backup_volume h B name acc = Inr out"
  shows "\<exists>e. out = acc @ [e] \<and> backed_up h B name e \<and> name \<notin> (avName \<circ> fst) ` set acc"
proof -
  from assms obtain m where l: "validVolumeName (whUnicode h) name" "name \<notin> (avName \<circ> fst) ` set acc" "baLabels B name = Some m"
    by (auto simp: backup_volume_def split: if_splits option.splits)
  then obtain p k where i: "validateManagedIdentity h name m = Inr (p, k)" using assms
    by (cases "validateManagedIdentity h name m") (auto simp: backup_volume_def)
  then obtain data where d: "baExport B name = Some data"
    "out = acc @ [(\<lparr>avName = name, avArchive = volumeArchiveName name, avSize = int (length data), avSHA256 = hex_encode (Sum256 data),
       avLabels = m, avProjectPath = p, avProjectHash = k\<rparr>, zip_file (volumeArchiveName name) data)]"
    using assms l by (auto simp: backup_volume_def rbind_Inr_iff split: if_splits option.splits)
  with l i show ?thesis unfolding backed_up_def by simp
qed

lemma backup_loop:
  assumes "fold_result (backup_volume h B) names acc = Inr out"
  shows "\<exists>es. out = acc @ es \<and> list_all2 (backed_up h B) names es \<and> distinct names \<and> set names \<inter> (avName \<circ> fst) ` set acc = {}"
  using assms
proof (induction names arbitrary: acc)
  case (Cons name names)
  from Cons.prems obtain mid where m: "backup_volume h B name acc = Inr mid" "fold_result (backup_volume h B) names mid = Inr out"
    by (auto simp: rbind_Inr_iff)
  from backup_volume_ok [OF m(1)] obtain e where e: "mid = acc @ [e]" "backed_up h B name e" "name \<notin> (avName \<circ> fst) ` set acc" by blast
  from Cons.IH [OF m(2)] obtain es where es: "out = mid @ es" "list_all2 (backed_up h B) names es" "distinct names"
    "set names \<inter> (avName \<circ> fst) ` set mid = {}" by blast
  have "avName (fst e) = name" using e(2) by (auto simp: backed_up_def)
  then have "distinct (name # names)" "set (name # names) \<inter> (avName \<circ> fst) ` set acc = {}" using es(3,4) e(1,3) by auto
  then show ?case using e(1,2) es(1,2) by (intro exI [of _ "e # es"]) simp
qed simp

lemma archive_name_inj: "volumeArchiveName a = volumeArchiveName b \<longleftrightarrow> a = b"
  by (simp add: volumeArchiveName_def)

lemma manifest_name_other: "volumeArchiveName a \<noteq> ManifestName" "has_prefix ManifestName ''state/volumes/'' = False"
  by (simp_all add: volumeArchiveName_def ManifestName_def has_prefix_def)

lemma add_entries:
  assumes "distinct (map zeName (done_files @ files))"
  shows "fold_result add_entry files (map (\<lambda>f. (zeName f, f)) done_files) = Inr (map (\<lambda>f. (zeName f, f)) (done_files @ files))"
  using assms
proof (induction files arbitrary: done_files)
  case (Cons f files)
  let ?m = "map (\<lambda>f. (zeName f, f)) done_files"
  have n: "map_of ?m (zeName f) = None" using Cons.prems by (auto simp: map_of_eq_None_iff)
  then have "add_entry f ?m = Inr (map (\<lambda>f. (zeName f, f)) (done_files @ [f]))" by (simp add: add_entry_def mhas_iff_map_of mput_new)
  then show ?case using Cons.IH [of "done_files @ [f]"] Cons.prems by simp
qed simp

lemma equal_fold_refl: "equal_fold U s s"
  by (simp add: equal_fold_def same_fold_def list.rel_refl)

lemma digest_text: "length (hex_encode (Sum256 data)) = 64" "list_all (\<lambda>c. unhex c \<noteq> None) (hex_encode (Sum256 data))"
  using hex_encode_chars [of "Sum256 data"] Sum256_bound [of _ data] hex_char_decodable by (auto simp: list_all_iff)

text \<open>The volumes of a backup pass the checks in any zip file that holds their streams.\<close>

definition good_stream :: "(string \<Rightarrow> tar_header list \<times> bool) \<Rightarrow> string \<Rightarrow> bool" where
  "good_stream tar data = (data \<noteq> [] \<and> snd (tar data) \<and> list_all (\<lambda>th. validateTarHeader th = Inr ()) (fst (tar data)))"

lemma check_backed_up:
  assumes "backed_up h B name e" "map_of byName (volumeArchiveName name) = Some (snd e)"
    and "\<forall>data. baExport B name = Some data \<longrightarrow> good_stream tar data"
    and "name \<notin> set seen" "volumeArchiveName name \<notin> set referenced"
  shows "check_archived h tar byName (fst e) (seen, referenced) = Inr (name # seen, volumeArchiveName name # referenced)"
proof -
  from assms(1) obtain m data where b: "validVolumeName (whUnicode h) name" "baExport B name = Some data"
    "avName (fst e) = name" "avArchive (fst e) = volumeArchiveName name" "avSize (fst e) = int (length data)"
    "avSHA256 (fst e) = hex_encode (Sum256 data)" "avLabels (fst e) = m"
    "validateManagedIdentity h name m = Inr (avProjectPath (fst e), avProjectHash (fst e))"
    "snd e = zip_file (volumeArchiveName name) data" by (auto simp: backed_up_def)
  have g: "good_stream tar data" using assms(3) b(2) by blast
  have t: "validateVolumeTar (whUnicode h) tar (snd e) (fst e) = Inr ()"
    using g b by (auto simp: volume_tar_ok good_stream_def zip_file_def equal_fold_refl)
  have z: "0 < int (length data)" "zeSize (snd e) = length data" using g b(9) by (auto simp: good_stream_def zip_file_def)
  show ?thesis using assms(2,4,5) b t z digest_text [of data] by (simp add: check_archived_def)
qed

lemma check_all_backed_up:
  assumes "list_all2 (backed_up h B) names es" "distinct names"
    and "\<forall>e \<in> set es. map_of byName (avArchive (fst e)) = Some (snd e)"
    and "\<forall>name \<in> set names. \<forall>data. baExport B name = Some data \<longrightarrow> good_stream tar data"
    and "set names \<inter> set seen = {}" "set (map volumeArchiveName names) \<inter> set referenced = {}"
  shows "\<exists>seen' referenced'. fold_result (check_archived h tar byName) (map fst es) (seen, referenced) = Inr (seen', referenced')
    \<and> set referenced' = set (map volumeArchiveName names) \<union> set referenced"
  using assms
proof (induction names es arbitrary: seen referenced rule: list_all2_induct)
  case (Cons name names e es)
  have a: "avArchive (fst e) = volumeArchiveName name" using Cons.hyps(1) by (auto simp: backed_up_def)
  have "check_archived h tar byName (fst e) (seen, referenced) = Inr (name # seen, volumeArchiveName name # referenced)"
    by (rule check_backed_up [OF Cons.hyps(1)]) (use Cons.prems a in auto)
  moreover obtain seen' referenced' where "fold_result (check_archived h tar byName) (map fst es) (name # seen, volumeArchiveName name # referenced)
      = Inr (seen', referenced')" "set referenced' = set (map volumeArchiveName names) \<union> set (volumeArchiveName name # referenced)"
    using Cons.IH [of "name # seen" "volumeArchiveName name # referenced"] Cons.prems by (auto simp: image_iff archive_name_inj)
  ultimately show ?case by auto
qed auto

lemma backup_reopens:
  assumes "Backup h encode B names cbVersion created = Inr (m, files)" "cbVersion \<noteq> []" "utc_second created"
    and "\<forall>raw. encode m = Some raw \<longrightarrow> length raw < maxManifest \<and> json (raw @ [CHR 0x0A]) = Some m"
    and "\<forall>name \<in> set names. \<forall>data. baExport B name = Some data \<longrightarrow> good_stream tar data"
  shows "Open h json tar files = Inr \<lparr>arManifest = m, arFiles = map (\<lambda>f. (zeName f, f)) files\<rparr>"
proof -
  from assms(1) obtain es where l: "fold_result (backup_volume h B) (sort names) [] = Inr es" "names \<noteq> []"
    by (auto simp: Backup_def rbind_Inr_iff split: if_splits)
  define m' where "m' = \<lparr>mfSchema = 1, mfCreatedAt = format_utc created, mfVersion = cbVersion, mfHelper = HelperImage, mfVolumes = map fst es\<rparr>"
  from assms(1) l obtain raw where t: "encode m = Some raw" "files = map snd es @ [zip_file ManifestName (raw @ [CHR 0x0A])]" "m = m'"
    by (auto simp: Backup_def Let_def m'_def split: if_splits option.splits)
  from backup_loop [OF l(1)] have es: "list_all2 (backed_up h B) (sort names) es" "distinct (sort names)" by auto
  have ze: "map (zeName \<circ> snd) es = map volumeArchiveName (sort names)" "map (avArchive \<circ> fst) es = map volumeArchiveName (sort names)"
    using es(1) by (induction rule: list_all2_induct) (auto simp: backed_up_def zip_file_def)
  have dn: "distinct (map zeName files)"
    using es(2) manifest_name_other(1) manifest_name_other(1) [symmetric] ze(1) by (auto simp: t(2) comp_def zip_file_def distinct_map inj_on_def archive_name_inj simp del: distinct_sort)
  let ?byName = "map (\<lambda>f. (zeName f, f)) files"
  have add: "fold_result add_entry files [] = Inr ?byName" using add_entries [of "[]" files] dn by simp
  have look: "map_of ?byName (zeName f) = Some f" if "f \<in> set files" for f
    using that dn by (intro map_of_is_SomeI) (auto simp: comp_def)
  let ?mf = "zip_file ManifestName (raw @ [CHR 0x0A])"
  have mf: "map_of ?byName ManifestName = Some ?mf" using look [of ?mf] by (simp add: t(2) zip_file_def)
  have len: "length raw < maxManifest" "json (raw @ [CHR 0x0A]) = Some m" using assms(4) t(1) by blast+
  have meta: "check_metadata m = Inr ()"
  proof -
    have "length (sort names) = length es" using es(1) by (rule list_all2_lengthD)
    then have "es \<noteq> []" using l(2) by auto
    moreover have "format_utc created \<noteq> []" by (simp add: format_utc_def pad4_def)
    ultimately show ?thesis using assms(2) parse_format [OF assms(3)] by (simp add: check_metadata_def t(3) m'_def HelperImage_def)
  qed
  have "avArchive (fst e) = zeName (snd e)" if "e \<in> set es" for e
    using that ze by (metis (no_types, lifting) comp_apply map_eq_conv)
  then have stored: "\<forall>e \<in> set es. map_of ?byName (avArchive (fst e)) = Some (snd e)" using look by (auto simp: t(2))
  have "\<exists>seen referenced. fold_result (check_archived h tar ?byName) (map fst es) ([], []) = Inr (seen, referenced)
    \<and> set referenced = set (map volumeArchiveName (sort names)) \<union> set []"
    by (rule check_all_backed_up [OF es stored]) (use assms(5) in auto)
  then obtain seen referenced where c: "fold_result (check_archived h tar ?byName) (map fst es) ([], []) = Inr (seen, referenced)"
    "set referenced = set (map volumeArchiveName (sort names))" by auto
  have "\<not> list_ex (\<lambda>name. has_prefix name ''state/volumes/'' \<and> name \<notin> set referenced) (mkeys ?byName)"
  proof -
    have "set (mkeys ?byName) = set (map (zeName \<circ> snd) es) \<union> {ManifestName}" by (auto simp: mkeys_def t(2) zip_file_def)
    then show ?thesis using ze(1) c(2) manifest_name_other(2) by (auto simp: list_ex_iff)
  qed
  moreover have "mfVolumes m = map fst es" by (simp add: t(3) m'_def)
  ultimately show ?thesis using add mf len meta c(1) by (simp add: Open_def zip_file_def)
qed

section \<open>The volumes of a run\<close>

definition plain_group :: "tool \<Rightarrow> bool" where
  "plain_group t = (tStateGroup t \<noteq> [] \<and> CHR ''/'' \<notin> set (tStateGroup t) \<and> tStateGroup t \<noteq> ''python313'')"

lemma binding_name: "parsed_binding spec = Inr (name, dst) \<Longrightarrow> name \<noteq> [] \<and> CHR ''/'' \<notin> set name"
proof -
  assume "parsed_binding spec = Inr (name, dst)"
  then have "ValidToolName name"
    by (auto simp: parsed_binding_def ParseVolumeBinding_def Let_def split: option.splits if_splits)
  then show ?thesis unfolding valid_tool_name_bytes by (auto simp: list_all_iff tool_name_rune_def lower_letter_def digit_rune_def)
qed

lemma label_simps [simp]: "label ((k, v) # m) k' = (if k' = k then v else label m k')" "label [] k' = []"
  by (simp_all add: label_def)

lemma owner_parts:
  "grp \<noteq> [] \<Longrightarrow> CHR ''/'' \<notin> set grp \<Longrightarrow> lname \<noteq> [] \<Longrightarrow> CHR ''/'' \<notin> set lname \<Longrightarrow> split_owner name (grp @ CHR ''/'' # lname) = Inr (grp, lname)"
  by (simp add: split_owner_def cut_byte_plain contains_byte_def)

lemma owner_not_python: "grp \<noteq> ''python313'' \<Longrightarrow> CHR ''/'' \<notin> set grp \<Longrightarrow> grp @ ''/'' @ lname \<noteq> ''python313'' @ ''/'' @ x"
proof
  assume g: "grp \<noteq> ''python313''" "CHR ''/'' \<notin> set grp" and e: "grp @ ''/'' @ lname = ''python313'' @ ''/'' @ x"
  have p: "CHR ''/'' \<notin> set ''python313''" by simp
  have "cut_byte (grp @ CHR ''/'' # lname) CHR ''/'' = cut_byte (''python313'' @ CHR ''/'' # x) CHR ''/''" using e by simp
  then show False using g unfolding cut_byte_plain [OF g(2)] cut_byte_plain [OF p] by simp
qed

lemma project_volume_identity:
  assumes "project_volume h t ctx spec = Inr (name, m)" "plain_group t" "rxRoot ctx \<noteq> []"
  shows "validateManagedIdentity h name m = Inr (rxRoot ctx, VolumeHash h (rxRoot ctx))"
proof -
  from assms(1) obtain lname dst where b: "parsed_binding spec = Inr (lname, dst)"
    "name = StatefulProjectVolumeID h (tStateGroup t) lname (rxRoot ctx)"
    "m = project_labels h (tStateGroup t @ ''/'' @ lname) (rxRoot ctx)" by (auto simp: project_volume_def rbind_Inr_iff)
  have g: "tStateGroup t \<noteq> []" "CHR ''/'' \<notin> set (tStateGroup t)" "tStateGroup t \<noteq> ''python313''" using assms(2) by (simp_all add: plain_group_def)
  have o: "tStateGroup t @ ''/'' @ lname \<noteq> ''python313'' @ ''/'' @ ''venv''" by (rule owner_not_python [OF g(3,2)])
  show ?thesis using binding_name [OF b(1)] g(1,2) assms(3) o
    by (simp add: validateManagedIdentity_def Let_def b(2,3) project_labels_def owner_parts)
qed

lemma shared_volume_identity:
  assumes "shared_volume t spec = Inr (name, m)" "plain_group t"
  shows "validateManagedIdentity h name m = Inr ([], [])"
proof -
  from assms(1) obtain lname dst where b: "parsed_binding spec = Inr (lname, dst)" "name = StatefulSharedVolumeID (tStateGroup t) lname"
    "m = shared_labels (tStateGroup t @ ''/'' @ lname)" by (auto simp: shared_volume_def rbind_Inr_iff)
  have g: "tStateGroup t \<noteq> []" "CHR ''/'' \<notin> set (tStateGroup t)" "tStateGroup t \<noteq> ''python313''" using assms(2) by (simp_all add: plain_group_def)
  have o: "tStateGroup t @ ''/'' @ lname \<noteq> ''python313'' @ ''/'' @ ''pip-cache''" by (rule owner_not_python [OF g(3,2)])
  show ?thesis using binding_name [OF b(1)] g(1,2) o
    by (simp add: validateManagedIdentity_def Let_def b(2,3) shared_labels_def has_project_labels_def owner_parts)
qed

lemma python_volume_identity:
  "(rxFound ctx \<longrightarrow> rxRoot ctx \<noteq> []) \<Longrightarrow> validateManagedIdentity h (PythonEnvID h (rxRoot ctx) (rxFound ctx)) (python_labels h ctx)
    = Inr (if rxFound ctx then (rxRoot ctx, VolumeHash h (rxRoot ctx)) else ([], []))"
    "validateManagedIdentity h ''cb-pip-cache'' (shared_labels ''python313/pip-cache'') = Inr ([], [])"
  by (auto simp: validateManagedIdentity_def Let_def python_labels_def project_labels_def shared_labels_def has_project_labels_def
      split_owner_def contains_byte_def PythonEnvID_def)

lemma ensure_loop_calls:
  assumes "ensure_loop f ok xs = (calls, e)" "c \<in> set calls"
  shows "\<exists>x \<in> set xs. \<exists>name m. f x = Inr (name, m) \<and> c = Ensure_Volume name m"
  using assms by (induction xs arbitrary: calls e) (auto split: sum.splits prod.splits if_splits)

lemma run_volume_identity:
  assumes "ensureDockerVolumes h ok t ctx = (calls, e)" "Ensure_Volume name m \<in> set calls"
    and "tProvider t = ''stateful'' \<longrightarrow> plain_group t" "rxRoot ctx \<noteq> []"
  shows "validateManagedIdentity h name m \<in> {Inr (rxRoot ctx, VolumeHash h (rxRoot ctx)), Inr ([], [])}"
proof -
  consider (python) "tProvider t = ''python''" | (stateful) "tProvider t = ''stateful''"
    | (other) "tProvider t \<noteq> ''python''" "tProvider t \<noteq> ''stateful''" by blast
  then show ?thesis
  proof cases
    case python
    then have l: "ensure_loop Inr ok [(PythonEnvID h (rxRoot ctx) (rxFound ctx), python_labels h ctx),
          (''cb-pip-cache'', shared_labels ''python313/pip-cache'')] = (calls, e)"
      using assms(1) by (simp add: ensureDockerVolumes_def del: ensure_loop.simps)
    from ensure_loop_calls [OF l assms(2)]
    have "(name, m) \<in> {(PythonEnvID h (rxRoot ctx) (rxFound ctx), python_labels h ctx), (''cb-pip-cache'', shared_labels ''python313/pip-cache'')}"
      by auto
    then show ?thesis using python_volume_identity(1) [of ctx h] python_volume_identity(2) [of h] assms(4) by (auto split: if_splits)
  next
    case stateful
    obtain c1 e1 where l1: "ensure_loop (project_volume h t ctx) ok (tProjectVolumes t) = (c1, e1)" by fastforce
    obtain c2 e2 where l2: "ensure_loop (shared_volume t) ok (tSharedVolumes t) = (c2, e2)" by fastforce
    have "Ensure_Volume name m \<in> set c1 \<union> set c2"
      using assms(1,2) stateful l1 l2 by (auto simp: ensureDockerVolumes_def split: option.splits)
    then have "(\<exists>spec. project_volume h t ctx spec = Inr (name, m)) \<or> (\<exists>spec. shared_volume t spec = Inr (name, m))"
      using ensure_loop_calls [OF l1] ensure_loop_calls [OF l2] by fastforce
    then show ?thesis using project_volume_identity shared_volume_identity assms(3,4) stateful by blast
  next
    case other
    then show ?thesis using assms(1,2) by (simp add: ensureDockerVolumes_def)
  qed
qed

end
