(* ===== verification/Windows_Properties.thy ===== *)
theory Windows_Properties
  imports Docker_Run_Facts Evaluation Acl_Audit_Facts Acl_Descriptor_Facts State_Archive_Facts
begin

text \<open>The properties of a run on Windows, of the audit of its access control lists, and of state archives.\<close>

section \<open>A host\<close>

text \<open>A Windows host with a file outside the project, named by the path rules for which the contract is
  proved.\<close>

definition win_stat :: "(string \<times> bool) list" where
  "win_stat = [(''/work/app'', True), (''/work'', True), (''/'', True), (''/lib'', True), (''/lib/x.so'', False),
     (''/data'', True)]"

definition win_demo :: win_host where
  "win_demo = \<lparr>whGOOS = ''windows'', whUnicode = ascii_unicode, whPaths = unix_paths,
     whStat = (\<lambda>p. case map_of win_stat p of Some d \<Rightarrow> Got d | None \<Rightarrow> Absent),
     whAbs = (\<lambda>p. if p \<in> set [''/work/app'', ''/work/app/out'', ''/lib/x.so'', ''/data''] then Some p else None), whEval = (\<lambda>_. None)\<rparr>"

lemma win_demo_paths: "path_boundary (whPaths win_demo) unix_rooted"
  using unix.path_boundary_axioms by (simp add: win_demo_def)

lemma win_demo_rooted: "unix_rooted ''/work/app''" "CanonicalPath win_demo p = Some c \<Longrightarrow> unix_rooted c"
proof -
  have r: "unix_rooted ''/work/app''" "unix_rooted ''/work/app/out''" "unix_rooted ''/lib/x.so''" "unix_rooted ''/data''"
    unfolding unix_rooted_def abs_path_def
    by (rule exI [of _ "[''work'', ''app'']"], code_simp, rule exI [of _ "[''work'', ''app'', ''out'']"], code_simp,
        rule exI [of _ "[''lib'', ''x.so'']"], code_simp, rule exI [of _ "[''data'']"], code_simp)
  then show "unix_rooted ''/work/app''" by blast
  assume c: "CanonicalPath win_demo p = Some c"
  have k: "CanonicalPath win_demo ''/work/app'' = Some ''/work/app''" "CanonicalPath win_demo ''/work/app/out'' = Some ''/work/app/out''"
    "CanonicalPath win_demo ''/lib/x.so'' = Some ''/lib/x.so''" "CanonicalPath win_demo ''/data'' = Some ''/data''" by code_simp+
  have "whAbs win_demo p \<noteq> None" using c by (auto simp: CanonicalPath_def)
  then have "p \<in> set [''/work/app'', ''/work/app/out'', ''/lib/x.so'', ''/data'']" by (simp add: win_demo_def split: if_splits)
  then show "unix_rooted c" using r k c by auto
qed

section \<open>The arguments\<close>


definition win_tool :: tool where
  "win_tool = zero_tool\<lparr>tName := ''py'', tProvider := ''python'', tRole := ''python'', tCwdMode := ''project'', tPathNext := [''-o''],
     tArgsPrefix := [''-I''], tEnvNames := [''CI''], tEnvSet := [''A=1''], tHostMounts := [''%USERPROFILE%/data:/data:ro'']\<rparr>"



text \<open>On a rooted path, the search for the directory to mount and the search for the project of a tool end, whatever
  the file system answers: each walks towards the root and stops where the directory of a path is the path.\<close>

theorem windows_walks_return:
  assumes "path_boundary (whPaths h) rooted" "rooted p"
  shows "externalMountRoot h p \<noteq> None \<and> FindProjectRootForTool h p t \<noteq> None"
  using external_mount_root_returns [OF assms] project_root_returns [OF assms] by blast

theorem windows_walks_return_witness:
  "externalMountRoot win_demo ''/work/app'' \<noteq> None \<and> FindProjectRootForTool win_demo ''/work/app'' win_tool \<noteq> None"
  by (rule windows_walks_return [OF win_demo_paths win_demo_rooted(1)])

section \<open>The invocation\<close>







section \<open>The environment\<close>

text \<open>The environment names that a run passes on are sorted, each names a variable of the host, no two of them are
  the same variable, and the variables they name are exactly those of the host that the tool lists by name or by
  prefix, compared without regard to case on Windows.\<close>

theorem docker_environment_exact:
  "sorted (selectedHostEnvForHost upper goos t environ)
   \<and> set (selectedHostEnvForHost upper goos t environ) \<subseteq> env_name ` set environ
   \<and> distinct (map (env_key upper goos) (selectedHostEnvForHost upper goos t environ))
   \<and> env_key upper goos ` set (selectedHostEnvForHost upper goos t environ)
      = {k. k \<in> (env_key upper goos \<circ> env_name) ` set environ \<and> env_match (env_key upper goos) t k}"
proof -
  let ?key = "env_key upper goos"
  let ?out = "select_env ?key t environ []"
  have m: "?key ` set ?out = {k. k \<in> (?key \<circ> env_name) ` set environ \<and> env_match ?key t k}"
    using select_env_names [of ?key t environ "[]"] select_env_match [of _ ?key t environ "[]"] select_env_complete [of _ environ ?key t "[]"]
    by fastforce
  have d: "distinct (map ?key (sort ?out))"
    using select_env_distinct [of ?key t environ "[]"] by (simp add: distinct_map)
  show ?thesis
  proof (cases "tEnvNames t = [] \<and> tEnvPrefixes t = []")
    case True
    then show ?thesis by (auto simp: selectedHostEnvForHost_def env_match_def)
  next
    case False
    then have "selectedHostEnvForHost upper goos t environ = sort ?out" unfolding selectedHostEnvForHost_def by (simp only: if_False)
    then show ?thesis using m d select_env_names [of ?key t environ "[]"] by simp
  qed
qed

text \<open>The name of a state volume does not say where the group ends: two groups that meet every check can share one.\<close>

lemma state_volume_shared:
  "StatefulSharedVolumeID ''node'' ''cache-npm'' = StatefulSharedVolumeID ''node-cache'' ''npm''"
  by (simp add: StatefulSharedVolumeID_def)

section \<open>Decoding\<close>

text \<open>C28: no byte string makes the decoder of security descriptors read out of bounds; what it accepts has between
  20 and 65536 bytes and at most 4096 entries, and carries the hash of exactly these bytes.\<close>

theorem descriptor_never_panics:
  "case decodeDescriptor raw of
     Inl e \<Rightarrow> e \<noteq> Panic
   | Inr d \<Rightarrow> length raw \<in> {20..65536} \<and> length (deACEs d) \<le> 4096 \<and> deHash d = Sum256 raw"
  using decode_no_panic [of raw] decode_bounds [of raw] by (cases "decodeDescriptor raw") auto

definition demo_sid :: sid where "demo_sid = \<lparr>sdAuthority = 5, sdSubs = [21, 1004336348, 1000]\<rparr>"
definition demo_entry :: entry where "demo_entry = \<lparr>enDeny = False, enFlags = 3, enMask = 0x1F01FF, enSID = \<lparr>sdAuthority = 5, sdSubs = [18]\<rparr>\<rparr>"

text \<open>C37: a self-relative descriptor with an owner and standard allow and deny entries decodes to exactly its owner,
  its control bits and its entries in order; and the textual form of a security identifier, by which the audit
  compares identities, belongs to no other identifier.\<close>

theorem descriptor_round_trip:
  assumes "descriptor_fits control owner es"
  shows "decodeDescriptor (descriptor_bytes control owner es) = Inr \<lparr>deOwner = sid_text owner, deControl = control,
      deNullDACL = False, deACEs = map allow_ace es, deHash = Sum256 (descriptor_bytes control owner es)\<rparr>
    \<and> inj sid_text"
  using descriptor_decode_encode [OF assms] sid_text_inj by (auto intro: injI)

theorem descriptor_round_trip_witness:
  "decodeDescriptor (descriptor_bytes 0x8004 demo_sid [demo_entry]) = Inr \<lparr>deOwner = ''S-1-5-21-1004336348-1000'', deControl = 0x8004,
      deNullDACL = False, deACEs = [\<lparr>aeType = 0, aeFlags = 3, aeMask = 0x1F01FF, aeSID = ''S-1-5-18''\<rparr>],
      deHash = Sum256 (descriptor_bytes 0x8004 demo_sid [demo_entry])\<rparr>"
proof -
  have "descriptor_fits 0x8004 demo_sid [demo_entry]" by code_simp
  note d = descriptor_round_trip [OF this, THEN conjunct1]
  have "sid_text demo_sid = ''S-1-5-21-1004336348-1000''" "sid_text (enSID demo_entry) = ''S-1-5-18''" by code_simp+
  then show ?thesis unfolding d by (simp add: allow_ace_def) (simp add: demo_entry_def)
qed

section \<open>The audit\<close>

text \<open>C35: the classification of an object keeps a report free of candidates and of gaps exactly when the owner is the
  updater, SYSTEM or the administrators, there is an access control list, and each of its entries is understood
  and either is inherited only, denies, names one of these three, or gives a known identity none of the bits that
  write, delete or change the object.\<close>

theorem classification_exact:
  "quiet (classify_object name node updater r) = (quiet r \<and> trusted (deOwner (snSecurity node)) updater
     \<and> \<not> deNullDACL (snSecurity node)
     \<and> list_all (\<lambda>a. and (aeMask a) (not 0xF01F01FF) = 0 \<and> aeType a \<in> {0, 1} \<and> and (aeFlags a) (not 0x1F) = 0
         \<and> (and (aeFlags a) 8 \<noteq> 0 \<or> (knownIdentity (aeSID a) updater \<and> (aeType a = 1 \<or> trusted (aeSID a) updater
             \<or> and (aeMask a) (if snDirectory node then 0x500D0156 else 0x500D0116) = 0))))
         (deACEs (snSecurity node)))"
  by (auto simp: classify_quiet object_safe_def ace_safe_def ace_rights_empty list_all_iff)

definition demo_object :: "string \<Rightarrow> string \<Rightarrow> bool \<Rightarrow> acl_snapshot" where
  "demo_object p owner directory = \<lparr>snIdentity = p, snResolved = p, snFilesystem = ''NTFS'', snDirectory = directory, snReparse = 0,
     snSecurity = \<lparr>deOwner = owner, deControl = 0x8004, deNullDACL = False,
       deACEs = [\<lparr>aeType = 0, aeFlags = 0, aeMask = 0x1F01FF, aeSID = owner\<rparr>, \<lparr>aeType = 0, aeFlags = 0, aeMask = 0x1200A9, aeSID = ''S-1-1-0''\<rparr>],
       deHash = []\<rparr>\<rparr>"

theorem classification_exact_witness:
  "quiet (classify_object ''binary'' (demo_object ''/u/cb/cb.exe'' ''S-1-5-21-7'' False) ''S-1-5-21-7'' empty_report)
   \<and> \<not> quiet (classify_object ''binary'' (demo_object ''/u/cb/cb.exe'' ''S-1-5-21-8'' False) ''S-1-5-21-7'' empty_report)"
  by (simp only: classification_exact) code_simp

definition demo_reads :: "string \<Rightarrow> acl_snapshot io" where
  "demo_reads p = (if p \<in> {''/'', ''/u''} then Got (demo_object p ''S-1-5-18'' True)
     else if p = ''/u/cb'' then Got (demo_object p ''S-1-5-21-7'' True)
     else if p = ''/u/cb/cb.exe'' then Got (demo_object p ''S-1-5-21-7'' False) else Absent)"

definition demo_audit :: audit_answers where
  "demo_audit = \<lparr>awExpired = (\<lambda>_. False), awRead = demo_reads, awAgain = (\<lambda>_. demo_reads), awRecheck = (\<lambda>_. demo_reads)\<rparr>"

definition demo_acl_request :: acl_request where
  "demo_acl_request = \<lparr>rqDirectory = ''/u/cb'', rqAssets = [\<lparr>asPath = ''/u/cb/cb.exe'', asLabel = ''binary''\<rparr>],
     rqOptional = [\<lparr>asPath = ''/u/cb/cb.lock'', asLabel = ''lockfile''\<rparr>]\<rparr>"

definition demo_acl_scope :: acl_scope where
  "demo_acl_scope = \<lparr>scUpdater = ''S-1-5-21-7'', scProfile = ''/u'', scQualified = True,
     scAnchor = demo_object ''/u/cb'' ''S-1-5-21-7'' True\<rparr>"

text \<open>C16: the audit prints its favourable line only when the worker finished in time, the installation lies strictly
  inside the qualified profile of a user, and for the installation and every managed file the file and each of its
  ancestors was read twice with the same identity and security, is a local NTFS object that is no redirection,
  and passes the classification; only an optional file may have been absent instead, both times.\<close>

theorem favourable_audit_sound:
  assumes "d \<in> set (Diagnostics (bounded w (run_audit H U A req s)))" "dgStatus d = ''ok''"
  shows "w = Worker_Done \<and> qualified_scope H req s \<and> list_all (target_ok H U A req s) (request_targets req)"
proof -
  have "quiet (bounded w (run_audit H U A req s))" using assms ok_line_iff by blast
  then show ?thesis using quiet_run unfolding bounded_quiet by blast
qed

theorem favourable_audit_sound_witness:
  "list_all (target_ok unix_paths ascii_unicode demo_audit demo_acl_request demo_acl_scope) (request_targets demo_acl_request)"
proof -
  have "map dgStatus (Diagnostics (bounded Worker_Done (run_audit unix_paths ascii_unicode demo_audit demo_acl_request demo_acl_scope))) = [''ok'']"
    by code_simp
  then obtain d where "d \<in> set (Diagnostics (bounded Worker_Done (run_audit unix_paths ascii_unicode demo_audit demo_acl_request demo_acl_scope)))"
    "dgStatus d = ''ok''" by auto
  from favourable_audit_sound [OF this] show ?thesis by blast
qed

section \<open>An archive\<close>















section \<open>Opening\<close>



section \<open>Restoring\<close>





section \<open>Backing up\<close>



text \<open>Every volume that a run creates carries the labels from which a backup derives its name again, so that it can be
  archived: for a stateful tool whose group is a plain name, and for the Python volumes.\<close>

theorem run_volumes_identified:
  assumes "ensureDockerVolumes h ok t ctx = (calls, e)" "Ensure_Volume name m \<in> set calls"
    and "tProvider t = ''stateful'' \<longrightarrow> plain_group t" "rxRoot ctx \<noteq> []"
  shows "validateManagedIdentity h name m \<in> {Inr (rxRoot ctx, VolumeHash h (rxRoot ctx)), Inr ([], [])}"
  by (rule run_volume_identity [OF assms])

definition demo_context :: run_context where
  "demo_context = \<lparr>rxCwd = ''/work/app'', rxRoot = ''/work/app'', rxWorkspaceRoot = ''/workspace'', rxContainerWD = ''/workspace'', rxFound = False\<rparr>"

theorem run_volumes_identified_witness:
  "validateManagedIdentity win_demo ''cb-pip-cache'' (shared_labels ''python313/pip-cache'') \<in> {Inr (''/work/app'', VolumeHash win_demo ''/work/app''), Inr ([], [])}"
proof -
  have e: "ensureDockerVolumes win_demo (\<lambda>_. True) win_tool demo_context = ([Ensure_Volume ''cb-python-313-global'' (python_labels win_demo demo_context),
     Ensure_Volume ''cb-pip-cache'' (shared_labels ''python313/pip-cache'')], None)" by code_simp
  have p: "tProvider win_tool = ''stateful'' \<longrightarrow> plain_group win_tool" by (simp add: win_tool_def)
  have r: "rxRoot demo_context = ''/work/app''" by (simp add: demo_context_def)
  show ?thesis using run_volumes_identified [OF e, of "''cb-pip-cache''" "shared_labels ''python313/pip-cache''"] p by (simp add: r)
qed

end
