(* ===== verification/Image_Verify.thy ===== *)
theory Image_Verify
  imports Policy_Auth_Facts Lockfile Host_Paths
begin

text \<open>
  The verification of an image with the pinned cosign (\<open>internal/imagetrust/verify.go\<close>) and the entry of
  the lockfile that records it (\<open>internal/cli/image_trust.go\<close>). The verifier program, JSON and the file
  system are observed through \<open>verify_answers\<close>: what each invocation returns, and what each look at a
  staged file sees, a different observation for every time at which the code looks.
\<close>

definition maxVerifierOutput :: nat where "maxVerifierOutput = 1048576"
definition maxSignatureBundles :: nat where "maxSignatureBundles = 32"
definition cosignPayloadType :: string where "cosignPayloadType = ''https://sigstore.dev/cosign/sign/v1''"
definition verifierName :: string where "verifierName = ''cosign.exe''"
definition publicKeyName :: string where "publicKeyName = ''policy-key.pub''"
definition trustedRootName :: string where "trustedRootName = ''trusted-root.json''"

record verification =
  vrMechanism :: string
  vrNetworkMode :: string
  vrRepository :: string
  vrDigest :: string
  vrSigner :: string
  vrIssuer :: string
  vrVerifierSHA256 :: string
  vrPolicyFingerprint :: string
  vrOutputSHA256 :: string
  vrBundleSHA256s :: "string list"
  vrVerifiedAt :: gotime
  vrSignatureCount :: nat

record authenticated_snapshot =
  asContents :: string
  asDigest :: string

record verification_request =
  vqResolved :: string
  vqRepository :: string
  vqDigest :: string
  vqRule :: image_trust_rule
  vqVerifier :: authenticated_snapshot
  vqKey :: authenticated_snapshot
  vqTrustedRoot :: authenticated_snapshot
  vqFingerprint :: string

datatype verify_error =
    Iv_Policy
  | Iv_Configured ref_error
  | Iv_Not_Exact
  | Iv_Resolved ref_error
  | Iv_Repository_Differs string string
  | Iv_Rule ref_error
  | Iv_No_Rule string
  | Iv_Verifier material_denial
  | Iv_Key material_denial
  | Iv_Root material_denial
  | Iv_Network_Mode string
  | Iv_No_Root
  | Iv_Stage
  | Iv_Snapshot string
  | Iv_Snapshot_Digest string
  | Iv_Write string
  | Iv_Staged string
  | Iv_Mechanism string
  | Iv_Changed
  | Iv_Output
  | Iv_Download
  | Iv_Run nat
  | Iv_Bundle_Output
  | Iv_Bundle_Syntax
  | Iv_Bundle_Malformed
  | Iv_Too_Many
  | Iv_No_Bundles
  | Iv_Unsatisfied
  | Iv_Cleanup

section \<open>The request\<close>

definition validDigest :: "unicode \<Rightarrow> string \<Rightarrow> bool" where
  "validDigest U value = (has_prefix value ''sha256:'' \<and> validSHA256Hex U (trim_prefix value ''sha256:''))"

definition splitResolvedDigest :: "unicode \<Rightarrow> string \<Rightarrow> (verify_error, string \<times> string) result" where
  "splitResolvedDigest U resolved =
     (if count_byte resolved CHR ''@'' \<noteq> 1 then Inl Iv_Not_Exact
      else (case cut_byte resolved CHR ''@'' of
          None \<Rightarrow> Inl Iv_Not_Exact
        | Some (repository, digest) \<Rightarrow>
          (if repository = [] \<or> tag_index repository \<noteq> None \<or> \<not> validDigest U digest then Inl Iv_Not_Exact
           else rbind (map_err Iv_Resolved (CanonicalRepository U repository)) (\<lambda>canonical. Inr (canonical, digest)))))"

definition canonicalVerificationTarget :: "unicode \<Rightarrow> string \<Rightarrow> string \<Rightarrow> (verify_error, string \<times> string \<times> string) result" where
  "canonicalVerificationTarget U configured resolved =
     rbind (map_err Iv_Configured (CanonicalRepository U configured)) (\<lambda>configuredRepository.
     rbind (splitResolvedDigest U resolved) (\<lambda>(resolvedRepository, digest).
       if resolvedRepository \<noteq> configuredRepository then Inl (Iv_Repository_Differs resolvedRepository configuredRepository)
       else Inr (configuredRepository, digest, configuredRepository @ ''@'' @ digest)))"

definition validateRequest :: "unicode \<Rightarrow> policy \<Rightarrow> string \<Rightarrow> string
    \<Rightarrow> (verify_error, string \<times> string \<times> string \<times> image_trust_rule) result" where
  "validateRequest U p configured resolved =
     (if \<not> Managed p \<or> \<not> validSHA256Hex U (pFingerprint p) then Inl Iv_Policy
      else rbind (canonicalVerificationTarget U configured resolved) (\<lambda>(repository, digest, target).
           rbind (map_err Iv_Rule (ImageTrustFor U p configured)) (\<lambda>found. case found of
             None \<Rightarrow> Inl (Iv_No_Rule configured)
           | Some rule \<Rightarrow> Inr (repository, digest, target, rule))))"

section \<open>Staged files\<close>

definition verifyStagedSnapshot :: "pin_observation \<Rightarrow> authenticated_snapshot \<Rightarrow> bool" where
  "verifyStagedSnapshot ob s = (case (poInfo ob, poOpened ob, poContents ob, poPost ob) of
     (Some info, Some opened, Some bytes, Some post) \<Rightarrow>
       (let size = length (asContents s); contents = take (size + 1) bytes; n = length contents in
        \<not> fiSymlink info \<and> fiRegular info \<and> fiSize info = size \<and> fiRegular opened \<and> same_file info opened
        \<and> n = size \<and> n = fiSize opened \<and> hex_encode (Sum256 contents) = asDigest s
        \<and> \<not> fiSymlink post \<and> fiRegular post \<and> same_file info post \<and> fiSize post = n)
   | _ \<Rightarrow> False)"

text \<open>The buffers that collect the output of the verifier, up to a limit.\<close>

record bounded_buffer =
  bbData :: string
  bbLimit :: nat
  bbOverflow :: bool

definition bounded_write :: "string \<Rightarrow> bounded_buffer \<Rightarrow> bounded_buffer" where
  "bounded_write p b = (let remaining = int (bbLimit b) - int (length (bbData b)) in
     b\<lparr>bbData := (if 0 < remaining then bbData b @ take (nat remaining) p else bbData b),
       bbOverflow := bbOverflow b \<or> remaining < int (length p)\<rparr>)"

record cosign_answer =
  caStdout :: string
  caStderr :: string
  caOk :: bool

text \<open>A value of a JSON stream: its text, and the number of its members when it is an object.\<close>

record json_value =
  jvRaw :: string
  jvMembers :: "nat option"

record verify_answers =
  vaStage :: "string option"
  vaWrite :: "string \<Rightarrow> bool"
  vaStaged :: "string \<Rightarrow> pin_observation"
  vaDownload :: "string list \<Rightarrow> cosign_answer"
  vaAfterDownload :: "string \<Rightarrow> pin_observation"
  vaVerify :: "string list \<Rightarrow> cosign_answer"
  vaCanceled :: "nat \<Rightarrow> bool"
  vaAfterVerify :: "string \<Rightarrow> pin_observation"
  vaAtEnd :: "string \<Rightarrow> pin_observation"
  vaNow :: gotime
  vaCleanup :: bool

definition stageSnapshot ::
    "host_paths \<Rightarrow> unicode \<Rightarrow> verify_answers \<Rightarrow> string \<Rightarrow> string \<Rightarrow> authenticated_snapshot \<Rightarrow> (verify_error, string) result" where
  "stageSnapshot H U A dir name s =
     (let path = hpJoin H dir name in
      if \<not> validSHA256Hex U (asDigest s) then Inl (Iv_Snapshot name)
      else if hex_encode (Sum256 (asContents s)) \<noteq> asDigest s then Inl (Iv_Snapshot_Digest name)
      else if \<not> vaWrite A path then Inl (Iv_Write name)
      else if \<not> verifyStagedSnapshot (vaStaged A path) s then Inl (Iv_Staged name)
      else Inr path)"

section \<open>Downloaded bundles\<close>

text \<open>\<open>stream\<close> is a \<open>json.Decoder\<close>: the values before the end or before an error, and whether the end was reached.\<close>

definition add_bundle :: "json_value \<Rightarrow> string list \<Rightarrow> (verify_error, string list) result" where
  "add_bundle v bundles =
     (if jvRaw v = [] \<or> jvMembers v = None \<or> jvMembers v = Some 0 then Inl Iv_Bundle_Malformed
      else if length bundles = maxSignatureBundles then Inl Iv_Too_Many
      else Inr (bundles @ [jvRaw v]))"

definition parseDownloadedBundles :: "(string \<Rightarrow> json_value list \<times> bool) \<Rightarrow> string \<Rightarrow> (verify_error, string list) result" where
  "parseDownloadedBundles stream data =
     (if data = [] \<or> maxVerifierOutput < length data then Inl Iv_Bundle_Output
      else (case stream data of (values, complete) \<Rightarrow>
        rbind (fold_result add_bundle values []) (\<lambda>bundles.
          if \<not> complete then Inl Iv_Bundle_Syntax else if bundles = [] then Inl Iv_No_Bundles else Inr bundles)))"

section \<open>The verification of a bundle\<close>

definition bundle_name :: "nat \<Rightarrow> string" where
  "bundle_name n = ''bundle-'' @ (let d = digits_of_nat n in replicate (3 - length d) CHR ''0'' @ d) @ ''.sigstore.json''"

definition bundle_args :: "verification_request \<Rightarrow> string \<Rightarrow> string \<Rightarrow> string \<Rightarrow> string list" where
  "bundle_args q bundlePath keyPath rootPath =
     [''verify-blob-attestation'', ''--bundle='' @ bundlePath, ''--digest='' @ trim_prefix (vqDigest q) ''sha256:'',
      ''--digestAlg=sha256'', ''--type='' @ cosignPayloadType]
     @ (if trMechanism (vqRule q) = ImageTrustKeyless
        then [''--certificate-identity='' @ trSubject (vqRule q), ''--certificate-oidc-issuer='' @ trIssuer (vqRule q)]
        else [''--key='' @ keyPath])
     @ (if trNetworkMode (vqRule q) = ImageTrustOfflineBundle
        then [''--offline=true'', ''--new-bundle-format=true'', ''--trusted-root='' @ rootPath] else [])"

definition too_long :: "cosign_answer \<Rightarrow> bool" where
  "too_long a = (maxVerifierOutput < length (caStdout a) \<or> maxVerifierOutput < length (caStderr a))"

record bundle_state =
  bsSet :: "string list"
  bsCount :: nat
  bsStageOk :: bool

text \<open>A round of the loop over the bundles; \<open>nb\<close> is the index and the bundle.\<close>

definition bundle_round ::
    "host_paths \<Rightarrow> unicode \<Rightarrow> verify_answers \<Rightarrow> verification_request \<Rightarrow> string \<Rightarrow> string \<Rightarrow> string \<Rightarrow> nat \<times> string \<Rightarrow> bundle_state
      \<Rightarrow> (verify_error, bundle_state) result" where
  "bundle_round H U A q dir keyPath rootPath nb st = (case nb of (i, bundle) \<Rightarrow>
     let digest = hex_encode (Sum256 bundle); s = \<lparr>asContents = bundle, asDigest = digest\<rparr> in
     rbind (stageSnapshot H U A dir (bundle_name (i + 1)) s) (\<lambda>bundlePath.
       let answer = vaVerify A (bundle_args q bundlePath keyPath rootPath);
           st' = st\<lparr>bsStageOk := bsStageOk st \<and> verifyStagedSnapshot (vaAfterVerify A bundlePath) s\<rparr> in
       if too_long answer then Inl Iv_Output
       else if \<not> caOk answer then (if vaCanceled A i then Inl (Iv_Run (i + 1)) else Inr st')
       else Inr (st'\<lparr>bsCount := bsCount st' + 1, bsSet := (if digest \<in> set (bsSet st') then bsSet st' else digest # bsSet st')\<rparr>)))"

text \<open>The staged material at one time: the verifier, and the key and the root when they were staged.\<close>

definition material_unchanged :: "(string \<Rightarrow> pin_observation) \<Rightarrow> verification_request \<Rightarrow> string \<Rightarrow> string option \<Rightarrow> string option \<Rightarrow> bool" where
  "material_unchanged look q verifierPath keyPath rootPath = (verifyStagedSnapshot (look verifierPath) (vqVerifier q)
     \<and> (case keyPath of None \<Rightarrow> True | Some k \<Rightarrow> verifyStagedSnapshot (look k) (vqKey q))
     \<and> (case rootPath of None \<Rightarrow> True | Some r \<Rightarrow> verifyStagedSnapshot (look r) (vqTrustedRoot q)))"

definition path_text :: "string option \<Rightarrow> string" where
  "path_text p = (case p of None \<Rightarrow> [] | Some s \<Rightarrow> s)"

text \<open>Signer, issuer and the path of the key, by the mechanism of the rule.\<close>

definition stage_identity ::
    "host_paths \<Rightarrow> unicode \<Rightarrow> verify_answers \<Rightarrow> verification_request \<Rightarrow> string \<Rightarrow> (verify_error, string \<times> string \<times> string option) result" where
  "stage_identity H U A q dir =
     (if trMechanism (vqRule q) = ImageTrustKeyless then Inr (trSubject (vqRule q), trIssuer (vqRule q), None)
      else if trMechanism (vqRule q) = ImageTrustKey then
        rbind (stageSnapshot H U A dir publicKeyName (vqKey q)) (\<lambda>k. Inr (asDigest (vqKey q), [], Some k))
      else Inl (Iv_Mechanism (trMechanism (vqRule q))))"

definition stage_root ::
    "host_paths \<Rightarrow> unicode \<Rightarrow> verify_answers \<Rightarrow> verification_request \<Rightarrow> string \<Rightarrow> (verify_error, string option) result" where
  "stage_root H U A q dir = (if trNetworkMode (vqRule q) = ImageTrustOfflineBundle
     then rbind (stageSnapshot H U A dir trustedRootName (vqTrustedRoot q)) (\<lambda>r. Inr (Some r)) else Inr None)"

definition verify_in_stage ::
    "host_paths \<Rightarrow> unicode \<Rightarrow> (string \<Rightarrow> json_value list \<times> bool) \<Rightarrow> verify_answers \<Rightarrow> verification_request \<Rightarrow> string
      \<Rightarrow> (verify_error, verification) result" where
  "verify_in_stage H U stream A q dir =
     rbind (stageSnapshot H U A dir verifierName (vqVerifier q)) (\<lambda>verifierPath.
     rbind (stage_identity H U A q dir) (\<lambda>(signer, issuer, keyPath).
     rbind (stage_root H U A q dir) (\<lambda>rootPath.
       let download = vaDownload A [''download'', ''signature'', vqResolved q] in
       if \<not> material_unchanged (vaAfterDownload A) q verifierPath keyPath rootPath then Inl Iv_Changed
       else if too_long download then Inl Iv_Output
       else if \<not> caOk download then Inl Iv_Download
       else
       rbind (parseDownloadedBundles stream (caStdout download)) (\<lambda>downloaded.
       rbind (fold_result (bundle_round H U A q dir (path_text keyPath) (path_text rootPath)) (enumerate 0 downloaded)
           \<lparr>bsSet = [], bsCount = 0, bsStageOk = True\<rparr>) (\<lambda>st.
         if \<not> bsStageOk st \<or> \<not> material_unchanged (vaAtEnd A) q verifierPath keyPath rootPath then Inl Iv_Changed
         else if bsCount st = 0 then Inl Iv_Unsatisfied
         else Inr \<lparr>vrMechanism = trMechanism (vqRule q), vrNetworkMode = trNetworkMode (vqRule q), vrRepository = vqRepository q,
           vrDigest = vqDigest q, vrSigner = signer, vrIssuer = issuer, vrVerifierSHA256 = asDigest (vqVerifier q),
           vrPolicyFingerprint = vqFingerprint q, vrOutputSHA256 = hex_encode (Sum256 (caStdout download)),
           vrBundleSHA256s = sort (bsSet st), vrVerifiedAt = (vaNow A)\<lparr>gNsec := 0\<rparr>, vrSignatureCount = bsCount st\<rparr>)))))"

definition verifyAuthenticated ::
    "host_paths \<Rightarrow> unicode \<Rightarrow> (string \<Rightarrow> json_value list \<times> bool) \<Rightarrow> verify_answers \<Rightarrow> verification_request \<Rightarrow> (verify_error, verification) result" where
  "verifyAuthenticated H U stream A q =
     (let mode = trNetworkMode (vqRule q) in
      if mode \<noteq> ImageTrustOnline \<and> mode \<noteq> ImageTrustOfflineBundle then Inl (Iv_Network_Mode mode)
      else if mode = ImageTrustOfflineBundle \<and> asContents (vqTrustedRoot q) = [] then Inl Iv_No_Root
      else (case vaStage A of
          None \<Rightarrow> Inl Iv_Stage
        | Some dir \<Rightarrow> rbind (verify_in_stage H U stream A q dir) (\<lambda>r. if vaCleanup A then Inr r else Inl Iv_Cleanup)))"

definition to_snapshot :: "string \<times> string \<Rightarrow> authenticated_snapshot" where
  "to_snapshot s = \<lparr>asContents = fst s, asDigest = snd s\<rparr>"

definition empty_snapshot :: authenticated_snapshot where
  "empty_snapshot = \<lparr>asContents = [], asDigest = []\<rparr>"

definition Verify ::
    "host_paths \<Rightarrow> unicode \<Rightarrow> (string \<Rightarrow> json_value list \<times> bool) \<Rightarrow> (string \<Rightarrow> pin_observation) \<Rightarrow> verify_answers \<Rightarrow> policy \<Rightarrow> string \<Rightarrow> string
      \<Rightarrow> (verify_error, verification) result" where
  "Verify H U stream ob A p configured resolved =
     rbind (validateRequest U p configured resolved) (\<lambda>(repository, digest, target, rule).
     rbind (map_err Iv_Verifier (AuthenticateCosignVerifier p ob)) (\<lambda>verifier.
     rbind (if trMechanism rule = ImageTrustKey
         then rbind (map_err Iv_Key (AuthenticateImageTrustPublicKey U p ob configured)) (\<lambda>s. Inr (to_snapshot s))
         else Inr empty_snapshot) (\<lambda>key.
     rbind (if trNetworkMode rule = ImageTrustOfflineBundle
         then rbind (map_err Iv_Root (AuthenticateImageTrustTrustedRoot p ob)) (\<lambda>s. Inr (to_snapshot s))
         else Inr empty_snapshot) (\<lambda>root.
       verifyAuthenticated H U stream A \<lparr>vqResolved = target, vqRepository = repository, vqDigest = digest, vqRule = rule,
         vqVerifier = to_snapshot verifier, vqKey = key, vqTrustedRoot = root, vqFingerprint = pFingerprint p\<rparr>))))"

section \<open>The entry of the lockfile\<close>

datatype lock_trust_error =
    Lt_Mode string
  | Lt_No_Signatures
  | Lt_Bundles nat
  | Lt_Select ref_error
  | Lt_Resolve resolve_error
  | Lt_Verify verify_error

definition lockEvidenceFromVerification :: "verification \<Rightarrow> (lock_trust_error, trust_evidence) result" where
  "lockEvidenceFromVerification r =
     (if vrNetworkMode r \<noteq> ImageTrustOnline \<and> vrNetworkMode r \<noteq> ImageTrustOfflineBundle then Inl (Lt_Mode (vrNetworkMode r))
      else if vrSignatureCount r < 1 then Inl Lt_No_Signatures
      else (case vrBundleSHA256s r of
          [bundle] \<Rightarrow> Inr \<lparr>teVersion = ImageTrustEvidenceVersion, teMechanism = vrMechanism r, teRepository = vrRepository r,
            teDigest = vrDigest r, teSigner = vrSigner r, teIssuer = vrIssuer r, teBundleSHA256 = bundle,
            teVerifiedAt = format_utc ((vrVerifiedAt r)\<lparr>gNsec := 0\<rparr>), teVerifier = ImageTrustVerifierCosign,
            teVerifierSHA256 = vrVerifierSHA256 r, tePolicyFingerprint = vrPolicyFingerprint r\<rparr>
        | bundles \<Rightarrow> Inl (Lt_Bundles (length bundles))))"

text \<open>\<open>resolved\<close> is the answer of \<open>lockfile.ResolveRepositoryImage\<close>, \<open>verify\<close> is \<open>Verify\<close> of the policy.\<close>

definition resolveRepositoryImageWithTrust ::
    "unicode \<Rightarrow> policy \<Rightarrow> (string \<Rightarrow> string \<Rightarrow> (verify_error, verification) result) \<Rightarrow> (resolve_error, lock_entry) result \<Rightarrow> string
      \<Rightarrow> (lock_trust_error, lock_entry) result" where
  "resolveRepositoryImageWithTrust U p verify resolved configured =
     rbind (map_err Lt_Select (ImageTrustFor U p configured)) (\<lambda>found.
     rbind (map_err Lt_Resolve resolved) (\<lambda>entry.
       if found = None then Inr entry
       else rbind (map_err Lt_Verify (verify configured (leResolved entry))) (\<lambda>r.
            rbind (lockEvidenceFromVerification r) (\<lambda>evidence. Inr (entry\<lparr>leTrust := Some evidence\<rparr>)))))"

definition storeResolvedLockEntry :: "lock_file \<Rightarrow> string \<Rightarrow> lock_entry \<Rightarrow> lock_file" where
  "storeResolvedLockEntry lock configured entry =
     (lock\<lparr>lfVersion := (if leTrust entry \<noteq> None \<and> lfVersion lock < 2 then 2 else lfVersion lock),
       lfImages := mput configured entry (lfImages lock)\<rparr>)"

section \<open>What is established\<close>

text \<open>
  What a verification that succeeds has established (\<open>verify_sound\<close>): the request is the exact digest of the
  configured repository, the verifier and the key are the pinned files, staged and unchanged, and every
  bundle of the result was accepted by the verifier for this digest and this identity. And the evidence
  recorded from it is the one that the policy accepts at run time (\<open>evidence_recorded\<close>).
\<close>

section \<open>Staging\<close>

lemma stage_ok:
  assumes "stageSnapshot H U A dir name s = Inr path"
  shows "path = hpJoin H dir name" "asDigest s = hex_encode (Sum256 (asContents s))" "verifyStagedSnapshot (vaStaged A path) s"
  using assms by (auto simp: stageSnapshot_def Let_def split: if_splits)

text \<open>However the output is cut into writes, the buffer holds its first bytes, and knows whether any are missing.\<close>

definition buffered :: "nat \<Rightarrow> string \<Rightarrow> bounded_buffer" where
  "buffered n seen = \<lparr>bbData = take n seen, bbLimit = n, bbOverflow = (n < length seen)\<rparr>"

lemma bounded_write_buffered: "bounded_write p (buffered n seen) = buffered n (seen @ p)"
proof -
  have "nat (int n - int (length seen)) = n - length seen" by simp
  then show ?thesis by (auto simp: bounded_write_def buffered_def Let_def min_def)
qed

lemma bounded_writes: "fold bounded_write ps (buffered n seen) = buffered n (seen @ concat ps)"
  by (induction ps arbitrary: seen) (simp_all add: bounded_write_buffered)

section \<open>The bundles\<close>

text \<open>A bundle that the verifier accepted: staged, unchanged after the run, for the digest and the identity of
  the request.\<close>

definition accepted_bundle ::
    "host_paths \<Rightarrow> verify_answers \<Rightarrow> verification_request \<Rightarrow> string \<Rightarrow> string \<Rightarrow> string \<Rightarrow> nat \<Rightarrow> string \<Rightarrow> bool" where
  "accepted_bundle H A q dir keyPath rootPath i bundle =
     (let path = hpJoin H dir (bundle_name (i + 1)); s = \<lparr>asContents = bundle, asDigest = hex_encode (Sum256 bundle)\<rparr> in
      caOk (vaVerify A (bundle_args q path keyPath rootPath)) \<and> verifyStagedSnapshot (vaStaged A path) s
      \<and> verifyStagedSnapshot (vaAfterVerify A path) s)"

definition bundles_ok ::
    "host_paths \<Rightarrow> verify_answers \<Rightarrow> verification_request \<Rightarrow> string \<Rightarrow> string \<Rightarrow> string \<Rightarrow> (nat \<times> string) list \<Rightarrow> bundle_state \<Rightarrow> bool" where
  "bundles_ok H A q dir keyPath rootPath done_bundles st = (bsStageOk st \<longrightarrow>
     (\<forall>d \<in> set (bsSet st). \<exists>(i, bundle) \<in> set done_bundles. d = hex_encode (Sum256 bundle) \<and> accepted_bundle H A q dir keyPath rootPath i bundle)
     \<and> distinct (bsSet st) \<and> (0 < bsCount st \<longleftrightarrow> bsSet st \<noteq> []))"

lemma bundle_round_ok:
  assumes "bundle_round H U A q dir keyPath rootPath (i, bundle) st = Inr st'" "bundles_ok H A q dir keyPath rootPath done_bundles st"
  shows "bundles_ok H A q dir keyPath rootPath (done_bundles @ [(i, bundle)]) st'"
proof -
  let ?d = "hex_encode (Sum256 bundle)"
  let ?s = "\<lparr>asContents = bundle, asDigest = ?d\<rparr>"
  from assms(1) obtain path where p: "stageSnapshot H U A dir (bundle_name (i + 1)) ?s = Inr path"
    by (auto simp: bundle_round_def Let_def rbind_Inr_iff)
  note s = stage_ok [OF p]
  let ?ok = "verifyStagedSnapshot (vaAfterVerify A path) ?s"
  let ?st = "st\<lparr>bsStageOk := bsStageOk st \<and> ?ok\<rparr>"
  from assms(1) p consider (rejected) "st' = ?st"
    | (accepted) "caOk (vaVerify A (bundle_args q path keyPath rootPath))"
        "st' = ?st\<lparr>bsCount := bsCount st + 1, bsSet := (if ?d \<in> set (bsSet st) then bsSet st else ?d # bsSet st)\<rparr>"
    by (auto simp: bundle_round_def Let_def split: if_splits)
  then show ?thesis
  proof cases
    case rejected
    then show ?thesis using assms(2) by (fastforce simp: bundles_ok_def)
  next
    case accepted
    have acc: "accepted_bundle H A q dir keyPath rootPath i bundle" if "?ok"
      using accepted(1) s(1,3) that by (simp add: accepted_bundle_def Let_def)
    show ?thesis unfolding bundles_ok_def
    proof (rule impI)
      assume "bsStageOk st'"
      then have k: "bsStageOk st" "?ok" by (simp_all add: accepted(2))
      then have old: "\<forall>d \<in> set (bsSet st). \<exists>(i, bundle) \<in> set done_bundles. d = hex_encode (Sum256 bundle) \<and> accepted_bundle H A q dir keyPath rootPath i bundle"
        "distinct (bsSet st)" using assms(2) by (simp_all add: bundles_ok_def)
      have b: "bsSet st' = (if ?d \<in> set (bsSet st) then bsSet st else ?d # bsSet st)" "bsCount st' = bsCount st + 1" by (simp_all add: accepted(2))
      have "\<exists>(i, bundle) \<in> set (done_bundles @ [(i, bundle)]). d = hex_encode (Sum256 bundle) \<and> accepted_bundle H A q dir keyPath rootPath i bundle"
        if "d \<in> set (bsSet st')" for d
      proof (cases "d = ?d")
        case True
        then show ?thesis using acc [OF k(2)] by (intro bexI [of _ "(i, bundle)"]) simp_all
      next
        case False
        then have "d \<in> set (bsSet st)" using that b(1) by (simp split: if_splits)
        then obtain x where "x \<in> set done_bundles" "case x of (i, bundle) \<Rightarrow> d = hex_encode (Sum256 bundle) \<and> accepted_bundle H A q dir keyPath rootPath i bundle"
          using old(1) by blast
        then show ?thesis by (intro bexI [of _ x]) simp_all
      qed
      moreover have "distinct (bsSet st')" "bsSet st' \<noteq> []" using old(2) b(1) by (auto split: if_splits)
      ultimately show "(\<forall>d \<in> set (bsSet st'). \<exists>(i, bundle) \<in> set (done_bundles @ [(i, bundle)]). d = hex_encode (Sum256 bundle) \<and> accepted_bundle H A q dir keyPath rootPath i bundle)
          \<and> distinct (bsSet st') \<and> (0 < bsCount st' \<longleftrightarrow> bsSet st' \<noteq> [])" using b(2) by simp
    qed
  qed
qed

lemma bundle_loop_ok:
  assumes "fold_result (bundle_round H U A q dir keyPath rootPath) xs st = Inr st'" "bundles_ok H A q dir keyPath rootPath done_bundles st"
  shows "bundles_ok H A q dir keyPath rootPath (done_bundles @ xs) st'"
  using assms
proof (induction xs arbitrary: st done_bundles)
  case (Cons x xs)
  obtain i b where x: "x = (i, b)" by fastforce
  from Cons.prems(1) obtain mid where s: "bundle_round H U A q dir keyPath rootPath (i, b) st = Inr mid"
    "fold_result (bundle_round H U A q dir keyPath rootPath) xs mid = Inr st'" by (auto simp: x rbind_Inr_iff)
  from Cons.IH [OF s(2) bundle_round_ok [OF s(1) Cons.prems(2)]] show ?case by (simp add: x)
qed simp

section \<open>The verification\<close>

text \<open>Signer, issuer and mechanism of the result are those of the rule.\<close>

definition identity_of :: "verification_request \<Rightarrow> verification \<Rightarrow> bool" where
  "identity_of q r = (vrMechanism r = trMechanism (vqRule q) \<and>
     ((trMechanism (vqRule q) = ImageTrustKeyless \<and> vrSigner r = trSubject (vqRule q) \<and> vrIssuer r = trIssuer (vqRule q))
      \<or> (trMechanism (vqRule q) = ImageTrustKey \<and> vrSigner r = asDigest (vqKey q) \<and> vrIssuer r = [])))"

text \<open>The verifier that ran is the authenticated one: staged and unchanged after the download and at the end.\<close>

definition verifier_intact :: "host_paths \<Rightarrow> verify_answers \<Rightarrow> verification_request \<Rightarrow> string \<Rightarrow> bool" where
  "verifier_intact H A q dir = (let path = hpJoin H dir verifierName in
     list_all (\<lambda>look. verifyStagedSnapshot (look path) (vqVerifier q)) [vaStaged A, vaAfterDownload A, vaAtEnd A])"

text \<open>Every digest of the result is the digest of a downloaded bundle that the verifier accepted.\<close>

definition bundles_accepted ::
    "host_paths \<Rightarrow> (string \<Rightarrow> json_value list \<times> bool) \<Rightarrow> verify_answers \<Rightarrow> verification_request \<Rightarrow> string \<Rightarrow> verification \<Rightarrow> bool" where
  "bundles_accepted H stream A q dir r = (\<exists>keyPath rootPath downloaded.
     (trMechanism (vqRule q) = ImageTrustKey \<longrightarrow> keyPath = hpJoin H dir publicKeyName)
     \<and> (trNetworkMode (vqRule q) = ImageTrustOfflineBundle \<longrightarrow> rootPath = hpJoin H dir trustedRootName)
     \<and> parseDownloadedBundles stream (caStdout (vaDownload A [''download'', ''signature'', vqResolved q])) = Inr downloaded
     \<and> vrBundleSHA256s r \<noteq> [] \<and> distinct (vrBundleSHA256s r)
     \<and> (\<forall>d \<in> set (vrBundleSHA256s r). \<exists>(i, bundle) \<in> set (enumerate 0 downloaded).
         d = hex_encode (Sum256 bundle) \<and> accepted_bundle H A q dir keyPath rootPath i bundle))"

lemma stage_identity_ok:
  assumes "stage_identity H U A q dir = Inr (signer, issuer, keyPath)"
  shows "(trMechanism (vqRule q) = ImageTrustKeyless \<and> signer = trSubject (vqRule q) \<and> issuer = trIssuer (vqRule q))
    \<or> (trMechanism (vqRule q) = ImageTrustKey \<and> signer = asDigest (vqKey q) \<and> issuer = [])"
    "trMechanism (vqRule q) = ImageTrustKey \<longrightarrow> path_text keyPath = hpJoin H dir publicKeyName"
  using assms by (auto simp: stage_identity_def rbind_Inr_iff path_text_def ImageTrustKey_def ImageTrustKeyless_def dest: stage_ok(1) split: if_splits)

lemma verify_in_stage_ok:
  assumes "verify_in_stage H U stream A q dir = Inr r"
  shows "identity_of q r" "verifier_intact H A q dir" "bundles_accepted H stream A q dir r"
    "vrNetworkMode r = trNetworkMode (vqRule q)" "vrRepository r = vqRepository q" "vrDigest r = vqDigest q"
    "vrVerifierSHA256 r = asDigest (vqVerifier q)" "vrPolicyFingerprint r = vqFingerprint q" "0 < vrSignatureCount r"
proof -
  let ?dl = "vaDownload A [''download'', ''signature'', vqResolved q]"
  from assms obtain verifierPath signer issuer keyPath rootPath where
    v: "stageSnapshot H U A dir verifierName (vqVerifier q) = Inr verifierPath" and
    k: "stage_identity H U A q dir = Inr (signer, issuer, keyPath)" and
    t: "stage_root H U A q dir = Inr rootPath"
    by (auto simp: verify_in_stage_def rbind_Inr_iff)
  from assms v k t have m1: "material_unchanged (vaAfterDownload A) q verifierPath keyPath rootPath"
    by (simp add: verify_in_stage_def Let_def split: if_splits)
  with assms v k t obtain downloaded where d: "parseDownloadedBundles stream (caStdout ?dl) = Inr downloaded"
    by (auto simp: verify_in_stage_def Let_def rbind_Inr_iff split: if_splits)
  with assms v k t m1 obtain st where st: "fold_result (bundle_round H U A q dir (path_text keyPath) (path_text rootPath)) (enumerate 0 downloaded)
      \<lparr>bsSet = [], bsCount = 0, bsStageOk = True\<rparr> = Inr st"
    by (auto simp: verify_in_stage_def Let_def rbind_Inr_iff split: if_splits)
  with assms v k t m1 d have f: "bsStageOk st" "material_unchanged (vaAtEnd A) q verifierPath keyPath rootPath" "bsCount st \<noteq> 0"
    and r: "r = \<lparr>vrMechanism = trMechanism (vqRule q), vrNetworkMode = trNetworkMode (vqRule q), vrRepository = vqRepository q,
           vrDigest = vqDigest q, vrSigner = signer, vrIssuer = issuer, vrVerifierSHA256 = asDigest (vqVerifier q),
           vrPolicyFingerprint = vqFingerprint q, vrOutputSHA256 = hex_encode (Sum256 (caStdout ?dl)),
           vrBundleSHA256s = sort (bsSet st), vrVerifiedAt = (vaNow A)\<lparr>gNsec := 0\<rparr>, vrSignatureCount = bsCount st\<rparr>"
    by (auto simp: verify_in_stage_def Let_def split: if_splits)
  have "bundles_ok H A q dir (path_text keyPath) (path_text rootPath) ([] @ enumerate 0 downloaded) st"
    by (rule bundle_loop_ok [OF st]) (simp add: bundles_ok_def)
  with f have b: "\<forall>d \<in> set (bsSet st). \<exists>(i, bundle) \<in> set (enumerate 0 downloaded).
      d = hex_encode (Sum256 bundle) \<and> accepted_bundle H A q dir (path_text keyPath) (path_text rootPath) i bundle"
    "distinct (bsSet st)" "bsSet st \<noteq> []" by (simp_all add: bundles_ok_def)
  have rp: "trNetworkMode (vqRule q) = ImageTrustOfflineBundle \<longrightarrow> path_text rootPath = hpJoin H dir trustedRootName"
    using t stage_ok(1) by (auto simp: stage_root_def rbind_Inr_iff path_text_def)
  have "sort (bsSet st) \<noteq> []" using b(3) by (metis length_0_conv length_sort)
  with b d stage_identity_ok(2) [OF k] rp show "bundles_accepted H stream A q dir r"
    unfolding bundles_accepted_def r by (intro exI [of _ "path_text keyPath"] exI [of _ "path_text rootPath"] exI [of _ downloaded]) simp
  show "identity_of q r" using stage_identity_ok(1) [OF k] by (auto simp: identity_of_def r)
  show "verifier_intact H A q dir" using stage_ok(1,3) [OF v] m1 f(2) by (simp add: verifier_intact_def material_unchanged_def Let_def)
qed (use assms in \<open>auto simp: verify_in_stage_def Let_def rbind_Inr_iff split: if_splits\<close>)

lemma pinned_digest: "authenticatePinnedFile pin n ob = Inr (contents, digest) \<Longrightarrow> digest = fpSHA256 pin \<and> digest = hex_encode (Sum256 contents)"
  by (auto simp: pinned_file_iff)

lemma verifier_pinned: "AuthenticateCosignVerifier p ob = Inr s \<Longrightarrow> snd s = fpSHA256 (pCosignVerifier p)"
  by (cases s) (auto simp: AuthenticateCosignVerifier_def dest!: pinned_digest split: if_splits)

lemma key_pinned:
  assumes "AuthenticateImageTrustPublicKey U p ob configured = Inr s" "ImageTrustFor U p configured = Inr (Some rule)"
  shows "snd s = fpSHA256 (trPublicKey rule)"
  using assms by (cases s) (auto simp: AuthenticateImageTrustPublicKey_def rbind_Inr_iff dest!: pinned_digest split: if_splits)

lemma resolved_digests: "splitResolvedDigest U resolved = Inr rd \<Longrightarrow> splitResolvedImageDigest U resolved = Inr rd"
  by (auto simp: splitResolvedDigest_def splitResolvedImageDigest_def validDigest_def rbind_Inr_iff split: if_splits option.splits)

text \<open>What a verification establishes, under the rule that the policy selects.\<close>

definition verified ::
    "host_paths \<Rightarrow> unicode \<Rightarrow> (string \<Rightarrow> json_value list \<times> bool) \<Rightarrow> verify_answers \<Rightarrow> policy \<Rightarrow> image_trust_rule \<Rightarrow> string \<Rightarrow> string
      \<Rightarrow> verification \<Rightarrow> bool" where
  "verified H U stream A p rule configured resolved r = (\<exists>q dir. vqRule q = rule \<and> vqDigest q = vrDigest r
     \<and> CanonicalRepository U configured = Inr (vrRepository r) \<and> splitResolvedImageDigest U resolved = Inr (vrRepository r, vrDigest r)
     \<and> vqResolved q = vrRepository r @ ''@'' @ vrDigest r \<and> asDigest (vqVerifier q) = fpSHA256 (pCosignVerifier p)
     \<and> (trMechanism rule = ImageTrustKey \<longrightarrow> asDigest (vqKey q) = fpSHA256 (trPublicKey rule))
     \<and> identity_of q r \<and> verifier_intact H A q dir \<and> bundles_accepted H stream A q dir r)"

lemma verify_sound:
  assumes "Verify H U stream ob A p configured resolved = Inr r"
  shows "\<exists>rule. ImageTrustFor U p configured = Inr (Some rule) \<and> verified H U stream A p rule configured resolved r
    \<and> Managed p \<and> validSHA256Hex U (pFingerprint p) \<and> vrPolicyFingerprint r = pFingerprint p \<and> vrVerifierSHA256 r = fpSHA256 (pCosignVerifier p)
    \<and> vrNetworkMode r = trNetworkMode rule \<and> trNetworkMode rule \<in> {ImageTrustOnline, ImageTrustOfflineBundle}
    \<and> (trNetworkMode rule = ImageTrustOfflineBundle \<longrightarrow> (\<exists>s. AuthenticateImageTrustTrustedRoot p ob = Inr s)) \<and> 0 < vrSignatureCount r"
proof -
  from assms obtain repository digest target rule where a: "validateRequest U p configured resolved = Inr (repository, digest, target, rule)"
    by (auto simp: Verify_def rbind_Inr_iff)
  with assms obtain vs where v: "AuthenticateCosignVerifier p ob = Inr vs" by (auto simp: Verify_def rbind_Inr_iff)
  with assms a obtain key where k: "(if trMechanism rule = ImageTrustKey
      then rbind (map_err Iv_Key (AuthenticateImageTrustPublicKey U p ob configured)) (\<lambda>s. Inr (to_snapshot s)) else Inr empty_snapshot) = Inr key"
    by (auto simp: Verify_def rbind_Inr_iff split: if_splits)
  with assms a v obtain root where t: "(if trNetworkMode rule = ImageTrustOfflineBundle
      then rbind (map_err Iv_Root (AuthenticateImageTrustTrustedRoot p ob)) (\<lambda>s. Inr (to_snapshot s)) else Inr empty_snapshot) = Inr root"
    unfolding Verify_def a v by (cases "(if trNetworkMode rule = ImageTrustOfflineBundle
      then rbind (map_err Iv_Root (AuthenticateImageTrustTrustedRoot p ob)) (\<lambda>s. Inr (to_snapshot s)) else Inr empty_snapshot)") auto
  let ?q = "\<lparr>vqResolved = target, vqRepository = repository, vqDigest = digest, vqRule = rule, vqVerifier = to_snapshot vs, vqKey = key,
    vqTrustedRoot = root, vqFingerprint = pFingerprint p\<rparr>"
  have va: "verifyAuthenticated H U stream A ?q = Inr r" using assms unfolding Verify_def a v rbind_simps map_err_simps prod.case k t .
  then obtain dir where s: "verify_in_stage H U stream A ?q dir = Inr r" and
    n: "trNetworkMode rule \<in> {ImageTrustOnline, ImageTrustOfflineBundle}"
    by (auto simp: verifyAuthenticated_def Let_def rbind_Inr_iff split: if_splits option.splits)
  note o = verify_in_stage_ok [OF s]
  from a have req: "Managed p" "validSHA256Hex U (pFingerprint p)" "ImageTrustFor U p configured = Inr (Some rule)"
    "canonicalVerificationTarget U configured resolved = Inr (repository, digest, target)"
    by (auto simp: validateRequest_def rbind_Inr_iff split: if_splits option.splits)
  from req(4) have c: "CanonicalRepository U configured = Inr repository" "splitResolvedDigest U resolved = Inr (repository, digest)"
    "target = repository @ ''@'' @ digest"
    by (auto simp: canonicalVerificationTarget_def rbind_Inr_iff split: if_splits)
  have dv: "asDigest (to_snapshot vs) = fpSHA256 (pCosignVerifier p)" using verifier_pinned [OF v] by (simp add: to_snapshot_def)
  have dk: "trMechanism rule = ImageTrustKey \<longrightarrow> asDigest key = fpSHA256 (trPublicKey rule)"
    using k key_pinned [OF _ req(3)] by (auto simp: rbind_Inr_iff to_snapshot_def)
  have "verified H U stream A p rule configured resolved r"
    unfolding verified_def using o(1-3,5,6) c resolved_digests [OF c(2)] dv dk by (intro exI [of _ ?q] exI [of _ dir]) simp
  moreover have "trNetworkMode rule = ImageTrustOfflineBundle \<longrightarrow> (\<exists>s. AuthenticateImageTrustTrustedRoot p ob = Inr s)"
    using t by (auto simp: rbind_Inr_iff)
  ultimately show ?thesis using req(1-3) o(4,7-9) n dv by (intro exI [of _ rule]) simp
qed

section \<open>The recorded evidence\<close>

lemma root_pinned: "AuthenticateImageTrustTrustedRoot p ob = Inr s \<Longrightarrow> validSHA256Hex U (fpSHA256 (pCosignTrustedRoot p))"
  by (cases s) (auto simp: AuthenticateImageTrustTrustedRoot_def fingerprint_ok dest!: pinned_digest split: if_splits)

lemma evidence_recorded:
  assumes "resolveRepositoryImageWithTrust U p (Verify H U stream ob A p) resolved configured = Inr entry"
    and "ImageTrustFor U p configured = Inr (Some rule)"
  shows "\<exists>r ev. Verify H U stream ob A p configured (leResolved entry) = Inr r \<and> lockEvidenceFromVerification r = Inr ev \<and> leTrust entry = Some ev
    \<and> (\<exists>re. RuntimeTrustEvidence entry = Some re \<and> evidence_binds U p rule configured (leResolved entry) re)"
proof -
  from assms obtain e r ev where e: "resolved = Inr e" "Verify H U stream ob A p configured (leResolved e) = Inr r"
    "lockEvidenceFromVerification r = Inr ev" "entry = e\<lparr>leTrust := Some ev\<rparr>"
    by (auto simp: resolveRepositoryImageWithTrust_def rbind_Inr_iff)
  from verify_sound [OF e(2)] assms(2) have v: "verified H U stream A p rule configured (leResolved e) r" "validSHA256Hex U (pFingerprint p)"
    "vrPolicyFingerprint r = pFingerprint p" "vrVerifierSHA256 r = fpSHA256 (pCosignVerifier p)"
    "trNetworkMode rule \<in> {ImageTrustOnline, ImageTrustOfflineBundle}"
    "trNetworkMode rule = ImageTrustOfflineBundle \<longrightarrow> (\<exists>s. AuthenticateImageTrustTrustedRoot p ob = Inr s)" by auto
  from v(1) obtain q where q: "vqRule q = rule" "CanonicalRepository U configured = Inr (vrRepository r)"
    "splitResolvedImageDigest U (leResolved e) = Inr (vrRepository r, vrDigest r)"
    "trMechanism rule = ImageTrustKey \<longrightarrow> asDigest (vqKey q) = fpSHA256 (trPublicKey rule)" "identity_of q r"
    unfolding verified_def by blast
  from e(3) have f: "teMechanism ev = vrMechanism r" "teRepository ev = vrRepository r" "teDigest ev = vrDigest r" "teSigner ev = vrSigner r"
    "teIssuer ev = vrIssuer r" "teVerifier ev = ImageTrustVerifierCosign" "teVerifierSHA256 ev = vrVerifierSHA256 r"
    "tePolicyFingerprint ev = vrPolicyFingerprint r"
    by (auto simp: lockEvidenceFromVerification_def split: if_splits list.splits)
  let ?re = "\<lparr>reMechanism = teMechanism ev, reRepository = teRepository ev, reDigest = teDigest ev, reSigner = teSigner ev, reIssuer = teIssuer ev,
    reVerifier = teVerifier ev, reVerifierSHA256 = teVerifierSHA256 ev, rePolicyFingerprint = tePolicyFingerprint ev\<rparr>"
  have "evidence_binds U p rule configured (leResolved entry) ?re"
    unfolding evidence_binds_def using q v(2-6) root_pinned f by (auto simp: e(4) identity_of_def)
  moreover have "RuntimeTrustEvidence entry = Some ?re" by (simp add: RuntimeTrustEvidence_def e(4))
  ultimately show ?thesis using e by auto
qed

end
