(* ===== verification/Update_Plan.thy ===== *)
theory Update_Plan
  imports Version_Facts
begin

text \<open>
  The release that a self update takes (\<open>internal/selfupdate/selfupdate.go\<close>), and the two independent
  validations of the plan, before the download (\<open>stage.go\<close>) and before the verification (\<open>verify.go\<close>).
  GitHub is a function from the address to its answer; the decoders of JSON are arguments. Sizes are
  integers, because a decoded size may be negative. \<open>plan_sound\<close> is what both validations accept, and what
  the selection of a release produces.
\<close>

definition apiRoot :: string where
  "apiRoot = ''https://api.github.com/repos/AviBackToBlack/container-bin''"

definition releaseWebRoot :: string where
  "releaseWebRoot = ''https://github.com/AviBackToBlack/container-bin/releases''"

definition maxResponseSize :: nat where "maxResponseSize = 1048576"
definition maxBinarySize :: int where "maxBinarySize = 104857600"
definition maxArchiveSize :: int where "maxArchiveSize = 104857600"
definition maxChecksumSize :: int where "maxChecksumSize = 65536"
definition expectedReleaseRepo :: string where "expectedReleaseRepo = ''AviBackToBlack/container-bin''"
definition expectedReleaseWorkflow :: string where "expectedReleaseWorkflow = ''.github/workflows/release.yml''"

record update_options =
  uoCheck :: bool
  uoApply :: bool
  uoPrerelease :: bool
  uoVersion :: string
  uoAllowDowngrade :: bool
  uoGitHubCLI :: string

record asset =
  asName :: string
  asURL :: string
  asSize :: int

record downgrade_authorization =
  daCurrent :: string
  daTarget :: string

definition checksumLayoutLegacyAMD64 :: nat where "checksumLayoutLegacyAMD64 = 1"
definition checksumLayoutDualArch :: nat where "checksumLayoutDualArch = 2"

record update_plan =
  upCurrent :: string
  upTarget :: string
  upChannel :: string
  upStatus :: string
  upOS :: string
  upArch :: string
  upReleaseURL :: string
  upBinary :: asset
  upArchive :: asset
  upChecksums :: asset
  upExpectedRepo :: string
  upExpectedRef :: string
  upWorkflow :: string
  upDowngrade :: downgrade_authorization
  upLayout :: nat

record release_asset =
  raName :: string
  raBytes :: int
  raURL :: string

record published_release =
  rlTagName :: string
  rlHTMLURL :: string
  rlDraft :: bool
  rlPrerelease :: bool
  rlAssets :: "release_asset list"

datatype option_error =
    Op_Once string
  | Op_Version_Value
  | Op_Gh_Value
  | Op_Unknown string
  | Op_Mode
  | Op_Gh_With_Check
  | Op_Gh_Missing
  | Op_Exclusive
  | Op_Version version_error

datatype query_error =
    Qu_Failed string
  | Qu_Status string int
  | Qu_Read
  | Qu_Too_Large
  | Qu_Decode
  | Qu_Not_Exact string
  | Qu_No_Prerelease
  | Qu_Not_Stable

datatype update_error =
    Up_Current current_error
  | Up_Tag version_error
  | Up_Platform string string
  | Up_Query query_error
  | Up_Older string string
  | Up_Page string
  | Up_Duplicate string
  | Up_Size string
  | Up_URL string
  | Up_Missing string
  | Up_Installed
  | Up_Downgrade
  | Up_Downgrade_Inconsistent
  | Up_Provenance
  | Up_Layout
  | Up_Asset string string
  | Up_Assets

section \<open>Arguments\<close>

definition no_options :: update_options where
  "no_options = \<lparr>uoCheck = False, uoApply = False, uoPrerelease = False, uoVersion = [], uoAllowDowngrade = False, uoGitHubCLI = []\<rparr>"

text \<open>The value after an option that takes one, when the option has none yet.\<close>

definition option_value :: "string \<Rightarrow> string list \<Rightarrow> (string \<times> string list) option" where
  "option_value old rest = (case rest of [] \<Rightarrow> None
     | v # rest' \<Rightarrow> (if old \<noteq> [] \<or> v = [] \<or> has_prefix v ''-'' then None else Some (v, rest')))"

lemma option_value_shorter: "option_value old rest = Some (v, rest') \<Longrightarrow> length rest' < length rest"
  by (auto simp: option_value_def split: list.splits if_splits)

function parse_update_options :: "string list \<Rightarrow> update_options \<Rightarrow> (option_error, update_options) result" where
  "parse_update_options [] opts = Inr opts"
| "parse_update_options (a # rest) opts =
     (if a = ''--check'' then
        (if uoCheck opts then Inl (Op_Once a) else parse_update_options rest (opts\<lparr>uoCheck := True\<rparr>))
      else if a = ''--apply'' then
        (if uoApply opts then Inl (Op_Once a) else parse_update_options rest (opts\<lparr>uoApply := True\<rparr>))
      else if a = ''--prerelease'' then
        (if uoPrerelease opts then Inl (Op_Once a) else parse_update_options rest (opts\<lparr>uoPrerelease := True\<rparr>))
      else if a = ''--version'' then
        (case option_value (uoVersion opts) rest of
           None \<Rightarrow> Inl Op_Version_Value
         | Some (v, rest') \<Rightarrow> parse_update_options rest' (opts\<lparr>uoVersion := v\<rparr>))
      else if a = ''--allow-downgrade'' then
        (if uoAllowDowngrade opts then Inl (Op_Once a) else parse_update_options rest (opts\<lparr>uoAllowDowngrade := True\<rparr>))
      else if a = ''--gh-executable'' then
        (case option_value (uoGitHubCLI opts) rest of
           None \<Rightarrow> Inl Op_Gh_Value
         | Some (v, rest') \<Rightarrow> parse_update_options rest' (opts\<lparr>uoGitHubCLI := v\<rparr>))
      else Inl (Op_Unknown a))"
  by pat_completeness auto
termination
  by (relation "measure (\<lambda>(args, _). length args)") (auto dest: option_value_shorter)

definition ParseArgs :: "string list \<Rightarrow> (option_error, update_options) result" where
  "ParseArgs args = rbind (parse_update_options args no_options) (\<lambda>opts.
     if uoCheck opts = uoApply opts then Inl Op_Mode
     else if uoCheck opts \<and> uoGitHubCLI opts \<noteq> [] then Inl Op_Gh_With_Check
     else if uoApply opts \<and> uoGitHubCLI opts = [] then Inl Op_Gh_Missing
     else if uoPrerelease opts \<and> uoVersion opts \<noteq> [] then Inl Op_Exclusive
     else if uoVersion opts \<noteq> [] then rbind (map_err Op_Version (parseVersion (uoVersion opts))) (\<lambda>_. Inr opts)
     else Inr opts)"

section \<open>The selected release\<close>

record http_answer =
  haStatus :: int
  haBody :: "string option"

definition getJSON :: "(string \<Rightarrow> http_answer option) \<Rightarrow> (string \<Rightarrow> 'a option) \<Rightarrow> string \<Rightarrow> (query_error, 'a) result" where
  "getJSON get decode endpoint = (case get endpoint of
     None \<Rightarrow> Inl (Qu_Failed endpoint)
   | Some answer \<Rightarrow>
     (if haStatus answer \<noteq> 200 then Inl (Qu_Status endpoint (haStatus answer))
      else (case haBody answer of
          None \<Rightarrow> Inl Qu_Read
        | Some content \<Rightarrow>
          (let body = take (maxResponseSize + 1) content in
           if maxResponseSize < length body then Inl Qu_Too_Large
           else (case decode body of None \<Rightarrow> Inl Qu_Decode | Some x \<Rightarrow> Inr x)))))"

text \<open>A candidate of the prerelease channel: published, marked as a prerelease, and with a canonical prerelease tag.\<close>

definition prerelease_candidate :: "published_release \<Rightarrow> (published_release \<times> semanticVersion) option" where
  "prerelease_candidate r = (if rlDraft r \<or> \<not> rlPrerelease r then None
     else (case parseVersion (rlTagName r) of
         Inl _ \<Rightarrow> None
       | Inr v \<Rightarrow> if svPrerelease v = [] then None else Some (r, v)))"

text \<open>
  The first of the candidates sorted by descending version. \<open>sort.Slice\<close> is not stable: of releases
  with equal versions the model takes the first.
\<close>

fun newest :: "published_release \<times> semanticVersion \<Rightarrow> (published_release \<times> semanticVersion) list \<Rightarrow> published_release \<times> semanticVersion" where
  "newest best [] = best"
| "newest best (c # cs) = newest (if 0 < compare (snd c) (snd best) then c else best) cs"

record github =
  ghGet :: "string \<Rightarrow> http_answer option"
  ghRelease :: "string \<Rightarrow> published_release option"
  ghReleases :: "string \<Rightarrow> published_release list option"

definition selectRelease :: "github \<Rightarrow> update_options \<Rightarrow> (query_error, published_release \<times> string) result" where
  "selectRelease G opts =
     (if uoVersion opts \<noteq> [] then
        rbind (getJSON (ghGet G) (ghRelease G) (apiRoot @ ''/releases/tags/'' @ uoVersion opts)) (\<lambda>selected.
          if rlDraft selected \<or> rlTagName selected \<noteq> uoVersion opts then Inl (Qu_Not_Exact (uoVersion opts))
          else Inr (selected, ''exact''))
      else if uoPrerelease opts then
        rbind (getJSON (ghGet G) (ghReleases G) (apiRoot @ ''/releases?per_page=30'')) (\<lambda>releases.
          case List.map_filter prerelease_candidate releases of
            [] \<Rightarrow> Inl Qu_No_Prerelease
          | c # cs \<Rightarrow> Inr (fst (newest c cs), ''prerelease''))
      else
        rbind (getJSON (ghGet G) (ghRelease G) (apiRoot @ ''/releases/latest'')) (\<lambda>selected.
          case parseVersion (rlTagName selected) of
            Inl _ \<Rightarrow> Inl Qu_Not_Stable
          | Inr v \<Rightarrow> (if rlDraft selected \<or> rlPrerelease selected \<or> svPrerelease v \<noteq> [] then Inl Qu_Not_Stable
              else Inr (selected, ''stable''))))"

definition amd64_archive :: "string \<Rightarrow> string" where
  "amd64_archive tag = ''container-bin-'' @ tag @ ''-windows-amd64.zip''"

definition arm64_archive :: "string \<Rightarrow> string" where
  "arm64_archive tag = ''container-bin-'' @ tag @ ''-windows-arm64.zip''"

definition download_url :: "string \<Rightarrow> string \<Rightarrow> string" where
  "download_url tag name = releaseWebRoot @ ''/download/'' @ tag @ ''/'' @ name"

definition wanted_assets :: "string \<Rightarrow> (string, int) gomap" where
  "wanted_assets tag = [(''cb.exe'', maxBinarySize), (amd64_archive tag, maxArchiveSize), (arm64_archive tag, maxArchiveSize),
     (''SHA256SUMS'', maxChecksumSize)]"

text \<open>A round of the loop over the assets; \<open>found\<close> is the map of those found so far.\<close>

definition asset_step :: "string \<Rightarrow> release_asset \<Rightarrow> (string, asset) gomap \<Rightarrow> (update_error, (string, asset) gomap) result" where
  "asset_step tag a found = (case map_of (wanted_assets tag) (raName a) of
     None \<Rightarrow> Inr found
   | Some limit \<Rightarrow>
     (if mhas found (raName a) then Inl (Up_Duplicate (raName a))
      else if raBytes a \<le> 0 \<or> limit < raBytes a then Inl (Up_Size (raName a))
      else if raURL a \<noteq> download_url tag (raName a) then Inl (Up_URL (raName a))
      else Inr (mput (raName a) \<lparr>asName = raName a, asURL = raURL a, asSize = raBytes a\<rparr> found)))"

text \<open>Reading a map of assets at a missing key gives the zero asset.\<close>

definition asset_at :: "(string, asset) gomap \<Rightarrow> string \<Rightarrow> asset" where
  "asset_at found name = (case map_of found name of None \<Rightarrow> \<lparr>asName = [], asURL = [], asSize = 0\<rparr> | Some a \<Rightarrow> a)"

definition validateRelease :: "published_release \<Rightarrow> string \<Rightarrow> (update_error, asset \<times> asset \<times> asset \<times> nat) result" where
  "validateRelease selected goarch =
     rbind (map_err Up_Tag (parseVersion (rlTagName selected))) (\<lambda>v. let tag = svRaw v in
       if rlHTMLURL selected \<noteq> releaseWebRoot @ ''/tag/'' @ tag then Inl (Up_Page (rlHTMLURL selected))
       else
       rbind (fold_result (asset_step tag) (rlAssets selected) []) (\<lambda>found.
       rbind (check_all (\<lambda>name. guard_or (mhas found name) (Up_Missing name)) [''cb.exe'', amd64_archive tag, ''SHA256SUMS'']) (\<lambda>_.
         let layout = (if mhas found (arm64_archive tag) then checksumLayoutDualArch else checksumLayoutLegacyAMD64) in
         if goarch = ''arm64'' \<and> layout \<noteq> checksumLayoutDualArch then Inl (Up_Missing (arm64_archive tag))
         else if goarch = ''arm64'' then
           Inr (asset_at found (arm64_archive tag), asset_at found (arm64_archive tag), asset_at found ''SHA256SUMS'', layout)
         else Inr (asset_at found ''cb.exe'', asset_at found (amd64_archive tag), asset_at found ''SHA256SUMS'', layout))))"

definition no_downgrade :: downgrade_authorization where
  "no_downgrade = \<lparr>daCurrent = [], daTarget = []\<rparr>"

definition releasePlan ::
    "unicode \<Rightarrow> github \<Rightarrow> string \<Rightarrow> string \<Rightarrow> string \<Rightarrow> update_options \<Rightarrow> (update_error, update_plan) result" where
  "releasePlan U G current goos goarch opts =
     rbind (map_err Up_Current (currentVersion U current)) (\<lambda>currentParsed.
       if goos \<noteq> ''windows'' \<or> (goarch \<noteq> ''amd64'' \<and> goarch \<noteq> ''arm64'') then Inl (Up_Platform goos goarch)
       else
       rbind (map_err Up_Query (selectRelease G opts)) (\<lambda>(selected, channel).
       rbind (map_err Up_Tag (parseVersion (rlTagName selected))) (\<lambda>target.
         let comparison = compare currentParsed target in
         if 0 < comparison \<and> \<not> uoAllowDowngrade opts then Inl (Up_Older (svRaw target) (svRaw currentParsed))
         else
         rbind (validateRelease selected goarch) (\<lambda>(binary, archive, checksums, layout).
           Inr \<lparr>upCurrent = svRaw currentParsed, upTarget = svRaw target, upChannel = channel,
             upStatus = (if comparison = 0 then ''CURRENT'' else if 0 < comparison then ''DOWNGRADE AUTHORIZED'' else ''UPDATE AVAILABLE''),
             upOS = goos, upArch = goarch, upReleaseURL = rlHTMLURL selected, upBinary = binary, upArchive = archive,
             upChecksums = checksums, upExpectedRepo = ''AviBackToBlack/container-bin'', upExpectedRef = ''refs/tags/'' @ svRaw target,
             upWorkflow = ''.github/workflows/release.yml'',
             upDowngrade = (if 0 < comparison \<and> uoAllowDowngrade opts
               then \<lparr>daCurrent = svRaw currentParsed, daTarget = svRaw target\<rparr> else no_downgrade),
             upLayout = layout\<rparr>))))"

section \<open>The validation of a plan\<close>

definition check_direction :: "semanticVersion \<Rightarrow> semanticVersion \<Rightarrow> downgrade_authorization \<Rightarrow> (update_error, unit) result" where
  "check_direction current target authorization = (let comparison = compare current target in
     if comparison = 0 then Inl Up_Installed
     else if 0 < comparison \<and> (daCurrent authorization \<noteq> svRaw current \<or> daTarget authorization \<noteq> svRaw target) then Inl Up_Downgrade
     else if comparison < 0 \<and> authorization \<noteq> no_downgrade then Inl Up_Downgrade_Inconsistent
     else Inr ())"

definition validateStagingAsset :: "asset \<Rightarrow> string \<Rightarrow> string \<Rightarrow> int \<Rightarrow> (update_error, unit) result" where
  "validateStagingAsset a name target limit =
     (if asName a \<noteq> name then Inl (Up_Asset name (asName a))
      else if asSize a \<le> 0 \<or> limit < asSize a then Inl (Up_Size name)
      else if asURL a \<noteq> download_url target name then Inl (Up_URL name)
      else Inr ())"

text \<open>The names of the artifact and of the archive, the limit of the artifact, and the layout that the manifest must have.\<close>

definition plan_layout :: "update_plan \<Rightarrow> string \<Rightarrow> string \<times> string \<times> int \<times> nat" where
  "plan_layout plan target =
     (if upArch plan = ''arm64'' then (arm64_archive target, arm64_archive target, maxArchiveSize, checksumLayoutDualArch)
      else (''cb.exe'', amd64_archive target, maxBinarySize,
        if upLayout plan = checksumLayoutDualArch then checksumLayoutDualArch else checksumLayoutLegacyAMD64))"

definition validateStagingPlan :: "unicode \<Rightarrow> update_plan \<Rightarrow> (update_error, unit) result" where
  "validateStagingPlan U plan =
     rbind (map_err Up_Current (currentVersion U (upCurrent plan))) (\<lambda>current.
     rbind (map_err Up_Tag (parseVersion (upTarget plan))) (\<lambda>target.
     rbind (check_direction current target (upDowngrade plan)) (\<lambda>_.
       let tag = svRaw target in
       if upOS plan \<noteq> ''windows'' \<or> (upArch plan \<noteq> ''amd64'' \<and> upArch plan \<noteq> ''arm64'') then Inl (Up_Platform (upOS plan) (upArch plan))
       else if upReleaseURL plan \<noteq> releaseWebRoot @ ''/tag/'' @ tag then Inl (Up_Page (upReleaseURL plan))
       else if upExpectedRepo plan \<noteq> ''AviBackToBlack/container-bin'' \<or> upExpectedRef plan \<noteq> ''refs/tags/'' @ tag
         \<or> upWorkflow plan \<noteq> ''.github/workflows/release.yml'' then Inl Up_Provenance
       else (case plan_layout plan tag of (binaryName, archiveName, binaryLimit, wantLayout) \<Rightarrow>
         if upLayout plan \<noteq> wantLayout then Inl Up_Layout
         else check_all (\<lambda>(a, name, limit). validateStagingAsset a name tag limit)
           [(upBinary plan, binaryName, binaryLimit), (upArchive plan, archiveName, maxArchiveSize),
            (upChecksums plan, ''SHA256SUMS'', maxChecksumSize)]))))"

definition validateVerificationPlan :: "unicode \<Rightarrow> update_plan \<Rightarrow> (update_error, semanticVersion) result" where
  "validateVerificationPlan U plan =
     rbind (map_err Up_Current (currentVersion U (upCurrent plan))) (\<lambda>current.
     rbind (map_err Up_Tag (parseVersion (upTarget plan))) (\<lambda>target.
       let tag = svRaw target in
       if upOS plan \<noteq> ''windows'' \<or> (upArch plan \<noteq> ''amd64'' \<and> upArch plan \<noteq> ''arm64'') then Inl (Up_Platform (upOS plan) (upArch plan))
       else if upExpectedRepo plan \<noteq> expectedReleaseRepo \<or> upExpectedRef plan \<noteq> ''refs/tags/'' @ tag
         \<or> upWorkflow plan \<noteq> expectedReleaseWorkflow then Inl Up_Provenance
       else (case plan_layout plan tag of (binaryName, archiveName, binaryLimit, wantLayout) \<Rightarrow>
         if upLayout plan \<noteq> wantLayout then Inl Up_Layout
         else if asName (upBinary plan) \<noteq> binaryName \<or> asName (upArchive plan) \<noteq> archiveName \<or> asName (upChecksums plan) \<noteq> ''SHA256SUMS''
         then Inl Up_Assets
         else if upReleaseURL plan \<noteq> releaseWebRoot @ ''/tag/'' @ tag \<or> asURL (upBinary plan) \<noteq> download_url tag binaryName
           \<or> asURL (upArchive plan) \<noteq> download_url tag archiveName \<or> asURL (upChecksums plan) \<noteq> download_url tag ''SHA256SUMS''
         then Inl (Up_URL (upReleaseURL plan))
         else if asSize (upBinary plan) \<le> 0 \<or> binaryLimit < asSize (upBinary plan) \<or> asSize (upArchive plan) \<le> 0
           \<or> maxArchiveSize < asSize (upArchive plan) \<or> asSize (upChecksums plan) \<le> 0 \<or> maxChecksumSize < asSize (upChecksums plan)
         then Inl (Up_Size (asName (upBinary plan)))
         else rbind (check_direction current target (upDowngrade plan)) (\<lambda>_. Inr target))))"

section \<open>What a valid plan is\<close>

definition direction_ok :: "semanticVersion \<Rightarrow> semanticVersion \<Rightarrow> downgrade_authorization \<Rightarrow> bool" where
  "direction_ok current target authorization =
     (precedence_of current \<noteq> precedence_of target
      \<and> (if precedence_of current < precedence_of target then authorization = no_downgrade
          else authorization = \<lparr>daCurrent = svRaw current, daTarget = svRaw target\<rparr>))"

definition asset_ok :: "string \<Rightarrow> string \<Rightarrow> int \<Rightarrow> asset \<Rightarrow> bool" where
  "asset_ok tag name limit a = (asName a = name \<and> asURL a = download_url tag name \<and> 0 < asSize a \<and> asSize a \<le> limit)"

definition plan_sound :: "unicode \<Rightarrow> update_plan \<Rightarrow> semanticVersion \<Rightarrow> semanticVersion \<Rightarrow> bool" where
  "plan_sound U plan current target = (currentVersion U (upCurrent plan) = Inr current \<and> parseVersion (upTarget plan) = Inr target
     \<and> direction_ok current target (upDowngrade plan) \<and> upOS plan = ''windows'' \<and> upArch plan \<in> {''amd64'', ''arm64''}
     \<and> upReleaseURL plan = releaseWebRoot @ ''/tag/'' @ svRaw target \<and> upExpectedRepo plan = expectedReleaseRepo
     \<and> upExpectedRef plan = ''refs/tags/'' @ svRaw target \<and> upWorkflow plan = expectedReleaseWorkflow
     \<and> (case plan_layout plan (svRaw target) of (binaryName, archiveName, binaryLimit, wantLayout) \<Rightarrow>
          upLayout plan = wantLayout \<and> asset_ok (svRaw target) binaryName binaryLimit (upBinary plan)
          \<and> asset_ok (svRaw target) archiveName maxArchiveSize (upArchive plan)
          \<and> asset_ok (svRaw target) ''SHA256SUMS'' maxChecksumSize (upChecksums plan)))"

lemma current_version_raw: "currentVersion U raw = Inr v \<Longrightarrow> version_wf v \<and> svRaw v = raw"
  by (auto simp: currentVersion_def rbind_Inr_iff dest: parse_version_wf split: if_splits)

lemma direction_iff:
  assumes "version_wf current" "version_wf target"
  shows "check_direction current target authorization = Inr () \<longleftrightarrow> direction_ok current target authorization"
proof -
  consider "precedence_of current < precedence_of target" | "precedence_of current = precedence_of target"
    | "precedence_of target < precedence_of current" by fastforce
  then show ?thesis
    by cases (cases authorization, auto simp: check_direction_def direction_ok_def compare_precedence [OF assms] Let_def)+
qed

lemma staging_asset_iff: "validateStagingAsset a name tag limit = Inr () \<longleftrightarrow> asset_ok tag name limit a"
  by (auto simp: validateStagingAsset_def asset_ok_def)

text \<open>Both validations begin with the two versions.\<close>

lemma staging_plan_iff: "validateStagingPlan U plan = Inr () \<longleftrightarrow> (\<exists>current target. plan_sound U plan current target)"
proof (cases "\<exists>current target. currentVersion U (upCurrent plan) = Inr current \<and> parseVersion (upTarget plan) = Inr target")
  case False
  then show ?thesis by (auto simp: validateStagingPlan_def plan_sound_def rbind_Inr_iff)
next
  case True
  then obtain current target where v: "currentVersion U (upCurrent plan) = Inr current" "parseVersion (upTarget plan) = Inr target" by blast
  have wf: "version_wf current" "version_wf target" using current_version_raw [OF v(1)] parse_version_wf [OF v(2)] by simp_all
  obtain b a l w where lay: "plan_layout plan (svRaw target) = (b, a, l, w)" by (metis surj_pair)
  have "validateStagingPlan U plan = Inr () \<longleftrightarrow> plan_sound U plan current target"
    by (auto simp: validateStagingPlan_def plan_sound_def v lay Let_def rbind_Inr_iff direction_iff [OF wf] staging_asset_iff
        expectedReleaseRepo_def expectedReleaseWorkflow_def)
  moreover have "plan_sound U plan c t \<Longrightarrow> c = current \<and> t = target" for c t using v by (simp add: plan_sound_def)
  ultimately show ?thesis by blast
qed

lemma verification_plan_iff: "validateVerificationPlan U plan = Inr target \<longleftrightarrow> (\<exists>current. plan_sound U plan current target)"
proof (cases "\<exists>current target'. currentVersion U (upCurrent plan) = Inr current \<and> parseVersion (upTarget plan) = Inr target'")
  case False
  then show ?thesis by (auto simp: validateVerificationPlan_def plan_sound_def rbind_Inr_iff)
next
  case True
  then obtain current t where v: "currentVersion U (upCurrent plan) = Inr current" "parseVersion (upTarget plan) = Inr t" by blast
  have wf: "version_wf current" "version_wf t" using current_version_raw [OF v(1)] parse_version_wf [OF v(2)] by simp_all
  obtain b a l w where lay: "plan_layout plan (svRaw t) = (b, a, l, w)" by (metis surj_pair)
  have "validateVerificationPlan U plan = Inr t \<longleftrightarrow> plan_sound U plan current t"
    by (auto simp: validateVerificationPlan_def plan_sound_def v lay Let_def rbind_Inr_iff direction_iff [OF wf] asset_ok_def)
  moreover have "validateVerificationPlan U plan = Inr target \<Longrightarrow> target = t"
    by (auto simp: validateVerificationPlan_def v lay Let_def rbind_Inr_iff split: if_splits)
  moreover have "plan_sound U plan c x \<Longrightarrow> c = current \<and> x = t" for c x using v by (simp add: plan_sound_def)
  ultimately show ?thesis by blast
qed

section \<open>The plan of a release\<close>

text \<open>What the loop over the assets keeps: every asset found is a wanted one.\<close>

definition found_ok :: "string \<Rightarrow> (string, asset) gomap \<Rightarrow> bool" where
  "found_ok tag found = (\<forall>name a. map_of found name = Some a \<longrightarrow>
     (\<exists>limit. map_of (wanted_assets tag) name = Some limit \<and> asset_ok tag name limit a))"

lemma asset_step_ok: "asset_step tag a found = Inr found' \<Longrightarrow> found_ok tag found \<Longrightarrow> found_ok tag found'"
  by (auto simp: asset_step_def found_ok_def asset_ok_def split: option.splits if_splits)

lemma assets_found_ok:
  assumes "fold_result (asset_step tag) assets [] = Inr found"
  shows "found_ok tag found"
  by (rule fold_result_invariant [OF assms]) (simp add: found_ok_def, erule asset_step_ok, assumption)

lemma found_asset:
  assumes "found_ok tag found" "mhas found name" "map_of (wanted_assets tag) name = Some limit"
  shows "asset_ok tag name limit (asset_at found name)"
  using assms by (fastforce simp: found_ok_def asset_at_def mhas_iff_map_of)

lemma wanted_limits:
  "map_of (wanted_assets tag) ''cb.exe'' = Some maxBinarySize"
  "map_of (wanted_assets tag) (amd64_archive tag) = Some maxArchiveSize"
  "map_of (wanted_assets tag) (arm64_archive tag) = Some maxArchiveSize"
  "map_of (wanted_assets tag) ''SHA256SUMS'' = Some maxChecksumSize"
  by (auto simp: wanted_assets_def amd64_archive_def arm64_archive_def)

lemma validate_release_ok:
  assumes "validateRelease selected goarch = Inr (binary, archive, checksums, layout)" "parseVersion (rlTagName selected) = Inr target"
    and "upLayout plan = layout" "upArch plan = goarch"
  shows "rlHTMLURL selected = releaseWebRoot @ ''/tag/'' @ svRaw target"
    "case plan_layout plan (svRaw target) of (binaryName, archiveName, binaryLimit, wantLayout) \<Rightarrow>
       layout = wantLayout \<and> asset_ok (svRaw target) binaryName binaryLimit binary
       \<and> asset_ok (svRaw target) archiveName maxArchiveSize archive \<and> asset_ok (svRaw target) ''SHA256SUMS'' maxChecksumSize checksums"
proof -
  let ?t = "svRaw target"
  from assms(1,2) obtain found where f: "rlHTMLURL selected = releaseWebRoot @ ''/tag/'' @ ?t"
    "fold_result (asset_step ?t) (rlAssets selected) [] = Inr found"
    "mhas found ''cb.exe''" "mhas found (amd64_archive ?t)" "mhas found ''SHA256SUMS''"
    and r: "(if mhas found (arm64_archive ?t) then checksumLayoutDualArch else checksumLayoutLegacyAMD64) = layout"
      "goarch = ''arm64'' \<longrightarrow> layout = checksumLayoutDualArch"
      "(binary, archive, checksums) = (if goarch = ''arm64'' then (asset_at found (arm64_archive ?t), asset_at found (arm64_archive ?t), asset_at found ''SHA256SUMS'')
        else (asset_at found ''cb.exe'', asset_at found (amd64_archive ?t), asset_at found ''SHA256SUMS''))"
    by (fastforce simp: validateRelease_def rbind_Inr_iff Let_def split: if_splits)
  note ok = found_asset [OF assets_found_ok [OF f(2)]]
  show "rlHTMLURL selected = releaseWebRoot @ ''/tag/'' @ ?t" by (rule f(1))
  have l: "checksumLayoutLegacyAMD64 \<noteq> checksumLayoutDualArch" by (simp add: checksumLayoutLegacyAMD64_def checksumLayoutDualArch_def)
  show "case plan_layout plan ?t of (binaryName, archiveName, binaryLimit, wantLayout) \<Rightarrow>
       layout = wantLayout \<and> asset_ok ?t binaryName binaryLimit binary
       \<and> asset_ok ?t archiveName maxArchiveSize archive \<and> asset_ok ?t ''SHA256SUMS'' maxChecksumSize checksums"
  proof (cases "goarch = ''arm64''")
    case True
    then have "mhas found (arm64_archive ?t)" using r(1,2) l by (auto split: if_splits)
    with True r ok f(3-5) wanted_limits [of ?t] show ?thesis by (simp add: plan_layout_def assms(3,4))
  next
    case False
    with r ok f(3-5) wanted_limits [of ?t] show ?thesis by (auto simp: plan_layout_def assms(3,4) split: if_splits)
  qed
qed

lemma release_plan_sound:
  assumes "releasePlan U G current goos goarch opts = Inr plan"
  shows "\<exists>c t. currentVersion U current = Inr c \<and> parseVersion (upTarget plan) = Inr t \<and> upCurrent plan = current \<and> upOS plan = goos \<and> upArch plan = goarch
    \<and> (upStatus plan = ''CURRENT'' \<longleftrightarrow> upTarget plan = current)
    \<and> (upTarget plan \<noteq> current \<longrightarrow> plan_sound U plan c t)
    \<and> (precedence_of t < precedence_of c \<longrightarrow> uoAllowDowngrade opts)"
proof -
  from assms obtain c selected channel t binary archive checksums layout where
    v: "currentVersion U current = Inr c" "parseVersion (rlTagName selected) = Inr t" and
    h: "goos = ''windows''" "goarch = ''amd64'' \<or> goarch = ''arm64''" and
    d: "0 < compare c t \<longrightarrow> uoAllowDowngrade opts" and
    r: "validateRelease selected goarch = Inr (binary, archive, checksums, layout)" and
    p: "plan = \<lparr>upCurrent = svRaw c, upTarget = svRaw t, upChannel = channel,
             upStatus = (if compare c t = 0 then ''CURRENT'' else if 0 < compare c t then ''DOWNGRADE AUTHORIZED'' else ''UPDATE AVAILABLE''),
             upOS = goos, upArch = goarch, upReleaseURL = rlHTMLURL selected, upBinary = binary, upArchive = archive,
             upChecksums = checksums, upExpectedRepo = ''AviBackToBlack/container-bin'', upExpectedRef = ''refs/tags/'' @ svRaw t,
             upWorkflow = ''.github/workflows/release.yml'',
             upDowngrade = (if 0 < compare c t \<and> uoAllowDowngrade opts
               then \<lparr>daCurrent = svRaw c, daTarget = svRaw t\<rparr> else no_downgrade),
             upLayout = layout\<rparr>"
    unfolding releasePlan_def rbind_Inr_iff Let_def by (auto simp: rbind_Inr_iff split: if_splits)
  have wf: "version_wf c" "svRaw c = current" "version_wf t" "svRaw t = rlTagName selected"
    using current_version_raw [OF v(1)] parse_version_wf [OF v(2)] by simp_all
  note cmp = compare_precedence [OF wf(1,3)]
  have eq: "compare c t = 0 \<longleftrightarrow> svRaw t = current"
  proof
    assume "compare c t = 0"
    then have "precedence_of c = precedence_of t" by (simp add: cmp split: if_splits)
    then show "svRaw t = current" using precedence_inj [OF wf(1,3)] wf(2) by simp
  next
    assume "svRaw t = current"
    then have "parseVersion current = Inr t" using v(2) wf(4) by simp
    then have "c = t" using v(1) by (auto simp: currentVersion_def rbind_Inr_iff split: if_splits)
    then show "compare c t = 0" using compare_precedence [OF wf(1) wf(1)] by simp
  qed
  have tt: "parseVersion (upTarget plan) = Inr t" using v(2) wf(4) by (simp add: p)
  have s: "plan_sound U plan c t" if "svRaw t \<noteq> current"
  proof -
    have "compare c t \<noteq> 0" using eq that by simp
    then have "direction_ok c t (upDowngrade plan)" using d by (auto simp: p direction_ok_def cmp split: if_splits)
    moreover have "upLayout plan = layout" "upArch plan = goarch" "upBinary plan = binary" "upArchive plan = archive"
      "upChecksums plan = checksums" "upReleaseURL plan = rlHTMLURL selected" "currentVersion U (upCurrent plan) = Inr c"
      "upOS plan = goos" "upExpectedRepo plan = expectedReleaseRepo" "upExpectedRef plan = ''refs/tags/'' @ svRaw t"
      "upWorkflow plan = expectedReleaseWorkflow"
      using v(1) wf(2) by (simp_all add: p expectedReleaseRepo_def expectedReleaseWorkflow_def)
    ultimately show ?thesis using validate_release_ok [OF r v(2), of plan] tt h by (auto simp: plan_sound_def)
  qed
  show ?thesis using v(1) tt eq s d cmp wf(2) by (intro exI [of _ c] exI [of _ t]) (auto simp: p split: if_splits)
qed

section \<open>The newest prerelease\<close>

lemma newest_maximal:
  assumes "version_wf (snd best)" "\<forall>c \<in> set cs. version_wf (snd c)"
  shows "newest best cs \<in> set (best # cs)
    \<and> (\<forall>c \<in> set (best # cs). precedence_of (snd c) \<le> precedence_of (snd (newest best cs)))"
  using assms
proof (induction cs arbitrary: best)
  case (Cons c cs)
  let ?b = "if 0 < compare (snd c) (snd best) then c else best"
  have b: "?b \<in> {best, c}" "precedence_of (snd best) \<le> precedence_of (snd ?b)" "precedence_of (snd c) \<le> precedence_of (snd ?b)"
    using Cons.prems by (auto simp: compare_precedence)
  then have "version_wf (snd ?b)" using Cons.prems by auto
  note ih = Cons.IH [OF this] Cons.prems
  have i: "newest ?b cs \<in> set (?b # cs)" "\<forall>x \<in> set (?b # cs). precedence_of (snd x) \<le> precedence_of (snd (newest ?b cs))"
    using ih by auto
  then have "precedence_of (snd ?b) \<le> precedence_of (snd (newest ?b cs))" by simp
  with b i show ?case unfolding newest.simps by (auto split: if_splits)
qed simp

end
