(* ===== verification/Update_Verify.thy ===== *)
theory Update_Verify
  imports Update_Plan Host_Paths Platform Go_Sha256 Image_Ref
begin

text \<open>
  Staging and verification of a release (\<open>internal/selfupdate/stage.go\<close> and \<open>verify.go\<close>). The file system is
  observed: \<open>file_look\<close> is what the calls on a path answer at one time, and every call of the code that
  looks has a time of its own, so nothing is assumed to stay as it was. HTTP, the signature of the
  GitHub CLI, its answer, JSON and zip are fields of records.
\<close>

section \<open>Files\<close>

text \<open>\<open>Lstat\<close>, \<open>EvalSymlinks\<close> made absolute, \<open>Stat\<close>, the file once opened and what reading it gives.\<close>

record file_look =
  lkInfo :: "file_info io"
  lkResolved :: "string option"
  lkStat :: "file_info option"
  lkOpened :: "file_info option"
  lkContents :: "string option"

type_synonym looks = "string \<Rightarrow> file_look"

datatype file_error = Fe_Path | Fe_Inspect | Fe_Irregular | Fe_Resolve | Fe_Stat | Fe_Target | Fe_Open | Fe_Before | Fe_Read | Fe_Size

definition canonicalVerificationFile :: "host_paths \<Rightarrow> looks \<Rightarrow> string \<Rightarrow> (file_error, string \<times> file_info) result" where
  "canonicalVerificationFile H L path =
     (if \<not> hpIsAbs H path then Inl Fe_Path
      else (let clean = hpClean H path in case lkInfo (L clean) of
          Got info \<Rightarrow>
            (if fiSymlink info \<or> \<not> fiRegular info then Inl Fe_Irregular
             else (case lkResolved (L clean) of
                 None \<Rightarrow> Inl Fe_Resolve
               | Some resolved \<Rightarrow>
                 (case lkStat (L resolved) of
                    None \<Rightarrow> Inl Fe_Stat
                  | Some target \<Rightarrow> (if fiRegular target then Inr (resolved, target) else Inl Fe_Target))))
        | _ \<Rightarrow> Inl Fe_Inspect))"

definition canonicalApplyFile :: "host_paths \<Rightarrow> looks \<Rightarrow> string \<Rightarrow> (file_error, string \<times> file_info) result" where
  "canonicalApplyFile H L path =
     (if \<not> hpIsAbs H path \<or> hpClean H path \<noteq> path then Inl Fe_Path
      else (case lkInfo (L path) of
          Got info \<Rightarrow>
            (if fiSymlink info \<or> \<not> fiRegular info then Inl Fe_Irregular
             else (case lkResolved (L path) of
                 None \<Rightarrow> Inl Fe_Resolve
               | Some resolved \<Rightarrow>
                 (case lkStat (L resolved) of
                    None \<Rightarrow> Inl Fe_Stat
                  | Some target \<Rightarrow> (if fiRegular target \<and> same_file info target then Inr (resolved, target) else Inl Fe_Target))))
        | _ \<Rightarrow> Inl Fe_Inspect))"

definition hashRegularFile :: "looks \<Rightarrow> string \<Rightarrow> file_info \<Rightarrow> (file_error, string \<times> nat) result" where
  "hashRegularFile L path expected = (case lkOpened (L path) of
     None \<Rightarrow> Inl Fe_Open
   | Some opened \<Rightarrow>
     (if \<not> same_file expected opened \<or> \<not> fiRegular opened then Inl Fe_Before
      else (case lkContents (L path) of
          None \<Rightarrow> Inl Fe_Read
        | Some content \<Rightarrow>
          (if length content \<noteq> fiSize expected \<or> length content \<noteq> fiSize opened then Inl Fe_Size
           else Inr (hex_encode (Sum256 content), length content)))))"

definition readExactVerificationFile :: "looks \<Rightarrow> string \<Rightarrow> file_info \<Rightarrow> (file_error, string) result" where
  "readExactVerificationFile L path expected = (case lkOpened (L path) of
     None \<Rightarrow> Inl Fe_Open
   | Some opened \<Rightarrow>
     (if \<not> same_file expected opened \<or> \<not> fiRegular opened then Inl Fe_Before
      else (case lkContents (L path) of
          None \<Rightarrow> Inl Fe_Read
        | Some content \<Rightarrow>
          (let data = take (nat maxChecksumSize + 1) content in
           if length data \<noteq> fiSize expected \<or> maxChecksumSize < int (length data) then Inl Fe_Size else Inr data))))"

section \<open>The download\<close>

definition stagingPrefix :: string where "stagingPrefix = ''.container-bin-update-''"
definition releaseAssetCDNHost :: string where "releaseAssetCDNHost = ''release-assets.githubusercontent.com''"

text \<open>A parsed address with its escaped path and its text.\<close>

record located_url = url +
  luPath :: string
  luText :: string

definition isCanonicalReleaseAssetURL :: "located_url \<Rightarrow> bool" where
  "isCanonicalReleaseAssetURL u = (uScheme u = ''https'' \<and> uHost u = ''github.com'' \<and> \<not> uHasUser u \<and> uRawQuery u = [] \<and> uFragment u = []
     \<and> has_prefix (luPath u) ''/AviBackToBlack/container-bin/releases/download/'')"

definition isReleaseAssetCDNURL :: "located_url \<Rightarrow> bool" where
  "isReleaseAssetCDNURL u = (uScheme u = ''https'' \<and> uHost u = releaseAssetCDNHost \<and> \<not> uHasUser u \<and> uFragment u = []
     \<and> has_prefix (luPath u) ''/github-production-release-asset/'' \<and> uRawQuery u \<noteq> [])"

definition isPermittedFinalURL :: "located_url \<Rightarrow> string \<Rightarrow> bool" where
  "isPermittedFinalURL u canonical = (luText u = canonical \<or> isReleaseAssetCDNURL u)"

text \<open>\<open>CheckRedirect\<close> of the client: \<open>via\<close> are the requests so far.\<close>

definition redirect_permitted :: "located_url list \<Rightarrow> located_url \<Rightarrow> bool" where
  "redirect_permitted via target = (length via = 1 \<and> isCanonicalReleaseAssetURL (via ! 0) \<and> isReleaseAssetCDNURL target)"

record download_answer =
  dnFinal :: "located_url option"
  dnStatus :: int
  dnContentRange :: string
  dnLength :: int
  dnBody :: string
  dnCreated :: bool
  dnWritten :: bool
  dnClosed :: bool
  dnRestricted :: bool

datatype stage_error =
    Sg_Plan update_error
  | Sg_Installed file_error
  | Sg_Directory
  | Sg_Restrict
  | Sg_Request string
  | Sg_Flow string
  | Sg_Status string int
  | Sg_Partial string
  | Sg_Length string int
  | Sg_Create string
  | Sg_Write string
  | Sg_Close string
  | Sg_Restrict_File string
  | Sg_Truncated string
  | Sg_Exceeded string
  | Sg_Layout
  | Sg_Remove

text \<open>The bytes that the destination holds after a download without error; \<open>None\<close> is a request without a response.\<close>

definition download :: "download_answer option \<Rightarrow> asset \<Rightarrow> (stage_error, string) result" where
  "download answer a = (case answer of
     None \<Rightarrow> Inl (Sg_Request (asName a))
   | Some r \<Rightarrow>
     (if (case dnFinal r of None \<Rightarrow> True | Some u \<Rightarrow> \<not> isPermittedFinalURL u (asURL a)) then Inl (Sg_Flow (asName a))
      else if dnStatus r \<noteq> 200 then Inl (Sg_Status (asName a) (dnStatus r))
      else if dnContentRange r \<noteq> [] then Inl (Sg_Partial (asName a))
      else if 0 \<le> dnLength r \<and> dnLength r \<noteq> asSize a then Inl (Sg_Length (asName a) (dnLength r))
      else if \<not> dnCreated r then Inl (Sg_Create (asName a))
      else if \<not> dnWritten r then Inl (Sg_Write (asName a))
      else if \<not> dnClosed r then Inl (Sg_Close (asName a))
      else if \<not> dnRestricted r then Inl (Sg_Restrict_File (asName a))
      else (let content = take (nat (asSize a + 1)) (dnBody r) in
        if int (length content) < asSize a then Inl (Sg_Truncated (asName a))
        else if asSize a < int (length content) then Inl (Sg_Exceeded (asName a))
        else Inr content)))"

definition canonicalInstalledExecutableDir :: "host_paths \<Rightarrow> looks \<Rightarrow> string \<Rightarrow> (file_error, string) result" where
  "canonicalInstalledExecutableDir H L path = rbind (canonicalVerificationFile H L path) (\<lambda>(resolved, _). Inr (hpDir H resolved))"

section \<open>Staging\<close>

record staged =
  sgDir :: string
  sgBinaryPath :: string
  sgChecksumsPath :: string
  sgTarget :: string
  sgOwned :: bool

text \<open>\<open>MkdirTemp\<close> below a directory, the restriction of the new directory, the answers of the server, and the removal.\<close>

record stage_answers =
  saDirectory :: "string \<Rightarrow> string option"
  saRestricted :: bool
  saAnswer :: "string \<Rightarrow> download_answer option"
  saRemoved :: bool

text \<open>The changes of the file system, in order: a directory is made, a file is written completely, a directory is removed.\<close>

datatype stage_effect = Made_Stage string | Staged_File string string | Removed_Stage string

definition stage_files :: "host_paths \<Rightarrow> stage_answers \<Rightarrow> update_plan \<Rightarrow> string \<Rightarrow> stage_effect list \<times> (stage_error, staged) result" where
  "stage_files H A plan dir =
     (let binaryPath = hpJoin H dir (asName (upBinary plan)); checksumsPath = hpJoin H dir (asName (upChecksums plan)) in
      if \<not> saRestricted A then ([], Inl Sg_Restrict)
      else (case download (saAnswer A (asURL (upChecksums plan))) (upChecksums plan) of
          Inl e \<Rightarrow> ([], Inl e)
        | Inr manifest \<Rightarrow>
          (case download (saAnswer A (asURL (upBinary plan))) (upBinary plan) of
             Inl e \<Rightarrow> ([Staged_File checksumsPath manifest], Inl e)
           | Inr binary \<Rightarrow> ([Staged_File checksumsPath manifest, Staged_File binaryPath binary],
               Inr \<lparr>sgDir = dir, sgBinaryPath = binaryPath, sgChecksumsPath = checksumsPath, sgTarget = upTarget plan, sgOwned = True\<rparr>))))"

definition Stage :: "unicode \<Rightarrow> host_paths \<Rightarrow> looks \<Rightarrow> stage_answers \<Rightarrow> update_plan \<Rightarrow> string \<Rightarrow> stage_effect list \<times> (stage_error, staged) result" where
  "Stage U H L A plan installed =
     (case rbind (map_err Sg_Plan (validateStagingPlan U plan)) (\<lambda>_. map_err Sg_Installed (canonicalInstalledExecutableDir H L installed)) of
        Inl e \<Rightarrow> ([], Inl e)
      | Inr destinationDir \<Rightarrow>
        (case saDirectory A destinationDir of
           None \<Rightarrow> ([], Inl Sg_Directory)
         | Some dir \<Rightarrow>
           (case stage_files H A plan dir of
              (effects, Inr staged) \<Rightarrow> (Made_Stage dir # effects, Inr staged)
            | (effects, Inl e) \<Rightarrow> (Made_Stage dir # effects @ (if saRemoved A then [Removed_Stage dir] else []), Inl e))))"

definition Cleanup :: "host_paths \<Rightarrow> bool \<Rightarrow> staged \<Rightarrow> stage_effect list \<times> (stage_error, unit) result" where
  "Cleanup H removed s =
     (if sgDir s = [] then ([], Inr ())
      else (let dir = hpClean H (sgDir s); binaryName = hpBase H (hpClean H (sgBinaryPath s)) in
        if \<not> sgOwned s \<or> \<not> hpIsAbs H dir \<or> \<not> has_prefix (hpBase H dir) stagingPrefix
          \<or> \<not> (binaryName = ''cb.exe'' \<or> binaryName = arm64_archive (sgTarget s))
          \<or> hpClean H (sgBinaryPath s) \<noteq> hpJoin H dir binaryName \<or> hpClean H (sgChecksumsPath s) \<noteq> hpJoin H dir ''SHA256SUMS''
        then ([], Inl Sg_Layout)
        else if removed then ([Removed_Stage dir], Inr ()) else ([], Inl Sg_Remove)))"

section \<open>The checksum manifest\<close>

datatype manifest_error =
    Mf_Lines
  | Mf_Target version_error
  | Mf_Layout
  | Mf_Entry
  | Mf_Digest
  | Mf_Unexpected string
  | Mf_Duplicate string
  | Mf_Mismatch
  | Mf_Missing string

definition checksumManifestNames :: "update_plan \<Rightarrow> (manifest_error, string list) result" where
  "checksumManifestNames plan = rbind (map_err Mf_Target (parseVersion (upTarget plan))) (\<lambda>target.
     if upLayout plan = checksumLayoutLegacyAMD64 then Inr [''cb.exe'', amd64_archive (svRaw target)]
     else if upLayout plan = checksumLayoutDualArch then
       Inr [''cb.exe'', amd64_archive (svRaw target), arm64_archive (svRaw target)]
     else Inl Mf_Layout)"

text \<open>A round of the loop over the lines; \<open>seen\<close> are the names marked so far.\<close>

definition manifest_step :: "unicode \<Rightarrow> string list \<Rightarrow> string \<Rightarrow> string \<Rightarrow> string \<Rightarrow> string list \<Rightarrow> (manifest_error, string list) result" where
  "manifest_step U names binaryName binaryDigest line seen =
     (if length line < 66 \<or> take 2 (drop 64 line) \<noteq> ''  '' then Inl Mf_Entry
      else (let digest = take 64 line; name = drop 66 line in
        if \<not> validSHA256Hex U digest then Inl Mf_Digest
        else if name \<notin> set names then Inl (Mf_Unexpected name)
        else if name \<in> set seen then Inl (Mf_Duplicate name)
        else if name = binaryName \<and> digest \<noteq> binaryDigest then Inl Mf_Mismatch
        else Inr (name # seen)))"

definition verifyChecksumManifest :: "unicode \<Rightarrow> string \<Rightarrow> update_plan \<Rightarrow> string \<Rightarrow> (manifest_error, unit) result" where
  "verifyChecksumManifest U data plan binaryDigest =
     (if data = [] \<or> last data \<noteq> CHR 0x0A \<or> CHR 0x0D \<in> set data then Inl Mf_Lines
      else rbind (checksumManifestNames plan) (\<lambda>names.
           rbind (fold_result (manifest_step U names (asName (upBinary plan)) binaryDigest)
               (split_byte (trim_suffix data [CHR 0x0A]) CHR 0x0A) []) (\<lambda>seen.
             check_all (\<lambda>name. guard_or (name \<in> set seen) (Mf_Missing name)) names)))"

section \<open>The attestation\<close>

definition provenancePredicate :: string where "provenancePredicate = ''https://slsa.dev/provenance/v1''"
definition maxAttestationOutput :: nat where "maxAttestationOutput = 1048576"

definition attestation_args :: "update_plan \<Rightarrow> string \<Rightarrow> string list" where
  "attestation_args plan binaryPath =
     [''attestation'', ''verify'', binaryPath, ''--hostname'', ''github.com'', ''--repo'', upExpectedRepo plan,
      ''--cert-identity'', ''https://github.com/'' @ upExpectedRepo plan @ ''/'' @ upWorkflow plan @ ''@'' @ upExpectedRef plan,
      ''--source-ref'', upExpectedRef plan, ''--cert-oidc-issuer'', ''https://token.actions.githubusercontent.com'',
      ''--digest-alg'', ''sha256'', ''--predicate-type'', provenancePredicate, ''--format'', ''json'']"

datatype attestation_error = At_Output | At_Parse | At_None | At_Predicate | At_Subject | At_Trailing

text \<open>The digests of a subject by algorithm.\<close>

record attestation =
  atPredicate :: string
  atSubjects :: "(string, string) gomap list"

definition subject_covers :: "string \<Rightarrow> (string, string) gomap \<Rightarrow> bool" where
  "subject_covers digest subject = ((case map_of subject ''sha256'' of None \<Rightarrow> [] | Some d \<Rightarrow> d) = digest)"

text \<open>\<open>decode\<close> gives the first value of the output, and whether the output ends after it.\<close>

definition validateAttestationResult :: "(string \<Rightarrow> (attestation list \<times> bool) option) \<Rightarrow> string \<Rightarrow> string \<Rightarrow> (attestation_error, unit) result" where
  "validateAttestationResult decode data digest =
     (if data = [] \<or> maxAttestationOutput < length data then Inl At_Output
      else (case decode data of
          None \<Rightarrow> Inl At_Parse
        | Some (results, ends) \<Rightarrow>
          (if results = [] then Inl At_None
           else rbind (check_all (\<lambda>r. if atPredicate r \<noteq> provenancePredicate then Inl At_Predicate
               else if \<not> list_ex (subject_covers digest) (atSubjects r) then Inl At_Subject else Inr ()) results) (\<lambda>_.
             if ends then Inr () else Inl At_Trailing))))"

section \<open>The archive\<close>

text \<open>An entry: flag bits, method, whether its mode is regular, its size, and what each opening of it reads.\<close>

record zip_member =
  zmName :: string
  zmFlags :: nat
  zmMethod :: nat
  zmRegular :: bool
  zmSize :: nat
  zmData :: "nat \<Rightarrow> string option"

datatype extract_error =
    Ex_Open
  | Ex_Before
  | Ex_Zip
  | Ex_Unexpected string
  | Ex_Duplicate string
  | Ex_Unsafe string
  | Ex_Large
  | Ex_Missing
  | Ex_Binary_Size
  | Ex_Read
  | Ex_Read_Size
  | Ex_File file_error
  | Ex_Differs
  | Ex_Changed
  | Ex_Inspect
  | Ex_Create
  | Ex_Write
  | Ex_Restrict

definition archive_names :: "string list" where
  "archive_names = [''cb.exe'', ''LICENSE'', ''README.md'']"

definition member_step :: "zip_member \<Rightarrow> (string, zip_member) gomap \<times> nat \<Rightarrow> (extract_error, (string, zip_member) gomap \<times> nat) result" where
  "member_step z st = (case st of (wanted, sum_sizes) \<Rightarrow>
     if zmName z \<notin> set archive_names then Inl (Ex_Unexpected (zmName z))
     else if mhas wanted (zmName z) then Inl (Ex_Duplicate (zmName z))
     else if odd (zmFlags z) \<or> (zmMethod z \<noteq> 0 \<and> zmMethod z \<noteq> 8) \<or> \<not> zmRegular z then Inl (Ex_Unsafe (zmName z))
     else if nat maxArchiveSize < zmSize z \<or> nat maxArchiveSize - zmSize z < sum_sizes then Inl Ex_Large
     else Inr (mput (zmName z) z wanted, sum_sizes + zmSize z))"

definition archive_binary :: "zip_member list \<Rightarrow> (extract_error, zip_member) result" where
  "archive_binary members = rbind (fold_result member_step members ([], 0)) (\<lambda>(wanted, sum_sizes).
     if \<not> list_all (mhas wanted) archive_names then Inl Ex_Missing
     else (case map_of wanted ''cb.exe'' of
         None \<Rightarrow> Inl Ex_Missing
       | Some binary \<Rightarrow> (if zmSize binary = 0 \<or> nat maxBinarySize < zmSize binary then Inl Ex_Binary_Size else Inr binary)))"

definition hashArchiveExecutable :: "zip_member \<Rightarrow> (extract_error, string \<times> nat) result" where
  "hashArchiveExecutable z = (case zmData z 0 of
     None \<Rightarrow> Inl Ex_Read
   | Some content \<Rightarrow>
     (let read = take (nat maxBinarySize + 1) content in
      if length read \<noteq> zmSize z then Inl Ex_Read_Size else Inr (hex_encode (Sum256 read), length read)))"

text \<open>What the extraction meets: \<open>xaExisting\<close> is \<open>Lstat\<close> of the destination.\<close>

record extract_answers =
  xaZip :: "string \<Rightarrow> zip_member list option"
  xaExisting :: "file_info io"
  xaCreated :: bool
  xaWritten :: bool
  xaRestricted :: bool

text \<open>A file at its canonical path, with its digest and its size; the two steps are separate looks.\<close>

definition digest_of_file :: "host_paths \<Rightarrow> (nat \<Rightarrow> looks) \<Rightarrow> nat \<Rightarrow> string \<Rightarrow> (file_error, string \<times> string \<times> nat) result" where
  "digest_of_file H W n path = rbind (canonicalVerificationFile H (W n) path) (\<lambda>(clean, info).
     rbind (hashRegularFile (W (n + 1)) clean info) (\<lambda>(digest, bytes). Inr (clean, digest, bytes)))"

definition extractVerifiedExecutable ::
    "host_paths \<Rightarrow> (nat \<Rightarrow> looks) \<Rightarrow> extract_answers \<Rightarrow> string \<Rightarrow> file_info \<Rightarrow> (extract_error, string \<times> string \<times> nat) result" where
  "extractVerifiedExecutable H W A archivePath expected = (case lkOpened (W 0 archivePath) of
     None \<Rightarrow> Inl Ex_Open
   | Some opened \<Rightarrow>
     (if \<not> same_file expected opened \<or> \<not> fiRegular opened \<or> fiSize opened = 0 \<or> nat maxArchiveSize < fiSize opened then Inl Ex_Before
      else (case Option.bind (lkContents (W 0 archivePath)) (xaZip A) of
          None \<Rightarrow> Inl Ex_Zip
        | Some members \<Rightarrow>
          rbind (archive_binary members) (\<lambda>binary.
          let destination = hpJoin H (hpDir H archivePath) ''cb.exe'' in
          rbind (hashArchiveExecutable binary) (\<lambda>(expectedDigest, expectedSize).
            case xaExisting A of
              Failed \<Rightarrow> Inl Ex_Inspect
            | Got _ \<Rightarrow>
              rbind (map_err Ex_File (digest_of_file H W 1 destination)) (\<lambda>(clean, digest, bytes).
                if digest \<noteq> expectedDigest \<or> bytes \<noteq> expectedSize then Inl Ex_Differs
                else if \<not> xaRestricted A then Inl Ex_Restrict
                else (case digest_of_file H W 3 clean of
                    Inl _ \<Rightarrow> Inl Ex_Changed
                  | Inr (postClean, postDigest, postSize) \<Rightarrow>
                    (if postClean \<noteq> clean \<or> postDigest \<noteq> expectedDigest \<or> postSize \<noteq> expectedSize then Inl Ex_Changed
                     else Inr (clean, digest, bytes))))
            | Absent \<Rightarrow>
              (case zmData binary 1 of
                 None \<Rightarrow> Inl Ex_Read
               | Some content \<Rightarrow>
                 (if \<not> xaCreated A then Inl Ex_Create
                  else if \<not> xaWritten A then Inl Ex_Write
                  else if length (take (nat maxBinarySize + 1) content) \<noteq> zmSize binary then Inl Ex_Read_Size
                  else if \<not> xaRestricted A then Inl Ex_Restrict
                  else rbind (map_err Ex_File (digest_of_file H W 1 destination)) (\<lambda>(clean, digest, bytes).
                    if digest \<noteq> expectedDigest \<or> bytes \<noteq> expectedSize then Inl Ex_Differs
                    else Inr (clean, digest, bytes)))))))))"

section \<open>The installed executable\<close>

datatype installed_error =
    In_File file_error
  | In_Name string
  | In_Size nat
  | In_Version
  | In_Changed

record installed_identity =
  iiPath :: string
  iiVersion :: string
  iiDigest :: string
  iiSize :: nat

text \<open>The smoke test runs \<open>version\<close>; \<open>output\<close> is what it prints, \<open>None\<close> when it fails or times out.\<close>

definition smokeUpdatedBinary :: "string option \<Rightarrow> string \<Rightarrow> bool" where
  "smokeUpdatedBinary output target = (output = Some (''container-bin '' @ target @ [CHR 0x0A]))"

definition bindInstalledExecutable ::
    "unicode \<Rightarrow> host_paths \<Rightarrow> (nat \<Rightarrow> looks) \<Rightarrow> string option \<Rightarrow> string \<Rightarrow> string \<Rightarrow> (installed_error, installed_identity) result" where
  "bindInstalledExecutable U H W output path version =
     rbind (map_err In_File (canonicalApplyFile H (W 0) path)) (\<lambda>(clean, info).
       if \<not> equal_fold U (hpBase H clean) ''cb.exe'' then Inl (In_Name (hpBase H clean))
       else if fiSize info = 0 \<or> nat maxBinarySize < fiSize info then Inl (In_Size (fiSize info))
       else
       rbind (map_err In_File (hashRegularFile (W 1) clean info)) (\<lambda>(digest, bytes).
         if \<not> smokeUpdatedBinary output version then Inl In_Version
         else
         rbind (map_err In_File (canonicalApplyFile H (W 2) clean)) (\<lambda>(postPath, postInfo).
         rbind (map_err In_File (hashRegularFile (W 3) postPath postInfo)) (\<lambda>(postDigest, postSize).
           if postPath \<noteq> clean \<or> postSize \<noteq> bytes \<or> postDigest \<noteq> digest then Inl In_Changed
           else Inr \<lparr>iiPath = clean, iiVersion = version, iiDigest = digest, iiSize = bytes\<rparr>))))"

section \<open>Verification\<close>

record verified_release =
  vfBinaryPath :: string
  vfTarget :: string
  vfDigest :: string
  vfSize :: nat
  vfInstalledPath :: string
  vfInstalledVersion :: string
  vfInstalledDigest :: string
  vfInstalledSize :: nat

record attestation_answer =
  aaOk :: bool
  aaStdout :: string
  aaStderr :: string

text \<open>\<open>rvSigned\<close> is the authentication of the GitHub CLI, which returns its digest: the first look and the last.\<close>

record release_answers =
  rvLooks :: "nat \<Rightarrow> looks"
  rvSigned :: "nat \<Rightarrow> string \<Rightarrow> string option"
  rvAttest :: "string \<Rightarrow> string list \<Rightarrow> attestation_answer"
  rvDecode :: "string \<Rightarrow> (attestation list \<times> bool) option"
  rvExtractLooks :: "nat \<Rightarrow> looks"
  rvExtract :: extract_answers
  rvInstalledLooks :: "nat \<Rightarrow> looks"
  rvVersion :: "string option"

datatype verify_release_error =
    Vf_Plan update_error
  | Vf_Artifact file_error
  | Vf_Manifest_File file_error
  | Vf_Staged_Layout
  | Vf_Artifact_Size nat
  | Vf_Manifest_Size nat
  | Vf_Gh file_error
  | Vf_Gh_Signature
  | Vf_Manifest manifest_error
  | Vf_Run
  | Vf_Output
  | Vf_Attestation attestation_error
  | Vf_Gh_Changed
  | Vf_Artifact_Changed
  | Vf_Extract extract_error
  | Vf_Archive file_error
  | Vf_Archive_Changed
  | Vf_Installed installed_error

text \<open>The checksum of the artifact against the manifest, and its attestation.\<close>

definition attest_artifact ::
    "unicode \<Rightarrow> host_paths \<Rightarrow> release_answers \<Rightarrow> update_plan \<Rightarrow> string \<Rightarrow> file_info \<Rightarrow> string \<Rightarrow> file_info \<Rightarrow> string
      \<Rightarrow> (verify_release_error, string \<times> nat \<times> file_info) result" where
  "attest_artifact U H A plan binaryPath binaryInfo checksumsPath checksumsInfo gh =
     (case rvSigned A 0 gh of
        None \<Rightarrow> Inl Vf_Gh_Signature
      | Some ghDigest \<Rightarrow>
        rbind (map_err Vf_Artifact (hashRegularFile (rvLooks A 3) binaryPath binaryInfo)) (\<lambda>(digest, bytes).
        rbind (map_err Vf_Manifest_File (readExactVerificationFile (rvLooks A 4) checksumsPath checksumsInfo)) (\<lambda>manifest.
        rbind (map_err Vf_Manifest (verifyChecksumManifest U manifest plan digest)) (\<lambda>_.
        let answer = rvAttest A gh (attestation_args plan binaryPath) in
        if \<not> aaOk answer then Inl Vf_Run
        else if maxAttestationOutput < length (aaStdout answer) \<or> maxAttestationOutput < length (aaStderr answer) then Inl Vf_Output
        else
        rbind (map_err Vf_Attestation (validateAttestationResult (rvDecode A) (aaStdout answer) digest)) (\<lambda>_.
          case rvSigned A 1 gh of
            None \<Rightarrow> Inl Vf_Gh_Signature
          | Some postDigest \<Rightarrow>
            (if postDigest \<noteq> ghDigest then Inl Vf_Gh_Changed
             else
             rbind (map_err Vf_Artifact (canonicalVerificationFile H (rvLooks A 5) binaryPath)) (\<lambda>(postPath, postInfo).
             rbind (map_err Vf_Artifact (hashRegularFile (rvLooks A 6) postPath postInfo)) (\<lambda>(postArtifact, postSize).
               if postPath \<noteq> binaryPath \<or> postSize \<noteq> bytes \<or> postArtifact \<noteq> digest then Inl Vf_Artifact_Changed
               else Inr (digest, bytes, postInfo)))))))))"

text \<open>The executable to install: the artifact itself, or the one in the archive, which is hashed again after the extraction.\<close>

definition executable_of ::
    "host_paths \<Rightarrow> release_answers \<Rightarrow> update_plan \<Rightarrow> string \<Rightarrow> string \<times> nat \<times> file_info \<Rightarrow> (verify_release_error, string \<times> string \<times> nat) result" where
  "executable_of H A plan binaryPath found = (case found of (digest, bytes, postInfo) \<Rightarrow>
     if upArch plan \<noteq> ''arm64'' then Inr (binaryPath, digest, bytes)
     else
     rbind (map_err Vf_Extract (extractVerifiedExecutable H (rvExtractLooks A) (rvExtract A) binaryPath postInfo)) (\<lambda>extracted.
     rbind (map_err Vf_Archive (canonicalVerificationFile H (rvLooks A 7) binaryPath)) (\<lambda>(finalPath, finalInfo).
       case hashRegularFile (rvLooks A 8) finalPath finalInfo of
         Inl _ \<Rightarrow> Inl Vf_Archive_Changed
       | Inr (finalDigest, finalSize) \<Rightarrow>
         (if finalPath \<noteq> binaryPath \<or> finalSize \<noteq> bytes \<or> finalDigest \<noteq> digest then Inl Vf_Archive_Changed else Inr extracted))))"

definition verifyRelease ::
    "unicode \<Rightarrow> host_paths \<Rightarrow> release_answers \<Rightarrow> update_plan \<Rightarrow> string \<Rightarrow> string \<Rightarrow> string \<Rightarrow> string
      \<Rightarrow> (verify_release_error, verified_release) result" where
  "verifyRelease U H A plan binary checksums installed gh =
     rbind (map_err Vf_Plan (validateVerificationPlan U plan)) (\<lambda>target.
     rbind (map_err Vf_Artifact (canonicalVerificationFile H (rvLooks A 0) binary)) (\<lambda>(binaryPath, binaryInfo).
     rbind (map_err Vf_Manifest_File (canonicalVerificationFile H (rvLooks A 1) checksums)) (\<lambda>(checksumsPath, checksumsInfo).
       if hpBase H binaryPath \<noteq> asName (upBinary plan) \<or> hpBase H checksumsPath \<noteq> asName (upChecksums plan)
         \<or> hpDir H binaryPath \<noteq> hpDir H checksumsPath then Inl Vf_Staged_Layout
       else if int (fiSize binaryInfo) \<noteq> asSize (upBinary plan) then Inl (Vf_Artifact_Size (fiSize binaryInfo))
       else if int (fiSize checksumsInfo) \<noteq> asSize (upChecksums plan) then Inl (Vf_Manifest_Size (fiSize checksumsInfo))
       else
       rbind (map_err Vf_Gh (canonicalVerificationFile H (rvLooks A 2) gh)) (\<lambda>(ghPath, _).
       rbind (attest_artifact U H A plan binaryPath binaryInfo checksumsPath checksumsInfo ghPath) (\<lambda>found.
       rbind (executable_of H A plan binaryPath found) (\<lambda>(path, digest, bytes).
       rbind (map_err Vf_Installed (bindInstalledExecutable U H (rvInstalledLooks A) (rvVersion A) installed (upCurrent plan))) (\<lambda>identity.
         Inr \<lparr>vfBinaryPath = path, vfTarget = svRaw target, vfDigest = digest, vfSize = bytes, vfInstalledPath = iiPath identity,
           vfInstalledVersion = iiVersion identity, vfInstalledDigest = iiDigest identity, vfInstalledSize = iiSize identity\<rparr>)))))))"

section \<open>What the manifest says\<close>

definition manifest_line :: "string \<times> string \<Rightarrow> string" where
  "manifest_line e = fst e @ ''  '' @ snd e"

text \<open>The manifest has one line per name, in any order, and the line of the artifact has its digest.\<close>

definition manifest_lists :: "unicode \<Rightarrow> string list \<Rightarrow> string \<Rightarrow> string \<Rightarrow> string \<Rightarrow> bool" where
  "manifest_lists U names binaryName digest data = (\<exists>entries. data = unlines (map manifest_line entries)
     \<and> distinct (map snd entries) \<and> set (map snd entries) = set names
     \<and> (\<forall>e \<in> set entries. validSHA256Hex U (fst e) \<and> (snd e = binaryName \<longrightarrow> fst e = digest)))"

lemma manifest_step_iff:
  "manifest_step U names b d line seen = Inr seen' \<longleftrightarrow> (\<exists>g n. line = manifest_line (g, n) \<and> validSHA256Hex U g \<and> n \<in> set names
     \<and> n \<notin> set seen \<and> (n = b \<longrightarrow> g = d) \<and> seen' = n # seen)" (is "?l \<longleftrightarrow> ?r")
proof
  assume ?l
  then have l: "\<not> length line < 66" "take 2 (drop 64 line) = ''  ''" "validSHA256Hex U (take 64 line)" "drop 66 line \<in> set names"
    "drop 66 line \<notin> set seen" "drop 66 line = b \<longrightarrow> take 64 line = d" "seen' = drop 66 line # seen"
    by (auto simp: manifest_step_def Let_def split: if_splits)
  have "drop 66 line = drop 2 (drop 64 line)" by simp
  then have "line = take 64 line @ take 2 (drop 64 line) @ drop 66 line" by (metis append_take_drop_id)
  then have "line = manifest_line (take 64 line, drop 66 line)" using l(2) by (simp add: manifest_line_def)
  then show ?r using l(3-7) by blast
next
  assume ?r
  then obtain g n where g: "line = manifest_line (g, n)" "validSHA256Hex U g" "n \<in> set names" "n \<notin> set seen" "n = b \<longrightarrow> g = d" "seen' = n # seen"
    by blast
  then have "length g = 64" by (simp add: validSHA256Hex_def)
  then have "take 64 line = g" "drop 66 line = n" "take 2 (drop 64 line) = ''  ''" "66 \<le> length line"
    by (simp_all add: g(1) manifest_line_def)
  then show ?l using g by (auto simp: manifest_step_def Let_def)
qed

lemma manifest_loop_iff:
  "fold_result (manifest_step U names b d) ls seen = Inr seen' \<longleftrightarrow> (\<exists>entries. ls = map manifest_line entries
     \<and> seen' = rev (map snd entries) @ seen \<and> distinct (map snd entries) \<and> set (map snd entries) \<inter> set seen = {}
     \<and> (\<forall>e \<in> set entries. validSHA256Hex U (fst e) \<and> snd e \<in> set names \<and> (snd e = b \<longrightarrow> fst e = d)))"
proof (induction ls arbitrary: seen)
  case (Cons l ls)
  show ?case (is "?l \<longleftrightarrow> ?r")
  proof
    assume ?l
    then obtain g n where s: "l = manifest_line (g, n)" "validSHA256Hex U g" "n \<in> set names" "n \<notin> set seen" "n = b \<longrightarrow> g = d"
      "fold_result (manifest_step U names b d) ls (n # seen) = Inr seen'"
      by (auto simp: rbind_Inr_iff manifest_step_iff)
    from s(6) obtain entries where e: "ls = map manifest_line entries" "seen' = rev (map snd entries) @ n # seen" "distinct (map snd entries)"
      "set (map snd entries) \<inter> set (n # seen) = {}" "\<forall>e \<in> set entries. validSHA256Hex U (fst e) \<and> snd e \<in> set names \<and> (snd e = b \<longrightarrow> fst e = d)"
      unfolding Cons.IH by blast
    show ?r using s(1-5) e by (intro exI [of _ "(g, n) # entries"]) auto
  next
    assume ?r
    then obtain entries where e: "l # ls = map manifest_line entries" "seen' = rev (map snd entries) @ seen" "distinct (map snd entries)"
      "set (map snd entries) \<inter> set seen = {}" "\<forall>e \<in> set entries. validSHA256Hex U (fst e) \<and> snd e \<in> set names \<and> (snd e = b \<longrightarrow> fst e = d)"
      by (elim exE conjE) (rule that; assumption)
    then obtain g n rest where c: "entries = (g, n) # rest" by (cases entries) auto
    have "manifest_step U names b d l seen = Inr (n # seen)" using e(1,4,5) by (auto simp: manifest_step_iff c)
    moreover have "fold_result (manifest_step U names b d) ls (n # seen) = Inr seen'"
      unfolding Cons.IH using e by (intro exI [of _ rest]) (auto simp: c)
    ultimately show ?l by simp
  qed
qed auto

lemma trim_newline: "trim_suffix (s @ [CHR 0x0A]) [CHR 0x0A] = s"
  by (simp add: trim_suffix_def has_suffix_def has_prefix_def)

lemma unlines_lines: "unlines (split_byte s CHR 0x0A) = s @ [CHR 0x0A]"
proof -
  have "xs \<noteq> [] \<Longrightarrow> unlines xs = join [CHR 0x0A] xs @ [CHR 0x0A]" for xs
    by (induction "[CHR 0x0A]" xs rule: join.induct) (simp_all add: unlines_def)
  then show ?thesis by (simp add: join_split)
qed

lemma lines_unlines:
  assumes "ls \<noteq> []" "\<forall>l \<in> set ls. CHR 0x0A \<notin> set l"
  shows "\<exists>s. unlines ls = s @ [CHR 0x0A] \<and> split_byte s CHR 0x0A = ls"
proof -
  have "unlines ls = join [CHR 0x0A] ls @ [CHR 0x0A]" using assms(1)
    by (induction "[CHR 0x0A]" ls rule: join.induct) (simp_all add: unlines_def)
  then show ?thesis using split_join [OF assms] by blast
qed

lemma checksum_names_plain:
  assumes "checksumManifestNames plan = Inr names"
  shows "names \<noteq> []" "\<forall>n \<in> set names. CHR 0x0A \<notin> set n \<and> CHR 0x0D \<notin> set n"
proof -
  from assms obtain target where t: "parseVersion (upTarget plan) = Inr target"
    and n: "set names \<subseteq> {''cb.exe'', amd64_archive (svRaw target), arm64_archive (svRaw target)}" "names \<noteq> []"
    by (auto simp: checksumManifestNames_def rbind_Inr_iff split: if_splits)
  have "\<not> contains_any (svRaw target) version_forbidden"
    using t parse_version_wf [OF t] by (auto simp: parseVersion_def split: if_splits)
  then have "CHR 0x0A \<notin> set (svRaw target)" "CHR 0x0D \<notin> set (svRaw target)"
    by (auto simp: contains_any_def version_forbidden_def list_ex_iff)
  then show "\<forall>n \<in> set names. CHR 0x0A \<notin> set n \<and> CHR 0x0D \<notin> set n"
    using n(1) by (fastforce simp: amd64_archive_def arm64_archive_def)
  show "names \<noteq> []" by (rule n(2))
qed

lemma digest_plain: "validSHA256Hex U g \<Longrightarrow> CHR 0x0A \<notin> set g \<and> CHR 0x0D \<notin> set g"
proof -
  assume "validSHA256Hex U g"
  then have "\<forall>c \<in> set g. unhex c \<noteq> None" by (simp add: validSHA256Hex_def hex_decodable_def list_all_iff)
  moreover have "unhex CHR 0x0A = None" "unhex CHR 0x0D = None" by code_simp+
  ultimately show ?thesis by metis
qed

lemma check_listed: "check_all (\<lambda>name. guard_or (P name) (f name)) names = Inr () \<longleftrightarrow> (\<forall>name \<in> set names. P name)"
  by (simp add: check_all_ok_iff)

lemma checksum_manifest_iff:
  "verifyChecksumManifest U data plan digest = Inr ()
   \<longleftrightarrow> (\<exists>names. checksumManifestNames plan = Inr names \<and> manifest_lists U names (asName (upBinary plan)) digest data)"
proof (cases "checksumManifestNames plan")
  case (Inl e)
  then show ?thesis by (auto simp: verifyChecksumManifest_def)
next
  case (Inr names)
  note np = checksum_names_plain [OF Inr]
  let ?b = "asName (upBinary plan)"
  show ?thesis (is "?l \<longleftrightarrow> ?r")
  proof
    assume ?l
    then obtain seen where c: "data \<noteq> []" "last data = CHR 0x0A"
      "fold_result (manifest_step U names ?b digest) (split_byte (trim_suffix data [CHR 0x0A]) CHR 0x0A) [] = Inr seen"
      "\<forall>n \<in> set names. n \<in> set seen"
      by (auto simp: verifyChecksumManifest_def Inr rbind_Inr_iff check_listed split: if_splits)
    obtain s where s: "data = s @ [CHR 0x0A]" using c(1,2) by (metis append_butlast_last_id)
    from c(3) obtain entries where e: "split_byte s CHR 0x0A = map manifest_line entries" "seen = rev (map snd entries)" "distinct (map snd entries)"
      "\<forall>e \<in> set entries. validSHA256Hex U (fst e) \<and> snd e \<in> set names \<and> (snd e = ?b \<longrightarrow> fst e = digest)"
      unfolding s trim_newline manifest_loop_iff by (elim exE conjE) (rule that; simp)
    have "data = unlines (map manifest_line entries)" using unlines_lines [of s] by (simp add: s e(1))
    moreover have "set (map snd entries) = set names" using e(2,4) c(4) by auto
    ultimately have "manifest_lists U names ?b digest data" unfolding manifest_lists_def using e(3,4) by blast
    then show ?r using Inr by blast
  next
    assume ?r
    then obtain entries where e: "data = unlines (map manifest_line entries)" "distinct (map snd entries)" "set (map snd entries) = set names"
      "\<forall>e \<in> set entries. validSHA256Hex U (fst e) \<and> (snd e = ?b \<longrightarrow> fst e = digest)"
      unfolding manifest_lists_def Inr by (elim exE conjE) (rule that; simp)
    have plain: "CHR 0x0A \<notin> set l \<and> CHR 0x0D \<notin> set l" if "l \<in> set (map manifest_line entries)" for l
    proof -
      from that obtain x where x: "x \<in> set entries" "l = manifest_line x" by auto
      then have "snd x \<in> set names" using e(3) by force
      then show ?thesis using np(2) digest_plain e(4) x by (auto simp: manifest_line_def)
    qed
    have "entries \<noteq> []" using e(3) np(1) by auto
    then obtain s where s: "data = s @ [CHR 0x0A]" "split_byte s CHR 0x0A = map manifest_line entries"
      using lines_unlines [of "map manifest_line entries"] plain by (auto simp: e(1))
    have cr: "CHR 0x0D \<notin> set data" using plain by (auto simp: e(1) unlines_def)
    have "fold_result (manifest_step U names ?b digest) (split_byte s CHR 0x0A) [] = Inr (rev (map snd entries))"
      unfolding manifest_loop_iff s(2) using e(2-4) by (intro exI [of _ entries]) auto
    then show ?l using cr e(3) by (simp add: verifyChecksumManifest_def Inr s(1) trim_newline check_listed)
  qed
qed

section \<open>What a verification shows\<close>

definition attested :: "(string \<Rightarrow> (attestation list \<times> bool) option) \<Rightarrow> string \<Rightarrow> string \<Rightarrow> bool" where
  "attested decode data digest = (\<exists>results. decode data = Some (results, True) \<and> results \<noteq> []
     \<and> list_all (\<lambda>r. atPredicate r = provenancePredicate \<and> list_ex (subject_covers digest) (atSubjects r)) results)"

lemma attestation_ok: "validateAttestationResult decode data digest = Inr () \<Longrightarrow> attested decode data digest"
  by (auto simp: validateAttestationResult_def attested_def rbind_Inr_iff check_all_ok_iff list_all_iff split: option.splits if_splits)

text \<open>
  An artifact with a digest: read with it, listed with it in the manifest, attested with it by the authenticated
  GitHub CLI, which is the same before and after, and read with it again.
\<close>

definition read_digest :: "(file_error, string \<times> nat) result \<Rightarrow> string option" where
  "read_digest r = (case r of Inl _ \<Rightarrow> None | Inr (digest, _) \<Rightarrow> Some digest)"

definition artifact_proved :: "unicode \<Rightarrow> release_answers \<Rightarrow> update_plan \<Rightarrow> string \<Rightarrow> string \<Rightarrow> bool" where
  "artifact_proved U A plan path digest = (\<exists>before after manifest_path manifest_info data names gh signature.
     read_digest (hashRegularFile (rvLooks A 3) path before) = Some digest
     \<and> read_digest (hashRegularFile (rvLooks A 6) path after) = Some digest
     \<and> readExactVerificationFile (rvLooks A 4) manifest_path manifest_info = Inr data
     \<and> checksumManifestNames plan = Inr names \<and> manifest_lists U names (asName (upBinary plan)) digest data
     \<and> rvSigned A 0 gh = Some signature \<and> rvSigned A 1 gh = Some signature
     \<and> aaOk (rvAttest A gh (attestation_args plan path))
     \<and> attested (rvDecode A) (aaStdout (rvAttest A gh (attestation_args plan path))) digest)"

lemma attest_artifact_ok:
  assumes "attest_artifact U H A plan path info mpath minfo gh = Inr (digest, bytes, post)"
  shows "artifact_proved U A plan path digest"
proof -
  from assms obtain signature data after where
    s: "rvSigned A 0 gh = Some signature" "rvSigned A 1 gh = Some signature" and
    h: "hashRegularFile (rvLooks A 3) path info = Inr (digest, bytes)" "hashRegularFile (rvLooks A 6) path after = Inr (digest, bytes)" and
    m: "readExactVerificationFile (rvLooks A 4) mpath minfo = Inr data" "verifyChecksumManifest U data plan digest = Inr ()" and
    a: "aaOk (rvAttest A gh (attestation_args plan path))"
      "validateAttestationResult (rvDecode A) (aaStdout (rvAttest A gh (attestation_args plan path))) digest = Inr ()"
    unfolding attest_artifact_def by (auto simp: Let_def rbind_Inr_iff split: option.splits if_splits)
  from m(2) obtain names where n: "checksumManifestNames plan = Inr names" "manifest_lists U names (asName (upBinary plan)) digest data"
    unfolding checksum_manifest_iff by blast
  show ?thesis unfolding artifact_proved_def
    by (intro exI [of _ info] exI [of _ after] exI [of _ mpath] exI [of _ minfo] exI [of _ data] exI [of _ names] exI [of _ gh] exI [of _ signature])
      (use s h m(1) n a attestation_ok in \<open>simp add: read_digest_def\<close>)
qed

text \<open>The executable of an archive: its bytes are the member, read back at the place to which they were extracted.\<close>

definition extracted_from :: "(nat \<Rightarrow> looks) \<Rightarrow> extract_answers \<Rightarrow> string \<Rightarrow> string \<Rightarrow> string \<Rightarrow> bool" where
  "extracted_from W A archivePath path digest = (\<exists>content members binary info.
     lkContents (W 0 archivePath) = Some content \<and> xaZip A content = Some members \<and> archive_binary members = Inr binary
     \<and> (\<exists>bytes. hashArchiveExecutable binary = Inr (digest, bytes)) \<and> read_digest (hashRegularFile (W 2) path info) = Some digest)"

lemma digest_of_file_ok: "digest_of_file H W n p = Inr (clean, digest, bytes) \<Longrightarrow> \<exists>info. hashRegularFile (W (n + 1)) clean info = Inr (digest, bytes)"
  by (auto simp: digest_of_file_def rbind_Inr_iff)

lemma extract_ok:
  assumes "extractVerifiedExecutable H W A archivePath expected = Inr (path, digest, bytes)"
  shows "extracted_from W A archivePath path digest"
proof -
  from assms obtain content members binary where c: "lkContents (W 0 archivePath) = Some content" "xaZip A content = Some members"
    "archive_binary members = Inr binary"
    unfolding extractVerifiedExecutable_def by (auto simp: rbind_Inr_iff bind_eq_Some_conv split: option.splits if_splits)
  from assms c obtain d n where h: "hashArchiveExecutable binary = Inr (d, n)"
    unfolding extractVerifiedExecutable_def by (auto simp: rbind_Inr_iff Let_def split: option.splits if_splits)
  have d: "digest = d \<and> digest_of_file H W 1 (hpJoin H (hpDir H archivePath) ''cb.exe'') = Inr (path, digest, bytes)"
    using assms c h unfolding extractVerifiedExecutable_def
    by (cases "xaExisting A") (auto simp: rbind_Inr_iff Let_def split: option.splits if_splits sum.splits)
  from digest_of_file_ok [OF d [THEN conjunct2]] obtain info where "hashRegularFile (W 2) path info = Inr (digest, bytes)"
    unfolding one_add_one by blast
  then show ?thesis unfolding extracted_from_def using c h d
    by (intro exI [of _ content] exI [of _ members] exI [of _ binary] exI [of _ info]) (simp add: read_digest_def)
qed

lemma bind_installed_ok:
  assumes "bindInstalledExecutable U H W output path version = Inr i"
  shows "iiVersion i = version" "smokeUpdatedBinary output version" "equal_fold U (hpBase H (iiPath i)) ''cb.exe''"
    "\<exists>before after. read_digest (hashRegularFile (W 1) (iiPath i) before) = Some (iiDigest i)
       \<and> read_digest (hashRegularFile (W 3) (iiPath i) after) = Some (iiDigest i)"
proof -
  from assms obtain clean before digest bytes after where b: "equal_fold U (hpBase H clean) ''cb.exe''" "smokeUpdatedBinary output version"
    "hashRegularFile (W 1) clean before = Inr (digest, bytes)" "hashRegularFile (W 3) clean after = Inr (digest, bytes)"
    "i = \<lparr>iiPath = clean, iiVersion = version, iiDigest = digest, iiSize = bytes\<rparr>"
    by (auto simp: bindInstalledExecutable_def rbind_Inr_iff split: if_splits)
  show "iiVersion i = version" "smokeUpdatedBinary output version" "equal_fold U (hpBase H (iiPath i)) ''cb.exe''" by (simp_all add: b)
  show "\<exists>before after. read_digest (hashRegularFile (W 1) (iiPath i) before) = Some (iiDigest i)
       \<and> read_digest (hashRegularFile (W 3) (iiPath i) after) = Some (iiDigest i)"
    using b(3,4) by (intro exI [of _ before] exI [of _ after]) (simp add: b(5) read_digest_def)
qed

text \<open>What is known of a verified release: its plan, its artifact, the executable, and what is installed.\<close>

lemma verify_release_ok:
  assumes "verifyRelease U H A plan binary checksums installed gh = Inr v"
  shows "\<exists>current target path digest. plan_sound U plan current target \<and> vfTarget v = upTarget plan \<and> vfInstalledVersion v = upCurrent plan
    \<and> hpBase H path = asName (upBinary plan) \<and> artifact_proved U A plan path digest
    \<and> (if upArch plan = ''arm64'' then extracted_from (rvExtractLooks A) (rvExtract A) path (vfBinaryPath v) (vfDigest v)
          \<and> (\<exists>info. read_digest (hashRegularFile (rvLooks A 8) path info) = Some digest)
        else vfBinaryPath v = path \<and> vfDigest v = digest)
    \<and> smokeUpdatedBinary (rvVersion A) (upCurrent plan)
    \<and> (\<exists>after. read_digest (hashRegularFile (rvInstalledLooks A 3) (vfInstalledPath v) after) = Some (vfInstalledDigest v))"
proof -
  from assms obtain target path info mpath minfo ghPath digest bytes post epath edigest ebytes i where
    p: "validateVerificationPlan U plan = Inr target" and
    l: "hpBase H path = asName (upBinary plan)" and
    a: "attest_artifact U H A plan path info mpath minfo ghPath = Inr (digest, bytes, post)" and
    e: "executable_of H A plan path (digest, bytes, post) = Inr (epath, edigest, ebytes)" and
    b: "bindInstalledExecutable U H (rvInstalledLooks A) (rvVersion A) installed (upCurrent plan) = Inr i" and
    v: "v = \<lparr>vfBinaryPath = epath, vfTarget = svRaw target, vfDigest = edigest, vfSize = ebytes, vfInstalledPath = iiPath i,
           vfInstalledVersion = iiVersion i, vfInstalledDigest = iiDigest i, vfInstalledSize = iiSize i\<rparr>"
    unfolding verifyRelease_def by (auto simp: rbind_Inr_iff split: if_splits)
  from p obtain current where s: "plan_sound U plan current target" unfolding verification_plan_iff by blast
  have t: "svRaw target = upTarget plan" using s parse_version_wf by (auto simp: plan_sound_def)
  have x: "if upArch plan = ''arm64'' then extracted_from (rvExtractLooks A) (rvExtract A) path epath edigest
        \<and> (\<exists>info. read_digest (hashRegularFile (rvLooks A 8) path info) = Some digest) else epath = path \<and> edigest = digest"
  proof (cases "upArch plan = ''arm64''")
    case True
    with e obtain extracted fp fi where f: "extractVerifiedExecutable H (rvExtractLooks A) (rvExtract A) path post = Inr extracted"
      "(case hashRegularFile (rvLooks A 8) fp fi of Inl _ \<Rightarrow> Inl Vf_Archive_Changed
        | Inr (finalDigest, finalSize) \<Rightarrow>
          (if fp \<noteq> path \<or> finalSize \<noteq> bytes \<or> finalDigest \<noteq> digest then Inl Vf_Archive_Changed else Inr extracted)) = Inr (epath, edigest, ebytes)"
      by (auto simp: executable_of_def rbind_Inr_iff)
    then have "extracted = (epath, edigest, ebytes)" "hashRegularFile (rvLooks A 8) path fi = Inr (digest, bytes)"
      by (cases "hashRegularFile (rvLooks A 8) fp fi"; auto split: if_splits)+
    with f(1) have "extractVerifiedExecutable H (rvExtractLooks A) (rvExtract A) path post = Inr (epath, edigest, ebytes)"
      "hashRegularFile (rvLooks A 8) path fi = Inr (digest, bytes)" by simp_all
    then have x: "extracted_from (rvExtractLooks A) (rvExtract A) path epath edigest"
      and y: "read_digest (hashRegularFile (rvLooks A 8) path fi) = Some digest" using extract_ok by (blast, simp add: read_digest_def)
    from y have "\<exists>info. read_digest (hashRegularFile (rvLooks A 8) path info) = Some digest" by blast
    with True x show ?thesis by simp
  qed (use e in \<open>simp add: executable_of_def\<close>)
  note i = bind_installed_ok [OF b]
  show ?thesis using s t l attest_artifact_ok [OF a] x i
    by (intro exI [of _ current] exI [of _ target] exI [of _ path] exI [of _ digest]) (auto simp: v)
qed

end
