(* ===== verification/Update_Apply.thy ===== *)
theory Update_Apply
  imports Update_Verify Registry_Syntax
begin

text \<open>
  The replacement of the installed files (\<open>internal/selfupdate/apply.go\<close>). The transaction is a function
  of an environment that may change any file at any time: \<open>aeLooks n\<close> is what the files look like after
  \<open>n\<close> events, and \<open>aeReplace n\<close> how a replacement that is the event \<open>n\<close> ends. The log lists every look at a
  digest, every replacement and the smoke test, in their order. \<open>installed_digest\<close> and \<open>guarded\<close> state
  what the log guarantees, whatever the environment does.
\<close>

definition rollbackPrefix :: string where "rollbackPrefix = ''.container-bin-update-rollback-''"

section \<open>Replacing a file\<close>

text \<open>The steps of \<open>replaceManagedFile\<close>: a name is reserved and freed, then linked or copied to, then renamed.\<close>

record replace_answers =
  rpCreated :: bool
  rpClosed :: bool
  rpFreed :: bool
  rpLinked :: bool
  rpCopied :: bool
  rpRenamed :: bool

definition replaceManagedFile :: "replace_answers \<Rightarrow> bool \<Rightarrow> bool" where
  "replaceManagedFile r preferHardlink =
     (if \<not> rpCreated r \<or> \<not> rpClosed r \<or> \<not> rpFreed r then False
      else if preferHardlink \<and> rpLinked r then rpRenamed r
      else if \<not> rpCopied r then False
      else rpRenamed r)"

record apply_environment =
  aeHost :: host_paths
  aeLooks :: "nat \<Rightarrow> nat \<Rightarrow> looks"
  aeReplace :: "nat \<Rightarrow> replace_answers"
  aeVersion :: "string option"

datatype apply_event =
    Looked string "(file_error, string) result"
  | Replaced string string bool
  | Smoked bool

type_synonym apply_log = "apply_event list"

datatype apply_error =
    Ap_Look string file_error
  | Ap_Digest string
  | Ap_Replace string
  | Ap_Inconclusive
  | Ap_Smoke
  | Ap_Foreign string

definition applyFileDigest :: "host_paths \<Rightarrow> (nat \<Rightarrow> looks) \<Rightarrow> string \<Rightarrow> (file_error, string) result" where
  "applyFileDigest H W path = rbind (canonicalApplyFile H (W 0) path) (\<lambda>(clean, info).
     rbind (hashRegularFile (W 1) clean info) (\<lambda>(digest, _). Inr digest))"

definition look_digest :: "apply_environment \<Rightarrow> string \<Rightarrow> apply_log \<Rightarrow> (file_error, string) result \<times> apply_log" where
  "look_digest E path log = (let r = applyFileDigest (aeHost E) (aeLooks E (length log)) path in (r, log @ [Looked path r]))"

definition requireApplyDigest :: "apply_environment \<Rightarrow> string \<Rightarrow> string \<Rightarrow> apply_log \<Rightarrow> apply_error option \<times> apply_log" where
  "requireApplyDigest E path want log = (case look_digest E path log of
     (Inl e, log') \<Rightarrow> (Some (Ap_Look path e), log')
   | (Inr d, log') \<Rightarrow> (if d \<noteq> want then Some (Ap_Digest path) else None, log'))"

definition replace_file :: "apply_environment \<Rightarrow> string \<Rightarrow> string \<Rightarrow> bool \<Rightarrow> apply_log \<Rightarrow> bool \<times> apply_log" where
  "replace_file E source destination preferHardlink log =
     (let ok = replaceManagedFile (aeReplace E (length log)) preferHardlink in (ok, log @ [Replaced source destination ok]))"

text \<open>A loop of \<open>requireApplyDigest\<close> that stops at the first error.\<close>

fun require_all :: "apply_environment \<Rightarrow> string list \<Rightarrow> string \<Rightarrow> apply_log \<Rightarrow> apply_error option \<times> apply_log" where
  "require_all E [] want log = (None, log)"
| "require_all E (path # paths) want log = (case requireApplyDigest E path want log of
     (Some e, log') \<Rightarrow> (Some e, log')
   | (None, log') \<Rightarrow> require_all E paths want log')"

section \<open>Rollback\<close>

text \<open>The errors, whether the management executable has been restored, and the log.\<close>

definition rollback_management ::
    "apply_environment \<Rightarrow> string \<Rightarrow> string \<Rightarrow> string \<Rightarrow> string \<Rightarrow> apply_log \<Rightarrow> apply_error list \<times> bool \<times> apply_log" where
  "rollback_management E installed rollbackBinary old new log = (case look_digest E installed log of
     (Inl e, log1) \<Rightarrow> ([Ap_Look installed e], False, log1)
   | (Inr d, log1) \<Rightarrow>
     (if d = new then (case replace_file E rollbackBinary installed False log1 of (ok, log2) \<Rightarrow>
        let failed = (if ok then [] else [Ap_Replace installed]) in
        (case look_digest E installed log2 of
           (Inl e, log3) \<Rightarrow> (failed @ [Ap_Look installed e], False, log3)
         | (Inr restored, log3) \<Rightarrow>
           (if restored \<noteq> old then (failed @ [Ap_Digest installed], False, log3) else (failed, True, log3))))
      else if d = old then ([], True, log1)
      else ([Ap_Foreign installed], False, log1)))"

fun rollback_shims ::
    "apply_environment \<Rightarrow> string \<Rightarrow> string \<Rightarrow> bool \<Rightarrow> string \<Rightarrow> string \<Rightarrow> string list \<Rightarrow> apply_log \<Rightarrow> apply_error list \<times> apply_log" where
  "rollback_shims E installed rollbackBinary restored old new [] log = ([], log)"
| "rollback_shims E installed rollbackBinary restored old new (shim # shims) log =
     (case look_digest E shim log of (r, log1) \<Rightarrow>
      case (case r of
          Inl e \<Rightarrow> ([Ap_Look shim e], log1)
        | Inr d \<Rightarrow>
          (if d = old then ([], log1)
           else if d \<noteq> new then ([Ap_Foreign shim], log1)
           else (case replace_file E (if restored then installed else rollbackBinary) shim restored log1 of
               (ok, log2) \<Rightarrow> (if ok then [] else [Ap_Replace shim], log2)))) of (errors, log') \<Rightarrow>
      case rollback_shims E installed rollbackBinary restored old new shims log' of
        (later, log'') \<Rightarrow> (errors @ later, log''))"

text \<open>The last check looks at every file and collects every error.\<close>

fun check_restored :: "apply_environment \<Rightarrow> string list \<Rightarrow> string \<Rightarrow> apply_log \<Rightarrow> apply_error list \<times> apply_log" where
  "check_restored E [] old log = ([], log)"
| "check_restored E (path # paths) old log = (case requireApplyDigest E path old log of (e, log1) \<Rightarrow>
     case check_restored E paths old log1 of (later, log2) \<Rightarrow> ((case e of None \<Rightarrow> later | Some x \<Rightarrow> x # later), log2))"

definition rollback ::
    "apply_environment \<Rightarrow> string \<Rightarrow> string \<Rightarrow> string list \<Rightarrow> string \<Rightarrow> string \<Rightarrow> apply_log \<Rightarrow> apply_error list \<times> apply_log" where
  "rollback E installed rollbackBinary shims old new log =
     (case rollback_management E installed rollbackBinary old new log of (errors, restored, log1) \<Rightarrow>
      case rollback_shims E installed rollbackBinary restored old new shims log1 of (later, log2) \<Rightarrow>
      if errors @ later = [] then check_restored E (installed # shims) old log2 else (errors @ later, log2))"

section \<open>The transaction\<close>

text \<open>
  \<open>Refused\<close>: nothing was changed. \<open>Restored\<close>: the previous bytes are back. \<open>Recovery_Kept\<close>: the rollback
  failed, and the recovery executable is preserved.
\<close>

datatype apply_outcome =
    Applied
  | Refused apply_error
  | Restored apply_error
  | Recovery_Kept apply_error "apply_error list"

record replacement =
  rmInstalled :: string
  rmStaged :: string
  rmRollback :: string
  rmShims :: "string list"
  rmOld :: string
  rmNew :: string
  rmTarget :: string

definition fail_changed :: "apply_environment \<Rightarrow> replacement \<Rightarrow> apply_error \<Rightarrow> apply_log \<Rightarrow> apply_outcome \<times> apply_log" where
  "fail_changed E r cause log =
     (case rollback E (rmInstalled r) (rmRollback r) (rmShims r) (rmOld r) (rmNew r) log of
        ([], log') \<Rightarrow> (Restored cause, log')
      | (errors, log') \<Rightarrow> (Recovery_Kept cause errors, log'))"

fun replace_shims :: "apply_environment \<Rightarrow> replacement \<Rightarrow> string list \<Rightarrow> apply_log \<Rightarrow> apply_error option \<times> apply_log" where
  "replace_shims E r [] log = (None, log)"
| "replace_shims E r (shim # shims) log = (case requireApplyDigest E shim (rmOld r) log of
     (Some e, log1) \<Rightarrow> (Some e, log1)
   | (None, log1) \<Rightarrow>
     (case replace_file E (rmInstalled r) shim True log1 of (ok, log2) \<Rightarrow>
        if \<not> ok then (Some (Ap_Replace shim), log2) else replace_shims E r shims log2))"

definition smoke :: "apply_environment \<Rightarrow> string \<Rightarrow> apply_log \<Rightarrow> bool \<times> apply_log" where
  "smoke E target log = (let ok = smokeUpdatedBinary (aeVersion E) target in (ok, log @ [Smoked ok]))"

text \<open>After the management executable has been replaced.\<close>

definition replace_rest :: "apply_environment \<Rightarrow> replacement \<Rightarrow> apply_log \<Rightarrow> apply_error option \<times> apply_log" where
  "replace_rest E r log = (case requireApplyDigest E (rmInstalled r) (rmNew r) log of
     (Some e, log1) \<Rightarrow> (Some e, log1)
   | (None, log1) \<Rightarrow>
     (case replace_shims E r (rmShims r) log1 of
        (Some e, log2) \<Rightarrow> (Some e, log2)
      | (None, log2) \<Rightarrow>
        (case smoke E (rmTarget r) log2 of (ok, log3) \<Rightarrow>
           if \<not> ok then (Some Ap_Smoke, log3) else require_all E (rmInstalled r # rmShims r) (rmNew r) log3)))"

definition replace_all :: "apply_environment \<Rightarrow> replacement \<Rightarrow> apply_log \<Rightarrow> apply_outcome \<times> apply_log" where
  "replace_all E r log = (case requireApplyDigest E (rmInstalled r) (rmOld r) log of
     (Some e, log1) \<Rightarrow> (Refused e, log1)
   | (None, log1) \<Rightarrow>
     (case replace_file E (rmStaged r) (rmInstalled r) False log1 of
        (False, log2) \<Rightarrow>
          (case look_digest E (rmInstalled r) log2 of (found, log3) \<Rightarrow>
             if found = Inr (rmOld r) then (Refused (Ap_Replace (rmInstalled r)), log3)
             else if found = Inr (rmNew r) then fail_changed E r (Ap_Replace (rmInstalled r)) log3
             else fail_changed E r Ap_Inconclusive log3)
      | (True, log2) \<Rightarrow>
        (case replace_rest E r log2 of
           (None, log3) \<Rightarrow> (Applied, log3)
         | (Some e, log3) \<Rightarrow> fail_changed E r e log3)))"

section \<open>Preparation\<close>

datatype prepare_error =
    Pr_Installed file_error
  | Pr_Name string
  | Pr_Target version_error
  | Pr_Staged file_error
  | Pr_Stage_Layout
  | Pr_Volume
  | Pr_Staged_Changed
  | Pr_Installed_Size nat
  | Pr_Installed_Changed
  | Pr_Current current_error
  | Pr_Already
  | Pr_Identical
  | Pr_Enumerate
  | Pr_Shim string file_error
  | Pr_Directory
  | Pr_Rollback
  | Pr_Canceled

text \<open>\<open>filepath.Ext\<close> of a directory entry, which has no separator.\<close>

definition name_ext :: "string \<Rightarrow> string" where
  "name_ext name = (case last_index_byte name CHR ''.'' of None \<Rightarrow> [] | Some i \<Rightarrow> drop i name)"

definition shim_candidate :: "unicode \<Rightarrow> host_paths \<Rightarrow> string \<Rightarrow> string \<Rightarrow> string \<times> bool \<Rightarrow> bool" where
  "shim_candidate U H dir installed entry = (case entry of (name, isDir) \<Rightarrow>
     let tool = trim_suffix (to_lower U name) (to_lower U (name_ext name)) in
     \<not> isDir \<and> equal_fold U (name_ext name) ''.exe'' \<and> \<not> equal_fold U (hpJoin H dir name) installed
     \<and> ValidToolName tool \<and> \<not> ReservedToolName tool)"

definition shim_step ::
    "unicode \<Rightarrow> host_paths \<Rightarrow> looks \<Rightarrow> string \<Rightarrow> string \<Rightarrow> file_info \<Rightarrow> string \<Rightarrow> string \<times> bool \<Rightarrow> string list \<Rightarrow> (prepare_error, string list) result" where
  "shim_step U H L dir installed info old entry shims =
     (if \<not> shim_candidate U H dir installed entry then Inr shims
      else (let path = hpJoin H dir (fst entry) in case lkInfo (L path) of
          Got found \<Rightarrow>
            (if fiSymlink found \<or> \<not> fiRegular found then Inr shims
             else if same_file info found then Inr (shims @ [path])
             else if fiSize found \<noteq> fiSize info then Inr shims
             else rbind (map_err (Pr_Shim path) (hashRegularFile L path found)) (\<lambda>(digest, _).
               Inr (if digest = old then shims @ [path] else shims)))
        | _ \<Rightarrow> Inl (Pr_Shim path Fe_Inspect)))"

definition discoverManagedShims ::
    "unicode \<Rightarrow> host_paths \<Rightarrow> looks \<Rightarrow> (string \<times> bool) list option \<Rightarrow> string \<Rightarrow> string \<Rightarrow> file_info \<Rightarrow> string \<Rightarrow> (prepare_error, string list) result" where
  "discoverManagedShims U H L entries dir installed info old = (case entries of
     None \<Rightarrow> Inl Pr_Enumerate
   | Some es \<Rightarrow> rbind (fold_result (shim_step U H L dir installed info old) es []) (\<lambda>shims. Inr (sort_key (to_lower U) shims)))"

record prepare_answers =
  paLooks :: "nat \<Rightarrow> looks"
  paVolume :: "string \<Rightarrow> string"
  paEntries :: "string \<Rightarrow> (string \<times> bool) list option"
  paMade :: "string \<Rightarrow> string option"
  paPrepared :: bool
  paCanceled :: bool
  paRemoved :: bool

text \<open>What is checked before the rollback directory is made; the path of the rollback executable is filled in later.\<close>

definition validate_replacement ::
    "unicode \<Rightarrow> host_paths \<Rightarrow> prepare_answers \<Rightarrow> verified_release \<Rightarrow> string \<Rightarrow> (prepare_error, replacement) result" where
  "validate_replacement U H A v path =
     rbind (map_err Pr_Installed (canonicalApplyFile H (paLooks A 0) path)) (\<lambda>(installed, installedInfo).
       if \<not> equal_fold U (hpBase H installed) ''cb.exe'' then Inl (Pr_Name (hpBase H installed))
       else
       rbind (map_err Pr_Target (parseVersion (vfTarget v))) (\<lambda>target.
       rbind (map_err Pr_Staged (canonicalApplyFile H (paLooks A 1) (vfBinaryPath v))) (\<lambda>(staged, stagedInfo).
         let installDir = hpDir H installed; stageDir = hpDir H staged in
         if \<not> equal_fold U (hpBase H staged) ''cb.exe'' \<or> \<not> equal_fold U (hpDir H stageDir) installDir
           \<or> \<not> has_prefix (hpBase H stageDir) stagingPrefix then Inl Pr_Stage_Layout
         else if \<not> equal_fold U (paVolume A staged) (paVolume A installed) then Inl Pr_Volume
         else
         rbind (map_err Pr_Staged (hashRegularFile (paLooks A 2) staged stagedInfo)) (\<lambda>(stagedDigest, stagedSize).
           if stagedDigest \<noteq> vfDigest v \<or> stagedSize \<noteq> vfSize v then Inl Pr_Staged_Changed
           else
           rbind (map_err Pr_Installed (hashRegularFile (paLooks A 3) installed installedInfo)) (\<lambda>(oldDigest, _).
             if fiSize installedInfo = 0 \<or> nat maxBinarySize < fiSize installedInfo then Inl (Pr_Installed_Size (fiSize installedInfo))
             else if \<not> equal_fold U installed (vfInstalledPath v) \<or> fiSize installedInfo \<noteq> vfInstalledSize v
               \<or> oldDigest \<noteq> vfInstalledDigest v then Inl Pr_Installed_Changed
             else
             rbind (map_err Pr_Current (currentVersion U (vfInstalledVersion v))) (\<lambda>current.
               if compare current target = 0 then Inl Pr_Already
               else if oldDigest = stagedDigest then Inl Pr_Identical
               else
               rbind (discoverManagedShims U H (paLooks A 4) (paEntries A installDir) installDir installed installedInfo oldDigest) (\<lambda>shims.
                 Inr \<lparr>rmInstalled = installed, rmStaged = staged, rmRollback = [], rmShims = shims, rmOld = oldDigest,
                   rmNew = stagedDigest, rmTarget = svRaw target\<rparr>)))))))"

text \<open>The rollback executable: a copy of the installed one, restricted, and read back. \<open>paPrepared\<close>: every call up to its \<open>Lstat\<close> succeeds.\<close>

definition rollback_ready :: "prepare_answers \<Rightarrow> replacement \<Rightarrow> bool" where
  "rollback_ready A r = (paPrepared A \<and> (case lkInfo (paLooks A 5 (rmRollback r)) of
     Got info \<Rightarrow> (case hashRegularFile (paLooks A 6) (rmRollback r) info of Inr (digest, _) \<Rightarrow> digest = rmOld r | Inl _ \<Rightarrow> False)
   | _ \<Rightarrow> False))"

datatype update_outcome = Not_Started prepare_error | Ended apply_outcome

text \<open>The outcome, the log, and whether the rollback directory is left behind.\<close>

definition applyUpdate ::
    "unicode \<Rightarrow> apply_environment \<Rightarrow> prepare_answers \<Rightarrow> verified_release \<Rightarrow> string \<Rightarrow> update_outcome \<times> apply_log \<times> bool" where
  "applyUpdate U E A v path = (let H = aeHost E in case validate_replacement U H A v path of
     Inl e \<Rightarrow> (Not_Started e, [], False)
   | Inr checked \<Rightarrow>
     (case paMade A (hpDir H (rmInstalled checked)) of
        None \<Rightarrow> (Not_Started Pr_Directory, [], False)
      | Some dir \<Rightarrow>
        (let r = checked\<lparr>rmRollback := hpJoin H dir ''cb.exe''\<rparr> in
         if \<not> rollback_ready A r then (Not_Started Pr_Rollback, [], \<not> paRemoved A)
         else if paCanceled A then (Not_Started Pr_Canceled, [], \<not> paRemoved A)
         else (case replace_all E r [] of (outcome, log) \<Rightarrow>
           (Ended outcome, log, (case outcome of Recovery_Kept _ _ \<Rightarrow> True | _ \<Rightarrow> \<not> paRemoved A))))))"

section \<open>What the log guarantees\<close>

definition looked_all :: "string list \<Rightarrow> string \<Rightarrow> apply_log" where
  "looked_all paths d = map (\<lambda>p. Looked p (Inr d)) paths"

lemma require_ok: "requireApplyDigest E p want log = (None, log') \<Longrightarrow> log' = log @ [Looked p (Inr want)]"
  by (auto simp: requireApplyDigest_def look_digest_def Let_def split: sum.splits if_splits)

lemma require_log: "requireApplyDigest E p want log = (e, log') \<Longrightarrow> \<exists>r. log' = log @ [Looked p r]"
  by (auto simp: requireApplyDigest_def look_digest_def Let_def split: sum.splits if_splits)

lemma require_all_ok: "require_all E ps want log = (None, log') \<Longrightarrow> log' = log @ looked_all ps want"
  by (induction ps arbitrary: log) (fastforce simp: looked_all_def dest: require_ok split: prod.splits option.splits)+

lemma check_restored_ok: "check_restored E ps old log = ([], log') \<Longrightarrow> log' = log @ looked_all ps old"
  by (induction ps arbitrary: log) (fastforce simp: looked_all_def dest: require_ok split: prod.splits option.splits)+

text \<open>A replacement of a file follows at once a look that found the bytes which it may replace.\<close>

definition justified :: "replacement \<Rightarrow> apply_event \<Rightarrow> string \<Rightarrow> string \<Rightarrow> bool" where
  "justified r before source destination = (destination \<in> set (rmInstalled r # rmShims r)
     \<and> ((source \<in> {rmStaged r, rmInstalled r} \<and> before = Looked destination (Inr (rmOld r)))
        \<or> (source \<in> {rmRollback r, rmInstalled r} \<and> before = Looked destination (Inr (rmNew r)))))"

fun guarded :: "replacement \<Rightarrow> apply_event option \<Rightarrow> apply_log \<Rightarrow> bool" where
  "guarded r before [] = True"
| "guarded r before (e # log) = ((case e of
     Replaced source destination ok \<Rightarrow> (case before of None \<Rightarrow> False | Some b \<Rightarrow> justified r b source destination)
   | _ \<Rightarrow> True) \<and> guarded r (Some e) log)"

fun last_event :: "apply_event option \<Rightarrow> apply_log \<Rightarrow> apply_event option" where
  "last_event before [] = before"
| "last_event before (e # log) = last_event (Some e) log"

lemma last_event_append [simp]: "last_event b (xs @ ys) = last_event (last_event b xs) ys"
  by (induction xs arbitrary: b) simp_all

lemma guarded_append [simp]: "guarded r b (xs @ ys) \<longleftrightarrow> guarded r b xs \<and> guarded r (last_event b xs) ys"
  by (induction xs arbitrary: b) auto

lemma look_cases:
  assumes "look_digest E p log = (x, log')"
  shows "log' = log @ [Looked p x]" "x = applyFileDigest (aeHost E) (aeLooks E (length log)) p"
  using assms by (auto simp: look_digest_def Let_def)

lemma replace_cases:
  assumes "replace_file E s d h log = (ok, log')"
  shows "log' = log @ [Replaced s d ok]" "ok = replaceManagedFile (aeReplace E (length log)) h"
  using assms by (auto simp: replace_file_def Let_def)

lemma require_guarded: "requireApplyDigest E p want log = (e, log') \<Longrightarrow> guarded r b log \<Longrightarrow> guarded r b log'"
  by (auto dest: require_log)

lemma require_all_guarded: "require_all E ps want log = (e, log') \<Longrightarrow> guarded r b log \<Longrightarrow> guarded r b log'"
  by (induction ps arbitrary: log) (auto dest: require_guarded split: prod.splits option.splits)

lemma check_restored_guarded: "check_restored E ps want log = (e, log') \<Longrightarrow> guarded r b log \<Longrightarrow> guarded r b log'"
  by (induction ps arbitrary: log e) (auto dest: require_guarded split: prod.splits option.splits)

lemma rollback_management_guarded:
  assumes "rollback_management E (rmInstalled r) (rmRollback r) (rmOld r) (rmNew r) log = (es, restored, log')" "guarded r b log"
  shows "guarded r b log'"
  using assms by (auto simp: rollback_management_def justified_def Let_def dest!: look_cases(1) replace_cases(1) split: prod.splits sum.splits if_splits)

lemma rollback_shims_guarded:
  assumes "rollback_shims E (rmInstalled r) (rmRollback r) restored (rmOld r) (rmNew r) shims log = (es, log')" "guarded r b log"
    "set shims \<subseteq> set (rmShims r)"
  shows "guarded r b log'"
  using assms
proof (induction shims arbitrary: log es)
  case (Cons s shims)
  obtain x log1 where l: "look_digest E s log = (x, log1)" by fastforce
  obtain es1 log2 where m: "(case x of Inl e \<Rightarrow> ([Ap_Look s e], log1)
      | Inr d \<Rightarrow> (if d = rmOld r then ([], log1) else if d \<noteq> rmNew r then ([Ap_Foreign s], log1)
          else (case replace_file E (if restored then rmInstalled r else rmRollback r) s restored log1 of
               (ok, log2) \<Rightarrow> (if ok then [] else [Ap_Replace s], log2)))) = (es1, log2)" by fastforce
  have g: "guarded r b log2"
    using m Cons.prems(2,3) look_cases(1) [OF l]
    by (auto simp: justified_def dest!: replace_cases(1) split: sum.splits if_splits prod.splits)
  from Cons.prems(1) obtain es2 where "rollback_shims E (rmInstalled r) (rmRollback r) restored (rmOld r) (rmNew r) shims log2 = (es2, log')"
    unfolding rollback_shims.simps l prod.case m by (auto split: prod.splits)
  from Cons.IH [OF this g] Cons.prems(3) show ?case by simp
qed simp

lemma rollback_guarded:
  assumes "rollback E (rmInstalled r) (rmRollback r) (rmShims r) (rmOld r) (rmNew r) log = (es, log')" "guarded r b log"
  shows "guarded r b log'"
  using assms unfolding rollback_def
  by (auto dest!: rollback_management_guarded rollback_shims_guarded check_restored_guarded split: prod.splits if_splits simp del: check_restored.simps)

lemma fail_guarded: "fail_changed E r cause log = (res, log') \<Longrightarrow> guarded r b log \<Longrightarrow> guarded r b log'"
  by (auto simp: fail_changed_def split: prod.splits list.splits dest!: rollback_guarded)

lemma replace_shims_guarded:
  assumes "replace_shims E r shims log = (e, log')" "guarded r b log" "set shims \<subseteq> set (rmShims r)"
  shows "guarded r b log'"
  using assms
proof (induction shims arbitrary: log)
  case (Cons s shims)
  obtain x log1 where q: "requireApplyDigest E s (rmOld r) log = (x, log1)" by fastforce
  show ?case
  proof (cases x)
    case None
    obtain ok log2 where p: "replace_file E (rmInstalled r) s True log1 = (ok, log2)" by fastforce
    have "guarded r b log2" using Cons.prems(2,3) require_ok [OF q [unfolded None]] replace_cases(1) [OF p]
      by (simp add: justified_def)
    with Cons.IH [of log2] Cons.prems(1,3) show ?thesis by (auto simp: q None p split: if_splits)
  qed (use Cons.prems require_guarded [OF q] q in auto)
qed simp

lemma replace_rest_guarded: "replace_rest E r log = (e, log') \<Longrightarrow> guarded r b log \<Longrightarrow> guarded r b log'"
  unfolding replace_rest_def smoke_def Let_def
  by (auto dest!: require_guarded replace_shims_guarded require_all_guarded split: prod.splits option.splits if_splits)

lemma replace_all_guarded:
  assumes "replace_all E r log = (res, log')" "guarded r b log"
  shows "guarded r b log'"
proof -
  obtain x log1 where q: "requireApplyDigest E (rmInstalled r) (rmOld r) log = (x, log1)" by fastforce
  show ?thesis
  proof (cases x)
    case None
    obtain ok log2 where p: "replace_file E (rmStaged r) (rmInstalled r) False log1 = (ok, log2)" by fastforce
    have g: "guarded r b log2" using assms(2) require_ok [OF q [unfolded None]] replace_cases(1) [OF p] by (simp add: justified_def)
    obtain f log3 where l: "look_digest E (rmInstalled r) log2 = (f, log3)" by fastforce
    obtain y log4 where m: "replace_rest E r log2 = (y, log4)" by fastforce
    have "guarded r b log3" using g look_cases(1) [OF l] by simp
    moreover have "guarded r b log4" using replace_rest_guarded [OF m g] .
    ultimately show ?thesis using assms(1)
      by (cases ok; cases y) (auto simp: replace_all_def q None p l m split: if_splits dest!: fail_guarded)
  qed (use assms require_guarded [OF q] q in \<open>auto simp: replace_all_def\<close>)
qed

section \<open>How the transaction ends\<close>

lemma rollback_restored:
  assumes "rollback E installed rb shims old new log = ([], log')"
  shows "\<exists>mid. log' = mid @ looked_all (installed # shims) old"
  using assms unfolding rollback_def by (auto split: prod.splits if_splits dest!: check_restored_ok simp del: check_restored.simps)

lemma fail_restored:
  assumes "fail_changed E r cause log = (res, log')"
  shows "res \<noteq> Applied \<and> (\<forall>e. res \<noteq> Refused e)
    \<and> (\<forall>e. res = Restored e \<longrightarrow> (\<exists>mid. log' = mid @ looked_all (rmInstalled r # rmShims r) (rmOld r)))"
  using assms rollback_restored by (fastforce simp: fail_changed_def split: prod.splits list.splits)

lemma rest_applied:
  assumes "replace_rest E r log = (None, log')"
  shows "\<exists>mid. log' = mid @ Smoked True # looked_all (rmInstalled r # rmShims r) (rmNew r)"
  using assms unfolding replace_rest_def smoke_def Let_def
  by (auto split: prod.splits option.splits if_splits dest!: require_all_ok simp del: require_all.simps)

lemma replace_all_ends:
  assumes "replace_all E r [] = (res, log)"
  shows "res = Applied \<Longrightarrow> \<exists>mid. log = mid @ Smoked True # looked_all (rmInstalled r # rmShims r) (rmNew r)"
    "res = Restored e \<Longrightarrow> \<exists>mid. log = mid @ looked_all (rmInstalled r # rmShims r) (rmOld r)"
    "res = Refused e \<Longrightarrow> (\<exists>x. log = [Looked (rmInstalled r) x])
      \<or> log = [Looked (rmInstalled r) (Inr (rmOld r)), Replaced (rmStaged r) (rmInstalled r) False, Looked (rmInstalled r) (Inr (rmOld r))]"
proof -
  obtain x log1 where q: "requireApplyDigest E (rmInstalled r) (rmOld r) [] = (x, log1)" by fastforce
  obtain ok log2 where p: "replace_file E (rmStaged r) (rmInstalled r) False log1 = (ok, log2)" by fastforce
  obtain f log3 where l: "look_digest E (rmInstalled r) log2 = (f, log3)" by fastforce
  obtain y log4 where m: "replace_rest E r log2 = (y, log4)" by fastforce
  have ra: "y = None \<Longrightarrow> \<exists>mid. log4 = mid @ Smoked True # looked_all (rmInstalled r # rmShims r) (rmNew r)"
    using rest_applied m by blast
  note d = replace_all_def q p l m
  show "res = Applied \<Longrightarrow> \<exists>mid. log = mid @ Smoked True # looked_all (rmInstalled r # rmShims r) (rmNew r)"
    using assms ra by (cases x; cases ok; cases y) (auto simp: d dest: fail_restored split: if_splits)
  show "res = Restored e \<Longrightarrow> \<exists>mid. log = mid @ looked_all (rmInstalled r # rmShims r) (rmOld r)"
    using assms by (cases x; cases ok; cases y) (auto simp: d dest: fail_restored split: if_splits)
  show "res = Refused e \<Longrightarrow> (\<exists>x. log = [Looked (rmInstalled r) x])
      \<or> log = [Looked (rmInstalled r) (Inr (rmOld r)), Replaced (rmStaged r) (rmInstalled r) False, Looked (rmInstalled r) (Inr (rmOld r))]"
  proof (cases x)
    case None
    assume "res = Refused e"
    then have "\<not> ok \<and> f = Inr (rmOld r) \<and> log = log3" using assms None
      by (cases ok; cases y) (auto simp: d dest: fail_restored split: if_splits)
    then show ?thesis using require_ok [OF q [unfolded None]] replace_cases(1) [OF p] look_cases(1) [OF l] by simp
  next
    case (Some e')
    then show "res = Refused e \<Longrightarrow> ?thesis" using assms require_log [OF q] by (auto simp: d)
  qed
qed

lemma replace_all_kept:
  assumes "replace_all E r [] = (Recovery_Kept cause errors, log)"
  shows "errors \<noteq> []"
proof -
  have k: "fail_changed E r c l = (Recovery_Kept c' es, l') \<Longrightarrow> es \<noteq> []" for c c' es l l'
    by (auto simp: fail_changed_def split: prod.splits list.splits)
  show ?thesis using assms by (auto simp: replace_all_def dest: k split: prod.splits option.splits bool.splits if_splits)
qed

section \<open>The whole update\<close>

text \<open>What a transaction that was started replaces: the bytes of the verified release, over those of the installed one.\<close>

lemma validated_replacement:
  assumes "validate_replacement U H A v path = Inr r"
  shows "rmNew r = vfDigest v \<and> rmOld r = vfInstalledDigest v \<and> rmNew r \<noteq> rmOld r \<and> rmTarget r = vfTarget v \<and> vfTarget v \<noteq> vfInstalledVersion v"
proof -
  from assms obtain target current where t: "parseVersion (vfTarget v) = Inr target" "currentVersion U (vfInstalledVersion v) = Inr current"
    "compare current target \<noteq> 0" and r: "rmNew r = vfDigest v" "rmOld r = vfInstalledDigest v" "rmNew r \<noteq> rmOld r" "rmTarget r = svRaw target"
    by (auto simp: validate_replacement_def rbind_Inr_iff Let_def split: if_splits)
  have w: "version_wf target" "svRaw target = vfTarget v" "version_wf current" "svRaw current = vfInstalledVersion v"
    using parse_version_wf [OF t(1)] current_version_raw [OF t(2)] by simp_all
  have "vfTarget v \<noteq> vfInstalledVersion v"
  proof
    assume "vfTarget v = vfInstalledVersion v"
    then have "current = target" using t(1,2) by (auto simp: currentVersion_def rbind_Inr_iff split: if_splits)
    then show False using t(3) compare_precedence [OF w(1) w(1)] by simp
  qed
  with r w show ?thesis by simp
qed

lemma finished_update:
  assumes "applyUpdate U E A v path = (Ended outcome, log, left)"
  shows "\<exists>r. rmNew r = vfDigest v \<and> rmOld r = vfInstalledDigest v \<and> rmTarget r = vfTarget v \<and> replace_all E r [] = (outcome, log)
    \<and> ((\<exists>cause errors. outcome = Recovery_Kept cause errors) \<longrightarrow> left)"
proof -
  from assms obtain checked dir where c: "validate_replacement U (aeHost E) A v path = Inr checked"
    and d: "paMade A (hpDir (aeHost E) (rmInstalled checked)) = Some dir"
    unfolding applyUpdate_def Let_def by (auto split: sum.splits option.splits)
  let ?r = "checked\<lparr>rmRollback := hpJoin (aeHost E) dir ''cb.exe''\<rparr>"
  obtain out l where e: "replace_all E ?r [] = (out, l)" by fastforce
  have "out = outcome \<and> l = log \<and> ((\<exists>cause errors. outcome = Recovery_Kept cause errors) \<longrightarrow> left)"
    using assms by (auto simp: applyUpdate_def Let_def c d e split: if_splits)
  then show ?thesis using validated_replacement [OF c] e by (intro exI [of _ ?r]) simp
qed

end
