(* ===== verification/Update_Helper.thy ===== *)
theory Update_Helper
  imports Update_Apply
begin

text \<open>
  The helper process of a self update (\<open>internal/selfupdate/helper.go\<close>) and the command (\<open>updateCommand\<close> of
  \<open>selfupdate.go\<close>). The command stages and verifies a release and launches a copy of the installed
  executable with a request; the helper waits for the command to exit, verifies everything again and
  replaces the files only when the result is the one that the request expects. Each of them is a
  function from the answers it gets to its effects, in their order, and its result.
\<close>

definition helperDirPrefix :: string where "helperDirPrefix = ''.container-bin-update-helper-''"
definition helperExecutableName :: string where "helperExecutableName = ''cb-update-helper.exe''"
definition helperRequestName :: string where "helperRequestName = ''request.json''"
definition maxHelperRequestSize :: nat where "maxHelperRequestSize = 65536"

section \<open>The request\<close>

record helper_plan =
  phCurrent :: string
  phTarget :: string
  phChannel :: string
  phStatus :: string
  phOS :: string
  phArch :: string
  phReleaseURL :: string
  phBinary :: asset
  phArchive :: asset
  phChecksums :: asset
  phExpectedRepo :: string
  phExpectedRef :: string
  phWorkflow :: string
  phDowngradeCurrent :: string
  phDowngradeTarget :: string
  phLayout :: nat

definition helperPlanFromPlan :: "update_plan \<Rightarrow> helper_plan" where
  "helperPlanFromPlan p = \<lparr>phCurrent = upCurrent p, phTarget = upTarget p, phChannel = upChannel p, phStatus = upStatus p, phOS = upOS p,
     phArch = upArch p, phReleaseURL = upReleaseURL p, phBinary = upBinary p, phArchive = upArchive p, phChecksums = upChecksums p,
     phExpectedRepo = upExpectedRepo p, phExpectedRef = upExpectedRef p, phWorkflow = upWorkflow p,
     phDowngradeCurrent = daCurrent (upDowngrade p), phDowngradeTarget = daTarget (upDowngrade p), phLayout = upLayout p\<rparr>"

definition plan_of_helper :: "helper_plan \<Rightarrow> update_plan" where
  "plan_of_helper p = \<lparr>upCurrent = phCurrent p, upTarget = phTarget p, upChannel = phChannel p, upStatus = phStatus p, upOS = phOS p,
     upArch = phArch p, upReleaseURL = phReleaseURL p, upBinary = phBinary p, upArchive = phArchive p, upChecksums = phChecksums p,
     upExpectedRepo = phExpectedRepo p, upExpectedRef = phExpectedRef p, upWorkflow = phWorkflow p,
     upDowngrade = \<lparr>daCurrent = phDowngradeCurrent p, daTarget = phDowngradeTarget p\<rparr>, upLayout = phLayout p\<rparr>"

lemma plan_of_helper_inverse [simp]: "plan_of_helper (helperPlanFromPlan p) = p"
  by (cases p; cases "upDowngrade p") (simp add: plan_of_helper_def helperPlanFromPlan_def)

text \<open>The expected verification has the fields of the verification, so a record of the same type is used for it.\<close>

record helper_request =
  hrVersion :: int
  hrParentPID :: int
  hrHelperDir :: string
  hrHelperExecutable :: string
  hrHelperSHA256 :: string
  hrInstalledExecutable :: string
  hrGitHubExecutable :: string
  hrStaged :: staged
  hrPlan :: helper_plan
  hrExpected :: verified_release

datatype helper_error =
    He_PID
  | He_Plan update_error
  | He_File file_error
  | He_Name string
  | He_Staging
  | He_Identity
  | He_Directory
  | He_Prepare
  | He_Copy
  | He_Size
  | He_Write
  | He_Start
  | He_Parse
  | He_Version
  | He_Layout
  | He_Running
  | He_Digest

definition validateHelperStaging :: "unicode \<Rightarrow> host_paths \<Rightarrow> update_plan \<Rightarrow> staged \<Rightarrow> verified_release \<Rightarrow> string \<Rightarrow> bool" where
  "validateHelperStaging U H plan s v installed =
     (sgOwned s \<and> sgTarget s = upTarget plan \<and> sgDir s \<noteq> []
      \<and> (let dir = hpClean H (sgDir s); verifiedPath = hpClean H (vfBinaryPath v) in
         hpIsAbs H dir \<and> has_prefix (hpBase H dir) stagingPrefix \<and> equal_fold U (hpDir H dir) (hpDir H installed)
         \<and> hpClean H (sgBinaryPath s) = hpJoin H dir (asName (upBinary plan))
         \<and> hpClean H (sgChecksumsPath s) = hpJoin H dir (asName (upChecksums plan))
         \<and> equal_fold U (hpDir H verifiedPath) dir \<and> equal_fold U (hpBase H verifiedPath) ''cb.exe''
         \<and> vfTarget v = upTarget plan))"

section \<open>The launch\<close>

record launch_answers =
  laLooks :: "nat \<Rightarrow> looks"
  laMade :: "string \<Rightarrow> string option"
  laPrepared :: bool
  laSize :: "helper_request \<Rightarrow> nat"
  laWritten :: bool
  laStarted :: bool
  laRemoved :: bool

datatype helper_effect =
    Made_Helper string
  | Started_Helper string string helper_request
  | Removed_Helper string

text \<open>In the directory of the helper: the copy, the request and the start.\<close>

definition launch_in ::
    "host_paths \<Rightarrow> launch_answers \<Rightarrow> update_plan \<Rightarrow> staged \<Rightarrow> verified_release \<Rightarrow> string \<Rightarrow> string \<Rightarrow> int \<Rightarrow> string \<Rightarrow> (helper_error, helper_effect) result" where
  "launch_in H A plan s v installed gh pid dir =
     (if \<not> laPrepared A then Inl He_Prepare
      else
      rbind (map_err He_File (canonicalVerificationFile H (laLooks A 3) (hpJoin H dir helperExecutableName))) (\<lambda>(helperPath, helperInfo).
      rbind (map_err He_File (hashRegularFile (laLooks A 4) helperPath helperInfo)) (\<lambda>(digest, bytes).
        if digest \<noteq> vfInstalledDigest v \<or> bytes \<noteq> vfInstalledSize v then Inl He_Copy
        else (let request = \<lparr>hrVersion = 1, hrParentPID = pid, hrHelperDir = dir, hrHelperExecutable = helperPath, hrHelperSHA256 = digest,
            hrInstalledExecutable = installed, hrGitHubExecutable = gh, hrStaged = s, hrPlan = helperPlanFromPlan plan, hrExpected = v\<rparr> in
          if maxHelperRequestSize < laSize A request then Inl He_Size
          else if \<not> laWritten A then Inl He_Write
          else if \<not> laStarted A then Inl He_Start
          else Inr (Started_Helper helperPath (hpJoin H dir helperRequestName) request)))))"

definition launchHelper ::
    "unicode \<Rightarrow> host_paths \<Rightarrow> launch_answers \<Rightarrow> update_plan \<Rightarrow> staged \<Rightarrow> verified_release \<Rightarrow> string \<Rightarrow> string \<Rightarrow> int
      \<Rightarrow> helper_effect list \<times> (helper_error, unit) result" where
  "launchHelper U H A plan s v path gh pid =
     (case (if pid \<le> 0 then Inl He_PID
       else
       rbind (map_err He_Plan (validateVerificationPlan U plan)) (\<lambda>_.
       rbind (map_err He_File (canonicalApplyFile H (laLooks A 0) path)) (\<lambda>(installed, installedInfo).
         if \<not> equal_fold U (hpBase H installed) ''cb.exe'' then Inl (He_Name (hpBase H installed))
         else
         rbind (map_err He_File (canonicalVerificationFile H (laLooks A 1) gh)) (\<lambda>(ghPath, _).
           if \<not> validateHelperStaging U H plan s v installed then Inl He_Staging
           else if vfInstalledPath v \<noteq> installed \<or> vfInstalledSize v \<noteq> fiSize installedInfo then Inl He_Identity
           else
           rbind (map_err He_File (hashRegularFile (laLooks A 2) installed installedInfo)) (\<lambda>(digest, bytes).
             if digest \<noteq> vfInstalledDigest v \<or> bytes \<noteq> vfInstalledSize v then Inl He_Identity
             else Inr (installed, ghPath)))))) of
        Inl e \<Rightarrow> ([], Inl e)
      | Inr (installed, ghPath) \<Rightarrow>
        (case laMade A (hpDir H installed) of
           None \<Rightarrow> ([], Inl He_Directory)
         | Some dir \<Rightarrow>
           (case launch_in H A plan s v installed ghPath pid dir of
              Inl e \<Rightarrow> (Made_Helper dir # (if laRemoved A then [Removed_Helper dir] else []), Inl e)
            | Inr started \<Rightarrow> ([Made_Helper dir, started], Inr ()))))"

section \<open>The helper\<close>

definition parseHelperArgs :: "host_paths \<Rightarrow> string list \<Rightarrow> string option" where
  "parseHelperArgs H args = (case args of
     [flag, path] \<Rightarrow> (if flag \<noteq> ''--request'' \<or> path = [] \<or> \<not> hpIsAbs H path \<or> hpClean H path \<noteq> path \<or> hpBase H path \<noteq> helperRequestName
       then None else Some path)
   | _ \<Rightarrow> None)"

text \<open>\<open>hlDecode\<close>: the request in the file, when it is one value with known fields only.\<close>

record helper_answers =
  hlLooks :: "nat \<Rightarrow> looks"
  hlDecode :: "string \<Rightarrow> helper_request option"
  hlRunning :: "string option"
  hlVolume :: "string \<Rightarrow> string"
  hlParentGone :: "int \<Rightarrow> bool"
  hlVerify :: "update_plan \<Rightarrow> string \<Rightarrow> string \<Rightarrow> string \<Rightarrow> string \<Rightarrow> (verify_release_error, verified_release) result"
  hlApply :: "verified_release \<Rightarrow> string \<Rightarrow> bool"
  hlStagedCleaned :: bool
  hlCleanupLaunched :: bool

definition request_layout :: "unicode \<Rightarrow> host_paths \<Rightarrow> helper_answers \<Rightarrow> string \<Rightarrow> helper_request \<Rightarrow> bool" where
  "request_layout U H A requestPath request =
     (let dir = hpClean H (hrHelperDir request); installed = hpClean H (hrInstalledExecutable request) in
      hpIsAbs H dir \<and> has_prefix (hpBase H dir) helperDirPrefix \<and> hpClean H requestPath = hpJoin H dir helperRequestName
      \<and> hpIsAbs H installed \<and> equal_fold U (hpDir H dir) (hpDir H installed) \<and> equal_fold U (hlVolume A dir) (hlVolume A installed)
      \<and> hpClean H (hrHelperExecutable request) = hpJoin H dir helperExecutableName)"

text \<open>The digest of the running executable, which must be the helper that the request names.\<close>

definition running_helper :: "unicode \<Rightarrow> host_paths \<Rightarrow> helper_answers \<Rightarrow> helper_request \<Rightarrow> (helper_error, string) result" where
  "running_helper U H A request = (case hlRunning A of
     None \<Rightarrow> Inl He_Running
   | Some running \<Rightarrow>
     rbind (map_err He_File (canonicalVerificationFile H (hlLooks A 2) running)) (\<lambda>(current, currentInfo).
     rbind (map_err He_File (canonicalVerificationFile H (hlLooks A 3) (hrHelperExecutable request))) (\<lambda>(helper, helperInfo).
       if \<not> same_file currentInfo helperInfo \<or> \<not> equal_fold U current helper then Inl He_Running
       else rbind (map_err He_File (hashRegularFile (hlLooks A 4) helper helperInfo)) (\<lambda>(digest, _). Inr digest))))"

definition check_request :: "unicode \<Rightarrow> host_paths \<Rightarrow> helper_answers \<Rightarrow> string \<Rightarrow> helper_request \<Rightarrow> (helper_error, helper_request) result" where
  "check_request U H A requestPath request =
     (if hrVersion request \<noteq> 1 \<or> hrParentPID request \<le> 0 then Inl He_Version
      else if \<not> request_layout U H A requestPath request then Inl He_Layout
      else
      rbind (running_helper U H A request) (\<lambda>digest.
        if digest \<noteq> hrHelperSHA256 request \<or> digest \<noteq> vfInstalledDigest (hrExpected request) then Inl He_Digest
        else if hrInstalledExecutable request \<noteq> vfInstalledPath (hrExpected request) then Inl He_Identity
        else
        rbind (map_err He_Plan (validateVerificationPlan U (plan_of_helper (hrPlan request)))) (\<lambda>_.
          let owned = (hrStaged request)\<lparr>sgOwned := True\<rparr> in
          if \<not> validateHelperStaging U H (plan_of_helper (hrPlan request)) owned (hrExpected request) (hrInstalledExecutable request)
          then Inl He_Staging else Inr (request\<lparr>hrStaged := owned\<rparr>))))"

definition loadHelperRequest :: "unicode \<Rightarrow> host_paths \<Rightarrow> helper_answers \<Rightarrow> string \<Rightarrow> (helper_error, helper_request) result" where
  "loadHelperRequest U H A path =
     rbind (map_err He_File (canonicalVerificationFile H (hlLooks A 0) path)) (\<lambda>(requestPath, info).
       if fiSize info = 0 \<or> maxHelperRequestSize < fiSize info then Inl He_Size
       else
       rbind (map_err He_File (readExactVerificationFile (hlLooks A 1) requestPath info)) (\<lambda>data. case hlDecode A data of
         None \<Rightarrow> Inl He_Parse
       | Some request \<Rightarrow> check_request U H A requestPath request))"

datatype run_effect = Apply_Release verified_release string | Clean_Staged staged | Launch_Cleanup string

datatype helper_run_error = Rn_Load helper_error | Rn_Wait | Rn_Verify verify_release_error | Rn_Differs | Rn_Apply | Rn_Cleanup

definition run_request :: "helper_answers \<Rightarrow> helper_request \<Rightarrow> run_effect list \<times> (helper_run_error, unit) result" where
  "run_request A r =
     (if \<not> hlParentGone A (hrParentPID r) then ([], Inl Rn_Wait)
      else (case hlVerify A (plan_of_helper (hrPlan r)) (sgBinaryPath (hrStaged r)) (sgChecksumsPath (hrStaged r)) (hrInstalledExecutable r) (hrGitHubExecutable r) of
          Inl e \<Rightarrow> ([], Inl (Rn_Verify e))
        | Inr v \<Rightarrow>
          (if hrExpected r \<noteq> v then ([], Inl Rn_Differs)
           else ([Apply_Release v (hrInstalledExecutable r)], if hlApply A v (hrInstalledExecutable r) then Inr () else Inl Rn_Apply))))"

definition runHelper :: "unicode \<Rightarrow> host_paths \<Rightarrow> helper_answers \<Rightarrow> string \<Rightarrow> run_effect list \<times> (helper_run_error, unit) result" where
  "runHelper U H A path = (case loadHelperRequest U H A path of
     Inl e \<Rightarrow> ([], Inl (Rn_Load e))
   | Inr r \<Rightarrow> (case run_request A r of (effects, res) \<Rightarrow>
       (effects @ [Clean_Staged (hrStaged r), Launch_Cleanup (hrHelperDir r)],
        rbind res (\<lambda>_. if hlStagedCleaned A \<and> hlCleanupLaunched A then Inr () else Inl Rn_Cleanup))))"

section \<open>The command\<close>

record command_answers =
  cmExecutable :: "string option"
  cmLooks :: "nat \<Rightarrow> looks"
  cmPlan :: "(update_error, update_plan) result"
  cmStage :: "update_plan \<Rightarrow> string \<Rightarrow> (stage_error, staged) result"
  cmVerify :: "update_plan \<Rightarrow> string \<Rightarrow> string \<Rightarrow> string \<Rightarrow> string \<Rightarrow> (verify_release_error, verified_release) result"
  cmLaunched :: bool

datatype command_error =
    Cm_Executable
  | Cm_Installed file_error
  | Cm_Name string
  | Cm_Gh file_error
  | Cm_Plan update_error
  | Cm_Stage stage_error
  | Cm_Verify verify_release_error
  | Cm_Launch

datatype command_effect = Staged_Release staged | Launched_Helper update_plan staged verified_release string string | Cleaned_Stage staged

definition apply_inputs :: "unicode \<Rightarrow> host_paths \<Rightarrow> command_answers \<Rightarrow> update_options \<Rightarrow> (command_error, string \<times> string) result" where
  "apply_inputs U H A opts =
     (if \<not> uoApply opts then Inr ([], [])
      else (case cmExecutable A of
          None \<Rightarrow> Inl Cm_Executable
        | Some executable \<Rightarrow>
          rbind (map_err Cm_Installed (canonicalApplyFile H (cmLooks A 0) executable)) (\<lambda>(installed, _).
            if \<not> equal_fold U (hpBase H installed) ''cb.exe'' then Inl (Cm_Name (hpBase H installed))
            else rbind (map_err Cm_Gh (canonicalVerificationFile H (cmLooks A 1) (uoGitHubCLI opts))) (\<lambda>(gh, _). Inr (installed, gh)))))"

text \<open>A stage whose release was not launched is cleaned up.\<close>

definition runUpdate :: "unicode \<Rightarrow> host_paths \<Rightarrow> command_answers \<Rightarrow> update_options \<Rightarrow> command_effect list \<times> (command_error, unit) result" where
  "runUpdate U H A opts =
     (case rbind (apply_inputs U H A opts) (\<lambda>(installed, gh). rbind (map_err Cm_Plan (cmPlan A)) (\<lambda>plan. Inr (installed, gh, plan))) of
        Inl e \<Rightarrow> ([], Inl e)
      | Inr (installed, gh, plan) \<Rightarrow>
        (if uoCheck opts \<or> upCurrent plan = upTarget plan then ([], Inr ())
         else (case cmStage A plan installed of
             Inl e \<Rightarrow> ([], Inl (Cm_Stage e))
           | Inr s \<Rightarrow>
             (case cmVerify A plan (sgBinaryPath s) (sgChecksumsPath s) installed gh of
                Inl e \<Rightarrow> ([Staged_Release s, Cleaned_Stage s], Inl (Cm_Verify e))
              | Inr v \<Rightarrow>
                (if cmLaunched A then ([Staged_Release s, Launched_Helper plan s v installed gh], Inr ())
                 else ([Staged_Release s, Cleaned_Stage s], Inl Cm_Launch))))))"

section \<open>What they guarantee\<close>

lemma running_digest:
  assumes "running_helper U H A request = Inr digest"
  shows "\<exists>helper info. read_digest (hashRegularFile (hlLooks A 4) helper info) = Some digest"
proof -
  from assms obtain helper info bytes where "hashRegularFile (hlLooks A 4) helper info = Inr (digest, bytes)"
    by (auto simp: running_helper_def rbind_Inr_iff split: option.splits if_splits)
  then show ?thesis by (intro exI [of _ helper] exI [of _ info]) (simp add: read_digest_def)
qed

lemma check_request_ok:
  assumes "check_request U H A requestPath request = Inr r"
  shows "running_helper U H A request = Inr (hrHelperSHA256 request)" "vfInstalledDigest (hrExpected request) = hrHelperSHA256 request"
    "hrInstalledExecutable request = vfInstalledPath (hrExpected request)"
    "\<exists>t. validateVerificationPlan U (plan_of_helper (hrPlan request)) = Inr t"
    "validateHelperStaging U H (plan_of_helper (hrPlan request)) ((hrStaged request)\<lparr>sgOwned := True\<rparr>) (hrExpected request) (hrInstalledExecutable request)"
    "r = request\<lparr>hrStaged := (hrStaged request)\<lparr>sgOwned := True\<rparr>\<rparr>"
  using assms
  by (cases "running_helper U H A request"; cases "validateVerificationPlan U (plan_of_helper (hrPlan request))";
      simp add: check_request_def Let_def split: if_splits)+

lemma loaded_request:
  assumes "loadHelperRequest U H A path = Inr r"
  shows "(\<exists>target current. plan_sound U (plan_of_helper (hrPlan r)) current target)
    \<and> validateHelperStaging U H (plan_of_helper (hrPlan r)) (hrStaged r) (hrExpected r) (hrInstalledExecutable r)
    \<and> vfInstalledDigest (hrExpected r) = hrHelperSHA256 r \<and> hrInstalledExecutable r = vfInstalledPath (hrExpected r)
    \<and> (\<exists>helper info. read_digest (hashRegularFile (hlLooks A 4) helper info) = Some (hrHelperSHA256 r))"
proof -
  from assms obtain data requestPath request where "hlDecode A data = Some request" and c: "check_request U H A requestPath request = Inr r"
    by (auto simp: loadHelperRequest_def rbind_Inr_iff split: if_splits option.splits)
  note k = check_request_ok [OF c]
  from k(4) have "\<exists>target current. plan_sound U (plan_of_helper (hrPlan request)) current target" unfolding verification_plan_iff by blast
  with k running_digest [OF k(1)] show ?thesis by simp
qed

lemma helper_applies:
  assumes "runHelper U H A path = (effects, res)" "Apply_Release v installed \<in> set effects"
  shows "\<exists>r. loadHelperRequest U H A path = Inr r \<and> hrExpected r = v \<and> installed = hrInstalledExecutable r
    \<and> hlParentGone A (hrParentPID r)
    \<and> hlVerify A (plan_of_helper (hrPlan r)) (sgBinaryPath (hrStaged r)) (sgChecksumsPath (hrStaged r)) installed (hrGitHubExecutable r) = Inr v
    \<and> effects = [Apply_Release v installed, Clean_Staged (hrStaged r), Launch_Cleanup (hrHelperDir r)]"
  using assms by (auto simp: runHelper_def run_request_def split: sum.splits if_splits prod.splits)

end
