(* ===== verification/Supply_Properties.thy ===== *)
theory Supply_Properties
  imports Image_Verify Update_Helper Policy_Properties
begin

text \<open>The properties of what reaches the host from outside: verified images, their lock entries, and self updates.\<close>

section \<open>An image\<close>

definition pin_of :: "string \<Rightarrow> pin_observation" where
  "pin_of c = (let i = \<lparr>fiRegular = True, fiSymlink = False, fiSize = length c, fiId = 1\<rparr> in
     \<lparr>poInfo = Some i, poOpened = Some i, poContents = Some c, poPost = Some i\<rparr>)"

definition iv_rule :: image_trust_rule where
  "iv_rule = \<lparr>trRepository = ''ghcr.io/acme'', trMechanism = ImageTrustKeyless, trIssuer = ''https://issuer'', trSubject = ''release@acme'',
     trPublicKey = no_pin, trNetworkMode = ImageTrustOnline\<rparr>"

definition iv_policy :: policy where
  "iv_policy = zero_policy\<lparr>pSchemaVersion := 3, pFingerprint := hex_encode (Sum256 ''policy''),
     pCosignVerifier := \<lparr>fpPath = ''/opt/cosign'', fpSHA256 = hex_encode (Sum256 ''cosign'')\<rparr>, pImageTrustRules := [iv_rule]\<rparr>"

definition iv_now :: gotime where
  "iv_now = \<lparr>gYear = 2026, gMonth = 1, gDay = 2, gHour = 3, gMin = 4, gSec = 5, gNsec = 6, gZone = None\<rparr>"

definition iv_look :: "string \<Rightarrow> pin_observation" where
  "iv_look path = pin_of (if path = ''/tmp/s/cosign.exe'' then ''cosign'' else ''{b}'')"

definition iv_answers :: verify_answers where
  "iv_answers = \<lparr>vaStage = Some ''/tmp/s'', vaWrite = (\<lambda>_. True), vaStaged = iv_look, vaDownload = (\<lambda>_. \<lparr>caStdout = ''{b}'', caStderr = [], caOk = True\<rparr>),
     vaAfterDownload = iv_look, vaVerify = (\<lambda>_. \<lparr>caStdout = [], caStderr = [], caOk = True\<rparr>), vaCanceled = (\<lambda>_. False),
     vaAfterVerify = iv_look, vaAtEnd = iv_look, vaNow = iv_now, vaCleanup = True\<rparr>"

definition iv_stream :: "string \<Rightarrow> json_value list \<times> bool" where
  "iv_stream s = ([\<lparr>jvRaw = s, jvMembers = Some 1\<rparr>], True)"

definition iv_result :: verification where
  "iv_result = \<lparr>vrMechanism = ImageTrustKeyless, vrNetworkMode = ImageTrustOnline, vrRepository = ''ghcr.io/acme/tool'',
     vrDigest = ''sha256:'' @ sample_digest, vrSigner = ''release@acme'', vrIssuer = ''https://issuer'',
     vrVerifierSHA256 = hex_encode (Sum256 ''cosign''), vrPolicyFingerprint = hex_encode (Sum256 ''policy''),
     vrOutputSHA256 = hex_encode (Sum256 ''{b}''), vrBundleSHA256s = [hex_encode (Sum256 ''{b}'')], vrVerifiedAt = iv_now\<lparr>gNsec := 0\<rparr>, vrSignatureCount = 1\<rparr>"

abbreviation iv_verify :: "string \<Rightarrow> string \<Rightarrow> (verify_error, verification) result" where
  "iv_verify \<equiv> Verify unix_paths ascii_unicode iv_stream (\<lambda>_. pin_of ''cosign'') iv_answers iv_policy"

lemma iv_staged: "verifyStagedSnapshot (pin_of c) \<lparr>asContents = c, asDigest = hex_encode (Sum256 c)\<rparr>"
  by (simp add: verifyStagedSnapshot_def pin_of_def Let_def same_file_def)

lemma iv_stage:
  assumes "hpJoin unix_paths ''/tmp/s'' name = path" "iv_look path = pin_of c"
  shows "stageSnapshot unix_paths ascii_unicode iv_answers ''/tmp/s'' name \<lparr>asContents = c, asDigest = hex_encode (Sum256 c)\<rparr> = Inr path"
  using assms iv_staged by (simp add: stageSnapshot_def Let_def fingerprint_ok iv_answers_def)

lemma iv_paths: "hpJoin unix_paths ''/tmp/s'' verifierName = ''/tmp/s/cosign.exe''"
  "hpJoin unix_paths ''/tmp/s'' (bundle_name 1) = ''/tmp/s/bundle-001.sigstore.json''"
  by code_simp+

lemma iv_trust: "ImageTrustFor ascii_unicode iv_policy sample_ref = Inr (Some iv_rule)"
proof -
  have "select_rule ''ghcr.io/acme/tool'' [iv_rule] None = Some iv_rule" by code_simp
  then show ?thesis by (simp add: ImageTrustFor_def sample_canonical iv_policy_def)
qed

lemma iv_request: "validateRequest ascii_unicode iv_policy sample_ref sample_resolved
  = Inr (''ghcr.io/acme/tool'', ''sha256:'' @ sample_digest, ''ghcr.io/acme/tool@'' @ ''sha256:'' @ sample_digest, iv_rule)"
proof -
  have "splitResolvedDigest ascii_unicode sample_resolved = Inr (''ghcr.io/acme/tool'', ''sha256:'' @ sample_digest)" by code_simp
  then have "canonicalVerificationTarget ascii_unicode sample_ref sample_resolved
      = Inr (''ghcr.io/acme/tool'', ''sha256:'' @ sample_digest, ''ghcr.io/acme/tool@'' @ ''sha256:'' @ sample_digest)"
    by (simp add: canonicalVerificationTarget_def sample_canonical)
  then show ?thesis using iv_trust by (simp add: validateRequest_def fingerprint_ok) (simp add: iv_policy_def Managed_def fingerprint_ok)
qed

lemma iv_verified: "iv_verify sample_ref sample_resolved = Inr iv_result"
proof -
  let ?s = "\<lambda>c. \<lparr>asContents = c, asDigest = hex_encode (Sum256 c)\<rparr>"
  let ?d = "''sha256:'' @ sample_digest"
  let ?q = "\<lparr>vqResolved = ''ghcr.io/acme/tool@'' @ ?d, vqRepository = ''ghcr.io/acme/tool'', vqDigest = ?d, vqRule = iv_rule,
    vqVerifier = ?s ''cosign'', vqKey = empty_snapshot, vqTrustedRoot = empty_snapshot, vqFingerprint = pFingerprint iv_policy\<rparr>"
  have modes: "trMechanism iv_rule = ImageTrustKeyless" "trNetworkMode iv_rule = ImageTrustOnline" "ImageTrustKeyless \<noteq> ImageTrustKey"
    "ImageTrustOnline \<noteq> ImageTrustOfflineBundle" by code_simp+
  have v: "AuthenticateCosignVerifier iv_policy (\<lambda>_. pin_of ''cosign'') = Inr (''cosign'', hex_encode (Sum256 ''cosign''))"
    by (simp add: AuthenticateCosignVerifier_def iv_policy_def authenticatePinnedFile_def pin_of_def Let_def same_file_def)
  have sv: "stageSnapshot unix_paths ascii_unicode iv_answers ''/tmp/s'' verifierName (?s ''cosign'') = Inr ''/tmp/s/cosign.exe''"
    by (rule iv_stage [OF iv_paths(1)]) (simp add: iv_look_def)
  have sb: "stageSnapshot unix_paths ascii_unicode iv_answers ''/tmp/s'' (bundle_name 1) (?s ''{b}'') = Inr ''/tmp/s/bundle-001.sigstore.json''"
    by (rule iv_stage [OF iv_paths(2)]) (simp add: iv_look_def)
  have m: "material_unchanged iv_look ?q ''/tmp/s/cosign.exe'' None None" using iv_staged by (simp add: material_unchanged_def iv_look_def)
  have d: "parseDownloadedBundles iv_stream ''{b}'' = Inr [''{b}'']" by code_simp
  have ab: "verifyStagedSnapshot (iv_look ''/tmp/s/bundle-001.sigstore.json'') (?s ''{b}'')" using iv_staged by (simp add: iv_look_def)
  have b: "bundle_round unix_paths ascii_unicode iv_answers ?q ''/tmp/s'' [] [] (0, ''{b}'') \<lparr>bsSet = [], bsCount = 0, bsStageOk = True\<rparr>
      = Inr \<lparr>bsSet = [hex_encode (Sum256 ''{b}'')], bsCount = 1, bsStageOk = True\<rparr>"
    using sb ab by (simp add: bundle_round_def Let_def) (simp add: iv_answers_def too_long_def)
  have "verify_in_stage unix_paths ascii_unicode iv_stream iv_answers ?q ''/tmp/s'' = Inr iv_result"
    using m b by (simp add: verify_in_stage_def sv stage_identity_def stage_root_def modes Let_def path_text_def)
      (simp add: iv_answers_def d too_long_def maxVerifierOutput_def iv_result_def iv_rule_def iv_policy_def)
  then have "verifyAuthenticated unix_paths ascii_unicode iv_stream iv_answers ?q = Inr iv_result"
    by (simp add: verifyAuthenticated_def modes Let_def) (simp add: iv_answers_def)
  then show ?thesis by (simp add: Verify_def iv_request v modes to_snapshot_def)
qed

section \<open>Verification\<close>



section \<open>The lockfile\<close>

text \<open>C9: what locking records for an image with a trust rule is evidence of a verification of exactly the locked
  digest, and the policy accepts the entry with this evidence when the tool runs, as long as the repository of
  the entry is allowed.\<close>

theorem locked_evidence_accepted:
  assumes "resolveRepositoryImageWithTrust U p (Verify H U stream ob A p) resolved configured = Inr entry"
    and "ImageTrustFor U p configured = Inr (Some rule)"
    and "pAllowedRepositories p = [] \<or> (within U p configured \<and> within U p (leResolved entry))"
  shows "\<exists>r ev. Verify H U stream ob A p configured (leResolved entry) = Inr r \<and> lockEvidenceFromVerification r = Inr ev
    \<and> leTrust entry = Some ev \<and> teDigest ev = vrDigest r
    \<and> AuthorizeResolvedImage U p configured (leResolved entry) False (RuntimeTrustEvidence entry) = Inr ()"
proof -
  from evidence_recorded [OF assms(1,2)] obtain r ev re where r: "Verify H U stream ob A p configured (leResolved entry) = Inr r"
    "lockEvidenceFromVerification r = Inr ev" "leTrust entry = Some ev" "RuntimeTrustEvidence entry = Some re"
    "evidence_binds U p rule configured (leResolved entry) re" by blast
  have "pImageTrustRules p \<noteq> []" using assms(2) by (auto simp: ImageTrustFor_def rbind_Inr_iff)
  then have "trust_lookup U p configured = Inr (Some rule)" using assms(2) by (simp add: trust_lookup_def)
  then have "AuthorizeResolvedImage U p configured (leResolved entry) False (RuntimeTrustEvidence entry) = Inr ()"
    using r(4,5) assms(3) by (simp add: authorize_resolved_iff)
  moreover have "teDigest ev = vrDigest r" using r(2) by (auto simp: lockEvidenceFromVerification_def split: if_splits list.splits)
  ultimately show ?thesis using r(1-3) by blast
qed

definition iv_entry :: lock_entry where
  "iv_entry = \<lparr>leConfigured = sample_ref, leResolved = sample_resolved, leDigest = ''sha256:'' @ sample_digest, leTrust = None\<rparr>"

theorem locked_evidence_accepted_witness:
  "\<exists>entry. resolveRepositoryImageWithTrust ascii_unicode iv_policy iv_verify (Inr iv_entry) sample_ref = Inr entry
    \<and> AuthorizeResolvedImage ascii_unicode iv_policy sample_ref sample_resolved False (RuntimeTrustEvidence entry) = Inr ()"
proof -
  obtain ev where ev: "lockEvidenceFromVerification iv_result = Inr ev" by (simp add: lockEvidenceFromVerification_def iv_result_def)
  have e: "resolveRepositoryImageWithTrust ascii_unicode iv_policy iv_verify (Inr iv_entry) sample_ref = Inr (iv_entry\<lparr>leTrust := Some ev\<rparr>)"
    using iv_verified by (simp add: resolveRepositoryImageWithTrust_def iv_trust ev) (simp add: iv_entry_def ev)
  have a: "pAllowedRepositories iv_policy = []" by (simp add: iv_policy_def zero_policy_def)
  show ?thesis using locked_evidence_accepted [OF e iv_trust] a e by (auto simp: iv_entry_def)
qed

section \<open>The release of a self update\<close>

definition up_tag :: string where "up_tag = ''v1.1.0''"


definition up_asset :: "string \<Rightarrow> int \<Rightarrow> asset" where
  "up_asset name n = \<lparr>asName = name, asURL = download_url up_tag name, asSize = n\<rparr>"

definition up_release :: published_release where
  "up_release = \<lparr>rlTagName = up_tag, rlHTMLURL = releaseWebRoot @ ''/tag/'' @ up_tag, rlDraft = False, rlPrerelease = False,
     rlAssets = map (\<lambda>(name, n). \<lparr>raName = name, raBytes = n, raURL = download_url up_tag name\<rparr>)
       [(''cb.exe'', 2), (amd64_archive up_tag, 2), (''SHA256SUMS'', 178), (''notes.txt'', 0)]\<rparr>"

definition up_github :: github where
  "up_github = \<lparr>ghGet = (\<lambda>_. Some \<lparr>haStatus = 200, haBody = Some ''{}''\<rparr>), ghRelease = (\<lambda>_. Some up_release), ghReleases = (\<lambda>_. None)\<rparr>"

definition up_plan :: update_plan where
  "up_plan = \<lparr>upCurrent = ''v1.0.0'', upTarget = up_tag, upChannel = ''stable'', upStatus = ''UPDATE AVAILABLE'', upOS = ''windows'', upArch = ''amd64'',
     upReleaseURL = releaseWebRoot @ ''/tag/'' @ up_tag, upBinary = up_asset ''cb.exe'' 2, upArchive = up_asset (amd64_archive up_tag) 2,
     upChecksums = up_asset ''SHA256SUMS'' 178, upExpectedRepo = ''AviBackToBlack/container-bin'', upExpectedRef = ''refs/tags/'' @ up_tag,
     upWorkflow = ''.github/workflows/release.yml'', upDowngrade = no_downgrade, upLayout = checksumLayoutLegacyAMD64\<rparr>"

lemma up_planned: "releasePlan ascii_unicode up_github ''v1.0.0'' ''windows'' ''amd64'' (no_options\<lparr>uoApply := True\<rparr>) = Inr up_plan"
  by code_simp

text \<open>C30: whatever release the server answers with, a plan that is selected and is not the installed version passes
  both validations, the one before the download and the one before the verification, and it goes back to an
  older version only when the options allow it.\<close>

theorem selected_release_valid:
  assumes "releasePlan U G current goos goarch opts = Inr plan" "upTarget plan \<noteq> current"
  shows "validateStagingPlan U plan = Inr () \<and> (\<exists>c t. currentVersion U current = Inr c \<and> validateVerificationPlan U plan = Inr t
    \<and> svRaw t = upTarget plan \<and> (uoAllowDowngrade opts \<or> precedence_of c \<le> precedence_of t))"
proof -
  from release_plan_sound [OF assms(1)] assms(2) obtain c t where p: "currentVersion U current = Inr c" "parseVersion (upTarget plan) = Inr t"
    "plan_sound U plan c t" "precedence_of t < precedence_of c \<longrightarrow> uoAllowDowngrade opts" by blast
  then have "validateStagingPlan U plan = Inr ()" "validateVerificationPlan U plan = Inr t"
    unfolding staging_plan_iff verification_plan_iff by blast+
  moreover have "uoAllowDowngrade opts \<or> precedence_of c \<le> precedence_of t" using p(4) by (meson not_le)
  ultimately show ?thesis using p(1) parse_version_wf [OF p(2)] by blast
qed

theorem selected_release_valid_witness: "validateStagingPlan ascii_unicode up_plan = Inr ()"
proof -
  have "upTarget up_plan \<noteq> ''v1.0.0''" by code_simp
  from selected_release_valid [OF up_planned this] show ?thesis by blast
qed

text \<open>C34: the two validations of a plan, written independently and in another order, accept the same plans.\<close>

theorem plan_validations_agree: "(validateStagingPlan U plan = Inr ()) = (\<exists>target. validateVerificationPlan U plan = Inr target)"
  unfolding staging_plan_iff verification_plan_iff by blast

text \<open>C33: a checksum manifest is accepted exactly when it consists of one line for each expected asset, in any order,
  each with a lowercase SHA-256 digest, and the line of the artifact has the digest of the staged file.\<close>

theorem checksum_manifest_exact:
  "(verifyChecksumManifest U data plan digest = Inr ())
   = (\<exists>names. checksumManifestNames plan = Inr names \<and> manifest_lists U names (asName (upBinary plan)) digest data)"
  by (rule checksum_manifest_iff)

section \<open>The verification of a release\<close>





















section \<open>The replacement\<close>












section \<open>The helper\<close>









end
