(* ===== verification/Spec2Isabelle.thy ===== *)
theory Spec2Isabelle
  imports Registry_Properties Policy_Properties Store_Properties Trust_Properties Registry_File_Properties Wsl_Properties
    Wsl_Command_Properties Windows_Properties Supply_Properties
begin

text \<open>
  Container Bin (\<open>cb\<close>) runs command line tools in containers. A tool is a profile of the
  registry; its shim starts the program, which resolves the profile, checks the machine policy and
  the image lockfile, maps the arguments and the working directory into the container and runs it.
  A string is a byte string everywhere, a fallible function returns \<open>Inl\<close> an error (a datatype of
  the theory, one constructor per message of the code) or \<open>Inr\<close> a value, and a Go map is an
  association list with distinct keys in an arbitrary order, so that a result that would depend on
  the order of a \<open>range\<close> cannot be proved.

  \<^bold>\<open>The parts and how they interact.\<close> The configuration files (registry, policy, lockfile, project
  overlay, trust store) share one TOML subset. The registry is loaded, authenticated by the policy
  if it lists signing keys, merged with a trusted project overlay, and resolves a name to a tool.
  The policy and the lockfile decide which image runs. On the native WSL2 frontend a tool becomes a
  plan (container request and volumes) and a run over the Docker API, with a lease that lets a later
  pass reap what a dead process has left. On Windows it becomes a \<open>docker run\<close> command line over mapped
  arguments, and an audit inspects the access control lists above the installed files.

  \<^bold>\<open>Foundations\<close> (models of what the source uses of Go's library): \<open>Prelude\<close> (results, loops that stop
  at the first error, Go maps, the collections of rules), \<open>Go_Utf8\<close>, \<open>Go_Strings\<close> (\<open>strings\<close>,
  \<open>strconv\<close>, \<open>bufio.Scanner\<close>, \<open>path\<close>), \<open>Go_Quote\<close> (\<open>Quote\<close>, \<open>Unquote\<close> and their inversion),
  \<open>Go_Time\<close> (RFC 3339), \<open>Go_Base64\<close>, \<open>Go_Sha256\<close>, \<open>Go_Path\<close>, \<open>Platform\<close> (what stays a parameter:
  the Unicode tables, the path rules of the host, \<open>url.Parse\<close>, Ed25519), \<open>Evaluation\<close> (code
  equations for the witnesses), \<open>Line_Facts\<close> and \<open>Config_Lines\<close> (the contract between the writer and
  the reader of a line, a locale that each file format interprets).

  \<^bold>\<open>Configuration and registry.\<close> \<open>Toml\<close> (\<open>internal/toml/toml.go\<close>); \<open>Registry_Syntax\<close>, \<open>Registry\<close>,
  \<open>Registry_Parse\<close>, \<open>Registry_Builtin\<close> (\<open>internal/registry/registry.go\<close>: names, the line loop of
  \<open>ParseTOML\<close> with its state, the checks of a tool, the defaults, \<open>Resolve\<close>, the built-in text);
  \<open>Registry_File\<close> (\<open>file.go\<close>: loading with recovery, the line rewriters, the upgrades). What the
  lemmas show: a parsed registry is well formed (\<open>Registry_Facts\<close>), \<open>validateDefaults\<close> is equivalent
  to a statement without any order and \<open>Resolve\<close> refines it (\<open>Registry_Defaults\<close>), the rewriters change
  exactly what they name (\<open>Registry_File_Facts\<close>, \<open>Set_Default_Facts\<close>, \<open>Registry_Update_Facts\<close>).

  \<^bold>\<open>Policy and lockfile.\<close> \<open>Image_Ref\<close>, \<open>Policy\<close>, \<open>Policy_Auth\<close> (\<open>internal/policy/policy.go\<close>);
  \<open>Lockfile\<close> and \<open>Lock_Store\<close> (\<open>internal/lockfile/lockfile.go\<close>); \<open>Atomicio\<close>
  (\<open>internal/atomicio/atomicio.go\<close>, as a function of the outcomes of its system calls and as a step
  relation for crashes); \<open>Version\<close> (\<open>internal/selfupdate/version.go\<close>); \<open>Image_Verify\<close>
  (\<open>internal/imagetrust/verify.go\<close> and \<open>internal/cli/image_trust.go\<close>: the verification of an image with the
  pinned \<open>cosign\<close>, whose answers and whose staged files are observed at every time at which the code
  looks, and the lock entry recorded from it). \<open>Policy_Facts\<close>, \<open>Policy_Auth_Facts\<close>, \<open>Lockfile_Facts\<close>,
  \<open>Version_Facts\<close> and the lemmas of \<open>Image_Verify\<close> give the well-formedness of what is parsed, declarative
  conditions for every decision, that what is written reads back, and that the policy accepts at run
  time the evidence that locking records.

  \<^bold>\<open>Project overlays.\<close> \<open>Project_Trust\<close> and \<open>Project_Trust_Facts\<close>
  (\<open>internal/projectconfig/projectconfig.go\<close>): an overlay counts only while it is trusted, byte for
  byte, at its place, and a merge only adds tools.

  \<^bold>\<open>Native WSL2 frontend.\<close> \<open>Wsl_Host\<close> (\<open>internal/hostenv\<close>), \<open>Wsl_Project\<close> (\<open>internal/wslproject\<close>),
  \<open>Wsl_Pathmap\<close> (\<open>internal/wslpathmap\<close>, over any classifier that satisfies the locale
  \<open>project_boundary\<close>), \<open>Wsl_Volume\<close> (\<open>internal/wslvolume\<close>), \<open>Docker_Stream\<close> and \<open>Wsl_Create\<close>
  (\<open>internal/wsldocker\<close>), \<open>Wsl_Plan\<close>, \<open>Wsl_Run\<close> and \<open>Wsl_Frontend\<close> (\<open>internal/wslrun\<close>), \<open>Wsl_Shim\<close>
  (\<open>internal/wslshim\<close>), \<open>Wsl_Reconcile\<close> and \<open>Wsl_Lease_Protocol\<close> (\<open>internal/wslreconcile\<close>).
  The \<open>_Facts\<close> theories show what a successful plan, run and pass guarantee; \<open>Wsl_Demo\<close> is the host on
  which the properties are evaluated.

  \<^bold>\<open>Windows.\<close> \<open>Host_Paths\<close> (what the program uses of \<open>path/filepath\<close>, a record because the rules are those
  of the operating system; the locale \<open>path_boundary\<close> states the documented laws, proved for the
  Unix rules), \<open>Win_Pathmap\<close> (\<open>internal/pathmap\<close>: arguments, mounts, projects,
  volume names), \<open>Docker_Run\<close> (\<open>internal/dockerrun\<close> and \<open>internal/dockervol\<close>: the argument list, the
  volumes before it, the order of a run), \<open>Acl_Descriptor\<close> and \<open>Acl_Audit\<close> (\<open>internal/aclaudit\<close>: the binary
  decoder with its bounds, the classification of an object, the walk with its second look),
  \<open>State_Archive\<close> (\<open>internal/statearchive\<close>: backup, opening, plan and restore of volumes).
  The \<open>_Facts\<close> theories show that the walks return, that every argument names the path it stood for, that
  Docker reads every mount as it was meant, that the decoder never leaves its input and inverts an
  encoder, what a favourable audit has seen, that the entries of an archive stay in their volume
  (\<open>State_Archive_Facts\<close>), and that a restore fills only volumes that it may fill.

  \<^bold>\<open>Self update.\<close> \<open>Update_Plan\<close> (\<open>internal/selfupdate/selfupdate.go\<close> and the two validations of a plan in
  \<open>stage.go\<close> and \<open>verify.go\<close>: the options, the choice of a release, its assets), \<open>Update_Verify\<close> (\<open>stage.go\<close>,
  \<open>verify.go\<close>: the download and its redirects, the staging directory, the checksum manifest, the attestation, the
  executable of an archive), \<open>Update_Apply\<close> (\<open>apply.go\<close>: the preparation and the transaction with its rollback,
  over an environment that may change any file between two events, with a log of every look and replacement)
  and \<open>Update_Helper\<close> (\<open>helper.go\<close> and the \<open>run\<close> of the command: the launch of the helper, the checks of its
  request, what it applies). The lemmas show that both validations accept the same plans and that a selected
  release passes them, what is known of a verified release, and what the log of a transaction guarantees
  (\<open>guarded\<close>) whatever the environment does.

  \<^bold>\<open>Observations of the outside.\<close> The file system of the WSL path checks is observed twice, before and
  after the walk of a proof, by two independent records, because the code re-reads the mount table;
  nothing is assumed to be equal between them. The audit reads every object twice and every absent
  file twice, each time from another function; the Windows path mapping, which looks once at each
  path, has one function. Answers of the Docker engine, of the terminal and of the
  lease guard are fields of records; what the goroutines of a run deliver is one list of messages
  in the order in which the \<open>select\<close> loop takes them, and a list that ends before the loop returns
  means that the run is still going on (\<open>None\<close>). In the lease protocol a step is what one process does
  between two points where another may act, a process may die at any point, and a new run has an
  identifier that was never used (the code draws 128 random bits).

  \<^bold>\<open>Bounds and fuel.\<close> Loops that the source ends by consuming input are structural or have a measure.
  Walks towards the root of a path end on canonical absolute paths, which is proved, not assumed; there
  they are partial functions and a claim states that they return. A scanner accepts tokens below 65536
  bytes; a frame of the Docker stream has a 32-bit length; SHA-256 constants are computed from integer
  roots of the primes, with 37 bits for the largest radicand.

  \<^bold>\<open>Not modelled.\<close> Printing, prompts and dispatch (\<open>main.go\<close>, \<open>internal/cli\<close>, the \<open>command.go\<close> files),
  diagnostics gathered from external programs, subprocesses (\<open>docker\<close>, \<open>cosign\<close>, \<open>gh\<close>), HTTP, and the
  encodings of JSON, zip and tar, system calls on locks, links and permissions, the transport
  of the self update, its lock and the start of its processes, the debug trace of a run and the Windows calls
  that read an object for the audit. They consist of calls to the operating system or to other programs, or print; where a
  modelled component needs their answer it is an argument.

  The properties stand in \<open>Registry_Properties\<close>, \<open>Policy_Properties\<close>, \<open>Store_Properties\<close>,
  \<open>Registry_File_Properties\<close>, \<open>Trust_Properties\<close>, \<open>Wsl_Properties\<close>, \<open>Wsl_Command_Properties\<close>,
  \<open>Windows_Properties\<close> and \<open>Supply_Properties\<close>.
\<close>

end
